(* ===== verification/Prelude.thy ===== *)
theory Prelude
  imports Main "HOL-Library.Word"
begin

unbundle bit_operations_syntax

text \<open>
  Shared vocabulary of the development: machine types, the outcome of an operation
  that may bring the process down, bounded copies between buffers, the bit strings
  of bytes and integers, and arithmetic of sequence numbers modulo a power of two.

  A C pair \<open>(char *buffer, int size)\<close> is a list of bytes whose length is the size.
  A C \<open>int\<close> is an \<open>int\<close>; an unsigned type of a given width is a word of that width.
\<close>

type_synonym byte = "8 word"
type_synonym u32 = "32 word"
type_synonym u64 = "64 word"

named_theorems bits_simps \<open>bit strings of bytes, integers and codec positions\<close>
named_theorems sn_simps \<open>sequence numbers relative to a modulus base\<close>
named_theorems result_simps \<open>unfolding of the outcome type\<close>

section \<open>Outcomes\<close>

text \<open>
  \<open>Exit\<close> is a call of \<open>exit(1)\<close> or a failed \<open>AssertFatal\<close> / \<open>DevAssert\<close>; the others are the
  undefined behaviours the code can run into: a NULL pointer dereference, an access outside
  of a buffer, an access to freed memory, and a loop that never ends.
\<close>

datatype crash = Exit | NullDeref | OutOfBounds | UseAfterFree | Hang

type_synonym 'a result = "crash + 'a"

definition bindR :: "'a result \<Rightarrow> ('a \<Rightarrow> 'b result) \<Rightarrow> 'b result" where
  "bindR m f = (case m of Inl c \<Rightarrow> Inl c | Inr x \<Rightarrow> f x)"

lemma bindR_Inr [simp]: "bindR (Inr x) f = f x"
  by (simp add: bindR_def)

lemma bindR_Inl [simp]: "bindR (Inl c) f = Inl c"
  by (simp add: bindR_def)

lemma bindR_eq_Inr [result_simps]: "bindR m f = Inr y \<longleftrightarrow> (\<exists>x. m = Inr x \<and> f x = Inr y)"
  by (cases m) auto

lemma bindR_eq_Inl [result_simps]:
  "bindR m f = Inl c \<longleftrightarrow> m = Inl c \<or> (\<exists>x. m = Inr x \<and> f x = Inl c)"
  by (cases m) auto

lemma bindR_assoc: "bindR (bindR m f) g = bindR m (\<lambda>x. bindR (f x) g)"
  by (cases m) auto

section \<open>Bounded copies\<close>

text \<open>
  The two halves of \<open>memcpy (dst + off, src + soff, len)\<close>: reading \<open>len\<close> bytes of a buffer
  and overwriting part of a buffer. Leaving the buffer is undefined behaviour, and a negative
  length is a huge \<open>size_t\<close>.
\<close>

definition slice :: "'a list \<Rightarrow> int \<Rightarrow> int \<Rightarrow> 'a list result" where
  "slice src off len =
     (if 0 \<le> off \<and> 0 \<le> len \<and> off + len \<le> int (length src)
      then Inr (take (nat len) (drop (nat off) src)) else Inl OutOfBounds)"

definition blit :: "'a list \<Rightarrow> int \<Rightarrow> 'a list \<Rightarrow> 'a list result" where
  "blit dst off src =
     (if 0 \<le> off \<and> off + int (length src) \<le> int (length dst)
      then Inr (take (nat off) dst @ src @ drop (nat off + length src) dst)
      else Inl OutOfBounds)"

lemma slice_ok:
  "0 \<le> off \<Longrightarrow> 0 \<le> len \<Longrightarrow> off + len \<le> int (length src) \<Longrightarrow>
   slice src off len = Inr (take (nat len) (drop (nat off) src))"
  by (simp add: slice_def)

lemma slice_length: "slice src off len = Inr xs \<Longrightarrow> int (length xs) = len"
  by (auto simp: slice_def split: if_splits)

lemma blit_ok:
  "0 \<le> off \<Longrightarrow> off + int (length src) \<le> int (length dst) \<Longrightarrow>
   blit dst off src = Inr (take (nat off) dst @ src @ drop (nat off + length src) dst)"
  by (simp add: blit_def)

lemma blit_length: "blit dst off src = Inr xs \<Longrightarrow> length xs = length dst"
  by (auto simp: blit_def nat_le_iff split: if_splits)

section \<open>Bit strings\<close>

text \<open>Most significant bit first, as both sides of the air interface transmit them.\<close>

definition byte_bits :: "byte \<Rightarrow> bool list" where
  "byte_bits b = map (bit b) (rev [0..<8])"

definition bytes_bits :: "byte list \<Rightarrow> bool list" where
  "bytes_bits bs = concat (map byte_bits bs)"

definition int_bits :: "int \<Rightarrow> nat \<Rightarrow> bool list" where
  "int_bits v n = map (bit v) (rev [0..<n])"

definition bits_int :: "bool list \<Rightarrow> int" where
  "bits_int bs = foldl (\<lambda>a b. 2 * a + of_bool b) 0 bs"

lemma length_byte_bits [simp, bits_simps]: "length (byte_bits b) = 8"
  by (simp add: byte_bits_def)

lemma bytes_bits_Nil [simp]: "bytes_bits [] = []"
  by (simp add: bytes_bits_def)

lemma bytes_bits_Cons [simp]: "bytes_bits (b # bs) = byte_bits b @ bytes_bits bs"
  by (simp add: bytes_bits_def)

lemma bytes_bits_append [simp]: "bytes_bits (xs @ ys) = bytes_bits xs @ bytes_bits ys"
  by (simp add: bytes_bits_def)

lemma length_bytes_bits [simp, bits_simps]: "length (bytes_bits bs) = 8 * length bs"
  by (induction bs) simp_all

lemma length_int_bits [simp, bits_simps]: "length (int_bits v n) = n"
  by (simp add: int_bits_def)

lemma int_bits_0 [simp]: "int_bits v 0 = []"
  by (simp add: int_bits_def)

lemma int_bits_Suc: "int_bits v (Suc n) = bit v n # int_bits v n"
  by (simp add: int_bits_def)

lemma bytes_bits_nth:
  "i < length bs \<Longrightarrow> j < 8 \<Longrightarrow> bytes_bits bs ! (8 * i + j) = bit (bs ! i) (7 - j)"
proof (induction bs arbitrary: i)
  case Nil
  then show ?case by simp
next
  case (Cons b bs)
  show ?case
  proof (cases i)
    case 0
    with Cons.prems show ?thesis
      by (simp add: nth_append byte_bits_def rev_nth del: upt_rec_numeral)
  next
    case (Suc k)
    with Cons show ?thesis by (simp add: nth_append)
  qed
qed

lemma drop_bytes_bits: "drop (8 * n) (bytes_bits bs) = bytes_bits (drop n bs)"
proof (induction bs arbitrary: n)
  case Nil
  then show ?case by simp
next
  case (Cons b bs)
  then show ?case by (cases n) simp_all
qed

lemma take_bytes_bits: "take (8 * n) (bytes_bits bs) = bytes_bits (take n bs)"
proof (induction bs arbitrary: n)
  case Nil
  then show ?case by simp
next
  case (Cons b bs)
  then show ?case by (cases n) simp_all
qed

lemma bits_int_Nil [simp]: "bits_int [] = 0"
  by (simp add: bits_int_def)

lemma bits_int_snoc: "bits_int (bs @ [b]) = 2 * bits_int bs + of_bool b"
  by (simp add: bits_int_def)

lemma bits_int_append: "bits_int (xs @ ys) = bits_int xs * 2 ^ length ys + bits_int ys"
  by (induction ys rule: rev_induct) (simp_all add: bits_int_snoc algebra_simps flip: append_assoc)

lemma bits_int_bounds: "0 \<le> bits_int bs \<and> bits_int bs < 2 ^ length bs"
  by (induction bs rule: rev_induct) (auto simp: bits_int_snoc)

lemma bits_int_horner: "bits_int bs = horner_sum of_bool 2 (rev bs)"
  by (induction bs rule: rev_induct) (simp_all add: bits_int_snoc)

lemma bits_int_int_bits: "bits_int (int_bits v n) = take_bit n v"
  by (simp add: bits_int_horner int_bits_def rev_map horner_sum_bit_eq_take_bit)

lemma bits_int_int_bits_id: "0 \<le> v \<Longrightarrow> v < 2 ^ n \<Longrightarrow> bits_int (int_bits v n) = v"
  by (simp add: bits_int_int_bits take_bit_int_eq_self)

lemma byte_bits_inject: "byte_bits a = byte_bits b \<longleftrightarrow> a = b"
proof
  assume eq: "byte_bits a = byte_bits b"
  show "a = b"
  proof (rule bit_word_eqI)
    fix n assume "n < LENGTH(8)"
    then show "bit a n \<longleftrightarrow> bit b n"
      using eq by (auto simp: byte_bits_def)
  qed
qed simp

lemma bytes_bits_inject: "bytes_bits xs = bytes_bits ys \<longleftrightarrow> xs = ys"
proof (induction xs arbitrary: ys)
  case Nil
  have "bytes_bits ys = [] \<longleftrightarrow> ys = []"
    using length_bytes_bits [of ys] by (metis bytes_bits_Nil length_0_conv mult_is_0 zero_neq_numeral)
  then show ?case by (metis bytes_bits_Nil)
next
  case (Cons x xs)
  show ?case
  proof (cases ys)
    case Nil
    then show ?thesis
      by (metis append_is_Nil_conv bytes_bits_Cons bytes_bits_Nil length_byte_bits list.distinct(1)
          list.size(3) zero_neq_numeral)
  next
    case (Cons y zs)
    then show ?thesis
      by (simp add: append_eq_append_conv byte_bits_inject Cons.IH)
  qed
qed

section \<open>Sequence numbers\<close>

text \<open>
  The distance of a sequence number from a base, as the code computes it: one conditional
  addition of the modulus, which is the true remainder for numbers below the modulus.
\<close>

definition sn_dist :: "int \<Rightarrow> int \<Rightarrow> int \<Rightarrow> int" where
  "sn_dist m base a = (let r = a - base in if r < 0 then r + m else r)"

lemma sn_dist_mod [sn_simps]:
  "0 \<le> a \<Longrightarrow> a < m \<Longrightarrow> 0 \<le> base \<Longrightarrow> base < m \<Longrightarrow> sn_dist m base a = (a - base) mod m"
  using mod_pos_pos_trivial [of "a - base" m] mod_pos_pos_trivial [of "a - base + m" m]
  by (auto simp: sn_dist_def Let_def)

lemma sn_dist_bounds:
  "0 \<le> a \<Longrightarrow> a < m \<Longrightarrow> 0 \<le> base \<Longrightarrow> base < m \<Longrightarrow> 0 \<le> sn_dist m base a \<and> sn_dist m base a < m"
  by (auto simp: sn_dist_def Let_def)

lemma sn_dist_inject:
  "0 \<le> a \<Longrightarrow> a < m \<Longrightarrow> 0 \<le> b \<Longrightarrow> b < m \<Longrightarrow> 0 \<le> base \<Longrightarrow> base < m \<Longrightarrow>
   sn_dist m base a = sn_dist m base b \<longleftrightarrow> a = b"
  by (auto simp: sn_dist_def Let_def split: if_splits)

lemma sn_dist_self [simp]: "sn_dist m base base = 0"
  by (simp add: sn_dist_def)

text \<open>Moving the base forward to a number at distance \<open>d\<close> shortens every larger distance by \<open>d\<close>.\<close>

lemma sn_dist_shift:
  "0 \<le> a \<Longrightarrow> a < m \<Longrightarrow> 0 \<le> b \<Longrightarrow> b < m \<Longrightarrow> 0 \<le> base \<Longrightarrow> base < m \<Longrightarrow>
   sn_dist m base b \<le> sn_dist m base a \<Longrightarrow>
   sn_dist m b a = sn_dist m base a - sn_dist m base b"
  by (auto simp: sn_dist_def Let_def split: if_splits)

section \<open>Ordered linked lists\<close>

text \<open>
  The insertion loop of every singly linked list of the user plane (\<open>head\<close>, \<open>prev\<close> and \<open>cur\<close>
  pointers): the new node goes in front of the first node for which the loop breaks.
\<close>

fun insert_before :: "('a \<Rightarrow> bool) \<Rightarrow> 'a \<Rightarrow> 'a list \<Rightarrow> 'a list" where
  "insert_before stop x [] = [x]"
| "insert_before stop x (cur # l) = (if stop cur then x # cur # l else cur # insert_before stop x l)"

lemma set_insert_before [simp]: "set (insert_before stop x l) = insert x (set l)"
  by (induction l) auto

lemma length_insert_before [simp]: "length (insert_before stop x l) = Suc (length l)"
  by (induction l) auto

lemma insert_before_not_Nil [simp]: "insert_before stop x l \<noteq> []"
  by (cases l) auto

lemma insert_before_split: "insert_before stop x l = takeWhile (Not \<circ> stop) l @ x # dropWhile (Not \<circ> stop) l"
  by (induction l) auto

lemma sum_list_map_insert_before:
  fixes f :: "'a \<Rightarrow> int"
  shows "sum_list (map f (insert_before stop x l)) = f x + sum_list (map f l)"
  by (induction l) auto

text \<open>
  The order of the RLC lists: by sequence number as compared by the entity, then by segment
  offset. \<open>list_before cmp sn so x y\<close>: \<open>x\<close> may stand in front of \<open>y\<close>.
\<close>

definition list_before :: "(int \<Rightarrow> int \<Rightarrow> int) \<Rightarrow> ('a \<Rightarrow> int) \<Rightarrow> ('a \<Rightarrow> int) \<Rightarrow> 'a \<Rightarrow> 'a \<Rightarrow> bool" where
  "list_before cmp sn so x y \<longleftrightarrow> cmp (sn y) (sn x) > 0 \<or> sn y = sn x \<and> so x \<le> so y"

text \<open>
  The contract of a sequence number comparison: on the numbers the entity handles it is a
  linear order whose zero is equality. Every client of an ordered list relies on this and
  nothing else about the entity.
\<close>

locale sn_order =
  fixes cmp :: "int \<Rightarrow> int \<Rightarrow> int"
    and valid :: "int \<Rightarrow> bool"
  assumes cmp_zero: "valid a \<Longrightarrow> valid b \<Longrightarrow> cmp a b = 0 \<longleftrightarrow> a = b"
    and cmp_flip: "valid a \<Longrightarrow> valid b \<Longrightarrow> cmp a b > 0 \<longleftrightarrow> cmp b a < 0"
    and cmp_trans: "valid a \<Longrightarrow> valid b \<Longrightarrow> valid c \<Longrightarrow> cmp a b > 0 \<Longrightarrow> cmp b c > 0 \<Longrightarrow> cmp a c > 0"
begin

lemma before_trans:
  assumes "valid (sn x)" "valid (sn y)" "valid (sn z)"
    and "list_before cmp sn so x y" "list_before cmp sn so y z"
  shows "list_before cmp sn so x z"
  using assms cmp_trans [of "sn z" "sn y" "sn x"] by (auto simp: list_before_def)

lemma before_total:
  assumes "valid (sn x)" "valid (sn y)"
  shows "list_before cmp sn so x y \<or> cmp (sn x) (sn y) > 0 \<or> sn x = sn y \<and> so x > so y"
  using assms cmp_zero [of "sn y" "sn x"] cmp_flip [of "sn y" "sn x"] cmp_flip [of "sn x" "sn y"]
  by (auto simp: list_before_def)

lemma sorted_insert:
  assumes "\<forall>y \<in> set l. valid (sn y)" and "valid (sn x)"
    and "sorted_wrt (list_before cmp sn so) l"
  shows "sorted_wrt (list_before cmp sn so)
    (insert_before (\<lambda>cur. cmp (sn cur) (sn x) > 0 \<or> sn cur = sn x \<and> so cur > so x) x l)"
  using assms
proof (induction l)
  case Nil
  then show ?case by simp
next
  case (Cons c l)
  show ?case
  proof (cases "cmp (sn c) (sn x) > 0 \<or> sn c = sn x \<and> so c > so x")
    case True
    then have xc: "list_before cmp sn so x c" by (auto simp: list_before_def)
    have "list_before cmp sn so x y" if "y \<in> set l" for y
      using before_trans [OF _ _ _ xc, of y] Cons.prems that by auto
    with True xc Cons.prems show ?thesis by auto
  next
    case False
    then have "list_before cmp sn so c x"
      using before_total [of sn c x so] Cons.prems by auto
    with False Cons show ?thesis by auto
  qed
qed

end

text \<open>The distance from a base compares sequence numbers as the contract asks.\<close>

lemma sn_dist_order:
  assumes "0 \<le> base" "base < m"
  shows "sn_order (\<lambda>a b. sn_dist m base a - sn_dist m base b) (\<lambda>a. 0 \<le> a \<and> a < m)"
  by unfold_locales (use assms sn_dist_inject [of _ m _ base] in auto)

end
