(* ===== verification/Dc_Split.thy ===== *)
theory Dc_Split
  imports Complex_Main Prelude
begin

text \<open>
  Dual connectivity (\<open>nr_pdcp_dc_split.c\<close>, \<open>nr_pdcp_dc_split.h\<close>, and from \<open>nr_pdcp_oai_api.c\<close> the
  initialisation of a user and the table of forwarding information): the split of the downlink
  packets of a user between LTE and NR. A \<open>double\<close> is a rational number here; rounding is not
  modelled. Every operation of the code on a user runs under the mutex of the user and is one step
  of the model; the update thread takes the mutex twice per round and is two steps.
\<close>

section \<open>Configuration\<close>

record dc_config =
  cf_mp_technique :: string
  cf_buffer_threshold :: rat
  cf_dc_disable_buffer_thres :: rat
  cf_alpha :: rat

definition dc_config_default :: dc_config where
  "dc_config_default = \<lparr>cf_mp_technique = ''Commercial5G'', cf_buffer_threshold = 50000,
     cf_dc_disable_buffer_thres = 1000, cf_alpha = 2 / 10\<rparr>"

text \<open>
  \<open>strtok\<close> with one delimiter: the token and what is left behind it. \<open>atof\<close> on numbers in decimal
  notation: blanks, a sign, digits, a fraction; it stops at the first character that does not fit.
\<close>

definition strtok :: "char \<Rightarrow> string \<Rightarrow> (string \<times> string) option" where
  "strtok delim s =
     (let s' = dropWhile (\<lambda>c. c = delim) s
      in if s' = [] then None
         else Some (takeWhile (\<lambda>c. c \<noteq> delim) s', drop 1 (dropWhile (\<lambda>c. c \<noteq> delim) s')))"

definition digit_val :: "char \<Rightarrow> nat" where
  "digit_val c = of_char c - 48"

definition is_digit :: "char \<Rightarrow> bool" where
  "is_digit c \<longleftrightarrow> 48 \<le> (of_char c :: nat) \<and> (of_char c :: nat) \<le> 57"

definition digits_val :: "string \<Rightarrow> rat" where
  "digits_val ds = foldl (\<lambda>a d. 10 * a + of_nat (digit_val d)) 0 ds"

definition atof :: "string \<Rightarrow> rat" where
  "atof s0 =
     (let s = dropWhile (\<lambda>c. of_char c \<in> {9, 10, 11, 12, 13, 32 :: nat}) s0;
          (neg, s1) = (case s of c # r \<Rightarrow> if c = CHR ''-'' then (True, r) else if c = CHR ''+'' then (False, r) else (False, s)
                       | [] \<Rightarrow> (False, []));
          ip = takeWhile is_digit s1;
          r1 = dropWhile is_digit s1;
          fp = (case r1 of c # r \<Rightarrow> if c = CHR ''.'' then takeWhile is_digit r else [] | [] \<Rightarrow> []);
          v = digits_val ip + digits_val fp / 10 ^ length fp
      in if neg then - v else v)"

text \<open>One line of the configuration file; \<open>strncpy\<close> keeps 49 characters.\<close>

definition load_config_line :: "string \<Rightarrow> dc_config \<Rightarrow> dc_config" where
  "load_config_line line c =
     (case strtok CHR '','' line of
        None \<Rightarrow> c
      | Some (field, rest) \<Rightarrow>
          (case strtok (CHR 0x0A) rest of
             None \<Rightarrow> c
           | Some (v, _) \<Rightarrow>
               if field = ''MP-TECHNIQUE'' then c\<lparr>cf_mp_technique := take 49 v\<rparr>
               else if field = ''BUFFER-THRESHOLD'' then c\<lparr>cf_buffer_threshold := atof v\<rparr>
               else if field = ''ALPHA'' then c\<lparr>cf_alpha := atof v\<rparr>
               else c))"

text \<open>\<open>load_config\<close> on the lines that \<open>fgets\<close> returns; \<open>None\<close> is a file that cannot be opened.\<close>

definition load_config :: "string list option \<Rightarrow> dc_config \<Rightarrow> dc_config" where
  "load_config file c = (case file of None \<Rightarrow> c | Some ls \<Rightarrow> fold load_config_line ls c)"

section \<open>The state of a user\<close>

record dc_user =
  du_user_id :: int
  du_ewma_lte_throughput :: rat
  du_ewma_nr_throughput :: rat
  du_lte_queue_size :: rat
  du_nr_queue_size :: rat
  du_lte_acked_bytes :: rat
  du_nr_acked_bytes :: rat
  du_target_split_ratio :: rat
  du_routing_history :: "bool list"
  du_routing_index :: nat
  du_use_dc :: bool
  du_is_active :: bool
  du_lte_packets :: u64
  du_nr_packets :: u64

definition HISTORY_SIZE :: nat where "HISTORY_SIZE = 50"

text \<open>
  The memory of the user comes from \<open>malloc\<close>: the argument is what it holds. The two counters of
  acknowledged bytes are not assigned.
\<close>

definition initialize_dc_user :: "dc_user \<Rightarrow> int \<Rightarrow> dc_user" where
  "initialize_dc_user user user_id =
     user\<lparr>du_user_id := user_id, du_ewma_lte_throughput := 0, du_ewma_nr_throughput := 0,
          du_lte_queue_size := 0, du_nr_queue_size := 0, du_target_split_ratio := 0,
          du_routing_history := replicate HISTORY_SIZE False, du_routing_index := 0, du_use_dc := False,
          du_is_active := True, du_lte_packets := 0, du_nr_packets := 0\<rparr>"

definition update_nr_info :: "dc_user \<Rightarrow> int \<Rightarrow> int \<Rightarrow> dc_user" where
  "update_nr_info user nr_acked nr_queue_size =
     user\<lparr>du_nr_queue_size := of_int nr_queue_size, du_nr_acked_bytes := du_nr_acked_bytes user + of_int nr_acked\<rparr>"

definition update_lte_info :: "dc_user \<Rightarrow> int \<Rightarrow> int \<Rightarrow> dc_user" where
  "update_lte_info user lte_acked lte_queue_size =
     user\<lparr>du_lte_queue_size := of_int lte_queue_size, du_lte_acked_bytes := du_lte_acked_bytes user + of_int lte_acked\<rparr>"

definition update_ewma :: "rat \<Rightarrow> rat \<Rightarrow> rat \<Rightarrow> rat" where
  "update_ewma current_throughput previous_ewma alpha =
     (if previous_ewma = 0 then current_throughput
      else alpha * current_throughput + (1 - alpha) * previous_ewma)"

section \<open>The target split ratio\<close>

text \<open>The queueing delays that \<open>minRTT\<close> compares.\<close>

definition dc_delay :: "rat \<Rightarrow> rat \<Rightarrow> rat" where
  "dc_delay queue throughput = queue / (throughput + 1 / 1000)"

text \<open>The hysteresis of \<open>use_dc\<close> inside the branch where splitting is on.\<close>

definition dc_hysteresis :: "dc_config \<Rightarrow> dc_user \<Rightarrow> dc_user" where
  "dc_hysteresis cf user = user\<lparr>du_use_dc := \<not> (du_nr_queue_size user < cf_dc_disable_buffer_thres cf)\<rparr>"

definition calculate_split_ratio :: "dc_config \<Rightarrow> dc_user \<Rightarrow> dc_user" where
  "calculate_split_ratio cf user =
     (let lte_delay = dc_delay (du_lte_queue_size user) (du_ewma_lte_throughput user);
          nr_delay = dc_delay (du_nr_queue_size user) (du_ewma_nr_throughput user);
          on = (du_nr_queue_size user > cf_buffer_threshold cf \<or> du_use_dc user)
      in if cf_mp_technique cf = ''OnlyLTE'' then user\<lparr>du_target_split_ratio := 1\<rparr>
         else if cf_mp_technique cf = ''OnlyNR'' then user\<lparr>du_target_split_ratio := 0\<rparr>
         else if cf_mp_technique cf = ''minRTT'' then
           (if on
            then (dc_hysteresis cf user)\<lparr>du_target_split_ratio := (if lte_delay < nr_delay then 1 else 0)\<rparr>
            else user\<lparr>du_target_split_ratio := 0\<rparr>)
         else if cf_mp_technique cf = ''Throughput'' then
           (if on
            then (dc_hysteresis cf user)\<lparr>du_target_split_ratio :=
                   (if du_ewma_lte_throughput user < 1 / 1000 then 1 / 10
                    else du_ewma_lte_throughput user /
                         (du_ewma_lte_throughput user + du_ewma_nr_throughput user))\<rparr>
            else
              let user1 = user\<lparr>du_target_split_ratio := 0\<rparr>
              in if du_nr_queue_size user1 < cf_dc_disable_buffer_thres cf
                 then user1\<lparr>du_use_dc := False\<rparr> else user1)
         else if cf_mp_technique cf = ''PAVE'' then user\<lparr>du_target_split_ratio := 0\<rparr>
         else user)"

section \<open>Routing\<close>

definition count_lte_routing :: "dc_user \<Rightarrow> nat" where
  "count_lte_routing user = length (filter (\<lambda>b. b) (du_routing_history user))"

text \<open>\<open>True\<close> is a packet to LTE. A write outside of the history is an access out of bounds.\<close>

definition pdcp_multi_path_routing :: "dc_user \<Rightarrow> (bool \<times> dc_user) result" where
  "pdcp_multi_path_routing user =
     (let current_split_ratio = of_nat (count_lte_routing user) / of_nat HISTORY_SIZE;
          to_lte = (current_split_ratio \<le> du_target_split_ratio user - 1 / 1000);
          i = du_routing_index user
      in if i \<ge> length (du_routing_history user) then Inl OutOfBounds
         else
           let user1 = user\<lparr>du_routing_history := (du_routing_history user)[i := to_lte],
                            du_routing_index := (i + 1) mod HISTORY_SIZE\<rparr>
           in Inr (to_lte, if to_lte then user1\<lparr>du_lte_packets := du_lte_packets user1 + 1\<rparr>
                           else user1\<lparr>du_nr_packets := du_nr_packets user1 + 1\<rparr>))"

section \<open>The update thread\<close>

text \<open>
  One round of \<open>update_ewma_thread\<close> up to the end of its critical section; \<open>None\<close> is the end of the
  thread. The split ratio is recalculated afterwards, in a critical section of its own.
\<close>

definition ewma_round :: "dc_config \<Rightarrow> rat \<Rightarrow> dc_user \<Rightarrow> dc_user option" where
  "ewma_round cf elapsed user =
     (let elapsed_time = (if elapsed = 0 then 1 / 10 else elapsed)
      in if \<not> du_is_active user then None
         else Some (user\<lparr>
           du_ewma_lte_throughput := update_ewma (du_lte_acked_bytes user / elapsed_time) (du_ewma_lte_throughput user) (cf_alpha cf),
           du_ewma_nr_throughput := update_ewma (du_nr_acked_bytes user / elapsed_time) (du_ewma_nr_throughput user) (cf_alpha cf),
           du_lte_acked_bytes := 0, du_nr_acked_bytes := 0\<rparr>))"

text \<open>\<open>remove_dc_user\<close> clears the flag, waits for the thread and frees the user.\<close>

definition remove_dc_user_flag :: "dc_user \<Rightarrow> dc_user" where
  "remove_dc_user_flag user = user\<lparr>du_is_active := False\<rparr>"

section \<open>Forwarding information\<close>

text \<open>
  \<open>forward_info_map_t\<close>: a slot per UE, free when its RNTI is 0. A slot keeps the forwarding
  information of which only the fields that the code copies as a whole matter here.
\<close>

record forward_info =
  fi_menb_ue_x2_id :: int
  fi_sgnb_ue_x2_id :: int
  fi_rnti :: u64
  fi_nr_rnti :: u64
  fi_assoc_id :: int
  fi_user :: "nat option"

definition forward_info_zero :: forward_info where
  "forward_info_zero = \<lparr>fi_menb_ue_x2_id = 0, fi_sgnb_ue_x2_id = 0, fi_rnti = 0, fi_nr_rnti = 0,
     fi_assoc_id = 0, fi_user = None\<rparr>"

type_synonym forward_info_map = "(int \<times> forward_info) list"

fun add_forward_info :: "forward_info_map \<Rightarrow> int \<Rightarrow> forward_info \<Rightarrow> forward_info_map" where
  "add_forward_info [] rnti info = []"
| "add_forward_info ((r, i) # m) rnti info =
     (if r = 0 \<or> r = rnti then (rnti, info) # m else (r, i) # add_forward_info m rnti info)"

fun get_forward_info :: "forward_info_map \<Rightarrow> int \<Rightarrow> forward_info option" where
  "get_forward_info [] rnti = None"
| "get_forward_info ((r, i) # m) rnti = (if r = rnti then Some i else get_forward_info m rnti)"

text \<open>
  The removal clears the first slot of the RNTI of the table; the user that is removed (the second
  result) is the one that \<open>g_forward_info_map\<close> has for the RNTI.
\<close>

fun remove_slot :: "forward_info_map \<Rightarrow> int \<Rightarrow> forward_info_map" where
  "remove_slot [] rnti = []"
| "remove_slot ((r, i) # m) rnti = (if r = rnti then (0, forward_info_zero) # m else (r, i) # remove_slot m rnti)"

definition remove_forward_info ::
  "forward_info_map \<Rightarrow> forward_info_map \<Rightarrow> int \<Rightarrow> forward_info_map \<times> nat option" where
  "remove_forward_info g_map tbl rnti =
     (if get_forward_info tbl rnti = None then (tbl, None)
      else case get_forward_info g_map rnti of
             None \<Rightarrow> (tbl, None)
           | Some info \<Rightarrow> (remove_slot tbl rnti, fi_user info))"

section \<open>The split follows the target\<close>

text \<open>
  \<open>dc_band\<close>: the largest number of LTE packets in the history at which the next packet still goes
  to LTE. The count moves into the band of this number and the next one and stays there.
\<close>

definition dc_band :: "rat \<Rightarrow> int" where
  "dc_band target = \<lfloor>50 * target - 5 / 100\<rfloor>"

definition dc_history_ok :: "dc_user \<Rightarrow> bool" where
  "dc_history_ok user \<longleftrightarrow> length (du_routing_history user) = HISTORY_SIZE \<and> du_routing_index user < HISTORY_SIZE"

lemma route_to_lte_iff:
  "of_nat c / of_nat HISTORY_SIZE \<le> target - 1 / 1000 \<longleftrightarrow> int c \<le> dc_band target"
proof -
  have "(of_nat c / of_nat HISTORY_SIZE \<le> target - 1 / 1000) = (of_nat c \<le> 50 * target - 5 / 100)"
    by (simp add: HISTORY_SIZE_def field_simps)
  also have "\<dots> = (int c \<le> dc_band target)"
    unfolding dc_band_def le_floor_iff by simp
  finally show ?thesis .
qed

lemma count_update:
  "i < length h \<Longrightarrow> length (filter (\<lambda>b. b) (h[i := v])) + of_bool (h ! i) = length (filter (\<lambda>b. b) h) + of_bool v"
proof (induction h arbitrary: i)
  case Nil
  then show ?case by simp
next
  case (Cons x h)
  then show ?case by (cases i) auto
qed

text \<open>One packet: the decision, the history with the oldest entry replaced, and the counters.\<close>

lemma routing_step:
  assumes "dc_history_ok user"
  defines "v \<equiv> int (count_lte_routing user) \<le> dc_band (du_target_split_ratio user)"
  defines "h \<equiv> (du_routing_history user)[du_routing_index user := v]"
  shows "\<exists>user'. pdcp_multi_path_routing user = Inr (v, user') \<and> dc_history_ok user' \<and>
    du_routing_history user' = h \<and> du_routing_index user' = (du_routing_index user + 1) mod HISTORY_SIZE \<and>
    du_target_split_ratio user' = du_target_split_ratio user"
  using assms route_to_lte_iff [of "count_lte_routing user" "du_target_split_ratio user"]
  by (auto simp: pdcp_multi_path_routing_def dc_history_ok_def Let_def HISTORY_SIZE_def)

text \<open>A run of packets.\<close>

fun route_packets :: "nat \<Rightarrow> dc_user \<Rightarrow> (bool list \<times> dc_user) result" where
  "route_packets 0 user = Inr ([], user)"
| "route_packets (Suc n) user =
     bindR (pdcp_multi_path_routing user) (\<lambda>(b, user1).
     bindR (route_packets n user1) (\<lambda>(bs, user2). Inr (b # bs, user2)))"

lemma routing_count:
  assumes "dc_history_ok user" "pdcp_multi_path_routing user = Inr (v, user')"
  shows "int (count_lte_routing user') =
    int (count_lte_routing user) + of_bool v - of_bool (du_routing_history user ! du_routing_index user)"
  using routing_step [OF assms(1)] assms
    count_update [of "du_routing_index user" "du_routing_history user" v]
  by (auto simp: count_lte_routing_def dc_history_ok_def)

definition in_band :: "dc_user \<Rightarrow> bool" where
  "in_band user \<longleftrightarrow> (let k = dc_band (du_target_split_ratio user) in
     int (count_lte_routing user) \<in> {k, k + 1})"

lemma band_stable:
  assumes "dc_history_ok user" "in_band user" "pdcp_multi_path_routing user = Inr (v, user')"
  shows "in_band user'"
  using routing_count [OF assms(1,3)] routing_step [OF assms(1)] assms
  by (auto simp: in_band_def Let_def split: if_splits)

text \<open>The last \<open>j\<close> entries written are all \<open>v\<close>.\<close>

definition written :: "bool \<Rightarrow> nat \<Rightarrow> dc_user \<Rightarrow> bool" where
  "written v j user \<longleftrightarrow>
     (\<forall>m < j. du_routing_history user ! ((du_routing_index user + 49 - m) mod 50) = v)"

lemma written_0 [simp]: "written v 0 user"
  by (simp add: written_def)

lemma mod_50: "x < 100 \<Longrightarrow> x mod 50 = (if x < 50 then x else x - 50)" for x :: nat
  by (auto simp: mod_if)

lemma written_step:
  assumes ok: "dc_history_ok user" and w: "written v j user" and j: "j < 50"
    and r: "pdcp_multi_path_routing user = Inr (v, user')"
  shows "written v (Suc j) user'"
  unfolding written_def
proof (intro allI impI)
  fix m assume m: "m < Suc j"
  let ?i = "du_routing_index user"
  have i: "?i < 50" and len: "length (du_routing_history user) = 50"
    using ok by (simp_all add: dc_history_ok_def HISTORY_SIZE_def)
  have u: "du_routing_history user' = (du_routing_history user)[?i := v]" "du_routing_index user' = (?i + 1) mod 50"
    using routing_step [OF ok] r by (auto simp: HISTORY_SIZE_def)
  let ?p = "((?i + 1) mod 50 + 49 - m) mod 50"
  show "du_routing_history user' ! ((du_routing_index user' + 49 - m) mod 50) = v"
  proof (cases m)
    case 0
    have "?p = ?i" using i 0 by (simp add: mod_50)
    with u i len show ?thesis by simp
  next
    case (Suc k)
    have "?p = (?i + 49 - k) mod 50" using i m j Suc by (auto simp: mod_50 split: if_splits)
    moreover have "?p \<noteq> ?i" using i m j Suc by (auto simp: mod_50 split: if_splits)
    ultimately show ?thesis using w m Suc u by (simp add: written_def)
  qed
qed

lemma written_full:
  assumes "dc_history_ok user" "written v 50 user"
  shows "count_lte_routing user = (if v then 50 else 0)"
proof -
  have len: "length (du_routing_history user) = 50" and i: "du_routing_index user < 50"
    using assms(1) by (simp_all add: dc_history_ok_def HISTORY_SIZE_def)
  have "du_routing_history user ! p = v" if p: "p < 50" for p
  proof -
    define m where "m = (du_routing_index user + 49 - p) mod 50"
    have "m < 50" "(du_routing_index user + 49 - m) mod 50 = p"
      using p i by (auto simp: m_def mod_50 split: if_splits)
    with assms(2) show ?thesis by (auto simp: written_def)
  qed
  then have "du_routing_history user = replicate 50 v"
    using len by (intro nth_equalityI) simp_all
  then show ?thesis by (simp add: count_lte_routing_def)
qed

lemma band_range: "0 \<le> t \<Longrightarrow> t \<le> 1 \<Longrightarrow> -1 \<le> dc_band t \<and> dc_band t \<le> 49"
  by (auto simp: dc_band_def le_floor_iff floor_le_iff)

text \<open>Outside of the band every packet goes to the side that is short of packets.\<close>

definition off_band :: "bool \<Rightarrow> nat \<Rightarrow> dc_user \<Rightarrow> bool" where
  "off_band v j user \<longleftrightarrow> written v j user \<and>
     (let k = dc_band (du_target_split_ratio user); c = int (count_lte_routing user)
      in if v then c < k else c > k + 1)"

lemma off_band_step:
  assumes "dc_history_ok user" "off_band v j user" "j < 50"
    and "pdcp_multi_path_routing user = Inr (b, user')"
  shows "in_band user' \<or> off_band v (Suc j) user'"
proof -
  have "b = v" using routing_step [OF assms(1)] assms(2,4) by (auto simp: off_band_def Let_def split: if_splits)
  with written_step [OF assms(1) _ assms(3)] assms(2,4) have "written v (Suc j) user'"
    by (simp add: off_band_def)
  with routing_count [OF assms(1,4)] routing_step [OF assms(1)] assms(2,4) \<open>b = v\<close> show ?thesis
    by (auto simp: off_band_def in_band_def Let_def split: if_splits)
qed

lemma off_band_not_full:
  assumes "dc_history_ok user" "off_band v 50 user" "0 \<le> du_target_split_ratio user" "du_target_split_ratio user \<le> 1"
  shows False
  using written_full [OF assms(1)] band_range [OF assms(3,4)] assms(2)
  by (auto simp: off_band_def Let_def split: if_splits)

lemma band_reached:
  assumes "dc_history_ok user" "in_band user \<or> off_band v j user" "0 \<le> du_target_split_ratio user"
    "du_target_split_ratio user \<le> 1" "50 \<le> n + j"
  shows "\<exists>bs user'. route_packets n user = Inr (bs, user') \<and> dc_history_ok user' \<and> in_band user' \<and>
    du_target_split_ratio user' = du_target_split_ratio user \<and> length bs = n"
  using assms
proof (induction n arbitrary: user j)
  case 0
  then have "in_band user"
    using off_band_not_full [of user v] by (auto simp: off_band_def written_def)
  with 0 show ?case by simp
next
  case (Suc n)
  obtain b user1 where u1: "pdcp_multi_path_routing user = Inr (b, user1)" "dc_history_ok user1"
    "du_target_split_ratio user1 = du_target_split_ratio user"
    using routing_step [OF Suc.prems(1)] by blast
  have "in_band user1 \<or> off_band v (Suc j) user1"
  proof (cases "in_band user")
    case True
    then show ?thesis using band_stable [OF Suc.prems(1)] u1(1) by blast
  next
    case False
    then have off: "off_band v j user" using Suc.prems(2) by blast
    have "j < 50"
    proof (rule ccontr)
      assume "\<not> j < 50"
      with off have "off_band v 50 user" by (auto simp: off_band_def written_def)
      with off_band_not_full Suc.prems show False by blast
    qed
    with off_band_step [OF Suc.prems(1) off] u1(1) show ?thesis by blast
  qed
  with Suc.IH [of user1 "Suc j"] u1 Suc.prems obtain bs user' where
    "route_packets n user1 = Inr (bs, user')" "dc_history_ok user'" "in_band user'"
    "du_target_split_ratio user' = du_target_split_ratio user1" "length bs = n" by auto
  with u1 show ?case by simp
qed

section \<open>Interleavings\<close>

text \<open>
  The packet path, the RLC entities of both radios and the update thread work on the same user.
  \<open>ds_calc\<close>: the update thread stands between its two critical sections; \<open>ds_running\<close>: it has not
  ended.
\<close>

record dc_sys =
  ds_user :: dc_user
  ds_calc :: bool
  ds_running :: bool

inductive dc_step :: "dc_config \<Rightarrow> dc_sys \<Rightarrow> dc_sys \<Rightarrow> bool" for cf where
  Route: "pdcp_multi_path_routing (ds_user s) = Inr (b, u) \<Longrightarrow> dc_step cf s (s\<lparr>ds_user := u\<rparr>)"
| Nr_Info: "0 \<le> acked \<Longrightarrow> 0 \<le> queue \<Longrightarrow> dc_step cf s (s\<lparr>ds_user := update_nr_info (ds_user s) acked queue\<rparr>)"
| Lte_Info: "0 \<le> acked \<Longrightarrow> 0 \<le> queue \<Longrightarrow> dc_step cf s (s\<lparr>ds_user := update_lte_info (ds_user s) acked queue\<rparr>)"
| Ewma: "ds_running s \<Longrightarrow> \<not> ds_calc s \<Longrightarrow> 0 \<le> elapsed \<Longrightarrow> ewma_round cf elapsed (ds_user s) = Some u \<Longrightarrow>
    dc_step cf s (s\<lparr>ds_user := u, ds_calc := True\<rparr>)"
| Ewma_End: "ds_running s \<Longrightarrow> \<not> ds_calc s \<Longrightarrow> ewma_round cf elapsed (ds_user s) = None \<Longrightarrow>
    dc_step cf s (s\<lparr>ds_running := False\<rparr>)"
| Calc: "ds_running s \<Longrightarrow> ds_calc s \<Longrightarrow>
    dc_step cf s (s\<lparr>ds_user := calculate_split_ratio cf (ds_user s), ds_calc := False\<rparr>)"
| Remove: "dc_step cf s (s\<lparr>ds_user := remove_dc_user_flag (ds_user s)\<rparr>)"

inductive_cases dc_step_cases: "dc_step cf s s'"










section \<open>Properties\<close>


definition dc_user_zero :: dc_user where
  "dc_user_zero = \<lparr>du_user_id = 0, du_ewma_lte_throughput = 0, du_ewma_nr_throughput = 0,
     du_lte_queue_size = 0, du_nr_queue_size = 0, du_lte_acked_bytes = 0, du_nr_acked_bytes = 0,
     du_target_split_ratio = 0, du_routing_history = [], du_routing_index = 0, du_use_dc = False,
     du_is_active = False, du_lte_packets = 0, du_nr_packets = 0\<rparr>"

definition dc_minrtt :: dc_config where
  "dc_minrtt = dc_config_default\<lparr>cf_mp_technique := ''minRTT''\<rparr>"

text \<open>A user whose NR queue has filled up, after one round of the update thread.\<close>

definition dc_busy :: dc_sys where
  "dc_busy =
     \<lparr>ds_user = calculate_split_ratio dc_minrtt
        (the (ewma_round dc_minrtt 0 (update_nr_info (initialize_dc_user dc_user_zero 7) 1000 60000))),
      ds_calc = False, ds_running = True\<rparr>"



text \<open>
  Property C13. Whatever the history holds and whatever the target \<open>t\<close> between 0 and 1 is, after 50 or
  more packets under this target the number of packets to LTE among the last 50 is one of the two whole
  numbers above \<open>50 t - 1.05\<close> and up to \<open>50 t + 0.95\<close>, so it is at most 1.05 packets off, and no
  packet was lost to an access outside of the history.
\<close>

theorem split_follows_target:
  assumes "length (du_routing_history user) = HISTORY_SIZE" "du_routing_index user < HISTORY_SIZE"
    "0 \<le> du_target_split_ratio user" "du_target_split_ratio user \<le> 1" "HISTORY_SIZE \<le> n"
  shows "\<exists>bs user'. route_packets n user = Inr (bs, user') \<and> length bs = n \<and>
    50 * du_target_split_ratio user - 105 / 100 < of_nat (count_lte_routing user') \<and>
    of_nat (count_lte_routing user') \<le> 50 * du_target_split_ratio user + 95 / 100"
proof -
  have ok: "dc_history_ok user" using assms(1,2) by (simp add: dc_history_ok_def)
  let ?k = "dc_band (du_target_split_ratio user)" and ?c = "int (count_lte_routing user)"
  have "in_band user \<or> off_band (?c < ?k) 0 user"
    by (auto simp: in_band_def off_band_def Let_def)
  then obtain bs user' where r: "route_packets n user = Inr (bs, user')" "in_band user'" "length bs = n"
      "du_target_split_ratio user' = du_target_split_ratio user"
    using band_reached [OF ok _ assms(3,4), of "?c < ?k" 0 n] assms(5) by (auto simp: HISTORY_SIZE_def)
  then have c: "int (count_lte_routing user') = ?k \<or> int (count_lte_routing user') = ?k + 1"
    by (auto simp: in_band_def Let_def)
  have k: "of_int ?k \<le> 50 * du_target_split_ratio user - 5 / 100"
      "50 * du_target_split_ratio user - 5 / 100 < of_int ?k + 1"
    unfolding dc_band_def by linarith+
  have "(of_nat (count_lte_routing user') :: rat) = of_int (int (count_lte_routing user'))" by simp
  then obtain d where d: "(of_nat (count_lte_routing user') :: rat) = of_int ?k + d" "0 \<le> d" "d \<le> 1"
    using c by fastforce
  with k r show ?thesis by (intro exI conjI) (assumption, assumption, linarith+)
qed

definition dc_split_user :: dc_user where
  "dc_split_user = (initialize_dc_user dc_user_zero 7)\<lparr>du_target_split_ratio := 3 / 10\<rparr>"

theorem split_follows_target_witness:
  "\<exists>bs user'. route_packets 60 dc_split_user = Inr (bs, user') \<and> length bs = 60 \<and>
    count_lte_routing user' \<in> {14, 15}"
proof -
  have u: "length (du_routing_history dc_split_user) = HISTORY_SIZE" "du_routing_index dc_split_user < HISTORY_SIZE"
      "du_target_split_ratio dc_split_user = 3 / 10" "HISTORY_SIZE \<le> 60"
    by (simp_all add: dc_split_user_def initialize_dc_user_def HISTORY_SIZE_def)
  obtain bs user' where r: "route_packets 60 dc_split_user = Inr (bs, user')" "length bs = 60"
      "(15 - 105 / 100 :: rat) < of_nat (count_lte_routing user')" "of_nat (count_lte_routing user') \<le> (15 + 95 / 100 :: rat)"
    using split_follows_target [OF u(1,2) _ _ u(4)] u(3) by auto
  have "(13 :: rat) < of_nat (count_lte_routing user')" "of_nat (count_lte_routing user') < (16 :: rat)" using r(3,4) by simp_all
  then have "13 < count_lte_routing user'" "count_lte_routing user' < 16" by linarith+
  then have "count_lte_routing user' \<in> {14, 15}" by auto
  with r(1,2) show ?thesis by blast
qed

text \<open>
  With the technique \<open>OnlyLTE\<close> the target is 1, which the comment of the code calls
  "100% to LTE"; nevertheless a user with the right history whose last 50 packets all went to LTE
  sends the next packet to NR.
\<close>

theorem only_lte_sends_to_nr:
  assumes "length (du_routing_history user) = HISTORY_SIZE" "du_routing_index user < HISTORY_SIZE"
    "du_routing_history user = replicate HISTORY_SIZE True" "cf_mp_technique cf = ''OnlyLTE''"
  shows "\<exists>user'. pdcp_multi_path_routing (calculate_split_ratio cf user) = Inr (False, user')"
  using assms by (simp add: calculate_split_ratio_def pdcp_multi_path_routing_def count_lte_routing_def HISTORY_SIZE_def Let_def)

theorem only_lte_sends_to_nr_witness:
  "\<exists>user'. pdcp_multi_path_routing (calculate_split_ratio (dc_config_default\<lparr>cf_mp_technique := ''OnlyLTE''\<rparr>)
     (dc_user_zero\<lparr>du_routing_history := replicate HISTORY_SIZE True\<rparr>)) = Inr (False, user')"
  by (rule only_lte_sends_to_nr) (simp_all add: dc_user_zero_def HISTORY_SIZE_def)

text \<open>
  The byte counters of a new user are what \<open>malloc\<close> left in memory: the first round of
  the update thread turns them into a throughput although no byte has been acknowledged.
\<close>

theorem uninitialised_counters:
  assumes "du_lte_acked_bytes mem = x" "0 < elapsed"
  shows "\<exists>u. ewma_round cf elapsed (initialize_dc_user mem user_id) = Some u \<and>
    du_ewma_lte_throughput u = x / elapsed"
  using assms by (simp add: ewma_round_def initialize_dc_user_def update_ewma_def)

theorem uninitialised_counters_witness:
  "\<exists>u. ewma_round dc_minrtt (1 / 10) (initialize_dc_user (dc_user_zero\<lparr>du_lte_acked_bytes := 12345\<rparr>) 7) = Some u \<and>
    du_ewma_lte_throughput u = 12345 / (1 / 10)"
  by (rule uninitialised_counters) (simp_all add: dc_user_zero_def)

text \<open>
  The split decision of the technique \<open>minRTT\<close>: everything goes to NR while the NR queue
  is below the threshold and splitting is off; once it is on, the radio with the smaller queueing
  delay gets everything, and splitting stays on until the NR queue is below the lower threshold.
\<close>

theorem min_rtt_decision:
  assumes "cf_mp_technique cf = ''minRTT''"
  shows "du_target_split_ratio (calculate_split_ratio cf user) =
      (if (du_nr_queue_size user > cf_buffer_threshold cf \<or> du_use_dc user) \<and>
          dc_delay (du_lte_queue_size user) (du_ewma_lte_throughput user)
            < dc_delay (du_nr_queue_size user) (du_ewma_nr_throughput user) then 1 else 0) \<and>
    du_use_dc (calculate_split_ratio cf user) =
      ((du_nr_queue_size user > cf_buffer_threshold cf \<or> du_use_dc user) \<and>
       du_nr_queue_size user \<ge> cf_dc_disable_buffer_thres cf)"
  using assms by (auto simp: calculate_split_ratio_def dc_hysteresis_def Let_def)

theorem min_rtt_decision_witness:
  "du_target_split_ratio (ds_user dc_busy) = 1 \<and> du_use_dc (ds_user dc_busy)"
  using min_rtt_decision [of dc_minrtt
      "the (ewma_round dc_minrtt 0 (update_nr_info (initialize_dc_user dc_user_zero 7) 1000 60000))"]
  by (simp add: dc_busy_def dc_minrtt_def dc_config_default_def ewma_round_def update_nr_info_def
      initialize_dc_user_def dc_user_zero_def update_ewma_def dc_delay_def)

lemma get_add_forward_info:
  "rnti \<noteq> 0 \<Longrightarrow> \<exists>(r, i) \<in> set m. r = 0 \<or> r = rnti \<Longrightarrow> get_forward_info (add_forward_info m rnti info) rnti = Some info"
  by (induction m rnti info rule: add_forward_info.induct) auto

lemma get_add_forward_info_other:
  "r' \<noteq> 0 \<Longrightarrow> r' \<noteq> rnti \<Longrightarrow> get_forward_info (add_forward_info m rnti info) r' = get_forward_info m r'"
  by (induction m rnti info rule: add_forward_info.induct) auto

text \<open>
  While the table of forwarding information has a free slot or a slot of the UE, adding
  the information of the UE makes it the one that is found for the UE, and what is found for any
  other UE does not change.
\<close>

theorem forward_info_lookup:
  assumes "rnti \<noteq> 0" "\<exists>(r, i) \<in> set m. r = 0 \<or> r = rnti"
  shows "get_forward_info (add_forward_info m rnti info) rnti = Some info \<and>
    (r' \<noteq> 0 \<longrightarrow> r' \<noteq> rnti \<longrightarrow> get_forward_info (add_forward_info m rnti info) r' = get_forward_info m r')"
  using get_add_forward_info [OF assms] get_add_forward_info_other by blast

theorem forward_info_lookup_witness:
  "get_forward_info (add_forward_info [(5, forward_info_zero), (0, forward_info_zero)] 6
      (forward_info_zero\<lparr>fi_rnti := 6\<rparr>)) 6 = Some (forward_info_zero\<lparr>fi_rnti := 6\<rparr>)"
  using forward_info_lookup [of 6 "[(5, forward_info_zero), (0, forward_info_zero)]"
      "forward_info_zero\<lparr>fi_rnti := 6\<rparr>" 5] by simp

text \<open>Slots in front of the ones that matter.\<close>

lemma forward_info_front:
  assumes "\<forall>(x, i) \<in> set a. x \<noteq> 0 \<and> x \<noteq> r"
  shows "add_forward_info (a @ m) r info = a @ add_forward_info m r info"
  using assms by (induction a) auto

lemma get_forward_info_front:
  assumes "\<forall>(x, i) \<in> set a. x \<noteq> r"
  shows "get_forward_info (a @ m) r = get_forward_info m r" "remove_slot (a @ m) r = a @ remove_slot m r"
  using assms by (induction a) auto

text \<open>
  Property C29. Whatever table there is in which a free slot lies in front of the slot of a UE: when the
  UE attaches again, the new information goes into the free slot and the old slot stays; when the UE is
  removed afterwards, the user of the new attachment is freed, but the information of the earlier
  attachment is found for the UE again, with the user that is freed already.
\<close>

theorem stale_forward_info:
  assumes "r \<noteq> 0" "\<forall>(x, i) \<in> set a. x \<noteq> 0 \<and> x \<noteq> r" "\<forall>(x, i) \<in> set b. x \<noteq> r"
  shows "let t = add_forward_info (a @ (0, i) # b @ (r, old) # c) r new
    in get_forward_info t r = Some new \<and>
       remove_forward_info t t r = (a @ (0, forward_info_zero) # b @ (r, old) # c, fi_user new) \<and>
       get_forward_info (fst (remove_forward_info t t r)) r = Some old"
proof -
  have a: "\<forall>(x, i) \<in> set a. x \<noteq> r" using assms(2) by auto
  show ?thesis
    using assms(1) by (simp add: Let_def remove_forward_info_def forward_info_front [OF assms(2)]
        get_forward_info_front [OF a] get_forward_info_front [OF assms(3)])
qed

theorem stale_forward_info_witness:
  "let old = forward_info_zero\<lparr>fi_user := Some 1\<rparr>; new = forward_info_zero\<lparr>fi_user := Some 2\<rparr>;
       t = add_forward_info [(5, forward_info_zero), (0, forward_info_zero), (11, old)] 11 new
   in get_forward_info (fst (remove_forward_info t t 11)) 11 = Some old"
  using stale_forward_info [of 11 "[(5, forward_info_zero)]" "[]" forward_info_zero "forward_info_zero\<lparr>fi_user := Some 1\<rparr>" "[]"
      "forward_info_zero\<lparr>fi_user := Some 2\<rparr>"] by (simp add: Let_def)

end
