(* ===== verification/Pdcp_Entity.thy ===== *)
theory Pdcp_Entity
  imports Prelude
begin

text \<open>
  The PDCP entity (\<open>nr_pdcp_entity.c\<close>, \<open>nr_pdcp_entity.h\<close>, \<open>nr_pdcp_sdu.c\<close>): header, COUNT, ciphering
  and integrity protection of SDUs, reordering of received PDUs, the reordering timer, suspension
  and re-establishment. COUNT values and state variables are 32-bit words, as in the code.

  The security algorithms (\<open>nea2\<close>, \<open>nia1\<close>, \<open>nia2\<close>) are calls of a cryptographic library. They are a
  parameter: a record of functions of the algorithm, the key, the bytes, the bearer, COUNT and the
  direction.
\<close>

type_synonym key = "byte list"

record pdcp_crypto =
  cr_cipher :: "int \<Rightarrow> key \<Rightarrow> byte list \<Rightarrow> int \<Rightarrow> u32 \<Rightarrow> int \<Rightarrow> byte list"
  cr_integrity :: "int \<Rightarrow> key \<Rightarrow> byte list \<Rightarrow> int \<Rightarrow> u32 \<Rightarrow> int \<Rightarrow> byte list"

section \<open>Stored SDUs\<close>

record nr_pdcp_integrity_data =
  id_count :: u32
  id_mac :: "byte list"
  id_header_size :: nat
  id_header :: "byte list"

definition no_integrity_data :: nr_pdcp_integrity_data where
  "no_integrity_data = \<lparr>id_count = 0, id_mac = [0, 0, 0, 0], id_header_size = 0, id_header = [0, 0, 0]\<rparr>"

record nr_pdcp_sdu =
  ps_count :: u32
  ps_buffer :: "byte list"
  ps_msg_integrity :: nr_pdcp_integrity_data

definition nr_pdcp_new_sdu :: "u32 \<Rightarrow> byte list \<Rightarrow> nr_pdcp_integrity_data \<Rightarrow> nr_pdcp_sdu" where
  "nr_pdcp_new_sdu count buffer msg_integrity =
     \<lparr>ps_count = count, ps_buffer = buffer, ps_msg_integrity = msg_integrity\<rparr>"

definition nr_pdcp_sdu_list_add :: "nr_pdcp_sdu list \<Rightarrow> nr_pdcp_sdu \<Rightarrow> nr_pdcp_sdu list" where
  "nr_pdcp_sdu_list_add l sdu = insert_before (\<lambda>cur. ps_count sdu < ps_count cur) sdu l"

fun nr_pdcp_sdu_in_list :: "nr_pdcp_sdu list \<Rightarrow> u32 \<Rightarrow> bool" where
  "nr_pdcp_sdu_in_list [] count = False"
| "nr_pdcp_sdu_in_list (x # l) count = (if ps_count x = count then True else nr_pdcp_sdu_in_list l count)"

section \<open>The entity\<close>

datatype nr_pdcp_entity_type = NR_PDCP_DRB_AM | NR_PDCP_DRB_UM | NR_PDCP_SRB

record security_keys_and_algos =
  sk_integrity_algorithm :: int
  sk_ciphering_algorithm :: int
  sk_integrity_key :: key
  sk_ciphering_key :: key

record nr_pdcp_statistics =
  pst_txpdu_pkts :: u32
  pst_txpdu_bytes :: u32
  pst_txpdu_sn :: u32
  pst_rxpdu_pkts :: u32
  pst_rxpdu_bytes :: u32
  pst_rxpdu_sn :: u32
  pst_rxpdu_dd_pkts :: u32
  pst_rxpdu_dd_bytes :: u32
  pst_txsdu_pkts :: u32
  pst_txsdu_bytes :: u32
  pst_rxsdu_pkts :: u32
  pst_rxsdu_bytes :: u32

text \<open>
  \<open>pe_security\<close> and \<open>pe_integrity\<close> are the contexts together with the function pointers that go with
  them: the algorithm and the key they were initialised with, \<open>None\<close> when there is none to free.
  \<open>pe_delivered\<close> records the calls of \<open>deliver_sdu\<close>.
\<close>

record nr_pdcp_entity =
  pe_type :: nr_pdcp_entity_type
  pe_rb_id :: int
  pe_pdusession_id :: int
  pe_has_sdap_rx :: bool
  pe_has_sdap_tx :: bool
  pe_sn_size :: nat
  pe_t_reordering :: int
  pe_discard_timer :: int
  pe_sn_max :: int
  pe_window_size :: int
  pe_tx_next :: u32
  pe_rx_next :: u32
  pe_rx_deliv :: u32
  pe_rx_reord :: u32
  pe_t_current :: u64
  pe_t_reordering_start :: u64
  pe_has_ciphering :: bool
  pe_has_integrity :: bool
  pe_keys :: security_keys_and_algos
  pe_security :: "(int \<times> key) option"
  pe_integrity :: "(int \<times> key) option"
  pe_is_gnb :: bool
  pe_rx_list :: "nr_pdcp_sdu list"
  pe_rx_size :: int
  pe_stats :: nr_pdcp_statistics
  pe_entity_suspended :: bool
  pe_delivered :: "(byte list \<times> nr_pdcp_integrity_data) list"

definition SHORT_SN_SIZE :: nat where "SHORT_SN_SIZE = 12"
definition LONG_SN_SIZE :: nat where "LONG_SN_SIZE = 18"
definition SHORT_PDCP_HEADER_SIZE :: nat where "SHORT_PDCP_HEADER_SIZE = 2"
definition LONG_PDCP_HEADER_SIZE :: nat where "LONG_PDCP_HEADER_SIZE = 3"
definition PDCP_INTEGRITY_SIZE :: nat where "PDCP_INTEGRITY_SIZE = 4"

lemmas pdcp_consts = SHORT_SN_SIZE_def LONG_SN_SIZE_def SHORT_PDCP_HEADER_SIZE_def
  LONG_PDCP_HEADER_SIZE_def PDCP_INTEGRITY_SIZE_def

definition nr_max_pdcp_pdu_size :: "int \<Rightarrow> int" where
  "nr_max_pdcp_pdu_size sdu_sz = sdu_sz + int LONG_PDCP_HEADER_SIZE + int PDCP_INTEGRITY_SIZE"

definition pe_upd_stats :: "(nr_pdcp_statistics \<Rightarrow> nr_pdcp_statistics) \<Rightarrow> nr_pdcp_entity \<Rightarrow> nr_pdcp_entity" where
  "pe_upd_stats f e = e\<lparr>pe_stats := f (pe_stats e)\<rparr>"

definition pdcp_header_size :: "nr_pdcp_entity \<Rightarrow> nat" where
  "pdcp_header_size e =
     (if pe_sn_size e = SHORT_SN_SIZE then SHORT_PDCP_HEADER_SIZE else LONG_PDCP_HEADER_SIZE)"

definition pdcp_integrity_size :: "nr_pdcp_entity \<Rightarrow> nat" where
  "pdcp_integrity_size e = (if pe_has_integrity e \<or> pe_type e = NR_PDCP_SRB then PDCP_INTEGRITY_SIZE else 0)"

section \<open>Reception\<close>

text \<open>\<open>rcvd_sn\<close>; reading behind the PDU is an access out of bounds.\<close>

definition pdcp_read_sn :: "nr_pdcp_entity \<Rightarrow> byte list \<Rightarrow> int result" where
  "pdcp_read_sn e buffer =
     (if length buffer < pdcp_header_size e then Inl OutOfBounds
      else if pe_sn_size e = SHORT_SN_SIZE
      then Inr (push_bit 8 (uint (buffer ! 0) AND 0xf) OR uint (buffer ! 1))
      else Inr (push_bit 16 (uint (buffer ! 0) AND 0x3) OR push_bit 8 (uint (buffer ! 1)) OR uint (buffer ! 2)))"

text \<open>\<open>rcvd_count\<close> from the received SN and \<open>rx_deliv\<close>.\<close>

definition pdcp_rcvd_count :: "nr_pdcp_entity \<Rightarrow> int \<Rightarrow> u32" where
  "pdcp_rcvd_count e rcvd_sn =
     (let rx_deliv_sn = uint (pe_rx_deliv e AND word_of_int (pe_sn_max e));
          rx_deliv_hfn = drop_bit (pe_sn_size e) (pe_rx_deliv e);
          rcvd_hfn = (if rcvd_sn < rx_deliv_sn - pe_window_size e then rx_deliv_hfn + 1
                      else if rcvd_sn \<ge> rx_deliv_sn + pe_window_size e then rx_deliv_hfn - 1
                      else rx_deliv_hfn)
      in push_bit (pe_sn_size e) rcvd_hfn OR word_of_int rcvd_sn)"

text \<open>In-place ciphering of the buffer from an offset on, and the MAC of a buffer.\<close>

definition pdcp_cipher ::
  "pdcp_crypto \<Rightarrow> nr_pdcp_entity \<Rightarrow> nat \<Rightarrow> byte list \<Rightarrow> u32 \<Rightarrow> int \<Rightarrow> byte list result" where
  "pdcp_cipher cr e off buffer count dir =
     (case pe_security e of
        None \<Rightarrow> Inl NullDeref
      | Some (alg, k) \<Rightarrow>
          if off > length buffer then Inl OutOfBounds
          else Inr (take off buffer @ cr_cipher cr alg k (drop off buffer) (pe_rb_id e) count dir))"

definition pdcp_mac :: "pdcp_crypto \<Rightarrow> nr_pdcp_entity \<Rightarrow> byte list \<Rightarrow> u32 \<Rightarrow> int \<Rightarrow> byte list result" where
  "pdcp_mac cr e buffer count dir =
     (case pe_integrity e of
        None \<Rightarrow> Inl NullDeref
      | Some (alg, k) \<Rightarrow> Inr (cr_integrity cr alg k buffer (pe_rb_id e) count dir))"

definition pdcp_discard :: "nr_pdcp_entity \<Rightarrow> nat \<Rightarrow> nr_pdcp_entity" where
  "pdcp_discard e n =
     pe_upd_stats (\<lambda>s. s\<lparr>pst_rxpdu_dd_pkts := pst_rxpdu_dd_pkts s + 1,
       pst_rxpdu_dd_bytes := pst_rxpdu_dd_bytes s + word_of_nat n\<rparr>) e"

text \<open>Delivery of one stored SDU.\<close>

definition pdcp_deliver :: "nr_pdcp_sdu \<Rightarrow> nr_pdcp_entity \<Rightarrow> nr_pdcp_entity" where
  "pdcp_deliver cur e =
     pe_upd_stats (\<lambda>s. s\<lparr>pst_txsdu_pkts := pst_txsdu_pkts s + 1,
         pst_txsdu_bytes := pst_txsdu_bytes s + word_of_nat (length (ps_buffer cur))\<rparr>)
       (e\<lparr>pe_delivered := pe_delivered e @ [(ps_buffer cur, ps_msg_integrity cur)],
          pe_rx_size := pe_rx_size e - int (length (ps_buffer cur))\<rparr>)"

text \<open>\<open>while (rx_list != NULL && count == rx_list->count)\<close>; the result is the COUNT behind.\<close>

fun pdcp_deliver_run :: "u32 \<Rightarrow> nr_pdcp_sdu list \<Rightarrow> nr_pdcp_entity \<Rightarrow> u32 \<times> nr_pdcp_entity" where
  "pdcp_deliver_run count [] e = (count, e\<lparr>pe_rx_list := []\<rparr>)"
| "pdcp_deliver_run count (cur # l) e =
     (if count = ps_count cur then pdcp_deliver_run (count + 1) l (pdcp_deliver cur e)
      else (count, e\<lparr>pe_rx_list := cur # l\<rparr>))"

text \<open>Stop and start of the reordering timer after a received PDU.\<close>

definition pdcp_reordering_timer :: "nr_pdcp_entity \<Rightarrow> nr_pdcp_entity" where
  "pdcp_reordering_timer e =
     (let e1 = (if pe_t_reordering_start e \<noteq> 0 \<and> pe_rx_deliv e \<ge> pe_rx_reord e
                then e\<lparr>pe_t_reordering_start := 0\<rparr> else e)
      in if pe_t_reordering_start e1 = 0 \<and> pe_rx_deliv e1 < pe_rx_next e1
         then e1\<lparr>pe_rx_reord := pe_rx_next e1, pe_t_reordering_start := pe_t_current e1\<rparr> else e1)"

text \<open>The received SDU is stored, and what is in order is delivered.\<close>

definition pdcp_store_sdu ::
  "nr_pdcp_entity \<Rightarrow> u32 \<Rightarrow> byte list \<Rightarrow> int \<Rightarrow> nr_pdcp_integrity_data \<Rightarrow> nr_pdcp_entity" where
  "pdcp_store_sdu e rcvd_count sdu stored_size msg_integrity =
     (let e1 = e\<lparr>pe_rx_list := nr_pdcp_sdu_list_add (pe_rx_list e) (nr_pdcp_new_sdu rcvd_count sdu msg_integrity),
                 pe_rx_size := pe_rx_size e + stored_size,
                 pe_rx_next := (if rcvd_count \<ge> pe_rx_next e then rcvd_count + 1 else pe_rx_next e)\<rparr>;
          e2 = (if rcvd_count = pe_rx_deliv e1
                then case pdcp_deliver_run (pe_rx_deliv e1) (pe_rx_list e1) e1 of
                       (count, e') \<Rightarrow> e'\<lparr>pe_rx_deliv := count\<rparr>
                else e1)
      in pdcp_reordering_timer e2)"

definition pdcp_integrity_data :: "nr_pdcp_entity \<Rightarrow> byte list \<Rightarrow> u32 \<Rightarrow> nr_pdcp_integrity_data" where
  "pdcp_integrity_data e buffer count =
     (if pe_has_integrity e \<or> pe_type e = NR_PDCP_SRB
      then \<lparr>id_count = count, id_mac = drop (length buffer - 4) buffer,
            id_header_size = pdcp_header_size e,
            id_header = take (pdcp_header_size e) buffer @ replicate (3 - pdcp_header_size e) 0\<rparr>
      else no_integrity_data)"

text \<open>Deciphering and the integrity check; \<open>None\<close> is a PDU whose MAC does not match.\<close>

definition pdcp_unprotect ::
  "pdcp_crypto \<Rightarrow> nr_pdcp_entity \<Rightarrow> byte list \<Rightarrow> u32 \<Rightarrow> byte list option result" where
  "pdcp_unprotect cr e buffer count =
     (let dir = (if pe_is_gnb e then 0 else 1);
          off = pdcp_header_size e + (if pe_has_sdap_rx e then 1 else 0)
      in bindR (if pe_has_ciphering e then pdcp_cipher cr e off buffer count dir else Inr buffer) (\<lambda>b.
         if pe_has_integrity e
         then bindR (pdcp_mac cr e (take (length b - PDCP_INTEGRITY_SIZE) b) count dir) (\<lambda>mac.
                Inr (if mac \<noteq> drop (length b - PDCP_INTEGRITY_SIZE) b then None else Some b))
         else Inr (Some b)))"

text \<open>From the size check on.\<close>

definition pdcp_recv_data ::
  "pdcp_crypto \<Rightarrow> nr_pdcp_entity \<Rightarrow> byte list \<Rightarrow> int \<Rightarrow> nr_pdcp_entity result" where
  "pdcp_recv_data cr e buffer rcvd_sn =
     (let n = length buffer;
          header_size = pdcp_header_size e;
          sdap_header_size = (if pe_has_sdap_rx e then 1 else 0);
          integrity_size = pdcp_integrity_size e;
          rcvd_count = pdcp_rcvd_count e rcvd_sn
      in if n < header_size + sdap_header_size + integrity_size + 1 then Inr (pdcp_discard e n)
         else bindR (pdcp_unprotect cr e buffer rcvd_count) (\<lambda>r.
           case r of
             None \<Rightarrow> Inr (pdcp_discard e n)
           | Some b \<Rightarrow>
               if rcvd_count < pe_rx_deliv e \<or> nr_pdcp_sdu_in_list (pe_rx_list e) rcvd_count
               then Inr (pdcp_discard e n)
               else Inr (pdcp_store_sdu e rcvd_count
                      (take (n - header_size - integrity_size) (drop header_size b))
                      (int n - int header_size) (pdcp_integrity_data e buffer rcvd_count))))"

definition nr_pdcp_entity_recv_pdu ::
  "pdcp_crypto \<Rightarrow> nr_pdcp_entity \<Rightarrow> byte list \<Rightarrow> nr_pdcp_entity result" where
  "nr_pdcp_entity_recv_pdu cr e0 buffer0 =
     (let n = length buffer0
      in if pe_entity_suspended e0 then Inr e0
         else if n < 1 then Inr e0
         else
           let buffer = (if pe_type e0 \<noteq> NR_PDCP_SRB \<and> buffer0 ! 0 AND 0x80 = 0
                         then buffer0[0 := buffer0 ! 0 OR 128] else buffer0);
               e1 = pe_upd_stats (\<lambda>s. s\<lparr>pst_rxpdu_pkts := pst_rxpdu_pkts s + 1,
                      pst_rxpdu_bytes := pst_rxpdu_bytes s + word_of_nat n\<rparr>) e0
           in bindR (pdcp_read_sn e1 buffer) (\<lambda>rcvd_sn.
                pdcp_recv_data cr (pe_upd_stats (\<lambda>s. s\<lparr>pst_rxpdu_sn := word_of_int rcvd_sn\<rparr>) e1) buffer rcvd_sn))"

section \<open>Transmission\<close>

definition pdcp_header :: "nr_pdcp_entity \<Rightarrow> int \<Rightarrow> byte list" where
  "pdcp_header e sn =
     (let dc_bit = (if pe_type e = NR_PDCP_DRB_AM \<or> pe_type e = NR_PDCP_DRB_UM then 0x80 else 0)
      in if pe_sn_size e = SHORT_SN_SIZE
         then [word_of_int (dc_bit OR (drop_bit 8 sn AND 0xf)), word_of_int (sn AND 0xff)]
         else [word_of_int (dc_bit OR (drop_bit 16 sn AND 0x3)), word_of_int (drop_bit 8 sn AND 0xff),
               word_of_int (sn AND 0xff)])"

text \<open>The MAC (0 for SRBs without integrity protection) behind the plain PDU, and its ciphering.\<close>

definition pdcp_add_mac ::
  "pdcp_crypto \<Rightarrow> nr_pdcp_entity \<Rightarrow> byte list \<Rightarrow> u32 \<Rightarrow> int \<Rightarrow> byte list result" where
  "pdcp_add_mac cr e plain count dir =
     (if pe_has_integrity e then bindR (pdcp_mac cr e plain count dir) (\<lambda>mac. Inr (plain @ mac))
      else if pdcp_integrity_size e = PDCP_INTEGRITY_SIZE then Inr (plain @ replicate PDCP_INTEGRITY_SIZE 0)
      else Inr plain)"

definition pdcp_add_cipher ::
  "pdcp_crypto \<Rightarrow> nr_pdcp_entity \<Rightarrow> byte list \<Rightarrow> u32 \<Rightarrow> int \<Rightarrow> byte list result" where
  "pdcp_add_cipher cr e b count dir =
     (let sdap_header_size = (if pe_has_sdap_tx e then 1 else 0)
      in if pe_has_ciphering e then pdcp_cipher cr e (pdcp_header_size e + sdap_header_size) b count dir
         else Inr b)"

text \<open>\<open>None\<close> is the return value -1 of a suspended entity; otherwise the bytes of the PDU.\<close>

definition nr_pdcp_entity_process_sdu ::
  "pdcp_crypto \<Rightarrow> nr_pdcp_entity \<Rightarrow> byte list \<Rightarrow> int \<Rightarrow> (byte list option \<times> nr_pdcp_entity) result" where
  "nr_pdcp_entity_process_sdu cr e0 buffer pdu_max_size =
     (let n = length buffer
      in if \<not> nr_max_pdcp_pdu_size (int n) \<le> pdu_max_size then Inl Exit
         else if pe_entity_suspended e0 then Inr (None, e0)
         else
           let e = pe_upd_stats (\<lambda>s. s\<lparr>pst_rxsdu_pkts := pst_rxsdu_pkts s + 1,
                     pst_rxsdu_bytes := pst_rxsdu_bytes s + word_of_nat n\<rparr>) e0;
               count = pe_tx_next e;
               sn = uint (pe_tx_next e AND word_of_int (pe_sn_max e));
               dir = (if pe_is_gnb e then 1 else 0);
               plain = pdcp_header e sn @ buffer
           in bindR (pdcp_add_mac cr e plain count dir) (\<lambda>b.
              bindR (pdcp_add_cipher cr e b count dir) (\<lambda>pdu.
              Inr (Some pdu, pe_upd_stats (\<lambda>s. s\<lparr>pst_txpdu_pkts := pst_txpdu_pkts s + 1,
                     pst_txpdu_bytes := pst_txpdu_bytes s + word_of_nat (pdcp_header_size e + n + pdcp_integrity_size e),
                     pst_txpdu_sn := word_of_int sn\<rparr>)
                   (e\<lparr>pe_tx_next := pe_tx_next e + 1\<rparr>)))))"

section \<open>Security\<close>

text \<open>\<open>false\<close> without integrity protection; otherwise the MAC of header and message is compared.\<close>

definition nr_pdcp_entity_check_integrity ::
  "pdcp_crypto \<Rightarrow> nr_pdcp_entity \<Rightarrow> byte list \<Rightarrow> nr_pdcp_integrity_data \<Rightarrow> bool result" where
  "nr_pdcp_entity_check_integrity cr e buffer msg_integrity =
     (if \<not> pe_has_integrity e then Inr False
      else bindR (pdcp_mac cr e (take (id_header_size msg_integrity) (id_header msg_integrity) @ buffer)
                    (id_count msg_integrity) (if pe_is_gnb e then 0 else 1)) (\<lambda>mac.
             Inr (mac = id_mac msg_integrity)))"

definition pdcp_set_keys :: "nr_pdcp_entity \<Rightarrow> security_keys_and_algos \<Rightarrow> nr_pdcp_entity" where
  "pdcp_set_keys e p =
     (let k1 = (if sk_integrity_algorithm p \<noteq> -1
                then (pe_keys e)\<lparr>sk_integrity_algorithm := sk_integrity_algorithm p,
                                sk_integrity_key := sk_integrity_key p\<rparr> else pe_keys e);
          k2 = (if sk_ciphering_algorithm p \<noteq> -1
                then k1\<lparr>sk_ciphering_algorithm := sk_ciphering_algorithm p,
                        sk_ciphering_key := sk_ciphering_key p\<rparr> else k1)
      in e\<lparr>pe_keys := k2\<rparr>)"

definition nr_pdcp_entity_set_security ::
  "nr_pdcp_entity \<Rightarrow> security_keys_and_algos \<Rightarrow> nr_pdcp_entity result" where
  "nr_pdcp_entity_set_security e0 p =
     (let e = pdcp_set_keys e0 p; ia = sk_integrity_algorithm p; ca = sk_ciphering_algorithm p
      in bindR
           (if ia = 0 then Inr (e\<lparr>pe_has_integrity := False, pe_integrity := None\<rparr>)
            else if ia \<noteq> -1 then
              (if ia = 2 \<or> ia = 1
               then Inr (e\<lparr>pe_has_integrity := True, pe_integrity := Some (ia, sk_integrity_key (pe_keys e))\<rparr>)
               else Inl Exit)
            else Inr e) (\<lambda>e1.
         if ca = 0 then Inr (e1\<lparr>pe_has_ciphering := False, pe_security := None\<rparr>)
         else if ca \<noteq> -1 then
           (if ca \<noteq> 2 then Inl Exit
            else Inr (e1\<lparr>pe_has_ciphering := True, pe_security := Some (ca, sk_ciphering_key (pe_keys e1))\<rparr>))
         else Inr e1))"

section \<open>Timers\<close>

text \<open>\<open>while (rx_list != NULL && rx_list->count < rx_reord)\<close>\<close>

fun pdcp_deliver_below :: "u32 \<Rightarrow> nr_pdcp_sdu list \<Rightarrow> nr_pdcp_entity \<Rightarrow> nr_pdcp_entity" where
  "pdcp_deliver_below reord [] e = e\<lparr>pe_rx_list := []\<rparr>"
| "pdcp_deliver_below reord (cur # l) e =
     (if ps_count cur < reord then pdcp_deliver_below reord l (pdcp_deliver cur e)
      else e\<lparr>pe_rx_list := cur # l\<rparr>)"

definition check_t_reordering :: "nr_pdcp_entity \<Rightarrow> nr_pdcp_entity" where
  "check_t_reordering e =
     (if pe_t_reordering e = -1 then e
      else if pe_t_reordering_start e = 0 \<or>
              pe_t_current e \<le> pe_t_reordering_start e + word_of_int (pe_t_reordering e) then e
      else
        let e1 = pdcp_deliver_below (pe_rx_reord e) (pe_rx_list e) (e\<lparr>pe_t_reordering_start := 0\<rparr>)
        in case pdcp_deliver_run (pe_rx_reord e1) (pe_rx_list e1) e1 of
             (count, e2) \<Rightarrow>
               let e3 = e2\<lparr>pe_rx_deliv := count\<rparr>
               in if pe_rx_deliv e3 < pe_rx_next e3
                  then e3\<lparr>pe_rx_reord := pe_rx_next e3, pe_t_reordering_start := pe_t_current e3\<rparr>
                  else e3)"

definition nr_pdcp_entity_set_time :: "nr_pdcp_entity \<Rightarrow> u64 \<Rightarrow> nr_pdcp_entity" where
  "nr_pdcp_entity_set_time e now = check_t_reordering (e\<lparr>pe_t_current := now\<rparr>)"

section \<open>Suspension, re-establishment, release\<close>

fun deliver_all_sdus :: "nr_pdcp_sdu list \<Rightarrow> nr_pdcp_entity \<Rightarrow> nr_pdcp_entity" where
  "deliver_all_sdus [] e = e\<lparr>pe_rx_list := []\<rparr>"
| "deliver_all_sdus (cur # l) e = deliver_all_sdus l (pdcp_deliver cur e)"

definition nr_pdcp_entity_suspend :: "nr_pdcp_entity \<Rightarrow> nr_pdcp_entity" where
  "nr_pdcp_entity_suspend e =
     (let e1 = e\<lparr>pe_tx_next := 0\<rparr>;
          e2 = (if pe_t_reordering_start e1 \<noteq> 0
                then deliver_all_sdus (pe_rx_list e1) (e1\<lparr>pe_t_reordering_start := 0\<rparr>) else e1)
      in e2\<lparr>pe_rx_next := 0, pe_rx_deliv := 0, pe_entity_suspended := True\<rparr>)"

definition free_rx_list :: "nr_pdcp_entity \<Rightarrow> nr_pdcp_entity" where
  "free_rx_list e =
     (fold (\<lambda>cur. pe_upd_stats (\<lambda>s. s\<lparr>pst_rxpdu_dd_pkts := pst_rxpdu_dd_pkts s + 1,
         pst_rxpdu_dd_bytes := pst_rxpdu_dd_bytes s + word_of_nat (length (ps_buffer cur))\<rparr>)) (pe_rx_list e) e)
     \<lparr>pe_rx_list := [], pe_rx_size := 0\<rparr>"

definition nr_pdcp_entity_reestablish_drb_am ::
  "nr_pdcp_entity \<Rightarrow> security_keys_and_algos \<Rightarrow> nr_pdcp_entity result" where
  "nr_pdcp_entity_reestablish_drb_am e p =
     bindR (nr_pdcp_entity_set_security e p) (\<lambda>e1. Inr (e1\<lparr>pe_entity_suspended := False\<rparr>))"

definition nr_pdcp_entity_reestablish_drb_um ::
  "nr_pdcp_entity \<Rightarrow> security_keys_and_algos \<Rightarrow> nr_pdcp_entity result" where
  "nr_pdcp_entity_reestablish_drb_um e p =
     (let e1 = e\<lparr>pe_tx_next := 0\<rparr>;
          e2 = (if pe_t_reordering_start e1 \<noteq> 0 then deliver_all_sdus (pe_rx_list e1) e1 else e1);
          e3 = e2\<lparr>pe_t_reordering_start := 0, pe_rx_next := 0, pe_rx_deliv := 0\<rparr>
      in bindR (nr_pdcp_entity_set_security e3 p) (\<lambda>e4. Inr (e4\<lparr>pe_entity_suspended := False\<rparr>)))"

definition nr_pdcp_entity_reestablish_srb ::
  "nr_pdcp_entity \<Rightarrow> security_keys_and_algos \<Rightarrow> nr_pdcp_entity result" where
  "nr_pdcp_entity_reestablish_srb e p =
     (let e1 = free_rx_list (e\<lparr>pe_tx_next := 0\<rparr>);
          e2 = e1\<lparr>pe_t_reordering_start := 0, pe_rx_next := 0, pe_rx_deliv := 0\<rparr>
      in bindR (nr_pdcp_entity_set_security e2 p) (\<lambda>e3. Inr (e3\<lparr>pe_entity_suspended := False\<rparr>)))"

definition nr_pdcp_entity_reestablish ::
  "nr_pdcp_entity \<Rightarrow> security_keys_and_algos \<Rightarrow> nr_pdcp_entity result" where
  "nr_pdcp_entity_reestablish e p =
     (case pe_type e of
        NR_PDCP_DRB_AM \<Rightarrow> nr_pdcp_entity_reestablish_drb_am e p
      | NR_PDCP_DRB_UM \<Rightarrow> nr_pdcp_entity_reestablish_drb_um e p
      | NR_PDCP_SRB \<Rightarrow> nr_pdcp_entity_reestablish_srb e p)"

definition nr_pdcp_entity_release :: "nr_pdcp_entity \<Rightarrow> nr_pdcp_entity" where
  "nr_pdcp_entity_release e = deliver_all_sdus (pe_rx_list e) e"

definition pdcp_stats_init :: nr_pdcp_statistics where
  "pdcp_stats_init =
     \<lparr>pst_txpdu_pkts = 0, pst_txpdu_bytes = 0, pst_txpdu_sn = 0, pst_rxpdu_pkts = 0, pst_rxpdu_bytes = 0,
      pst_rxpdu_sn = 0, pst_rxpdu_dd_pkts = 0, pst_rxpdu_dd_bytes = 0, pst_txsdu_pkts = 0,
      pst_txsdu_bytes = 0, pst_rxsdu_pkts = 0, pst_rxsdu_bytes = 0\<rparr>"

text \<open>The parameters in the order of the code, without the callbacks.\<close>

definition new_nr_pdcp_entity ::
  "nr_pdcp_entity_type \<Rightarrow> bool \<Rightarrow> int \<Rightarrow> int \<Rightarrow> bool \<Rightarrow> bool \<Rightarrow> nat \<Rightarrow> int \<Rightarrow> int \<Rightarrow>
   security_keys_and_algos \<Rightarrow> nr_pdcp_entity result" where
  "new_nr_pdcp_entity type is_gnb rb_id pdusession_id has_sdap_rx has_sdap_tx sn_size t_reordering
     discard_timer security_parameters =
     nr_pdcp_entity_set_security
       \<lparr>pe_type = type, pe_rb_id = rb_id, pe_pdusession_id = pdusession_id, pe_has_sdap_rx = has_sdap_rx,
        pe_has_sdap_tx = has_sdap_tx, pe_sn_size = sn_size, pe_t_reordering = t_reordering,
        pe_discard_timer = discard_timer, pe_sn_max = 2 ^ sn_size - 1, pe_window_size = 2 ^ (sn_size - 1),
        pe_tx_next = 0, pe_rx_next = 0, pe_rx_deliv = 0, pe_rx_reord = 0, pe_t_current = 0,
        pe_t_reordering_start = 0, pe_has_ciphering = False, pe_has_integrity = False,
        pe_keys = \<lparr>sk_integrity_algorithm = 0, sk_ciphering_algorithm = 0,
                   sk_integrity_key = replicate 16 0, sk_ciphering_key = replicate 16 0\<rparr>,
        pe_security = None, pe_integrity = None, pe_is_gnb = is_gnb, pe_rx_list = [], pe_rx_size = 0,
        pe_stats = pdcp_stats_init, pe_entity_suspended = False, pe_delivered = []\<rparr>
       security_parameters"

end
