(* ===== verification/Pdcp_Proofs.thy ===== *)
theory Pdcp_Proofs
  imports Pdcp_Entity
begin

text \<open>
  Correctness of the PDCP entity: recovery of COUNT from the sequence number, header and protection
  round trip between two peers, and delivery in COUNT order without duplicates.
\<close>

section \<open>COUNT\<close>

definition pdcp_config_ok :: "nr_pdcp_entity \<Rightarrow> bool" where
  "pdcp_config_ok e \<longleftrightarrow> (pe_sn_size e = SHORT_SN_SIZE \<or> pe_sn_size e = LONG_SN_SIZE) \<and>
     pe_sn_max e = 2 ^ pe_sn_size e - 1 \<and> pe_window_size e = 2 ^ (pe_sn_size e - 1)"

lemma or_shifted_word:
  fixes x :: "'a::len word"
  assumes "0 \<le> b" "b < 2 ^ s"
  shows "push_bit s x OR word_of_int b = push_bit s x + word_of_int b"
proof -
  have "push_bit s x AND word_of_int b = 0"
  proof (rule bit_word_eqI)
    fix n assume "n < LENGTH('a)"
    have "\<not> bit b n" if "s \<le> n"
    proof -
      have "b < 2 ^ n" using assms that by (meson less_le_trans one_le_numeral power_increasing)
      then have "take_bit n b = b" using assms by (simp add: take_bit_int_eq_self)
      then show ?thesis by (metis bit_take_bit_iff less_irrefl)
    qed
    then show "bit (push_bit s x AND word_of_int b) n = bit (0 :: 'a word) n"
      by (auto simp: bit_simps)
  qed
  then show ?thesis by (metis add_0 word_plus_and_or)
qed

lemma and_sn_max: "uint (w AND word_of_int (2 ^ s - 1)) = uint w mod 2 ^ s" if "s \<le> 32" for w :: u32
proof -
  have "(word_of_int (2 ^ s - 1) :: u32) = mask s" by (simp add: mask_eq_exp_minus_1)
  then have "w AND word_of_int (2 ^ s - 1) = take_bit s w" by (simp add: take_bit_eq_mask)
  then have "uint (w AND word_of_int (2 ^ s - 1)) = take_bit s (uint w)" by (simp only: unsigned_take_bit_eq)
  then show ?thesis by (simp only: take_bit_eq_mod)
qed

lemma hfn_choice:
  fixes c d W :: int
  assumes W: "0 < W" and win: "d - W \<le> c" "c < d + W"
    and c: "c = hcc * (2 * W) + sc" "0 \<le> sc" "sc < 2 * W"
    and d: "d = hdd * (2 * W) + sd" "0 \<le> sd" "sd < 2 * W"
  shows "hcc = (if sc < sd - W then hdd + 1 else if sc \<ge> sd + W then hdd - 1 else hdd)"
proof -
  define k where "k = hcc - hdd"
  define X where "X = k * (2 * W)"
  have e: "c - d = X + (sc - sd)" using c(1) d(1) by (simp add: X_def k_def algebra_simps)
  then have X: "- 3 * W < X" "X < 3 * W" using win c(2,3) d(2,3) by linarith+
  have "\<not> 2 \<le> k"
  proof
    assume "2 \<le> k"
    then have "2 * (2 * W) \<le> X" unfolding X_def using W by (intro mult_right_mono) auto
    with X W show False by simp
  qed
  moreover have "\<not> k \<le> - 2"
  proof
    assume "k \<le> - 2"
    then have "X \<le> - 2 * (2 * W)" unfolding X_def using W by (intro mult_right_mono) auto
    with X W show False by simp
  qed
  ultimately have "k = -1 \<or> k = 0 \<or> k = 1" by arith
  then have "k = -1 \<and> X = - (2 * W) \<or> k = 0 \<and> X = 0 \<or> k = 1 \<and> X = 2 * W" by (auto simp: X_def)
  moreover have "hcc = hdd + k" by (simp add: k_def)
  ultimately show ?thesis using e win c(2,3) d(2,3) W by auto
qed

lemma drop_bit_hfn: "drop_bit n w = word_of_int (uint w div 2 ^ n)" for w :: u32
proof -
  have "uint (drop_bit n w) = drop_bit n (uint w)"
    using uint_lt2p [of w] by (simp only: unsigned_drop_bit_eq) (simp add: take_bit_int_eq_self)
  then have "uint (drop_bit n w) = uint w div 2 ^ n" by (simp only: drop_bit_eq_div)
  then show ?thesis by (metis word_of_int_uint)
qed

lemma count_recovery:
  assumes cfg: "pdcp_config_ok e"
    and win: "uint (pe_rx_deliv e) - pe_window_size e \<le> c" "c < uint (pe_rx_deliv e) + pe_window_size e"
  shows "pdcp_rcvd_count e (c mod 2 ^ pe_sn_size e) = word_of_int c"
proof -
  let ?s = "pe_sn_size e" and ?d = "uint (pe_rx_deliv e)"
  have s: "0 < ?s" "?s \<le> 32" using cfg by (auto simp: pdcp_config_ok_def pdcp_consts)
  define W where "W = pe_window_size e"
  have m: "(2 :: int) ^ ?s = 2 * W" and W: "0 < W"
    using cfg s by (auto simp: pdcp_config_ok_def W_def power_eq_if)
  define hcc sc hdd sd where h: "hcc = c div (2 * W)" "sc = c mod (2 * W)" " hdd = ?d div (2 * W)" "sd = ?d mod (2 * W)"
  have dn: "drop_bit ?s (pe_rx_deliv e) = word_of_int hdd" by (simp only: drop_bit_hfn m h)
  have sdn: "uint (pe_rx_deliv e AND word_of_int (pe_sn_max e)) = sd"
    using and_sn_max [OF s(2)] cfg m h by (simp add: pdcp_config_ok_def)
  have "hcc = (if sc < sd - W then hdd + 1 else if sc \<ge> sd + W then hdd - 1 else hdd)"
  proof (rule hfn_choice [of W ?d c])
    show "c = hcc * (2 * W) + sc" "?d = hdd * (2 * W) + sd" unfolding h by (rule div_mult_mod_eq [symmetric])+
  qed (use W win in \<open>simp_all add: W_def h\<close>)
  then have "pdcp_rcvd_count e (c mod 2 ^ ?s) = push_bit ?s (word_of_int hcc) OR word_of_int sc"
    unfolding pdcp_rcvd_count_def Let_def dn sdn m W_def [symmetric] h(2) [symmetric] by simp
  also have "\<dots> = push_bit ?s (word_of_int hcc) + word_of_int sc"
    using W by (intro or_shifted_word) (simp_all add: h m)
  also have "\<dots> = word_of_int (hcc * (2 * W) + sc)"
    by (simp add: push_bit_eq_mult flip: m)
  also have "hcc * (2 * W) + sc = c" unfolding h by (rule div_mult_mod_eq)
  finally show ?thesis .
qed

section \<open>Header\<close>

lemma pdcp_header_length: "length (pdcp_header e sn) = pdcp_header_size e"
  by (simp add: pdcp_header_def pdcp_header_size_def pdcp_consts Let_def)

lemma bit_ge_bound:
  assumes "0 \<le> (b :: int)" "b < 2 ^ s" "s \<le> n"
  shows "\<not> bit b n"
proof -
  have "b < 2 ^ n" using assms by (meson less_le_trans one_le_numeral power_increasing)
  then have "take_bit n b = b" using assms by (simp add: take_bit_int_eq_self)
  then show ?thesis by (metis bit_take_bit_iff less_irrefl)
qed

lemma bit_128: "bit (128 :: int) n \<longleftrightarrow> n = 7"
  using bit_exp_iff [of 7 n, where 'a = int] by auto

lemma pdcp_read_header:
  assumes cfg: "pe_sn_size e = SHORT_SN_SIZE \<or> pe_sn_size e = LONG_SN_SIZE" and sn: "0 \<le> sn" "sn < 2 ^ pe_sn_size e"
  shows "pdcp_read_sn e (pdcp_header e sn @ rest) = Inr sn"
proof (cases "pe_sn_size e = SHORT_SN_SIZE")
  case True
  have b: "\<not> bit sn n" if "12 \<le> n" for n using sn True bit_ge_bound [of sn 12 n] that by (simp add: pdcp_consts)
  have m: "(0xf :: int) = mask 4" "(0xff :: int) = mask 8" by (simp_all add: mask_eq_exp_minus_1)
  define dc :: int where "dc = (if pe_type e = NR_PDCP_DRB_AM \<or> pe_type e = NR_PDCP_DRB_UM then 0x80 else 0)"
  have dcb: "\<not> bit dc n" if "n < 7" for n
    using that bit_128 [of n] by (simp add: dc_def)
  have "push_bit 8 (uint (word_of_int (dc OR (drop_bit 8 sn AND 0xf)) :: byte) AND 0xf) OR
      uint (word_of_int (sn AND 0xff) :: byte) = sn"
    unfolding m
    by (rule bit_eqI) (use b dcb in \<open>auto simp: bit_simps not_less intro: ccontr\<close>)
  with True show ?thesis
    by (simp add: pdcp_read_sn_def pdcp_header_def pdcp_header_size_def Let_def pdcp_consts dc_def)
next
  case False
  have b: "\<not> bit sn n" if "18 \<le> n" for n using sn False cfg bit_ge_bound [of sn 18 n] that
    by (auto simp: pdcp_consts)
  have m: "(0x3 :: int) = mask 2" "(0xff :: int) = mask 8" by (simp_all add: mask_eq_exp_minus_1)
  define dc :: int where "dc = (if pe_type e = NR_PDCP_DRB_AM \<or> pe_type e = NR_PDCP_DRB_UM then 0x80 else 0)"
  have dcb: "\<not> bit dc n" if "n < 7" for n
    using that bit_128 [of n] by (simp add: dc_def)
  have "push_bit 16 (uint (word_of_int (dc OR (drop_bit 16 sn AND 0x3)) :: byte) AND 0x3) OR
      push_bit 8 (uint (word_of_int (drop_bit 8 sn AND 0xff) :: byte)) OR
      uint (word_of_int (sn AND 0xff) :: byte) = sn"
    unfolding m
    by (rule bit_eqI) (use b dcb in \<open>auto simp: bit_simps not_less intro: ccontr\<close>)
  with False show ?thesis
    by (simp add: pdcp_read_sn_def pdcp_header_def pdcp_header_size_def Let_def pdcp_consts dc_def)
qed

section \<open>Two peers\<close>

text \<open>
  What the code relies on of the security algorithms: ciphering twice with the same parameters gives
  the bytes back (a key stream is added), it keeps the length, and a MAC has four bytes.
\<close>

definition crypto_ok :: "pdcp_crypto \<Rightarrow> bool" where
  "crypto_ok cr \<longleftrightarrow> (\<forall>alg k b rb c dir.
     length (cr_cipher cr alg k b rb c dir) = length b \<and>
     cr_cipher cr alg k (cr_cipher cr alg k b rb c dir) rb c dir = b \<and>
     length (cr_integrity cr alg k b rb c dir) = PDCP_INTEGRITY_SIZE)"

definition pdcp_peers :: "nr_pdcp_entity \<Rightarrow> nr_pdcp_entity \<Rightarrow> bool" where
  "pdcp_peers s r \<longleftrightarrow> pdcp_config_ok s \<and> pdcp_config_ok r \<and> pe_sn_size r = pe_sn_size s \<and>
     pe_type r = pe_type s \<and> pe_rb_id r = pe_rb_id s \<and> pe_is_gnb r = (\<not> pe_is_gnb s) \<and>
     pe_has_sdap_rx r = pe_has_sdap_tx s \<and>
     pe_has_ciphering r = pe_has_ciphering s \<and> pe_security r = pe_security s \<and>
     pe_has_integrity r = pe_has_integrity s \<and> pe_integrity r = pe_integrity s \<and>
     (pe_has_ciphering s \<longrightarrow> pe_security s \<noteq> None) \<and> (pe_has_integrity s \<longrightarrow> pe_integrity s \<noteq> None) \<and>
     \<not> pe_entity_suspended s \<and> \<not> pe_entity_suspended r"

definition pdcp_can_send :: "nr_pdcp_entity \<Rightarrow> bool" where
  "pdcp_can_send s \<longleftrightarrow> \<not> pe_entity_suspended s \<and> (pe_has_ciphering s \<longrightarrow> pe_security s \<noteq> None) \<and>
     (pe_has_integrity s \<longrightarrow> pe_integrity s \<noteq> None)"

lemma peers_can_send: "pdcp_peers s r \<Longrightarrow> pdcp_can_send s"
  by (simp add: pdcp_peers_def pdcp_can_send_def)

lemma pe_upd_stats_sel [simp]:
  "pe_type (pe_upd_stats f e) = pe_type e" "pe_rb_id (pe_upd_stats f e) = pe_rb_id e"
  "pe_has_sdap_rx (pe_upd_stats f e) = pe_has_sdap_rx e" "pe_has_sdap_tx (pe_upd_stats f e) = pe_has_sdap_tx e"
  "pe_sn_size (pe_upd_stats f e) = pe_sn_size e" "pe_sn_max (pe_upd_stats f e) = pe_sn_max e"
  "pe_window_size (pe_upd_stats f e) = pe_window_size e" "pe_tx_next (pe_upd_stats f e) = pe_tx_next e"
  "pe_rx_next (pe_upd_stats f e) = pe_rx_next e" "pe_rx_deliv (pe_upd_stats f e) = pe_rx_deliv e"
  "pe_rx_reord (pe_upd_stats f e) = pe_rx_reord e" "pe_t_reordering_start (pe_upd_stats f e) = pe_t_reordering_start e"
  "pe_t_current (pe_upd_stats f e) = pe_t_current e" "pe_t_reordering (pe_upd_stats f e) = pe_t_reordering e"
  "pe_has_ciphering (pe_upd_stats f e) = pe_has_ciphering e" "pe_has_integrity (pe_upd_stats f e) = pe_has_integrity e"
  "pe_security (pe_upd_stats f e) = pe_security e" "pe_integrity (pe_upd_stats f e) = pe_integrity e"
  "pe_is_gnb (pe_upd_stats f e) = pe_is_gnb e" "pe_rx_list (pe_upd_stats f e) = pe_rx_list e"
  "pe_delivered (pe_upd_stats f e) = pe_delivered e" "pe_entity_suspended (pe_upd_stats f e) = pe_entity_suspended e"
  by (simp_all add: pe_upd_stats_def)

lemma pe_upd_stats_fun [simp]:
  "pdcp_header_size (pe_upd_stats f e) = pdcp_header_size e"
  "pdcp_integrity_size (pe_upd_stats f e) = pdcp_integrity_size e"
  "pdcp_header (pe_upd_stats f e) = pdcp_header e" "pdcp_read_sn (pe_upd_stats f e) = pdcp_read_sn e"
  "pdcp_rcvd_count (pe_upd_stats f e) = pdcp_rcvd_count e" "pdcp_cipher cr (pe_upd_stats f e) = pdcp_cipher cr e"
  "pdcp_mac cr (pe_upd_stats f e) = pdcp_mac cr e" "pdcp_unprotect cr (pe_upd_stats f e) = pdcp_unprotect cr e"
  "pdcp_config_ok (pe_upd_stats f e) = pdcp_config_ok e"
  "pdcp_add_mac cr (pe_upd_stats f e) = pdcp_add_mac cr e"
  "pdcp_add_cipher cr (pe_upd_stats f e) = pdcp_add_cipher cr e"
  unfolding fun_eq_iff pdcp_add_mac_def pdcp_add_cipher_def pdcp_header_size_def pdcp_integrity_size_def pdcp_header_def pdcp_read_sn_def
    pdcp_rcvd_count_def pdcp_cipher_def pdcp_mac_def pdcp_unprotect_def pdcp_config_ok_def pe_upd_stats_sel
  by simp_all

text \<open>The bytes of the PDU before ciphering.\<close>

definition pdcp_plain :: "pdcp_crypto \<Rightarrow> nr_pdcp_entity \<Rightarrow> byte list \<Rightarrow> byte list" where
  "pdcp_plain cr s sdu =
     (let plain = pdcp_header s (uint (pe_tx_next s AND word_of_int (pe_sn_max s))) @ sdu
      in plain @ (if pe_has_integrity s
                  then (case pe_integrity s of None \<Rightarrow> [] | Some (alg, k) \<Rightarrow>
                          cr_integrity cr alg k plain (pe_rb_id s) (pe_tx_next s) (if pe_is_gnb s then 1 else 0))
                  else replicate (pdcp_integrity_size s) 0))"

definition pdcp_sdap_size :: "bool \<Rightarrow> nat" where
  "pdcp_sdap_size b = (if b then 1 else 0)"

lemma pdcp_plain_length:
  assumes "crypto_ok cr" "pe_has_integrity s \<longrightarrow> pe_integrity s \<noteq> None"
  shows "length (pdcp_plain cr s sdu) = pdcp_header_size s + length sdu + pdcp_integrity_size s"
  using assms by (auto simp: pdcp_plain_def Let_def pdcp_header_length crypto_ok_def pdcp_integrity_size_def)

lemma pdcp_process_sdu_pdu:
  assumes "crypto_ok cr" "pdcp_can_send s" "nr_max_pdcp_pdu_size (int (length sdu)) \<le> mx" "sdu \<noteq> []"
  shows "\<exists>pdu s'. nr_pdcp_entity_process_sdu cr s sdu mx = Inr (Some pdu, s') \<and> pe_tx_next s' = pe_tx_next s + 1 \<and>
    length pdu = length (pdcp_plain cr s sdu) \<and>
    take (pdcp_header_size s) pdu = pdcp_header s (uint (pe_tx_next s AND word_of_int (pe_sn_max s))) \<and>
    (if pe_has_ciphering s
     then pdcp_cipher cr s (pdcp_header_size s + pdcp_sdap_size (pe_has_sdap_tx s)) pdu (pe_tx_next s)
            (if pe_is_gnb s then 1 else 0) = Inr (pdcp_plain cr s sdu)
     else pdu = pdcp_plain cr s sdu)"
proof -
  let ?off = "pdcp_header_size s + pdcp_sdap_size (pe_has_sdap_tx s)" and ?b = "pdcp_plain cr s sdu"
  let ?dir = "if pe_is_gnb s then 1 else 0 :: int"
  let ?h = "pdcp_header s (uint (pe_tx_next s AND word_of_int (pe_sn_max s)))"
  have peers: "\<not> pe_entity_suspended s" "pe_has_integrity s \<longrightarrow> pe_integrity s \<noteq> None"
      "pe_has_ciphering s \<longrightarrow> pe_security s \<noteq> None"
    using assms(2) by (simp_all add: pdcp_can_send_def)
  have len: "?off \<le> length ?b"
    using pdcp_plain_length [OF assms(1) peers(2), of sdu] assms(4)
    by (auto simp: pdcp_sdap_size_def neq_Nil_conv)
  have hd: "take (pdcp_header_size s) ?b = ?h"
    by (simp add: pdcp_plain_def Let_def pdcp_header_length)
  have mac: "pdcp_add_mac cr s (?h @ sdu) (pe_tx_next s) ?dir = Inr ?b"
    using peers(2) by (auto simp: pdcp_add_mac_def pdcp_plain_def Let_def pdcp_mac_def pdcp_integrity_size_def
        split: option.splits)
  have run: "\<exists>s'. nr_pdcp_entity_process_sdu cr s sdu mx = Inr (Some pdu, s') \<and> pe_tx_next s' = pe_tx_next s + 1"
    if "pdcp_add_cipher cr s ?b (pe_tx_next s) ?dir = Inr pdu" for pdu
    using assms(3) peers(1) mac that by (simp add: nr_pdcp_entity_process_sdu_def Let_def del: append_assoc)
  show ?thesis
  proof (cases "pe_has_ciphering s")
    case True
    then obtain alg k where sec: "pe_security s = Some (alg, k)" using peers(3) by auto
    let ?pdu = "take ?off ?b @ cr_cipher cr alg k (drop ?off ?b) (pe_rb_id s) (pe_tx_next s) ?dir"
    have cl: "length (cr_cipher cr alg k (drop ?off ?b) (pe_rb_id s) (pe_tx_next s) ?dir) = length ?b - ?off"
      using assms(1) by (simp add: crypto_ok_def)
    have c: "pdcp_cipher cr s ?off ?b (pe_tx_next s) ?dir = Inr ?pdu"
      using len sec by (simp add: pdcp_cipher_def)
    have "pdcp_cipher cr s ?off ?pdu (pe_tx_next s) ?dir = Inr ?b"
    proof -
      have "take ?off ?pdu = take ?off ?b" "drop ?off ?pdu =
          cr_cipher cr alg k (drop ?off ?b) (pe_rb_id s) (pe_tx_next s) ?dir" using len by simp_all
      moreover have "cr_cipher cr alg k (cr_cipher cr alg k (drop ?off ?b) (pe_rb_id s) (pe_tx_next s) ?dir)
          (pe_rb_id s) (pe_tx_next s) ?dir = drop ?off ?b" using assms(1) by (simp add: crypto_ok_def)
      ultimately show ?thesis using sec len cl by (simp add: pdcp_cipher_def)
    qed
    moreover have "take (pdcp_header_size s) ?pdu = ?h" using len hd by (simp add: take_take min_def)
    moreover have "length ?pdu = length ?b" using cl len by simp
    moreover have "pdcp_add_cipher cr s ?b (pe_tx_next s) ?dir = Inr ?pdu"
      using c True by (simp add: pdcp_add_cipher_def pdcp_sdap_size_def Let_def)
    ultimately show ?thesis using True run [of ?pdu] by auto
  next
    case False
    with run [of ?b] hd show ?thesis by (simp add: pdcp_add_cipher_def Let_def)
  qed
qed

lemma pdcp_header_dc:
  assumes "pe_type e \<noteq> NR_PDCP_SRB"
  shows "pdcp_header e sn \<noteq> []" "(hd (pdcp_header e sn) AND 0x80 :: byte) \<noteq> 0"
proof -
  have t: "pe_type e = NR_PDCP_DRB_AM \<or> pe_type e = NR_PDCP_DRB_UM" using assms by (cases "pe_type e") auto
  show "pdcp_header e sn \<noteq> []" by (simp add: pdcp_header_def Let_def)
  obtain x where "hd (pdcp_header e sn) = (word_of_int (0x80 OR x) :: byte)"
    using t by (cases "pe_sn_size e = SHORT_SN_SIZE") (auto simp: pdcp_header_def Let_def)
  then have "bit (hd (pdcp_header e sn)) 7" using bit_128 [of 7] by (simp add: bit_simps)
  moreover have "bit (0x80 :: byte) 7"
    using bit_exp_iff [of 7 7, where 'a = byte] by simp
  ultimately have "bit (hd (pdcp_header e sn) AND 0x80) 7" by (simp add: bit_and_iff)
  then show "(hd (pdcp_header e sn) AND 0x80 :: byte) \<noteq> 0" by auto
qed

text \<open>
  A PDU that one peer has made is unprotected by the other, which finds the COUNT and the SDU, as
  long as the COUNT is in the window of the receiver.
\<close>

lemma pdcp_recv_stores:
  assumes cr: "crypto_ok cr" and peers: "pdcp_peers s r" and mx: "nr_max_pdcp_pdu_size (int (length sdu)) \<le> mx"
    and sdu: "pdcp_sdap_size (pe_has_sdap_tx s) < length sdu"
    and win: "uint (pe_rx_deliv r) - pe_window_size r \<le> uint (pe_tx_next s)"
      "uint (pe_tx_next s) < uint (pe_rx_deliv r) + pe_window_size r"
  shows "\<exists>pdu s' f msg. nr_pdcp_entity_process_sdu cr s sdu mx = Inr (Some pdu, s') \<and>
    pe_tx_next s' = pe_tx_next s + 1 \<and>
    nr_pdcp_entity_recv_pdu cr r pdu =
      Inr (if pe_tx_next s < pe_rx_deliv r \<or> nr_pdcp_sdu_in_list (pe_rx_list r) (pe_tx_next s)
           then pdcp_discard (pe_upd_stats f r) (length pdu)
           else pdcp_store_sdu (pe_upd_stats f r) (pe_tx_next s) sdu
             (int (length pdu) - int (pdcp_header_size r)) msg)"
proof -
  let ?b = "pdcp_plain cr s sdu" and ?c = "pe_tx_next s"
  let ?sn = "uint (?c AND word_of_int (pe_sn_max s))" and ?dir = "if pe_is_gnb s then 1 else 0 :: int"
  have ne: "sdu \<noteq> []" using sdu by auto
  have p: "pdcp_config_ok s" "pdcp_config_ok r" "pe_sn_size r = pe_sn_size s" "pe_type r = pe_type s"
    "\<not> pe_entity_suspended r" "pe_has_integrity s \<longrightarrow> pe_integrity s \<noteq> None"
    using peers by (simp_all add: pdcp_peers_def)
  obtain pdu s' where pdu: "nr_pdcp_entity_process_sdu cr s sdu mx = Inr (Some pdu, s')"
      "pe_tx_next s' = ?c + 1" "length pdu = length ?b" "take (pdcp_header_size s) pdu = pdcp_header s ?sn"
    and un: "if pe_has_ciphering s
     then pdcp_cipher cr s (pdcp_header_size s + pdcp_sdap_size (pe_has_sdap_tx s)) pdu ?c ?dir = Inr ?b
     else pdu = ?b"
    using pdcp_process_sdu_pdu [OF cr peers_can_send [OF peers] mx ne] by blast
  have eqs: "pe_rb_id r = pe_rb_id s" "pe_security r = pe_security s" "pe_integrity r = pe_integrity s"
      "pe_has_integrity r = pe_has_integrity s"
    using peers by (simp_all add: pdcp_peers_def)
  have same: "pdcp_header_size r = pdcp_header_size s" "pdcp_integrity_size r = pdcp_integrity_size s"
      "pdcp_cipher cr r = pdcp_cipher cr s" "pdcp_mac cr r = pdcp_mac cr s"
      "pdcp_read_sn r = pdcp_read_sn s" "pdcp_header r = pdcp_header s"
    unfolding fun_eq_iff pdcp_header_size_def pdcp_integrity_size_def pdcp_cipher_def pdcp_mac_def
      pdcp_read_sn_def pdcp_header_def eqs p(3) p(4) by simp_all
  have snv: "?sn = uint ?c mod 2 ^ pe_sn_size s"
    using and_sn_max [of "pe_sn_size s" ?c] p(1) by (auto simp: pdcp_config_ok_def pdcp_consts)
  have split: "pdu = pdcp_header s ?sn @ drop (pdcp_header_size s) pdu" using pdu(4) by (metis append_take_drop_id)
  have sizes: "pe_sn_size s = SHORT_SN_SIZE \<or> pe_sn_size s = LONG_SN_SIZE" using p(1) by (simp add: pdcp_config_ok_def)
  have rd: "pdcp_read_sn r pdu = Inr ?sn"
    using pdcp_read_header [OF sizes, of ?sn "drop (pdcp_header_size s) pdu"] snv split same(5) by simp
  have cnt: "pdcp_rcvd_count r ?sn = ?c"
    using count_recovery [OF p(2) win] p(3) snv by simp
  have dc: "\<not> (pe_type r \<noteq> NR_PDCP_SRB \<and> pdu ! 0 AND 0x80 = 0)"
    using pdcp_header_dc [of s ?sn] split p(4) by (metis hd_append2 hd_conv_nth append_is_Nil_conv)
  have len: "length ?b = pdcp_header_size s + length sdu + pdcp_integrity_size s"
    using pdcp_plain_length [OF cr p(6)] .
  have mac: "pdcp_mac cr s (take (length ?b - PDCP_INTEGRITY_SIZE) ?b) ?c ?dir =
      Inr (drop (length ?b - PDCP_INTEGRITY_SIZE) ?b)" if "pe_has_integrity s"
    using that p(6) cr len
    by (auto simp: pdcp_mac_def pdcp_plain_def Let_def pdcp_integrity_size_def pdcp_header_length
        crypto_ok_def split: option.splits)
  have dir: "(if pe_is_gnb r then 0 else 1) = ?dir" using peers by (auto simp: pdcp_peers_def)
  have unp: "pdcp_unprotect cr r pdu ?c = Inr (Some ?b)"
    unfolding pdcp_unprotect_def Let_def dir same
    using un mac peers by (auto simp: pdcp_peers_def pdcp_sdap_size_def split: if_splits)
  have payload: "take (length pdu - pdcp_header_size s - pdcp_integrity_size s) (drop (pdcp_header_size s) ?b) = sdu"
    using len pdu(3) by (simp add: pdcp_plain_def Let_def pdcp_header_length)
  have size: "\<not> length pdu < pdcp_header_size r + (if pe_has_sdap_rx r then 1 else 0) + pdcp_integrity_size r + 1"
    using len pdu(3) sdu same peers by (auto simp: pdcp_peers_def pdcp_sdap_size_def)
  then have pos: "\<not> length pdu < 1" by linarith
  obtain f where f: "nr_pdcp_entity_recv_pdu cr r pdu = pdcp_recv_data cr (pe_upd_stats f r) pdu ?sn"
  proof -
    have "pe_upd_stats f (pe_upd_stats g r) = pe_upd_stats (f \<circ> g) r" for f g by (simp add: pe_upd_stats_def)
    then show thesis
      using that pos p(5) dc rd unfolding nr_pdcp_entity_recv_pdu_def Let_def by (simp only: if_False bindR_Inr pe_upd_stats_fun)
  qed
  have "pdcp_recv_data cr (pe_upd_stats f r) pdu ?sn =
      Inr (if ?c < pe_rx_deliv r \<or> nr_pdcp_sdu_in_list (pe_rx_list r) ?c
           then pdcp_discard (pe_upd_stats f r) (length pdu)
           else pdcp_store_sdu (pe_upd_stats f r) ?c sdu (int (length pdu) - int (pdcp_header_size r))
             (pdcp_integrity_data (pe_upd_stats f r) pdu ?c))"
    using size unp payload same by (simp add: pdcp_recv_data_def cnt Let_def)
  with f pdu(1,2) show ?thesis by metis
qed

section \<open>Delivery in order\<close>

text \<open>
  The stored SDUs have different COUNTs in increasing order, between \<open>rx_deliv\<close> and \<open>rx_next\<close>, and
  while the reordering timer runs \<open>rx_reord\<close> is between them too.
\<close>

definition pdcp_rx_inv :: "nr_pdcp_entity \<Rightarrow> bool" where
  "pdcp_rx_inv e \<longleftrightarrow> sorted_wrt (\<lambda>a b. ps_count a < ps_count b) (pe_rx_list e) \<and>
     (\<forall>x \<in> set (pe_rx_list e). pe_rx_deliv e < ps_count x \<and> ps_count x < pe_rx_next e) \<and>
     pe_rx_deliv e \<le> pe_rx_next e \<and>
     (pe_t_reordering_start e \<noteq> 0 \<longrightarrow> pe_rx_deliv e < pe_rx_reord e \<and> pe_rx_reord e \<le> pe_rx_next e)"

abbreviation sdu_item :: "nr_pdcp_sdu \<Rightarrow> byte list \<times> nr_pdcp_integrity_data" where
  "sdu_item x \<equiv> (ps_buffer x, ps_msg_integrity x)"

text \<open>\<open>ds\<close> has been delivered with consecutive COUNTs from \<open>count\<close> on.\<close>

definition consecutive :: "u32 \<Rightarrow> nr_pdcp_sdu list \<Rightarrow> bool" where
  "consecutive count ds \<longleftrightarrow> (\<forall>i < length ds. ps_count (ds ! i) = count + of_nat i)"

lemma consecutive_Nil [simp]: "consecutive count []"
  by (simp add: consecutive_def)

lemma consecutive_Cons: "consecutive count (x # ds) \<longleftrightarrow> ps_count x = count \<and> consecutive (count + 1) ds"
  by (auto simp: consecutive_def nth_Cons' less_Suc_eq_0_disj algebra_simps)

lemma nr_pdcp_sdu_in_list_iff: "nr_pdcp_sdu_in_list l c \<longleftrightarrow> c \<in> ps_count ` set l"
  by (induction l) auto

lemma sorted_sdu_list_add:
  assumes "sorted_wrt (\<lambda>a b. ps_count a < ps_count b) l" "ps_count x \<notin> ps_count ` set l"
  shows "sorted_wrt (\<lambda>a b. ps_count a < ps_count b) (nr_pdcp_sdu_list_add l x)"
  using assms unfolding nr_pdcp_sdu_list_add_def
proof (induction l)
  case Nil
  then show ?case by simp
next
  case (Cons y l)
  then have "ps_count x \<noteq> ps_count y" by auto
  with Cons show ?case by (auto intro: less_trans)
qed

lemma set_sdu_list_add [simp]: "set (nr_pdcp_sdu_list_add l x) = insert x (set l)"
  by (simp add: nr_pdcp_sdu_list_add_def)

text \<open>The fields that delivery leaves alone.\<close>

definition same_rx :: "nr_pdcp_entity \<Rightarrow> nr_pdcp_entity \<Rightarrow> bool" where
  "same_rx e e' \<longleftrightarrow> pe_rx_next e' = pe_rx_next e \<and> pe_rx_deliv e' = pe_rx_deliv e \<and>
     pe_rx_reord e' = pe_rx_reord e \<and> pe_t_reordering_start e' = pe_t_reordering_start e \<and>
     pe_t_current e' = pe_t_current e \<and> pe_t_reordering e' = pe_t_reordering e \<and> pe_tx_next e' = pe_tx_next e"

lemma pdcp_deliver_sel [simp]:
  "pe_delivered (pdcp_deliver x e) = pe_delivered e @ [sdu_item x]" "same_rx e (pdcp_deliver x e)"
  by (simp_all add: pdcp_deliver_def same_rx_def)

lemma same_rx_trans: "same_rx a b \<Longrightarrow> same_rx b c \<Longrightarrow> same_rx a c"
  by (simp add: same_rx_def)

lemma word_inc_gt: "a < b \<Longrightarrow> a < a + 1" for a b :: "'a::len word"
  by uint_arith

lemma deliver_run_ok:
  assumes "sorted_wrt (\<lambda>a b. ps_count a < ps_count b) l"
    and "\<forall>x \<in> set l. count \<le> ps_count x \<and> ps_count x < nx" "count \<le> nx"
  shows "\<exists>ds rest e'. l = ds @ rest \<and> pdcp_deliver_run count l e = (count + of_nat (length ds), e') \<and>
    pe_rx_list e' = rest \<and> pe_delivered e' = pe_delivered e @ map sdu_item ds \<and> same_rx e e' \<and>
    consecutive count ds \<and> count \<le> count + of_nat (length ds) \<and> count + of_nat (length ds) \<le> nx \<and>
    (\<forall>x \<in> set rest. count + of_nat (length ds) < ps_count x)"
  using assms
proof (induction l arbitrary: count e)
  case Nil
  show ?case by (rule exI [of _ "[]"]) (use Nil in \<open>simp add: same_rx_def\<close>)
next
  case (Cons x l)
  show ?case
  proof (cases "count = ps_count x")
    case True
    then have "count < nx" using Cons.prems(2) by auto
    then have le: "count + 1 \<le> nx" "count < count + 1" by (auto intro: inc_le word_inc_gt)
    have "\<forall>y \<in> set l. count + 1 \<le> ps_count y \<and> ps_count y < nx"
      using Cons.prems(1,2) True by (auto intro: inc_le)
    with Cons.IH [of "count + 1" "pdcp_deliver x e"] Cons.prems(1) le obtain ds rest e' where
      ih: "l = ds @ rest" "pdcp_deliver_run (count + 1) l (pdcp_deliver x e) = (count + 1 + of_nat (length ds), e')"
      "pe_rx_list e' = rest" "pe_delivered e' = pe_delivered (pdcp_deliver x e) @ map sdu_item ds"
      "same_rx (pdcp_deliver x e) e'" "consecutive (count + 1) ds" "count + 1 \<le> count + 1 + of_nat (length ds)"
      "count + 1 + of_nat (length ds) \<le> nx" "\<forall>y \<in> set rest. count + 1 + of_nat (length ds) < ps_count y"
      by auto
    have eq: "count + 1 + of_nat (length ds) = count + of_nat (length (x # ds))" by simp
    have "same_rx e e'" using same_rx_trans [OF pdcp_deliver_sel(2) ih(5)] .
    moreover have "count \<le> count + of_nat (length (x # ds))" using le(2) ih(7) unfolding eq by (meson less_imp_le less_le_trans)
    ultimately show ?thesis
      using ih True unfolding eq by (intro exI [of _ "x # ds"] exI [of _ rest] exI [of _ e']) (simp add: consecutive_Cons)
  next
    case False
    then have "count < ps_count x" using Cons.prems(2) by (simp add: order_less_le)
    with Cons.prems False show ?thesis
      by (intro exI [of _ "[]"] exI [of _ "x # l"]) (auto simp: same_rx_def intro: less_trans)
  qed
qed

text \<open>The invariant without the lower end of \<open>rx_reord\<close>, which the timer decision restores.\<close>

definition pdcp_rx_pre :: "nr_pdcp_entity \<Rightarrow> bool" where
  "pdcp_rx_pre e \<longleftrightarrow> sorted_wrt (\<lambda>a b. ps_count a < ps_count b) (pe_rx_list e) \<and>
     (\<forall>x \<in> set (pe_rx_list e). pe_rx_deliv e < ps_count x \<and> ps_count x < pe_rx_next e) \<and>
     pe_rx_deliv e \<le> pe_rx_next e \<and> (pe_t_reordering_start e \<noteq> 0 \<longrightarrow> pe_rx_reord e \<le> pe_rx_next e)"

lemma reordering_timer_ok:
  "pdcp_rx_pre e \<Longrightarrow> pdcp_rx_inv (pdcp_reordering_timer e)"
  by (auto simp: pdcp_rx_pre_def pdcp_rx_inv_def pdcp_reordering_timer_def Let_def not_le)

lemma reordering_timer_sel [simp]:
  "pe_delivered (pdcp_reordering_timer e) = pe_delivered e" "pe_rx_deliv (pdcp_reordering_timer e) = pe_rx_deliv e"
  "pe_rx_list (pdcp_reordering_timer e) = pe_rx_list e" "pe_rx_next (pdcp_reordering_timer e) = pe_rx_next e"
  by (simp_all add: pdcp_reordering_timer_def Let_def)

lemma store_sdu_ok:
  assumes inv: "pdcp_rx_inv e" and c: "pe_rx_deliv e \<le> c" "\<not> nr_pdcp_sdu_in_list (pe_rx_list e) c" "c \<noteq> -1"
    and x_def: "x = nr_pdcp_new_sdu c sdu msg" and e'_def: "e' = pdcp_store_sdu e c sdu sz msg"
  shows "pdcp_rx_inv e' \<and> (\<exists>ds. pe_delivered e' = pe_delivered e @ map sdu_item ds \<and>
    consecutive (pe_rx_deliv e) ds \<and> pe_rx_deliv e' = pe_rx_deliv e + of_nat (length ds) \<and>
    nr_pdcp_sdu_list_add (pe_rx_list e) x = ds @ pe_rx_list e' \<and> (ds = [] \<longleftrightarrow> c \<noteq> pe_rx_deliv e))"
proof -
  define nx where "nx = (if c \<ge> pe_rx_next e then c + 1 else pe_rx_next e)"
  define e1 where "e1 = e\<lparr>pe_rx_list := nr_pdcp_sdu_list_add (pe_rx_list e) x, pe_rx_size := pe_rx_size e + sz,
    pe_rx_next := nx\<rparr>"
  have x: "ps_count x = c" by (simp add: x_def nr_pdcp_new_sdu_def)
  have cc: "c < c + 1" using c(3) inc_less_eq_self_iff_eq [of c] by (simp add: not_le [symmetric])
  have nx: "c < nx" "pe_rx_next e \<le> nx" using cc by (auto simp: nx_def not_le)
  have sorted: "sorted_wrt (\<lambda>a b. ps_count a < ps_count b) (pe_rx_list e1)"
    using inv c(2) x by (simp add: e1_def sorted_sdu_list_add nr_pdcp_sdu_in_list_iff pdcp_rx_inv_def)
  have bounds: "\<forall>y \<in> set (pe_rx_list e1). pe_rx_deliv e \<le> ps_count y \<and> ps_count y < nx"
    using inv c(1) x nx by (auto simp: e1_def pdcp_rx_inv_def intro: less_le_trans)
  have le: "pe_rx_deliv e \<le> nx" using c(1) nx(1) by simp
  have other: "pe_rx_deliv e1 = pe_rx_deliv e" "pe_rx_next e1 = nx" "pe_rx_reord e1 = pe_rx_reord e"
      "pe_t_reordering_start e1 = pe_t_reordering_start e" "pe_delivered e1 = pe_delivered e"
    by (simp_all add: e1_def)
  have reord: "pe_t_reordering_start e \<noteq> 0 \<longrightarrow> pe_rx_reord e \<le> nx"
    using inv nx by (auto simp: pdcp_rx_inv_def)
  have st: "e' = pdcp_reordering_timer (if c = pe_rx_deliv e1
      then case pdcp_deliver_run (pe_rx_deliv e1) (pe_rx_list e1) e1 of (count, e') \<Rightarrow> e'\<lparr>pe_rx_deliv := count\<rparr>
      else e1)"
    unfolding e'_def pdcp_store_sdu_def Let_def e1_def nx_def x_def ..
  show ?thesis
  proof (cases "c = pe_rx_deliv e")
    case True
    obtain ds rest e2 where run: "pe_rx_list e1 = ds @ rest"
        "pdcp_deliver_run (pe_rx_deliv e) (pe_rx_list e1) e1 = (pe_rx_deliv e + of_nat (length ds), e2)"
        "pe_rx_list e2 = rest" "pe_delivered e2 = pe_delivered e1 @ map sdu_item ds" "same_rx e1 e2"
        "consecutive (pe_rx_deliv e) ds" "pe_rx_deliv e + of_nat (length ds) \<le> nx"
        "\<forall>y \<in> set rest. pe_rx_deliv e + of_nat (length ds) < ps_count y"
      using deliver_run_ok [OF sorted bounds le, of e1] by blast
    let ?e3 = "e2\<lparr>pe_rx_deliv := pe_rx_deliv e + of_nat (length ds)\<rparr>"
    have e': "e' = pdcp_reordering_timer ?e3" using st True run(2) other(1) by simp
    have "pdcp_rx_pre ?e3"
      using run sorted bounds reord other by (auto simp: pdcp_rx_pre_def same_rx_def sorted_wrt_append)
    moreover have "ds \<noteq> []"
    proof
      assume "ds = []"
      with run have "\<forall>y \<in> set (pe_rx_list e1). pe_rx_deliv e < ps_count y" by simp
      moreover have "x \<in> set (pe_rx_list e1)" by (simp add: e1_def)
      ultimately show False using x True by auto
    qed
    ultimately show ?thesis using e' run other True reordering_timer_ok by (auto simp: e1_def)
  next
    case False
    have "pdcp_rx_pre e1"
      using inv False sorted bounds le c(1) x reord other by (auto simp: pdcp_rx_pre_def pdcp_rx_inv_def e1_def)
    with st False other show ?thesis using reordering_timer_ok by (auto simp: e1_def)
  qed
qed

section \<open>The reordering timer\<close>

lemma deliver_below_ok:
  assumes "sorted_wrt (\<lambda>a b. ps_count a < ps_count b) l"
  shows "\<exists>ds rest e'. l = ds @ rest \<and> pdcp_deliver_below reord l e = e' \<and> pe_rx_list e' = rest \<and>
    pe_delivered e' = pe_delivered e @ map sdu_item ds \<and> same_rx e e' \<and>
    (\<forall>x \<in> set ds. ps_count x < reord) \<and> (\<forall>x \<in> set rest. reord \<le> ps_count x)"
  using assms
proof (induction l arbitrary: e)
  case Nil
  show ?case by (rule exI [of _ "[]"]) (simp add: same_rx_def)
next
  case (Cons x l)
  show ?case
  proof (cases "ps_count x < reord")
    case True
    with Cons.IH [of "pdcp_deliver x e"] Cons.prems obtain ds rest e' where
      ih: "l = ds @ rest" "pdcp_deliver_below reord l (pdcp_deliver x e) = e'" "pe_rx_list e' = rest"
      "pe_delivered e' = pe_delivered e @ sdu_item x # map sdu_item ds" "same_rx (pdcp_deliver x e) e'"
      "\<forall>x \<in> set ds. ps_count x < reord" "\<forall>x \<in> set rest. reord \<le> ps_count x" by auto
    have "same_rx e e'" using same_rx_trans [OF pdcp_deliver_sel(2) ih(5)] .
    with ih True show ?thesis by (intro exI [of _ "x # ds"] exI [of _ rest] exI [of _ e']) simp
  next
    case False
    with Cons.prems show ?thesis
      by (intro exI [of _ "[]"] exI [of _ "x # l"]) (auto simp: same_rx_def not_less intro: order_trans less_imp_le)
  qed
qed

definition pdcp_expired :: "nr_pdcp_entity \<Rightarrow> bool" where
  "pdcp_expired e \<longleftrightarrow> pe_t_reordering e \<noteq> -1 \<and> pe_t_reordering_start e \<noteq> 0 \<and>
     pe_t_current e > pe_t_reordering_start e + word_of_int (pe_t_reordering e)"

lemma reordering_expiry_ok:
  assumes inv: "pdcp_rx_inv e" and ex: "pdcp_expired e" and e'_def: "e' = check_t_reordering e"
  shows "pdcp_rx_inv e' \<and> pe_rx_reord e \<le> pe_rx_deliv e' \<and>
    (\<exists>ds. pe_delivered e' = pe_delivered e @ map sdu_item ds \<and> pe_rx_list e = ds @ pe_rx_list e' \<and>
      (\<forall>x \<in> set (pe_rx_list e'). pe_rx_deliv e' < ps_count x))"
proof -
  let ?e0 = "e\<lparr>pe_t_reordering_start := 0\<rparr>"
  have sorted: "sorted_wrt (\<lambda>a b. ps_count a < ps_count b) (pe_rx_list e)"
    and reord: "pe_rx_deliv e < pe_rx_reord e" "pe_rx_reord e \<le> pe_rx_next e"
    using inv ex by (auto simp: pdcp_rx_inv_def pdcp_expired_def)
  obtain ds1 rest1 e1 where b: "pe_rx_list e = ds1 @ rest1"
      "pdcp_deliver_below (pe_rx_reord e) (pe_rx_list e) ?e0 = e1" "pe_rx_list e1 = rest1"
      "pe_delivered e1 = pe_delivered e @ map sdu_item ds1" "same_rx ?e0 e1"
      "\<forall>x \<in> set rest1. pe_rx_reord e \<le> ps_count x"
    using deliver_below_ok [OF sorted, of "pe_rx_reord e" ?e0] by auto
  have r1: "sorted_wrt (\<lambda>a b. ps_count a < ps_count b) rest1"
    "\<forall>x \<in> set rest1. pe_rx_reord e \<le> ps_count x \<and> ps_count x < pe_rx_next e"
    using sorted inv b(1,6) by (auto simp: sorted_wrt_append pdcp_rx_inv_def)
  obtain ds2 rest2 e2 where d: "rest1 = ds2 @ rest2"
      "pdcp_deliver_run (pe_rx_reord e) rest1 e1 = (pe_rx_reord e + of_nat (length ds2), e2)"
      "pe_rx_list e2 = rest2" "pe_delivered e2 = pe_delivered e1 @ map sdu_item ds2" "same_rx e1 e2"
      "pe_rx_reord e \<le> pe_rx_reord e + of_nat (length ds2)" "pe_rx_reord e + of_nat (length ds2) \<le> pe_rx_next e"
      "\<forall>x \<in> set rest2. pe_rx_reord e + of_nat (length ds2) < ps_count x"
    using deliver_run_ok [OF r1 reord(2), of e1] by blast
  have same: "pe_rx_reord e1 = pe_rx_reord e" "pe_rx_next e2 = pe_rx_next e" "pe_t_reordering_start e2 = 0"
    using b(5) d(5) by (simp_all add: same_rx_def)
  let ?e3 = "e2\<lparr>pe_rx_deliv := pe_rx_reord e + of_nat (length ds2)\<rparr>"
  have late: "\<not> pe_t_current e \<le> pe_t_reordering_start e + word_of_int (pe_t_reordering e)"
    using ex by (simp add: pdcp_expired_def not_le)
  have e': "e' = (if pe_rx_deliv ?e3 < pe_rx_next ?e3
      then ?e3\<lparr>pe_rx_reord := pe_rx_next ?e3, pe_t_reordering_start := pe_t_current ?e3\<rparr> else ?e3)"
    using ex late b(2,3) d(2) same(1)
    by (simp add: e'_def check_t_reordering_def pdcp_expired_def Let_def)
  have "sorted_wrt (\<lambda>a b. ps_count a < ps_count b) rest2" "\<forall>x \<in> set rest2. ps_count x < pe_rx_next e"
    using r1 d(1) by (auto simp: sorted_wrt_append)
  with d(3,7,8) same have "pdcp_rx_inv e'" by (auto simp: e' pdcp_rx_inv_def)
  moreover have "pe_delivered e' = pe_delivered e @ map sdu_item (ds1 @ ds2)" "pe_rx_list e' = rest2"
      "pe_rx_deliv e' = pe_rx_reord e + of_nat (length ds2)"
    using e' b(4) d(3,4) by auto
  ultimately show ?thesis using b(1) d(1,6,8)
    by (intro conjI exI [of _ "ds1 @ ds2"]) simp_all
qed

section \<open>End to end\<close>

lemma pdcp_peer_receives:
  assumes "crypto_ok cr" "pdcp_peers s r" "pdcp_rx_inv r" "nr_max_pdcp_pdu_size (int (length sdu)) \<le> mx"
    "pdcp_sdap_size (pe_has_sdap_tx s) < length sdu" "pe_tx_next s \<noteq> -1"
    "uint (pe_rx_deliv r) - pe_window_size r \<le> uint (pe_tx_next s)"
    "uint (pe_tx_next s) < uint (pe_rx_deliv r) + pe_window_size r"
  shows "\<exists>pdu s' r'. nr_pdcp_entity_process_sdu cr s sdu mx = Inr (Some pdu, s') \<and>
    nr_pdcp_entity_recv_pdu cr r pdu = Inr r' \<and> pdcp_rx_inv r' \<and>
    (if pe_tx_next s < pe_rx_deliv r \<or> nr_pdcp_sdu_in_list (pe_rx_list r) (pe_tx_next s)
     then pe_delivered r' = pe_delivered r \<and> pe_rx_list r' = pe_rx_list r
     else \<exists>ds x. pe_delivered r' = pe_delivered r @ map sdu_item ds \<and> consecutive (pe_rx_deliv r) ds \<and>
       pe_rx_deliv r' = pe_rx_deliv r + of_nat (length ds) \<and>
       ps_count x = pe_tx_next s \<and> ps_buffer x = sdu \<and> x \<in> set ds \<union> set (pe_rx_list r'))"
proof -
  obtain pdu s' f msg where p: "nr_pdcp_entity_process_sdu cr s sdu mx = Inr (Some pdu, s')"
    "nr_pdcp_entity_recv_pdu cr r pdu =
      Inr (if pe_tx_next s < pe_rx_deliv r \<or> nr_pdcp_sdu_in_list (pe_rx_list r) (pe_tx_next s)
           then pdcp_discard (pe_upd_stats f r) (length pdu)
           else pdcp_store_sdu (pe_upd_stats f r) (pe_tx_next s) sdu
             (int (length pdu) - int (pdcp_header_size r)) msg)"
    using pdcp_recv_stores [OF assms(1,2,4,5,7,8)] by blast
  have inv: "pdcp_rx_inv (pe_upd_stats f r)" using assms(3) by (simp add: pdcp_rx_inv_def)
  show ?thesis
  proof (cases "pe_tx_next s < pe_rx_deliv r \<or> nr_pdcp_sdu_in_list (pe_rx_list r) (pe_tx_next s)")
    case True
    with p assms(3) show ?thesis by (auto simp: pdcp_discard_def pdcp_rx_inv_def)
  next
    case False
    let ?x = "nr_pdcp_new_sdu (pe_tx_next s) sdu msg"
    let ?r' = "pdcp_store_sdu (pe_upd_stats f r) (pe_tx_next s) sdu (int (length pdu) - int (pdcp_header_size r)) msg"
    obtain ds where ds: "pdcp_rx_inv ?r'" "pe_delivered ?r' = pe_delivered r @ map sdu_item ds"
        "consecutive (pe_rx_deliv r) ds" "pe_rx_deliv ?r' = pe_rx_deliv r + of_nat (length ds)"
        "nr_pdcp_sdu_list_add (pe_rx_list r) ?x = ds @ pe_rx_list ?r'"
      using store_sdu_ok [OF inv _ _ assms(6) refl refl, where sdu = sdu and msg = msg] False by (auto simp: not_less)
    have "?x \<in> set ds \<union> set (pe_rx_list ?r')"
      using arg_cong [OF ds(5), of set] by auto
    then have "\<exists>x. ps_count x = pe_tx_next s \<and> ps_buffer x = sdu \<and> x \<in> set ds \<union> set (pe_rx_list ?r')"
      by (intro exI [of _ ?x]) (simp add: nr_pdcp_new_sdu_def)
    with False p ds show ?thesis by auto
  qed
qed

section \<open>Properties\<close>

text \<open>
  A pair of entities for the witnesses: a 12-bit AM bearer with ciphering and integrity protection.
\<close>

definition demo_crypto :: pdcp_crypto where
  "demo_crypto = \<lparr>cr_cipher = (\<lambda>_ _ b _ _ _. map NOT b), cr_integrity = (\<lambda>_ _ _ _ _ _. [1, 2, 3, 4])\<rparr>"

definition demo_keys :: security_keys_and_algos where
  "demo_keys = \<lparr>sk_integrity_algorithm = 2, sk_ciphering_algorithm = 2,
     sk_integrity_key = replicate 16 7, sk_ciphering_key = replicate 16 9\<rparr>"

definition demo_gnb :: nr_pdcp_entity where
  "demo_gnb = projr (new_nr_pdcp_entity NR_PDCP_DRB_AM True 1 1 False False 12 100 (-1) demo_keys)"

definition demo_ue :: nr_pdcp_entity where
  "demo_ue = projr (new_nr_pdcp_entity NR_PDCP_DRB_AM False 1 1 False False 12 100 (-1) demo_keys)"

lemmas demo_defs = demo_gnb_def demo_ue_def new_nr_pdcp_entity_def nr_pdcp_entity_set_security_def
  pdcp_set_keys_def demo_keys_def Let_def

lemma demo_crypto_ok: "crypto_ok demo_crypto"
  by (simp add: crypto_ok_def demo_crypto_def PDCP_INTEGRITY_SIZE_def comp_def)

lemma demo_peers: "pdcp_peers demo_gnb demo_ue"
  by (simp add: pdcp_peers_def pdcp_config_ok_def demo_defs pdcp_consts)

lemma demo_ue_inv: "pdcp_rx_inv demo_ue"
  by (simp add: pdcp_rx_inv_def demo_defs)

lemma demo_fields:
  "pe_tx_next demo_gnb = 0" "\<not> pe_has_sdap_tx demo_gnb" "pe_rx_deliv demo_ue = 0" "pe_rx_list demo_ue = []"
  "pe_window_size demo_ue = 2048" "pe_has_integrity demo_ue" "\<not> pe_is_gnb demo_ue"
  "pe_has_integrity demo_gnb" "pe_integrity demo_gnb \<noteq> None" "pe_sn_size demo_gnb = 12"
  by (simp_all add: demo_defs)

text \<open>
  Property C10. The COUNT that the receiver computes from the sequence number of a PDU is the COUNT
  of the sender, for every COUNT that is less than half of the sequence number space behind or
  ahead of \<open>rx_deliv\<close>.
\<close>

theorem pdcp_count_recovered:
  assumes "pdcp_config_ok e"
    and "uint (pe_rx_deliv e) - pe_window_size e \<le> uint count" "uint count < uint (pe_rx_deliv e) + pe_window_size e"
  shows "pdcp_rcvd_count e (uint count mod 2 ^ pe_sn_size e) = count"
  using count_recovery [OF assms] by simp

theorem pdcp_count_recovered_witness:
  "pdcp_rcvd_count (demo_ue\<lparr>pe_rx_deliv := 0x5ffe\<rparr>) (uint (0x6003 :: u32) mod 2 ^ 12) = 0x6003"
  using pdcp_count_recovered [of "demo_ue\<lparr>pe_rx_deliv := 0x5ffe\<rparr>" "0x6003"]
  by (simp add: pdcp_config_ok_def demo_defs pdcp_consts)

text \<open>
  Property C8. An SDU that one entity protects is, byte for byte, what its peer delivers or stores
  under the COUNT of the sender, whatever ciphering and integrity protection are on, as long as the
  COUNT is in the window of the receiver and was not received before; the delivered SDUs have
  consecutive COUNTs from \<open>rx_deliv\<close> on. A PDU that was received before changes nothing.
\<close>

theorem pdcp_end_to_end:
  assumes "crypto_ok cr" "pdcp_peers s r" "pdcp_rx_inv r" "nr_max_pdcp_pdu_size (int (length sdu)) \<le> mx"
    "pdcp_sdap_size (pe_has_sdap_tx s) < length sdu" "pe_tx_next s \<noteq> -1"
    "uint (pe_rx_deliv r) - pe_window_size r \<le> uint (pe_tx_next s)"
    "uint (pe_tx_next s) < uint (pe_rx_deliv r) + pe_window_size r"
  shows "\<exists>pdu s' r'. nr_pdcp_entity_process_sdu cr s sdu mx = Inr (Some pdu, s') \<and>
    nr_pdcp_entity_recv_pdu cr r pdu = Inr r' \<and> pdcp_rx_inv r' \<and>
    (if pe_tx_next s < pe_rx_deliv r \<or> nr_pdcp_sdu_in_list (pe_rx_list r) (pe_tx_next s)
     then pe_delivered r' = pe_delivered r \<and> pe_rx_list r' = pe_rx_list r
     else \<exists>ds x. pe_delivered r' = pe_delivered r @ map sdu_item ds \<and> consecutive (pe_rx_deliv r) ds \<and>
       pe_rx_deliv r' = pe_rx_deliv r + of_nat (length ds) \<and>
       ps_count x = pe_tx_next s \<and> ps_buffer x = sdu \<and> x \<in> set ds \<union> set (pe_rx_list r'))"
  by (rule pdcp_peer_receives [OF assms])

theorem pdcp_end_to_end_witness:
  "\<exists>pdu s' r'. nr_pdcp_entity_process_sdu demo_crypto demo_gnb [10, 20, 30] 10 = Inr (Some pdu, s') \<and>
    nr_pdcp_entity_recv_pdu demo_crypto demo_ue pdu = Inr r' \<and> pdcp_rx_inv r'"
  using pdcp_end_to_end [OF demo_crypto_ok demo_peers demo_ue_inv, of "[10, 20, 30]" 10]
  by (auto simp: nr_max_pdcp_pdu_size_def pdcp_consts pdcp_sdap_size_def demo_defs)

text \<open>
  Property C9. Whatever is received in whatever order: a PDU with a new COUNT keeps the stored SDUs
  strictly ordered between \<open>rx_deliv\<close> and \<open>rx_next\<close>, and what it causes to be delivered is the part
  of the ordered list from \<open>rx_deliv\<close> on without a gap; nothing else leaves the list.
\<close>

theorem pdcp_in_order_delivery:
  assumes "pdcp_rx_inv e" "pe_rx_deliv e \<le> c" "\<not> nr_pdcp_sdu_in_list (pe_rx_list e) c" "c \<noteq> -1"
  shows "pdcp_rx_inv (pdcp_store_sdu e c sdu sz msg) \<and>
    (\<exists>ds. pe_delivered (pdcp_store_sdu e c sdu sz msg) = pe_delivered e @ map sdu_item ds \<and>
      consecutive (pe_rx_deliv e) ds \<and>
      pe_rx_deliv (pdcp_store_sdu e c sdu sz msg) = pe_rx_deliv e + of_nat (length ds) \<and>
      nr_pdcp_sdu_list_add (pe_rx_list e) (nr_pdcp_new_sdu c sdu msg) =
        ds @ pe_rx_list (pdcp_store_sdu e c sdu sz msg) \<and> (ds = [] \<longleftrightarrow> c \<noteq> pe_rx_deliv e))"
  by (rule store_sdu_ok [OF assms refl refl])

theorem pdcp_in_order_delivery_witness:
  "pdcp_rx_inv (pdcp_store_sdu demo_ue 1 [1, 2] 2 no_integrity_data)"
  using pdcp_in_order_delivery [OF demo_ue_inv, of 1 "[1, 2]" 2 no_integrity_data]
  by (simp add: demo_defs)

text \<open>
  Property C12. When the reordering timer expires, the receiver gives up on what is missing below
  \<open>rx_reord\<close>: it delivers a prefix of the ordered list, in order, moves \<open>rx_deliv\<close> to \<open>rx_reord\<close> or
  beyond, keeps the invariant, and nothing below the new \<open>rx_deliv\<close> stays in the list.
\<close>

theorem pdcp_reordering_expiry:
  assumes "pdcp_rx_inv e" "pdcp_expired e"
  shows "pdcp_rx_inv (check_t_reordering e) \<and> pe_rx_reord e \<le> pe_rx_deliv (check_t_reordering e) \<and>
    (\<exists>ds. pe_delivered (check_t_reordering e) = pe_delivered e @ map sdu_item ds \<and>
      pe_rx_list e = ds @ pe_rx_list (check_t_reordering e) \<and>
      (\<forall>x \<in> set (pe_rx_list (check_t_reordering e)). pe_rx_deliv (check_t_reordering e) < ps_count x))"
  by (rule reordering_expiry_ok [OF assms refl])

definition demo_gap :: nr_pdcp_entity where
  "demo_gap = demo_ue\<lparr>pe_rx_list := [nr_pdcp_new_sdu 3 [1, 2] no_integrity_data], pe_rx_next := 4, pe_rx_reord := 4,
     pe_t_reordering_start := 5, pe_t_current := 200\<rparr>"

theorem pdcp_reordering_expiry_witness:
  "4 \<le> pe_rx_deliv (check_t_reordering demo_gap)"
  using pdcp_reordering_expiry [of demo_gap]
  by (simp add: demo_gap_def pdcp_rx_inv_def pdcp_expired_def demo_defs nr_pdcp_new_sdu_def)

text \<open>
  Property C11. With integrity protection on, a PDU changes what is stored or delivered only if the
  MAC at its end is the MAC of its deciphered bytes under the COUNT the receiver computed.
\<close>

definition pdcp_deciphered :: "pdcp_crypto \<Rightarrow> nr_pdcp_entity \<Rightarrow> byte list \<Rightarrow> u32 \<Rightarrow> byte list result" where
  "pdcp_deciphered cr r pdu count =
     (if pe_has_ciphering r
      then pdcp_cipher cr r (pdcp_header_size r + pdcp_sdap_size (pe_has_sdap_rx r)) pdu count (if pe_is_gnb r then 0 else 1)
      else Inr pdu)"

theorem pdcp_only_authentic:
  assumes "pe_has_integrity r" "nr_pdcp_entity_recv_pdu cr r pdu = Inr r'"
    and "pe_rx_list r' \<noteq> pe_rx_list r \<or> pe_delivered r' \<noteq> pe_delivered r"
  shows "\<exists>buf sn b. tl buf = tl pdu \<and> pdcp_read_sn r buf = Inr sn \<and>
    pdcp_deciphered cr r buf (pdcp_rcvd_count r sn) = Inr b \<and>
    pdcp_mac cr r (take (length b - PDCP_INTEGRITY_SIZE) b) (pdcp_rcvd_count r sn) (if pe_is_gnb r then 0 else 1) =
      Inr (drop (length b - PDCP_INTEGRITY_SIZE) b)"
proof -
  let ?buf = "if pe_type r \<noteq> NR_PDCP_SRB \<and> pdu ! 0 AND 0x80 = 0 then pdu[0 := pdu ! 0 OR 128] else pdu"
  have tl: "tl ?buf = tl pdu" by (cases pdu) simp_all
  have "pe_upd_stats f (pe_upd_stats g r) = pe_upd_stats (f \<circ> g) r" for f g by (simp add: pe_upd_stats_def)
  with assms(2,3) obtain f sn where sn: "pdcp_read_sn r ?buf = Inr sn"
      "pdcp_recv_data cr (pe_upd_stats f r) ?buf sn = Inr r'"
    unfolding nr_pdcp_entity_recv_pdu_def Let_def by (auto simp: bindR_eq_Inr split: if_split_asm)
  then obtain b where "pdcp_unprotect cr r ?buf (pdcp_rcvd_count r sn) = Inr (Some b)"
    using assms(3) by (auto simp: pdcp_recv_data_def Let_def bindR_eq_Inr pdcp_discard_def
        split: if_split_asm option.splits)
  with assms(1) have "pdcp_deciphered cr r ?buf (pdcp_rcvd_count r sn) = Inr b"
    "pdcp_mac cr r (take (length b - PDCP_INTEGRITY_SIZE) b) (pdcp_rcvd_count r sn) (if pe_is_gnb r then 0 else 1) =
      Inr (drop (length b - PDCP_INTEGRITY_SIZE) b)"
    unfolding pdcp_unprotect_def Let_def pdcp_deciphered_def pdcp_sdap_size_def
    by (auto simp: bindR_eq_Inr split: if_split_asm)
  with tl sn(1) show ?thesis by blast
qed

theorem pdcp_only_authentic_witness:
  "\<exists>pdu buf sn b. length pdu = 9 \<and> tl buf = tl pdu \<and> pdcp_read_sn demo_ue buf = Inr sn \<and>
    pdcp_deciphered demo_crypto demo_ue buf (pdcp_rcvd_count demo_ue sn) = Inr b \<and>
    pdcp_mac demo_crypto demo_ue (take (length b - PDCP_INTEGRITY_SIZE) b) (pdcp_rcvd_count demo_ue sn) 1 =
      Inr (drop (length b - PDCP_INTEGRITY_SIZE) b)"
proof -
  have "\<exists>pdu s' r' ds x. nr_pdcp_entity_process_sdu demo_crypto demo_gnb [10, 20, 30] 10 = Inr (Some pdu, s') \<and>
      nr_pdcp_entity_recv_pdu demo_crypto demo_ue pdu = Inr r' \<and>
      pe_delivered r' = pe_delivered demo_ue @ map sdu_item ds \<and> x \<in> set ds \<union> set (pe_rx_list r')"
    using pdcp_peer_receives [OF demo_crypto_ok demo_peers demo_ue_inv, of "[10, 20, 30]" 10]
    by (simp add: nr_max_pdcp_pdu_size_def pdcp_consts pdcp_sdap_size_def demo_fields) blast
  then obtain pdu s' r' ds x where p:
      "nr_pdcp_entity_process_sdu demo_crypto demo_gnb [10, 20, 30] 10 = Inr (Some pdu, s')"
      "nr_pdcp_entity_recv_pdu demo_crypto demo_ue pdu = Inr r'"
      "pe_delivered r' = pe_delivered demo_ue @ map sdu_item ds" "x \<in> set ds \<union> set (pe_rx_list r')" by blast
  have len: "length pdu = 9"
    using p(1) pdcp_process_sdu_pdu [OF demo_crypto_ok peers_can_send [OF demo_peers], of "[10, 20, 30]" 10]
      pdcp_plain_length [OF demo_crypto_ok, of demo_gnb "[10, 20, 30]"]
    by (auto simp: nr_max_pdcp_pdu_size_def pdcp_consts demo_fields pdcp_header_size_def pdcp_integrity_size_def)
  have "pe_rx_list r' \<noteq> [] \<or> pe_delivered r' \<noteq> pe_delivered demo_ue" using p(3,4) by auto
  then obtain buf sn b where "tl buf = tl pdu" "pdcp_read_sn demo_ue buf = Inr sn"
      "pdcp_deciphered demo_crypto demo_ue buf (pdcp_rcvd_count demo_ue sn) = Inr b"
      "pdcp_mac demo_crypto demo_ue (take (length b - PDCP_INTEGRITY_SIZE) b) (pdcp_rcvd_count demo_ue sn) 1 =
        Inr (drop (length b - PDCP_INTEGRITY_SIZE) b)"
    using pdcp_only_authentic [OF _ p(2)] by (auto simp: demo_fields)
  with len show ?thesis by blast
qed

text \<open>
  A suspended entity neither accepts PDUs nor SDUs and has reset its COUNTs; the
  re-establishment of a UM bearer or an SRB resumes it with COUNT 0 in both directions.
\<close>

theorem pdcp_suspend_resume:
  assumes "pe_type e \<noteq> NR_PDCP_DRB_AM" "nr_max_pdcp_pdu_size (int (length sdu)) \<le> mx"
    "nr_pdcp_entity_reestablish (nr_pdcp_entity_suspend e) p = Inr e'"
  shows "nr_pdcp_entity_recv_pdu cr (nr_pdcp_entity_suspend e) pdu = Inr (nr_pdcp_entity_suspend e) \<and>
    nr_pdcp_entity_process_sdu cr (nr_pdcp_entity_suspend e) sdu mx = Inr (None, nr_pdcp_entity_suspend e) \<and>
    pe_tx_next e' = 0 \<and> pe_rx_next e' = 0 \<and> pe_rx_deliv e' = 0 \<and> \<not> pe_entity_suspended e'"
proof -
  have sus: "pe_entity_suspended (nr_pdcp_entity_suspend e)" by (simp add: nr_pdcp_entity_suspend_def Let_def)
  have sec: "nr_pdcp_entity_set_security a p = Inr b \<Longrightarrow>
      pe_tx_next b = pe_tx_next a \<and> pe_rx_next b = pe_rx_next a \<and> pe_rx_deliv b = pe_rx_deliv a" for a b
    by (auto simp: nr_pdcp_entity_set_security_def pdcp_set_keys_def Let_def bindR_eq_Inr split: if_split_asm)
  have all: "pe_tx_next (deliver_all_sdus l a) = pe_tx_next a" for l a
    by (induction l arbitrary: a) (simp_all add: pdcp_deliver_def)
  have free: "pe_tx_next (free_rx_list a) = pe_tx_next a" for a
  proof -
    have "pe_tx_next (fold (\<lambda>cur. pe_upd_stats (f cur)) l a) = pe_tx_next a" for f and l :: "nr_pdcp_sdu list"
      by (induction l arbitrary: a) simp_all
    then show ?thesis by (simp add: free_rx_list_def)
  qed
  obtain a b where ab: "nr_pdcp_entity_set_security a p = Inr b" "e' = b\<lparr>pe_entity_suspended := False\<rparr>"
      "pe_tx_next a = 0" "pe_rx_next a = 0" "pe_rx_deliv a = 0"
    using assms(1,3) all free
    by (cases "pe_type (nr_pdcp_entity_suspend e)")
      (auto simp: nr_pdcp_entity_reestablish_def nr_pdcp_entity_reestablish_drb_um_def
        nr_pdcp_entity_reestablish_srb_def nr_pdcp_entity_reestablish_drb_am_def Let_def bindR_eq_Inr
        nr_pdcp_entity_suspend_def)
  with sec [OF ab(1)] sus assms(2) show ?thesis
    by (simp add: nr_pdcp_entity_recv_pdu_def nr_pdcp_entity_process_sdu_def)
qed

theorem pdcp_suspend_resume_witness:
  "\<exists>e'. nr_pdcp_entity_reestablish (nr_pdcp_entity_suspend (demo_ue\<lparr>pe_type := NR_PDCP_SRB\<rparr>)) demo_keys = Inr e' \<and>
    pe_rx_deliv e' = 0 \<and> \<not> pe_entity_suspended e'"
proof -
  obtain e' where e': "nr_pdcp_entity_reestablish (nr_pdcp_entity_suspend (demo_ue\<lparr>pe_type := NR_PDCP_SRB\<rparr>)) demo_keys = Inr e'"
    by (simp add: nr_pdcp_entity_reestablish_def nr_pdcp_entity_suspend_def nr_pdcp_entity_reestablish_srb_def demo_defs)
  moreover have "pe_type (demo_ue\<lparr>pe_type := NR_PDCP_SRB\<rparr>) \<noteq> NR_PDCP_DRB_AM"
    "nr_max_pdcp_pdu_size (int (length [1])) \<le> 10" by (simp_all add: nr_max_pdcp_pdu_size_def pdcp_consts)
  ultimately show ?thesis using pdcp_suspend_resume [of _ "[1]" 10 demo_keys e'] by blast
qed

text \<open>
  The HFN of a received PDU is computed without a guard for HFN 0: a fresh entity that
  receives sequence number 2048 takes it for COUNT 0xFFFFF800. Once the reordering timer has expired
  \<open>rx_deliv\<close> is next to the end of the COUNT space and the regular PDU with sequence number 0 is discarded.
\<close>

definition demo_plain :: nr_pdcp_entity where
  "demo_plain = projr (new_nr_pdcp_entity NR_PDCP_DRB_UM False 1 1 False False 12 100 (-1)
     (demo_keys\<lparr>sk_integrity_algorithm := 0, sk_ciphering_algorithm := 0\<rparr>))"

theorem pdcp_hfn_underflow:
  "(case nr_pdcp_entity_recv_pdu demo_crypto (nr_pdcp_entity_set_time demo_plain 1) [0x88, 0x00, 0x55] of
      Inl _ \<Rightarrow> False
    | Inr e1 \<Rightarrow>
        (let e2 = nr_pdcp_entity_set_time e1 200
         in pe_rx_next e1 = 0xFFFFF801 \<and> pe_rx_deliv e2 = 0xFFFFF801 \<and>
            (case nr_pdcp_entity_recv_pdu demo_crypto e2 [0x80, 0x00, 0x66] of
               Inl _ \<Rightarrow> False
             | Inr e3 \<Rightarrow> pe_delivered e3 = pe_delivered e2 \<and> pe_rx_list e3 = [])))"
  by code_simp

text \<open>
  The sequence number is read before the size of the PDU is checked: a PDU of one byte
  makes the receiver read behind its buffer, whatever the state of the (not suspended) entity.
\<close>

theorem pdcp_short_pdu_overread:
  assumes "\<not> pe_entity_suspended e" "pe_sn_size e = 12"
  shows "nr_pdcp_entity_recv_pdu cr e [b] = Inl OutOfBounds"
  using assms by (simp add: nr_pdcp_entity_recv_pdu_def Let_def pdcp_read_sn_def pdcp_consts pdcp_header_size_def)

theorem pdcp_short_pdu_overread_witness:
  "nr_pdcp_entity_recv_pdu demo_crypto demo_plain [0x80] = Inl OutOfBounds"
  using pdcp_short_pdu_overread [of demo_plain] by (simp add: demo_plain_def demo_defs)

end
