(* ===== verification/Rlc_Pdu.thy ===== *)
theory Rlc_Pdu
  imports Prelude
begin

text \<open>
  Model of \<open>nr_rlc_pdu.c\<close> and \<open>nr_rlc_pdu.h\<close>: received PDUs and their ordered list, the bit
  decoder and the bit encoder of the RLC headers. The lemmas show that the encoder appends
  exactly the requested bits, that the decoder consumes exactly the requested bits or reports
  an error, and that decoding what was encoded gives the encoded fields back.
\<close>

section \<open>Received PDUs\<close>

text \<open>
  \<open>pdu_data\<close> is \<open>None\<close> when the data pointer is NULL, which the entities use to mark a PDU whose
  SDU has been delivered.
\<close>

record nr_rlc_pdu =
  pdu_sn :: int
  pdu_data :: "byte list option"
  pdu_size :: int
  pdu_so :: int
  pdu_is_first :: bool
  pdu_is_last :: bool

definition nr_rlc_new_pdu :: "int \<Rightarrow> int \<Rightarrow> bool \<Rightarrow> bool \<Rightarrow> byte list \<Rightarrow> nr_rlc_pdu" where
  "nr_rlc_new_pdu sn so is_first is_last data =
     \<lparr>pdu_sn = sn, pdu_data = Some data, pdu_size = int (length data), pdu_so = so,
      pdu_is_first = is_first, pdu_is_last = is_last\<rparr>"

definition nr_rlc_pdu_list_add ::
  "(int \<Rightarrow> int \<Rightarrow> int) \<Rightarrow> nr_rlc_pdu list \<Rightarrow> nr_rlc_pdu \<Rightarrow> nr_rlc_pdu list" where
  "nr_rlc_pdu_list_add sn_compare l pdu =
     insert_before (\<lambda>cur. sn_compare (pdu_sn cur) (pdu_sn pdu) > 0 \<or>
                          pdu_sn cur = pdu_sn pdu \<and> pdu_so cur > pdu_so pdu) pdu l"

section \<open>PDU decoder\<close>

record nr_rlc_pdu_decoder =
  dec_error :: bool
  dec_byte :: int
  dec_bit :: int
  dec_buffer :: "byte list"
  dec_size :: int

definition nr_rlc_pdu_decoder_init :: "byte list \<Rightarrow> nr_rlc_pdu_decoder" where
  "nr_rlc_pdu_decoder_init buffer =
     \<lparr>dec_error = False, dec_byte = 0, dec_bit = 0, dec_buffer = buffer,
      dec_size = int (length buffer)\<rparr>"

definition get_bit :: "nr_rlc_pdu_decoder \<Rightarrow> int \<times> nr_rlc_pdu_decoder" where
  "get_bit d =
     (if dec_byte d \<ge> dec_size d then (0, d\<lparr>dec_error := True\<rparr>)
      else let ret = of_bool (bit (dec_buffer d ! nat (dec_byte d)) (nat (7 - dec_bit d)));
               bi = dec_bit d + 1
           in if bi = 8 then (ret, d\<lparr>dec_bit := 0, dec_byte := dec_byte d + 1\<rparr>)
              else (ret, d\<lparr>dec_bit := bi\<rparr>))"

text \<open>The loop of \<open>nr_rlc_pdu_decoder_get_bits\<close>: \<open>ret\<close> so far, \<open>count - i\<close> bits to go.\<close>

fun get_bits_loop :: "nr_rlc_pdu_decoder \<Rightarrow> int \<Rightarrow> nat \<Rightarrow> int \<times> nr_rlc_pdu_decoder" where
  "get_bits_loop d ret 0 = (ret, d)"
| "get_bits_loop d ret (Suc n) =
     (case get_bit d of (b, d') \<Rightarrow>
        if dec_error d' then (-1, d') else get_bits_loop d' (2 * ret + b) n)"

text \<open>
  \<open>count > 31\<close> ends the process; every caller passes a constant of at most 31 or a configured
  sequence number length.
\<close>

definition nr_rlc_pdu_decoder_get_bits ::
  "nr_rlc_pdu_decoder \<Rightarrow> nat \<Rightarrow> (int \<times> nr_rlc_pdu_decoder) result" where
  "nr_rlc_pdu_decoder_get_bits d count =
     (if count > 31 then Inl Exit else Inr (get_bits_loop d 0 count))"

section \<open>PDU encoder\<close>

record nr_rlc_pdu_encoder =
  enc_byte :: int
  enc_bit :: int
  enc_buffer :: "byte list"
  enc_size :: int

definition nr_rlc_pdu_encoder_init :: "byte list \<Rightarrow> nr_rlc_pdu_encoder" where
  "nr_rlc_pdu_encoder_init buffer =
     \<lparr>enc_byte = 0, enc_bit = 0, enc_buffer = buffer, enc_size = int (length buffer)\<rparr>"

definition put_bit :: "nr_rlc_pdu_encoder \<Rightarrow> bool \<Rightarrow> nr_rlc_pdu_encoder result" where
  "put_bit e b =
     (if enc_byte e = enc_size e then Inl Exit
      else let i = nat (enc_byte e);
               shifted = push_bit 1 (enc_buffer e ! i);
               v = (if b then shifted OR 1 else shifted);
               e1 = e\<lparr>enc_buffer := (enc_buffer e)[i := v]\<rparr>;
               bi = enc_bit e + 1
           in if bi = 8 then Inr (e1\<lparr>enc_bit := 0, enc_byte := enc_byte e + 1\<rparr>)
              else Inr (e1\<lparr>enc_bit := bi\<rparr>))"

text \<open>The loop of \<open>nr_rlc_pdu_encoder_put_bits\<close>; with \<open>Suc n\<close> bits to go, \<open>x\<close> is \<open>1 << n\<close>.\<close>

fun put_bits_loop :: "nr_rlc_pdu_encoder \<Rightarrow> int \<Rightarrow> nat \<Rightarrow> nr_rlc_pdu_encoder result" where
  "put_bits_loop e v 0 = Inr e"
| "put_bits_loop e v (Suc n) =
     bindR (put_bit e (v AND 2 ^ n \<noteq> 0)) (\<lambda>e'. put_bits_loop e' v n)"

definition nr_rlc_pdu_encoder_put_bits ::
  "nr_rlc_pdu_encoder \<Rightarrow> int \<Rightarrow> nat \<Rightarrow> nr_rlc_pdu_encoder result" where
  "nr_rlc_pdu_encoder_put_bits e value count =
     (if count > 31 then Inl Exit else put_bits_loop e value count)"

section \<open>The decoder consumes bits\<close>

definition dec_pos :: "nr_rlc_pdu_decoder \<Rightarrow> int" where
  "dec_pos d = 8 * dec_byte d + dec_bit d"

definition dec_ok :: "nr_rlc_pdu_decoder \<Rightarrow> bool" where
  "dec_ok d \<longleftrightarrow> \<not> dec_error d \<and> 0 \<le> dec_byte d \<and> 0 \<le> dec_bit d \<and> dec_bit d < 8 \<and>
     dec_size d = int (length (dec_buffer d)) \<and> dec_pos d \<le> 8 * dec_size d"

definition dec_rest :: "nr_rlc_pdu_decoder \<Rightarrow> bool list" where
  "dec_rest d = drop (nat (dec_pos d)) (bytes_bits (dec_buffer d))"

text \<open>
  Decoding to the abstract level: the decoder is in front of the bits \<open>r\<close> of its buffer.
\<close>

definition dec_at :: "nr_rlc_pdu_decoder \<Rightarrow> byte list \<Rightarrow> nat \<Rightarrow> bool" where
  "dec_at d buf n \<longleftrightarrow> dec_ok d \<and> dec_buffer d = buf \<and> dec_pos d = int n"

lemma dec_init_at: "dec_at (nr_rlc_pdu_decoder_init buf) buf 0"
  by (simp add: dec_at_def dec_ok_def dec_pos_def nr_rlc_pdu_decoder_init_def)

lemma dec_at_byte: "dec_at d buf n \<Longrightarrow> dec_byte d = int (n div 8)"
  by (auto simp: dec_at_def dec_ok_def dec_pos_def)

lemma get_bit_at:
  assumes at: "dec_at d buf n" and n: "n < 8 * length buf"
  shows "\<exists>d'. get_bit d = (of_bool (bytes_bits buf ! n), d') \<and> dec_at d' buf (Suc n)"
proof -
  let ?i = "nat (dec_byte d)" and ?j = "nat (dec_bit d)"
  from at have ij: "n = 8 * ?i + ?j" "?j < 8" and "dec_buffer d = buf"
    by (auto simp: dec_at_def dec_ok_def dec_pos_def)
  with n have "?i < length buf" by simp
  with ij have "bytes_bits buf ! n = bit (buf ! ?i) (7 - ?j)"
    by (simp add: bytes_bits_nth)
  moreover have "nat (7 - dec_bit d) = 7 - ?j"
    using at by (auto simp: dec_at_def dec_ok_def nat_diff_distrib)
  ultimately show ?thesis
    using at n by (auto simp: get_bit_def Let_def dec_at_def dec_ok_def dec_pos_def)
qed

lemma get_bits_loop_at:
  assumes "dec_at d buf n" "n + k \<le> 8 * length buf"
  shows "\<exists>d'. get_bits_loop d ret k =
      (ret * 2 ^ k + bits_int (take k (drop n (bytes_bits buf))), d') \<and> dec_at d' buf (n + k)"
  using assms
proof (induction k arbitrary: d ret n)
  case 0
  then show ?case by simp
next
  case (Suc k)
  then have n: "n < 8 * length buf" by simp
  obtain d1 where d1: "get_bit d = (of_bool (bytes_bits buf ! n), d1)" "dec_at d1 buf (Suc n)"
    using get_bit_at [OF Suc.prems(1) n] by blast
  obtain d' where d': "get_bits_loop d1 (2 * ret + of_bool (bytes_bits buf ! n)) k =
      ((2 * ret + of_bool (bytes_bits buf ! n)) * 2 ^ k
        + bits_int (take k (drop (Suc n) (bytes_bits buf))), d')" "dec_at d' buf (Suc n + k)"
    using Suc.IH [OF d1(2)] Suc.prems(2) by fastforce
  have "take (Suc k) (drop n (bytes_bits buf)) =
      [bytes_bits buf ! n] @ take k (drop (Suc n) (bytes_bits buf))"
    using n by (simp add: Cons_nth_drop_Suc [symmetric])
  moreover have "length (take k (drop (Suc n) (bytes_bits buf))) = k"
    using Suc.prems(2) by simp
  ultimately have "bits_int (take (Suc k) (drop n (bytes_bits buf))) =
      of_bool (bytes_bits buf ! n) * 2 ^ k + bits_int (take k (drop (Suc n) (bytes_bits buf)))"
    by (simp only: bits_int_append) (simp add: bits_int_def)
  with d1 d' show ?case
    by (auto simp: dec_at_def dec_ok_def algebra_simps)
qed

lemma get_bits_at:
  assumes "dec_at d buf n" "n + k \<le> 8 * length buf" "k \<le> 31"
  shows "\<exists>d'. nr_rlc_pdu_decoder_get_bits d k =
      Inr (bits_int (take k (drop n (bytes_bits buf))), d') \<and> dec_at d' buf (n + k)"
  using get_bits_loop_at [OF assms(1,2), of 0] assms(3)
  by (auto simp: nr_rlc_pdu_decoder_get_bits_def)

text \<open>When fewer bits are left than asked for, the decoder ends in error.\<close>

lemma get_bits_loop_error:
  assumes "dec_at d buf n" "n + k > 8 * length buf"
  shows "dec_error (snd (get_bits_loop d ret k)) \<and> fst (get_bits_loop d ret k) = - 1"
  using assms
proof (induction k arbitrary: d ret n)
  case 0
  then show ?case by (auto simp: dec_at_def dec_ok_def)
next
  case (Suc k)
  show ?case
  proof (cases "n < 8 * length buf")
    case True
    then obtain d1 where d1: "get_bit d = (of_bool (bytes_bits buf ! n), d1)" "dec_at d1 buf (Suc n)"
      using get_bit_at [OF Suc.prems(1)] by blast
    with Suc.IH [OF d1(2)] Suc.prems(2) show ?thesis
      by (auto simp: dec_at_def dec_ok_def)
  next
    case False
    with Suc.prems(1) have "dec_byte d \<ge> dec_size d"
      by (auto simp: dec_at_def dec_ok_def dec_pos_def)
    then show ?thesis by (simp add: get_bit_def)
  qed
qed

lemma get_bits_error:
  assumes "dec_at d buf n" "n + k > 8 * length buf" "k \<le> 31"
  shows "\<exists>d'. nr_rlc_pdu_decoder_get_bits d k = Inr (- 1, d') \<and> dec_error d'"
  using get_bits_loop_error [OF assms(1,2), of 0] assms(3)
  by (cases "get_bits_loop d 0 k") (auto simp: nr_rlc_pdu_decoder_get_bits_def)

section \<open>The encoder appends bits\<close>

definition enc_pos :: "nr_rlc_pdu_encoder \<Rightarrow> int" where
  "enc_pos e = 8 * enc_byte e + enc_bit e"

text \<open>
  \<open>enc_at e bs n\<close>: the encoder is in a consistent state over a buffer of \<open>n\<close> bytes and the bits
  put so far are \<open>bs\<close>. A byte under construction holds its bits at the low end, since the
  encoder shifts left before each bit.
\<close>

definition enc_bits :: "nr_rlc_pdu_encoder \<Rightarrow> bool list" where
  "enc_bits e = bytes_bits (take (nat (enc_byte e)) (enc_buffer e)) @
     map (bit (enc_buffer e ! nat (enc_byte e))) (rev [0..<nat (enc_bit e)])"

definition enc_at :: "nr_rlc_pdu_encoder \<Rightarrow> bool list \<Rightarrow> nat \<Rightarrow> bool" where
  "enc_at e bs n \<longleftrightarrow> 0 \<le> enc_byte e \<and> 0 \<le> enc_bit e \<and> enc_bit e < 8 \<and>
     enc_size e = int n \<and> length (enc_buffer e) = n \<and>
     enc_pos e = int (length bs) \<and> length bs \<le> 8 * n \<and> enc_bits e = bs"

lemma enc_init_at: "enc_at (nr_rlc_pdu_encoder_init buf) [] (length buf)"
  by (simp add: enc_at_def enc_bits_def enc_pos_def nr_rlc_pdu_encoder_init_def)

lemma enc_at_byte: "enc_at e bs n \<Longrightarrow> enc_byte e = int (length bs div 8)"
  by (auto simp: enc_at_def enc_pos_def)

lemma shifted_byte_bits:
  fixes w :: byte
  assumes "j < 8"
  shows "map (bit (if b then push_bit 1 w OR 1 else push_bit 1 w)) (rev [0..<Suc j]) =
    map (bit w) (rev [0..<j]) @ [b]"
proof -
  have "rev [0..<Suc j] = map Suc (rev [0..<j]) @ [0]"
    by (simp add: upt_conv_Cons map_Suc_upt rev_map [symmetric] del: upt_Suc)
  moreover have "bit (if b then push_bit 1 w OR 1 else push_bit 1 w) (Suc k) = bit w k" if "k < j" for k
    using that assms by (auto simp: bit_or_iff bit_1_iff bit_double_iff mult.commute [of w])
  moreover have "bit (if b then push_bit 1 w OR 1 else push_bit 1 w) 0 = b"
    by (auto simp: bit_or_iff bit_1_iff bit_double_iff mult.commute [of w])
  ultimately show ?thesis by (simp add: comp_def)
qed

lemma put_bit_at:
  assumes at: "enc_at e bs n" and room: "length bs < 8 * n"
  shows "\<exists>e'. put_bit e b = Inr e' \<and> enc_at e' (bs @ [b]) n"
proof -
  let ?i = "nat (enc_byte e)" and ?j = "nat (enc_bit e)"
  let ?w = "enc_buffer e ! ?i"
  let ?v = "if b then push_bit 1 ?w OR 1 else push_bit 1 ?w"
  from at have pos: "length bs = 8 * ?i + ?j" and j: "?j < 8"
    by (auto simp: enc_at_def enc_pos_def)
  with room have i: "?i < n" by simp
  from at have len: "length (enc_buffer e) = n" and sz: "enc_size e = int n"
    and bs: "enc_bits e = bs" by (auto simp: enc_at_def)
  have byte_ne: "enc_byte e \<noteq> enc_size e" using i sz by auto
  have low: "map (bit ?v) (rev [0..<Suc ?j]) = map (bit ?w) (rev [0..<?j]) @ [b]"
    by (rule shifted_byte_bits [OF j])
  have put: "put_bit e b = (let e1 = e\<lparr>enc_buffer := (enc_buffer e)[?i := ?v]\<rparr> in
      if enc_bit e + 1 = 8 then Inr (e1\<lparr>enc_bit := 0, enc_byte := enc_byte e + 1\<rparr>)
      else Inr (e1\<lparr>enc_bit := enc_bit e + 1\<rparr>))"
    using byte_ne by (simp only: put_bit_def Let_def if_False)
  have Suc_j: "nat (enc_bit e + 1) = Suc ?j" and Suc_i: "nat (enc_byte e + 1) = Suc ?i"
    using at by (auto simp: enc_at_def)
  show ?thesis
  proof (cases "enc_bit e + 1 = 8")
    case True
    let ?e = "e\<lparr>enc_buffer := (enc_buffer e)[?i := ?v], enc_bit := 0, enc_byte := enc_byte e + 1\<rparr>"
    from True have "Suc ?j = 8" by auto
    with low have "byte_bits ?v = map (bit ?w) (rev [0..<?j]) @ [b]"
      by (simp only: byte_bits_def)
    moreover have "take (Suc ?i) ((enc_buffer e)[?i := ?v]) = take ?i (enc_buffer e) @ [?v]"
      using i len by (simp add: take_Suc_conv_app_nth)
    ultimately have "enc_bits ?e = bs @ [b]"
      using bs Suc_i by (simp add: enc_bits_def del: upt_rec_numeral)
    moreover have "enc_pos ?e = int (length (bs @ [b]))"
      using at True by (simp add: enc_at_def enc_pos_def)
    ultimately have "enc_at ?e (bs @ [b]) n"
      using at room by (simp add: enc_at_def)
    moreover have "put_bit e b = Inr ?e" using True put by (simp add: Let_def)
    ultimately show ?thesis by blast
  next
    case False
    let ?e = "e\<lparr>enc_buffer := (enc_buffer e)[?i := ?v], enc_bit := enc_bit e + 1\<rparr>"
    have "enc_bits ?e = bs @ [b]"
      using bs Suc_j low i len by (simp add: enc_bits_def del: upt_Suc)
    moreover have "enc_pos ?e = int (length (bs @ [b]))"
      using at by (simp add: enc_at_def enc_pos_def)
    ultimately have "enc_at ?e (bs @ [b]) n"
      using at room False by (simp add: enc_at_def)
    moreover have "put_bit e b = Inr ?e" using False put by (simp add: Let_def)
    ultimately show ?thesis by blast
  qed
qed

lemma and_power_ne_0: "(v :: int) AND 2 ^ n \<noteq> 0 \<longleftrightarrow> bit v n"
  by (simp add: bit_iff_and_push_bit_not_eq_0 push_bit_of_1)

lemma put_bits_loop_at:
  assumes "enc_at e bs n" "length bs + k \<le> 8 * n"
  shows "\<exists>e'. put_bits_loop e v k = Inr e' \<and> enc_at e' (bs @ int_bits v k) n"
  using assms
proof (induction k arbitrary: e bs)
  case 0
  then show ?case by simp
next
  case (Suc k)
  from Suc.prems have "length bs < 8 * n" by simp
  then obtain e1 where e1: "put_bit e (bit v k) = Inr e1" "enc_at e1 (bs @ [bit v k]) n"
    using put_bit_at [OF Suc.prems(1)] by blast
  with Suc.IH [OF e1(2)] Suc.prems(2) show ?case
    by (auto simp: and_power_ne_0 int_bits_Suc)
qed

lemma put_bits_at:
  assumes "enc_at e bs n" "length bs + k \<le> 8 * n" "k \<le> 31"
  shows "\<exists>e'. nr_rlc_pdu_encoder_put_bits e v k = Inr e' \<and> enc_at e' (bs @ int_bits v k) n"
  using put_bits_loop_at [OF assms(1,2)] assms(3)
  by (auto simp: nr_rlc_pdu_encoder_put_bits_def)

text \<open>A byte-aligned encoder has written whole bytes: its buffer starts with exactly those bits.\<close>

lemma enc_at_aligned:
  assumes "enc_at e bs n" "8 dvd length bs"
  shows "bytes_bits (take (length bs div 8) (enc_buffer e)) = bs"
proof -
  from assms have "enc_bit e = 0" and "nat (enc_byte e) = length bs div 8"
    by (auto simp: enc_at_def enc_pos_def) presburger+
  with assms(1) show ?thesis by (auto simp: enc_at_def enc_bits_def)
qed

section \<open>Fields\<close>

text \<open>
  Several fields in a row, as every header is written and read: pairs of a value and a width.
\<close>

fun put_fields :: "nr_rlc_pdu_encoder \<Rightarrow> (int \<times> nat) list \<Rightarrow> nr_rlc_pdu_encoder result" where
  "put_fields e [] = Inr e"
| "put_fields e ((v, k) # fs) = bindR (nr_rlc_pdu_encoder_put_bits e v k) (\<lambda>e'. put_fields e' fs)"

fun get_fields :: "nr_rlc_pdu_decoder \<Rightarrow> nat list \<Rightarrow> (int list \<times> nr_rlc_pdu_decoder) result" where
  "get_fields d [] = Inr ([], d)"
| "get_fields d (k # ks) =
     bindR (nr_rlc_pdu_decoder_get_bits d k) (\<lambda>(v, d').
       if dec_error d' then Inr ([], d')
       else bindR (get_fields d' ks) (\<lambda>(vs, d''). Inr (v # vs, d'')))"

definition fields_bits :: "(int \<times> nat) list \<Rightarrow> bool list" where
  "fields_bits fs = concat (map (\<lambda>(v, k). int_bits v k) fs)"

lemma fields_bits_simps [simp]:
  "fields_bits [] = []"
  "fields_bits ((v, k) # fs) = int_bits v k @ fields_bits fs"
  by (simp_all add: fields_bits_def)

lemma length_fields_bits: "length (fields_bits fs) = sum_list (map snd fs)"
  by (induction fs) auto

lemma put_fields_at:
  assumes "enc_at e bs n" "length bs + length (fields_bits fs) \<le> 8 * n" "\<forall>(v, k) \<in> set fs. k \<le> 31"
  shows "\<exists>e'. put_fields e fs = Inr e' \<and> enc_at e' (bs @ fields_bits fs) n"
  using assms
proof (induction fs arbitrary: e bs)
  case Nil
  then show ?case by simp
next
  case (Cons f fs)
  obtain v k where f: "f = (v, k)" by (cases f)
  with Cons.prems obtain e1 where
    e1: "nr_rlc_pdu_encoder_put_bits e v k = Inr e1" "enc_at e1 (bs @ int_bits v k) n"
    using put_bits_at [OF Cons.prems(1), of k v] by auto
  from Cons.IH [OF e1(2)] Cons.prems f e1(1) show ?case by auto
qed

lemma get_fields_at:
  assumes "dec_at d buf n" "drop n (bytes_bits buf) = fields_bits fs @ rest"
    and "n \<le> 8 * length buf"
    and "\<forall>(v, k) \<in> set fs. k \<le> 31 \<and> 0 \<le> v \<and> v < 2 ^ k"
  shows "\<exists>d'. get_fields d (map snd fs) = Inr (map fst fs, d') \<and>
    dec_at d' buf (n + length (fields_bits fs))"
  using assms
proof (induction fs arbitrary: d n)
  case Nil
  then show ?case by simp
next
  case (Cons f fs)
  obtain v k where f: "f = (v, k)" by (cases f)
  have len: "length (drop n (bytes_bits buf)) = length (fields_bits (f # fs) @ rest)"
    using Cons.prems(2) by simp
  then have room: "n + k \<le> 8 * length buf" using Cons.prems(3) f by simp
  have "bits_int (take k (drop n (bytes_bits buf))) = v"
    using Cons.prems(2,4) f by (simp add: bits_int_int_bits_id)
  then obtain d1 where d1: "nr_rlc_pdu_decoder_get_bits d k = Inr (v, d1)" "dec_at d1 buf (n + k)"
    using get_bits_at [OF Cons.prems(1) room] Cons.prems(4) f by auto
  have "drop (n + k) (bytes_bits buf) = fields_bits fs @ rest"
    using arg_cong [OF Cons.prems(2), of "drop k"] f by (simp add: add.commute)
  with Cons.IH [OF d1(2)] room Cons.prems(4) f
  obtain d' where "get_fields d1 (map snd fs) = Inr (map fst fs, d')"
    "dec_at d' buf (n + k + length (fields_bits fs))" by auto
  with d1 f show ?case by (auto simp: dec_at_def dec_ok_def add.assoc)
qed

lemma put_bit_full: "enc_at e bs n \<Longrightarrow> length bs = 8 * n \<Longrightarrow> put_bit e b = Inl Exit"
  by (auto simp: put_bit_def enc_at_def enc_pos_def)

lemma put_bits_loop_full:
  assumes "enc_at e bs n" "length bs + k > 8 * n"
  shows "put_bits_loop e v k = Inl Exit"
  using assms
proof (induction k arbitrary: e bs)
  case 0
  then show ?case by (simp add: enc_at_def)
next
  case (Suc k)
  show ?case
  proof (cases "length bs = 8 * n")
    case True
    then show ?thesis using put_bit_full [OF Suc.prems(1)] by simp
  next
    case False
    with Suc.prems(1) have "length bs < 8 * n" by (auto simp: enc_at_def)
    from put_bit_at [OF Suc.prems(1) this] obtain e' where
      "put_bit e (v AND 2 ^ k \<noteq> 0) = Inr e'" "enc_at e' (bs @ [v AND 2 ^ k \<noteq> 0]) n" by blast
    with Suc.IH [of e' "bs @ [v AND 2 ^ k \<noteq> 0]"] Suc.prems(2) show ?thesis by simp
  qed
qed

lemma put_fields_full:
  assumes "enc_at e bs n" "length bs + length (fields_bits fs) > 8 * n" "\<forall>(v, k) \<in> set fs. k \<le> 31"
  shows "put_fields e fs = Inl Exit"
  using assms
proof (induction fs arbitrary: e bs)
  case Nil
  then show ?case by (simp add: enc_at_def)
next
  case (Cons f fs)
  obtain v k where f: "f = (v, k)" by (cases f)
  show ?case
  proof (cases "length bs + k \<le> 8 * n")
    case True
    with Cons.prems f obtain e1 where
      e1: "nr_rlc_pdu_encoder_put_bits e v k = Inr e1" "enc_at e1 (bs @ int_bits v k) n"
      using put_bits_at [OF Cons.prems(1), of k v] by auto
    from Cons.IH [OF e1(2)] Cons.prems f e1(1) show ?thesis by auto
  next
    case False
    with put_bits_loop_full [OF Cons.prems(1), of k v] Cons.prems(3) f
    show ?thesis by (simp add: nr_rlc_pdu_encoder_put_bits_def)
  qed
qed

text \<open>
  Property C30. What the encoder writes the decoder reads back: for fields of at most 31 bits that
  fit their widths and fill whole bytes, decoding the buffer with the same widths, whatever
  replaces the bytes behind, gives the values and ends where the encoder stopped. An encoder
  without room for the fields ends the process instead of writing behind its buffer.
\<close>

theorem codec_roundtrip:
  assumes "\<forall>(v, k) \<in> set fs. k \<le> 31 \<and> 0 \<le> v \<and> v < 2 ^ k" "8 dvd sum_list (map snd fs)"
  shows "if sum_list (map snd fs) \<le> 8 * length buf
    then \<exists>e. put_fields (nr_rlc_pdu_encoder_init buf) fs = Inr e \<and> length (enc_buffer e) = length buf \<and>
      (\<forall>rest. \<exists>d. get_fields (nr_rlc_pdu_decoder_init (take (nat (enc_byte e)) (enc_buffer e) @ rest)) (map snd fs) =
        Inr (map fst fs, d) \<and> \<not> dec_error d \<and> dec_byte d = enc_byte e \<and> dec_bit d = 0)
    else put_fields (nr_rlc_pdu_encoder_init buf) fs = Inl Exit"
proof (cases "sum_list (map snd fs) \<le> 8 * length buf")
  case True
  have k: "\<forall>(v, k) \<in> set fs. k \<le> 31" using assms(1) by auto
  obtain e where e: "put_fields (nr_rlc_pdu_encoder_init buf) fs = Inr e" "enc_at e (fields_bits fs) (length buf)"
    using put_fields_at [OF enc_init_at _ k] True by (auto simp: length_fields_bits)
  let ?n = "nat (enc_byte e)"
  have n: "?n = sum_list (map snd fs) div 8" using enc_at_byte [OF e(2)] by (simp add: length_fields_bits)
  have bits: "bytes_bits (take ?n (enc_buffer e)) = fields_bits fs"
    using enc_at_aligned [OF e(2)] assms(2) n by (simp add: length_fields_bits)
  have "\<exists>d. get_fields (nr_rlc_pdu_decoder_init (take ?n (enc_buffer e) @ rest)) (map snd fs) =
        Inr (map fst fs, d) \<and> \<not> dec_error d \<and> dec_byte d = enc_byte e \<and> dec_bit d = 0" for rest
  proof -
    obtain d where d: "get_fields (nr_rlc_pdu_decoder_init (take ?n (enc_buffer e) @ rest)) (map snd fs) = Inr (map fst fs, d)"
        "dec_at d (take ?n (enc_buffer e) @ rest) (length (fields_bits fs))"
      using get_fields_at [OF dec_init_at, of "take ?n (enc_buffer e) @ rest" fs "bytes_bits rest"] bits assms(1)
      by auto
    have "dec_byte d = enc_byte e"
      using dec_at_byte [OF d(2)] enc_at_byte [OF e(2)] by simp
    moreover have "dec_bit d = 0"
      using d(2) dec_at_byte [OF d(2)] assms(2) by (auto simp: dec_at_def dec_pos_def length_fields_bits)
    ultimately show ?thesis using d by (auto simp: dec_at_def dec_ok_def)
  qed
  with e True show ?thesis by (auto simp: enc_at_def)
next
  case False
  then show ?thesis using put_fields_full [OF enc_init_at, of buf fs] assms(1) by (auto simp: length_fields_bits)
qed

theorem codec_roundtrip_witness:
  "\<exists>e d. put_fields (nr_rlc_pdu_encoder_init [7, 7, 7]) [(1, 1), (0, 1), (2, 2), (0xabc, 12)] = Inr e \<and>
    get_fields (nr_rlc_pdu_decoder_init (take (nat (enc_byte e)) (enc_buffer e) @ [9])) [1, 1, 2, 12] =
      Inr ([1, 0, 2, 0xabc], d)"
  using codec_roundtrip [of "[(1, 1), (0, 1), (2, 2), (0xabc, 12)]" "[7, 7, 7]"]
  by (simp del: put_fields.simps get_fields.simps) blast

end
