(* ===== verification/Rlc_Sdu.thy ===== *)
theory Rlc_Sdu
  imports Prelude "HOL-Library.Multiset"
begin

text \<open>
  Model of \<open>nr_rlc_sdu.c\<close> and \<open>nr_rlc_sdu.h\<close>: SDUs waiting for transmission, the segments that
  point to them, and the lists of segments.

  The segments of an SDU share one \<open>nr_rlc_sdu_t\<close>, so SDUs live in a heap and segments hold an
  address. The lists are lists of segments; the tail pointer the code keeps beside a list is the
  address of a segment. A segment keeps the address it was allocated at. Freed memory is not
  reused: an operation that modifies or frees an SDU that is already freed ends in
  \<open>UseAfterFree\<close>, and reading a field of such an SDU gives the value a fresh SDU has.
\<close>

record nr_rlc_sdu =
  sdu_sn :: int
  sdu_upper_layer_id :: int
  sdu_data :: "byte list"
  sdu_size :: int
  sdu_retx_count :: int
  sdu_ref_count :: int
  sdu_free_count :: int
  sdu_time_of_arrival :: u64

record nr_rlc_sdu_segment =
  seg_addr :: nat
  seg_sdu :: nat
  seg_size :: int
  seg_so :: int
  seg_is_first :: bool
  seg_is_last :: bool

record rlc_heap =
  heap_sdu :: "nat \<Rightarrow> nr_rlc_sdu option"
  heap_next :: nat

definition rlc_heap_empty :: rlc_heap where
  "rlc_heap_empty = \<lparr>heap_sdu = Map.empty, heap_next = 0\<rparr>"

definition fresh_sdu :: nr_rlc_sdu where
  "fresh_sdu = \<lparr>sdu_sn = -1, sdu_upper_layer_id = 0, sdu_data = [], sdu_size = 0,
     sdu_retx_count = -1, sdu_ref_count = 1, sdu_free_count = 0, sdu_time_of_arrival = 0\<rparr>"

text \<open>\<open>segment->sdu\<close> for reading and for writing.\<close>

definition sdu_of :: "rlc_heap \<Rightarrow> nr_rlc_sdu_segment \<Rightarrow> nr_rlc_sdu" where
  "sdu_of h s = (case heap_sdu h (seg_sdu s) of Some u \<Rightarrow> u | None \<Rightarrow> fresh_sdu)"

definition seg_sn :: "rlc_heap \<Rightarrow> nr_rlc_sdu_segment \<Rightarrow> int" where
  "seg_sn h s = sdu_sn (sdu_of h s)"

definition sdu_update ::
  "(nr_rlc_sdu \<Rightarrow> nr_rlc_sdu) \<Rightarrow> nr_rlc_sdu_segment \<Rightarrow> rlc_heap \<Rightarrow> rlc_heap result" where
  "sdu_update f s h =
     (case heap_sdu h (seg_sdu s) of
        None \<Rightarrow> Inl UseAfterFree
      | Some u \<Rightarrow> Inr (h\<lparr>heap_sdu := (heap_sdu h)(seg_sdu s \<mapsto> f u)\<rparr>))"

section \<open>Operations\<close>

text \<open>Allocates the SDU and the one segment that covers it.\<close>

definition nr_rlc_new_sdu :: "byte list \<Rightarrow> int \<Rightarrow> rlc_heap \<Rightarrow> nr_rlc_sdu_segment \<times> rlc_heap" where
  "nr_rlc_new_sdu buffer upper_layer_id h =
     (let sdu = \<lparr>sdu_sn = -1, sdu_upper_layer_id = upper_layer_id, sdu_data = buffer,
                 sdu_size = int (length buffer), sdu_retx_count = -1, sdu_ref_count = 1,
                 sdu_free_count = 0, sdu_time_of_arrival = 0\<rparr>;
          ret = \<lparr>seg_addr = heap_next h + 1, seg_sdu = heap_next h, seg_size = int (length buffer),
                 seg_so = 0, seg_is_first = True, seg_is_last = True\<rparr>
      in (ret, h\<lparr>heap_sdu := (heap_sdu h)(heap_next h \<mapsto> sdu), heap_next := heap_next h + 2\<rparr>))"

text \<open>The result tells whether the SDU itself has been freed.\<close>

definition nr_rlc_free_sdu_segment ::
  "nr_rlc_sdu_segment \<Rightarrow> rlc_heap \<Rightarrow> (bool \<times> rlc_heap) result" where
  "nr_rlc_free_sdu_segment s h =
     (case heap_sdu h (seg_sdu s) of
        None \<Rightarrow> Inl UseAfterFree
      | Some u \<Rightarrow>
          let u' = u\<lparr>sdu_free_count := sdu_free_count u + 1\<rparr>
          in if sdu_free_count u' = sdu_ref_count u'
             then Inr (True, h\<lparr>heap_sdu := (heap_sdu h)(seg_sdu s := None)\<rparr>)
             else Inr (False, h\<lparr>heap_sdu := (heap_sdu h)(seg_sdu s \<mapsto> u')\<rparr>))"

text \<open>
  \<open>(*end)->next = sdu\<close>: the list is cut behind the node at that address and the new node, whose
  next pointer is NULL, comes there. A node that is not in the list leaves the list as it is.
\<close>

fun link_after :: "nr_rlc_sdu_segment list \<Rightarrow> nat \<Rightarrow> nr_rlc_sdu_segment \<Rightarrow> nr_rlc_sdu_segment list" where
  "link_after [] a s = []"
| "link_after (x # l) a s = (if seg_addr x = a then [x, s] else x # link_after l a s)"

definition nr_rlc_sdu_segment_list_append ::
  "nr_rlc_sdu_segment list \<Rightarrow> nat option \<Rightarrow> nr_rlc_sdu_segment \<Rightarrow>
   (nr_rlc_sdu_segment list \<times> nat option) result" where
  "nr_rlc_sdu_segment_list_append l tail s =
     (if l = [] then Inr ([s], Some (seg_addr s))
      else case tail of
          None \<Rightarrow> Inl NullDeref
        | Some a \<Rightarrow> Inr (link_after l a s, Some (seg_addr s)))"

definition nr_rlc_sdu_segment_list_add ::
  "rlc_heap \<Rightarrow> (int \<Rightarrow> int \<Rightarrow> int) \<Rightarrow> nr_rlc_sdu_segment list \<Rightarrow> nr_rlc_sdu_segment \<Rightarrow>
   nr_rlc_sdu_segment list" where
  "nr_rlc_sdu_segment_list_add h sn_compare l s =
     insert_before (\<lambda>cur. sn_compare (seg_sn h cur) (seg_sn h s) > 0 \<or>
                          seg_sn h cur = seg_sn h s \<and> seg_so cur > seg_so s) s l"

fun nr_rlc_free_sdu_segment_list :: "nr_rlc_sdu_segment list \<Rightarrow> rlc_heap \<Rightarrow> rlc_heap result" where
  "nr_rlc_free_sdu_segment_list [] h = Inr h"
| "nr_rlc_free_sdu_segment_list (s # l) h =
     bindR (nr_rlc_free_sdu_segment s h) (\<lambda>(freed, h'). nr_rlc_free_sdu_segment_list l h')"

section \<open>The tail pointer\<close>

definition tail_ok :: "nr_rlc_sdu_segment list \<Rightarrow> nat option \<Rightarrow> bool" where
  "tail_ok l tail \<longleftrightarrow> distinct (map seg_addr l) \<and>
     tail = (if l = [] then None else Some (seg_addr (last l)))"

text \<open>
  What the transmit buffers of all three modes rely on: while the tail pointer is right, an
  append is an append at the end, it does not fail, and the tail pointer stays right.
\<close>

locale tail_queue =
  fixes append :: "'s list \<Rightarrow> nat option \<Rightarrow> 's \<Rightarrow> ('s list \<times> nat option) result"
    and addr :: "'s \<Rightarrow> nat"
    and ok :: "'s list \<Rightarrow> nat option \<Rightarrow> bool"
  assumes append_end: "ok l t \<Longrightarrow> addr s \<notin> addr ` set l \<Longrightarrow> append l t s = Inr (l @ [s], Some (addr s))"
    and append_keeps: "ok l t \<Longrightarrow> addr s \<notin> addr ` set l \<Longrightarrow> ok (l @ [s]) (Some (addr s))"
begin

text \<open>Appending one after the other queues the segments in order.\<close>

lemma append_two:
  assumes "ok l t" "addr s \<notin> addr ` set l" "addr s' \<notin> addr ` set l" "addr s' \<noteq> addr s"
  shows "bindR (append l t s) (\<lambda>(l', t'). append l' t' s') = Inr (l @ [s, s'], Some (addr s'))"
  using append_end [OF assms(1,2)] append_end [OF append_keeps [OF assms(1,2)], of s'] assms(3,4)
  by simp

end

lemma link_after_last:
  "distinct (map seg_addr l) \<Longrightarrow> l \<noteq> [] \<Longrightarrow> link_after l (seg_addr (last l)) s = l @ [s]"
proof (induction l)
  case Nil
  then show ?case by simp
next
  case (Cons x l)
  have "seg_addr x \<noteq> seg_addr (last l)" if "l \<noteq> []"
    using Cons.prems(1) that by (metis distinct.simps(2) image_eqI last_in_set list.simps(9) set_map)
  with Cons show ?case by (cases "l = []") auto
qed

interpretation seg_tail: tail_queue nr_rlc_sdu_segment_list_append seg_addr tail_ok
  by unfold_locales
    (auto simp: nr_rlc_sdu_segment_list_append_def tail_ok_def link_after_last)

lemma tail_ok_Nil [simp]: "tail_ok [] t \<longleftrightarrow> t = None"
  by (simp add: tail_ok_def)

lemma tail_ok_Cons:
  "tail_ok (s # l) t \<Longrightarrow> tail_ok l (if l = [] then None else t)"
  by (auto simp: tail_ok_def)

lemma tail_ok_push:
  "tail_ok l t \<Longrightarrow> seg_addr s \<notin> seg_addr ` set l \<Longrightarrow>
   tail_ok (s # l) (if t = None then Some (seg_addr s) else t)"
  by (auto simp: tail_ok_def)

section \<open>Reference counts\<close>

text \<open>
  \<open>refs l p\<close> is the number of segments of \<open>l\<close> that point to the SDU at \<open>p\<close>. In a sound heap an
  SDU has at least as many outstanding references as there are segments pointing to it, and a
  freed address has none.
\<close>

definition refs :: "nr_rlc_sdu_segment list \<Rightarrow> nat \<Rightarrow> int" where
  "refs l p = int (length (filter (\<lambda>s. seg_sdu s = p) l))"

fun cell_ok :: "nr_rlc_sdu option \<Rightarrow> int \<Rightarrow> bool" where
  "cell_ok None n \<longleftrightarrow> n = 0"
| "cell_ok (Some u) n \<longleftrightarrow> 0 < sdu_ref_count u - sdu_free_count u \<and> n \<le> sdu_ref_count u - sdu_free_count u"

definition heap_ok :: "rlc_heap \<Rightarrow> nr_rlc_sdu_segment list \<Rightarrow> bool" where
  "heap_ok h l \<longleftrightarrow> (\<forall>p. cell_ok (heap_sdu h p) (refs l p)) \<and>
     (\<forall>p. heap_next h \<le> p \<longrightarrow> heap_sdu h p = None) \<and> (\<forall>s \<in> set l. seg_addr s < heap_next h)"

lemma refs_simps [simp]:
  "refs [] p = 0"
  "refs (s # l) p = of_bool (seg_sdu s = p) + refs l p"
  "refs (l @ l') p = refs l p + refs l' p"
  by (simp_all add: refs_def)

lemma refs_nonneg [simp]: "0 \<le> refs l p"
  by (simp add: refs_def)

lemma refs_mset: "mset l = mset l' \<Longrightarrow> refs l p = refs l' p"
  unfolding refs_def by (metis mset_filter size_mset)

lemma cell_ok_mono: "cell_ok c n \<Longrightarrow> 0 \<le> m \<Longrightarrow> m \<le> n \<Longrightarrow> cell_ok c m"
  by (cases c) auto

lemma heap_ok_cell: "heap_ok h l \<Longrightarrow> cell_ok (heap_sdu h p) (refs l p)"
  by (simp add: heap_ok_def)

lemma heap_ok_live:
  assumes "heap_ok h l" "s \<in> set l"
  shows "\<exists>u. heap_sdu h (seg_sdu s) = Some u"
proof (cases "heap_sdu h (seg_sdu s)")
  case None
  with heap_ok_cell [OF assms(1), of "seg_sdu s"] have "refs l (seg_sdu s) = 0" by simp
  with assms(2) show ?thesis by (auto simp: refs_def filter_empty_conv)
qed auto

lemma heap_ok_perm: "heap_ok h l \<Longrightarrow> mset l = mset l' \<Longrightarrow> heap_ok h l'"
  unfolding heap_ok_def using refs_mset [of l l'] mset_eq_setD [of l l'] by auto

lemma heap_ok_sub:
  assumes "heap_ok h l" "\<And>p. refs l' p \<le> refs l p" "set l' \<subseteq> set l"
  shows "heap_ok h l'"
  using assms cell_ok_mono [OF heap_ok_cell [OF assms(1)], of "refs l' _"]
  by (auto simp: heap_ok_def)

text \<open>Freeing a listed segment never touches freed memory and keeps the heap sound for the others.\<close>

lemma free_sdu_segment_ok:
  assumes "heap_ok h (s # l)"
  shows "\<exists>b h'. nr_rlc_free_sdu_segment s h = Inr (b, h') \<and> heap_ok h' l \<and> heap_next h' = heap_next h"
proof -
  obtain u where u: "heap_sdu h (seg_sdu s) = Some u"
    using heap_ok_live [OF assms, of s] by auto
  have c: "refs l (seg_sdu s) + 1 \<le> sdu_ref_count u - sdu_free_count u"
    using heap_ok_cell [OF assms, of "seg_sdu s"] u by simp
  have other: "cell_ok (heap_sdu h p) (refs l p)" if "p \<noteq> seg_sdu s" for p
    using heap_ok_cell [OF assms, of p] that by simp
  have "seg_sdu s < heap_next h" using assms u unfolding heap_ok_def by (metis not_le option.distinct(1))
  show ?thesis
  proof (cases "sdu_free_count u + 1 = sdu_ref_count u")
    case True
    with c have "refs l (seg_sdu s) = 0" using refs_nonneg [of l "seg_sdu s"] by linarith
    with True u other assms show ?thesis
      by (auto simp: nr_rlc_free_sdu_segment_def Let_def heap_ok_def)
  next
    case False
    then have "sdu_free_count u + 1 < sdu_ref_count u"
      using c refs_nonneg [of l "seg_sdu s"] by linarith
    with False u c other assms \<open>seg_sdu s < heap_next h\<close> show ?thesis
      by (auto simp: nr_rlc_free_sdu_segment_def Let_def heap_ok_def)
  qed
qed

lemma free_sdu_segment_list_ok:
  "heap_ok h (l @ l') \<Longrightarrow>
   \<exists>h'. nr_rlc_free_sdu_segment_list l h = Inr h' \<and> heap_ok h' l' \<and> heap_next h' = heap_next h"
proof (induction l arbitrary: h)
  case Nil
  then show ?case by simp
next
  case (Cons s l)
  then obtain b h1 where "nr_rlc_free_sdu_segment s h = Inr (b, h1)" "heap_ok h1 (l @ l')"
    "heap_next h1 = heap_next h"
    using free_sdu_segment_ok [of h s "l @ l'"] by auto
  with Cons.IH [of h1] show ?case by auto
qed

lemma heap_ok_fresh: "heap_ok h l \<Longrightarrow> heap_sdu h (heap_next h) = None \<and> refs l (heap_next h) = 0"
  using heap_ok_cell [of h l "heap_next h"] by (auto simp: heap_ok_def)

lemma new_sdu_ok:
  assumes "heap_ok h l" "nr_rlc_new_sdu buffer i h = (s, h')"
  shows "heap_ok h' (s # l)" "seg_addr s \<notin> seg_addr ` set l"
  using assms heap_ok_fresh [OF assms(1)] heap_ok_cell [OF assms(1)]
  by (auto simp: nr_rlc_new_sdu_def Let_def heap_ok_def)

text \<open>Updates that leave the counters alone keep the heap sound.\<close>

lemma sdu_update_ok:
  assumes "heap_ok h l" "s \<in> set l"
    and "\<And>u. sdu_ref_count (f u) = sdu_ref_count u" "\<And>u. sdu_free_count (f u) = sdu_free_count u"
  shows "\<exists>h'. sdu_update f s h = Inr h' \<and> heap_ok h' l \<and> heap_next h' = heap_next h"
proof -
  obtain u where u: "heap_sdu h (seg_sdu s) = Some u" using heap_ok_live [OF assms(1,2)] by blast
  with heap_ok_cell [OF assms(1), of "seg_sdu s"] have c: "cell_ok (Some u) (refs l (seg_sdu s))"
    by simp
  have "seg_sdu s < heap_next h" using assms(1) u unfolding heap_ok_def by (metis not_le option.distinct(1))
  with c u assms show ?thesis by (auto simp: sdu_update_def heap_ok_def)
qed

end
