(* ===== verification/Time_Stat.thy ===== *)
theory Time_Stat
  imports Complex_Main Prelude
begin

text \<open>
  Model of \<open>common/utils/time_stat.c\<close>: the sliding-window average of SDU waiting times kept by
  each RLC entity, a growing ring buffer of time-stamped values. The refinement lemmas show
  that the ring implements a plain queue from which expired entries are dropped, across the
  wrap-around of the indices and the doubling of the buffer, and that the accumulator is
  always the sum of the queued values.

  The number of slots, the indices and the size are natural numbers; the sizes the code uses are
  positive powers of two. The average, a \<open>double\<close> in C, is computed exactly, as a rational.
\<close>

record time_value =
  tv_time :: u64
  tv_value :: u64

record time_ring =
  ring_head :: nat
  ring_tail :: nat
  ring_buffer :: "time_value list"
  ring_maxsize :: nat
  ring_size :: nat

record time_average =
  ta_duration :: u64
  ta_r :: time_ring
  ta_accumulated_value :: u64

definition time_value_zero :: time_value where
  "time_value_zero = \<lparr>tv_time = 0, tv_value = 0\<rparr>"

text \<open>\<open>initial_size & (initial_size - 1)\<close> rejects what is not a power of two.\<close>

definition time_average_new :: "u64 \<Rightarrow> nat \<Rightarrow> time_average result" where
  "time_average_new duration initial_size =
     (if initial_size AND (initial_size - 1) \<noteq> 0 then Inl Exit
      else Inr \<lparr>ta_duration = duration,
                ta_r = \<lparr>ring_head = initial_size - 1, ring_tail = 0,
                        ring_buffer = replicate initial_size time_value_zero,
                        ring_maxsize = initial_size, ring_size = 0\<rparr>,
                ta_accumulated_value = 0\<rparr>)"

definition time_average_reset :: "time_average \<Rightarrow> time_average" where
  "time_average_reset t =
     t\<lparr>ta_r := (ta_r t)\<lparr>ring_head := ring_maxsize (ta_r t) - 1, ring_tail := 0, ring_size := 0\<rparr>,
       ta_accumulated_value := 0\<rparr>"

text \<open>One iteration of the loop of \<open>remove_old\<close> drops the entry at the tail.\<close>

function remove_old :: "time_average \<Rightarrow> u64 \<Rightarrow> time_average" where
  "remove_old t time =
     (let r = ta_r t; v = ring_buffer r ! ring_tail r
      in if ring_size r \<noteq> 0 \<and> tv_time v < time - ta_duration t
         then remove_old
           (t\<lparr>ta_accumulated_value := ta_accumulated_value t - tv_value v,
              ta_r := r\<lparr>ring_size := ring_size r - 1,
                        ring_tail := (ring_tail r + 1) mod ring_maxsize r\<rparr>\<rparr>) time
         else t)"
  by pat_completeness auto
termination
  by (relation "measure (\<lambda>(t, time). ring_size (ta_r t))") (auto simp: Let_def)

declare remove_old.simps [simp del]

text \<open>
  The growth of a full buffer: \<open>realloc\<close> to twice the slots (the new ones hold no entry yet), and
  the part that had wrapped around is copied behind the old end.
\<close>

definition time_ring_grow :: "time_ring \<Rightarrow> time_ring" where
  "time_ring_grow r =
     (let buf = ring_buffer r @ replicate (ring_maxsize r) time_value_zero;
          r1 = r\<lparr>ring_maxsize := 2 * ring_maxsize r, ring_buffer := buf\<rparr>
      in if ring_head r < ring_tail r
         then r1\<lparr>ring_buffer := take (ring_size r) buf @ take (ring_head r + 1) buf @
                                 drop (ring_size r + (ring_head r + 1)) buf,
                 ring_head := ring_head r + ring_size r\<rparr>
         else r1)"

definition time_average_add :: "time_average \<Rightarrow> u64 \<Rightarrow> u64 \<Rightarrow> time_average" where
  "time_average_add t0 time value =
     (let t = remove_old t0 time;
          r = (if ring_size (ta_r t) = ring_maxsize (ta_r t) then time_ring_grow (ta_r t) else ta_r t);
          h = (ring_head r + 1) mod ring_maxsize r
      in t\<lparr>ta_r := r\<lparr>ring_head := h,
                      ring_buffer := (ring_buffer r)[h := \<lparr>tv_time = time, tv_value = value\<rparr>],
                      ring_size := ring_size r + 1\<rparr>,
           ta_accumulated_value := ta_accumulated_value t + value\<rparr>)"

definition time_average_get_average :: "time_average \<Rightarrow> u64 \<Rightarrow> rat \<times> time_average" where
  "time_average_get_average t0 time =
     (let t = remove_old t0 time
      in if ring_size (ta_r t) = 0 then (0, t)
         else (of_nat (unat (ta_accumulated_value t)) / of_nat (ring_size (ta_r t)), t))"

section \<open>The ring is a queue\<close>

definition ring_list :: "time_ring \<Rightarrow> time_value list" where
  "ring_list r = map (\<lambda>i. ring_buffer r ! ((ring_tail r + i) mod ring_maxsize r)) [0..<ring_size r]"

definition ring_ok :: "time_ring \<Rightarrow> bool" where
  "ring_ok r \<longleftrightarrow> 0 < ring_maxsize r \<and> length (ring_buffer r) = ring_maxsize r \<and>
     ring_size r \<le> ring_maxsize r \<and> ring_tail r < ring_maxsize r \<and>
     ring_head r = (ring_tail r + ring_size r + (ring_maxsize r - 1)) mod ring_maxsize r"

definition time_average_ok :: "time_average \<Rightarrow> bool" where
  "time_average_ok t \<longleftrightarrow> ring_ok (ta_r t) \<and>
     ta_accumulated_value t = sum_list (map tv_value (ring_list (ta_r t)))"

abbreviation ta_list :: "time_average \<Rightarrow> time_value list" where
  "ta_list t \<equiv> ring_list (ta_r t)"

lemma length_ring_list [simp]: "length (ring_list r) = ring_size r"
  by (simp add: ring_list_def)

lemma ring_list_pop:
  assumes "ring_ok r" "ring_size r \<noteq> 0"
  shows "ring_list r = ring_buffer r ! ring_tail r #
    ring_list (r\<lparr>ring_size := ring_size r - 1, ring_tail := (ring_tail r + 1) mod ring_maxsize r\<rparr>)"
proof -
  from assms(2) obtain n where n: "ring_size r = Suc n" by (cases "ring_size r") auto
  have "[0..<Suc n] = 0 # map Suc [0..<n]" by (simp add: upt_conv_Cons map_Suc_upt del: upt_Suc)
  with n assms show ?thesis
    by (simp add: ring_list_def ring_ok_def mod_simps del: upt_Suc)
qed

lemma ring_ok_pop:
  assumes "ring_ok r" "ring_size r \<noteq> 0"
  shows "ring_ok (r\<lparr>ring_size := ring_size r - 1, ring_tail := (ring_tail r + 1) mod ring_maxsize r\<rparr>)"
proof -
  let ?m = "ring_maxsize r"
  have "((ring_tail r + 1) mod ?m + (ring_size r - 1) + (?m - 1)) mod ?m =
      (ring_tail r + 1 + (ring_size r - 1) + (?m - 1)) mod ?m"
    by (metis add.assoc mod_add_left_eq)
  also have "ring_tail r + 1 + (ring_size r - 1) + (?m - 1) = ring_tail r + ring_size r + (?m - 1)"
    using assms by simp
  finally show ?thesis using assms by (auto simp: ring_ok_def)
qed

text \<open>A slot index is below the number of slots, or one turn too far.\<close>

lemma slot_mod: "t < (m::nat) \<Longrightarrow> i \<le> m \<Longrightarrow> (t + i) mod m = (if t + i < m then t + i else t + i - m)"
  by (auto simp: le_mod_geq)

lemma remove_old_refines:
  "time_average_ok t \<Longrightarrow>
   time_average_ok (remove_old t time) \<and> ta_duration (remove_old t time) = ta_duration t \<and>
   ta_list (remove_old t time) = dropWhile (\<lambda>v. tv_time v < time - ta_duration t) (ta_list t)"
proof (induction t time rule: remove_old.induct)
  case (1 t time)
  let ?r = "ta_r t" and ?v = "ring_buffer (ta_r t) ! ring_tail (ta_r t)"
  let ?r' = "?r\<lparr>ring_size := ring_size ?r - 1, ring_tail := (ring_tail ?r + 1) mod ring_maxsize ?r\<rparr>"
  let ?t' = "t\<lparr>ta_accumulated_value := ta_accumulated_value t - tv_value ?v, ta_r := ?r'\<rparr>"
  show ?case
  proof (cases "ring_size ?r \<noteq> 0 \<and> tv_time ?v < time - ta_duration t")
    case True
    with "1.prems" have pop: "ta_list t = ?v # ring_list ?r'" "ring_ok ?r'"
      using ring_list_pop [of ?r] ring_ok_pop [of ?r] by (simp_all add: time_average_ok_def)
    with "1.prems" have "time_average_ok ?t'" by (simp add: time_average_ok_def)
    with "1.IH" [OF refl refl] True pop(1) show ?thesis
      by (simp add: remove_old.simps [of t time] Let_def)
  next
    case False
    moreover have "ta_list t = [] \<or> ta_list t \<noteq> [] \<and> hd (ta_list t) = ?v"
      using "1.prems" ring_list_pop [of ?r]
      by (cases "ring_size ?r = 0") (auto simp: time_average_ok_def ring_list_def)
    ultimately show ?thesis using "1.prems"
      by (cases "ta_list t") (auto simp: remove_old.simps [of t time] Let_def time_average_ok_def
          dest: arg_cong [of _ _ length])
  qed
qed

lemma time_ring_grow_refines:
  assumes ok: "ring_ok r" and full: "ring_size r = ring_maxsize r"
  shows "ring_ok (time_ring_grow r) \<and> ring_list (time_ring_grow r) = ring_list r \<and>
    ring_size (time_ring_grow r) < ring_maxsize (time_ring_grow r)"
proof -
  let ?m = "ring_maxsize r" and ?t = "ring_tail r" and ?b = "ring_buffer r"
  have m: "0 < ?m" "?t < ?m" "length ?b = ?m" using ok by (auto simp: ring_ok_def)
  have head: "ring_head r = (if ?t = 0 then ?m - 1 else ?t - 1)"
  proof -
    have "ring_head r = (?t + ?m + (?m - 1)) mod ?m" using ok full by (simp only: ring_ok_def)
    also have "?t + ?m + (?m - 1) = ?t + (?m - 1) + ?m" by simp
    also have "(?t + (?m - 1) + ?m) mod ?m = (?t + (?m - 1)) mod ?m" by simp
    finally show ?thesis using m slot_mod [of ?t ?m "?m - 1"] by auto
  qed
  have sz: "ring_size (time_ring_grow r) = ?m" "ring_maxsize (time_ring_grow r) = 2 * ?m"
    "ring_tail (time_ring_grow r) = ?t"
    using full by (simp_all add: time_ring_grow_def Let_def)
  have len: "length (ring_buffer (time_ring_grow r)) = 2 * ?m"
    using m head full by (simp add: time_ring_grow_def Let_def)
  have "ring_head (time_ring_grow r) = (?t + ?m + (2 * ?m - 1)) mod (2 * ?m)"
  proof -
    have "(?t + ?m + (2 * ?m - 1)) mod (2 * ?m) = (?t + ?m - 1 + 2 * ?m) mod (2 * ?m)"
      using m by (simp add: ac_simps)
    also have "\<dots> = (?t + ?m - 1) mod (2 * ?m)" by (rule mod_add_self2)
    also have "\<dots> = ?t + ?m - 1" using m by (intro mod_less) simp
    finally show ?thesis using m head full by (auto simp: time_ring_grow_def Let_def)
  qed
  with sz len m have "ring_ok (time_ring_grow r)" by (simp add: ring_ok_def)
  moreover have "ring_list (time_ring_grow r) = ring_list r"
  proof (rule nth_equalityI)
    fix i assume "i < length (ring_list (time_ring_grow r))"
    with sz have i: "i < ?m" by simp
    have "ring_buffer (time_ring_grow r) ! (?t + i) = ?b ! ((?t + i) mod ?m)"
      using m i head full
      by (auto simp: time_ring_grow_def Let_def nth_append slot_mod)
    with i sz m full show "ring_list (time_ring_grow r) ! i = ring_list r ! i"
      by (simp add: ring_list_def)
  qed (simp add: sz full)
  ultimately show ?thesis using sz m by simp
qed

lemma ring_push_refines:
  assumes ok: "ring_ok r" and room: "ring_size r < ring_maxsize r"
  shows "let r' = r\<lparr>ring_head := (ring_head r + 1) mod ring_maxsize r,
      ring_buffer := (ring_buffer r)[(ring_head r + 1) mod ring_maxsize r := v],
      ring_size := ring_size r + 1\<rparr>
    in ring_ok r' \<and> ring_list r' = ring_list r @ [v]"
proof -
  let ?m = "ring_maxsize r" and ?t = "ring_tail r" and ?n = "ring_size r"
  have m: "0 < ?m" "?t < ?m" "length (ring_buffer r) = ?m" using ok by (auto simp: ring_ok_def)
  have "(ring_head r + 1) mod ?m = (?t + ?n + (?m - 1) + 1) mod ?m"
    using ok by (simp only: ring_ok_def mod_add_left_eq)
  also have "\<dots> = (?t + ?n) mod ?m" using m by simp
  finally have h: "(ring_head r + 1) mod ?m = (?t + ?n) mod ?m" .
  have other: "(?t + i) mod ?m \<noteq> (?t + ?n) mod ?m" if "i < ?n" for i
    using that room m slot_mod [of ?t ?m i] slot_mod [of ?t ?m ?n] by auto
  let ?r = "r\<lparr>ring_head := (?t + ?n) mod ?m, ring_buffer := (ring_buffer r)[(?t + ?n) mod ?m := v],
      ring_size := ?n + 1\<rparr>"
  have "(?t + ?n) mod ?m = (?t + (?n + 1) + (?m - 1)) mod ?m" using m by simp
  with m room have "ring_ok ?r" by (simp add: ring_ok_def)
  moreover have "ring_list ?r = ring_list r @ [v]"
    using m other [THEN not_sym] by (auto simp: ring_list_def)
  ultimately show ?thesis by (simp only: Let_def h)
qed

lemma time_average_add_refines:
  assumes "time_average_ok t"
  shows "time_average_ok (time_average_add t time value) \<and>
    ta_list (time_average_add t time value) =
      dropWhile (\<lambda>v. tv_time v < time - ta_duration t) (ta_list t) @
      [\<lparr>tv_time = time, tv_value = value\<rparr>]"
proof -
  let ?t = "remove_old t time"
  let ?r = "if ring_size (ta_r ?t) = ring_maxsize (ta_r ?t) then time_ring_grow (ta_r ?t) else ta_r ?t"
  have t: "time_average_ok ?t"
    "ta_list ?t = dropWhile (\<lambda>v. tv_time v < time - ta_duration t) (ta_list t)"
    using remove_old_refines [OF assms] by auto
  then have r: "ring_ok ?r" "ring_list ?r = ta_list ?t" "ring_size ?r < ring_maxsize ?r"
    using time_ring_grow_refines [of "ta_r ?t"]
    by (auto simp: time_average_ok_def) (auto simp: ring_ok_def)
  from ring_push_refines [OF r(1,3), of "\<lparr>tv_time = time, tv_value = value\<rparr>"] r(2) t
  show ?thesis
    by (simp add: time_average_add_def Let_def time_average_ok_def split del: if_split)
qed

lemma time_average_new_ok:
  "time_average_new duration n = Inr t \<Longrightarrow> 0 < n \<Longrightarrow> time_average_ok t \<and> ta_list t = []"
  by (auto simp: time_average_new_def time_average_ok_def ring_ok_def ring_list_def
      split: if_splits)

lemma time_average_reset_ok:
  "time_average_ok t \<Longrightarrow> time_average_ok (time_average_reset t) \<and> ta_list (time_average_reset t) = []"
  by (auto simp: time_average_reset_def time_average_ok_def ring_ok_def ring_list_def)

section \<open>The window of the average\<close>

text \<open>The reference: a list of samples from which a new sample drops what is older than the duration.\<close>

definition window_add :: "u64 \<Rightarrow> u64 \<times> u64 \<Rightarrow> time_value list \<Rightarrow> time_value list" where
  "window_add duration ev l =
     (case ev of (time, value) \<Rightarrow>
        dropWhile (\<lambda>v. tv_time v < time - duration) l @ [\<lparr>tv_time = time, tv_value = value\<rparr>])"

lemma time_average_duration [simp]:
  "time_average_ok t \<Longrightarrow> ta_duration (time_average_add t time value) = ta_duration t"
  using remove_old_refines [of t time] by (simp add: time_average_add_def Let_def)

lemma time_average_run:
  "time_average_ok t \<Longrightarrow>
   time_average_ok (fold (\<lambda>(time, value) t. time_average_add t time value) evs t) \<and>
   ta_duration (fold (\<lambda>(time, value) t. time_average_add t time value) evs t) = ta_duration t \<and>
   ta_list (fold (\<lambda>(time, value) t. time_average_add t time value) evs t) =
     fold (window_add (ta_duration t)) evs (ta_list t)"
proof (induction evs arbitrary: t)
  case Nil
  then show ?case by simp
next
  case (Cons ev evs)
  then show ?case
    using time_average_add_refines [OF Cons.prems, of "fst ev" "snd ev"]
      Cons.IH [of "time_average_add t (fst ev) (snd ev)"]
    by (cases ev) (simp add: window_add_def)
qed

text \<open>
  Property C31. The growing ring buffer of samples is the list of the samples of the window: after
  any sequence of samples the average that is asked for at some time is the sum of the values in
  the window, as a 64 bit number, over their count, and 0 for an empty window.
\<close>

theorem time_average_window:
  assumes "time_average_new duration n = Inr t" "0 < n"
  shows "let w = dropWhile (\<lambda>v. tv_time v < time - duration) (fold (window_add duration) evs [])
    in fst (time_average_get_average (fold (\<lambda>(time, value) t. time_average_add t time value) evs t) time) =
      (if w = [] then 0 else of_nat (unat (sum_list (map tv_value w))) / of_nat (length w))"
proof -
  let ?t = "fold (\<lambda>(time, value) t. time_average_add t time value) evs t"
  have t: "time_average_ok t" "ta_list t = []" "ta_duration t = duration"
    using time_average_new_ok [OF assms] assms(1) by (auto simp: time_average_new_def split: if_splits)
  note r = time_average_run [OF t(1), of evs] 
  have "time_average_ok (remove_old ?t time)"
    "ta_list (remove_old ?t time) = dropWhile (\<lambda>v. tv_time v < time - duration) (fold (window_add duration) evs [])"
    using remove_old_refines [of ?t time] r t by simp_all
  moreover have "ring_size (ta_r x) = length (ta_list x)" for x by simp
  ultimately show ?thesis
    by (simp only: time_average_get_average_def Let_def time_average_ok_def) (simp del: length_ring_list)
qed

theorem time_average_window_witness:
  "\<exists>t. time_average_new 100 2 = Inr t \<and>
    fst (time_average_get_average (fold (\<lambda>(time, value) t. time_average_add t time value)
      [(1000, 5), (1010, 7), (1020, 9), (1105, 30)] t) 1112) = 39 / 2"
proof -
  obtain t where t: "time_average_new 100 2 = Inr t" by (simp add: time_average_new_def)
  have "fold (window_add 100) [(1000, 5), (1010, 7), (1020, 9), (1105, 30)] [] =
      [\<lparr>tv_time = 1010, tv_value = 7\<rparr>, \<lparr>tv_time = 1020, tv_value = 9\<rparr>, \<lparr>tv_time = 1105, tv_value = 30\<rparr>]"
    by (simp add: window_add_def)
  with time_average_window [OF t, where time = 1112 and evs = "[(1000, 5), (1010, 7), (1020, 9), (1105, 30)]"] t
  show ?thesis by (simp add: Let_def)
qed

end
