(* ===== verification/Rlc_Entity.thy ===== *)
theory Rlc_Entity
  imports Rlc_Pdu Rlc_Sdu Time_Stat
begin

text \<open>
  The part of an RLC entity that the three modes share (\<open>nr_rlc_entity.h\<close>): statistics, buffer
  status, the waiting time average, and the calls an entity makes to its user. The callbacks
  do not change the entity; each call is recorded, in order, in \<open>ec_events\<close>.

  The heap of the SDUs an entity has queued is kept with the entity, which is the only owner of
  these SDUs.
\<close>

datatype nr_rlc_mode = NR_RLC_AM | NR_RLC_UM | NR_RLC_TM

record nr_rlc_statistics =
  st_mode :: nr_rlc_mode
  st_txpdu_pkts :: u32
  st_txpdu_bytes :: u32
  st_txpdu_wt_ms :: u32
  st_txpdu_dd_pkts :: u32
  st_txpdu_dd_bytes :: u32
  st_txpdu_retx_pkts :: u32
  st_txpdu_retx_bytes :: u32
  st_txpdu_segmented :: u32
  st_txpdu_status_pkts :: u32
  st_txpdu_status_bytes :: u32
  st_txbuf_occ_bytes :: u32
  st_txbuf_occ_pkts :: u32
  st_rxpdu_pkts :: u32
  st_rxpdu_bytes :: u32
  st_rxpdu_dup_pkts :: u32
  st_rxpdu_dup_bytes :: u32
  st_rxpdu_dd_pkts :: u32
  st_rxpdu_dd_bytes :: u32
  st_rxpdu_ow_pkts :: u32
  st_rxpdu_ow_bytes :: u32
  st_rxpdu_status_pkts :: u32
  st_rxpdu_status_bytes :: u32
  st_rxbuf_occ_bytes :: u32
  st_rxbuf_occ_pkts :: u32
  st_txsdu_pkts :: u32
  st_txsdu_bytes :: u64
  st_prev_txsdu_bytes :: u64
  st_txsdu_avg_time_to_tx :: rat
  st_txsdu_wt_us :: u32
  st_rxsdu_pkts :: u32
  st_rxsdu_bytes :: u64
  st_rxsdu_dd_pkts :: u32
  st_rxsdu_dd_bytes :: u32

record nr_rlc_entity_buffer_status =
  bs_status_size :: int
  bs_tx_size :: int
  bs_retx_size :: int
  bs_tx_bytes :: int
  bs_total_tx_bytes :: int

text \<open>The calls \<open>deliver_sdu\<close>, \<open>sdu_successful_delivery\<close> and \<open>max_retx_reached\<close>.\<close>

datatype rlc_event =
    DeliverSdu "byte list"
  | SduSuccessfulDelivery int
  | MaxRetxReached

record nr_rlc_entity =
  ec_bstatus :: nr_rlc_entity_buffer_status
  ec_stats :: nr_rlc_statistics
  ec_txsdu_avg_time_to_tx :: time_average
  ec_avg_time_is_on :: bool
  ec_last_total_tx_bytes :: int
  ec_heap :: rlc_heap
  ec_events :: "rlc_event list"

definition NR_SDU_MAX :: int where
  "NR_SDU_MAX = 16000"

definition stats_init :: "nr_rlc_mode \<Rightarrow> nr_rlc_statistics" where
  "stats_init m =
     \<lparr>st_mode = m, st_txpdu_pkts = 0, st_txpdu_bytes = 0, st_txpdu_wt_ms = 0,
      st_txpdu_dd_pkts = 0, st_txpdu_dd_bytes = 0, st_txpdu_retx_pkts = 0,
      st_txpdu_retx_bytes = 0, st_txpdu_segmented = 0, st_txpdu_status_pkts = 0,
      st_txpdu_status_bytes = 0, st_txbuf_occ_bytes = 0, st_txbuf_occ_pkts = 0,
      st_rxpdu_pkts = 0, st_rxpdu_bytes = 0, st_rxpdu_dup_pkts = 0, st_rxpdu_dup_bytes = 0,
      st_rxpdu_dd_pkts = 0, st_rxpdu_dd_bytes = 0, st_rxpdu_ow_pkts = 0, st_rxpdu_ow_bytes = 0,
      st_rxpdu_status_pkts = 0, st_rxpdu_status_bytes = 0, st_rxbuf_occ_bytes = 0,
      st_rxbuf_occ_pkts = 0, st_txsdu_pkts = 0, st_txsdu_bytes = 0, st_prev_txsdu_bytes = 0,
      st_txsdu_avg_time_to_tx = 0, st_txsdu_wt_us = 0, st_rxsdu_pkts = 0, st_rxsdu_bytes = 0,
      st_rxsdu_dd_pkts = 0, st_rxsdu_dd_bytes = 0\<rparr>"

text \<open>The common part of a fresh entity: \<open>calloc\<close>, then the average over the last 100 ms.\<close>

definition entity_init :: "nr_rlc_mode \<Rightarrow> nr_rlc_entity result" where
  "entity_init m =
     bindR (time_average_new (100 * 1000) 1024) (\<lambda>ta.
       Inr \<lparr>ec_bstatus = \<lparr>bs_status_size = 0, bs_tx_size = 0, bs_retx_size = 0, bs_tx_bytes = 0,
                         bs_total_tx_bytes = 0\<rparr>,
            ec_stats = stats_init m, ec_txsdu_avg_time_to_tx = ta, ec_avg_time_is_on = False,
            ec_last_total_tx_bytes = 0, ec_heap = rlc_heap_empty, ec_events = []\<rparr>)"

section \<open>Updates of the common part\<close>

definition ec_upd_stats :: "(nr_rlc_statistics \<Rightarrow> nr_rlc_statistics) \<Rightarrow> nr_rlc_entity \<Rightarrow> nr_rlc_entity" where
  "ec_upd_stats f c = c\<lparr>ec_stats := f (ec_stats c)\<rparr>"

definition ec_add_tx_size :: "int \<Rightarrow> nr_rlc_entity \<Rightarrow> nr_rlc_entity" where
  "ec_add_tx_size n c = c\<lparr>ec_bstatus := (ec_bstatus c)\<lparr>bs_tx_size := bs_tx_size (ec_bstatus c) + n\<rparr>\<rparr>"

definition ec_add_retx_size :: "int \<Rightarrow> nr_rlc_entity \<Rightarrow> nr_rlc_entity" where
  "ec_add_retx_size n c =
     c\<lparr>ec_bstatus := (ec_bstatus c)\<lparr>bs_retx_size := bs_retx_size (ec_bstatus c) + n\<rparr>\<rparr>"

definition ec_call :: "rlc_event \<Rightarrow> nr_rlc_entity \<Rightarrow> nr_rlc_entity" where
  "ec_call ev c = c\<lparr>ec_events := ec_events c @ [ev]\<rparr>"

text \<open>
  The waiting time statistics of a transmitted SDU, taken when \<open>avg_time_is_on\<close>; \<open>now\<close> is the
  value of \<open>time_average_now()\<close>.
\<close>

definition ec_waited :: "u64 \<Rightarrow> u64 \<Rightarrow> nr_rlc_entity \<Rightarrow> nr_rlc_entity" where
  "ec_waited now arrival c =
     (if ec_avg_time_is_on c
      then c\<lparr>ec_txsdu_avg_time_to_tx := time_average_add (ec_txsdu_avg_time_to_tx c) now (now - arrival)\<rparr>
      else c)"

lemmas ec_defs = ec_upd_stats_def ec_add_tx_size_def ec_add_retx_size_def ec_call_def ec_waited_def

lemma ec_upd_stats_sel [simp]:
  "ec_bstatus (ec_upd_stats f c) = ec_bstatus c" "ec_heap (ec_upd_stats f c) = ec_heap c"
  "ec_events (ec_upd_stats f c) = ec_events c" "ec_stats (ec_upd_stats f c) = f (ec_stats c)"
  "ec_avg_time_is_on (ec_upd_stats f c) = ec_avg_time_is_on c"
  by (simp_all add: ec_defs)

lemma ec_add_tx_size_sel [simp]:
  "ec_heap (ec_add_tx_size n c) = ec_heap c" "ec_events (ec_add_tx_size n c) = ec_events c"
  "ec_stats (ec_add_tx_size n c) = ec_stats c"
  "bs_tx_size (ec_bstatus (ec_add_tx_size n c)) = bs_tx_size (ec_bstatus c) + n"
  "bs_retx_size (ec_bstatus (ec_add_tx_size n c)) = bs_retx_size (ec_bstatus c)"
  "ec_avg_time_is_on (ec_add_tx_size n c) = ec_avg_time_is_on c"
  by (simp_all add: ec_defs)

lemma ec_add_retx_size_sel [simp]:
  "ec_heap (ec_add_retx_size n c) = ec_heap c" "ec_events (ec_add_retx_size n c) = ec_events c"
  "ec_stats (ec_add_retx_size n c) = ec_stats c"
  "bs_tx_size (ec_bstatus (ec_add_retx_size n c)) = bs_tx_size (ec_bstatus c)"
  "bs_retx_size (ec_bstatus (ec_add_retx_size n c)) = bs_retx_size (ec_bstatus c) + n"
  "ec_avg_time_is_on (ec_add_retx_size n c) = ec_avg_time_is_on c"
  by (simp_all add: ec_defs)

lemma ec_call_sel [simp]:
  "ec_bstatus (ec_call ev c) = ec_bstatus c" "ec_heap (ec_call ev c) = ec_heap c"
  "ec_stats (ec_call ev c) = ec_stats c" "ec_events (ec_call ev c) = ec_events c @ [ev]"
  "ec_avg_time_is_on (ec_call ev c) = ec_avg_time_is_on c"
  by (simp_all add: ec_defs)

lemma ec_waited_sel [simp]:
  "ec_bstatus (ec_waited now a c) = ec_bstatus c" "ec_heap (ec_waited now a c) = ec_heap c"
  "ec_stats (ec_waited now a c) = ec_stats c" "ec_events (ec_waited now a c) = ec_events c"
  "ec_avg_time_is_on (ec_waited now a c) = ec_avg_time_is_on c"
  by (simp_all add: ec_defs)

section \<open>SDUs under reassembly\<close>

text \<open>
  The functions of the AM and UM receivers that only look at the list of received PDUs are the
  same text in \<open>nr_rlc_entity_am.c\<close> and \<open>nr_rlc_entity_um.c\<close>; here they are functions of the list.
  They start at the first PDU of the given sequence number.
\<close>

definition pdus_from :: "int \<Rightarrow> nr_rlc_pdu list \<Rightarrow> nr_rlc_pdu list" where
  "pdus_from sn l = dropWhile (\<lambda>p. pdu_sn p \<noteq> sn) l"

fun sdu_full_loop :: "int \<Rightarrow> int \<Rightarrow> nr_rlc_pdu list \<Rightarrow> bool" where
  "sdu_full_loop sn last_byte [] = False"
| "sdu_full_loop sn last_byte (p # l) =
     (if pdu_sn p \<noteq> sn then False
      else if pdu_so p > last_byte + 1 then False
      else if pdu_is_last p then True
      else let new_last_byte = pdu_so p + pdu_size p - 1
           in sdu_full_loop sn (if new_last_byte > last_byte then new_last_byte else last_byte) l)"

definition rx_sdu_full :: "nr_rlc_pdu list \<Rightarrow> int \<Rightarrow> bool" where
  "rx_sdu_full rx_list sn =
     (case pdus_from sn rx_list of
        [] \<Rightarrow> False
      | p # l \<Rightarrow> if pdu_data p = None then False else sdu_full_loop sn (-1) (p # l))"

definition rx_sdu_delivered :: "nr_rlc_pdu list \<Rightarrow> int \<Rightarrow> bool" where
  "rx_sdu_delivered rx_list sn =
     (case pdus_from sn rx_list of [] \<Rightarrow> False | p # _ \<Rightarrow> pdu_data p = None)"

fun sdu_has_missing_loop :: "int \<Rightarrow> int \<Rightarrow> nr_rlc_pdu list \<Rightarrow> bool" where
  "sdu_has_missing_loop sn last_byte [] = False"
| "sdu_has_missing_loop sn last_byte (p # l) =
     (if pdu_sn p \<noteq> sn then False
      else if pdu_so p > last_byte + 1 then True
      else let new_last_byte = pdu_so p + pdu_size p - 1
           in sdu_has_missing_loop sn (if new_last_byte > last_byte then new_last_byte else last_byte) l)"

definition rx_sdu_has_missing_bytes :: "nr_rlc_pdu list \<Rightarrow> int \<Rightarrow> bool" where
  "rx_sdu_has_missing_bytes rx_list sn =
     (case pdus_from sn rx_list of
        [] \<Rightarrow> False
      | p # l \<Rightarrow> if pdu_data p = None then False else sdu_has_missing_loop sn (-1) (p # l))"

text \<open>
  The reassembly loop: \<open>sdu\<close> holds the first \<open>so\<close> bytes, \<open>bad\<close> is \<open>bad_sdu\<close>. Each PDU of the
  SDU contributes what lies beyond \<open>so\<close> and loses its data; \<open>release\<close> is what the mode does to the
  PDU beside that. The result is the list behind, the SDU, \<open>bad_sdu\<close> and the bytes released.
\<close>

fun reassemble_loop ::
  "(nr_rlc_pdu \<Rightarrow> nr_rlc_pdu) \<Rightarrow> int \<Rightarrow> nr_rlc_pdu list \<Rightarrow> byte list \<Rightarrow> bool \<Rightarrow>
   (nr_rlc_pdu list \<times> byte list \<times> bool \<times> int) result" where
  "reassemble_loop release sn [] sdu bad = Inr ([], sdu, bad, 0)"
| "reassemble_loop release sn (p # l) sdu bad =
     (if pdu_sn p \<noteq> sn then Inr (p # l, sdu, bad, 0)
      else
        let so = int (length sdu);
            len = pdu_size p - (so - pdu_so p);
            bad' = (bad \<or> so + len > NR_SDU_MAX)
        in bindR
             (if \<not> bad' \<and> len > 0
              then (case pdu_data p of
                      None \<Rightarrow> Inl NullDeref
                    | Some d \<Rightarrow> bindR (slice d (so - pdu_so p) len) (\<lambda>chunk. Inr (sdu @ chunk)))
              else Inr sdu)
             (\<lambda>sdu'. bindR (reassemble_loop release sn l sdu' bad') (\<lambda>(l', sdu'', bad'', n).
                Inr (release (p\<lparr>pdu_data := None\<rparr>) # l', sdu'', bad'', n + pdu_size p))))"

end
