(* ===== verification/Rlc_Am_Base.thy ===== *)
theory Rlc_Am_Base
  imports Rlc_Entity
begin

text \<open>
  The acknowledged mode entity (\<open>nr_rlc_entity_am.h\<close>), its creation and reconfiguration
  (\<open>nr_rlc_entity.c\<close>) and its sequence number arithmetic (\<open>nr_rlc_entity_am.c\<close>). The lemmas show
  that both comparisons are the order by distance from the modulus base, which is what every
  ordered list of the entity relies on.
\<close>

record nr_rlc_entity_am =
  am_common :: nr_rlc_entity
  am_t_poll_retransmit :: int
  am_t_reassembly :: int
  am_t_status_prohibit :: int
  am_poll_pdu :: int
  am_poll_byte :: int
  am_max_retx_threshold :: int
  am_sn_field_length :: nat
  am_sn_modulus :: int
  am_window_size :: int
  am_rx_next :: int
  am_rx_next_status_trigger :: int
  am_rx_highest_status :: int
  am_rx_next_highest :: int
  am_status_triggered :: bool
  am_tx_next :: int
  am_tx_next_ack :: int
  am_poll_sn :: int
  am_pdu_without_poll :: int
  am_byte_without_poll :: int
  am_force_poll :: bool
  am_t_current :: u64
  am_t_log_buffer_full :: u64
  am_sdu_rejected :: int
  am_t_poll_retransmit_start :: u64
  am_t_reassembly_start :: u64
  am_t_status_prohibit_start :: u64
  am_rx_list :: "nr_rlc_pdu list"
  am_rx_size :: int
  am_rx_maxsize :: int
  am_tx_list :: "nr_rlc_sdu_segment list"
  am_tx_end :: "nat option"
  am_tx_size :: int
  am_tx_maxsize :: int
  am_wait_list :: "nr_rlc_sdu_segment list"
  am_wait_end :: "nat option"
  am_retransmit_list :: "nr_rlc_sdu_segment list"

definition am_upd_common :: "(nr_rlc_entity \<Rightarrow> nr_rlc_entity) \<Rightarrow> nr_rlc_entity_am \<Rightarrow> nr_rlc_entity_am" where
  "am_upd_common f e = e\<lparr>am_common := f (am_common e)\<rparr>"

abbreviation am_heap :: "nr_rlc_entity_am \<Rightarrow> rlc_heap" where
  "am_heap e \<equiv> ec_heap (am_common e)"

abbreviation am_events :: "nr_rlc_entity_am \<Rightarrow> rlc_event list" where
  "am_events e \<equiv> ec_events (am_common e)"

definition am_set_heap :: "rlc_heap \<Rightarrow> nr_rlc_entity_am \<Rightarrow> nr_rlc_entity_am" where
  "am_set_heap h e = e\<lparr>am_common := (am_common e)\<lparr>ec_heap := h\<rparr>\<rparr>"

text \<open>
  The parameters in the order of the C function, without the callbacks; \<open>AssertFatal\<close> ends the
  process for a sequence number length other than 12 or 18.
\<close>

definition new_nr_rlc_entity_am ::
  "int \<Rightarrow> int \<Rightarrow> int \<Rightarrow> int \<Rightarrow> int \<Rightarrow> int \<Rightarrow> int \<Rightarrow> int \<Rightarrow> nat \<Rightarrow> nr_rlc_entity_am result" where
  "new_nr_rlc_entity_am rx_maxsize tx_maxsize t_poll_retransmit t_reassembly t_status_prohibit
     poll_pdu poll_byte max_retx_threshold sn_field_length =
     (if \<not> (sn_field_length = 12 \<or> sn_field_length = 18) then Inl Exit
      else bindR (entity_init NR_RLC_AM) (\<lambda>c.
        Inr \<lparr>am_common = c, am_t_poll_retransmit = t_poll_retransmit, am_t_reassembly = t_reassembly,
          am_t_status_prohibit = t_status_prohibit, am_poll_pdu = poll_pdu, am_poll_byte = poll_byte,
          am_max_retx_threshold = max_retx_threshold, am_sn_field_length = sn_field_length,
          am_sn_modulus = 2 ^ sn_field_length, am_window_size = 2 ^ sn_field_length div 2,
          am_rx_next = 0, am_rx_next_status_trigger = 0, am_rx_highest_status = 0,
          am_rx_next_highest = 0, am_status_triggered = False, am_tx_next = 0, am_tx_next_ack = 0,
          am_poll_sn = 0, am_pdu_without_poll = 0, am_byte_without_poll = 0, am_force_poll = False,
          am_t_current = 0, am_t_log_buffer_full = 0, am_sdu_rejected = 0,
          am_t_poll_retransmit_start = 0, am_t_reassembly_start = 0, am_t_status_prohibit_start = 0,
          am_rx_list = [], am_rx_size = 0, am_rx_maxsize = rx_maxsize, am_tx_list = [],
          am_tx_end = None, am_tx_size = 0, am_tx_maxsize = tx_maxsize, am_wait_list = [],
          am_wait_end = None, am_retransmit_list = []\<rparr>))"

text \<open>The sequence number length is optional (a pointer that may be NULL).\<close>

definition nr_rlc_entity_am_reconfigure ::
  "nr_rlc_entity_am \<Rightarrow> int \<Rightarrow> int \<Rightarrow> int \<Rightarrow> int \<Rightarrow> int \<Rightarrow> int \<Rightarrow> nat option \<Rightarrow> nr_rlc_entity_am" where
  "nr_rlc_entity_am_reconfigure e t_poll_retransmit t_reassembly t_status_prohibit poll_pdu poll_byte
     max_retx_threshold sn_field_length =
     (let e1 = e\<lparr>am_t_poll_retransmit := t_poll_retransmit, am_t_reassembly := t_reassembly,
                 am_t_status_prohibit := t_status_prohibit, am_poll_pdu := poll_pdu,
                 am_poll_byte := poll_byte, am_max_retx_threshold := max_retx_threshold\<rparr>
      in case sn_field_length of None \<Rightarrow> e1 | Some n \<Rightarrow> e1\<lparr>am_sn_field_length := n\<rparr>)"

section \<open>Header size and sequence numbers\<close>

definition am_compute_pdu_header_size :: "nr_rlc_entity_am \<Rightarrow> nr_rlc_sdu_segment \<Rightarrow> int" where
  "am_compute_pdu_header_size e s =
     2 + (if am_sn_field_length e = 18 then 1 else 0) + (if \<not> seg_is_first s then 2 else 0)"

definition am_modulus_rx :: "nr_rlc_entity_am \<Rightarrow> int \<Rightarrow> int" where
  "am_modulus_rx e a = (let r = a - am_rx_next e in if r < 0 then r + am_sn_modulus e else r)"

definition am_modulus_tx :: "nr_rlc_entity_am \<Rightarrow> int \<Rightarrow> int" where
  "am_modulus_tx e a = (let r = a - am_tx_next_ack e in if r < 0 then r + am_sn_modulus e else r)"

definition am_sn_in_recv_window :: "nr_rlc_entity_am \<Rightarrow> int \<Rightarrow> bool" where
  "am_sn_in_recv_window e sn \<longleftrightarrow> am_modulus_rx e sn < am_window_size e"

definition am_sn_compare_rx :: "nr_rlc_entity_am \<Rightarrow> int \<Rightarrow> int \<Rightarrow> int" where
  "am_sn_compare_rx e a b = am_modulus_rx e a - am_modulus_rx e b"

definition am_sn_compare_tx :: "nr_rlc_entity_am \<Rightarrow> int \<Rightarrow> int \<Rightarrow> int" where
  "am_sn_compare_tx e a b = am_modulus_tx e a - am_modulus_tx e b"

section \<open>Configuration invariant and comparisons\<close>

text \<open>
  The configuration an entity is created with: modulus and window follow from the length of the
  sequence number, and the modulus bases are sequence numbers.
\<close>

definition am_sn_ok :: "nr_rlc_entity_am \<Rightarrow> int \<Rightarrow> bool" where
  "am_sn_ok e a \<longleftrightarrow> 0 \<le> a \<and> a < am_sn_modulus e"

definition am_config_ok :: "nr_rlc_entity_am \<Rightarrow> bool" where
  "am_config_ok e \<longleftrightarrow> (am_sn_field_length e = 12 \<or> am_sn_field_length e = 18) \<and>
     am_sn_modulus e = 2 ^ am_sn_field_length e \<and> am_window_size e = am_sn_modulus e div 2"

lemma am_modulus_rx_dist [sn_simps]: "am_modulus_rx e a = sn_dist (am_sn_modulus e) (am_rx_next e) a"
  by (simp add: am_modulus_rx_def sn_dist_def)

lemma am_modulus_tx_dist [sn_simps]: "am_modulus_tx e a = sn_dist (am_sn_modulus e) (am_tx_next_ack e) a"
  by (simp add: am_modulus_tx_def sn_dist_def)

lemma am_sn_compare_rx_self [simp]: "am_sn_compare_rx e a a = 0"
  by (simp add: am_sn_compare_rx_def)

lemma am_sn_compare_tx_self [simp]: "am_sn_compare_tx e a a = 0"
  by (simp add: am_sn_compare_tx_def)

text \<open>
  Both comparisons satisfy the contract of an ordered list whenever their base is a sequence
  number. The base is part of the entity, so the contract is interpreted on the valid numbers of
  entities with such a base.
\<close>

interpretation am_rx: sn_order "am_sn_compare_rx e" "\<lambda>a. am_sn_ok e a \<and> am_sn_ok e (am_rx_next e)" for e
  by unfold_locales
    (auto simp: am_sn_compare_rx_def am_modulus_rx_dist am_sn_ok_def
      dest: sn_dist_inject [THEN iffD1, rotated -1])

interpretation am_tx: sn_order "am_sn_compare_tx e" "\<lambda>a. am_sn_ok e a \<and> am_sn_ok e (am_tx_next_ack e)" for e
  by unfold_locales
    (auto simp: am_sn_compare_tx_def am_modulus_tx_dist am_sn_ok_def
      dest: sn_dist_inject [THEN iffD1, rotated -1])

lemma am_config_pos: "am_config_ok e \<Longrightarrow> 0 < am_sn_modulus e \<and> 0 < am_window_size e"
  by (auto simp: am_config_ok_def)

lemma am_new_config_ok:
  "new_nr_rlc_entity_am rx tx tp tr ts pp pb mr n = Inr e \<Longrightarrow>
   am_config_ok e \<and> am_rx_list e = [] \<and> am_tx_list e = [] \<and> am_wait_list e = [] \<and>
   am_retransmit_list e = [] \<and> am_rx_next e = 0 \<and> am_tx_next_ack e = 0"
  by (auto simp: new_nr_rlc_entity_am_def am_config_ok_def result_simps split: if_splits)

end
