(* ===== verification/Rlc_Am_Status.thy ===== *)
theory Rlc_Am_Status
  imports Rlc_Am_Base
begin

text \<open>
  Status reporting of acknowledged mode (\<open>nr_rlc_entity_am.c\<close>, "TX functions - status reporting"):
  the search for missing parts in the reception list, their encoding as NACKs, and the size of the
  STATUS PDU that the buffer status announces.
\<close>

section \<open>Missing parts\<close>

text \<open>
  \<open>missing_data_t\<close>; \<open>md_next\<close> is the list that starts at the PDU \<open>next\<close> points to. The value
  \<open>sn_start = -1\<close>, with which the code says that nothing is left to report, is \<open>None\<close>.
\<close>

record missing_data =
  md_sn_start :: int
  md_so_start :: int
  md_sn_end :: int
  md_so_end :: int
  md_next :: "nr_rlc_pdu list"

definition am_before_highest :: "nr_rlc_entity_am \<Rightarrow> int" where
  "am_before_highest e = (am_rx_highest_status e - 1 + am_sn_modulus e) mod am_sn_modulus e"

text \<open>Label \<open>set_end_different_sdu\<close>; the list behind \<open>ret.next\<close> is \<open>cur # rest\<close>.\<close>

definition set_end_different_sdu ::
  "nr_rlc_entity_am \<Rightarrow> int \<Rightarrow> int \<Rightarrow> nr_rlc_pdu \<Rightarrow> nr_rlc_pdu list \<Rightarrow> missing_data" where
  "set_end_different_sdu e sn_start so_start cur rest =
     (let (sn_end, so_end) =
            (if pdu_is_first cur
             then ((pdu_sn cur - 1 + am_sn_modulus e) mod am_sn_modulus e, 0xffff)
             else (pdu_sn cur, pdu_so cur - 1))
      in if am_sn_compare_rx e (am_rx_highest_status e) sn_end \<le> 0
         then \<lparr>md_sn_start = sn_start, md_so_start = so_start, md_sn_end = am_before_highest e,
               md_so_end = 0xffff, md_next = []\<rparr>
         else \<lparr>md_sn_start = sn_start, md_so_start = so_start, md_sn_end = sn_end,
               md_so_end = so_end, md_next = cur # rest\<rparr>)"

text \<open>Label \<open>next_pdu\<close> when there is no next PDU.\<close>

definition next_missing_end :: "nr_rlc_entity_am \<Rightarrow> int \<Rightarrow> bool \<Rightarrow> nr_rlc_pdu \<Rightarrow> missing_data option" where
  "next_missing_end e max_so last_reached cur =
     (let (sn_start, so_start) =
            (if pdu_data cur = None \<or> last_reached then ((pdu_sn cur + 1) mod am_sn_modulus e, 0)
             else (pdu_sn cur, max_so + 1))
      in if am_sn_compare_rx e (am_rx_highest_status e) sn_start \<le> 0 then None
         else Some \<lparr>md_sn_start = sn_start, md_so_start = so_start, md_sn_end = am_before_highest e,
                    md_so_end = 0xffff, md_next = []\<rparr>)"

text \<open>The loop of label \<open>next_pdu\<close> from \<open>cur\<close> on, with \<open>max_so\<close> and \<open>last_reached\<close> so far.\<close>

fun next_missing_loop ::
  "nr_rlc_entity_am \<Rightarrow> int \<Rightarrow> bool \<Rightarrow> nr_rlc_pdu \<Rightarrow> nr_rlc_pdu list \<Rightarrow> missing_data option" where
  "next_missing_loop e max_so0 last0 cur [] =
     next_missing_end e (max (pdu_so cur + pdu_size cur - 1) max_so0) (last0 \<or> pdu_is_last cur) cur"
| "next_missing_loop e max_so0 last0 cur (nxt # rest) =
     (let sn = pdu_sn cur;
          max_so = max (pdu_so cur + pdu_size cur - 1) max_so0;
          last_reached = (last0 \<or> pdu_is_last cur)
      in if pdu_sn nxt = sn \<and> max_so \<ge> pdu_so nxt - 1
         then next_missing_loop e max_so last_reached nxt rest
         else if pdu_sn nxt = (sn + 1) mod am_sn_modulus e \<and> last_reached \<and> pdu_is_first nxt
         then next_missing_loop e 0 False nxt rest
         else if pdu_sn nxt = sn then
           (if am_sn_compare_rx e (am_rx_highest_status e) sn \<le> 0 then None
            else Some \<lparr>md_sn_start = sn, md_so_start = max_so + 1, md_sn_end = sn,
                       md_so_end = pdu_so nxt - 1, md_next = nxt # rest\<rparr>)
         else
           let (sn_start, so_start) =
                 (if last_reached then ((sn + 1) mod am_sn_modulus e, 0) else (sn, max_so + 1))
           in if am_sn_compare_rx e (am_rx_highest_status e) sn_start \<le> 0 then None
              else Some (set_end_different_sdu e sn_start so_start nxt rest))"

text \<open>\<open>next_missing\<close> on a non-empty list \<open>cur # rest\<close>.\<close>

definition next_missing ::
  "nr_rlc_entity_am \<Rightarrow> nr_rlc_pdu \<Rightarrow> nr_rlc_pdu list \<Rightarrow> bool \<Rightarrow> missing_data option" where
  "next_missing e cur rest check_head =
     (if check_head \<and> (pdu_sn cur \<noteq> am_rx_next e \<or> \<not> pdu_is_first cur)
      then if am_sn_compare_rx e (am_rx_highest_status e) (am_rx_next e) \<le> 0 then None
           else Some (set_end_different_sdu e (am_rx_next e) 0 cur rest)
      else next_missing_loop e 0 False cur rest)"

section \<open>Encoding\<close>

definition nack_size :: "nr_rlc_entity_am \<Rightarrow> int \<Rightarrow> int \<Rightarrow> int \<Rightarrow> int \<Rightarrow> int" where
  "nack_size e sn_start so_start sn_end so_end =
     (let nack_length = 2 + (if am_sn_field_length e = 18 then 1 else 0)
      in if sn_start = sn_end then
           (if so_start = 0 \<and> so_end = 0xffff then nack_length else nack_length + 4)
         else (if so_start = 0 \<and> so_end = 0xffff then nack_length + 1 else nack_length + 5))"

definition get_e1_position :: "nr_rlc_entity_am \<Rightarrow> nr_rlc_pdu_encoder \<Rightarrow> int \<times> nat" where
  "get_e1_position e encoder =
     (if am_sn_field_length e = 18 then (enc_byte encoder + 2, 5) else (enc_byte encoder + 1, 3))"

text \<open>
  What \<open>generate_missing\<close> reads and writes beside the missing part: the encoder, the position of the
  E1 bit to set when a NACK follows, the truncation flag, the position of the last SO_END put (the
  pointer \<open>so_end_address\<close>, an index of the buffer) and the last NACK generated (-1 for none).
\<close>

record status_state =
  ss_encoder :: nr_rlc_pdu_encoder
  ss_e1_byte :: int
  ss_e1_bit :: nat
  ss_truncated :: bool
  ss_so_end :: "int option"
  ss_last_nack :: int

text \<open>\<open>buffer[i] |= v\<close> and \<open>buffer[i] = v\<close> on the buffer of an encoder.\<close>

definition enc_or_byte :: "int \<Rightarrow> byte \<Rightarrow> nr_rlc_pdu_encoder \<Rightarrow> nr_rlc_pdu_encoder result" where
  "enc_or_byte i v en =
     (if 0 \<le> i \<and> i < int (length (enc_buffer en))
      then Inr (en\<lparr>enc_buffer := (enc_buffer en)[nat i := enc_buffer en ! nat i OR v]\<rparr>)
      else Inl OutOfBounds)"

definition enc_set_byte :: "int \<Rightarrow> byte \<Rightarrow> nr_rlc_pdu_encoder \<Rightarrow> nr_rlc_pdu_encoder result" where
  "enc_set_byte i v en =
     (if 0 \<le> i \<and> i < int (length (enc_buffer en))
      then Inr (en\<lparr>enc_buffer := (enc_buffer en)[nat i := v]\<rparr>) else Inl OutOfBounds)"

text \<open>One NACK: the previous E1 bit is set, the fields are put.\<close>

definition put_nack ::
  "nr_rlc_entity_am \<Rightarrow> int \<Rightarrow> int \<Rightarrow> int \<Rightarrow> int \<Rightarrow> int \<Rightarrow> status_state \<Rightarrow> status_state result" where
  "put_nack e sn_start so_start sn_end so_end cur_sn_count ss =
     (let r_bits = (if am_sn_field_length e = 18 then 3 else 1);
          e2 = \<not> (so_start = 0 \<and> so_end = 0xffff);
          e3 = (sn_start \<noteq> sn_end)
      in bindR (enc_or_byte (ss_e1_byte ss) (push_bit (ss_e1_bit ss) 1) (ss_encoder ss)) (\<lambda>en0.
         bindR (put_fields en0 [(sn_start, am_sn_field_length e), (0, 1), (of_bool e2, 1),
                                (of_bool e3, 1), (0, r_bits)]) (\<lambda>en1.
         bindR (if e2 then put_fields en1 [(so_start, 16)] else Inr en1) (\<lambda>en2.
         bindR (if e2 then put_fields en2 [(so_end, 16)] else Inr en2) (\<lambda>en3.
         bindR (if e3 then put_fields en3 [(cur_sn_count, 8)] else Inr en3) (\<lambda>en4.
         Inr (ss\<lparr>ss_encoder := en4,
                 ss_e1_byte := fst (get_e1_position e en0), ss_e1_bit := snd (get_e1_position e en0),
                 ss_so_end := (if e2 then Some (enc_byte en2) else None),
                 ss_last_nack := (if e3 then sn_start + (cur_sn_count - 1) else sn_start)\<rparr>)))))))"

text \<open>
  The next NACK of a missing part when \<open>sn_count\<close> numbers from \<open>sn_start\<close> on are left: the number of
  sequence numbers (at most 255), \<open>so_start\<close>, \<open>sn_end\<close> and \<open>so_end\<close>.
\<close>

definition nack_range :: "nr_rlc_entity_am \<Rightarrow> missing_data \<Rightarrow> nat \<Rightarrow> int \<Rightarrow> nat \<times> int \<times> int \<times> int" where
  "nack_range e m sn_count sn_start =
     (let cur_sn_count = (if sn_count > 255 then 255 else sn_count);
          so_start = (if sn_start = md_sn_start m then md_so_start m else 0);
          (sn_end, so_end) =
            (if cur_sn_count = sn_count then (md_sn_end m, md_so_end m)
             else ((sn_start + 254) mod am_sn_modulus e, 0xffff))
      in (cur_sn_count, so_start, sn_end, so_end))"

lemma nack_range_count: "nack_range e m sn_count sn_start = (k, r) \<Longrightarrow> 0 < sn_count \<Longrightarrow> 0 < k \<and> k \<le> sn_count"
  by (auto simp: nack_range_def Let_def split: prod.splits if_splits)

text \<open>
  The loop of \<open>generate_missing\<close>; a NACK for which there is no room ends it and sets the truncation
  flag.
\<close>

function generate_missing_loop ::
  "nr_rlc_entity_am \<Rightarrow> missing_data \<Rightarrow> nat \<Rightarrow> int \<Rightarrow> status_state \<Rightarrow> status_state result" where
  "generate_missing_loop e m sn_count sn_start ss =
     (if sn_count = 0 then Inr ss
      else case nack_range e m sn_count sn_start of (cur_sn_count, so_start, sn_end, so_end) \<Rightarrow>
        if enc_byte (ss_encoder ss) + nack_size e sn_start so_start sn_end so_end > enc_size (ss_encoder ss)
        then Inr (ss\<lparr>ss_truncated := True\<rparr>)
        else bindR (put_nack e sn_start so_start sn_end so_end (int cur_sn_count) ss) (\<lambda>ss1.
             generate_missing_loop e m (sn_count - cur_sn_count)
               ((sn_start + int cur_sn_count) mod am_sn_modulus e) ss1))"
  by pat_completeness auto
termination
  by (relation "measure (\<lambda>(e, m, sn_count, sn_start, ss). sn_count)") (auto dest!: nack_range_count [OF sym])

declare generate_missing_loop.simps [simp del]

definition missing_count :: "nr_rlc_entity_am \<Rightarrow> missing_data \<Rightarrow> nat" where
  "missing_count e m = nat ((md_sn_end m - md_sn_start m + am_sn_modulus e) mod am_sn_modulus e + 1)"

text \<open>\<open>generate_missing\<close>, with \<open>m->next\<close> behind it.\<close>

definition generate_missing ::
  "nr_rlc_entity_am \<Rightarrow> missing_data \<Rightarrow> status_state \<Rightarrow> (nr_rlc_pdu list \<times> status_state) result" where
  "generate_missing e m ss =
     bindR (generate_missing_loop e m (missing_count e m) (md_sn_start m)
              (ss\<lparr>ss_truncated := False, ss_last_nack := -1\<rparr>)) (\<lambda>ss1.
       Inr (if ss_truncated ss1 then [] else md_next m, ss1))"

lemma next_missing_loop_length:
  "next_missing_loop e max_so l cur rest = Some m \<Longrightarrow> length (md_next m) < Suc (length rest)"
  by (induction e max_so l cur rest rule: next_missing_loop.induct)
    (auto simp: next_missing_end_def set_end_different_sdu_def Let_def less_Suc_eq
      split: if_splits)

lemma next_missing_length:
  "next_missing e cur rest check_head = Some m \<Longrightarrow>
   length (md_next m) < length (cur # rest) \<or> check_head \<and> length (md_next m) \<le> length (cur # rest)"
  using next_missing_loop_length [of e 0 False cur rest m]
  by (auto simp: next_missing_def set_end_different_sdu_def Let_def split: if_splits)

lemma generate_missing_next:
  "generate_missing e m ss = Inr (l, ss') \<Longrightarrow> length l \<le> length (md_next m)"
  by (auto simp: generate_missing_def result_simps split: if_splits)

text \<open>
  The loop of \<open>generate_status\<close>; \<open>last_nack\<close> is carried along, and a truncated report whose last NACK
  has an SO_END extends it to the end of the SDU.
\<close>

function generate_status_loop ::
  "nr_rlc_entity_am \<Rightarrow> nr_rlc_pdu list \<Rightarrow> bool \<Rightarrow> int \<Rightarrow> status_state \<Rightarrow> (int \<times> status_state) result" where
  "generate_status_loop e [] check_head last_nack ss = Inr (last_nack, ss)"
| "generate_status_loop e (cur # rest) check_head last_nack ss =
     (case next_missing e cur rest check_head of
        None \<Rightarrow> Inr (last_nack, ss)
      | Some m \<Rightarrow>
          (case generate_missing e m ss of
             Inl c \<Rightarrow> Inl c
           | Inr (nxt, ss1) \<Rightarrow>
               let last_nack1 = (if ss_last_nack ss1 \<noteq> -1 then ss_last_nack ss1 else last_nack)
               in bindR (case (ss_truncated ss1, ss_so_end ss1) of
                           (True, Some a) \<Rightarrow>
                              bindR (enc_set_byte a 0xff (ss_encoder ss1)) (\<lambda>en.
                              bindR (enc_set_byte (a + 1) 0xff en) (\<lambda>en'. Inr (ss1\<lparr>ss_encoder := en'\<rparr>)))
                         | _ \<Rightarrow> Inr ss1)
                    (\<lambda>ss2. generate_status_loop e nxt False last_nack1 ss2)))"
  by pat_completeness auto
termination
proof (relation "measure (\<lambda>(e, l, check_head, last_nack, ss). 2 * length l + of_bool check_head)",
    goal_cases)
  case (2 e cur rest check_head last_nack ss m r nxt ss1)
  then have "length nxt \<le> length (md_next m)" using generate_missing_next [of e m ss nxt ss1] by simp
  with next_missing_length [OF 2(1)] show ?case by auto
qed simp

text \<open>\<open>generate_status\<close>: the number of bytes put, the buffer and the entity.\<close>

definition generate_status ::
  "nr_rlc_entity_am \<Rightarrow> byte list \<Rightarrow> (int \<times> byte list \<times> nr_rlc_entity_am) result" where
  "generate_status e buffer =
     (if int (length buffer) < 3 then Inr (0, buffer, e)
      else
        let last_nack0 = (am_rx_next e - 1 + am_sn_modulus e) mod am_sn_modulus e
        in bindR (put_fields (nr_rlc_pdu_encoder_init buffer) [(0, 24)]) (\<lambda>en0.
           bindR (generate_status_loop e (am_rx_list e) True last_nack0
                    \<lparr>ss_encoder = en0, ss_e1_byte = 2,
                     ss_e1_bit = (if am_sn_field_length e = 18 then 1 else 7),
                     ss_truncated = False, ss_so_end = None, ss_last_nack = -1\<rparr>) (\<lambda>(last_nack, ss).
             let ack_sn = (last_nack + 1) mod am_sn_modulus e;
                 b = enc_buffer (ss_encoder ss);
                 b' = (if am_sn_field_length e = 12
                       then b[0 := word_of_int (drop_bit 8 ack_sn), 1 := word_of_int (ack_sn AND 255)]
                       else b[0 := word_of_int (drop_bit 14 ack_sn),
                              1 := word_of_int (drop_bit 6 ack_sn AND 255),
                              2 := b ! 2 OR word_of_int (push_bit 2 (ack_sn AND 0x3f))]);
                 n = enc_byte (ss_encoder ss)
             in Inr (n, b',
                  am_upd_common (ec_upd_stats (\<lambda>s. s\<lparr>st_txpdu_pkts := st_txpdu_pkts s + 1,
                      st_txpdu_bytes := st_txpdu_bytes s + word_of_int n,
                      st_txpdu_status_pkts := st_txpdu_status_pkts s + 1,
                      st_txpdu_status_bytes := st_txpdu_status_bytes s + word_of_int n\<rparr>))
                    (e\<lparr>am_status_triggered := False, am_t_status_prohibit_start := am_t_current e\<rparr>)))))"

section \<open>Announced size\<close>

definition status_to_report :: "nr_rlc_entity_am \<Rightarrow> bool" where
  "status_to_report e \<longleftrightarrow> am_status_triggered e \<and>
     (am_t_status_prohibit_start e = 0 \<or>
      am_t_current e - am_t_status_prohibit_start e > word_of_int (am_t_status_prohibit e))"

definition nack_bits :: "nr_rlc_entity_am \<Rightarrow> int \<Rightarrow> int \<Rightarrow> int \<Rightarrow> int \<Rightarrow> int" where
  "nack_bits e sn_start so_start sn_end so_end =
     (let r_bits = (if am_sn_field_length e = 18 then 3 else 1)
      in int (am_sn_field_length e) + 3 + r_bits +
         (if so_start = 0 \<and> so_end = 0xffff then 0 else 16 * 2) + (if sn_start = sn_end then 0 else 8))"

text \<open>The loop of \<open>missing_size\<close>: size so far, number of ranges so far, truncated.\<close>

function missing_size_loop ::
  "nr_rlc_entity_am \<Rightarrow> missing_data \<Rightarrow> int \<Rightarrow> nat \<Rightarrow> int \<Rightarrow> int \<Rightarrow> int \<Rightarrow> int \<times> int \<times> bool" where
  "missing_size_loop e m maxsize sn_count sn_start sz range_count =
     (if sn_count = 0 then (sz, range_count, False)
      else case nack_range e m sn_count sn_start of (cur_sn_count, so_start, sn_end, so_end) \<Rightarrow>
        if sz + nack_size e sn_start so_start sn_end so_end > maxsize then (sz, range_count, True)
        else missing_size_loop e m maxsize (sn_count - cur_sn_count)
               ((sn_start + int cur_sn_count) mod am_sn_modulus e)
               (sz + nack_bits e sn_start so_start sn_end so_end div 8) (range_count + 1))"
  by pat_completeness auto
termination
  by (relation "measure (\<lambda>(e, m, maxsize, sn_count, sn_start, sz, range_count). sn_count)")
    (auto dest!: nack_range_count [OF sym])

declare missing_size_loop.simps [simp del]

text \<open>\<open>missing_size\<close>: the new size, the number of ranges and \<open>m->next\<close>.\<close>

definition missing_size ::
  "nr_rlc_entity_am \<Rightarrow> missing_data \<Rightarrow> int \<Rightarrow> int \<Rightarrow> int \<times> int \<times> nr_rlc_pdu list" where
  "missing_size e m maxsize sz =
     (case missing_size_loop e m maxsize (missing_count e m) (md_sn_start m) sz 0 of
        (sz', range_count, truncated) \<Rightarrow> (sz', range_count, if truncated then [] else md_next m))"

lemma missing_size_loop_count:
  "range_count \<le> fst (snd (missing_size_loop e m maxsize sn_count sn_start sz range_count))"
proof (induction e m maxsize sn_count sn_start sz range_count rule: missing_size_loop.induct)
  case (1 e m maxsize sn_count sn_start sz range_count)
  obtain k a b c where "nack_range e m sn_count sn_start = (k, a, b, c)" by (metis prod_cases4)
  with 1 show ?case by (subst missing_size_loop.simps) fastforce
qed

lemma missing_size_loop_progress:
  assumes "0 < sn_count"
  shows "snd (snd (missing_size_loop e m maxsize sn_count sn_start sz 0)) \<or>
    0 < fst (snd (missing_size_loop e m maxsize sn_count sn_start sz 0))"
proof -
  obtain k a b c where r: "nack_range e m sn_count sn_start = (k, a, b, c)" by (metis prod_cases4)
  show ?thesis
    using assms r missing_size_loop_count [of 1 e m maxsize "sn_count - k"
        "(sn_start + int k) mod am_sn_modulus e" "sz + nack_bits e sn_start a b c div 8"]
    by (subst (1 2) missing_size_loop.simps) simp
qed

lemma missing_size_progress:
  assumes "missing_size e m maxsize sz = (sz', n, l)" "0 < am_sn_modulus e"
  shows "l = [] \<or> 0 < n" "length l \<le> length (md_next m)" "0 \<le> n"
proof -
  let ?r = "missing_size_loop e m maxsize (missing_count e m) (md_sn_start m) sz 0"
  have pos: "0 < missing_count e m"
    using assms(2) by (simp add: missing_count_def add_nonneg_pos)
  have n: "n = fst (snd ?r)" and l: "l = (if snd (snd ?r) then [] else md_next m)"
    using assms(1) by (auto simp: missing_size_def split: prod.splits)
  show "0 \<le> n" using missing_size_loop_count n by metis
  show "length l \<le> length (md_next m)" using l by simp
  show "l = [] \<or> 0 < n"
    using missing_size_loop_progress [OF pos, of e m maxsize "md_sn_start m" sz] n l by auto
qed

text \<open>The loop of \<open>status_size\<close>; \<open>Hang\<close> would need an entity without sequence numbers.\<close>

function status_size_loop :: "nr_rlc_entity_am \<Rightarrow> int \<Rightarrow> nr_rlc_pdu list \<Rightarrow> int \<Rightarrow> int \<Rightarrow> int result" where
  "status_size_loop e maxsize [] nack_count sz = Inr sz"
| "status_size_loop e maxsize (cur # rest) nack_count sz =
     (if am_sn_modulus e \<le> 0 \<or> nack_count < 0 then Inl Hang
      else case next_missing e cur rest (nack_count = 0) of
        None \<Rightarrow> Inr sz
      | Some m \<Rightarrow>
          (case missing_size e m maxsize sz of
             (sz', n, nxt) \<Rightarrow> status_size_loop e maxsize nxt (nack_count + n) sz'))"
  by pat_completeness auto
termination
proof (relation "measure (\<lambda>(e, maxsize, l, nack_count, sz). 2 * length l + of_bool (nack_count = 0))",
    goal_cases)
  case (2 e maxsize cur rest nack_count sz m sz' y n nxt)
  then have "missing_size e m maxsize sz = (sz', n, nxt)" by simp
  from missing_size_progress [OF this] next_missing_length [OF 2(2)] 2(1)
  show ?case by (cases "nxt = []") auto
qed simp

definition status_size :: "nr_rlc_entity_am \<Rightarrow> int \<Rightarrow> int result" where
  "status_size e maxsize =
     (if maxsize < 3 then Inr 0 else status_size_loop e maxsize (am_rx_list e) 0 3)"

end
