(* ===== verification/Rlc_Reassembly.thy ===== *)
theory Rlc_Reassembly
  imports Rlc_Entity
begin

text \<open>
  Correctness of reassembly on lists of received PDUs, for the AM and the UM receiver. \<open>D\<close> is the
  SDU the peer sent. When every PDU of a sequence number carries a genuine part of \<open>D\<close>, the test
  for completeness holds exactly when the parts up to the last byte are contiguous, and the
  reassembly loop then copies within bounds and produces \<open>D\<close>.
\<close>

section \<open>Genuine PDUs\<close>

definition part_of :: "byte list \<Rightarrow> nr_rlc_pdu \<Rightarrow> bool" where
  "part_of D p \<longleftrightarrow> 0 \<le> pdu_so p \<and> 0 < pdu_size p \<and> pdu_so p + pdu_size p \<le> int (length D) \<and>
     (pdu_is_first p \<longleftrightarrow> pdu_so p = 0) \<and>
     (pdu_is_last p \<longleftrightarrow> pdu_so p + pdu_size p = int (length D)) \<and>
     (case pdu_data p of None \<Rightarrow> True
      | Some d \<Rightarrow> d = take (nat (pdu_size p)) (drop (nat (pdu_so p)) D))"

definition sdu_bytes :: "nr_rlc_pdu list \<Rightarrow> int \<Rightarrow> int set" where
  "sdu_bytes l sn = {b. \<exists>p \<in> set l. pdu_sn p = sn \<and> pdu_so p \<le> b \<and> b < pdu_so p + pdu_size p}"

lemma sdu_bytes_simps [simp]:
  "sdu_bytes [] sn = {}"
  "sdu_bytes (p # l) sn =
     (if pdu_sn p = sn then {pdu_so p..<pdu_so p + pdu_size p} else {}) \<union> sdu_bytes l sn"
  by (auto simp: sdu_bytes_def)

lemma sdu_bytes_append [simp]: "sdu_bytes (l @ l') sn = sdu_bytes l sn \<union> sdu_bytes l' sn"
  by (auto simp: sdu_bytes_def)

lemma sdu_bytes_set: "set l = set l' \<Longrightarrow> sdu_bytes l sn = sdu_bytes l' sn"
  by (simp add: sdu_bytes_def)

lemma sdu_bytes_empty: "\<forall>p \<in> set l. pdu_sn p \<noteq> sn \<Longrightarrow> sdu_bytes l sn = {}"
  by (auto simp: sdu_bytes_def)

section \<open>Completeness test\<close>

lemma sdu_full_loop_bytes:
  assumes "sdu_full_loop sn lb l" "\<forall>p \<in> set l. pdu_sn p = sn \<longrightarrow> part_of D p" "-1 \<le> lb"
  shows "{lb + 1..<int (length D)} \<subseteq> sdu_bytes l sn"
  using assms
proof (induction sn lb l rule: sdu_full_loop.induct)
  case (1 sn lb)
  then show ?case by simp
next
  case (2 sn lb p l)
  then have p: "pdu_sn p = sn" "pdu_so p \<le> lb + 1" "part_of D p" by (auto split: if_splits)
  show ?case
  proof (cases "pdu_is_last p")
    case True
    with p show ?thesis by (auto simp: part_of_def)
  next
    case False
    let ?nb = "if pdu_so p + pdu_size p - 1 > lb then pdu_so p + pdu_size p - 1 else lb"
    have "sdu_full_loop sn ?nb l" using "2.prems"(1) p False by (simp add: Let_def split: if_splits)
    with 2 p False have "{?nb + 1..<int (length D)} \<subseteq> sdu_bytes l sn"
      by (auto simp: Let_def)
    moreover have "{lb + 1..<int (length D)} \<subseteq>
        {pdu_so p..<pdu_so p + pdu_size p} \<union> {?nb + 1..<int (length D)}"
      using p by (auto split: if_splits)
    ultimately have "{lb + 1..<int (length D)} \<subseteq> {pdu_so p..<pdu_so p + pdu_size p} \<union> sdu_bytes l sn"
      by (rule subset_trans [OF _ Un_mono [OF subset_refl], rotated])
    with p(1) show ?thesis by simp
  qed
qed

text \<open>The test is also complete: contiguous parts of the SDU up to its last byte pass it.\<close>

lemma sdu_full_loop_complete:
  assumes "\<forall>p \<in> set l. pdu_sn p = sn \<and> part_of D p"
    and "sorted_wrt (\<lambda>p q. pdu_so p \<le> pdu_so q) l"
    and "{lb + 1..<int (length D)} \<subseteq> sdu_bytes l sn" "lb + 1 < int (length D)"
  shows "sdu_full_loop sn lb l"
  using assms
proof (induction l arbitrary: lb)
  case Nil
  then show ?case by auto
next
  case (Cons p l)
  then have p: "pdu_sn p = sn" "part_of D p" by auto
  have so: "pdu_so p \<le> lb + 1"
  proof (rule ccontr)
    assume "\<not> ?thesis"
    then have "\<forall>q \<in> set (p # l). lb + 1 < pdu_so q" using Cons.prems(2) by fastforce
    then have "lb + 1 \<notin> sdu_bytes (p # l) sn" by (fastforce simp: sdu_bytes_def)
    with Cons.prems(3,4) show False by auto
  qed
  show ?case
  proof (cases "pdu_is_last p")
    case False
    let ?nb = "if pdu_so p + pdu_size p - 1 > lb then pdu_so p + pdu_size p - 1 else lb"
    have lt: "?nb + 1 < int (length D)" using False p Cons.prems(4) by (auto simp: part_of_def)
    have "{?nb + 1..<int (length D)} \<subseteq> sdu_bytes l sn"
    proof
      fix b assume b: "b \<in> {?nb + 1..<int (length D)}"
      then have "b \<in> {lb + 1..<int (length D)}" by (auto split: if_splits)
      then have "b \<in> sdu_bytes (p # l) sn" using Cons.prems(3) by blast
      moreover have "\<not> b < pdu_so p + pdu_size p" using b by (auto split: if_splits)
      ultimately show "b \<in> sdu_bytes l sn" by (auto split: if_splits)
    qed
    with Cons lt have "sdu_full_loop sn ?nb l" by auto
    with p so False show ?thesis by (simp add: Let_def)
  qed (use p so in simp)
qed

section \<open>Reassembly\<close>

abbreviation processed :: "(nr_rlc_pdu \<Rightarrow> nr_rlc_pdu) \<Rightarrow> int \<Rightarrow> nr_rlc_pdu list \<Rightarrow> nr_rlc_pdu list" where
  "processed release sn l \<equiv>
     map (\<lambda>p. release (p\<lparr>pdu_data := None\<rparr>)) (takeWhile (\<lambda>p. pdu_sn p = sn) l) @
     dropWhile (\<lambda>p. pdu_sn p = sn) l"

lemma reassemble_done:
  assumes "\<forall>p \<in> set l. pdu_sn p = sn \<longrightarrow> part_of D p" "int (length D) \<le> NR_SDU_MAX"
  shows "reassemble_loop release sn l D False =
    Inr (processed release sn l, D, False, sum_list (map pdu_size (takeWhile (\<lambda>p. pdu_sn p = sn) l)))"
  using assms
proof (induction l)
  case Nil
  then show ?case by simp
next
  case (Cons p l)
  then show ?case by (auto simp: Let_def part_of_def add.commute)
qed

lemma reassemble_full:
  assumes "sdu_full_loop sn (int (length sdu) - 1) l" "sdu = take (length sdu) D"
    and "\<forall>p \<in> set l. pdu_sn p = sn \<longrightarrow> part_of D p \<and> pdu_data p \<noteq> None"
    and "int (length D) \<le> NR_SDU_MAX"
  shows "reassemble_loop release sn l sdu False =
    Inr (processed release sn l, D, False, sum_list (map pdu_size (takeWhile (\<lambda>p. pdu_sn p = sn) l)))"
  using assms
proof (induction l arbitrary: sdu)
  case Nil
  then show ?case by simp
next
  case (Cons p l)
  let ?so = "int (length sdu)"
  let ?len = "pdu_size p - (?so - pdu_so p)"
  from Cons.prems(1) have sn: "pdu_sn p = sn" and so: "pdu_so p \<le> ?so"
    by (auto split: if_splits)
  from Cons.prems(3) sn have part: "part_of D p" "pdu_data p \<noteq> None" by auto
  then have fit: "?so + ?len \<le> NR_SDU_MAX" using Cons.prems(4) by (auto simp: part_of_def)
  define sdu' where "sdu' = (if ?len > 0 then take (nat (pdu_so p + pdu_size p)) D else sdu)"
  have le: "length sdu \<le> length D" using arg_cong [OF Cons.prems(2), of length] by simp
  have step: "(if \<not> (False \<or> ?so + ?len > NR_SDU_MAX) \<and> ?len > 0
      then (case pdu_data p of None \<Rightarrow> Inl NullDeref
            | Some d \<Rightarrow> bindR (slice d (?so - pdu_so p) ?len) (\<lambda>chunk. Inr (sdu @ chunk)))
      else Inr sdu) = Inr sdu'"
  proof (cases "?len > 0")
    case True
    have nat_len: "length sdu + nat ?len = nat (pdu_so p + pdu_size p)" using so True by arith
    obtain d where d: "pdu_data p = Some d" using part(2) by blast
    with part have dd: "d = take (nat (pdu_size p)) (drop (nat (pdu_so p)) D)" by (simp add: part_of_def)
    have "slice d (?so - pdu_so p) ?len = Inr (take (nat ?len) (drop (nat (?so - pdu_so p)) d))"
      using so part True by (intro slice_ok) (auto simp: dd part_of_def)
    also have "take (nat ?len) (drop (nat (?so - pdu_so p)) d) =
        take (nat ?len) (drop (length sdu) D)"
      using so part True
      by (simp add: dd part_of_def drop_take take_take nat_diff_distrib nat_add_distrib [symmetric] min_def)
    finally have "bindR (slice d (?so - pdu_so p) ?len) (\<lambda>chunk. Inr (sdu @ chunk)) =
        Inr (take (length sdu) D @ take (nat ?len) (drop (length sdu) D))"
      using Cons.prems(2) by simp
    also have "take (length sdu) D @ take (nat ?len) (drop (length sdu) D) =
        take (nat (pdu_so p + pdu_size p)) D"
      using nat_len by (simp flip: take_add)
    finally show ?thesis using True fit d by (simp add: sdu'_def)
  qed (simp add: sdu'_def)
  have loop: "reassemble_loop release sn (p # l) sdu False =
      bindR (reassemble_loop release sn l sdu' False) (\<lambda>(l', sdu'', bad'', n).
        Inr (release (p\<lparr>pdu_data := None\<rparr>) # l', sdu'', bad'', n + pdu_size p))"
    using sn step fit by (simp add: Let_def del: reassemble_loop.simps(1))
  have rest: "\<forall>p \<in> set l. pdu_sn p = sn \<longrightarrow> part_of D p \<and> pdu_data p \<noteq> None" using Cons.prems(3) by auto
  have len': "length sdu' = nat (max ?so (pdu_so p + pdu_size p))"
    using part le by (auto simp: sdu'_def part_of_def)
  show ?case
  proof (cases "pdu_is_last p")
    case True
    with part le Cons.prems(2) have "sdu' = D"
      by (auto simp: sdu'_def part_of_def split: if_splits)
    with loop sn reassemble_done [of l sn D release] rest Cons.prems(4) show ?thesis by auto
  next
    case False
    have "sdu' = take (length sdu') D"
      using Cons.prems(2) part by (auto simp: sdu'_def part_of_def)
    moreover have "sdu_full_loop sn (int (length sdu') - 1) l"
    proof -
      have "int (length sdu') - 1 =
          (if pdu_so p + pdu_size p - 1 > ?so - 1 then pdu_so p + pdu_size p - 1 else ?so - 1)"
        using len' by auto
      then show ?thesis
        using Cons.prems(1) sn so False by (simp add: Let_def split: if_splits)
    qed
    ultimately show ?thesis
      using Cons.IH [of sdu'] rest Cons.prems(4) loop sn by auto
  qed
qed

section \<open>PDUs of one sequence number are adjacent\<close>

context sn_order
begin

text \<open>Behind the run of a sequence number no further element of that number follows.\<close>

lemma run_contiguous:
  assumes "sorted_wrt (list_before cmp sn so) l" "\<forall>x \<in> set l. valid (sn x)"
    and "y \<in> set (dropWhile (\<lambda>x. sn x = s) (dropWhile (\<lambda>x. sn x \<noteq> s) l))"
  shows "sn y \<noteq> s"
proof -
  let ?r = "dropWhile (\<lambda>x. sn x \<noteq> s) l"
  let ?z = "dropWhile (\<lambda>x. sn x = s) ?r"
  obtain z zs where z: "?z = z # zs" using assms(3) by (cases ?z) auto
  have "?r \<noteq> []" using z by (metis dropWhile.simps(1) list.distinct(1))
  then obtain x xs where x: "?r = x # xs" "sn x = s"
    by (cases ?r) (auto simp: dropWhile_eq_Cons_conv)
  have sorted_r: "sorted_wrt (list_before cmp sn so) ?r"
    using assms(1) by (metis sorted_wrt_append takeWhile_dropWhile_id)
  have sub: "set ?r \<subseteq> set l" "set ?z \<subseteq> set ?r" by (auto dest: set_dropWhileD)
  have zn: "sn z \<noteq> s" using hd_dropWhile [of "\<lambda>x. sn x = s" ?r] z by simp
  have "?z = dropWhile (\<lambda>x. sn x = s) xs" using x by simp
  then have z_in: "z \<in> set xs" using z by (metis list.set_intros(1) set_dropWhileD)
  have vz: "valid (sn z)" "valid s" using assms(2) sub z x z_in by auto
  have "cmp (sn z) s > 0" using sorted_r x z_in zn by (auto simp: list_before_def)
  then have neg: "\<not> cmp s (sn z) > 0" using cmp_flip [OF vz(1,2)] by simp
  have "sorted_wrt (list_before cmp sn so) (z # zs)"
    using sorted_r z by (metis sorted_wrt_append takeWhile_dropWhile_id)
  then show ?thesis using assms(3) z zn neg by (auto simp: list_before_def)
qed

lemma sorted_so_run:
  assumes "sorted_wrt (list_before cmp sn so) l" "\<forall>x \<in> set l. valid (sn x) \<and> sn x = s"
  shows "sorted_wrt (\<lambda>x y. so x \<le> so y) l"
proof (rule sorted_wrt_mono_rel [OF _ assms(1)])
  fix x y assume "x \<in> set l" "y \<in> set l" "list_before cmp sn so x y"
  then show "so x \<le> so y" using assms(2) cmp_zero [of s s] by (auto simp: list_before_def)
qed

end

text \<open>The list around the run of a sequence number.\<close>

definition pdus_of :: "int \<Rightarrow> nr_rlc_pdu list \<Rightarrow> nr_rlc_pdu list" where
  "pdus_of sn l = takeWhile (\<lambda>p. pdu_sn p = sn) (pdus_from sn l)"

lemma pdus_split:
  "l = takeWhile (\<lambda>p. pdu_sn p \<noteq> sn) l @ pdus_of sn l @ dropWhile (\<lambda>p. pdu_sn p = sn) (pdus_from sn l)"
  by (simp add: pdus_of_def pdus_from_def)

lemma pdus_of_sn: "p \<in> set (pdus_of sn l) \<Longrightarrow> pdu_sn p = sn"
  by (auto simp: pdus_of_def dest: set_takeWhileD)

lemma pdus_of_subset: "set (pdus_of sn l) \<subseteq> set (pdus_from sn l)" "set (pdus_from sn l) \<subseteq> set l"
  by (auto simp: pdus_of_def pdus_from_def dest: set_takeWhileD set_dropWhileD)

lemma pdus_from_Cons: "pdus_from sn l = p # r \<Longrightarrow> pdu_sn p = sn"
  by (auto simp: pdus_from_def dropWhile_eq_Cons_conv)

lemma pdus_from_Nil: "pdus_from sn l = [] \<longleftrightarrow> (\<forall>p \<in> set l. pdu_sn p \<noteq> sn)"
  by (simp add: pdus_from_def dropWhile_eq_Nil_conv)

lemma sdu_full_loop_run:
  "sdu_full_loop sn lb (takeWhile (\<lambda>p. pdu_sn p = sn) l) \<longleftrightarrow> sdu_full_loop sn lb l"
  by (induction sn lb l rule: sdu_full_loop.induct) (auto simp: Let_def)

end
