(* ===== verification/Rlc_Am_Rx.thy ===== *)
theory Rlc_Am_Rx
  imports Rlc_Am_Base Rlc_Reassembly
begin

text \<open>
  Reception of data in acknowledged mode (\<open>nr_rlc_entity_am.c\<close>, "PDU RX functions"): duplicate
  detection, reassembly and the reception actions of 38.322 5.2.3.2.3.
\<close>

section \<open>Definitions\<close>

fun segment_received_loop :: "int \<Rightarrow> nr_rlc_pdu list \<Rightarrow> int \<Rightarrow> int \<Rightarrow> bool" where
  "segment_received_loop sn [] so len = (len \<le> 0)"
| "segment_received_loop sn (p # l) so len =
     (if len \<le> 0 then True
      else if pdu_sn p = sn then
        (if pdu_so p \<le> so \<and> so < pdu_so p + pdu_size p then
           let covered = pdu_size p - (so - pdu_so p)
           in segment_received_loop sn l (so + covered) (len - covered)
         else if pdu_so p \<le> so + len - 1 \<and> so + len - 1 < pdu_so p + pdu_size p then
           let covered = len - (pdu_so p - so)
           in segment_received_loop sn l so (len - covered)
         else segment_received_loop sn l so len)
      else segment_received_loop sn l so len)"

definition segment_already_received :: "nr_rlc_entity_am \<Rightarrow> int \<Rightarrow> int \<Rightarrow> int \<Rightarrow> bool" where
  "segment_already_received e sn so len = segment_received_loop sn (am_rx_list e) so len"

definition am_sdu_full :: "nr_rlc_entity_am \<Rightarrow> int \<Rightarrow> bool" where
  "am_sdu_full e sn = rx_sdu_full (am_rx_list e) sn"

definition am_sdu_delivered :: "nr_rlc_entity_am \<Rightarrow> int \<Rightarrow> bool" where
  "am_sdu_delivered e sn = rx_sdu_delivered (am_rx_list e) sn"

definition am_sdu_has_missing_bytes :: "nr_rlc_entity_am \<Rightarrow> int \<Rightarrow> bool" where
  "am_sdu_has_missing_bytes e sn = rx_sdu_has_missing_bytes (am_rx_list e) sn"

text \<open>
  The AM receiver keeps the size of a processed PDU (duplicate detection needs it) and marks it by
  the missing data. No PDU of the sequence number is a NULL pointer dereference.
\<close>

definition am_reassemble_and_deliver :: "nr_rlc_entity_am \<Rightarrow> int \<Rightarrow> nr_rlc_entity_am result" where
  "am_reassemble_and_deliver e sn =
     (case pdus_from sn (am_rx_list e) of
        [] \<Rightarrow> Inl NullDeref
      | p # l \<Rightarrow>
          bindR (reassemble_loop id sn (p # l) [] False) (\<lambda>(l', sdu, bad_sdu, n).
            let e1 = e\<lparr>am_rx_list := takeWhile (\<lambda>p. pdu_sn p \<noteq> sn) (am_rx_list e) @ l',
                       am_rx_size := am_rx_size e - n\<rparr>
            in if bad_sdu then Inr e1
               else Inr (am_upd_common
                 (\<lambda>c. ec_upd_stats (\<lambda>s. s\<lparr>st_txsdu_pkts := st_txsdu_pkts s + 1\<rparr>)
                       (ec_call (DeliverSdu sdu) c)) e1)))"

text \<open>
  \<open>while (sdu_delivered(entity, sn)) sn = (sn + 1) % entity->sn_modulus;\<close> The counter \<open>i\<close> counts the
  numbers already found delivered: once it reaches the modulus every sequence number is delivered
  and the loop of the code would not end.
\<close>

function am_skip_delivered :: "nr_rlc_entity_am \<Rightarrow> int \<Rightarrow> int \<Rightarrow> int result" where
  "am_skip_delivered e sn i =
     (if \<not> am_sdu_delivered e sn then Inr sn
      else if i \<ge> am_sn_modulus e then Inl Hang
      else am_skip_delivered e ((sn + 1) mod am_sn_modulus e) (i + 1))"
  by pat_completeness auto
termination
  by (relation "measure (\<lambda>(e, sn, i). nat (am_sn_modulus e - i))") auto

declare am_skip_delivered.simps [simp del]

text \<open>
  The update of \<open>rx_next\<close>: all segments of each delivered SDU at the head of the list are freed.
\<close>

function am_free_head :: "int \<Rightarrow> int \<Rightarrow> nr_rlc_pdu list \<Rightarrow> int \<times> nr_rlc_pdu list" where
  "am_free_head m rx_next [] = (rx_next, [])"
| "am_free_head m rx_next (p # l) =
     (if pdu_data p = None \<and> pdu_sn p = rx_next
      then am_free_head m ((rx_next + 1) mod m) (dropWhile (\<lambda>q. pdu_sn q = rx_next) l)
      else (rx_next, p # l))"
  by pat_completeness auto
termination
  by (relation "measure (\<lambda>(m, rx_next, l). length l)") (auto simp: le_imp_less_Suc length_dropWhile_le)

text \<open>The two timer decisions at the end of \<open>reception_actions\<close>.\<close>

definition am_stop_reassembly :: "nr_rlc_entity_am \<Rightarrow> bool" where
  "am_stop_reassembly e \<longleftrightarrow>
     am_rx_next_status_trigger e = am_rx_next e \<or>
     am_rx_next_status_trigger e = (am_rx_next e + 1) mod am_sn_modulus e \<and>
       \<not> am_sdu_has_missing_bytes e (am_rx_next e) \<or>
     \<not> am_sn_in_recv_window e (am_rx_next_status_trigger e) \<and>
       am_rx_next_status_trigger e \<noteq> (am_rx_next e + am_window_size e) mod am_sn_modulus e"

definition am_start_reassembly :: "nr_rlc_entity_am \<Rightarrow> bool" where
  "am_start_reassembly e \<longleftrightarrow>
     am_sn_compare_rx e (am_rx_next_highest e) ((am_rx_next e + 1) mod am_sn_modulus e) > 0 \<or>
     am_rx_next_highest e = (am_rx_next e + 1) mod am_sn_modulus e \<and>
       am_sdu_has_missing_bytes e (am_rx_next e)"

definition am_reception_timers :: "nr_rlc_entity_am \<Rightarrow> nr_rlc_entity_am" where
  "am_reception_timers e =
     (let e1 = (if am_t_reassembly_start e \<noteq> 0 \<and> am_stop_reassembly e
                then e\<lparr>am_t_reassembly_start := 0\<rparr> else e)
      in if am_t_reassembly_start e1 = 0 \<and> am_start_reassembly e1
         then e1\<lparr>am_t_reassembly_start := am_t_current e1,
                 am_rx_next_status_trigger := am_rx_next_highest e1\<rparr>
         else e1)"

text \<open>What happens when all the bytes of SDU \<open>x\<close> are there.\<close>

definition am_sdu_complete :: "nr_rlc_entity_am \<Rightarrow> int \<Rightarrow> nr_rlc_entity_am result" where
  "am_sdu_complete e x =
     bindR (am_reassemble_and_deliver e x) (\<lambda>e1.
     bindR (if x = am_rx_highest_status e1
            then bindR (am_skip_delivered e1 (am_rx_highest_status e1) 0)
                   (\<lambda>s. Inr (e1\<lparr>am_rx_highest_status := s\<rparr>))
            else Inr e1) (\<lambda>e2.
     Inr (if x = am_rx_next e2
          then case am_free_head (am_sn_modulus e2) (am_rx_next e2) (am_rx_list e2) of
                 (rx_next, l) \<Rightarrow> e2\<lparr>am_rx_list := l, am_rx_next := rx_next\<rparr>
          else e2)))"

definition am_reception_actions :: "nr_rlc_entity_am \<Rightarrow> nr_rlc_pdu \<Rightarrow> nr_rlc_entity_am result" where
  "am_reception_actions e0 pdu =
     (let x = pdu_sn pdu;
          e = (if am_sn_compare_rx e0 x (am_rx_next_highest e0) \<ge> 0
               then e0\<lparr>am_rx_next_highest := (x + 1) mod am_sn_modulus e0\<rparr> else e0)
      in bindR (if am_sdu_full e x then am_sdu_complete e x else Inr e)
           (\<lambda>e'. Inr (am_reception_timers e')))"

text \<open>The label \<open>discard\<close> of \<open>nr_rlc_entity_am_recv_pdu\<close>; \<open>sz\<close> is the size of the PDU.\<close>

definition am_discard :: "nr_rlc_entity_am \<Rightarrow> int \<Rightarrow> int \<Rightarrow> nr_rlc_entity_am" where
  "am_discard e sz p =
     am_upd_common (ec_upd_stats (\<lambda>s. s\<lparr>st_rxpdu_dd_pkts := st_rxpdu_dd_pkts s + 1,
        st_rxpdu_dd_bytes := st_rxpdu_dd_bytes s + word_of_int sz\<rparr>))
       (if p \<noteq> 0 then e\<lparr>am_status_triggered := True\<rparr> else e)"

text \<open>
  \<open>nr_rlc_entity_am_recv_pdu\<close> behind the header: \<open>data\<close> is what follows it.
\<close>

definition am_recv_segment ::
  "nr_rlc_entity_am \<Rightarrow> int \<Rightarrow> int \<Rightarrow> int \<Rightarrow> int \<Rightarrow> bool \<Rightarrow> bool \<Rightarrow> byte list \<Rightarrow> nr_rlc_entity_am result" where
  "am_recv_segment e sz p sn so is_first is_last data =
     (let data_size = int (length data)
      in if data_size \<le> 0 then Inr (am_discard e sz p)
         else if am_rx_size e + data_size > am_rx_maxsize e then Inr (am_discard e sz p)
         else if \<not> am_sn_in_recv_window e sn then
           Inr (am_discard
             (am_upd_common (ec_upd_stats (\<lambda>s. s\<lparr>st_rxpdu_ow_pkts := st_rxpdu_ow_pkts s + 1,
                st_rxpdu_ow_bytes := st_rxpdu_ow_bytes s + word_of_int sz\<rparr>)) e) sz p)
         else if segment_already_received e sn so data_size then
           Inr (am_discard
             (am_upd_common (ec_upd_stats (\<lambda>s. s\<lparr>st_rxpdu_dup_pkts := st_rxpdu_dup_pkts s + 1,
                st_rxpdu_dup_bytes := st_rxpdu_dup_bytes s + word_of_int sz\<rparr>)) e) sz p)
         else
           let pdu = nr_rlc_new_pdu sn so is_first is_last data;
               e1 = e\<lparr>am_rx_size := am_rx_size e + data_size,
                      am_rx_list := nr_rlc_pdu_list_add (am_sn_compare_rx e) (am_rx_list e) pdu\<rparr>
           in bindR (am_reception_actions e1 pdu) (\<lambda>e2.
                Inr (if p \<noteq> 0 then e2\<lparr>am_status_triggered := True\<rparr> else e2)))"

section \<open>Duplicate detection\<close>

lemma segment_received_sound:
  "segment_received_loop sn l so n \<Longrightarrow> {so..<so + n} \<subseteq> sdu_bytes l sn"
proof (induction sn l so n rule: segment_received_loop.induct)
  case (1 sn so n)
  then show ?case by simp
next
  case (2 sn p l so n)
  show ?case
  proof (cases "n \<le> 0 \<or> pdu_sn p \<noteq> sn")
    case True
    with 2 show ?thesis by (auto split: if_splits)
  next
    case False
    then have c: "0 < n" "pdu_sn p = sn" by auto
    let ?stop = "pdu_so p + pdu_size p"
    consider (start) "pdu_so p \<le> so" "so < ?stop"
      | (tail) "\<not> (pdu_so p \<le> so \<and> so < ?stop)" "pdu_so p \<le> so + n - 1" "so + n - 1 < ?stop"
      | (none) "\<not> (pdu_so p \<le> so \<and> so < ?stop)" "\<not> (pdu_so p \<le> so + n - 1 \<and> so + n - 1 < ?stop)"
      by blast
    then show ?thesis
    proof cases
      case start
      with 2 c have "{?stop..<so + n} \<subseteq> sdu_bytes l sn" by (auto simp: Let_def)
      moreover have "{so..<so + n} \<subseteq> {pdu_so p..<?stop} \<union> {?stop..<so + n}" using start by auto
      ultimately show ?thesis using c by auto
    next
      case tail
      then have "so < pdu_so p" using c by auto
      from tail 2 c have "{so..<pdu_so p} \<subseteq> sdu_bytes l sn" by (auto simp: Let_def)
      moreover have "{so..<so + n} \<subseteq> {pdu_so p..<?stop} \<union> {so..<pdu_so p}" using tail by auto
      ultimately show ?thesis using c by auto
    next
      case none
      with 2 c show ?thesis by auto
    qed
  qed
qed

lemma segment_received_complete:
  assumes "sorted_wrt (\<lambda>p q. pdu_sn p = sn \<and> pdu_sn q = sn \<longrightarrow> pdu_so p \<le> pdu_so q) l"
    and "{so..<so + n} \<subseteq> sdu_bytes l sn"
  shows "segment_received_loop sn l so n"
  using assms
proof (induction l arbitrary: so n)
  case Nil
  then show ?case by (cases "n \<le> 0") auto
next
  case (Cons p l)
  show ?case
  proof (cases "n \<le> 0 \<or> pdu_sn p \<noteq> sn")
    case True
    with Cons show ?thesis by auto
  next
    case False
    then have c: "0 < n" "pdu_sn p = sn" by auto
    let ?stop = "pdu_so p + pdu_size p"
    have cover: "{so..<so + n} \<subseteq> {pdu_so p..<?stop} \<union> sdu_bytes l sn" using Cons.prems(2) c by simp
    have le: "pdu_so p \<le> so"
    proof (rule ccontr)
      assume less: "\<not> ?thesis"
      then have "so \<in> sdu_bytes l sn" using cover c by fastforce
      then obtain q where "q \<in> set l" "pdu_sn q = sn" "pdu_so q \<le> so" by (auto simp: sdu_bytes_def)
      with Cons.prems(1) c less show False by fastforce
    qed
    show ?thesis
    proof (cases "so < ?stop")
      case True
      have "{?stop..<so + n} \<subseteq> sdu_bytes l sn"
      proof
        fix b assume "b \<in> {?stop..<so + n}"
        then have "b \<in> {so..<so + n}" "\<not> b < ?stop" using True by auto
        with cover show "b \<in> sdu_bytes l sn" by auto
      qed
      with Cons.IH [of ?stop "so + n - ?stop"] Cons.prems(1)
      have "segment_received_loop sn l ?stop (so + n - ?stop)" by simp
      moreover have "so + (pdu_size p - (so - pdu_so p)) = ?stop"
        and "n - (pdu_size p - (so - pdu_so p)) = so + n - ?stop" by simp_all
      ultimately show ?thesis using True le c by (simp only: segment_received_loop.simps Let_def) simp
    next
      case end_before: False
      then have "{so..<so + n} \<subseteq> sdu_bytes l sn" using cover by fastforce
      with Cons end_before le c show ?thesis by auto
    qed
  qed
qed

end
