(* ===== verification/Rlc_Am_Ctrl.thy ===== *)
theory Rlc_Am_Ctrl
  imports Rlc_Am_Base
begin

text \<open>
  STATUS PDUs on the transmitting side of acknowledged mode: \<open>process_control_pdu\<close> of
  \<open>nr_rlc_entity_am.c\<close>. The first pass reads and validates the PDU; the second pass walks through
  the wait list and the retransmit list once, in parallel with the NACKs, and the ACK frees what is
  left below it.
\<close>

section \<open>First pass: reading and validating\<close>

text \<open>One NACK as it is read: \<open>nack_sn\<close>, \<open>so_start\<close>, \<open>so_end\<close> (-1 for the end of the SDU), \<open>range\<close>.\<close>

record nack_item =
  ni_nack_sn :: int
  ni_so_start :: int
  ni_so_end :: int
  ni_range :: int

text \<open>The pieces of a NACK, one per sequence number of its range.\<close>

definition nack_pieces :: "int \<Rightarrow> nack_item \<Rightarrow> (int \<times> int \<times> int) list" where
  "nack_pieces m n =
     map (\<lambda>i. ((ni_nack_sn n + i) mod m,
               if i = 0 then ni_so_start n else 0,
               if i = ni_range n - 1 then ni_so_end n else -1)) [0..ni_range n - 1]"

text \<open>
  The header of a STATUS PDU: ACK_SN, E1 and the decoder behind it; \<open>None\<close> is the jump to \<open>err\<close>.
\<close>

definition am_read_status_header ::
  "nr_rlc_entity_am \<Rightarrow> byte list \<Rightarrow> (int \<times> int \<times> nr_rlc_pdu_decoder) option result" where
  "am_read_status_header e buffer =
     bindR (get_fields (nr_rlc_pdu_decoder_init buffer) [1, 3]) (\<lambda>(vs, d).
       if dec_error d then Inr None
       else if vs ! 1 \<noteq> 0 then Inr None
       else bindR (get_fields d [am_sn_field_length e, 1, if am_sn_field_length e = 18 then 1 else 7])
              (\<lambda>(vs', d'). if dec_error d' then Inr None else Inr (Some (vs' ! 0, vs' ! 1, d'))))"

text \<open>One NACK: the item, the E1 bit that follows, and the decoder behind.\<close>

definition am_read_nack ::
  "nr_rlc_entity_am \<Rightarrow> nr_rlc_pdu_decoder \<Rightarrow> (nack_item \<times> int \<times> nr_rlc_pdu_decoder) option result" where
  "am_read_nack e d =
     bindR (get_fields d [am_sn_field_length e, 1, 1, 1, if am_sn_field_length e = 18 then 3 else 1])
       (\<lambda>(vs, d1).
       if dec_error d1 then Inr None
       else bindR (if vs ! 2 \<noteq> 0 then get_fields d1 [16, 16] else Inr ([0, 0xffff], d1)) (\<lambda>(so, d2).
       if dec_error d2 then Inr None
       else bindR (if vs ! 3 \<noteq> 0 then get_fields d2 [8] else Inr ([1], d2)) (\<lambda>(r, d3).
       if dec_error d3 then Inr None
       else Inr (Some (\<lparr>ni_nack_sn = vs ! 0, ni_so_start = so ! 0,
                        ni_so_end = (if so ! 1 = 0xffff then -1 else so ! 1), ni_range = r ! 0\<rparr>,
                       vs ! 1, d3)))))"

text \<open>
  The check of the pieces of one NACK. The previous NACK is \<open>prev\<close> with its end \<open>prev_so_end\<close>; the
  validation loop of the code never changes these two from their initial values -1 and 0.
\<close>

definition am_nack_valid :: "nr_rlc_entity_am \<Rightarrow> int \<Rightarrow> int \<Rightarrow> int \<Rightarrow> int \<times> int \<times> int \<Rightarrow> bool" where
  "am_nack_valid e ack_sn prev prev_so_end piece =
     (case piece of (sn, so_start, so_end) \<Rightarrow>
        \<not> (prev \<noteq> -1 \<and>
            (let cmp = am_sn_compare_tx e sn prev
             in cmp < 0 \<or> cmp = 0 \<and> (prev_so_end = -1 \<or> so_start \<le> prev_so_end))) \<and>
        \<not> am_sn_compare_tx e sn ack_sn > 0)"

text \<open>
  The loop \<open>while (e1)\<close> of the first pass. Each round reads at least two bytes, so the number of
  bytes of the PDU bounds the number of rounds; \<open>Hang\<close> is never the result
  (\<open>am_validate_control_total\<close>).
\<close>

fun am_read_nacks ::
  "nr_rlc_entity_am \<Rightarrow> int \<Rightarrow> nat \<Rightarrow> int \<Rightarrow> nr_rlc_pdu_decoder \<Rightarrow> nack_item list option result" where
  "am_read_nacks e ack_sn fuel e1 d =
     (if e1 = 0 then Inr (Some [])
      else case fuel of
        0 \<Rightarrow> Inl Hang
      | Suc fuel' \<Rightarrow>
          bindR (am_read_nack e d) (\<lambda>r.
            case r of
              None \<Rightarrow> Inr None
            | Some (n, e1', d') \<Rightarrow>
                if \<not> list_all (am_nack_valid e ack_sn (-1) 0) (nack_pieces (am_sn_modulus e) n)
                then Inr None
                else bindR (am_read_nacks e ack_sn fuel' e1' d') (\<lambda>ns.
                       Inr (map_option (Cons n) ns))))"

declare am_read_nacks.simps [simp del]

definition am_validate_control ::
  "nr_rlc_entity_am \<Rightarrow> byte list \<Rightarrow> (int \<times> nack_item list) option result" where
  "am_validate_control e buffer =
     bindR (am_read_status_header e buffer) (\<lambda>r.
       case r of
         None \<Rightarrow> Inr None
       | Some (ack_sn, e1, d) \<Rightarrow>
           if am_sn_compare_tx e ack_sn (am_tx_next e) > 0 then Inr None
           else bindR (am_read_nacks e ack_sn (length buffer) e1 d) (\<lambda>ns.
                  Inr (map_option (Pair ack_sn) ns)))"

section \<open>Second pass: walking through the lists\<close>

text \<open>
  The local variables of the second pass. The wait list is \<open>cs_kept @ cs_cur_wait @ cs_rest_wait\<close>:
  what is behind \<open>prev_wait_list\<close>, what \<open>cur_wait_list\<close> points to, and what stays linked when
  \<open>cur_wait_list\<close> is set to NULL in front of it. \<open>cs_end_wait\<close> is \<open>end_wait_list\<close>: not set, the list
  head (\<open>Some None\<close>) or a segment.
\<close>

record ctrl_state =
  cs_e :: nr_rlc_entity_am
  cs_kept :: "nr_rlc_sdu_segment list"
  cs_cur_wait :: "nr_rlc_sdu_segment list"
  cs_rest_wait :: "nr_rlc_sdu_segment list"
  cs_end_wait :: "nat option option"
  cs_new_retx :: "nr_rlc_sdu_segment list"
  cs_cur_retx :: "nr_rlc_sdu_segment list"

datatype ctrl_jump = NextPdu | DoneNack | ListsOver

fun so_overlap :: "int \<Rightarrow> int \<Rightarrow> int \<Rightarrow> int \<Rightarrow> bool" where
  "so_overlap s1 e1 s2 e2 =
     (if s1 < s2 then e1 = -1 \<or> e1 \<ge> s2 else e2 = -1 \<or> s1 \<le> e2)"

definition end_addr :: "nr_rlc_sdu_segment list \<Rightarrow> nat option" where
  "end_addr l = (if l = [] then None else Some (seg_addr (last l)))"

text \<open>\<open>if (cur_wait_list == entity->wait_end) end_wait_list = prev_wait_list;\<close>\<close>

definition cs_unlink :: "nr_rlc_sdu_segment \<Rightarrow> ctrl_state \<Rightarrow> nat option option" where
  "cs_unlink w st = (if am_wait_end (cs_e st) = Some (seg_addr w) then Some (end_addr (cs_kept st)) else cs_end_wait st)"

text \<open>
  An acknowledged segment: it is freed, and with the last segment of its SDU the SDU leaves the
  transmit buffer and its successful delivery is reported.
\<close>

definition am_free_acked :: "nr_rlc_sdu_segment \<Rightarrow> nr_rlc_entity_am \<Rightarrow> nr_rlc_entity_am result" where
  "am_free_acked s e =
     (let u = sdu_of (am_heap e) s
      in bindR (nr_rlc_free_sdu_segment s (am_heap e)) (\<lambda>(freed, h).
           let e1 = am_set_heap h e
           in Inr (if freed
                   then am_upd_common (\<lambda>c. ec_call (SduSuccessfulDelivery (sdu_upper_layer_id u))
                          (ec_upd_stats (\<lambda>s. s\<lparr>st_txsdu_bytes := st_txsdu_bytes s + word_of_int (sdu_size u)\<rparr>) c))
                          (e1\<lparr>am_tx_size := am_tx_size e1 - sdu_size u\<rparr>)
                   else e1)))"

definition seg_pdu_size :: "nr_rlc_entity_am \<Rightarrow> nr_rlc_sdu_segment \<Rightarrow> int" where
  "seg_pdu_size e s = am_compute_pdu_header_size e s + seg_size s"

text \<open>Label \<open>process_wait_list_head\<close>.\<close>

definition am_wait_head :: "int \<Rightarrow> int \<times> int \<times> int \<Rightarrow> ctrl_state \<Rightarrow> (ctrl_jump \<times> ctrl_state) result" where
  "am_wait_head ack_sn nack st =
     (case nack of (nack_sn, so_start, so_end) \<Rightarrow>
      case cs_cur_wait st of
        [] \<Rightarrow> Inl NullDeref
      | w # ws \<Rightarrow>
          let e = cs_e st; sn = seg_sn (am_heap e) w; cmp = am_sn_compare_tx e sn nack_sn
          in if sn = nack_sn \<and> so_overlap so_start so_end (seg_so w) (seg_so w + seg_size w - 1) then
               bindR (sdu_update (\<lambda>u. u\<lparr>sdu_retx_count := sdu_retx_count u + 1\<rparr>) w (am_heap e)) (\<lambda>h.
                 let e1 = am_set_heap h e; u = sdu_of h w;
                     e2 = (if sdu_retx_count u \<ge> am_max_retx_threshold e * sdu_ref_count u
                           then am_upd_common (ec_call MaxRetxReached) e1 else e1);
                     e3 = am_upd_common (ec_add_retx_size (seg_pdu_size e w)) e2
                 in Inr (NextPdu, st\<lparr>cs_e := e3, cs_cur_wait := ws, cs_end_wait := cs_unlink w st,
                                     cs_new_retx := cs_new_retx st @ [w]\<rparr>))
             else if cmp > 0 \<or> cmp = 0 \<and> seg_so w > so_start then Inr (DoneNack, st)
             else if am_sn_compare_tx e sn ack_sn < 0 then
               bindR (am_free_acked w e) (\<lambda>e1.
                 Inr (NextPdu, st\<lparr>cs_e := e1, cs_cur_wait := ws, cs_end_wait := cs_unlink w st\<rparr>))
             else if am_sn_compare_tx e sn ack_sn > 0 then
               Inr (NextPdu, st\<lparr>cs_cur_wait := [], cs_rest_wait := w # ws\<rparr>)
             else Inr (NextPdu, st\<lparr>cs_kept := cs_kept st @ [w], cs_cur_wait := ws\<rparr>))"

text \<open>
  Label \<open>process_retransmit_list_head\<close>. When the wait list is over, the code links the rest of the
  retransmit list behind \<open>new_retransmit_list\<close> without moving that pointer and sets
  \<open>cur_retransmit_list\<close> to NULL; the assignment \<open>new_retransmit_list->next = cur_retransmit_list\<close> at
  the end of the function then cuts that rest off.
\<close>

definition am_retx_head :: "int \<Rightarrow> int \<times> int \<times> int \<Rightarrow> ctrl_state \<Rightarrow> (ctrl_jump \<times> ctrl_state) result" where
  "am_retx_head ack_sn nack st =
     (case nack of (nack_sn, so_start, so_end) \<Rightarrow>
      case cs_cur_retx st of
        [] \<Rightarrow> Inl NullDeref
      | r # rs \<Rightarrow>
          let e = cs_e st; sn = seg_sn (am_heap e) r; cmp = am_sn_compare_tx e sn nack_sn
          in if sn = nack_sn \<and> so_overlap so_start so_end (seg_so r) (seg_so r + seg_size r - 1) then
               Inr (NextPdu, st\<lparr>cs_new_retx := cs_new_retx st @ [r], cs_cur_retx := rs\<rparr>)
             else if cmp > 0 \<or> cmp = 0 \<and> seg_so r > so_start then Inr (DoneNack, st)
             else if am_sn_compare_tx e sn ack_sn < 0 then
               bindR (am_free_acked r (am_upd_common (ec_add_retx_size (- seg_pdu_size e r)) e)) (\<lambda>e1.
                 Inr (NextPdu, st\<lparr>cs_e := e1, cs_cur_retx := rs\<rparr>))
             else if cs_cur_wait st = [] then Inr (ListsOver, st\<lparr>cs_cur_retx := []\<rparr>)
             else Inr (NextPdu, st\<lparr>cs_new_retx := cs_new_retx st @ [r], cs_cur_retx := rs\<rparr>))"

text \<open>Label \<open>process_next_pdu\<close>: the smaller of the two heads.\<close>

definition am_next_pdu :: "int \<Rightarrow> int \<times> int \<times> int \<Rightarrow> ctrl_state \<Rightarrow> (ctrl_jump \<times> ctrl_state) result" where
  "am_next_pdu ack_sn nack st =
     (case (cs_cur_wait st, cs_cur_retx st) of
        ([], []) \<Rightarrow> Inr (ListsOver, st)
      | ([], r # rs) \<Rightarrow> am_retx_head ack_sn nack st
      | (w # ws, []) \<Rightarrow> am_wait_head ack_sn nack st
      | (w # ws, r # rs) \<Rightarrow>
          let h = am_heap (cs_e st); cmp = am_sn_compare_tx (cs_e st) (seg_sn h w) (seg_sn h r)
          in if cmp < 0 \<or> cmp = 0 \<and> seg_so w < seg_so r
             then am_wait_head ack_sn nack st else am_retx_head ack_sn nack st)"

definition ctrl_left :: "ctrl_state \<Rightarrow> nat" where
  "ctrl_left st = length (cs_cur_wait st) + length (cs_cur_retx st)"

lemma am_next_pdu_decreases:
  "am_next_pdu ack_sn nack st = Inr (NextPdu, st') \<Longrightarrow> ctrl_left st' < ctrl_left st"
  by (auto simp: am_next_pdu_def am_wait_head_def am_retx_head_def ctrl_left_def Let_def result_simps
      split: list.splits prod.splits if_splits)

text \<open>One piece of a NACK; the result tells whether the lists are over.\<close>

function am_process_piece :: "int \<Rightarrow> int \<times> int \<times> int \<Rightarrow> ctrl_state \<Rightarrow> (bool \<times> ctrl_state) result" where
  "am_process_piece ack_sn nack st =
     (case am_next_pdu ack_sn nack st of
        Inl c \<Rightarrow> Inl c
      | Inr (NextPdu, st') \<Rightarrow> am_process_piece ack_sn nack st'
      | Inr (DoneNack, st') \<Rightarrow> Inr (False, st')
      | Inr (ListsOver, st') \<Rightarrow> Inr (True, st'))"
  by pat_completeness auto
termination
  by (relation "measure (\<lambda>(ack_sn, nack, st). ctrl_left st)") (auto intro: am_next_pdu_decreases)

declare am_process_piece.simps [simp del]

fun am_process_pieces :: "int \<Rightarrow> (int \<times> int \<times> int) list \<Rightarrow> ctrl_state \<Rightarrow> ctrl_state result" where
  "am_process_pieces ack_sn [] st = Inr st"
| "am_process_pieces ack_sn (p # ps) st =
     bindR (am_process_piece ack_sn p st) (\<lambda>(over, st').
       if over then Inr st' else am_process_pieces ack_sn ps st')"

text \<open>The loop over the NACKs with the check of \<open>poll_sn\<close> behind each.\<close>

fun am_process_nacks :: "int \<Rightarrow> nack_item list \<Rightarrow> ctrl_state \<Rightarrow> ctrl_state result" where
  "am_process_nacks ack_sn [] st = Inr st"
| "am_process_nacks ack_sn (n # ns) st =
     bindR (am_process_pieces ack_sn (nack_pieces (am_sn_modulus (cs_e st)) n) st) (\<lambda>st1.
       let e = cs_e st1
       in am_process_nacks ack_sn ns
            (if am_sn_compare_tx e (ni_nack_sn n) (am_poll_sn e) \<le> 0 \<and>
                am_sn_compare_tx e (am_poll_sn e) ((ni_nack_sn n + ni_range n) mod am_sn_modulus e) < 0
             then st1\<lparr>cs_e := e\<lparr>am_t_poll_retransmit_start := 0\<rparr>\<rparr> else st1))"

text \<open>The ACK, first on what is left of the wait list, then on what is left of the retransmit list.\<close>

fun am_ack_wait :: "int \<Rightarrow> nr_rlc_sdu_segment list \<Rightarrow> ctrl_state \<Rightarrow> ctrl_state result" where
  "am_ack_wait ack_sn [] st = Inr (st\<lparr>cs_cur_wait := []\<rparr>)"
| "am_ack_wait ack_sn (w # ws) st =
     (if am_sn_compare_tx (cs_e st) (seg_sn (am_heap (cs_e st)) w) ack_sn < 0
      then bindR (am_free_acked w (cs_e st)) (\<lambda>e1.
             am_ack_wait ack_sn ws (st\<lparr>cs_e := e1, cs_end_wait := cs_unlink w st\<rparr>))
      else Inr (st\<lparr>cs_cur_wait := w # ws\<rparr>))"

fun am_ack_retx :: "int \<Rightarrow> nr_rlc_sdu_segment list \<Rightarrow> ctrl_state \<Rightarrow> ctrl_state result" where
  "am_ack_retx ack_sn [] st = Inr (st\<lparr>cs_cur_retx := []\<rparr>)"
| "am_ack_retx ack_sn (r # rs) st =
     (let e = cs_e st
      in if am_sn_compare_tx e (seg_sn (am_heap e) r) ack_sn < 0
         then bindR (am_free_acked r (am_upd_common (ec_add_retx_size (- seg_pdu_size e r)) e)) (\<lambda>e1.
                am_ack_retx ack_sn rs (st\<lparr>cs_e := e1\<rparr>))
         else Inr (st\<lparr>cs_cur_retx := r # rs\<rparr>))"

text \<open>The new lists, their tail, and \<open>tx_next_ack\<close>.\<close>

definition am_control_finish :: "int \<Rightarrow> ctrl_state \<Rightarrow> nr_rlc_entity_am" where
  "am_control_finish ack_sn st =
     (let e = (cs_e st)
            \<lparr>am_wait_list := cs_kept st @ cs_cur_wait st @ cs_rest_wait st,
             am_retransmit_list := cs_new_retx st @ cs_cur_retx st,
             am_wait_end := (case cs_end_wait st of None \<Rightarrow> am_wait_end (cs_e st) | Some p \<Rightarrow> p)\<rparr>;
          lower = (\<lambda>l a. case l of [] \<Rightarrow> a
                   | s # _ \<Rightarrow> if am_sn_compare_tx e (seg_sn (am_heap e) s) a < 0
                              then seg_sn (am_heap e) s else a);
          a1 = lower (am_retransmit_list e) (lower (am_wait_list e) (am_tx_next e));
          a2 = (if am_sn_compare_tx e ack_sn a1 < 0 then ack_sn else a1)
      in e\<lparr>am_tx_next_ack := a2\<rparr>)"

definition am_apply_control :: "nr_rlc_entity_am \<Rightarrow> int \<Rightarrow> nack_item list \<Rightarrow> nr_rlc_entity_am result" where
  "am_apply_control e ack_sn nacks =
     (let e1 = (if am_sn_compare_tx e (am_poll_sn e) ack_sn < 0
                then e\<lparr>am_t_poll_retransmit_start := 0\<rparr> else e);
          st = \<lparr>cs_e = e1, cs_kept = [], cs_cur_wait = am_wait_list e1, cs_rest_wait = [],
                cs_end_wait = None, cs_new_retx = [], cs_cur_retx = am_retransmit_list e1\<rparr>
      in bindR (am_process_nacks ack_sn nacks st) (\<lambda>st1.
         bindR (am_ack_wait ack_sn (cs_cur_wait st1) st1) (\<lambda>st2.
         bindR (am_ack_retx ack_sn (cs_cur_retx st2) st2) (\<lambda>st3.
         Inr (am_control_finish ack_sn st3)))))"

definition process_control_pdu :: "nr_rlc_entity_am \<Rightarrow> byte list \<Rightarrow> nr_rlc_entity_am result" where
  "process_control_pdu e buffer =
     (let e0 = am_upd_common (ec_upd_stats (\<lambda>s. s\<lparr>st_prev_txsdu_bytes := st_txsdu_bytes s\<rparr>)) e
      in bindR (am_validate_control e0 buffer) (\<lambda>r.
           case r of
             None \<Rightarrow> Inr e0
           | Some (ack_sn, nacks) \<Rightarrow> am_apply_control e0 ack_sn nacks))"

end
