(* ===== verification/Rlc_Am_Tx.thy ===== *)
theory Rlc_Am_Tx
  imports Rlc_Am_Status Rlc_Am_Rx Rlc_Am_Ctrl
begin

text \<open>
  The remaining operations of the acknowledged mode entity (\<open>nr_rlc_entity_am.c\<close>): PDU generation
  with segmentation and polling, acceptance of SDUs, the timers, SDU discard, re-establishment, and
  the entry point for received PDUs. \<open>now\<close> stands for \<open>time_average_now()\<close>.
\<close>

section \<open>PDU generation\<close>

definition is_window_stalling :: "nr_rlc_entity_am \<Rightarrow> bool" where
  "is_window_stalling e \<longleftrightarrow>
     \<not> (am_sn_compare_tx e (am_tx_next_ack e) (am_tx_next e) \<le> 0 \<and>
        am_sn_compare_tx e (am_tx_next e)
          ((am_tx_next_ack e + am_window_size e) mod am_sn_modulus e) < 0)"

text \<open>\<open>buffer[0] |= 0x40\<close> and the polling state.\<close>

definition include_poll :: "nr_rlc_entity_am \<Rightarrow> byte list \<Rightarrow> (byte list \<times> nr_rlc_entity_am) result" where
  "include_poll e buffer =
     (case buffer of
        [] \<Rightarrow> Inl OutOfBounds
      | b # bs \<Rightarrow>
          Inr ((b OR 0x40) # bs,
               e\<lparr>am_pdu_without_poll := 0, am_byte_without_poll := 0,
                 am_poll_sn := (am_tx_next e - 1 + am_sn_modulus e) mod am_sn_modulus e,
                 am_t_poll_retransmit_start := am_t_current e\<rparr>))"

definition check_poll_after_pdu_assembly :: "nr_rlc_entity_am \<Rightarrow> bool" where
  "check_poll_after_pdu_assembly e \<longleftrightarrow>
     am_tx_list e = [] \<and> am_retransmit_list e = [] \<or> is_window_stalling e"

text \<open>The header fields of a data PDU with the P bit cleared.\<close>

definition am_header_fields :: "nr_rlc_entity_am \<Rightarrow> nr_rlc_sdu_segment \<Rightarrow> (int \<times> nat) list" where
  "am_header_fields e s =
     [(1, 1), (0, 1), (1 - of_bool (seg_is_first s), 1), (1 - of_bool (seg_is_last s), 1)] @
     (if am_sn_field_length e = 18 then [(0, 2)] else []) @
     [(seg_sn (am_heap e) s, am_sn_field_length e)] @
     (if \<not> seg_is_first s then [(seg_so s, 16)] else [])"

text \<open>\<open>serialize_sdu\<close>: the size of the PDU, the buffer, the entity.\<close>

definition serialize_sdu ::
  "nr_rlc_entity_am \<Rightarrow> nr_rlc_sdu_segment \<Rightarrow> byte list \<Rightarrow> bool \<Rightarrow> (int \<times> byte list \<times> nr_rlc_entity_am) result" where
  "serialize_sdu e s buffer p =
     bindR (put_fields (nr_rlc_pdu_encoder_init buffer) (am_header_fields e s)) (\<lambda>en.
     bindR (slice (sdu_data (sdu_of (am_heap e) s)) (seg_so s) (seg_size s)) (\<lambda>data.
     bindR (blit (enc_buffer en) (enc_byte en) data) (\<lambda>b.
     bindR (if p then include_poll e b else Inr (b, e)) (\<lambda>(b', e').
     Inr (enc_byte en + seg_size s, b', e')))))"

text \<open>
  \<open>resegment\<close>: the first part, which fits into \<open>pdu_sz\<close> bytes, and a new segment with the rest.
\<close>

definition resegment ::
  "nr_rlc_sdu_segment \<Rightarrow> nr_rlc_entity_am \<Rightarrow> int \<Rightarrow>
   (nr_rlc_sdu_segment \<times> nr_rlc_sdu_segment \<times> nr_rlc_entity_am) result" where
  "resegment s e pdu_sz =
     bindR (sdu_update (\<lambda>u. u\<lparr>sdu_ref_count := sdu_ref_count u + 1\<rparr>) s (am_heap e)) (\<lambda>h.
       let over_size = am_compute_pdu_header_size e s + seg_size s - pdu_sz;
           s1 = s\<lparr>seg_size := seg_size s - over_size, seg_is_last := False\<rparr>;
           nxt = s\<lparr>seg_addr := heap_next h, seg_size := over_size, seg_so := seg_so s1 + seg_size s1,
                   seg_is_first := False\<rparr>
       in Inr (s1, nxt, am_set_heap (h\<lparr>heap_next := heap_next h + 1\<rparr>) e))"

text \<open>
  The segment goes to the wait list: at the end if it comes behind the last one, else at its place.
  \<open>wait_end\<close> is dereferenced for the comparison.
\<close>

definition am_put_wait :: "nr_rlc_entity_am \<Rightarrow> nr_rlc_sdu_segment \<Rightarrow> nr_rlc_entity_am result" where
  "am_put_wait e s =
     (let append = bindR (nr_rlc_sdu_segment_list_append (am_wait_list e) (am_wait_end e) s)
            (\<lambda>(l, t). Inr (e\<lparr>am_wait_list := l, am_wait_end := t\<rparr>));
          sn = seg_sn (am_heap e) s
      in case am_wait_end e of
           None \<Rightarrow> append
         | Some a \<Rightarrow>
             (case find (\<lambda>x. seg_addr x = a) (am_wait_list e) of
                None \<Rightarrow> Inl UseAfterFree
              | Some w \<Rightarrow>
                  let cmp = am_sn_compare_tx e sn (seg_sn (am_heap e) w)
                  in if cmp > 0 \<or> cmp = 0 \<and> seg_so s > seg_so w then append
                     else let l = nr_rlc_sdu_segment_list_add (am_heap e) (am_sn_compare_tx e) (am_wait_list e) s
                          in Inr (e\<lparr>am_wait_list := l,
                                    am_wait_end := (if tl l = [] then Some (seg_addr (hd l)) else am_wait_end e)\<rparr>)))"

text \<open>The poll decision at the end, with \<open>force_poll\<close>; \<open>p\<close> is the decision so far.\<close>

definition am_force_poll_check :: "nr_rlc_entity_am \<Rightarrow> bool \<Rightarrow> bool \<times> nr_rlc_entity_am" where
  "am_force_poll_check e p = (if am_force_poll e then (True, e\<lparr>am_force_poll := False\<rparr>) else (p, e))"

definition generate_retx_pdu ::
  "nr_rlc_entity_am \<Rightarrow> byte list \<Rightarrow> (int \<times> byte list \<times> nr_rlc_entity_am) result" where
  "generate_retx_pdu e buffer =
     (let sz = int (length buffer)
      in case am_retransmit_list e of
           [] \<Rightarrow> Inl NullDeref
         | s # rest \<Rightarrow>
             let pdu_header_size = am_compute_pdu_header_size e s; pdu_sz = pdu_header_size + seg_size s
             in if pdu_header_size + 1 > sz then Inr (0, buffer, e)
                else
                  let e1 = am_upd_common (ec_add_retx_size (- pdu_sz)) (e\<lparr>am_retransmit_list := rest\<rparr>)
                  in bindR
                       (if pdu_sz > sz
                        then bindR (resegment s e1 sz) (\<lambda>(s1, nxt, e2).
                               Inr (s1, am_upd_common (\<lambda>c. ec_upd_stats
                                 (\<lambda>st. st\<lparr>st_txpdu_segmented := st_txpdu_segmented st + 1\<rparr>)
                                 (ec_add_retx_size (am_compute_pdu_header_size e2 nxt + seg_size nxt) c))
                                 (e2\<lparr>am_retransmit_list := nxt # rest\<rparr>)))
                        else Inr (s, e1)) (\<lambda>(s', e3).
                     bindR (am_put_wait e3 s') (\<lambda>e4.
                     case am_force_poll_check e4 (check_poll_after_pdu_assembly e4) of (p, e5) \<Rightarrow>
                     bindR (serialize_sdu e5 s' buffer p) (\<lambda>(ret_size, b, e6).
                     Inr (ret_size, b, am_upd_common (ec_upd_stats (\<lambda>st. st
                       \<lparr>st_txpdu_pkts := st_txpdu_pkts st + 1,
                        st_txpdu_bytes := st_txpdu_bytes st + word_of_int ret_size,
                        st_txpdu_retx_pkts := st_txpdu_retx_pkts st + 1,
                        st_txpdu_retx_bytes := st_txpdu_retx_bytes st + word_of_int ret_size\<rparr>)) e6)))))"

text \<open>\<open>if (sdu->sdu->sn == -1)\<close>: the next sequence number for an SDU that has none.\<close>

definition am_assign_sn :: "nr_rlc_entity_am \<Rightarrow> nr_rlc_sdu_segment \<Rightarrow> nr_rlc_entity_am result" where
  "am_assign_sn e s =
     (if seg_sn (am_heap e) s = -1
      then bindR (sdu_update (\<lambda>u. u\<lparr>sdu_sn := am_tx_next e\<rparr>) s (am_heap e)) (\<lambda>h.
             Inr ((am_set_heap h e)\<lparr>am_tx_next := (am_tx_next e + 1) mod am_sn_modulus e\<rparr>))
      else Inr e)"

text \<open>Taking the head of the transmit list, with segmentation.\<close>

definition am_take_tx ::
  "nr_rlc_entity_am \<Rightarrow> nr_rlc_sdu_segment \<Rightarrow> nr_rlc_sdu_segment list \<Rightarrow> int \<Rightarrow>
   (nr_rlc_sdu_segment \<times> nr_rlc_entity_am) result" where
  "am_take_tx e s rest sz =
     (let pdu_sz = am_compute_pdu_header_size e s + seg_size s;
          e1 = am_upd_common (ec_add_tx_size (- pdu_sz))
                 (e\<lparr>am_tx_list := rest, am_tx_end := (if rest = [] then None else am_tx_end e)\<rparr>)
      in bindR (am_assign_sn e1 s) (\<lambda>e2.
         if pdu_sz > sz
         then bindR (resegment s e2 sz) (\<lambda>(s1, nxt, e3).
                Inr (s1, am_upd_common (\<lambda>c. ec_add_tx_size (am_compute_pdu_header_size e3 nxt + seg_size nxt)
                    (ec_upd_stats (\<lambda>st. st\<lparr>st_txpdu_segmented := st_txpdu_segmented st + 1\<rparr>) c))
                  (e3\<lparr>am_tx_list := nxt # rest,
                      am_tx_end := (if am_tx_end e3 = None then Some (seg_addr nxt) else am_tx_end e3)\<rparr>)))
         else Inr (s, e2)))"

definition generate_tx_pdu ::
  "u64 \<Rightarrow> nr_rlc_entity_am \<Rightarrow> byte list \<Rightarrow> (int \<times> byte list \<times> nr_rlc_entity_am) result" where
  "generate_tx_pdu now e buffer =
     (let sz = int (length buffer)
      in if is_window_stalling e then Inr (0, buffer, e)
         else case am_tx_list e of
           [] \<Rightarrow> Inr (0, buffer, e)
         | s # rest \<Rightarrow>
             if am_compute_pdu_header_size e s + 1 > sz then Inr (0, buffer, e)
             else
               bindR (am_take_tx e s rest sz) (\<lambda>(s', e1).
               bindR (am_put_wait e1 s') (\<lambda>e2.
               let e3 = e2\<lparr>am_pdu_without_poll := am_pdu_without_poll e2 + 1,
                           am_byte_without_poll := am_byte_without_poll e2 + seg_size s'\<rparr>;
                   p0 = (am_poll_pdu e3 \<noteq> -1 \<and> am_pdu_without_poll e3 \<ge> am_poll_pdu e3 \<or>
                         am_poll_byte e3 \<noteq> -1 \<and> am_byte_without_poll e3 \<ge> am_poll_byte e3 \<or>
                         check_poll_after_pdu_assembly e3)
               in case am_force_poll_check e3 p0 of (p, e4) \<Rightarrow>
               bindR (serialize_sdu e4 s' buffer p) (\<lambda>(ret_size, b, e5).
               Inr (ret_size, b, am_upd_common
                 (\<lambda>c. ec_waited now (sdu_time_of_arrival (sdu_of (am_heap e5) s'))
                   (ec_upd_stats (\<lambda>st. st\<lparr>st_txpdu_pkts := st_txpdu_pkts st + 1,
                      st_txpdu_bytes := st_txpdu_bytes st + word_of_int ret_size\<rparr>) c)) e5)))))"

text \<open>The two byte counters are \<open>int\<close> in the result and 64 bits wide in the statistics.\<close>

definition nr_rlc_entity_am_buffer_status ::
  "nr_rlc_entity_am \<Rightarrow> int \<Rightarrow> nr_rlc_entity_buffer_status result" where
  "nr_rlc_entity_am_buffer_status e maxsize =
     bindR (if status_to_report e then status_size e maxsize else Inr 0) (\<lambda>n.
       let st = ec_stats (am_common e)
       in Inr \<lparr>bs_status_size = n, bs_tx_size = bs_tx_size (ec_bstatus (am_common e)),
               bs_retx_size = bs_retx_size (ec_bstatus (am_common e)),
               bs_tx_bytes = sint (ucast (st_txsdu_bytes st - st_prev_txsdu_bytes st) :: u32),
               bs_total_tx_bytes = sint (ucast (st_txsdu_bytes st) :: u32)\<rparr>)"

text \<open>The number of bytes of the PDU (0 for none), the buffer and the entity.\<close>

definition nr_rlc_entity_am_generate_pdu ::
  "u64 \<Rightarrow> nr_rlc_entity_am \<Rightarrow> byte list \<Rightarrow> (int \<times> byte list \<times> nr_rlc_entity_am) result" where
  "nr_rlc_entity_am_generate_pdu now e buffer =
     bindR (if status_to_report e then generate_status e buffer else Inr (0, buffer, e)) (\<lambda>(n, b, e1).
       if n \<noteq> 0 then Inr (n, b, e1)
       else bindR (if am_retransmit_list e1 \<noteq> [] then generate_retx_pdu e1 b else Inr (0, b, e1))
              (\<lambda>(n', b', e2). if n' \<noteq> 0 then Inr (n', b', e2) else generate_tx_pdu now e2 b'))"

section \<open>SDUs from the upper layer\<close>

definition nr_rlc_entity_am_recv_sdu ::
  "u64 \<Rightarrow> nr_rlc_entity_am \<Rightarrow> byte list \<Rightarrow> int \<Rightarrow> nr_rlc_entity_am result" where
  "nr_rlc_entity_am_recv_sdu now e buffer sdu_id =
     (let sz = int (length buffer);
          e0 = am_upd_common (ec_upd_stats (\<lambda>st. st\<lparr>st_rxsdu_pkts := st_rxsdu_pkts st + 1\<rparr>)) e
      in if sz > NR_SDU_MAX then Inl Exit
         else
           let e1 = (if am_sdu_rejected e0 \<noteq> 0 \<and> am_t_current e0 > am_t_log_buffer_full e0 + 1000
                     then e0\<lparr>am_sdu_rejected := 0, am_t_log_buffer_full := am_t_current e0\<rparr> else e0)
           in if am_tx_size e1 + sz > am_tx_maxsize e1
              then Inr (e1\<lparr>am_sdu_rejected := am_sdu_rejected e1 + 1\<rparr>)
              else
                case nr_rlc_new_sdu buffer sdu_id (am_heap e1) of (s, h) \<Rightarrow>
                let e2 = am_set_heap h (am_upd_common (ec_upd_stats (\<lambda>st. st
                           \<lparr>st_rxsdu_bytes := st_rxsdu_bytes st + word_of_int sz\<rparr>))
                           (e1\<lparr>am_tx_size := am_tx_size e1 + sz\<rparr>))
                in bindR (nr_rlc_sdu_segment_list_append (am_tx_list e2) (am_tx_end e2) s) (\<lambda>(l, t).
                   let e3 = am_upd_common (ec_add_tx_size (am_compute_pdu_header_size e2 s + seg_size s))
                              (e2\<lparr>am_tx_list := l, am_tx_end := t\<rparr>)
                   in if ec_avg_time_is_on (am_common e3)
                      then bindR (sdu_update (\<lambda>u. u\<lparr>sdu_time_of_arrival := now\<rparr>) s (am_heap e3)) (\<lambda>h'.
                             Inr (am_set_heap h' e3))
                      else Inr e3))"

section \<open>Timers\<close>

text \<open>
  The \<open>do ... while\<close> loop that moves the segments of one sequence number from the head of the wait
  list to the retransmit list.
\<close>

fun am_move_to_retx :: "int \<Rightarrow> nr_rlc_sdu_segment list \<Rightarrow> nr_rlc_entity_am \<Rightarrow> nr_rlc_entity_am" where
  "am_move_to_retx sn [] e = e"
| "am_move_to_retx sn (cur # rest) e =
     (let e1 = am_upd_common (ec_add_retx_size (am_compute_pdu_header_size e cur + seg_size cur))
                 (e\<lparr>am_wait_list := rest, am_wait_end := (if rest = [] then None else am_wait_end e),
                    am_retransmit_list :=
                      nr_rlc_sdu_segment_list_add (am_heap e) (am_sn_compare_tx e) (am_retransmit_list e) cur\<rparr>)
      in case rest of
           [] \<Rightarrow> e1
         | n # _ \<Rightarrow> if seg_sn (am_heap e1) n = sn then am_move_to_retx sn rest e1 else e1)"

definition check_t_poll_retransmit :: "nr_rlc_entity_am \<Rightarrow> nr_rlc_entity_am result" where
  "check_t_poll_retransmit e =
     (if am_t_poll_retransmit_start e = 0 \<or>
         am_t_current e \<le> am_t_poll_retransmit_start e + word_of_int (am_t_poll_retransmit e)
      then Inr e
      else
        let e1 = e\<lparr>am_t_poll_retransmit_start := 0, am_force_poll := True\<rparr>
        in if \<not> check_poll_after_pdu_assembly e1 then Inr e1
           else case am_wait_list e1 of
             [] \<Rightarrow> Inl NullDeref
           | cur # _ \<Rightarrow>
               bindR (sdu_update (\<lambda>u. u\<lparr>sdu_retx_count := sdu_retx_count u + 1\<rparr>) cur (am_heap e1)) (\<lambda>h.
                 let u = sdu_of h cur;
                     e2 = am_move_to_retx (sdu_sn u) (am_wait_list e1) (am_set_heap h e1)
                 in Inr (if sdu_retx_count u \<ge> am_max_retx_threshold e2
                         then am_upd_common (ec_call MaxRetxReached) e2 else e2)))"

definition am_check_t_reassembly :: "nr_rlc_entity_am \<Rightarrow> nr_rlc_entity_am result" where
  "am_check_t_reassembly e =
     (if am_t_reassembly_start e = 0 \<or>
         am_t_current e \<le> am_t_reassembly_start e + word_of_int (am_t_reassembly e)
      then Inr e
      else
        let e1 = e\<lparr>am_t_reassembly_start := 0\<rparr>
        in bindR (am_skip_delivered e1 (am_rx_next_status_trigger e1) 0) (\<lambda>sn.
           let e2 = e1\<lparr>am_rx_highest_status := sn, am_status_triggered := True\<rparr>;
               nxt = (am_rx_highest_status e2 + 1) mod am_sn_modulus e2
           in Inr (if am_sn_compare_rx e2 (am_rx_next_highest e2) nxt > 0 \<or>
                      am_rx_next_highest e2 = nxt \<and> am_sdu_has_missing_bytes e2 (am_rx_highest_status e2)
                   then e2\<lparr>am_t_reassembly_start := am_t_current e2,
                           am_rx_next_status_trigger := am_rx_next_highest e2\<rparr>
                   else e2)))"

definition nr_rlc_entity_am_set_time :: "nr_rlc_entity_am \<Rightarrow> u64 \<Rightarrow> nr_rlc_entity_am result" where
  "nr_rlc_entity_am_set_time e now =
     bindR (check_t_poll_retransmit (e\<lparr>am_t_current := now\<rparr>)) am_check_t_reassembly"

section \<open>Discard, re-establishment, release\<close>

definition nr_rlc_entity_am_discard_sdu :: "nr_rlc_entity_am \<Rightarrow> int \<Rightarrow> nr_rlc_entity_am result" where
  "nr_rlc_entity_am_discard_sdu e sdu_id =
     (let other = (\<lambda>s. sdu_upper_layer_id (sdu_of (am_heap e) s) \<noteq> sdu_id);
          before = takeWhile other (am_tx_list e)
      in case dropWhile other (am_tx_list e) of
           [] \<Rightarrow> Inr e
         | cur # rest \<Rightarrow>
             if \<not> seg_is_first cur \<or> \<not> seg_is_last cur then Inr e
             else
               let e1 = e\<lparr>am_tx_list := before @ rest,
                          am_tx_end := (if am_tx_end e = Some (seg_addr cur)
                                        then (if before = [] then None else Some (seg_addr (last before)))
                                        else am_tx_end e)\<rparr>;
                   e2 = am_upd_common (ec_add_tx_size (- (am_compute_pdu_header_size e1 cur + seg_size cur))) e1;
                   e3 = e2\<lparr>am_tx_size := am_tx_size e2 - sdu_size (sdu_of (am_heap e2) cur)\<rparr>
               in bindR (nr_rlc_free_sdu_segment cur (am_heap e3)) (\<lambda>(freed, h). Inr (am_set_heap h e3)))"

definition am_clear_entity :: "nr_rlc_entity_am \<Rightarrow> nr_rlc_entity_am result" where
  "am_clear_entity e =
     (let e1 = e\<lparr>am_rx_next := 0, am_rx_next_status_trigger := 0, am_rx_highest_status := 0,
                 am_rx_next_highest := 0, am_status_triggered := False, am_tx_next := 0,
                 am_tx_next_ack := 0, am_poll_sn := 0, am_pdu_without_poll := 0,
                 am_byte_without_poll := 0, am_force_poll := False, am_t_current := 0,
                 am_t_log_buffer_full := 0, am_sdu_rejected := 0, am_t_poll_retransmit_start := 0,
                 am_t_reassembly_start := 0, am_t_status_prohibit_start := 0,
                 am_rx_list := [], am_rx_size := 0\<rparr>
      in bindR (nr_rlc_free_sdu_segment_list (am_tx_list e1) (am_heap e1)) (\<lambda>h1.
         bindR (nr_rlc_free_sdu_segment_list (am_wait_list e1) h1) (\<lambda>h2.
         bindR (nr_rlc_free_sdu_segment_list (am_retransmit_list e1) h2) (\<lambda>h3.
         Inr (am_upd_common (\<lambda>c. c\<lparr>ec_heap := h3,
                 ec_bstatus := (ec_bstatus c)\<lparr>bs_tx_size := 0, bs_retx_size := 0\<rparr>\<rparr>)
               (e1\<lparr>am_tx_list := [], am_tx_end := None, am_tx_size := 0, am_wait_list := [],
                   am_wait_end := None, am_retransmit_list := []\<rparr>))))))"

definition nr_rlc_entity_am_reestablishment :: "nr_rlc_entity_am \<Rightarrow> nr_rlc_entity_am result" where
  "nr_rlc_entity_am_reestablishment e = am_clear_entity e"

text \<open>What is left of the SDUs when the entity itself is freed: the heap.\<close>

definition nr_rlc_entity_am_delete :: "nr_rlc_entity_am \<Rightarrow> rlc_heap result" where
  "nr_rlc_entity_am_delete e = bindR (am_clear_entity e) (\<lambda>e1. Inr (am_heap e1))"

definition nr_rlc_entity_am_available_tx_space :: "nr_rlc_entity_am \<Rightarrow> int" where
  "nr_rlc_entity_am_available_tx_space e = am_tx_maxsize e - am_tx_size e"

section \<open>Received PDUs\<close>

text \<open>
  The header of a data PDU behind the D/C bit: P, is_first, is_last, SN, SO and the decoder.
  \<open>Inl p\<close> is a discard (decoding error or bad SO) with the value of P so far.
\<close>

definition am_read_data_header ::
  "nr_rlc_entity_am \<Rightarrow> nr_rlc_pdu_decoder \<Rightarrow>
   (int + int \<times> bool \<times> bool \<times> int \<times> int \<times> nr_rlc_pdu_decoder) result" where
  "am_read_data_header e d =
     bindR (nr_rlc_pdu_decoder_get_bits d 1) (\<lambda>(p, d1).
     if dec_error d1 then Inr (Inl p)
     else bindR (nr_rlc_pdu_decoder_get_bits d1 2) (\<lambda>(si, d2).
     if dec_error d2 then Inr (Inl p)
     else
       let is_first = (si AND 2 = 0); is_last = (si AND 1 = 0)
       in bindR (get_fields d2 ((if am_sn_field_length e = 18 then [2] else []) @ [am_sn_field_length e]))
            (\<lambda>(vs, d3).
          if dec_error d3 then Inr (Inl p)
          else if is_first then Inr (Inr (p, is_first, is_last, last vs, 0, d3))
          else bindR (nr_rlc_pdu_decoder_get_bits d3 16) (\<lambda>(so, d4).
            if dec_error d4 then Inr (Inl p)
            else if so = 0 then Inr (Inl p)
            else Inr (Inr (p, is_first, is_last, last vs, so, d4))))))"

definition nr_rlc_entity_am_recv_pdu :: "nr_rlc_entity_am \<Rightarrow> byte list \<Rightarrow> nr_rlc_entity_am result" where
  "nr_rlc_entity_am_recv_pdu e0 buffer =
     (let sz = int (length buffer);
          e = am_upd_common (ec_upd_stats (\<lambda>s. s\<lparr>st_rxpdu_pkts := st_rxpdu_pkts s + 1,
                st_rxpdu_bytes := st_rxpdu_bytes s + word_of_int sz\<rparr>)) e0
      in bindR (nr_rlc_pdu_decoder_get_bits (nr_rlc_pdu_decoder_init buffer) 1) (\<lambda>(dc, d).
         if dec_error d then Inr (am_discard e sz 0)
         else if dc = 0 then process_control_pdu e buffer
         else bindR (am_read_data_header e d) (\<lambda>r.
           case r of
             Inl p \<Rightarrow> Inr (am_discard e sz p)
           | Inr (p, is_first, is_last, sn, so, d') \<Rightarrow>
               am_recv_segment e sz p sn so is_first is_last (drop (nat (dec_byte d')) buffer))))"

end
