(* ===== verification/Rlc_Segments.thy ===== *)
theory Rlc_Segments
  imports Rlc_Sdu
begin

text \<open>
  Sound sets of segments, for the transmit side of the AM and the UM entity. The segments that an
  entity holds in its lists are sound when the heap covers them, no two have the same address and
  each lies inside the data of its SDU. Freeing, updating and splitting segments keep this, and
  leave what the remaining segments read of their SDUs as it was.
\<close>

definition seg_ok :: "rlc_heap \<Rightarrow> nr_rlc_sdu_segment \<Rightarrow> bool" where
  "seg_ok h s \<longleftrightarrow> 0 \<le> seg_so s \<and> 0 \<le> seg_size s \<and>
     seg_so s + seg_size s \<le> int (length (sdu_data (sdu_of h s)))"

definition segs_ok :: "rlc_heap \<Rightarrow> nr_rlc_sdu_segment list \<Rightarrow> bool" where
  "segs_ok h l \<longleftrightarrow> heap_ok h l \<and> distinct (map seg_addr l) \<and> (\<forall>s \<in> set l. seg_ok h s)"

text \<open>What stays of an SDU while segments are freed or its counters change.\<close>

definition same_sdu :: "nr_rlc_sdu \<Rightarrow> nr_rlc_sdu \<Rightarrow> bool" where
  "same_sdu u u' \<longleftrightarrow> sdu_sn u' = sdu_sn u \<and> sdu_data u' = sdu_data u \<and> sdu_size u' = sdu_size u \<and>
     sdu_upper_layer_id u' = sdu_upper_layer_id u"

definition same_sdus :: "rlc_heap \<Rightarrow> rlc_heap \<Rightarrow> nr_rlc_sdu_segment list \<Rightarrow> bool" where
  "same_sdus h h' l \<longleftrightarrow> (\<forall>s \<in> set l. same_sdu (sdu_of h s) (sdu_of h' s))"

lemma same_sdu_refl [simp]: "same_sdu u u"
  by (simp add: same_sdu_def)

lemma same_sdus_refl [simp]: "same_sdus h h l"
  by (simp add: same_sdus_def)

lemma same_sdus_trans:
  "same_sdus h h1 l \<Longrightarrow> same_sdus h1 h2 l' \<Longrightarrow> set l' \<subseteq> set l \<Longrightarrow> same_sdus h h2 l'"
  by (auto simp: same_sdus_def same_sdu_def)

lemma same_sdus_sn: "same_sdus h h' l \<Longrightarrow> s \<in> set l \<Longrightarrow> seg_sn h' s = seg_sn h s"
  by (auto simp: same_sdus_def same_sdu_def seg_sn_def)

lemma same_sdus_seg_ok: "same_sdus h h' l \<Longrightarrow> s \<in> set l \<Longrightarrow> seg_ok h' s = seg_ok h s"
  by (auto simp: same_sdus_def same_sdu_def seg_ok_def)

lemma segs_ok_perm: "segs_ok h l \<Longrightarrow> mset l = mset l' \<Longrightarrow> segs_ok h l'"
  unfolding segs_ok_def
  by (metis heap_ok_perm mset_eq_setD mset_eq_imp_distinct_iff mset_map)

lemma segs_ok_heap: "segs_ok h l \<Longrightarrow> heap_ok h l"
  by (simp add: segs_ok_def)

text \<open>Losing segments keeps the others sound.\<close>

lemma refs_append_le: "refs l' p \<le> refs (l @ l') p" "refs l p \<le> refs (l @ l') p"
  by simp_all

lemma segs_ok_drop: "segs_ok h (l @ l') \<Longrightarrow> segs_ok h l'"
  unfolding segs_ok_def by (auto intro: heap_ok_sub)

lemma segs_ok_tl: "segs_ok h (s # l) \<Longrightarrow> segs_ok h l"
  using segs_ok_drop [of h "[s]" l] by simp

lemma segs_ok_free:
  assumes "segs_ok h (s # l)"
  shows "\<exists>b h'. nr_rlc_free_sdu_segment s h = Inr (b, h') \<and> segs_ok h' l \<and> same_sdus h h' l \<and>
    heap_next h' = heap_next h"
proof -
  obtain b h' where f: "nr_rlc_free_sdu_segment s h = Inr (b, h')" "heap_ok h' l" "heap_next h' = heap_next h"
    using free_sdu_segment_ok [OF segs_ok_heap [OF assms]] by blast
  have "same_sdu (sdu_of h x) (sdu_of h' x)" if "x \<in> set l" for x
    using f(1) heap_ok_live [OF f(2) that]
    by (auto simp: nr_rlc_free_sdu_segment_def Let_def sdu_of_def same_sdu_def split: option.splits if_splits)
  then have same: "same_sdus h h' l" by (simp add: same_sdus_def)
  with f(2) assms same_sdus_seg_ok [OF same] have "segs_ok h' l" by (auto simp: segs_ok_def)
  with f same show ?thesis by blast
qed

lemma segs_ok_update:
  assumes "segs_ok h l" "s \<in> set l"
    and "\<And>u. sdu_ref_count (f u) = sdu_ref_count u" "\<And>u. sdu_free_count (f u) = sdu_free_count u"
    and "\<And>u. same_sdu u (f u)"
  shows "\<exists>h'. sdu_update f s h = Inr h' \<and> segs_ok h' l \<and> same_sdus h h' l \<and> heap_next h' = heap_next h"
proof -
  obtain h' where h': "sdu_update f s h = Inr h'" "heap_ok h' l" "heap_next h' = heap_next h"
    using sdu_update_ok [OF segs_ok_heap [OF assms(1)] assms(2), of f] assms(3,4) by blast
  then have same: "same_sdus h h' l" using assms(5)
    by (auto simp: sdu_update_def same_sdus_def sdu_of_def split: option.splits if_split_asm)
  with h'(2) assms(1) same_sdus_seg_ok [OF same] have "segs_ok h' l" by (auto simp: segs_ok_def)
  with h' same show ?thesis by blast
qed

text \<open>A new SDU with its one segment.\<close>

lemma segs_ok_new:
  assumes "segs_ok h l" "nr_rlc_new_sdu buffer i h = (s, h')"
  shows "segs_ok h' (s # l)" "same_sdus h h' l" "seg_sn h' s = -1"
proof -
  have "seg_sdu x \<noteq> heap_next h" if "x \<in> set l" for x
    using heap_ok_live [OF segs_ok_heap [OF assms(1)] that] heap_ok_fresh [OF segs_ok_heap [OF assms(1)]] by auto
  then have same: "same_sdus h h' l"
    using assms(2) by (auto simp: nr_rlc_new_sdu_def Let_def same_sdus_def sdu_of_def)
  then show "same_sdus h h' l" .
  show "seg_sn h' s = -1"
    using assms(2) by (auto simp: nr_rlc_new_sdu_def Let_def seg_sn_def sdu_of_def)
  have "seg_ok h' s" using assms(2) by (auto simp: nr_rlc_new_sdu_def Let_def seg_ok_def sdu_of_def)
  then show "segs_ok h' (s # l)"
    using assms new_sdu_ok [OF segs_ok_heap [OF assms(1)] assms(2)] same_sdus_seg_ok [OF same]
    by (auto simp: segs_ok_def)
qed

text \<open>
  Splitting a segment: one more reference, a new address, and the two parts lie inside the old one.
\<close>

lemma segs_ok_split:
  assumes "segs_ok h (s # l)" "sdu_update (\<lambda>u. u\<lparr>sdu_ref_count := sdu_ref_count u + 1\<rparr>) s h = Inr h1"
    and "seg_addr s1 = seg_addr s" "seg_sdu s1 = seg_sdu s" "seg_addr s2 = heap_next h1" "seg_sdu s2 = seg_sdu s"
    and "seg_so s1 = seg_so s" "seg_so s2 = seg_so s + seg_size s1" "seg_size s1 + seg_size s2 = seg_size s"
    and "0 \<le> seg_size s1" "0 \<le> seg_size s2"
  shows "segs_ok (h1\<lparr>heap_next := heap_next h1 + 1\<rparr>) (s1 # s2 # l) \<and>
    same_sdus h (h1\<lparr>heap_next := heap_next h1 + 1\<rparr>) (s # l)"
proof -
  let ?h = "h1\<lparr>heap_next := heap_next h1 + 1\<rparr>"
  have ok: "heap_ok h (s # l)" using assms(1) by (simp add: segs_ok_def)
  obtain u where u: "heap_sdu h (seg_sdu s) = Some u"
      "h1 = h\<lparr>heap_sdu := (heap_sdu h)(seg_sdu s \<mapsto> u\<lparr>sdu_ref_count := sdu_ref_count u + 1\<rparr>)\<rparr>"
    using assms(2) by (auto simp: sdu_update_def split: option.splits)
  have cell: "cell_ok (heap_sdu h p) (refs (s # l) p)" for p using heap_ok_cell [OF ok] .
  have "cell_ok (heap_sdu ?h p) (refs (s1 # s2 # l) p)" for p
    using cell [of p] u assms(4,6) by (cases "p = seg_sdu s") auto
  moreover have "heap_sdu ?h p = None" if "heap_next ?h \<le> p" for p
    using that ok u by (auto simp: heap_ok_def)
  moreover have "\<forall>x \<in> set (s1 # s2 # l). seg_addr x < heap_next ?h"
    using ok u assms(3,5) by (auto simp: heap_ok_def)
  ultimately have "heap_ok ?h (s1 # s2 # l)" by (simp add: heap_ok_def)
  moreover have "distinct (map seg_addr (s1 # s2 # l))"
    using assms(1,3,5) u ok by (auto simp: segs_ok_def heap_ok_def)
  moreover have "\<forall>x \<in> set (s1 # s2 # l). seg_ok ?h x"
  proof -
    have data: "sdu_data (sdu_of ?h x) = sdu_data (sdu_of h x)" for x
      using u by (simp add: sdu_of_def)
    have "sdu_of h s1 = sdu_of h s" "sdu_of h s2 = sdu_of h s" using assms(4,6) by (simp_all add: sdu_of_def)
    moreover have "seg_ok h s" using assms(1) by (simp add: segs_ok_def)
    ultimately have "seg_ok ?h s1" "seg_ok ?h s2"
      using assms(7,8,9,10,11) unfolding seg_ok_def data by simp_all
    moreover have "\<forall>x \<in> set l. seg_ok ?h x" using assms(1) unfolding segs_ok_def seg_ok_def data by simp
    ultimately show ?thesis by simp
  qed
  moreover have "same_sdus h ?h (s # l)" using u by (simp add: same_sdus_def sdu_of_def same_sdu_def)
  ultimately show ?thesis by (simp add: segs_ok_def)
qed

section \<open>Tails\<close>

lemma tail_ok_drop_last:
  "tail_ok l t \<Longrightarrow> tail_ok (l @ [s]) t' \<Longrightarrow> t' = Some (seg_addr s)"
  by (simp add: tail_ok_def)

lemma tail_ok_unlink:
  assumes "tail_ok (a @ s # b) t"
  shows "tail_ok (a @ b) (if t = Some (seg_addr s) then (if a = [] then None else Some (seg_addr (last a))) else t)"
    and "t = Some (seg_addr s) \<longleftrightarrow> b = []"
proof -
  have "seg_addr (last b) \<noteq> seg_addr s" if "b \<noteq> []"
    using assms imageI [OF last_in_set [OF that], of seg_addr] by (auto simp: tail_ok_def)
  then show iff: "t = Some (seg_addr s) \<longleftrightarrow> b = []"
    using assms by (auto simp: tail_ok_def)
  with assms show "tail_ok (a @ b) (if t = Some (seg_addr s) then (if a = [] then None else Some (seg_addr (last a))) else t)"
    by (auto simp: tail_ok_def)
qed

lemma tail_ok_insert:
  assumes "tail_ok l t" "l \<noteq> []" "seg_addr s \<notin> seg_addr ` set l" "l = a @ b" "b \<noteq> []"
  shows "tail_ok (a @ s # b) t"
  using assms by (auto simp: tail_ok_def)

end
