(* ===== verification/Rlc_Am_Ctrl_Proofs.thy ===== *)
theory Rlc_Am_Ctrl_Proofs
  imports Rlc_Am_Ctrl Rlc_Segments
begin

text \<open>
  Correctness of the processing of STATUS PDUs. The first part shows that the validation of the PDU
  comes to an end for any bytes. The second part shows that the walk through the wait list and the
  retransmit list is safe for any bytes: no freed SDU is touched, no NULL pointer is followed, the
  lists keep their tails. The third part shows for reports with NACKs in order and below the ACK
  that every segment goes where it belongs.
\<close>

section \<open>Validation\<close>

lemma get_bits_Inr: "k \<le> 31 \<Longrightarrow> \<exists>v d'. nr_rlc_pdu_decoder_get_bits d k = Inr (v, d')"
  by (cases "get_bits_loop d 0 k") (simp add: nr_rlc_pdu_decoder_get_bits_def)

lemma get_fields_Inr: "\<forall>k \<in> set ks. k \<le> 31 \<Longrightarrow> \<exists>vs d'. get_fields d ks = Inr (vs, d')"
proof (induction ks arbitrary: d)
  case Nil
  then show ?case by simp
next
  case (Cons k ks)
  then obtain v d1 where "nr_rlc_pdu_decoder_get_bits d k = Inr (v, d1)" using get_bits_Inr [of k d] by auto
  moreover obtain vs d2 where "get_fields d1 ks = Inr (vs, d2)" using Cons.IH [of d1] Cons.prems by auto
  ultimately show ?case by auto
qed

declare get_fields.simps(2) [simp del]

lemma get_fields_pos:
  assumes "dec_at d buf n" "n \<le> 8 * length buf" "get_fields d ks = Inr (vs, d')" "\<not> dec_error d'" "\<forall>k \<in> set ks. k \<le> 31"
  shows "dec_at d' buf (n + sum_list ks) \<and> n + sum_list ks \<le> 8 * length buf \<and> length vs = length ks"
  using assms
proof (induction ks arbitrary: d n vs)
  case Nil
  then show ?case by simp
next
  case (Cons k ks)
  have k: "k \<le> 31" using Cons.prems(5) by simp
  show ?case
  proof (cases "n + k \<le> 8 * length buf")
    case True
    then obtain v d1 where d1: "nr_rlc_pdu_decoder_get_bits d k = Inr (v, d1)" "dec_at d1 buf (n + k)"
      using get_bits_at [OF Cons.prems(1) True k] by auto
    with Cons.prems(3) obtain vs' where "get_fields d1 ks = Inr (vs', d')" "vs = v # vs'"
      by (auto simp: bindR_eq_Inr dec_at_def dec_ok_def get_fields.simps(2))
    with Cons.IH [OF d1(2) True] Cons.prems(4,5) show ?thesis by (simp add: add.assoc)
  next
    case False
    then show ?thesis using get_bits_error [OF Cons.prems(1) _ k] Cons.prems(3,4) by (auto simp: get_fields.simps(2))
  qed
qed

lemma am_read_nack_pos:
  assumes "dec_at d buf n" "n \<le> 8 * length buf" "am_sn_field_length e \<in> {12, 18}"
  shows "am_read_nack e d = Inr None \<or>
    (\<exists>i e1 d' n'. am_read_nack e d = Inr (Some (i, e1, d')) \<and> dec_at d' buf n' \<and> n + 16 \<le> n' \<and> n' \<le> 8 * length buf)"
proof -
  let ?ks = "[am_sn_field_length e, 1, 1, 1, if am_sn_field_length e = 18 then 3 else 1]"
  have ks: "\<forall>k \<in> set ?ks. k \<le> 31" "16 \<le> sum_list ?ks" using assms(3) by auto
  obtain vs d1 where d1: "get_fields d ?ks = Inr (vs, d1)" using get_fields_Inr [OF ks(1)] by blast
  show ?thesis
  proof (cases "dec_error d1")
    case True
    with d1 show ?thesis by (simp add: am_read_nack_def)
  next
    case False
    let ?n1 = "n + sum_list ?ks"
    have n1: "dec_at d1 buf ?n1" "?n1 \<le> 8 * length buf" using get_fields_pos [OF assms(1,2) d1 False ks(1)] by auto
    let ?so = "if vs ! 2 \<noteq> 0 then get_fields d1 [16, 16] else Inr ([0, 0xffff], d1)"
    obtain so d2 where d2: "?so = Inr (so, d2)" using get_fields_Inr [of "[16, 16]" d1] by (cases "vs ! 2 = 0") auto
    show ?thesis
    proof (cases "dec_error d2")
      case True
      with d1 d2 False show ?thesis by (simp add: am_read_nack_def)
    next
      case ok2: False
      have "\<exists>n2. dec_at d2 buf n2 \<and> ?n1 \<le> n2 \<and> n2 \<le> 8 * length buf"
        using d2 n1 get_fields_pos [OF n1, of "[16, 16]" so d2] ok2 by (auto split: if_splits)
      then obtain n2 where n2: "dec_at d2 buf n2" "?n1 \<le> n2" "n2 \<le> 8 * length buf" by blast
      let ?r = "if vs ! 3 \<noteq> 0 then get_fields d2 [8] else Inr ([1], d2)"
      obtain r d3 where d3: "?r = Inr (r, d3)" using get_fields_Inr [of "[8]" d2] by (cases "vs ! 3 = 0") auto
      show ?thesis
      proof (cases "dec_error d3")
        case True
        with d1 d2 d3 False ok2 show ?thesis by (simp add: am_read_nack_def)
      next
        case ok3: False
        have "\<exists>n3. dec_at d3 buf n3 \<and> n2 \<le> n3 \<and> n3 \<le> 8 * length buf"
          using d3 n2 get_fields_pos [OF n2(1,3), of "[8]" r d3] ok3 by (auto split: if_splits)
        with d1 d2 d3 False ok2 ok3 n2 ks(2) show ?thesis
          by (auto simp: am_read_nack_def simp del: sum_list.Cons intro: le_trans)
      qed
    qed
  qed
qed

text \<open>The number of bytes bounds the number of NACKs.\<close>

lemma am_read_nacks_total:
  assumes "dec_at d buf n" "n \<le> 8 * length buf" "8 * length buf < n + 16 * fuel" "am_sn_field_length e \<in> {12, 18}"
  shows "\<exists>r. am_read_nacks e ack_sn fuel e1 d = Inr r"
  using assms
proof (induction fuel arbitrary: e1 d n)
  case 0
  then show ?case by simp
next
  case (Suc fuel)
  note step = am_read_nack_pos [OF Suc.prems(1,2,4)]
  have "\<exists>r. am_read_nacks e ack_sn fuel e1' d' = Inr r" if rd: "am_read_nack e d = Inr (Some (i, e1', d'))" for i e1' d'
  proof -
    obtain n' where n': "dec_at d' buf n'" "n + 16 \<le> n'" "n' \<le> 8 * length buf" using step unfolding rd by auto
    with Suc.prems(3) have "8 * length buf < n' + 16 * fuel" by simp
    from Suc.IH [OF n'(1,3) this Suc.prems(4)] show ?thesis .
  qed
  with step show ?case
    by (fastforce simp: am_read_nacks.simps [of e ack_sn "Suc fuel"])
qed

lemma am_status_header_pos:
  assumes "am_sn_field_length e \<in> {12, 18}"
  shows "am_read_status_header e buffer = Inr None \<or>
    (\<exists>a e1 d. am_read_status_header e buffer = Inr (Some (a, e1, d)) \<and> dec_at d buffer 24 \<and> 24 \<le> 8 * length buffer)"
proof -
  obtain vs d1 where d1: "get_fields (nr_rlc_pdu_decoder_init buffer) [1, 3] = Inr (vs, d1)"
    using get_fields_Inr [of "[1, 3]" "nr_rlc_pdu_decoder_init buffer"] by auto
  let ?ks = "[am_sn_field_length e, 1, if am_sn_field_length e = 18 then 1 else 7]"
  have ks: "\<forall>k \<in> set ?ks. k \<le> 31" "4 + sum_list ?ks = 24" using assms by auto
  obtain vs' d2 where d2: "get_fields d1 ?ks = Inr (vs', d2)" using get_fields_Inr [OF ks(1)] by blast
  show ?thesis
  proof (cases "dec_error d1 \<or> vs ! 1 \<noteq> 0 \<or> dec_error d2")
    case True
    with d1 d2 show ?thesis by (auto simp: am_read_status_header_def)
  next
    case False
    have "dec_at d1 buffer 4" "4 \<le> 8 * length buffer"
      using get_fields_pos [OF dec_init_at _ d1] False by auto
    moreover have "\<not> dec_error d2" using False by simp
    ultimately have "dec_at d2 buffer 24" "24 \<le> 8 * length buffer"
      using get_fields_pos [OF _ _ d2 _ ks(1), of buffer 4] unfolding ks(2) by blast+
    with d1 d2 False show ?thesis by (auto simp: am_read_status_header_def)
  qed
qed

lemma am_validate_control_total:
  assumes "am_sn_field_length e \<in> {12, 18}"
  shows "\<exists>r. am_validate_control e buffer = Inr r"
proof -
  consider "am_read_status_header e buffer = Inr None" |
    a e1 d where "am_read_status_header e buffer = Inr (Some (a, e1, d))" "dec_at d buffer 24" "24 \<le> 8 * length buffer"
    using am_status_header_pos [OF assms] by blast
  then show ?thesis
  proof cases
    case 1
    then show ?thesis by (simp add: am_validate_control_def)
  next
    case 2
    then obtain r where "am_read_nacks e a (length buffer) e1 d = Inr r"
      using am_read_nacks_total [OF 2(2,3) _ assms, of "length buffer"] by auto
    with 2 show ?thesis by (simp add: am_validate_control_def)
  qed
qed

section \<open>Safety of the walk through the lists\<close>

declare so_overlap.simps [simp del]

text \<open>
  The invariant of the transmit side: the segments of the three lists are sound, and the two tail
  pointers are right.
\<close>

definition am_tx_inv :: "nr_rlc_entity_am \<Rightarrow> bool" where
  "am_tx_inv e \<longleftrightarrow> segs_ok (am_heap e) (am_tx_list e @ am_wait_list e @ am_retransmit_list e) \<and>
     tail_ok (am_tx_list e) (am_tx_end e) \<and> tail_ok (am_wait_list e) (am_wait_end e)"

text \<open>What the walk changes of the entity before it ends.\<close>

definition am_frame :: "nr_rlc_entity_am \<Rightarrow> nr_rlc_entity_am \<Rightarrow> bool" where
  "am_frame e e' \<longleftrightarrow> (\<exists>c n t. e' = e\<lparr>am_common := c, am_tx_size := n, am_t_poll_retransmit_start := t\<rparr>)"

lemma am_frame_refl [simp]: "am_frame e e"
  unfolding am_frame_def by (rule exI [of _ "am_common e"], rule exI [of _ "am_tx_size e"],
      rule exI [of _ "am_t_poll_retransmit_start e"]) simp

lemma am_frame_trans: "am_frame e e1 \<Longrightarrow> am_frame e1 e2 \<Longrightarrow> am_frame e e2"
  by (force simp: am_frame_def)

lemma am_frame_sel:
  assumes "am_frame e e'"
  shows "am_tx_list e' = am_tx_list e" "am_tx_end e' = am_tx_end e" "am_wait_end e' = am_wait_end e"
    "am_wait_list e' = am_wait_list e" "am_retransmit_list e' = am_retransmit_list e"
    "am_sn_modulus e' = am_sn_modulus e" "am_sn_field_length e' = am_sn_field_length e"
    "am_tx_next e' = am_tx_next e" "am_tx_next_ack e' = am_tx_next_ack e" "am_poll_sn e' = am_poll_sn e"
    "am_sn_compare_tx e' = am_sn_compare_tx e" "am_modulus_tx e' = am_modulus_tx e"
    "seg_pdu_size e' = seg_pdu_size e"
  using assms by (auto simp: am_frame_def fun_eq_iff am_sn_compare_tx_def am_modulus_tx_def seg_pdu_size_def
      am_compute_pdu_header_size_def Let_def)

lemma am_frame_upd:
  "am_frame e (am_upd_common f e)" "am_frame e (am_set_heap h e)" "am_frame e (e\<lparr>am_tx_size := n\<rparr>)"
  "am_frame e (e\<lparr>am_t_poll_retransmit_start := t\<rparr>)"
  unfolding am_frame_def am_upd_common_def am_set_heap_def
  by (rule exI, rule exI [of _ "am_tx_size e"], rule exI [of _ "am_t_poll_retransmit_start e"], simp,
      rule exI, rule exI [of _ "am_tx_size e"], rule exI [of _ "am_t_poll_retransmit_start e"], simp,
      rule exI [of _ "am_common e"], rule exI [of _ n], rule exI [of _ "am_t_poll_retransmit_start e"], simp,
      rule exI [of _ "am_common e"], rule exI [of _ "am_tx_size e"], rule exI [of _ t], simp)

lemma am_frame_step [intro]:
  "am_frame e e1 \<Longrightarrow> am_frame e (am_upd_common f e1)" "am_frame e e1 \<Longrightarrow> am_frame e (am_set_heap h e1)"
  "am_frame e e1 \<Longrightarrow> am_frame e (e1\<lparr>am_tx_size := n\<rparr>)"
  "am_frame e e1 \<Longrightarrow> am_frame e (e1\<lparr>am_t_poll_retransmit_start := t\<rparr>)"
  by (blast intro: am_frame_trans am_frame_upd)+

lemma am_heap_upd [simp]:
  "am_common (am_upd_common f e) = f (am_common e)" "am_heap (am_set_heap h e) = h"
  "am_events (am_set_heap h e) = am_events e"
  by (simp_all add: am_upd_common_def am_set_heap_def)

lemma am_free_acked_ok:
  assumes "segs_ok (am_heap e) (s # l)"
  shows "\<exists>e'. am_free_acked s e = Inr e' \<and> segs_ok (am_heap e') l \<and> same_sdus (am_heap e) (am_heap e') l \<and> am_frame e e'"
proof -
  obtain b h where h: "nr_rlc_free_sdu_segment s (am_heap e) = Inr (b, h)" "segs_ok h l" "same_sdus (am_heap e) h l"
    using segs_ok_free [OF assms] by blast
  have "am_frame e (am_upd_common f ((am_set_heap h e)\<lparr>am_tx_size := n\<rparr>))" for f n
    using am_frame_upd am_frame_trans by meson
  with h am_frame_upd(2) [of e h] show ?thesis by (auto simp: am_free_acked_def Let_def)
qed

definition cs_wait :: "ctrl_state \<Rightarrow> nr_rlc_sdu_segment list" where
  "cs_wait st = cs_kept st @ cs_cur_wait st @ cs_rest_wait st"

definition cs_segs :: "ctrl_state \<Rightarrow> nr_rlc_sdu_segment list" where
  "cs_segs st = cs_wait st @ cs_new_retx st @ cs_cur_retx st"

text \<open>
  The invariant of the walk: \<open>T\<close> is the transmit list and \<open>sn0\<close> the sequence numbers at the start.
  Once \<open>end_wait_list\<close> is set the walk is at the end of the wait list.
\<close>

definition cs_tail_ok :: "ctrl_state \<Rightarrow> bool" where
  "cs_tail_ok st \<longleftrightarrow>
     (case cs_end_wait st of
        None \<Rightarrow> am_wait_end (cs_e st) = end_addr (cs_wait st)
      | Some p \<Rightarrow> p = end_addr (cs_wait st) \<and> cs_cur_wait st = [] \<and> cs_rest_wait st = [])"

lemma cs_tail_ok_cong:
  assumes "cs_wait st' = cs_wait st" "cs_cur_wait st' = cs_cur_wait st" "cs_rest_wait st' = cs_rest_wait st"
    "cs_end_wait st' = cs_end_wait st" "am_wait_end (cs_e st') = am_wait_end (cs_e st)"
  shows "cs_tail_ok st' = cs_tail_ok st"
  unfolding cs_tail_ok_def assms by (rule refl)

definition ctrl_inv ::
  "nr_rlc_sdu_segment list \<Rightarrow> (nr_rlc_sdu_segment \<Rightarrow> int) \<Rightarrow> ctrl_state \<Rightarrow> bool" where
  "ctrl_inv T sn0 st \<longleftrightarrow> segs_ok (am_heap (cs_e st)) (T @ cs_segs st) \<and>
     (\<forall>s \<in> set (cs_segs st). seg_sn (am_heap (cs_e st)) s = sn0 s) \<and> cs_tail_ok st"

lemmas cs_defs = cs_wait_def cs_segs_def cs_tail_ok_def cs_unlink_def end_addr_def

lemma ctrl_inv_heap:
  assumes "ctrl_inv T sn0 st" "segs_ok (am_heap e') (T @ cs_segs st')" "set (cs_segs st') \<subseteq> set (cs_segs st)"
    "same_sdus (am_heap (cs_e st)) (am_heap e') (T @ cs_segs st')" "cs_e st' = e'" "cs_tail_ok st'"
  shows "ctrl_inv T sn0 st'"
  using assms same_sdus_sn [OF assms(4)] by (auto simp: ctrl_inv_def)

text \<open>Taking the head of the wait list out keeps the tail.\<close>

lemma cs_unlink_ok:
  assumes "cs_tail_ok st" "cs_cur_wait st = w # ws" "distinct (map seg_addr (cs_wait st))"
    "cs_kept st' = cs_kept st" "cs_cur_wait st' = ws" "cs_rest_wait st' = cs_rest_wait st"
    "cs_end_wait st' = cs_unlink w st" "am_wait_end (cs_e st') = am_wait_end (cs_e st)"
  shows "cs_tail_ok st'"
proof -
  have n: "cs_end_wait st = None" "am_wait_end (cs_e st) = end_addr (cs_wait st)"
    using assms(1,2) by (auto simp: cs_tail_ok_def split: option.splits)
  have "tail_ok (cs_kept st @ w # (ws @ cs_rest_wait st)) (am_wait_end (cs_e st))"
    using assms(2,3) n by (simp add: cs_wait_def tail_ok_def end_addr_def)
  note t = tail_ok_unlink [OF this]
  have wait: "cs_wait st' = cs_kept st @ ws @ cs_rest_wait st" using assms(4-6) by (simp add: cs_wait_def)
  show ?thesis
  proof (cases "am_wait_end (cs_e st) = Some (seg_addr w)")
    case True
    with t(2) have "ws = []" "cs_rest_wait st = []" by simp_all
    with True wait assms(5-7) show ?thesis by (simp add: cs_tail_ok_def cs_unlink_def)
  next
    case False
    with t(1) wait have "am_wait_end (cs_e st) = end_addr (cs_wait st')" by (simp add: tail_ok_def end_addr_def)
    with False n assms(7,8) show ?thesis by (simp add: cs_tail_ok_def cs_unlink_def)
  qed
qed

text \<open>
  The walk without memory: what one step does to the lists, as a function of the sequence numbers
  \<open>sn0\<close> and their comparison. A step of the code is this step, and it is safe.
\<close>

type_synonym walk = "nr_rlc_sdu_segment list \<times> nr_rlc_sdu_segment list \<times> nr_rlc_sdu_segment list \<times>
  nr_rlc_sdu_segment list \<times> nr_rlc_sdu_segment list"

definition cs_lists :: "ctrl_state \<Rightarrow> walk" where
  "cs_lists st = (cs_kept st, cs_cur_wait st, cs_rest_wait st, cs_new_retx st, cs_cur_retx st)"

definition nack_hits :: "(nr_rlc_sdu_segment \<Rightarrow> int) \<Rightarrow> int \<times> int \<times> int \<Rightarrow> nr_rlc_sdu_segment \<Rightarrow> bool" where
  "nack_hits sn0 nack s \<longleftrightarrow> (case nack of (nack_sn, so_start, so_end) \<Rightarrow>
     sn0 s = nack_sn \<and> so_overlap so_start so_end (seg_so s) (seg_so s + seg_size s - 1))"

definition nack_before :: "(nr_rlc_sdu_segment \<Rightarrow> int) \<Rightarrow> (int \<Rightarrow> int \<Rightarrow> int) \<Rightarrow> int \<times> int \<times> int \<Rightarrow> nr_rlc_sdu_segment \<Rightarrow> bool" where
  "nack_before sn0 cmp nack s \<longleftrightarrow> (case nack of (nack_sn, so_start, so_end) \<Rightarrow>
     cmp (sn0 s) nack_sn > 0 \<or> cmp (sn0 s) nack_sn = 0 \<and> seg_so s > so_start)"

fun walk_step ::
  "(nr_rlc_sdu_segment \<Rightarrow> int) \<Rightarrow> (int \<Rightarrow> int \<Rightarrow> int) \<Rightarrow> int \<Rightarrow> int \<times> int \<times> int \<Rightarrow> walk \<Rightarrow> ctrl_jump \<times> walk" where
  "walk_step sn0 cmp ack nack (k, [], rest, nr, []) = (ListsOver, (k, [], rest, nr, []))"
| "walk_step sn0 cmp ack nack (k, cw, rest, nr, cr) =
     (if cr = [] \<or> cw \<noteq> [] \<and> (cmp (sn0 (hd cw)) (sn0 (hd cr)) < 0 \<or>
            cmp (sn0 (hd cw)) (sn0 (hd cr)) = 0 \<and> seg_so (hd cw) < seg_so (hd cr))
      then let w = hd cw; ws = tl cw
           in if nack_hits sn0 nack w then (NextPdu, (k, ws, rest, nr @ [w], cr))
              else if nack_before sn0 cmp nack w then (DoneNack, (k, cw, rest, nr, cr))
              else if cmp (sn0 w) ack < 0 then (NextPdu, (k, ws, rest, nr, cr))
              else if cmp (sn0 w) ack > 0 then (NextPdu, (k, [], cw, nr, cr))
              else (NextPdu, (k @ [w], ws, rest, nr, cr))
      else let r = hd cr; rs = tl cr
           in if nack_hits sn0 nack r then (NextPdu, (k, cw, rest, nr @ [r], rs))
              else if nack_before sn0 cmp nack r then (DoneNack, (k, cw, rest, nr, cr))
              else if cmp (sn0 r) ack < 0 then (NextPdu, (k, cw, rest, nr, rs))
              else if cw = [] then (ListsOver, (k, cw, rest, nr, []))
              else (NextPdu, (k, cw, rest, nr @ [r], rs)))"

lemmas walk_defs = nack_hits_def nack_before_def cs_lists_def

lemma mset_rotate: "mset (a @ x # b) = mset (x # a @ b)"
  by simp

lemma ctrl_inv_distinct: "ctrl_inv T sn0 st \<Longrightarrow> distinct (map seg_addr (cs_wait st))"
  by (simp add: ctrl_inv_def segs_ok_def cs_segs_def)

text \<open>
  The head of the wait list. Cutting the rest of the list off needs \<open>cs_rest_wait\<close> to be empty,
  which it is as long as there is a head.
\<close>

lemma am_wait_head_ok:
  assumes inv: "ctrl_inv T sn0 st" and w: "cs_cur_wait st = w # ws" and rest: "cs_rest_wait st = []"
  defines "cmp \<equiv> am_sn_compare_tx (cs_e st)"
  shows "\<exists>j st'. am_wait_head ack nack st = Inr (j, st') \<and> ctrl_inv T sn0 st' \<and> am_frame (cs_e st) (cs_e st') \<and>
    (j, cs_lists st') =
      (if nack_hits sn0 nack w then (NextPdu, (cs_kept st, ws, cs_rest_wait st, cs_new_retx st @ [w], cs_cur_retx st))
       else if nack_before sn0 cmp nack w then (DoneNack, cs_lists st)
       else if cmp (sn0 w) ack < 0 then (NextPdu, (cs_kept st, ws, cs_rest_wait st, cs_new_retx st, cs_cur_retx st))
       else if cmp (sn0 w) ack > 0 then (NextPdu, (cs_kept st, [], w # ws, cs_new_retx st, cs_cur_retx st))
       else (NextPdu, (cs_kept st @ [w], ws, cs_rest_wait st, cs_new_retx st, cs_cur_retx st)))"
proof -
  obtain nsn nso nse where nack: "nack = (nsn, nso, nse)" by (cases nack)
  let ?e = "cs_e st" and ?h = "am_heap (cs_e st)"
  have segs: "segs_ok ?h (T @ cs_segs st)" and tail: "cs_tail_ok st"
    using inv by (simp_all add: ctrl_inv_def)
  have mem: "w \<in> set (cs_segs st)" using w by (simp add: cs_segs_def cs_wait_def)
  have sn: "seg_sn ?h w = sn0 w" using inv mem by (simp add: ctrl_inv_def)
  note dist = ctrl_inv_distinct [OF inv]
  show ?thesis
  proof (cases "nack_hits sn0 nack w")
    case True
    have "w \<in> set (T @ cs_segs st)" using mem by simp
    from segs_ok_update [OF segs this, of "\<lambda>u. u\<lparr>sdu_retx_count := sdu_retx_count u + 1\<rparr>"]
    obtain h where h: "sdu_update (\<lambda>u. u\<lparr>sdu_retx_count := sdu_retx_count u + 1\<rparr>) w ?h = Inr h"
        "segs_ok h (T @ cs_segs st)" "same_sdus ?h h (T @ cs_segs st)"
      by (auto simp: same_sdu_def)
    let ?e1 = "am_set_heap h ?e"
    define e3 where "e3 = am_upd_common (ec_add_retx_size (seg_pdu_size ?e w))
      (if sdu_retx_count (sdu_of h w) \<ge> am_max_retx_threshold ?e * sdu_ref_count (sdu_of h w)
       then am_upd_common (ec_call MaxRetxReached) ?e1 else ?e1)"
    define st' where "st' = st\<lparr>cs_e := e3, cs_cur_wait := ws, cs_end_wait := cs_unlink w st, cs_new_retx := cs_new_retx st @ [w]\<rparr>"
    have run: "am_wait_head ack nack st = Inr (NextPdu, st')"
      using True w sn h(1) by (simp add: am_wait_head_def nack nack_hits_def Let_def e3_def st'_def)
    have heap: "am_heap e3 = h" by (simp add: e3_def)
    have frame: "am_frame ?e e3" unfolding e3_def
      by (auto intro: am_frame_refl)
    have perm: "mset (cs_segs st') = mset (cs_segs st)" using w by (simp add: st'_def cs_segs_def cs_wait_def)
    have "ctrl_inv T sn0 st'"
    proof (rule ctrl_inv_heap [OF inv, of e3])
      show "segs_ok (am_heap e3) (T @ cs_segs st')" unfolding heap by (rule segs_ok_perm [OF h(2)]) (simp add: perm)
      show "set (cs_segs st') \<subseteq> set (cs_segs st)" using mset_eq_setD [OF perm] by simp
      show "same_sdus ?h (am_heap e3) (T @ cs_segs st')"
        using h(3) mset_eq_setD [OF perm] unfolding heap by (simp add: same_sdus_def)
      show "cs_tail_ok st'" by (rule cs_unlink_ok [OF tail w dist]) (simp_all add: st'_def am_frame_sel [OF frame])
    qed (simp add: st'_def)
    with run frame True w show ?thesis by (auto simp: st'_def cs_lists_def)
  next
    case False
    note nohit = False
    show ?thesis
    proof (cases "nack_before sn0 cmp nack w")
      case True
      with nohit w sn inv show ?thesis
        by (auto simp: am_wait_head_def nack nack_hits_def nack_before_def Let_def cmp_def)
    next
      case nb: False
      show ?thesis
      proof (cases "cmp (sn0 w) ack < 0")
        case True
        define st1 where "st1 = st\<lparr>cs_cur_wait := ws, cs_end_wait := cs_unlink w st\<rparr>"
        have "segs_ok ?h (w # T @ cs_segs st1)"
          using w by (intro segs_ok_perm [OF segs]) (simp add: cs_segs_def cs_wait_def st1_def)
        from am_free_acked_ok [OF this] obtain e1 where e1: "am_free_acked w ?e = Inr e1"
            "segs_ok (am_heap e1) (T @ cs_segs st1)" "same_sdus ?h (am_heap e1) (T @ cs_segs st1)" "am_frame ?e e1" by blast
        let ?st' = "st1\<lparr>cs_e := e1\<rparr>"
        have eq: "cs_segs ?st' = cs_segs st1" by (simp add: cs_segs_def cs_wait_def)
        have run: "am_wait_head ack nack st = Inr (NextPdu, ?st')"
          using nohit nb True w sn e1(1)
          by (auto simp: am_wait_head_def nack nack_hits_def nack_before_def Let_def cmp_def st1_def)
        have "ctrl_inv T sn0 ?st'"
        proof (rule ctrl_inv_heap [OF inv, of e1])
          show "set (cs_segs ?st') \<subseteq> set (cs_segs st)" using w by (auto simp: cs_segs_def cs_wait_def st1_def)
          show "cs_tail_ok ?st'"
            by (rule cs_unlink_ok [OF tail w dist]) (simp_all add: st1_def am_frame_sel [OF e1(4)])
        qed (simp_all add: eq e1)
        with run e1(4) nohit nb True show ?thesis by (auto simp: st1_def cs_lists_def)
      next
        case ge: False
        define st' where "st' = (if cmp (sn0 w) ack > 0 then st\<lparr>cs_cur_wait := [], cs_rest_wait := w # ws\<rparr>
          else st\<lparr>cs_kept := cs_kept st @ [w], cs_cur_wait := ws\<rparr>)"
        have run: "am_wait_head ack nack st = Inr (NextPdu, st')"
          using nohit nb ge w sn
          by (auto simp: am_wait_head_def nack nack_hits_def nack_before_def Let_def cmp_def st'_def)
        have "cs_wait st' = cs_wait st" "cs_e st' = ?e" "cs_new_retx st' = cs_new_retx st" "cs_cur_retx st' = cs_cur_retx st"
          "cs_end_wait st' = cs_end_wait st" "cs_end_wait st = None"
          using w rest tail by (auto simp: st'_def cs_wait_def cs_tail_ok_def split: option.splits)
        then have "ctrl_inv T sn0 st'" using inv by (simp add: ctrl_inv_def cs_segs_def cs_tail_ok_def)
        with run nohit nb ge w show ?thesis by (auto simp: st'_def cs_lists_def)
      qed
    qed
  qed
qed

lemma am_retx_head_ok:
  assumes inv: "ctrl_inv T sn0 st" and r: "cs_cur_retx st = r # rs"
  defines "cmp \<equiv> am_sn_compare_tx (cs_e st)"
  shows "\<exists>j st'. am_retx_head ack nack st = Inr (j, st') \<and> ctrl_inv T sn0 st' \<and> am_frame (cs_e st) (cs_e st') \<and>
    (j, cs_lists st') =
      (if nack_hits sn0 nack r then (NextPdu, (cs_kept st, cs_cur_wait st, cs_rest_wait st, cs_new_retx st @ [r], rs))
       else if nack_before sn0 cmp nack r then (DoneNack, cs_lists st)
       else if cmp (sn0 r) ack < 0 then (NextPdu, (cs_kept st, cs_cur_wait st, cs_rest_wait st, cs_new_retx st, rs))
       else if cs_cur_wait st = [] then (ListsOver, (cs_kept st, cs_cur_wait st, cs_rest_wait st, cs_new_retx st, []))
       else (NextPdu, (cs_kept st, cs_cur_wait st, cs_rest_wait st, cs_new_retx st @ [r], rs)))"
proof -
  obtain nsn nso nse where nack: "nack = (nsn, nso, nse)" by (cases nack)
  let ?e = "cs_e st" and ?h = "am_heap (cs_e st)"
  have segs: "segs_ok ?h (T @ cs_segs st)" and tail: "cs_tail_ok st" and sn: "seg_sn ?h r = sn0 r"
    using inv r by (simp_all add: ctrl_inv_def cs_segs_def)
  let ?move = "st\<lparr>cs_new_retx := cs_new_retx st @ [r], cs_cur_retx := rs\<rparr>"
  have "cs_tail_ok ?move = cs_tail_ok st" by (rule cs_tail_ok_cong) (simp_all add: cs_wait_def)
  then have move: "ctrl_inv T sn0 ?move"
    using inv r by (simp add: ctrl_inv_def cs_segs_def cs_wait_def)
  show ?thesis
  proof (cases "\<not> nack_hits sn0 nack r \<and> \<not> nack_before sn0 cmp nack r \<and> cmp (sn0 r) ack < 0")
    case True
    let ?eu = "am_upd_common (ec_add_retx_size (- seg_pdu_size ?e r)) ?e"
    define st1 where "st1 = st\<lparr>cs_cur_retx := rs\<rparr>"
    have "segs_ok (am_heap ?eu) (r # T @ cs_segs st1)"
      using r by (simp, intro segs_ok_perm [OF segs]) (simp add: cs_segs_def cs_wait_def st1_def)
    from am_free_acked_ok [OF this] obtain e1 where e1: "am_free_acked r ?eu = Inr e1"
        "segs_ok (am_heap e1) (T @ cs_segs st1)" "same_sdus (am_heap ?eu) (am_heap e1) (T @ cs_segs st1)" "am_frame ?eu e1" by blast
    have frame: "am_frame ?e e1" using am_frame_trans [OF am_frame_upd(1) e1(4)] .
    let ?st' = "st1\<lparr>cs_e := e1\<rparr>"
    have eq: "cs_segs ?st' = cs_segs st1" by (simp add: cs_segs_def cs_wait_def)
    have run: "am_retx_head ack nack st = Inr (NextPdu, ?st')"
      using True r sn e1(1)
      by (auto simp: am_retx_head_def nack nack_hits_def nack_before_def Let_def cmp_def st1_def)
    have "ctrl_inv T sn0 ?st'"
    proof (rule ctrl_inv_heap [OF inv, of e1])
      show "set (cs_segs ?st') \<subseteq> set (cs_segs st)" using r by (auto simp: cs_segs_def cs_wait_def st1_def)
      show "cs_tail_ok ?st'"
        using tail
        by (subst cs_tail_ok_cong [of _ st]) (simp_all add: st1_def cs_wait_def am_frame_sel [OF frame])
      show "same_sdus ?h (am_heap e1) (T @ cs_segs ?st')" using e1(3) by (simp add: eq)
    qed (simp_all add: eq e1)
    with run frame True show ?thesis by (auto simp: st1_def cs_lists_def)
  next
    case False
    have drop: "ctrl_inv T sn0 (st\<lparr>cs_cur_retx := []\<rparr>)" if "cs_cur_wait st = []"
    proof -
      have "segs_ok ?h (cs_cur_retx st @ T @ cs_wait st @ cs_new_retx st)"
        by (intro segs_ok_perm [OF segs]) (simp add: cs_segs_def)
      moreover have "cs_tail_ok (st\<lparr>cs_cur_retx := []\<rparr>) = cs_tail_ok st"
        by (rule cs_tail_ok_cong) (simp_all add: cs_wait_def)
      ultimately show ?thesis
        using inv segs_ok_drop by (auto simp: ctrl_inv_def cs_segs_def cs_wait_def)
    qed
    from False r sn inv move drop show ?thesis
      by (auto simp: am_retx_head_def nack nack_hits_def nack_before_def Let_def cmp_def cs_lists_def)
  qed
qed

fun walk_ok :: "walk \<Rightarrow> bool" where
  "walk_ok (k, cw, rest, nr, cr) \<longleftrightarrow> cw = [] \<or> rest = []"

lemma walk_step_ok: "walk_ok W \<Longrightarrow> walk_ok (snd (walk_step sn0 cmp ack nack W))"
  by (induction sn0 cmp ack nack W rule: walk_step.induct) (auto simp: Let_def)

lemma walk_step_over:
  "walk_step sn0 cmp ack nack W = (ListsOver, (k, cw, rest, nr, cr)) \<Longrightarrow> cw = [] \<and> cr = []"
  by (induction sn0 cmp ack nack W rule: walk_step.induct) (auto simp: Let_def split: if_splits)

lemma am_next_pdu_ok:
  assumes inv: "ctrl_inv T sn0 st" and ok: "walk_ok (cs_lists st)"
  shows "\<exists>j st'. am_next_pdu ack nack st = Inr (j, st') \<and> ctrl_inv T sn0 st' \<and> am_frame (cs_e st) (cs_e st') \<and>
    (j, cs_lists st') = walk_step sn0 (am_sn_compare_tx (cs_e st)) ack nack (cs_lists st)"
proof -
  let ?cmp = "am_sn_compare_tx (cs_e st)"
  consider (none) "cs_cur_wait st = []" "cs_cur_retx st = []" | (retx) r rs where "cs_cur_retx st = r # rs"
      "am_next_pdu ack nack st = am_retx_head ack nack st"
      "walk_step sn0 ?cmp ack nack (cs_lists st) =
        (if nack_hits sn0 nack r then (NextPdu, (cs_kept st, cs_cur_wait st, cs_rest_wait st, cs_new_retx st @ [r], rs))
         else if nack_before sn0 ?cmp nack r then (DoneNack, cs_lists st)
         else if ?cmp (sn0 r) ack < 0 then (NextPdu, (cs_kept st, cs_cur_wait st, cs_rest_wait st, cs_new_retx st, rs))
         else if cs_cur_wait st = [] then (ListsOver, (cs_kept st, cs_cur_wait st, cs_rest_wait st, cs_new_retx st, []))
         else (NextPdu, (cs_kept st, cs_cur_wait st, cs_rest_wait st, cs_new_retx st @ [r], rs)))"
    | (wait) w ws where "cs_cur_wait st = w # ws" "am_next_pdu ack nack st = am_wait_head ack nack st"
      "walk_step sn0 ?cmp ack nack (cs_lists st) =
        (if nack_hits sn0 nack w then (NextPdu, (cs_kept st, ws, cs_rest_wait st, cs_new_retx st @ [w], cs_cur_retx st))
         else if nack_before sn0 ?cmp nack w then (DoneNack, cs_lists st)
         else if ?cmp (sn0 w) ack < 0 then (NextPdu, (cs_kept st, ws, cs_rest_wait st, cs_new_retx st, cs_cur_retx st))
         else if ?cmp (sn0 w) ack > 0 then (NextPdu, (cs_kept st, [], w # ws, cs_new_retx st, cs_cur_retx st))
         else (NextPdu, (cs_kept st @ [w], ws, cs_rest_wait st, cs_new_retx st, cs_cur_retx st)))"
  proof (cases "cs_cur_wait st"; cases "cs_cur_retx st")
    fix w ws r rs assume c: "cs_cur_wait st = w # ws" "cs_cur_retx st = r # rs"
    have sn: "seg_sn (am_heap (cs_e st)) w = sn0 w" "seg_sn (am_heap (cs_e st)) r = sn0 r"
      using inv c by (auto simp: ctrl_inv_def cs_segs_def cs_wait_def)
    show thesis
    proof (cases "?cmp (sn0 w) (sn0 r) < 0 \<or> ?cmp (sn0 w) (sn0 r) = 0 \<and> seg_so w < seg_so r")
      case True
      with c sn show thesis by (intro wait [OF c(1)]) (simp_all add: am_next_pdu_def cs_lists_def Let_def)
    next
      case False
      with c sn show thesis by (intro retx [OF c(2)]) (auto simp: am_next_pdu_def cs_lists_def Let_def)
    qed
  next
    fix w ws assume c: "cs_cur_wait st = w # ws" "cs_cur_retx st = []"
    then show thesis by (intro wait [OF c(1)]) (simp_all add: am_next_pdu_def cs_lists_def Let_def)
  next
    fix r rs assume c: "cs_cur_wait st = []" "cs_cur_retx st = r # rs"
    then show thesis by (intro retx [OF c(2)]) (simp_all add: am_next_pdu_def cs_lists_def Let_def)
  qed (rule none)
  then show ?thesis
  proof cases
    case none
    with inv show ?thesis by (simp add: am_next_pdu_def cs_lists_def)
  next
    case (retx r rs)
    then show ?thesis using am_retx_head_ok [OF inv retx(1), of ack nack] by (simp only:)
  next
    case (wait w ws)
    have "cs_rest_wait st = []" using ok wait(1) by (simp add: cs_lists_def)
    with wait show ?thesis using am_wait_head_ok [OF inv wait(1), of ack nack] by (simp only:)
  qed
qed

fun walk_left :: "walk \<Rightarrow> nat" where
  "walk_left (k, cw, rest, nr, cr) = length cw + length cr"

lemma walk_step_decreases:
  "walk_step sn0 cmp ack nack W = (NextPdu, W') \<Longrightarrow> walk_left W' < walk_left W"
  by (induction sn0 cmp ack nack W rule: walk_step.induct)
    (auto simp: Let_def neq_Nil_conv split: if_splits)

function walk_piece ::
  "(nr_rlc_sdu_segment \<Rightarrow> int) \<Rightarrow> (int \<Rightarrow> int \<Rightarrow> int) \<Rightarrow> int \<Rightarrow> int \<times> int \<times> int \<Rightarrow> walk \<Rightarrow> walk" where
  "walk_piece sn0 cmp ack nack W =
     (case walk_step sn0 cmp ack nack W of
        (NextPdu, W') \<Rightarrow> walk_piece sn0 cmp ack nack W'
      | (_, W') \<Rightarrow> W')"
  by pat_completeness auto
termination
  by (relation "measure (\<lambda>(sn0, cmp, ack, nack, W). walk_left W)") (auto intro: walk_step_decreases)

declare walk_piece.simps [simp del] walk_step.simps [simp del]

lemma walk_piece_over: "walk_piece sn0 cmp ack nack (k, [], rest, nr, []) = (k, [], rest, nr, [])"
  by (simp add: walk_piece.simps walk_step.simps)

lemma am_process_piece_ok:
  assumes "ctrl_inv T sn0 st" "walk_ok (cs_lists st)" "cmp = am_sn_compare_tx (cs_e st)"
  shows "\<exists>over st'. am_process_piece ack nack st = Inr (over, st') \<and> ctrl_inv T sn0 st' \<and> am_frame (cs_e st) (cs_e st') \<and>
    walk_ok (cs_lists st') \<and> cs_lists st' = walk_piece sn0 cmp ack nack (cs_lists st) \<and>
    (over \<longrightarrow> cs_cur_wait st' = [] \<and> cs_cur_retx st' = [])"
  using assms
proof (induction ack nack st rule: am_process_piece.induct)
  case (1 ack nack st)
  obtain j st1 where st1: "am_next_pdu ack nack st = Inr (j, st1)" "ctrl_inv T sn0 st1" "am_frame (cs_e st) (cs_e st1)"
      "walk_step sn0 cmp ack nack (cs_lists st) = (j, cs_lists st1)"
    using am_next_pdu_ok [OF "1.prems"(1,2), of ack nack] "1.prems"(3) by metis
  have ok: "walk_ok (cs_lists st1)" using walk_step_ok [OF "1.prems"(2), of sn0 cmp ack nack] st1(4) by simp
  show ?case
  proof (cases j)
    case NextPdu
    have "cmp = am_sn_compare_tx (cs_e st1)" using "1.prems"(3) am_frame_sel [OF st1(3)] by simp
    from "1.IH" [OF st1(1) _ NextPdu st1(2) ok this] NextPdu st1 obtain over st' where
      "am_process_piece ack nack st1 = Inr (over, st')" "ctrl_inv T sn0 st'" "am_frame (cs_e st1) (cs_e st')"
      "walk_ok (cs_lists st')" "cs_lists st' = walk_piece sn0 cmp ack nack (cs_lists st1)"
      "over \<longrightarrow> cs_cur_wait st' = [] \<and> cs_cur_retx st' = []" by auto
    with NextPdu st1 am_frame_trans show ?thesis
      by (auto simp: am_process_piece.simps [of ack nack st] walk_piece.simps [of _ _ _ _ "cs_lists st"])
  next
    case DoneNack
    with st1 ok show ?thesis
      by (auto simp: am_process_piece.simps [of ack nack st] walk_piece.simps [of _ _ _ _ "cs_lists st"])
  next
    case ListsOver
    then have "cs_cur_wait st1 = [] \<and> cs_cur_retx st1 = []"
      using st1(4) unfolding cs_lists_def [of st1] by (auto dest: walk_step_over)
    with ListsOver st1 ok show ?thesis
      by (auto simp: am_process_piece.simps [of ack nack st] walk_piece.simps [of _ _ _ _ "cs_lists st"])
  qed
qed

definition walk_pieces ::
  "(nr_rlc_sdu_segment \<Rightarrow> int) \<Rightarrow> (int \<Rightarrow> int \<Rightarrow> int) \<Rightarrow> int \<Rightarrow> (int \<times> int \<times> int) list \<Rightarrow> walk \<Rightarrow> walk" where
  "walk_pieces sn0 cmp ack ps W = fold (walk_piece sn0 cmp ack) ps W"

lemma walk_pieces_over: "walk_pieces sn0 cmp ack ps (k, [], rest, nr, []) = (k, [], rest, nr, [])"
  unfolding walk_pieces_def by (induction ps) (simp_all add: walk_piece_over)

lemma am_process_pieces_ok:
  assumes "ctrl_inv T sn0 st" "walk_ok (cs_lists st)" "cmp = am_sn_compare_tx (cs_e st)"
  shows "\<exists>st'. am_process_pieces ack ps st = Inr st' \<and> ctrl_inv T sn0 st' \<and> am_frame (cs_e st) (cs_e st') \<and>
    walk_ok (cs_lists st') \<and> cs_lists st' = walk_pieces sn0 cmp ack ps (cs_lists st)"
  using assms
proof (induction ps arbitrary: st)
  case Nil
  then show ?case by (simp add: walk_pieces_def)
next
  case (Cons p ps)
  obtain over st1 where st1: "am_process_piece ack p st = Inr (over, st1)" "ctrl_inv T sn0 st1" "am_frame (cs_e st) (cs_e st1)"
      "walk_ok (cs_lists st1)" "cs_lists st1 = walk_piece sn0 cmp ack p (cs_lists st)"
      "over \<longrightarrow> cs_cur_wait st1 = [] \<and> cs_cur_retx st1 = []"
    using am_process_piece_ok [OF Cons.prems] by blast
  show ?case
  proof (cases over)
    case True
    with st1(6) have "walk_pieces sn0 cmp ack ps (cs_lists st1) = cs_lists st1"
      by (simp add: cs_lists_def walk_pieces_over)
    with True st1 show ?thesis by (simp add: walk_pieces_def)
  next
    case False
    have "cmp = am_sn_compare_tx (cs_e st1)" using Cons.prems(3) am_frame_sel [OF st1(3)] by simp
    from Cons.IH [OF st1(2,4) this] obtain st' where "am_process_pieces ack ps st1 = Inr st'" "ctrl_inv T sn0 st'"
        "am_frame (cs_e st1) (cs_e st')" "walk_ok (cs_lists st')" "cs_lists st' = walk_pieces sn0 cmp ack ps (cs_lists st1)"
      by blast
    with st1 False am_frame_trans [OF st1(3)] show ?thesis by (simp add: walk_pieces_def)
  qed
qed

lemma am_process_nacks_ok:
  assumes "ctrl_inv T sn0 st" "walk_ok (cs_lists st)" "cmp = am_sn_compare_tx (cs_e st)" "m = am_sn_modulus (cs_e st)"
  shows "\<exists>st'. am_process_nacks ack ns st = Inr st' \<and> ctrl_inv T sn0 st' \<and> am_frame (cs_e st) (cs_e st') \<and>
    walk_ok (cs_lists st') \<and> cs_lists st' = walk_pieces sn0 cmp ack (concat (map (nack_pieces m) ns)) (cs_lists st)"
  using assms
proof (induction ns arbitrary: st)
  case Nil
  then show ?case by (simp add: walk_pieces_def)
next
  case (Cons n ns)
  obtain st1 where st1: "am_process_pieces ack (nack_pieces m n) st = Inr st1" "ctrl_inv T sn0 st1" "am_frame (cs_e st) (cs_e st1)"
      "walk_ok (cs_lists st1)" "cs_lists st1 = walk_pieces sn0 cmp ack (nack_pieces m n) (cs_lists st)"
    using am_process_pieces_ok [OF Cons.prems(1,2,3)] by blast
  define st2 where "st2 = (let e = cs_e st1 in
    if am_sn_compare_tx e (ni_nack_sn n) (am_poll_sn e) \<le> 0 \<and>
       am_sn_compare_tx e (am_poll_sn e) ((ni_nack_sn n + ni_range n) mod am_sn_modulus e) < 0
    then st1\<lparr>cs_e := e\<lparr>am_t_poll_retransmit_start := 0\<rparr>\<rparr> else st1)"
  have lists: "cs_lists st2 = cs_lists st1" by (simp add: st2_def Let_def cs_lists_def)
  have frame: "am_frame (cs_e st1) (cs_e st2)" by (auto simp: st2_def Let_def)
  have "cs_tail_ok st2 = cs_tail_ok st1" by (rule cs_tail_ok_cong) (simp_all add: st2_def Let_def cs_wait_def)
  then have inv: "ctrl_inv T sn0 st2" using st1(2) by (simp add: ctrl_inv_def st2_def Let_def cs_segs_def cs_wait_def)
  have cmp: "cmp = am_sn_compare_tx (cs_e st2)" "m = am_sn_modulus (cs_e st2)"
    using Cons.prems(3,4) am_frame_sel [OF am_frame_trans [OF st1(3) frame]] by simp_all
  obtain st3 where "am_process_nacks ack ns st2 = Inr st3" "ctrl_inv T sn0 st3" "am_frame (cs_e st2) (cs_e st3)"
      "walk_ok (cs_lists st3)" "cs_lists st3 = walk_pieces sn0 cmp ack (concat (map (nack_pieces m) ns)) (cs_lists st2)"
    using Cons.IH [OF inv _ cmp] st1(4) lists by auto
  moreover have "am_process_nacks ack (n # ns) st = am_process_nacks ack ns st2"
    using st1(1) Cons.prems(4) by (simp add: st2_def Let_def)
  ultimately show ?case
    using st1 lists am_frame_trans [OF am_frame_trans [OF st1(3) frame]] by (simp add: walk_pieces_def)
qed

text \<open>The acknowledgement of what is left of the two lists.\<close>

lemma am_ack_wait_ok:
  assumes "ctrl_inv T sn0 (st\<lparr>cs_cur_wait := l\<rparr>)" "cmp = am_sn_compare_tx (cs_e st)"
  shows "\<exists>st'. am_ack_wait ack l st = Inr st' \<and> ctrl_inv T sn0 st' \<and> am_frame (cs_e st) (cs_e st') \<and>
    cs_lists st' = (cs_kept st, dropWhile (\<lambda>w. cmp (sn0 w) ack < 0) l, cs_rest_wait st, cs_new_retx st, cs_cur_retx st)"
  using assms
proof (induction l arbitrary: st)
  case Nil
  then show ?case by (simp add: cs_lists_def)
next
  case (Cons w ws)
  let ?st = "st\<lparr>cs_cur_wait := w # ws\<rparr>" and ?h = "am_heap (cs_e st)"
  have sn: "seg_sn ?h w = sn0 w" using Cons.prems(1) by (simp add: ctrl_inv_def cs_segs_def cs_wait_def)
  show ?case
  proof (cases "cmp (sn0 w) ack < 0")
    case True
    let ?st1 = "st\<lparr>cs_cur_wait := ws\<rparr>"
    have "segs_ok ?h (w # T @ cs_segs ?st1)"
      by (rule segs_ok_perm [of _ "T @ cs_segs ?st"]) (use Cons.prems(1) in \<open>simp_all add: ctrl_inv_def cs_segs_def cs_wait_def\<close>)
    from am_free_acked_ok [OF this] obtain e1 where e1: "am_free_acked w (cs_e st) = Inr e1"
        "segs_ok (am_heap e1) (T @ cs_segs ?st1)" "same_sdus ?h (am_heap e1) (T @ cs_segs ?st1)" "am_frame (cs_e st) e1" by blast
    let ?st2 = "st\<lparr>cs_e := e1, cs_end_wait := cs_unlink w st\<rparr>"
    have eq: "cs_segs (?st2\<lparr>cs_cur_wait := ws\<rparr>) = cs_segs ?st1" by (simp add: cs_segs_def cs_wait_def)
    have inv: "ctrl_inv T sn0 (?st2\<lparr>cs_cur_wait := ws\<rparr>)"
    proof (rule ctrl_inv_heap [OF Cons.prems(1), of e1])
      show "set (cs_segs (?st2\<lparr>cs_cur_wait := ws\<rparr>)) \<subseteq> set (cs_segs ?st)" by (auto simp: cs_segs_def cs_wait_def)
      show "cs_tail_ok (?st2\<lparr>cs_cur_wait := ws\<rparr>)"
      proof (rule cs_unlink_ok [of ?st w ws])
        show "cs_tail_ok ?st" using Cons.prems(1) by (simp add: ctrl_inv_def)
        show "distinct (map seg_addr (cs_wait ?st))" using ctrl_inv_distinct [OF Cons.prems(1)] .
      qed (simp_all add: cs_unlink_def am_frame_sel [OF e1(4)])
    qed (use e1 eq in simp_all)
    have "cmp = am_sn_compare_tx (cs_e ?st2)" using Cons.prems(2) am_frame_sel [OF e1(4)] by simp
    from Cons.IH [OF inv this] obtain st' where "am_ack_wait ack ws ?st2 = Inr st'" "ctrl_inv T sn0 st'"
        "am_frame e1 (cs_e st')"
        "cs_lists st' = (cs_kept st, dropWhile (\<lambda>w. cmp (sn0 w) ack < 0) ws, cs_rest_wait st, cs_new_retx st, cs_cur_retx st)"
      by auto
    with True sn e1 Cons.prems(2) am_frame_trans [OF e1(4)] show ?thesis by simp
  next
    case False
    with sn Cons.prems show ?thesis by (simp add: cs_lists_def)
  qed
qed

lemma am_ack_retx_ok:
  assumes "ctrl_inv T sn0 (st\<lparr>cs_cur_retx := l\<rparr>)" "cmp = am_sn_compare_tx (cs_e st)"
  shows "\<exists>st'. am_ack_retx ack l st = Inr st' \<and> ctrl_inv T sn0 st' \<and> am_frame (cs_e st) (cs_e st') \<and>
    cs_lists st' = (cs_kept st, cs_cur_wait st, cs_rest_wait st, cs_new_retx st, dropWhile (\<lambda>w. cmp (sn0 w) ack < 0) l)"
  using assms
proof (induction l arbitrary: st)
  case Nil
  then show ?case by (simp add: cs_lists_def)
next
  case (Cons r rs)
  let ?st = "st\<lparr>cs_cur_retx := r # rs\<rparr>" and ?h = "am_heap (cs_e st)"
  let ?eu = "am_upd_common (ec_add_retx_size (- seg_pdu_size (cs_e st) r)) (cs_e st)"
  have sn: "seg_sn ?h r = sn0 r" using Cons.prems(1) by (simp add: ctrl_inv_def cs_segs_def cs_wait_def)
  show ?case
  proof (cases "cmp (sn0 r) ack < 0")
    case True
    let ?st1 = "st\<lparr>cs_cur_retx := rs\<rparr>"
    have "segs_ok (am_heap ?eu) (r # T @ cs_segs ?st1)"
      by (simp, rule segs_ok_perm [of _ "T @ cs_segs ?st"]) (use Cons.prems(1) in \<open>simp_all add: ctrl_inv_def cs_segs_def cs_wait_def\<close>)
    from am_free_acked_ok [OF this] obtain e1 where e1: "am_free_acked r ?eu = Inr e1"
        "segs_ok (am_heap e1) (T @ cs_segs ?st1)" "same_sdus (am_heap ?eu) (am_heap e1) (T @ cs_segs ?st1)" "am_frame ?eu e1" by blast
    have frame: "am_frame (cs_e st) e1" using am_frame_trans [OF am_frame_upd(1) e1(4)] .
    let ?st2 = "st\<lparr>cs_e := e1\<rparr>"
    have eq: "cs_segs (?st2\<lparr>cs_cur_retx := rs\<rparr>) = cs_segs ?st1" by (simp add: cs_segs_def cs_wait_def)
    have inv: "ctrl_inv T sn0 (?st2\<lparr>cs_cur_retx := rs\<rparr>)"
    proof (rule ctrl_inv_heap [OF Cons.prems(1), of e1])
      show "set (cs_segs (?st2\<lparr>cs_cur_retx := rs\<rparr>)) \<subseteq> set (cs_segs ?st)" by (auto simp: cs_segs_def cs_wait_def)
      have "cs_tail_ok (?st2\<lparr>cs_cur_retx := rs\<rparr>) = cs_tail_ok ?st"
        by (rule cs_tail_ok_cong) (simp_all add: cs_wait_def am_frame_sel [OF frame])
      then show "cs_tail_ok (?st2\<lparr>cs_cur_retx := rs\<rparr>)" using Cons.prems(1) by (simp add: ctrl_inv_def)
    qed (use e1 eq in simp_all)
    have "cmp = am_sn_compare_tx (cs_e ?st2)" using Cons.prems(2) am_frame_sel [OF frame] by simp
    from Cons.IH [OF inv this] obtain st' where "am_ack_retx ack rs ?st2 = Inr st'" "ctrl_inv T sn0 st'"
        "am_frame e1 (cs_e st')"
        "cs_lists st' = (cs_kept st, cs_cur_wait st, cs_rest_wait st, cs_new_retx st, dropWhile (\<lambda>w. cmp (sn0 w) ack < 0) rs)"
      by auto
    with True sn e1 Cons.prems(2) am_frame_trans [OF frame] show ?thesis by (simp add: Let_def)
  next
    case False
    with sn Cons.prems show ?thesis by (simp add: cs_lists_def Let_def)
  qed
qed

text \<open>
  The whole walk: what stays in the wait list, the new retransmit list.
\<close>

definition walk_result ::
  "(nr_rlc_sdu_segment \<Rightarrow> int) \<Rightarrow> (int \<Rightarrow> int \<Rightarrow> int) \<Rightarrow> int \<Rightarrow> (int \<times> int \<times> int) list \<Rightarrow>
   nr_rlc_sdu_segment list \<Rightarrow> nr_rlc_sdu_segment list \<Rightarrow> nr_rlc_sdu_segment list \<times> nr_rlc_sdu_segment list" where
  "walk_result sn0 cmp ack ps wait retx =
     (case walk_pieces sn0 cmp ack ps ([], wait, [], [], retx) of (k, cw, rest, nr, cr) \<Rightarrow>
        (k @ dropWhile (\<lambda>w. cmp (sn0 w) ack < 0) cw @ rest, nr @ dropWhile (\<lambda>w. cmp (sn0 w) ack < 0) cr))"

lemma am_apply_control_ok:
  assumes inv: "am_tx_inv e"
  shows "\<exists>e'. am_apply_control e ack nacks = Inr e' \<and> am_tx_inv e' \<and> am_tx_list e' = am_tx_list e \<and>
    (am_wait_list e', am_retransmit_list e') =
      walk_result (seg_sn (am_heap e)) (am_sn_compare_tx e) ack (concat (map (nack_pieces (am_sn_modulus e)) nacks))
        (am_wait_list e) (am_retransmit_list e) \<and>
    (\<forall>s \<in> set (am_wait_list e' @ am_retransmit_list e'). seg_sn (am_heap e') s = seg_sn (am_heap e) s) \<and>
    (\<exists>st. e' = am_control_finish ack st \<and> am_frame e (cs_e st))"
proof -
  let ?sn = "seg_sn (am_heap e)" and ?cmp = "am_sn_compare_tx e" and ?T = "am_tx_list e"
  let ?ps = "concat (map (nack_pieces (am_sn_modulus e)) nacks)"
  define e1 where "e1 = (if ?cmp (am_poll_sn e) ack < 0 then e\<lparr>am_t_poll_retransmit_start := 0\<rparr> else e)"
  have f1: "am_frame e e1" "am_common e1 = am_common e" by (auto simp: e1_def)
  define st where "st = \<lparr>cs_e = e1, cs_kept = [], cs_cur_wait = am_wait_list e1, cs_rest_wait = [],
    cs_end_wait = None, cs_new_retx = [], cs_cur_retx = am_retransmit_list e1\<rparr>"
  have lists: "cs_lists st = ([], am_wait_list e, [], [], am_retransmit_list e)"
    by (simp add: st_def cs_lists_def am_frame_sel [OF f1(1)])
  have i0: "ctrl_inv ?T ?sn st" "walk_ok (cs_lists st)"
    using inv f1(2) by (simp_all add: ctrl_inv_def am_tx_inv_def st_def cs_defs am_frame_sel [OF f1(1)] tail_ok_def cs_lists_def)
  obtain st1 where st1: "am_process_nacks ack nacks st = Inr st1" "ctrl_inv ?T ?sn st1" "am_frame e1 (cs_e st1)"
      "walk_ok (cs_lists st1)" "cs_lists st1 = walk_pieces ?sn ?cmp ack ?ps (cs_lists st)"
    using am_process_nacks_ok [OF i0, of ?cmp "am_sn_modulus e" ack nacks] am_frame_sel [OF f1(1)] by (auto simp: st_def)
  have c1: "?cmp = am_sn_compare_tx (cs_e st1)" using am_frame_sel [OF am_frame_trans [OF f1(1) st1(3)]] by simp
  have "ctrl_inv ?T ?sn (st1\<lparr>cs_cur_wait := cs_cur_wait st1\<rparr>)" using st1(2) by simp
  from am_ack_wait_ok [OF this c1] obtain st2 where st2: "am_ack_wait ack (cs_cur_wait st1) st1 = Inr st2" "ctrl_inv ?T ?sn st2"
      "am_frame (cs_e st1) (cs_e st2)" "cs_lists st2 = (cs_kept st1, dropWhile (\<lambda>w. ?cmp (?sn w) ack < 0) (cs_cur_wait st1),
        cs_rest_wait st1, cs_new_retx st1, cs_cur_retx st1)" by blast
  have f2: "am_frame e (cs_e st2)" using am_frame_trans f1(1) st1(3) st2(3) by blast
  have c2: "?cmp = am_sn_compare_tx (cs_e st2)" using am_frame_sel [OF f2] by simp
  have "ctrl_inv ?T ?sn (st2\<lparr>cs_cur_retx := cs_cur_retx st2\<rparr>)" using st2(2) by simp
  from am_ack_retx_ok [OF this c2] obtain st3 where st3: "am_ack_retx ack (cs_cur_retx st2) st2 = Inr st3" "ctrl_inv ?T ?sn st3"
      "am_frame (cs_e st2) (cs_e st3)" "cs_lists st3 = (cs_kept st2, cs_cur_wait st2, cs_rest_wait st2, cs_new_retx st2,
        dropWhile (\<lambda>w. ?cmp (?sn w) ack < 0) (cs_cur_retx st2))" by blast
  have f3: "am_frame e (cs_e st3)" using am_frame_trans f2 st3(3) by blast
  define e' where "e' = am_control_finish ack st3"
  have run: "am_apply_control e ack nacks = Inr e'"
    using st1(1) st2(1) st3(1) by (simp add: am_apply_control_def Let_def e1_def [symmetric] st_def [symmetric] e'_def)
  have res: "am_wait_list e' = cs_wait st3" "am_retransmit_list e' = cs_new_retx st3 @ cs_cur_retx st3"
      "am_wait_end e' = (case cs_end_wait st3 of None \<Rightarrow> am_wait_end (cs_e st3) | Some p \<Rightarrow> p)"
      "am_heap e' = am_heap (cs_e st3)" "am_tx_list e' = ?T" "am_tx_end e' = am_tx_end e"
    using am_frame_sel [OF f3] by (simp_all add: e'_def am_control_finish_def Let_def cs_wait_def)
  have "am_wait_end e' = end_addr (cs_wait st3)"
    using st3(2) res(3) by (auto simp: ctrl_inv_def cs_tail_ok_def split: option.splits)
  then have tx: "am_tx_inv e'"
    using st3(2) inv res ctrl_inv_distinct [OF st3(2)]
    by (simp add: am_tx_inv_def ctrl_inv_def cs_segs_def tail_ok_def end_addr_def)
  have "(am_wait_list e', am_retransmit_list e') = walk_result ?sn ?cmp ack ?ps (am_wait_list e) (am_retransmit_list e)"
    using st1(5) st2(4) st3(4) lists res unfolding walk_result_def
    by (auto simp: cs_lists_def cs_wait_def split: prod.splits)
  moreover have "\<forall>s \<in> set (am_wait_list e' @ am_retransmit_list e'). seg_sn (am_heap e') s = ?sn s"
    using st3(2) res by (auto simp: ctrl_inv_def cs_segs_def)
  ultimately show ?thesis using run tx f3 res(5) unfolding e'_def by blast
qed

section \<open>Where the segments go\<close>

text \<open>
  \<open>d\<close> is the distance of a sequence number from the modulus base. Segments are ordered by distance
  and offset; the pieces of the NACKs come one behind the other.
\<close>

definition seg_le :: "(nr_rlc_sdu_segment \<Rightarrow> int) \<Rightarrow> (int \<Rightarrow> int) \<Rightarrow> nr_rlc_sdu_segment \<Rightarrow> nr_rlc_sdu_segment \<Rightarrow> bool" where
  "seg_le sn0 d a b \<longleftrightarrow> d (sn0 a) < d (sn0 b) \<or> d (sn0 a) = d (sn0 b) \<and> seg_so a \<le> seg_so b"

definition piece_lt :: "(int \<Rightarrow> int) \<Rightarrow> int \<times> int \<times> int \<Rightarrow> int \<times> int \<times> int \<Rightarrow> bool" where
  "piece_lt d p q \<longleftrightarrow> (case (p, q) of ((n, s, t), (n', s', t')) \<Rightarrow>
     d n < d n' \<or> n = n' \<and> t \<noteq> -1 \<and> t < s' \<and> s \<le> s')"

definition sn_separated :: "(nr_rlc_sdu_segment \<Rightarrow> int) \<Rightarrow> (int \<Rightarrow> int) \<Rightarrow> nr_rlc_sdu_segment set \<Rightarrow> (int \<times> int \<times> int) set \<Rightarrow> bool" where
  "sn_separated sn0 d S P \<longleftrightarrow> (\<forall>s \<in> S. \<forall>p \<in> P. d (sn0 s) = d (fst p) \<longrightarrow> sn0 s = fst p)"

lemma sn_separated_mono: "sn_separated sn0 d S P \<Longrightarrow> S' \<subseteq> S \<Longrightarrow> P' \<subseteq> P \<Longrightarrow> sn_separated sn0 d S' P'"
  by (auto simp: sn_separated_def)

lemma seg_le_trans: "seg_le sn0 d a b \<Longrightarrow> seg_le sn0 d b c \<Longrightarrow> seg_le sn0 d a c"
  by (auto simp: seg_le_def)

lemma nack_hits_dist: "nack_hits sn0 p s \<Longrightarrow> sn0 s = fst p"
  by (auto simp: nack_hits_def)

text \<open>A segment that a piece has passed without hitting it is not hit by a later piece.\<close>

lemma passed_not_hit:
  assumes "\<not> nack_hits sn0 p s" "\<not> nack_before sn0 (\<lambda>a b. d a - d b) p s" "piece_lt d p q"
    "sn_separated sn0 d {s} {p}"
  shows "\<not> nack_hits sn0 q s"
  using assms by (auto simp: nack_hits_def nack_before_def piece_lt_def sn_separated_def so_overlap.simps split: if_splits)

text \<open>Behind a segment that a piece has not reached nothing is hit.\<close>

lemma unreached_not_hit:
  assumes "\<not> nack_hits sn0 p h" "nack_before sn0 (\<lambda>a b. d a - d b) p h" "seg_le sn0 d h s"
    "sn_separated sn0 d {h} {p}"
  shows "\<not> nack_hits sn0 p s"
  using assms by (auto simp: nack_hits_def nack_before_def seg_le_def sn_separated_def so_overlap.simps split: if_splits)

text \<open>The head that the walk takes is the smallest of both lists.\<close>

lemma walk_head_min:
  assumes "sorted_wrt (seg_le sn0 d) cw" "sorted_wrt (seg_le sn0 d) cr" "cw \<noteq> [] \<or> cr \<noteq> []"
  defines "take_wait \<equiv> cr = [] \<or> cw \<noteq> [] \<and> (d (sn0 (hd cw)) - d (sn0 (hd cr)) < 0 \<or>
      d (sn0 (hd cw)) - d (sn0 (hd cr)) = 0 \<and> seg_so (hd cw) < seg_so (hd cr))"
  shows "\<forall>x \<in> set cw \<union> set cr. seg_le sn0 d (if take_wait then hd cw else hd cr) x"
proof -
  have w: "seg_le sn0 d (hd cw) x" if "x \<in> set cw" for x
    using assms(1) that by (cases cw) (auto simp: seg_le_def)
  have r: "seg_le sn0 d (hd cr) x" if "x \<in> set cr" for x
    using assms(2) that by (cases cr) (auto simp: seg_le_def)
  show ?thesis
  proof (cases take_wait)
    case True
    then have "cr = [] \<or> seg_le sn0 d (hd cw) (hd cr)" by (auto simp: take_wait_def seg_le_def)
    then have "seg_le sn0 d (hd cw) x" if "x \<in> set cr" for x using that r seg_le_trans by fastforce
    with True w show ?thesis by auto
  next
    case False
    then have "cw = [] \<or> seg_le sn0 d (hd cr) (hd cw)" by (auto simp: take_wait_def seg_le_def)
    then have "seg_le sn0 d (hd cr) x" if "x \<in> set cw" for x using that w seg_le_trans by fastforce
    with False r show ?thesis by auto
  qed
qed

text \<open>
  What a piece below the ACK does: it consumes a front part of both lists (\<open>cw1\<close>, \<open>cr1\<close>), puts what
  it hits in order into the new list (\<open>X\<close>), and leaves nothing behind that it hits.
\<close>

definition piece_result ::
  "(nr_rlc_sdu_segment \<Rightarrow> int) \<Rightarrow> (int \<Rightarrow> int) \<Rightarrow> (nr_rlc_sdu_segment \<Rightarrow> bool) \<Rightarrow> (nr_rlc_sdu_segment \<Rightarrow> bool) \<Rightarrow>
   nr_rlc_sdu_segment list \<Rightarrow> nr_rlc_sdu_segment list \<Rightarrow> nr_rlc_sdu_segment list \<Rightarrow> walk \<Rightarrow> bool" where
  "piece_result sn0 d hit pass cw nr cr W \<longleftrightarrow>
     (\<exists>cw1 cw2 cr1 cr2 X. cw = cw1 @ cw2 \<and> cr = cr1 @ cr2 \<and> W = ([], cw2, [], nr @ X, cr2) \<and>
        mset X = filter_mset hit (mset (cw1 @ cr1)) \<and> sorted_wrt (seg_le sn0 d) X \<and>
        (\<forall>x \<in> set (cw1 @ cr1). pass x \<and> (\<forall>y \<in> set (cw2 @ cr2). seg_le sn0 d x y)) \<and>
        (\<forall>y \<in> set (cw2 @ cr2). \<not> hit y))"

lemma walk_step_cases:
  assumes "d (fst p) < d ack" "sn_separated sn0 d (set cw \<union> set cr) {p}" "cw \<noteq> [] \<or> cr \<noteq> []"
  defines "take_wait \<equiv> cr = [] \<or> cw \<noteq> [] \<and> (d (sn0 (hd cw)) - d (sn0 (hd cr)) < 0 \<or>
      d (sn0 (hd cw)) - d (sn0 (hd cr)) = 0 \<and> seg_so (hd cw) < seg_so (hd cr))"
  defines "h \<equiv> if take_wait then hd cw else hd cr"
  shows "walk_step sn0 (\<lambda>a b. d a - d b) ack p ([], cw, [], nr, cr) =
    (if \<not> nack_hits sn0 p h \<and> nack_before sn0 (\<lambda>a b. d a - d b) p h then (DoneNack, ([], cw, [], nr, cr))
     else (NextPdu, ([], if take_wait then tl cw else cw, [], nr @ (if nack_hits sn0 p h then [h] else []),
            if take_wait then cr else tl cr)))"
proof -
  have h: "h \<in> set cw \<union> set cr" using assms(3) by (cases cw; cases cr) (auto simp: h_def take_wait_def)
  have ack: "d (sn0 h) < d ack" if "\<not> nack_before sn0 (\<lambda>a b. d a - d b) p h"
    using that assms(1) by (cases p) (auto simp: nack_before_def)
  let ?cmp = "\<lambda>a b. d a - d b"
  have step: "walk_step sn0 ?cmp ack p ([], cw, [], nr, cr) =
     (if take_wait
      then let w = hd cw; ws = tl cw
           in if nack_hits sn0 p w then (NextPdu, ([], ws, [], nr @ [w], cr))
              else if nack_before sn0 ?cmp p w then (DoneNack, ([], cw, [], nr, cr))
              else if ?cmp (sn0 w) ack < 0 then (NextPdu, ([], ws, [], nr, cr))
              else if ?cmp (sn0 w) ack > 0 then (NextPdu, ([], [], cw, nr, cr))
              else (NextPdu, ([] @ [w], ws, [], nr, cr))
      else let r = hd cr; rs = tl cr
           in if nack_hits sn0 p r then (NextPdu, ([], cw, [], nr @ [r], rs))
              else if nack_before sn0 ?cmp p r then (DoneNack, ([], cw, [], nr, cr))
              else if ?cmp (sn0 r) ack < 0 then (NextPdu, ([], cw, [], nr, rs))
              else if cw = [] then (ListsOver, ([], cw, [], nr, []))
              else (NextPdu, ([], cw, [], nr @ [r], rs)))"
    unfolding take_wait_def using assms(3) by (cases cw; cases cr) (simp_all add: walk_step.simps)
  show ?thesis
    unfolding step using ack by (cases take_wait) (auto simp: Let_def h_def)
qed

lemma piece_result_step:
  assumes W: "piece_result sn0 d hit pass (if tw then tl cw else cw) (nr @ (if hit h then [h] else [])) (if tw then cr else tl cr) W"
    and h: "if tw then cw \<noteq> [] \<and> h = hd cw else cr \<noteq> [] \<and> h = hd cr"
    and min: "\<forall>x \<in> set cw \<union> set cr. seg_le sn0 d h x" and "pass h"
  shows "piece_result sn0 d hit pass cw nr cr W"
proof -
  obtain cw1 cw2 cr1 cr2 X where r: "(if tw then tl cw else cw) = cw1 @ cw2" "(if tw then cr else tl cr) = cr1 @ cr2"
      "W = ([], cw2, [], (nr @ (if hit h then [h] else [])) @ X, cr2)" "mset X = filter_mset hit (mset (cw1 @ cr1))"
      "sorted_wrt (seg_le sn0 d) X" "\<forall>x \<in> set (cw1 @ cr1). pass x \<and> (\<forall>y \<in> set (cw2 @ cr2). seg_le sn0 d x y)"
      "\<forall>y \<in> set (cw2 @ cr2). \<not> hit y"
    using W by (auto simp: piece_result_def)
  let ?cw1 = "if tw then h # cw1 else cw1" and ?cr1 = "if tw then cr1 else h # cr1" and ?X = "(if hit h then [h] else []) @ X"
  have eq: "cw = ?cw1 @ cw2" "cr = ?cr1 @ cr2"
    using r(1,2) h by (auto split: if_split_asm) (metis list.collapse)+
  have X: "set X \<subseteq> set (cw1 @ cr1)" using r(4) by (metis filter_mset_eq_conv mset_subset_eqD set_mset_mset subsetI multiset_filter_subset)
  have sub: "set (cw1 @ cr1) \<subseteq> set cw \<union> set cr" "set (cw2 @ cr2) \<subseteq> set cw \<union> set cr"
    unfolding eq by auto
  have "mset ?X = filter_mset hit (mset (?cw1 @ ?cr1))" using r(4) by auto
  moreover have "sorted_wrt (seg_le sn0 d) ?X" using r(5) X sub(1) min by auto
  moreover have "\<forall>x \<in> set (?cw1 @ ?cr1). pass x \<and> (\<forall>y \<in> set (cw2 @ cr2). seg_le sn0 d x y)"
    using r(6) min sub(2) \<open>pass h\<close> by auto
  ultimately show ?thesis
    unfolding piece_result_def using eq r(3,7)
    by (intro exI [of _ ?cw1] exI [of _ cw2] exI [of _ ?cr1] exI [of _ cr2] exI [of _ ?X]) simp
qed

lemma walk_piece_result:
  assumes "d (fst p) < d ack" "sn_separated sn0 d (set cw \<union> set cr) {p}"
    and "sorted_wrt (seg_le sn0 d) cw" "sorted_wrt (seg_le sn0 d) cr"
  shows "piece_result sn0 d (nack_hits sn0 p)
    (\<lambda>s. d (sn0 s) < d ack \<and> (nack_hits sn0 p s \<or> \<not> nack_before sn0 (\<lambda>a b. d a - d b) p s))
    cw nr cr (walk_piece sn0 (\<lambda>a b. d a - d b) ack p ([], cw, [], nr, cr))"
  using assms
proof (induction "length cw + length cr" arbitrary: cw cr nr rule: less_induct)
  case less
  let ?cmp = "\<lambda>a b. d a - d b"
  let ?pass = "\<lambda>s. d (sn0 s) < d ack \<and> (nack_hits sn0 p s \<or> \<not> nack_before sn0 ?cmp p s)"
  show ?case
  proof (cases "cw \<noteq> [] \<or> cr \<noteq> []")
    case False
    then show ?thesis by (auto simp: piece_result_def walk_piece_over)
  next
    case True
    define tw where "tw \<longleftrightarrow> cr = [] \<or> cw \<noteq> [] \<and> (d (sn0 (hd cw)) - d (sn0 (hd cr)) < 0 \<or>
      d (sn0 (hd cw)) - d (sn0 (hd cr)) = 0 \<and> seg_so (hd cw) < seg_so (hd cr))"
    define h where "h = (if tw then hd cw else hd cr)"
    have hd: "if tw then cw \<noteq> [] \<and> h = hd cw else cr \<noteq> [] \<and> h = hd cr" using True by (auto simp: h_def tw_def)
    have mem: "h \<in> set cw \<union> set cr" using hd by (auto split: if_split_asm)
    have min: "\<forall>x \<in> set cw \<union> set cr. seg_le sn0 d h x"
      using walk_head_min [OF less.prems(3,4) True] by (simp add: h_def tw_def)
    note step = walk_step_cases [OF less.prems(1,2) True, of nr, folded tw_def, folded h_def]
    have sep: "sn_separated sn0 d {h} {p}" by (rule sn_separated_mono [OF less.prems(2)]) (use mem in auto)
    show ?thesis
    proof (cases "\<not> nack_hits sn0 p h \<and> nack_before sn0 ?cmp p h")
      case c: True
      then have "\<forall>y \<in> set cw \<union> set cr. \<not> nack_hits sn0 p y" using unreached_not_hit [OF _ _ _ sep] min by blast
      moreover have "walk_piece sn0 ?cmp ack p ([], cw, [], nr, cr) = ([], cw, [], nr, cr)"
        using c step by (simp add: walk_piece.simps [of _ _ _ _ "([], cw, [], nr, cr)"])
      ultimately show ?thesis
        unfolding piece_result_def
        by (intro exI [of _ "[]"] exI [of _ cw] exI [of _ "[]"] exI [of _ cr] exI [of _ "[]"]) auto
    next
      case c: False
      let ?cw = "if tw then tl cw else cw" and ?cr = "if tw then cr else tl cr"
      let ?nr = "nr @ (if nack_hits sn0 p h then [h] else [])"
      have len: "length ?cw + length ?cr < length cw + length cr" using hd by auto
      have sub: "set ?cw \<union> set ?cr \<subseteq> set cw \<union> set cr" using hd by (auto dest: list.set_sel(2) split: if_split_asm)
      have "sorted_wrt (seg_le sn0 d) ?cw" "sorted_wrt (seg_le sn0 d) ?cr"
        using less.prems(3,4) by (cases cw; simp) (use less.prems(4) in \<open>cases cr; simp\<close>)
      from less.hyps [OF len less.prems(1) sn_separated_mono [OF less.prems(2) sub] this]
      have "piece_result sn0 d (nack_hits sn0 p) ?pass ?cw ?nr ?cr (walk_piece sn0 ?cmp ack p ([], ?cw, [], ?nr, ?cr))" by blast
      moreover have "?pass h"
      proof -
        have "d (sn0 h) \<le> d (fst p)" using c nack_hits_dist [of sn0 p h] by (cases p) (auto simp: nack_before_def)
        with c less.prems(1) show ?thesis by auto
      qed
      ultimately have "piece_result sn0 d (nack_hits sn0 p) ?pass cw nr cr (walk_piece sn0 ?cmp ack p ([], ?cw, [], ?nr, ?cr))"
        by (rule piece_result_step [OF _ hd min])
      moreover have "walk_piece sn0 ?cmp ack p ([], cw, [], nr, cr) = walk_piece sn0 ?cmp ack p ([], ?cw, [], ?nr, ?cr)"
        using step c by (simp add: walk_piece.simps [of _ _ _ _ "([], cw, [], nr, cr)"])
      ultimately show ?thesis by simp
    qed
  qed
qed

lemma walk_pieces_result:
  assumes "\<forall>p \<in> set ps. d (fst p) < d ack" "sn_separated sn0 d (set cw \<union> set cr) (set ps)"
    and "sorted_wrt (seg_le sn0 d) cw" "sorted_wrt (seg_le sn0 d) cr" "sorted_wrt (piece_lt d) ps"
  shows "piece_result sn0 d (\<lambda>s. \<exists>p \<in> set ps. nack_hits sn0 p s) (\<lambda>s. d (sn0 s) < d ack)
    cw nr cr (walk_pieces sn0 (\<lambda>a b. d a - d b) ack ps ([], cw, [], nr, cr))"
  using assms
proof (induction ps arbitrary: cw nr cr)
  case Nil
  then show ?case by (auto simp: walk_pieces_def piece_result_def)
next
  case (Cons p ps)
  let ?cmp = "\<lambda>a b. d a - d b"
  obtain cw1 cw2 cr1 cr2 X where r: "cw = cw1 @ cw2" "cr = cr1 @ cr2"
      "walk_piece sn0 ?cmp ack p ([], cw, [], nr, cr) = ([], cw2, [], nr @ X, cr2)"
      "mset X = filter_mset (nack_hits sn0 p) (mset (cw1 @ cr1))" "sorted_wrt (seg_le sn0 d) X"
      "\<forall>x \<in> set (cw1 @ cr1). (d (sn0 x) < d ack \<and> (nack_hits sn0 p x \<or> \<not> nack_before sn0 ?cmp p x)) \<and>
        (\<forall>y \<in> set (cw2 @ cr2). seg_le sn0 d x y)"
      "\<forall>y \<in> set (cw2 @ cr2). \<not> nack_hits sn0 p y"
    using walk_piece_result [of d p ack sn0 cw cr nr] Cons.prems sn_separated_mono [OF Cons.prems(2), of "set cw \<union> set cr" "{p}"]
    by (auto simp: piece_result_def)
  have sep: "sn_separated sn0 d (set cw2 \<union> set cr2) (set ps)"
    by (rule sn_separated_mono [OF Cons.prems(2)]) (use r(1,2) in auto)
  obtain cw3 cw4 cr3 cr4 Y where q: "cw2 = cw3 @ cw4" "cr2 = cr3 @ cr4"
      "walk_pieces sn0 ?cmp ack ps ([], cw2, [], nr @ X, cr2) = ([], cw4, [], (nr @ X) @ Y, cr4)"
      "mset Y = filter_mset (\<lambda>s. \<exists>p \<in> set ps. nack_hits sn0 p s) (mset (cw3 @ cr3))" "sorted_wrt (seg_le sn0 d) Y"
      "\<forall>x \<in> set (cw3 @ cr3). d (sn0 x) < d ack \<and> (\<forall>y \<in> set (cw4 @ cr4). seg_le sn0 d x y)"
      "\<forall>y \<in> set (cw4 @ cr4). \<not> (\<exists>p \<in> set ps. nack_hits sn0 p y)"
    using Cons.IH [of cw2 cr2 "nr @ X"] Cons.prems sep r(1,2) by (auto simp: piece_result_def sorted_wrt_append)
  have freed: "\<not> nack_hits sn0 q x" if "x \<in> set (cw1 @ cr1)" "\<not> nack_hits sn0 p x" "q \<in> set ps" for q x
    by (rule passed_not_hit [OF that(2)])
      (use that r(1,2,6) Cons.prems(5) sn_separated_mono [OF Cons.prems(2), of "{x}" "{p}"] in auto)
  have X: "set X \<subseteq> set (cw1 @ cr1)" and Y: "set Y \<subseteq> set (cw3 @ cr3)"
    using r(4) q(4) by (metis multiset_filter_subset set_mset_mono set_mset_mset)+
  have "mset (X @ Y) = filter_mset (\<lambda>s. \<exists>p \<in> set (p # ps). nack_hits sn0 p s) (mset ((cw1 @ cw3) @ (cr1 @ cr3)))"
  proof -
    have "filter_mset (nack_hits sn0 p) (mset (cw1 @ cr1)) =
        filter_mset (\<lambda>s. \<exists>p \<in> set (p # ps). nack_hits sn0 p s) (mset (cw1 @ cr1))"
      using freed by (intro filter_mset_cong) auto
    moreover have "filter_mset (\<lambda>s. \<exists>p \<in> set ps. nack_hits sn0 p s) (mset (cw3 @ cr3)) =
        filter_mset (\<lambda>s. \<exists>p \<in> set (p # ps). nack_hits sn0 p s) (mset (cw3 @ cr3))"
      using r(7) q(1,2) by (intro filter_mset_cong) auto
    ultimately show ?thesis using r(4) q(4) by simp
  qed
  moreover have "sorted_wrt (seg_le sn0 d) (X @ Y)"
    using r(5,6) q(1,2,5) X Y by (auto simp: sorted_wrt_append)
  moreover have "walk_pieces sn0 ?cmp ack (p # ps) ([], cw, [], nr, cr) = ([], cw4, [], nr @ X @ Y, cr4)"
    using r(3) q(3) by (simp add: walk_pieces_def)
  moreover have "cw = (cw1 @ cw3) @ cw4" "cr = (cr1 @ cr3) @ cr4" unfolding r(1,2) q(1,2) by simp_all
  moreover have "\<forall>x \<in> set ((cw1 @ cw3) @ (cr1 @ cr3)). d (sn0 x) < d ack \<and> (\<forall>y \<in> set (cw4 @ cr4). seg_le sn0 d x y)"
    using r(6) q(6) unfolding q(1,2) by (simp add: ball_Un)
  moreover have "\<forall>y \<in> set (cw4 @ cr4). \<not> (\<exists>p \<in> set (p # ps). nack_hits sn0 p y)"
    using r(7) q(7) unfolding q(1,2) by (simp add: ball_Un)
  ultimately show ?case unfolding piece_result_def by blast
qed

end
