(* ===== verification/Rlc_Am_Wire.thy ===== *)
theory Rlc_Am_Wire
  imports Rlc_Am_Tx Rlc_Am_Ctrl_Proofs
begin

text \<open>
  The data PDU on the wire: what \<open>serialize_sdu\<close> writes, \<open>nr_rlc_entity_am_recv_pdu\<close> reads back. The
  poll bit is written last, with an OR into the first byte.
\<close>

declare get_fields.simps(2) [simp del]

lemma byte_bits_or_poll: "byte_bits (w OR 0x40) = (byte_bits w)[1 := True]"
proof -
  have "bit (w OR 0x40) n = (bit w n \<or> n = 6)" if "n < 8" for n
    using that by (auto simp: bit_or_iff bit_numeral_rec less_Suc_eq numeral_eq_Suc)
  moreover have "rev [0..<8] = [7, 6, 5, 4, 3, 2, 1, 0 :: nat]" by (simp add: upt_rec)
  ultimately show ?thesis by (simp add: byte_bits_def)
qed

text \<open>The fields as the receiver reads them.\<close>

definition am_wire_fields :: "nr_rlc_entity_am \<Rightarrow> nr_rlc_sdu_segment \<Rightarrow> bool \<Rightarrow> (int \<times> nat) list" where
  "am_wire_fields e s p =
     [(1, 1), (of_bool p, 1), (2 * of_bool (\<not> seg_is_first s) + of_bool (\<not> seg_is_last s), 2)] @
     (if am_sn_field_length e = 18 then [(0, 2)] else []) @
     [(seg_sn (am_heap e) s, am_sn_field_length e)] @
     (if \<not> seg_is_first s then [(seg_so s, 16)] else [])"

lemma am_header_wire:
  "fields_bits (am_header_fields e s) = fields_bits (am_wire_fields e s False)"
  "(fields_bits (am_wire_fields e s False))[1 := True] = fields_bits (am_wire_fields e s True)"
  by (cases "seg_is_first s"; cases "seg_is_last s";
      simp add: am_header_fields_def am_wire_fields_def int_bits_def numeral_eq_Suc bit_Suc bit_0)+

lemma am_header_length:
  assumes "am_config_ok e"
  shows "int (length (fields_bits (am_wire_fields e s p))) = 8 * am_compute_pdu_header_size e s"
    "8 dvd length (fields_bits (am_wire_fields e s p))" "2 \<le> am_compute_pdu_header_size e s"
    "am_compute_pdu_header_size e s \<le> 5"
  using assms by (auto simp: am_wire_fields_def am_compute_pdu_header_size_def am_config_ok_def)

definition am_wire_header :: "nr_rlc_entity_am \<Rightarrow> nr_rlc_sdu_segment \<Rightarrow> bool \<Rightarrow> byte list \<Rightarrow> bool" where
  "am_wire_header e s p hdr \<longleftrightarrow> bytes_bits hdr = fields_bits (am_wire_fields e s p)"

definition seg_bytes :: "rlc_heap \<Rightarrow> nr_rlc_sdu_segment \<Rightarrow> byte list" where
  "seg_bytes h s = take (nat (seg_size s)) (drop (nat (seg_so s)) (sdu_data (sdu_of h s)))"

definition am_polled :: "bool \<Rightarrow> nr_rlc_entity_am \<Rightarrow> nr_rlc_entity_am" where
  "am_polled p e = (if p then e\<lparr>am_pdu_without_poll := 0, am_byte_without_poll := 0,
     am_poll_sn := (am_tx_next e - 1 + am_sn_modulus e) mod am_sn_modulus e,
     am_t_poll_retransmit_start := am_t_current e\<rparr> else e)"

lemma length_seg_bytes: "seg_ok h s \<Longrightarrow> int (length (seg_bytes h s)) = seg_size s"
  by (auto simp: seg_bytes_def seg_ok_def)

text \<open>
  Serialisation writes the header and the data to the front of the buffer.
\<close>

lemma serialize_sdu_ok:
  assumes cfg: "am_config_ok e" and seg: "seg_ok (am_heap e) s"
    and room: "am_compute_pdu_header_size e s + seg_size s \<le> int (length buffer)"
  shows "\<exists>hdr b. serialize_sdu e s buffer p = Inr (am_compute_pdu_header_size e s + seg_size s, b, am_polled p e) \<and>
    length b = length buffer \<and> am_wire_header e s p hdr \<and> int (length hdr) = am_compute_pdu_header_size e s \<and>
    take (nat (am_compute_pdu_header_size e s + seg_size s)) b = hdr @ seg_bytes (am_heap e) s"
proof -
  let ?fs = "am_header_fields e s" and ?h = "am_compute_pdu_header_size e s" and ?d = "seg_bytes (am_heap e) s"
  have len: "int (length (fields_bits ?fs)) = 8 * ?h" "8 dvd length (fields_bits ?fs)" "2 \<le> ?h"
    using am_header_length [OF cfg, of s] unfolding am_header_wire(1) by auto
  have sz: "int (length ?d) = seg_size s" by (rule length_seg_bytes [OF seg])
  have k: "\<forall>(v, k) \<in> set ?fs. k \<le> 31" using cfg by (auto simp: am_header_fields_def am_config_ok_def)
  have "length (fields_bits ?fs) \<le> 8 * length buffer" using len(1) room sz by linarith
  then obtain en where en: "put_fields (nr_rlc_pdu_encoder_init buffer) ?fs = Inr en" "enc_at en (fields_bits ?fs) (length buffer)"
    using put_fields_at [OF enc_init_at _ k, of buffer] by auto
  have byte: "enc_byte en = ?h" using enc_at_byte [OF en(2)] len by simp
  let ?hdr = "take (nat ?h) (enc_buffer en)"
  have buf: "length (enc_buffer en) = length buffer" using en(2) by (simp add: enc_at_def)
  have hl: "length ?hdr = nat ?h" using room sz len(3) buf by simp
  have "length (fields_bits ?fs) div 8 = nat ?h" using len(1) by linarith
  then have bits: "bytes_bits ?hdr = fields_bits ?fs"
    using enc_at_aligned [OF en(2) len(2)] by simp
  obtain b bs where hdr: "?hdr = b # bs" using hl len(3) by (cases ?hdr) auto
  have sl: "slice (sdu_data (sdu_of (am_heap e) s)) (seg_so s) (seg_size s) = Inr ?d"
    using seg by (simp add: slice_ok seg_ok_def seg_bytes_def)
  let ?t = "drop (nat ?h + length ?d) (enc_buffer en)"
  have bl: "blit (enc_buffer en) ?h ?d = Inr (?hdr @ ?d @ ?t)"
    using blit_ok [of ?h ?d "enc_buffer en"] len(3) room sz buf by simp
  have all: "length (?hdr @ ?d @ ?t) = length buffer" using blit_length [OF bl] buf by simp
  have n: "nat (?h + seg_size s) = length ?hdr + length ?d" using hl sz len(3) by linarith
  show ?thesis
  proof (cases p)
    case False
    have "am_wire_header e s p ?hdr" using bits False by (simp add: am_wire_header_def am_header_wire)
    moreover have "serialize_sdu e s buffer p = Inr (?h + seg_size s, ?hdr @ ?d @ ?t, am_polled p e)"
      using en(1) sl bl byte False by (simp add: serialize_sdu_def am_polled_def)
    ultimately show ?thesis using all hl n len(3) by (intro exI [of _ ?hdr] exI [of _ "?hdr @ ?d @ ?t"]) simp
  next
    case True
    let ?hdr' = "(b OR 0x40) # bs"
    have "bytes_bits ?hdr' = (bytes_bits ?hdr)[1 := True]" unfolding hdr
      by (simp add: byte_bits_or_poll list_update_append)
    then have "am_wire_header e s p ?hdr'"
      using bits True am_header_wire by (simp add: am_wire_header_def del: One_nat_def bytes_bits_Cons)
    moreover have "length ?hdr' = length ?hdr" unfolding hdr by simp
    moreover have "serialize_sdu e s buffer p = Inr (?h + seg_size s, ?hdr' @ ?d @ ?t, am_polled p e)"
      using en(1) sl bl byte True unfolding hdr by (simp add: serialize_sdu_def include_poll_def am_polled_def)
    moreover have "take (nat (?h + seg_size s)) (?hdr' @ ?d @ ?t) = ?hdr' @ ?d"
      using n hdr by (simp only: length_append) simp
    moreover have "length (?hdr' @ ?d @ ?t) = length buffer" using all hdr by simp
    moreover have "int (length ?hdr') = ?h" using hl len(3) hdr by simp
    ultimately show ?thesis by blast
  qed
qed

text \<open>
  What the receiver reads: the D/C bit, then the header, then the data.
\<close>

lemma si_bits:
  "((2 * of_bool (\<not> f) + of_bool (\<not> l) :: int) AND 2 = 0) = f" "((2 * of_bool (\<not> f) + of_bool (\<not> l) :: int) AND 1 = 0) = l"
  by (cases f; cases l; simp)+

lemma get_bits_field:
  assumes "dec_at d buf n" "drop n (bytes_bits buf) = int_bits v k @ r" "k \<le> 31" "0 \<le> v" "v < 2 ^ k"
    and m: "m = n + k"
  shows "\<exists>d'. nr_rlc_pdu_decoder_get_bits d k = Inr (v, d') \<and> dec_at d' buf m \<and> \<not> dec_error d' \<and>
    drop m (bytes_bits buf) = r"
proof -
  have "n \<le> 8 * length buf" using assms(1) by (auto simp: dec_at_def dec_ok_def)
  moreover have "length (drop n (bytes_bits buf)) = k + length r" unfolding assms(2) by simp
  ultimately have "n + k \<le> 8 * length buf" by simp
  moreover have "drop (n + k) (bytes_bits buf) = r"
    using arg_cong [OF assms(2), of "drop k"] by (simp add: add.commute)
  ultimately show ?thesis
    using get_bits_at [OF assms(1) _ assms(3)] assms(2,4,5)
    by (auto simp: m bits_int_int_bits_id dec_at_def dec_ok_def)
qed

lemma get_fields_field:
  assumes "dec_at d buf n" "drop n (bytes_bits buf) = fields_bits fs @ r"
    and "\<forall>(v, k) \<in> set fs. k \<le> 31 \<and> 0 \<le> v \<and> v < 2 ^ k"
  shows "\<exists>d'. get_fields d (map snd fs) = Inr (map fst fs, d') \<and> dec_at d' buf (n + length (fields_bits fs)) \<and>
    \<not> dec_error d' \<and> drop (n + length (fields_bits fs)) (bytes_bits buf) = r"
proof -
  have "n \<le> 8 * length buf" using assms(1) by (auto simp: dec_at_def dec_ok_def)
  from get_fields_at [OF assms(1,2) this assms(3)] arg_cong [OF assms(2), of "drop (length (fields_bits fs))"]
  show ?thesis by (auto simp: dec_at_def dec_ok_def add.commute)
qed

lemma am_read_wire:
  assumes cfg: "am_config_ok e" and hdr: "am_wire_header e s p hdr"
    and peer: "am_sn_field_length r = am_sn_field_length e"
    and sn: "am_sn_ok e (seg_sn (am_heap e) s)" and so: "seg_is_first s \<or> 0 < seg_so s \<and> seg_so s < 65536"
  shows "\<exists>d d'. nr_rlc_pdu_decoder_get_bits (nr_rlc_pdu_decoder_init (hdr @ data)) 1 = Inr (1, d) \<and> \<not> dec_error d \<and>
    am_read_data_header r d = Inr (Inr (of_bool p, seg_is_first s, seg_is_last s, seg_sn (am_heap e) s,
      if seg_is_first s then 0 else seg_so s, d')) \<and> drop (nat (dec_byte d')) (hdr @ data) = data"
proof -
  define buf where "buf = hdr @ data"
  let ?fs = "am_wire_fields e s p"
  let ?sn = "seg_sn (am_heap e) s" and ?si = "2 * of_bool (\<not> seg_is_first s) + of_bool (\<not> seg_is_last s) :: int"
  let ?mid = "(if am_sn_field_length e = 18 then [(0, 2)] else []) @ [(?sn, am_sn_field_length e)]"
  have fs: "?fs = (1, 1) # (of_bool p, 1) # (?si, 2) # ?mid @ (if \<not> seg_is_first s then [(seg_so s, 16)] else [])"
    by (simp add: am_wire_fields_def)
  have snk: "?sn < 2 ^ am_sn_field_length e" "0 \<le> ?sn" "am_sn_field_length e \<le> 31"
    using sn cfg by (auto simp: am_sn_ok_def am_config_ok_def)
  have bits: "bytes_bits buf = fields_bits ?fs @ bytes_bits data" using hdr by (simp add: am_wire_header_def buf_def)
  let ?so = "if seg_is_first s then [] else int_bits (seg_so s) 16"
  have b0: "drop 0 (bytes_bits buf) = int_bits 1 1 @ int_bits (of_bool p) 1 @ int_bits ?si 2 @
      fields_bits ?mid @ ?so @ bytes_bits data" unfolding bits fs by (simp add: fields_bits_def)
  obtain d where d: "nr_rlc_pdu_decoder_get_bits (nr_rlc_pdu_decoder_init buf) 1 = Inr (1, d)" "dec_at d buf 1" "\<not> dec_error d"
      "drop 1 (bytes_bits buf) = int_bits (of_bool p) 1 @ int_bits ?si 2 @ fields_bits ?mid @ ?so @ bytes_bits data"
    using get_bits_field [OF dec_init_at b0, of 1] by auto
  obtain d1 where d1: "nr_rlc_pdu_decoder_get_bits d 1 = Inr (of_bool p, d1)" "dec_at d1 buf 2" "\<not> dec_error d1"
      "drop 2 (bytes_bits buf) = int_bits ?si 2 @ fields_bits ?mid @ ?so @ bytes_bits data"
    using get_bits_field [OF d(2,4), of 2] by (cases p) auto
  obtain d2 where d2: "nr_rlc_pdu_decoder_get_bits d1 2 = Inr (?si, d2)" "dec_at d2 buf 4" "\<not> dec_error d2"
      "drop 4 (bytes_bits buf) = fields_bits ?mid @ ?so @ bytes_bits data"
    using get_bits_field [OF d1(2,4), of 4] by (cases "seg_is_first s"; cases "seg_is_last s") auto
  let ?n = "4 + length (fields_bits ?mid)"
  obtain d3 where d3: "get_fields d2 (map snd ?mid) = Inr (map fst ?mid, d3)" "dec_at d3 buf ?n" "\<not> dec_error d3"
      "drop ?n (bytes_bits buf) = ?so @ bytes_bits data"
    using get_fields_field [OF d2(2,4)] snk by (auto split: if_splits)
  have mid: "map snd ?mid = (if am_sn_field_length r = 18 then [2] else []) @ [am_sn_field_length r]"
      "last (map fst ?mid) = ?sn" using peer by auto
  have hd: "am_read_data_header r d = (if seg_is_first s then Inr (Inr (of_bool p, seg_is_first s, seg_is_last s, ?sn, 0, d3))
      else bindR (nr_rlc_pdu_decoder_get_bits d3 16) (\<lambda>(so, d4).
            if dec_error d4 then Inr (Inl (of_bool p))
            else if so = 0 then Inr (Inl (of_bool p))
            else Inr (Inr (of_bool p, seg_is_first s, seg_is_last s, ?sn, so, d4))))"
    unfolding am_read_data_header_def mid(1) [symmetric] d1(1) d2(1) d3(1) bindR_Inr prod.case Let_def si_bits mid(2)
    by (simp add: d1(3) d2(3) d3(1,3) mid(2) del: map_append last_map)
  have end_at: "drop (nat (dec_byte d')) buf = data" if "dec_at d' buf m" "drop m (bytes_bits buf) = bytes_bits data" for d' m
  proof -
    have "m \<le> 8 * length buf" using that(1) by (auto simp: dec_at_def dec_ok_def)
    moreover have "length (drop m (bytes_bits buf)) = 8 * length data" unfolding that(2) by simp
    ultimately have "m = 8 * length hdr" by (simp add: buf_def)
    with dec_at_byte [OF that(1)] show ?thesis by (simp add: buf_def)
  qed
  have "\<exists>d'. am_read_data_header r d = Inr (Inr (of_bool p, seg_is_first s, seg_is_last s, ?sn,
      if seg_is_first s then 0 else seg_so s, d')) \<and> drop (nat (dec_byte d')) buf = data"
  proof (cases "seg_is_first s")
    case True
    with hd end_at [OF d3(2)] d3(4) show ?thesis by auto
  next
    case False
    then obtain d4 where d4: "nr_rlc_pdu_decoder_get_bits d3 16 = Inr (seg_so s, d4)" "dec_at d4 buf (?n + 16)" "\<not> dec_error d4"
        "drop (?n + 16) (bytes_bits buf) = bytes_bits data"
      using get_bits_field [OF d3(2), of "seg_so s" 16 "bytes_bits data" "?n + 16"] d3(4) so by auto
    with False hd end_at [OF d4(2,4)] so show ?thesis by auto
  qed
  with d(1,3) show ?thesis unfolding buf_def by blast
qed

end
