(* ===== verification/Rlc_Am_Rx_Proofs.thy ===== *)
theory Rlc_Am_Rx_Proofs
  imports Rlc_Am_Rx
begin

text \<open>
  The receive window of acknowledged mode. \<open>truth sn\<close> is the SDU the peer sends under a sequence
  number of the current window. The invariant: the received PDUs are genuine, inside the window,
  ordered by distance from \<open>rx_next\<close>, and an SDU is marked as delivered exactly when all of its
  bytes have been received. The lemmas show that every genuine segment, in whatever order, repeated or
  not, keeps the invariant, that reception neither fails nor hangs, and that the only SDU it can
  deliver is the one that was sent.
\<close>

section \<open>The invariant of the list\<close>

definition rx_order :: "int \<Rightarrow> int \<Rightarrow> nr_rlc_pdu \<Rightarrow> nr_rlc_pdu \<Rightarrow> bool" where
  "rx_order m base = list_before (\<lambda>a b. sn_dist m base a - sn_dist m base b) pdu_sn pdu_so"

definition rx_base_ok :: "(int \<Rightarrow> byte list) \<Rightarrow> int \<Rightarrow> int \<Rightarrow> int \<Rightarrow> nr_rlc_pdu list \<Rightarrow> bool" where
  "rx_base_ok truth m w base l \<longleftrightarrow> sorted_wrt (rx_order m base) l \<and>
     (\<forall>p \<in> set l. 0 \<le> pdu_sn p \<and> pdu_sn p < m \<and> sn_dist m base (pdu_sn p) < w \<and>
        part_of (truth (pdu_sn p)) p)"

definition sdu_complete :: "(int \<Rightarrow> byte list) \<Rightarrow> nr_rlc_pdu list \<Rightarrow> int \<Rightarrow> bool" where
  "sdu_complete truth l sn \<longleftrightarrow> {0..<int (length (truth sn))} \<subseteq> sdu_bytes l sn"

definition rx_list_ok :: "(int \<Rightarrow> byte list) \<Rightarrow> int \<Rightarrow> int \<Rightarrow> int \<Rightarrow> nr_rlc_pdu list \<Rightarrow> bool" where
  "rx_list_ok truth m w base l \<longleftrightarrow> rx_base_ok truth m w base l \<and>
     (\<forall>p \<in> set l. pdu_data p = None \<longleftrightarrow> sdu_complete truth l (pdu_sn p))"

text \<open>The same after an insertion, before SDU \<open>x\<close> has been examined.\<close>

definition rx_list_pre :: "(int \<Rightarrow> byte list) \<Rightarrow> int \<Rightarrow> int \<Rightarrow> int \<Rightarrow> int \<Rightarrow> nr_rlc_pdu list \<Rightarrow> bool" where
  "rx_list_pre truth m w base x l \<longleftrightarrow> rx_base_ok truth m w base l \<and>
     (\<exists>p \<in> set l. pdu_sn p = x) \<and>
     (\<forall>p \<in> set l. if pdu_sn p = x then pdu_data p \<noteq> None
                  else pdu_data p = None \<longleftrightarrow> sdu_complete truth l (pdu_sn p))"

lemma rx_sorted_so:
  "rx_base_ok truth m w base l \<Longrightarrow>
   sorted_wrt (\<lambda>p q. pdu_sn p = sn \<and> pdu_sn q = sn \<longrightarrow> pdu_so p \<le> pdu_so q) l"
  unfolding rx_base_ok_def
  by (rule sorted_wrt_mono_rel [of l "rx_order m base"]) (auto simp: rx_order_def list_before_def)

lemma rx_insert:
  assumes ok: "rx_list_ok truth m w base l" and base: "0 \<le> base" "base < m"
    and sn: "0 \<le> sn" "sn < m" "sn_dist m base sn < w"
    and part: "part_of (truth sn) (nr_rlc_new_pdu sn so f la data)"
    and new: "\<not> segment_received_loop sn l so (int (length data))"
  shows "rx_list_pre truth m w base sn
    (nr_rlc_pdu_list_add (\<lambda>a b. sn_dist m base a - sn_dist m base b) l (nr_rlc_new_pdu sn so f la data))"
    (is "rx_list_pre _ _ _ _ _ ?l")
proof -
  let ?p = "nr_rlc_new_pdu sn so f la data"
  let ?cmp = "\<lambda>a b. sn_dist m base a - sn_dist m base b"
  have base_ok: "rx_base_ok truth m w base l" using ok by (simp add: rx_list_ok_def)
  have set: "set ?l = insert ?p (set l)" by (simp add: nr_rlc_pdu_list_add_def)
  have "sorted_wrt (rx_order m base) ?l"
    using sn_order.sorted_insert [OF sn_dist_order [OF base], of l pdu_sn ?p pdu_so] base_ok sn
    by (simp add: nr_rlc_pdu_list_add_def rx_order_def rx_base_ok_def nr_rlc_new_pdu_def)
  moreover have psn: "pdu_sn ?p = sn" "pdu_data ?p \<noteq> None" by (simp_all add: nr_rlc_new_pdu_def)
  ultimately have "rx_base_ok truth m w base ?l" using base_ok sn part set by (auto simp: rx_base_ok_def)
  moreover have stored: "pdu_data q \<noteq> None" if "q \<in> set l" "pdu_sn q = sn" for q
  proof
    assume "pdu_data q = None"
    with ok that have "sdu_complete truth l sn" by (auto simp: rx_list_ok_def)
    moreover have "{so..<so + int (length data)} \<subseteq> {0..<int (length (truth sn))}"
      using part by (auto simp: part_of_def nr_rlc_new_pdu_def)
    ultimately show False
      using new segment_received_complete [OF rx_sorted_so [OF base_ok]]
      by (meson sdu_complete_def subset_trans)
  qed
  have other: "sdu_complete truth ?l s = sdu_complete truth l s" if "s \<noteq> sn" for s
  proof -
    have "sdu_bytes ?l s = sdu_bytes (?p # l) s" using set by (intro sdu_bytes_set) simp
    then show ?thesis using that psn by (simp add: sdu_complete_def)
  qed
  have "if pdu_sn q = sn then pdu_data q \<noteq> None
      else pdu_data q = None \<longleftrightarrow> sdu_complete truth ?l (pdu_sn q)" if q: "q \<in> set ?l" for q
  proof (cases "pdu_sn q = sn")
    case True
    with q set psn stored [of q] show ?thesis by auto
  next
    case False
    with q set psn have "q \<in> set l" by auto
    with False ok other [of "pdu_sn q"] show ?thesis by (simp add: rx_list_ok_def)
  qed
  ultimately show ?thesis using set psn unfolding rx_list_pre_def by blast
qed

section \<open>Complete and incomplete SDUs\<close>

lemma rx_run_part:
  assumes "rx_base_ok truth m w base l" "p \<in> set (pdus_of x l)"
  shows "pdu_sn p = x" "0 \<le> pdu_sn p \<and> pdu_sn p < m" "part_of (truth x) p"
proof -
  show sn: "pdu_sn p = x" using assms(2) by (rule pdus_of_sn)
  have "p \<in> set l" using assms(2) pdus_of_subset [of x l] by blast
  with assms(1) have "0 \<le> pdu_sn p \<and> pdu_sn p < m \<and> part_of (truth (pdu_sn p)) p"
    by (simp add: rx_base_ok_def)
  with sn show "0 \<le> pdu_sn p \<and> pdu_sn p < m" "part_of (truth x) p" by simp_all
qed

lemma rx_run:
  assumes "rx_base_ok truth m w base l" "0 \<le> base" "base < m"
  shows "sdu_bytes (pdus_of x l) x = sdu_bytes l x"
    and "\<forall>p \<in> set (dropWhile (\<lambda>p. pdu_sn p = x) (pdus_from x l)). pdu_sn p \<noteq> x"
    and "sorted_wrt (\<lambda>p q. pdu_so p \<le> pdu_so q) (pdus_of x l)"
proof -
  let ?a = "takeWhile (\<lambda>p. pdu_sn p \<noteq> x) l" and ?b = "dropWhile (\<lambda>p. pdu_sn p = x) (pdus_from x l)"
  show b: "\<forall>p \<in> set ?b. pdu_sn p \<noteq> x"
  proof
    fix p assume p: "p \<in> set ?b"
    show "pdu_sn p \<noteq> x"
      by (rule sn_order.run_contiguous [OF sn_dist_order [OF assms(2,3)], where so = pdu_so and l = l])
        (use assms(1) p in \<open>simp_all add: rx_base_ok_def rx_order_def pdus_from_def\<close>)
  qed
  have split: "l = ?a @ pdus_of x l @ ?b" by (rule pdus_split)
  have "sdu_bytes l x = sdu_bytes (?a @ pdus_of x l @ ?b) x" using split by (rule arg_cong)
  also have "\<dots> = sdu_bytes ?a x \<union> sdu_bytes (pdus_of x l) x \<union> sdu_bytes ?b x"
    by (simp only: sdu_bytes_append Un_assoc)
  also have "sdu_bytes ?a x = {}" by (rule sdu_bytes_empty) (auto dest: set_takeWhileD)
  also have "sdu_bytes ?b x = {}" using b by (rule sdu_bytes_empty)
  finally show "sdu_bytes (pdus_of x l) x = sdu_bytes l x" by simp
  have "sorted_wrt (rx_order m base) (pdus_of x l)"
    using assms(1) split by (metis rx_base_ok_def sorted_wrt_append)
  moreover have v: "\<forall>p \<in> set (pdus_of x l). (0 \<le> pdu_sn p \<and> pdu_sn p < m) \<and> pdu_sn p = x"
    using rx_run_part [OF assms(1)] pdus_of_sn by blast
  ultimately show "sorted_wrt (\<lambda>p q. pdu_so p \<le> pdu_so q) (pdus_of x l)"
    using sn_order.sorted_so_run [OF sn_dist_order [OF assms(2,3)] _ v, of pdu_so]
    by (simp add: rx_order_def)
qed

lemma rx_full_iff:
  assumes pre: "rx_list_pre truth m w base x l" and base: "0 \<le> base" "base < m"
  shows "rx_sdu_full l x \<longleftrightarrow> sdu_complete truth l x"
proof -
  let ?D = "truth x"
  have ok: "rx_base_ok truth m w base l" using pre by (simp add: rx_list_pre_def)
  note run = rx_run [OF ok base, of x]
  obtain p r where fr: "pdus_from x l = p # r"
    using pre pdus_from_Nil [of x l] by (cases "pdus_from x l") (auto simp: rx_list_pre_def)
  then have "p \<in> set (dropWhile (\<lambda>p. pdu_sn p \<noteq> x) l)" by (simp add: pdus_from_def)
  then have p: "pdu_sn p = x" "p \<in> set l"
    using pdus_from_Cons [OF fr] by (auto dest: set_dropWhileD)
  then have "pdu_data p \<noteq> None" "part_of ?D p" using pre by (auto simp: rx_list_pre_def rx_base_ok_def)
  with fr have full: "rx_sdu_full l x = sdu_full_loop x (-1) (pdus_of x l)"
    using p(1) by (auto simp add: rx_sdu_full_def pdus_of_def sdu_full_loop_run
        simp del: takeWhile.simps sdu_full_loop.simps)
  have sub: "\<forall>p \<in> set (pdus_of x l). pdu_sn p = x \<and> part_of ?D p"
    using rx_run_part [OF ok] by blast
  have "0 < length ?D" using \<open>part_of ?D p\<close> by (auto simp: part_of_def)
  then have "sdu_full_loop x (-1) (pdus_of x l) \<longleftrightarrow> {0..<int (length ?D)} \<subseteq> sdu_bytes (pdus_of x l) x"
    using sdu_full_loop_bytes [of x "-1" "pdus_of x l" ?D] sub
      sdu_full_loop_complete [OF sub run(3), of "-1"] by auto
  then show ?thesis by (simp add: full sdu_complete_def run(1))
qed

lemma rx_incomplete:
  assumes pre: "rx_list_pre truth m w base x l" and "0 \<le> base" "base < m" "\<not> rx_sdu_full l x"
  shows "rx_list_ok truth m w base l"
proof -
  have "pdu_data p = None \<longleftrightarrow> sdu_complete truth l (pdu_sn p)" if "p \<in> set l" for p
    using pre that rx_full_iff [OF assms(1-3)] assms(4)
    by (cases "pdu_sn p = x") (auto simp: rx_list_pre_def)
  with pre show ?thesis by (simp add: rx_list_pre_def rx_list_ok_def)
qed

text \<open>Marking the run of \<open>x\<close> as delivered.\<close>

definition mark_delivered :: "int \<Rightarrow> nr_rlc_pdu \<Rightarrow> nr_rlc_pdu" where
  "mark_delivered x p = (if pdu_sn p = x then p\<lparr>pdu_data := None\<rparr> else p)"

definition stored_bytes :: "nr_rlc_pdu list \<Rightarrow> int" where
  "stored_bytes l = sum_list (map (\<lambda>p. if pdu_data p = None then 0 else pdu_size p) l)"

lemma mark_delivered_sel [simp]:
  "pdu_sn (mark_delivered x p) = pdu_sn p" "pdu_so (mark_delivered x p) = pdu_so p"
  "pdu_size (mark_delivered x p) = pdu_size p" "pdu_is_first (mark_delivered x p) = pdu_is_first p"
  "pdu_is_last (mark_delivered x p) = pdu_is_last p"
  "pdu_data (mark_delivered x p) = (if pdu_sn p = x then None else pdu_data p)"
  by (simp_all add: mark_delivered_def)

lemma part_of_mark [simp]: "part_of D p \<Longrightarrow> part_of D (mark_delivered x p)"
  by (auto simp: part_of_def split: option.splits)

lemma sdu_bytes_mark [simp]: "sdu_bytes (map (mark_delivered x) l) s = sdu_bytes l s"
  by (auto simp: sdu_bytes_def)

lemma map_mark_other: "\<forall>p \<in> set l. pdu_sn p \<noteq> x \<Longrightarrow> map (mark_delivered x) l = l"
  by (auto simp: mark_delivered_def intro: map_idI)

lemma rx_deliver:
  assumes pre: "rx_list_pre truth m w base x l" and base: "0 \<le> base" "base < m"
    and full: "rx_sdu_full l x" and max: "int (length (truth x)) \<le> NR_SDU_MAX"
  shows "\<exists>l' n. reassemble_loop id x (pdus_from x l) [] False = Inr (l', truth x, False, n) \<and>
      takeWhile (\<lambda>p. pdu_sn p \<noteq> x) l @ l' = map (mark_delivered x) l \<and>
      stored_bytes (map (mark_delivered x) l) = stored_bytes l - n"
    and "rx_list_ok truth m w base (map (mark_delivered x) l)"
proof -
  let ?a = "takeWhile (\<lambda>p. pdu_sn p \<noteq> x) l" and ?r = "pdus_of x l"
  let ?b = "dropWhile (\<lambda>p. pdu_sn p = x) (pdus_from x l)"
  have ok: "rx_base_ok truth m w base l" using pre by (simp add: rx_list_pre_def)
  have ab: "\<forall>p \<in> set ?a. pdu_sn p \<noteq> x" "\<forall>p \<in> set ?b. pdu_sn p \<noteq> x" "\<forall>p \<in> set ?r. pdu_sn p = x"
    subgoal by (auto dest: set_takeWhileD)
    subgoal by (rule rx_run(2) [OF ok base])
    subgoal by (blast dest: pdus_of_sn)
    done
  have split: "l = ?a @ ?r @ ?b" by (rule pdus_split)
  have parts: "\<forall>p \<in> set (pdus_from x l). pdu_sn p = x \<longrightarrow> part_of (truth x) p \<and> pdu_data p \<noteq> None"
  proof (intro ballI impI)
    fix p assume "p \<in> set (pdus_from x l)" and sn: "pdu_sn p = x"
    then have "p \<in> set l" using pdus_of_subset(2) [of x l] by blast
    with pre sn show "part_of (truth x) p \<and> pdu_data p \<noteq> None"
      unfolding rx_list_pre_def rx_base_ok_def by metis
  qed
  have "sdu_full_loop x (-1) (pdus_from x l)"
    using full by (auto simp: rx_sdu_full_def split: list.splits if_splits)
  then have "reassemble_loop id x (pdus_from x l) [] False =
      Inr (processed id x (pdus_from x l), truth x, False, sum_list (map pdu_size ?r))"
    using reassemble_full [of x "[]" "pdus_from x l" "truth x" id] parts max by (simp add: pdus_of_def)
  moreover have marked: "?a @ processed id x (pdus_from x l) = map (mark_delivered x) l"
  proof -
    have "map (mark_delivered x) l = map (mark_delivered x) (?a @ ?r @ ?b)" using split by (rule arg_cong)
    also have "\<dots> = ?a @ map (mark_delivered x) ?r @ ?b"
      by (simp only: map_append map_mark_other [OF ab(1)] map_mark_other [OF ab(2)])
    also have "map (mark_delivered x) ?r = map (\<lambda>p. id (p\<lparr>pdu_data := None\<rparr>)) ?r"
      using ab(3) by (simp add: mark_delivered_def)
    finally show ?thesis by (simp add: pdus_of_def)
  qed
  moreover have "stored_bytes (map (mark_delivered x) l) = stored_bytes l - sum_list (map pdu_size ?r)"
  proof -
    have "\<forall>p \<in> set ?r. pdu_data p \<noteq> None" using parts ab(3) pdus_of_subset(1) [of x l] by blast
    then have r: "stored_bytes ?r = sum_list (map pdu_size ?r)"
      unfolding stored_bytes_def by (intro arg_cong [of _ _ sum_list] map_cong) auto
    have r': "stored_bytes (map (mark_delivered x) ?r) = 0"
    proof -
      have "map (\<lambda>p. if pdu_data p = None then 0 else pdu_size p) (map (mark_delivered x) ?r) = map (\<lambda>_. 0) ?r"
        using ab(3) by simp
      then show ?thesis unfolding stored_bytes_def by (simp only: sum_list_0)
    qed
    have "stored_bytes (map (mark_delivered x) l) = stored_bytes (map (mark_delivered x) (?a @ ?r @ ?b))"
      using split by (rule arg_cong)
    also have "\<dots> = stored_bytes ?a + stored_bytes (map (mark_delivered x) ?r) + stored_bytes ?b"
      using map_mark_other [OF ab(1)] map_mark_other [OF ab(2)]
      by (simp only: map_append stored_bytes_def sum_list_append)
    also have "\<dots> = stored_bytes ?a + stored_bytes ?r + stored_bytes ?b - sum_list (map pdu_size ?r)"
      using r r' by simp
    also have "stored_bytes ?a + stored_bytes ?r + stored_bytes ?b = stored_bytes (?a @ ?r @ ?b)"
      by (simp only: stored_bytes_def map_append sum_list_append)
    also have "?a @ ?r @ ?b = l" using split by (rule sym)
    finally show ?thesis .
  qed
  ultimately show "\<exists>l' n. reassemble_loop id x (pdus_from x l) [] False = Inr (l', truth x, False, n) \<and>
      ?a @ l' = map (mark_delivered x) l \<and> stored_bytes (map (mark_delivered x) l) = stored_bytes l - n"
    by blast
  have "rx_base_ok truth m w base (map (mark_delivered x) l)"
  proof -
    have "sorted_wrt (rx_order m base) (map (mark_delivered x) l)"
      using ok by (simp add: rx_base_ok_def sorted_wrt_map rx_order_def list_before_def [abs_def])
    with ok show ?thesis by (auto simp: rx_base_ok_def)
  qed
  moreover have "pdu_data p = None \<longleftrightarrow> sdu_complete truth l (pdu_sn p)"
    if p: "p \<in> set (map (mark_delivered x) l)" for p
  proof -
    obtain q where "q \<in> set l" "p = mark_delivered x q" using p by auto
    with pre rx_full_iff [OF pre base] full show ?thesis
      by (cases "pdu_sn q = x") (simp_all add: rx_list_pre_def)
  qed
  ultimately show "rx_list_ok truth m w base (map (mark_delivered x) l)"
    by (simp add: rx_list_ok_def sdu_complete_def)
qed

section \<open>Advancing the window\<close>

lemma sn_dist_succ:
  assumes "0 \<le> base" "base < m" "0 \<le> a" "a < m" "a \<noteq> base"
  shows "sn_dist m ((base + 1) mod m) a = sn_dist m base a - 1"
proof -
  have "(base + 1) mod m = (if base + 1 = m then 0 else base + 1)" using assms by auto
  with assms show ?thesis by (auto simp: sn_dist_def Let_def)
qed

text \<open>
  Dropping the SDU at \<open>rx_next\<close> and moving \<open>rx_next\<close> by one.
\<close>

lemma rx_drop_head:
  assumes ok: "rx_list_ok truth m w base l" and base: "0 \<le> base" "base < m"
  shows "rx_list_ok truth m w ((base + 1) mod m) (dropWhile (\<lambda>q. pdu_sn q = base) l)"
    (is "rx_list_ok _ _ _ ?base ?l")
proof -
  have bok: "rx_base_ok truth m w base l" using ok by (simp add: rx_list_ok_def)
  have sub: "set ?l \<subseteq> set l" by (auto dest: set_dropWhileD)
  have split: "takeWhile (\<lambda>q. pdu_sn q = base) l @ ?l = l" by simp
  then have sorted: "sorted_wrt (rx_order m base) ?l"
    using bok by (metis rx_base_ok_def sorted_wrt_append)
  have ne: "pdu_sn p \<noteq> base" if p: "p \<in> set ?l" for p
  proof (cases ?l)
    case (Cons z zs)
    have zb: "pdu_sn z \<noteq> base" using hd_dropWhile [of "\<lambda>q. pdu_sn q = base" l] Cons by simp
    have z: "z \<in> set l" using Cons sub by auto
    have pos: "0 < sn_dist m base (pdu_sn z)"
      using bok z zb base sn_dist_bounds [of "pdu_sn z" m base] sn_dist_inject [of "pdu_sn z" m base base]
      by (fastforce simp: rx_base_ok_def)
    show ?thesis
    proof (cases "p = z")
      case False
      then have "rx_order m base z p" using sorted p Cons by auto
      with pos zb show ?thesis by (auto simp: rx_order_def list_before_def)
    qed (use zb in simp)
  next
    case Nil
    with p show ?thesis by (simp only: list.set empty_iff)
  qed
  have dist: "sn_dist m ?base (pdu_sn p) = sn_dist m base (pdu_sn p) - 1" if "p \<in> set ?l" for p
    using sn_dist_succ [OF base, of "pdu_sn p"] ne [OF that] bok sub that by (auto simp: rx_base_ok_def)
  have "sorted_wrt (rx_order m ?base) ?l"
    by (rule sorted_wrt_mono_rel [OF _ sorted]) (use dist in \<open>auto simp: rx_order_def list_before_def\<close>)
  then have "rx_base_ok truth m w ?base ?l" using bok sub dist by (fastforce simp: rx_base_ok_def)
  moreover have "sdu_complete truth ?l (pdu_sn p) = sdu_complete truth l (pdu_sn p)" if "p \<in> set ?l" for p
  proof -
    have "sdu_bytes l (pdu_sn p) = sdu_bytes (takeWhile (\<lambda>q. pdu_sn q = base) l @ ?l) (pdu_sn p)" by simp
    also have "\<dots> = sdu_bytes (takeWhile (\<lambda>q. pdu_sn q = base) l) (pdu_sn p) \<union> sdu_bytes ?l (pdu_sn p)"
      by (rule sdu_bytes_append)
    also have "sdu_bytes (takeWhile (\<lambda>q. pdu_sn q = base) l) (pdu_sn p) = {}"
      using ne [OF that] by (intro sdu_bytes_empty) (auto dest!: set_takeWhileD)
    finally show ?thesis by (simp add: sdu_complete_def)
  qed
  ultimately show ?thesis using ok sub by (auto simp: rx_list_ok_def)
qed

lemma stored_bytes_drop:
  "\<forall>p \<in> set l. pdu_sn p = s \<longrightarrow> pdu_data p = None \<Longrightarrow>
   stored_bytes (dropWhile (\<lambda>q. pdu_sn q = s) l) = stored_bytes l"
  by (induction l) (auto simp: stored_bytes_def)

lemma am_free_head_ok:
  assumes "rx_list_ok truth m w base l" "0 \<le> base" "base < m" "am_free_head m base l = (base', l')"
  shows "rx_list_ok truth m w base' l' \<and> 0 \<le> base' \<and> base' < m \<and> stored_bytes l' = stored_bytes l"
  using assms
proof (induction m base l rule: am_free_head.induct)
  case (1 m base)
  then show ?case by simp
next
  case (2 m base p l)
  show ?case
  proof (cases "pdu_data p = None \<and> pdu_sn p = base")
    case True
    let ?l = "dropWhile (\<lambda>q. pdu_sn q = base) l"
    have "\<forall>q \<in> set (p # l). pdu_sn q = base \<longrightarrow> pdu_data q = None"
      using "2.prems"(1) True by (fastforce simp: rx_list_ok_def)
    then have "stored_bytes ?l = stored_bytes (p # l)"
      using stored_bytes_drop [of "p # l" base] True by simp
    moreover have "rx_list_ok truth m w ((base + 1) mod m) ?l"
      using rx_drop_head [OF "2.prems"(1-3)] True by simp
    moreover have "0 \<le> (base + 1) mod m" "(base + 1) mod m < m" using "2.prems"(2,3) by simp_all
    ultimately show ?thesis using "2.IH" [OF True] "2.prems"(4) True by simp
  next
    case False
    with "2.prems" show ?thesis by auto
  qed
qed

text \<open>
  The search for the next undelivered SDU ends: the number right behind the window is not
  delivered, and it is reached before every number has been tried.
\<close>

lemma rx_delivered_window:
  assumes "rx_base_ok truth m w base l" "rx_sdu_delivered l s"
  shows "sn_dist m base s < w"
proof -
  obtain p r where p: "pdus_from s l = p # r"
    using assms(2) by (cases "pdus_from s l") (auto simp: rx_sdu_delivered_def)
  then have "pdu_sn p = s" "p \<in> set l"
    using pdus_from_Cons [OF p] pdus_of_subset(2) [of s l] by auto
  with assms(1) show ?thesis by (auto simp: rx_base_ok_def)
qed

lemma am_skip_delivered_ok:
  assumes "rx_base_ok truth (am_sn_modulus e) w base (am_rx_list e)"
    and "0 < w" "w < am_sn_modulus e" "0 \<le> base" "base < am_sn_modulus e"
    and "0 \<le> sn" "sn < am_sn_modulus e"
    and "i + sn_dist (am_sn_modulus e) sn ((base + w) mod am_sn_modulus e) < am_sn_modulus e"
  shows "\<exists>s. am_skip_delivered e sn i = Inr s \<and> 0 \<le> s \<and> s < am_sn_modulus e \<and> \<not> am_sdu_delivered e s"
  using assms
proof (induction e sn i rule: am_skip_delivered.induct)
  case (1 e sn i)
  let ?m = "am_sn_modulus e"
  let ?stop = "(base + w) mod ?m"
  have stop: "0 \<le> ?stop" "?stop < ?m" using "1.prems" by simp_all
  show ?case
  proof (cases "am_sdu_delivered e sn")
    case True
    have "sn_dist ?m base ?stop = (?stop - base) mod ?m"
      using stop "1.prems" by (intro sn_dist_mod) simp_all
    also have "\<dots> = w" using "1.prems" by (simp add: mod_diff_left_eq)
    finally have "sn \<noteq> ?stop"
      using rx_delivered_window [OF "1.prems"(1), of sn] True by (auto simp: am_sdu_delivered_def)
    then have "sn_dist ?m ((sn + 1) mod ?m) ?stop = sn_dist ?m sn ?stop - 1"
      using stop "1.prems" by (intro sn_dist_succ) auto
    moreover have "\<not> ?m \<le> i" using "1.prems" stop sn_dist_bounds [of ?stop ?m sn] by simp
    ultimately show ?thesis
      using "1.IH" "1.prems" True by (subst am_skip_delivered.simps) simp
  next
    case False
    with "1.prems" show ?thesis by (subst am_skip_delivered.simps) simp
  qed
qed

section \<open>The invariant of the entity\<close>

definition am_rx_inv :: "(int \<Rightarrow> byte list) \<Rightarrow> nr_rlc_entity_am \<Rightarrow> bool" where
  "am_rx_inv truth e \<longleftrightarrow> am_config_ok e \<and> am_sn_ok e (am_rx_next e) \<and>
     am_sn_ok e (am_rx_highest_status e) \<and>
     rx_list_ok truth (am_sn_modulus e) (am_window_size e) (am_rx_next e) (am_rx_list e) \<and>
     am_rx_size e = stored_bytes (am_rx_list e)"

lemma am_rx_inv_config:
  "am_rx_inv truth e \<Longrightarrow> 0 < am_window_size e \<and> am_window_size e < am_sn_modulus e \<and>
     0 \<le> am_rx_next e \<and> am_rx_next e < am_sn_modulus e"
  by (auto simp: am_rx_inv_def am_sn_ok_def am_config_ok_def)

lemma am_rx_inv_new:
  "new_nr_rlc_entity_am rx tx tp tr ts pp pb mr n = Inr e \<Longrightarrow> am_rx_inv truth e"
  by (auto simp: new_nr_rlc_entity_am_def am_rx_inv_def am_config_ok_def am_sn_ok_def rx_list_ok_def
      rx_base_ok_def stored_bytes_def result_simps split: if_splits)

text \<open>The invariant only depends on the receiver's fields.\<close>

lemma am_rx_inv_cong:
  "am_sn_field_length e' = am_sn_field_length e \<Longrightarrow> am_sn_modulus e' = am_sn_modulus e \<Longrightarrow>
   am_window_size e' = am_window_size e \<Longrightarrow> am_rx_next e' = am_rx_next e \<Longrightarrow>
   am_rx_highest_status e' = am_rx_highest_status e \<Longrightarrow> am_rx_list e' = am_rx_list e \<Longrightarrow>
   am_rx_size e' = am_rx_size e \<Longrightarrow> am_rx_inv truth e' = am_rx_inv truth e"
  by (simp add: am_rx_inv_def am_config_ok_def am_sn_ok_def)

lemma am_rx_inv_timers [simp]: "am_rx_inv truth (am_reception_timers e) = am_rx_inv truth e"
  by (rule am_rx_inv_cong) (simp_all add: am_reception_timers_def Let_def)

lemma am_rx_inv_discard [simp]: "am_rx_inv truth (am_discard e sz p) = am_rx_inv truth e"
  by (rule am_rx_inv_cong) (simp_all add: am_discard_def am_upd_common_def)

lemma am_rx_inv_status_triggered [simp]: "am_rx_inv truth (e\<lparr>am_status_triggered := b\<rparr>) = am_rx_inv truth e"
  by (rule am_rx_inv_cong) simp_all

lemma am_rx_inv_upd_common [simp]: "am_rx_inv truth (am_upd_common f e) = am_rx_inv truth e"
  by (rule am_rx_inv_cong) (simp_all add: am_upd_common_def)

lemma am_common_upd [simp]: "am_common (am_upd_common f e) = f (am_common e)"
  by (simp add: am_upd_common_def)

lemma am_events_timers [simp]: "am_common (am_reception_timers e) = am_common e"
  by (simp add: am_reception_timers_def Let_def)

lemma am_events_discard [simp]: "am_events (am_discard e sz p) = am_events e"
  by (simp add: am_discard_def am_upd_common_def)

lemma am_rx_inv_free_head:
  assumes inv: "am_rx_inv truth e"
  shows "am_rx_inv truth (case am_free_head (am_sn_modulus e) (am_rx_next e) (am_rx_list e) of
    (rx_next, l) \<Rightarrow> e\<lparr>am_rx_list := l, am_rx_next := rx_next\<rparr>)"
proof -
  obtain b l where h: "am_free_head (am_sn_modulus e) (am_rx_next e) (am_rx_list e) = (b, l)" by fastforce
  have "rx_list_ok truth (am_sn_modulus e) (am_window_size e) b l \<and> 0 \<le> b \<and> b < am_sn_modulus e \<and>
      stored_bytes l = stored_bytes (am_rx_list e)"
    by (rule am_free_head_ok [OF _ _ _ h]) (use inv in \<open>simp_all add: am_rx_inv_def am_sn_ok_def\<close>)
  with inv h show ?thesis by (simp add: am_rx_inv_def am_config_ok_def am_sn_ok_def)
qed

section \<open>Reception of a genuine segment\<close>

lemma am_sdu_complete_ok:
  assumes cfg: "am_config_ok e" "am_sn_ok e (am_rx_next e)" "am_sn_ok e (am_rx_highest_status e)"
    and pre: "rx_list_pre truth (am_sn_modulus e) (am_window_size e) (am_rx_next e) x (am_rx_list e)"
    and size: "am_rx_size e = stored_bytes (am_rx_list e)"
    and full: "am_sdu_full e x" and max: "int (length (truth x)) \<le> NR_SDU_MAX"
  shows "\<exists>e'. am_sdu_complete e x = Inr e' \<and> am_rx_inv truth e' \<and>
    am_events e' = am_events e @ [DeliverSdu (truth x)]"
proof -
  let ?l = "map (mark_delivered x) (am_rx_list e)"
  have base: "0 \<le> am_rx_next e" "am_rx_next e < am_sn_modulus e" using cfg(2) by (auto simp: am_sn_ok_def)
  have w: "0 < am_window_size e" "am_window_size e < am_sn_modulus e" using cfg(1) by (auto simp: am_config_ok_def)
  note del = rx_deliver [OF pre base full [unfolded am_sdu_full_def] max]
  obtain l' n where r: "reassemble_loop id x (pdus_from x (am_rx_list e)) [] False = Inr (l', truth x, False, n)"
      "takeWhile (\<lambda>p. pdu_sn p \<noteq> x) (am_rx_list e) @ l' = ?l" "stored_bytes ?l = stored_bytes (am_rx_list e) - n"
    using del(1) by blast
  have "pdus_from x (am_rx_list e) \<noteq> []" using pre by (auto simp: pdus_from_Nil rx_list_pre_def)
  then obtain p r' where "pdus_from x (am_rx_list e) = p # r'" by (cases "pdus_from x (am_rx_list e)") auto
  with r size obtain e1 where e1: "am_reassemble_and_deliver e x = Inr e1"
    and e1l: "am_rx_list e1 = ?l" "am_rx_size e1 = stored_bytes ?l"
      "am_events e1 = am_events e @ [DeliverSdu (truth x)]"
      "am_sn_field_length e1 = am_sn_field_length e" "am_sn_modulus e1 = am_sn_modulus e"
      "am_window_size e1 = am_window_size e" "am_rx_next e1 = am_rx_next e"
      "am_rx_highest_status e1 = am_rx_highest_status e"
    by (simp add: am_reassemble_and_deliver_def am_upd_common_def Let_def del: reassemble_loop.simps)
  have inv1: "am_rx_inv truth e1"
    using cfg del(2) e1l by (simp add: am_rx_inv_def am_config_ok_def am_sn_ok_def)
  obtain s where s: "am_skip_delivered e1 (am_rx_highest_status e1) 0 = Inr s" "am_sn_ok e1 s"
  proof -
    have "\<exists>s. am_skip_delivered e1 (am_rx_highest_status e1) 0 = Inr s \<and> 0 \<le> s \<and> s < am_sn_modulus e1 \<and>
        \<not> am_sdu_delivered e1 s"
      by (rule am_skip_delivered_ok [where truth = truth and w = "am_window_size e1" and base = "am_rx_next e1"])
        (use inv1 am_rx_inv_config [OF inv1] sn_dist_bounds in
          \<open>auto simp: am_rx_inv_def am_sn_ok_def rx_list_ok_def\<close>)
    with that show thesis by (auto simp: am_sn_ok_def)
  qed
  let ?e2 = "if x = am_rx_highest_status e1 then e1\<lparr>am_rx_highest_status := s\<rparr> else e1"
  have inv2: "am_rx_inv truth ?e2" using inv1 s(2) by (auto simp: am_rx_inv_def am_config_ok_def am_sn_ok_def)
  let ?e3 = "if x = am_rx_next ?e2
    then case am_free_head (am_sn_modulus ?e2) (am_rx_next ?e2) (am_rx_list ?e2) of
           (rx_next, l) \<Rightarrow> ?e2\<lparr>am_rx_list := l, am_rx_next := rx_next\<rparr>
    else ?e2"
  have "(if x = am_rx_highest_status e1 then bindR (am_skip_delivered e1 (am_rx_highest_status e1) 0)
      (\<lambda>s. Inr (e1\<lparr>am_rx_highest_status := s\<rparr>)) else Inr e1) = Inr ?e2"
    using s(1) by simp
  then have c: "am_sdu_complete e x = Inr ?e3" by (simp only: am_sdu_complete_def e1 bindR_Inr)
  have "am_rx_inv truth ?e3"
  proof (cases "x = am_rx_next ?e2")
    case True
    show ?thesis unfolding if_P [OF True] by (rule am_rx_inv_free_head [OF inv2])
  next
    case False
    show ?thesis unfolding if_not_P [OF False] by (rule inv2)
  qed
  moreover have "am_events ?e3 = am_events e @ [DeliverSdu (truth x)]"
    using e1l(3) by (auto split: prod.splits)
  ultimately show ?thesis using c by blast
qed

text \<open>
  Whatever the code decides about a genuine segment, it succeeds, keeps the invariant and delivers
  at most the SDU the segment belongs to; it delivers that SDU exactly when its last byte arrives.
\<close>

definition am_accepts :: "nr_rlc_entity_am \<Rightarrow> int \<Rightarrow> int \<Rightarrow> int \<Rightarrow> bool" where
  "am_accepts e sn so n \<longleftrightarrow> am_rx_size e + n \<le> am_rx_maxsize e \<and> am_sn_in_recv_window e sn \<and>
     \<not> segment_already_received e sn so n"

lemma am_recv_segment_ok:
  assumes inv: "am_rx_inv truth e" and sn: "am_sn_ok e sn"
    and part: "part_of (truth sn) (nr_rlc_new_pdu sn so f la data)"
    and max: "int (length (truth sn)) \<le> NR_SDU_MAX"
  shows "\<exists>e'. am_recv_segment e sz p sn so f la data = Inr e' \<and> am_rx_inv truth e' \<and>
    am_events e' = (if am_accepts e sn so (int (length data)) \<and>
        {0..<int (length (truth sn))} \<subseteq> sdu_bytes (am_rx_list e) sn \<union> {so..<so + int (length data)}
      then am_events e @ [DeliverSdu (truth sn)] else am_events e)"
proof -
  let ?pdu = "nr_rlc_new_pdu sn so f la data"
  let ?n = "int (length data)"
  let ?l = "nr_rlc_pdu_list_add (am_sn_compare_rx e) (am_rx_list e) ?pdu"
  let ?e1 = "e\<lparr>am_rx_size := am_rx_size e + ?n, am_rx_list := ?l\<rparr>"
  have n: "0 < ?n" using part by (auto simp: part_of_def nr_rlc_new_pdu_def)
  show ?thesis
  proof (cases "am_accepts e sn so ?n")
    case False
    with inv n show ?thesis by (auto simp: am_recv_segment_def Let_def am_accepts_def)
  next
    case True
    have ok: "rx_list_ok truth (am_sn_modulus e) (am_window_size e) (am_rx_next e) (am_rx_list e)"
      and base: "0 \<le> am_rx_next e" "am_rx_next e < am_sn_modulus e"
      using inv by (auto simp: am_rx_inv_def am_sn_ok_def)
    have cmp: "am_sn_compare_rx e =
        (\<lambda>a b. sn_dist (am_sn_modulus e) (am_rx_next e) a - sn_dist (am_sn_modulus e) (am_rx_next e) b)"
      by (simp add: fun_eq_iff am_sn_compare_rx_def am_modulus_rx_dist)
    have pre: "rx_list_pre truth (am_sn_modulus e) (am_window_size e) (am_rx_next e) sn ?l"
      unfolding cmp
      by (rule rx_insert [OF ok base _ _ _ part])
        (use True sn in \<open>auto simp: am_accepts_def am_sn_ok_def am_sn_in_recv_window_def am_modulus_rx_dist
          segment_already_received_def\<close>)
    have size: "stored_bytes ?l = stored_bytes (am_rx_list e) + ?n"
      by (simp add: stored_bytes_def nr_rlc_pdu_list_add_def sum_list_map_insert_before nr_rlc_new_pdu_def)
    let ?done = "{0..<int (length (truth sn))} \<subseteq> sdu_bytes (am_rx_list e) sn \<union> {so..<so + ?n}"
    have full: "rx_sdu_full ?l sn \<longleftrightarrow> ?done"
    proof -
      have "sdu_bytes ?l sn = sdu_bytes (?pdu # am_rx_list e) sn"
        by (intro sdu_bytes_set) (simp add: nr_rlc_pdu_list_add_def)
      then show ?thesis
        using rx_full_iff [OF pre base] by (simp add: sdu_complete_def nr_rlc_new_pdu_def Un_commute)
    qed
    define e0 where "e0 = (if am_sn_compare_rx ?e1 sn (am_rx_next_highest ?e1) \<ge> 0
      then ?e1\<lparr>am_rx_next_highest := (sn + 1) mod am_sn_modulus ?e1\<rparr> else ?e1)"
    have e0: "am_rx_list e0 = ?l" "am_rx_size e0 = stored_bytes ?l" "am_events e0 = am_events e"
        "am_sn_field_length e0 = am_sn_field_length e" "am_sn_modulus e0 = am_sn_modulus e"
        "am_window_size e0 = am_window_size e" "am_rx_next e0 = am_rx_next e"
        "am_rx_highest_status e0 = am_rx_highest_status e"
      using inv size by (simp_all add: e0_def am_rx_inv_def)
    have cfg: "am_config_ok e0" "am_sn_ok e0 (am_rx_next e0)" "am_sn_ok e0 (am_rx_highest_status e0)"
      using inv e0 by (simp_all add: am_rx_inv_def am_config_ok_def am_sn_ok_def)
    have "\<exists>e2. (if am_sdu_full e0 sn then am_sdu_complete e0 sn else Inr e0) = Inr e2 \<and> am_rx_inv truth e2 \<and>
        am_events e2 = (if ?done then am_events e @ [DeliverSdu (truth sn)] else am_events e)"
    proof (cases "am_sdu_full e0 sn")
      case True
      with am_sdu_complete_ok [OF cfg, of truth sn] pre e0 max full show ?thesis by (auto simp: am_sdu_full_def)
    next
      case False
      with rx_incomplete [OF pre base] e0 cfg full show ?thesis by (simp add: am_rx_inv_def am_sdu_full_def)
    qed
    then obtain e2 where e2: "(if am_sdu_full e0 sn then am_sdu_complete e0 sn else Inr e0) = Inr e2"
      "am_rx_inv truth e2" "am_events e2 = (if ?done then am_events e @ [DeliverSdu (truth sn)] else am_events e)" by blast
    have "am_reception_actions ?e1 ?pdu = Inr (am_reception_timers e2)"
    proof -
      have "pdu_sn ?pdu = sn" by (simp add: nr_rlc_new_pdu_def)
      then show ?thesis using e2(1) by (simp only: am_reception_actions_def Let_def e0_def bindR_Inr)
    qed
    then have "am_recv_segment e sz p sn so f la data =
        Inr (if p \<noteq> 0 then (am_reception_timers e2)\<lparr>am_status_triggered := True\<rparr> else am_reception_timers e2)"
      using True n by (simp add: am_recv_segment_def am_accepts_def Let_def)
    with e2(2,3) True show ?thesis by simp
  qed
qed

end
