(* ===== verification/Rlc_Am_Sender.thy ===== *)
theory Rlc_Am_Sender
  imports Rlc_Am_Wire Rlc_Am_Ctrl_Props Rlc_Am_Rx_Proofs
begin

text \<open>
  The sending side of the acknowledged mode. The invariant says of the segments in the transmit, wait
  and retransmit lists: they are sound, they are disjoint parts of their SDUs, the flags tell the
  first and the last part, SDUs in flight have pairwise different sequence numbers inside the transmit
  window, and the lists are in order. Every operation of the sender keeps the invariant and ends
  without touching memory it must not touch.
\<close>

section \<open>The invariant\<close>

definition seg_shape :: "rlc_heap \<Rightarrow> nr_rlc_sdu_segment \<Rightarrow> bool" where
  "seg_shape h s \<longleftrightarrow> (seg_is_first s \<longleftrightarrow> seg_so s = 0) \<and>
     (seg_is_last s \<longleftrightarrow> seg_so s + seg_size s = int (length (sdu_data (sdu_of h s)))) \<and>
     (0 < seg_size s \<or> sdu_data (sdu_of h s) = []) \<and> int (length (sdu_data (sdu_of h s))) \<le> NR_SDU_MAX"

definition seg_apart :: "nr_rlc_sdu_segment \<Rightarrow> nr_rlc_sdu_segment \<Rightarrow> bool" where
  "seg_apart s t \<longleftrightarrow> (seg_sdu s = seg_sdu t \<longrightarrow>
     seg_so s < seg_so t \<and> seg_so s + seg_size s \<le> seg_so t \<or> seg_so t < seg_so s \<and> seg_so t + seg_size t \<le> seg_so s)"

definition segs_apart :: "nr_rlc_sdu_segment set \<Rightarrow> bool" where
  "segs_apart S \<longleftrightarrow> (\<forall>s \<in> S. \<forall>t \<in> S. s \<noteq> t \<longrightarrow> seg_apart s t)"

text \<open>A sequence number between \<open>tx_next_ack\<close> and \<open>tx_next\<close>.\<close>

definition in_flight :: "int \<Rightarrow> int \<Rightarrow> int \<Rightarrow> int \<Rightarrow> bool" where
  "in_flight M base nxt x \<longleftrightarrow> 0 \<le> x \<and> x < M \<and> sn_dist M base x < sn_dist M base nxt"

definition sns_ok :: "int \<Rightarrow> int \<Rightarrow> int \<Rightarrow> rlc_heap \<Rightarrow> nr_rlc_sdu_segment set \<Rightarrow> nr_rlc_sdu_segment set \<Rightarrow> bool" where
  "sns_ok M base nxt h tx flight \<longleftrightarrow> (\<forall>s \<in> flight. in_flight M base nxt (seg_sn h s)) \<and>
     (\<forall>s \<in> tx. seg_sn h s = -1 \<or> in_flight M base nxt (seg_sn h s)) \<and>
     (\<forall>s \<in> tx \<union> flight. \<forall>t \<in> tx \<union> flight. seg_sn h s = seg_sn h t \<and> seg_sn h s \<noteq> -1 \<longrightarrow> seg_sdu s = seg_sdu t)"

definition win_ok :: "int \<Rightarrow> int \<Rightarrow> int \<Rightarrow> int \<Rightarrow> bool" where
  "win_ok M W base nxt \<longleftrightarrow> W < M \<and> 0 \<le> base \<and> base < M \<and> 0 \<le> nxt \<and> nxt < M \<and> sn_dist M base nxt \<le> W"

abbreviation seg_sorted :: "int \<Rightarrow> int \<Rightarrow> rlc_heap \<Rightarrow> nr_rlc_sdu_segment list \<Rightarrow> bool" where
  "seg_sorted M base h \<equiv> sorted_wrt (seg_le (seg_sn h) (sn_dist M base))"

definition snd_inv ::
  "int \<Rightarrow> int \<Rightarrow> int \<Rightarrow> int \<Rightarrow> rlc_heap \<Rightarrow> nr_rlc_sdu_segment list \<Rightarrow> nat option \<Rightarrow>
   nr_rlc_sdu_segment list \<Rightarrow> nat option \<Rightarrow> nr_rlc_sdu_segment list \<Rightarrow> bool" where
  "snd_inv M W base nxt h tx te wt we rt \<longleftrightarrow> win_ok M W base nxt \<and>
     segs_ok h (tx @ wt @ rt) \<and> tail_ok tx te \<and> tail_ok wt we \<and>
     (\<forall>s \<in> set (tx @ wt @ rt). seg_shape h s) \<and> segs_apart (set (tx @ wt @ rt)) \<and>
     sns_ok M base nxt h (set tx) (set (wt @ rt)) \<and> seg_sorted M base h wt \<and> seg_sorted M base h rt"

definition am_sender_inv :: "nr_rlc_entity_am \<Rightarrow> bool" where
  "am_sender_inv e \<longleftrightarrow> am_config_ok e \<and>
     snd_inv (am_sn_modulus e) (am_window_size e) (am_tx_next_ack e) (am_tx_next e) (am_heap e)
       (am_tx_list e) (am_tx_end e) (am_wait_list e) (am_wait_end e) (am_retransmit_list e)"

lemma segs_apart_sub: "segs_apart S \<Longrightarrow> T \<subseteq> S \<Longrightarrow> segs_apart T"
  by (auto simp: segs_apart_def)

lemma segs_ok_distinct: "segs_ok h l \<Longrightarrow> distinct l"
  by (simp add: segs_ok_def distinct_map)

lemma sn_dist_eq: "in_flight M base nxt a \<Longrightarrow> in_flight M base nxt b \<Longrightarrow> 0 \<le> base \<Longrightarrow> base < M \<Longrightarrow>
  sn_dist M base a = sn_dist M base b \<longleftrightarrow> a = b"
  using sn_dist_inject [of a M b base] by (auto simp: in_flight_def)

text \<open>The order inside the ordered lists does not depend on the place of a segment in the lists.\<close>

lemma am_sender_ctrl: "am_sender_inv e \<Longrightarrow> am_config_ok e \<and> am_tx_inv e \<and> am_tx_order e"
  by (auto simp: am_sender_inv_def snd_inv_def am_tx_inv_def am_tx_order_def win_ok_def am_sn_ok_def sns_ok_def
      in_flight_def am_modulus_tx_dist [abs_def])

section \<open>Insertion into an ordered list\<close>

lemma seg_add_sorted:
  assumes "\<forall>x \<in> insert s (set l). in_flight M base nxt (seg_sn h x)" "0 \<le> base" "base < M" "seg_sorted M base h l"
  shows "seg_sorted M base h
    (nr_rlc_sdu_segment_list_add h (\<lambda>a b. sn_dist M base a - sn_dist M base b) l s)"
proof -
  let ?cmp = "\<lambda>a b. sn_dist M base a - sn_dist M base b"
  have eq: "list_before ?cmp (seg_sn h) seg_so a b = seg_le (seg_sn h) (sn_dist M base) a b"
    if "a \<in> insert s (set l)" "b \<in> insert s (set l)" for a b
  proof -
    have "in_flight M base nxt (seg_sn h a)" "in_flight M base nxt (seg_sn h b)" using that assms(1) by blast+
    from sn_dist_eq [OF this assms(2,3)] show ?thesis by (auto simp: list_before_def seg_le_def)
  qed
  have "sorted_wrt (list_before ?cmp (seg_sn h) seg_so) l"
    using assms(4) by (rule sorted_wrt_mono_rel [rotated]) (use eq in auto)
  from sn_order.sorted_insert [OF sn_dist_order [OF assms(2,3)] _ _ this, of s] assms(1)
  have "sorted_wrt (list_before ?cmp (seg_sn h) seg_so) (nr_rlc_sdu_segment_list_add h ?cmp l s)"
    by (auto simp: nr_rlc_sdu_segment_list_add_def in_flight_def)
  then show ?thesis by (rule sorted_wrt_mono_rel [rotated]) (use eq in \<open>auto simp: nr_rlc_sdu_segment_list_add_def\<close>)
qed

lemma seg_add_mset: "mset (nr_rlc_sdu_segment_list_add h cmp l s) = add_mset s (mset l)"
proof -
  have "mset (insert_before stop x l) = add_mset x (mset l)" for stop and x :: nr_rlc_sdu_segment
    by (induction l) auto
  then show ?thesis by (simp add: nr_rlc_sdu_segment_list_add_def)
qed

lemma seg_add_set [simp]: "set (nr_rlc_sdu_segment_list_add h cmp l s) = insert s (set l)"
  by (simp add: nr_rlc_sdu_segment_list_add_def)


lemma find_last:
  "distinct (map seg_addr l) \<Longrightarrow> l \<noteq> [] \<Longrightarrow> find (\<lambda>x. seg_addr x = seg_addr (last l)) l = Some (last l)"
proof (induction l)
  case Nil
  then show ?case by simp
next
  case (Cons x l)
  have "seg_addr x \<noteq> seg_addr (last l)" if "l \<noteq> []"
    using Cons.prems(1) imageI [OF last_in_set [OF that], of seg_addr] by auto
  with Cons show ?case by auto
qed

lemma sorted_wrt_last: "sorted_wrt R l \<Longrightarrow> x \<in> set l \<Longrightarrow> x = last l \<or> R x (last l)"
  by (induction l) auto

lemma seg_add_last:
  assumes "seg_sorted M base h l" "l \<noteq> []" "\<forall>x \<in> insert s (set l). in_flight M base nxt (seg_sn h x)" "0 \<le> base" "base < M"
    and "sn_dist M base (seg_sn h s) > sn_dist M base (seg_sn h (last l)) \<or>
      sn_dist M base (seg_sn h s) = sn_dist M base (seg_sn h (last l)) \<and> seg_so s > seg_so (last l)"
  shows "nr_rlc_sdu_segment_list_add h (\<lambda>a b. sn_dist M base a - sn_dist M base b) l s = l @ [s]"
proof -
  let ?stop = "\<lambda>cur. sn_dist M base (seg_sn h cur) - sn_dist M base (seg_sn h s) > 0 \<or>
    seg_sn h cur = seg_sn h s \<and> seg_so cur > seg_so s"
  have le: "x = last l \<or> seg_le (seg_sn h) (sn_dist M base) x (last l)" if "x \<in> set l" for x
    by (rule sorted_wrt_last [OF assms(1) that])
  have "\<not> ?stop x" if "x \<in> set l" for x
    using le [OF that] assms(6) that by (auto simp: seg_le_def)
  moreover have "\<forall>x \<in> set l. \<not> P x \<Longrightarrow> insert_before P s l = l @ [s]" for P
    by (induction l) auto
  ultimately show ?thesis by (auto simp: nr_rlc_sdu_segment_list_add_def)
qed

lemma am_put_wait_ok:
  assumes "tail_ok (am_wait_list e) (am_wait_end e)" "seg_addr s \<notin> seg_addr ` set (am_wait_list e)"
    and "0 \<le> am_tx_next_ack e" "am_tx_next_ack e < am_sn_modulus e"
    and fl: "\<forall>x \<in> insert s (set (am_wait_list e)). in_flight (am_sn_modulus e) (am_tx_next_ack e) nxt (seg_sn (am_heap e) x)"
    and "\<forall>w \<in> set (am_wait_list e). seg_sn (am_heap e) w = seg_sn (am_heap e) s \<longrightarrow> seg_so w \<noteq> seg_so s"
    and "seg_sorted (am_sn_modulus e) (am_tx_next_ack e) (am_heap e) (am_wait_list e)"
  defines "l \<equiv> nr_rlc_sdu_segment_list_add (am_heap e)
    (\<lambda>a b. sn_dist (am_sn_modulus e) (am_tx_next_ack e) a - sn_dist (am_sn_modulus e) (am_tx_next_ack e) b) (am_wait_list e) s"
  shows "am_put_wait e s = Inr (e\<lparr>am_wait_list := l, am_wait_end := end_addr l\<rparr>)" "tail_ok l (end_addr l)"
proof -
  let ?w = "am_wait_list e" and ?d = "sn_dist (am_sn_modulus e) (am_tx_next_ack e)" and ?sn = "seg_sn (am_heap e)"
  have cmp: "am_sn_compare_tx e = (\<lambda>a b. ?d a - ?d b)" by (simp add: fun_eq_iff am_sn_compare_tx_def am_modulus_tx_dist)
  have dist: "distinct (map seg_addr ?w)" using assms(1) by (simp add: tail_ok_def)
  have "distinct (map seg_addr l)"
    using dist assms(2) seg_add_mset by (metis distinct.simps(2) l_def list.set_map list.simps(9) mset.simps(2) mset_eq_imp_distinct_iff mset_map)
  then show "tail_ok l (end_addr l)" by (simp add: tail_ok_def end_addr_def)
  have app: "nr_rlc_sdu_segment_list_append ?w (am_wait_end e) s = Inr (?w @ [s], Some (seg_addr s))"
    by (rule seg_tail.append_end [OF assms(1,2)])
  show "am_put_wait e s = Inr (e\<lparr>am_wait_list := l, am_wait_end := end_addr l\<rparr>)"
  proof (cases "?w = []")
    case True
    with assms(1) app show ?thesis
      by (simp add: am_put_wait_def Let_def l_def nr_rlc_sdu_segment_list_add_def end_addr_def)
  next
    case False
    have we: "am_wait_end e = Some (seg_addr (last ?w))" using assms(1) False by (simp add: tail_ok_def)
    let ?behind = "?d (?sn s) > ?d (?sn (last ?w)) \<or> ?d (?sn s) = ?d (?sn (last ?w)) \<and> seg_so s > seg_so (last ?w)"
    show ?thesis
    proof (cases ?behind)
      case True
      have "l = ?w @ [s]" unfolding l_def by (rule seg_add_last [OF assms(7) False fl assms(3,4) True])
      with True we app find_last [OF dist False] show ?thesis
        by (auto simp: am_put_wait_def Let_def cmp end_addr_def)
    next
      case before: False
      let ?stop = "\<lambda>cur. ?d (?sn cur) - ?d (?sn s) > 0 \<or> ?sn cur = ?sn s \<and> seg_so cur > seg_so s"
      have "?sn (last ?w) = ?sn s" if "?d (?sn (last ?w)) = ?d (?sn s)"
        using that sn_dist_eq [OF bspec [OF fl] bspec [OF fl] assms(3,4)] last_in_set [OF False] by auto
      with before assms(6) last_in_set [OF False] have stop: "?stop (last ?w)" by force
      define a b where "a = takeWhile (Not \<circ> ?stop) ?w" and "b = dropWhile (Not \<circ> ?stop) ?w"
      have ab: "?w = a @ b" by (simp only: a_def b_def takeWhile_dropWhile_id)
      have lab: "l = a @ s # b"
        unfolding l_def nr_rlc_sdu_segment_list_add_def insert_before_split a_def b_def by (rule refl)
      have b: "b \<noteq> []" unfolding b_def using stop last_in_set [OF False] by auto
      have "last l = last ?w" unfolding lab ab using b by simp
      moreover have "tl l \<noteq> []" unfolding lab using b by (cases a) simp_all
      moreover have "l \<noteq> []" unfolding lab by simp
      ultimately show ?thesis using before we find_last [OF dist False]
        by (auto simp: am_put_wait_def Let_def cmp end_addr_def l_def [unfolded cmp] simp flip: l_def)
    qed
  qed
qed


section \<open>Moves between the lists\<close>

lemma sns_flight:
  "sns_ok M base nxt h tx fl \<Longrightarrow> s \<in> tx \<union> fl \<Longrightarrow> seg_sn h s \<noteq> -1 \<Longrightarrow> in_flight M base nxt (seg_sn h s)"
  by (auto simp: sns_ok_def)

lemma sns_dest:
  "sns_ok M base nxt h tx fl \<Longrightarrow> s \<in> fl \<Longrightarrow> in_flight M base nxt (seg_sn h s)"
  "sns_ok M base nxt h tx fl \<Longrightarrow> s \<in> tx \<Longrightarrow> seg_sn h s = -1 \<or> in_flight M base nxt (seg_sn h s)"
  "sns_ok M base nxt h tx fl \<Longrightarrow> s \<in> tx \<union> fl \<Longrightarrow> t \<in> tx \<union> fl \<Longrightarrow> seg_sn h s = seg_sn h t \<Longrightarrow> seg_sn h s \<noteq> -1 \<Longrightarrow>
    seg_sdu s = seg_sdu t"
  unfolding sns_ok_def by blast+

lemma in_flight_not_new: "in_flight M base nxt x \<Longrightarrow> x \<noteq> -1"
  by (auto simp: in_flight_def)

lemma snd_inv_perm:
  assumes inv: "snd_inv M W base nxt h tx te wt we rt" and ms: "mset (tx' @ wt' @ rt') = mset (tx @ wt @ rt)"
    and "tail_ok tx' te'" "tail_ok wt' we'" "seg_sorted M base h wt'" "seg_sorted M base h rt'"
    and "\<forall>s \<in> set (wt' @ rt'). seg_sn h s \<noteq> -1"
  shows "snd_inv M W base nxt h tx' te' wt' we' rt'"
proof -
  have st: "set (tx' @ wt' @ rt') = set (tx @ wt @ rt)" by (rule mset_eq_setD [OF ms])
  have sns: "sns_ok M base nxt h (set tx) (set (wt @ rt))" using inv by (simp add: snd_inv_def)
  have un: "set tx' \<union> set (wt' @ rt') = set tx \<union> set (wt @ rt)" using st by auto
  have "sns_ok M base nxt h (set tx') (set (wt' @ rt'))"
    unfolding sns_ok_def
  proof (intro conjI)
    show "\<forall>s \<in> set (wt' @ rt'). in_flight M base nxt (seg_sn h s)"
      using sns_flight [OF sns] assms(7) un by blast
    show "\<forall>s \<in> set tx'. seg_sn h s = -1 \<or> in_flight M base nxt (seg_sn h s)"
      using sns_flight [OF sns] un by blast
    show "\<forall>s \<in> set tx' \<union> set (wt' @ rt'). \<forall>t \<in> set tx' \<union> set (wt' @ rt').
        seg_sn h s = seg_sn h t \<and> seg_sn h s \<noteq> -1 \<longrightarrow> seg_sdu s = seg_sdu t"
      unfolding un using sns unfolding sns_ok_def by blast
  qed
  moreover have "segs_ok h (tx' @ wt' @ rt')" using segs_ok_perm [OF _ ms [symmetric]] inv by (simp add: snd_inv_def)
  moreover have "segs_apart (set (tx' @ wt' @ rt'))" "\<forall>s \<in> set (tx' @ wt' @ rt'). seg_shape h s"
    unfolding st using inv unfolding snd_inv_def by blast+
  ultimately show ?thesis using inv assms(3,4,5,6) by (simp add: snd_inv_def)
qed

text \<open>What \<open>am_put_wait\<close> asks of the new segment.\<close>

lemma snd_wait_pre:
  assumes inv: "snd_inv M W base nxt h tx te wt we rt" and s: "s \<in> set (tx @ rt)" and sn: "seg_sn h s \<noteq> -1"
  shows "tail_ok wt we" "seg_addr s \<notin> seg_addr ` set wt" "0 \<le> base" "base < M"
    "\<forall>x \<in> insert s (set wt). in_flight M base nxt (seg_sn h x)"
    "\<forall>w \<in> set wt. seg_sn h w = seg_sn h s \<longrightarrow> seg_so w \<noteq> seg_so s" "seg_sorted M base h wt"
proof -
  show "tail_ok wt we" "0 \<le> base" "base < M" "seg_sorted M base h wt"
    using inv by (simp_all add: snd_inv_def win_ok_def)
  have dist: "distinct (map seg_addr (tx @ wt @ rt))" using inv by (simp add: snd_inv_def segs_ok_def)
  then show na: "seg_addr s \<notin> seg_addr ` set wt" using s by auto
  have sns: "sns_ok M base nxt h (set tx) (set (wt @ rt))" using inv by (simp add: snd_inv_def)
  then show "\<forall>x \<in> insert s (set wt). in_flight M base nxt (seg_sn h x)"
    using sns_flight [OF sns, of s] s sn by (auto simp: sns_ok_def)
  show "\<forall>w \<in> set wt. seg_sn h w = seg_sn h s \<longrightarrow> seg_so w \<noteq> seg_so s"
  proof (intro ballI impI)
    fix w assume w: "w \<in> set wt" "seg_sn h w = seg_sn h s"
    have "w \<noteq> s" using na w(1) by auto
    moreover have "seg_sdu w = seg_sdu s" using sns w s sn unfolding sns_ok_def by auto
    moreover have "segs_apart (set (tx @ wt @ rt))" using inv by (simp only: snd_inv_def)
    ultimately show "seg_so w \<noteq> seg_so s" using w(1) s unfolding segs_apart_def seg_apart_def by fastforce
  qed
qed

abbreviation sn_add :: "int \<Rightarrow> int \<Rightarrow> rlc_heap \<Rightarrow> nr_rlc_sdu_segment list \<Rightarrow> nr_rlc_sdu_segment \<Rightarrow> nr_rlc_sdu_segment list" where
  "sn_add M base h \<equiv> nr_rlc_sdu_segment_list_add h (\<lambda>a b. sn_dist M base a - sn_dist M base b)"

lemma sn_add_tail: "distinct (map seg_addr (s # l)) \<Longrightarrow> tail_ok (nr_rlc_sdu_segment_list_add h cmp l s)
    (end_addr (nr_rlc_sdu_segment_list_add h cmp l s))"
  unfolding tail_ok_def end_addr_def
  by (metis mset.simps(2) mset_eq_imp_distinct_iff mset_map seg_add_mset)

lemma snd_tx_to_wait:
  assumes inv: "snd_inv M W base nxt h (s # tx) te wt we rt" and sn: "seg_sn h s \<noteq> -1"
  shows "snd_inv M W base nxt h tx (if tx = [] then None else te) (sn_add M base h wt s) (end_addr (sn_add M base h wt s)) rt"
proof (rule snd_inv_perm [OF inv])
  note pre = snd_wait_pre [OF inv _ sn]
  have dist: "distinct (map seg_addr ((s # tx) @ wt @ rt))" using inv by (simp add: snd_inv_def segs_ok_def)
  show "tail_ok (sn_add M base h wt s) (end_addr (sn_add M base h wt s))" by (rule sn_add_tail) (use dist in auto)
  show "seg_sorted M base h (sn_add M base h wt s)" using pre(3,4,5,7) by (intro seg_add_sorted) auto
  show "tail_ok tx (if tx = [] then None else te)" by (rule tail_ok_Cons [of s]) (use inv in \<open>simp add: snd_inv_def\<close>)
  show "\<forall>x \<in> set (sn_add M base h wt s @ rt). seg_sn h x \<noteq> -1"
    using inv sn by (auto simp: snd_inv_def sns_ok_def dest: in_flight_not_new)
qed (use inv in \<open>simp_all add: seg_add_mset snd_inv_def\<close>)

lemma snd_retx_to_wait:
  assumes inv: "snd_inv M W base nxt h tx te wt we (s # rt)"
  shows "snd_inv M W base nxt h tx te (sn_add M base h wt s) (end_addr (sn_add M base h wt s)) rt"
proof (rule snd_inv_perm [OF inv])
  have sn: "seg_sn h s \<noteq> -1" using inv by (auto simp: snd_inv_def sns_ok_def dest: in_flight_not_new)
  note pre = snd_wait_pre [OF inv _ sn]
  have dist: "distinct (map seg_addr (tx @ wt @ s # rt))" using inv by (simp add: snd_inv_def segs_ok_def)
  show "tail_ok (sn_add M base h wt s) (end_addr (sn_add M base h wt s))" by (rule sn_add_tail) (use dist in auto)
  show "seg_sorted M base h (sn_add M base h wt s)" using pre(3,4,5,7) by (intro seg_add_sorted) auto
  show "\<forall>x \<in> set (sn_add M base h wt s @ rt). seg_sn h x \<noteq> -1"
    using inv sn by (auto simp: snd_inv_def sns_ok_def dest: in_flight_not_new)
qed (use inv in \<open>simp_all add: seg_add_mset snd_inv_def\<close>)

lemma snd_wait_to_retx:
  assumes inv: "snd_inv M W base nxt h tx te (s # wt) we rt"
  shows "snd_inv M W base nxt h tx te wt (if wt = [] then None else we) (sn_add M base h rt s)"
proof (rule snd_inv_perm [OF inv])
  have sns: "\<forall>x \<in> set ((s # wt) @ rt). in_flight M base nxt (seg_sn h x)" using inv by (simp add: snd_inv_def sns_ok_def)
  show "tail_ok wt (if wt = [] then None else we)" by (rule tail_ok_Cons [of s]) (use inv in \<open>simp add: snd_inv_def\<close>)
  show "seg_sorted M base h (sn_add M base h rt s)"
    by (rule seg_add_sorted) (use sns inv in \<open>auto simp: snd_inv_def win_ok_def\<close>)
  show "\<forall>x \<in> set (wt @ sn_add M base h rt s). seg_sn h x \<noteq> -1" using sns by (auto dest: in_flight_not_new)
qed (use inv in \<open>simp_all add: seg_add_mset snd_inv_def\<close>)


section \<open>Splitting, new sequence numbers, new SDUs\<close>

text \<open>A change of the heap that keeps what the segments say.\<close>

lemma same_shape: "same_sdus h h' l \<Longrightarrow> s \<in> set l \<Longrightarrow> seg_shape h' s = seg_shape h s"
  by (auto simp: same_sdus_def same_sdu_def seg_shape_def)

lemma same_sorted:
  assumes "same_sdus h h' l" "set l' \<subseteq> set l"
  shows "seg_sorted M base h' l' = seg_sorted M base h l'"
proof -
  have "seg_le (seg_sn h') d a b = seg_le (seg_sn h) d a b" if "a \<in> set l'" "b \<in> set l'" for a b d
  proof -
    have "seg_sn h' a = seg_sn h a" "seg_sn h' b = seg_sn h b"
      using same_sdus_sn [OF assms(1)] that assms(2) by blast+
    then show ?thesis by (simp add: seg_le_def)
  qed
  then show ?thesis by (metis sorted_wrt_mono_rel)
qed

lemma same_sns:
  assumes "same_sdus h h' l" "tx \<union> fl \<subseteq> set l"
  shows "sns_ok M base nxt h' tx fl = sns_ok M base nxt h tx fl"
proof -
  have "seg_sn h' s = seg_sn h s" if "s \<in> tx \<union> fl" for s using same_sdus_sn [OF assms(1)] that assms(2) by blast
  then show ?thesis by (simp add: sns_ok_def ball_Un)
qed

lemma snd_inv_heap:
  assumes "snd_inv M W base nxt h tx te wt we rt" "same_sdus h h' (tx @ wt @ rt)" "segs_ok h' (tx @ wt @ rt)"
  shows "snd_inv M W base nxt h' tx te wt we rt"
proof -
  note same = same_shape [OF assms(2)] same_sorted [OF assms(2)] same_sns [OF assms(2)]
  have "seg_sorted M base h' wt" "seg_sorted M base h' rt" "sns_ok M base nxt h' (set tx) (set (wt @ rt))"
    using assms(1) same(2) [of wt] same(2) [of rt] same(3) [of "set tx" "set (wt @ rt)"] by (auto simp: snd_inv_def)
  moreover have "\<forall>s \<in> set (tx @ wt @ rt). seg_shape h' s" using assms(1) same(1) by (simp add: snd_inv_def)
  ultimately show ?thesis using assms(1,3) by (simp add: snd_inv_def)
qed

definition seg_part :: "nr_rlc_sdu_segment \<Rightarrow> int \<Rightarrow> nr_rlc_sdu_segment" where
  "seg_part s n = s\<lparr>seg_size := n, seg_is_last := False\<rparr>"

definition seg_rest :: "nr_rlc_sdu_segment \<Rightarrow> int \<Rightarrow> nat \<Rightarrow> nr_rlc_sdu_segment" where
  "seg_rest s n a = s\<lparr>seg_addr := a, seg_size := seg_size s - n, seg_so := seg_so s + n, seg_is_first := False\<rparr>"

lemmas seg_split_defs = seg_part_def seg_rest_def

definition heap_split :: "nr_rlc_sdu_segment \<Rightarrow> rlc_heap \<Rightarrow> rlc_heap \<Rightarrow> bool" where
  "heap_split s h h' \<longleftrightarrow> (\<exists>h1. sdu_update (\<lambda>u. u\<lparr>sdu_ref_count := sdu_ref_count u + 1\<rparr>) s h = Inr h1 \<and>
     heap_next h1 = heap_next h \<and> h' = h1\<lparr>heap_next := heap_next h1 + 1\<rparr>)"

lemma split_core:
  assumes "segs_ok h (s # l)" "heap_split s h h'" "0 < n" "n < seg_size s"
    and "\<forall>x \<in> set (s # l). seg_shape h x" "segs_apart (set (s # l))"
  defines "s1 \<equiv> seg_part s n" and "s2 \<equiv> seg_rest s n (heap_next h)"
  shows "segs_ok h' (s1 # s2 # l)" "same_sdus h h' (s # l)" "seg_sn h' s1 = seg_sn h s" "seg_sn h' s2 = seg_sn h s"
    "\<forall>x \<in> set (s1 # s2 # l). seg_shape h' x" "segs_apart (set (s1 # s2 # l))"
    "\<forall>x \<in> set l. seg_sdu x = seg_sdu s \<and> seg_so s \<le> seg_so x \<longrightarrow> seg_so s2 \<le> seg_so x"
proof -
  obtain h1 where h1: "sdu_update (\<lambda>u. u\<lparr>sdu_ref_count := sdu_ref_count u + 1\<rparr>) s h = Inr h1" "heap_next h1 = heap_next h"
      "h' = h1\<lparr>heap_next := heap_next h1 + 1\<rparr>" using assms(2) by (auto simp: heap_split_def)
  have sel: "seg_addr s1 = seg_addr s" "seg_sdu s1 = seg_sdu s" "seg_addr s2 = heap_next h1" "seg_sdu s2 = seg_sdu s"
    "seg_so s1 = seg_so s" "seg_so s2 = seg_so s + seg_size s1" "seg_size s1 + seg_size s2 = seg_size s"
    "0 \<le> seg_size s1" "0 \<le> seg_size s2" "seg_size s1 = n" "seg_is_first s1 = seg_is_first s" "\<not> seg_is_last s1"
    "\<not> seg_is_first s2" "seg_is_last s2 = seg_is_last s"
    using assms(3,4) h1(2) by (simp_all add: s1_def s2_def seg_split_defs)
  show ok: "segs_ok h' (s1 # s2 # l)" and same: "same_sdus h h' (s # l)"
    using segs_ok_split [OF assms(1) h1(1) sel(1-9)] h1(3) by simp_all
  have of: "sdu_of h' s1 = sdu_of h' s" "sdu_of h' s2 = sdu_of h' s" by (simp_all add: sdu_of_def sel)
  show "seg_sn h' s1 = seg_sn h s" "seg_sn h' s2 = seg_sn h s"
    using same_sdus_sn [OF same, of s] of by (simp_all add: seg_sn_def)
  have s: "seg_shape h' s" "seg_ok h s" using assms(1,5) same_shape [OF same, of s] by (simp_all add: segs_ok_def)
  have "seg_ok h' s2" "seg_ok h' s" using ok s same_sdus_seg_ok [OF same, of s] by (simp_all add: segs_ok_def)
  then have "seg_shape h' s1" "seg_shape h' s2"
    using s(1) sel(5-14) assms(3,4) by (auto simp: seg_shape_def seg_ok_def of)
  with assms(5) same_shape [OF same] show "\<forall>x \<in> set (s1 # s2 # l). seg_shape h' x" by auto
  have ap: "seg_apart s x" "seg_apart x s" if "x \<in> set l" for x
  proof -
    have "x \<noteq> s" using segs_ok_distinct [OF assms(1)] that by auto
    with assms(6) that show "seg_apart s x" "seg_apart x s" by (auto simp: segs_apart_def)
  qed
  have nn: "0 < seg_size s1" "0 < seg_size s2" using assms(3,4) sel(7,10) by auto
  have "seg_apart s1 x \<and> seg_apart s2 x \<and> seg_apart x s1 \<and> seg_apart x s2" if "x \<in> set l" for x
    using ap [OF that] sel(2,4,5,6,7) nn unfolding seg_apart_def by auto
  moreover have "seg_apart s1 s2" "seg_apart s2 s1" using sel(5,6) nn by (simp_all add: seg_apart_def)
  ultimately show "segs_apart (set (s1 # s2 # l))" using assms(6) by (auto simp: segs_apart_def)
  show "\<forall>x \<in> set l. seg_sdu x = seg_sdu s \<and> seg_so s \<le> seg_so x \<longrightarrow> seg_so s2 \<le> seg_so x"
    using ap(1) sel(6,7) nn unfolding seg_apart_def by fastforce
qed

lemma heap_split_ex: "segs_ok h (s # l) \<Longrightarrow> \<exists>h'. heap_split s h h'"
  using heap_ok_live [OF segs_ok_heap, of h "s # l" s] by (auto simp: heap_split_def sdu_update_def)


lemma sns_image:
  assumes sns: "sns_ok M base nxt h tx fl"
    and tx: "\<forall>x \<in> tx'. \<exists>y \<in> tx. seg_sn h' x = seg_sn h y \<and> seg_sdu x = seg_sdu y"
    and fl: "\<forall>x \<in> fl'. \<exists>y \<in> fl. seg_sn h' x = seg_sn h y \<and> seg_sdu x = seg_sdu y"
  shows "sns_ok M base nxt h' tx' fl'"
  unfolding sns_ok_def
proof (intro conjI ballI impI)
  have un: "\<exists>y \<in> tx \<union> fl. seg_sn h' x = seg_sn h y \<and> seg_sdu x = seg_sdu y" if "x \<in> tx' \<union> fl'" for x
    using that tx fl by blast
  fix s
  show "in_flight M base nxt (seg_sn h' s)" if "s \<in> fl'" using fl that sns unfolding sns_ok_def by fastforce
  show "seg_sn h' s = -1 \<or> in_flight M base nxt (seg_sn h' s)" if "s \<in> tx'"
    using tx that sns unfolding sns_ok_def by fastforce
  fix t assume s: "s \<in> tx' \<union> fl'" and t: "t \<in> tx' \<union> fl'" and eq: "seg_sn h' s = seg_sn h' t \<and> seg_sn h' s \<noteq> -1"
  obtain y where "y \<in> tx \<union> fl" "seg_sn h' s = seg_sn h y" "seg_sdu s = seg_sdu y" using un [OF s] by blast
  moreover obtain z where "z \<in> tx \<union> fl" "seg_sn h' t = seg_sn h z" "seg_sdu t = seg_sdu z" using un [OF t] by blast
  ultimately show "seg_sdu s = seg_sdu t" using eq sns unfolding sns_ok_def by metis
qed

lemma snd_split_tx:
  assumes inv: "snd_inv M W base nxt h (s # tx) te wt we rt" and sp: "heap_split s h h'" and n: "0 < n" "n < seg_size s"
  defines "s1 \<equiv> seg_part s n" and "s2 \<equiv> seg_rest s n (heap_next h)"
  shows "snd_inv M W base nxt h' (s1 # s2 # tx) (if tx = [] then Some (seg_addr s2) else te) wt we rt"
proof -
  have pre: "segs_ok h (s # tx @ wt @ rt)" "\<forall>x \<in> set (s # tx @ wt @ rt). seg_shape h x"
      "segs_apart (set (s # tx @ wt @ rt))" using inv by (simp_all add: snd_inv_def)
  note core = split_core [OF pre(1) sp n pre(2,3), folded s1_def s2_def]
  have same: "same_sdus h h' (tx @ wt @ rt)" using core(2) by (simp add: same_sdus_def)
  have "sns_ok M base nxt h' (set (s1 # s2 # tx)) (set (wt @ rt))"
    by (rule sns_image [of _ _ _ h "set (s # tx)" "set (wt @ rt)"])
      (use core(3,4) same_sdus_sn [OF same] inv in \<open>auto simp: snd_inv_def s1_def s2_def seg_split_defs\<close>)
  moreover have "tail_ok (s1 # s2 # tx) (if tx = [] then Some (seg_addr s2) else te)"
    using inv core(1) by (auto simp: snd_inv_def tail_ok_def segs_ok_def)
  moreover have "seg_sorted M base h' wt" "seg_sorted M base h' rt"
    using inv same_sorted [OF same] by (auto simp: snd_inv_def)
  ultimately show ?thesis using inv core(1,5,6) by (simp add: snd_inv_def)
qed

lemma snd_split_retx:
  assumes inv: "snd_inv M W base nxt h tx te wt we (s # rt)" and sp: "heap_split s h h'" and n: "0 < n" "n < seg_size s"
  defines "s1 \<equiv> seg_part s n" and "s2 \<equiv> seg_rest s n (heap_next h)"
  shows "snd_inv M W base nxt h' tx te wt we (s1 # s2 # rt)"
proof -
  let ?l = "tx @ wt @ rt"
  have ms: "mset (tx @ wt @ s # rt) = mset (s # ?l)" by simp
  have pre: "segs_ok h (s # ?l)" using inv segs_ok_perm [OF _ ms] by (simp add: snd_inv_def)
  have pre': "\<forall>x \<in> set (s # ?l). seg_shape h x" "segs_apart (set (s # ?l))" using inv by (auto simp: snd_inv_def)
  note core = split_core [OF pre sp n pre', folded s1_def s2_def]
  have same: "same_sdus h h' ?l" using core(2) by (simp add: same_sdus_def)
  have sns: "sns_ok M base nxt h (set tx) (set (wt @ s # rt))" using inv by (simp add: snd_inv_def)
  have sns': "sns_ok M base nxt h' (set tx) (set (wt @ s1 # s2 # rt))"
    by (rule sns_image [OF sns])
      (use core(3,4) same_sdus_sn [OF same] in \<open>auto simp: s1_def s2_def seg_split_defs\<close>)
  have ms': "mset (s1 # s2 # ?l) = mset (tx @ wt @ s1 # s2 # rt)" by simp
  have sorted: "seg_sorted M base h' wt" "seg_sorted M base h' rt" using inv same_sorted [OF same] by (auto simp: snd_inv_def)
  have "seg_le (seg_sn h') (sn_dist M base) s1 x \<and> seg_le (seg_sn h') (sn_dist M base) s2 x" if x: "x \<in> set rt" for x
  proof -
    have le: "seg_le (seg_sn h) (sn_dist M base) s x" using inv x by (simp add: snd_inv_def)
    have fl: "in_flight M base nxt (seg_sn h s)" "in_flight M base nxt (seg_sn h x)" using sns x by (auto simp: sns_ok_def)
    have "seg_so s2 \<le> seg_so x" if "sn_dist M base (seg_sn h s) = sn_dist M base (seg_sn h x)"
    proof -
      have "seg_sn h s = seg_sn h x" using sn_dist_eq [OF fl] that inv by (simp add: snd_inv_def win_ok_def)
      then have "seg_sdu x = seg_sdu s" using sns x in_flight_not_new [OF fl(1)] unfolding sns_ok_def by simp
      moreover have "seg_so s \<le> seg_so x" using le that by (auto simp: seg_le_def)
      ultimately show ?thesis using core(7) x by simp
    qed
    moreover have "seg_sn h' x = seg_sn h x" using same_sdus_sn [OF same] x by simp
    moreover have "seg_so s1 = seg_so s" by (simp add: s1_def seg_part_def)
    ultimately show ?thesis using le core(3,4) by (auto simp: seg_le_def)
  qed
  moreover have "seg_le (seg_sn h') (sn_dist M base) s1 s2"
    using core(3,4) n by (simp add: seg_le_def s1_def s2_def seg_split_defs)
  ultimately have "seg_sorted M base h' (s1 # s2 # rt)" using sorted(2) by simp
  with sns' sorted(1) core(5,6) segs_ok_perm [OF core(1) ms'] inv show ?thesis by (auto simp: snd_inv_def insert_commute)
qed

text \<open>The next sequence number for the head of the transmit list; the window has room for it.\<close>

lemma sn_dist_next:
  assumes "win_ok M W base nxt" "sn_dist M base nxt < W"
  shows "sn_dist M base ((nxt + 1) mod M) = sn_dist M base nxt + 1" "0 \<le> (nxt + 1) mod M" "(nxt + 1) mod M < M"
proof -
  have M: "0 < M" using assms by (auto simp: win_ok_def)
  then show "0 \<le> (nxt + 1) mod M" "(nxt + 1) mod M < M" by simp_all
  have "sn_dist M base ((nxt + 1) mod M) = ((nxt + 1) mod M - base) mod M"
    using M assms(1) by (intro sn_dist_mod) (auto simp: win_ok_def)
  also have "\<dots> = (sn_dist M base nxt + 1) mod M"
    using assms(1) by (simp add: win_ok_def sn_dist_mod mod_simps algebra_simps)
  also have "\<dots> = sn_dist M base nxt + 1"
    using assms by (intro mod_pos_pos_trivial) (auto simp: win_ok_def sn_dist_def Let_def split: if_splits)
  finally show "sn_dist M base ((nxt + 1) mod M) = sn_dist M base nxt + 1" .
qed

lemma snd_assign:
  assumes inv: "snd_inv M W base nxt h (s # tx) te wt we rt" and room: "sn_dist M base nxt < W" and sn: "seg_sn h s = -1"
    and upd: "sdu_update (\<lambda>u. u\<lparr>sdu_sn := nxt\<rparr>) s h = Inr h'"
  shows "snd_inv M W base ((nxt + 1) mod M) h' (s # tx) te wt we rt" "seg_sn h' s = nxt" "heap_next h' = heap_next h"
proof -
  let ?nxt = "(nxt + 1) mod M" and ?l = "(s # tx) @ wt @ rt"
  have win: "win_ok M W base nxt" using inv by (simp add: snd_inv_def)
  note nx = sn_dist_next [OF win room]
  obtain u where u: "heap_sdu h (seg_sdu s) = Some u" "h' = h\<lparr>heap_sdu := (heap_sdu h)(seg_sdu s \<mapsto> u\<lparr>sdu_sn := nxt\<rparr>)\<rparr>"
    using upd by (auto simp: sdu_update_def split: option.splits)
  have data: "sdu_data (sdu_of h' x) = sdu_data (sdu_of h x)" for x using u by (simp add: sdu_of_def)
  have sn': "seg_sn h' x = (if seg_sdu x = seg_sdu s then nxt else seg_sn h x)" for x
    using u by (simp add: seg_sn_def sdu_of_def)
  have new: "seg_sdu x = seg_sdu s \<Longrightarrow> seg_sn h x = -1" for x using sn by (simp add: seg_sn_def sdu_of_def)
  show "seg_sn h' s = nxt" "heap_next h' = heap_next h" using sn' u by simp_all
  have sns: "sns_ok M base nxt h (set (s # tx)) (set (wt @ rt))" using inv by (simp add: snd_inv_def)
  have mono: "in_flight M base ?nxt x" if "in_flight M base nxt x" for x using that nx(1) by (auto simp: in_flight_def)
  have now: "in_flight M base ?nxt nxt" using win nx(1) by (auto simp: in_flight_def win_ok_def)
  have old: "seg_sn h x \<noteq> nxt" if "x \<in> set ?l" for x
  proof -
    have "seg_sn h x = -1 \<or> in_flight M base nxt (seg_sn h x)" using sns_flight [OF sns, of x] that by auto
    with win show ?thesis by (auto simp: in_flight_def win_ok_def)
  qed
  have keep: "seg_sn h' x = seg_sn h x" if "x \<in> set (wt @ rt)" for x
    using in_flight_not_new [OF sns_dest(1) [OF sns that]] new [of x] unfolding sn' by auto
  have sns': "sns_ok M base ?nxt h' (set (s # tx)) (set (wt @ rt))"
    unfolding sns_ok_def
  proof (intro conjI ballI impI)
    fix x
    show "in_flight M base ?nxt (seg_sn h' x)" if "x \<in> set (wt @ rt)"
      unfolding keep [OF that] by (rule mono [OF sns_dest(1) [OF sns that]])
    show "seg_sn h' x = -1 \<or> in_flight M base ?nxt (seg_sn h' x)" if "x \<in> set (s # tx)"
      using sns_dest(2) [OF sns that] mono now unfolding sn' by auto
    fix y assume xy: "x \<in> set (s # tx) \<union> set (wt @ rt)" "y \<in> set (s # tx) \<union> set (wt @ rt)"
      and eq: "seg_sn h' x = seg_sn h' y \<and> seg_sn h' x \<noteq> -1"
    have "seg_sn h x \<noteq> nxt" "seg_sn h y \<noteq> nxt" using old xy by auto
    moreover have "seg_sn h x = seg_sn h y \<Longrightarrow> seg_sn h x \<noteq> -1 \<Longrightarrow> seg_sdu x = seg_sdu y"
      using sns_dest(3) [OF sns xy] .
    ultimately show "seg_sdu x = seg_sdu y"
      using eq unfolding sn' by (cases "seg_sdu x = seg_sdu s"; cases "seg_sdu y = seg_sdu s") simp_all
  qed
  have "seg_sorted M base h' l" if "seg_sorted M base h l" "set l \<subseteq> set (wt @ rt)" for l
    using that(1) by (rule sorted_wrt_mono_rel [rotated]) (use keep that(2) in \<open>auto simp: seg_le_def subset_iff\<close>)
  then have "seg_sorted M base h' wt" "seg_sorted M base h' rt" using inv by (auto simp: snd_inv_def)
  moreover have "segs_ok h' ?l"
  proof -
    have "heap_ok h ?l" using inv by (simp add: snd_inv_def segs_ok_def)
    from sdu_update_ok [OF this, of s "\<lambda>u. u\<lparr>sdu_sn := nxt\<rparr>"] upd have "heap_ok h' ?l" by simp
    then show ?thesis using inv by (simp add: snd_inv_def segs_ok_def seg_ok_def data)
  qed
  moreover have "win_ok M W base ?nxt" using win room nx by (simp add: win_ok_def)
  moreover have "\<forall>x \<in> set ?l. seg_shape h' x" using inv by (simp add: snd_inv_def seg_shape_def data)
  ultimately show "snd_inv M W base ?nxt h' (s # tx) te wt we rt" using inv sns' by (simp add: snd_inv_def)
qed


section \<open>New and lost segments\<close>

lemma snd_new:
  assumes inv: "snd_inv M W base nxt h tx te wt we rt" and new: "nr_rlc_new_sdu buffer i h = (s, h')"
    and max: "int (length buffer) \<le> NR_SDU_MAX"
  shows "nr_rlc_sdu_segment_list_append tx te s = Inr (tx @ [s], Some (seg_addr s))"
    "snd_inv M W base nxt h' (tx @ [s]) (Some (seg_addr s)) wt we rt" "seg_bytes h' s = buffer"
proof -
  let ?l = "tx @ wt @ rt"
  have ok: "segs_ok h ?l" using inv by (simp add: snd_inv_def)
  note new' = segs_ok_new [OF ok new]
  have fresh: "seg_sdu x \<noteq> seg_sdu s" if "x \<in> set ?l" for x
    using new heap_ok_live [OF segs_ok_heap [OF ok] that] heap_ok_fresh [OF segs_ok_heap [OF ok]]
    by (auto simp: nr_rlc_new_sdu_def Let_def)
  have addr: "seg_addr s \<notin> seg_addr ` set tx" using new'(1) by (auto simp: segs_ok_def)
  have te: "tail_ok tx te" using inv by (simp add: snd_inv_def)
  show "nr_rlc_sdu_segment_list_append tx te s = Inr (tx @ [s], Some (seg_addr s))" by (rule seg_tail.append_end [OF te addr])
  show "seg_bytes h' s = buffer" using new by (auto simp: nr_rlc_new_sdu_def Let_def seg_bytes_def sdu_of_def)
  note inv' = snd_inv_heap [OF inv new'(2) segs_ok_tl [OF new'(1)]]
  have shape: "seg_shape h' s" using new max by (auto simp: nr_rlc_new_sdu_def Let_def seg_shape_def sdu_of_def)
  have "segs_apart (set ?l)" using inv' by (simp add: snd_inv_def)
  moreover have "seg_apart s x \<and> seg_apart x s" if "x \<in> set ?l" for x using fresh [OF that] by (auto simp: seg_apart_def)
  ultimately have "segs_apart (insert s (set ?l))" unfolding segs_apart_def by blast
  moreover have "set ((tx @ [s]) @ wt @ rt) = insert s (set ?l)" by auto
  ultimately have "segs_apart (set ((tx @ [s]) @ wt @ rt))" by simp
  moreover have "segs_ok h' ((tx @ [s]) @ wt @ rt)" by (rule segs_ok_perm [OF new'(1)]) simp
  moreover have "sns_ok M base nxt h' (set (tx @ [s])) (set (wt @ rt))"
  proof -
    have sns: "sns_ok M base nxt h' (set tx) (set (wt @ rt))" using inv' by (simp add: snd_inv_def)
    have "seg_sdu x = seg_sdu y" if "x \<in> set (tx @ [s]) \<union> set (wt @ rt)" "y \<in> set (tx @ [s]) \<union> set (wt @ rt)"
        "seg_sn h' x = seg_sn h' y" "seg_sn h' x \<noteq> -1" for x y
    proof -
      have "x \<noteq> s" "y \<noteq> s" using that(3,4) new'(3) by auto
      then show ?thesis using sns_dest(3) [OF sns _ _ that(3,4)] that(1,2) by simp
    qed
    moreover have "\<forall>x \<in> set (tx @ [s]). seg_sn h' x = -1 \<or> in_flight M base nxt (seg_sn h' x)"
      using sns_dest(2) [OF sns] new'(3) by auto
    ultimately show ?thesis unfolding sns_ok_def using sns_dest(1) [OF sns] by blast
  qed
  moreover have "tail_ok (tx @ [s]) (Some (seg_addr s))" by (rule seg_tail.append_keeps [OF te addr])
  ultimately show "snd_inv M W base nxt h' (tx @ [s]) (Some (seg_addr s)) wt we rt"
    using inv' shape unfolding snd_inv_def by (simp add: insert_commute) 
qed

lemma sns_sub: "sns_ok M base nxt h tx fl \<Longrightarrow> tx' \<subseteq> tx \<Longrightarrow> fl' \<subseteq> fl \<Longrightarrow> sns_ok M base nxt h tx' fl'"
  by (rule sns_image) blast+

lemma snd_inv_sub:
  assumes inv: "snd_inv M W base nxt h tx te wt we rt"
    and sub: "set tx' \<subseteq> set tx" "set (wt' @ rt') \<subseteq> set (wt @ rt)"
    and ok: "segs_ok h' (tx' @ wt' @ rt')" and same: "same_sdus h h' (tx' @ wt' @ rt')"
    and "tail_ok tx' te'" "tail_ok wt' we'" and sorted: "seg_sorted M base h wt'" "seg_sorted M base h rt'"
  shows "snd_inv M W base nxt h' tx' te' wt' we' rt'"
proof -
  have all: "set (tx' @ wt' @ rt') \<subseteq> set (tx @ wt @ rt)" using sub by auto
  have "segs_apart (set (tx' @ wt' @ rt'))" using inv all segs_apart_sub unfolding snd_inv_def by blast
  moreover have "sns_ok M base nxt h' (set tx') (set (wt' @ rt'))"
    using same_sns [OF same, of "set tx'" "set (wt' @ rt')"] sns_sub [OF _ sub] inv unfolding snd_inv_def by auto
  moreover have "\<forall>s \<in> set (tx' @ wt' @ rt'). seg_shape h' s"
    using same_shape [OF same] all inv unfolding snd_inv_def by blast
  moreover have "seg_sorted M base h' wt'" "seg_sorted M base h' rt'"
    using sorted same_sorted [OF same, of wt'] same_sorted [OF same, of rt'] by auto
  ultimately show ?thesis using inv assms(4,6,7) by (simp add: snd_inv_def)
qed

text \<open>Moving \<open>tx_next_ack\<close> forward, not beyond what is outstanding.\<close>

lemma snd_inv_base:
  assumes inv: "snd_inv M W base nxt h tx te wt we rt" and b: "0 \<le> b" "b < M" "sn_dist M base b \<le> sn_dist M base nxt"
    and low: "\<forall>s \<in> set (wt @ rt). sn_dist M base b \<le> sn_dist M base (seg_sn h s)"
      "\<forall>s \<in> set tx. seg_sn h s = -1 \<or> sn_dist M base b \<le> sn_dist M base (seg_sn h s)"
  shows "snd_inv M W b nxt h tx te wt we rt"
proof -
  have win: "win_ok M W base nxt" using inv by (simp add: snd_inv_def)
  have shift: "sn_dist M b x = sn_dist M base x - sn_dist M base b" if "0 \<le> x" "x < M" "sn_dist M base b \<le> sn_dist M base x" for x
    using sn_dist_shift [of x M b base] that b win by (simp add: win_ok_def)
  have sns: "sns_ok M base nxt h (set tx) (set (wt @ rt))" using inv by (simp add: snd_inv_def)
  have nx: "sn_dist M b nxt = sn_dist M base nxt - sn_dist M base b" using shift [of nxt] win b by (simp add: win_ok_def)
  have "0 \<le> sn_dist M base b" using b win by (auto simp: win_ok_def sn_dist_def Let_def)
  then have win': "win_ok M W b nxt" using win b nx by (simp add: win_ok_def)
  have fl: "in_flight M b nxt x" if "in_flight M base nxt x" "sn_dist M base b \<le> sn_dist M base x" for x
    using that shift [of x] nx by (simp add: in_flight_def)
  have "sns_ok M b nxt h (set tx) (set (wt @ rt))"
    unfolding sns_ok_def using sns_dest [OF sns] fl low by blast
  moreover have "seg_sorted M b h l" if "seg_sorted M base h l" "set l \<subseteq> set (wt @ rt)" for l
    using that(1)
  proof (rule sorted_wrt_mono_rel [rotated])
    fix x y assume xy: "x \<in> set l" "y \<in> set l" "seg_le (seg_sn h) (sn_dist M base) x y"
    have "sn_dist M b (seg_sn h z) = sn_dist M base (seg_sn h z) - sn_dist M base b" if "z \<in> set l" for z
      using shift [of "seg_sn h z"] sns_dest(1) [OF sns, of z] low(1) \<open>set l \<subseteq> _\<close> that by (auto simp: in_flight_def)
    with xy show "seg_le (seg_sn h) (sn_dist M b) x y" by (simp add: seg_le_def)
  qed
  ultimately show ?thesis using inv win' by (simp add: snd_inv_def)
qed

end
