(* ===== verification/Rlc_Am_Sender_Ops.thy ===== *)
theory Rlc_Am_Sender_Ops
  imports Rlc_Am_Sender
begin

text \<open>
  The operations of the sending side keep the invariant \<open>am_sender_inv\<close>: PDU generation, new SDUs,
  the poll retransmission timer, discard and re-establishment. No byte of an SDU gets lost between
  the lists.
\<close>

lemma am_sender_inv_upd [simp]:
  "am_sender_inv (e\<lparr>am_force_poll := b\<rparr>) = am_sender_inv e"
  "am_sender_inv (e\<lparr>am_pdu_without_poll := i\<rparr>) = am_sender_inv e"
  "am_sender_inv (e\<lparr>am_byte_without_poll := i\<rparr>) = am_sender_inv e"
  "am_sender_inv (am_polled b e) = am_sender_inv e"
  "(\<And>c. ec_heap (f c) = ec_heap c) \<Longrightarrow> am_sender_inv (am_upd_common f e) = am_sender_inv e"
  by (simp_all add: am_sender_inv_def am_polled_def am_config_ok_def am_upd_common_def)

section \<open>Segmentation\<close>

text \<open>The bytes of the SDU at \<open>p\<close> that the segments of \<open>l\<close> cover.\<close>

definition seg_cover :: "nr_rlc_sdu_segment list \<Rightarrow> nat \<Rightarrow> int set" where
  "seg_cover l p = (\<Union>s \<in> {s \<in> set l. seg_sdu s = p}. {seg_so s..<seg_so s + seg_size s})"

definition am_cover :: "nr_rlc_entity_am \<Rightarrow> nat \<Rightarrow> int set" where
  "am_cover e = seg_cover (am_tx_list e @ am_wait_list e @ am_retransmit_list e)"

lemma seg_cover_append [simp]: "seg_cover (l @ l') p = seg_cover l p \<union> seg_cover l' p"
  by (auto simp: seg_cover_def)

lemma seg_cover_Cons [simp]:
  "seg_cover (s # l) p = (if seg_sdu s = p then {seg_so s..<seg_so s + seg_size s} else {}) \<union> seg_cover l p"
  by (auto simp: seg_cover_def)

lemma seg_cover_set: "set l = set l' \<Longrightarrow> seg_cover l p = seg_cover l' p"
  by (simp add: seg_cover_def)

lemma seg_cover_Nil [simp]: "seg_cover [] p = {}"
  by (simp add: seg_cover_def)

lemma seg_cover_add [simp]: "seg_cover (nr_rlc_sdu_segment_list_add h cmp l s) p = seg_cover (s # l) p"
  by (rule seg_cover_set) simp

lemma seg_cover_split:
  "0 < n \<Longrightarrow> n < seg_size s \<Longrightarrow> seg_cover (seg_part s n # seg_rest s n a # l) p = seg_cover (s # l) p"
  by (auto simp: seg_split_defs)

lemma am_header_part [simp]:
  "am_compute_pdu_header_size e (seg_part s n) = am_compute_pdu_header_size e s"
  by (simp add: am_compute_pdu_header_size_def seg_part_def)

lemma resegment_ok:
  assumes ok: "segs_ok (am_heap e) (s # l)"
    and n: "n = sz - am_compute_pdu_header_size e s" "0 < n" "n < seg_size s"
  shows "\<exists>h'. heap_split s (am_heap e) h' \<and>
    resegment s e sz = Inr (seg_part s n, seg_rest s n (heap_next (am_heap e)), am_set_heap h' e)"
proof -
  obtain h1 where h1: "sdu_update (\<lambda>u. u\<lparr>sdu_ref_count := sdu_ref_count u + 1\<rparr>) s (am_heap e) = Inr h1"
      "heap_next h1 = heap_next (am_heap e)"
    using heap_split_ex [OF ok] by (auto simp: heap_split_def)
  have "am_compute_pdu_header_size e s + seg_size s - sz = seg_size s - n" using n(1) by simp
  with h1 show ?thesis
    by (intro exI [of _ "h1\<lparr>heap_next := heap_next h1 + 1\<rparr>"])
      (simp add: resegment_def heap_split_def seg_split_defs Let_def)
qed

section \<open>Sending a segment\<close>

text \<open>
  The PDU carries a segment of the wait list: its header, its bytes. The poll bit is the only thing
  that is not determined.
\<close>

definition am_sent :: "nr_rlc_entity_am \<Rightarrow> byte list \<Rightarrow> bool" where
  "am_sent e pdu \<longleftrightarrow> (\<exists>s \<in> set (am_wait_list e). \<exists>p hdr. am_wire_header e s p hdr \<and>
     int (length hdr) = am_compute_pdu_header_size e s \<and> pdu = hdr @ seg_bytes (am_heap e) s)"

lemma am_sent_cong:
  assumes "am_wait_list e' = am_wait_list e" "am_heap e' = am_heap e" "am_sn_field_length e' = am_sn_field_length e"
  shows "am_sent e' pdu = am_sent e pdu"
  unfolding am_sent_def am_wire_header_def am_wire_fields_def am_compute_pdu_header_size_def assms by (rule refl)

lemma am_sent_serialized:
  assumes inv: "am_sender_inv e" and s: "s \<in> set (am_wait_list e)"
    and room: "am_compute_pdu_header_size e s + seg_size s \<le> int (length buffer)"
  shows "\<exists>b. serialize_sdu e s buffer p = Inr (am_compute_pdu_header_size e s + seg_size s, b, am_polled p e) \<and>
    length b = length buffer \<and> am_sent e (take (nat (am_compute_pdu_header_size e s + seg_size s)) b) \<and>
    0 < am_compute_pdu_header_size e s + seg_size s"
proof -
  have cfg: "am_config_ok e" and ok: "seg_ok (am_heap e) s"
    using inv s by (simp_all add: am_sender_inv_def snd_inv_def segs_ok_def)
  from serialize_sdu_ok [OF cfg ok room, of p] s am_header_length(3) [OF cfg, of s] ok show ?thesis
    unfolding am_sent_def seg_ok_def by fastforce
qed


abbreviation am_snd_inv ::
  "nr_rlc_entity_am \<Rightarrow> nr_rlc_sdu_segment list \<Rightarrow> nat option \<Rightarrow> nr_rlc_sdu_segment list \<Rightarrow> bool" where
  "am_snd_inv e tx te rt \<equiv> snd_inv (am_sn_modulus e) (am_window_size e) (am_tx_next_ack e) (am_tx_next e) (am_heap e)
     tx te (am_wait_list e) (am_wait_end e) rt"

abbreviation am_wait_add :: "nr_rlc_entity_am \<Rightarrow> nr_rlc_sdu_segment \<Rightarrow> nr_rlc_sdu_segment list" where
  "am_wait_add e s \<equiv> sn_add (am_sn_modulus e) (am_tx_next_ack e) (am_heap e) (am_wait_list e) s"

text \<open>The segment on its way from the transmit list or the retransmit list to the wait list.\<close>

lemma am_put_wait_retx:
  assumes cfg: "am_config_ok e" and inv: "am_snd_inv e (am_tx_list e) (am_tx_end e) (s # am_retransmit_list e)"
  defines "e' \<equiv> e\<lparr>am_wait_list := am_wait_add e s, am_wait_end := end_addr (am_wait_add e s)\<rparr>"
  shows "am_put_wait e s = Inr e'" "am_sender_inv e'" "s \<in> set (am_wait_list e')"
proof -
  have sn: "seg_sn (am_heap e) s \<noteq> -1" using inv by (auto simp: snd_inv_def sns_ok_def dest: in_flight_not_new)
  note pre = snd_wait_pre [OF inv _ sn]
  show "am_put_wait e s = Inr e'"
    unfolding e'_def by (rule am_put_wait_ok [OF pre(1-4) pre(5) pre(6,7)]) simp_all
  show "am_sender_inv e'" using snd_retx_to_wait [OF inv] cfg by (simp add: e'_def am_sender_inv_def am_config_ok_def)
  show "s \<in> set (am_wait_list e')" by (simp add: e'_def)
qed

lemma am_put_wait_tx:
  assumes cfg: "am_config_ok e" and inv: "am_snd_inv e (s # am_tx_list e) te (am_retransmit_list e)"
    and sn: "seg_sn (am_heap e) s \<noteq> -1" and te: "am_tx_end e = (if am_tx_list e = [] then None else te)"
  defines "e' \<equiv> e\<lparr>am_wait_list := am_wait_add e s, am_wait_end := end_addr (am_wait_add e s)\<rparr>"
  shows "am_put_wait e s = Inr e'" "am_sender_inv e'" "s \<in> set (am_wait_list e')"
proof -
  note pre = snd_wait_pre [OF inv _ sn]
  show "am_put_wait e s = Inr e'"
    unfolding e'_def by (rule am_put_wait_ok [OF pre(1-4) pre(5) pre(6,7)]) simp_all
  show "am_sender_inv e'" using snd_tx_to_wait [OF inv sn] cfg te by (simp add: e'_def am_sender_inv_def am_config_ok_def)
  show "s \<in> set (am_wait_list e')" by (simp add: e'_def)
qed

lemma am_force_poll_ok:
  assumes "am_sender_inv e" "am_force_poll_check e p0 = (p, e')"
  shows "am_sender_inv e'" "am_wait_list e' = am_wait_list e" "am_heap e' = am_heap e" "am_cover e' = am_cover e"
    "am_compute_pdu_header_size e' s = am_compute_pdu_header_size e s"
  using assms by (auto simp: am_force_poll_check_def am_cover_def am_compute_pdu_header_size_def split: if_splits)

definition am_same_data :: "nr_rlc_entity_am \<Rightarrow> nr_rlc_entity_am \<Rightarrow> bool" where
  "am_same_data e e' \<longleftrightarrow> (\<forall>s. sdu_data (sdu_of (am_heap e') s) = sdu_data (sdu_of (am_heap e) s))"

text \<open>What a generated PDU and the entity behind it look like.\<close>

definition am_gen_ok :: "nr_rlc_entity_am \<Rightarrow> byte list \<Rightarrow> (int \<times> byte list \<times> nr_rlc_entity_am) result \<Rightarrow> bool" where
  "am_gen_ok e buffer r \<longleftrightarrow> (\<exists>n b e'. r = Inr (n, b, e') \<and> am_sender_inv e' \<and> length b = length buffer \<and>
     0 \<le> n \<and> n \<le> int (length buffer) \<and> am_cover e' = am_cover e \<and> am_same_data e e' \<and>
     (if n = 0 then e' = e \<and> b = buffer else am_sent e' (take (nat n) b)))"

lemma am_serialize_gen:
  assumes inv: "am_sender_inv e4" and s: "s \<in> set (am_wait_list e4)"
    and room: "am_compute_pdu_header_size e4 s + seg_size s \<le> int (length buffer)"
    and cover: "am_cover e4 = am_cover e" and data: "am_same_data e e4" and fp: "am_force_poll_check e4 p0 = (p, e5)"
    and f: "\<And>n e c. ec_heap (f n e c) = ec_heap c"
  shows "am_gen_ok e buffer
    (bindR (serialize_sdu e5 s buffer p) (\<lambda>(n, b, e6). Inr (n, b, am_upd_common (f n e6) e6)))"
proof -
  note e5 = am_force_poll_ok [OF inv fp]
  have r5: "am_compute_pdu_header_size e5 s + seg_size s \<le> int (length buffer)" using room e5(5) [of s] by simp
  obtain b where b: "serialize_sdu e5 s buffer p =
      Inr (am_compute_pdu_header_size e5 s + seg_size s, b, am_polled p e5)" "length b = length buffer"
      "am_sent e5 (take (nat (am_compute_pdu_header_size e5 s + seg_size s)) b)" "0 < am_compute_pdu_header_size e5 s + seg_size s"
    using am_sent_serialized [OF e5(1), of s buffer p] s e5(2) r5 by auto
  have pol: "am_heap (am_polled p e5) = am_heap e5" "am_wait_list (am_polled p e5) = am_wait_list e5"
    "am_cover (am_polled p e5) = am_cover e5" "am_sn_field_length (am_polled p e5) = am_sn_field_length e5"
    by (simp_all add: am_polled_def am_cover_def)
  have upd: "am_heap (am_upd_common (f n e6) e6) = am_heap e6" "am_wait_list (am_upd_common (f n e6) e6) = am_wait_list e6"
    "am_cover (am_upd_common (f n e6) e6) = am_cover e6" "am_sn_field_length (am_upd_common (f n e6) e6) = am_sn_field_length e6" for n e6
    by (simp_all add: am_upd_common_def am_cover_def f)
  have "am_sent (am_upd_common (f n (am_polled p e5)) (am_polled p e5)) x = am_sent e5 x" for n x
    by (rule am_sent_cong) (simp_all only: upd pol)
  moreover have "am_same_data e (am_upd_common (f n (am_polled p e5)) (am_polled p e5))" for n
    using data unfolding am_same_data_def upd pol e5(3) .
  ultimately show ?thesis using b e5(1,4) cover r5
    by (auto simp: am_gen_ok_def f upd pol)
qed


section \<open>Retransmission\<close>

lemma am_set_heap_sel [simp]:
  "am_tx_list (am_set_heap h e) = am_tx_list e" "am_wait_list (am_set_heap h e) = am_wait_list e"
  "am_retransmit_list (am_set_heap h e) = am_retransmit_list e" "am_tx_end (am_set_heap h e) = am_tx_end e"
  "am_wait_end (am_set_heap h e) = am_wait_end e" "am_sn_modulus (am_set_heap h e) = am_sn_modulus e"
  "am_window_size (am_set_heap h e) = am_window_size e" "am_tx_next_ack (am_set_heap h e) = am_tx_next_ack e"
  "am_tx_next (am_set_heap h e) = am_tx_next e" "am_sn_field_length (am_set_heap h e) = am_sn_field_length e"
  by (simp_all add: am_set_heap_def)

lemma am_upd_common_sel [simp]:
  "am_tx_list (am_upd_common f e) = am_tx_list e" "am_wait_list (am_upd_common f e) = am_wait_list e"
  "am_retransmit_list (am_upd_common f e) = am_retransmit_list e" "am_tx_end (am_upd_common f e) = am_tx_end e"
  "am_wait_end (am_upd_common f e) = am_wait_end e" "am_sn_modulus (am_upd_common f e) = am_sn_modulus e"
  "am_window_size (am_upd_common f e) = am_window_size e" "am_tx_next_ack (am_upd_common f e) = am_tx_next_ack e"
  "am_tx_next (am_upd_common f e) = am_tx_next e" "am_sn_field_length (am_upd_common f e) = am_sn_field_length e"
  by (simp_all add: am_upd_common_def)

lemma heap_split_data: "heap_split s h h' \<Longrightarrow> sdu_data (sdu_of h' x) = sdu_data (sdu_of h x)"
  by (auto simp: heap_split_def sdu_update_def sdu_of_def split: option.splits)

lemma am_config_cong:
  "am_sn_field_length e' = am_sn_field_length e \<Longrightarrow> am_sn_modulus e' = am_sn_modulus e \<Longrightarrow>
   am_window_size e' = am_window_size e \<Longrightarrow> am_config_ok e' = am_config_ok e"
  by (simp add: am_config_ok_def)

lemma am_cover_wait:
  "am_cover (e\<lparr>am_wait_list := am_wait_add e s, am_wait_end := t\<rparr>) =
    seg_cover (s # am_tx_list e @ am_wait_list e @ am_retransmit_list e)"
  unfolding am_cover_def by (intro ext seg_cover_set) auto

lemma seg_cover_mid: "seg_cover (l @ s # l') = seg_cover (s # l @ l')"
  by (intro ext seg_cover_set) auto

lemma generate_retx_pdu_ok:
  assumes inv: "am_sender_inv e" and ne: "am_retransmit_list e = s # rest"
  shows "am_gen_ok e buffer (generate_retx_pdu e buffer)"
proof -
  let ?h = "am_compute_pdu_header_size e s" and ?sz = "int (length buffer)"
  let ?e1 = "am_upd_common (ec_add_retx_size (- (?h + seg_size s))) (e\<lparr>am_retransmit_list := rest\<rparr>)"
  have cfg: "am_config_ok e" using inv by (simp add: am_sender_inv_def)
  have i0: "am_snd_inv e (am_tx_list e) (am_tx_end e) (s # rest)" using inv ne by (simp add: am_sender_inv_def)
  have cov0: "am_cover e = seg_cover (s # am_tx_list e @ am_wait_list e @ rest)"
    unfolding am_cover_def ne by (intro ext seg_cover_set) auto
  show ?thesis
  proof (cases "?h + 1 > ?sz")
    case True
    then have "generate_retx_pdu e buffer = Inr (0, buffer, e)" using ne by (simp add: generate_retx_pdu_def Let_def)
    with inv show ?thesis by (simp add: am_gen_ok_def am_same_data_def)
  next
    case fits: False
    define r where "r = (if ?h + seg_size s > ?sz
        then bindR (resegment s ?e1 ?sz) (\<lambda>(s1, nxt, e2).
               Inr (s1, am_upd_common (\<lambda>c. ec_upd_stats (\<lambda>st. st\<lparr>st_txpdu_segmented := st_txpdu_segmented st + 1\<rparr>)
                 (ec_add_retx_size (am_compute_pdu_header_size e2 nxt + seg_size nxt) c))
                 (e2\<lparr>am_retransmit_list := nxt # rest\<rparr>)))
        else Inr (s, ?e1))"
    have "\<exists>s' e3. r = Inr (s', e3) \<and> am_snd_inv e3 (am_tx_list e3) (am_tx_end e3) (s' # am_retransmit_list e3) \<and>
        am_config_ok e3 \<and> am_same_data e e3 \<and> am_compute_pdu_header_size e3 s' + seg_size s' \<le> ?sz \<and>
        seg_cover (s' # am_tx_list e3 @ am_wait_list e3 @ am_retransmit_list e3) = am_cover e"
    proof (cases "?h + seg_size s > ?sz")
      case False
      have "am_config_ok ?e1" using cfg by (simp add: am_config_ok_def)
      moreover have "am_compute_pdu_header_size ?e1 s = ?h" by (simp add: am_compute_pdu_header_size_def)
      ultimately show ?thesis using False i0 ne unfolding r_def
        by (intro exI [of _ s] exI [of _ ?e1]) (simp add: am_same_data_def cov0)
    next
      case True
      define n where "n = ?sz - ?h"
      have n: "0 < n" "n < seg_size s" using True fits by (auto simp: n_def)
      have ms: "mset (am_tx_list e @ am_wait_list e @ s # rest) = mset (s # am_tx_list e @ am_wait_list e @ rest)" by simp
      have ok: "segs_ok (am_heap ?e1) (s # am_tx_list e @ am_wait_list e @ rest)"
        using i0 segs_ok_perm [OF _ ms] by (simp add: snd_inv_def)
      have hd: "am_compute_pdu_header_size ?e1 s = ?h" by (simp add: am_compute_pdu_header_size_def)
      obtain h' where h': "heap_split s (am_heap e) h'"
          "resegment s ?e1 ?sz = Inr (seg_part s n, seg_rest s n (heap_next (am_heap e)), am_set_heap h' ?e1)"
        using resegment_ok [OF ok, of n ?sz] n unfolding hd by (auto simp: n_def)
      let ?nxt = "seg_rest s n (heap_next (am_heap e))"
      let ?e3 = "am_upd_common (\<lambda>c. ec_upd_stats (\<lambda>st. st\<lparr>st_txpdu_segmented := st_txpdu_segmented st + 1\<rparr>)
                 (ec_add_retx_size (am_compute_pdu_header_size (am_set_heap h' ?e1) ?nxt + seg_size ?nxt) c))
                 ((am_set_heap h' ?e1)\<lparr>am_retransmit_list := ?nxt # rest\<rparr>)"
      have "am_snd_inv ?e3 (am_tx_list ?e3) (am_tx_end ?e3) (seg_part s n # am_retransmit_list ?e3)"
        using snd_split_retx [OF i0 h'(1) n] by simp
      moreover have "am_config_ok ?e3" using cfg by (simp add: am_config_ok_def)
      moreover have "am_same_data e ?e3" using heap_split_data [OF h'(1)] by (simp add: am_same_data_def)
      moreover have "am_compute_pdu_header_size ?e3 (seg_part s n) + seg_size (seg_part s n) \<le> ?sz"
        by (simp add: am_compute_pdu_header_size_def seg_part_def n_def)
      moreover have "seg_cover (seg_part s n # am_tx_list ?e3 @ am_wait_list ?e3 @ am_retransmit_list ?e3) = am_cover e"
      proof -
        have "seg_cover (seg_part s n # am_tx_list e @ am_wait_list e @ ?nxt # rest) =
            seg_cover (seg_part s n # ?nxt # am_tx_list e @ am_wait_list e @ rest)"
          by (intro ext seg_cover_set) auto
        then show ?thesis unfolding cov0 by (simp add: fun_eq_iff seg_cover_split [OF n] del: seg_cover_Cons)
      qed
      ultimately show ?thesis using True h'(2) unfolding r_def by simp
    qed
    then obtain s' e3 where r: "r = Inr (s', e3)" and i3: "am_snd_inv e3 (am_tx_list e3) (am_tx_end e3) (s' # am_retransmit_list e3)"
      and c3: "am_config_ok e3" and d3: "am_same_data e e3" and room: "am_compute_pdu_header_size e3 s' + seg_size s' \<le> ?sz"
      and cov: "seg_cover (s' # am_tx_list e3 @ am_wait_list e3 @ am_retransmit_list e3) = am_cover e" by blast
    note w = am_put_wait_retx [OF c3 i3]
    let ?e4 = "e3\<lparr>am_wait_list := am_wait_add e3 s', am_wait_end := end_addr (am_wait_add e3 s')\<rparr>"
    obtain p e5 where fp: "am_force_poll_check ?e4 (check_poll_after_pdu_assembly ?e4) = (p, e5)" by fastforce
    let ?f = "\<lambda>n. ec_upd_stats (\<lambda>st. st\<lparr>st_txpdu_pkts := st_txpdu_pkts st + 1,
                        st_txpdu_bytes := st_txpdu_bytes st + word_of_int n,
                        st_txpdu_retx_pkts := st_txpdu_retx_pkts st + 1,
                        st_txpdu_retx_bytes := st_txpdu_retx_bytes st + word_of_int n\<rparr>)"
    have "generate_retx_pdu e buffer =
        bindR (serialize_sdu e5 s' buffer p) (\<lambda>(n, b, e6). Inr (n, b, am_upd_common (?f n) e6))"
      by (simp only: generate_retx_pdu_def Let_def ne list.case fits if_False r_def [symmetric] r bindR_Inr prod.case w(1) fp)
    moreover have "am_gen_ok e buffer (bindR (serialize_sdu e5 s' buffer p) (\<lambda>(n, b, e6). Inr (n, b, am_upd_common (?f n) e6)))"
      using cov d3 room by (intro am_serialize_gen [OF w(2,3) _ _ _ fp])
        (simp_all add: am_cover_wait am_same_data_def am_compute_pdu_header_size_def del: seg_cover_Cons seg_cover_append)
    ultimately show ?thesis by simp
  qed
qed


section \<open>Transmission\<close>

text \<open>The window stalls exactly when \<open>window_size\<close> SDUs are in flight.\<close>

lemma window_stalling_iff:
  assumes "am_sender_inv e"
  shows "is_window_stalling e \<longleftrightarrow> am_modulus_tx e (am_tx_next e) = am_window_size e"
proof -
  let ?d = "sn_dist (am_sn_modulus e) (am_tx_next_ack e)"
  have win: "win_ok (am_sn_modulus e) (am_window_size e) (am_tx_next_ack e) (am_tx_next e)" "0 < am_window_size e"
    using assms am_config_pos [of e] by (simp_all add: am_sender_inv_def snd_inv_def)
  then have M: "0 < am_sn_modulus e" by (auto simp: win_ok_def)
  have "?d ((am_tx_next_ack e + am_window_size e) mod am_sn_modulus e) =
      ((am_tx_next_ack e + am_window_size e) mod am_sn_modulus e - am_tx_next_ack e) mod am_sn_modulus e"
    using win M by (intro sn_dist_mod) (auto simp: win_ok_def)
  also have "\<dots> = am_window_size e" using win by (simp add: mod_simps win_ok_def)
  finally have w: "?d ((am_tx_next_ack e + am_window_size e) mod am_sn_modulus e) = am_window_size e" .
  have "0 \<le> ?d (am_tx_next e)" using win by (auto simp: win_ok_def sn_dist_def Let_def)
  with w win show ?thesis
    by (auto simp: is_window_stalling_def am_sn_compare_tx_def am_modulus_tx_dist win_ok_def)
qed

lemma am_assign_sn_ok:
  fixes e s rest k t
  defines "e1 \<equiv> am_upd_common (ec_add_tx_size k) (e\<lparr>am_tx_list := rest, am_tx_end := t\<rparr>)"
  assumes inv: "am_snd_inv e (s # rest) te (am_retransmit_list e)"
    and room: "sn_dist (am_sn_modulus e) (am_tx_next_ack e) (am_tx_next e) < am_window_size e"
  shows "\<exists>h n. am_assign_sn e1 s = Inr ((am_set_heap h e1)\<lparr>am_tx_next := n\<rparr>) \<and>
    snd_inv (am_sn_modulus e) (am_window_size e) (am_tx_next_ack e) n h (s # rest) te
      (am_wait_list e) (am_wait_end e) (am_retransmit_list e) \<and> seg_sn h s \<noteq> -1 \<and>
    (\<forall>x. sdu_data (sdu_of h x) = sdu_data (sdu_of (am_heap e) x))"
proof (cases "seg_sn (am_heap e) s = -1")
  case False
  have "am_assign_sn e1 s = Inr ((am_set_heap (am_heap e) e1)\<lparr>am_tx_next := am_tx_next e\<rparr>)"
    using False by (simp add: am_assign_sn_def e1_def am_upd_common_def am_set_heap_def ec_add_tx_size_def)
  with inv False show ?thesis by blast
next
  case True
  have "heap_ok (am_heap e) ((s # rest) @ am_wait_list e @ am_retransmit_list e)" using inv by (simp add: snd_inv_def segs_ok_def)
  then obtain u where "heap_sdu (am_heap e) (seg_sdu s) = Some u" using heap_ok_live by fastforce
  then obtain h where h: "sdu_update (\<lambda>u. u\<lparr>sdu_sn := am_tx_next e\<rparr>) s (am_heap e) = Inr h"
      "\<forall>x. sdu_data (sdu_of h x) = sdu_data (sdu_of (am_heap e) x)"
    by (simp add: sdu_update_def sdu_of_def)
  note as = snd_assign [OF inv room True h(1)]
  have "seg_sn h s \<noteq> -1" using as(2) inv by (simp add: snd_inv_def win_ok_def)
  with as(1) h True show ?thesis by (simp add: am_assign_sn_def e1_def) blast
qed

lemma am_take_tx_ok:
  assumes inv: "am_sender_inv e" and ne: "am_tx_list e = s # rest"
    and room: "sn_dist (am_sn_modulus e) (am_tx_next_ack e) (am_tx_next e) < am_window_size e"
    and fits: "am_compute_pdu_header_size e s + 1 \<le> sz"
  shows "\<exists>s' e' te. am_take_tx e s rest sz = Inr (s', e') \<and> am_config_ok e' \<and>
    am_snd_inv e' (s' # am_tx_list e') te (am_retransmit_list e') \<and> am_tx_end e' = (if am_tx_list e' = [] then None else te) \<and>
    seg_sn (am_heap e') s' \<noteq> -1 \<and> am_same_data e e' \<and> am_compute_pdu_header_size e' s' + seg_size s' \<le> sz \<and>
    seg_cover (s' # am_tx_list e' @ am_wait_list e' @ am_retransmit_list e') = am_cover e"
proof -
  let ?h = "am_compute_pdu_header_size e s"
  let ?e1 = "am_upd_common (ec_add_tx_size (- (?h + seg_size s)))
      (e\<lparr>am_tx_list := rest, am_tx_end := (if rest = [] then None else am_tx_end e)\<rparr>)"
  have cfg: "am_config_ok e" using inv by (simp add: am_sender_inv_def)
  have i0: "am_snd_inv e (s # rest) (am_tx_end e) (am_retransmit_list e)" using inv ne by (simp add: am_sender_inv_def)
  have cov0: "am_cover e = seg_cover (s # rest @ am_wait_list e @ am_retransmit_list e)" by (simp only: am_cover_def ne append_Cons)
  obtain h n where as: "am_assign_sn ?e1 s = Inr ((am_set_heap h ?e1)\<lparr>am_tx_next := n\<rparr>)"
      "snd_inv (am_sn_modulus e) (am_window_size e) (am_tx_next_ack e) n h (s # rest) (am_tx_end e)
        (am_wait_list e) (am_wait_end e) (am_retransmit_list e)" "seg_sn h s \<noteq> -1"
      "\<forall>x. sdu_data (sdu_of h x) = sdu_data (sdu_of (am_heap e) x)"
    using am_assign_sn_ok [OF i0 room] by blast
  let ?e2 = "(am_set_heap h ?e1)\<lparr>am_tx_next := n\<rparr>"
  have take: "am_take_tx e s rest sz = (if ?h + seg_size s > sz
         then bindR (resegment s ?e2 sz) (\<lambda>(s1, nxt, e3).
                Inr (s1, am_upd_common (\<lambda>c. ec_add_tx_size (am_compute_pdu_header_size e3 nxt + seg_size nxt)
                    (ec_upd_stats (\<lambda>st. st\<lparr>st_txpdu_segmented := st_txpdu_segmented st + 1\<rparr>) c))
                  (e3\<lparr>am_tx_list := nxt # rest,
                      am_tx_end := (if am_tx_end e3 = None then Some (seg_addr nxt) else am_tx_end e3)\<rparr>)))
         else Inr (s, ?e2))"
    unfolding am_take_tx_def Let_def as(1) bindR_Inr by (rule refl)
  show ?thesis
  proof (cases "?h + seg_size s > sz")
    case False
    have "am_config_ok ?e2" using cfg by (simp add: am_config_ok_def)
    with False as cov0 show ?thesis unfolding take
      by (intro exI [of _ s] exI [of _ ?e2] exI [of _ "am_tx_end e"])
        (simp add: am_same_data_def am_compute_pdu_header_size_def)
  next
    case True
    define k where "k = sz - ?h"
    have k: "0 < k" "k < seg_size s" using True fits by (auto simp: k_def)
    have ok: "segs_ok (am_heap ?e2) (s # rest @ am_wait_list e @ am_retransmit_list e)" using as(2) by (simp add: snd_inv_def)
    have hd: "am_compute_pdu_header_size ?e2 s = ?h" by (simp add: am_compute_pdu_header_size_def)
    obtain h' where h': "heap_split s h h'"
        "resegment s ?e2 sz = Inr (seg_part s k, seg_rest s k (heap_next h), am_set_heap h' ?e2)"
      using resegment_ok [OF ok, of k sz] k unfolding hd by (auto simp: k_def)
    let ?nxt = "seg_rest s k (heap_next h)"
    let ?e3 = "am_set_heap h' ?e2"
    let ?te = "if am_tx_end ?e3 = None then Some (seg_addr ?nxt) else am_tx_end ?e3"
    let ?e4 = "am_upd_common (\<lambda>c. ec_add_tx_size (am_compute_pdu_header_size ?e3 ?nxt + seg_size ?nxt)
                    (ec_upd_stats (\<lambda>st. st\<lparr>st_txpdu_segmented := st_txpdu_segmented st + 1\<rparr>) c))
                  (?e3\<lparr>am_tx_list := ?nxt # rest, am_tx_end := ?te\<rparr>)"
    have te: "?te = (if rest = [] then Some (seg_addr ?nxt) else am_tx_end e)"
      using i0 by (auto simp: snd_inv_def tail_ok_def)
    have "am_take_tx e s rest sz = Inr (seg_part s k, ?e4)" unfolding take using True h'(2) by simp
    moreover have "am_snd_inv ?e4 (seg_part s k # am_tx_list ?e4) ?te (am_retransmit_list ?e4)"
      unfolding te using snd_split_tx [OF as(2) h'(1) k] by simp
    moreover have "am_config_ok ?e4" using cfg by (simp add: am_config_ok_def)
    moreover have "seg_sn (am_heap ?e4) (seg_part s k) \<noteq> -1"
    proof -
      have "\<forall>x \<in> set (s # rest @ am_wait_list e @ am_retransmit_list e). seg_shape h x"
          "segs_apart (set (s # rest @ am_wait_list e @ am_retransmit_list e))" using as(2) by (simp_all add: snd_inv_def)
      from split_core(3) [OF _ h'(1) k this] ok as(3) show ?thesis by simp
    qed
    moreover have "am_same_data e ?e4" using heap_split_data [OF h'(1)] as(4) by (simp add: am_same_data_def)
    moreover have "am_compute_pdu_header_size ?e4 (seg_part s k) + seg_size (seg_part s k) \<le> sz"
      by (simp add: am_compute_pdu_header_size_def seg_part_def k_def)
    moreover have "seg_cover (seg_part s k # am_tx_list ?e4 @ am_wait_list ?e4 @ am_retransmit_list ?e4) = am_cover e"
      unfolding cov0 by (simp add: fun_eq_iff seg_cover_split [OF k] del: seg_cover_Cons)
    ultimately show ?thesis by (intro exI [of _ "seg_part s k"] exI [of _ ?e4] exI [of _ ?te]) simp
  qed
qed

lemma generate_tx_pdu_ok:
  assumes inv: "am_sender_inv e"
  shows "am_gen_ok e buffer (generate_tx_pdu now e buffer)"
proof -
  let ?sz = "int (length buffer)"
  have skip: "am_gen_ok e buffer (Inr (0, buffer, e))" using inv by (simp add: am_gen_ok_def am_same_data_def)
  show ?thesis
  proof (cases "is_window_stalling e \<or> am_tx_list e = [] \<or> am_compute_pdu_header_size e (hd (am_tx_list e)) + 1 > ?sz")
    case True
    then show ?thesis using skip by (auto simp: generate_tx_pdu_def Let_def split: list.splits)
  next
    case False
    then obtain s rest where ne: "am_tx_list e = s # rest" and fits: "am_compute_pdu_header_size e s + 1 \<le> ?sz"
      and stall: "\<not> is_window_stalling e" by (cases "am_tx_list e") auto
    have room: "sn_dist (am_sn_modulus e) (am_tx_next_ack e) (am_tx_next e) < am_window_size e"
      using stall window_stalling_iff [OF inv] inv by (simp add: am_modulus_tx_dist am_sender_inv_def snd_inv_def win_ok_def)
    obtain s' e1 te where t: "am_take_tx e s rest ?sz = Inr (s', e1)" "am_config_ok e1"
        "am_snd_inv e1 (s' # am_tx_list e1) te (am_retransmit_list e1)" "am_tx_end e1 = (if am_tx_list e1 = [] then None else te)"
        "seg_sn (am_heap e1) s' \<noteq> -1" "am_same_data e e1" "am_compute_pdu_header_size e1 s' + seg_size s' \<le> ?sz"
        "seg_cover (s' # am_tx_list e1 @ am_wait_list e1 @ am_retransmit_list e1) = am_cover e"
      using am_take_tx_ok [OF inv ne room fits] by blast
    note w = am_put_wait_tx [OF t(2,3,5,4)]
    let ?e2 = "e1\<lparr>am_wait_list := am_wait_add e1 s', am_wait_end := end_addr (am_wait_add e1 s')\<rparr>"
    let ?e3 = "?e2\<lparr>am_pdu_without_poll := am_pdu_without_poll ?e2 + 1,
        am_byte_without_poll := am_byte_without_poll ?e2 + seg_size s'\<rparr>"
    let ?p0 = "am_poll_pdu ?e3 \<noteq> -1 \<and> am_pdu_without_poll ?e3 \<ge> am_poll_pdu ?e3 \<or>
        am_poll_byte ?e3 \<noteq> -1 \<and> am_byte_without_poll ?e3 \<ge> am_poll_byte ?e3 \<or> check_poll_after_pdu_assembly ?e3"
    obtain p e4 where fp: "am_force_poll_check ?e3 ?p0 = (p, e4)" by fastforce
    let ?f = "\<lambda>n e5 c. ec_waited now (sdu_time_of_arrival (sdu_of (am_heap e5) s'))
                   (ec_upd_stats (\<lambda>st. st\<lparr>st_txpdu_pkts := st_txpdu_pkts st + 1,
                      st_txpdu_bytes := st_txpdu_bytes st + word_of_int n\<rparr>) c)"
    have nofit: "\<not> am_compute_pdu_header_size e s + 1 > ?sz" using fits by simp
    have "generate_tx_pdu now e buffer =
        bindR (serialize_sdu e4 s' buffer p) (\<lambda>(n, b, e5). Inr (n, b, am_upd_common (?f n e5) e5))"
      by (simp only: generate_tx_pdu_def Let_def stall if_False ne list.case nofit t(1) bindR_Inr prod.case w(1) fp)
    moreover have "am_gen_ok e buffer (bindR (serialize_sdu e4 s' buffer p) (\<lambda>(n, b, e5). Inr (n, b, am_upd_common (?f n e5) e5)))"
    proof (rule am_serialize_gen [OF _ _ _ _ _ fp])
      show "am_sender_inv ?e3" using w(2) by simp
      show "am_cover ?e3 = am_cover e"
        using t(8) am_cover_wait [where e = e1 and s = s' and t = "end_addr (am_wait_add e1 s')"] by (simp add: am_cover_def)
    qed (use t(6,7) w(3) in \<open>simp_all add: am_same_data_def am_compute_pdu_header_size_def\<close>)
    ultimately show ?thesis by simp
  qed
qed


section \<open>SDUs from the upper layer\<close>

lemma am_sender_inv_cong:
  assumes "am_sender_inv e" "am_sn_field_length e' = am_sn_field_length e" "am_sn_modulus e' = am_sn_modulus e"
    "am_window_size e' = am_window_size e" "am_tx_next_ack e' = am_tx_next_ack e" "am_tx_next e' = am_tx_next e"
    "am_heap e' = am_heap e" "am_tx_list e' = am_tx_list e" "am_tx_end e' = am_tx_end e" "am_wait_list e' = am_wait_list e"
    "am_wait_end e' = am_wait_end e" "am_retransmit_list e' = am_retransmit_list e"
  shows "am_sender_inv e'"
  using assms(1) unfolding am_sender_inv_def am_config_ok_def assms(2-) .

lemma am_recv_sdu_ok:
  assumes inv: "am_sender_inv e" and max: "int (length buffer) \<le> NR_SDU_MAX"
  shows "\<exists>e'. nr_rlc_entity_am_recv_sdu now e buffer i = Inr e' \<and> am_sender_inv e' \<and>
    (if am_tx_size e + int (length buffer) > am_tx_maxsize e
     then am_tx_list e' = am_tx_list e \<and> am_tx_size e' = am_tx_size e \<and> am_heap e' = am_heap e
     else am_tx_size e' = am_tx_size e + int (length buffer) \<and>
       (\<exists>s. am_tx_list e' = am_tx_list e @ [s] \<and> seg_bytes (am_heap e') s = buffer \<and> seg_is_first s \<and> seg_is_last s))"
proof -
  let ?sz = "int (length buffer)"
  define e1 where "e1 = (let e0 = am_upd_common (ec_upd_stats (\<lambda>st. st\<lparr>st_rxsdu_pkts := st_rxsdu_pkts st + 1\<rparr>)) e in
    if am_sdu_rejected e0 \<noteq> 0 \<and> am_t_current e0 > am_t_log_buffer_full e0 + 1000
    then e0\<lparr>am_sdu_rejected := 0, am_t_log_buffer_full := am_t_current e0\<rparr> else e0)"
  have f1: "am_sn_field_length e1 = am_sn_field_length e" "am_sn_modulus e1 = am_sn_modulus e"
      "am_window_size e1 = am_window_size e" "am_tx_next_ack e1 = am_tx_next_ack e" "am_tx_next e1 = am_tx_next e"
      "am_heap e1 = am_heap e" "am_tx_list e1 = am_tx_list e" "am_tx_end e1 = am_tx_end e" "am_wait_list e1 = am_wait_list e"
      "am_wait_end e1 = am_wait_end e" "am_retransmit_list e1 = am_retransmit_list e"
      "am_tx_size e1 = am_tx_size e" "am_tx_maxsize e1 = am_tx_maxsize e"
    by (simp_all add: e1_def Let_def am_upd_common_def)
  have i1: "am_sender_inv e1" by (rule am_sender_inv_cong [OF inv f1(1-11)])
  have run: "nr_rlc_entity_am_recv_sdu now e buffer i =
     (if am_tx_size e1 + ?sz > am_tx_maxsize e1
              then Inr (e1\<lparr>am_sdu_rejected := am_sdu_rejected e1 + 1\<rparr>)
              else
                case nr_rlc_new_sdu buffer i (am_heap e1) of (s, h) \<Rightarrow>
                let e2 = am_set_heap h (am_upd_common (ec_upd_stats (\<lambda>st. st
                           \<lparr>st_rxsdu_bytes := st_rxsdu_bytes st + word_of_int ?sz\<rparr>))
                           (e1\<lparr>am_tx_size := am_tx_size e1 + ?sz\<rparr>))
                in bindR (nr_rlc_sdu_segment_list_append (am_tx_list e2) (am_tx_end e2) s) (\<lambda>(l, t).
                   let e3 = am_upd_common (ec_add_tx_size (am_compute_pdu_header_size e2 s + seg_size s))
                              (e2\<lparr>am_tx_list := l, am_tx_end := t\<rparr>)
                   in if ec_avg_time_is_on (am_common e3)
                      then bindR (sdu_update (\<lambda>u. u\<lparr>sdu_time_of_arrival := now\<rparr>) s (am_heap e3)) (\<lambda>h'.
                             Inr (am_set_heap h' e3))
                      else Inr e3))"
    using max unfolding nr_rlc_entity_am_recv_sdu_def e1_def Let_def by (simp only: not_less [symmetric] if_False simp_thms)
  show ?thesis
  proof (cases "am_tx_size e1 + ?sz > am_tx_maxsize e1")
    case True
    have "am_sender_inv (e1\<lparr>am_sdu_rejected := am_sdu_rejected e1 + 1\<rparr>)"
      by (rule am_sender_inv_cong [OF i1]) simp_all
    with True show ?thesis unfolding run by (simp add: f1)
  next
    case False
    obtain s h where new: "nr_rlc_new_sdu buffer i (am_heap e1) = (s, h)" by fastforce
    have j: "am_snd_inv e1 (am_tx_list e1) (am_tx_end e1) (am_retransmit_list e1)" using i1 by (simp add: am_sender_inv_def)
    note sn = snd_new [OF j new max]
    have fl: "seg_is_first s" "seg_is_last s" using new by (auto simp: nr_rlc_new_sdu_def Let_def)
    let ?e2 = "am_set_heap h (am_upd_common (ec_upd_stats (\<lambda>st. st\<lparr>st_rxsdu_bytes := st_rxsdu_bytes st + word_of_int ?sz\<rparr>))
        (e1\<lparr>am_tx_size := am_tx_size e1 + ?sz\<rparr>))"
    let ?e3 = "am_upd_common (ec_add_tx_size (am_compute_pdu_header_size ?e2 s + seg_size s))
        (?e2\<lparr>am_tx_list := am_tx_list e1 @ [s], am_tx_end := Some (seg_addr s)\<rparr>)"
    have i3: "am_sender_inv ?e3" using sn(2) i1 by (simp add: am_sender_inv_def am_config_ok_def)
    have s3: "am_heap ?e3 = h" "am_tx_list ?e3 = am_tx_list e1 @ [s]" "am_tx_size ?e3 = am_tx_size e1 + ?sz"
      by (simp_all add: am_set_heap_def am_upd_common_def ec_add_tx_size_def)
    have r3: "nr_rlc_entity_am_recv_sdu now e buffer i = (if ec_avg_time_is_on (am_common ?e3)
                      then bindR (sdu_update (\<lambda>u. u\<lparr>sdu_time_of_arrival := now\<rparr>) s (am_heap ?e3)) (\<lambda>h'.
                             Inr (am_set_heap h' ?e3))
                      else Inr ?e3)"
      using False sn(1) unfolding run new by (simp add: Let_def)
    show ?thesis
    proof (cases "ec_avg_time_is_on (am_common ?e3)")
      case off: False
      with i3 s3 sn(3) fl False show ?thesis unfolding r3 by (simp add: f1)
    next
      case on: True
      have ok: "segs_ok (am_heap ?e3) ((am_tx_list e1 @ [s]) @ am_wait_list e1 @ am_retransmit_list e1)"
        using sn(2) by (simp add: snd_inv_def)
      obtain h' where h': "sdu_update (\<lambda>u. u\<lparr>sdu_time_of_arrival := now\<rparr>) s (am_heap ?e3) = Inr h'"
          "segs_ok h' ((am_tx_list e1 @ [s]) @ am_wait_list e1 @ am_retransmit_list e1)"
          "same_sdus (am_heap ?e3) h' ((am_tx_list e1 @ [s]) @ am_wait_list e1 @ am_retransmit_list e1)"
        using segs_ok_update [OF ok, of s "\<lambda>u. u\<lparr>sdu_time_of_arrival := now\<rparr>"] by (auto simp: same_sdu_def)
      have "seg_bytes h' s = buffer" using h'(3) sn(3) s3(1) by (simp add: seg_bytes_def same_sdus_def same_sdu_def)
      moreover have "am_sender_inv (am_set_heap h' ?e3)"
        using snd_inv_heap [OF sn(2) h'(3,2) [unfolded s3(1)]] i1 by (simp add: am_sender_inv_def am_config_ok_def)
      ultimately show ?thesis using on h'(1) s3 fl False unfolding r3 by (simp add: f1 am_set_heap_def)
    qed
  qed
qed


section \<open>Poll retransmission\<close>

lemma am_cmp_dist:
  "am_sn_compare_tx e = (\<lambda>a b. sn_dist (am_sn_modulus e) (am_tx_next_ack e) a - sn_dist (am_sn_modulus e) (am_tx_next_ack e) b)"
  by (simp add: fun_eq_iff am_sn_compare_tx_def am_modulus_tx_dist)

lemma am_move_to_retx_ok:
  assumes "am_sender_inv e" "am_wait_list e = l"
  shows "am_sender_inv (am_move_to_retx sn l e) \<and> am_cover (am_move_to_retx sn l e) = am_cover e \<and>
    am_heap (am_move_to_retx sn l e) = am_heap e \<and> am_tx_list (am_move_to_retx sn l e) = am_tx_list e"
  using assms
proof (induction sn l e rule: am_move_to_retx.induct)
  case (1 sn e)
  then show ?case by simp
next
  case (2 sn cur rest e)
  define e1 where "e1 = am_upd_common (ec_add_retx_size (am_compute_pdu_header_size e cur + seg_size cur))
      (e\<lparr>am_wait_list := rest, am_wait_end := (if rest = [] then None else am_wait_end e),
         am_retransmit_list := nr_rlc_sdu_segment_list_add (am_heap e) (am_sn_compare_tx e) (am_retransmit_list e) cur\<rparr>)"
  have "am_snd_inv e (am_tx_list e) (am_tx_end e) (am_retransmit_list e)" using "2.prems"(1) by (simp add: am_sender_inv_def)
  from snd_wait_to_retx [OF this [unfolded "2.prems"(2)]] "2.prems"(1) have i1: "am_sender_inv e1"
    by (simp add: am_sender_inv_def am_config_ok_def e1_def am_cmp_dist)
  have s1: "am_heap e1 = am_heap e" "am_tx_list e1 = am_tx_list e" "am_wait_list e1 = rest" by (simp_all add: e1_def)
  have c1: "am_cover e1 = am_cover e"
    unfolding am_cover_def using "2.prems"(2) by (intro ext seg_cover_set) (auto simp: e1_def)
  have step: "am_move_to_retx sn (cur # rest) e = (case rest of [] \<Rightarrow> e1
      | n # _ \<Rightarrow> if seg_sn (am_heap e1) n = sn then am_move_to_retx sn rest e1 else e1)"
    unfolding am_move_to_retx.simps(2) Let_def e1_def by (rule refl)
  show ?case
  proof (cases rest)
    case Nil
    with i1 s1 c1 show ?thesis unfolding step by simp
  next
    case (Cons n ns)
    show ?thesis
    proof (cases "seg_sn (am_heap e1) n = sn")
      case True
      have "am_sender_inv (am_move_to_retx sn rest e1) \<and> am_cover (am_move_to_retx sn rest e1) = am_cover e1 \<and>
          am_heap (am_move_to_retx sn rest e1) = am_heap e1 \<and> am_tx_list (am_move_to_retx sn rest e1) = am_tx_list e1"
        using "2.IH" [OF e1_def Cons True i1 s1(3)] .
      then show ?thesis unfolding step using s1 c1 Cons True by simp
    next
      case False
      with Cons i1 s1 c1 show ?thesis unfolding step by simp
    qed
  qed
qed

text \<open>
  The expiry is safe while something waits for an acknowledgement.
\<close>

lemma check_t_poll_retransmit_ok:
  assumes inv: "am_sender_inv e" and ne: "am_wait_list e \<noteq> []"
  shows "\<exists>e'. check_t_poll_retransmit e = Inr e' \<and> am_sender_inv e' \<and> am_cover e' = am_cover e"
proof -
  let ?e1 = "e\<lparr>am_t_poll_retransmit_start := 0, am_force_poll := True\<rparr>"
  have i1: "am_sender_inv ?e1" by (rule am_sender_inv_cong [OF inv]) simp_all
  have c1: "am_cover ?e1 = am_cover e" by (simp add: am_cover_def)
  obtain cur rest where w: "am_wait_list e = cur # rest" using ne by (cases "am_wait_list e") auto
  let ?l = "am_tx_list e @ am_wait_list e @ am_retransmit_list e"
  have j: "am_snd_inv e (am_tx_list e) (am_tx_end e) (am_retransmit_list e)" "segs_ok (am_heap e) ?l"
    using inv by (simp_all add: am_sender_inv_def snd_inv_def)
  obtain h where h: "sdu_update (\<lambda>u. u\<lparr>sdu_retx_count := sdu_retx_count u + 1\<rparr>) cur (am_heap e) = Inr h"
      "segs_ok h ?l" "same_sdus (am_heap e) h ?l"
    using segs_ok_update [OF j(2), of cur "\<lambda>u. u\<lparr>sdu_retx_count := sdu_retx_count u + 1\<rparr>"] w by (auto simp: same_sdu_def)
  let ?e2 = "am_set_heap h ?e1"
  have i2: "am_sender_inv ?e2"
    using snd_inv_heap [OF j(1) h(3,2)] inv by (simp add: am_sender_inv_def am_config_ok_def)
  have w2: "am_wait_list ?e2 = cur # rest" "am_cover ?e2 = am_cover e" using w by (simp_all add: am_cover_def)
  note mv = am_move_to_retx_ok [OF i2 w2(1), of "sdu_sn (sdu_of h cur)"]
  let ?e3 = "am_move_to_retx (sdu_sn (sdu_of h cur)) (cur # rest) ?e2"
  have "am_sender_inv (am_upd_common (ec_call MaxRetxReached) ?e3)" "am_cover (am_upd_common (ec_call MaxRetxReached) ?e3) = am_cover ?e3"
    using mv by (simp_all add: am_cover_def)
  moreover have "check_t_poll_retransmit e = Inr e \<or> check_t_poll_retransmit e = Inr ?e1 \<or>
      check_t_poll_retransmit e = Inr ?e3 \<or> check_t_poll_retransmit e = Inr (am_upd_common (ec_call MaxRetxReached) ?e3)"
    using w h(1) by (auto simp: check_t_poll_retransmit_def Let_def simp del: am_move_to_retx.simps)
  ultimately show ?thesis using inv i1 c1 mv w2(2) by auto
qed

section \<open>Discard and re-establishment\<close>

lemma am_discard_sdu_ok:
  assumes inv: "am_sender_inv e"
  shows "\<exists>e'. nr_rlc_entity_am_discard_sdu e i = Inr e' \<and> am_sender_inv e' \<and>
    am_wait_list e' = am_wait_list e \<and> am_retransmit_list e' = am_retransmit_list e \<and>
    (am_tx_list e' = am_tx_list e \<or> (\<exists>a s b. am_tx_list e = a @ s # b \<and> am_tx_list e' = a @ b \<and> seg_is_first s \<and>
       seg_is_last s \<and> sdu_upper_layer_id (sdu_of (am_heap e) s) = i))"
proof -
  let ?other = "\<lambda>s. sdu_upper_layer_id (sdu_of (am_heap e) s) \<noteq> i"
  define a where "a = takeWhile ?other (am_tx_list e)"
  show ?thesis
  proof (cases "dropWhile ?other (am_tx_list e)")
    case Nil
    then have "nr_rlc_entity_am_discard_sdu e i = Inr e"
      by (simp only: nr_rlc_entity_am_discard_sdu_def Let_def list.case)
    with inv show ?thesis by simp
  next
    case (Cons cur rest)
    have tx: "am_tx_list e = a @ cur # rest" unfolding a_def Cons [symmetric] by simp
    have id: "sdu_upper_layer_id (sdu_of (am_heap e) cur) = i" using hd_dropWhile [of ?other "am_tx_list e"] Cons by simp
    show ?thesis
    proof (cases "seg_is_first cur \<and> seg_is_last cur")
      case False
      then have "\<not> seg_is_first cur \<or> \<not> seg_is_last cur" by simp
      then have "nr_rlc_entity_am_discard_sdu e i = Inr e"
        by (simp only: nr_rlc_entity_am_discard_sdu_def Let_def Cons list.case if_True)
      with inv show ?thesis by simp
    next
      case True
      let ?t = "if am_tx_end e = Some (seg_addr cur) then (if a = [] then None else Some (seg_addr (last a))) else am_tx_end e"
      have j: "am_snd_inv e (am_tx_list e) (am_tx_end e) (am_retransmit_list e)" using inv by (simp add: am_sender_inv_def)
      let ?l = "(a @ rest) @ am_wait_list e @ am_retransmit_list e"
      have "segs_ok (am_heap e) (cur # ?l)"
        by (rule segs_ok_perm [of _ "(a @ cur # rest) @ am_wait_list e @ am_retransmit_list e"])
          (use j tx in \<open>simp_all add: snd_inv_def\<close>)
      from segs_ok_free [OF this] obtain b h where h: "nr_rlc_free_sdu_segment cur (am_heap e) = Inr (b, h)" "segs_ok h ?l"
          "same_sdus (am_heap e) h ?l" by blast
      have te: "tail_ok (a @ rest) ?t" using j unfolding tx by (intro tail_ok_unlink(1)) (simp add: snd_inv_def)
      have inv': "snd_inv (am_sn_modulus e) (am_window_size e) (am_tx_next_ack e) (am_tx_next e) h (a @ rest) ?t
          (am_wait_list e) (am_wait_end e) (am_retransmit_list e)"
        by (rule snd_inv_sub [OF j _ _ h(2,3) te]) (use j tx in \<open>auto simp: snd_inv_def\<close>)
      define e1 where "e1 = e\<lparr>am_tx_list := a @ rest, am_tx_end := ?t\<rparr>"
      define e2 where "e2 = am_upd_common (ec_add_tx_size (- (am_compute_pdu_header_size e1 cur + seg_size cur))) e1"
      define e3 where "e3 = e2\<lparr>am_tx_size := am_tx_size e2 - sdu_size (sdu_of (am_heap e2) cur)\<rparr>"
      have h3: "am_heap e3 = am_heap e" by (simp add: e3_def e2_def e1_def)
      have run: "nr_rlc_entity_am_discard_sdu e i =
          bindR (nr_rlc_free_sdu_segment cur (am_heap e3)) (\<lambda>(freed, h). Inr (am_set_heap h e3))"
        unfolding nr_rlc_entity_am_discard_sdu_def Let_def e3_def e2_def e1_def a_def
        by (simp only: Cons list.case True simp_thms if_False)
      have "nr_rlc_entity_am_discard_sdu e i = Inr (am_set_heap h e3)" unfolding run h3 using h(1) by simp
      moreover have "am_sender_inv (am_set_heap h e3)"
        using inv' inv by (simp add: am_sender_inv_def am_config_ok_def e3_def e2_def e1_def)
      ultimately show ?thesis using tx True id by (auto simp: e3_def e2_def e1_def)
    qed
  qed
qed

lemma am_clear_ok:
  assumes inv: "am_sender_inv e"
  shows "\<exists>e'. am_clear_entity e = Inr e' \<and> am_sender_inv e' \<and> am_tx_list e' = [] \<and> am_wait_list e' = [] \<and>
    am_retransmit_list e' = [] \<and> am_rx_list e' = [] \<and> am_tx_next e' = 0 \<and> am_rx_next e' = 0 \<and> am_tx_size e' = 0"
proof -
  let ?l = "am_tx_list e @ am_wait_list e @ am_retransmit_list e @ []"
  have ok: "heap_ok (am_heap e) ?l" and cfg: "am_config_ok e" using inv by (simp_all add: am_sender_inv_def snd_inv_def segs_ok_def)
  obtain h1 where h1: "nr_rlc_free_sdu_segment_list (am_tx_list e) (am_heap e) = Inr h1"
      "heap_ok h1 (am_wait_list e @ am_retransmit_list e @ [])" using free_sdu_segment_list_ok [OF ok] by blast
  obtain h2 where h2: "nr_rlc_free_sdu_segment_list (am_wait_list e) h1 = Inr h2"
      "heap_ok h2 (am_retransmit_list e @ [])" using free_sdu_segment_list_ok [OF h1(2)] by blast
  obtain h3 where h3: "nr_rlc_free_sdu_segment_list (am_retransmit_list e) h2 = Inr h3" "heap_ok h3 []"
    using free_sdu_segment_list_ok [OF h2(2)] by blast
  have "snd_inv (am_sn_modulus e) (am_window_size e) 0 0 h3 [] None [] None []"
    using h3(2) cfg by (auto simp: snd_inv_def win_ok_def segs_ok_def segs_apart_def sns_ok_def am_config_ok_def)
  with h1(1) h2(1) h3(1) cfg show ?thesis
    by (simp add: am_clear_entity_def Let_def am_sender_inv_def am_config_ok_def am_upd_common_def)
qed

end
