(* ===== verification/Rlc_Am_Sender_Ctrl.thy ===== *)
theory Rlc_Am_Sender_Ctrl
  imports Rlc_Am_Sender_Ops
begin

text \<open>
  STATUS PDUs at the sender: an ordered report keeps the invariant \<open>am_sender_inv\<close>. The processing only
  frees SDUs and counts retransmissions, so what the remaining segments say of their SDUs stays.
\<close>

definition heap_le :: "rlc_heap \<Rightarrow> rlc_heap \<Rightarrow> bool" where
  "heap_le h h' \<longleftrightarrow> (\<forall>p u'. heap_sdu h' p = Some u' \<longrightarrow> (\<exists>u. heap_sdu h p = Some u \<and> same_sdu u u'))"

lemma heap_le_refl [simp]: "heap_le h h"
  by (simp add: heap_le_def)

lemma heap_le_trans [trans]: "heap_le h h1 \<Longrightarrow> heap_le h1 h2 \<Longrightarrow> heap_le h h2"
  unfolding heap_le_def same_sdu_def by metis

lemma heap_le_same: "heap_le h h' \<Longrightarrow> heap_ok h' l \<Longrightarrow> same_sdus h h' l"
  unfolding same_sdus_def heap_le_def sdu_of_def by (fastforce dest: heap_ok_live)

lemma free_heap_le: "nr_rlc_free_sdu_segment s h = Inr (b, h') \<Longrightarrow> heap_le h h'"
  by (auto simp: nr_rlc_free_sdu_segment_def Let_def heap_le_def same_sdu_def split: option.splits if_splits)

lemma update_heap_le: "sdu_update f s h = Inr h' \<Longrightarrow> (\<And>u. same_sdu u (f u)) \<Longrightarrow> heap_le h h'"
  by (auto simp: sdu_update_def heap_le_def split: option.splits if_splits)

lemma free_acked_heap_le: "am_free_acked s e = Inr e' \<Longrightarrow> heap_le (am_heap e) (am_heap e')"
  by (auto simp: am_free_acked_def Let_def bindR_eq_Inr dest: free_heap_le split: if_splits)

abbreviation cs_heap :: "ctrl_state \<Rightarrow> rlc_heap" where
  "cs_heap st \<equiv> am_heap (cs_e st)"

lemma wait_head_heap_le:
  assumes "am_wait_head ack nack st = Inr (j, st')"
  shows "heap_le (cs_heap st) (cs_heap st')"
proof -
  obtain n a b where nack: "nack = (n, a, b)" by (cases nack)
  show ?thesis
  proof (cases "cs_cur_wait st")
    case Nil
    with assms show ?thesis by (simp add: am_wait_head_def nack)
  next
    case (Cons w ws)
    have upd: "heap_le (cs_heap st) h" if "sdu_update (\<lambda>u. u\<lparr>sdu_retx_count := sdu_retx_count u + 1\<rparr>) w (cs_heap st) = Inr h" for h
      by (rule update_heap_le [OF that]) (simp add: same_sdu_def)
    from assms show ?thesis
      by (auto simp: am_wait_head_def nack Cons Let_def bindR_eq_Inr dest: upd free_acked_heap_le split: if_splits)
  qed
qed

lemma retx_head_heap_le:
  assumes "am_retx_head ack nack st = Inr (j, st')"
  shows "heap_le (cs_heap st) (cs_heap st')"
proof -
  obtain n a b where nack: "nack = (n, a, b)" by (cases nack)
  show ?thesis
    using assms by (cases "cs_cur_retx st")
      (auto simp: am_retx_head_def nack Let_def bindR_eq_Inr dest!: free_acked_heap_le split: if_splits)
qed

lemma next_pdu_heap_le: "am_next_pdu ack nack st = Inr (j, st') \<Longrightarrow> heap_le (cs_heap st) (cs_heap st')"
  by (auto simp: am_next_pdu_def Let_def dest: wait_head_heap_le retx_head_heap_le split: list.splits if_splits)

lemma process_piece_heap_le:
  "am_process_piece ack nack st = Inr (b, st') \<Longrightarrow> heap_le (cs_heap st) (cs_heap st')"
proof (induction ack nack st rule: am_process_piece.induct)
  case (1 ack nack st)
  show ?case
  proof (cases "am_next_pdu ack nack st")
    case (Inl c)
    with "1.prems" show ?thesis by (simp add: am_process_piece.simps [of ack nack st])
  next
    case (Inr r)
    obtain j st1 where r: "r = (j, st1)" by (cases r)
    have le: "heap_le (cs_heap st) (cs_heap st1)" using next_pdu_heap_le Inr r by blast
    show ?thesis
    proof (cases j)
      case NextPdu
      have "am_process_piece ack nack st1 = Inr (b, st')"
        using "1.prems" Inr r NextPdu by (simp add: am_process_piece.simps [of ack nack st])
      from "1.IH" [OF Inr r [symmetric] NextPdu this] le show ?thesis by (blast intro: heap_le_trans)
    qed (use "1.prems" Inr r le in \<open>auto simp: am_process_piece.simps [of ack nack st]\<close>)
  qed
qed

lemma process_pieces_heap_le:
  "am_process_pieces ack ps st = Inr st' \<Longrightarrow> heap_le (cs_heap st) (cs_heap st')"
proof (induction ps arbitrary: st)
  case Nil
  then show ?case by simp
next
  case (Cons p ps)
  then obtain b st1 where st1: "am_process_piece ack p st = Inr (b, st1)"
      "(if b then Inr st1 else am_process_pieces ack ps st1) = Inr st'"
    by (auto simp: bindR_eq_Inr)
  from process_piece_heap_le [OF st1(1)] st1(2) Cons.IH [of st1] show ?case
    by (auto split: if_splits intro: heap_le_trans)
qed

lemma process_nacks_heap_le:
  "am_process_nacks ack ns st = Inr st' \<Longrightarrow> heap_le (cs_heap st) (cs_heap st')"
proof (induction ns arbitrary: st)
  case Nil
  then show ?case by simp
next
  case (Cons n ns)
  then obtain st1 st2 where st1: "am_process_pieces ack (nack_pieces (am_sn_modulus (cs_e st)) n) st = Inr st1"
      "am_process_nacks ack ns st2 = Inr st'" "cs_heap st2 = cs_heap st1"
    by (auto simp: bindR_eq_Inr Let_def split: if_splits)
  from process_pieces_heap_le [OF st1(1)] Cons.IH [OF st1(2)] st1(3) show ?case by (metis heap_le_trans)
qed

lemma ack_wait_heap_le: "am_ack_wait ack l st = Inr st' \<Longrightarrow> heap_le (cs_heap st) (cs_heap st')"
proof (induction l arbitrary: st)
  case Nil
  then show ?case by auto
next
  case (Cons w ws)
  show ?case
  proof (cases "am_sn_compare_tx (cs_e st) (seg_sn (cs_heap st) w) ack < 0")
    case True
    with Cons.prems obtain e1 where e1: "am_free_acked w (cs_e st) = Inr e1"
        "am_ack_wait ack ws (st\<lparr>cs_e := e1, cs_end_wait := cs_unlink w st\<rparr>) = Inr st'"
      by (auto simp: bindR_eq_Inr)
    from free_acked_heap_le [OF e1(1)] Cons.IH [OF e1(2)] show ?thesis by (auto intro: heap_le_trans)
  next
    case False
    with Cons.prems show ?thesis by auto
  qed
qed

lemma ack_retx_heap_le: "am_ack_retx ack l st = Inr st' \<Longrightarrow> heap_le (cs_heap st) (cs_heap st')"
proof (induction l arbitrary: st)
  case Nil
  then show ?case by auto
next
  case (Cons r rs)
  show ?case
  proof (cases "am_sn_compare_tx (cs_e st) (seg_sn (cs_heap st) r) ack < 0")
    case True
    with Cons.prems obtain e1 where e1:
        "am_free_acked r (am_upd_common (ec_add_retx_size (- seg_pdu_size (cs_e st) r)) (cs_e st)) = Inr e1"
        "am_ack_retx ack rs (st\<lparr>cs_e := e1\<rparr>) = Inr st'"
      by (auto simp: bindR_eq_Inr Let_def)
    from free_acked_heap_le [OF e1(1)] Cons.IH [OF e1(2)] show ?thesis by (auto intro: heap_le_trans)
  next
    case False
    with Cons.prems show ?thesis by (auto simp: Let_def)
  qed
qed

lemma finish_heap [simp]: "am_heap (am_control_finish ack st) = cs_heap st"
  by (simp add: am_control_finish_def Let_def)

lemma apply_control_heap_le:
  assumes "am_apply_control e ack nacks = Inr e'"
  shows "heap_le (am_heap e) (am_heap e')"
proof -
  let ?e1 = "if am_sn_compare_tx e (am_poll_sn e) ack < 0 then e\<lparr>am_t_poll_retransmit_start := 0\<rparr> else e"
  let ?st = "\<lparr>cs_e = ?e1, cs_kept = [], cs_cur_wait = am_wait_list ?e1, cs_rest_wait = [],
      cs_end_wait = None, cs_new_retx = [], cs_cur_retx = am_retransmit_list ?e1\<rparr>"
  obtain st1 st2 st3 where r: "am_process_nacks ack nacks ?st = Inr st1" "am_ack_wait ack (cs_cur_wait st1) st1 = Inr st2"
      "am_ack_retx ack (cs_cur_retx st2) st2 = Inr st3" "e' = am_control_finish ack st3"
    using assms unfolding am_apply_control_def Let_def by (auto simp: bindR_eq_Inr simp del: am_process_nacks.simps)
  have "heap_le (am_heap e) (cs_heap st1)" using process_nacks_heap_le [OF r(1)] by (cases "am_sn_compare_tx e (am_poll_sn e) ack < 0") simp_all
  also note ack_wait_heap_le [OF r(2)]
  also note ack_retx_heap_le [OF r(3)]
  finally show ?thesis using r(4) by simp
qed


section \<open>Ordered reports\<close>

text \<open>
  A report that stays within what was sent: the NACKs are in order and below the ACK, and the ACK does
  not pass an SDU of which a part has not been sent yet. This is a condition on the report, not a law of
  the peer: \<open>generate_status\<close> of this code, whose receiver cannot know whether the rest of an SDU was sent
  already, can report the number behind such an SDU as ACK together with a NACK for its unsent rest
  (\<open>am_tail_exchange\<close> in \<open>Rlc_Am_Errors\<close> shows the exchange and what becomes of the SDU).
\<close>

definition status_within_sent :: "nr_rlc_entity_am \<Rightarrow> int \<Rightarrow> nack_item list \<Rightarrow> bool" where
  "status_within_sent e ack nacks \<longleftrightarrow> status_ordered e ack nacks \<and>
     (\<forall>s \<in> set (am_tx_list e). seg_sn (am_heap e) s = -1 \<or> am_sn_compare_tx e ack (seg_sn (am_heap e) s) \<le> 0)"

lemma process_control_sender:
  assumes inv: "am_sender_inv e" and v: "am_validate_control e buffer = Inr (Some (ack, nacks))"
    and g: "status_within_sent e ack nacks"
  shows "\<exists>e'. process_control_pdu e buffer = Inr e' \<and> am_sender_inv e' \<and> am_tx_list e' = am_tx_list e \<and>
    am_tx_next e' = am_tx_next e \<and>
    am_wait_list e' = filter (\<lambda>s. am_sn_compare_tx e (seg_sn (am_heap e) s) ack \<ge> 0) (am_wait_list e) \<and>
    mset (am_retransmit_list e') =
      filter_mset (\<lambda>s. \<exists>p \<in> set (status_pieces e nacks). nack_hits (seg_sn (am_heap e)) p s)
        (mset (am_wait_list e @ am_retransmit_list e)) +
      filter_mset (\<lambda>s. am_sn_compare_tx e (seg_sn (am_heap e) s) ack \<ge> 0) (mset (am_retransmit_list e)) \<and>
    am_modulus_tx e (am_tx_next_ack e') \<le> am_modulus_tx e ack \<and>
    (\<forall>s \<in> set (am_tx_list e' @ am_wait_list e' @ am_retransmit_list e'). same_sdu (sdu_of (am_heap e) s) (sdu_of (am_heap e') s))"
proof -
  have ctrl: "am_config_ok e" "am_tx_inv e" "am_tx_order e" using am_sender_ctrl [OF inv] by blast+
  have ord: "status_ordered e ack nacks" using g by (simp add: status_within_sent_def)
  obtain e' where e': "process_control_pdu e buffer = Inr e'" "am_tx_inv e'" "am_tx_order e'"
      "am_wait_list e' = filter (\<lambda>s. am_sn_compare_tx e (seg_sn (am_heap e) s) ack \<ge> 0) (am_wait_list e)"
      "mset (am_retransmit_list e') =
      filter_mset (\<lambda>s. \<exists>p \<in> set (status_pieces e nacks). nack_hits (seg_sn (am_heap e)) p s)
        (mset (am_wait_list e @ am_retransmit_list e)) +
      filter_mset (\<lambda>s. am_sn_compare_tx e (seg_sn (am_heap e) s) ack \<ge> 0) (mset (am_retransmit_list e))"
      "am_modulus_tx e (am_tx_next_ack e') \<le> am_modulus_tx e ack"
      "\<forall>s \<in> set (am_wait_list e' @ am_retransmit_list e').
       am_modulus_tx e (am_tx_next_ack e') \<le> am_modulus_tx e (seg_sn (am_heap e) s)"
    using process_control_classifies [OF ctrl v ord] by blast
  define e0 where "e0 = am_upd_common (ec_upd_stats (\<lambda>s. s\<lparr>st_prev_txsdu_bytes := st_txsdu_bytes s\<rparr>)) e"
  have f0: "am_frame e e0" "am_heap e0 = am_heap e" unfolding e0_def by (simp_all add: am_frame_upd)
  have run: "am_apply_control e0 ack nacks = Inr e'"
    using process_control_run [OF ctrl(1), of buffer] v e'(1) by (auto simp: e0_def Let_def)
  have i0: "am_tx_inv e0" using ctrl(2) by (simp add: e0_def)
  obtain st where st: "am_tx_list e' = am_tx_list e0" "e' = am_control_finish ack st" "am_frame e0 (cs_e st)"
    using am_apply_control_ok [OF i0, of ack nacks] run by auto
  note sel = am_frame_sel [OF am_frame_trans [OF f0(1) st(3)]]
  have win: "am_window_size e' = am_window_size e"
    using f0(1) st(3) unfolding st(2) am_control_finish_def Let_def am_frame_def by force
  have fld: "am_tx_list e' = am_tx_list e" "am_tx_end e' = am_tx_end e" "am_tx_next e' = am_tx_next e"
      "am_sn_modulus e' = am_sn_modulus e" "am_sn_field_length e' = am_sn_field_length e"
    using st(1) am_frame_sel(1) [OF f0(1)] unfolding st(2) by (simp_all add: am_control_finish_def Let_def sel)
  let ?l = "am_tx_list e' @ am_wait_list e' @ am_retransmit_list e'"
  have ok: "segs_ok (am_heap e') ?l" "tail_ok (am_tx_list e') (am_tx_end e')" "tail_ok (am_wait_list e') (am_wait_end e')"
    using e'(2) by (simp_all add: am_tx_inv_def)
  have same: "same_sdus (am_heap e) (am_heap e') ?l"
    using heap_le_same [OF apply_control_heap_le [OF run] segs_ok_heap [OF ok(1)]] f0(2) by simp
  have sub: "set (am_wait_list e' @ am_retransmit_list e') \<subseteq> set (am_wait_list e @ am_retransmit_list e)"
    using e'(4) arg_cong [OF e'(5), of set_mset] by auto
  have j: "am_snd_inv e (am_tx_list e) (am_tx_end e) (am_retransmit_list e)" using inv by (simp add: am_sender_inv_def)
  let ?M = "am_sn_modulus e" and ?base = "am_tx_next_ack e"
  let ?d = "sn_dist ?M ?base" and ?sn = "seg_sn (am_heap e)" and ?sn' = "seg_sn (am_heap e')"
  have sn: "?sn' s = ?sn s" if "s \<in> set ?l" for s by (rule same_sdus_sn [OF same that])
  have retx: "seg_sorted ?M ?base (am_heap e) (am_retransmit_list e')"
  proof -
    have "sorted_wrt (seg_le ?sn' (am_modulus_tx e')) (am_retransmit_list e')" using e'(3) by (simp add: am_tx_order_def)
    moreover have "am_modulus_tx e' (?sn' s) = ?d (?sn s) - ?d (am_tx_next_ack e')" if "s \<in> set (am_retransmit_list e')" for s
    proof -
      have "in_flight ?M ?base (am_tx_next e) (?sn s)" using sub that j by (auto simp: snd_inv_def sns_ok_def)
      moreover have "0 \<le> am_tx_next_ack e'" "am_tx_next_ack e' < ?M" using e'(3) fld by (simp_all add: am_tx_order_def am_sn_ok_def)
      ultimately show ?thesis using sn_dist_shift [of "?sn s" ?M "am_tx_next_ack e'" ?base] e'(7) that j sn [of s] fld(4)
        by (simp add: am_modulus_tx_dist in_flight_def snd_inv_def win_ok_def)
    qed
    ultimately show ?thesis using seg_le_shift [of "am_retransmit_list e'" "sn_dist ?M ?base" ?sn "am_modulus_tx e'" ?sn' "- ?d (am_tx_next_ack e')"]
      by simp
  qed
  have k: "snd_inv ?M (am_window_size e) ?base (am_tx_next e) (am_heap e') (am_tx_list e') (am_tx_end e')
      (am_wait_list e') (am_wait_end e') (am_retransmit_list e')"
    by (rule snd_inv_sub [OF j _ sub ok(1) same ok(2,3) _ retx])
      (use fld(1) e'(4) j in \<open>auto simp: snd_inv_def sorted_wrt_filter\<close>)
  have ack: "?d ack \<le> ?d (am_tx_next e)" using am_validated_ack [OF v] by (simp add: am_modulus_tx_dist)
  have "snd_inv ?M (am_window_size e) (am_tx_next_ack e') (am_tx_next e) (am_heap e') (am_tx_list e') (am_tx_end e')
      (am_wait_list e') (am_wait_end e') (am_retransmit_list e')"
  proof (rule snd_inv_base [OF k])
    show "0 \<le> am_tx_next_ack e'" "am_tx_next_ack e' < ?M" using e'(3) fld by (simp_all add: am_tx_order_def am_sn_ok_def)
    show "?d (am_tx_next_ack e') \<le> ?d (am_tx_next e)" using e'(6) ack by (simp add: am_modulus_tx_dist)
    show "\<forall>s \<in> set (am_wait_list e' @ am_retransmit_list e'). ?d (am_tx_next_ack e') \<le> ?d (?sn' s)"
      using e'(7) sn by (simp add: am_modulus_tx_dist)
    show "\<forall>s \<in> set (am_tx_list e'). ?sn' s = -1 \<or> ?d (am_tx_next_ack e') \<le> ?d (?sn' s)"
    proof
      fix s assume s: "s \<in> set (am_tx_list e')"
      then have "?sn s = -1 \<or> ?d ack \<le> ?d (?sn s)"
        using g fld(1) by (auto simp: status_within_sent_def am_sn_compare_tx_def am_modulus_tx_dist)
      with e'(6) sn [of s] s show "?sn' s = -1 \<or> ?d (am_tx_next_ack e') \<le> ?d (?sn' s)"
        by (auto simp: am_modulus_tx_dist)
    qed
  qed
  then have "am_sender_inv e'" using ctrl(1) fld win by (simp add: am_sender_inv_def am_config_ok_def)
  with e' fld(1,3) same show ?thesis unfolding same_sdus_def by blast
qed

end
