(* ===== verification/Rlc_Am_Link.thy ===== *)
theory Rlc_Am_Link
  imports Rlc_Am_Sender_Ctrl
begin

text \<open>
  The acknowledged mode as a whole: the runs of an entity with every operation in any order, and the
  link between a sender and a receiver.
\<close>

section \<open>Reception leaves the sending side alone\<close>

definition am_tx_view where
  "am_tx_view e = (am_sn_field_length e, am_sn_modulus e, am_window_size e, am_tx_next_ack e, am_tx_next e, am_heap e,
     am_tx_list e, am_tx_end e, am_wait_list e, am_wait_end e, am_retransmit_list e)"

lemma am_tx_view_inv: "am_tx_view e' = am_tx_view e \<Longrightarrow> am_sender_inv e' = am_sender_inv e"
  by (simp add: am_tx_view_def am_sender_inv_def am_config_ok_def)

lemma am_tx_view_upd [simp]:
  "am_tx_view (e\<lparr>am_rx_list := l\<rparr>) = am_tx_view e" "am_tx_view (e\<lparr>am_rx_size := n\<rparr>) = am_tx_view e"
  "am_tx_view (e\<lparr>am_rx_next := n\<rparr>) = am_tx_view e" "am_tx_view (e\<lparr>am_rx_highest_status := n\<rparr>) = am_tx_view e"
  "am_tx_view (e\<lparr>am_rx_next_highest := n\<rparr>) = am_tx_view e" "am_tx_view (e\<lparr>am_rx_next_status_trigger := n\<rparr>) = am_tx_view e"
  "am_tx_view (e\<lparr>am_status_triggered := b\<rparr>) = am_tx_view e" "am_tx_view (e\<lparr>am_t_reassembly_start := t\<rparr>) = am_tx_view e"
  "am_tx_view (e\<lparr>am_t_status_prohibit_start := t\<rparr>) = am_tx_view e" "am_tx_view (e\<lparr>am_t_current := t\<rparr>) = am_tx_view e"
  "am_tx_view (e\<lparr>am_t_poll_retransmit_start := t\<rparr>) = am_tx_view e" "am_tx_view (e\<lparr>am_force_poll := b\<rparr>) = am_tx_view e"
  "(\<And>c. ec_heap (f c) = ec_heap c) \<Longrightarrow> am_tx_view (am_upd_common f e) = am_tx_view e"
  by (simp_all add: am_tx_view_def)

lemma am_tx_view_timers [simp]: "am_tx_view (am_reception_timers e) = am_tx_view e"
  by (simp add: am_reception_timers_def Let_def)

lemma am_tx_view_discard [simp]: "am_tx_view (am_discard e sz p) = am_tx_view e"
  by (simp add: am_discard_def)

lemma am_tx_view_deliver: "am_reassemble_and_deliver e sn = Inr e' \<Longrightarrow> am_tx_view e' = am_tx_view e"
  by (auto simp: am_reassemble_and_deliver_def bindR_eq_Inr Let_def split: list.splits if_splits)

lemma am_tx_view_complete:
  assumes "am_sdu_complete e x = Inr e'"
  shows "am_tx_view e' = am_tx_view e"
proof -
  obtain e1 where e1: "am_reassemble_and_deliver e x = Inr e1" "bindR (if x = am_rx_highest_status e1
            then bindR (am_skip_delivered e1 (am_rx_highest_status e1) 0) (\<lambda>s. Inr (e1\<lparr>am_rx_highest_status := s\<rparr>))
            else Inr e1) (\<lambda>e2. Inr (if x = am_rx_next e2
          then case am_free_head (am_sn_modulus e2) (am_rx_next e2) (am_rx_list e2) of
                 (rx_next, l) \<Rightarrow> e2\<lparr>am_rx_list := l, am_rx_next := rx_next\<rparr>
          else e2)) = Inr e'"
    using assms unfolding am_sdu_complete_def by (auto simp: bindR_eq_Inr)
  then have "am_tx_view e' = am_tx_view e1" by (auto simp: bindR_eq_Inr split: if_splits prod.splits)
  with am_tx_view_deliver [OF e1(1)] show ?thesis by simp
qed

lemma am_tx_view_reception: "am_reception_actions e pdu = Inr e' \<Longrightarrow> am_tx_view e' = am_tx_view e"
  by (auto simp: am_reception_actions_def Let_def bindR_eq_Inr dest!: am_tx_view_complete split: if_splits)

lemma bindR_elim: "bindR m f = Inr y \<Longrightarrow> (\<And>x. m = Inr x \<Longrightarrow> f x = Inr y \<Longrightarrow> P) \<Longrightarrow> P"
  by (auto simp: bindR_eq_Inr)

lemma am_tx_view_segment:
  assumes r: "am_recv_segment e sz p sn so f l data = Inr e'"
  shows "am_tx_view e' = am_tx_view e"
proof -
  have dis: "am_tx_view e' = am_tx_view e" if "Inr (am_discard e1 sz p) = (Inr e' :: _ result)" "am_tx_view e1 = am_tx_view e" for e1
    using that by auto
  have upd: "am_tx_view (am_upd_common (ec_upd_stats g) e) = am_tx_view e" for g by simp
  show ?thesis
  proof (cases "int (length data) \<le> 0")
    case True
    show ?thesis using r unfolding am_recv_segment_def Let_def if_P [OF True] by (rule dis) (rule refl)
  next
    case a: False
    note r1 = r [unfolded am_recv_segment_def Let_def if_not_P [OF a]]
    show ?thesis
    proof (cases "am_rx_size e + int (length data) > am_rx_maxsize e")
      case True
      show ?thesis using r1 [unfolded if_P [OF True]] by (rule dis) (rule refl)
    next
      case b: False
      note r2 = r1 [unfolded if_not_P [OF b]]
      show ?thesis
      proof (cases "\<not> am_sn_in_recv_window e sn")
        case True
        show ?thesis using r2 [unfolded if_P [OF True]] by (rule dis) (rule upd)
      next
        case c: False
        note r3 = r2 [unfolded if_not_P [OF c]]
        show ?thesis
        proof (cases "segment_already_received e sn so (int (length data))")
          case True
          show ?thesis using r3 [unfolded if_P [OF True]] by (rule dis) (rule upd)
        next
          case d: False
          show ?thesis using r3 [unfolded if_not_P [OF d]]
            by (elim bindR_elim) (drule am_tx_view_reception, cases "p = 0", auto)
        qed
      qed
    qed
  qed
qed

lemma am_tx_view_status:
  assumes "generate_status e buffer = Inr (n, b, e')"
  shows "am_tx_view e' = am_tx_view e"
proof (cases "int (length buffer) < 3")
  case True
  with assms show ?thesis by (simp add: generate_status_def)
next
  case False
  have tail: "am_tx_view e' = am_tx_view e" if "(case x of (l, ss) \<Rightarrow> Inr (N l ss, B l ss, am_upd_common (ec_upd_stats (F l ss))
      (e\<lparr>am_status_triggered := False, am_t_status_prohibit_start := am_t_current e\<rparr>))) = (Inr (n, b, e') :: _ result)"
    for x :: "int \<times> status_state" and N B F
    using that by (cases x) auto
  show ?thesis
    using assms unfolding generate_status_def Let_def if_not_P [OF False] by (elim bindR_elim) (rule tail)
qed

lemma am_tx_view_reassembly: "am_check_t_reassembly e = Inr e' \<Longrightarrow> am_tx_view e' = am_tx_view e"
  by (auto simp: am_check_t_reassembly_def Let_def bindR_eq_Inr split: if_splits)

text \<open>A received PDU is a STATUS PDU or leaves the sending side alone.\<close>

lemma am_recv_pdu_cases:
  assumes "nr_rlc_entity_am_recv_pdu e buffer = Inr e'"
  obtains "am_tx_view e' = am_tx_view e"
  | e0 where "am_tx_view e0 = am_tx_view e" "process_control_pdu e0 buffer = Inr e'"
proof -
  define e0 where "e0 = am_upd_common (ec_upd_stats (\<lambda>s. s\<lparr>st_rxpdu_pkts := st_rxpdu_pkts s + 1,
      st_rxpdu_bytes := st_rxpdu_bytes s + word_of_int (int (length buffer))\<rparr>)) e"
  have v0: "am_tx_view e0 = am_tx_view e" by (simp add: e0_def)
  obtain dc d where "nr_rlc_pdu_decoder_get_bits (nr_rlc_pdu_decoder_init buffer) 1 = Inr (dc, d)"
    using get_bits_Inr [of 1 "nr_rlc_pdu_decoder_init buffer"] by auto
  with assms have r: "(if dec_error d then Inr (am_discard e0 (int (length buffer)) 0)
         else if dc = 0 then process_control_pdu e0 buffer
         else bindR (am_read_data_header e0 d) (\<lambda>r.
           case r of
             Inl p \<Rightarrow> Inr (am_discard e0 (int (length buffer)) p)
           | Inr (p, is_first, is_last, sn, so, d') \<Rightarrow>
               am_recv_segment e0 (int (length buffer)) p sn so is_first is_last (drop (nat (dec_byte d')) buffer))) = Inr e'"
    by (simp only: nr_rlc_entity_am_recv_pdu_def Let_def e0_def bindR_Inr prod.case)
  show thesis
  proof (cases "dec_error d \<or> dc \<noteq> 0")
    case True
    have "am_tx_view e' = am_tx_view e0"
    proof (cases "dec_error d")
      case True
      with r show ?thesis by auto
    next
      case False
      with True r have "bindR (am_read_data_header e0 d) (\<lambda>x. case x of
             Inl p \<Rightarrow> Inr (am_discard e0 (int (length buffer)) p)
           | Inr (p, is_first, is_last, sn, so, d') \<Rightarrow>
               am_recv_segment e0 (int (length buffer)) p sn so is_first is_last (drop (nat (dec_byte d')) buffer)) = Inr e'"
        by simp
      then show ?thesis by (rule bindR_elim) (auto dest: am_tx_view_segment split: sum.splits prod.splits)
    qed
    with v0 that(1) show thesis by simp
  next
    case False
    with r v0 that(2) show thesis by simp
  qed
qed

section \<open>Runs of an entity\<close>

text \<open>
  The operations in any order and number, under three conditions: SDUs have at most \<open>NR_SDU_MAX\<close>
  bytes, a reconfiguration keeps the length of the sequence number (\<open>am_reconfigure_keeps_modulus\<close> shows
  what another length does), and STATUS PDUs that pass the validation stay within what was sent
  (\<open>status_within_sent\<close>; \<open>am_tail_never_acknowledged\<close> shows what others do). Data PDUs and PDUs that
  are refused may have any bytes.
\<close>

inductive am_run :: "nr_rlc_entity_am \<Rightarrow> bool" where
  created: "new_nr_rlc_entity_am rx tx tp tr ts pp pb mr n = Inr e \<Longrightarrow> am_run e"
| recv_sdu: "am_run e \<Longrightarrow> int (length buffer) \<le> NR_SDU_MAX \<Longrightarrow> nr_rlc_entity_am_recv_sdu now e buffer i = Inr e' \<Longrightarrow> am_run e'"
| generate: "am_run e \<Longrightarrow> nr_rlc_entity_am_generate_pdu now e buffer = Inr (n, b, e') \<Longrightarrow> am_run e'"
| recv_pdu: "am_run e \<Longrightarrow> nr_rlc_entity_am_recv_pdu e buffer = Inr e' \<Longrightarrow>
    (\<And>ack nacks. am_validate_control e buffer = Inr (Some (ack, nacks)) \<Longrightarrow> status_within_sent e ack nacks) \<Longrightarrow> am_run e'"
| set_time: "am_run e \<Longrightarrow> nr_rlc_entity_am_set_time e now = Inr e' \<Longrightarrow> am_run e'"
| discard: "am_run e \<Longrightarrow> nr_rlc_entity_am_discard_sdu e i = Inr e' \<Longrightarrow> am_run e'"
| reestablish: "am_run e \<Longrightarrow> nr_rlc_entity_am_reestablishment e = Inr e' \<Longrightarrow> am_run e'"
| reconfigure: "am_run e \<Longrightarrow> n = None \<or> n = Some (am_sn_field_length e) \<Longrightarrow>
    am_run (nr_rlc_entity_am_reconfigure e tp tr ts pp pb mr n)"

inductive_cases am_run_cases: "am_run e"

lemma am_sender_new: "new_nr_rlc_entity_am rx tx tp tr ts pp pb mr n = Inr e \<Longrightarrow> am_sender_inv e"
  by (auto simp: new_nr_rlc_entity_am_def am_sender_inv_def snd_inv_def win_ok_def segs_ok_def heap_ok_def am_config_ok_def
      entity_init_def rlc_heap_empty_def segs_apart_def sns_ok_def result_simps split: if_splits)

lemma am_generate_sender:
  assumes inv: "am_sender_inv e" and "nr_rlc_entity_am_generate_pdu now e buffer = Inr (n, b, e')"
  shows "am_sender_inv e'"
proof -
  obtain n1 b1 e1 where s: "(if status_to_report e then generate_status e buffer else Inr (0, buffer, e)) = Inr (n1, b1, e1)"
      "(if n1 \<noteq> 0 then Inr (n1, b1, e1)
       else bindR (if am_retransmit_list e1 \<noteq> [] then generate_retx_pdu e1 b1 else Inr (0, b1, e1))
              (\<lambda>(n', b', e2). if n' \<noteq> 0 then Inr (n', b', e2) else generate_tx_pdu now e2 b')) = Inr (n, b, e')"
    using assms(2) unfolding nr_rlc_entity_am_generate_pdu_def by (auto simp: bindR_eq_Inr)
  have i1: "am_sender_inv e1"
    using s(1) inv am_tx_view_inv [OF am_tx_view_status] by (auto split: if_splits)
  show ?thesis
  proof (cases "n1 \<noteq> 0")
    case True
    with s(2) i1 show ?thesis by simp
  next
    case False
    then obtain n2 b2 e2 where t: "(if am_retransmit_list e1 \<noteq> [] then generate_retx_pdu e1 b1 else Inr (0, b1, e1)) = Inr (n2, b2, e2)"
        "(if n2 \<noteq> 0 then Inr (n2, b2, e2) else generate_tx_pdu now e2 b2) = Inr (n, b, e')"
      using s(2) by (auto simp: bindR_eq_Inr)
    have "am_sender_inv e2"
      using t(1) i1 generate_retx_pdu_ok [OF i1, of _ _ b1] by (cases "am_retransmit_list e1") (auto simp: am_gen_ok_def)
    with t(2) generate_tx_pdu_ok [of e2 b2 now] show ?thesis by (auto simp: am_gen_ok_def split: if_splits)
  qed
qed

lemma am_poll_sender:
  assumes inv: "am_sender_inv e" and r: "check_t_poll_retransmit e = Inr e'"
  shows "am_sender_inv e'"
proof (cases "am_wait_list e = []")
  case False
  then show ?thesis using check_t_poll_retransmit_ok [OF inv] r by auto
next
  case True
  then have "am_tx_view e' = am_tx_view e"
    using r by (auto simp: check_t_poll_retransmit_def Let_def split: if_splits)
  with inv am_tx_view_inv show ?thesis by blast
qed

lemma am_recv_pdu_sender:
  assumes inv: "am_sender_inv e" and r: "nr_rlc_entity_am_recv_pdu e buffer = Inr e'"
    and g: "\<And>ack nacks. am_validate_control e buffer = Inr (Some (ack, nacks)) \<Longrightarrow> status_within_sent e ack nacks"
  shows "am_sender_inv e'"
  using r
proof (cases rule: am_recv_pdu_cases)
  case 1
  with inv am_tx_view_inv show ?thesis by blast
next
  case (2 e0)
  have i0: "am_sender_inv e0" using 2(1) inv am_tx_view_inv by blast
  have cfg: "am_config_ok e0" using i0 by (simp add: am_sender_inv_def)
  have cmp: "am_sn_compare_tx e0 = am_sn_compare_tx e" "am_modulus_tx e0 = am_modulus_tx e"
    using 2(1) by (simp_all add: am_tx_view_def fun_eq_iff am_sn_compare_tx_def am_modulus_tx_def Let_def)
  have gen: "status_within_sent e0 ack nacks = status_within_sent e ack nacks" for ack nacks
    using 2(1) cmp by (simp add: status_within_sent_def status_ordered_def status_pieces_def am_tx_view_def)
  have nack: "am_read_nack e0 d = am_read_nack e d" for d using 2(1) by (simp add: am_read_nack_def am_tx_view_def)
  have valid: "am_nack_valid e0 = am_nack_valid e" using 2(1) by (auto simp: fun_eq_iff am_nack_valid_def am_tx_view_def cmp)
  have mod: "am_sn_modulus e0 = am_sn_modulus e" using 2(1) by (simp add: am_tx_view_def)
  have fld: "am_sn_field_length e0 = am_sn_field_length e" "am_tx_next e0 = am_tx_next e" using 2(1) by (simp_all add: am_tx_view_def)
  have nacks: "am_read_nacks e0 ack fuel e1 d = am_read_nacks e ack fuel e1 d" for ack fuel e1 d
  proof (induction fuel arbitrary: e1 d)
    case 0
    show ?case by (simp add: am_read_nacks.simps)
  next
    case (Suc fuel)
    show ?case
      unfolding am_read_nacks.simps [of e0 ack "Suc fuel"] am_read_nacks.simps [of e ack "Suc fuel"] nat.case
        Suc.IH nack valid mod by (rule refl)
  qed
  have val: "am_validate_control e0 buffer = am_validate_control e buffer"
    unfolding am_validate_control_def am_read_status_header_def fld cmp nacks by (rule refl)
  obtain x where x: "am_validate_control e0 buffer = Inr x" "process_control_pdu e0 buffer =
      (let e0 = am_upd_common (ec_upd_stats (\<lambda>s. s\<lparr>st_prev_txsdu_bytes := st_txsdu_bytes s\<rparr>)) e0
       in case x of None \<Rightarrow> Inr e0 | Some (ack, nacks) \<Rightarrow> am_apply_control e0 ack nacks)"
    using process_control_run [OF cfg] by blast
  show ?thesis
  proof (cases x)
    case None
    with x(2) 2(2) i0 show ?thesis by auto
  next
    case (Some y)
    obtain ack nacks where "y = (ack, nacks)" by (cases y)
    with Some x(1) g val gen process_control_sender [OF i0, of buffer ack nacks] 2(2) show ?thesis by auto
  qed
qed

lemma am_sender_reconfigure:
  assumes "am_sender_inv e" "n = None \<or> n = Some (am_sn_field_length e)"
  shows "am_sender_inv (nr_rlc_entity_am_reconfigure e tp tr ts pp pb mr n)"
proof -
  have "am_tx_view (nr_rlc_entity_am_reconfigure e tp tr ts pp pb mr n) = am_tx_view e"
    using assms(2) by (auto simp: nr_rlc_entity_am_reconfigure_def am_tx_view_def Let_def)
  with assms(1) am_tx_view_inv show ?thesis by blast
qed

lemma am_run_sender: "am_run e \<Longrightarrow> am_sender_inv e"
proof (induction rule: am_run.induct)
  case (created rx tx tp tr ts pp pb mr n e)
  then show ?case by (rule am_sender_new)
next
  case (recv_sdu e buffer now i e')
  then show ?case using am_recv_sdu_ok [of e buffer now i] by auto
next
  case (generate e now buffer n b e')
  then show ?case using am_generate_sender by blast
next
  case (recv_pdu e buffer e')
  then show ?case using am_recv_pdu_sender by blast
next
  case (set_time e now e')
  then obtain e1 where e1: "check_t_poll_retransmit (e\<lparr>am_t_current := now\<rparr>) = Inr e1" "am_check_t_reassembly e1 = Inr e'"
    by (auto simp: nr_rlc_entity_am_set_time_def bindR_eq_Inr)
  have "am_sender_inv (e\<lparr>am_t_current := now\<rparr>)" using set_time.IH am_tx_view_inv am_tx_view_upd(10) by blast
  from am_poll_sender [OF this e1(1)] am_tx_view_inv [OF am_tx_view_reassembly [OF e1(2)]] show ?case by simp
next
  case (discard e i e')
  then show ?case using am_discard_sdu_ok [of e i] by auto
next
  case (reestablish e e')
  then show ?case using am_clear_ok [of e] by (auto simp: nr_rlc_entity_am_reestablishment_def)
next
  case (reconfigure e n tp tr ts pp pb mr)
  then show ?case using am_sender_reconfigure by blast
qed


section \<open>From the sender to the receiver\<close>

lemma seg_part_of:
  assumes "seg_ok h s" "seg_shape h s" "seg_bytes h s \<noteq> []"
  shows "part_of (sdu_data (sdu_of h s)) (nr_rlc_new_pdu sn (seg_so s) (seg_is_first s) (seg_is_last s) (seg_bytes h s))"
proof -
  have "int (length (seg_bytes h s)) = seg_size s" by (rule length_seg_bytes [OF assms(1)])
  moreover from this assms(3) have "0 < seg_size s" by (metis length_greater_0_conv of_nat_0_less_iff)
  ultimately show ?thesis
    using assms(1,2) by (auto simp: part_of_def nr_rlc_new_pdu_def seg_ok_def seg_shape_def seg_bytes_def)
qed

text \<open>A data PDU at the receiver.\<close>

lemma am_deliver_wire:
  assumes inv: "am_sender_inv a" and s: "s \<in> set (am_wait_list a)" and hdr: "am_wire_header a s p hdr"
    and rx: "am_rx_inv truth r" and peer: "am_sn_field_length r = am_sn_field_length a"
    and truth: "truth (seg_sn (am_heap a) s) = sdu_data (sdu_of (am_heap a) s)"
    and data: "seg_bytes (am_heap a) s \<noteq> []"
  shows "\<exists>r'. nr_rlc_entity_am_recv_pdu r (hdr @ seg_bytes (am_heap a) s) = Inr r' \<and> am_rx_inv truth r' \<and>
    am_events r' = (if am_accepts r (seg_sn (am_heap a) s) (seg_so s) (seg_size s) \<and>
        {0..<int (length (truth (seg_sn (am_heap a) s)))} \<subseteq>
          sdu_bytes (am_rx_list r) (seg_sn (am_heap a) s) \<union> {seg_so s..<seg_so s + seg_size s}
      then am_events r @ [DeliverSdu (truth (seg_sn (am_heap a) s))] else am_events r)"
proof -
  let ?h = "am_heap a" and ?data = "seg_bytes (am_heap a) s" and ?sn = "seg_sn (am_heap a) s"
  let ?buf = "hdr @ ?data" and ?sz = "int (length (hdr @ seg_bytes (am_heap a) s))"
  have cfg: "am_config_ok a" and ok: "seg_ok ?h s" and shape: "seg_shape ?h s"
    using inv s by (simp_all add: am_sender_inv_def snd_inv_def segs_ok_def)
  have sn: "am_sn_ok a ?sn" using inv s by (auto simp: am_sender_inv_def snd_inv_def sns_ok_def in_flight_def am_sn_ok_def)
  have size: "int (length ?data) = seg_size s" by (rule length_seg_bytes [OF ok])
  have so: "seg_is_first s \<or> 0 < seg_so s \<and> seg_so s < 65536"
    using ok shape by (auto simp: seg_ok_def seg_shape_def NR_SDU_MAX_def)
  define r0 where "r0 = am_upd_common (ec_upd_stats (\<lambda>s. s\<lparr>st_rxpdu_pkts := st_rxpdu_pkts s + 1,
                st_rxpdu_bytes := st_rxpdu_bytes s + word_of_int ?sz\<rparr>)) r"
  have rx0: "am_rx_inv truth r0" "am_events r0 = am_events r" "am_rx_list r0 = am_rx_list r"
      "am_sn_field_length r0 = am_sn_field_length a" "am_sn_modulus r0 = am_sn_modulus r"
    using rx peer by (simp_all add: r0_def) (simp_all add: am_upd_common_def)
  have acc: "am_accepts r0 = am_accepts r"
    by (simp add: fun_eq_iff r0_def am_accepts_def am_upd_common_def am_sn_in_recv_window_def am_modulus_rx_def
        Let_def segment_already_received_def)
  obtain d d' where d: "nr_rlc_pdu_decoder_get_bits (nr_rlc_pdu_decoder_init ?buf) 1 = Inr (1, d)" "\<not> dec_error d"
      "am_read_data_header r0 d = Inr (Inr (of_bool p, seg_is_first s, seg_is_last s, ?sn, if seg_is_first s then 0 else seg_so s, d'))"
      "drop (nat (dec_byte d')) ?buf = ?data"
    using am_read_wire [OF cfg hdr rx0(4) sn so] by blast
  have so': "(if seg_is_first s then 0 else seg_so s) = seg_so s" using shape by (simp add: seg_shape_def)
  have run: "nr_rlc_entity_am_recv_pdu r ?buf =
      am_recv_segment r0 ?sz (of_bool p) ?sn (seg_so s) (seg_is_first s) (seg_is_last s) ?data"
    unfolding nr_rlc_entity_am_recv_pdu_def Let_def r0_def [symmetric] d(1) bindR_Inr prod.case if_not_P [OF d(2)] d(3)
    by (simp add: so' d(4) [simplified])
  have mod: "am_sn_modulus r0 = am_sn_modulus a"
    using cfg rx0(1,4) by (simp add: am_rx_inv_def am_config_ok_def)
  have sn0: "am_sn_ok r0 ?sn" using sn mod by (simp add: am_sn_ok_def)
  have part: "part_of (truth ?sn) (nr_rlc_new_pdu ?sn (seg_so s) (seg_is_first s) (seg_is_last s) ?data)"
    unfolding truth by (rule seg_part_of [OF ok shape data])
  have max: "int (length (truth ?sn)) \<le> NR_SDU_MAX" using shape by (simp add: truth seg_shape_def)
  from am_recv_segment_ok [OF rx0(1) sn0 part max, of ?sz "of_bool p"] show ?thesis
    unfolding run acc size rx0(2,3) .
qed

end
