(* ===== verification/Rlc_Am_Demo.thy ===== *)
theory Rlc_Am_Demo
  imports Rlc_Am_Link
begin

text \<open>
  Runs of the acknowledged mode entity on concrete input, evaluated by the kernel: the inputs of the
  witnesses and of the error properties of \<open>Rlc_Am_Props\<close>.
\<close>

text \<open>
  A fresh entity with sequence numbers of 12 bits, as \<open>new_nr_rlc_entity_am\<close> makes it; the average of
  the waiting times, which is off, is the only part that is not spelled out.
\<close>

definition am_fresh :: "time_average \<Rightarrow> nr_rlc_entity_am" where
  "am_fresh ta =
     \<lparr>am_common = \<lparr>ec_bstatus = \<lparr>bs_status_size = 0, bs_tx_size = 0, bs_retx_size = 0, bs_tx_bytes = 0,
                                bs_total_tx_bytes = 0\<rparr>,
                   ec_stats = stats_init NR_RLC_AM, ec_txsdu_avg_time_to_tx = ta, ec_avg_time_is_on = False,
                   ec_last_total_tx_bytes = 0, ec_heap = rlc_heap_empty, ec_events = []\<rparr>,
      am_t_poll_retransmit = 45, am_t_reassembly = 35, am_t_status_prohibit = 0, am_poll_pdu = -1,
      am_poll_byte = -1, am_max_retx_threshold = 8, am_sn_field_length = 12, am_sn_modulus = 4096,
      am_window_size = 2048, am_rx_next = 0, am_rx_next_status_trigger = 0, am_rx_highest_status = 0,
      am_rx_next_highest = 0, am_status_triggered = False, am_tx_next = 0, am_tx_next_ack = 0,
      am_poll_sn = 0, am_pdu_without_poll = 0, am_byte_without_poll = 0, am_force_poll = False,
      am_t_current = 0, am_t_log_buffer_full = 0, am_sdu_rejected = 0, am_t_poll_retransmit_start = 0,
      am_t_reassembly_start = 0, am_t_status_prohibit_start = 0, am_rx_list = [], am_rx_size = 0,
      am_rx_maxsize = 10000, am_tx_list = [], am_tx_end = None, am_tx_size = 0, am_tx_maxsize = 10000,
      am_wait_list = [], am_wait_end = None, am_retransmit_list = []\<rparr>"

lemma am_fresh: "\<exists>ta. new_nr_rlc_entity_am 10000 10000 45 35 0 (-1) (-1) 8 12 = Inr (am_fresh ta)"
  by (simp add: new_nr_rlc_entity_am_def entity_init_def time_average_new_def am_fresh_def)

lemma am_fresh_ok: "am_sender_inv (am_fresh ta)" "am_rx_inv truth (am_fresh ta)" "am_config_ok (am_fresh ta)"
proof -
  show "am_config_ok (am_fresh ta)" by (simp add: am_config_ok_def am_fresh_def)
  then show "am_sender_inv (am_fresh ta)"
    by (auto simp: am_fresh_def am_sender_inv_def snd_inv_def win_ok_def segs_ok_def heap_ok_def
        rlc_heap_empty_def segs_apart_def sns_ok_def)
  obtain ta' where ta': "new_nr_rlc_entity_am 10000 10000 45 35 0 (-1) (-1) 8 12 = Inr (am_fresh ta')" using am_fresh by blast
  have "am_rx_inv truth (am_fresh ta')" by (rule am_rx_inv_new [OF ta'])
  then show "am_rx_inv truth (am_fresh ta)" by (simp add: am_rx_inv_def am_config_ok_def am_sn_ok_def am_fresh_def)
qed

lemma am_fresh_run: "\<exists>ta. am_run (am_fresh ta)"
  using am_fresh am_run.created by blast

text \<open>The steps of a run as one function.\<close>

datatype am_op = SendSdu "byte list" int | MakePdu nat | GetPdu "byte list" | Tick u64

fun am_ops :: "am_op list \<Rightarrow> nr_rlc_entity_am \<Rightarrow> nr_rlc_entity_am result" where
  "am_ops [] e = Inr e"
| "am_ops (SendSdu b i # l) e = bindR (nr_rlc_entity_am_recv_sdu 0 e b i) (am_ops l)"
| "am_ops (MakePdu n # l) e = bindR (nr_rlc_entity_am_generate_pdu 0 e (replicate n 0)) (\<lambda>(k, b, e'). am_ops l e')"
| "am_ops (GetPdu b # l) e = bindR (nr_rlc_entity_am_recv_pdu e b) (am_ops l)"
| "am_ops (Tick t # l) e = bindR (nr_rlc_entity_am_set_time e t) (am_ops l)"

text \<open>The operations of a run are those of \<open>am_run\<close> when the STATUS PDUs stay within what was sent.\<close>

fun am_ops_ok :: "am_op list \<Rightarrow> nr_rlc_entity_am \<Rightarrow> bool" where
  "am_ops_ok [] e = True"
| "am_ops_ok (SendSdu b i # l) e \<longleftrightarrow> int (length b) \<le> NR_SDU_MAX \<and>
     (case nr_rlc_entity_am_recv_sdu 0 e b i of Inl c \<Rightarrow> True | Inr e' \<Rightarrow> am_ops_ok l e')"
| "am_ops_ok (MakePdu n # l) e \<longleftrightarrow>
     (case nr_rlc_entity_am_generate_pdu 0 e (replicate n 0) of Inl c \<Rightarrow> True | Inr (k, b, e') \<Rightarrow> am_ops_ok l e')"
| "am_ops_ok (GetPdu b # l) e \<longleftrightarrow>
     (case am_validate_control e b of Inr (Some (ack, nacks)) \<Rightarrow> status_within_sent e ack nacks | _ \<Rightarrow> True) \<and>
     (case nr_rlc_entity_am_recv_pdu e b of Inl c \<Rightarrow> True | Inr e' \<Rightarrow> am_ops_ok l e')"
| "am_ops_ok (Tick t # l) e \<longleftrightarrow> (case nr_rlc_entity_am_set_time e t of Inl c \<Rightarrow> True | Inr e' \<Rightarrow> am_ops_ok l e')"

lemma am_ops_run: "am_ops l e = Inr e' \<Longrightarrow> am_ops_ok l e \<Longrightarrow> am_run e \<Longrightarrow> am_run e'"
proof (induction l arbitrary: e)
  case Nil
  then show ?case by simp
next
  case (Cons x l)
  show ?case
  proof (cases x)
    case (SendSdu b i)
    with Cons.prems obtain e1 where "nr_rlc_entity_am_recv_sdu 0 e b i = Inr e1" "am_ops l e1 = Inr e'" "am_ops_ok l e1"
        "int (length b) \<le> NR_SDU_MAX" by (auto simp: bindR_eq_Inr)
    with Cons.IH Cons.prems(3) show ?thesis by (blast intro: am_run.recv_sdu)
  next
    case (MakePdu n)
    with Cons.prems obtain k b e1 where "nr_rlc_entity_am_generate_pdu 0 e (replicate n 0) = Inr (k, b, e1)"
        "am_ops l e1 = Inr e'" "am_ops_ok l e1" by (auto simp: bindR_eq_Inr)
    with Cons.IH Cons.prems(3) show ?thesis by (blast intro: am_run.generate)
  next
    case (GetPdu b)
    with Cons.prems obtain e1 where e1: "nr_rlc_entity_am_recv_pdu e b = Inr e1" "am_ops l e1 = Inr e'" "am_ops_ok l e1"
      by (auto simp: bindR_eq_Inr)
    have "am_run e1" by (rule am_run.recv_pdu [OF Cons.prems(3) e1(1)]) (use Cons.prems(2) GetPdu in auto)
    with Cons.IH e1 show ?thesis by blast
  next
    case (Tick t)
    with Cons.prems obtain e1 where "nr_rlc_entity_am_set_time e t = Inr e1" "am_ops l e1 = Inr e'" "am_ops_ok l e1"
      by (auto simp: bindR_eq_Inr)
    with Cons.IH Cons.prems(3) show ?thesis by (blast intro: am_run.set_time)
  qed
qed

text \<open>
  Two SDUs of which the second is in two parts; the same with everything sent; and a report that asks
  for the first SDU and the end of the second one.
\<close>

definition am_demo_queued :: "am_op list" where
  "am_demo_queued = [SendSdu [1, 2, 3, 4] 7, SendSdu [5, 6, 7, 8, 9, 10] 8, MakePdu 6, MakePdu 5]"

definition am_demo_sent :: "am_op list" where
  "am_demo_sent = am_demo_queued @ [MakePdu 7]"

definition am_demo_report :: "byte list" where
  "am_demo_report = [0x00, 0x02, 0x80, 0x00, 0x08, 0x00, 0x14, 0x00, 0x03, 0xff, 0xff]"

lemma am_demo_run:
  assumes "am_ops l (am_fresh ta) = Inr e" "am_ops_ok l (am_fresh ta)" "am_run (am_fresh ta)"
  shows "am_run e" "am_sender_inv e"
  using am_ops_run [OF assms] am_run_sender by blast+

end
