(* ===== verification/Rlc_Am_Props.thy ===== *)
theory Rlc_Am_Props
  imports Rlc_Am_Demo
begin

text \<open>
  The properties of the acknowledged mode: what is on the air is what the peer reads, complete SDUs
  are delivered once and as they were, the sending side never loses its lists, STATUS PDUs of any
  content are survived and those within what was sent move every segment to where it belongs.
\<close>

section \<open>The demonstration entities\<close>

lemma am_demo_queued_ex:
  "\<exists>e. am_ops am_demo_queued (am_fresh ta) = Inr e \<and> am_ops_ok am_demo_queued (am_fresh ta) \<and>
    length (am_wait_list e) = 2 \<and> length (am_tx_list e) = 1 \<and> \<not> status_to_report e \<and>
    am_tx_size e + 3 \<le> am_tx_maxsize e"
proof -
  have "case am_ops am_demo_queued (am_fresh ta) of Inr e \<Rightarrow> am_ops_ok am_demo_queued (am_fresh ta) \<and>
      length (am_wait_list e) = 2 \<and> length (am_tx_list e) = 1 \<and> \<not> status_to_report e \<and>
      am_tx_size e + 3 \<le> am_tx_maxsize e | _ \<Rightarrow> False"
    by code_simp
  then show ?thesis by (auto split: sum.splits)
qed

lemma am_demo_sent_ex:
  "\<exists>e a n. am_ops am_demo_sent (am_fresh ta) = Inr e \<and> am_ops_ok am_demo_sent (am_fresh ta) \<and>
    length (am_wait_list e) = 3 \<and> am_validate_control e am_demo_report = Inr (Some (a, n)) \<and> status_within_sent e a n"
proof -
  have "case am_ops am_demo_sent (am_fresh ta) of Inr e \<Rightarrow> am_ops_ok am_demo_sent (am_fresh ta) \<and>
      length (am_wait_list e) = 3 \<and>
      (case am_validate_control e am_demo_report of Inr (Some (a, n)) \<Rightarrow> status_within_sent e a n | _ \<Rightarrow> False) | _ \<Rightarrow> False"
    by code_simp
  then show ?thesis by (auto split: sum.splits option.splits)
qed

lemma am_demo_queued_inv: "\<exists>e ta. am_run (am_fresh ta) \<and> am_ops am_demo_queued (am_fresh ta) = Inr e \<and> am_run e \<and>
    am_sender_inv e \<and> length (am_wait_list e) = 2 \<and> length (am_tx_list e) = 1 \<and> \<not> status_to_report e"
  using am_fresh_run am_demo_queued_ex am_demo_run by metis

lemma am_demo_sent_inv: "\<exists>e ta a n. am_ops am_demo_sent (am_fresh ta) = Inr e \<and> am_run e \<and> am_sender_inv e \<and>
    length (am_wait_list e) = 3 \<and> am_validate_control e am_demo_report = Inr (Some (a, n)) \<and> status_within_sent e a n"
  using am_fresh_run am_demo_sent_ex am_demo_run by metis

lemma am_generate_ok:
  assumes "am_sender_inv e" "\<not> status_to_report e"
  shows "am_gen_ok e buffer (nr_rlc_entity_am_generate_pdu now e buffer)"
proof (cases "am_retransmit_list e")
  case Nil
  with assms(2) generate_tx_pdu_ok [OF assms(1)] show ?thesis by (simp add: nr_rlc_entity_am_generate_pdu_def)
next
  case (Cons s l)
  from generate_retx_pdu_ok [OF assms(1) Cons, of buffer] obtain n b e' where
    r: "generate_retx_pdu e buffer = Inr (n, b, e')" "am_gen_ok e buffer (Inr (n, b, e'))"
    by (auto simp: am_gen_ok_def)
  with assms(2) Cons generate_tx_pdu_ok [OF assms(1), of buffer now] show ?thesis
    by (cases "n = 0") (auto simp: nr_rlc_entity_am_generate_pdu_def am_gen_ok_def)
qed

section \<open>Properties\<close>

text \<open>
  Property C2. In every run of the operations (SDUs of at most \<open>NR_SDU_MAX\<close> bytes, grants of any
  size, PDUs, time, discard, re-establishment, reconfiguration) in which reconfigurations keep the
  length of the sequence number and every valid STATUS PDU stays within what was sent (its NACKs are
  in order and below the ACK, and the ACK does not pass an SDU with an unsent part), the sending side
  stays sound: the segments of the three lists are disjoint parts of live SDUs, the flags tell the
  first and the last part, the tail pointers are right, SDUs in flight have different sequence numbers
  inside the transmit window of at most \<open>window_size\<close> numbers, and the lists are in order. Both
  conditions are needed and the receiver of this code does not keep the second one: see
  \<open>am_reconfigure_keeps_modulus\<close> and \<open>am_tail_never_acknowledged\<close>.
\<close>

theorem am_entity_run:
  assumes "am_run e"
  shows "am_sender_inv e"
  using assms by (rule am_run_sender)

theorem am_entity_run_witness:
  "\<exists>e ta. am_ops am_demo_queued (am_fresh ta) = Inr e \<and> length (am_wait_list e) = 2 \<and> am_sender_inv e"
proof -
  obtain e ta where e: "am_ops am_demo_queued (am_fresh ta) = Inr e" "am_run e" "length (am_wait_list e) = 2"
    using am_demo_queued_inv by blast
  from am_entity_run [OF e(2)] e show ?thesis by blast
qed

text \<open>
  Property C32. Making a data PDU is safe for a grant of any size: the PDU fits into the grant, it is
  the header and the bytes of one segment that waits for its acknowledgement from now on, splitting a
  segment loses no byte of any SDU, and when nothing fits nothing changes.
\<close>

theorem am_pdu_generation:
  assumes "am_sender_inv e" "\<not> status_to_report e"
  shows "\<exists>n b e'. nr_rlc_entity_am_generate_pdu now e buffer = Inr (n, b, e') \<and> am_sender_inv e' \<and>
    length b = length buffer \<and> 0 \<le> n \<and> n \<le> int (length buffer) \<and> am_cover e' = am_cover e \<and>
    (\<forall>s. sdu_data (sdu_of (am_heap e') s) = sdu_data (sdu_of (am_heap e) s)) \<and>
    (if n = 0 then e' = e \<and> b = buffer
     else \<exists>s \<in> set (am_wait_list e'). \<exists>p hdr. am_wire_header e' s p hdr \<and>
       int (length hdr) = am_compute_pdu_header_size e' s \<and> take (nat n) b = hdr @ seg_bytes (am_heap e') s)"
  using am_generate_ok [OF assms, of buffer now] unfolding am_gen_ok_def am_same_data_def am_sent_def by blast

theorem am_pdu_generation_witness:
  "\<exists>e ta n b e'. am_ops am_demo_queued (am_fresh ta) = Inr e \<and>
    nr_rlc_entity_am_generate_pdu 0 e [0, 0, 0, 0, 0] = Inr (n, b, e') \<and> n \<le> 5 \<and> am_cover e' = am_cover e"
proof -
  obtain e ta where e: "am_ops am_demo_queued (am_fresh ta) = Inr e" "am_sender_inv e" "\<not> status_to_report e"
    using am_demo_queued_inv by blast
  from am_pdu_generation [OF e(2,3), of 0 "[0, 0, 0, 0, 0]"] e(1) show ?thesis by auto
qed

text \<open>
  Property C1. From one end of the radio link to the other: a data PDU that the sender makes is read
  by its peer as exactly the segment that was sent. The receiver never crashes on it, it keeps its
  list sound, and it delivers an SDU only when this segment completes it, once and byte for byte as
  the upper layer of the sender gave it. \<open>truth\<close> names the SDU of each sequence number.
\<close>

theorem am_air_link:
  assumes "am_sender_inv a" "\<not> status_to_report a" "nr_rlc_entity_am_generate_pdu now a buffer = Inr (n, b, a')" "n \<noteq> 0"
    and "am_rx_inv truth r" "am_sn_field_length r = am_sn_field_length a'"
    and "\<forall>s \<in> set (am_wait_list a'). sdu_data (sdu_of (am_heap a') s) \<noteq> [] \<and>
      truth (seg_sn (am_heap a') s) = sdu_data (sdu_of (am_heap a') s)"
  shows "\<exists>s \<in> set (am_wait_list a'). \<exists>r'. nr_rlc_entity_am_recv_pdu r (take (nat n) b) = Inr r' \<and> am_rx_inv truth r' \<and>
    am_events r' = (if am_accepts r (seg_sn (am_heap a') s) (seg_so s) (seg_size s) \<and>
        {0..<int (length (truth (seg_sn (am_heap a') s)))} \<subseteq>
          sdu_bytes (am_rx_list r) (seg_sn (am_heap a') s) \<union> {seg_so s..<seg_so s + seg_size s}
      then am_events r @ [DeliverSdu (truth (seg_sn (am_heap a') s))] else am_events r)"
proof -
  have inv: "am_sender_inv a'" and "am_sent a' (take (nat n) b)"
    using am_generate_ok [OF assms(1,2), of buffer now] assms(3,4) by (auto simp: am_gen_ok_def)
  then obtain s p hdr where s: "s \<in> set (am_wait_list a')" "am_wire_header a' s p hdr"
      "take (nat n) b = hdr @ seg_bytes (am_heap a') s" unfolding am_sent_def by blast
  have shape: "seg_ok (am_heap a') s" "seg_shape (am_heap a') s"
    using inv s(1) by (simp_all add: am_sender_inv_def snd_inv_def segs_ok_def)
  have "seg_bytes (am_heap a') s \<noteq> []"
    using length_seg_bytes [OF shape(1)] shape(2) assms(7) s(1) by (auto simp: seg_shape_def)
  moreover have "truth (seg_sn (am_heap a') s) = sdu_data (sdu_of (am_heap a') s)" using assms(7) s(1) by blast
  ultimately show ?thesis
    unfolding s(3) using am_deliver_wire [OF inv s(1,2) assms(5,6)] by (intro bexI [OF _ s(1)]) blast
qed

theorem am_air_link_witness:
  "\<exists>a ta n b a' r'. am_ops [SendSdu [1, 2, 3, 4] 7] (am_fresh ta) = Inr a \<and>
    nr_rlc_entity_am_generate_pdu 0 a [0, 0, 0, 0, 0, 0, 0] = Inr (n, b, a') \<and>
    nr_rlc_entity_am_recv_pdu (am_fresh ta) (take (nat n) b) = Inr r' \<and> am_events r' = [DeliverSdu [1, 2, 3, 4]]"
proof -
  obtain ta where ta: "am_run (am_fresh ta)" using am_fresh_run by blast
  let ?truth = "\<lambda>sn :: int. [1, 2, 3, 4 :: byte]" and ?l = "[SendSdu [1, 2, 3, 4] 7]"
  have run: "case am_ops ?l (am_fresh ta) of Inr a \<Rightarrow> am_ops_ok ?l (am_fresh ta) \<and> \<not> status_to_report a \<and>
      (case nr_rlc_entity_am_generate_pdu 0 a [0, 0, 0, 0, 0, 0, 0] of
        Inr (n, b, a') \<Rightarrow> n = 6 \<and> am_sn_field_length a' = 12 \<and> (\<forall>s \<in> set (am_wait_list a').
          sdu_data (sdu_of (am_heap a') s) = [1, 2, 3, 4] \<and> seg_sn (am_heap a') s = 0 \<and> seg_so s = 0 \<and> seg_size s = 4)
      | _ \<Rightarrow> False) | _ \<Rightarrow> False" by code_simp
  then obtain a where a: "am_ops ?l (am_fresh ta) = Inr a" "am_ops_ok ?l (am_fresh ta)" "\<not> status_to_report a"
    "case nr_rlc_entity_am_generate_pdu 0 a [0, 0, 0, 0, 0, 0, 0] of
        Inr (n, b, a') \<Rightarrow> n = 6 \<and> am_sn_field_length a' = 12 \<and> (\<forall>s \<in> set (am_wait_list a').
          sdu_data (sdu_of (am_heap a') s) = [1, 2, 3, 4] \<and> seg_sn (am_heap a') s = 0 \<and> seg_so s = 0 \<and> seg_size s = 4)
      | _ \<Rightarrow> False"
    by (cases "am_ops ?l (am_fresh ta)") auto
  then obtain n b a' where g: "nr_rlc_entity_am_generate_pdu 0 a [0, 0, 0, 0, 0, 0, 0] = Inr (n, b, a')" "n \<noteq> 0"
      "am_sn_field_length a' = 12" "\<forall>s \<in> set (am_wait_list a').
          sdu_data (sdu_of (am_heap a') s) = [1, 2, 3, 4] \<and> seg_sn (am_heap a') s = 0 \<and> seg_so s = 0 \<and> seg_size s = 4"
    by (auto split: sum.splits)
  have acc: "am_accepts (am_fresh ta) 0 0 4 \<and> am_rx_list (am_fresh ta) = [] \<and> am_events (am_fresh ta) = [] \<and>
      am_sn_field_length (am_fresh ta) = 12" by code_simp
  have inv: "am_sender_inv a" by (rule am_demo_run(2) [OF a(1,2) ta])
  from am_air_link [OF inv a(3) g(1,2) am_fresh_ok(2) [of ?truth ta]] g acc
  have "\<exists>r'. nr_rlc_entity_am_recv_pdu (am_fresh ta) (take (nat n) b) = Inr r' \<and> am_events r' = [DeliverSdu [1, 2, 3, 4]]"
    by auto
  with a(1) g(1) show ?thesis by blast
qed


text \<open>
  Property C33. A segment of an SDU at the receiver, in any order, repeated or overlapping: no crash,
  the list stays sound, and the SDU is delivered exactly when this segment brings the last missing
  bytes, and then it is the SDU that was sent. \<open>truth\<close> names the SDU of each sequence number.
\<close>

theorem am_receiver_delivers:
  assumes "am_rx_inv truth e" "am_sn_ok e sn" "part_of (truth sn) (nr_rlc_new_pdu sn so f la data)"
    and "int (length (truth sn)) \<le> NR_SDU_MAX"
  shows "\<exists>e'. am_recv_segment e sz p sn so f la data = Inr e' \<and> am_rx_inv truth e' \<and>
    am_events e' = (if am_accepts e sn so (int (length data)) \<and>
        {0..<int (length (truth sn))} \<subseteq> sdu_bytes (am_rx_list e) sn \<union> {so..<so + int (length data)}
      then am_events e @ [DeliverSdu (truth sn)] else am_events e)"
  using assms by (rule am_recv_segment_ok)

theorem am_receiver_delivers_witness:
  "\<forall>ta. \<exists>e1 e2. am_recv_segment (am_fresh ta) 6 0 0 2 False True [9, 8] = Inr e1 \<and> am_events e1 = [] \<and>
    am_recv_segment e1 6 0 0 0 True False [7, 6, 9] = Inr e2 \<and> am_rx_inv (\<lambda>sn. [7, 6, 9, 8]) e2"
proof
  fix ta
  let ?t = "\<lambda>sn :: int. [7, 6, 9, 8 :: byte]"
  have sn: "am_sn_ok (am_fresh ta) 0" by (simp add: am_sn_ok_def am_fresh_def)
  have "part_of (?t 0) (nr_rlc_new_pdu 0 2 False True [9, 8])" "part_of (?t 0) (nr_rlc_new_pdu 0 0 True False [7, 6, 9])"
    by (simp_all add: part_of_def nr_rlc_new_pdu_def)
  note part = this
  have max: "int (length (?t 0)) \<le> NR_SDU_MAX" by (simp add: NR_SDU_MAX_def)
  have mt: "am_rx_list (am_fresh ta) = []" "am_events (am_fresh ta) = []" by (simp_all add: am_fresh_def)
  obtain e1 where e1: "am_recv_segment (am_fresh ta) 6 0 0 2 False True [9, 8] = Inr e1" "am_rx_inv ?t e1" "am_events e1 = []"
    using am_receiver_delivers [OF am_fresh_ok(2) sn part(1) max, where sz = 6 and p = 0] by (auto simp: mt)
  have sn1: "am_sn_ok e1 0" using e1(2) am_rx_inv_config by (fastforce simp: am_sn_ok_def)
  from am_receiver_delivers [OF e1(2) sn1 part(2) max, where sz = 6 and p = 0] e1(1,3)
  show "\<exists>e1 e2. am_recv_segment (am_fresh ta) 6 0 0 2 False True [9, 8] = Inr e1 \<and> am_events e1 = [] \<and>
    am_recv_segment e1 6 0 0 0 True False [7, 6, 9] = Inr e2 \<and> am_rx_inv ?t e2" by blast
qed

text \<open>
  Property C37. Duplicate detection is exact: the loop over the received PDUs finds a segment received
  already if and only if every byte of it has been received, however the received PDUs overlap.
\<close>

theorem am_duplicate_iff:
  assumes "am_rx_inv truth e"
  shows "segment_already_received e sn so n \<longleftrightarrow> {so..<so + n} \<subseteq> sdu_bytes (am_rx_list e) sn"
proof -
  have "sorted_wrt (\<lambda>p q. pdu_sn p = sn \<and> pdu_sn q = sn \<longrightarrow> pdu_so p \<le> pdu_so q) (am_rx_list e)"
    by (rule rx_sorted_so [of truth "am_sn_modulus e" "am_window_size e" "am_rx_next e"])
      (use assms in \<open>simp add: am_rx_inv_def rx_list_ok_def\<close>)
  then show ?thesis
    unfolding segment_already_received_def using segment_received_sound segment_received_complete by blast
qed

theorem am_duplicate_iff_witness:
  "\<forall>ta. segment_already_received (am_fresh ta) 0 0 3 \<longleftrightarrow> {0..<0 + 3} \<subseteq> sdu_bytes (am_rx_list (am_fresh ta)) 0"
  by (rule allI, rule am_duplicate_iff [OF am_fresh_ok(2) [of "\<lambda>sn. [1]"]])

text \<open>
  Property C34. A STATUS PDU of any bytes: its processing ends, touches no freed SDU, follows no NULL
  pointer, and keeps the lists sound and their tail pointers right.
\<close>

theorem am_status_any_bytes:
  assumes "am_sender_inv e"
  shows "\<exists>e'. process_control_pdu e buffer = Inr e' \<and> am_tx_inv e'"
  using am_sender_ctrl [OF assms] process_control_ok by blast

theorem am_status_any_bytes_witness:
  "\<exists>e ta e'. am_ops am_demo_queued (am_fresh ta) = Inr e \<and>
    process_control_pdu e [0x00, 0x00, 0x80, 0x00, 0x08, 0x00, 0x07, 0xff, 0x00, 0x12] = Inr e' \<and> am_tx_inv e'"
proof -
  obtain e ta where e: "am_ops am_demo_queued (am_fresh ta) = Inr e" "am_sender_inv e" using am_demo_queued_inv by blast
  from am_status_any_bytes [OF e(2)] e(1) show ?thesis by blast
qed

text \<open>
  Property C3. A STATUS PDU whose NACKs are in order and below the ACK, and whose ACK does not pass
  an SDU with an unsent part: a segment of the wait list stays there exactly when its
  SDU is not below the ACK; a segment is scheduled for retransmission exactly when a NACK overlaps it
  or it was scheduled already and is not below the ACK; everything else is acknowledged and freed.
  The transmit list stays, the window moves forward to at most the ACK, and no SDU that is still
  referred to changes.
\<close>

theorem am_status_classified:
  assumes "am_sender_inv e" "am_validate_control e buffer = Inr (Some (ack, nacks))" "status_within_sent e ack nacks"
  shows "\<exists>e'. process_control_pdu e buffer = Inr e' \<and> am_sender_inv e' \<and> am_tx_list e' = am_tx_list e \<and>
    am_tx_next e' = am_tx_next e \<and>
    am_wait_list e' = filter (\<lambda>s. am_sn_compare_tx e (seg_sn (am_heap e) s) ack \<ge> 0) (am_wait_list e) \<and>
    mset (am_retransmit_list e') =
      filter_mset (\<lambda>s. \<exists>p \<in> set (status_pieces e nacks). nack_hits (seg_sn (am_heap e)) p s)
        (mset (am_wait_list e @ am_retransmit_list e)) +
      filter_mset (\<lambda>s. am_sn_compare_tx e (seg_sn (am_heap e) s) ack \<ge> 0) (mset (am_retransmit_list e)) \<and>
    am_modulus_tx e (am_tx_next_ack e') \<le> am_modulus_tx e ack \<and>
    (\<forall>s \<in> set (am_tx_list e' @ am_wait_list e' @ am_retransmit_list e'). same_sdu (sdu_of (am_heap e) s) (sdu_of (am_heap e') s))"
  using assms by (rule process_control_sender)

theorem am_status_classified_witness:
  "\<exists>e ta e'. am_ops am_demo_sent (am_fresh ta) = Inr e \<and> length (am_wait_list e) = 3 \<and>
    process_control_pdu e am_demo_report = Inr e' \<and> am_sender_inv e'"
proof -
  obtain e ta a n where e: "am_ops am_demo_sent (am_fresh ta) = Inr e" "am_sender_inv e" "length (am_wait_list e) = 3"
      "am_validate_control e am_demo_report = Inr (Some (a, n))" "status_within_sent e a n" using am_demo_sent_inv by blast
  from am_status_classified [OF e(2,4,5)] e(1,3) show ?thesis by blast
qed

text \<open>
  Property C38. The two loops of the validation over the bytes of a STATUS PDU come to an end for any
  bytes, for both lengths of the sequence number: the number of bytes bounds the number of NACKs.
\<close>

theorem am_status_validation_terminates:
  assumes "am_config_ok e"
  shows "\<exists>r. am_validate_control e buffer = Inr r"
  using assms am_validate_control_total [of e buffer] by (auto simp: am_config_ok_def)

theorem am_status_validation_terminates_witness:
  "\<forall>ta. \<exists>r. am_validate_control (am_fresh ta) [0x00, 0x00, 0x80, 0x00, 0x08] = Inr r"
  by (rule allI, rule am_status_validation_terminates [OF am_fresh_ok(3)])

text \<open>
  An SDU from the upper layer is queued whole behind the others, or refused without any
  change of the lists when the transmit buffer has no room for it.
\<close>

theorem am_sdu_queued:
  assumes "am_sender_inv e" "int (length buffer) \<le> NR_SDU_MAX"
  shows "\<exists>e'. nr_rlc_entity_am_recv_sdu now e buffer i = Inr e' \<and> am_sender_inv e' \<and>
    (if am_tx_size e + int (length buffer) > am_tx_maxsize e
     then am_tx_list e' = am_tx_list e \<and> am_tx_size e' = am_tx_size e \<and> am_heap e' = am_heap e
     else am_tx_size e' = am_tx_size e + int (length buffer) \<and>
       (\<exists>s. am_tx_list e' = am_tx_list e @ [s] \<and> seg_bytes (am_heap e') s = buffer \<and> seg_is_first s \<and> seg_is_last s))"
  using assms by (rule am_recv_sdu_ok)

theorem am_sdu_queued_witness:
  "\<forall>ta. \<exists>e' s. nr_rlc_entity_am_recv_sdu 5 (am_fresh ta) [1, 2, 3] 9 = Inr e' \<and> am_sender_inv e' \<and> am_tx_list e' = [s] \<and>
    seg_bytes (am_heap e') s = [1, 2, 3]"
proof
  fix ta
  have "am_tx_list (am_fresh ta) = []" "am_tx_size (am_fresh ta) = 0" "am_tx_maxsize (am_fresh ta) = 10000"
    by (simp_all add: am_fresh_def)
  with am_sdu_queued [OF am_fresh_ok(1) [of ta], where buffer = "[1, 2, 3]" and now = 5 and i = 9]
  show "\<exists>e' s. nr_rlc_entity_am_recv_sdu 5 (am_fresh ta) [1, 2, 3] 9 = Inr e' \<and> am_sender_inv e' \<and> am_tx_list e' = [s] \<and>
    seg_bytes (am_heap e') s = [1, 2, 3]" by (auto simp: NR_SDU_MAX_def)
qed

text \<open>
  Expiry of the poll retransmission timer while something waits for its acknowledgement:
  no crash, the sending side stays sound and no byte gets lost between the lists.
\<close>

theorem am_poll_expiry:
  assumes "am_sender_inv e" "am_wait_list e \<noteq> []"
  shows "\<exists>e'. check_t_poll_retransmit e = Inr e' \<and> am_sender_inv e' \<and> am_cover e' = am_cover e"
  using assms by (rule check_t_poll_retransmit_ok)

theorem am_poll_expiry_witness:
  "\<exists>e ta e'. am_ops am_demo_sent (am_fresh ta) = Inr e \<and> check_t_poll_retransmit e = Inr e' \<and> am_cover e' = am_cover e"
proof -
  obtain e ta where e: "am_ops am_demo_sent (am_fresh ta) = Inr e" "am_sender_inv e" "length (am_wait_list e) = 3"
    using am_demo_sent_inv by blast
  then have "am_wait_list e \<noteq> []" by auto
  from am_poll_expiry [OF e(2) this] e(1) show ?thesis by blast
qed

text \<open>
  Property C39. The transmit window: in every run (as above) the numbers that are outstanding, from
  \<open>tx_next_ack\<close> up to \<open>tx_next\<close>, are never more than \<open>window_size\<close>, and \<open>is_window_stalling\<close>, which
  looks at \<open>tx_next\<close> alone, answers yes exactly when they are \<open>window_size\<close>.
\<close>

theorem am_window_bound:
  assumes "am_run e"
  shows "(is_window_stalling e \<longleftrightarrow> am_modulus_tx e (am_tx_next e) = am_window_size e) \<and>
    am_modulus_tx e (am_tx_next e) \<le> am_window_size e"
  using window_stalling_iff [OF am_run_sender [OF assms]] am_run_sender [OF assms] by (simp_all add: am_sender_inv_def snd_inv_def win_ok_def am_modulus_tx_dist)

theorem am_window_bound_witness:
  "\<exists>e ta. am_ops am_demo_sent (am_fresh ta) = Inr e \<and> am_modulus_tx e (am_tx_next e) \<le> am_window_size e"
proof -
  obtain e ta where e: "am_ops am_demo_sent (am_fresh ta) = Inr e" "am_run e" using am_demo_sent_inv by blast
  from am_window_bound [OF e(2)] e(1) show ?thesis by blast
qed

text \<open>
  Discarding an SDU takes at most one segment off the transmit list, that of an SDU of
  this upper layer id of which nothing has been sent, and nothing else.
\<close>

theorem am_discard_unsent:
  assumes "am_sender_inv e"
  shows "\<exists>e'. nr_rlc_entity_am_discard_sdu e i = Inr e' \<and> am_sender_inv e' \<and>
    am_wait_list e' = am_wait_list e \<and> am_retransmit_list e' = am_retransmit_list e \<and>
    (am_tx_list e' = am_tx_list e \<or> (\<exists>a s b. am_tx_list e = a @ s # b \<and> am_tx_list e' = a @ b \<and> seg_is_first s \<and>
       seg_is_last s \<and> sdu_upper_layer_id (sdu_of (am_heap e) s) = i))"
  using assms by (rule am_discard_sdu_ok)

theorem am_discard_unsent_witness:
  "\<exists>e ta e'. am_ops am_demo_queued (am_fresh ta) = Inr e \<and> nr_rlc_entity_am_discard_sdu e 8 = Inr e' \<and> am_sender_inv e'"
proof -
  obtain e ta where e: "am_ops am_demo_queued (am_fresh ta) = Inr e" "am_sender_inv e" using am_demo_queued_inv by blast
  from am_discard_unsent [OF e(2)] e(1) show ?thesis by blast
qed

end
