(* ===== verification/Rlc_Am_Errors.thy ===== *)
theory Rlc_Am_Errors
  imports Rlc_Am_Demo
begin

text \<open>
  Where the acknowledged mode entity does not do what it means to: runs that end in undefined
  behaviour or lose data, each evaluated step by step.
\<close>

definition crashes :: "crash \<Rightarrow> 'a result \<Rightarrow> bool" where
  "crashes c r = (case r of Inl c' \<Rightarrow> c' = c | Inr x \<Rightarrow> False)"

lemma crashes_iff [simp]: "crashes c r \<longleftrightarrow> r = Inl c"
  by (cases r) (auto simp: crashes_def)

text \<open>
  Two SDUs; a report that asks for the first, which is sent again with the poll bit; a report that
  acknowledges the first alone.
\<close>

definition am_crash_ops :: "am_op list" where
  "am_crash_ops = [Tick 1, SendSdu [1, 2, 3] 7, SendSdu [4, 5, 6] 8, MakePdu 5, MakePdu 5,
     GetPdu [0x00, 0x02, 0x80, 0x00, 0x00], MakePdu 5, GetPdu [0x00, 0x01, 0x00]]"

text \<open>
  An SDU of 20 bytes in two parts; a report that asks for all of it; a report whose NACK carries the
  sequence number of its ACK and asks for the bytes from 10.
\<close>

definition am_loss_ops :: "am_op list" where
  "am_loss_ops = [SendSdu (replicate 20 1) 7, MakePdu 12, MakePdu 14, GetPdu [0x00, 0x01, 0x80, 0x00, 0x00],
     GetPdu [0x00, 0x00, 0x80, 0x00, 0x04, 0x00, 0x0a, 0xff, 0xff]]"

text \<open>
  Three segments of SDU 0 at the receiver: bytes 0 to 9, bytes 100 to 109, and the last bytes 10 to 14.
\<close>

definition am_gap_ops :: "am_op list" where
  "am_gap_ops = [GetPdu ([0x90, 0x00] @ replicate 10 1), GetPdu ([0xb0, 0x00, 0x00, 0x64] @ replicate 10 2)]"

definition am_gap_last :: "byte list" where
  "am_gap_last = [0xa0, 0x00, 0x00, 0x0a] @ replicate 5 3"

text \<open>
  A sender that polls with every PDU, its grants, and an exchange with a receiver of the same code: an
  SDU of 20 bytes goes out in parts, of which the first is lost. The receiver asks for it when its
  timer expires and acknowledges the SDU that is not finished (ACK 1, NACKs for bytes 0 to 9 and from
  16 on); the part is sent again, two more bytes are sent, and the receiver reports again (ACK 1, NACK
  from 18 on). Then the last two bytes are sent.
\<close>

definition am_polling :: "time_average \<Rightarrow> nr_rlc_entity_am" where
  "am_polling ta = nr_rlc_entity_am_reconfigure (am_fresh ta) 45 35 0 1 (-1) 8 None"

definition am_grant :: "nat \<Rightarrow> nr_rlc_entity_am \<Rightarrow> (byte list \<times> nr_rlc_entity_am) result" where
  "am_grant n e = bindR (nr_rlc_entity_am_generate_pdu 0 e (replicate n 0)) (\<lambda>(k, b, e'). Inr (take (nat k) b, e'))"

definition am_tail_exchange :: "time_average \<Rightarrow> (nr_rlc_entity_am \<times> byte list \<times> byte list) result" where
  "am_tail_exchange ta =
     bindR (nr_rlc_entity_am_recv_sdu 0 (am_polling ta) (replicate 20 1) 7) (\<lambda>a0.
     bindR (am_grant 12 a0) (\<lambda>(lost, a1).
     bindR (am_grant 10 a1) (\<lambda>(pdu1, a2).
     bindR (am_ops [Tick 1, GetPdu pdu1, Tick 40] (am_fresh ta)) (\<lambda>r1.
     bindR (am_grant 20 r1) (\<lambda>(status1, r2).
     bindR (nr_rlc_entity_am_recv_pdu a2 status1) (\<lambda>a3.
     bindR (am_grant 12 a3) (\<lambda>(pdu2, a4).
     bindR (am_grant 6 a4) (\<lambda>(pdu3, a5).
     bindR (am_ops [GetPdu pdu2, GetPdu pdu3, Tick 41] r2) (\<lambda>r3.
     bindR (am_grant 20 r3) (\<lambda>(status2, r4).
     bindR (nr_rlc_entity_am_recv_pdu a5 status2) (\<lambda>a6.
     bindR (am_grant 20 a6) (\<lambda>(pdu4, a7).
     Inr (a7, status1, status2)))))))))))))"

section \<open>Segments outside of the window\<close>

text \<open>
  A segment that waits for its acknowledgement although its sequence number is not one of those between
  \<open>tx_next_ack\<close> and \<open>tx_next\<close>; all numbers are numbers.
\<close>

definition am_numbers_ok :: "nr_rlc_entity_am \<Rightarrow> bool" where
  "am_numbers_ok e \<longleftrightarrow> am_sn_ok e (am_tx_next_ack e) \<and> am_sn_ok e (am_tx_next e) \<and>
     (\<forall>s \<in> set (am_wait_list e @ am_retransmit_list e). am_sn_ok e (seg_sn (am_heap e) s))"

definition am_outside_window :: "nr_rlc_entity_am \<Rightarrow> nr_rlc_sdu_segment \<Rightarrow> bool" where
  "am_outside_window e s \<longleftrightarrow> am_modulus_tx e (am_tx_next e) \<le> am_modulus_tx e (seg_sn (am_heap e) s)"

text \<open>The walk frees no segment that is not below the ACK.\<close>

fun walk_has :: "nr_rlc_sdu_segment \<Rightarrow> walk \<Rightarrow> bool" where
  "walk_has s (k, cw, rest, nr, cr) \<longleftrightarrow> s \<in> set (k @ cw @ rest @ nr)"

lemma walk_step_has:
  assumes "\<not> cmp (sn0 s) ack < 0" "walk_ok W" "walk_has s W"
  shows "walk_has s (snd (walk_step sn0 cmp ack nack W))"
proof (cases W)
  case (fields k cw rest nr cr)
  with assms show ?thesis
    by (cases cw; cases cr) (auto simp: walk_step.simps Let_def)
qed

lemma walk_piece_has:
  "\<not> cmp (sn0 s) ack < 0 \<Longrightarrow> walk_ok W \<Longrightarrow> walk_has s W \<Longrightarrow>
    walk_ok (walk_piece sn0 cmp ack nack W) \<and> walk_has s (walk_piece sn0 cmp ack nack W)"
proof (induction sn0 cmp ack nack W rule: walk_piece.induct)
  case (1 sn0 cmp ack nack W)
  have s: "walk_ok (snd (walk_step sn0 cmp ack nack W))" "walk_has s (snd (walk_step sn0 cmp ack nack W))"
    using walk_step_ok [OF "1.prems"(2)] walk_step_has [of cmp sn0 s ack W nack, OF "1.prems"] by blast+
  obtain j W' where j: "walk_step sn0 cmp ack nack W = (j, W')" by (cases "walk_step sn0 cmp ack nack W")
  show ?case
    using s "1.IH" [OF j [symmetric]] "1.prems"(1) by (subst (1 2) walk_piece.simps) (auto simp: j split: ctrl_jump.split)
qed

lemma walk_result_has:
  assumes "\<not> cmp (sn0 s) ack < 0" "s \<in> set wait" "walk_result sn0 cmp ack ps wait retx = (w, r)"
  shows "s \<in> set (w @ r)"
proof -
  have keep: "walk_ok W \<Longrightarrow> walk_has s W \<Longrightarrow> walk_has s (walk_pieces sn0 cmp ack ps W)" for W
    unfolding walk_pieces_def
  proof (induction ps arbitrary: W)
    case (Cons p ps)
    then show ?case using walk_piece_has [of cmp sn0 s ack W p] assms(1) by simp
  qed simp
  have dw: "s \<in> set l \<Longrightarrow> s \<in> set (dropWhile (\<lambda>w. cmp (sn0 w) ack < 0) l)" for l
    using assms(1) by (induction l) auto
  obtain k cw rest nr cr where W: "walk_pieces sn0 cmp ack ps ([], wait, [], [], retx) = (k, cw, rest, nr, cr)"
    using prod_cases5 by blast
  have "walk_has s (k, cw, rest, nr, cr)" using keep [of "([], wait, [], [], retx)"] assms(2) W by simp
  with assms(3) dw [of cw] show ?thesis by (auto simp: walk_result_def W)
qed

text \<open>Nothing appears in the lists that was in none of them.\<close>

fun walk_segs :: "walk \<Rightarrow> nr_rlc_sdu_segment set" where
  "walk_segs (k, cw, rest, nr, cr) = set (k @ cw @ rest @ nr @ cr)"

lemma walk_step_segs: "walk_segs (snd (walk_step sn0 cmp ack nack W)) \<subseteq> walk_segs W"
proof (cases W)
  case (fields k cw rest nr cr)
  then show ?thesis by (cases cw; cases cr) (auto simp: walk_step.simps Let_def)
qed

lemma walk_piece_segs: "walk_segs (walk_piece sn0 cmp ack nack W) \<subseteq> walk_segs W"
proof (induction sn0 cmp ack nack W rule: walk_piece.induct)
  case (1 sn0 cmp ack nack W)
  obtain j W' where j: "walk_step sn0 cmp ack nack W = (j, W')" by (cases "walk_step sn0 cmp ack nack W")
  show ?case
    using walk_step_segs [of sn0 cmp ack nack W] "1.IH" [OF j [symmetric]]
    by (subst walk_piece.simps) (auto simp: j split: ctrl_jump.split)
qed

lemma walk_result_segs:
  assumes "walk_result sn0 cmp ack ps wait retx = (w, r)"
  shows "set (w @ r) \<subseteq> set (wait @ retx)"
proof -
  have "walk_segs (walk_pieces sn0 cmp ack ps W) \<subseteq> walk_segs W" for W
    unfolding walk_pieces_def
  proof (induction ps arbitrary: W)
    case (Cons p ps)
    then show ?case using walk_piece_segs [of sn0 cmp ack p W] by fastforce
  qed simp
  from this [of "([], wait, [], [], retx)"] assms show ?thesis
    using set_dropWhileD [where P = "\<lambda>w. cmp (sn0 w) ack < 0"]
    by (fastforce simp: walk_result_def split: prod.splits)
qed

section \<open>Properties\<close>

text \<open>
  Property C40. A segment that waits with a sequence number outside of the window is never
  acknowledged: whatever bytes a STATUS PDU has, the segment is afterwards still in the wait list or
  scheduled for retransmission, still outside of the window, and all that this rests on still holds.
  The entity gets there when the peer acknowledges an SDU of which a part is still to be sent, which
  the receiver of this code does (the witness): the last part is then sent with a sequence number
  behind \<open>tx_next_ack\<close>.
\<close>

theorem am_tail_never_acknowledged:
  assumes "am_config_ok e" "am_tx_inv e" "am_numbers_ok e" "s \<in> set (am_wait_list e)" "am_outside_window e s"
  shows "\<exists>e'. process_control_pdu e buffer = Inr e' \<and> s \<in> set (am_wait_list e' @ am_retransmit_list e') \<and>
    am_outside_window e' s \<and> am_config_ok e' \<and> am_tx_inv e' \<and> am_numbers_ok e'"
proof -
  define e0 where "e0 = am_upd_common (ec_upd_stats (\<lambda>s. s\<lparr>st_prev_txsdu_bytes := st_txsdu_bytes s\<rparr>)) e"
  have same: "am_frame e e0" "am_heap e0 = am_heap e" "am_window_size e0 = am_window_size e"
    unfolding e0_def by (simp add: am_frame_upd, simp, simp add: am_upd_common_def)
  note sel0 = am_frame_sel [OF same(1)]
  have inv0: "am_tx_inv e0" using assms(2) by (simp add: e0_def)
  have ok0: "am_config_ok e0" "am_numbers_ok e0" "s \<in> set (am_wait_list e0)" "am_outside_window e0 s"
    using assms by (simp_all add: am_config_ok_def am_numbers_ok_def am_outside_window_def am_sn_ok_def sel0 same(2,3))
  obtain r where r: "am_validate_control e buffer = Inr r" "process_control_pdu e buffer =
      (case r of None \<Rightarrow> Inr e0 | Some (ack, nacks) \<Rightarrow> am_apply_control e0 ack nacks)"
    using process_control_run [OF assms(1), of buffer] unfolding e0_def [symmetric] Let_def by blast
  show ?thesis
  proof (cases r)
    case None
    with r(2) ok0 inv0 show ?thesis by simp
  next
    case (Some y)
    obtain ack nacks where y: "y = (ack, nacks)" by (cases y)
    let ?d = "am_modulus_tx e0" and ?sn = "seg_sn (am_heap e0)"
    have v: "am_validate_control e buffer = Inr (Some (ack, nacks))" using r(1) Some y by simp
    have ack: "am_sn_ok e0 ack" "?d ack \<le> ?d (am_tx_next e0)"
      using am_validated_ack_sn [OF assms(1) v] am_validated_ack [OF v] by (simp_all add: am_sn_ok_def sel0)
    have notbelow: "\<not> am_sn_compare_tx e0 (?sn s) ack < 0"
      using ack(2) ok0(4) by (simp add: am_sn_compare_tx_def am_outside_window_def)
    obtain e' cs where e': "am_apply_control e0 ack nacks = Inr e'" "am_tx_inv e'"
        "(am_wait_list e', am_retransmit_list e') = walk_result ?sn (am_sn_compare_tx e0) ack
          (concat (map (nack_pieces (am_sn_modulus e0)) nacks)) (am_wait_list e0) (am_retransmit_list e0)"
        "\<forall>s \<in> set (am_wait_list e' @ am_retransmit_list e'). seg_sn (am_heap e') s = ?sn s"
        "e' = am_control_finish ack cs" "am_frame e0 (cs_e cs)"
      using am_apply_control_ok [OF inv0, of ack nacks] by blast
    have s: "s \<in> set (am_wait_list e' @ am_retransmit_list e')"
      by (rule walk_result_has [OF notbelow ok0(3) e'(3) [symmetric]])
    note sel = am_frame_sel [OF e'(6)]
    have fld: "am_tx_next e' = am_tx_next e0" "am_sn_modulus e' = am_sn_modulus e0"
        "am_sn_field_length e' = am_sn_field_length e0" "am_window_size e' = am_window_size e0"
      using e'(6) unfolding e'(5) by (simp_all add: am_control_finish_def Let_def sel) (force simp: am_frame_def)
    note fin = am_control_finish_ack [where st = cs and ack = ack, folded e'(5), unfolded sel]
    have sub: "set (am_wait_list e' @ am_retransmit_list e') \<subseteq> set (am_wait_list e0 @ am_retransmit_list e0)"
      by (rule walk_result_segs [OF e'(3) [symmetric]])
    have sns: "\<forall>s \<in> set (am_wait_list e' @ am_retransmit_list e'). am_sn_ok e0 (seg_sn (am_heap e') s)"
      using sub ok0(2) e'(4) unfolding am_numbers_ok_def by (metis (no_types, lifting) subsetD)
    have base: "am_sn_ok e0 (am_tx_next_ack e')"
    proof -
      from fin(1) consider "am_tx_next_ack e' = ack" | "am_tx_next_ack e' = am_tx_next e0"
        | t where "t \<in> set (am_wait_list e' @ am_retransmit_list e')" "am_tx_next_ack e' = seg_sn (am_heap e') t"
        unfolding fld(1) by blast
      then show ?thesis
        by cases (use ack(1) ok0(2) bspec [OF sns] in \<open>simp_all add: am_numbers_ok_def\<close>)
    qed
    have shift: "am_modulus_tx e' x = ?d x - ?d (am_tx_next_ack e')" if "am_sn_ok e0 x" "?d (am_tx_next_ack e') \<le> ?d x" for x
      using sn_dist_shift [of x "am_sn_modulus e0" "am_tx_next_ack e'" "am_tx_next_ack e0"] that base ok0(2)
      by (simp add: am_modulus_tx_dist am_sn_ok_def am_numbers_ok_def fld(2))
    have le: "?d (am_tx_next_ack e') \<le> ?d (am_tx_next e0)" "?d (am_tx_next e0) \<le> ?d (?sn s)"
      using fin(3) ok0(4) by (simp_all add: fld(1) am_outside_window_def)
    have "am_outside_window e' s"
      using shift [of "am_tx_next e0"] shift [of "?sn s"] le ok0(2,3) bspec [OF e'(4) s]
      by (simp add: am_outside_window_def fld(1) am_numbers_ok_def)
    moreover have "am_config_ok e'" using ok0(1) by (simp add: am_config_ok_def fld)
    moreover have "am_numbers_ok e'" using sns base ok0(2) by (simp add: am_numbers_ok_def am_sn_ok_def fld)
    ultimately show ?thesis using r(2) Some y e'(1,2) s by simp
  qed
qed

theorem am_tail_never_acknowledged_witness:
  "\<exists>ta a s1 s2 s e'. am_tail_exchange ta = Inr (a, s1, s2) \<and> am_wait_list a = [s] \<and> am_tx_next_ack a = 1 \<and>
    seg_sn (am_heap a) s = 0 \<and> process_control_pdu a [0x00, 0x01, 0x00] = Inr e' \<and>
    s \<in> set (am_wait_list e' @ am_retransmit_list e')"
proof -
  fix ta
  have run: "case am_tail_exchange ta of Inr (a, s1, s2) \<Rightarrow> am_config_ok a \<and> am_numbers_ok a \<and> am_tx_next_ack a = 1 \<and>
     am_tx_list a = [] \<and> am_retransmit_list a = [] \<and> am_tx_end a = None \<and> heap_sdu (am_heap a) (Suc p) = None \<and>
     heap_next (am_heap a) = 5 \<and> (case am_wait_list a of [s] \<Rightarrow> am_wait_end a = Some (seg_addr s) \<and>
        am_outside_window a s \<and> cell_ok (heap_sdu (am_heap a) 0) (refs [s] 0) \<and> seg_sdu s = 0 \<and> seg_addr s < 5 \<and>
        seg_sn (am_heap a) s = 0 \<and> seg_ok (am_heap a) s | _ \<Rightarrow> False) | Inl c \<Rightarrow> False" for p by code_simp
  then obtain a s1 s2 where a: "am_tail_exchange ta = Inr (a, s1, s2)" by (cases "am_tail_exchange ta") auto
  obtain s where s: "am_wait_list a = [s]"
    using run [of 0] unfolding a by (auto split: list.splits)
  note f = run [unfolded a sum.case prod.case s list.case]
  have cells: "cell_ok (heap_sdu (am_heap a) p) (refs [s] p)" for p
    using f [of 0] f [of "p - 1"] by (cases p) auto
  have "segs_ok (am_heap a) [s]"
    unfolding segs_ok_def heap_ok_def
  proof (intro conjI allI impI)
    fix p assume "heap_next (am_heap a) \<le> p"
    with f [of "p - 1"] show "heap_sdu (am_heap a) p = None" by (cases p) auto
  qed (use cells f [of 0] in auto)
  then have "am_tx_inv a" using f [of 0] by (simp add: am_tx_inv_def tail_ok_def s)
  with am_tail_never_acknowledged [of a s "[0x00, 0x01, 0x00]"] f [of 0] a s show ?thesis by auto
qed

text \<open>
  Two STATUS PDUs with NACKs in order and below the ACK bring a base station down: the
  first asks for SDU 0 only, which frees SDU 1, the second acknowledges SDU 0 alone. The poll
  retransmission timer runs on for SDU 1, and when it expires the head of the empty wait list is
  dereferenced.
\<close>

theorem am_poll_timer_crash:
  "\<exists>e. am_run e \<and> nr_rlc_entity_am_set_time e 100 = Inl NullDeref"
proof -
  obtain ta where ta: "am_run (am_fresh ta)" using am_fresh_run by blast
  have "case am_ops am_crash_ops (am_fresh ta) of Inl c \<Rightarrow> False
    | Inr e \<Rightarrow> am_ops_ok am_crash_ops (am_fresh ta) \<and> crashes NullDeref (nr_rlc_entity_am_set_time e 100)" by code_simp
  then obtain e where "am_ops am_crash_ops (am_fresh ta) = Inr e" "am_ops_ok am_crash_ops (am_fresh ta)"
      "nr_rlc_entity_am_set_time e 100 = Inl NullDeref" by (auto split: sum.splits)
  with am_ops_run [OF _ _ ta] show ?thesis by blast
qed

text \<open>
  A NACK with the sequence number of the ACK makes the sender lose what it had scheduled
  for retransmission: of an SDU of 20 bytes nothing is left in any list, it is neither acknowledged nor
  reported as lost, and the buffer status announces 26 bytes of retransmission for ever.
\<close>

theorem am_retransmission_lost:
  "case am_ops am_loss_ops (am_fresh ta) of Inl c \<Rightarrow> False
   | Inr e \<Rightarrow> am_tx_list e = [] \<and> am_wait_list e = [] \<and> am_retransmit_list e = [] \<and> am_events e = [] \<and>
       am_tx_size e = 20 \<and> bs_retx_size (ec_bstatus (am_common e)) = 26"
  by code_simp

text \<open>
  Three PDUs with overlapping or impossible offsets make the receiver read in front of a
  buffer: the segments up to the last one are complete, but reassembly goes on with the segment that
  lies behind a gap, whose offset is beyond what has been copied.
\<close>

theorem am_reassembly_overread:
  "case am_ops am_gap_ops (am_fresh ta) of Inl c \<Rightarrow> False
   | Inr e \<Rightarrow> crashes OutOfBounds (nr_rlc_entity_am_recv_pdu e am_gap_last)"
  by code_simp

text \<open>
  The check that the NACKs of a STATUS PDU come in increasing order never fails: the
  previous sequence number is never updated. A report that asks for SDU 3 and then for SDU 1 is taken.
\<close>

theorem am_nack_order_unchecked:
  "case am_validate_control ((am_fresh ta)\<lparr>am_tx_next := 5\<rparr>) [0x00, 0x05, 0x80, 0x00, 0x38, 0x00, 0x10] of
     Inr (Some (ack, nacks)) \<Rightarrow> ack = 5 \<and> map ni_nack_sn nacks = [3, 1] | _ \<Rightarrow> False"
  by code_simp

text \<open>
  Reconfiguration to another length of the sequence number changes the length in the
  header only: the numbers go on modulo 4096 inside a window of 2048.
\<close>

theorem am_reconfigure_keeps_modulus:
  assumes "am_config_ok e" "am_sn_field_length e = 12"
  shows "am_sn_field_length (nr_rlc_entity_am_reconfigure e tp tr ts pp pb mr (Some 18)) = 18 \<and>
    am_sn_modulus (nr_rlc_entity_am_reconfigure e tp tr ts pp pb mr (Some 18)) = 4096 \<and>
    \<not> am_config_ok (nr_rlc_entity_am_reconfigure e tp tr ts pp pb mr (Some 18))"
  using assms by (auto simp: nr_rlc_entity_am_reconfigure_def Let_def am_config_ok_def)

theorem am_reconfigure_keeps_modulus_witness:
  "\<forall>ta. am_sn_modulus (nr_rlc_entity_am_reconfigure (am_fresh ta) 45 35 0 4 (-1) 8 (Some 18)) = 4096"
proof
  fix ta
  have "am_sn_field_length (am_fresh ta) = 12" by (simp add: am_fresh_def)
  from am_reconfigure_keeps_modulus [OF am_fresh_ok(3) this]
  show "am_sn_modulus (nr_rlc_entity_am_reconfigure (am_fresh ta) 45 35 0 4 (-1) 8 (Some 18)) = 4096" by blast
qed

end
