(* ===== verification/Rlc_Um.thy ===== *)
theory Rlc_Um
  imports Rlc_Reassembly
begin

text \<open>
  The unacknowledged mode entity (\<open>nr_rlc_entity_um.c\<close>, \<open>nr_rlc_entity_um.h\<close> and its part of
  \<open>nr_rlc_entity.c\<close>).
\<close>

record nr_rlc_entity_um =
  um_common :: nr_rlc_entity
  um_t_reassembly :: int
  um_sn_field_length :: nat
  um_sn_modulus :: int
  um_window_size :: int
  um_rx_next_highest :: int
  um_rx_next_reassembly :: int
  um_rx_timer_trigger :: int
  um_tx_next :: int
  um_t_current :: u64
  um_t_log_buffer_full :: u64
  um_sdu_rejected :: int
  um_t_reassembly_start :: u64
  um_rx_list :: "nr_rlc_pdu list"
  um_rx_size :: int
  um_rx_maxsize :: int
  um_tx_list :: "nr_rlc_sdu_segment list"
  um_tx_end :: "nat option"
  um_tx_size :: int
  um_tx_maxsize :: int

definition um_upd_common :: "(nr_rlc_entity \<Rightarrow> nr_rlc_entity) \<Rightarrow> nr_rlc_entity_um \<Rightarrow> nr_rlc_entity_um" where
  "um_upd_common f e = e\<lparr>um_common := f (um_common e)\<rparr>"

abbreviation um_heap :: "nr_rlc_entity_um \<Rightarrow> rlc_heap" where
  "um_heap e \<equiv> ec_heap (um_common e)"

abbreviation um_events :: "nr_rlc_entity_um \<Rightarrow> rlc_event list" where
  "um_events e \<equiv> ec_events (um_common e)"

definition um_set_heap :: "rlc_heap \<Rightarrow> nr_rlc_entity_um \<Rightarrow> nr_rlc_entity_um" where
  "um_set_heap h e = e\<lparr>um_common := (um_common e)\<lparr>ec_heap := h\<rparr>\<rparr>"

definition new_nr_rlc_entity_um :: "int \<Rightarrow> int \<Rightarrow> int \<Rightarrow> nat \<Rightarrow> nr_rlc_entity_um result" where
  "new_nr_rlc_entity_um rx_maxsize tx_maxsize t_reassembly sn_field_length =
     (if \<not> (sn_field_length = 6 \<or> sn_field_length = 12) then Inl Exit
      else bindR (entity_init NR_RLC_UM) (\<lambda>c.
        Inr \<lparr>um_common = c, um_t_reassembly = t_reassembly, um_sn_field_length = sn_field_length,
          um_sn_modulus = 2 ^ sn_field_length, um_window_size = 2 ^ sn_field_length div 2,
          um_rx_next_highest = 0, um_rx_next_reassembly = 0, um_rx_timer_trigger = 0, um_tx_next = 0,
          um_t_current = 0, um_t_log_buffer_full = 0, um_sdu_rejected = 0, um_t_reassembly_start = 0,
          um_rx_list = [], um_rx_size = 0, um_rx_maxsize = rx_maxsize, um_tx_list = [],
          um_tx_end = None, um_tx_size = 0, um_tx_maxsize = tx_maxsize\<rparr>))"

definition nr_rlc_entity_um_reconfigure :: "nr_rlc_entity_um \<Rightarrow> int \<Rightarrow> nat option \<Rightarrow> nr_rlc_entity_um" where
  "nr_rlc_entity_um_reconfigure e t_reassembly sn_field_length =
     (let e1 = e\<lparr>um_t_reassembly := t_reassembly\<rparr>
      in case sn_field_length of None \<Rightarrow> e1 | Some n \<Rightarrow> e1\<lparr>um_sn_field_length := n\<rparr>)"

definition um_compute_pdu_header_size :: "nr_rlc_entity_um \<Rightarrow> nr_rlc_sdu_segment \<Rightarrow> int" where
  "um_compute_pdu_header_size e s =
     1 + (if \<not> (seg_is_first s \<and> seg_is_last s) \<and> um_sn_field_length e = 12 then 1 else 0) +
     (if \<not> seg_is_first s then 2 else 0)"

section \<open>Reception\<close>

text \<open>The remainder is taken of a number that is not negative for sequence numbers.\<close>

definition um_modulus_rx :: "nr_rlc_entity_um \<Rightarrow> int \<Rightarrow> int" where
  "um_modulus_rx e a =
     (let r = a - (um_rx_next_highest e - um_window_size e)
      in (if r < 0 then r + um_sn_modulus e else r) mod um_sn_modulus e)"

definition um_sn_compare_rx :: "nr_rlc_entity_um \<Rightarrow> int \<Rightarrow> int \<Rightarrow> int" where
  "um_sn_compare_rx e a b = um_modulus_rx e a - um_modulus_rx e b"

definition um_sdu_full :: "nr_rlc_entity_um \<Rightarrow> int \<Rightarrow> bool" where
  "um_sdu_full e sn = rx_sdu_full (um_rx_list e) sn"

definition um_sdu_delivered :: "nr_rlc_entity_um \<Rightarrow> int \<Rightarrow> bool" where
  "um_sdu_delivered e sn = rx_sdu_delivered (um_rx_list e) sn"

definition um_sdu_has_missing_bytes :: "nr_rlc_entity_um \<Rightarrow> int \<Rightarrow> bool" where
  "um_sdu_has_missing_bytes e sn = rx_sdu_has_missing_bytes (um_rx_list e) sn"

text \<open>A processed PDU loses its data and its size.\<close>

definition um_reassemble_and_deliver :: "nr_rlc_entity_um \<Rightarrow> int \<Rightarrow> nr_rlc_entity_um result" where
  "um_reassemble_and_deliver e sn =
     (case pdus_from sn (um_rx_list e) of
        [] \<Rightarrow> Inl NullDeref
      | p # l \<Rightarrow>
          bindR (reassemble_loop (\<lambda>q. q\<lparr>pdu_size := 0\<rparr>) sn (p # l) [] False) (\<lambda>(l', sdu, bad_sdu, n).
            let e1 = e\<lparr>um_rx_list := takeWhile (\<lambda>p. pdu_sn p \<noteq> sn) (um_rx_list e) @ l',
                       um_rx_size := um_rx_size e - n\<rparr>
            in if bad_sdu then Inr e1
               else Inr (um_upd_common
                 (\<lambda>c. ec_upd_stats (\<lambda>s. s\<lparr>st_txsdu_pkts := st_txsdu_pkts s + 1,
                          st_txsdu_bytes := st_txsdu_bytes s + word_of_nat (length sdu)\<rparr>)
                       (ec_call (DeliverSdu sdu) c)) e1)))"

text \<open>
  \<open>while (sdu_delivered(entity, sn)) sn = (sn + 1) % entity->sn_modulus;\<close> with the count of the
  numbers found delivered, as in acknowledged mode.
\<close>

function um_skip_delivered :: "nr_rlc_entity_um \<Rightarrow> int \<Rightarrow> int \<Rightarrow> int result" where
  "um_skip_delivered e sn i =
     (if \<not> um_sdu_delivered e sn then Inr sn
      else if i \<ge> um_sn_modulus e then Inl Hang
      else um_skip_delivered e ((sn + 1) mod um_sn_modulus e) (i + 1))"
  by pat_completeness auto
termination
  by (relation "measure (\<lambda>(e, sn, i). nat (um_sn_modulus e - i))") auto

declare um_skip_delivered.simps [simp del]

text \<open>The PDUs at the head of the list that are behind the moved window are discarded.\<close>

fun um_discard_outside :: "nr_rlc_pdu list \<Rightarrow> nr_rlc_entity_um \<Rightarrow> nr_rlc_entity_um" where
  "um_discard_outside [] e = e\<lparr>um_rx_list := []\<rparr>"
| "um_discard_outside (p # l) e =
     (if um_sn_compare_rx e (pdu_sn p) (um_rx_next_highest e) \<ge> 0
      then um_discard_outside l
             (um_upd_common (ec_upd_stats (\<lambda>s. s
                \<lparr>st_rxpdu_dd_pkts := st_rxpdu_dd_pkts s + 1,
                 st_rxpdu_dd_bytes := st_rxpdu_dd_bytes s + word_of_int (pdu_size p),
                 st_rxpdu_ow_pkts := st_rxpdu_ow_pkts s + 1,
                 st_rxpdu_ow_bytes := st_rxpdu_ow_bytes s + word_of_int (pdu_size p)\<rparr>))
               (e\<lparr>um_rx_size := um_rx_size e - pdu_size p\<rparr>))
      else e\<lparr>um_rx_list := p # l\<rparr>)"

definition um_sdu_complete :: "nr_rlc_entity_um \<Rightarrow> int \<Rightarrow> nr_rlc_entity_um result" where
  "um_sdu_complete e x =
     bindR (um_reassemble_and_deliver e x) (\<lambda>e1.
       if x = um_rx_next_reassembly e1
       then bindR (um_skip_delivered e1 (um_rx_next_reassembly e1) 0) (\<lambda>s.
              Inr (e1\<lparr>um_rx_next_reassembly := s\<rparr>))
       else Inr e1)"

definition um_sdu_incomplete :: "nr_rlc_entity_um \<Rightarrow> int \<Rightarrow> nr_rlc_entity_um result" where
  "um_sdu_incomplete e x =
     (if um_sn_compare_rx e x (um_rx_next_highest e) \<ge> 0
      then
        let e1 = e\<lparr>um_rx_next_highest := (x + 1) mod um_sn_modulus e\<rparr>;
            e2 = um_discard_outside (um_rx_list e1) e1
        in if um_sn_compare_rx e2 (um_rx_next_reassembly e2) (um_rx_next_highest e2) \<ge> 0
           then bindR (um_skip_delivered e2
                    ((um_rx_next_highest e2 - um_window_size e2 + um_sn_modulus e2) mod um_sn_modulus e2) 0)
                  (\<lambda>s. Inr (e2\<lparr>um_rx_next_reassembly := s\<rparr>))
           else Inr e2
      else Inr e)"

definition um_stop_reassembly :: "nr_rlc_entity_um \<Rightarrow> bool" where
  "um_stop_reassembly e \<longleftrightarrow>
     um_sn_compare_rx e (um_rx_timer_trigger e) (um_rx_next_reassembly e) \<le> 0 \<or>
     um_sn_compare_rx e (um_rx_timer_trigger e) (um_rx_next_highest e) > 0 \<or>
     um_rx_next_highest e = (um_rx_next_reassembly e + 1) mod um_sn_modulus e \<and>
       \<not> um_sdu_has_missing_bytes e (um_rx_next_reassembly e)"

definition um_start_reassembly :: "nr_rlc_entity_um \<Rightarrow> bool" where
  "um_start_reassembly e \<longleftrightarrow>
     um_sn_compare_rx e (um_rx_next_highest e) ((um_rx_next_reassembly e + 1) mod um_sn_modulus e) > 0 \<or>
     um_rx_next_highest e = (um_rx_next_reassembly e + 1) mod um_sn_modulus e \<and>
       um_sdu_has_missing_bytes e (um_rx_next_reassembly e)"

definition um_reception_timers :: "nr_rlc_entity_um \<Rightarrow> nr_rlc_entity_um" where
  "um_reception_timers e =
     (let e1 = (if um_t_reassembly_start e \<noteq> 0 \<and> um_stop_reassembly e
                then e\<lparr>um_t_reassembly_start := 0\<rparr> else e)
      in if um_t_reassembly_start e1 = 0 \<and> um_start_reassembly e1
         then e1\<lparr>um_t_reassembly_start := um_t_current e1, um_rx_timer_trigger := um_rx_next_highest e1\<rparr>
         else e1)"

definition um_reception_actions :: "nr_rlc_entity_um \<Rightarrow> nr_rlc_pdu \<Rightarrow> nr_rlc_entity_um result" where
  "um_reception_actions e pdu =
     bindR (if um_sdu_full e (pdu_sn pdu) then um_sdu_complete e (pdu_sn pdu)
            else um_sdu_incomplete e (pdu_sn pdu)) (\<lambda>e1. Inr (um_reception_timers e1))"

definition um_discard :: "nr_rlc_entity_um \<Rightarrow> int \<Rightarrow> nr_rlc_entity_um" where
  "um_discard e sz =
     um_upd_common (ec_upd_stats (\<lambda>s. s\<lparr>st_rxpdu_dd_pkts := st_rxpdu_dd_pkts s + 1,
        st_rxpdu_dd_bytes := st_rxpdu_dd_bytes s + word_of_int sz\<rparr>)) e"

text \<open>\<open>nr_rlc_entity_um_recv_pdu\<close> behind the header of a segment.\<close>

definition um_recv_segment ::
  "nr_rlc_entity_um \<Rightarrow> int \<Rightarrow> int \<Rightarrow> int \<Rightarrow> bool \<Rightarrow> bool \<Rightarrow> byte list \<Rightarrow> nr_rlc_entity_um result" where
  "um_recv_segment e sz sn so is_first is_last data =
     (let data_size = int (length data)
      in if data_size \<le> 0 then Inr (um_discard e sz)
         else if um_rx_size e + data_size > um_rx_maxsize e then Inr (um_discard e sz)
         else if um_sn_compare_rx e sn (um_rx_next_reassembly e) < 0 then Inr (um_discard e sz)
         else
           let pdu = nr_rlc_new_pdu sn so is_first is_last data;
               e1 = e\<lparr>um_rx_size := um_rx_size e + data_size,
                      um_rx_list := nr_rlc_pdu_list_add (um_sn_compare_rx e) (um_rx_list e) pdu\<rparr>
           in um_reception_actions e1 pdu)"

text \<open>SN and SO of a segment; \<open>None\<close> is a discard (decoding error or bad SO).\<close>

definition um_read_header ::
  "nr_rlc_entity_um \<Rightarrow> bool \<Rightarrow> nr_rlc_pdu_decoder \<Rightarrow> (int \<times> int \<times> nr_rlc_pdu_decoder) option result" where
  "um_read_header e is_first d =
     bindR (get_fields d ((if um_sn_field_length e = 12 then [2] else []) @ [um_sn_field_length e])) (\<lambda>(vs, d1).
     if dec_error d1 then Inr None
     else if is_first then Inr (Some (last vs, 0, d1))
     else bindR (nr_rlc_pdu_decoder_get_bits d1 16) (\<lambda>(so, d2).
       if dec_error d2 then Inr None
       else if so = 0 then Inr None
       else Inr (Some (last vs, so, d2))))"

definition nr_rlc_entity_um_recv_pdu :: "nr_rlc_entity_um \<Rightarrow> byte list \<Rightarrow> nr_rlc_entity_um result" where
  "nr_rlc_entity_um_recv_pdu e0 buffer =
     (let sz = int (length buffer);
          e = um_upd_common (ec_upd_stats (\<lambda>s. s\<lparr>st_rxpdu_pkts := st_rxpdu_pkts s + 1,
                st_rxpdu_bytes := st_rxpdu_bytes s + word_of_int sz\<rparr>)) e0
      in bindR (nr_rlc_pdu_decoder_get_bits (nr_rlc_pdu_decoder_init buffer) 2) (\<lambda>(si, d).
         if dec_error d then Inr (um_discard e sz)
         else
           let is_first = (si AND 2 = 0); is_last = (si AND 1 = 0)
           in if is_first \<and> is_last then
                (if sz < 2 then Inr (um_discard e sz)
                 else Inr (um_upd_common (\<lambda>c. ec_upd_stats (\<lambda>s. s\<lparr>st_txsdu_pkts := st_txsdu_pkts s + 1,
                          st_txsdu_bytes := st_txsdu_bytes s + word_of_int (sz - 1)\<rparr>)
                        (ec_call (DeliverSdu (drop 1 buffer)) c)) e))
              else bindR (um_read_header e is_first d) (\<lambda>r.
                case r of
                  None \<Rightarrow> Inr (um_discard e sz)
                | Some (sn, so, d') \<Rightarrow>
                    um_recv_segment e sz sn so is_first is_last (drop (nat (dec_byte d')) buffer))))"

section \<open>Transmission\<close>

definition um_header_fields :: "nr_rlc_entity_um \<Rightarrow> nr_rlc_sdu_segment \<Rightarrow> (int \<times> nat) list" where
  "um_header_fields e s =
     [(1 - of_bool (seg_is_first s), 1), (1 - of_bool (seg_is_last s), 1)] @
     (if seg_is_first s \<and> seg_is_last s then [(0, 6)]
      else (if um_sn_field_length e = 12 then [(0, 2)] else []) @
           [(seg_sn (um_heap e) s, um_sn_field_length e)]) @
     (if \<not> seg_is_first s then [(seg_so s, 16)] else [])"

definition um_serialize_sdu ::
  "nr_rlc_entity_um \<Rightarrow> nr_rlc_sdu_segment \<Rightarrow> byte list \<Rightarrow> (int \<times> byte list) result" where
  "um_serialize_sdu e s buffer =
     bindR (put_fields (nr_rlc_pdu_encoder_init buffer) (um_header_fields e s)) (\<lambda>en.
     bindR (slice (sdu_data (sdu_of (um_heap e) s)) (seg_so s) (seg_size s)) (\<lambda>data.
     bindR (blit (enc_buffer en) (enc_byte en) data) (\<lambda>b.
     Inr (enc_byte en + seg_size s, b))))"

text \<open>
  \<open>resegment\<close> may find that the header of the segment, which is longer than that of the full SDU,
  leaves no room: \<open>None\<close>, with the reference already counted.
\<close>

definition um_resegment ::
  "nr_rlc_sdu_segment \<Rightarrow> nr_rlc_entity_um \<Rightarrow> int \<Rightarrow>
   ((nr_rlc_sdu_segment \<times> nr_rlc_sdu_segment) option \<times> nr_rlc_entity_um) result" where
  "um_resegment s e pdu_sz =
     bindR (sdu_update (\<lambda>u. u\<lparr>sdu_ref_count := sdu_ref_count u + 1\<rparr>) s (um_heap e)) (\<lambda>h.
       let pdu_header_size = um_compute_pdu_header_size e (s\<lparr>seg_is_last := False\<rparr>)
       in if pdu_header_size + 1 > pdu_sz then Inr (None, um_set_heap h e)
          else
            let over_size = pdu_header_size + seg_size s - pdu_sz;
                s1 = s\<lparr>seg_size := seg_size s - over_size, seg_is_last := False\<rparr>;
                nxt = s\<lparr>seg_addr := heap_next h, seg_size := over_size, seg_so := seg_so s1 + seg_size s1,
                        seg_is_first := False\<rparr>
            in Inr (Some (s1, nxt),
                 um_upd_common (ec_upd_stats (\<lambda>st. st\<lparr>st_txpdu_segmented := st_txpdu_segmented st + 1\<rparr>))
                   (um_set_heap (h\<lparr>heap_next := heap_next h + 1\<rparr>) e)))"

text \<open>
  Taking the head of the transmit list. \<open>None\<close>: the head cannot be segmented; it has left the list
  at this point.
\<close>

definition um_take_tx ::
  "nr_rlc_entity_um \<Rightarrow> nr_rlc_sdu_segment \<Rightarrow> nr_rlc_sdu_segment list \<Rightarrow> int \<Rightarrow>
   (nr_rlc_sdu_segment option \<times> nr_rlc_entity_um) result" where
  "um_take_tx e s rest sz =
     (let e1 = e\<lparr>um_tx_list := rest, um_tx_end := (if rest = [] then None else um_tx_end e)\<rparr>
      in bindR (sdu_update (\<lambda>u. u\<lparr>sdu_sn := um_tx_next e1\<rparr>) s (um_heap e1)) (\<lambda>h.
         let pdu_sz = um_compute_pdu_header_size e s + seg_size s;
             e2 = um_upd_common (ec_add_tx_size (- pdu_sz)) (um_set_heap h e1)
         in if pdu_sz > sz
            then bindR (um_resegment s e2 sz) (\<lambda>(r, e3).
                   case r of
                     None \<Rightarrow> Inr (None, e3)
                   | Some (s1, nxt) \<Rightarrow>
                       Inr (Some s1, um_upd_common
                         (\<lambda>c. ec_add_tx_size (um_compute_pdu_header_size e3 nxt + seg_size nxt)
                            (ec_upd_stats (\<lambda>st. st\<lparr>st_txpdu_segmented := st_txpdu_segmented st + 1\<rparr>) c))
                         (e3\<lparr>um_tx_list := nxt # rest,
                             um_tx_end := (if um_tx_end e3 = None then Some (seg_addr nxt) else um_tx_end e3)\<rparr>)))
            else Inr (Some s, e2)))"

definition um_generate_tx_pdu ::
  "u64 \<Rightarrow> nr_rlc_entity_um \<Rightarrow> byte list \<Rightarrow> (int \<times> byte list \<times> nr_rlc_entity_um) result" where
  "um_generate_tx_pdu now e buffer =
     (let sz = int (length buffer)
      in case um_tx_list e of
           [] \<Rightarrow> Inr (0, buffer, e)
         | s # rest \<Rightarrow>
             if um_compute_pdu_header_size e s + 1 > sz then Inr (0, buffer, e)
             else bindR (um_take_tx e s rest sz) (\<lambda>(r, e1).
               case r of
                 None \<Rightarrow> Inr (0, buffer, e1)
               | Some s' \<Rightarrow>
                   let e2 = (if \<not> seg_is_first s' \<and> seg_is_last s'
                             then e1\<lparr>um_tx_next := (um_tx_next e1 + 1) mod um_sn_modulus e1\<rparr> else e1)
                   in bindR (um_serialize_sdu e2 s' buffer) (\<lambda>(ret, b).
                      let e3 = um_upd_common (\<lambda>c. ec_waited now (sdu_time_of_arrival (sdu_of (um_heap e2) s'))
                                 (ec_upd_stats (\<lambda>st. st\<lparr>st_txpdu_pkts := st_txpdu_pkts st + 1,
                                    st_txpdu_bytes := st_txpdu_bytes st + word_of_int sz\<rparr>) c))
                                 (e2\<lparr>um_tx_size := um_tx_size e2 - seg_size s'\<rparr>)
                      in bindR (nr_rlc_free_sdu_segment s' (um_heap e3)) (\<lambda>(freed, h).
                         Inr (ret, b, um_set_heap h e3)))))"

text \<open>
  The fields \<open>status_size\<close>, \<open>tx_size\<close> and \<open>retx_size\<close> of the result; the code leaves \<open>tx_bytes\<close> and
  \<open>total_tx_bytes\<close> uninitialised.
\<close>

definition nr_rlc_entity_um_buffer_status :: "nr_rlc_entity_um \<Rightarrow> int \<Rightarrow> int \<times> int \<times> int" where
  "nr_rlc_entity_um_buffer_status e maxsize = (0, bs_tx_size (ec_bstatus (um_common e)), 0)"

definition nr_rlc_entity_um_generate_pdu ::
  "u64 \<Rightarrow> nr_rlc_entity_um \<Rightarrow> byte list \<Rightarrow> (int \<times> byte list \<times> nr_rlc_entity_um) result" where
  "nr_rlc_entity_um_generate_pdu now e buffer = um_generate_tx_pdu now e buffer"

definition nr_rlc_entity_um_recv_sdu ::
  "u64 \<Rightarrow> nr_rlc_entity_um \<Rightarrow> byte list \<Rightarrow> int \<Rightarrow> nr_rlc_entity_um result" where
  "nr_rlc_entity_um_recv_sdu now e buffer sdu_id =
     (let sz = int (length buffer);
          e0 = um_upd_common (ec_upd_stats (\<lambda>st. st\<lparr>st_rxsdu_pkts := st_rxsdu_pkts st + 1,
                 st_rxsdu_bytes := st_rxsdu_bytes st + word_of_int sz\<rparr>)) e
      in if sz > NR_SDU_MAX then Inl Exit
         else
           let e1 = (if um_sdu_rejected e0 \<noteq> 0 \<and> um_t_current e0 > um_t_log_buffer_full e0 + 1000
                     then e0\<lparr>um_sdu_rejected := 0, um_t_log_buffer_full := um_t_current e0\<rparr> else e0)
           in if um_tx_size e1 + sz > um_tx_maxsize e1
              then Inr (um_upd_common (ec_upd_stats (\<lambda>st. st\<lparr>st_rxsdu_dd_pkts := st_rxsdu_dd_pkts st + 1,
                           st_rxsdu_dd_bytes := st_rxsdu_dd_bytes st + word_of_int sz\<rparr>))
                         (e1\<lparr>um_sdu_rejected := um_sdu_rejected e1 + 1\<rparr>))
              else
                case nr_rlc_new_sdu buffer sdu_id (um_heap e1) of (s, h) \<Rightarrow>
                let e2 = um_set_heap h (e1\<lparr>um_tx_size := um_tx_size e1 + sz\<rparr>)
                in bindR (nr_rlc_sdu_segment_list_append (um_tx_list e2) (um_tx_end e2) s) (\<lambda>(l, t).
                   let e3 = um_upd_common (ec_add_tx_size (um_compute_pdu_header_size e2 s + seg_size s))
                              (e2\<lparr>um_tx_list := l, um_tx_end := t\<rparr>)
                   in if ec_avg_time_is_on (um_common e3)
                      then bindR (sdu_update (\<lambda>u. u\<lparr>sdu_time_of_arrival := now\<rparr>) s (um_heap e3)) (\<lambda>h'.
                             Inr (um_set_heap h' e3))
                      else Inr e3))"

section \<open>Timer, discard, re-establishment, release\<close>

text \<open>The PDUs below \<open>rx_next_reassembly\<close> are discarded; \<open>rx_size\<close> is left as it is.\<close>

fun um_discard_below :: "nr_rlc_pdu list \<Rightarrow> nr_rlc_entity_um \<Rightarrow> nr_rlc_entity_um" where
  "um_discard_below [] e = e\<lparr>um_rx_list := []\<rparr>"
| "um_discard_below (p # l) e =
     (if um_sn_compare_rx e (pdu_sn p) (um_rx_next_reassembly e) < 0
      then um_discard_below l (um_upd_common (ec_upd_stats (\<lambda>s. s
             \<lparr>st_rxpdu_dd_pkts := st_rxpdu_dd_pkts s + 1,
              st_rxpdu_dd_bytes := st_rxpdu_dd_bytes s + word_of_int (pdu_size p)\<rparr>)) e)
      else e\<lparr>um_rx_list := p # l\<rparr>)"

definition um_check_t_reassembly :: "nr_rlc_entity_um \<Rightarrow> nr_rlc_entity_um result" where
  "um_check_t_reassembly e =
     (if um_t_reassembly_start e = 0 \<or>
         um_t_current e \<le> um_t_reassembly_start e + word_of_int (um_t_reassembly e)
      then Inr e
      else
        let e1 = e\<lparr>um_t_reassembly_start := 0\<rparr>
        in bindR (um_skip_delivered e1 (um_rx_timer_trigger e1) 0) (\<lambda>s.
           let e2 = um_discard_below (um_rx_list e1) (e1\<lparr>um_rx_next_reassembly := s\<rparr>)
           in Inr (if um_sn_compare_rx e2 (um_rx_next_highest e2)
                        ((um_rx_next_reassembly e2 + 1) mod um_sn_modulus e2) > 0 \<or>
                      um_rx_next_highest e2 = um_rx_next_reassembly e2 + 1 \<and>
                        um_sdu_has_missing_bytes e2 (um_rx_next_reassembly e2)
                   then e2\<lparr>um_t_reassembly_start := um_t_current e2,
                           um_rx_timer_trigger := um_rx_next_highest e2\<rparr>
                   else e2)))"

definition nr_rlc_entity_um_set_time :: "nr_rlc_entity_um \<Rightarrow> u64 \<Rightarrow> nr_rlc_entity_um result" where
  "nr_rlc_entity_um_set_time e now = um_check_t_reassembly (e\<lparr>um_t_current := now\<rparr>)"

definition nr_rlc_entity_um_discard_sdu :: "nr_rlc_entity_um \<Rightarrow> int \<Rightarrow> nr_rlc_entity_um result" where
  "nr_rlc_entity_um_discard_sdu e sdu_id =
     (let other = (\<lambda>s. sdu_upper_layer_id (sdu_of (um_heap e) s) \<noteq> sdu_id);
          before = takeWhile other (um_tx_list e)
      in case dropWhile other (um_tx_list e) of
           [] \<Rightarrow> Inr e
         | cur # rest \<Rightarrow>
             if \<not> seg_is_first cur \<or> \<not> seg_is_last cur then Inr e
             else
               let e1 = e\<lparr>um_tx_list := before @ rest,
                          um_tx_end := (if um_tx_end e = Some (seg_addr cur)
                                        then (if before = [] then None else Some (seg_addr (last before)))
                                        else um_tx_end e)\<rparr>;
                   e2 = um_upd_common (ec_add_tx_size (- (um_compute_pdu_header_size e1 cur + seg_size cur))) e1
               in bindR (nr_rlc_free_sdu_segment cur (um_heap e2)) (\<lambda>(freed, h). Inr (um_set_heap h e2)))"

definition um_clear_entity :: "nr_rlc_entity_um \<Rightarrow> nr_rlc_entity_um result" where
  "um_clear_entity e =
     (let e1 = e\<lparr>um_rx_next_highest := 0, um_rx_next_reassembly := 0, um_rx_timer_trigger := 0,
                 um_tx_next := 0, um_t_current := 0, um_t_log_buffer_full := 0, um_sdu_rejected := 0,
                 um_t_reassembly_start := 0, um_rx_list := [], um_rx_size := 0\<rparr>
      in bindR (nr_rlc_free_sdu_segment_list (um_tx_list e1) (um_heap e1)) (\<lambda>h.
         Inr (um_upd_common (\<lambda>c. c\<lparr>ec_heap := h, ec_bstatus := (ec_bstatus c)\<lparr>bs_tx_size := 0\<rparr>\<rparr>)
           (e1\<lparr>um_tx_list := [], um_tx_end := None, um_tx_size := 0\<rparr>))))"

definition nr_rlc_entity_um_reestablishment :: "nr_rlc_entity_um \<Rightarrow> nr_rlc_entity_um result" where
  "nr_rlc_entity_um_reestablishment e = um_clear_entity e"

definition nr_rlc_entity_um_delete :: "nr_rlc_entity_um \<Rightarrow> rlc_heap result" where
  "nr_rlc_entity_um_delete e = bindR (um_clear_entity e) (\<lambda>e1. Inr (um_heap e1))"

definition nr_rlc_entity_um_available_tx_space :: "nr_rlc_entity_um \<Rightarrow> int" where
  "nr_rlc_entity_um_available_tx_space e = um_tx_maxsize e - um_tx_size e"

end
