(* ===== verification/Rlc_Um_Proofs.thy ===== *)
theory Rlc_Um_Proofs
  imports Rlc_Um Rlc_Am_Sender
begin

text \<open>
  The unacknowledged mode: the sender queues whole SDUs, sends the bytes of the queue in order, cut
  into segments as the grants ask for, and the receiver reads each PDU as the segment that was sent;
  an SDU in one piece is delivered at once.
\<close>

section \<open>On the wire\<close>

definition um_config_ok :: "nr_rlc_entity_um \<Rightarrow> bool" where
  "um_config_ok e \<longleftrightarrow> (um_sn_field_length e = 6 \<or> um_sn_field_length e = 12) \<and>
     um_sn_modulus e = 2 ^ um_sn_field_length e \<and> um_window_size e = um_sn_modulus e div 2"

abbreviation seg_whole :: "nr_rlc_sdu_segment \<Rightarrow> bool" where
  "seg_whole s \<equiv> seg_is_first s \<and> seg_is_last s"

definition um_si :: "nr_rlc_sdu_segment \<Rightarrow> int" where
  "um_si s = 2 * of_bool (\<not> seg_is_first s) + of_bool (\<not> seg_is_last s)"

text \<open>The fields as the receiver reads them.\<close>

definition um_wire_fields :: "nat \<Rightarrow> int \<Rightarrow> nr_rlc_sdu_segment \<Rightarrow> (int \<times> nat) list" where
  "um_wire_fields k sn s =
     [(um_si s, 2)] @
     (if seg_whole s then [(0, 6)] else (if k = 12 then [(0, 2)] else []) @ [(sn, k)]) @
     (if \<not> seg_is_first s then [(seg_so s, 16)] else [])"

abbreviation um_fields_of :: "nr_rlc_entity_um \<Rightarrow> nr_rlc_sdu_segment \<Rightarrow> (int \<times> nat) list" where
  "um_fields_of e s \<equiv> um_wire_fields (um_sn_field_length e) (seg_sn (um_heap e) s) s"

lemma um_header_wire: "fields_bits (um_header_fields e s) = fields_bits (um_fields_of e s)"
  by (cases "seg_is_first s"; cases "seg_is_last s";
      simp add: um_header_fields_def um_wire_fields_def um_si_def int_bits_def numeral_eq_Suc bit_Suc bit_0)

lemma um_header_length:
  assumes "um_config_ok e"
  shows "int (length (fields_bits (um_fields_of e s))) = 8 * um_compute_pdu_header_size e s"
    "8 dvd length (fields_bits (um_fields_of e s))" "1 \<le> um_compute_pdu_header_size e s"
  using assms by (auto simp: um_wire_fields_def um_compute_pdu_header_size_def um_config_ok_def)

definition um_wire_header :: "nat \<Rightarrow> int \<Rightarrow> nr_rlc_sdu_segment \<Rightarrow> byte list \<Rightarrow> bool" where
  "um_wire_header k sn s hdr \<longleftrightarrow> bytes_bits hdr = fields_bits (um_wire_fields k sn s)"

lemma take_two: "take (length a + length b) (a @ b @ t) = a @ b"
  by simp

lemma um_serialize_ok:
  assumes cfg: "um_config_ok e" and seg: "seg_ok (um_heap e) s"
    and room: "um_compute_pdu_header_size e s + seg_size s \<le> int (length buffer)"
  shows "\<exists>hdr b. um_serialize_sdu e s buffer = Inr (um_compute_pdu_header_size e s + seg_size s, b) \<and>
    length b = length buffer \<and> um_wire_header (um_sn_field_length e) (seg_sn (um_heap e) s) s hdr \<and> int (length hdr) = um_compute_pdu_header_size e s \<and>
    take (nat (um_compute_pdu_header_size e s + seg_size s)) b = hdr @ seg_bytes (um_heap e) s"
proof -
  let ?fs = "um_header_fields e s" and ?h = "um_compute_pdu_header_size e s" and ?d = "seg_bytes (um_heap e) s"
  have len: "int (length (fields_bits ?fs)) = 8 * ?h" "8 dvd length (fields_bits ?fs)" "1 \<le> ?h"
    using um_header_length [OF cfg, of s] unfolding um_header_wire by auto
  have sz: "int (length ?d) = seg_size s" by (rule length_seg_bytes [OF seg])
  have k: "\<forall>(v, k) \<in> set ?fs. k \<le> 31" using cfg by (auto simp: um_header_fields_def um_config_ok_def)
  have "length (fields_bits ?fs) \<le> 8 * length buffer" using len(1) room sz by linarith
  then obtain en where en: "put_fields (nr_rlc_pdu_encoder_init buffer) ?fs = Inr en" "enc_at en (fields_bits ?fs) (length buffer)"
    using put_fields_at [OF enc_init_at _ k, of buffer] by auto
  have byte: "enc_byte en = ?h" using enc_at_byte [OF en(2)] len by simp
  let ?hdr = "take (nat ?h) (enc_buffer en)"
  have buf: "length (enc_buffer en) = length buffer" using en(2) by (simp add: enc_at_def)
  have hl: "length ?hdr = nat ?h" using room sz len(3) buf by simp
  have "length (fields_bits ?fs) div 8 = nat ?h" using len(1) by linarith
  then have bits: "bytes_bits ?hdr = fields_bits ?fs"
    using enc_at_aligned [OF en(2) len(2)] by simp
  have sl: "slice (sdu_data (sdu_of (um_heap e) s)) (seg_so s) (seg_size s) = Inr ?d"
    using seg by (simp add: slice_ok seg_ok_def seg_bytes_def)
  let ?t = "drop (nat ?h + length ?d) (enc_buffer en)"
  have bl: "blit (enc_buffer en) ?h ?d = Inr (?hdr @ ?d @ ?t)"
    using blit_ok [of ?h ?d "enc_buffer en"] len(3) room sz buf by simp
  have all: "length (?hdr @ ?d @ ?t) = length buffer" using blit_length [OF bl] buf by simp
  have n: "nat (?h + seg_size s) = length ?hdr + length ?d" using hl sz len(3) by linarith
  have "um_serialize_sdu e s buffer = Inr (?h + seg_size s, ?hdr @ ?d @ ?t)"
    using en(1) sl bl byte by (simp add: um_serialize_sdu_def)
  moreover have "um_wire_header (um_sn_field_length e) (seg_sn (um_heap e) s) s ?hdr" using bits by (simp add: um_wire_header_def um_header_wire)
  moreover have "take (nat (?h + seg_size s)) (?hdr @ ?d @ ?t) = ?hdr @ ?d"
    unfolding n by (rule take_two)
  moreover have "int (length ?hdr) = ?h" using hl len(3) by simp
  ultimately show ?thesis using all by blast
qed

lemma um_si_cases:
  "(um_si s AND 2 = 0) = seg_is_first s" "(um_si s AND 1 = 0) = seg_is_last s" "0 \<le> um_si s" "um_si s < 4"
  by (cases "seg_is_first s"; cases "seg_is_last s"; simp add: um_si_def)+

text \<open>A PDU at the receiver: a whole SDU is delivered, a segment goes to reassembly.\<close>

lemma um_read_wire:
  assumes hdr: "um_wire_header (um_sn_field_length r) sn s hdr" and cfg: "um_config_ok r"
    and sn: "0 \<le> sn" "sn < um_sn_modulus r"
    and so: "seg_is_first s \<and> seg_so s = 0 \<or> \<not> seg_is_first s \<and> 0 < seg_so s \<and> seg_so s < 65536" and data: "data \<noteq> []"
  defines "r0 \<equiv> um_upd_common (ec_upd_stats (\<lambda>st. st\<lparr>st_rxpdu_pkts := st_rxpdu_pkts st + 1,
                st_rxpdu_bytes := st_rxpdu_bytes st + word_of_int (int (length (hdr @ data)))\<rparr>)) r"
  shows "nr_rlc_entity_um_recv_pdu r (hdr @ data) =
    (if seg_whole s
     then Inr (um_upd_common (\<lambda>c. ec_upd_stats (\<lambda>st. st\<lparr>st_txsdu_pkts := st_txsdu_pkts st + 1,
                 st_txsdu_bytes := st_txsdu_bytes st + word_of_int (int (length data))\<rparr>) (ec_call (DeliverSdu data) c)) r0)
     else um_recv_segment r0 (int (length (hdr @ data))) sn (seg_so s) (seg_is_first s) (seg_is_last s) data)"
proof -
  define buf where "buf = hdr @ data"
  let ?k = "um_sn_field_length r"
  let ?mid = "(if ?k = 12 then [(0, 2)] else []) @ [(sn, ?k)]"
  have bits: "bytes_bits buf = fields_bits (um_wire_fields ?k sn s) @ bytes_bits data"
    using hdr by (simp add: um_wire_header_def buf_def)
  have snk: "sn < 2 ^ ?k" "?k \<le> 31" using sn cfg by (auto simp: um_config_ok_def)
  have len: "length hdr = length (fields_bits (um_wire_fields ?k sn s)) div 8"
    using hdr length_bytes_bits [of hdr] by (simp add: um_wire_header_def)
  let ?tail = "(if seg_whole s then int_bits 0 6 else fields_bits ?mid) @
      (if seg_is_first s then [] else int_bits (seg_so s) 16) @ bytes_bits data"
  have b0: "drop 0 (bytes_bits buf) = int_bits (um_si s) 2 @ ?tail"
    unfolding bits um_wire_fields_def by (simp add: fields_bits_def)
  obtain d where d: "nr_rlc_pdu_decoder_get_bits (nr_rlc_pdu_decoder_init buf) 2 = Inr (um_si s, d)" "dec_at d buf 2"
      "\<not> dec_error d" "drop 2 (bytes_bits buf) = ?tail"
    using get_bits_field [OF dec_init_at b0, of 2] um_si_cases(3,4) [of s] by auto
  show ?thesis
  proof (cases "seg_whole s")
    case True
    have "length hdr = 1" using len True by (simp add: um_wire_fields_def)
    then obtain h0 where "hdr = [h0]" by (cases hdr) auto
    with True d(1,3) data show ?thesis
      by (simp add: nr_rlc_entity_um_recv_pdu_def Let_def buf_def um_si_cases r0_def)
  next
    case False
    let ?n = "2 + length (fields_bits ?mid)"
    have t: "drop 2 (bytes_bits buf) = fields_bits ?mid @ ((if seg_is_first s then [] else int_bits (seg_so s) 16) @ bytes_bits data)"
      unfolding d(4) if_not_P [OF False] by simp
    obtain d1 where d1: "get_fields d (map snd ?mid) = Inr (map fst ?mid, d1)" "dec_at d1 buf ?n" "\<not> dec_error d1"
        "drop ?n (bytes_bits buf) = (if seg_is_first s then [] else int_bits (seg_so s) 16) @ bytes_bits data"
      using get_fields_field [OF d(2) t] snk sn(1) by (auto split: if_splits)
    have mid: "map snd ?mid = (if um_sn_field_length r0 = 12 then [2] else []) @ [um_sn_field_length r0]"
        "last (map fst ?mid) = sn" by (auto simp: r0_def um_upd_common_def)
    have end_at: "drop (nat (dec_byte d')) buf = data" if "dec_at d' buf m" "drop m (bytes_bits buf) = bytes_bits data" for d' m
    proof -
      have "m \<le> 8 * length buf" using that(1) by (auto simp: dec_at_def dec_ok_def)
      moreover have "length (drop m (bytes_bits buf)) = 8 * length data" unfolding that(2) by simp
      ultimately have "m = 8 * length hdr" by (simp add: buf_def)
      with dec_at_byte [OF that(1)] show ?thesis by (simp add: buf_def)
    qed
    have "\<exists>d'. um_read_header r0 (seg_is_first s) d = Inr (Some (sn, seg_so s, d')) \<and> drop (nat (dec_byte d')) buf = data"
    proof (cases "seg_is_first s")
      case True
      have "um_read_header r0 (seg_is_first s) d = Inr (Some (sn, 0, d1))"
        unfolding um_read_header_def mid(1) [symmetric] d1(1) bindR_Inr prod.case using d1(3) True mid(2) by simp
      with end_at [OF d1(2)] d1(4) True so show ?thesis by auto
    next
      case nf: False
      then obtain d2 where d2: "nr_rlc_pdu_decoder_get_bits d1 16 = Inr (seg_so s, d2)" "dec_at d2 buf (?n + 16)" "\<not> dec_error d2"
          "drop (?n + 16) (bytes_bits buf) = bytes_bits data"
        using get_bits_field [OF d1(2), of "seg_so s" 16 "bytes_bits data" "?n + 16"] d1(4) so by auto
      have "um_read_header r0 (seg_is_first s) d = Inr (Some (sn, seg_so s, d2))"
        unfolding um_read_header_def mid(1) [symmetric] d1(1) bindR_Inr prod.case using d1(3) nf mid(2) d2(1,3) so by simp
      with end_at [OF d2(2,4)] show ?thesis by auto
    qed
    then obtain d' where d': "um_read_header r0 (seg_is_first s) d = Inr (Some (sn, seg_so s, d'))" "drop (nat (dec_byte d')) buf = data"
      by blast
    have "nr_rlc_entity_um_recv_pdu r buf =
        um_recv_segment r0 (int (length buf)) sn (seg_so s) (seg_is_first s) (seg_is_last s) data"
      unfolding nr_rlc_entity_um_recv_pdu_def Let_def d(1) bindR_Inr prod.case if_not_P [OF d(3)] um_si_cases(1,2) if_not_P [OF False]
      using d' by (simp add: r0_def buf_def)
    then show ?thesis unfolding if_not_P [OF False] buf_def .
  qed
qed


section \<open>The sender\<close>

definition um_inv :: "nr_rlc_entity_um \<Rightarrow> bool" where
  "um_inv e \<longleftrightarrow> um_config_ok e \<and> 0 \<le> um_tx_next e \<and> um_tx_next e < um_sn_modulus e \<and>
     segs_ok (um_heap e) (um_tx_list e) \<and> tail_ok (um_tx_list e) (um_tx_end e) \<and>
     (\<forall>s \<in> set (um_tx_list e). seg_shape (um_heap e) s) \<and> distinct (map seg_sdu (um_tx_list e))"

text \<open>The bytes that wait, in order.\<close>

definition um_stream :: "nr_rlc_entity_um \<Rightarrow> byte list" where
  "um_stream e = concat (map (seg_bytes (um_heap e)) (um_tx_list e))"

lemma um_upd_common_sel [simp]:
  "um_common (um_upd_common f e) = f (um_common e)" "um_tx_list (um_upd_common f e) = um_tx_list e"
  "um_tx_end (um_upd_common f e) = um_tx_end e" "um_tx_next (um_upd_common f e) = um_tx_next e"
  "um_sn_modulus (um_upd_common f e) = um_sn_modulus e" "um_sn_field_length (um_upd_common f e) = um_sn_field_length e"
  "um_window_size (um_upd_common f e) = um_window_size e" "um_tx_size (um_upd_common f e) = um_tx_size e"
  "um_tx_maxsize (um_upd_common f e) = um_tx_maxsize e"
  by (simp_all add: um_upd_common_def)

lemma um_set_heap_sel [simp]:
  "um_heap (um_set_heap h e) = h" "um_tx_list (um_set_heap h e) = um_tx_list e" "um_tx_end (um_set_heap h e) = um_tx_end e"
  "um_tx_next (um_set_heap h e) = um_tx_next e" "um_sn_modulus (um_set_heap h e) = um_sn_modulus e"
  "um_sn_field_length (um_set_heap h e) = um_sn_field_length e" "um_window_size (um_set_heap h e) = um_window_size e"
  "um_tx_size (um_set_heap h e) = um_tx_size e" "um_tx_maxsize (um_set_heap h e) = um_tx_maxsize e"
  "ec_avg_time_is_on (um_common (um_set_heap h e)) = ec_avg_time_is_on (um_common e)"
  by (simp_all add: um_set_heap_def)

lemma um_header_cong: "um_sn_field_length e' = um_sn_field_length e \<Longrightarrow> um_compute_pdu_header_size e' s = um_compute_pdu_header_size e s"
  by (simp add: um_compute_pdu_header_size_def)

lemma seg_bytes_data: "sdu_data (sdu_of h' s) = sdu_data (sdu_of h s) \<Longrightarrow> seg_bytes h' s = seg_bytes h s"
  by (simp add: seg_bytes_def)

lemma same_sdus_bytes: "same_sdus h h' l \<Longrightarrow> s \<in> set l \<Longrightarrow> seg_bytes h' s = seg_bytes h s"
  by (auto simp: same_sdus_def same_sdu_def intro: seg_bytes_data)

text \<open>A new sequence number for the head.\<close>

lemma um_set_sn:
  assumes ok: "segs_ok h (s # l)" and shape: "\<forall>x \<in> set (s # l). seg_shape h x"
  shows "\<exists>h'. sdu_update (\<lambda>u. u\<lparr>sdu_sn := n\<rparr>) s h = Inr h' \<and> segs_ok h' (s # l) \<and> (\<forall>x \<in> set (s # l). seg_shape h' x) \<and>
    seg_sn h' s = n \<and> (\<forall>x. sdu_data (sdu_of h' x) = sdu_data (sdu_of h x)) \<and> heap_next h' = heap_next h"
proof -
  obtain u where u: "heap_sdu h (seg_sdu s) = Some u" using heap_ok_live [OF segs_ok_heap [OF ok], of s] by auto
  then obtain h' where h': "sdu_update (\<lambda>u. u\<lparr>sdu_sn := n\<rparr>) s h = Inr h'" "seg_sn h' s = n"
      "\<forall>x. sdu_data (sdu_of h' x) = sdu_data (sdu_of h x)" "heap_next h' = heap_next h"
    by (simp add: sdu_update_def sdu_of_def seg_sn_def)
  have "heap_ok h' (s # l)"
    using sdu_update_ok [OF segs_ok_heap [OF ok], of s "\<lambda>u. u\<lparr>sdu_sn := n\<rparr>"] h'(1) by simp
  then have "segs_ok h' (s # l)" using ok h'(3) by (simp add: segs_ok_def seg_ok_def)
  moreover have "\<forall>x \<in> set (s # l). seg_shape h' x" using shape h'(3) by (simp add: seg_shape_def)
  ultimately show ?thesis using h' by blast
qed

lemma distinct_apart: "distinct (map seg_sdu l) \<Longrightarrow> segs_apart (set l)"
proof -
  assume "distinct (map seg_sdu l)"
  then have "inj_on seg_sdu (set l)" by (simp add: distinct_map)
  then show ?thesis by (auto simp: segs_apart_def seg_apart_def dest: inj_onD)
qed

lemma seg_bytes_split:
  assumes "seg_ok h s" "0 < n" "n < seg_size s"
  shows "seg_bytes h (seg_part s n) @ seg_bytes h (seg_rest s n a) = seg_bytes h s"
proof -
  have "nat (seg_size s) = nat n + nat (seg_size s - n)" "nat (seg_so s + n) = nat n + nat (seg_so s)"
    using assms by (auto simp: seg_ok_def)
  moreover have "sdu_of h (seg_part s n) = sdu_of h s" "sdu_of h (seg_rest s n a) = sdu_of h s"
    by (simp_all add: sdu_of_def seg_split_defs)
  ultimately show ?thesis
    by (simp add: seg_bytes_def seg_split_defs take_add flip: drop_drop)
qed


text \<open>One more reference to the SDU of the head, as \<open>resegment\<close> counts it.\<close>

lemma um_ref_more:
  assumes "segs_ok h (s # l)"
  shows "\<exists>h1. sdu_update (\<lambda>u. u\<lparr>sdu_ref_count := sdu_ref_count u + 1\<rparr>) s h = Inr h1 \<and> heap_next h1 = heap_next h \<and>
    segs_ok h1 (s # l) \<and> (\<forall>x. sdu_data (sdu_of h1 x) = sdu_data (sdu_of h x)) \<and>
    heap_split s h (h1\<lparr>heap_next := heap_next h1 + 1\<rparr>)"
proof -
  have ok: "heap_ok h (s # l)" by (rule segs_ok_heap [OF assms])
  obtain u where u: "heap_sdu h (seg_sdu s) = Some u" using heap_ok_live [OF ok, of s] by auto
  let ?h1 = "h\<lparr>heap_sdu := (heap_sdu h)(seg_sdu s \<mapsto> u\<lparr>sdu_ref_count := sdu_ref_count u + 1\<rparr>)\<rparr>"
  have upd: "sdu_update (\<lambda>u. u\<lparr>sdu_ref_count := sdu_ref_count u + 1\<rparr>) s h = Inr ?h1"
    using u by (simp add: sdu_update_def)
  have data: "sdu_data (sdu_of ?h1 x) = sdu_data (sdu_of h x)" for x using u by (simp add: sdu_of_def)
  have "seg_sdu s < heap_next h" using ok u unfolding heap_ok_def by (metis not_le option.distinct(1))
  moreover have "cell_ok (heap_sdu h p) (refs l p)" if "p \<noteq> seg_sdu s" for p
    using heap_ok_cell [OF ok, of p] that by simp
  ultimately have "heap_ok ?h1 (s # l)"
    using ok u heap_ok_cell [OF ok, of "seg_sdu s"] unfolding heap_ok_def by auto
  then have "segs_ok ?h1 (s # l)" using assms data by (simp add: segs_ok_def seg_ok_def)
  with upd data show ?thesis by (auto simp: heap_split_def)
qed

definition um_frame :: "nr_rlc_entity_um \<Rightarrow> nr_rlc_entity_um \<Rightarrow> bool" where
  "um_frame e e' \<longleftrightarrow> um_sn_field_length e' = um_sn_field_length e \<and> um_sn_modulus e' = um_sn_modulus e \<and>
     um_window_size e' = um_window_size e \<and> um_tx_next e' = um_tx_next e"

lemma um_frame_config: "um_frame e e' \<Longrightarrow> um_config_ok e' = um_config_ok e"
  by (simp add: um_frame_def um_config_ok_def)

text \<open>
  \<open>resegment\<close> cuts the segment so that the grant is used up. It fails only for a whole SDU with
  sequence numbers of 12 bits and a grant of two bytes.
\<close>

lemma um_resegment_ok:
  assumes cfg: "um_config_ok e" and ok: "segs_ok (um_heap e) (s # l)"
    and fits: "um_compute_pdu_header_size e s + 1 \<le> sz" and big: "um_compute_pdu_header_size e s + seg_size s > sz"
  shows "(um_sn_field_length e = 12 \<and> seg_whole s \<and> sz = 2 \<and> (\<exists>h1. um_resegment s e sz = Inr (None, um_set_heap h1 e) \<and>
      segs_ok h1 (s # l) \<and> (\<forall>x. sdu_data (sdu_of h1 x) = sdu_data (sdu_of (um_heap e) x)))) \<or>
    (\<exists>n h'. 0 < n \<and> n < seg_size s \<and> heap_split s (um_heap e) h' \<and>
      um_compute_pdu_header_size e (seg_part s n) + n \<le> sz \<and>
      um_resegment s e sz = Inr (Some (seg_part s n, seg_rest s n (heap_next (um_heap e))),
        um_upd_common (ec_upd_stats (\<lambda>st. st\<lparr>st_txpdu_segmented := st_txpdu_segmented st + 1\<rparr>)) (um_set_heap h' e)))"
proof -
  obtain h1 where h1: "sdu_update (\<lambda>u. u\<lparr>sdu_ref_count := sdu_ref_count u + 1\<rparr>) s (um_heap e) = Inr h1"
      "heap_next h1 = heap_next (um_heap e)" "segs_ok h1 (s # l)" "\<forall>x. sdu_data (sdu_of h1 x) = sdu_data (sdu_of (um_heap e) x)"
      "heap_split s (um_heap e) (h1\<lparr>heap_next := heap_next h1 + 1\<rparr>)" using um_ref_more [OF ok] by blast
  let ?h = "um_compute_pdu_header_size e (s\<lparr>seg_is_last := False\<rparr>)"
  show ?thesis
  proof (cases "?h + 1 > sz")
    case True
    then have "um_sn_field_length e = 12 \<and> seg_whole s \<and> sz = 2"
      using fits by (auto simp: um_compute_pdu_header_size_def split: if_splits)
    moreover have "um_resegment s e sz = Inr (None, um_set_heap h1 e)"
      using True h1(1) by (simp add: um_resegment_def)
    ultimately show ?thesis using h1(3,4) by blast
  next
    case False
    define n where "n = sz - ?h"
    have hdr: "um_compute_pdu_header_size e s \<le> ?h" by (simp add: um_compute_pdu_header_size_def)
    have n: "0 < n" "n < seg_size s" "seg_size s - (?h + seg_size s - sz) = n" "?h + seg_size s - sz = seg_size s - n"
      using False big hdr by (auto simp: n_def)
    have part: "um_compute_pdu_header_size e (seg_part s n) + n = sz"
      by (simp add: n_def um_compute_pdu_header_size_def seg_part_def)
    have "um_resegment s e sz = Inr (Some (seg_part s n, seg_rest s n (heap_next (um_heap e))),
        um_upd_common (ec_upd_stats (\<lambda>st. st\<lparr>st_txpdu_segmented := st_txpdu_segmented st + 1\<rparr>))
          (um_set_heap (h1\<lparr>heap_next := heap_next h1 + 1\<rparr>) e))"
      using False h1(1,2) n by (simp add: um_resegment_def Let_def seg_split_defs)
    with h1(5) n part show ?thesis by (intro disjI2 exI [of _ n]) auto
  qed
qed


text \<open>What leaves the transmit list with one PDU: the head, or its first \<open>n\<close> bytes.\<close>

definition um_cut :: "nr_rlc_sdu_segment list \<Rightarrow> nr_rlc_sdu_segment \<Rightarrow> nr_rlc_sdu_segment list \<Rightarrow> bool" where
  "um_cut l s l' \<longleftrightarrow> (\<exists>x r. l = x # r \<and> (s = x \<and> l' = r \<or>
     (\<exists>n a. 0 < n \<and> n < seg_size x \<and> s = seg_part x n \<and> l' = seg_rest x n a # r)))"

definition um_taken :: "nr_rlc_entity_um \<Rightarrow> nr_rlc_sdu_segment \<Rightarrow> nr_rlc_entity_um \<Rightarrow> bool" where
  "um_taken e s e1 \<longleftrightarrow> um_frame e e1 \<and> segs_ok (um_heap e1) (s # um_tx_list e1) \<and>
     tail_ok (um_tx_list e1) (um_tx_end e1) \<and> (\<forall>x \<in> set (s # um_tx_list e1). seg_shape (um_heap e1) x) \<and>
     distinct (map seg_sdu (um_tx_list e1)) \<and> seg_bytes (um_heap e1) s @ um_stream e1 = um_stream e \<and>
     seg_bytes (um_heap e1) s = seg_bytes (um_heap e) s \<and> um_cut (um_tx_list e) s (um_tx_list e1)"

lemma seg_shape_bytes: "sdu_data (sdu_of h' x) = sdu_data (sdu_of h x) \<Longrightarrow> seg_shape h x \<Longrightarrow> seg_shape h' x"
  by (simp add: seg_shape_def)

lemma um_take_tx_ok:
  assumes inv: "um_inv e" and ne: "um_tx_list e = s # rest" and fits: "um_compute_pdu_header_size e s + 1 \<le> sz"
  shows "(\<exists>e1. um_take_tx e s rest sz = Inr (None, e1) \<and> um_sn_field_length e = 12 \<and> seg_whole s \<and> sz = 2 \<and>
      um_frame e e1 \<and> um_inv e1 \<and> um_tx_list e1 = rest \<and> seg_bytes (um_heap e) s @ um_stream e1 = um_stream e) \<or>
    (\<exists>s' e1. um_take_tx e s rest sz = Inr (Some s', e1) \<and> um_taken e s' e1 \<and> seg_sn (um_heap e1) s' = um_tx_next e \<and>
      um_compute_pdu_header_size e s' + seg_size s' \<le> sz)"
proof -
  let ?te = "if rest = [] then None else um_tx_end e"
  let ?e1 = "e\<lparr>um_tx_list := rest, um_tx_end := ?te\<rparr>" and ?p = "um_compute_pdu_header_size e s + seg_size s"
  have pre: "um_config_ok e" "segs_ok (um_heap e) (s # rest)" "\<forall>x \<in> set (s # rest). seg_shape (um_heap e) x"
      "tail_ok (s # rest) (um_tx_end e)" "distinct (map seg_sdu (s # rest))"
    using inv by (simp_all add: um_inv_def ne)
  have tl: "tail_ok rest ?te" by (rule tail_ok_Cons [OF pre(4)])
  obtain h where h: "sdu_update (\<lambda>u. u\<lparr>sdu_sn := um_tx_next e\<rparr>) s (um_heap e) = Inr h" "segs_ok h (s # rest)"
      "\<forall>x \<in> set (s # rest). seg_shape h x" "seg_sn h s = um_tx_next e"
      "\<forall>x. sdu_data (sdu_of h x) = sdu_data (sdu_of (um_heap e) x)" "heap_next h = heap_next (um_heap e)"
    using um_set_sn [OF pre(2,3), of "um_tx_next e"] by blast
  let ?e2 = "um_upd_common (ec_add_tx_size (- ?p)) (um_set_heap h ?e1)"
  have bytes: "seg_bytes h' = seg_bytes (um_heap e)"
    if "\<forall>x. sdu_data (sdu_of h' x) = sdu_data (sdu_of h x)" for h'
    using that h(5) by (intro ext seg_bytes_data) simp
  have hd: "um_compute_pdu_header_size ?e1 s = um_compute_pdu_header_size e s" by (simp add: um_compute_pdu_header_size_def)
  have take: "um_take_tx e s rest sz = (if ?p > sz then bindR (um_resegment s ?e2 sz) (\<lambda>(r, e3).
                   case r of None \<Rightarrow> Inr (None, e3)
                   | Some (s1, nxt) \<Rightarrow> Inr (Some s1, um_upd_common
                         (\<lambda>c. ec_add_tx_size (um_compute_pdu_header_size e3 nxt + seg_size nxt)
                            (ec_upd_stats (\<lambda>st. st\<lparr>st_txpdu_segmented := st_txpdu_segmented st + 1\<rparr>) c))
                         (e3\<lparr>um_tx_list := nxt # rest,
                             um_tx_end := (if um_tx_end e3 = None then Some (seg_addr nxt) else um_tx_end e3)\<rparr>)))
            else Inr (Some s, ?e2))"
    using h(1) by (simp add: um_take_tx_def Let_def)
  show ?thesis
  proof (cases "?p > sz")
    case False
    have "um_taken e s ?e2"
      using pre h(2,3) tl bytes [of h] by (auto simp: um_taken_def um_frame_def um_cut_def um_stream_def ne)
    moreover have "seg_sn (um_heap ?e2) s = um_tx_next e" using h(4) by simp
    moreover have "um_take_tx e s rest sz = Inr (Some s, ?e2)" unfolding take if_not_P [OF False] ..
    ultimately show ?thesis using False by auto
  next
    case True
    have cfg2: "um_config_ok ?e2" using pre(1) by (simp add: um_config_ok_def)
    have ok2: "segs_ok (um_heap ?e2) (s # rest)" using h(2) by simp
    have hd2: "um_compute_pdu_header_size ?e2 x = um_compute_pdu_header_size e x" for x by (rule um_header_cong) simp
    consider h1 where "um_sn_field_length e = 12" "seg_whole s" "sz = 2" "um_resegment s ?e2 sz = Inr (None, um_set_heap h1 ?e2)"
          "segs_ok h1 (s # rest)" "\<forall>x. sdu_data (sdu_of h1 x) = sdu_data (sdu_of h x)"
      | n h' where "0 < n" "n < seg_size s" "heap_split s h h'" "um_compute_pdu_header_size e (seg_part s n) + n \<le> sz"
          "um_resegment s ?e2 sz = Inr (Some (seg_part s n, seg_rest s n (heap_next h)),
             um_upd_common (ec_upd_stats (\<lambda>st. st\<lparr>st_txpdu_segmented := st_txpdu_segmented st + 1\<rparr>)) (um_set_heap h' ?e2))"
      using um_resegment_ok [OF cfg2 ok2, of sz] True fits unfolding hd2 by auto
    then show ?thesis
    proof cases
      case 1
      have "um_take_tx e s rest sz = Inr (None, um_set_heap h1 ?e2)" using 1(4) True by (simp add: take)
      moreover have "um_inv (um_set_heap h1 ?e2)"
        using inv pre tl segs_ok_tl [OF 1(5)] h(5) 1(6) by (auto simp: um_inv_def um_config_ok_def seg_shape_def)
      moreover have "seg_bytes (um_heap e) s @ um_stream (um_set_heap h1 ?e2) = um_stream e"
        using bytes [OF 1(6)] by (simp add: um_stream_def ne)
      ultimately show ?thesis using 1(1-3) by (auto simp: um_frame_def)
    next
      case 2
      let ?s2 = "seg_rest s n (heap_next h)"
      have ap: "segs_apart (set (s # rest))" by (rule distinct_apart [OF pre(5)])
      note core = split_core [OF h(2) 2(3,1,2) h(3) ap]
      define e4 where "e4 = um_upd_common
           (\<lambda>c. ec_add_tx_size (um_compute_pdu_header_size e ?s2 + seg_size ?s2)
              (ec_upd_stats (\<lambda>st. st\<lparr>st_txpdu_segmented := st_txpdu_segmented st + 1\<rparr>) c))
           (um_upd_common (ec_upd_stats (\<lambda>st. st\<lparr>st_txpdu_segmented := st_txpdu_segmented st + 1\<rparr>)) (um_set_heap h' ?e2)
              \<lparr>um_tx_list := ?s2 # rest, um_tx_end := (if ?te = None then Some (seg_addr ?s2) else ?te)\<rparr>)"
      have run: "um_take_tx e s rest sz = Inr (Some (seg_part s n), e4)"
        unfolding take if_P [OF True] 2(5) bindR_Inr prod.case option.case e4_def
        by (simp add: um_compute_pdu_header_size_def)
      have sel: "um_heap e4 = h'" "um_tx_list e4 = ?s2 # rest" "um_tx_end e4 = (if ?te = None then Some (seg_addr ?s2) else ?te)"
        by (simp_all add: e4_def um_upd_common_def)
      have addr: "seg_addr ?s2 \<notin> seg_addr ` set rest"
        using core(1) by (auto simp: segs_ok_def)
      have split: "seg_bytes h' (seg_part s n) @ seg_bytes h' ?s2 = seg_bytes h' s"
        using same_sdus_seg_ok [OF core(2), of s] h(2) 2(1,2) by (intro seg_bytes_split) (auto simp: segs_ok_def)
      have same: "seg_bytes h' x = seg_bytes (um_heap e) x" if "x \<in> set (s # rest)" for x
        using same_sdus_bytes [OF core(2) that] bytes [of h] by simp
      have "um_stream e = seg_bytes h' s @ concat (map (seg_bytes h') rest)"
        using same by (simp add: um_stream_def ne cong: map_cong)
      then have "seg_bytes h' (seg_part s n) @ um_stream e4 = um_stream e"
        unfolding um_stream_def sel by (simp flip: split)
      moreover have "seg_bytes (um_heap e4) (seg_part s n) = seg_bytes (um_heap e) (seg_part s n)"
        using same [of s] core(2) h(5) unfolding sel
        by (intro seg_bytes_data) (simp add: same_sdus_def same_sdu_def sdu_of_def seg_part_def)
      moreover have "um_frame e e4" by (simp add: um_frame_def e4_def um_upd_common_def)
      moreover have "distinct (map seg_sdu (?s2 # rest))" using pre(5) by (simp add: seg_rest_def)
      moreover have "um_cut (um_tx_list e) (seg_part s n) (?s2 # rest)" using 2(1,2) by (auto simp: um_cut_def ne)
      ultimately have "um_taken e (seg_part s n) e4"
        using core(1,5) tail_ok_push [OF tl addr] unfolding um_taken_def sel by auto
      moreover have "seg_sn (um_heap e4) (seg_part s n) = um_tx_next e" using core(3) h(4) sel(1) by simp
      moreover have "seg_size (seg_part s n) = n" by (simp add: seg_part_def)
      ultimately show ?thesis using run 2(4) by auto
    qed
  qed
qed


text \<open>One PDU: \<open>s\<close> is what it carries and \<open>p\<close> its bytes.\<close>

definition um_sent :: "nr_rlc_entity_um \<Rightarrow> nr_rlc_sdu_segment \<Rightarrow> byte list \<Rightarrow> nr_rlc_entity_um \<Rightarrow> bool" where
  "um_sent e s p e' \<longleftrightarrow> um_cut (um_tx_list e) s (um_tx_list e') \<and>
     (\<exists>hdr d. p = hdr @ d \<and> um_wire_header (um_sn_field_length e) (um_tx_next e) s hdr \<and>
        int (length hdr) = um_compute_pdu_header_size e s \<and> int (length d) = seg_size s \<and>
        d = seg_bytes (um_heap e) s \<and> d @ um_stream e' = um_stream e) \<and>
     um_tx_next e' = (if \<not> seg_is_first s \<and> seg_is_last s then (um_tx_next e + 1) mod um_sn_modulus e else um_tx_next e)"

definition um_lost :: "nr_rlc_entity_um \<Rightarrow> int \<Rightarrow> nr_rlc_entity_um \<Rightarrow> bool" where
  "um_lost e sz e' \<longleftrightarrow> um_sn_field_length e = 12 \<and> sz = 2 \<and>
     (\<exists>s. um_tx_list e = s # um_tx_list e' \<and> seg_whole s \<and> seg_bytes (um_heap e) s @ um_stream e' = um_stream e)"

definition um_same_data :: "nr_rlc_entity_um \<Rightarrow> nr_rlc_entity_um \<Rightarrow> bool" where
  "um_same_data e e' \<longleftrightarrow> um_sn_field_length e' = um_sn_field_length e \<and> um_sn_modulus e' = um_sn_modulus e \<and>
     um_window_size e' = um_window_size e"

lemma um_stream_same:
  assumes "same_sdus h h' l"
  shows "concat (map (seg_bytes h') l) = concat (map (seg_bytes h) l)"
proof -
  have "map (seg_bytes h') l = map (seg_bytes h) l"
    by (rule map_cong [OF refl]) (rule same_sdus_bytes [OF assms])
  then show ?thesis by (rule arg_cong)
qed

lemma um_generate_ok:
  assumes inv: "um_inv e"
  shows "\<exists>n b e'. nr_rlc_entity_um_generate_pdu now e buffer = Inr (n, b, e') \<and> um_inv e' \<and> um_same_data e e' \<and>
    length b = length buffer \<and> 0 \<le> n \<and> n \<le> int (length buffer) \<and>
    (if n = 0 then b = buffer \<and> (e' = e \<or> um_lost e (int (length buffer)) e')
     else \<exists>s. um_sent e s (take (nat n) b) e')"
proof -
  let ?sz = "int (length buffer)"
  show ?thesis
  proof (cases "um_tx_list e = [] \<or> um_compute_pdu_header_size e (hd (um_tx_list e)) + 1 > ?sz")
    case True
    then have "nr_rlc_entity_um_generate_pdu now e buffer = Inr (0, buffer, e)"
      by (cases "um_tx_list e") (auto simp: nr_rlc_entity_um_generate_pdu_def um_generate_tx_pdu_def)
    with inv show ?thesis by (simp add: um_same_data_def)
  next
    case False
    then obtain s rest where ne: "um_tx_list e = s # rest" and fits: "um_compute_pdu_header_size e s + 1 \<le> ?sz"
      by (cases "um_tx_list e") auto
    have nofit: "\<not> um_compute_pdu_header_size e s + 1 > ?sz" using fits by simp
    from um_take_tx_ok [OF inv ne fits] consider
        e1 where "um_take_tx e s rest ?sz = Inr (None, e1)" "um_lost e ?sz e1" "um_inv e1" "um_frame e e1"
      | s' e1 where "um_take_tx e s rest ?sz = Inr (Some s', e1)" "um_taken e s' e1" "seg_sn (um_heap e1) s' = um_tx_next e"
          "um_compute_pdu_header_size e s' + seg_size s' \<le> ?sz"
      using ne unfolding um_lost_def by auto
    then show ?thesis
    proof cases
      case 1
      have "nr_rlc_entity_um_generate_pdu now e buffer = Inr (0, buffer, e1)"
        unfolding nr_rlc_entity_um_generate_pdu_def um_generate_tx_pdu_def Let_def ne list.case if_not_P [OF nofit] 1(1)
        by simp
      with 1 show ?thesis by (simp add: um_same_data_def um_frame_def)
    next
      case 2
      let ?e2 = "if \<not> seg_is_first s' \<and> seg_is_last s' then e1\<lparr>um_tx_next := (um_tx_next e1 + 1) mod um_sn_modulus e1\<rparr> else e1"
      have fr: "um_frame e e1" and ok: "segs_ok (um_heap e1) (s' # um_tx_list e1)"
        using 2(2) by (simp_all add: um_taken_def)
      have cfg: "um_config_ok e1" using um_frame_config [OF fr] inv by (simp add: um_inv_def)
      have sel: "um_common ?e2 = um_common e1" "um_tx_list ?e2 = um_tx_list e1" "um_tx_end ?e2 = um_tx_end e1"
          "um_sn_field_length ?e2 = um_sn_field_length e" "um_sn_modulus ?e2 = um_sn_modulus e" "um_window_size ?e2 = um_window_size e"
          "um_tx_next ?e2 = (if \<not> seg_is_first s' \<and> seg_is_last s' then (um_tx_next e + 1) mod um_sn_modulus e else um_tx_next e)"
        using fr by (simp_all add: um_frame_def)
      have hd: "um_compute_pdu_header_size ?e2 s' = um_compute_pdu_header_size e s'" by (rule um_header_cong) (rule sel(4))
      have cfg2: "um_config_ok ?e2" using cfg by (simp add: um_config_ok_def)
      have seg: "seg_ok (um_heap ?e2) s'" using ok by (simp add: segs_ok_def)
      let ?n = "um_compute_pdu_header_size e s' + seg_size s'"
      obtain hdr b where ser: "um_serialize_sdu ?e2 s' buffer = Inr (?n, b)" "length b = length buffer"
          "um_wire_header (um_sn_field_length e) (um_tx_next e) s' hdr" "int (length hdr) = um_compute_pdu_header_size e s'"
          "take (nat ?n) b = hdr @ seg_bytes (um_heap e1) s'"
        using um_serialize_ok [OF cfg2 seg, of buffer] 2(3,4) hd sel(1,4) by auto
      obtain f h where free: "nr_rlc_free_sdu_segment s' (um_heap e1) = Inr (f, h)" "segs_ok h (um_tx_list e1)"
          "same_sdus (um_heap e1) h (um_tx_list e1)" using segs_ok_free [OF ok] by blast
      define e3 where "e3 = um_upd_common (\<lambda>c. ec_waited now (sdu_time_of_arrival (sdu_of (um_heap ?e2) s'))
                                 (ec_upd_stats (\<lambda>st. st\<lparr>st_txpdu_pkts := st_txpdu_pkts st + 1,
                                    st_txpdu_bytes := st_txpdu_bytes st + word_of_int ?sz\<rparr>) c))
                                 (?e2\<lparr>um_tx_size := um_tx_size ?e2 - seg_size s'\<rparr>)"
      have sel3: "um_heap e3 = um_heap e1" "um_tx_list e3 = um_tx_list e1" "um_tx_end e3 = um_tx_end e1"
          "um_tx_next e3 = um_tx_next ?e2" "um_sn_field_length e3 = um_sn_field_length e" "um_sn_modulus e3 = um_sn_modulus e"
          "um_window_size e3 = um_window_size e"
        unfolding e3_def um_upd_common_sel using sel by simp_all
      let ?e4 = "um_set_heap h e3"
      have run: "nr_rlc_entity_um_generate_pdu now e buffer = Inr (?n, b, ?e4)"
        unfolding nr_rlc_entity_um_generate_pdu_def um_generate_tx_pdu_def Let_def ne list.case if_not_P [OF nofit] 2(1)
          bindR_Inr prod.case option.case ser(1) e3_def [symmetric] sel3(1) free(1) ..
      have pos: "um_compute_pdu_header_size e s' \<ge> 1" "seg_size s' \<ge> 0" using seg by (auto simp: um_compute_pdu_header_size_def seg_ok_def)
      have stream: "um_stream ?e4 = um_stream e1"
        unfolding um_stream_def um_set_heap_sel sel3 by (rule um_stream_same [OF free(3)])
      have inv1: "um_config_ok e \<and> 0 \<le> um_tx_next e \<and> um_tx_next e < um_sn_modulus e" "0 < um_sn_modulus e"
        using inv by (auto simp: um_inv_def um_config_ok_def)
      have "\<forall>x \<in> set (um_tx_list e1). seg_shape h x"
        using 2(2) same_shape [OF free(3)] by (simp add: um_taken_def)
      then have inv4: "um_inv ?e4"
        using 2(2) free(2) inv1 unfolding um_inv_def um_set_heap_sel sel3 sel(7)
        by (simp add: um_taken_def um_config_ok_def sel3)
      have bytes: "seg_bytes (um_heap e1) s' @ um_stream e1 = um_stream e" "um_cut (um_tx_list e) s' (um_tx_list e1)"
          "seg_bytes (um_heap e1) s' = seg_bytes (um_heap e) s'" using 2(2) unfolding um_taken_def by blast+
      then have "um_sent e s' (take (nat ?n) b) ?e4"
        using ser(3-5) stream length_seg_bytes [OF seg] sel(1) unfolding um_sent_def um_set_heap_sel sel3 sel(7) by auto
      with run inv4 pos ser(2) 2(4) show ?thesis by (auto simp: um_same_data_def sel3)
    qed
  qed
qed

end
