(* ===== verification/Rlc_Um_Run.thy ===== *)
theory Rlc_Um_Run
  imports Rlc_Um_Proofs
begin

text \<open>
  Runs of an unacknowledged mode sender: the bytes of the PDUs are the bytes of the accepted SDUs, in
  order, and what a grant of two bytes does to a whole SDU.
\<close>

section \<open>SDUs from the upper layer\<close>

definition um_accepts :: "nr_rlc_entity_um \<Rightarrow> byte list \<Rightarrow> bool" where
  "um_accepts e buffer \<longleftrightarrow> um_tx_size e + int (length buffer) \<le> um_tx_maxsize e"

lemma um_new_sdu:
  assumes inv: "um_inv e" and new: "nr_rlc_new_sdu buffer i (um_heap e) = (s, h)" and max: "int (length buffer) \<le> NR_SDU_MAX"
  shows "nr_rlc_sdu_segment_list_append (um_tx_list e) (um_tx_end e) s = Inr (um_tx_list e @ [s], Some (seg_addr s))"
    and "segs_ok h (um_tx_list e @ [s])" "tail_ok (um_tx_list e @ [s]) (Some (seg_addr s))"
    "distinct (map seg_sdu (um_tx_list e @ [s]))" "\<forall>x \<in> set (um_tx_list e @ [s]). seg_shape h x"
    "concat (map (seg_bytes h) (um_tx_list e @ [s])) = um_stream e @ buffer"
proof -
  have ok: "segs_ok (um_heap e) (um_tx_list e)" and tail: "tail_ok (um_tx_list e) (um_tx_end e)"
    and dist: "distinct (map seg_sdu (um_tx_list e))" and shape: "\<forall>x \<in> set (um_tx_list e). seg_shape (um_heap e) x"
    using inv by (simp_all add: um_inv_def)
  note n = new_sdu_ok [OF segs_ok_heap [OF ok] new] and ns = segs_ok_new [OF ok new]
  show "nr_rlc_sdu_segment_list_append (um_tx_list e) (um_tx_end e) s = Inr (um_tx_list e @ [s], Some (seg_addr s))"
    by (rule seg_tail.append_end [OF tail n(2)])
  show "segs_ok h (um_tx_list e @ [s])" by (rule segs_ok_perm [OF ns(1)]) simp
  show "tail_ok (um_tx_list e @ [s]) (Some (seg_addr s))" by (rule seg_tail.append_keeps [OF tail n(2)])
  have fresh: "seg_sdu x \<noteq> seg_sdu s" if "x \<in> set (um_tx_list e)" for x
    using new heap_ok_live [OF segs_ok_heap [OF ok] that] heap_ok_fresh [OF segs_ok_heap [OF ok]]
    by (auto simp: nr_rlc_new_sdu_def Let_def)
  then have "seg_sdu s \<notin> seg_sdu ` set (um_tx_list e)" by fastforce
  then show "distinct (map seg_sdu (um_tx_list e @ [s]))" using dist by simp
  have s: "seg_shape h s" "seg_bytes h s = buffer"
    using new max by (auto simp: nr_rlc_new_sdu_def Let_def seg_shape_def sdu_of_def seg_bytes_def)
  show "\<forall>x \<in> set (um_tx_list e @ [s]). seg_shape h x" using s(1) shape same_shape [OF ns(2)] by auto
  show "concat (map (seg_bytes h) (um_tx_list e @ [s])) = um_stream e @ buffer"
    using um_stream_same [OF ns(2)] s(2) by (simp add: um_stream_def)
qed

lemma um_inv_cong:
  assumes "um_heap e' = um_heap e" "um_tx_list e' = um_tx_list e" "um_tx_end e' = um_tx_end e" "um_tx_next e' = um_tx_next e"
    "um_same_data e e'"
  shows "um_inv e' = um_inv e" "um_stream e' = um_stream e"
  using assms by (simp_all add: um_inv_def um_stream_def um_same_data_def um_config_ok_def)

lemma um_recv_sdu_ok:
  assumes inv: "um_inv e" and max: "int (length buffer) \<le> NR_SDU_MAX"
  shows "\<exists>e'. nr_rlc_entity_um_recv_sdu now e buffer i = Inr e' \<and> um_inv e' \<and> um_same_data e e' \<and>
    um_stream e' = (if um_accepts e buffer then um_stream e @ buffer else um_stream e)"
proof -
  let ?sz = "int (length buffer)"
  define e1 where "e1 = (let e0 = um_upd_common (ec_upd_stats (\<lambda>st. st\<lparr>st_rxsdu_pkts := st_rxsdu_pkts st + 1,
                 st_rxsdu_bytes := st_rxsdu_bytes st + word_of_int ?sz\<rparr>)) e
    in if um_sdu_rejected e0 \<noteq> 0 \<and> um_t_current e0 > um_t_log_buffer_full e0 + 1000
       then e0\<lparr>um_sdu_rejected := 0, um_t_log_buffer_full := um_t_current e0\<rparr> else e0)"
  have f1: "um_heap e1 = um_heap e" "um_tx_list e1 = um_tx_list e" "um_tx_end e1 = um_tx_end e" "um_tx_next e1 = um_tx_next e"
      "um_same_data e e1" "um_tx_size e1 = um_tx_size e" "um_tx_maxsize e1 = um_tx_maxsize e"
    by (simp_all add: e1_def Let_def um_same_data_def)
  have i1: "um_inv e1" and q1: "um_stream e1 = um_stream e" using inv um_inv_cong [OF f1(1-5)] by simp_all
  have run: "nr_rlc_entity_um_recv_sdu now e buffer i =
      (if um_tx_size e1 + ?sz > um_tx_maxsize e1
              then Inr (um_upd_common (ec_upd_stats (\<lambda>st. st\<lparr>st_rxsdu_dd_pkts := st_rxsdu_dd_pkts st + 1,
                           st_rxsdu_dd_bytes := st_rxsdu_dd_bytes st + word_of_int ?sz\<rparr>))
                         (e1\<lparr>um_sdu_rejected := um_sdu_rejected e1 + 1\<rparr>))
              else
                case nr_rlc_new_sdu buffer i (um_heap e1) of (s, h) \<Rightarrow>
                let e2 = um_set_heap h (e1\<lparr>um_tx_size := um_tx_size e1 + ?sz\<rparr>)
                in bindR (nr_rlc_sdu_segment_list_append (um_tx_list e2) (um_tx_end e2) s) (\<lambda>(l, t).
                   let e3 = um_upd_common (ec_add_tx_size (um_compute_pdu_header_size e2 s + seg_size s))
                              (e2\<lparr>um_tx_list := l, um_tx_end := t\<rparr>)
                   in if ec_avg_time_is_on (um_common e3)
                      then bindR (sdu_update (\<lambda>u. u\<lparr>sdu_time_of_arrival := now\<rparr>) s (um_heap e3)) (\<lambda>h'.
                             Inr (um_set_heap h' e3))
                      else Inr e3))"
    using max unfolding nr_rlc_entity_um_recv_sdu_def e1_def Let_def by (simp only: not_less [symmetric] if_False simp_thms)
  show ?thesis
  proof (cases "um_accepts e buffer")
    case False
    have any: "um_inv (um_upd_common (ec_upd_stats g) (e1\<lparr>um_sdu_rejected := k\<rparr>))"
        "um_stream (um_upd_common (ec_upd_stats g) (e1\<lparr>um_sdu_rejected := k\<rparr>)) = um_stream e" for g k
      using i1 q1 um_inv_cong [of "um_upd_common (ec_upd_stats g) (e1\<lparr>um_sdu_rejected := k\<rparr>)" e1] by (simp_all add: um_same_data_def)
    moreover have "um_same_data e (um_upd_common g (e1\<lparr>um_sdu_rejected := k\<rparr>))" for g k
      using f1(5) by (simp add: um_same_data_def)
    moreover have "um_tx_size e1 + ?sz > um_tx_maxsize e1" using False by (simp add: um_accepts_def f1)
    ultimately show ?thesis using False unfolding run by simp
  next
    case True
    then have room: "\<not> um_tx_size e1 + ?sz > um_tx_maxsize e1" by (simp add: um_accepts_def f1)
    obtain s h where new: "nr_rlc_new_sdu buffer i (um_heap e1) = (s, h)" by fastforce
    note sn = um_new_sdu [OF i1 new max]
    let ?l = "um_tx_list e1 @ [s]"
    define e3 where "e3 = (let e2 = um_set_heap h (e1\<lparr>um_tx_size := um_tx_size e1 + ?sz\<rparr>) in
       um_upd_common (ec_add_tx_size (um_compute_pdu_header_size e2 s + seg_size s)) (e2\<lparr>um_tx_list := ?l, um_tx_end := Some (seg_addr s)\<rparr>))"
    have r3: "nr_rlc_entity_um_recv_sdu now e buffer i = (if ec_avg_time_is_on (um_common e3)
                      then bindR (sdu_update (\<lambda>u. u\<lparr>sdu_time_of_arrival := now\<rparr>) s (um_heap e3)) (\<lambda>h'. Inr (um_set_heap h' e3))
                      else Inr e3)"
      using sn(1) unfolding run if_not_P [OF room] new by (simp add: Let_def e3_def)
    have f3: "um_heap e3 = h" "um_tx_list e3 = ?l" "um_tx_end e3 = Some (seg_addr s)" "um_tx_next e3 = um_tx_next e1"
        "um_same_data e e3"
      using f1(5) by (simp_all add: e3_def Let_def um_same_data_def)
    have f4: "um_sn_field_length e3 = um_sn_field_length e1" "um_sn_modulus e3 = um_sn_modulus e1"
        "um_window_size e3 = um_window_size e1" by (simp_all add: e3_def Let_def)
    have i3: "um_inv e3 \<and> um_stream e3 = um_stream e @ buffer"
      using i1 sn(2-6) unfolding um_inv_def um_stream_def um_config_ok_def f3(1-4) f4 q1 [unfolded um_stream_def]
      by blast
    show ?thesis
    proof (cases "ec_avg_time_is_on (um_common e3)")
      case off: False
      with i3 f3(5) True show ?thesis unfolding r3 by simp
    next
      case on: True
      obtain h' where h': "sdu_update (\<lambda>u. u\<lparr>sdu_time_of_arrival := now\<rparr>) s h = Inr h'" "segs_ok h' ?l" "same_sdus h h' ?l"
        using segs_ok_update [OF sn(2), of s "\<lambda>u. u\<lparr>sdu_time_of_arrival := now\<rparr>"] by (auto simp: same_sdu_def)
      have "um_inv (um_set_heap h' e3)"
        using i3 h'(2) same_shape [OF h'(3)] sn(5) unfolding um_inv_def um_config_ok_def um_set_heap_sel f3(1-4) f4 by blast
      moreover have "um_stream (um_set_heap h' e3) = um_stream e3"
        using um_stream_same [OF h'(3)] f3(1,2) by (simp add: um_stream_def)
      moreover have "um_same_data e (um_set_heap h' e3)" using f3(5) by (simp add: um_same_data_def)
      ultimately show ?thesis using on h'(1) i3 f3(1) True unfolding r3 by simp
    qed
  qed
qed


section \<open>Runs\<close>

datatype um_op = UmPut "byte list" | UmGet nat

text \<open>A run of the entity: the SDUs it accepted, the PDUs it made, and the entity behind.\<close>

fun um_run :: "u64 \<Rightarrow> um_op list \<Rightarrow> nr_rlc_entity_um \<Rightarrow> (byte list list \<times> byte list list \<times> nr_rlc_entity_um) result" where
  "um_run now [] e = Inr ([], [], e)"
| "um_run now (UmPut b # l) e =
     bindR (nr_rlc_entity_um_recv_sdu now e b 0) (\<lambda>e'.
     bindR (um_run now l e') (\<lambda>(acc, out, e''). Inr (if um_accepts e b then b # acc else acc, out, e'')))"
| "um_run now (UmGet n # l) e =
     bindR (nr_rlc_entity_um_generate_pdu now e (replicate n 0)) (\<lambda>(k, b, e').
     bindR (um_run now l e') (\<lambda>(acc, out, e''). Inr (acc, if k = 0 then out else take (nat k) b # out, e'')))"

fun um_op_ok :: "um_op \<Rightarrow> bool" where
  "um_op_ok (UmPut b) \<longleftrightarrow> int (length b) \<le> NR_SDU_MAX"
| "um_op_ok (UmGet n) = True"

text \<open>The grants that can lose an SDU: two bytes, with sequence numbers of 12 bits.\<close>

definition um_grants_of_two :: "nat \<Rightarrow> um_op list \<Rightarrow> nat" where
  "um_grants_of_two k l = (if k = 12 then length (filter (\<lambda>x. x = UmGet 2) l) else 0)"

text \<open>\<open>p\<close> is a header of the mode followed by the \<open>d\<close> that it announces.\<close>

definition um_payload :: "nat \<Rightarrow> byte list \<Rightarrow> byte list \<Rightarrow> bool" where
  "um_payload k p d \<longleftrightarrow> (\<exists>hdr sn s. p = hdr @ d \<and> um_wire_header k sn s hdr \<and> int (length d) = seg_size s)"

lemma um_sent_payload:
  assumes "um_sent e s p e'"
  shows "\<exists>d. um_payload (um_sn_field_length e) p d \<and> d @ um_stream e' = um_stream e"
  using assms unfolding um_sent_def um_payload_def by metis

text \<open>
  The bytes that leave the transmit list in pieces, each with whether it was sent: those that were sent
  are the payloads of the PDUs, the others were lost.
\<close>

definition um_pieces :: "nat \<Rightarrow> um_op list \<Rightarrow> byte list list \<Rightarrow> (bool \<times> byte list) list \<Rightarrow> bool" where
  "um_pieces k l out ds \<longleftrightarrow> list_all2 (um_payload k) out (map snd (filter fst ds)) \<and>
     length (filter (\<lambda>d. \<not> fst d) ds) \<le> um_grants_of_two k l"

lemma um_run_ok:
  assumes "um_inv e" "\<forall>x \<in> set l. um_op_ok x"
  shows "\<exists>acc out e' ds. um_run now l e = Inr (acc, out, e') \<and> um_inv e' \<and>
    um_pieces (um_sn_field_length e) l out ds \<and> concat (map snd ds) @ um_stream e' = um_stream e @ concat acc"
  using assms
proof (induction l arbitrary: e)
  case Nil
  then show ?case by (intro exI [of _ "[]"] exI [of _ e]) (simp add: um_pieces_def)
next
  case (Cons x l)
  show ?case
  proof (cases x)
    case (UmPut b)
    with Cons.prems obtain e1 where e1: "nr_rlc_entity_um_recv_sdu now e b 0 = Inr e1" "um_inv e1" "um_same_data e e1"
        "um_stream e1 = (if um_accepts e b then um_stream e @ b else um_stream e)"
      using um_recv_sdu_ok [of e b now 0] by auto
    have k: "um_sn_field_length e1 = um_sn_field_length e" using e1(3) by (simp add: um_same_data_def)
    with Cons.prems(2) obtain acc out e2 ds where e2: "um_run now l e1 = Inr (acc, out, e2)" "um_inv e2"
        "um_pieces (um_sn_field_length e) l out ds" "concat (map snd ds) @ um_stream e2 = um_stream e1 @ concat acc"
      using Cons.IH [OF e1(2)] by auto
    have "um_pieces (um_sn_field_length e) (x # l) out ds" using e2(3) UmPut by (auto simp: um_pieces_def um_grants_of_two_def)
    with UmPut e1 e2 show ?thesis
      by (intro exI [of _ "if um_accepts e b then b # acc else acc"] exI [of _ out] exI [of _ e2] exI [of _ ds]) simp
  next
    case (UmGet n)
    from um_generate_ok [OF Cons.prems(1), of now "replicate n 0", unfolded length_replicate] obtain j b e1 where
      e1: "nr_rlc_entity_um_generate_pdu now e (replicate n 0) = Inr (j, b, e1)" "um_inv e1" "um_same_data e e1"
        "if j = 0 then b = replicate n 0 \<and> (e1 = e \<or> um_lost e (int n) e1) else \<exists>s. um_sent e s (take (nat j) b) e1"
      by blast
    have k: "um_sn_field_length e1 = um_sn_field_length e" using e1(3) by (simp add: um_same_data_def)
    with Cons.prems(2) obtain acc out e2 ds where e2: "um_run now l e1 = Inr (acc, out, e2)" "um_inv e2"
        "um_pieces (um_sn_field_length e) l out ds" "concat (map snd ds) @ um_stream e2 = um_stream e1 @ concat acc"
      using Cons.IH [OF e1(2)] by auto
    have more: "um_pieces (um_sn_field_length e) (x # l) out ds" if "um_pieces (um_sn_field_length e) l out ds" for out ds
      using that by (auto simp: um_pieces_def um_grants_of_two_def)
    consider (kept) "j = 0" "e1 = e" | (lost) "j = 0" "um_lost e (int n) e1"
      | (sent) s where "j \<noteq> 0" "um_sent e s (take (nat j) b) e1" using e1(4) by (auto split: if_splits)
    then show ?thesis
    proof cases
      case kept
      with UmGet e1(1) e2 more [OF e2(3)] show ?thesis by auto
    next
      case lost
      then obtain d where d: "um_sn_field_length e = 12" "n = 2" "d @ um_stream e1 = um_stream e"
        by (auto simp: um_lost_def)
      have "um_pieces (um_sn_field_length e) (x # l) out ((False, d) # ds)"
        using e2(3) d(1,2) UmGet by (simp add: um_pieces_def um_grants_of_two_def)
      moreover have "concat (map snd ((False, d) # ds)) @ um_stream e2 = um_stream e @ concat acc"
        using d(3) e2(4) by (metis append.assoc concat.simps(2) list.simps(9) snd_conv)
      ultimately show ?thesis using lost(1) UmGet e1(1) e2(1,2)
        by (intro exI [of _ acc] exI [of _ out] exI [of _ e2] exI [of _ "(False, d) # ds"]) simp
    next
      case sent
      from um_sent_payload [OF sent(2)] obtain d where
        d: "um_payload (um_sn_field_length e) (take (nat j) b) d" "d @ um_stream e1 = um_stream e" by blast
      have "um_pieces (um_sn_field_length e) (x # l) (take (nat j) b # out) ((True, d) # ds)"
        using more [OF e2(3)] d(1) by (simp add: um_pieces_def)
      moreover have "concat (map snd ((True, d) # ds)) @ um_stream e2 = um_stream e @ concat acc"
        using d(2) e2(4) by (metis append.assoc concat.simps(2) list.simps(9) snd_conv)
      ultimately show ?thesis using UmGet e1(1) e2(1,2) sent(1)
        by (intro exI [of _ acc] exI [of _ "take (nat j) b # out"] exI [of _ e2] exI [of _ "(True, d) # ds"]) simp
    qed
  qed
qed

lemma um_inv_new:
  assumes "new_nr_rlc_entity_um rx tx t k = Inr e"
  shows "um_inv e \<and> um_stream e = [] \<and> um_sn_field_length e = k \<and> um_tx_list e = []"
  using assms by (auto simp: new_nr_rlc_entity_um_def bindR_eq_Inr entity_init_def um_inv_def um_config_ok_def um_stream_def
      segs_ok_def heap_ok_def rlc_heap_empty_def split: if_splits)

section \<open>Properties\<close>

text \<open>
  Property C36. Any sequence of SDUs from the upper layer (of at most \<open>NR_SDU_MAX\<close> bytes) and grants
  (of any size) to a new unacknowledged mode sender: no operation fails, and the bytes that leave the
  transmit list piece by piece, followed by the bytes that still wait, are the bytes of the accepted SDUs
  in order. The pieces are the payloads of the PDUs, in order, except for at most one piece for each
  grant of two bytes with sequence numbers of 12 bits, which is lost. So without such grants segmentation
  loses, repeats and reorders nothing.
\<close>

theorem um_stream_preserved:
  assumes "new_nr_rlc_entity_um rx tx t k = Inr e" "\<forall>x \<in> set l. um_op_ok x"
  shows "\<exists>acc out e' ds. um_run now l e = Inr (acc, out, e') \<and> um_inv e' \<and>
    concat (map snd ds) @ um_stream e' = concat acc \<and>
    list_all2 (um_payload k) out (map snd (filter fst ds)) \<and>
    length (filter (\<lambda>d. \<not> fst d) ds) \<le> um_grants_of_two k l"
  using um_run_ok [of e l now] um_inv_new [OF assms(1)] assms(2) by (auto simp: um_pieces_def)

theorem um_stream_preserved_witness:
  "\<exists>e acc out e' ds. new_nr_rlc_entity_um 100 100 35 12 = Inr e \<and>
    um_run 0 [UmPut [1, 2, 3, 4], UmGet 3, UmPut [5], UmGet 9, UmGet 1] e = Inr (acc, out, e') \<and>
    list_all2 (um_payload 12) out ds \<and> concat ds @ um_stream e' = concat acc"
proof -
  let ?l = "[UmPut [1, 2, 3, 4], UmGet 3, UmPut [5], UmGet 9, UmGet 1]"
  obtain e where e: "new_nr_rlc_entity_um 100 100 35 12 = Inr e"
    by (auto simp: new_nr_rlc_entity_um_def entity_init_def time_average_new_def)
  have "\<forall>x \<in> set ?l. um_op_ok x" by (simp add: NR_SDU_MAX_def)
  from um_stream_preserved [OF e this, of 0] obtain acc out e' ds where r: "um_run 0 ?l e = Inr (acc, out, e')"
      "concat (map snd ds) @ um_stream e' = concat acc" "list_all2 (um_payload 12) out (map snd (filter fst ds))"
      "length (filter (\<lambda>d. \<not> fst d) ds) \<le> um_grants_of_two 12 ?l" by blast
  have "filter (\<lambda>d. \<not> fst d) ds = []" using r(4) by (simp add: um_grants_of_two_def)
  then have "filter fst ds = ds" by (auto simp: filter_empty_conv filter_id_conv)
  with r e show ?thesis by metis
qed

text \<open>
  With sequence numbers of 12 bits a grant of two bytes takes a whole SDU off the transmit
  list without sending a byte of it: the header of a segment leaves no room, the SDU is forgotten, and
  a larger grant afterwards finds nothing to send.
\<close>

theorem um_grant_of_two_loses_sdu:
  "case new_nr_rlc_entity_um 100 100 35 12 of
     Inr e \<Rightarrow> (case um_run 0 [UmPut [1, 2, 3, 4], UmGet 2, UmGet 9] e of
        Inr (acc, out, e') \<Rightarrow> acc = [[1, 2, 3, 4]] \<and> out = [] \<and> um_tx_list e' = [] \<and> um_tx_size e' = 4
      | Inl _ \<Rightarrow> False)
   | Inl _ \<Rightarrow> False"
  by code_simp

end
