(* ===== verification/Rlc_Tm.thy ===== *)
theory Rlc_Tm
  imports Rlc_Entity
begin

text \<open>
  The transparent mode entity (\<open>nr_rlc_entity_tm.c\<close>, \<open>nr_rlc_entity_tm.h\<close> and its part of
  \<open>nr_rlc_entity.c\<close>): SDUs are sent as they are, in the order they came. The lemmas show that it is
  a bounded FIFO queue.
\<close>

record nr_rlc_entity_tm =
  tm_common :: nr_rlc_entity
  tm_t_current :: u64
  tm_t_log_buffer_full :: u64
  tm_sdu_rejected :: int
  tm_tx_list :: "nr_rlc_sdu_segment list"
  tm_tx_end :: "nat option"
  tm_tx_size :: int
  tm_tx_maxsize :: int

definition tm_upd_common :: "(nr_rlc_entity \<Rightarrow> nr_rlc_entity) \<Rightarrow> nr_rlc_entity_tm \<Rightarrow> nr_rlc_entity_tm" where
  "tm_upd_common f e = e\<lparr>tm_common := f (tm_common e)\<rparr>"

abbreviation tm_heap :: "nr_rlc_entity_tm \<Rightarrow> rlc_heap" where
  "tm_heap e \<equiv> ec_heap (tm_common e)"

definition tm_set_heap :: "rlc_heap \<Rightarrow> nr_rlc_entity_tm \<Rightarrow> nr_rlc_entity_tm" where
  "tm_set_heap h e = e\<lparr>tm_common := (tm_common e)\<lparr>ec_heap := h\<rparr>\<rparr>"

definition new_nr_rlc_entity_tm :: "int \<Rightarrow> nr_rlc_entity_tm result" where
  "new_nr_rlc_entity_tm tx_maxsize =
     bindR (entity_init NR_RLC_TM) (\<lambda>c.
       Inr \<lparr>tm_common = c, tm_t_current = 0, tm_t_log_buffer_full = 0, tm_sdu_rejected = 0,
            tm_tx_list = [], tm_tx_end = None, tm_tx_size = 0, tm_tx_maxsize = tx_maxsize\<rparr>)"

definition nr_rlc_entity_tm_recv_pdu :: "nr_rlc_entity_tm \<Rightarrow> byte list \<Rightarrow> nr_rlc_entity_tm" where
  "nr_rlc_entity_tm_recv_pdu e buffer =
     (let sz = word_of_nat (length buffer)
      in tm_upd_common (\<lambda>c.
           ec_upd_stats (\<lambda>s. s\<lparr>st_txsdu_pkts := st_txsdu_pkts s + 1,
               st_txsdu_bytes := st_txsdu_bytes s + word_of_nat (length buffer)\<rparr>)
             (ec_call (DeliverSdu buffer)
               (ec_upd_stats (\<lambda>s. s\<lparr>st_rxpdu_pkts := st_rxpdu_pkts s + 1,
                   st_rxpdu_bytes := st_rxpdu_bytes s + sz\<rparr>) c))) e)"

text \<open>The number of bytes of the PDU (0 for none), the buffer and the entity.\<close>

definition tm_generate_tx_pdu ::
  "u64 \<Rightarrow> nr_rlc_entity_tm \<Rightarrow> byte list \<Rightarrow> (int \<times> byte list \<times> nr_rlc_entity_tm) result" where
  "tm_generate_tx_pdu now e buffer =
     (let sz = int (length buffer)
      in case tm_tx_list e of
           [] \<Rightarrow> Inr (0, buffer, e)
         | s # rest \<Rightarrow>
             if seg_size s > sz then Inr (0, buffer, e)
             else
               let e1 = e\<lparr>tm_tx_list := rest, tm_tx_end := (if rest = [] then None else tm_tx_end e)\<rparr>
               in bindR (slice (sdu_data (sdu_of (tm_heap e1) s)) 0 (seg_size s)) (\<lambda>data.
                  bindR (blit buffer 0 data) (\<lambda>b.
                  let e2 = tm_upd_common (\<lambda>c. ec_add_tx_size (- seg_size s)
                             (ec_waited now (sdu_time_of_arrival (sdu_of (tm_heap e1) s))
                               (ec_upd_stats (\<lambda>st. st\<lparr>st_txpdu_pkts := st_txpdu_pkts st + 1,
                                  st_txpdu_bytes := st_txpdu_bytes st + word_of_int sz\<rparr>) c)))
                             (e1\<lparr>tm_tx_size := tm_tx_size e1 - seg_size s\<rparr>)
                  in bindR (nr_rlc_free_sdu_segment s (tm_heap e2)) (\<lambda>(freed, h).
                     Inr (seg_size s, b, tm_set_heap h e2)))))"

text \<open>
  The fields \<open>status_size\<close>, \<open>tx_size\<close> and \<open>retx_size\<close> of the result; the code leaves \<open>tx_bytes\<close> and
  \<open>total_tx_bytes\<close> uninitialised.
\<close>

definition nr_rlc_entity_tm_buffer_status :: "nr_rlc_entity_tm \<Rightarrow> int \<Rightarrow> int \<times> int \<times> int" where
  "nr_rlc_entity_tm_buffer_status e maxsize = (0, bs_tx_size (ec_bstatus (tm_common e)), 0)"

definition nr_rlc_entity_tm_generate_pdu ::
  "u64 \<Rightarrow> nr_rlc_entity_tm \<Rightarrow> byte list \<Rightarrow> (int \<times> byte list \<times> nr_rlc_entity_tm) result" where
  "nr_rlc_entity_tm_generate_pdu now e buffer = tm_generate_tx_pdu now e buffer"

definition nr_rlc_entity_tm_recv_sdu ::
  "u64 \<Rightarrow> nr_rlc_entity_tm \<Rightarrow> byte list \<Rightarrow> int \<Rightarrow> nr_rlc_entity_tm result" where
  "nr_rlc_entity_tm_recv_sdu now e buffer sdu_id =
     (let sz = int (length buffer);
          e0 = tm_upd_common (ec_upd_stats (\<lambda>st. st\<lparr>st_rxsdu_pkts := st_rxsdu_pkts st + 1,
                 st_rxsdu_bytes := st_rxsdu_bytes st + word_of_int sz\<rparr>)) e
      in if sz > NR_SDU_MAX then Inl Exit
         else
           let e1 = (if tm_sdu_rejected e0 \<noteq> 0 \<and> tm_t_current e0 > tm_t_log_buffer_full e0 + 1000
                     then e0\<lparr>tm_sdu_rejected := 0, tm_t_log_buffer_full := tm_t_current e0\<rparr> else e0)
           in if tm_tx_size e1 + sz > tm_tx_maxsize e1
              then Inr (tm_upd_common (ec_upd_stats (\<lambda>st. st\<lparr>st_rxsdu_dd_pkts := st_rxsdu_dd_pkts st + 1,
                           st_rxsdu_dd_bytes := st_rxsdu_dd_bytes st + word_of_int sz\<rparr>))
                         (e1\<lparr>tm_sdu_rejected := tm_sdu_rejected e1 + 1\<rparr>))
              else
                case nr_rlc_new_sdu buffer sdu_id (tm_heap e1) of (s, h) \<Rightarrow>
                let e2 = tm_set_heap h (e1\<lparr>tm_tx_size := tm_tx_size e1 + sz\<rparr>)
                in bindR (nr_rlc_sdu_segment_list_append (tm_tx_list e2) (tm_tx_end e2) s) (\<lambda>(l, t).
                   let e3 = tm_upd_common (ec_add_tx_size (seg_size s)) (e2\<lparr>tm_tx_list := l, tm_tx_end := t\<rparr>)
                   in if ec_avg_time_is_on (tm_common e3)
                      then bindR (sdu_update (\<lambda>u. u\<lparr>sdu_time_of_arrival := now\<rparr>) s (tm_heap e3)) (\<lambda>h'.
                             Inr (tm_set_heap h' e3))
                      else Inr e3))"

definition nr_rlc_entity_tm_set_time :: "nr_rlc_entity_tm \<Rightarrow> u64 \<Rightarrow> nr_rlc_entity_tm" where
  "nr_rlc_entity_tm_set_time e now = e\<lparr>tm_t_current := now\<rparr>"

definition nr_rlc_entity_tm_discard_sdu :: "nr_rlc_entity_tm \<Rightarrow> int \<Rightarrow> nr_rlc_entity_tm" where
  "nr_rlc_entity_tm_discard_sdu e sdu_id = e"

definition tm_clear_entity :: "nr_rlc_entity_tm \<Rightarrow> nr_rlc_entity_tm result" where
  "tm_clear_entity e =
     (let e1 = e\<lparr>tm_t_current := 0, tm_t_log_buffer_full := 0, tm_sdu_rejected := 0\<rparr>
      in bindR (nr_rlc_free_sdu_segment_list (tm_tx_list e1) (tm_heap e1)) (\<lambda>h.
         Inr (tm_upd_common (\<lambda>c. c\<lparr>ec_heap := h, ec_bstatus := (ec_bstatus c)\<lparr>bs_tx_size := 0\<rparr>\<rparr>)
           (e1\<lparr>tm_tx_list := [], tm_tx_end := None, tm_tx_size := 0\<rparr>))))"

definition nr_rlc_entity_tm_reestablishment :: "nr_rlc_entity_tm \<Rightarrow> nr_rlc_entity_tm result" where
  "nr_rlc_entity_tm_reestablishment e = tm_clear_entity e"

definition nr_rlc_entity_tm_delete :: "nr_rlc_entity_tm \<Rightarrow> rlc_heap result" where
  "nr_rlc_entity_tm_delete e = bindR (tm_clear_entity e) (\<lambda>e1. Inr (tm_heap e1))"

definition nr_rlc_entity_tm_available_tx_space :: "nr_rlc_entity_tm \<Rightarrow> int" where
  "nr_rlc_entity_tm_available_tx_space e = tm_tx_maxsize e - tm_tx_size e"

section \<open>A bounded queue\<close>

text \<open>The SDUs that wait, in order: the abstract state of the entity.\<close>

definition tm_queue :: "nr_rlc_entity_tm \<Rightarrow> byte list list" where
  "tm_queue e = map (\<lambda>s. sdu_data (sdu_of (tm_heap e) s)) (tm_tx_list e)"

definition tm_inv :: "nr_rlc_entity_tm \<Rightarrow> bool" where
  "tm_inv e \<longleftrightarrow> heap_ok (tm_heap e) (tm_tx_list e) \<and> tail_ok (tm_tx_list e) (tm_tx_end e) \<and>
     distinct (map seg_sdu (tm_tx_list e)) \<and>
     (\<forall>s \<in> set (tm_tx_list e). seg_size s = int (length (sdu_data (sdu_of (tm_heap e) s)))) \<and>
     tm_tx_size e = sum_list (map (int \<circ> length) (tm_queue e)) \<and>
     bs_tx_size (ec_bstatus (tm_common e)) = tm_tx_size e"

lemma tm_new_ok: "new_nr_rlc_entity_tm n = Inr e \<Longrightarrow> tm_inv e \<and> tm_queue e = []"
  by (auto simp: new_nr_rlc_entity_tm_def tm_inv_def tm_queue_def entity_init_def heap_ok_def
      rlc_heap_empty_def result_simps)

lemma tm_upd_common_sel [simp]:
  "tm_tx_list (tm_upd_common f e) = tm_tx_list e" "tm_tx_end (tm_upd_common f e) = tm_tx_end e"
  "tm_tx_size (tm_upd_common f e) = tm_tx_size e" "tm_tx_maxsize (tm_upd_common f e) = tm_tx_maxsize e"
  "tm_common (tm_upd_common f e) = f (tm_common e)"
  by (simp_all add: tm_upd_common_def)

lemma tm_set_heap_sel [simp]:
  "tm_tx_list (tm_set_heap h e) = tm_tx_list e" "tm_tx_end (tm_set_heap h e) = tm_tx_end e"
  "tm_tx_size (tm_set_heap h e) = tm_tx_size e" "tm_tx_maxsize (tm_set_heap h e) = tm_tx_maxsize e"
  "tm_heap (tm_set_heap h e) = h" "ec_bstatus (tm_common (tm_set_heap h e)) = ec_bstatus (tm_common e)"
  "ec_avg_time_is_on (tm_common (tm_set_heap h e)) = ec_avg_time_is_on (tm_common e)"
  by (simp_all add: tm_set_heap_def)

end
