(* ===== verification/Rlc_Tm_Proofs.thy ===== *)
theory Rlc_Tm_Proofs
  imports Rlc_Tm Rlc_Segments
begin

text \<open>
  The transparent mode entity refines a bounded queue of SDUs: each operation of the entity, seen
  through \<open>tm_queue\<close>, is the operation of the queue.
\<close>

section \<open>The abstract queue\<close>

definition queue_bytes :: "byte list list \<Rightarrow> int" where
  "queue_bytes q = sum_list (map (int \<circ> length) q)"

definition queue_put :: "int \<Rightarrow> byte list \<Rightarrow> byte list list \<Rightarrow> byte list list" where
  "queue_put limit x q = (if queue_bytes q + int (length x) > limit then q else q @ [x])"

text \<open>The SDU that fits into a grant of \<open>room\<close> bytes, and the queue behind.\<close>

fun queue_get :: "nat \<Rightarrow> byte list list \<Rightarrow> byte list option \<times> byte list list" where
  "queue_get room [] = (None, [])"
| "queue_get room (x # q) = (if length x > room then (None, x # q) else (Some x, q))"

section \<open>Refinement\<close>

lemma tm_inv_update:
  assumes "heap_ok h l" "s \<in> set l" "sdu_update f s h = Inr h'"
    and "\<And>u. sdu_ref_count (f u) = sdu_ref_count u" "\<And>u. sdu_free_count (f u) = sdu_free_count u"
    and "\<And>u. sdu_data (f u) = sdu_data u"
  shows "heap_ok h' l" "\<And>x. sdu_data (sdu_of h' x) = sdu_data (sdu_of h x)"
proof -
  show "heap_ok h' l" using sdu_update_ok [OF assms(1,2), of f] assms(3-5) by auto
  obtain u where "heap_sdu h (seg_sdu s) = Some u" "h' = h\<lparr>heap_sdu := (heap_sdu h)(seg_sdu s \<mapsto> f u)\<rparr>"
    using assms(3) by (auto simp: sdu_update_def split: option.splits)
  then show "sdu_data (sdu_of h' x) = sdu_data (sdu_of h x)" for x using assms(6) by (simp add: sdu_of_def)
qed

lemma tm_new_sdu:
  assumes inv: "tm_inv e" and new: "nr_rlc_new_sdu buffer i (tm_heap e) = (s, h)"
  shows "nr_rlc_sdu_segment_list_append (tm_tx_list e) (tm_tx_end e) s = Inr (tm_tx_list e @ [s], Some (seg_addr s))"
    and "heap_ok h (tm_tx_list e @ [s])" "tail_ok (tm_tx_list e @ [s]) (Some (seg_addr s))"
    "distinct (map seg_sdu (tm_tx_list e @ [s]))" "seg_size s = int (length buffer)" "sdu_data (sdu_of h s) = buffer"
    "\<forall>x \<in> set (tm_tx_list e). sdu_data (sdu_of h x) = sdu_data (sdu_of (tm_heap e) x)"
proof -
  have ok: "heap_ok (tm_heap e) (tm_tx_list e)" and tail: "tail_ok (tm_tx_list e) (tm_tx_end e)"
    and dist: "distinct (map seg_sdu (tm_tx_list e))" using inv by (simp_all add: tm_inv_def)
  note n = new_sdu_ok [OF ok new]
  show "nr_rlc_sdu_segment_list_append (tm_tx_list e) (tm_tx_end e) s = Inr (tm_tx_list e @ [s], Some (seg_addr s))"
    by (rule seg_tail.append_end [OF tail n(2)])
  show "heap_ok h (tm_tx_list e @ [s])" by (rule heap_ok_perm [OF n(1)]) simp
  show "tail_ok (tm_tx_list e @ [s]) (Some (seg_addr s))" by (rule seg_tail.append_keeps [OF tail n(2)])
  have fresh: "seg_sdu x \<noteq> seg_sdu s" if "x \<in> set (tm_tx_list e)" for x
    using new heap_ok_live [OF ok that] heap_ok_fresh [OF ok] by (auto simp: nr_rlc_new_sdu_def Let_def)
  then have "seg_sdu s \<notin> seg_sdu ` set (tm_tx_list e)" by fastforce
  then show "distinct (map seg_sdu (tm_tx_list e @ [s]))" using dist by simp
  show "seg_size s = int (length buffer)" "sdu_data (sdu_of h s) = buffer"
    using new by (auto simp: nr_rlc_new_sdu_def Let_def sdu_of_def)
  show "\<forall>x \<in> set (tm_tx_list e). sdu_data (sdu_of h x) = sdu_data (sdu_of (tm_heap e) x)"
    using fresh new by (auto simp: nr_rlc_new_sdu_def Let_def sdu_of_def)
qed

lemma tm_size_queue: "tm_inv e \<Longrightarrow> tm_tx_size e = queue_bytes (tm_queue e)"
  by (simp add: tm_inv_def queue_bytes_def)

lemma tm_inv_cong:
  assumes "tm_heap e' = tm_heap e" "tm_tx_list e' = tm_tx_list e" "tm_tx_end e' = tm_tx_end e" "tm_tx_size e' = tm_tx_size e"
    "ec_bstatus (tm_common e') = ec_bstatus (tm_common e)"
  shows "tm_inv e' = tm_inv e" "tm_queue e' = tm_queue e"
  by (simp_all only: tm_inv_def tm_queue_def assms)

lemma tm_recv_sdu_ok:
  assumes inv: "tm_inv e" and max: "int (length buffer) \<le> NR_SDU_MAX"
  shows "\<exists>e'. nr_rlc_entity_tm_recv_sdu now e buffer i = Inr e' \<and> tm_inv e' \<and>
    tm_queue e' = queue_put (tm_tx_maxsize e) buffer (tm_queue e) \<and> tm_tx_maxsize e' = tm_tx_maxsize e"
proof -
  let ?sz = "int (length buffer)"
  define e1 where "e1 = (let e0 = tm_upd_common (ec_upd_stats (\<lambda>st. st\<lparr>st_rxsdu_pkts := st_rxsdu_pkts st + 1,
                 st_rxsdu_bytes := st_rxsdu_bytes st + word_of_int ?sz\<rparr>)) e
    in if tm_sdu_rejected e0 \<noteq> 0 \<and> tm_t_current e0 > tm_t_log_buffer_full e0 + 1000
       then e0\<lparr>tm_sdu_rejected := 0, tm_t_log_buffer_full := tm_t_current e0\<rparr> else e0)"
  have f1: "tm_heap e1 = tm_heap e" "tm_tx_list e1 = tm_tx_list e" "tm_tx_end e1 = tm_tx_end e" "tm_tx_size e1 = tm_tx_size e"
      "tm_tx_maxsize e1 = tm_tx_maxsize e" "ec_bstatus (tm_common e1) = ec_bstatus (tm_common e)"
    by (simp_all add: e1_def Let_def)
  have i1: "tm_inv e1" and q1: "tm_queue e1 = tm_queue e" using inv tm_inv_cong [OF f1(1-4,6)] by simp_all
  have run: "nr_rlc_entity_tm_recv_sdu now e buffer i =
      (if tm_tx_size e1 + ?sz > tm_tx_maxsize e1
              then Inr (tm_upd_common (ec_upd_stats (\<lambda>st. st\<lparr>st_rxsdu_dd_pkts := st_rxsdu_dd_pkts st + 1,
                           st_rxsdu_dd_bytes := st_rxsdu_dd_bytes st + word_of_int ?sz\<rparr>))
                         (e1\<lparr>tm_sdu_rejected := tm_sdu_rejected e1 + 1\<rparr>))
              else
                case nr_rlc_new_sdu buffer i (tm_heap e1) of (s, h) \<Rightarrow>
                let e2 = tm_set_heap h (e1\<lparr>tm_tx_size := tm_tx_size e1 + ?sz\<rparr>)
                in bindR (nr_rlc_sdu_segment_list_append (tm_tx_list e2) (tm_tx_end e2) s) (\<lambda>(l, t).
                   let e3 = tm_upd_common (ec_add_tx_size (seg_size s)) (e2\<lparr>tm_tx_list := l, tm_tx_end := t\<rparr>)
                   in if ec_avg_time_is_on (tm_common e3)
                      then bindR (sdu_update (\<lambda>u. u\<lparr>sdu_time_of_arrival := now\<rparr>) s (tm_heap e3)) (\<lambda>h'.
                             Inr (tm_set_heap h' e3))
                      else Inr e3))"
    using max unfolding nr_rlc_entity_tm_recv_sdu_def e1_def Let_def by (simp only: not_less [symmetric] if_False simp_thms)
  show ?thesis
  proof (cases "tm_tx_size e1 + ?sz > tm_tx_maxsize e1")
    case True
    then have "queue_put (tm_tx_maxsize e) buffer (tm_queue e) = tm_queue e"
      using tm_size_queue [OF inv] by (simp add: f1 queue_put_def)
    moreover have "tm_inv (tm_upd_common (ec_upd_stats g) (e1\<lparr>tm_sdu_rejected := k\<rparr>))"
        "tm_queue (tm_upd_common (ec_upd_stats g) (e1\<lparr>tm_sdu_rejected := k\<rparr>)) = tm_queue e" for g k
      using i1 q1 tm_inv_cong [of "tm_upd_common (ec_upd_stats g) (e1\<lparr>tm_sdu_rejected := k\<rparr>)" e1] by simp_all
    ultimately show ?thesis using True unfolding run by (simp add: f1)
  next
    case False
    obtain s h where new: "nr_rlc_new_sdu buffer i (tm_heap e1) = (s, h)" by fastforce
    note sn = tm_new_sdu [OF i1 new]
    let ?l = "tm_tx_list e1 @ [s]"
    define e3 where "e3 = tm_upd_common (ec_add_tx_size (seg_size s))
        ((tm_set_heap h (e1\<lparr>tm_tx_size := tm_tx_size e1 + ?sz\<rparr>))\<lparr>tm_tx_list := ?l, tm_tx_end := Some (seg_addr s)\<rparr>)"
    have r3: "nr_rlc_entity_tm_recv_sdu now e buffer i = (if ec_avg_time_is_on (tm_common e3)
                      then bindR (sdu_update (\<lambda>u. u\<lparr>sdu_time_of_arrival := now\<rparr>) s (tm_heap e3)) (\<lambda>h'. Inr (tm_set_heap h' e3))
                      else Inr e3)"
      using False sn(1) unfolding run new by (simp add: Let_def e3_def)
    have f3: "tm_heap e3 = h" "tm_tx_list e3 = ?l" "tm_tx_end e3 = Some (seg_addr s)" "tm_tx_size e3 = tm_tx_size e + ?sz"
        "tm_tx_maxsize e3 = tm_tx_maxsize e" "bs_tx_size (ec_bstatus (tm_common e3)) = tm_tx_size e + ?sz"
      using i1 sn(5) by (simp_all add: e3_def f1 tm_inv_def)
    have put: "queue_put (tm_tx_maxsize e) buffer (tm_queue e) = tm_queue e @ [buffer]"
      using False tm_size_queue [OF inv] by (simp add: f1 queue_put_def)
    have any: "tm_inv e4 \<and> tm_queue e4 = tm_queue e @ [buffer]"
      if "heap_ok (tm_heap e4) ?l" "\<And>x. sdu_data (sdu_of (tm_heap e4) x) = sdu_data (sdu_of h x)"
        "tm_tx_list e4 = ?l" "tm_tx_end e4 = Some (seg_addr s)" "tm_tx_size e4 = tm_tx_size e + ?sz"
        "bs_tx_size (ec_bstatus (tm_common e4)) = tm_tx_size e + ?sz" for e4
    proof -
      have q: "tm_queue e4 = tm_queue e @ [buffer]"
        using that(2,3) sn(6,7) by (simp add: tm_queue_def f1)
      have "\<forall>x \<in> set ?l. seg_size x = int (length (sdu_data (sdu_of h x)))"
        using i1 sn(5,6,7) by (simp add: tm_inv_def)
      with that sn(3,4) q inv show ?thesis by (simp add: tm_inv_def)
    qed
    show ?thesis
    proof (cases "ec_avg_time_is_on (tm_common e3)")
      case off: False
      with any [of e3] sn(2) f3 put show ?thesis unfolding r3 by simp
    next
      case on: True
      obtain h' where h': "sdu_update (\<lambda>u. u\<lparr>sdu_time_of_arrival := now\<rparr>) s h = Inr h'"
        using heap_ok_live [OF sn(2), of s] by (auto simp: sdu_update_def)
      note upd = tm_inv_update [OF sn(2) _ h']
      have "tm_inv (tm_set_heap h' e3) \<and> tm_queue (tm_set_heap h' e3) = tm_queue e @ [buffer]"
        by (rule any) (use upd f3 in simp_all)
      with on h' f3 put show ?thesis unfolding r3 by simp
    qed
  qed
qed

lemma tm_generate_ok:
  assumes inv: "tm_inv e"
  shows "\<exists>n b e'. nr_rlc_entity_tm_generate_pdu now e buffer = Inr (n, b, e') \<and> tm_inv e' \<and> length b = length buffer \<and>
    tm_tx_maxsize e' = tm_tx_maxsize e \<and>
    (case queue_get (length buffer) (tm_queue e) of
       (None, q) \<Rightarrow> n = 0 \<and> b = buffer \<and> e' = e \<and> q = tm_queue e
     | (Some x, q) \<Rightarrow> n = int (length x) \<and> take (length x) b = x \<and> drop (length x) b = drop (length x) buffer \<and> tm_queue e' = q)"
proof (cases "tm_tx_list e")
  case Nil
  with inv show ?thesis by (simp add: nr_rlc_entity_tm_generate_pdu_def tm_generate_tx_pdu_def tm_queue_def)
next
  case (Cons s rest)
  define d where "d = sdu_data (sdu_of (tm_heap e) s)"
  have size: "seg_size s = int (length d)" using inv Cons by (simp add: tm_inv_def d_def)
  have q: "tm_queue e = d # map (\<lambda>s. sdu_data (sdu_of (tm_heap e) s)) rest" by (simp add: tm_queue_def Cons d_def)
  show ?thesis
  proof (cases "length d > length buffer")
    case True
    with inv size q show ?thesis
      by (simp add: nr_rlc_entity_tm_generate_pdu_def tm_generate_tx_pdu_def Cons Let_def)
  next
    case False
    have ok: "heap_ok (tm_heap e) (s # rest)" using inv by (simp add: tm_inv_def Cons)
    obtain f h where h: "nr_rlc_free_sdu_segment s (tm_heap e) = Inr (f, h)" "heap_ok h rest"
      using free_sdu_segment_ok [OF ok] by blast
    have other: "seg_sdu x \<noteq> seg_sdu s" if "x \<in> set rest" for x
    proof -
      have "seg_sdu s \<notin> seg_sdu ` set rest" using inv by (simp add: tm_inv_def Cons)
      with that show ?thesis by (metis imageI)
    qed
    have data: "sdu_data (sdu_of h x) = sdu_data (sdu_of (tm_heap e) x)" if "x \<in> set rest" for x
      using h(1) other [OF that] by (auto simp: nr_rlc_free_sdu_segment_def Let_def sdu_of_def split: option.splits if_splits)
    have sl: "slice d 0 (seg_size s) = Inr d" by (simp add: slice_def size)
    have bl: "blit buffer 0 d = Inr (d @ drop (length d) buffer)" using False by (simp add: blit_def)
    have fit: "\<not> seg_size s > int (length buffer)" using False size by simp
    define e2 where "e2 = tm_upd_common (\<lambda>c. ec_add_tx_size (- seg_size s)
                             (ec_waited now (sdu_time_of_arrival (sdu_of (tm_heap e) s))
                               (ec_upd_stats (\<lambda>st. st\<lparr>st_txpdu_pkts := st_txpdu_pkts st + 1,
                                  st_txpdu_bytes := st_txpdu_bytes st + word_of_int (int (length buffer))\<rparr>) c)))
        ((e\<lparr>tm_tx_list := rest, tm_tx_end := (if rest = [] then None else tm_tx_end e)\<rparr>)\<lparr>tm_tx_size := tm_tx_size e - seg_size s\<rparr>)"
    have run: "nr_rlc_entity_tm_generate_pdu now e buffer = Inr (seg_size s, d @ drop (length d) buffer, tm_set_heap h e2)"
      using fit sl bl h(1)
      by (simp add: nr_rlc_entity_tm_generate_pdu_def tm_generate_tx_pdu_def Cons Let_def e2_def flip: d_def)
    have tail: "tail_ok rest (if rest = [] then None else tm_tx_end e)"
      by (rule tail_ok_Cons [of s]) (use inv Cons in \<open>simp add: tm_inv_def\<close>)
    have q': "tm_queue (tm_set_heap h e2) = map (\<lambda>s. sdu_data (sdu_of (tm_heap e) s)) rest"
      using data by (simp add: tm_queue_def e2_def)
    have "tm_inv (tm_set_heap h e2)"
    proof -
      have "tm_tx_size e = int (length d) + queue_bytes (map (\<lambda>s. sdu_data (sdu_of (tm_heap e) s)) rest)"
        using tm_size_queue [OF inv] by (simp add: q queue_bytes_def)
      moreover have "\<forall>x \<in> set rest. seg_size x = int (length (sdu_data (sdu_of h x)))"
        using inv data by (simp add: tm_inv_def Cons)
      ultimately show ?thesis using inv h(2) tail q' size
        by (simp add: tm_inv_def Cons queue_bytes_def e2_def)
    qed
    with run q' q False size show ?thesis by (simp add: e2_def)
  qed
qed


section \<open>Runs\<close>

datatype tm_op = TmPut "byte list" | TmGet nat

text \<open>A run of the entity: the PDUs it makes, and the entity behind.\<close>

fun tm_run :: "u64 \<Rightarrow> tm_op list \<Rightarrow> nr_rlc_entity_tm \<Rightarrow> (byte list list \<times> nr_rlc_entity_tm) result" where
  "tm_run now [] e = Inr ([], e)"
| "tm_run now (TmPut b # l) e = bindR (nr_rlc_entity_tm_recv_sdu now e b 0) (tm_run now l)"
| "tm_run now (TmGet n # l) e =
     bindR (nr_rlc_entity_tm_generate_pdu now e (replicate n 0)) (\<lambda>(k, b, e').
     bindR (tm_run now l e') (\<lambda>(out, e''). Inr ((if k = 0 then out else take (nat k) b # out), e'')))"

fun queue_run :: "int \<Rightarrow> tm_op list \<Rightarrow> byte list list \<Rightarrow> byte list list \<times> byte list list" where
  "queue_run limit [] q = ([], q)"
| "queue_run limit (TmPut b # l) q = queue_run limit l (queue_put limit b q)"
| "queue_run limit (TmGet n # l) q =
     (case queue_get n q of (x, q') \<Rightarrow>
      case queue_run limit l q' of (out, q'') \<Rightarrow> ((case x of None \<Rightarrow> out | Some d \<Rightarrow> if d = [] then out else d # out), q''))"

fun tm_op_ok :: "tm_op \<Rightarrow> bool" where
  "tm_op_ok (TmPut b) \<longleftrightarrow> int (length b) \<le> NR_SDU_MAX"
| "tm_op_ok (TmGet n) = True"

lemma tm_run_ok:
  assumes "tm_inv e" "\<forall>x \<in> set l. tm_op_ok x"
  shows "\<exists>out e'. tm_run now l e = Inr (out, e') \<and> tm_inv e' \<and> (out, tm_queue e') = queue_run (tm_tx_maxsize e) l (tm_queue e)"
  using assms
proof (induction l arbitrary: e)
  case Nil
  then show ?case by simp
next
  case (Cons x l)
  show ?case
  proof (cases x)
    case (TmPut b)
    with Cons.prems obtain e1 where e1: "nr_rlc_entity_tm_recv_sdu now e b 0 = Inr e1" "tm_inv e1"
        "tm_queue e1 = queue_put (tm_tx_maxsize e) b (tm_queue e)" "tm_tx_maxsize e1 = tm_tx_maxsize e"
      using tm_recv_sdu_ok [of e b now 0] by auto
    with Cons.IH [OF e1(2)] Cons.prems(2) TmPut show ?thesis by simp
  next
    case (TmGet n)
    from tm_generate_ok [OF Cons.prems(1), of now "replicate n 0"] obtain k b e1 where
      e1: "nr_rlc_entity_tm_generate_pdu now e (replicate n 0) = Inr (k, b, e1)" "tm_inv e1" "tm_tx_maxsize e1 = tm_tx_maxsize e"
        "case queue_get n (tm_queue e) of (None, q) \<Rightarrow> k = 0 \<and> e1 = e \<and> q = tm_queue e
         | (Some x, q) \<Rightarrow> k = int (length x) \<and> take (length x) b = x \<and> tm_queue e1 = q"
      by (fastforce split: prod.splits option.splits)
    from Cons.IH [OF e1(2)] Cons.prems(2) obtain out e2 where
      e2: "tm_run now l e1 = Inr (out, e2)" "tm_inv e2" "(out, tm_queue e2) = queue_run (tm_tx_maxsize e) l (tm_queue e1)"
      using e1(3) by auto
    obtain y q where y: "queue_get n (tm_queue e) = (y, q)" by fastforce
    show ?thesis
    proof (cases y)
      case None
      with e1 e2 y TmGet show ?thesis by (auto split: prod.splits)
    next
      case (Some d)
      with e1 e2 y TmGet show ?thesis by (auto split: prod.splits)
    qed
  qed
qed

text \<open>
  Property C35. In every run of the transparent mode the PDUs are those of the bounded queue: SDUs
  leave whole, in the order they came, as soon as a grant has room for the first of them, SDUs that do
  not fit into the buffer limit are refused, and no operation fails.
\<close>

theorem tm_refines_queue:
  assumes "new_nr_rlc_entity_tm limit = Inr e" "\<forall>x \<in> set l. tm_op_ok x"
  shows "\<exists>out e'. tm_run now l e = Inr (out, e') \<and> tm_inv e' \<and> (out, tm_queue e') = queue_run limit l []"
proof -
  have "tm_tx_maxsize e = limit" using assms(1) by (auto simp: new_nr_rlc_entity_tm_def bindR_eq_Inr)
  with tm_run_ok [OF _ assms(2), of e now] tm_new_ok [OF assms(1)] show ?thesis by simp
qed

theorem tm_refines_queue_witness:
  "\<exists>e out e'. new_nr_rlc_entity_tm 6 = Inr e \<and>
    tm_run 0 [TmPut [1, 2, 3], TmPut [4, 5], TmPut [6, 7], TmGet 2, TmGet 3, TmGet 9] e = Inr (out, e') \<and>
    out = [[1, 2, 3], [4, 5]] \<and> tm_queue e' = []"
proof -
  let ?l = "[TmPut [1, 2, 3], TmPut [4, 5], TmPut [6, 7], TmGet 2, TmGet 3, TmGet 9]"
  obtain e where e: "new_nr_rlc_entity_tm 6 = Inr e"
    by (auto simp: new_nr_rlc_entity_tm_def entity_init_def time_average_new_def)
  have "\<forall>x \<in> set ?l. tm_op_ok x" by (simp add: NR_SDU_MAX_def)
  from tm_refines_queue [OF e this, of 0] obtain out e' where
    r: "tm_run 0 ?l e = Inr (out, e')" "(out, tm_queue e') = queue_run 6 ?l []" by blast
  have "queue_run 6 ?l [] = ([[1, 2, 3], [4, 5]], [])" by (simp add: queue_put_def queue_bytes_def)
  with r e show ?thesis by (metis prod.inject)
qed

end
