(* ===== verification/Ue_Table.thy ===== *)
theory Ue_Table
  imports Prelude
begin

text \<open>
  Tables of UEs. The RLC and the PDCP manager keep a list of UE contexts that is searched by id, that
  grows at its end when an unknown id is asked for, and that closes the gap when a UE is removed. The
  loops are here once for any context type; the locale states what the two managers promise and derives
  that operations on one UE do not show in another.
\<close>

section \<open>Outcomes and arrays\<close>

definition mapR :: "('a \<Rightarrow> 'b) \<Rightarrow> 'a result \<Rightarrow> 'b result" where
  "mapR f r = bindR r (\<lambda>x. Inr (f x))"

text \<open>An index outside of an array is undefined behaviour.\<close>

definition array_get :: "int \<Rightarrow> 'a list \<Rightarrow> 'a result" where
  "array_get i l = (if i < 0 \<or> i \<ge> int (length l) then Inl OutOfBounds else Inr (l ! nat i))"

definition MAX_DRBS_PER_UE :: nat where
  "MAX_DRBS_PER_UE = 32"

section \<open>The table\<close>

fun ue_index :: "('u \<Rightarrow> int) \<Rightarrow> int \<Rightarrow> 'u list \<Rightarrow> nat option" where
  "ue_index key ue_id [] = None"
| "ue_index key ue_id (u # us) = (if key u = ue_id then Some 0 else map_option Suc (ue_index key ue_id us))"

definition ue_get :: "('u \<Rightarrow> int) \<Rightarrow> (int \<Rightarrow> 'u) \<Rightarrow> int \<Rightarrow> 'u list \<Rightarrow> nat \<times> 'u list" where
  "ue_get key blank ue_id us =
     (case ue_index key ue_id us of Some i \<Rightarrow> (i, us) | None \<Rightarrow> (length us, us @ [blank ue_id]))"

definition ue_drop :: "nat \<Rightarrow> 'u list \<Rightarrow> 'u list" where
  "ue_drop i us = take i us @ drop (Suc i) us"

definition ue_lookup :: "('u \<Rightarrow> int) \<Rightarrow> 'u list \<Rightarrow> int \<Rightarrow> 'u option" where
  "ue_lookup key us ue_id = map_option (\<lambda>i. us ! i) (ue_index key ue_id us)"

lemma ue_lookup_simps [simp]:
  "ue_lookup key [] k = None"
  "ue_lookup key (u # us) k = (if key u = k then Some u else ue_lookup key us k)"
  by (auto simp: ue_lookup_def option.map_comp comp_def)

lemma ue_index_Some:
  "ue_index key k us = Some i \<Longrightarrow> i < length us \<and> key (us ! i) = k \<and> ue_lookup key us k = Some (us ! i)"
  by (induction us arbitrary: i) (auto split: if_splits)

lemma ue_index_None: "ue_index key k us = None \<longleftrightarrow> k \<notin> key ` set us"
  by (induction us) auto

lemma ue_lookup_None: "ue_lookup key us k = None \<longleftrightarrow> k \<notin> key ` set us"
  by (simp add: ue_lookup_def ue_index_None)

lemma ue_lookup_append: "ue_lookup key (us @ vs) k = (case ue_lookup key us k of None \<Rightarrow> ue_lookup key vs k | Some u \<Rightarrow> Some u)"
  by (induction us) auto

lemma ue_lookup_update_other:
  "i < length us \<Longrightarrow> key (us ! i) \<noteq> k \<Longrightarrow> key u \<noteq> k \<Longrightarrow> ue_lookup key (us[i := u]) k = ue_lookup key us k"
proof (induction us arbitrary: i)
  case (Cons v us)
  then show ?case by (cases i) simp_all
qed simp

lemma ue_lookup_update_same:
  "ue_index key k us = Some i \<Longrightarrow> key u = k \<Longrightarrow> ue_lookup key (us[i := u]) k = Some u"
proof (induction us arbitrary: i)
  case (Cons v us)
  then show ?case by (cases i) (auto split: if_splits)
qed simp

lemma map_key_update: "i < length us \<Longrightarrow> key u = key (us ! i) \<Longrightarrow> map key (us[i := u]) = map key us"
  by (simp add: map_update) (metis list_update_id map_update nth_map)

lemma ue_lookup_drop:
  assumes "ue_index key k us = Some i" "k' \<noteq> k"
  shows "ue_lookup key (ue_drop i us) k' = ue_lookup key us k'"
  using assms by (induction us arbitrary: i) (auto simp: ue_drop_def split: if_splits)

lemma ue_drop_distinct:
  assumes "ue_index key k us = Some i" "distinct (map key us)"
  shows "distinct (map key (ue_drop i us)) \<and> ue_lookup key (ue_drop i us) k = None"
  using assms
proof (induction us arbitrary: i)
  case (Cons u us)
  show ?case
  proof (cases "key u = k")
    case True
    with Cons.prems show ?thesis by (auto simp: ue_drop_def ue_lookup_None)
  next
    case False
    then obtain j where j: "i = Suc j" "ue_index key k us = Some j" using Cons.prems(1) by (auto split: if_splits)
    have "set (ue_drop j us) \<subseteq> set us" by (auto simp: ue_drop_def dest: in_set_takeD in_set_dropD)
    then show ?thesis using Cons.IH [OF j(2)] Cons.prems(2) False by (auto simp: ue_drop_def j(1) ue_lookup_None)
  qed
qed simp

text \<open>What a manager promises: \<open>ues\<close> is its table, \<open>get_ue\<close> finds or makes an entry, \<open>put_ue\<close> is a write through the pointer.\<close>

locale ue_manager =
  fixes ues :: "'m \<Rightarrow> 'u list" and key :: "'u \<Rightarrow> int" and blank :: "int \<Rightarrow> 'u"
    and get_ue :: "'m \<Rightarrow> int \<Rightarrow> nat \<times> 'm" and put_ue :: "nat \<Rightarrow> 'u \<Rightarrow> 'm \<Rightarrow> 'm"
    and remove_ue :: "'m \<Rightarrow> int \<Rightarrow> 'm result"
  assumes key_blank: "key (blank k) = k"
    and ues_get: "ue_get key blank k (ues m) = (i, us) \<Longrightarrow> \<exists>m'. get_ue m k = (i, m') \<and> ues m' = us"
    and ues_put: "ues (put_ue i u m) = (ues m)[i := u]"
    and ues_remove: "remove_ue m k = Inr m' \<Longrightarrow>
      ues m' = (case ue_index key k (ues m) of None \<Rightarrow> ues m | Some i \<Rightarrow> ue_drop i (ues m))"
begin

lemma get_ue_cases:
  assumes "get_ue m k = (i, m')"
  obtains "ue_index key k (ues m) = Some i" "ues m' = ues m"
  | "ue_index key k (ues m) = None" "i = length (ues m)" "ues m' = ues m @ [blank k]"
proof (cases "ue_index key k (ues m)")
  case None
  with ues_get [of k m "length (ues m)" "ues m @ [blank k]"] assms show ?thesis by (auto simp: ue_get_def intro: that(2))
next
  case (Some j)
  with ues_get [of k m j "ues m"] assms show ?thesis by (auto simp: ue_get_def intro: that(1))
qed

text \<open>The entry handed out is the one the table has for the id, a blank one when there was none.\<close>

lemma get_ue_entry:
  assumes "get_ue m k = (i, m')"
  shows "i < length (ues m') \<and> key (ues m' ! i) = k \<and> ue_index key k (ues m') = Some i \<and>
    ues m' ! i = (case ue_lookup key (ues m) k of None \<Rightarrow> blank k | Some u \<Rightarrow> u)"
  using assms
proof (cases rule: get_ue_cases)
  case 1
  with ue_index_Some [OF 1(1)] show ?thesis by simp
next
  case 2
  have "ue_index key k (us @ [blank k]) = Some (length us)" if "ue_index key k us = None" for us
    using that key_blank by (induction us) (auto split: if_splits)
  with 2 show ?thesis by (simp add: key_blank ue_lookup_def)
qed

lemma get_ue_at:
  "get_ue m k = (i, m') \<Longrightarrow> i < length (ues m')"
  "get_ue m k = (i, m') \<Longrightarrow> key (ues m' ! i) = k"
  "get_ue m k = (i, m') \<Longrightarrow> ue_index key k (ues m') = Some i"
  using get_ue_entry by blast+

lemma get_ue_others: "get_ue m k = (i, m') \<Longrightarrow> k' \<noteq> k \<Longrightarrow> ue_lookup key (ues m') k' = ue_lookup key (ues m) k'"
  by (erule get_ue_cases) (auto simp: ue_lookup_append key_blank split: option.splits)

lemma get_ue_distinct: "get_ue m k = (i, m') \<Longrightarrow> distinct (map key (ues m)) \<Longrightarrow> distinct (map key (ues m'))"
  by (erule get_ue_cases) (auto simp: ue_index_None key_blank)

lemma get_put_others:
  assumes "get_ue m k = (i, m')" "key u = k" "k' \<noteq> k"
  shows "ue_lookup key (ues (put_ue i u m')) k' = ue_lookup key (ues m) k'"
proof -
  have "i < length (ues m')" "key (ues m' ! i) = k" using get_ue_at [OF assms(1)] by simp_all
  then show ?thesis using get_ue_others [OF assms(1,3)] ue_lookup_update_other [of i "ues m'" key k' u] assms(2,3)
    by (simp add: ues_put)
qed

lemma get_put_same:
  assumes "get_ue m k = (i, m')" "key u = k"
  shows "ue_lookup key (ues (put_ue i u m')) k = Some u"
  using get_ue_entry [OF assms(1)] ue_lookup_update_same [of key k "ues m'" i u] assms(2) by (simp add: ues_put)

lemma get_put_distinct:
  assumes "get_ue m k = (i, m')" "key u = k" "distinct (map key (ues m))"
  shows "distinct (map key (ues (put_ue i u m')))"
proof -
  have "i < length (ues m')" "key (ues m' ! i) = k" using get_ue_at [OF assms(1)] by simp_all
  then have "map key (ues (put_ue i u m')) = map key (ues m')" unfolding ues_put using assms(2) by (intro map_key_update) simp_all
  then show ?thesis using get_ue_distinct [OF assms(1,3)] by simp
qed

lemma remove_others: "remove_ue m k = Inr m' \<Longrightarrow> k' \<noteq> k \<Longrightarrow> ue_lookup key (ues m') k' = ue_lookup key (ues m) k'"
  using ues_remove [of m k m'] ue_lookup_drop by (auto split: option.splits)

lemma remove_same:
  assumes "remove_ue m k = Inr m'" "distinct (map key (ues m))"
  shows "distinct (map key (ues m')) \<and> ue_lookup key (ues m') k = None"
  using ues_remove [OF assms(1)] assms(2) ue_drop_distinct [of key k "ues m"]
  by (auto split: option.splits simp: ue_index_None ue_lookup_None)

end

end
