(* ===== verification/Rlc_Ue.thy ===== *)
theory Rlc_Ue
  imports Rlc_Am_Tx Rlc_Um Rlc_Tm Ue_Table
begin

text \<open>
  An entity of any mode behind the calls of \<open>nr_rlc_entity.h\<close>, the entities of a UE and the table of
  UEs (\<open>nr_rlc_ue_manager.c\<close>). Pointers to entities are slots of their UE, pointers to UEs are
  positions in the table.
\<close>

section \<open>Entities\<close>

datatype rlc_entity =
    AmEntity nr_rlc_entity_am
  | UmEntity nr_rlc_entity_um
  | TmEntity nr_rlc_entity_tm

fun entity_common :: "rlc_entity \<Rightarrow> nr_rlc_entity" where
  "entity_common (AmEntity e) = am_common e"
| "entity_common (UmEntity e) = um_common e"
| "entity_common (TmEntity e) = tm_common e"

fun entity_upd_common :: "(nr_rlc_entity \<Rightarrow> nr_rlc_entity) \<Rightarrow> rlc_entity \<Rightarrow> rlc_entity" where
  "entity_upd_common f (AmEntity e) = AmEntity (am_upd_common f e)"
| "entity_upd_common f (UmEntity e) = UmEntity (um_upd_common f e)"
| "entity_upd_common f (TmEntity e) = TmEntity (tm_upd_common f e)"

fun entity_mode :: "rlc_entity \<Rightarrow> nr_rlc_mode" where
  "entity_mode (AmEntity e) = NR_RLC_AM"
| "entity_mode (UmEntity e) = NR_RLC_UM"
| "entity_mode (TmEntity e) = NR_RLC_TM"

fun entity_set_time :: "u64 \<Rightarrow> rlc_entity \<Rightarrow> rlc_entity result" where
  "entity_set_time t (AmEntity e) = mapR AmEntity (nr_rlc_entity_am_set_time e t)"
| "entity_set_time t (UmEntity e) = mapR UmEntity (nr_rlc_entity_um_set_time e t)"
| "entity_set_time t (TmEntity e) = Inr (TmEntity (nr_rlc_entity_tm_set_time e t))"

fun entity_recv_pdu :: "byte list \<Rightarrow> rlc_entity \<Rightarrow> rlc_entity result" where
  "entity_recv_pdu b (AmEntity e) = mapR AmEntity (nr_rlc_entity_am_recv_pdu e b)"
| "entity_recv_pdu b (UmEntity e) = mapR UmEntity (nr_rlc_entity_um_recv_pdu e b)"
| "entity_recv_pdu b (TmEntity e) = Inr (TmEntity (nr_rlc_entity_tm_recv_pdu e b))"

fun entity_recv_sdu :: "u64 \<Rightarrow> byte list \<Rightarrow> int \<Rightarrow> rlc_entity \<Rightarrow> rlc_entity result" where
  "entity_recv_sdu now b sdu_id (AmEntity e) = mapR AmEntity (nr_rlc_entity_am_recv_sdu now e b sdu_id)"
| "entity_recv_sdu now b sdu_id (UmEntity e) = mapR UmEntity (nr_rlc_entity_um_recv_sdu now e b sdu_id)"
| "entity_recv_sdu now b sdu_id (TmEntity e) = mapR TmEntity (nr_rlc_entity_tm_recv_sdu now e b sdu_id)"

fun entity_generate_pdu :: "u64 \<Rightarrow> byte list \<Rightarrow> rlc_entity \<Rightarrow> (int \<times> byte list \<times> rlc_entity) result" where
  "entity_generate_pdu now b (AmEntity e) =
     mapR (\<lambda>(n, b', e'). (n, b', AmEntity e')) (nr_rlc_entity_am_generate_pdu now e b)"
| "entity_generate_pdu now b (UmEntity e) =
     mapR (\<lambda>(n, b', e'). (n, b', UmEntity e')) (nr_rlc_entity_um_generate_pdu now e b)"
| "entity_generate_pdu now b (TmEntity e) =
     mapR (\<lambda>(n, b', e'). (n, b', TmEntity e')) (nr_rlc_entity_tm_generate_pdu now e b)"

text \<open>
  The UM and TM entities return a structure of which they set three fields; what the other two hold is
  the argument \<open>junk\<close>.
\<close>

definition partial_status :: "int \<Rightarrow> int \<times> int \<times> int \<Rightarrow> nr_rlc_entity_buffer_status" where
  "partial_status junk s = (case s of (status, tx, retx) \<Rightarrow>
     \<lparr>bs_status_size = status, bs_tx_size = tx, bs_retx_size = retx, bs_tx_bytes = junk, bs_total_tx_bytes = junk\<rparr>)"

fun entity_buffer_status :: "int \<Rightarrow> int \<Rightarrow> rlc_entity \<Rightarrow> nr_rlc_entity_buffer_status result" where
  "entity_buffer_status junk maxsize (AmEntity e) = nr_rlc_entity_am_buffer_status e maxsize"
| "entity_buffer_status junk maxsize (UmEntity e) = Inr (partial_status junk (nr_rlc_entity_um_buffer_status e maxsize))"
| "entity_buffer_status junk maxsize (TmEntity e) = Inr (partial_status junk (nr_rlc_entity_tm_buffer_status e maxsize))"

fun entity_reestablishment :: "rlc_entity \<Rightarrow> rlc_entity result" where
  "entity_reestablishment (AmEntity e) = mapR AmEntity (nr_rlc_entity_am_reestablishment e)"
| "entity_reestablishment (UmEntity e) = mapR UmEntity (nr_rlc_entity_um_reestablishment e)"
| "entity_reestablishment (TmEntity e) = mapR TmEntity (nr_rlc_entity_tm_reestablishment e)"

fun entity_delete :: "rlc_entity \<Rightarrow> rlc_heap result" where
  "entity_delete (AmEntity e) = nr_rlc_entity_am_delete e"
| "entity_delete (UmEntity e) = nr_rlc_entity_um_delete e"
| "entity_delete (TmEntity e) = nr_rlc_entity_tm_delete e"

fun entity_available_tx_space :: "rlc_entity \<Rightarrow> int" where
  "entity_available_tx_space (AmEntity e) = nr_rlc_entity_am_available_tx_space e"
| "entity_available_tx_space (UmEntity e) = nr_rlc_entity_um_available_tx_space e"
| "entity_available_tx_space (TmEntity e) = nr_rlc_entity_tm_available_tx_space e"

text \<open>The oldest segment that waits, first the ones to send again.\<close>

fun entity_head_of_line :: "rlc_entity \<Rightarrow> nr_rlc_sdu_segment option" where
  "entity_head_of_line (AmEntity e) =
     (case am_retransmit_list e of s # _ \<Rightarrow> Some s | [] \<Rightarrow>
        (case am_tx_list e of s # _ \<Rightarrow> Some s | [] \<Rightarrow> None))"
| "entity_head_of_line (UmEntity e) = (case um_tx_list e of s # _ \<Rightarrow> Some s | [] \<Rightarrow> None)"
| "entity_head_of_line (TmEntity e) = (case tm_tx_list e of s # _ \<Rightarrow> Some s | [] \<Rightarrow> None)"

definition nr_rlc_entity_get_stats :: "u64 \<Rightarrow> rlc_entity \<Rightarrow> nr_rlc_statistics \<times> rlc_entity" where
  "nr_rlc_entity_get_stats now e =
     (let c = entity_common e;
          wt = (case entity_head_of_line e of
                  Some s \<Rightarrow> ucast (now - sdu_time_of_arrival (sdu_of (ec_heap c) s)) | None \<Rightarrow> 0);
          out = (ec_stats c)\<lparr>st_txsdu_wt_us := wt\<rparr>
      in if ec_avg_time_is_on c
         then (case time_average_get_average (ec_txsdu_avg_time_to_tx c) now of (avg, ta) \<Rightarrow>
                 (out\<lparr>st_txsdu_avg_time_to_tx := avg\<rparr>,
                  entity_upd_common (\<lambda>c. c\<lparr>ec_txsdu_avg_time_to_tx := ta\<rparr>) e))
         else (out\<lparr>st_txsdu_avg_time_to_tx := 0\<rparr>, e))"

section \<open>The entities of a UE\<close>

text \<open>Radio bearer of a logical channel: the type with the id of its union.\<close>

datatype nr_rlc_rb = RbNone | RbSrb int | RbDrb int

text \<open>SRB0 has a private structure with the id of the UE at the time of its activation.\<close>

record nr_rlc_ue =
  ue_id :: int
  ue_srb0 :: "(rlc_entity \<times> int) option"
  ue_srb :: "rlc_entity option list"
  ue_drb :: "rlc_entity option list"
  ue_lcid2rb :: "nr_rlc_rb list"

definition nr_rlc_ue_zero :: "int \<Rightarrow> nr_rlc_ue" where
  "nr_rlc_ue_zero i =
     \<lparr>ue_id = i, ue_srb0 = None, ue_srb = replicate 3 None, ue_drb = replicate MAX_DRBS_PER_UE None,
      ue_lcid2rb = replicate 32 RbNone\<rparr>"

datatype rlc_slot = Srb0 | Srb nat | Drb nat

text \<open>Read and write through a pointer to an entity.\<close>

fun slot_entity :: "nr_rlc_ue \<Rightarrow> rlc_slot \<Rightarrow> rlc_entity option" where
  "slot_entity ue Srb0 = map_option fst (ue_srb0 ue)"
| "slot_entity ue (Srb i) = ue_srb ue ! i"
| "slot_entity ue (Drb i) = ue_drb ue ! i"

fun set_slot :: "rlc_slot \<Rightarrow> rlc_entity option \<Rightarrow> nr_rlc_ue \<Rightarrow> nr_rlc_ue" where
  "set_slot Srb0 e ue =
     ue\<lparr>ue_srb0 := (case e of None \<Rightarrow> None | Some e' \<Rightarrow> map_option (\<lambda>(_, d). (e', d)) (ue_srb0 ue))\<rparr>"
| "set_slot (Srb i) e ue = ue\<lparr>ue_srb := (ue_srb ue)[i := e]\<rparr>"
| "set_slot (Drb i) e ue = ue\<lparr>ue_drb := (ue_drb ue)[i := e]\<rparr>"

definition srb_slot :: "nr_rlc_ue \<Rightarrow> int \<Rightarrow> rlc_slot option result" where
  "srb_slot ue i = bindR (array_get i (ue_srb ue)) (\<lambda>e. Inr (if e = None then None else Some (Srb (nat i))))"

definition drb_slot :: "nr_rlc_ue \<Rightarrow> int \<Rightarrow> rlc_slot option result" where
  "drb_slot ue i = bindR (array_get i (ue_drb ue)) (\<lambda>e. Inr (if e = None then None else Some (Drb (nat i))))"

text \<open>\<open>None\<close> is the null pointer.\<close>

definition get_rlc_entity_from_lcid :: "nr_rlc_ue \<Rightarrow> nat \<Rightarrow> rlc_slot option result" where
  "get_rlc_entity_from_lcid ue channel_id =
     (if channel_id = 0 then Inr (if ue_srb0 ue = None then None else Some Srb0)
      else bindR (array_get (int channel_id - 1) (ue_lcid2rb ue)) (\<lambda>rb.
        case rb of
          RbNone \<Rightarrow> Inr None
        | RbSrb srb_id \<Rightarrow> if srb_id > 0 then srb_slot ue (srb_id - 1) else Inl Exit
        | RbDrb drb_id \<Rightarrow> drb_slot ue (drb_id - 1)))"

text \<open>The entity of an occupied slot is deleted and its pointer cleared.\<close>

definition delete_slot :: "rlc_slot option \<Rightarrow> nr_rlc_ue \<Rightarrow> nr_rlc_ue result" where
  "delete_slot p ue =
     (case p of None \<Rightarrow> Inr ue | Some s \<Rightarrow>
        (case slot_entity ue s of None \<Rightarrow> Inr ue | Some e \<Rightarrow>
           bindR (entity_delete e) (\<lambda>h. Inr (set_slot s None ue))))"

definition release_rlc_entity_from_lcid :: "nr_rlc_ue \<Rightarrow> nat \<Rightarrow> nr_rlc_ue result" where
  "release_rlc_entity_from_lcid ue channel_id =
     (if channel_id = 0 then Inl Exit
      else bindR (array_get (int channel_id - 1) (ue_lcid2rb ue)) (\<lambda>rb.
        case rb of
          RbNone \<Rightarrow> Inr ue
        | RbSrb srb_id \<Rightarrow> if srb_id - 1 \<ge> 0 then bindR (srb_slot ue (srb_id - 1)) (\<lambda>p. delete_slot p ue) else Inl Exit
        | RbDrb drb_id \<Rightarrow> bindR (drb_slot ue (drb_id - 1)) (\<lambda>p. delete_slot p ue)))"

definition nr_rlc_ue_add_srb_rlc_entity :: "nr_rlc_ue \<Rightarrow> int \<Rightarrow> rlc_entity \<times> int \<Rightarrow> nr_rlc_ue result" where
  "nr_rlc_ue_add_srb_rlc_entity ue srb_id entity =
     (if srb_id < 0 \<or> srb_id > 3 then Inl Exit
      else if srb_id = 0
           then (if ue_srb0 ue \<noteq> None then Inl Exit else Inr (ue\<lparr>ue_srb0 := Some entity\<rparr>))
      else bindR (array_get (srb_id - 1) (ue_srb ue)) (\<lambda>e.
        if e \<noteq> None then Inl Exit
        else Inr (ue\<lparr>ue_srb := (ue_srb ue)[nat (srb_id - 1) := Some (fst entity)]\<rparr>)))"

definition nr_rlc_ue_add_drb_rlc_entity :: "nr_rlc_ue \<Rightarrow> int \<Rightarrow> rlc_entity \<Rightarrow> nr_rlc_ue result" where
  "nr_rlc_ue_add_drb_rlc_entity ue drb_id entity =
     (if drb_id < 1 \<or> drb_id > int MAX_DRBS_PER_UE then Inl Exit
      else bindR (array_get (drb_id - 1) (ue_drb ue)) (\<lambda>e.
        if e \<noteq> None then Inl Exit
        else Inr (ue\<lparr>ue_drb := (ue_drb ue)[nat (drb_id - 1) := Some entity]\<rparr>)))"

section \<open>The manager\<close>

text \<open>The mutex is not recursive: locking it again never returns.\<close>

record nr_rlc_ue_manager =
  mg_lock :: bool
  mg_ue_list :: "nr_rlc_ue list"
  mg_enb_flag :: int

definition new_nr_rlc_ue_manager :: "int \<Rightarrow> nr_rlc_ue_manager" where
  "new_nr_rlc_ue_manager enb_flag = \<lparr>mg_lock = False, mg_ue_list = [], mg_enb_flag = enb_flag\<rparr>"

definition nr_rlc_manager_lock :: "nr_rlc_ue_manager \<Rightarrow> nr_rlc_ue_manager result" where
  "nr_rlc_manager_lock m = (if mg_lock m then Inl Hang else Inr (m\<lparr>mg_lock := True\<rparr>))"

definition nr_rlc_manager_unlock :: "nr_rlc_ue_manager \<Rightarrow> nr_rlc_ue_manager" where
  "nr_rlc_manager_unlock m = m\<lparr>mg_lock := False\<rparr>"

definition nr_rlc_manager_get_ue :: "nr_rlc_ue_manager \<Rightarrow> int \<Rightarrow> nat \<times> nr_rlc_ue_manager" where
  "nr_rlc_manager_get_ue m i =
     (case ue_get ue_id nr_rlc_ue_zero i (mg_ue_list m) of (k, l) \<Rightarrow> (k, m\<lparr>mg_ue_list := l\<rparr>))"

definition put_ue :: "nat \<Rightarrow> nr_rlc_ue \<Rightarrow> nr_rlc_ue_manager \<Rightarrow> nr_rlc_ue_manager" where
  "put_ue k ue m = m\<lparr>mg_ue_list := (mg_ue_list m)[k := ue]\<rparr>"

fun delete_entities :: "rlc_entity option list \<Rightarrow> unit result" where
  "delete_entities [] = Inr ()"
| "delete_entities (None # l) = delete_entities l"
| "delete_entities (Some e # l) = bindR (entity_delete e) (\<lambda>h. delete_entities l)"

definition nr_rlc_manager_remove_ue :: "nr_rlc_ue_manager \<Rightarrow> int \<Rightarrow> nr_rlc_ue_manager result" where
  "nr_rlc_manager_remove_ue m i =
     (case ue_index ue_id i (mg_ue_list m) of
        None \<Rightarrow> Inr m
      | Some k \<Rightarrow>
          let ue = mg_ue_list m ! k
          in bindR (delete_entities (map_option fst (ue_srb0 ue) # ue_srb ue @ ue_drb ue)) (\<lambda>_.
             Inr (m\<lparr>mg_ue_list := ue_drop k (mg_ue_list m)\<rparr>)))"

interpretation rlc_ues: ue_manager mg_ue_list ue_id nr_rlc_ue_zero nr_rlc_manager_get_ue put_ue nr_rlc_manager_remove_ue
proof
  fix m :: nr_rlc_ue_manager and k i :: int and j us m' u
  show "ue_id (nr_rlc_ue_zero k) = k" by (simp add: nr_rlc_ue_zero_def)
  show "ue_get ue_id nr_rlc_ue_zero k (mg_ue_list m) = (j, us) \<Longrightarrow>
      \<exists>m'. nr_rlc_manager_get_ue m k = (j, m') \<and> mg_ue_list m' = us"
    by (simp add: nr_rlc_manager_get_ue_def)
  show "mg_ue_list (put_ue j u m) = (mg_ue_list m)[j := u]" by (simp add: put_ue_def)
  show "nr_rlc_manager_remove_ue m k = Inr m' \<Longrightarrow> mg_ue_list m' =
      (case ue_index ue_id k (mg_ue_list m) of None \<Rightarrow> mg_ue_list m | Some i \<Rightarrow> ue_drop i (mg_ue_list m))"
    by (auto simp: nr_rlc_manager_remove_ue_def Let_def bindR_eq_Inr split: option.splits)
qed

end
