(* ===== verification/Rlc_Config.thy ===== *)
theory Rlc_Config
  imports Prelude
begin

text \<open>
  The configuration of a bearer as RRC hands it to RLC, and the tables of \<open>asn1_utils.c\<close> that turn
  its enumerations into milliseconds, PDUs, bytes and bits. Of the generated ASN.1 structures the
  records below hold the fields that RLC reads; an absent optional field is a null pointer.
\<close>

section \<open>Tables\<close>

definition decode_in :: "int list \<Rightarrow> int \<Rightarrow> int result" where
  "decode_in tab v = (if v < 0 \<or> v > int (length tab) - 1 then Inl Exit else Inr (tab ! nat v))"

definition decode_t_reassembly :: "int \<Rightarrow> int result" where
  "decode_t_reassembly =
     decode_in [0,  5,  10, 15, 20,  25,  30,  35,  40,  45,  50,  55,  60,  65,  70, 75,
                80, 85, 90, 95, 100, 110, 120, 130, 140, 150, 160, 170, 180, 190, 200]"

definition decode_t_status_prohibit :: "int \<Rightarrow> int result" where
  "decode_t_status_prohibit =
     decode_in [0,   5,   10,  15,  20,  25,  30,  35,  40,  45,   50,   55,   60,   65,  70,  75,
                80,  85,  90,  95,  100, 105, 110, 115, 120, 125,  130,  135,  140,  145, 150, 155,
                160, 165, 170, 175, 180, 185, 190, 195, 200, 205,  210,  215,  220,  225, 230, 235,
                240, 245, 250, 300, 350, 400, 450, 500, 800, 1000, 1200, 1600, 2000, 2400]"

definition decode_t_poll_retransmit :: "int \<Rightarrow> int result" where
  "decode_t_poll_retransmit =
     decode_in [5,   10,  15,  20,  25,  30,  35,  40,  45,  50,  55,  60,  65,  70,  75,  80,  85,   90,   95,  100,
                105, 110, 115, 120, 125, 130, 135, 140, 145, 150, 155, 160, 165, 170, 175, 180, 185,  190,  195, 200,
                205, 210, 215, 220, 225, 230, 235, 240, 245, 250, 300, 350, 400, 450, 500, 800, 1000, 2000, 4000]"

text \<open>The value -1 stands for infinity here and in the next table.\<close>

definition decode_poll_pdu :: "int \<Rightarrow> int result" where
  "decode_poll_pdu =
     decode_in [4,    8,     16,    32,    64,    128,   256,   512,   1024,  2048,  4096,  6144,
                8192, 12288, 16384, 20480, 24576, 28672, 32768, 40960, 49152, 57344, 65536, - 1]"

definition decode_poll_byte :: "int \<Rightarrow> int result" where
  "decode_poll_byte =
     decode_in [1024 * 1, 1024 * 2, 1024 * 5, 1024 * 8, 1024 * 10, 1024 * 15, 1024 * 25, 1024 * 50,
                1024 * 75, 1024 * 100, 1024 * 125, 1024 * 250, 1024 * 375, 1024 * 500, 1024 * 750,
                1024 * 1000, 1024 * 1250, 1024 * 1500, 1024 * 2000, 1024 * 3000, 1024 * 4000,
                1024 * 4500, 1024 * 5000, 1024 * 5500, 1024 * 6000, 1024 * 6500, 1024 * 7000, 1024 * 7500,
                1024 * 1024 * 8, 1024 * 1024 * 9, 1024 * 1024 * 10, 1024 * 1024 * 11, 1024 * 1024 * 12,
                1024 * 1024 * 13, 1024 * 1024 * 14, 1024 * 1024 * 15, 1024 * 1024 * 16, 1024 * 1024 * 17,
                1024 * 1024 * 18, 1024 * 1024 * 20, 1024 * 1024 * 25, 1024 * 1024 * 30, 1024 * 1024 * 40, - 1]"

definition decode_max_retx_threshold :: "int \<Rightarrow> int result" where
  "decode_max_retx_threshold = decode_in [1, 2, 3, 4, 6, 8, 16, 32]"

definition decode_sn_field_length_um :: "int \<Rightarrow> int result" where
  "decode_sn_field_length_um = decode_in [6, 12]"

definition decode_sn_field_length_am :: "int \<Rightarrow> int result" where
  "decode_sn_field_length_am = decode_in [12, 18]"

section \<open>Bearer configuration\<close>

record am_config =
  ca_dl_t_Reassembly :: int
  ca_dl_t_StatusProhibit :: int
  ca_dl_sn_FieldLength :: "int option"
  ca_ul_t_PollRetransmit :: int
  ca_ul_pollPDU :: int
  ca_ul_pollByte :: int
  ca_ul_maxRetxThreshold :: int
  ca_ul_sn_FieldLength :: "int option"

record um_config =
  cu_dl_t_Reassembly :: int
  cu_dl_sn_FieldLength :: "int option"
  cu_ul_sn_FieldLength :: "int option"

datatype rlc_config = ConfigAm am_config | ConfigUmBiDirectional um_config | ConfigOther

datatype served_radio_bearer = SrbIdentity int | DrbIdentity int

record rlc_bearer_config =
  bc_logicalChannelIdentity :: int
  bc_servedRadioBearer :: "served_radio_bearer option"
  bc_rlc_Config :: "rlc_config option"

text \<open>The parameters of an entity: what \<open>new_nr_rlc_entity_am\<close> and \<open>new_nr_rlc_entity_um\<close> take.\<close>

record am_params =
  ap_t_poll_retransmit :: int
  ap_t_reassembly :: int
  ap_t_status_prohibit :: int
  ap_poll_pdu :: int
  ap_poll_byte :: int
  ap_max_retx_threshold :: int
  ap_sn_field_length :: int

definition am_default_params :: am_params where
  "am_default_params =
     \<lparr>ap_t_poll_retransmit = 45, ap_t_reassembly = 35, ap_t_status_prohibit = 0, ap_poll_pdu = - 1,
      ap_poll_byte = - 1, ap_max_retx_threshold = 8, ap_sn_field_length = 12\<rparr>"

text \<open>All fields but the length of the sequence number, in the order they are decoded.\<close>

definition am_decode_params :: "am_config \<Rightarrow> am_params result" where
  "am_decode_params am =
     bindR (decode_t_reassembly (ca_dl_t_Reassembly am)) (\<lambda>t_reassembly.
     bindR (decode_t_status_prohibit (ca_dl_t_StatusProhibit am)) (\<lambda>t_status_prohibit.
     bindR (decode_t_poll_retransmit (ca_ul_t_PollRetransmit am)) (\<lambda>t_poll_retransmit.
     bindR (decode_poll_pdu (ca_ul_pollPDU am)) (\<lambda>poll_pdu.
     bindR (decode_poll_byte (ca_ul_pollByte am)) (\<lambda>poll_byte.
     bindR (decode_max_retx_threshold (ca_ul_maxRetxThreshold am)) (\<lambda>max_retx_threshold.
       Inr \<lparr>ap_t_poll_retransmit = t_poll_retransmit, ap_t_reassembly = t_reassembly,
            ap_t_status_prohibit = t_status_prohibit, ap_poll_pdu = poll_pdu, ap_poll_byte = poll_byte,
            ap_max_retx_threshold = max_retx_threshold, ap_sn_field_length = 12\<rparr>))))))"

text \<open>A new bearer needs both lengths, and they must agree.\<close>

definition sn_lengths_agree :: "int option \<Rightarrow> int option \<Rightarrow> int result" where
  "sn_lengths_agree dl ul =
     (case dl of None \<Rightarrow> Inl NullDeref | Some d \<Rightarrow>
        (case ul of None \<Rightarrow> Inl NullDeref | Some u \<Rightarrow> if d \<noteq> u then Inl Exit else Inr d))"

definition am_config_params :: "am_config \<Rightarrow> am_params result" where
  "am_config_params am =
     bindR (am_decode_params am) (\<lambda>p.
     bindR (sn_lengths_agree (ca_dl_sn_FieldLength am) (ca_ul_sn_FieldLength am)) (\<lambda>v.
     bindR (decode_sn_field_length_am v) (\<lambda>n. Inr (p\<lparr>ap_sn_field_length := n\<rparr>))))"

definition um_config_params :: "um_config \<Rightarrow> (int \<times> int) result" where
  "um_config_params um =
     bindR (decode_t_reassembly (cu_dl_t_Reassembly um)) (\<lambda>t_reassembly.
     bindR (sn_lengths_agree (cu_dl_sn_FieldLength um) (cu_ul_sn_FieldLength um)) (\<lambda>v.
     bindR (decode_sn_field_length_um v) (\<lambda>n. Inr (t_reassembly, n))))"

text \<open>A reconfiguration may leave both lengths out.\<close>

definition sn_lengths_optional :: "(int \<Rightarrow> int result) \<Rightarrow> int option \<Rightarrow> int option \<Rightarrow> int option result" where
  "sn_lengths_optional decode dl ul =
     (case dl of None \<Rightarrow> if ul = None then Inr None else Inl Exit
      | Some d \<Rightarrow> if ul \<noteq> Some d then Inl Exit else bindR (decode d) (\<lambda>n. Inr (Some n)))"

section \<open>What the tables yield\<close>

lemma decode_in_set: "decode_in tab v = Inr n \<Longrightarrow> n \<in> set tab"
  by (auto simp: decode_in_def split: if_splits)

lemma decode_sn_am: "decode_sn_field_length_am v = Inr n \<Longrightarrow> n = 12 \<or> n = 18"
  by (auto simp: decode_sn_field_length_am_def dest: decode_in_set)

lemma decode_sn_um: "decode_sn_field_length_um v = Inr n \<Longrightarrow> n = 6 \<or> n = 12"
  by (auto simp: decode_sn_field_length_um_def dest: decode_in_set)

lemma am_config_params_sn: "am_config_params am = Inr p \<Longrightarrow> ap_sn_field_length p = 12 \<or> ap_sn_field_length p = 18"
  by (auto simp: am_config_params_def bindR_eq_Inr dest!: decode_sn_am)

lemma um_config_params_sn: "um_config_params um = Inr (t, n) \<Longrightarrow> n = 6 \<or> n = 12"
  by (auto simp: um_config_params_def bindR_eq_Inr dest!: decode_sn_um)

end
