(* ===== verification/Rlc_Api.thy ===== *)
theory Rlc_Api
  imports Rlc_Ue Rlc_Config
begin

text \<open>
  The interface of RLC to MAC, PDCP and RRC (\<open>nr_rlc_oai_api.c\<close>). Every call but two has one shape:
  lock the manager, find the UE (an unknown id makes a new one), work on one of its entities, unlock.
  What the callbacks of an entity send to other layers, and what QCON reports to the split of PDCP, is
  recorded in order in \<open>api_out\<close>.
\<close>

datatype ngran_node =
    Ngran_eNB | Ngran_ng_eNB | Ngran_gNB | Ngran_eNB_CU | Ngran_ng_eNB_CU | Ngran_gNB_CU
  | Ngran_eNB_DU | Ngran_gNB_DU | Ngran_eNB_MBMS_STA | Ngran_gNB_CUCP | Ngran_gNB_CUUP

definition NODE_IS_CU :: "ngran_node \<Rightarrow> bool" where
  "NODE_IS_CU t \<longleftrightarrow> t = Ngran_eNB_CU \<or> t = Ngran_ng_eNB_CU \<or> t = Ngran_gNB_CU \<or> t = Ngran_gNB_CUCP \<or> t = Ngran_gNB_CUUP"

definition NODE_IS_DU :: "ngran_node \<Rightarrow> bool" where
  "NODE_IS_DU t \<longleftrightarrow> t = Ngran_eNB_DU \<or> t = Ngran_gNB_DU"

datatype rlc_out =
    PdcpDataInd int bool int "byte list"
  | F1UlRrcMessage int int int "byte list"
  | GtpuTunnelDataReq int int "byte list"
  | InitialUlRrcMessage int "byte list"
  | PdcpDcInfoUpdate int int int

text \<open>
  Of the rest of the stack: the node type (\<open>RC.nrrrc\<close> is null in a UE), and the ids that F1 has stored
  for the UEs of a DU.
\<close>

record rlc_env =
  env_nrrrc :: "ngran_node option"
  env_f1_ue_data :: "int \<Rightarrow> int option"

record rlc_api =
  api_manager :: "nr_rlc_ue_manager option"
  api_current_time :: u64
  api_last_frame :: int
  api_last_subframe :: int
  api_inited :: bool
  api_inited_ue :: bool
  api_out :: "rlc_out list"

definition rlc_api_start :: rlc_api where
  "rlc_api_start =
     \<lparr>api_manager = None, api_current_time = 0, api_last_frame = 0, api_last_subframe = 0,
      api_inited = False, api_inited_ue = False, api_out = []\<rparr>"

definition RLC_TX_MAXSIZE :: int where "RLC_TX_MAXSIZE = 10000000"
definition RLC_RX_MAXSIZE :: int where "RLC_RX_MAXSIZE = 10000000"

section \<open>Callbacks of the entities\<close>

definition node_type :: "rlc_env \<Rightarrow> ngran_node result" where
  "node_type env = (case env_nrrrc env of None \<Rightarrow> Inl NullDeref | Some t \<Rightarrow> Inr t)"

text \<open>The loops over the arrays of the UE find the slot the entity is in.\<close>

definition deliver_sdu :: "rlc_env \<Rightarrow> int \<Rightarrow> int \<Rightarrow> bool \<Rightarrow> int \<Rightarrow> byte list \<Rightarrow> rlc_out result" where
  "deliver_sdu env enb_flag uid is_srb rb_id buf =
     (if enb_flag = 0 then Inr (PdcpDataInd uid is_srb rb_id buf)
      else case env_f1_ue_data env uid of None \<Rightarrow> Inl Exit | Some cu_id \<Rightarrow>
        bindR (node_type env) (\<lambda>t.
          if NODE_IS_CU t then Inl Exit
          else if NODE_IS_DU t
               then Inr (if is_srb then F1UlRrcMessage cu_id uid rb_id buf else GtpuTunnelDataReq uid rb_id buf)
               else Inr (PdcpDataInd cu_id is_srb rb_id buf)))"

text \<open>These two look at the first two signalling bearers only, and end the process for the third.\<close>

fun successful_delivery :: "rlc_slot \<Rightarrow> unit result" where
  "successful_delivery (Srb i) = (if i < 2 then Inr () else Inl Exit)"
| "successful_delivery (Drb i) = Inr ()"
| "successful_delivery Srb0 = Inl Exit"

fun max_retx_reached :: "rlc_slot \<Rightarrow> unit result" where
  "max_retx_reached (Srb i) = (if i < 2 then Inr () else Inl Exit)"
| "max_retx_reached (Drb i) = Inr ()"
| "max_retx_reached Srb0 = Inl Exit"

fun entity_callback :: "rlc_env \<Rightarrow> int \<Rightarrow> nr_rlc_ue \<Rightarrow> rlc_slot \<Rightarrow> rlc_event \<Rightarrow> rlc_out list result" where
  "entity_callback env enb_flag ue Srb0 (DeliverSdu buf) =
     (case ue_srb0 ue of None \<Rightarrow> Inl NullDeref | Some (e, uid) \<Rightarrow> Inr [InitialUlRrcMessage uid buf])"
| "entity_callback env enb_flag ue (Srb i) (DeliverSdu buf) =
     mapR (\<lambda>x. [x]) (deliver_sdu env enb_flag (ue_id ue) True (int i + 1) buf)"
| "entity_callback env enb_flag ue (Drb i) (DeliverSdu buf) =
     mapR (\<lambda>x. [x]) (deliver_sdu env enb_flag (ue_id ue) False (int i + 1) buf)"
| "entity_callback env enb_flag ue s (SduSuccessfulDelivery sdu_id) = mapR (\<lambda>_. []) (successful_delivery s)"
| "entity_callback env enb_flag ue s MaxRetxReached = mapR (\<lambda>_. []) (max_retx_reached s)"

fun entity_callbacks :: "rlc_env \<Rightarrow> int \<Rightarrow> nr_rlc_ue \<Rightarrow> rlc_slot \<Rightarrow> rlc_event list \<Rightarrow> rlc_out list result" where
  "entity_callbacks env enb_flag ue s [] = Inr []"
| "entity_callbacks env enb_flag ue s (ev # evs) =
     bindR (entity_callback env enb_flag ue s ev) (\<lambda>o1.
     bindR (entity_callbacks env enb_flag ue s evs) (\<lambda>o2. Inr (o1 @ o2)))"

text \<open>A call of an entity: it starts with no event on record, and what it records is called.\<close>

definition clear_events :: "rlc_entity \<Rightarrow> rlc_entity" where
  "clear_events = entity_upd_common (\<lambda>c. c\<lparr>ec_events := []\<rparr>)"

definition call_entity ::
  "rlc_env \<Rightarrow> int \<Rightarrow> rlc_slot \<Rightarrow> (rlc_entity \<Rightarrow> (rlc_entity \<times> 'a) result) \<Rightarrow> nr_rlc_ue \<Rightarrow>
   (nr_rlc_ue \<times> rlc_out list \<times> 'a) result" where
  "call_entity env enb_flag s f ue =
     (case slot_entity ue s of None \<Rightarrow> Inl NullDeref | Some e \<Rightarrow>
        bindR (f (clear_events e)) (\<lambda>(e', r).
        bindR (entity_callbacks env enb_flag ue s (ec_events (entity_common e'))) (\<lambda>outs.
          Inr (set_slot s (Some (clear_events e')) ue, outs, r))))"

section \<open>Calls on one UE\<close>

definition api_lock :: "rlc_api \<Rightarrow> nr_rlc_ue_manager result" where
  "api_lock api = (case api_manager api of None \<Rightarrow> Inl NullDeref | Some m \<Rightarrow> nr_rlc_manager_lock m)"

text \<open>Lock, get the UE, run the body on it, write it back, unlock.\<close>

definition with_ue ::
  "int \<Rightarrow> (int \<Rightarrow> nr_rlc_ue \<Rightarrow> (nr_rlc_ue \<times> rlc_out list \<times> 'a) result) \<Rightarrow> rlc_api \<Rightarrow> ('a \<times> rlc_api) result" where
  "with_ue uid body api =
     bindR (api_lock api) (\<lambda>m.
       case nr_rlc_manager_get_ue m uid of (k, m1) \<Rightarrow>
       bindR (body (mg_enb_flag m1) (mg_ue_list m1 ! k)) (\<lambda>(ue, outs, r).
         Inr (r, api\<lparr>api_manager := Some (nr_rlc_manager_unlock (put_ue k ue m1)), api_out := api_out api @ outs\<rparr>)))"

text \<open>The work on the entity of a logical channel, and what is done when the pointer is null.\<close>

definition on_lcid ::
  "rlc_env \<Rightarrow> nat \<Rightarrow> (rlc_entity \<Rightarrow> (rlc_entity \<times> 'a) result) \<Rightarrow> 'a \<Rightarrow> int \<Rightarrow> nr_rlc_ue \<Rightarrow>
   (nr_rlc_ue \<times> rlc_out list \<times> 'a) result" where
  "on_lcid env channel_id f none enb_flag ue =
     bindR (get_rlc_entity_from_lcid ue channel_id) (\<lambda>p.
       case p of None \<Rightarrow> Inr (ue, [], none) | Some s \<Rightarrow> call_entity env enb_flag s f ue)"

definition nr_rlc_release_entity :: "int \<Rightarrow> nat \<Rightarrow> rlc_api \<Rightarrow> (unit \<times> rlc_api) result" where
  "nr_rlc_release_entity uid channel_id =
     with_ue uid (\<lambda>enb_flag ue.
       mapR (\<lambda>ue'. (ue', [], ()))
         (if channel_id = 0 then delete_slot (if ue_srb0 ue = None then None else Some Srb0) ue
          else release_rlc_entity_from_lcid ue channel_id))"

text \<open>
  After the entity has processed the PDU, a node that is not a DU reports the bytes acknowledged since
  the last report and the bytes that wait to the split of PDCP.
\<close>

definition dc_report :: "rlc_env \<Rightarrow> int \<Rightarrow> int \<Rightarrow> rlc_entity \<Rightarrow> (rlc_entity \<times> rlc_out list) result" where
  "dc_report env junk uid e =
     bindR (node_type env) (\<lambda>t.
       if NODE_IS_DU t then Inr (e, [])
       else bindR (entity_buffer_status junk (1000 * 1000) e) (\<lambda>bs.
         let total = bs_total_tx_bytes bs
         in Inr (entity_upd_common (\<lambda>c. c\<lparr>ec_last_total_tx_bytes := total\<rparr>) e,
                 [PdcpDcInfoUpdate uid (total - ec_last_total_tx_bytes (entity_common e))
                    (bs_tx_size bs + bs_retx_size bs)])))"

definition mac_rlc_data_ind ::
  "rlc_env \<Rightarrow> int \<Rightarrow> int \<Rightarrow> int \<Rightarrow> bool \<Rightarrow> nat \<Rightarrow> byte list \<Rightarrow> rlc_api \<Rightarrow> (unit \<times> rlc_api) result" where
  "mac_rlc_data_ind env junk uid eNB_index mbms_flag channel_id buffer api =
     (if eNB_index \<noteq> 0 \<or> mbms_flag then Inl Exit
      else with_ue uid (\<lambda>enb_flag ue.
        bindR (on_lcid env channel_id (\<lambda>e.
            bindR (node_type env) (\<lambda>t.
            bindR (entity_set_time (api_current_time api) e) (\<lambda>e1.
            bindR (entity_recv_pdu buffer e1) (\<lambda>e2.
            bindR (dc_report env junk uid e2) (\<lambda>r. Inr r))))) [] enb_flag ue)
          (\<lambda>(ue', outs, reports). Inr (ue', outs @ reports, ()))) api)"

definition mac_rlc_data_req ::
  "rlc_env \<Rightarrow> u64 \<Rightarrow> int \<Rightarrow> nat \<Rightarrow> byte list \<Rightarrow> rlc_api \<Rightarrow> ((int \<times> byte list) \<times> rlc_api) result" where
  "mac_rlc_data_req env now uid channel_id buffer api =
     with_ue uid (on_lcid env channel_id (\<lambda>e.
       bindR (entity_set_time (api_current_time api) e) (\<lambda>e1.
       bindR (entity_generate_pdu now buffer e1) (\<lambda>(n, b, e2). Inr (e2, n, b)))) (0, buffer)) api"

text \<open>The two indications return the number of bytes that wait, 0 for an unknown bearer.\<close>

definition entity_bytes_in_buffer :: "u64 \<Rightarrow> rlc_entity \<Rightarrow> (rlc_entity \<times> int) result" where
  "entity_bytes_in_buffer time e =
     bindR (entity_set_time time e) (\<lambda>e1.
     bindR (entity_buffer_status 0 (1000 * 1000) e1) (\<lambda>bs.
       Inr (e1, bs_status_size bs + bs_retx_size bs + bs_tx_size bs)))"

definition mac_rlc_status_ind :: "rlc_env \<Rightarrow> int \<Rightarrow> nat \<Rightarrow> rlc_api \<Rightarrow> (int \<times> rlc_api) result" where
  "mac_rlc_status_ind env uid channel_id api =
     with_ue uid (on_lcid env channel_id (entity_bytes_in_buffer (api_current_time api)) 0) api"

definition nr_rlc_tick :: "int \<Rightarrow> int \<Rightarrow> rlc_api \<Rightarrow> rlc_api" where
  "nr_rlc_tick frame subframe api =
     (if frame \<noteq> api_last_frame api \<or> subframe \<noteq> api_last_subframe api
      then api\<lparr>api_last_frame := frame, api_last_subframe := subframe, api_current_time := api_current_time api + 1\<rparr>
      else api)"

definition mac_rlc_get_buffer_occupancy_ind ::
  "rlc_env \<Rightarrow> int \<Rightarrow> int \<Rightarrow> int \<Rightarrow> bool \<Rightarrow> nat \<Rightarrow> rlc_api \<Rightarrow> (int \<times> rlc_api) result" where
  "mac_rlc_get_buffer_occupancy_ind env uid frame subframe enb_flag channel_id api =
     (if enb_flag then Inl Exit
      else let api1 = nr_rlc_tick frame subframe api
           in with_ue uid (on_lcid env channel_id (entity_bytes_in_buffer (api_current_time api1)) 0) api1)"

text \<open>PDCP and RRC name a bearer by its number, within the bounds given.\<close>

definition bearer_slot :: "bool \<Rightarrow> int \<Rightarrow> int \<Rightarrow> nr_rlc_ue \<Rightarrow> rlc_slot option result" where
  "bearer_slot srb_flag max_drb rb_id ue =
     (if srb_flag then (if rb_id \<ge> 1 \<and> rb_id \<le> 2 then srb_slot ue (rb_id - 1) else Inr None)
      else (if rb_id \<ge> 1 \<and> rb_id \<le> max_drb then drb_slot ue (rb_id - 1) else Inr None))"

definition rlc_data_req ::
  "rlc_env \<Rightarrow> u64 \<Rightarrow> int \<Rightarrow> bool \<Rightarrow> int \<Rightarrow> int \<Rightarrow> byte list \<Rightarrow> rlc_api \<Rightarrow> (unit \<times> rlc_api) result" where
  "rlc_data_req env now uid srb_flag rb_id mui sdu api =
     with_ue uid (\<lambda>enb_flag ue.
       bindR (bearer_slot srb_flag (int MAX_DRBS_PER_UE) rb_id ue) (\<lambda>p.
         case p of None \<Rightarrow> Inr (ue, [], ())
         | Some s \<Rightarrow> call_entity env enb_flag s (\<lambda>e.
             bindR (entity_set_time (api_current_time api) e) (\<lambda>e1.
             bindR (entity_recv_sdu now sdu mui e1) (\<lambda>e2. Inr (e2, ())))) ue)) api"

definition nr_rlc_get_available_tx_space :: "rlc_env \<Rightarrow> int \<Rightarrow> nat \<Rightarrow> rlc_api \<Rightarrow> (int \<times> rlc_api) result" where
  "nr_rlc_get_available_tx_space env uid channel_id =
     with_ue uid (on_lcid env channel_id (\<lambda>e. Inr (e, entity_available_tx_space e)) (- 1))"

definition nr_rlc_srb_recv_sdu ::
  "rlc_env \<Rightarrow> u64 \<Rightarrow> int \<Rightarrow> nat \<Rightarrow> byte list \<Rightarrow> rlc_api \<Rightarrow> (unit \<times> rlc_api) result" where
  "nr_rlc_srb_recv_sdu env now uid channel_id buf api =
     with_ue uid (\<lambda>enb_flag ue.
       bindR (if channel_id = 0 then Inr (if ue_srb0 ue = None then None else Some Srb0)
              else srb_slot ue (int channel_id - 1)) (\<lambda>p.
         case p of None \<Rightarrow> Inl Exit
         | Some s \<Rightarrow> call_entity env enb_flag s (\<lambda>e.
             bindR (entity_set_time (api_current_time api) e) (\<lambda>e1.
             bindR (entity_recv_sdu now buf (- 1) e1) (\<lambda>e2. Inr (e2, ())))) ue)) api"

section \<open>Configuration\<close>

definition nr_rlc_reestablish_entity :: "rlc_env \<Rightarrow> int \<Rightarrow> nat \<Rightarrow> rlc_api \<Rightarrow> (unit \<times> rlc_api) result" where
  "nr_rlc_reestablish_entity env uid lc_id =
     with_ue uid (on_lcid env lc_id (\<lambda>e. mapR (\<lambda>e'. (e', ())) (entity_reestablishment e)) ())"

definition am_reconfigure_with :: "nr_rlc_entity_am \<Rightarrow> am_params \<Rightarrow> int option \<Rightarrow> rlc_entity" where
  "am_reconfigure_with e p sn =
     AmEntity (nr_rlc_entity_am_reconfigure e (ap_t_poll_retransmit p) (ap_t_reassembly p)
       (ap_t_status_prohibit p) (ap_poll_pdu p) (ap_poll_byte p) (ap_max_retx_threshold p) (map_option nat sn))"

fun entity_reconfigure :: "rlc_config option \<Rightarrow> rlc_entity \<Rightarrow> rlc_entity result" where
  "entity_reconfigure (Some c) (TmEntity e) = Inl Exit"
| "entity_reconfigure (Some c) (AmEntity e) =
     (case c of ConfigAm am \<Rightarrow>
        bindR (am_decode_params am) (\<lambda>p.
        bindR (sn_lengths_optional decode_sn_field_length_am (ca_dl_sn_FieldLength am) (ca_ul_sn_FieldLength am)) (\<lambda>sn.
          Inr (am_reconfigure_with e p sn)))
      | _ \<Rightarrow> Inl Exit)"
| "entity_reconfigure (Some c) (UmEntity e) =
     (case c of ConfigUmBiDirectional um \<Rightarrow>
        bindR (decode_t_reassembly (cu_dl_t_Reassembly um)) (\<lambda>t_reassembly.
        bindR (sn_lengths_optional decode_sn_field_length_um (cu_dl_sn_FieldLength um) (cu_ul_sn_FieldLength um)) (\<lambda>sn.
          Inr (UmEntity (nr_rlc_entity_um_reconfigure e t_reassembly (map_option nat sn)))))
      | _ \<Rightarrow> Inl Exit)"
| "entity_reconfigure None (AmEntity e) = Inr (am_reconfigure_with e am_default_params (Some 12))"
| "entity_reconfigure None (UmEntity e) = Inl Exit"
| "entity_reconfigure None (TmEntity e) = Inl Exit"

definition nr_rlc_reconfigure_entity ::
  "rlc_env \<Rightarrow> int \<Rightarrow> nat \<Rightarrow> rlc_config option \<Rightarrow> rlc_api \<Rightarrow> (unit \<times> rlc_api) result" where
  "nr_rlc_reconfigure_entity env uid lc_id config =
     with_ue uid (\<lambda>enb_flag ue.
       bindR (get_rlc_entity_from_lcid ue lc_id) (\<lambda>p.
         case p of None \<Rightarrow> Inl NullDeref
         | Some s \<Rightarrow> call_entity env enb_flag s (\<lambda>e. mapR (\<lambda>e'. (e', ())) (entity_reconfigure config e)) ue))"

definition set_lcid :: "int \<Rightarrow> nr_rlc_rb \<Rightarrow> nr_rlc_ue \<Rightarrow> nr_rlc_ue result" where
  "set_lcid lcid rb ue =
     bindR (array_get (lcid - 1) (ue_lcid2rb ue)) (\<lambda>_.
       Inr (ue\<lparr>ue_lcid2rb := (ue_lcid2rb ue)[nat (lcid - 1) := rb]\<rparr>))"

definition new_am_with :: "am_params \<Rightarrow> rlc_entity result" where
  "new_am_with p =
     mapR AmEntity (new_nr_rlc_entity_am RLC_RX_MAXSIZE RLC_TX_MAXSIZE (ap_t_poll_retransmit p)
       (ap_t_reassembly p) (ap_t_status_prohibit p) (ap_poll_pdu p) (ap_poll_byte p)
       (ap_max_retx_threshold p) (nat (ap_sn_field_length p)))"

definition nr_rlc_add_srb :: "int \<Rightarrow> int \<Rightarrow> rlc_bearer_config \<Rightarrow> rlc_api \<Rightarrow> (unit \<times> rlc_api) result" where
  "nr_rlc_add_srb uid srb_id config api =
     (if \<not> (srb_id > 0 \<and> srb_id < 4) then Inl Exit
      else bindR (case bc_rlc_Config config of
               Some (ConfigAm am) \<Rightarrow> am_config_params am | _ \<Rightarrow> Inr am_default_params) (\<lambda>p.
        with_ue uid (\<lambda>enb_flag ue.
          case bc_servedRadioBearer config of
            Some (SrbIdentity n) \<Rightarrow>
              bindR (set_lcid (bc_logicalChannelIdentity config) (RbSrb n) ue) (\<lambda>ue1.
              bindR (srb_slot ue1 (srb_id - 1)) (\<lambda>s.
                if s \<noteq> None then Inr (ue1, [], ())
                else bindR (new_am_with p) (\<lambda>e.
                     bindR (nr_rlc_ue_add_srb_rlc_entity ue1 srb_id (e, 0)) (\<lambda>ue2. Inr (ue2, [], ())))))
          | _ \<Rightarrow> Inl Exit) api))"

text \<open>The end of the two functions that add a data bearer, which differ in the entity they make.\<close>

definition add_drb_entity ::
  "int \<Rightarrow> int \<Rightarrow> rlc_bearer_config \<Rightarrow> rlc_entity result \<Rightarrow> rlc_api \<Rightarrow> (unit \<times> rlc_api) result" where
  "add_drb_entity uid drb_id config new_entity =
     with_ue uid (\<lambda>enb_flag ue.
       case bc_servedRadioBearer config of
         Some (DrbIdentity n) \<Rightarrow>
           bindR (set_lcid (bc_logicalChannelIdentity config) (RbDrb n) ue) (\<lambda>ue1.
           bindR (drb_slot ue1 (drb_id - 1)) (\<lambda>s.
             if s \<noteq> None then Inr (ue1, [], ())
             else bindR new_entity (\<lambda>e.
                  bindR (nr_rlc_ue_add_drb_rlc_entity ue1 drb_id e) (\<lambda>ue2. Inr (ue2, [], ())))))
       | _ \<Rightarrow> Inl Exit)"

definition add_drb_am :: "int \<Rightarrow> int \<Rightarrow> rlc_bearer_config \<Rightarrow> am_config \<Rightarrow> rlc_api \<Rightarrow> (unit \<times> rlc_api) result" where
  "add_drb_am uid drb_id config am api =
     (if \<not> (drb_id > 0 \<and> drb_id \<le> int MAX_DRBS_PER_UE) then Inl Exit
      else bindR (am_config_params am) (\<lambda>p. add_drb_entity uid drb_id config (new_am_with p) api))"

definition add_drb_um :: "int \<Rightarrow> int \<Rightarrow> rlc_bearer_config \<Rightarrow> um_config \<Rightarrow> rlc_api \<Rightarrow> (unit \<times> rlc_api) result" where
  "add_drb_um uid drb_id config um api =
     (if \<not> (drb_id > 0 \<and> drb_id \<le> int MAX_DRBS_PER_UE) then Inl Exit
      else bindR (um_config_params um) (\<lambda>(t_reassembly, n).
        add_drb_entity uid drb_id config
          (mapR UmEntity (new_nr_rlc_entity_um RLC_RX_MAXSIZE RLC_TX_MAXSIZE t_reassembly (nat n))) api))"

definition nr_rlc_add_drb :: "int \<Rightarrow> int \<Rightarrow> rlc_bearer_config \<Rightarrow> rlc_api \<Rightarrow> (unit \<times> rlc_api) result" where
  "nr_rlc_add_drb uid drb_id config api =
     (case bc_rlc_Config config of
        None \<Rightarrow> Inl NullDeref
      | Some (ConfigAm am) \<Rightarrow> add_drb_am uid drb_id config am api
      | Some (ConfigUmBiDirectional um) \<Rightarrow> add_drb_um uid drb_id config um api
      | Some ConfigOther \<Rightarrow> Inl Exit)"

definition nr_rlc_activate_srb0 :: "int \<Rightarrow> rlc_api \<Rightarrow> (unit \<times> rlc_api) result" where
  "nr_rlc_activate_srb0 uid =
     with_ue uid (\<lambda>enb_flag ue.
       if ue_srb0 ue \<noteq> None then Inr (ue, [], ())
       else bindR (new_nr_rlc_entity_tm 10000) (\<lambda>e.
            bindR (nr_rlc_ue_add_srb_rlc_entity ue 0 (TmEntity e, uid)) (\<lambda>ue'. Inr (ue', [], ()))))"

definition nr_rlc_activate_avg_time_to_tx :: "int \<Rightarrow> nat \<Rightarrow> bool \<Rightarrow> rlc_api \<Rightarrow> (unit \<times> rlc_api) result" where
  "nr_rlc_activate_avg_time_to_tx uid channel_id is_on =
     with_ue uid (\<lambda>enb_flag ue.
       bindR (if 1 \<le> channel_id \<and> channel_id \<le> 3 then srb_slot ue (int channel_id - 1)
              else if 4 \<le> channel_id \<and> channel_id \<le> 8 then drb_slot ue (int channel_id - 4)
              else Inr None) (\<lambda>p.
         case p of None \<Rightarrow> Inr (ue, [], ())
         | Some s \<Rightarrow> Inr (set_slot s (map_option (entity_upd_common (\<lambda>c. c\<lparr>ec_avg_time_is_on := is_on,
             ec_txsdu_avg_time_to_tx := time_average_reset (ec_txsdu_avg_time_to_tx c)\<rparr>)) (slot_entity ue s)) ue, [], ())))"

text \<open>The statistics, with two fields patched; \<open>None\<close> for an unknown bearer.\<close>

definition nr_rlc_get_statistics ::
  "rlc_env \<Rightarrow> u64 \<Rightarrow> int \<Rightarrow> bool \<Rightarrow> int \<Rightarrow> rlc_api \<Rightarrow> (nr_rlc_statistics option \<times> rlc_api) result" where
  "nr_rlc_get_statistics env now uid srb_flag rb_id =
     with_ue uid (\<lambda>enb_flag ue.
       bindR (bearer_slot srb_flag 5 rb_id ue) (\<lambda>p.
         case p of None \<Rightarrow> Inr (ue, [], None)
         | Some s \<Rightarrow> call_entity env enb_flag s (\<lambda>e.
             case nr_rlc_entity_get_stats now e of (out, e1) \<Rightarrow>
             bindR (entity_buffer_status 0 (1000 * 1000) e1) (\<lambda>bs.
               Inr (e1, Some (out\<lparr>st_rxbuf_occ_bytes := word_of_int (bs_status_size bs),
                 st_txbuf_occ_bytes := word_of_int (bs_tx_size bs + bs_retx_size bs)\<rparr>)))) ue))"

definition nr_rlc_test_trigger_reestablishment :: "rlc_env \<Rightarrow> int \<Rightarrow> rlc_api \<Rightarrow> (unit \<times> rlc_api) result" where
  "nr_rlc_test_trigger_reestablishment env uid =
     with_ue uid (\<lambda>enb_flag ue. call_entity env enb_flag (Srb 0) (\<lambda>e. mapR (\<lambda>e'. (e', ())) (entity_reestablishment e)) ue)"

text \<open>The id of the context is overwritten, whatever other context has the new id.\<close>

definition nr_rlc_update_id :: "rlc_env \<Rightarrow> int \<Rightarrow> int \<Rightarrow> rlc_api \<Rightarrow> (bool \<times> rlc_api) result" where
  "nr_rlc_update_id env from_id to_id =
     with_ue from_id (\<lambda>enb_flag ue.
       let ue1 = ue\<lparr>ue_id := to_id\<rparr>
       in if ue_srb ue1 ! 0 = None then Inr (ue1, [], True)
          else call_entity env enb_flag (Srb 0) (\<lambda>e. mapR (\<lambda>e'. (e', True)) (entity_reestablishment e)) ue1)"

section \<open>Calls on the table\<close>

definition rlc_module_init :: "int \<Rightarrow> rlc_api \<Rightarrow> (int \<times> rlc_api) result" where
  "rlc_module_init enb_flag api =
     (if enb_flag = 1 \<and> api_inited api then Inl Exit
      else if enb_flag = 0 \<and> api_inited_ue api then Inl Exit
      else Inr (0, api
        \<lparr>api_inited := api_inited api \<or> enb_flag = 1, api_inited_ue := api_inited_ue api \<or> enb_flag = 0,
         api_manager := Some (new_nr_rlc_ue_manager enb_flag)\<rparr>))"

definition nr_rlc_remove_ue :: "int \<Rightarrow> rlc_api \<Rightarrow> (unit \<times> rlc_api) result" where
  "nr_rlc_remove_ue uid api =
     bindR (api_lock api) (\<lambda>m.
     bindR (nr_rlc_manager_remove_ue m uid) (\<lambda>m1.
       Inr ((), api\<lparr>api_manager := Some (nr_rlc_manager_unlock m1)\<rparr>)))"

definition no_bearer_left :: "nr_rlc_ue \<Rightarrow> bool" where
  "no_bearer_left ue \<longleftrightarrow> (\<forall>i < 2. ue_srb ue ! i = None) \<and> (\<forall>i < MAX_DRBS_PER_UE. ue_drb ue ! i = None)"

definition rrc_rlc_config_req :: "int \<Rightarrow> bool \<Rightarrow> bool \<Rightarrow> bool \<Rightarrow> int \<Rightarrow> int \<Rightarrow> rlc_api \<Rightarrow> (unit \<times> rlc_api) result" where
  "rrc_rlc_config_req uid srb_flag mbms_flag is_remove module_id rb_id api =
     (if mbms_flag \<or> \<not> is_remove \<or> module_id \<noteq> 0 then Inl Exit
      else if (srb_flag \<and> \<not> (rb_id \<ge> 1 \<and> rb_id \<le> 2)) \<or>
              (\<not> srb_flag \<and> \<not> (rb_id \<ge> 1 \<and> rb_id \<le> int MAX_DRBS_PER_UE)) then Inl Exit
      else bindR (api_lock api) (\<lambda>m.
        case nr_rlc_manager_get_ue m uid of (k, m1) \<Rightarrow>
        let ue = mg_ue_list m1 ! k
        in bindR (if srb_flag then srb_slot ue (rb_id - 1) else drb_slot ue (rb_id - 1)) (\<lambda>p.
           bindR (delete_slot p ue) (\<lambda>ue1.
             let m2 = put_ue k ue1 m1
             in bindR (if no_bearer_left ue1 then nr_rlc_manager_remove_ue m2 uid else Inr m2) (\<lambda>m3.
                Inr ((), api\<lparr>api_manager := Some (nr_rlc_manager_unlock m3)\<rparr>))))))"

text \<open>The search for a logical channel. It returns without unlocking, found or not.\<close>

fun lcid_of_rb :: "bool \<Rightarrow> int \<Rightarrow> nat \<Rightarrow> nr_rlc_rb list \<Rightarrow> nat" where
  "lcid_of_rb is_srb rb_id i [] = 0"
| "lcid_of_rb is_srb rb_id i (rb # l) =
     (if rb = (if is_srb then RbSrb rb_id else RbDrb rb_id) then i else lcid_of_rb is_srb rb_id (Suc i) l)"

definition nr_rlc_get_lcid_from_rb :: "int \<Rightarrow> bool \<Rightarrow> int \<Rightarrow> rlc_api \<Rightarrow> (nat \<times> rlc_api) result" where
  "nr_rlc_get_lcid_from_rb uid is_srb rb_id api =
     bindR (api_lock api) (\<lambda>m.
       case nr_rlc_manager_get_ue m uid of (k, m1) \<Rightarrow>
         Inr (lcid_of_rb is_srb rb_id 1 (take 32 (ue_lcid2rb (mg_ue_list m1 ! k))), api\<lparr>api_manager := Some m1\<rparr>))"

end
