(* ===== verification/Rlc_Api_Props.thy ===== *)
theory Rlc_Api_Props
  imports Rlc_Api
begin

text \<open>
  What the calls of the RLC interface share: they keep the tables of a UE well formed, leave the
  other UEs alone and give the lock back. A run of the interface is a sequence of calls.
\<close>

section \<open>The frame of a UE\<close>

definition ue_frame :: "nr_rlc_ue \<Rightarrow> int \<times> nat \<times> nat \<times> nat" where
  "ue_frame ue = (ue_id ue, length (ue_srb ue), length (ue_drb ue), length (ue_lcid2rb ue))"

definition keeps_frame :: "(int \<Rightarrow> nr_rlc_ue \<Rightarrow> (nr_rlc_ue \<times> rlc_out list \<times> 'a) result) \<Rightarrow> bool" where
  "keeps_frame body \<longleftrightarrow> (\<forall>f ue ue' outs r. body f ue = Inr (ue', outs, r) \<longrightarrow> ue_frame ue' = ue_frame ue)"

lemma set_slot_frame [simp]: "ue_frame (set_slot s e ue) = ue_frame ue"
  by (cases s) (simp_all add: ue_frame_def)

lemma call_entity_frame: "call_entity env f s g ue = Inr (ue', outs, r) \<Longrightarrow> ue_frame ue' = ue_frame ue"
  by (auto simp: call_entity_def bindR_eq_Inr split: option.splits)

lemma on_lcid_frame: "on_lcid env c g n f ue = Inr (ue', outs, r) \<Longrightarrow> ue_frame ue' = ue_frame ue"
  by (auto simp: on_lcid_def bindR_eq_Inr split: option.splits dest: call_entity_frame)

lemma delete_slot_frame: "delete_slot p ue = Inr ue' \<Longrightarrow> ue_frame ue' = ue_frame ue"
  by (auto simp: delete_slot_def bindR_eq_Inr split: option.splits)

lemma release_lcid_frame: "release_rlc_entity_from_lcid ue c = Inr ue' \<Longrightarrow> ue_frame ue' = ue_frame ue"
proof -
  assume r: "release_rlc_entity_from_lcid ue c = Inr ue'"
  then obtain rb where rb: "(case rb of RbNone \<Rightarrow> Inr ue
      | RbSrb n \<Rightarrow> if n - 1 \<ge> 0 then bindR (srb_slot ue (n - 1)) (\<lambda>p. delete_slot p ue) else Inl Exit
      | RbDrb n \<Rightarrow> bindR (drb_slot ue (n - 1)) (\<lambda>p. delete_slot p ue)) = Inr ue'"
    by (auto simp: release_rlc_entity_from_lcid_def bindR_eq_Inr split: if_splits)
  then show ?thesis by (cases rb) (auto simp: bindR_eq_Inr dest: delete_slot_frame split: if_splits)
qed

lemma set_lcid_frame: "set_lcid c rb ue = Inr ue' \<Longrightarrow> ue_frame ue' = ue_frame ue"
  by (auto simp: set_lcid_def bindR_eq_Inr ue_frame_def)

lemma add_srb_frame: "nr_rlc_ue_add_srb_rlc_entity ue i e = Inr ue' \<Longrightarrow> ue_frame ue' = ue_frame ue"
  by (auto simp: nr_rlc_ue_add_srb_rlc_entity_def bindR_eq_Inr ue_frame_def split: if_splits)

lemma add_drb_frame: "nr_rlc_ue_add_drb_rlc_entity ue i e = Inr ue' \<Longrightarrow> ue_frame ue' = ue_frame ue"
  by (auto simp: nr_rlc_ue_add_drb_rlc_entity_def bindR_eq_Inr ue_frame_def split: if_splits)

lemmas frame_dests = call_entity_frame on_lcid_frame delete_slot_frame release_lcid_frame set_lcid_frame
  add_srb_frame add_drb_frame

section \<open>One call\<close>

datatype rlc_call =
    ReleaseEntity int nat
  | DataInd int int int bool nat "byte list"
  | DataReq u64 int nat "byte list"
  | StatusInd int nat
  | BufferOccupancyInd int int int bool nat
  | RlcDataReq u64 int bool int int "byte list"
  | AvailableTxSpace int nat
  | SrbRecvSdu u64 int nat "byte list"
  | ReestablishEntity int nat
  | ReconfigureEntity int nat "rlc_config option"
  | AddSrb int int rlc_bearer_config
  | AddDrb int int rlc_bearer_config
  | ActivateSrb0 int
  | ActivateAvgTimeToTx int nat bool
  | GetStatistics u64 int bool int
  | TriggerReestablishment int
  | UpdateId int int
  | RemoveUe int
  | ConfigReq int bool bool bool int int
  | GetLcidFromRb int bool int

definition forget :: "('a \<times> rlc_api) result \<Rightarrow> rlc_api result" where
  "forget r = mapR snd r"

fun rlc_step :: "rlc_env \<Rightarrow> rlc_call \<Rightarrow> rlc_api \<Rightarrow> rlc_api result" where
  "rlc_step env (ReleaseEntity u c) a = forget (nr_rlc_release_entity u c a)"
| "rlc_step env (DataInd junk u i mb c b) a = forget (mac_rlc_data_ind env junk u i mb c b a)"
| "rlc_step env (DataReq now u c b) a = forget (mac_rlc_data_req env now u c b a)"
| "rlc_step env (StatusInd u c) a = forget (mac_rlc_status_ind env u c a)"
| "rlc_step env (BufferOccupancyInd u fr sf enb c) a = forget (mac_rlc_get_buffer_occupancy_ind env u fr sf enb c a)"
| "rlc_step env (RlcDataReq now u srb rb mui b) a = forget (rlc_data_req env now u srb rb mui b a)"
| "rlc_step env (AvailableTxSpace u c) a = forget (nr_rlc_get_available_tx_space env u c a)"
| "rlc_step env (SrbRecvSdu now u c b) a = forget (nr_rlc_srb_recv_sdu env now u c b a)"
| "rlc_step env (ReestablishEntity u c) a = forget (nr_rlc_reestablish_entity env u c a)"
| "rlc_step env (ReconfigureEntity u c cf) a = forget (nr_rlc_reconfigure_entity env u c cf a)"
| "rlc_step env (AddSrb u i cf) a = forget (nr_rlc_add_srb u i cf a)"
| "rlc_step env (AddDrb u i cf) a = forget (nr_rlc_add_drb u i cf a)"
| "rlc_step env (ActivateSrb0 u) a = forget (nr_rlc_activate_srb0 u a)"
| "rlc_step env (ActivateAvgTimeToTx u c on) a = forget (nr_rlc_activate_avg_time_to_tx u c on a)"
| "rlc_step env (GetStatistics now u srb rb) a = forget (nr_rlc_get_statistics env now u srb rb a)"
| "rlc_step env (TriggerReestablishment u) a = forget (nr_rlc_test_trigger_reestablishment env u a)"
| "rlc_step env (UpdateId u v) a = forget (nr_rlc_update_id env u v a)"
| "rlc_step env (RemoveUe u) a = forget (nr_rlc_remove_ue u a)"
| "rlc_step env (ConfigReq u srb mb rm md rb) a = forget (rrc_rlc_config_req u srb mb rm md rb a)"
| "rlc_step env (GetLcidFromRb u srb rb) a = forget (nr_rlc_get_lcid_from_rb u srb rb a)"

fun call_ue :: "rlc_call \<Rightarrow> int" where
  "call_ue (ReleaseEntity u c) = u"
| "call_ue (DataInd junk u i mb c b) = u"
| "call_ue (DataReq now u c b) = u"
| "call_ue (StatusInd u c) = u"
| "call_ue (BufferOccupancyInd u fr sf enb c) = u"
| "call_ue (RlcDataReq now u srb rb mui b) = u"
| "call_ue (AvailableTxSpace u c) = u"
| "call_ue (SrbRecvSdu now u c b) = u"
| "call_ue (ReestablishEntity u c) = u"
| "call_ue (ReconfigureEntity u c cf) = u"
| "call_ue (AddSrb u i cf) = u"
| "call_ue (AddDrb u i cf) = u"
| "call_ue (ActivateSrb0 u) = u"
| "call_ue (ActivateAvgTimeToTx u c on) = u"
| "call_ue (GetStatistics now u srb rb) = u"
| "call_ue (TriggerReestablishment u) = u"
| "call_ue (UpdateId u v) = u"
| "call_ue (RemoveUe u) = u"
| "call_ue (ConfigReq u srb mb rm md rb) = u"
| "call_ue (GetLcidFromRb u srb rb) = u"

text \<open>
  All but the last four calls lock, work on their UE and unlock; only a change of id moves the UE to
  another id.
\<close>

lemma keeps_frameI: "(\<And>f ue ue' outs r. body f ue = Inr (ue', outs, r) \<Longrightarrow> ue_frame ue' = ue_frame ue) \<Longrightarrow> keeps_frame body"
  by (auto simp: keeps_frame_def)

lemma forget_eq: "forget r = Inr a \<longleftrightarrow> (\<exists>x. r = Inr (x, a))"
  by (auto simp: forget_def mapR_def bindR_eq_Inr)

definition framed :: "int \<Rightarrow> rlc_api \<Rightarrow> rlc_api \<Rightarrow> bool" where
  "framed u a a' \<longleftrightarrow> (\<exists>m k m1 ue. api_manager a = Some m \<and> \<not> mg_lock m \<and>
     nr_rlc_manager_get_ue (m\<lparr>mg_lock := True\<rparr>) u = (k, m1) \<and> ue_frame ue = ue_frame (mg_ue_list m1 ! k) \<and>
     api_manager a' = Some (nr_rlc_manager_unlock (put_ue k ue m1)))"

lemma with_ue_framed:
  assumes "with_ue u body a = Inr (r, a')" "keeps_frame body"
  shows "framed u a a'"
proof -
  obtain m where m: "api_manager a = Some m" "\<not> mg_lock m"
    "(case nr_rlc_manager_get_ue (m\<lparr>mg_lock := True\<rparr>) u of (k, m1) \<Rightarrow>
       bindR (body (mg_enb_flag m1) (mg_ue_list m1 ! k)) (\<lambda>(ue, outs, r).
         Inr (r, a\<lparr>api_manager := Some (nr_rlc_manager_unlock (put_ue k ue m1)), api_out := api_out a @ outs\<rparr>))) = Inr (r, a')"
    using assms(1) by (auto simp: with_ue_def api_lock_def nr_rlc_manager_lock_def bindR_eq_Inr split: option.splits if_splits)
  obtain k m1 where g: "nr_rlc_manager_get_ue (m\<lparr>mg_lock := True\<rparr>) u = (k, m1)" by fastforce
  obtain ue outs where "body (mg_enb_flag m1) (mg_ue_list m1 ! k) = Inr (ue, outs, r)"
    "a' = a\<lparr>api_manager := Some (nr_rlc_manager_unlock (put_ue k ue m1)), api_out := api_out a @ outs\<rparr>"
    using m(3) unfolding g by (auto simp: bindR_eq_Inr)
  moreover have "ue_frame ue = ue_frame (mg_ue_list m1 ! k)"
    using assms(2) \<open>body _ _ = _\<close> unfolding keeps_frame_def by blast
  ultimately show ?thesis
    using m g unfolding framed_def
    by (rule_tac x = m in exI, rule_tac x = k in exI, rule_tac x = m1 in exI, rule_tac x = ue in exI) auto
qed


fun ue_call :: "rlc_call \<Rightarrow> bool" where
  "ue_call (UpdateId u v) = False"
| "ue_call (RemoveUe u) = False"
| "ue_call (ConfigReq u srb mb rm md rb) = False"
| "ue_call (GetLcidFromRb u srb rb) = False"
| "ue_call _ = True"

lemma on_lcid_keeps: "keeps_frame (on_lcid env c g n)"
  by (rule keeps_frameI) (erule on_lcid_frame)

lemma srb_case_frame:
  assumes "bindR P (\<lambda>p. case p of None \<Rightarrow> none | Some s \<Rightarrow> call_entity env f s (g s) ue) = Inr (ue', outs, r)"
    and "\<And>ue' outs r. none = Inr (ue', outs, r) \<Longrightarrow> ue_frame ue' = ue_frame ue"
  shows "ue_frame ue' = ue_frame ue"
  using assms by (auto simp: bindR_eq_Inr split: option.splits dest: call_entity_frame)

lemma add_srb_body_frame:
  assumes "(case sv of Some (SrbIdentity n) \<Rightarrow>
              bindR (set_lcid c (RbSrb n) ue) (\<lambda>ue1.
              bindR (srb_slot ue1 i) (\<lambda>s. if s \<noteq> None then Inr (ue1, [], ())
                else bindR E (\<lambda>e. bindR (nr_rlc_ue_add_srb_rlc_entity ue1 j (e, 0)) (\<lambda>ue2. Inr (ue2, [], ())))))
          | _ \<Rightarrow> Inl Exit) = Inr (ue', outs, r)"
  shows "ue_frame ue' = ue_frame ue"
  using assms by (auto simp: bindR_eq_Inr split: option.splits served_radio_bearer.splits if_splits
    dest!: set_lcid_frame add_srb_frame)

lemma add_drb_entity_keeps:
  "keeps_frame (\<lambda>f ue. case sv of Some (DrbIdentity n) \<Rightarrow>
              bindR (set_lcid c (RbDrb n) ue) (\<lambda>ue1.
              bindR (drb_slot ue1 i) (\<lambda>s. if s \<noteq> None then Inr (ue1, [], ())
                else bindR E (\<lambda>e. bindR (nr_rlc_ue_add_drb_rlc_entity ue1 j e) (\<lambda>ue2. Inr (ue2, [], ())))))
          | _ \<Rightarrow> Inl Exit)"
  by (rule keeps_frameI) (auto simp: bindR_eq_Inr split: option.splits served_radio_bearer.splits if_splits
    dest!: set_lcid_frame add_drb_frame)

lemma add_drb_entity_framed: "add_drb_entity u d cf E a = Inr (r, a') \<Longrightarrow> framed u a a'"
  unfolding add_drb_entity_def by (erule with_ue_framed) (rule add_drb_entity_keeps)

lemma ue_call_framed:
  assumes "rlc_step env c a = Inr a'" "ue_call c"
  shows "framed (call_ue c) a a'"
  using assms
proof (cases c)
  case (ReleaseEntity u ch)
  with assms show ?thesis
    by (auto simp: forget_eq nr_rlc_release_entity_def mapR_def bindR_eq_Inr dest!: delete_slot_frame release_lcid_frame
      elim!: with_ue_framed intro!: keeps_frameI split: if_splits)
next
  case (DataInd junk u i mb ch b)
  with assms show ?thesis
    by (auto simp: forget_eq mac_rlc_data_ind_def bindR_eq_Inr dest!: on_lcid_frame
      elim!: with_ue_framed intro!: keeps_frameI split: if_splits)
next
  case (RlcDataReq now u srb rb mui b)
  with assms show ?thesis
    by (auto simp: forget_eq rlc_data_req_def elim!: with_ue_framed intro!: keeps_frameI elim: srb_case_frame)
next
  case (SrbRecvSdu now u ch b)
  with assms show ?thesis
    by (auto simp: forget_eq nr_rlc_srb_recv_sdu_def elim!: with_ue_framed intro!: keeps_frameI elim: srb_case_frame)
next
  case (ReconfigureEntity u ch cf)
  with assms show ?thesis
    by (auto simp: forget_eq nr_rlc_reconfigure_entity_def elim!: with_ue_framed intro!: keeps_frameI elim: srb_case_frame)
next
  case (AddSrb u i cf)
  with assms show ?thesis
    by (auto simp: forget_eq nr_rlc_add_srb_def bindR_eq_Inr elim!: with_ue_framed intro!: keeps_frameI
      dest: add_srb_body_frame split: if_splits)
next
  case (AddDrb u i cf)
  with assms show ?thesis
    by (auto simp: forget_eq nr_rlc_add_drb_def add_drb_am_def add_drb_um_def bindR_eq_Inr dest!: add_drb_entity_framed
      split: if_splits option.splits rlc_config.splits)
next
  case (ActivateSrb0 u)
  with assms show ?thesis
    by (auto simp: forget_eq nr_rlc_activate_srb0_def bindR_eq_Inr elim!: with_ue_framed intro!: keeps_frameI
      dest!: add_srb_frame split: if_splits)
next
  case (ActivateAvgTimeToTx u ch on)
  with assms show ?thesis
    by (auto simp: forget_eq nr_rlc_activate_avg_time_to_tx_def bindR_eq_Inr elim!: with_ue_framed intro!: keeps_frameI
      split: if_splits option.splits)
next
  case (GetStatistics now u srb rb)
  with assms show ?thesis
    by (auto simp: forget_eq nr_rlc_get_statistics_def elim!: with_ue_framed intro!: keeps_frameI elim: srb_case_frame)
next
  case (TriggerReestablishment u)
  with assms show ?thesis
    by (auto simp: forget_eq nr_rlc_test_trigger_reestablishment_def elim!: with_ue_framed intro!: keeps_frameI
      dest: call_entity_frame)
next
  case (BufferOccupancyInd u fr sf enb ch)
  with assms obtain r where "with_ue u (on_lcid env ch (entity_bytes_in_buffer (api_current_time (nr_rlc_tick fr sf a))) 0)
      (nr_rlc_tick fr sf a) = Inr (r, a')"
    by (auto simp: forget_eq mac_rlc_get_buffer_occupancy_ind_def Let_def split: if_splits)
  then have "framed u (nr_rlc_tick fr sf a) a'" by (rule with_ue_framed) (rule on_lcid_keeps)
  moreover have "api_manager (nr_rlc_tick fr sf a) = api_manager a" by (simp add: nr_rlc_tick_def)
  ultimately show ?thesis using BufferOccupancyInd by (simp add: framed_def)
qed (auto simp: forget_eq mac_rlc_data_req_def mac_rlc_status_ind_def nr_rlc_get_available_tx_space_def
      nr_rlc_reestablish_entity_def elim!: with_ue_framed intro: on_lcid_keeps)


section \<open>Well formed tables\<close>

definition ue_ok :: "nr_rlc_ue \<Rightarrow> bool" where
  "ue_ok ue \<longleftrightarrow> length (ue_srb ue) = 3 \<and> length (ue_drb ue) = MAX_DRBS_PER_UE \<and> length (ue_lcid2rb ue) = 32"

definition api_ok :: "rlc_api \<Rightarrow> bool" where
  "api_ok a \<longleftrightarrow> (\<forall>m. api_manager a = Some m \<longrightarrow> \<not> mg_lock m \<and> distinct (map ue_id (mg_ue_list m)) \<and>
     (\<forall>ue \<in> set (mg_ue_list m). ue_ok ue))"

definition api_ue :: "rlc_api \<Rightarrow> int \<Rightarrow> nr_rlc_ue option" where
  "api_ue a k = (case api_manager a of None \<Rightarrow> None | Some m \<Rightarrow> ue_lookup ue_id (mg_ue_list m) k)"

lemma ue_ok_frame: "ue_frame ue = ue_frame ue' \<Longrightarrow> ue_ok ue = ue_ok ue'"
  by (auto simp: ue_frame_def ue_ok_def)

lemma ue_ok_zero [simp]: "ue_ok (nr_rlc_ue_zero i)"
  by (simp add: ue_ok_def nr_rlc_ue_zero_def)

lemma unlock_sel [simp]: "mg_ue_list (nr_rlc_manager_unlock m) = mg_ue_list m" "\<not> mg_lock (nr_rlc_manager_unlock m)"
  by (simp_all add: nr_rlc_manager_unlock_def)

lemma put_ue_list [simp]: "mg_ue_list (put_ue k ue m) = (mg_ue_list m)[k := ue]"
  by (simp add: put_ue_def)

lemma get_ue_all_ok:
  assumes "nr_rlc_manager_get_ue m u = (k, m1)" "\<forall>ue \<in> set (mg_ue_list m). ue_ok ue"
  shows "\<forall>ue \<in> set (mg_ue_list m1). ue_ok ue"
  using assms(1) by (rule rlc_ues.get_ue_cases) (use assms(2) in auto)

lemma put_all_ok:
  assumes "\<forall>ue \<in> set l. ue_ok ue" "ue_ok v"
  shows "\<forall>ue \<in> set (l[k := v]). ue_ok ue"
  using assms set_update_subset_insert [of l k v] by blast

lemma framed_others: "framed u a a' \<Longrightarrow> k \<noteq> u \<Longrightarrow> api_ue a' k = api_ue a k"
proof -
  assume "framed u a a'" "k \<noteq> u"
  then obtain m j m1 ue where m: "api_manager a = Some m" "nr_rlc_manager_get_ue (m\<lparr>mg_lock := True\<rparr>) u = (j, m1)"
    "ue_frame ue = ue_frame (mg_ue_list m1 ! j)" "api_manager a' = Some (nr_rlc_manager_unlock (put_ue j ue m1))"
    by (auto simp: framed_def)
  have "ue_id ue = u" using rlc_ues.get_ue_at(2) [OF m(2)] m(3) by (simp add: ue_frame_def)
  from rlc_ues.get_put_others [OF m(2) this \<open>k \<noteq> u\<close>] m(1,4) show ?thesis by (simp add: api_ue_def)
qed

lemma framed_ok: "framed u a a' \<Longrightarrow> api_ok a \<Longrightarrow> api_ok a'"
proof -
  assume "framed u a a'" and ok: "api_ok a"
  then obtain m j m1 ue where m: "api_manager a = Some m" "nr_rlc_manager_get_ue (m\<lparr>mg_lock := True\<rparr>) u = (j, m1)"
    "ue_frame ue = ue_frame (mg_ue_list m1 ! j)" "api_manager a' = Some (nr_rlc_manager_unlock (put_ue j ue m1))"
    by (auto simp: framed_def)
  note e = rlc_ues.get_ue_at [OF m(2)]
  have "ue_id ue = u" using e m(3) by (simp add: ue_frame_def)
  then have d: "distinct (map ue_id (mg_ue_list (put_ue j ue m1)))"
    using rlc_ues.get_put_distinct [OF m(2)] ok m(1) by (simp add: api_ok_def del: put_ue_list)
  have "\<forall>v \<in> set (mg_ue_list m1). ue_ok v" using get_ue_all_ok [OF m(2)] ok m(1) by (simp add: api_ok_def)
  moreover have "ue_ok ue" using calculation e ue_ok_frame [OF m(3)] by simp
  ultimately show ?thesis using d m(4) put_all_ok [of "mg_ue_list m1" ue j] by (simp add: api_ok_def)
qed

lemma ue_drop_subset: "set (ue_drop i us) \<subseteq> set us"
  by (auto simp: ue_drop_def dest: in_set_takeD in_set_dropD)

lemma remove_ue_typed:
  assumes "nr_rlc_manager_remove_ue m u = Inr m'" "\<forall>ue \<in> set (mg_ue_list m). ue_ok ue"
  shows "\<forall>ue \<in> set (mg_ue_list m'). ue_ok ue"
proof -
  have "set (mg_ue_list m') \<subseteq> set (mg_ue_list m)"
    using rlc_ues.ues_remove [OF assms(1)] by (auto split: option.splits dest: subsetD [OF ue_drop_subset])
  with assms(2) show ?thesis by blast
qed

lemma remove_ue_ok:
  assumes "nr_rlc_manager_remove_ue m u = Inr m'" "distinct (map ue_id (mg_ue_list m))" "\<forall>ue \<in> set (mg_ue_list m). ue_ok ue"
  shows "distinct (map ue_id (mg_ue_list m')) \<and> (\<forall>ue \<in> set (mg_ue_list m'). ue_ok ue)"
  using rlc_ues.remove_same [OF assms(1,2)] remove_ue_typed [OF assms(1,3)] by simp

lemma put_frame_typed:
  assumes "nr_rlc_manager_get_ue m u = (k, m1)" "\<forall>ue \<in> set (mg_ue_list m). ue_ok ue" "ue_ok ue = ue_ok (mg_ue_list m1 ! k)"
  shows "\<forall>w \<in> set (mg_ue_list (put_ue k ue m1)). ue_ok w"
  using get_ue_all_ok [OF assms(1,2)] rlc_ues.get_ue_at [OF assms(1)] assms(3) put_all_ok [of "mg_ue_list m1" ue k] by simp

lemma remove_call:
  assumes "nr_rlc_remove_ue u a = Inr (r, a')"
  obtains m m1 where "api_manager a = Some m" "\<not> mg_lock m" "nr_rlc_manager_remove_ue (m\<lparr>mg_lock := True\<rparr>) u = Inr m1"
    "api_manager a' = Some (nr_rlc_manager_unlock m1)"
  using assms by (auto simp: nr_rlc_remove_ue_def api_lock_def nr_rlc_manager_lock_def bindR_eq_Inr split: option.splits if_splits)

lemma config_call:
  assumes "rrc_rlc_config_req u srb mb rm md rb a = Inr (r, a')"
  obtains m k m1 ue m3 where "api_manager a = Some m" "\<not> mg_lock m" "nr_rlc_manager_get_ue (m\<lparr>mg_lock := True\<rparr>) u = (k, m1)"
    "ue_frame ue = ue_frame (mg_ue_list m1 ! k)"
    "nr_rlc_manager_remove_ue (put_ue k ue m1) u = Inr m3 \<or> m3 = put_ue k ue m1"
    "api_manager a' = Some (nr_rlc_manager_unlock m3)"
proof -
  obtain m where m: "api_manager a = Some m" "api_lock a = Inr (m\<lparr>mg_lock := True\<rparr>)" "\<not> mg_lock m"
    using assms by (auto simp: rrc_rlc_config_req_def bindR_eq_Inr api_lock_def nr_rlc_manager_lock_def split: option.splits if_splits)
  obtain k m1 where g: "nr_rlc_manager_get_ue (m\<lparr>mg_lock := True\<rparr>) u = (k, m1)" by fastforce
  obtain p ue m3 where "delete_slot p (mg_ue_list m1 ! k) = Inr ue"
    "(if no_bearer_left ue then nr_rlc_manager_remove_ue (put_ue k ue m1) u else Inr (put_ue k ue m1)) = Inr m3"
    "api_manager a' = Some (nr_rlc_manager_unlock m3)"
  proof -
    have "bindR (if srb then srb_slot (mg_ue_list m1 ! k) (rb - 1) else drb_slot (mg_ue_list m1 ! k) (rb - 1)) (\<lambda>p.
        bindR (delete_slot p (mg_ue_list m1 ! k)) (\<lambda>ue1.
        bindR (if no_bearer_left ue1 then nr_rlc_manager_remove_ue (put_ue k ue1 m1) u else Inr (put_ue k ue1 m1)) (\<lambda>m3.
          Inr ((), a\<lparr>api_manager := Some (nr_rlc_manager_unlock m3)\<rparr>)))) = Inr (r, a')"
      using assms unfolding rrc_rlc_config_req_def m(2) bindR_Inr g prod.case Let_def by (metis Inl_Inr_False)
    then show ?thesis unfolding bindR_eq_Inr by (auto intro: that)
  qed
  with m(1,3) g show thesis by (intro that [of m k m1 ue m3]) (auto dest: delete_slot_frame split: if_splits)
qed


lemma remove_call_others: "nr_rlc_remove_ue u a = Inr (r, a') \<Longrightarrow> k \<noteq> u \<Longrightarrow> api_ue a' k = api_ue a k"
  by (erule remove_call) (use rlc_ues.remove_others in \<open>auto simp: api_ue_def\<close>)

lemma remove_call_ok:
  assumes "nr_rlc_remove_ue u a = Inr (r, a')" "api_ok a"
  shows "api_ok a'"
proof -
  obtain m m1 where m: "api_manager a = Some m" "\<not> mg_lock m" "nr_rlc_manager_remove_ue (m\<lparr>mg_lock := True\<rparr>) u = Inr m1"
    "api_manager a' = Some (nr_rlc_manager_unlock m1)"
    using remove_call [OF assms(1)] .
  from remove_ue_ok [OF m(3)] assms(2) m(1,4) show ?thesis by (simp add: api_ok_def)
qed

lemma config_call_others:
  assumes "rrc_rlc_config_req u srb mb rm md rb a = Inr (r, a')" "k \<noteq> u"
  shows "api_ue a' k = api_ue a k"
proof -
  obtain m j m1 ue m3 where m: "api_manager a = Some m" "\<not> mg_lock m" "nr_rlc_manager_get_ue (m\<lparr>mg_lock := True\<rparr>) u = (j, m1)"
    "ue_frame ue = ue_frame (mg_ue_list m1 ! j)"
    "nr_rlc_manager_remove_ue (put_ue j ue m1) u = Inr m3 \<or> m3 = put_ue j ue m1"
    "api_manager a' = Some (nr_rlc_manager_unlock m3)"
    using config_call [OF assms(1)] .
  have "ue_id ue = u" using rlc_ues.get_ue_at(2) [OF m(3)] m(4) by (simp add: ue_frame_def)
  from rlc_ues.get_put_others [OF m(3) this assms(2)]
  have "ue_lookup ue_id (mg_ue_list (put_ue j ue m1)) k = ue_lookup ue_id (mg_ue_list m) k" by simp
  with m(5) rlc_ues.remove_others [of "put_ue j ue m1" u m3 k] assms(2) m(1,6) show ?thesis by (auto simp: api_ue_def)
qed

lemma config_call_ok:
  assumes "rrc_rlc_config_req u srb mb rm md rb a = Inr (r, a')" "api_ok a"
  shows "api_ok a'"
proof -
  obtain m j m1 ue m3 where m: "api_manager a = Some m" "\<not> mg_lock m" "nr_rlc_manager_get_ue (m\<lparr>mg_lock := True\<rparr>) u = (j, m1)"
    "ue_frame ue = ue_frame (mg_ue_list m1 ! j)"
    "nr_rlc_manager_remove_ue (put_ue j ue m1) u = Inr m3 \<or> m3 = put_ue j ue m1"
    "api_manager a' = Some (nr_rlc_manager_unlock m3)"
    using config_call [OF assms(1)] .
  note e = rlc_ues.get_ue_at [OF m(3)]
  have "ue_id ue = u" using e m(4) by (simp add: ue_frame_def)
  then have d: "distinct (map ue_id (mg_ue_list (put_ue j ue m1)))"
    using rlc_ues.get_put_distinct [OF m(3)] assms(2) m(1) by (simp add: api_ok_def del: put_ue_list)
  have "\<forall>v \<in> set (mg_ue_list m1). ue_ok v" using get_ue_all_ok [OF m(3)] assms(2) m(1) by (simp add: api_ok_def)
  moreover have "ue_ok ue" using calculation e ue_ok_frame [OF m(4)] by simp
  ultimately have s: "\<forall>v \<in> set (mg_ue_list (put_ue j ue m1)). ue_ok v" using put_all_ok [of "mg_ue_list m1" ue j] by simp
  have "distinct (map ue_id (mg_ue_list m3)) \<and> (\<forall>v \<in> set (mg_ue_list m3). ue_ok v)"
    using m(5) remove_ue_ok [OF _ d s] d s by blast
  with m(6) show ?thesis by (simp add: api_ok_def)
qed

lemma update_id_call:
  assumes "nr_rlc_update_id env u v a = Inr (r, a')"
  obtains m k m1 ue where "api_manager a = Some m" "\<not> mg_lock m" "nr_rlc_manager_get_ue (m\<lparr>mg_lock := True\<rparr>) u = (k, m1)"
    "ue_frame ue = ue_frame ((mg_ue_list m1 ! k)\<lparr>ue_id := v\<rparr>)"
    "api_manager a' = Some (nr_rlc_manager_unlock (put_ue k ue m1))"
proof -
  obtain m where m: "api_manager a = Some m" "api_lock a = Inr (m\<lparr>mg_lock := True\<rparr>)" "\<not> mg_lock m"
    using assms by (auto simp: nr_rlc_update_id_def with_ue_def bindR_eq_Inr api_lock_def nr_rlc_manager_lock_def split: option.splits if_splits)
  obtain k m1 where g: "nr_rlc_manager_get_ue (m\<lparr>mg_lock := True\<rparr>) u = (k, m1)" by fastforce
  obtain ue outs where ue: "(if ue_srb ((mg_ue_list m1 ! k)\<lparr>ue_id := v\<rparr>) ! 0 = None then Inr ((mg_ue_list m1 ! k)\<lparr>ue_id := v\<rparr>, [], True)
      else call_entity env (mg_enb_flag m1) (Srb 0) (\<lambda>e. mapR (\<lambda>e'. (e', True)) (entity_reestablishment e))
        ((mg_ue_list m1 ! k)\<lparr>ue_id := v\<rparr>)) = Inr (ue, outs, r)"
    "a' = a\<lparr>api_manager := Some (nr_rlc_manager_unlock (put_ue k ue m1)), api_out := api_out a @ outs\<rparr>"
    using assms unfolding nr_rlc_update_id_def with_ue_def m(2) bindR_Inr g prod.case Let_def bindR_eq_Inr by auto
  have "ue_frame ue = ue_frame ((mg_ue_list m1 ! k)\<lparr>ue_id := v\<rparr>)"
    using ue(1) by (auto split: if_splits dest: call_entity_frame)
  with m(1,3) g ue(2) show thesis by (intro that [of m k m1 ue]) simp_all
qed

lemma lookup_update_moved:
  assumes "i < length us" "k \<noteq> key (us ! i)" "k \<noteq> key u"
  shows "ue_lookup key (us[i := u]) k = ue_lookup key us k"
  using ue_lookup_update_other [of i us key k u] assms by simp

lemma update_id_others:
  assumes "nr_rlc_update_id env u v a = Inr (r, a')" "k \<noteq> u" "k \<noteq> v"
  shows "api_ue a' k = api_ue a k"
proof -
  obtain m j m1 ue where m: "api_manager a = Some m" "\<not> mg_lock m" "nr_rlc_manager_get_ue (m\<lparr>mg_lock := True\<rparr>) u = (j, m1)"
    "ue_frame ue = ue_frame ((mg_ue_list m1 ! j)\<lparr>ue_id := v\<rparr>)"
    "api_manager a' = Some (nr_rlc_manager_unlock (put_ue j ue m1))"
    using update_id_call [OF assms(1)] .
  have "ue_lookup ue_id ((mg_ue_list m1)[j := ue]) k = ue_lookup ue_id (mg_ue_list m1) k"
    using lookup_update_moved [of j "mg_ue_list m1" k ue_id ue] rlc_ues.get_ue_at [OF m(3)] m(4) assms(2,3)
    by (simp add: ue_frame_def)
  with rlc_ues.get_ue_others [OF m(3) assms(2)] m(1,5) show ?thesis by (simp add: api_ue_def)
qed

lemma update_id_ok:
  assumes "nr_rlc_update_id env u v a = Inr (r, a')" "api_ok a" "u = v \<or> api_ue a v = None"
  shows "api_ok a'"
proof -
  obtain m j m1 ue where m: "api_manager a = Some m" "\<not> mg_lock m" "nr_rlc_manager_get_ue (m\<lparr>mg_lock := True\<rparr>) u = (j, m1)"
    "ue_frame ue = ue_frame ((mg_ue_list m1 ! j)\<lparr>ue_id := v\<rparr>)"
    "api_manager a' = Some (nr_rlc_manager_unlock (put_ue j ue m1))"
    using update_id_call [OF assms(1)] .
  note e = rlc_ues.get_ue_at [OF m(3)]
  have ok: "\<forall>w \<in> set (mg_ue_list m1). ue_ok w" "distinct (map ue_id (mg_ue_list m1))"
    using get_ue_all_ok [OF m(3)] rlc_ues.get_ue_distinct [OF m(3)] assms(2) m(1) by (simp_all add: api_ok_def)
  have v: "ue_id ue = v" using m(4) by (simp add: ue_frame_def)
  have "ue_ok ((mg_ue_list m1 ! j)\<lparr>ue_id := v\<rparr>)" using ok(1) e(1) by (simp add: ue_ok_def)
  then have "ue_ok ue" using ue_ok_frame [OF m(4)] by simp
  moreover have "distinct (map ue_id ((mg_ue_list m1)[j := ue]))"
  proof (cases "u = v")
    case True
    then show ?thesis using map_key_update [of j "mg_ue_list m1" ue_id ue] e v ok(2) by simp
  next
    case False
    then have "ue_lookup ue_id (mg_ue_list m1) v = None"
      using assms(3) rlc_ues.get_ue_others [OF m(3), of v] m(1) by (simp add: api_ue_def)
    then have "v \<notin> set (map ue_id (mg_ue_list m1))" by (simp add: ue_lookup_None)
    then show ?thesis unfolding map_update v using distinct_list_update [OF ok(2), of v j] by blast
  qed
  ultimately show ?thesis using put_all_ok [OF ok(1)] m(5) by (simp add: api_ok_def)
qed

lemma lcid_call:
  assumes "nr_rlc_get_lcid_from_rb u srb rb a = Inr (r, a')"
  obtains m k m1 where "api_manager a = Some m" "\<not> mg_lock m" "nr_rlc_manager_get_ue (m\<lparr>mg_lock := True\<rparr>) u = (k, m1)"
    "api_manager a' = Some m1"
proof -
  obtain m where m: "api_manager a = Some m" "api_lock a = Inr (m\<lparr>mg_lock := True\<rparr>)" "\<not> mg_lock m"
    using assms by (auto simp: nr_rlc_get_lcid_from_rb_def bindR_eq_Inr api_lock_def nr_rlc_manager_lock_def split: option.splits if_splits)
  obtain k m1 where g: "nr_rlc_manager_get_ue (m\<lparr>mg_lock := True\<rparr>) u = (k, m1)" by fastforce
  have "api_manager a' = Some m1"
    using assms unfolding nr_rlc_get_lcid_from_rb_def m(2) bindR_Inr g prod.case by auto
  with m g show thesis by (intro that)
qed

text \<open>
  Property C19. Calls for one UE do not show in another: whatever call of the RLC interface is made, by
  MAC, PDCP or RRC, with whatever arguments, every UE other than the one it names (and, for a change of
  id, the new id) has the same entities in the same state afterwards.
\<close>

theorem rlc_calls_isolated:
  assumes "rlc_step env c a = Inr a'" "k \<noteq> call_ue c" "\<forall>u v. c = UpdateId u v \<longrightarrow> k \<noteq> v"
  shows "api_ue a' k = api_ue a k"
proof (cases "ue_call c")
  case True
  from framed_others [OF ue_call_framed [OF assms(1) this] assms(2)] show ?thesis .
next
  case False
  show ?thesis
  proof (cases c)
    case (UpdateId u v)
    with assms show ?thesis using update_id_others by (auto simp: forget_eq)
  next
    case (RemoveUe u)
    with assms show ?thesis using remove_call_others by (auto simp: forget_eq)
  next
    case (ConfigReq u srb mb rm md rb)
    with assms show ?thesis using config_call_others by (auto simp: forget_eq)
  next
    case (GetLcidFromRb u srb rb)
    then obtain r where "nr_rlc_get_lcid_from_rb u srb rb a = Inr (r, a')" using assms(1) by (auto simp: forget_eq)
    then obtain m j m1 where "api_manager a = Some m" "nr_rlc_manager_get_ue (m\<lparr>mg_lock := True\<rparr>) u = (j, m1)" "api_manager a' = Some m1"
      by (rule lcid_call)
    with rlc_ues.get_ue_others [of "m\<lparr>mg_lock := True\<rparr>" u j m1 k] assms(2) GetLcidFromRb show ?thesis by (simp add: api_ue_def)
  qed (use False in simp_all)
qed


section \<open>Runs\<close>

text \<open>
  The states the interface reaches: it is initialised once, MAC ticks, and calls return, all of them and
  in any order. Two things are remembered of the run, because they decide what holds: \<open>searched\<close>, that
  \<open>nr_rlc_get_lcid_from_rb\<close> has returned, and \<open>reused\<close>, that \<open>nr_rlc_update_id\<close> gave a UE the id of
  another context.
\<close>

fun is_lcid_search :: "rlc_call \<Rightarrow> bool" where
  "is_lcid_search (GetLcidFromRb u srb rb) = True"
| "is_lcid_search _ = False"

fun is_id_reuse :: "rlc_api \<Rightarrow> rlc_call \<Rightarrow> bool" where
  "is_id_reuse a (UpdateId u v) \<longleftrightarrow> u \<noteq> v \<and> api_ue a v \<noteq> None"
| "is_id_reuse a _ = False"

inductive rlc_reachable :: "rlc_env \<Rightarrow> bool \<Rightarrow> bool \<Rightarrow> rlc_api \<Rightarrow> bool" for env where
  init: "rlc_module_init enb_flag rlc_api_start = Inr (r, a) \<Longrightarrow> rlc_reachable env False False a"
| tick: "rlc_reachable env searched reused a \<Longrightarrow> rlc_reachable env searched reused (nr_rlc_tick frame subframe a)"
| call: "rlc_reachable env searched reused a \<Longrightarrow> rlc_step env c a = Inr a' \<Longrightarrow>
    rlc_reachable env (searched \<or> is_lcid_search c) (reused \<or> is_id_reuse a c) a'"

lemma tick_manager [simp]: "api_manager (nr_rlc_tick f s a) = api_manager a"
  by (simp add: nr_rlc_tick_def)

text \<open>What every call does: it gets the lock, keeps the tables typed and, the search apart, unlocks.\<close>

definition api_typed :: "rlc_api \<Rightarrow> bool" where
  "api_typed a \<longleftrightarrow> (\<forall>m. api_manager a = Some m \<longrightarrow> (\<forall>ue \<in> set (mg_ue_list m). ue_ok ue))"

definition call_shape :: "bool \<Rightarrow> rlc_api \<Rightarrow> rlc_api \<Rightarrow> bool" where
  "call_shape keeps_lock a a' \<longleftrightarrow> (\<exists>m m'. api_manager a = Some m \<and> \<not> mg_lock m \<and> api_manager a' = Some m' \<and>
     (mg_lock m' \<longleftrightarrow> keeps_lock) \<and> (api_typed a \<longrightarrow> api_typed a'))"

lemma framed_shape: "framed u a a' \<Longrightarrow> call_shape False a a'"
proof -
  assume "framed u a a'"
  then obtain m j m1 ue where m: "api_manager a = Some m" "\<not> mg_lock m" "nr_rlc_manager_get_ue (m\<lparr>mg_lock := True\<rparr>) u = (j, m1)"
    "ue_frame ue = ue_frame (mg_ue_list m1 ! j)" "api_manager a' = Some (nr_rlc_manager_unlock (put_ue j ue m1))"
    by (auto simp: framed_def)
  with put_frame_typed [OF m(3) _ ue_ok_frame [OF m(4)]] show ?thesis
    by (auto simp: call_shape_def api_typed_def)
qed

lemma update_id_shape:
  assumes "nr_rlc_update_id env u v a = Inr (r, a')"
  shows "call_shape False a a'"
proof -
  obtain m j m1 ue where m: "api_manager a = Some m" "\<not> mg_lock m" "nr_rlc_manager_get_ue (m\<lparr>mg_lock := True\<rparr>) u = (j, m1)"
    "ue_frame ue = ue_frame ((mg_ue_list m1 ! j)\<lparr>ue_id := v\<rparr>)"
    "api_manager a' = Some (nr_rlc_manager_unlock (put_ue j ue m1))"
    using update_id_call [OF assms] .
  have "ue_ok ue = ue_ok (mg_ue_list m1 ! j)" using ue_ok_frame [OF m(4)] by (simp add: ue_ok_def)
  with put_frame_typed [OF m(3) _ this] m show ?thesis by (auto simp: call_shape_def api_typed_def)
qed

lemma remove_shape:
  assumes "nr_rlc_remove_ue u a = Inr (r, a')"
  shows "call_shape False a a'"
proof -
  obtain m m1 where m: "api_manager a = Some m" "\<not> mg_lock m" "nr_rlc_manager_remove_ue (m\<lparr>mg_lock := True\<rparr>) u = Inr m1"
    "api_manager a' = Some (nr_rlc_manager_unlock m1)"
    using remove_call [OF assms] .
  with remove_ue_typed [OF m(3)] show ?thesis by (auto simp: call_shape_def api_typed_def)
qed

lemma config_shape:
  assumes "rrc_rlc_config_req u srb mb rm md rb a = Inr (r, a')"
  shows "call_shape False a a'"
proof -
  obtain m j m1 ue m3 where m: "api_manager a = Some m" "\<not> mg_lock m" "nr_rlc_manager_get_ue (m\<lparr>mg_lock := True\<rparr>) u = (j, m1)"
    "ue_frame ue = ue_frame (mg_ue_list m1 ! j)"
    "nr_rlc_manager_remove_ue (put_ue j ue m1) u = Inr m3 \<or> m3 = put_ue j ue m1"
    "api_manager a' = Some (nr_rlc_manager_unlock m3)"
    using config_call [OF assms] .
  have "\<forall>w \<in> set (mg_ue_list m3). ue_ok w" if "\<forall>w \<in> set (mg_ue_list m). ue_ok w"
    using m(5) put_frame_typed [OF m(3) _ ue_ok_frame [OF m(4)]] that
      remove_ue_typed [of "put_ue j ue m1" u m3] by fastforce
  with m show ?thesis by (auto simp: call_shape_def api_typed_def)
qed

lemma search_shape:
  assumes "nr_rlc_get_lcid_from_rb u srb rb a = Inr (r, a')"
  shows "call_shape True a a' \<and> (api_ok a \<longrightarrow> (\<forall>m'. api_manager a' = Some m' \<longrightarrow> distinct (map ue_id (mg_ue_list m'))))"
proof -
  obtain m k m1 where m: "api_manager a = Some m" "\<not> mg_lock m" "nr_rlc_manager_get_ue (m\<lparr>mg_lock := True\<rparr>) u = (k, m1)"
    "api_manager a' = Some m1" using lcid_call [OF assms] by blast
  have "mg_lock m1" using m(3) by (auto simp: nr_rlc_manager_get_ue_def split: prod.splits)
  with m get_ue_all_ok [OF m(3)] rlc_ues.get_ue_distinct [OF m(3)] show ?thesis
    by (auto simp: call_shape_def api_typed_def api_ok_def)
qed

lemma step_shape: "rlc_step env c a = Inr a' \<Longrightarrow> call_shape (is_lcid_search c) a a'"
proof (cases "ue_call c")
  case True
  assume "rlc_step env c a = Inr a'"
  from framed_shape [OF ue_call_framed [OF this True]] True show ?thesis by (cases c) simp_all
next
  case False
  assume "rlc_step env c a = Inr a'"
  with False show ?thesis
    using update_id_shape remove_shape config_shape search_shape by (cases c) (auto simp: forget_eq)
qed

lemma step_manager: "rlc_step env c a = Inr a' \<Longrightarrow> \<exists>m m'. api_manager a = Some m \<and> \<not> mg_lock m \<and> api_manager a' = Some m'"
  using step_shape unfolding call_shape_def by blast

lemma rlc_step_ok:
  assumes "rlc_step env c a = Inr a'" "api_ok a" "\<not> is_lcid_search c" "\<not> is_id_reuse a c"
  shows "api_ok a'"
proof (cases "ue_call c")
  case True
  from framed_ok [OF ue_call_framed [OF assms(1) this] assms(2)] show ?thesis .
next
  case False
  show ?thesis
  proof (cases c)
    case (UpdateId u v)
    with assms show ?thesis using update_id_ok by (auto simp: forget_eq)
  next
    case (RemoveUe u)
    with assms show ?thesis using remove_call_ok by (auto simp: forget_eq)
  next
    case (ConfigReq u srb mb rm md rb)
    with assms show ?thesis using config_call_ok by (auto simp: forget_eq)
  qed (use False assms(3) in simp_all)
qed

lemma rlc_reachable_inv:
  assumes "rlc_reachable env searched reused a"
  shows "\<exists>m. api_manager a = Some m \<and> (mg_lock m \<longleftrightarrow> searched) \<and> api_typed a \<and>
    (\<not> reused \<longrightarrow> distinct (map ue_id (mg_ue_list m)))"
  using assms
proof (induction rule: rlc_reachable.induct)
  case (init enb_flag r a)
  then show ?case
    by (auto simp: rlc_module_init_def rlc_api_start_def new_nr_rlc_ue_manager_def api_typed_def split: if_splits)
next
  case (tick searched reused a frame subframe)
  then show ?case by (simp add: api_typed_def)
next
  case (call searched reused a c a')
  obtain m m' where m: "api_manager a = Some m" "\<not> mg_lock m" "api_manager a' = Some m'" "mg_lock m' \<longleftrightarrow> is_lcid_search c"
      "api_typed a \<longrightarrow> api_typed a'"
    using step_shape [OF call(2)] unfolding call_shape_def by blast
  have i: "\<not> searched" "api_typed a" "\<not> reused \<longrightarrow> api_ok a"
    using call.IH m(1,2) by (auto simp: api_ok_def api_typed_def)
  have "distinct (map ue_id (mg_ue_list m'))" if r: "\<not> reused" "\<not> is_id_reuse a c"
  proof (cases "is_lcid_search c")
    case True
    then obtain u srb rb where "c = GetLcidFromRb u srb rb" by (cases c) simp_all
    with call(2) obtain x where "nr_rlc_get_lcid_from_rb u srb rb a = Inr (x, a')" by (auto simp: forget_eq)
    with search_shape i(3) r(1) m(3) show ?thesis by blast
  next
    case False
    with rlc_step_ok [OF call(2)] i(3) r m(3) show ?thesis by (simp add: api_ok_def)
  qed
  with m i show ?case by auto
qed

text \<open>
  Property C20. The tables of RLC in every state that the interface reaches, by all of its calls in any
  order: every context has 3 signalling and 32 data bearers and 32 logical channels; the lock is free, so
  that the next call gets in, exactly as long as \<open>nr_rlc_get_lcid_from_rb\<close> has not been called; and
  every id has one context unless \<open>nr_rlc_update_id\<close> was called with the id of another context.
\<close>

theorem rlc_tables_well_typed:
  assumes "rlc_reachable env searched reused a"
  shows "\<exists>m. api_manager a = Some m \<and>
    (\<forall>ue \<in> set (mg_ue_list m). length (ue_srb ue) = 3 \<and> length (ue_drb ue) = MAX_DRBS_PER_UE \<and> length (ue_lcid2rb ue) = 32) \<and>
    ((\<exists>m1. api_lock a = Inr m1) \<longleftrightarrow> \<not> searched) \<and>
    (\<not> reused \<longrightarrow> distinct (map ue_id (mg_ue_list m)))"
  using rlc_reachable_inv [OF assms]
  by (auto simp: api_typed_def ue_ok_def api_lock_def nr_rlc_manager_lock_def)

definition demo_env :: rlc_env where
  "demo_env = \<lparr>env_nrrrc = Some Ngran_gNB, env_f1_ue_data = \<lambda>_. None\<rparr>"

lemma demo_reachable:
  "\<exists>a. rlc_reachable demo_env False False a \<and> (\<exists>e. map_option ue_srb0 (api_ue a 5) = Some (Some (TmEntity e, 5)))"
proof -
  obtain e where e: "new_nr_rlc_entity_tm 10000 = Inr e"
    by (simp add: new_nr_rlc_entity_tm_def entity_init_def time_average_new_def)
  let ?m = "new_nr_rlc_ue_manager 1"
  let ?a = "rlc_api_start\<lparr>api_inited := True, api_manager := Some ?m\<rparr>"
  have init: "rlc_module_init 1 rlc_api_start = Inr (0, ?a)" by (simp add: rlc_module_init_def rlc_api_start_def)
  let ?ue = "(nr_rlc_ue_zero 5)\<lparr>ue_srb0 := Some (TmEntity e, 5)\<rparr>"
  have "rlc_step demo_env (ActivateSrb0 5) ?a = Inr (?a\<lparr>api_manager := Some (?m\<lparr>mg_ue_list := [?ue]\<rparr>)\<rparr>)"
    by (simp add: forget_def mapR_def nr_rlc_activate_srb0_def with_ue_def api_lock_def nr_rlc_manager_lock_def
      new_nr_rlc_ue_manager_def nr_rlc_manager_get_ue_def ue_get_def e nr_rlc_ue_add_srb_rlc_entity_def
      nr_rlc_ue_zero_def put_ue_def nr_rlc_manager_unlock_def rlc_api_start_def)
  from rlc_reachable.call [OF rlc_reachable.init [OF init] this] show ?thesis
    by (intro exI [of _ "?a\<lparr>api_manager := Some (?m\<lparr>mg_ue_list := [?ue]\<rparr>)\<rparr>"])
      (simp add: api_ue_def nr_rlc_ue_zero_def)
qed

theorem rlc_tables_well_typed_witness:
  "\<exists>a e m m1. map_option ue_srb0 (api_ue a 5) = Some (Some (TmEntity e, 5)) \<and> api_manager a = Some m \<and>
    api_lock a = Inr m1 \<and> distinct (map ue_id (mg_ue_list m))"
proof -
  obtain a e where a: "rlc_reachable demo_env False False a" "map_option ue_srb0 (api_ue a 5) = Some (Some (TmEntity e, 5))"
    using demo_reachable by blast
  from rlc_tables_well_typed [OF a(1)] a(2) show ?thesis by blast
qed

text \<open>
  Property C26. The search for a logical channel keeps the lock: once \<open>nr_rlc_get_lcid_from_rb\<close> has
  returned, no call of the interface returns any more, and the re-establishment that RRC of a UE asks
  for right after the search waits for ever.
\<close>

theorem rlc_lcid_search_hangs:
  assumes "nr_rlc_get_lcid_from_rb u is_srb rb_id a = Inr (lcid, a1)"
  shows "nr_rlc_reestablish_entity env u lcid a1 = Inl Hang \<and> (\<forall>c a2. rlc_step env c a1 \<noteq> Inr a2)"
proof -
  obtain m k m1 where m: "nr_rlc_manager_get_ue (m\<lparr>mg_lock := True\<rparr>) u = (k, m1)" "api_manager a1 = Some m1"
    using lcid_call [OF assms] by blast
  have "mg_lock m1" using m(1) by (auto simp: nr_rlc_manager_get_ue_def split: prod.splits)
  with m(2) step_manager [of env _ a1] show ?thesis
    by (auto simp: nr_rlc_reestablish_entity_def with_ue_def api_lock_def nr_rlc_manager_lock_def)
qed


theorem rlc_lcid_search_hangs_witness:
  "\<exists>lcid a1. nr_rlc_get_lcid_from_rb 5 True 1 (rlc_api_start\<lparr>api_manager := Some (new_nr_rlc_ue_manager 0)\<rparr>) = Inr (lcid, a1) \<and>
    nr_rlc_reestablish_entity demo_env 5 lcid a1 = Inl Hang"
proof -
  have "\<exists>lcid a1. nr_rlc_get_lcid_from_rb 5 True 1 (rlc_api_start\<lparr>api_manager := Some (new_nr_rlc_ue_manager 0)\<rparr>) = Inr (lcid, a1)"
    by (simp add: nr_rlc_get_lcid_from_rb_def api_lock_def nr_rlc_manager_lock_def new_nr_rlc_ue_manager_def split: prod.splits)
  then show ?thesis using rlc_lcid_search_hangs by blast
qed

theorem rlc_calls_isolated_witness:
  "\<exists>a a' e. api_manager a = Some ((new_nr_rlc_ue_manager 1)\<lparr>mg_ue_list := [(nr_rlc_ue_zero 5)\<lparr>ue_srb0 := Some (TmEntity e, 5)\<rparr>]\<rparr>) \<and>
    rlc_step demo_env (AddSrb 7 1 \<lparr>bc_logicalChannelIdentity = 1, bc_servedRadioBearer = Some (SrbIdentity 1),
      bc_rlc_Config = None\<rparr>) a = Inr a' \<and> api_ue a' 5 = api_ue a 5 \<and> api_ue a' 7 \<noteq> None"
proof -
  obtain e where e: "new_nr_rlc_entity_tm 10000 = Inr e"
    by (simp add: new_nr_rlc_entity_tm_def entity_init_def time_average_new_def)
  let ?a = "rlc_api_start\<lparr>api_manager := Some ((new_nr_rlc_ue_manager 1)\<lparr>mg_ue_list := [(nr_rlc_ue_zero 5)\<lparr>ue_srb0 := Some (TmEntity e, 5)\<rparr>]\<rparr>)\<rparr>"
  let ?c = "AddSrb 7 1 \<lparr>bc_logicalChannelIdentity = 1, bc_servedRadioBearer = Some (SrbIdentity 1), bc_rlc_Config = None\<rparr>"
  have "\<exists>g. new_am_with am_default_params = Inr g"
    by (simp add: new_am_with_def am_default_params_def new_nr_rlc_entity_am_def entity_init_def time_average_new_def mapR_def)
  then obtain g where g: "new_am_with am_default_params = Inr g" by blast
  have "\<exists>a'. rlc_step demo_env ?c ?a = Inr a' \<and> api_ue a' 7 \<noteq> None"
    by (simp add: forget_def mapR_def nr_rlc_add_srb_def with_ue_def api_lock_def nr_rlc_manager_lock_def
      new_nr_rlc_ue_manager_def nr_rlc_manager_get_ue_def ue_get_def g set_lcid_def array_get_def srb_slot_def
      nr_rlc_ue_add_srb_rlc_entity_def nr_rlc_ue_zero_def put_ue_def nr_rlc_manager_unlock_def api_ue_def)
  then obtain a' where a': "rlc_step demo_env ?c ?a = Inr a'" "api_ue a' 7 \<noteq> None" by blast
  have "api_ue a' 5 = api_ue ?a 5" by (rule rlc_calls_isolated [OF a'(1)]) simp_all
  with a' show ?thesis by (intro exI [of _ ?a] exI [of _ a'] exI [of _ e]) simp
qed

end
