(* ===== verification/Rlc_Api_Srb0.thy ===== *)
theory Rlc_Api_Srb0
  imports Rlc_Api_Props Rlc_Tm_Proofs
begin

text \<open>
  The interface and the TM entity together: the first message of a UE goes from its RRC through the
  interface, the MAC and the interface of the gNB to RRC there.
\<close>

lemma index_of_lookup: "ue_lookup key us k = Some u \<Longrightarrow> \<exists>i. ue_index key k us = Some i \<and> us ! i = u"
  by (auto simp: ue_lookup_def)

lemma with_known_ue:
  assumes "api_manager a = Some m" "\<not> mg_lock m" "api_ue a u = Some ue" "body (mg_enb_flag m) ue = Inr (ue', outs, r)"
    "ue_id ue' = u"
  shows "\<exists>a' m'. with_ue u body a = Inr (r, a') \<and> api_ue a' u = Some ue' \<and> api_out a' = api_out a @ outs \<and>
    api_manager a' = Some m' \<and> \<not> mg_lock m' \<and> mg_enb_flag m' = mg_enb_flag m \<and> api_current_time a' = api_current_time a"
proof -
  obtain k where k: "ue_index ue_id u (mg_ue_list m) = Some k" "mg_ue_list m ! k = ue"
    using index_of_lookup [of ue_id "mg_ue_list m" u ue] assms(1,3) by (auto simp: api_ue_def)
  have g: "nr_rlc_manager_get_ue (m\<lparr>mg_lock := True\<rparr>) u = (k, m\<lparr>mg_lock := True\<rparr>)"
    by (simp add: nr_rlc_manager_get_ue_def ue_get_def k(1))
  let ?a = "a\<lparr>api_manager := Some (nr_rlc_manager_unlock (put_ue k ue' (m\<lparr>mg_lock := True\<rparr>))), api_out := api_out a @ outs\<rparr>"
  have "with_ue u body a = Inr (r, ?a)"
    using assms(1,2,4) by (simp add: with_ue_def api_lock_def nr_rlc_manager_lock_def g k(2))
  moreover have "api_ue ?a u = Some ue'"
    using rlc_ues.get_put_same [OF g assms(5)] by (simp add: api_ue_def)
  ultimately show ?thesis by (intro exI [of _ ?a]) (simp add: nr_rlc_manager_unlock_def put_ue_def)
qed

section \<open>The TM entity behind the interface\<close>

lemma tm_recv_sdu_events:
  "nr_rlc_entity_tm_recv_sdu now e b i = Inr e' \<Longrightarrow> ec_events (tm_common e') = ec_events (tm_common e)"
  by (auto simp: nr_rlc_entity_tm_recv_sdu_def Let_def bindR_eq_Inr tm_upd_common_def tm_set_heap_def ec_defs split: if_splits prod.splits)

lemma tm_generate_events:
  "nr_rlc_entity_tm_generate_pdu now e b = Inr (n, b', e') \<Longrightarrow> ec_events (tm_common e') = ec_events (tm_common e)"
  by (auto simp: nr_rlc_entity_tm_generate_pdu_def tm_generate_tx_pdu_def Let_def bindR_eq_Inr tm_upd_common_def
    tm_set_heap_def ec_defs split: if_splits prod.splits list.splits option.splits)

text \<open>A UE that can use SRB0: the queue of its entity, and the id its messages carry.\<close>

definition srb0_queue :: "rlc_api \<Rightarrow> int \<Rightarrow> int \<Rightarrow> int \<Rightarrow> byte list list \<Rightarrow> bool" where
  "srb0_queue a u i limit q \<longleftrightarrow> (\<exists>m ue e. api_manager a = Some m \<and> \<not> mg_lock m \<and> api_ue a u = Some ue \<and> ue_id ue = u \<and>
     ue_srb0 ue = Some (TmEntity e, i) \<and> tm_inv e \<and> tm_queue e = q \<and> tm_tx_maxsize e = limit)"

lemma tm_time_cong: "tm_inv (nr_rlc_entity_tm_set_time e t) = tm_inv e" "tm_queue (nr_rlc_entity_tm_set_time e t) = tm_queue e"
  "tm_tx_maxsize (nr_rlc_entity_tm_set_time e t) = tm_tx_maxsize e" "tm_common (nr_rlc_entity_tm_set_time e t) = tm_common e"
  by (simp_all add: nr_rlc_entity_tm_set_time_def tm_inv_def tm_queue_def)

definition tm_clear_events :: "nr_rlc_entity_tm \<Rightarrow> nr_rlc_entity_tm" where
  "tm_clear_events e = tm_upd_common (\<lambda>c. c\<lparr>ec_events := []\<rparr>) e"

lemma tm_clear_cong: "tm_inv (tm_clear_events e) = tm_inv e" "tm_queue (tm_clear_events e) = tm_queue e"
  "tm_tx_maxsize (tm_clear_events e) = tm_tx_maxsize e" "ec_events (tm_common (tm_clear_events e)) = []"
  "clear_events (TmEntity e) = TmEntity (tm_clear_events e)"
  by (simp_all add: tm_clear_events_def tm_inv_def tm_queue_def clear_events_def)


lemma srb0_call:
  assumes "api_manager a = Some m" "\<not> mg_lock m" "api_ue a u = Some ue" "ue_id ue = u" "ue_srb0 ue = Some (TmEntity e, i)"
    and "f (TmEntity (tm_clear_events e)) = Inr (TmEntity e', r)"
    and "entity_callbacks env (mg_enb_flag m) ue Srb0 (ec_events (tm_common e')) = Inr outs"
  shows "\<exists>ue'. call_entity env (mg_enb_flag m) Srb0 f ue = Inr (ue', outs, r) \<and> ue_id ue' = u \<and>
    ue_srb0 ue' = Some (TmEntity (tm_clear_events e'), i)"
  using assms by (auto simp: call_entity_def tm_clear_cong(5))

text \<open>An SDU of RRC joins the queue of SRB0.\<close>

lemma srb0_recv_sdu:
  assumes "srb0_queue a u i limit q" "int (length sdu) \<le> NR_SDU_MAX"
  shows "\<exists>a'. nr_rlc_srb_recv_sdu env now u 0 sdu a = Inr ((), a') \<and> srb0_queue a' u i limit (queue_put limit sdu q) \<and>
    api_out a' = api_out a"
proof -
  obtain m ue e where a: "api_manager a = Some m" "\<not> mg_lock m" "api_ue a u = Some ue" "ue_id ue = u"
    "ue_srb0 ue = Some (TmEntity e, i)" "tm_inv e" "tm_queue e = q" "tm_tx_maxsize e = limit"
    using assms(1) by (auto simp: srb0_queue_def)
  let ?e1 = "nr_rlc_entity_tm_set_time (tm_clear_events e) (api_current_time a)"
  have "tm_inv ?e1" using a(6) by (simp add: tm_time_cong tm_clear_cong)
  from tm_recv_sdu_ok [OF this assms(2), of now "- 1"]
  obtain e2 where e2: "nr_rlc_entity_tm_recv_sdu now ?e1 sdu (- 1) = Inr e2" "tm_inv e2" "tm_queue e2 = queue_put limit sdu q"
    "tm_tx_maxsize e2 = limit"
    using a(7,8) by (auto simp: tm_time_cong tm_clear_cong)
  have ev: "ec_events (tm_common e2) = []" using tm_recv_sdu_events [OF e2(1)] by (simp add: tm_time_cong tm_clear_cong)
  let ?f = "\<lambda>e. bindR (entity_set_time (api_current_time a) e) (\<lambda>e1. bindR (entity_recv_sdu now sdu (- 1) e1) (\<lambda>e2. Inr (e2, ())))"
  have "?f (TmEntity (tm_clear_events e)) = Inr (TmEntity e2, ())" using e2(1) by (simp add: mapR_def)
  from srb0_call [where f = ?f, OF a(1-5) this, of env "[]"] ev obtain ue' where
    ue': "call_entity env (mg_enb_flag m) Srb0 ?f ue = Inr (ue', [], ())" "ue_id ue' = u"
      "ue_srb0 ue' = Some (TmEntity (tm_clear_events e2), i)" by auto
  let ?body = "\<lambda>enb_flag ue.
       bindR (if (0::nat) = 0 then Inr (if ue_srb0 ue = None then None else Some Srb0) else srb_slot ue (int 0 - 1))
        (\<lambda>p. case p of None \<Rightarrow> Inl Exit | Some s \<Rightarrow> call_entity env enb_flag s ?f ue)"
  have "?body (mg_enb_flag m) ue = Inr (ue', [], ())" using ue'(1) a(5) by simp
  from with_known_ue [of a m u ue ?body, OF a(1-3) this ue'(2)] obtain a' m' where
    "with_ue u ?body a = Inr ((), a')" "api_ue a' u = Some ue'" "api_out a' = api_out a" "api_manager a' = Some m'" "\<not> mg_lock m'"
    by auto
  with ue' e2 show ?thesis
    by (intro exI [of _ a']) (auto simp: nr_rlc_srb_recv_sdu_def srb0_queue_def tm_clear_cong)
qed

text \<open>A grant that is large enough takes the oldest message.\<close>

lemma srb0_data_req:
  assumes "srb0_queue a u i limit (sdu # q)" "length sdu \<le> length buffer"
  shows "\<exists>a' b. mac_rlc_data_req env now u 0 buffer a = Inr ((int (length sdu), b), a') \<and> take (length sdu) b = sdu \<and>
    srb0_queue a' u i limit q \<and> api_out a' = api_out a"
proof -
  obtain m ue e where a: "api_manager a = Some m" "\<not> mg_lock m" "api_ue a u = Some ue" "ue_id ue = u"
    "ue_srb0 ue = Some (TmEntity e, i)" "tm_inv e" "tm_queue e = sdu # q" "tm_tx_maxsize e = limit"
    using assms(1) by (auto simp: srb0_queue_def)
  let ?e1 = "nr_rlc_entity_tm_set_time (tm_clear_events e) (api_current_time a)"
  have "tm_inv ?e1" using a(6) by (simp add: tm_time_cong tm_clear_cong)
  from tm_generate_ok [OF this, of now buffer]
  obtain b e2 where e2: "nr_rlc_entity_tm_generate_pdu now ?e1 buffer = Inr (int (length sdu), b, e2)" "tm_inv e2"
    "tm_queue e2 = q" "tm_tx_maxsize e2 = limit" "take (length sdu) b = sdu"
    using a(7,8) assms(2) by (auto simp: tm_time_cong tm_clear_cong)
  have ev: "ec_events (tm_common e2) = []" using tm_generate_events [OF e2(1)] by (simp add: tm_time_cong tm_clear_cong)
  let ?f = "\<lambda>e. bindR (entity_set_time (api_current_time a) e) (\<lambda>e1.
       bindR (entity_generate_pdu now buffer e1) (\<lambda>(n, b, e2). Inr (e2, n, b)))"
  have "?f (TmEntity (tm_clear_events e)) = Inr (TmEntity e2, int (length sdu), b)" using e2(1) by (simp add: mapR_def)
  from srb0_call [where f = ?f, OF a(1-5) this, of env "[]"] ev obtain ue' where
    ue': "call_entity env (mg_enb_flag m) Srb0 ?f ue = Inr (ue', [], int (length sdu), b)" "ue_id ue' = u"
      "ue_srb0 ue' = Some (TmEntity (tm_clear_events e2), i)" by auto
  let ?body = "on_lcid env 0 ?f (0, buffer)"
  have "?body (mg_enb_flag m) ue = Inr (ue', [], int (length sdu), b)"
    using ue'(1) a(5) by (simp add: on_lcid_def get_rlc_entity_from_lcid_def)
  from with_known_ue [of a m u ue ?body, OF a(1-3) this ue'(2)] obtain a' m' where
    "with_ue u ?body a = Inr ((int (length sdu), b), a')" "api_ue a' u = Some ue'" "api_out a' = api_out a"
    "api_manager a' = Some m'" "\<not> mg_lock m'" by auto
  with ue' e2 show ?thesis
    by (intro exI [of _ a'] exI [of _ b]) (auto simp: mac_rlc_data_req_def srb0_queue_def tm_clear_cong)
qed

text \<open>What comes in goes to RRC; a gNB then also reports to the split of PDCP, with the uninitialised total.\<close>

lemma srb0_data_ind:
  assumes "srb0_queue a u i limit q" "env_nrrrc env = Some t" "\<not> NODE_IS_DU t"
  shows "\<exists>a' d occ. mac_rlc_data_ind env junk u 0 False 0 pdu a = Inr ((), a') \<and> srb0_queue a' u i limit q \<and>
    api_out a' = api_out a @ [InitialUlRrcMessage i pdu, PdcpDcInfoUpdate u (junk - d) occ]"
proof -
  obtain m ue e where a: "api_manager a = Some m" "\<not> mg_lock m" "api_ue a u = Some ue" "ue_id ue = u"
    "ue_srb0 ue = Some (TmEntity e, i)" "tm_inv e" "tm_queue e = q" "tm_tx_maxsize e = limit"
    using assms(1) by (auto simp: srb0_queue_def)
  let ?e1 = "nr_rlc_entity_tm_set_time (tm_clear_events e) (api_current_time a)"
  let ?e2 = "nr_rlc_entity_tm_recv_pdu ?e1 pdu"
  let ?e3 = "tm_upd_common (\<lambda>c. c\<lparr>ec_last_total_tx_bytes := junk\<rparr>) ?e2"
  have sel: "tm_heap ?e3 = tm_heap e" "tm_tx_list ?e3 = tm_tx_list e" "tm_tx_end ?e3 = tm_tx_end e" "tm_tx_size ?e3 = tm_tx_size e"
    "ec_bstatus (tm_common ?e3) = ec_bstatus (tm_common e)" "tm_tx_maxsize ?e3 = tm_tx_maxsize e"
    "ec_events (tm_common ?e3) = [DeliverSdu pdu]"
    by (simp_all add: nr_rlc_entity_tm_recv_pdu_def tm_clear_events_def nr_rlc_entity_tm_set_time_def ec_defs tm_upd_common_def)
  have e3: "tm_inv ?e3" "tm_queue ?e3 = q" "tm_tx_maxsize ?e3 = limit" "ec_events (tm_common ?e3) = [DeliverSdu pdu]"
    using tm_inv_cong [OF sel(1-5)] a(6-8) sel(6,7) by simp_all
  let ?rep = "[PdcpDcInfoUpdate u (junk - ec_last_total_tx_bytes (tm_common ?e2)) (bs_tx_size (ec_bstatus (tm_common ?e2)))]"
  let ?f = "\<lambda>e. bindR (node_type env) (\<lambda>t. bindR (entity_set_time (api_current_time a) e) (\<lambda>e1.
      bindR (entity_recv_pdu pdu e1) (\<lambda>e2. bindR (dc_report env junk u e2) (\<lambda>r. Inr r))))"
  have "?f (TmEntity (tm_clear_events e)) = Inr (TmEntity ?e3, ?rep)"
    using assms(2,3) by (simp add: node_type_def dc_report_def Let_def partial_status_def nr_rlc_entity_tm_buffer_status_def)
  from srb0_call [where f = ?f, OF a(1-5) this, of env "[InitialUlRrcMessage i pdu]"] e3(4) a(5) obtain ue' where
    ue': "call_entity env (mg_enb_flag m) Srb0 ?f ue = Inr (ue', [InitialUlRrcMessage i pdu], ?rep)" "ue_id ue' = u"
      "ue_srb0 ue' = Some (TmEntity (tm_clear_events ?e3), i)" by auto
  let ?body = "\<lambda>enb_flag ue. bindR (on_lcid env 0 ?f [] enb_flag ue) (\<lambda>(ue', outs, reports). Inr (ue', outs @ reports, ()))"
  have "?body (mg_enb_flag m) ue = Inr (ue', [InitialUlRrcMessage i pdu] @ ?rep, ())"
    using ue'(1) a(5) by (simp add: on_lcid_def get_rlc_entity_from_lcid_def)
  from with_known_ue [of a m u ue ?body, OF a(1-3) this ue'(2)] obtain a' m' where
    "with_ue u ?body a = Inr ((), a')" "api_ue a' u = Some ue'" "api_out a' = api_out a @ [InitialUlRrcMessage i pdu] @ ?rep"
    "api_manager a' = Some m'" "\<not> mg_lock m'" by auto
  with ue' e3 show ?thesis
    by (intro exI [of _ a'] exI [of _ "ec_last_total_tx_bytes (tm_common ?e2)"]
      exI [of _ "bs_tx_size (ec_bstatus (tm_common ?e2))"]) (auto simp: mac_rlc_data_ind_def srb0_queue_def tm_clear_cong)
qed


text \<open>
  Property C18. A message on SRB0 crosses the interface unchanged: what RRC of a UE hands over is what the
  next grant that is large enough carries, and given to the gNB it reaches RRC there with the id the
  bearer was activated with; nothing else is delivered, and both queues are as before. The gNB also
  reports to the split of PDCP, although a bearer of this mode never sets the total it reports: the number
  of acknowledged bytes is whatever the uninitialised field held.
\<close>

theorem srb0_message_crosses:
  assumes "srb0_queue a u i limit []" "srb0_queue c v j limit' q" "int (length sdu) \<le> min NR_SDU_MAX limit"
    "length sdu \<le> length buffer" "env_nrrrc env = Some t" "\<not> NODE_IS_DU t"
  shows "\<exists>a1 b a2 c1 d occ. nr_rlc_srb_recv_sdu env' now u 0 sdu a = Inr ((), a1) \<and>
    mac_rlc_data_req env' now' u 0 buffer a1 = Inr ((int (length sdu), b), a2) \<and>
    mac_rlc_data_ind env junk v 0 False 0 (take (length sdu) b) c = Inr ((), c1) \<and>
    api_out a2 = api_out a \<and> api_out c1 = api_out c @ [InitialUlRrcMessage j sdu, PdcpDcInfoUpdate v (junk - d) occ] \<and>
    srb0_queue a2 u i limit [] \<and> srb0_queue c1 v j limit' q"
proof -
  obtain a1 where a1: "nr_rlc_srb_recv_sdu env' now u 0 sdu a = Inr ((), a1)" "srb0_queue a1 u i limit [sdu]"
    "api_out a1 = api_out a"
    using srb0_recv_sdu [OF assms(1), of sdu env' now] assms(3) by (auto simp: queue_put_def queue_bytes_def)
  obtain a2 b where a2: "mac_rlc_data_req env' now' u 0 buffer a1 = Inr ((int (length sdu), b), a2)" "take (length sdu) b = sdu"
    "srb0_queue a2 u i limit []" "api_out a2 = api_out a1"
    using srb0_data_req [OF a1(2) assms(4)] by blast
  obtain c1 d occ where "mac_rlc_data_ind env junk v 0 False 0 sdu c = Inr ((), c1)" "srb0_queue c1 v j limit' q"
    "api_out c1 = api_out c @ [InitialUlRrcMessage j sdu, PdcpDcInfoUpdate v (junk - d) occ]"
    using srb0_data_ind [OF assms(2,5,6)] by blast
  with a1 a2 show ?thesis
    by (intro exI [of _ a1] exI [of _ b] exI [of _ a2] exI [of _ c1] exI [of _ d] exI [of _ occ]) simp
qed


text \<open>A UE with SRB0 activated, in the API of a node with the given flag.\<close>

definition demo_api :: "nr_rlc_entity_tm \<Rightarrow> rlc_api" where
  "demo_api e = rlc_api_start\<lparr>api_inited := True,
     api_manager := Some ((new_nr_rlc_ue_manager 1)\<lparr>mg_ue_list := [(nr_rlc_ue_zero 5)\<lparr>ue_srb0 := Some (TmEntity e, 5)\<rparr>]\<rparr>)\<rparr>"

lemma demo_srb0: "\<exists>e. new_nr_rlc_entity_tm 10000 = Inr e \<and> srb0_queue (demo_api e) 5 5 10000 []"
proof -
  obtain e where e: "new_nr_rlc_entity_tm 10000 = Inr e"
    by (simp add: new_nr_rlc_entity_tm_def entity_init_def time_average_new_def)
  then have "tm_tx_maxsize e = 10000" by (auto simp: new_nr_rlc_entity_tm_def bindR_eq_Inr)
  with tm_new_ok [OF e] e show ?thesis
    by (intro exI [of _ e]) (simp add: srb0_queue_def demo_api_def api_ue_def new_nr_rlc_ue_manager_def nr_rlc_ue_zero_def)
qed

theorem srb0_message_crosses_witness:
  "\<exists>a c a1 b a2 c1 d occ. nr_rlc_srb_recv_sdu demo_env 0 5 0 [1, 2, 3] a = Inr ((), a1) \<and>
    mac_rlc_data_req demo_env 0 5 0 (replicate 8 0) a1 = Inr ((3, b), a2) \<and>
    mac_rlc_data_ind demo_env 77 5 0 False 0 (take 3 b) c = Inr ((), c1) \<and>
    api_out c1 = api_out c @ [InitialUlRrcMessage 5 [1, 2, 3], PdcpDcInfoUpdate 5 (77 - d) occ]"
proof -
  obtain e where e: "srb0_queue (demo_api e) 5 5 10000 []" using demo_srb0 by blast
  have "int (length [1, 2, 3 :: byte]) \<le> min NR_SDU_MAX 10000" "length [1, 2, 3 :: byte] \<le> length (replicate 8 (0 :: byte))"
    "env_nrrrc demo_env = Some Ngran_gNB" "\<not> NODE_IS_DU Ngran_gNB"
    by (simp_all add: NR_SDU_MAX_def demo_env_def NODE_IS_DU_def)
  note run = srb0_message_crosses [OF e e this, of demo_env 0 0 77]
  have "length [1, 2, 3 :: byte] = 3" by simp
  from run [unfolded this of_nat_numeral] show ?thesis by blast
qed

section \<open>Reception in a UE\<close>

text \<open>
  Property C25. The report to the split of PDCP reads the node type of the gNB's RRC: in a process without
  one, as the UE is, every PDU that MAC hands to an established bearer ends in a null pointer.
\<close>

theorem ue_reception_null_deref:
  assumes "env_nrrrc env = None" "api_manager a = Some m" "\<not> mg_lock m" "api_ue a u = Some ue"
    "get_rlc_entity_from_lcid ue lcid = Inr (Some s)" "slot_entity ue s = Some e"
  shows "mac_rlc_data_ind env junk u 0 False lcid pdu a = Inl NullDeref"
proof -
  obtain k where k: "ue_index ue_id u (mg_ue_list m) = Some k" "mg_ue_list m ! k = ue"
    using index_of_lookup [of ue_id "mg_ue_list m" u ue] assms(2,4) by (auto simp: api_ue_def)
  have g: "nr_rlc_manager_get_ue (m\<lparr>mg_lock := True\<rparr>) u = (k, m\<lparr>mg_lock := True\<rparr>)"
    by (simp add: nr_rlc_manager_get_ue_def ue_get_def k(1))
  show ?thesis
    using assms(1-3) by (simp add: mac_rlc_data_ind_def with_ue_def api_lock_def nr_rlc_manager_lock_def g k(2)
      on_lcid_def assms(5,6) call_entity_def node_type_def)
qed

theorem ue_reception_null_deref_witness:
  "\<exists>e. mac_rlc_data_ind \<lparr>env_nrrrc = None, env_f1_ue_data = \<lambda>_. None\<rparr> 0 5 0 False 0 [9] (demo_api e) = Inl NullDeref"
proof -
  obtain e where e: "new_nr_rlc_entity_tm 10000 = Inr e" using demo_srb0 by blast
  let ?ue = "(nr_rlc_ue_zero 5)\<lparr>ue_srb0 := Some (TmEntity e, 5)\<rparr>"
  have "mac_rlc_data_ind \<lparr>env_nrrrc = None, env_f1_ue_data = \<lambda>_. None\<rparr> 0 5 0 False 0 [9] (demo_api e) = Inl NullDeref"
    by (rule ue_reception_null_deref [of _ _ "(new_nr_rlc_ue_manager 1)\<lparr>mg_ue_list := [?ue]\<rparr>" _ ?ue _ Srb0 "TmEntity e"])
      (simp_all add: demo_api_def api_ue_def new_nr_rlc_ue_manager_def get_rlc_entity_from_lcid_def nr_rlc_ue_zero_def)
  then show ?thesis by blast
qed

text \<open>
  The third signalling bearer can be set up and used, but the callbacks for an acknowledged SDU and for
  the limit of retransmissions search the first two only: either one ends the process.
\<close>

theorem third_srb_callbacks_exit:
  assumes "slot_entity ue (Srb 2) = Some e" "f (clear_events e) = Inr (e', r)"
    "ec_events (entity_common e') = SduSuccessfulDelivery i # evs \<or> ec_events (entity_common e') = MaxRetxReached # evs"
  shows "call_entity env enb_flag (Srb 2) f ue = Inl Exit"
  using assms by (auto simp: call_entity_def mapR_def)

end
