(* ===== verification/Emu_Tunnel.thy ===== *)
theory Emu_Tunnel
  imports Prelude
begin

text \<open>
  The tunnel forwarder of the testbed's emulator (\<open>tun_forwarder.c\<close>): packets of the sender go out on
  the links in turn with their TTL set and their header checksum renewed, packets of the links go back
  unchanged. What \<open>select\<close> and \<open>read\<close> deliver and whether a \<open>write\<close> succeeds are inputs of a round.
\<close>

type_synonym u16 = "16 word"

definition MAX_PACKET_SIZE :: nat where
  "MAX_PACKET_SIZE = 4096"

text \<open>Bit fields of a little endian machine: \<open>ihl\<close> is the low half of the first byte.\<close>

definition ip_ihl :: "byte list \<Rightarrow> nat" where
  "ip_ihl p = unat (p ! 0 AND 15)"

definition ip_version :: "byte list \<Rightarrow> nat" where
  "ip_version p = unat (drop_bit 4 (p ! 0))"

section \<open>Header checksum\<close>

text \<open>The loop over 16 bit words, which a little endian machine reads low byte first.\<close>

fun checksum_loop :: "u32 \<Rightarrow> byte list \<Rightarrow> u32" where
  "checksum_loop s (a # b # l) = checksum_loop (s + (ucast a + push_bit 8 (ucast b))) l"
| "checksum_loop s [a] = s + ucast a"
| "checksum_loop s [] = s"

lemma fold_less:
  assumes "65536 \<le> n"
  shows "n mod 65536 + n div 65536 < (n :: nat)"
proof -
  have "n div 65536 * 65536 + n mod 65536 = n" by (rule div_mult_mod_eq)
  moreover have "1 \<le> n div 65536" using div_le_mono [OF assms, of 65536] by simp
  ultimately show ?thesis by linarith
qed

lemma fold_step: "unat ((s AND 0xFFFF) + drop_bit 16 s) = unat s mod 65536 + unat s div 65536" for s :: u32
proof -
  have m: "unat (s AND 0xFFFF) = unat s mod 65536"
  proof -
    have "s AND 0xFFFF = take_bit 16 s" by (simp add: take_bit_eq_mask mask_eq_exp_minus_1)
    then show ?thesis by (simp add: take_bit_eq_mod unat_mod_distrib)
  qed
  have d: "unat (drop_bit 16 s) = unat s div 65536" by (simp add: drop_bit_eq_div unat_div_distrib)
  have "unat s < 2 ^ 32" using unsigned_less [of s] by simp
  then have "unat s mod 65536 + unat s div 65536 < 2 ^ 32" by simp
  then show ?thesis using m d by (simp add: unat_word_ariths)
qed

lemma fold_stop: "drop_bit 16 s = 0 \<longleftrightarrow> unat s < 65536" for s :: u32
proof -
  have "unat (drop_bit 16 s) = unat s div 65536" by (simp add: drop_bit_eq_div unat_div_distrib)
  then show ?thesis by (simp add: word_unat_eq_iff div_eq_0_iff)
qed

function checksum_fold :: "u32 \<Rightarrow> u32" where
  "checksum_fold s = (if drop_bit 16 s \<noteq> 0 then checksum_fold ((s AND 0xFFFF) + drop_bit 16 s) else s)"
  by pat_completeness auto

termination
proof (relation "measure unat")
  fix s :: u32
  assume "drop_bit 16 s \<noteq> 0"
  then have "65536 \<le> unat s" by (simp add: fold_stop)
  then show "((s AND 0xFFFF) + drop_bit 16 s, s) \<in> measure unat"
    unfolding in_measure fold_step by (rule fold_less)
qed simp

declare checksum_fold.simps [simp del]

definition ip_checksum :: "byte list \<Rightarrow> u16" where
  "ip_checksum p = NOT (ucast (checksum_fold (checksum_loop 0 p)))"


section \<open>A packet\<close>

text \<open>
  The packet occupies the first \<open>len\<close> bytes of the buffer. The result is the length to forward (0 is a
  drop) and the buffer. The header that is summed up is as long as its own length field says.
\<close>

definition process_packet_userspace :: "byte list \<Rightarrow> nat \<Rightarrow> bool \<Rightarrow> (nat \<times> byte list) result" where
  "process_packet_userspace packet len is_outgoing =
     (if \<not> is_outgoing then Inr (len, packet)
      else if len < 20 then Inr (0, packet)
      else if ip_version packet \<noteq> 4 then Inr (len, packet)
      else
        let p1 = packet[8 := 64, 10 := 0, 11 := 0]
        in bindR (slice p1 0 (int (ip_ihl p1 * 4))) (\<lambda>hdr.
           let c = ip_checksum hdr
           in Inr (len, p1[10 := ucast c, 11 := ucast (drop_bit 8 c)])))"

definition get_next_link :: "nat \<Rightarrow> byte \<Rightarrow> byte" where
  "get_next_link num_links current_link = word_of_nat ((unat current_link + 1) mod num_links)"

section \<open>The forwarding loop\<close>

record link_info =
  li_in_packets :: u32
  li_out_packets :: u32
  li_in_bytes :: u64
  li_out_bytes :: u64

text \<open>What has been written to the tunnel devices.\<close>

datatype tun_write = ToLink nat "byte list" | ToSender nat "byte list"

record forwarder =
  fw_links :: "link_info list"
  fw_current :: byte
  fw_buffer :: "byte list"
  fw_written :: "tun_write list"

text \<open>The packet buffer is a local array that nothing initialises: its first content is an argument.\<close>

definition new_forwarder :: "nat \<Rightarrow> byte list \<Rightarrow> forwarder" where
  "new_forwarder num_links buffer =
     \<lparr>fw_links = replicate num_links \<lparr>li_in_packets = 0, li_out_packets = 0, li_in_bytes = 0, li_out_bytes = 0\<rparr>,
      fw_current = 0, fw_buffer = buffer, fw_written = []\<rparr>"

text \<open>\<open>read\<close>: the first bytes of the buffer are those of the packet, cut off at its size.\<close>

definition tun_read :: "byte list \<Rightarrow> byte list \<Rightarrow> nat \<times> byte list" where
  "tun_read p buffer = (let q = take MAX_PACKET_SIZE p in (length q, q @ drop (length q) buffer))"

definition packet_from_sender :: "nat \<Rightarrow> bool \<Rightarrow> byte list \<Rightarrow> forwarder \<Rightarrow> forwarder result" where
  "packet_from_sender num_links write_ok p fw =
     (case tun_read p (fw_buffer fw) of (n, buffer) \<Rightarrow>
      if n = 0 then Inr fw
      else
        let i = get_next_link num_links (fw_current fw)
        in bindR (process_packet_userspace buffer n True) (\<lambda>(m, b).
           let fw1 = fw\<lparr>fw_current := i, fw_buffer := b\<rparr>
           in if m = 0 then Inr fw1
              else if unat i \<ge> length (fw_links fw1) then Inl OutOfBounds
              else if \<not> write_ok then Inr fw1
              else Inr (fw1
                \<lparr>fw_written := fw_written fw1 @ [ToLink (unat i) (take m b)],
                 fw_links := (fw_links fw1)[unat i := (fw_links fw1 ! unat i)
                   \<lparr>li_out_packets := li_out_packets (fw_links fw1 ! unat i) + 1,
                    li_out_bytes := li_out_bytes (fw_links fw1 ! unat i) + word_of_nat m\<rparr>]\<rparr>)))"

definition packet_from_link :: "nat \<Rightarrow> bool \<Rightarrow> byte list \<Rightarrow> forwarder \<Rightarrow> forwarder result" where
  "packet_from_link i write_ok p fw =
     (case tun_read p (fw_buffer fw) of (n, buffer) \<Rightarrow>
      if n = 0 then Inr fw
      else bindR (process_packet_userspace buffer n False) (\<lambda>(m, b).
        let fw1 = fw\<lparr>fw_buffer := b\<rparr>
        in if m = 0 \<or> \<not> write_ok then Inr fw1
           else if i \<ge> length (fw_links fw1) then Inl OutOfBounds
           else Inr (fw1
             \<lparr>fw_written := fw_written fw1 @ [ToSender i (take m b)],
              fw_links := (fw_links fw1)[i := (fw_links fw1 ! i)
                \<lparr>li_in_packets := li_in_packets (fw_links fw1 ! i) + 1,
                 li_in_bytes := li_in_bytes (fw_links fw1 ! i) + word_of_nat m\<rparr>]\<rparr>)))"

text \<open>
  One round of the loop: at most one packet of the sender, then at most one of each link in order. A
  packet comes with the outcome of the \<open>write\<close> that forwards it.
\<close>

type_synonym tun_input = "(bool \<times> byte list) option"

fun links_round :: "nat \<Rightarrow> tun_input list \<Rightarrow> forwarder \<Rightarrow> forwarder result" where
  "links_round i [] fw = Inr fw"
| "links_round i (None # l) fw = links_round (Suc i) l fw"
| "links_round i (Some (ok, p) # l) fw = bindR (packet_from_link i ok p fw) (links_round (Suc i) l)"

definition forward_round :: "nat \<Rightarrow> tun_input \<Rightarrow> tun_input list \<Rightarrow> forwarder \<Rightarrow> forwarder result" where
  "forward_round num_links sender links fw =
     bindR (case sender of None \<Rightarrow> Inr fw | Some (ok, p) \<Rightarrow> packet_from_sender num_links ok p fw)
       (links_round 0 links)"

fun run_multi_link_forwarder :: "nat \<Rightarrow> (tun_input \<times> tun_input list) list \<Rightarrow> forwarder \<Rightarrow> forwarder result" where
  "run_multi_link_forwarder num_links [] fw = Inr fw"
| "run_multi_link_forwarder num_links ((s, ls) # rounds) fw =
     bindR (forward_round num_links s ls fw) (run_multi_link_forwarder num_links rounds)"


section \<open>The renewed checksum is right\<close>

fun word_sum :: "byte list \<Rightarrow> nat" where
  "word_sum (a # b # l) = unat a + 256 * unat b + word_sum l"
| "word_sum [a] = unat a"
| "word_sum [] = 0"

lemma word_sum_le: "word_sum l \<le> 65535 * ((length l + 1) div 2)"
proof (induction l rule: word_sum.induct)
  case (1 a b l)
  have "unat a < 256" "unat b < 256" using unsigned_less [of a] unsigned_less [of b] by simp_all
  with 1 show ?case by simp
next
  case (2 a)
  have "unat a < 256" using unsigned_less [of a] by simp
  then show ?case by simp
qed simp

lemma word_sum_append: "even (length x) \<Longrightarrow> word_sum (x @ y) = word_sum x + word_sum y"
  by (induction x rule: word_sum.induct) auto

lemma unat_word16: "unat (ucast a + push_bit 8 (ucast b) :: u32) = unat a + 256 * unat b" for a b :: byte
proof -
  have ab: "unat a < 256" "unat b < 256" using unsigned_less [of a] unsigned_less [of b] by simp_all
  have u: "unat (ucast a :: u32) = unat a" "unat (ucast b :: u32) = unat b" 
    using ab by (simp_all add: unsigned_ucast_eq take_bit_eq_mod)
  have "unat (push_bit 8 (ucast b) :: u32) = 256 * unat b"
    using ab u(2) by (simp add: push_bit_eq_mult unat_word_ariths)
  with u(1) ab show ?thesis by (simp add: unat_word_ariths)
qed

lemma checksum_loop_sum:
  "unat s + word_sum l < 2 ^ 32 \<Longrightarrow> unat (checksum_loop s l) = unat s + word_sum l"
proof (induction s l rule: checksum_loop.induct)
  case (1 s a b l)
  have u: "unat (s + (ucast a + push_bit 8 (ucast b))) = unat s + (unat a + 256 * unat b)"
    using 1(2) unat_word16 [of a b] by (simp add: unat_word_ariths)
  show ?case using 1 u by simp
next
  case (2 s a)
  have "unat a < 256" using unsigned_less [of a] by simp
  then have "unat (ucast a :: u32) = unat a" by (simp add: unsigned_ucast_eq take_bit_eq_mod)
  with 2 show ?case by (simp add: unat_word_ariths)
qed simp

lemma fold_mod: "(n mod 65536 + n div 65536) mod 65535 = n mod (65535 :: nat)"
proof -
  have e: "n = (n mod 65536 + n div 65536) + 65535 * (n div 65536)" using div_mult_mod_eq [of n 65536] by linarith
  show ?thesis by (subst (3) e) (rule mod_mult_self2 [symmetric])
qed

lemma checksum_fold_ok:
  "unat (checksum_fold s) < 65536 \<and> unat (checksum_fold s) mod 65535 = unat s mod 65535 \<and>
   (unat (checksum_fold s) = 0 \<longleftrightarrow> unat s = 0)"
proof (induction s rule: checksum_fold.induct)
  case (1 s)
  show ?case
  proof (cases "drop_bit 16 s = 0")
    case True
    then have "checksum_fold s = s" by (subst checksum_fold.simps) simp
    with True show ?thesis by (simp add: fold_stop)
  next
    case False
    then have e: "checksum_fold s = checksum_fold ((s AND 0xFFFF) + drop_bit 16 s)" by (subst checksum_fold.simps) simp
    have "unat s mod 65536 + unat s div 65536 = 0 \<longleftrightarrow> unat s = 0" by auto
    with 1 [OF False] show ?thesis unfolding e fold_step fold_mod by simp
  qed
qed

lemma ip_checksum_value:
  assumes "word_sum p < 2 ^ 32"
  shows "unat (ip_checksum p) + unat (checksum_fold (checksum_loop 0 p)) = 65535"
    "unat (checksum_fold (checksum_loop 0 p)) mod 65535 = word_sum p mod 65535"
    "unat (checksum_fold (checksum_loop 0 p)) = 0 \<longleftrightarrow> word_sum p = 0"
proof -
  let ?f = "checksum_fold (checksum_loop 0 p)"
  have sum: "unat (checksum_loop 0 p) = word_sum p" using checksum_loop_sum [of 0 p] assms by simp
  note ok = checksum_fold_ok [of "checksum_loop 0 p", unfolded sum]
  then show "unat ?f mod 65535 = word_sum p mod 65535" "unat ?f = 0 \<longleftrightarrow> word_sum p = 0" by simp_all
  have u: "unat (ucast ?f :: u16) = unat ?f" using ok by (simp add: unsigned_ucast_eq take_bit_eq_mod)
  have "unat (NOT w) + unat w = 65535" for w :: u16
  proof -
    have w: "0 \<le> uint w" "uint w < 65536" using unsigned_less [of w] by simp_all
    have "uint (NOT w) = (- uint w - 1) mod 65536" by (simp add: unsigned_not_eq not_int_def take_bit_eq_mod)
    also have "\<dots> = (- uint w - 1 + 65536) mod 65536" by (rule mod_add_self2 [symmetric])
    also have "\<dots> = 65535 - uint w" by (subst mod_pos_pos_trivial) (use w in linarith)+
    finally have "int (unat (NOT w) + unat w) = 65535" by simp
    then show ?thesis by linarith
  qed
  from this [of "ucast ?f"] u show "unat (ip_checksum p) + unat ?f = 65535" by (simp add: ip_checksum_def)
qed


lemma update_check:
  fixes l :: "'a list"
  assumes "12 \<le> length l"
  shows "l[10 := a, 11 := b] = take 10 l @ [a, b] @ drop 12 l"
proof -
  have "drop 10 l = l ! 10 # l ! 11 # drop 12 l"
    using Cons_nth_drop_Suc [of 10 l] Cons_nth_drop_Suc [of 11 l] assms by simp
  then have e: "take 10 l @ l ! 10 # l ! 11 # drop 12 l = l" by (metis append_take_drop_id)
  have u: "(x @ p # q # y)[10 := a, 11 := b] = x @ [a, b] @ y" if "length x = 10" for x y :: "'a list" and p q
    using that by (simp add: list_update_append)
  show ?thesis using u [of "take 10 l" "l ! 10" "l ! 11" "drop 12 l"] assms unfolding e by simp
qed

lemma checksum_verifies:
  assumes "12 \<le> length h" "length h \<le> 60" "c = ip_checksum (h[10 := 0, 11 := 0])"
  shows "ip_checksum (h[10 := ucast c, 11 := ucast (drop_bit 8 c)]) = 0"
proof -
  let ?z = "h[10 := 0, 11 := 0]" and ?h = "h[10 := ucast c, 11 := ucast (drop_bit 8 c)]"
  have small: "word_sum x < 2 ^ 32" if "length x \<le> 60" for x
  proof -
    have "(length x + 1) div 2 \<le> 30" using that by simp
    then have "65535 * ((length x + 1) div 2) \<le> 65535 * 30" by (rule mult_le_mono2)
    with word_sum_le [of x] show ?thesis by simp
  qed
  let ?f = "\<lambda>x. unat (checksum_fold (checksum_loop 0 x))"
  have c: "unat c < 65536" using unsigned_less [of c] by simp
  have "unat (ucast c :: byte) = unat c mod 256" by (simp add: unsigned_ucast_eq take_bit_eq_mod)
  moreover have "unat (ucast (drop_bit 8 c) :: byte) = unat c div 256"
    using c by (simp add: unsigned_ucast_eq take_bit_eq_mod drop_bit_eq_div unat_div_distrib)
  ultimately have "unat (ucast c :: byte) + 256 * unat (ucast (drop_bit 8 c) :: byte) = unat c" by simp
  then have sum: "word_sum ?h = word_sum ?z + unat c"
    unfolding update_check [OF assms(1)] using assms(1) by (simp add: word_sum_append)
  note z = ip_checksum_value [of ?z, folded assms(3)] and hh = ip_checksum_value [of ?h]
  have zl: "word_sum ?z < 2 ^ 32" "word_sum ?h < 2 ^ 32" by (rule small; use assms(2) in simp)+
  have "(?f ?z + unat c) mod 65535 = (word_sum ?z + unat c) mod 65535"
    by (rule mod_add_cong [OF z(2) [OF zl(1)] refl])
  moreover have "(?f ?z + unat c) mod 65535 = 0"
    unfolding add.commute [of "?f ?z"] z(1) [OF zl(1)] by simp
  ultimately have "?f ?h mod 65535 = 0" unfolding hh(2) [OF zl(2)] sum by simp
  moreover have "?f ?h \<noteq> 0"
    using hh(3) [OF zl(2)] z(1,3) [OF zl(1)] by (auto simp: sum)
  moreover have "?f ?h < 65536" using checksum_fold_ok by blast
  ultimately have "?f ?h = 65535" by (auto simp: mod_eq_0_iff_dvd elim!: dvdE)
  then have "unat (ip_checksum ?h) = 0" using hh(1) [OF zl(2)] by simp
  then show ?thesis by (simp add: word_unat_eq_iff)
qed

lemma update_twice: "l[i := x, j := y, i := a, j := b] = l[i := a, j := b]"
  by (cases "i = j") (simp_all add: list_update_swap [of j i])

definition ip_header_ok :: "byte list \<Rightarrow> bool" where
  "ip_header_ok p \<longleftrightarrow> ip_version p = 4 \<and> 5 \<le> ip_ihl p \<and> 4 * ip_ihl p \<le> length p"

lemma ip_ihl_le: "ip_ihl p \<le> 15"
proof -
  have "p ! 0 AND 15 \<le> 15" by (rule word_and_le1)
  then show ?thesis unfolding ip_ihl_def word_le_nat_alt by simp
qed

lemma process_packet_ok:
  assumes "length buffer = MAX_PACKET_SIZE" "len \<le> MAX_PACKET_SIZE"
  shows "\<exists>b. process_packet_userspace buffer len True = Inr (if len < 20 then 0 else len, b) \<and> length b = MAX_PACKET_SIZE \<and>
    (\<forall>i < MAX_PACKET_SIZE. i \<notin> {8, 10, 11} \<longrightarrow> b ! i = buffer ! i) \<and>
    (20 \<le> len \<and> ip_header_ok (take len buffer) \<longrightarrow> b ! 8 = 64 \<and> ip_checksum (take (4 * ip_ihl b) b) = 0)"
proof (cases "len < 20 \<or> ip_version buffer \<noteq> 4")
  case True
  have "ip_version (take len buffer) = ip_version buffer" if "20 \<le> len" using that by (simp add: ip_version_def)
  with True assms show ?thesis by (auto simp: process_packet_userspace_def ip_header_ok_def)
next
  case False
  let ?p = "buffer[8 := 64, 10 := 0, 11 := 0]"
  let ?n = "4 * ip_ihl buffer"
  have ihl: "ip_ihl ?p = ip_ihl buffer" by (simp add: ip_ihl_def)
  have n: "?n \<le> 60" using ip_ihl_le [of buffer] by simp
  have "slice ?p 0 (int (ip_ihl ?p * 4)) = Inr (take ?n ?p)"
    using n assms(1) unfolding ihl 
    by (subst slice_ok) (auto simp: MAX_PACKET_SIZE_def mult.commute simp del: of_nat_mult)
  let ?c = "ip_checksum (take ?n ?p)"
  let ?b = "?p[10 := ucast ?c, 11 := ucast (drop_bit 8 ?c)]"
  have run: "process_packet_userspace buffer len True = Inr (len, ?b)"
    using False \<open>slice _ _ _ = _\<close> by (simp add: process_packet_userspace_def Let_def)
  have "?b ! 8 = 64" using assms(1) by (simp add: MAX_PACKET_SIZE_def)
  moreover have "ip_checksum (take (4 * ip_ihl ?b) ?b) = 0" if "20 \<le> len" "ip_header_ok (take len buffer)"
  proof -
    have "ip_ihl (take len buffer) = ip_ihl buffer" using that(1) by (simp add: ip_ihl_def)
    then have ge: "20 \<le> ?n" using that by (simp add: ip_header_ok_def)
    have ib: "4 * ip_ihl ?b = ?n" by (simp add: ip_ihl_def)
    let ?h = "take ?n (buffer[8 := 64])"
    have "take ?n ?p = ?h[10 := 0, 11 := 0]" by (simp add: take_update_swap)
    moreover have "take ?n ?b = ?h[10 := ucast ?c, 11 := ucast (drop_bit 8 ?c)]"
      unfolding take_update_swap update_twice ..
    moreover have "length ?h = ?n" using n assms(1) by (simp add: MAX_PACKET_SIZE_def)
    ultimately show ?thesis unfolding ib using checksum_verifies [of ?h ?c] ge n by simp
  qed
  ultimately show ?thesis using run False assms(1) by (auto simp: MAX_PACKET_SIZE_def)
qed


section \<open>A run of the forwarder\<close>

text \<open>What forwarding may change of a packet, and what it owes to a packet with a complete IPv4 header.\<close>

definition renewed :: "byte list \<Rightarrow> byte list \<Rightarrow> bool" where
  "renewed p q \<longleftrightarrow> length q = length p \<and> (\<forall>i < length p. i \<notin> {8, 10, 11} \<longrightarrow> q ! i = p ! i) \<and>
     (ip_header_ok p \<longrightarrow> q ! 8 = 64 \<and> ip_checksum (take (4 * ip_ihl q) q) = 0)"

definition forwarder_ok :: "nat \<Rightarrow> forwarder \<Rightarrow> bool" where
  "forwarder_ok n fw \<longleftrightarrow> length (fw_links fw) = n \<and> unat (fw_current fw) < n \<and> length (fw_buffer fw) = MAX_PACKET_SIZE"

lemma tun_read_take: "tun_read p buffer = tun_read (take MAX_PACKET_SIZE p) buffer"
  by (simp add: tun_read_def)

lemma tun_read_ok:
  assumes "length buffer = MAX_PACKET_SIZE" "length p \<le> MAX_PACKET_SIZE"
  shows "tun_read p buffer = (length p, p @ drop (length p) buffer)"
    "length (p @ drop (length p) buffer) = MAX_PACKET_SIZE"
  using assms by (simp_all add: tun_read_def)

lemma process_read_packet:
  assumes "length buffer = MAX_PACKET_SIZE" "20 \<le> length p" "length p \<le> MAX_PACKET_SIZE"
  obtains b where "process_packet_userspace (p @ drop (length p) buffer) (length p) True = Inr (length p, b)"
    "length b = MAX_PACKET_SIZE" "renewed p (take (length p) b)"
proof -
  let ?l = "p @ drop (length p) buffer"
  obtain b where b: "process_packet_userspace ?l (length p) True = Inr (length p, b)" "length b = MAX_PACKET_SIZE"
    "\<forall>i < MAX_PACKET_SIZE. i \<notin> {8, 10, 11} \<longrightarrow> b ! i = ?l ! i"
    "ip_header_ok p \<longrightarrow> b ! 8 = 64 \<and> ip_checksum (take (4 * ip_ihl b) b) = 0"
    using process_packet_ok [OF tun_read_ok(2) [OF assms(1,3)] assms(3)] assms(2) by auto
  let ?q = "take (length p) b"
  have q: "length ?q = length p" "\<forall>i < length p. i \<notin> {8, 10, 11} \<longrightarrow> ?q ! i = p ! i"
    using b(2,3) assms(3) by (simp_all add: nth_append)
  have "?q ! 8 = 64 \<and> ip_checksum (take (4 * ip_ihl ?q) ?q) = 0" if "ip_header_ok p"
  proof -
    have "?q ! 0 = p ! 0" using q(2) assms(2) by (metis insert_iff empty_iff less_le_trans zero_less_numeral zero_neq_numeral)
    then have "ip_ihl ?q = ip_ihl p" by (simp only: ip_ihl_def)
    moreover have "ip_ihl b = ip_ihl ?q" unfolding ip_ihl_def using assms(2) by (subst nth_take) linarith+
    ultimately show ?thesis using b(4) that assms(2) by (simp add: ip_header_ok_def min_absorb1)
  qed
  with q have "renewed p ?q" by (simp add: renewed_def)
  with b show thesis by (intro that)
qed

lemma get_next_link_ok:
  assumes "1 \<le> n" "n \<le> 4" "unat c < n"
  shows "unat (get_next_link n c) = Suc (unat c) mod n"
proof -
  have "Suc (unat c) mod n < n" using assms(1) by simp
  then have "Suc (unat c) mod n < 256" using assms(2) by linarith
  then show ?thesis by (simp add: get_next_link_def unat_of_nat)
qed

lemma renewed_short: "length p < 20 \<Longrightarrow> renewed p p"
proof -
  assume "length p < 20"
  then have "\<not> ip_header_ok p" unfolding ip_header_ok_def by linarith
  then show ?thesis by (simp add: renewed_def)
qed

lemma packet_from_sender_short:
  assumes "forwarder_ok n fw" "1 \<le> n" "n \<le> 4" "p \<noteq> []" "length p < 20"
  obtains fw' where "packet_from_sender n ok p fw = Inr fw'" "forwarder_ok n fw'"
    "unat (fw_current fw') = Suc (unat (fw_current fw)) mod n" "fw_written fw' = fw_written fw"
proof -
  note ok = assms(1) [unfolded forwarder_ok_def]
  have buf: "length (fw_buffer fw) = MAX_PACKET_SIZE" using ok by simp
  have short: "length p \<le> MAX_PACKET_SIZE" using assms(5) by (simp add: MAX_PACKET_SIZE_def)
  note rd = tun_read_ok [OF buf short]
  have next': "unat (get_next_link n (fw_current fw)) = Suc (unat (fw_current fw)) mod n"
    using get_next_link_ok assms(2,3) ok by simp
  let ?b = "p @ drop (length p) (fw_buffer fw)"
  have "packet_from_sender n ok p fw = Inr (fw\<lparr>fw_current := get_next_link n (fw_current fw), fw_buffer := ?b\<rparr>)"
    using assms(4,5) by (simp add: packet_from_sender_def rd(1) process_packet_userspace_def Let_def)
  then show thesis by (rule that) (use ok rd(2) next' assms(2) in \<open>simp_all add: forwarder_ok_def\<close>)
qed

lemma packet_from_sender_long:
  assumes "forwarder_ok n fw" "1 \<le> n" "n \<le> 4" "20 \<le> length p" "length p \<le> MAX_PACKET_SIZE"
  obtains fw' q where "packet_from_sender n ok p fw = Inr fw'" "forwarder_ok n fw'"
    "unat (fw_current fw') = Suc (unat (fw_current fw)) mod n"
    "fw_written fw' = fw_written fw @ (if ok then [ToLink (Suc (unat (fw_current fw)) mod n) q] else [])" "renewed p q"
proof -
  note fok = assms(1) [unfolded forwarder_ok_def]
  have buf: "length (fw_buffer fw) = MAX_PACKET_SIZE" using fok by simp
  obtain b where b: "process_packet_userspace (p @ drop (length p) (fw_buffer fw)) (length p) True = Inr (length p, b)"
    "length b = MAX_PACKET_SIZE" "renewed p (take (length p) b)"
    using process_read_packet [OF buf assms(4,5)] .
  have next': "unat (get_next_link n (fw_current fw)) = Suc (unat (fw_current fw)) mod n"
    using get_next_link_ok assms(2,3) fok by simp
  have lt: "Suc (unat (fw_current fw)) mod n < n" using assms(2) by simp
  let ?i = "Suc (unat (fw_current fw)) mod n" and ?l = "fw_links fw ! (Suc (unat (fw_current fw)) mod n)"
  let ?fw = "fw\<lparr>fw_current := get_next_link n (fw_current fw), fw_buffer := b\<rparr>"
  let ?fw' = "if ok then ?fw\<lparr>fw_written := fw_written fw @ [ToLink ?i (take (length p) b)],
    fw_links := (fw_links fw)[?i := ?l\<lparr>li_out_packets := li_out_packets ?l + 1,
      li_out_bytes := li_out_bytes ?l + word_of_nat (length p)\<rparr>]\<rparr> else ?fw"
  have ne: "p \<noteq> []" using assms(4) by auto
  have "packet_from_sender n ok p fw = Inr ?fw'"
    using b(1) fok lt ne by (simp add: packet_from_sender_def tun_read_ok(1) [OF buf assms(5)] next' Let_def not_le)
  then show thesis by (rule that) (use b fok lt next' in \<open>simp_all add: forwarder_ok_def\<close>)
qed

text \<open>
  Any packet of the sender: the link index moves on; the packet goes out when it has at least 20 bytes
  and the write succeeds.
\<close>

lemma packet_from_sender_ok:
  assumes "forwarder_ok n fw" "1 \<le> n" "n \<le> 4" "p \<noteq> []"
  defines "p' \<equiv> take MAX_PACKET_SIZE p"
  obtains fw' q where "packet_from_sender n ok p fw = Inr fw'" "forwarder_ok n fw'"
    "unat (fw_current fw') = Suc (unat (fw_current fw)) mod n" "renewed p' q"
    "fw_written fw' = fw_written fw @
      (if ok \<and> 20 \<le> length p' then [ToLink (Suc (unat (fw_current fw)) mod n) q] else [])"
proof -
  have p': "p' \<noteq> []" "length p' \<le> MAX_PACKET_SIZE" using assms(4) by (simp_all add: p'_def MAX_PACKET_SIZE_def)
  have eq: "packet_from_sender n ok p fw = packet_from_sender n ok p' fw"
    by (simp only: packet_from_sender_def tun_read_take [of p] p'_def)
  show thesis
  proof (cases "length p' < 20")
    case True
    obtain fw' where "packet_from_sender n ok p' fw = Inr fw'" "forwarder_ok n fw'"
      "unat (fw_current fw') = Suc (unat (fw_current fw)) mod n" "fw_written fw' = fw_written fw"
      by (rule packet_from_sender_short [OF assms(1-3) p'(1) True])
    with eq renewed_short [OF True] True show thesis by (intro that [of fw' p']) simp_all
  next
    case False
    obtain fw' q where "packet_from_sender n ok p' fw = Inr fw'" "forwarder_ok n fw'"
      "unat (fw_current fw') = Suc (unat (fw_current fw)) mod n"
      "fw_written fw' = fw_written fw @ (if ok then [ToLink (Suc (unat (fw_current fw)) mod n) q] else [])" "renewed p' q"
      by (rule packet_from_sender_long [OF assms(1-3) _ p'(2), of ok]) (use False in auto)
    with eq False show thesis by (intro that [of fw' q]) simp_all
  qed
qed

lemma packet_from_link_ok:
  assumes "forwarder_ok n fw" "i < n"
  obtains fw' where "packet_from_link i ok p fw = Inr fw'" "forwarder_ok n fw'" "fw_current fw' = fw_current fw"
    "fw_written fw' = fw_written fw @ (if ok \<and> p \<noteq> [] then [ToSender i (take MAX_PACKET_SIZE p)] else [])"
proof -
  note fok = assms(1) [unfolded forwarder_ok_def]
  define q where "q = take MAX_PACKET_SIZE p"
  have buf: "length (fw_buffer fw) = MAX_PACKET_SIZE" using fok by simp
  have le: "length q \<le> MAX_PACKET_SIZE" by (simp add: q_def)
  note rd = tun_read_ok [OF buf le]
  have rp: "tun_read p (fw_buffer fw) = (length q, q @ drop (length q) (fw_buffer fw))"
    unfolding tun_read_take [of p] q_def [symmetric] by (rule rd(1))
  have pp: "process_packet_userspace l m False = Inr (m, l)" for l m by (simp add: process_packet_userspace_def)
  have zero: "q = [] \<longleftrightarrow> p = []" by (cases p) (simp_all add: q_def MAX_PACKET_SIZE_def)
  let ?fw = "fw\<lparr>fw_buffer := q @ drop (length q) (fw_buffer fw)\<rparr>"
  let ?fw' = "if p = [] then fw else if \<not> ok then ?fw else ?fw\<lparr>fw_written := fw_written fw @ [ToSender i q],
    fw_links := (fw_links fw)[i := (fw_links fw ! i)\<lparr>li_in_packets := li_in_packets (fw_links fw ! i) + 1,
      li_in_bytes := li_in_bytes (fw_links fw ! i) + word_of_nat (length q)\<rparr>]\<rparr>"
  have "packet_from_link i ok p fw = Inr ?fw'"
    using fok assms(2) zero by (auto simp: packet_from_link_def rp pp Let_def not_le)
  then show thesis by (rule that) (use fok rd(2) in \<open>simp_all add: forwarder_ok_def q_def\<close>)
qed

text \<open>
  What a run is offered: the packets of the sender as they are read, with the outcome of the write that
  would forward them, and the packets of the links that are written back, with the number of the link. A
  read of no bytes is no packet.
\<close>

fun link_returns :: "nat \<Rightarrow> tun_input list \<Rightarrow> (nat \<times> byte list) list" where
  "link_returns i [] = []"
| "link_returns i (None # l) = link_returns (Suc i) l"
| "link_returns i (Some (ok, p) # l) =
     (if ok \<and> p \<noteq> [] then [(i, take MAX_PACKET_SIZE p)] else []) @ link_returns (Suc i) l"

fun sender_offer :: "tun_input \<Rightarrow> (bool \<times> byte list) list" where
  "sender_offer None = []"
| "sender_offer (Some (ok, p)) = (if p = [] then [] else [(ok, take MAX_PACKET_SIZE p)])"

definition sender_offers :: "(tun_input \<times> tun_input list) list \<Rightarrow> (bool \<times> byte list) list" where
  "sender_offers rounds = concat (map (sender_offer \<circ> fst) rounds)"

definition all_link_returns :: "(tun_input \<times> tun_input list) list \<Rightarrow> (nat \<times> byte list) list" where
  "all_link_returns rounds = concat (map (link_returns 0 \<circ> snd) rounds)"

fun to_links :: "tun_write list \<Rightarrow> (nat \<times> byte list) list" where
  "to_links [] = []"
| "to_links (ToLink i p # l) = (i, p) # to_links l"
| "to_links (ToSender i p # l) = to_links l"

fun to_sender :: "tun_write list \<Rightarrow> (nat \<times> byte list) list" where
  "to_sender [] = []"
| "to_sender (ToLink i p # l) = to_sender l"
| "to_sender (ToSender i p # l) = (i, p) # to_sender l"

lemma to_append [simp]: "to_links (x @ y) = to_links x @ to_links y" "to_sender (x @ y) = to_sender x @ to_sender y"
  by (induction x rule: to_links.induct) auto

text \<open>
  The packets that leave: of those offered, with the link of each and what has been made of it, those
  that have at least 20 bytes and whose write succeeds.
\<close>

definition sent_on :: "nat list \<Rightarrow> (bool \<times> byte list) list \<Rightarrow> byte list list \<Rightarrow> (nat \<times> byte list) list" where
  "sent_on is offers qs =
     map snd (filter (\<lambda>((ok, p), out). ok \<and> 20 \<le> length p) (zip offers (zip is qs)))"

lemma sent_on_append:
  assumes "length is = length offers" "length qs = length offers"
  shows "sent_on (is @ is') (offers @ offers') (qs @ qs') = sent_on is offers qs @ sent_on is' offers' qs'"
  using assms by (simp add: sent_on_def zip_append)

lemma links_round_ok:
  assumes "forwarder_ok n fw" "i + length ls \<le> n"
  obtains fw' where "links_round i ls fw = Inr fw'" "forwarder_ok n fw'" "fw_current fw' = fw_current fw"
    "to_links (fw_written fw') = to_links (fw_written fw)"
    "to_sender (fw_written fw') = to_sender (fw_written fw) @ link_returns i ls"
  using assms
proof (induction i ls fw arbitrary: thesis rule: links_round.induct)
  case (3 i ok p l fw)
  obtain fw1 where fw1: "packet_from_link i ok p fw = Inr fw1" "forwarder_ok n fw1"
    "fw_current fw1 = fw_current fw"
    "fw_written fw1 = fw_written fw @ (if ok \<and> p \<noteq> [] then [ToSender i (take MAX_PACKET_SIZE p)] else [])"
    by (rule packet_from_link_ok [of n fw i ok p]) (use "3.prems" in auto)
  obtain fw2 where "links_round (Suc i) l fw1 = Inr fw2" "forwarder_ok n fw2" "fw_current fw2 = fw_current fw1"
    "to_links (fw_written fw2) = to_links (fw_written fw1)"
    "to_sender (fw_written fw2) = to_sender (fw_written fw1) @ link_returns (Suc i) l"
    using "3.IH" [of fw1] fw1(2) "3.prems" by auto
  with fw1 show ?case by (intro "3.prems"(1) [of fw2]) auto
qed auto

text \<open>The links that \<open>k\<close> packets take from link \<open>c\<close> on.\<close>

definition rotation :: "nat \<Rightarrow> nat \<Rightarrow> nat \<Rightarrow> nat list" where
  "rotation n c k = map (\<lambda>j. Suc (c + j) mod n) [0..<k]"

lemma rotation_add: "rotation n c (a + b) = rotation n c a @ rotation n ((c + a) mod n) b"
proof (rule nth_equalityI)
  fix i assume "i < length (rotation n c (a + b))"
  then have i: "i < a + b" by (simp add: rotation_def)
  show "rotation n c (a + b) ! i = (rotation n c a @ rotation n ((c + a) mod n) b) ! i"
  proof (cases "i < a")
    case True
    with i show ?thesis by (simp add: rotation_def nth_append)
  next
    case False
    have "Suc ((c + a) mod n + (i - a)) mod n = Suc (c + a + (i - a)) mod n" 
      by (metis add_Suc mod_Suc_eq mod_add_left_eq)
    moreover have "i - a < b" "c + a + (i - a) = c + i" using False i by linarith+
    ultimately show ?thesis using False i by (simp add: rotation_def nth_append del: mod_Suc_eq)
  qed
qed (simp add: rotation_def)

lemma rotation_small [simp]: "rotation n c 0 = []" "rotation n c (Suc 0) = [Suc c mod n]"
  by (simp_all add: rotation_def)

definition run_like :: "nat \<Rightarrow> forwarder \<Rightarrow> (bool \<times> byte list) list \<Rightarrow> (nat \<times> byte list) list \<Rightarrow> byte list list \<Rightarrow> forwarder \<Rightarrow> bool" where
  "run_like n fw offers returns qs fw' \<longleftrightarrow> forwarder_ok n fw' \<and>
     unat (fw_current fw') = (unat (fw_current fw) + length qs) mod n \<and>
     list_all2 (\<lambda>(ok, p) q. renewed p q) offers qs \<and>
     to_links (fw_written fw') = to_links (fw_written fw) @ sent_on (rotation n (unat (fw_current fw)) (length qs)) offers qs \<and>
     to_sender (fw_written fw') = to_sender (fw_written fw) @ returns"

lemma forward_round_ok:
  assumes "forwarder_ok n fw" "1 \<le> n" "n \<le> 4" "length ls \<le> n"
  obtains fw' qs where "forward_round n s ls fw = Inr fw'" "run_like n fw (sender_offer s) (link_returns 0 ls) qs fw'"
proof (cases "sender_offer s = []")
  case True
  then have s: "s = None \<or> (\<exists>ok. s = Some (ok, []))"
    by (cases s rule: sender_offer.cases) (simp_all split: if_splits)
  obtain fw' where fw': "links_round 0 ls fw = Inr fw'" "forwarder_ok n fw'" "fw_current fw' = fw_current fw"
    "to_links (fw_written fw') = to_links (fw_written fw)"
    "to_sender (fw_written fw') = to_sender (fw_written fw) @ link_returns 0 ls"
    using links_round_ok [OF assms(1), of 0 ls] assms(4) by auto
  have "forward_round n s ls fw = Inr fw'"
    using s fw'(1) by (auto simp: forward_round_def packet_from_sender_def tun_read_def)
  then show ?thesis using fw' assms(1) True by (intro that [of fw' "[]"]) (simp_all add: run_like_def forwarder_ok_def sent_on_def)
next
  case False
  then obtain ok p where s: "s = Some (ok, p)" "p \<noteq> []"
    by (cases s rule: sender_offer.cases) (simp_all split: if_splits)
  let ?p = "take MAX_PACKET_SIZE p"
  obtain fw1 q where fw1: "packet_from_sender n ok p fw = Inr fw1" "forwarder_ok n fw1"
    "unat (fw_current fw1) = Suc (unat (fw_current fw)) mod n" "renewed ?p q"
    "fw_written fw1 = fw_written fw @
      (if ok \<and> 20 \<le> length ?p then [ToLink (Suc (unat (fw_current fw)) mod n) q] else [])"
    using packet_from_sender_ok [OF assms(1-3) s(2)] .
  obtain fw2 where "links_round 0 ls fw1 = Inr fw2" "forwarder_ok n fw2" "fw_current fw2 = fw_current fw1"
    "to_links (fw_written fw2) = to_links (fw_written fw1)"
    "to_sender (fw_written fw2) = to_sender (fw_written fw1) @ link_returns 0 ls"
    using links_round_ok [OF fw1(2), of 0 ls] assms(4) by auto
  with fw1 s show ?thesis
    by (intro that [of fw2 "[q]"]) (auto simp: forward_round_def run_like_def sent_on_def)
qed

lemma run_like_trans:
  assumes "run_like n fw o1 r1 q1 fw1" "run_like n fw1 o2 r2 q2 fw2"
  shows "run_like n fw (o1 @ o2) (r1 @ r2) (q1 @ q2) fw2"
proof -
  have len: "length q1 = length o1" using assms(1) by (auto simp: run_like_def dest: list_all2_lengthD)
  let ?c = "unat (fw_current fw)" and ?c1 = "unat (fw_current fw1)"
  have c1: "?c1 = (?c + length q1) mod n" using assms(1) by (simp add: run_like_def)
  have "length (rotation n ?c (length q1)) = length o1" by (simp add: rotation_def len)
  note sent = sent_on_append [OF this len, of "rotation n ?c1 (length q2)" o2 q2]
  have "unat (fw_current fw2) = (?c1 + length q2) mod n" using assms(2) by (simp add: run_like_def)
  also have "\<dots> = (?c + length (q1 @ q2)) mod n" by (simp only: c1 length_append mod_add_left_eq add.assoc)
  finally have c2: "unat (fw_current fw2) = (?c + length (q1 @ q2)) mod n" .
  have "to_links (fw_written fw2) =
      to_links (fw_written fw) @ sent_on (rotation n ?c (length (q1 @ q2))) (o1 @ o2) (q1 @ q2)"
    unfolding length_append rotation_add c1 [symmetric] sent using assms by (simp add: run_like_def)
  moreover have "list_all2 (\<lambda>(ok, p) q. renewed p q) (o1 @ o2) (q1 @ q2)"
    using assms by (auto simp: run_like_def intro: list_all2_appendI)
  ultimately show ?thesis using assms c2 by (simp add: run_like_def)
qed

lemma run_ok:
  assumes "forwarder_ok n fw" "1 \<le> n" "n \<le> 4" "\<forall>(s, ls) \<in> set rounds. length ls \<le> n"
  shows "\<exists>fw' qs. run_multi_link_forwarder n rounds fw = Inr fw' \<and>
    run_like n fw (sender_offers rounds) (all_link_returns rounds) qs fw'"
  using assms
proof (induction n rounds fw rule: run_multi_link_forwarder.induct)
  case (1 n fw)
  then show ?case
    by (intro exI [of _ fw] exI [of _ "[]"])
      (simp add: sender_offers_def all_link_returns_def run_like_def forwarder_ok_def sent_on_def)
next
  case (2 n s ls rounds fw)
  obtain fw1 qs1 where f1: "forward_round n s ls fw = Inr fw1" "run_like n fw (sender_offer s) (link_returns 0 ls) qs1 fw1"
    using forward_round_ok [of n fw ls s] "2.prems" by (metis (no_types, lifting) case_prodD list.set_intros(1))
  then obtain fw2 qs2 where f2: "run_multi_link_forwarder n rounds fw1 = Inr fw2"
    "run_like n fw1 (sender_offers rounds) (all_link_returns rounds) qs2 fw2"
    using "2.IH" [of fw1] "2.prems" by (auto simp: run_like_def)
  from run_like_trans [OF f1(2) f2(2)] f1(1) f2(1) show ?case
    by (intro exI [of _ fw2] exI [of _ "qs1 @ qs2"]) (simp add: sender_offers_def all_link_returns_def)
qed

text \<open>
  Property C24. What the forwarder does with every packet, for 1 to 4 links, any packets and any outcome
  of the writes: it never accesses memory out of bounds; the packets of the sender take the links in
  strict rotation, beginning with the second; a packet goes out, once and in order, exactly when it has
  at least 20 bytes and its write succeeds, and is lost otherwise, with its turn; only its TTL and
  checksum bytes can differ (what is longer than the buffer is cut off), and a packet with a complete
  IPv4 header leaves with TTL 64 and a header checksum that verifies. Every packet of a link whose write
  succeeds goes back to the sender unchanged and in order.
\<close>

theorem tunnel_forwards:
  assumes "1 \<le> n" "n \<le> 4" "length buffer = MAX_PACKET_SIZE" "\<forall>(s, ls) \<in> set rounds. length ls \<le> n"
  shows "\<exists>fw qs. run_multi_link_forwarder n rounds (new_forwarder n buffer) = Inr fw \<and>
    list_all2 (\<lambda>(ok, p) q. renewed p q) (sender_offers rounds) qs \<and>
    to_links (fw_written fw) = sent_on (rotation n 0 (length qs)) (sender_offers rounds) qs \<and>
    to_sender (fw_written fw) = all_link_returns rounds"
proof -
  have new: "fw_written (new_forwarder n buffer) = []" "unat (fw_current (new_forwarder n buffer)) = 0"
    "forwarder_ok n (new_forwarder n buffer)"
    using assms(1,3) by (simp_all add: forwarder_ok_def new_forwarder_def)
  show ?thesis
    using run_ok [OF new(3) assms(1,2,4)] unfolding run_like_def new to_links.simps to_sender.simps append_Nil by blast
qed

definition demo_packet :: "byte list" where
  "demo_packet = [0x45, 0, 0, 20, 0, 1, 0, 0, 17, 17, 0, 0, 10, 0, 0, 1, 10, 0, 0, 2]"

text \<open>A packet that is forwarded, one whose write fails, one that is too short, and a packet of the second link.\<close>

theorem tunnel_forwards_witness:
  "\<exists>fw q. run_multi_link_forwarder 2 [(Some (True, demo_packet), [None, Some (True, [1, 2])]), (Some (False, demo_packet), []),
      (Some (True, [7]), []), (Some (True, demo_packet), [])] (new_forwarder 2 (replicate MAX_PACKET_SIZE 0)) = Inr fw \<and>
    renewed demo_packet q \<and> map fst (to_links (fw_written fw)) = [1, 0] \<and> to_sender (fw_written fw) = [(1, [1, 2])]"
proof -
  let ?r = "[(Some (True, demo_packet), [None, Some (True, [1, 2])]), (Some (False, demo_packet), []),
      (Some (True, [7]), []), (Some (True, demo_packet), [])] :: (tun_input \<times> tun_input list) list"
  have r: "\<forall>(s, ls) \<in> set ?r. length ls \<le> 2" by simp
  have e: "sender_offers ?r = [(True, demo_packet), (False, demo_packet), (True, [7]), (True, demo_packet)]"
      "all_link_returns ?r = [(1, [1, 2])]"
    by (simp_all add: all_link_returns_def sender_offers_def demo_packet_def MAX_PACKET_SIZE_def)
  have len: "length (replicate MAX_PACKET_SIZE (0 :: byte)) = MAX_PACKET_SIZE" by simp
  obtain fw qs where f: "run_multi_link_forwarder 2 ?r (new_forwarder 2 (replicate MAX_PACKET_SIZE 0)) = Inr fw"
      "list_all2 (\<lambda>(ok, p) q. renewed p q) (sender_offers ?r) qs"
      "to_links (fw_written fw) = sent_on (rotation 2 0 (length qs)) (sender_offers ?r) qs"
      "to_sender (fw_written fw) = all_link_returns ?r"
    using tunnel_forwards [OF _ _ len r] by auto
  obtain q1 q2 q3 q4 where q: "qs = [q1, q2, q3, q4]" "renewed demo_packet q1"
    using f(2) unfolding e by (auto simp: list_all2_Cons1)
  have "to_links (fw_written fw) = [(1, q1), (0, q4)]"
    unfolding f(3) e q by (simp add: sent_on_def rotation_def demo_packet_def upt_rec)
  with f(1,4) q(2) show ?thesis unfolding e by auto
qed

end
