(* ===== verification/Sdap.thy ===== *)
theory Sdap
  imports Prelude
begin

text \<open>
  SDAP (\<open>nr_sdap_entity.c\<close>, \<open>nr_sdap.c\<close>): one entity per PDU session maps QoS flows to data bearers and
  puts a header of one byte in front of an SDU where the bearer has one. What an entity hands to PDCP,
  to GTP and to the IP stack is recorded in order; whether PDCP accepts an SDU is an argument.
\<close>

section \<open>Header\<close>

text \<open>Bit fields of a little endian machine: the QFI is the low 6 bits, then RQI or R, then RDI or DC.\<close>

definition sdap_header :: "nat \<Rightarrow> bool \<Rightarrow> bool \<Rightarrow> byte" where
  "sdap_header qfi b6 b7 = word_of_nat (qfi mod 64 + (if b6 then 64 else 0) + (if b7 then 128 else 0))"

definition hdr_QFI :: "byte \<Rightarrow> nat" where
  "hdr_QFI h = unat h mod 64"

definition hdr_RQI :: "byte \<Rightarrow> bool" where
  "hdr_RQI h = bit h 6"

definition hdr_RDI :: "byte \<Rightarrow> bool" where
  "hdr_RDI h = bit h 7"

section \<open>An entity\<close>

record qfi2drb =
  qd_drb_id :: int
  qd_has_sdap_rx :: bool
  qd_has_sdap_tx :: bool

record nr_sdap_entity =
  sd_ue_id :: int
  sd_default_drb :: int
  sd_pdusession_id :: int
  sd_table :: "qfi2drb list"

definition SDAP_MAX_QFI :: nat where "SDAP_MAX_QFI = 64"
definition AVLBL_DRB :: int where "AVLBL_DRB = 5"

datatype sdap_out =
    PdcpDataReqDrb int int "byte list"
  | N3TunnelDataReq int int "byte list"
  | NasWrite "byte list"

type_synonym 'a sdap = "(nr_sdap_entity \<times> sdap_out list \<times> 'a) result"

definition sd_entry :: "nr_sdap_entity \<Rightarrow> nat \<Rightarrow> qfi2drb result" where
  "sd_entry e qfi = (if qfi < length (sd_table e) then Inr (sd_table e ! qfi) else Inl OutOfBounds)"

definition nr_sdap_qfi2drb_map_update :: "nr_sdap_entity \<Rightarrow> nat \<Rightarrow> int \<Rightarrow> bool \<Rightarrow> bool \<Rightarrow> nr_sdap_entity" where
  "nr_sdap_qfi2drb_map_update e qfi drb has_sdap_rx has_sdap_tx =
     (if qfi < SDAP_MAX_QFI \<and> qfi > 0 \<and> drb > 0 \<and> drb \<le> AVLBL_DRB
      then e\<lparr>sd_table := (sd_table e)[qfi := \<lparr>qd_drb_id = drb, qd_has_sdap_rx = has_sdap_rx, qd_has_sdap_tx = has_sdap_tx\<rparr>]\<rparr>
      else e)"

definition nr_sdap_qfi2drb_map_del :: "nr_sdap_entity \<Rightarrow> nat \<Rightarrow> nr_sdap_entity result" where
  "nr_sdap_qfi2drb_map_del e qfi =
     bindR (sd_entry e qfi) (\<lambda>r. Inr (e\<lparr>sd_table := (sd_table e)[qfi := r\<lparr>qd_drb_id := 0\<rparr>]\<rparr>))"

text \<open>The bearer of a flow: that of its rule, else the default bearer, which becomes its rule, else 0.\<close>

definition nr_sdap_qfi2drb_map :: "nr_sdap_entity \<Rightarrow> nat \<Rightarrow> (int \<times> nr_sdap_entity) result" where
  "nr_sdap_qfi2drb_map e qfi =
     bindR (sd_entry e qfi) (\<lambda>r.
       if qd_drb_id r \<noteq> 0 then Inr (qd_drb_id r, e)
       else if sd_default_drb e \<noteq> 0
            then Inr (sd_default_drb e,
                      nr_sdap_qfi2drb_map_update e qfi (sd_default_drb e) (qd_has_sdap_rx r) (qd_has_sdap_tx r))
       else Inr (0, e))"

text \<open>An SDU to send on a bearer, in a gNB or a UE; \<open>ok\<close> is the answer of PDCP.\<close>

definition nr_sdap_tx_entity ::
  "nr_sdap_entity \<Rightarrow> bool \<Rightarrow> bool \<Rightarrow> int \<Rightarrow> int \<Rightarrow> byte list \<Rightarrow> nat \<Rightarrow> bool \<Rightarrow> bool sdap" where
  "nr_sdap_tx_entity e ok enb_flag ctxt_ue rb_id sdu qfi rqi =
     bindR (nr_sdap_qfi2drb_map e qfi) (\<lambda>(pdcp_entity, e1).
     bindR (sd_entry e1 qfi) (\<lambda>r.
       let drb = (if pdcp_entity \<noteq> 0 then pdcp_entity else rb_id);
           has_sdap = pdcp_entity \<noteq> 0 \<and> qd_has_sdap_tx r
       in if \<not> has_sdap then Inr (e1, [PdcpDataReqDrb ctxt_ue drb sdu], ok)
          else if length sdu = 0 \<or> length sdu > 8999 then Inr (e1, [], False)
          else
            let hdr = (if enb_flag then sdap_header qfi rqi False else sdap_header qfi False rqi)
            in Inr (e1, [PdcpDataReqDrb ctxt_ue drb (hdr # sdu)], ok)))"

definition nr_sdap_construct_ctrl_pdu :: "nat \<Rightarrow> byte" where
  "nr_sdap_construct_ctrl_pdu qfi = sdap_header qfi False False"

datatype ctrl_map_type = MapDefDrb | MapRuleDrb

fun nr_sdap_map_ctrl_pdu :: "nr_sdap_entity \<Rightarrow> ctrl_map_type \<Rightarrow> nat \<Rightarrow> (int \<times> nr_sdap_entity) result" where
  "nr_sdap_map_ctrl_pdu e MapDefDrb qfi = Inr (sd_default_drb e, e)"
| "nr_sdap_map_ctrl_pdu e MapRuleDrb qfi = nr_sdap_qfi2drb_map e qfi"

definition nr_sdap_submit_ctrl_pdu :: "int \<Rightarrow> int \<Rightarrow> byte \<Rightarrow> sdap_out list" where
  "nr_sdap_submit_ctrl_pdu uid drb ctrl = (if drb \<noteq> 0 then [PdcpDataReqDrb uid drb [ctrl]] else [])"

text \<open>An end marker for a flow, on the default bearer or on that of its rule.\<close>

definition sdap_end_marker :: "nr_sdap_entity \<Rightarrow> int \<Rightarrow> ctrl_map_type \<Rightarrow> nat \<Rightarrow> unit sdap" where
  "sdap_end_marker e uid t qfi =
     bindR (nr_sdap_map_ctrl_pdu e t qfi) (\<lambda>(drb, e1).
       Inr (e1, nr_sdap_submit_ctrl_pdu uid drb (nr_sdap_construct_ctrl_pdu qfi), ()))"

definition sdap_end_marker_if :: "bool \<Rightarrow> nr_sdap_entity \<Rightarrow> int \<Rightarrow> ctrl_map_type \<Rightarrow> nat \<Rightarrow> unit sdap" where
  "sdap_end_marker_if c e uid t qfi = (if c then sdap_end_marker e uid t qfi else Inr (e, [], ()))"

text \<open>The two end markers of a change of mapping, each under its condition, and the state between them.\<close>

definition reflective_mapping :: "nr_sdap_entity \<Rightarrow> int \<Rightarrow> int \<Rightarrow> nat \<Rightarrow> unit sdap" where
  "reflective_mapping e uid pdcp_entity qfi =
     bindR (sd_entry e qfi) (\<lambda>r0.
     bindR (sdap_end_marker_if (qd_drb_id r0 = 0 \<and> sd_default_drb e \<noteq> 0) e uid MapDefDrb qfi) (\<lambda>(e1, o1, _).
     bindR (sd_entry e1 qfi) (\<lambda>r1.
     bindR (sdap_end_marker_if (pdcp_entity \<noteq> qd_drb_id r1) e1 uid MapRuleDrb qfi) (\<lambda>(e2, o2, _).
     bindR (sd_entry e2 qfi) (\<lambda>r2.
       Inr (e2\<lparr>sd_table := (sd_table e2)[qfi := r2\<lparr>qd_drb_id := pdcp_entity\<rparr>]\<rparr>, o1 @ o2, ()))))))"

text \<open>A PDU from PDCP; the header is read before anything checks that there is one.\<close>

definition nr_sdap_rx_entity ::
  "nr_sdap_entity \<Rightarrow> int \<Rightarrow> bool \<Rightarrow> bool \<Rightarrow> int \<Rightarrow> int \<Rightarrow> byte list \<Rightarrow> unit sdap" where
  "nr_sdap_rx_entity e pdcp_entity is_gnb has_sdap_rx pdusession_id uid buf =
     (if \<not> has_sdap_rx
      then Inr (e, [if is_gnb then N3TunnelDataReq uid pdusession_id buf else NasWrite buf], ())
      else case buf of
        [] \<Rightarrow> Inl OutOfBounds
      | h # payload \<Rightarrow>
          if is_gnb then Inr (e, [N3TunnelDataReq uid pdusession_id payload], ())
          else bindR (if hdr_RDI h then reflective_mapping e uid pdcp_entity (hdr_QFI h) else Inr (e, [], ()))
                 (\<lambda>(e1, outs, _). Inr (e1, outs @ [NasWrite payload], ())))"

section \<open>Configuration\<close>

text \<open>
  The QFIs to map are read through a pointer: the list is what is behind it, and reading more than
  that is undefined behaviour. A QFI is cut off to a byte.
\<close>

definition read_qfi :: "int list \<Rightarrow> nat \<Rightarrow> nat result" where
  "read_qfi qfis i = (if i < length qfis then Inr (nat (qfis ! i mod 256)) else Inl OutOfBounds)"

fun nr_sdap_ue_qfi2drb_config ::
  "nat \<Rightarrow> nat \<Rightarrow> nr_sdap_entity \<Rightarrow> int \<Rightarrow> int list \<Rightarrow> int \<Rightarrow> bool \<Rightarrow> bool \<Rightarrow> unit sdap" where
  "nr_sdap_ue_qfi2drb_config i 0 e uid qfis drb has_sdap_rx has_sdap_tx = Inr (e, [], ())"
| "nr_sdap_ue_qfi2drb_config i (Suc n) e uid qfis drb has_sdap_rx has_sdap_tx =
     bindR (read_qfi qfis i) (\<lambda>qfi.
     bindR (if sd_default_drb e = 0 then Inr False else bindR (sd_entry e qfi) (\<lambda>r. Inr (qd_drb_id r = 0))) (\<lambda>c0.
     bindR (sdap_end_marker_if c0 e uid MapDefDrb qfi) (\<lambda>(e1, o1, _).
     bindR (sd_entry e1 qfi) (\<lambda>r1.
     bindR (sdap_end_marker_if (qd_drb_id r1 \<noteq> drb \<and> qd_has_sdap_tx r1) e1 uid MapRuleDrb qfi) (\<lambda>(e2, o2, _).
     bindR (nr_sdap_ue_qfi2drb_config (Suc i) n
              (nr_sdap_qfi2drb_map_update e2 qfi drb has_sdap_rx has_sdap_tx) uid qfis drb has_sdap_rx has_sdap_tx)
       (\<lambda>(e3, o3, _). Inr (e3, o1 @ o2 @ o3, ())))))))"

fun sdap_map_all :: "nat \<Rightarrow> nat \<Rightarrow> nr_sdap_entity \<Rightarrow> int list \<Rightarrow> int \<Rightarrow> bool \<Rightarrow> bool \<Rightarrow> nr_sdap_entity result" where
  "sdap_map_all i 0 e qfis drb has_sdap_rx has_sdap_tx = Inr e"
| "sdap_map_all i (Suc n) e qfis drb has_sdap_rx has_sdap_tx =
     bindR (read_qfi qfis i) (\<lambda>qfi.
       sdap_map_all (Suc i) n (nr_sdap_qfi2drb_map_update e qfi drb has_sdap_rx has_sdap_tx) qfis drb has_sdap_rx has_sdap_tx)"

text \<open>The linked list of all entities, and what they have handed to other layers.\<close>

record sdap_info =
  si_entities :: "nr_sdap_entity list"
  si_out :: "sdap_out list"

definition sdap_is :: "int \<Rightarrow> int \<Rightarrow> nr_sdap_entity \<Rightarrow> bool" where
  "sdap_is uid pdusession_id e \<longleftrightarrow> sd_ue_id e = uid \<and> sd_pdusession_id e = pdusession_id"

fun sdap_index :: "int \<Rightarrow> int \<Rightarrow> nr_sdap_entity list \<Rightarrow> nat option" where
  "sdap_index uid pdusession_id [] = None"
| "sdap_index uid pdusession_id (e # l) =
     (if sdap_is uid pdusession_id e then Some 0 else map_option Suc (sdap_index uid pdusession_id l))"

definition nr_sdap_get_entity :: "int \<Rightarrow> int \<Rightarrow> sdap_info \<Rightarrow> nat option" where
  "nr_sdap_get_entity uid pdusession_id s = sdap_index uid pdusession_id (si_entities s)"

text \<open>Work on the entity at a position of the list.\<close>

definition at_entity :: "nat \<Rightarrow> (nr_sdap_entity \<Rightarrow> 'a sdap) \<Rightarrow> sdap_info \<Rightarrow> ('a \<times> sdap_info) result" where
  "at_entity i f s =
     bindR (f (si_entities s ! i)) (\<lambda>(e, outs, r).
       Inr (r, s\<lparr>si_entities := (si_entities s)[i := e], si_out := si_out s @ outs\<rparr>))"

definition new_nr_sdap_entity ::
  "bool \<Rightarrow> bool \<Rightarrow> bool \<Rightarrow> int \<Rightarrow> int \<Rightarrow> bool \<Rightarrow> int \<Rightarrow> int list \<Rightarrow> nat \<Rightarrow> sdap_info \<Rightarrow> (unit \<times> sdap_info) result" where
  "new_nr_sdap_entity is_gnb has_sdap_rx has_sdap_tx uid pdusession_id is_defaultDRB drb_identity qfis count s =
     (case nr_sdap_get_entity uid pdusession_id s of
        Some i \<Rightarrow>
          if is_gnb then Inr ((), s)
          else at_entity i (\<lambda>e. nr_sdap_ue_qfi2drb_config 0 count e uid qfis drb_identity has_sdap_rx has_sdap_tx) s
      | None \<Rightarrow>
          let e = \<lparr>sd_ue_id = uid, sd_default_drb = 0, sd_pdusession_id = pdusession_id,
                   sd_table = replicate SDAP_MAX_QFI \<lparr>qd_drb_id = 0, qd_has_sdap_rx = False, qd_has_sdap_tx = False\<rparr>\<rparr>
          in bindR (if is_defaultDRB
                    then sdap_map_all 0 count (e\<lparr>sd_default_drb := drb_identity\<rparr>) qfis drb_identity has_sdap_rx has_sdap_tx
                    else Inr e) (\<lambda>e1. Inr ((), s\<lparr>si_entities := e1 # si_entities s\<rparr>)))"

definition nr_sdap_release_drb :: "int \<Rightarrow> int \<Rightarrow> int \<Rightarrow> sdap_info \<Rightarrow> sdap_info" where
  "nr_sdap_release_drb uid drb_id pdusession_id s =
     (case nr_sdap_get_entity uid pdusession_id s of
        None \<Rightarrow> s
      | Some i \<Rightarrow>
          let e = si_entities s ! i
          in s\<lparr>si_entities := (si_entities s)[i := e\<lparr>sd_table :=
               map (\<lambda>r. if qd_drb_id r = drb_id then r\<lparr>qd_drb_id := 0\<rparr> else r) (sd_table e)\<rparr>]\<rparr>)"

definition NGAP_MAX_PDU_SESSION :: int where "NGAP_MAX_PDU_SESSION = 256"
definition SDAP_MAX_NUM_OF_ENTITIES :: nat where "SDAP_MAX_NUM_OF_ENTITIES = 32 * 40"

text \<open>The search stops at the bound, and then looks at the entity it has stopped at.\<close>

fun sdap_delete_from :: "nat \<Rightarrow> int \<Rightarrow> int \<Rightarrow> nr_sdap_entity list \<Rightarrow> bool \<times> nr_sdap_entity list" where
  "sdap_delete_from bound uid pdusession_id [] = (False, [])"
| "sdap_delete_from bound uid pdusession_id (e # l) =
     (if sdap_is uid pdusession_id e then (True, l)
      else if bound = 0 then (False, e # l)
      else (case sdap_delete_from (bound - 1) uid pdusession_id l of (r, l') \<Rightarrow> (r, e # l')))"

text \<open>The test for an empty list also wants the id out of range; else the list is used as it is.\<close>

definition nr_sdap_delete_entity :: "int \<Rightarrow> int \<Rightarrow> sdap_info \<Rightarrow> (bool \<times> sdap_info) result" where
  "nr_sdap_delete_entity uid pdusession_id s =
     (if si_entities s = [] \<and> pdusession_id * (pdusession_id - NGAP_MAX_PDU_SESSION) > 0 then Inr (False, s)
      else if si_entities s = [] then Inl NullDeref
      else (case sdap_delete_from SDAP_MAX_NUM_OF_ENTITIES uid pdusession_id (si_entities s) of (r, l) \<Rightarrow>
             Inr (r, s\<lparr>si_entities := l\<rparr>)))"

text \<open>The two loops: entities of the UE at the head, then those behind. Neither moves its bound.\<close>

fun sdap_drop_head :: "int \<Rightarrow> nr_sdap_entity list \<Rightarrow> bool \<times> nr_sdap_entity list" where
  "sdap_drop_head uid [] = (False, [])"
| "sdap_drop_head uid (e # l) = (if sd_ue_id e = uid then (True, snd (sdap_drop_head uid l)) else (False, e # l))"

fun sdap_drop_rest :: "int \<Rightarrow> nr_sdap_entity list \<Rightarrow> bool \<times> nr_sdap_entity list" where
  "sdap_drop_rest uid [] = (False, [])"
| "sdap_drop_rest uid (e # l) =
     (case sdap_drop_rest uid l of (r, l') \<Rightarrow> if sd_ue_id e \<noteq> uid then (r, e # l') else (True, l'))"

definition nr_sdap_delete_ue_entities :: "int \<Rightarrow> sdap_info \<Rightarrow> bool \<times> sdap_info" where
  "nr_sdap_delete_ue_entities uid s =
     (case sdap_drop_head uid (si_entities s) of (r1, l1) \<Rightarrow>
      case sdap_drop_rest uid l1 of (r2, l2) \<Rightarrow> (r1 \<or> r2, s\<lparr>si_entities := l2\<rparr>))"

text \<open>
  The configuration that RRC gives: \<open>mappedQoS_FlowsToAdd\<close> and \<open>mappedQoS_FlowsToRelease\<close> are arrays of
  pointers. The code takes the first pointer for an array of QFIs, so that behind it there is one.
\<close>

record sdap_config =
  sc_pdu_session :: int
  sc_default_drb :: bool
  sc_header_ul :: bool
  sc_header_dl :: bool
  sc_flows_to_add :: "int list"
  sc_flows_to_release :: "int list option"

definition is_sdap_rx :: "bool \<Rightarrow> sdap_config \<Rightarrow> bool" where
  "is_sdap_rx is_gnb c = (if is_gnb then sc_header_ul c else sc_header_dl c)"

definition is_sdap_tx :: "bool \<Rightarrow> sdap_config \<Rightarrow> bool" where
  "is_sdap_tx is_gnb c = (if is_gnb then sc_header_dl c else sc_header_ul c)"

definition first_flow :: "int list \<Rightarrow> int list result" where
  "first_flow l = (case l of [] \<Rightarrow> Inl NullDeref | q # _ \<Rightarrow> Inr [q])"

fun sdap_unmap_all :: "nat \<Rightarrow> nat \<Rightarrow> nr_sdap_entity \<Rightarrow> int list \<Rightarrow> nr_sdap_entity result" where
  "sdap_unmap_all i 0 e qfis = Inr e"
| "sdap_unmap_all i (Suc n) e qfis =
     bindR (read_qfi qfis i) (\<lambda>qfi. bindR (nr_sdap_qfi2drb_map_del e qfi) (\<lambda>e1. sdap_unmap_all (Suc i) n e1 qfis))"

definition nr_reconfigure_sdap_entity :: "sdap_config \<Rightarrow> int \<Rightarrow> int \<Rightarrow> int \<Rightarrow> sdap_info \<Rightarrow> (unit \<times> sdap_info) result" where
  "nr_reconfigure_sdap_entity c uid pdusession_id drb_id s =
     (case nr_sdap_get_entity uid pdusession_id s of
        None \<Rightarrow> Inr ((), s)
      | Some i \<Rightarrow>
          bindR (first_flow (sc_flows_to_add c)) (\<lambda>add.
            at_entity i (\<lambda>e.
              bindR (nr_sdap_ue_qfi2drb_config 0 (length (sc_flows_to_add c) mod 256) e uid add (drb_id mod 256)
                       (is_sdap_rx False c) (is_sdap_tx False c)) (\<lambda>(e1, outs, _).
              bindR (case sc_flows_to_release c of
                       None \<Rightarrow> Inr e1
                     | Some l \<Rightarrow> bindR (first_flow l) (sdap_unmap_all 0 (length l mod 256) e1)) (\<lambda>e2.
                Inr (e2, outs, ())))) s))"

section \<open>Calls of the other layers\<close>

definition sdap_data_req ::
  "bool \<Rightarrow> bool \<Rightarrow> int \<Rightarrow> int \<Rightarrow> int \<Rightarrow> byte list \<Rightarrow> nat \<Rightarrow> bool \<Rightarrow> int \<Rightarrow> sdap_info \<Rightarrow> (bool \<times> sdap_info) result" where
  "sdap_data_req ok enb_flag ctxt_ue uid rb_id sdu qfi rqi pdusession_id s =
     (case nr_sdap_get_entity uid pdusession_id s of
        None \<Rightarrow> Inr (False, s)
      | Some i \<Rightarrow> at_entity i (\<lambda>e. nr_sdap_tx_entity e ok enb_flag ctxt_ue rb_id sdu qfi rqi) s)"

definition sdap_data_ind ::
  "int \<Rightarrow> bool \<Rightarrow> bool \<Rightarrow> int \<Rightarrow> int \<Rightarrow> byte list \<Rightarrow> sdap_info \<Rightarrow> (unit \<times> sdap_info) result" where
  "sdap_data_ind pdcp_entity is_gnb has_sdap_rx pdusession_id uid buf s =
     (case nr_sdap_get_entity uid pdusession_id s of
        None \<Rightarrow> Inr ((), s)
      | Some i \<Rightarrow> at_entity i (\<lambda>e. nr_sdap_rx_entity e pdcp_entity is_gnb has_sdap_rx pdusession_id uid buf) s)"

end
