(* ===== verification/Sdap_Proofs.thy ===== *)
theory Sdap_Proofs
  imports Sdap
begin

text \<open>
  The header of SDAP is read as it was written, the rules of an entity are a map from flows to bearers,
  and a gNB and a UE agree on the payload where the rule of the flow and the bearer agree on the header.
\<close>

section \<open>Header\<close>

lemma sdap_header_value:
  "unat (sdap_header qfi b6 b7) = qfi mod 64 + (if b6 then 64 else 0) + (if b7 then 128 else 0)"
proof -
  have "qfi mod 64 < 64" by simp
  then show ?thesis unfolding sdap_header_def unat_of_nat by simp
qed

lemma bit_word_nat: "bit w n = odd (unat w div 2 ^ n)" for w :: byte
proof -
  have "bit (unat w) n = bit w n" by (simp add: bit_unsigned_iff)
  then show ?thesis by (simp add: bit_iff_odd [of "unat w"])
qed

lemma sdap_header_fields [simp]:
  "hdr_QFI (sdap_header qfi b6 b7) = qfi mod 64" "hdr_RQI (sdap_header qfi b6 b7) = b6" "hdr_RDI (sdap_header qfi b6 b7) = b7"
proof -
  let ?k = "of_bool b6 + 2 * of_bool b7 :: nat"
  have v: "unat (sdap_header qfi b6 b7) = qfi mod 64 + 64 * ?k" by (simp add: sdap_header_value)
  have d: "unat (sdap_header qfi b6 b7) div 64 = ?k" unfolding v by simp
  then have "unat (sdap_header qfi b6 b7) div 128 = ?k div 2" using div_mult2_eq [of "unat (sdap_header qfi b6 b7)" 64 2] by simp
  with d show "hdr_RQI (sdap_header qfi b6 b7) = b6" "hdr_RDI (sdap_header qfi b6 b7) = b7"
    by (simp_all add: hdr_RQI_def hdr_RDI_def bit_word_nat)
  show "hdr_QFI (sdap_header qfi b6 b7) = qfi mod 64" 
    unfolding hdr_QFI_def v by (simp only: mod_mult_self2 mod_mod_trivial)
qed

section \<open>The rules of an entity are a map\<close>

definition sd_rules :: "nr_sdap_entity \<Rightarrow> nat \<Rightarrow> int option" where
  "sd_rules e q = (if q < length (sd_table e) \<and> qd_drb_id (sd_table e ! q) \<noteq> 0 then Some (qd_drb_id (sd_table e ! q)) else None)"

definition sd_ok :: "nr_sdap_entity \<Rightarrow> bool" where
  "sd_ok e \<longleftrightarrow> length (sd_table e) = SDAP_MAX_QFI"

lemma map_update_rules:
  assumes "sd_ok e" "0 < q" "q < SDAP_MAX_QFI" "1 \<le> drb" "drb \<le> AVLBL_DRB"
  shows "sd_rules (nr_sdap_qfi2drb_map_update e q drb rx tx) = (sd_rules e)(q \<mapsto> drb)"
  using assms by (auto simp: sd_rules_def sd_ok_def nr_sdap_qfi2drb_map_update_def nth_list_update)

lemma map_del_rules:
  assumes "sd_ok e" "q < SDAP_MAX_QFI"
  shows "\<exists>e'. nr_sdap_qfi2drb_map_del e q = Inr e' \<and> sd_rules e' = (sd_rules e)(q := None) \<and> sd_ok e'"
  using assms by (auto simp: sd_rules_def sd_ok_def nr_sdap_qfi2drb_map_del_def sd_entry_def nth_list_update)

lemma map_update_ok [simp]: "sd_ok (nr_sdap_qfi2drb_map_update e q drb rx tx) = sd_ok e"
  by (simp add: sd_ok_def nr_sdap_qfi2drb_map_update_def)

lemma map_update_entry:
  assumes "sd_ok e" "0 < q" "q < SDAP_MAX_QFI" "1 \<le> drb" "drb \<le> AVLBL_DRB"
  shows "sd_table (nr_sdap_qfi2drb_map_update e q drb rx tx) ! q = \<lparr>qd_drb_id = drb, qd_has_sdap_rx = rx, qd_has_sdap_tx = tx\<rparr>"
  using assms by (simp add: sd_ok_def nr_sdap_qfi2drb_map_update_def)

lemma map_update_id [simp]: "sdap_is u p (nr_sdap_qfi2drb_map_update e q drb rx tx) = sdap_is u p e"
  by (simp add: sdap_is_def nr_sdap_qfi2drb_map_update_def)

text \<open>The bearer a flow is sent on: that of its rule, else the default.\<close>

lemma map_lookup:
  assumes "sd_ok e" "q < SDAP_MAX_QFI"
  shows "\<exists>e'. nr_sdap_qfi2drb_map e q = Inr ((case sd_rules e q of Some d \<Rightarrow> d | None \<Rightarrow> sd_default_drb e), e') \<and> sd_ok e'"
  using assms by (auto simp: nr_sdap_qfi2drb_map_def sd_entry_def sd_rules_def sd_ok_def Let_def nr_sdap_qfi2drb_map_update_def)

section \<open>The list of entities\<close>

lemma sdap_index_Some:
  "sdap_index u p l = Some i \<Longrightarrow> i < length l \<and> sdap_is u p (l ! i)"
  by (induction l arbitrary: i) (auto split: if_splits)

lemma sdap_index_None: "sdap_index u p l = None \<longleftrightarrow> (\<forall>e \<in> set l. \<not> sdap_is u p e)"
  by (induction l) auto

lemma sdap_drop_head_filter:
  "filter (\<lambda>e. sd_ue_id e \<noteq> u) (snd (sdap_drop_head u l)) = filter (\<lambda>e. sd_ue_id e \<noteq> u) l \<and>
   (fst (sdap_drop_head u l) \<or> (\<exists>e \<in> set (snd (sdap_drop_head u l)). sd_ue_id e = u) \<longleftrightarrow> (\<exists>e \<in> set l. sd_ue_id e = u))"
  by (induction l) auto

lemma sdap_drop_rest_filter:
  "sdap_drop_rest u l = (\<exists>e \<in> set l. sd_ue_id e = u, filter (\<lambda>e. sd_ue_id e \<noteq> u) l)"
  by (induction l) (auto split: prod.splits)

text \<open>The removal of a UE removes exactly its entities and keeps the order of the others.\<close>

theorem sdap_delete_ue_entities_filter:
  "nr_sdap_delete_ue_entities u s =
     (\<exists>e \<in> set (si_entities s). sd_ue_id e = u, s\<lparr>si_entities := filter (\<lambda>e. sd_ue_id e \<noteq> u) (si_entities s)\<rparr>)"
proof -
  obtain r l where d: "sdap_drop_head u (si_entities s) = (r, l)" by fastforce
  from sdap_drop_head_filter [of u "si_entities s"] show ?thesis
    unfolding d by (simp add: nr_sdap_delete_ue_entities_def sdap_drop_rest_filter d)
qed

lemma sdap_delete_from_found:
  "sdap_index u p l = Some i \<Longrightarrow> i \<le> n \<Longrightarrow> sdap_delete_from n u p l = (True, take i l @ drop (Suc i) l)"
  by (induction n u p l arbitrary: i rule: sdap_delete_from.induct) (auto split: if_splits prod.splits)

text \<open>The removal of a session from a list that is empty goes through a null pointer for every valid id.\<close>

theorem sdap_delete_entity_empty:
  assumes "si_entities s = []" "0 \<le> p" "p \<le> NGAP_MAX_PDU_SESSION"
  shows "nr_sdap_delete_entity u p s = Inl NullDeref"
proof -
  have "p * (p - NGAP_MAX_PDU_SESSION) \<le> 0" using assms(2,3) by (simp add: mult_le_0_iff)
  with assms(1) show ?thesis by (simp add: nr_sdap_delete_entity_def)
qed

section \<open>From the gNB to the UE\<close>

text \<open>A flow that a rule maps to a bearer with a header.\<close>

definition sd_flow :: "sdap_info \<Rightarrow> int \<Rightarrow> int \<Rightarrow> nat \<Rightarrow> int \<Rightarrow> bool" where
  "sd_flow s u p q drb \<longleftrightarrow> (\<exists>i. nr_sdap_get_entity u p s = Some i \<and> sd_ok (si_entities s ! i) \<and> q < SDAP_MAX_QFI \<and>
     drb \<noteq> 0 \<and> qd_drb_id (sd_table (si_entities s ! i) ! q) = drb \<and> qd_has_sdap_tx (sd_table (si_entities s ! i) ! q))"

lemma at_entity_same:
  assumes "nr_sdap_get_entity u p s = Some i" "f (si_entities s ! i) = Inr (si_entities s ! i, outs, r)"
  shows "at_entity i f s = Inr (r, s\<lparr>si_out := si_out s @ outs\<rparr>)"
  using assms by (simp add: at_entity_def)

lemma sdap_data_req_flow:
  assumes "sd_flow s u p q drb" "1 \<le> length sdu" "length sdu \<le> 8999"
  shows "sdap_data_req ok True c u rb sdu q rqi p s =
    Inr (ok, s\<lparr>si_out := si_out s @ [PdcpDataReqDrb c drb (sdap_header q rqi False # sdu)]\<rparr>)"
proof -
  obtain i where i: "nr_sdap_get_entity u p s = Some i" "sd_ok (si_entities s ! i)" "q < SDAP_MAX_QFI"
    "drb \<noteq> 0" "qd_drb_id (sd_table (si_entities s ! i) ! q) = drb" "qd_has_sdap_tx (sd_table (si_entities s ! i) ! q)"
    using assms(1) by (auto simp: sd_flow_def)
  have "sdu \<noteq> []" using assms(2) by auto
  then have "nr_sdap_tx_entity (si_entities s ! i) ok True c rb sdu q rqi =
      Inr (si_entities s ! i, [PdcpDataReqDrb c drb (sdap_header q rqi False # sdu)], ok)"
    using i assms(3) by (simp add: nr_sdap_tx_entity_def nr_sdap_qfi2drb_map_def sd_entry_def sd_ok_def Let_def)
  from at_entity_same [OF i(1), of "\<lambda>e. nr_sdap_tx_entity e ok True c rb sdu q rqi", OF this] i(1)
  show ?thesis by (simp add: sdap_data_req_def)
qed

lemma sdap_data_ind_ue:
  assumes "nr_sdap_get_entity u p t = Some i" "\<not> hdr_RDI h"
  shows "sdap_data_ind drb False True p u (h # payload) t = Inr ((), t\<lparr>si_out := si_out t @ [NasWrite payload]\<rparr>)"
proof -
  have "nr_sdap_rx_entity (si_entities t ! i) drb False True p u (h # payload) = Inr (si_entities t ! i, [NasWrite payload], ())"
    using assms(2) by (simp add: nr_sdap_rx_entity_def)
  from at_entity_same [OF assms(1), of "\<lambda>e. nr_sdap_rx_entity e drb False True p u (h # payload)", OF this] assms(1)
  show ?thesis by (simp add: sdap_data_ind_def)
qed

text \<open>
  Property C17. A packet of a QoS flow that a rule maps to a bearer with a header reaches the other side: the
  gNB hands PDCP one PDU for the bearer of the rule, marked with the flow, and the UE, given that PDU from
  a bearer with a header, writes the packet unchanged to its IP stack; neither changes its rules.
\<close>

theorem sdap_downlink_roundtrip:
  assumes "sd_flow s u p q drb" "1 \<le> length sdu" "length sdu \<le> 8999" "nr_sdap_get_entity v p' t = Some j"
  shows "\<exists>pdu. sdap_data_req ok True c u rb sdu q rqi p s = Inr (ok, s\<lparr>si_out := si_out s @ [PdcpDataReqDrb c drb pdu]\<rparr>) \<and>
    hdr_QFI (hd pdu) = q \<and> hdr_RQI (hd pdu) = rqi \<and>
    sdap_data_ind drb' False True p' v pdu t = Inr ((), t\<lparr>si_out := si_out t @ [NasWrite sdu]\<rparr>)"
proof -
  have "q < 64" using assms(1) by (auto simp: sd_flow_def SDAP_MAX_QFI_def)
  then show ?thesis
    using sdap_data_req_flow [OF assms(1-3), of ok c rb rqi] sdap_data_ind_ue [OF assms(4), of "sdap_header q rqi False" drb' sdu]
    by (intro exI [of _ "sdap_header q rqi False # sdu"]) simp
qed

text \<open>A gNB and a UE with one session each, whose flow 9 is on bearer 2 with a header.\<close>

definition sdap_demo :: sdap_info where
  "sdap_demo = \<lparr>si_entities = [\<lparr>sd_ue_id = 7, sd_default_drb = 1, sd_pdusession_id = 10, sd_table =
     (replicate SDAP_MAX_QFI \<lparr>qd_drb_id = 0, qd_has_sdap_rx = False, qd_has_sdap_tx = False\<rparr>)
       [9 := \<lparr>qd_drb_id = 2, qd_has_sdap_rx = True, qd_has_sdap_tx = True\<rparr>]\<rparr>], si_out = []\<rparr>"

lemma sdap_demo_flow: "sd_flow sdap_demo 7 10 9 2" "nr_sdap_get_entity 7 10 sdap_demo = Some 0"
  by (simp_all add: sd_flow_def sdap_demo_def nr_sdap_get_entity_def sdap_is_def sd_ok_def SDAP_MAX_QFI_def)

theorem sdap_downlink_roundtrip_witness:
  "\<exists>pdu. sdap_data_req True True 7 7 1 [1, 2] 9 False 10 sdap_demo =
      Inr (True, sdap_demo\<lparr>si_out := si_out sdap_demo @ [PdcpDataReqDrb 7 2 pdu]\<rparr>) \<and>
    hdr_QFI (hd pdu) = 9 \<and> hdr_RQI (hd pdu) = False \<and>
    sdap_data_ind 2 False True 10 7 pdu sdap_demo = Inr ((), sdap_demo\<lparr>si_out := si_out sdap_demo @ [NasWrite [1, 2]]\<rparr>)"
  using sdap_demo_flow by (intro sdap_downlink_roundtrip) simp_all

lemma new_default_entity:
  assumes "nr_sdap_get_entity u p s = None" "0 < q0" "q0 < 64"
  shows "new_nr_sdap_entity g rx tx u p True drb [int q0] 1 s = Inr ((), s\<lparr>si_entities :=
    nr_sdap_qfi2drb_map_update \<lparr>sd_ue_id = u, sd_default_drb = drb, sd_pdusession_id = p,
      sd_table = replicate SDAP_MAX_QFI \<lparr>qd_drb_id = 0, qd_has_sdap_rx = False, qd_has_sdap_tx = False\<rparr>\<rparr> q0 drb rx tx # si_entities s\<rparr>)"
  using assms by (simp add: new_nr_sdap_entity_def Let_def read_qfi_def)

text \<open>
  Property C28. A flow without a rule goes out on the default bearer without a header, even if that bearer has
  one: after the set-up of a session with one mapped flow, a packet of any other flow is handed to PDCP as
  it is, and a UE that expects the header of the bearer takes the first byte of the packet for it and
  writes the rest.
\<close>

theorem sdap_default_bearer_loses_byte:
  assumes "nr_sdap_get_entity u p s = None" "new_nr_sdap_entity True True True u p True drb [int q0] 1 s = Inr ((), s1)"
    "1 \<le> drb" "drb \<le> AVLBL_DRB" "0 < q0" "q0 < 64" "0 < q" "q < 64" "q \<noteq> q0"
    "nr_sdap_get_entity v p' t = Some j" "\<not> hdr_RDI b"
  shows "\<exists>s2. sdap_data_req True True c u rb (b # rest) q rqi p s1 = Inr (True, s2) \<and>
    si_out s2 = si_out s1 @ [PdcpDataReqDrb c drb (b # rest)] \<and>
    sdap_data_ind drb False True p' v (b # rest) t = Inr ((), t\<lparr>si_out := si_out t @ [NasWrite rest]\<rparr>)"
proof -
  let ?none = "\<lparr>qd_drb_id = 0, qd_has_sdap_rx = False, qd_has_sdap_tx = False\<rparr>"
  let ?new = "\<lparr>sd_ue_id = u, sd_default_drb = drb, sd_pdusession_id = p, sd_table = replicate SDAP_MAX_QFI ?none\<rparr>"
  let ?e = "nr_sdap_qfi2drb_map_update ?new q0 drb True True"
  have s1: "s1 = s\<lparr>si_entities := ?e # si_entities s\<rparr>"
    using assms(2) new_default_entity [OF assms(1,5,6), of True True True drb] by simp
  have "sdap_is u p ?new" by (simp add: sdap_is_def)
  then have get: "nr_sdap_get_entity u p s1 = Some 0" by (simp add: nr_sdap_get_entity_def s1)
  have e: "sd_table ?e ! q = ?none" "sd_default_drb ?e = drb" "sd_ok ?e" "length (sd_table ?e) = 64"
    using assms(7-9) by (simp_all add: nr_sdap_qfi2drb_map_update_def SDAP_MAX_QFI_def sd_ok_def)
  let ?e2 = "nr_sdap_qfi2drb_map_update ?e q drb False False"
  have q2: "sd_table ?e2 ! q = \<lparr>qd_drb_id = drb, qd_has_sdap_rx = False, qd_has_sdap_tx = False\<rparr>" "sd_ok ?e2"
    using assms(3,4,7,8) e(3) map_update_entry [of ?e q drb False False] by (simp_all add: SDAP_MAX_QFI_def)
  have q3: "sd_entry ?e q = Inr ?none" "sd_entry ?e2 q = Inr \<lparr>qd_drb_id = drb, qd_has_sdap_rx = False, qd_has_sdap_tx = False\<rparr>"
    using assms(8) e q2 by (simp_all only: sd_entry_def sd_ok_def SDAP_MAX_QFI_def if_True)
  have e0: "si_entities s1 ! 0 = ?e" by (simp add: s1)
  have "nr_sdap_tx_entity ?e True True c rb (b # rest) q rqi = Inr (?e2, [PdcpDataReqDrb c drb (b # rest)], True)"
    using assms(3) e(2) q3 by (simp add: nr_sdap_tx_entity_def nr_sdap_qfi2drb_map_def Let_def)
  then have "sdap_data_req True True c u rb (b # rest) q rqi p s1 =
      Inr (True, s1\<lparr>si_entities := (si_entities s1)[0 := ?e2], si_out := si_out s1 @ [PdcpDataReqDrb c drb (b # rest)]\<rparr>)"
    by (simp add: sdap_data_req_def get at_entity_def e0)
  then show ?thesis using sdap_data_ind_ue [OF assms(10,11)] by simp
qed

definition sdap_empty :: sdap_info where
  "sdap_empty = \<lparr>si_entities = [], si_out = []\<rparr>"

theorem sdap_default_bearer_loses_byte_witness:
  "\<exists>s1 s2. new_nr_sdap_entity True True True 7 10 True 1 [int 7] 1 sdap_empty = Inr ((), s1) \<and>
    sdap_data_req True True 7 7 1 (0x45 # [1]) 9 False 10 s1 = Inr (True, s2) \<and>
    si_out s2 = si_out s1 @ [PdcpDataReqDrb 7 1 (0x45 # [1])] \<and>
    sdap_data_ind 1 False True 10 7 (0x45 # [1]) sdap_demo = Inr ((), sdap_demo\<lparr>si_out := si_out sdap_demo @ [NasWrite [1]]\<rparr>)"
proof -
  have n: "nr_sdap_get_entity 7 10 sdap_empty = None" by (simp add: nr_sdap_get_entity_def sdap_empty_def)
  have d: "\<not> hdr_RDI 0x45" by (simp add: hdr_RDI_def bit_word_nat)
  obtain s1 where s1: "new_nr_sdap_entity True True True 7 10 True 1 [int 7] 1 sdap_empty = Inr ((), s1)"
    using new_default_entity [OF n, of 7 True True True 1] by auto
  from sdap_default_bearer_loses_byte [OF n s1, where q = 9 and c = 7 and rb = 1 and rest = "[1]" and rqi = False, OF _ _ _ _ _ _ _ sdap_demo_flow(2) d] s1
  show ?thesis by (auto simp: AVLBL_DRB_def)
qed

section \<open>End markers\<close>

lemma map_default:
  assumes "sd_entry e q = Inr r" "qd_drb_id r = 0" "sd_default_drb e \<noteq> 0"
  shows "\<exists>e'. nr_sdap_qfi2drb_map e q = Inr (sd_default_drb e, e') \<and> length (sd_table e') = length (sd_table e)"
  using assms by (simp add: nr_sdap_qfi2drb_map_def Let_def nr_sdap_qfi2drb_map_update_def)

text \<open>
  A UE that is told to map a flow without a rule sends two end markers on the default bearer, and looks at no
  header configuration: the comments want the second one only for a stored rule on a bearer with a header.
\<close>

theorem sdap_two_end_markers:
  assumes "sd_ok e" "q < SDAP_MAX_QFI" "qd_drb_id (sd_table e ! q) = 0" "sd_default_drb e \<noteq> 0" "drb \<noteq> 0"
    "hdr_RDI h" "hdr_QFI h = q"
  shows "\<exists>e'. nr_sdap_rx_entity e drb False True p u (h # payload) =
    Inr (e', [PdcpDataReqDrb u (sd_default_drb e) [nr_sdap_construct_ctrl_pdu q],
              PdcpDataReqDrb u (sd_default_drb e) [nr_sdap_construct_ctrl_pdu q], NasWrite payload], ())"
proof -
  have l: "q < length (sd_table e)" using assms(1,2) by (simp add: sd_ok_def)
  have r: "sd_entry e q = Inr (sd_table e ! q)" using l by (simp add: sd_entry_def)
  obtain e' where e': "nr_sdap_qfi2drb_map e q = Inr (sd_default_drb e, e')" "length (sd_table e') = length (sd_table e)"
    using map_default [OF r assms(3,4)] by blast
  have r': "sd_entry e' q = Inr (sd_table e' ! q)" using l e'(2) by (simp add: sd_entry_def)
  show ?thesis
    using assms(3-7) r r' e'(1)
    by (simp add: nr_sdap_rx_entity_def reflective_mapping_def sdap_end_marker_if_def sdap_end_marker_def nr_sdap_submit_ctrl_pdu_def)
qed

text \<open>A gNB hands the end marker of a UE to the core network, as a packet without a byte.\<close>

lemma gnb_forwards_end_marker:
  "nr_sdap_rx_entity e drb True True p u [nr_sdap_construct_ctrl_pdu q] = Inr (e, [N3TunnelDataReq u p []], ())"
  by (simp add: nr_sdap_rx_entity_def)

end
