(* ===== verification/Pdcp_Queue.thy ===== *)
theory Pdcp_Queue
  imports Prelude
begin

text \<open>
  The two queues of \<open>nr_pdcp_oai_api.c\<close> (\<open>rlc_data_req_queue\<close> and \<open>pdcp_data_ind_queue\<close>): a ring of a fixed
  number of slots, any number of threads that put items in, one thread that works on them, a mutex and
  one condition variable for both ends. What a thread does between two calls on the mutex is one step;
  \<open>pthread_cond_wait\<close> returns on a signal or for no reason, and a signal wakes one of the threads that wait.
\<close>

section \<open>State\<close>

text \<open>A thread outside, before the mutex with an item, or in the wait for a free slot.\<close>

datatype 'a producer = PIdle | PTest 'a | is_PWait: PWait 'a

text \<open>The working thread: before its test of the length, in the wait, at work on a slot, after the work.\<close>

datatype consumer = CTest | CWait | CBusy nat | CDone nat

text \<open>
  The ring with its slots, then the program counters, then the history that the properties speak of:
  the items in the order they were put in, and those the working thread has handed on.
\<close>

record 'a ring =
  rg_q :: "'a list"
  rg_start :: nat
  rg_length :: nat
  rg_prod :: "'a producer list"
  rg_cons :: consumer
  rg_accepted :: "'a list"
  rg_handled :: "'a list"

definition ring_init :: "'a list \<Rightarrow> nat \<Rightarrow> 'a ring" where
  "ring_init slots n = \<lparr>rg_q = slots, rg_start = 0, rg_length = 0, rg_prod = replicate n PIdle, rg_cons = CTest,
     rg_accepted = [], rg_handled = []\<rparr>"

section \<open>Steps\<close>

definition ring_size :: "'a ring \<Rightarrow> nat" where
  "ring_size s = length (rg_q s)"

text \<open>The store of an item in the slot behind the last one.\<close>

definition ring_put :: "'a \<Rightarrow> 'a ring \<Rightarrow> 'a ring" where
  "ring_put x s =
     s\<lparr>rg_q := (rg_q s)[(rg_start s + rg_length s) mod ring_size s := x], rg_length := rg_length s + 1,
       rg_accepted := rg_accepted s @ [x]\<rparr>"

definition ring_drop :: "'a ring \<Rightarrow> 'a ring" where
  "ring_drop s = s\<lparr>rg_length := rg_length s - 1, rg_start := (rg_start s + 1) mod ring_size s\<rparr>"

definition set_prod :: "nat \<Rightarrow> 'a producer \<Rightarrow> 'a ring \<Rightarrow> 'a ring" where
  "set_prod p v s = s\<lparr>rg_prod := (rg_prod s)[p := v]\<rparr>"

definition set_cons :: "consumer \<Rightarrow> 'a ring \<Rightarrow> 'a ring" where
  "set_cons c s = s\<lparr>rg_cons := c\<rparr>"

text \<open>The threads that wait on the condition variable.\<close>

definition waiting_producers :: "'a ring \<Rightarrow> nat" where
  "waiting_producers s = length (filter is_PWait (rg_prod s))"

definition no_waiter :: "'a ring \<Rightarrow> bool" where
  "no_waiter s \<longleftrightarrow> rg_cons s \<noteq> CWait \<and> waiting_producers s = 0"

text \<open>\<open>pthread_cond_signal\<close>: one thread that waits goes back to its test; without one nothing happens.\<close>

inductive cond_signal :: "'a ring \<Rightarrow> 'a ring \<Rightarrow> bool" where
  wake_producer: "p < length (rg_prod s) \<Longrightarrow> rg_prod s ! p = PWait x \<Longrightarrow> cond_signal s (set_prod p (PTest x) s)"
| wake_consumer: "rg_cons s = CWait \<Longrightarrow> cond_signal s (set_cons CTest s)"
| wake_none: "no_waiter s \<Longrightarrow> cond_signal s s"

text \<open>\<open>enqueue_rlc_data_req\<close>, \<open>enqueue_pdcp_data_ind\<close>.\<close>

inductive enqueue_step :: "'a ring \<Rightarrow> 'a ring \<Rightarrow> bool" where
  enqueue_call: "p < length (rg_prod s) \<Longrightarrow> rg_prod s ! p = PIdle \<Longrightarrow> enqueue_step s (set_prod p (PTest x) s)"
| enqueue_full: "p < length (rg_prod s) \<Longrightarrow> rg_prod s ! p = PTest x \<Longrightarrow> rg_length s = ring_size s \<Longrightarrow>
    enqueue_step s (set_prod p (PWait x) s)"
| enqueue_put: "p < length (rg_prod s) \<Longrightarrow> rg_prod s ! p = PTest x \<Longrightarrow> rg_length s \<noteq> ring_size s \<Longrightarrow>
    cond_signal (set_prod p PIdle (ring_put x s)) s' \<Longrightarrow> enqueue_step s s'"

text \<open>\<open>rlc_data_req_thread\<close>, \<open>pdcp_data_ind_thread\<close>; the work itself is that of the theories of RLC and PDCP.\<close>

inductive thread_step :: "'a ring \<Rightarrow> 'a ring \<Rightarrow> bool" where
  thread_empty: "rg_cons s = CTest \<Longrightarrow> rg_length s = 0 \<Longrightarrow> thread_step s (set_cons CWait s)"
| thread_take: "rg_cons s = CTest \<Longrightarrow> rg_length s \<noteq> 0 \<Longrightarrow> thread_step s (set_cons (CBusy (rg_start s)) s)"
| thread_work: "rg_cons s = CBusy i \<Longrightarrow> thread_step s (set_cons (CDone i) (s\<lparr>rg_handled := rg_handled s @ [rg_q s ! i]\<rparr>))"
| thread_drop: "rg_cons s = CDone i \<Longrightarrow> cond_signal (set_cons CTest (ring_drop s)) s' \<Longrightarrow> thread_step s s'"

text \<open>A return from the wait that no signal has caused.\<close>

inductive spurious_step :: "'a ring \<Rightarrow> 'a ring \<Rightarrow> bool" where
  spurious_producer: "p < length (rg_prod s) \<Longrightarrow> rg_prod s ! p = PWait x \<Longrightarrow> spurious_step s (set_prod p (PTest x) s)"
| spurious_consumer: "rg_cons s = CWait \<Longrightarrow> spurious_step s (set_cons CTest s)"

inductive ring_step :: "'a ring \<Rightarrow> 'a ring \<Rightarrow> bool" where
  step_enqueue: "enqueue_step s s' \<Longrightarrow> ring_step s s'"
| step_thread: "thread_step s s' \<Longrightarrow> ring_step s s'"
| step_spurious: "spurious_step s s' \<Longrightarrow> ring_step s s'"

definition ring_reachable :: "'a list \<Rightarrow> nat \<Rightarrow> 'a ring \<Rightarrow> bool" where
  "ring_reachable slots n s \<longleftrightarrow> ring_step\<^sup>*\<^sup>* (ring_init slots n) s"

definition RLC_DATA_REQ_QUEUE_SIZE :: nat where "RLC_DATA_REQ_QUEUE_SIZE = 10000"
definition PDCP_DATA_IND_QUEUE_SIZE :: nat where "PDCP_DATA_IND_QUEUE_SIZE = 10000"

end
