(* ===== verification/Pdcp_Queue_Proofs.thy ===== *)
theory Pdcp_Queue_Proofs
  imports Pdcp_Queue
begin

text \<open>
  The queues between the threads are bounded queues first in, first out: no item is lost, handed on twice or
  overwritten while it is worked on, and no wake-up gets lost.
\<close>

section \<open>What is in the ring\<close>

definition ring_items :: "'a ring \<Rightarrow> 'a list" where
  "ring_items s = map (\<lambda>k. rg_q s ! ((rg_start s + k) mod ring_size s)) [0..<rg_length s]"

definition ring_ok :: "'a ring \<Rightarrow> bool" where
  "ring_ok s \<longleftrightarrow> rg_start s < ring_size s \<and> rg_length s \<le> ring_size s \<and>
     (\<exists>d. rg_accepted s = d @ ring_items s \<and>
       (case rg_cons s of
          CBusy i \<Rightarrow> i = rg_start s \<and> rg_length s \<noteq> 0 \<and> rg_handled s = d
        | CDone i \<Rightarrow> i = rg_start s \<and> rg_length s \<noteq> 0 \<and> rg_handled s = d @ [rg_q s ! i]
        | _ \<Rightarrow> rg_handled s = d))"

lemma ring_sel [simp]:
  "rg_q (set_prod p v s) = rg_q s" "rg_start (set_prod p v s) = rg_start s" "rg_length (set_prod p v s) = rg_length s"
  "rg_cons (set_prod p v s) = rg_cons s" "rg_accepted (set_prod p v s) = rg_accepted s" "rg_handled (set_prod p v s) = rg_handled s"
  "rg_prod (set_prod p v s) = (rg_prod s)[p := v]"
  "rg_q (set_cons c s) = rg_q s" "rg_start (set_cons c s) = rg_start s" "rg_length (set_cons c s) = rg_length s"
  "rg_cons (set_cons c s) = c" "rg_accepted (set_cons c s) = rg_accepted s" "rg_handled (set_cons c s) = rg_handled s"
  "rg_prod (set_cons c s) = rg_prod s"
  "rg_start (ring_put x s) = rg_start s" "rg_length (ring_put x s) = rg_length s + 1" "rg_cons (ring_put x s) = rg_cons s"
  "rg_accepted (ring_put x s) = rg_accepted s @ [x]" "rg_handled (ring_put x s) = rg_handled s" "rg_prod (ring_put x s) = rg_prod s"
  "rg_q (ring_put x s) = (rg_q s)[(rg_start s + rg_length s) mod ring_size s := x]"
  "rg_q (ring_drop s) = rg_q s" "rg_start (ring_drop s) = (rg_start s + 1) mod ring_size s" "rg_length (ring_drop s) = rg_length s - 1"
  "rg_accepted (ring_drop s) = rg_accepted s" "rg_handled (ring_drop s) = rg_handled s" "rg_prod (ring_drop s) = rg_prod s"
  "ring_size (set_prod p v s) = ring_size s" "ring_size (set_cons c s) = ring_size s" "ring_size (ring_put x s) = ring_size s"
  "ring_size (ring_drop s) = ring_size s" "ring_size (s\<lparr>rg_handled := h\<rparr>) = ring_size s"
  by (simp_all add: set_prod_def set_cons_def ring_put_def ring_drop_def ring_size_def)

lemma ring_items_cong:
  "rg_q s' = rg_q s \<Longrightarrow> rg_start s' = rg_start s \<Longrightarrow> rg_length s' = rg_length s \<Longrightarrow> ring_items s' = ring_items s"
  by (simp add: ring_items_def ring_size_def)

lemma ring_slots_differ:
  assumes "k < l" "l < n"
  shows "(a + k) mod n \<noteq> (a + l) mod (n :: nat)"
proof
  assume "(a + k) mod n = (a + l) mod n"
  then have "n dvd (a + l) - (a + k)" using assms(1) by (metis add_left_mono less_imp_le mod_eq_dvd_iff_nat)
  then have "n dvd l - k" by simp
  then show False using assms by (simp add: nat_dvd_not_less)
qed

lemma ring_items_put:
  assumes "rg_start s < ring_size s" "rg_length s < ring_size s"
  shows "ring_items (ring_put x s) = ring_items s @ [x]"
proof -
  let ?n = "ring_size s" and ?e = "(rg_start s + rg_length s) mod ring_size s"
  have other: "?e \<noteq> (rg_start s + k) mod ?n" if "k < rg_length s" for k
    using ring_slots_differ [OF that assms(2)] by (rule not_sym)
  have "?e < length (rg_q s)" using assms mod_less_divisor [of "length (rg_q s)"] unfolding ring_size_def by (metis gr_implies_not0 neq0_conv)
  then show ?thesis using other by (simp add: ring_items_def)
qed

lemma ring_items_drop:
  assumes "rg_start s < ring_size s" "rg_length s \<noteq> 0"
  shows "ring_items s = rg_q s ! rg_start s # ring_items (ring_drop s)"
proof -
  obtain n where n: "rg_length s = Suc n" using assms(2) by (cases "rg_length s") auto
  have "(Suc (rg_start s) mod ring_size s + k) mod ring_size s = (rg_start s + Suc k) mod ring_size s" for k
    by (simp add: mod_add_left_eq)
  then show ?thesis using assms(1) by (simp add: ring_items_def n upt_conv_Cons map_Suc_upt [symmetric] del: upt_Suc)
qed

text \<open>A signal changes neither the ring nor the history.\<close>

lemma ring_ok_cong:
  assumes "ring_ok s" "rg_q s' = rg_q s" "rg_start s' = rg_start s" "rg_length s' = rg_length s"
    "rg_accepted s' = rg_accepted s" "rg_handled s' = rg_handled s" "rg_cons s' = rg_cons s \<or> rg_cons s = CWait \<and> rg_cons s' = CTest"
  shows "ring_ok s'"
proof -
  have "ring_items s' = ring_items s" using assms(2-4) by (rule ring_items_cong)
  moreover have "ring_size s' = ring_size s" using assms(2) by (simp add: ring_size_def)
  ultimately show ?thesis using assms by (auto simp: ring_ok_def split: consumer.splits)
qed

lemma cond_signal_ok: "cond_signal s s' \<Longrightarrow> ring_ok s \<Longrightarrow> ring_ok s'"
  by (erule cond_signal.cases) (auto elim: ring_ok_cong)

lemma ring_put_ok:
  assumes "ring_ok s" "rg_length s \<noteq> ring_size s"
  shows "ring_ok (ring_put x s)"
proof -
  have r: "rg_start s < ring_size s" "rg_length s < ring_size s" using assms by (auto simp: ring_ok_def)
  have other: "(rg_start s + rg_length s) mod ring_size s \<noteq> rg_start s" if "rg_length s \<noteq> 0"
    using ring_slots_differ [of 0 "rg_length s" "ring_size s" "rg_start s"] that r by simp
  obtain d where d: "rg_accepted s = d @ ring_items s" and h: "case rg_cons s of
          CBusy i \<Rightarrow> i = rg_start s \<and> rg_length s \<noteq> 0 \<and> rg_handled s = d
        | CDone i \<Rightarrow> i = rg_start s \<and> rg_length s \<noteq> 0 \<and> rg_handled s = d @ [rg_q s ! i]
        | _ \<Rightarrow> rg_handled s = d" using assms(1) unfolding ring_ok_def by blast
  from r d h other show ?thesis
    unfolding ring_ok_def by (intro conjI exI [of _ d]) (auto simp: ring_items_put split: consumer.splits)
qed

lemma ring_drop_ok:
  assumes "ring_ok s" "rg_cons s = CDone i"
  shows "ring_ok (set_cons CTest (ring_drop s))"
proof -
  obtain d where d: "rg_accepted s = d @ ring_items s" "i = rg_start s" "rg_length s \<noteq> 0" "rg_handled s = d @ [rg_q s ! i]"
    using assms by (auto simp: ring_ok_def)
  have r: "rg_start s < ring_size s" "rg_length s \<le> ring_size s" using assms(1) by (auto simp: ring_ok_def)
  have i: "ring_items (set_cons CTest (ring_drop s)) = ring_items (ring_drop s)" by (rule ring_items_cong) simp_all
  have "0 < ring_size s" using r(1) by simp
  then show ?thesis
    using d r ring_items_drop [OF r(1) d(3)]
    unfolding ring_ok_def i by (intro conjI exI [of _ "d @ [rg_q s ! i]"]) auto
qed

lemma enqueue_step_ok:
  assumes "enqueue_step s s'" "ring_ok s"
  shows "ring_ok s'"
  using assms(1)
proof cases
  case (enqueue_put p x)
  have "ring_ok (set_prod p PIdle (ring_put x s))"
    by (rule ring_ok_cong [OF ring_put_ok [OF assms(2) enqueue_put(3)]]) simp_all
  then show ?thesis by (rule cond_signal_ok [OF enqueue_put(4)])
qed (auto intro: ring_ok_cong [OF assms(2)])

lemma thread_step_ok:
  assumes "thread_step s s'" "ring_ok s"
  shows "ring_ok s'"
  using assms(1)
proof cases
  case (thread_drop i)
  show ?thesis by (rule cond_signal_ok [OF thread_drop(2) ring_drop_ok [OF assms(2) thread_drop(1)]])
qed (use assms(2) in \<open>auto simp: ring_ok_def ring_items_def ring_size_def set_cons_def\<close>)

lemma spurious_step_ok: "spurious_step s s' \<Longrightarrow> ring_ok s \<Longrightarrow> ring_ok s'"
  by (erule spurious_step.cases) (auto elim: ring_ok_cong)

lemma ring_step_ok: "ring_step s s' \<Longrightarrow> ring_ok s \<Longrightarrow> ring_ok s'"
  by (erule ring_step.cases) (auto intro: enqueue_step_ok thread_step_ok spurious_step_ok)

lemma ring_init_ok: "slots \<noteq> [] \<Longrightarrow> ring_ok (ring_init slots n)"
  by (simp add: ring_ok_def ring_init_def ring_size_def ring_items_def)

lemma ring_reachable_ok:
  assumes "ring_reachable slots n s" "slots \<noteq> []"
  shows "ring_ok s"
proof -
  from assms(1) have "ring_step\<^sup>*\<^sup>* (ring_init slots n) s" by (simp add: ring_reachable_def)
  then show ?thesis by (induction rule: rtranclp_induct) (use assms(2) in \<open>auto intro: ring_init_ok ring_step_ok\<close>)
qed

section \<open>First in, first out\<close>

text \<open>A bounded queue: what waits in it, and what it has handed on.\<close>

inductive fifo_step :: "nat \<Rightarrow> 'a list \<times> 'a list \<Rightarrow> 'a list \<times> 'a list \<Rightarrow> bool" where
  fifo_put: "length w < n \<Longrightarrow> fifo_step n (w, h) (w @ [x], h)"
| fifo_serve: "fifo_step n (x # w, h) (w, h @ [x])"

definition fifo_abs :: "'a ring \<Rightarrow> 'a list \<times> 'a list" where
  "fifo_abs s = (drop (length (rg_handled s)) (rg_accepted s), rg_handled s)"

lemma ring_items_length [simp]: "length (ring_items s) = rg_length s"
  by (simp add: ring_items_def)

lemma ring_ok_handled:
  assumes "ring_ok s"
  shows "\<exists>w. rg_accepted s = rg_handled s @ w \<and> length w \<le> rg_length s \<and>
    (rg_cons s = CTest \<or> rg_cons s = CWait \<longrightarrow> w = ring_items s) \<and>
    (\<forall>i. rg_cons s = CBusy i \<longrightarrow> w = ring_items s \<and> i = rg_start s \<and> rg_length s \<noteq> 0)"
proof -
  obtain d where d: "rg_accepted s = d @ ring_items s" and h: "case rg_cons s of
          CBusy i \<Rightarrow> i = rg_start s \<and> rg_length s \<noteq> 0 \<and> rg_handled s = d
        | CDone i \<Rightarrow> i = rg_start s \<and> rg_length s \<noteq> 0 \<and> rg_handled s = d @ [rg_q s ! i]
        | _ \<Rightarrow> rg_handled s = d" and r: "rg_start s < ring_size s" using assms unfolding ring_ok_def by blast
  show ?thesis
  proof (cases "\<exists>i. rg_cons s = CDone i")
    case True
    with d h ring_items_drop [OF r] show ?thesis by (intro exI [of _ "ring_items (ring_drop s)"]) auto
  next
    case False
    with d h show ?thesis by (intro exI [of _ "ring_items s"]) (auto split: consumer.splits)
  qed
qed

lemma fifo_abs_eq: "rg_accepted s' = rg_accepted s \<Longrightarrow> rg_handled s' = rg_handled s \<Longrightarrow> fifo_abs s' = fifo_abs s"
  by (simp add: fifo_abs_def)

lemma cond_signal_history: "cond_signal s s' \<Longrightarrow> rg_accepted s' = rg_accepted s \<and> rg_handled s' = rg_handled s"
  by (erule cond_signal.cases) auto

lemma enqueue_step_fifo:
  assumes "enqueue_step s s'" "ring_ok s"
  shows "fifo_abs s' = fifo_abs s \<or> fifo_step (ring_size s) (fifo_abs s) (fifo_abs s')"
  using assms(1)
proof cases
  case (enqueue_put p x)
  obtain w where w: "rg_accepted s = rg_handled s @ w" "length w \<le> rg_length s" using ring_ok_handled [OF assms(2)] by blast
  have "rg_length s \<le> ring_size s" using assms(2) by (simp add: ring_ok_def)
  with w(2) enqueue_put(3) have "length w < ring_size s" by simp
  then have "fifo_step (ring_size s) (w, rg_handled s) (w @ [x], rg_handled s)" by (rule fifo_put)
  moreover have "fifo_abs s' = (w @ [x], rg_handled s)" using cond_signal_history [OF enqueue_put(4)] w(1) by (simp add: fifo_abs_def)
  moreover have "fifo_abs s = (w, rg_handled s)" using w(1) by (simp add: fifo_abs_def)
  ultimately show ?thesis by simp
qed (auto intro: fifo_abs_eq)

lemma thread_step_fifo:
  assumes "thread_step s s'" "ring_ok s"
  shows "fifo_abs s' = fifo_abs s \<or> fifo_step (ring_size s) (fifo_abs s) (fifo_abs s')"
  using assms(1)
proof cases
  case (thread_work i)
  have r: "rg_start s < ring_size s" using assms(2) by (simp add: ring_ok_def)
  obtain w where w: "rg_accepted s = rg_handled s @ w" "w = ring_items s" "i = rg_start s" "rg_length s \<noteq> 0"
    using ring_ok_handled [OF assms(2)] thread_work(2) by blast
  have "w = rg_q s ! i # ring_items (ring_drop s)" using w ring_items_drop [OF r] by simp
  then show ?thesis using w(1) thread_work(1) by (auto simp: fifo_abs_def intro: fifo_serve)
next
  case (thread_drop i)
  then show ?thesis using cond_signal_history [OF thread_drop(2)] by (auto intro: fifo_abs_eq)
qed (auto intro: fifo_abs_eq)

lemma spurious_step_fifo: "spurious_step s s' \<Longrightarrow> fifo_abs s' = fifo_abs s"
  by (erule spurious_step.cases) (auto intro: fifo_abs_eq)

lemma ring_step_fifo: "ring_step s s' \<Longrightarrow> ring_ok s \<Longrightarrow> fifo_abs s' = fifo_abs s \<or> fifo_step (ring_size s) (fifo_abs s) (fifo_abs s')"
  by (erule ring_step.cases) (auto dest: enqueue_step_fifo thread_step_fifo spurious_step_fifo)

section \<open>Wake-ups\<close>

lemma length_filter_update:
  "i < length xs \<Longrightarrow> length (filter P (xs[i := v])) + (if P (xs ! i) then 1 else 0) = length (filter P xs) + (if P v then 1 else 0)"
proof (induction xs arbitrary: i)
  case (Cons a xs)
  then show ?case by (cases i) auto
qed simp

text \<open>
  With \<open>n\<close> threads that put items in, no more than that many slots have been freed since one of those
  that still wait has found the ring full; the working thread waits on an empty ring only.
\<close>

definition wake_ok :: "nat \<Rightarrow> 'a ring \<Rightarrow> bool" where
  "wake_ok n s \<longleftrightarrow> length (rg_prod s) = n \<and> (rg_cons s = CWait \<longrightarrow> rg_length s = 0) \<and>
     (waiting_producers s \<noteq> 0 \<longrightarrow> ring_size s + waiting_producers s \<le> rg_length s + n)"

lemma waiting_sel [simp]:
  "waiting_producers (set_cons c s) = waiting_producers s" "waiting_producers (ring_put x s) = waiting_producers s"
  "waiting_producers (ring_drop s) = waiting_producers s" "waiting_producers (s\<lparr>rg_handled := h\<rparr>) = waiting_producers s"
  by (simp_all add: waiting_producers_def)

lemma waiting_set_prod:
  "p < length (rg_prod s) \<Longrightarrow> waiting_producers (set_prod p v s) + (if is_PWait (rg_prod s ! p) then 1 else 0) =
     waiting_producers s + (if is_PWait v then 1 else 0)"
  by (simp add: waiting_producers_def length_filter_update)

lemma waiting_le: "waiting_producers s \<le> length (rg_prod s)"
  by (simp add: waiting_producers_def)

text \<open>After a change of the length by one, a signal brings the bound back.\<close>

lemma cond_signal_wake:
  assumes "cond_signal t s" "length (rg_prod t) = n" "rg_cons t = CWait \<longrightarrow> waiting_producers t = 0"
    "waiting_producers t \<noteq> 0 \<longrightarrow> ring_size t + waiting_producers t \<le> rg_length t + n + 1"
  shows "wake_ok n s"
  using assms(1)
proof cases
  case (wake_producer p x)
  have w: "waiting_producers s + 1 = waiting_producers t" using waiting_set_prod [of p t "PTest x"] wake_producer by simp
  then have "rg_cons t \<noteq> CWait" using assms(3) by auto
  with w assms(2,4) wake_producer(1) show ?thesis by (auto simp: wake_ok_def)
next
  case wake_consumer
  then show ?thesis using assms(2,3) by (simp add: wake_ok_def)
next
  case wake_none
  then show ?thesis using assms(2) by (simp add: wake_ok_def no_waiter_def)
qed

lemma enqueue_step_wake:
  assumes "enqueue_step s s'" "wake_ok n s" "n < ring_size s"
  shows "wake_ok n s'"
  using assms(1)
proof cases
  case (enqueue_call p x)
  then show ?thesis using assms(2) waiting_set_prod [of p s "PTest x"] by (auto simp: wake_ok_def)
next
  case (enqueue_full p x)
  have w: "waiting_producers s' = waiting_producers s + 1" using waiting_set_prod [of p s "PWait x"] enqueue_full by simp
  have "waiting_producers s' \<le> n" using waiting_le [of s'] assms(2) enqueue_full(1) by (simp add: wake_ok_def)
  then show ?thesis using w assms(2,3) enqueue_full by (auto simp: wake_ok_def)
next
  case (enqueue_put p x)
  let ?t = "set_prod p PIdle (ring_put x s)"
  have w: "waiting_producers ?t = waiting_producers s" using waiting_set_prod [of p "ring_put x s" PIdle] enqueue_put by simp
  show ?thesis by (rule cond_signal_wake [OF enqueue_put(4)]) (use assms(2,3) w in \<open>auto simp: wake_ok_def\<close>)
qed

lemma thread_step_wake:
  assumes "thread_step s s'" "wake_ok n s"
  shows "wake_ok n s'"
  using assms(1)
proof cases
  case (thread_drop i)
  show ?thesis by (rule cond_signal_wake [OF thread_drop(2)]) (use assms(2) in \<open>auto simp: wake_ok_def\<close>)
qed (use assms(2) in \<open>auto simp: wake_ok_def\<close>)

lemma spurious_step_wake:
  assumes "spurious_step s s'" "wake_ok n s"
  shows "wake_ok n s'"
  using assms(1)
proof cases
  case (spurious_producer p x)
  then show ?thesis using assms(2) waiting_set_prod [of p s "PTest x"] by (auto simp: wake_ok_def)
qed (use assms(2) in \<open>auto simp: wake_ok_def\<close>)

lemma cond_signal_size: "cond_signal s s' \<Longrightarrow> ring_size s' = ring_size s"
  by (erule cond_signal.cases) auto

lemma ring_step_size: "ring_step s s' \<Longrightarrow> ring_size s' = ring_size s"
  by (auto elim!: ring_step.cases enqueue_step.cases thread_step.cases spurious_step.cases dest: cond_signal_size)

lemma ring_step_wake: "ring_step s s' \<Longrightarrow> wake_ok n s \<Longrightarrow> n < ring_size s \<Longrightarrow> wake_ok n s'"
  by (auto elim!: ring_step.cases intro: enqueue_step_wake thread_step_wake spurious_step_wake)

lemma ring_reachable_wake:
  assumes "ring_reachable slots n s" "n < length slots"
  shows "wake_ok n s \<and> ring_size s = length slots"
proof -
  from assms(1) have "ring_step\<^sup>*\<^sup>* (ring_init slots n) s" by (simp add: ring_reachable_def)
  then show ?thesis
  proof (induction rule: rtranclp_induct)
    case base
    then show ?case by (simp add: wake_ok_def ring_init_def waiting_producers_def ring_size_def)
  next
    case (step t u)
    then show ?case using assms(2) ring_step_wake [of t u n] ring_step_size [OF step(2)] by simp
  qed
qed

lemma cond_signal_total: "\<exists>s'. cond_signal s s'"
proof (cases "rg_cons s = CWait")
  case True
  then show ?thesis by (auto intro: wake_consumer)
next
  case c: False
  show ?thesis
  proof (cases "waiting_producers s = 0")
    case True
    with c show ?thesis by (intro exI [of _ s] wake_none) (simp add: no_waiter_def)
  next
    case False
    then obtain v where "v \<in> set (rg_prod s)" "is_PWait v" by (auto simp: waiting_producers_def filter_empty_conv)
    then obtain p x where "p < length (rg_prod s)" "rg_prod s ! p = PWait x" by (auto simp: in_set_conv_nth is_PWait_def)
    then show ?thesis by (auto intro: wake_producer)
  qed
qed

text \<open>The working thread, left alone, empties the ring.\<close>

lemma thread_drops:
  assumes "ring_ok s" "rg_cons s = CDone i"
  shows "\<exists>s'. thread_step s s' \<and> ring_ok s' \<and> rg_cons s' = CTest \<and> rg_length s' = rg_length s - 1 \<and> rg_accepted s' = rg_accepted s"
proof -
  obtain s' where s': "cond_signal (set_cons CTest (ring_drop s)) s'" using cond_signal_total by blast
  have st: "thread_step s s'" by (rule thread_drop [OF assms(2) s'])
  have "rg_cons s' = CTest" "rg_length s' = rg_length s - 1" using s' by (cases; simp)+
  with st thread_step_ok [OF st assms(1)] cond_signal_history [OF s'] show ?thesis by auto
qed

lemma thread_works:
  assumes "ring_ok s" "rg_cons s = CBusy i"
  shows "\<exists>s'. thread_step\<^sup>*\<^sup>* s s' \<and> ring_ok s' \<and> rg_cons s' = CTest \<and> rg_length s' = rg_length s - 1 \<and> rg_accepted s' = rg_accepted s"
proof -
  let ?t = "set_cons (CDone i) (s\<lparr>rg_handled := rg_handled s @ [rg_q s ! i]\<rparr>)"
  have st: "thread_step s ?t" using assms(2) by (rule thread_work)
  obtain s' where "thread_step ?t s'" "ring_ok s'" "rg_cons s' = CTest" "rg_length s' = rg_length ?t - 1" "rg_accepted s' = rg_accepted ?t"
    using thread_drops [OF thread_step_ok [OF st assms(1)], of i] by auto
  with st show ?thesis by (intro exI [of _ s']) (auto intro: rtranclp.rtrancl_into_rtrancl)
qed

lemma thread_empties:
  "ring_ok s \<Longrightarrow> rg_cons s = CTest \<Longrightarrow> \<exists>s'. thread_step\<^sup>*\<^sup>* s s' \<and> rg_accepted s' = rg_accepted s \<and> rg_handled s' = rg_accepted s"
proof (induction "rg_length s" arbitrary: s)
  case 0
  then show ?case using ring_ok_handled [OF "0.prems"(1)] by (intro exI [of _ s]) auto
next
  case (Suc n)
  let ?t = "set_cons (CBusy (rg_start s)) s"
  have st: "thread_step s ?t" using Suc by (intro thread_take) simp_all
  obtain t' where t': "thread_step\<^sup>*\<^sup>* ?t t'" "ring_ok t'" "rg_cons t' = CTest" "rg_length t' = rg_length ?t - 1" "rg_accepted t' = rg_accepted ?t"
    using thread_works [OF thread_step_ok [OF st Suc.prems(1)], of "rg_start s"] by auto
  have "n = rg_length t'" using Suc.hyps(2) t'(4) by simp
  from Suc.hyps(1) [OF this] t' obtain s' where
    "thread_step\<^sup>*\<^sup>* t' s'" "rg_accepted s' = rg_accepted t'" "rg_handled s' = rg_accepted t'" by auto
  with st t'(1,5) show ?case by (intro exI [of _ s']) (auto intro: rtranclp_trans converse_rtranclp_into_rtranclp)
qed

lemma queue_drained:
  assumes "ring_ok s" "wake_ok n s"
  shows "\<exists>s'. thread_step\<^sup>*\<^sup>* s s' \<and> rg_accepted s' = rg_accepted s \<and> rg_handled s' = rg_accepted s"
proof (cases "rg_cons s")
  case CTest
  then show ?thesis by (rule thread_empties [OF assms(1)])
next
  case CWait
  have "ring_items s = []" using assms(2) CWait by (simp add: wake_ok_def ring_items_def)
  then show ?thesis using ring_ok_handled [OF assms(1)] CWait by (intro exI [of _ s]) auto
next
  case (CBusy i)
  from thread_works [OF assms(1) CBusy] obtain t where t: "thread_step\<^sup>*\<^sup>* s t" "ring_ok t" "rg_cons t = CTest" "rg_accepted t = rg_accepted s" by blast
  with thread_empties [OF t(2,3)] show ?thesis by (metis rtranclp_trans)
next
  case (CDone i)
  from thread_drops [OF assms(1) CDone] obtain t where t: "thread_step s t" "ring_ok t" "rg_cons t = CTest" "rg_accepted t = rg_accepted s" by blast
  with thread_empties [OF t(2,3)] show ?thesis by (metis converse_rtranclp_into_rtranclp)
qed

section \<open>Properties\<close>

text \<open>
  Property C15. The ring between the threads is a bounded queue: every step of any thread either leaves the queue it
  stands for as it is, or puts one item behind the others while there is room, or hands the oldest one on.
  So the work is done on every item once, in the order the items were put in.
\<close>

theorem queue_refines_fifo:
  assumes "ring_reachable slots n s" "slots \<noteq> []" "ring_step s s'"
  shows "fifo_abs s' = fifo_abs s \<or> fifo_step (ring_size s) (fifo_abs s) (fifo_abs s')"
  using ring_step_fifo [OF assms(3) ring_reachable_ok [OF assms(1,2)]] .

text \<open>
  Property C16. No wake-up is lost, although the two ends of a ring wait on one condition variable and a signal wakes one
  thread: as long as fewer threads put items in than there are slots, the working thread is never left
  waiting with work in the ring. From every state it can reach, its own steps alone, without a wake-up that
  no signal has caused, hand on every item that was put in.
\<close>

theorem queue_drains:
  assumes "ring_reachable slots n s" "length slots \<in> {RLC_DATA_REQ_QUEUE_SIZE, PDCP_DATA_IND_QUEUE_SIZE}" "n < length slots"
  shows "\<exists>s'. thread_step\<^sup>*\<^sup>* s s' \<and> rg_accepted s' = rg_accepted s \<and> rg_handled s' = rg_accepted s"
proof -
  have "slots \<noteq> []" using assms(3) by auto
  with assms(3) show ?thesis using queue_drained ring_reachable_ok [OF assms(1)] ring_reachable_wake [OF assms(1)] by blast
qed

text \<open>
  The working thread reads its slot after it has left the mutex; until it takes the mutex again, whatever
  the other threads do, the slot keeps the item.
\<close>

theorem queue_slot_stable:
  assumes "ring_reachable slots n s" "slots \<noteq> []" "rg_cons s = CBusy i" "enqueue_step s s'"
  shows "rg_q s' ! i = rg_q s ! i \<and> rg_cons s' = CBusy i"
proof -
  have ok: "ring_ok s" by (rule ring_reachable_ok [OF assms(1,2)])
  then have i: "i = rg_start s" "rg_length s \<noteq> 0" "rg_length s \<le> ring_size s" "rg_start s < ring_size s"
    using assms(3) by (auto simp: ring_ok_def)
  from assms(4) show ?thesis
  proof cases
    case (enqueue_put p x)
    have "(rg_start s + rg_length s) mod ring_size s \<noteq> (rg_start s + 0) mod ring_size s"
      using ring_slots_differ [of 0 "rg_length s" "ring_size s" "rg_start s"] i enqueue_put(3) by simp
    then have "(rg_q s)[(rg_start s + rg_length s) mod ring_size s := x] ! i = rg_q s ! i" using i by simp
    with enqueue_put(4) assms(3) show ?thesis by cases auto
  qed (use assms(3) in auto)
qed

section \<open>Witnesses\<close>

text \<open>One thread has put one item in the ring, and the working thread is at work on it.\<close>

definition busy_ring :: "nat ring" where
  "busy_ring = \<lparr>rg_q = (replicate RLC_DATA_REQ_QUEUE_SIZE 0)[0 := 5], rg_start = 0, rg_length = 1, rg_prod = [PIdle],
     rg_cons = CBusy 0, rg_accepted = [5], rg_handled = []\<rparr>"

lemma busy_ring_reachable: "ring_reachable (replicate RLC_DATA_REQ_QUEUE_SIZE 0) 1 busy_ring"
proof -
  let ?s0 = "ring_init (replicate RLC_DATA_REQ_QUEUE_SIZE 0) 1 :: nat ring"
  let ?s1 = "set_prod 0 (PTest 5) ?s0"
  let ?s2 = "set_prod 0 PIdle (ring_put 5 ?s1)"
  have 1: "ring_step ?s0 ?s1" by (rule step_enqueue, rule enqueue_call) (simp_all add: ring_init_def)
  have "cond_signal ?s2 ?s2" by (rule wake_none) (simp add: no_waiter_def waiting_producers_def ring_init_def)
  then have "enqueue_step ?s1 ?s2"
    by (intro enqueue_put [of 0]) (simp_all add: ring_init_def ring_size_def set_prod_def RLC_DATA_REQ_QUEUE_SIZE_def)
  then have 2: "ring_step ?s1 ?s2" by (rule step_enqueue)
  have 3: "ring_step ?s2 (set_cons (CBusy (rg_start ?s2)) ?s2)"
    by (rule step_thread, rule thread_take) (simp_all add: ring_init_def)
  have "set_cons (CBusy (rg_start ?s2)) ?s2 = busy_ring"
    by (simp add: set_cons_def set_prod_def ring_put_def ring_init_def busy_ring_def ring_size_def)
  with 1 2 3 show ?thesis unfolding ring_reachable_def by (metis rtranclp.rtrancl_refl rtranclp.rtrancl_into_rtrancl)
qed

lemma rlc_slots [simp]: "replicate RLC_DATA_REQ_QUEUE_SIZE x \<noteq> []"
  by (simp add: RLC_DATA_REQ_QUEUE_SIZE_def)

theorem queue_refines_fifo_witness:
  "fifo_abs (set_prod 0 (PTest 6) busy_ring) = fifo_abs busy_ring \<or>
   fifo_step (ring_size busy_ring) (fifo_abs busy_ring) (fifo_abs (set_prod 0 (PTest 6) busy_ring))"
  by (rule queue_refines_fifo [OF busy_ring_reachable rlc_slots]) (rule step_enqueue, rule enqueue_call, simp_all add: busy_ring_def)

theorem queue_drains_witness:
  "\<exists>s'. thread_step\<^sup>*\<^sup>* busy_ring s' \<and> rg_accepted s' = rg_accepted busy_ring \<and> rg_handled s' = rg_accepted busy_ring"
  by (rule queue_drains [OF busy_ring_reachable]) (simp_all add: RLC_DATA_REQ_QUEUE_SIZE_def)

theorem queue_slot_stable_witness:
  "rg_q (set_prod 0 (PTest 6) busy_ring) ! 0 = rg_q busy_ring ! 0 \<and> rg_cons (set_prod 0 (PTest 6) busy_ring) = CBusy 0"
  by (rule queue_slot_stable [OF busy_ring_reachable rlc_slots]) (simp add: busy_ring_def, rule enqueue_call, simp_all add: busy_ring_def)

end
