(* ===== verification/Pdcp_Ue.thy ===== *)
theory Pdcp_Ue
  imports Pdcp_Entity Ue_Table
begin

text \<open>
  The manager of the UEs of PDCP (\<open>nr_pdcp_ue_manager.c\<close>) and the tables that decode its configuration
  (\<open>asn1_utils.c\<close>). The mutex of this manager is recursive: the model counts how often the thread that
  runs holds it.
\<close>

section \<open>Configuration values\<close>

definition decode_t_reordering :: "int \<Rightarrow> int result" where
  "decode_t_reordering v =
     (if v < 0 \<or> v > 35 then Inl Exit
      else Inr ([0, 1, 2, 4, 5, 8, 10, 15, 20, 30, 40, 50, 60, 80, 100, 120, 140, 160,
                 180, 200, 220, 240, 260, 280, 300, 500, 750, 1000, 1250, 1500, 1750, 2000, 2250, 2500, 2750, 3000] ! nat v))"

definition decode_sn_size_ul :: "int \<Rightarrow> nat result" where
  "decode_sn_size_ul s = (if s = 0 then Inr SHORT_SN_SIZE else if s = 1 then Inr LONG_SN_SIZE else Inl Exit)"

definition decode_sn_size_dl :: "int \<Rightarrow> nat result" where
  "decode_sn_size_dl s = (if s = 0 then Inr SHORT_SN_SIZE else if s = 1 then Inr LONG_SN_SIZE else Inl Exit)"

definition decode_discard_timer :: "int \<Rightarrow> int result" where
  "decode_discard_timer v =
     (if v < 0 \<or> v > 15 then Inl Exit
      else Inr ([10, 20, 30, 40, 50, 60, 75, 100, 150, 200, 250, 300, 500, 750, 1500, - 1] ! nat v))"

section \<open>The entities of a UE\<close>

record nr_pdcp_ue =
  pu_ue_id :: int
  pu_srb :: "nr_pdcp_entity option list"
  pu_drb :: "nr_pdcp_entity option list"

definition nr_pdcp_ue_zero :: "int \<Rightarrow> nr_pdcp_ue" where
  "nr_pdcp_ue_zero i = \<lparr>pu_ue_id = i, pu_srb = replicate 3 None, pu_drb = replicate MAX_DRBS_PER_UE None\<rparr>"

text \<open>A pointer to an entity of a UE is its place in one of the two arrays.\<close>

datatype pdcp_slot = PdcpSrb nat | PdcpDrb nat

fun slot_pdcp :: "nr_pdcp_ue \<Rightarrow> pdcp_slot \<Rightarrow> nr_pdcp_entity option" where
  "slot_pdcp ue (PdcpSrb i) = pu_srb ue ! i"
| "slot_pdcp ue (PdcpDrb i) = pu_drb ue ! i"

fun set_pdcp_slot :: "pdcp_slot \<Rightarrow> nr_pdcp_entity option \<Rightarrow> nr_pdcp_ue \<Rightarrow> nr_pdcp_ue" where
  "set_pdcp_slot (PdcpSrb i) e ue = ue\<lparr>pu_srb := (pu_srb ue)[i := e]\<rparr>"
| "set_pdcp_slot (PdcpDrb i) e ue = ue\<lparr>pu_drb := (pu_drb ue)[i := e]\<rparr>"

text \<open>\<open>None\<close> is the null pointer.\<close>

definition nr_pdcp_get_rb :: "nr_pdcp_ue \<Rightarrow> int \<Rightarrow> bool \<Rightarrow> pdcp_slot option" where
  "nr_pdcp_get_rb ue rb_id srb_flag =
     (if srb_flag
      then (if rb_id < 1 \<or> rb_id > 2 then None
            else if pu_srb ue ! nat (rb_id - 1) = None then None else Some (PdcpSrb (nat (rb_id - 1))))
      else (if rb_id < 1 \<or> rb_id > int MAX_DRBS_PER_UE then None
            else if pu_drb ue ! nat (rb_id - 1) = None then None else Some (PdcpDrb (nat (rb_id - 1)))))"

definition nr_pdcp_ue_add_srb_pdcp_entity :: "nr_pdcp_ue \<Rightarrow> int \<Rightarrow> nr_pdcp_entity \<Rightarrow> nr_pdcp_ue result" where
  "nr_pdcp_ue_add_srb_pdcp_entity ue srb_id entity =
     (if srb_id < 1 \<or> srb_id > 2 then Inl Exit
      else if pu_srb ue ! nat (srb_id - 1) \<noteq> None then Inl Exit
      else Inr (ue\<lparr>pu_srb := (pu_srb ue)[nat (srb_id - 1) := Some entity]\<rparr>))"

definition nr_pdcp_ue_add_drb_pdcp_entity :: "nr_pdcp_ue \<Rightarrow> int \<Rightarrow> nr_pdcp_entity \<Rightarrow> nr_pdcp_ue result" where
  "nr_pdcp_ue_add_drb_pdcp_entity ue drb_id entity =
     (if drb_id < 1 \<or> drb_id > 5 then Inl Exit
      else if pu_drb ue ! nat (drb_id - 1) \<noteq> None then Inl Exit
      else Inr (ue\<lparr>pu_drb := (pu_drb ue)[nat (drb_id - 1) := Some entity]\<rparr>))"

section \<open>The manager\<close>

record nr_pdcp_ue_manager =
  pm_lock :: nat
  pm_ue_list :: "nr_pdcp_ue list"
  pm_enb_flag :: int

definition new_nr_pdcp_ue_manager :: "int \<Rightarrow> nr_pdcp_ue_manager" where
  "new_nr_pdcp_ue_manager enb_flag = \<lparr>pm_lock = 0, pm_ue_list = [], pm_enb_flag = enb_flag\<rparr>"

definition nr_pdcp_manager_get_enb_flag :: "nr_pdcp_ue_manager \<Rightarrow> int" where
  "nr_pdcp_manager_get_enb_flag m = pm_enb_flag m"

definition nr_pdcp_manager_lock :: "nr_pdcp_ue_manager \<Rightarrow> nr_pdcp_ue_manager" where
  "nr_pdcp_manager_lock m = m\<lparr>pm_lock := pm_lock m + 1\<rparr>"

text \<open>Unlocking a mutex that the thread does not hold is an error, on which the code ends the process.\<close>

definition nr_pdcp_manager_unlock :: "nr_pdcp_ue_manager \<Rightarrow> nr_pdcp_ue_manager result" where
  "nr_pdcp_manager_unlock m = (if pm_lock m = 0 then Inl Exit else Inr (m\<lparr>pm_lock := pm_lock m - 1\<rparr>))"

definition nr_pdcp_manager_get_ue :: "nr_pdcp_ue_manager \<Rightarrow> int \<Rightarrow> nat \<times> nr_pdcp_ue_manager" where
  "nr_pdcp_manager_get_ue m i =
     (case ue_get pu_ue_id nr_pdcp_ue_zero i (pm_ue_list m) of (k, l) \<Rightarrow> (k, m\<lparr>pm_ue_list := l\<rparr>))"

definition put_pdcp_ue :: "nat \<Rightarrow> nr_pdcp_ue \<Rightarrow> nr_pdcp_ue_manager \<Rightarrow> nr_pdcp_ue_manager" where
  "put_pdcp_ue k ue m = m\<lparr>pm_ue_list := (pm_ue_list m)[k := ue]\<rparr>"

text \<open>
  The entities of the first two signalling and the first five data bearers are freed with the UE; to free an
  entity never fails.
\<close>

definition nr_pdcp_manager_remove_ue :: "nr_pdcp_ue_manager \<Rightarrow> int \<Rightarrow> nr_pdcp_ue_manager result" where
  "nr_pdcp_manager_remove_ue m i =
     (case ue_index pu_ue_id i (pm_ue_list m) of
        None \<Rightarrow> Inr m
      | Some k \<Rightarrow> Inr (m\<lparr>pm_ue_list := ue_drop k (pm_ue_list m)\<rparr>))"

definition nr_pdcp_manager_get_ue_list :: "nr_pdcp_ue_manager \<Rightarrow> nr_pdcp_ue list" where
  "nr_pdcp_manager_get_ue_list m = pm_ue_list m"

definition nr_pdcp_manager_get_ue_count :: "nr_pdcp_ue_manager \<Rightarrow> nat" where
  "nr_pdcp_manager_get_ue_count m = length (pm_ue_list m)"

definition nr_pdcp_get_first_ue_id :: "nr_pdcp_ue_manager \<Rightarrow> int option" where
  "nr_pdcp_get_first_ue_id m = (case pm_ue_list m of [] \<Rightarrow> None | ue # _ \<Rightarrow> Some (pu_ue_id ue))"

interpretation pdcp_ues: ue_manager pm_ue_list pu_ue_id nr_pdcp_ue_zero nr_pdcp_manager_get_ue put_pdcp_ue nr_pdcp_manager_remove_ue
proof
  fix m :: nr_pdcp_ue_manager and k :: int and j us m' u
  show "pu_ue_id (nr_pdcp_ue_zero k) = k" by (simp add: nr_pdcp_ue_zero_def)
  show "ue_get pu_ue_id nr_pdcp_ue_zero k (pm_ue_list m) = (j, us) \<Longrightarrow>
      \<exists>m'. nr_pdcp_manager_get_ue m k = (j, m') \<and> pm_ue_list m' = us"
    by (simp add: nr_pdcp_manager_get_ue_def)
  show "pm_ue_list (put_pdcp_ue j u m) = (pm_ue_list m)[j := u]" by (simp add: put_pdcp_ue_def)
  show "nr_pdcp_manager_remove_ue m k = Inr m' \<Longrightarrow> pm_ue_list m' =
      (case ue_index pu_ue_id k (pm_ue_list m) of None \<Rightarrow> pm_ue_list m | Some i \<Rightarrow> ue_drop i (pm_ue_list m))"
    by (auto simp: nr_pdcp_manager_remove_ue_def split: option.splits)
qed

end
