(* ===== verification/Pdcp_Api.thy ===== *)
theory Pdcp_Api
  imports Pdcp_Ue Sdap Dc_Split
begin

text \<open>
  The interface of PDCP (\<open>nr_pdcp_oai_api.c\<close>) to SDAP, RLC and RRC, with its timer thread
  (\<open>nr_pdcp_timer_thread.c\<close>). A call locks the manager, finds the UE (an unknown id makes a new one), works on
  one of its entities and unlocks. The SDUs that an entity delivers during a call go on to SDAP and RRC in
  order, still under the lock; a PDU that is sent goes to its radio after the lock is released. What
  leaves PDCP and SDAP is recorded in order in \<open>pa_out\<close>.
\<close>

section \<open>State\<close>

record protocol_ctxt =
  pc_module_id :: int
  pc_enb_flag :: bool
  pc_instance :: int
  pc_eNB_index :: int
  pc_brOption :: int
  pc_ue :: int

text \<open>
  The request to RLC is an entry of the queue of \<open>Pdcp_Queue\<close>; the others are messages to GTP, X2AP and
  RRC, and what SDAP sends.
\<close>

datatype pdcp_out =
    EnqueueRlcDataReq bool int bool int int "byte list"
  | CuTunnelDataReq int int "byte list"
  | X2DataForwarding forward_info int "byte list"
  | UlRrcMessage int int int "byte list"
  | DcchDataInd int int "byte list" nr_pdcp_integrity_data
  | SdapOut sdap_out

text \<open>Of the rest of the stack: the kind of node, whether SDUs go to a tun interface, the ids F1 has for the UEs.\<close>

record pdcp_env =
  pv_is_cu :: bool
  pv_tun :: bool
  pv_f1_ue_data :: "int \<Rightarrow> int option"

text \<open>\<open>pa_users\<close> is the memory of the users of dual connectivity; \<open>pa_timer_seen\<close> is local to the timer thread.\<close>

record pdcp_api =
  pa_manager :: "nr_pdcp_ue_manager option"
  pa_sdap :: sdap_info
  pa_forward :: forward_info_map
  pa_users :: "nat \<Rightarrow> dc_user option"
  pa_current_time :: u64
  pa_last_frame :: int
  pa_last_subframe :: int
  pa_timer_time :: u64
  pa_timer_seen :: u64
  pa_out :: "pdcp_out list"

definition MAX_UE :: nat where "MAX_UE = 1024"

definition pdcp_api_start :: pdcp_api where
  "pdcp_api_start =
     \<lparr>pa_manager = None, pa_sdap = \<lparr>si_entities = [], si_out = []\<rparr>,
      pa_forward = replicate MAX_UE (0, forward_info_zero), pa_users = (\<lambda>p. None), pa_current_time = 0,
      pa_last_frame = 0, pa_last_subframe = 0, pa_timer_time = 0, pa_timer_seen = 0, pa_out = []\<rparr>"

definition pdcp_send :: "pdcp_out list \<Rightarrow> pdcp_api \<Rightarrow> pdcp_api" where
  "pdcp_send outs a = a\<lparr>pa_out := pa_out a @ outs\<rparr>"

text \<open>Only the first call makes a manager.\<close>

definition nr_pdcp_layer_init :: "pdcp_api \<Rightarrow> pdcp_api" where
  "nr_pdcp_layer_init a =
     (if pa_manager a \<noteq> None then a else a\<lparr>pa_manager := Some (new_nr_pdcp_ue_manager 1)\<rparr>)"

section \<open>Lock, UE and entity\<close>

definition pdcp_lock :: "pdcp_api \<Rightarrow> pdcp_api result" where
  "pdcp_lock a =
     (case pa_manager a of None \<Rightarrow> Inl NullDeref | Some m \<Rightarrow> Inr (a\<lparr>pa_manager := Some (nr_pdcp_manager_lock m)\<rparr>))"

definition pdcp_unlock :: "pdcp_api \<Rightarrow> pdcp_api result" where
  "pdcp_unlock a =
     (case pa_manager a of None \<Rightarrow> Inl NullDeref
      | Some m \<Rightarrow> bindR (nr_pdcp_manager_unlock m) (\<lambda>m'. Inr (a\<lparr>pa_manager := Some m'\<rparr>)))"

definition pdcp_get_ue :: "int \<Rightarrow> pdcp_api \<Rightarrow> (nat \<times> pdcp_api) result" where
  "pdcp_get_ue uid a =
     (case pa_manager a of None \<Rightarrow> Inl NullDeref
      | Some m \<Rightarrow> (case nr_pdcp_manager_get_ue m uid of (k, m') \<Rightarrow> Inr (k, a\<lparr>pa_manager := Some m'\<rparr>)))"

definition pdcp_ue_at :: "nat \<Rightarrow> pdcp_api \<Rightarrow> nr_pdcp_ue" where
  "pdcp_ue_at k a = pm_ue_list (the (pa_manager a)) ! k"

definition pdcp_set_ue :: "nat \<Rightarrow> nr_pdcp_ue \<Rightarrow> pdcp_api \<Rightarrow> pdcp_api" where
  "pdcp_set_ue k ue a = a\<lparr>pa_manager := map_option (put_pdcp_ue k ue) (pa_manager a)\<rparr>"

text \<open>Between lock and unlock, a body works on the UE found.\<close>

definition pdcp_locked :: "int \<Rightarrow> (nat \<Rightarrow> pdcp_api \<Rightarrow> ('a \<times> pdcp_api) result) \<Rightarrow> pdcp_api \<Rightarrow> ('a \<times> pdcp_api) result" where
  "pdcp_locked uid body a =
     bindR (pdcp_lock a) (\<lambda>a1.
     bindR (pdcp_get_ue uid a1) (\<lambda>(k, a2).
     bindR (body k a2) (\<lambda>(r, a3).
     bindR (pdcp_unlock a3) (\<lambda>a4. Inr (r, a4)))))"

type_synonym delivery = "nat \<Rightarrow> pdcp_slot \<Rightarrow> (byte list \<times> nr_pdcp_integrity_data) list \<Rightarrow> pdcp_api \<Rightarrow> pdcp_api result"

text \<open>A call of an entity, and the delivery of the SDUs that it makes.\<close>

definition call_pdcp ::
  "delivery \<Rightarrow> nat \<Rightarrow> pdcp_slot \<Rightarrow> (nr_pdcp_entity \<Rightarrow> (nr_pdcp_entity \<times> 'a) result) \<Rightarrow> pdcp_api \<Rightarrow> ('a \<times> pdcp_api) result" where
  "call_pdcp deliver k s f a =
     (case slot_pdcp (pdcp_ue_at k a) s of
        None \<Rightarrow> Inl NullDeref
      | Some e \<Rightarrow>
          bindR (f (e\<lparr>pe_delivered := []\<rparr>)) (\<lambda>(e', r).
          bindR (deliver k s (pe_delivered e')
                   (pdcp_set_ue k (set_pdcp_slot s (Some (e'\<lparr>pe_delivered := []\<rparr>)) (pdcp_ue_at k a)) a)) (\<lambda>a'.
            Inr (r, a'))))"

definition on_pdcp_rb ::
  "delivery \<Rightarrow> int \<Rightarrow> int \<Rightarrow> bool \<Rightarrow> (nr_pdcp_entity \<Rightarrow> (nr_pdcp_entity \<times> 'a) result) \<Rightarrow> 'a \<Rightarrow> pdcp_api \<Rightarrow> ('a \<times> pdcp_api) result" where
  "on_pdcp_rb deliver uid rb_id srb_flag f none =
     pdcp_locked uid (\<lambda>k a.
       case nr_pdcp_get_rb (pdcp_ue_at k a) rb_id srb_flag of
         None \<Rightarrow> Inr (none, a)
       | Some s \<Rightarrow> call_pdcp deliver k s f a)"

definition no_delivery :: delivery where
  "no_delivery k s sdus a = Inr a"

section \<open>Sending\<close>

definition deliver_pdu_drb_ue :: "int \<Rightarrow> int \<Rightarrow> byte list \<Rightarrow> int \<Rightarrow> pdcp_api \<Rightarrow> pdcp_api result" where
  "deliver_pdu_drb_ue uid rb_id buf sdu_id a = Inr (pdcp_send [EnqueueRlcDataReq False uid False rb_id sdu_id buf] a)"

text \<open>
  The radio of a PDU: LTE when the UE has forwarding information with a user that is active and the split says
  so, else NR. The first result is LTE.
\<close>

definition route_pdu :: "int \<Rightarrow> pdcp_api \<Rightarrow> (bool \<times> pdcp_api) result" where
  "route_pdu du_ue_id a =
     (case get_forward_info (pa_forward a) du_ue_id of
        None \<Rightarrow> Inr (False, a)
      | Some info \<Rightarrow>
          (case fi_user info of
             None \<Rightarrow> Inr (False, a)
           | Some p \<Rightarrow>
               (case pa_users a p of
                  None \<Rightarrow> Inl UseAfterFree
                | Some user \<Rightarrow>
                    if \<not> du_is_active user then Inr (False, a)
                    else bindR (pdcp_multi_path_routing user) (\<lambda>(is_lte, user').
                           Inr (is_lte, a\<lparr>pa_users := (pa_users a)(p := Some user')\<rparr>)))))"

definition deliver_pdu_drb_gnb :: "pdcp_env \<Rightarrow> int \<Rightarrow> int \<Rightarrow> byte list \<Rightarrow> int \<Rightarrow> pdcp_api \<Rightarrow> pdcp_api result" where
  "deliver_pdu_drb_gnb env uid rb_id buf sdu_id a =
     (case pv_f1_ue_data env uid of
        None \<Rightarrow> Inl Exit
      | Some du_ue_id \<Rightarrow>
          if pv_is_cu env then Inr (pdcp_send [CuTunnelDataReq uid rb_id buf] a)
          else bindR (route_pdu du_ue_id a) (\<lambda>(is_lte, a1).
            Inr (pdcp_send
              (if is_lte
               then (case get_forward_info (pa_forward a) du_ue_id of None \<Rightarrow> [] | Some info \<Rightarrow> [X2DataForwarding info rb_id buf])
               else [EnqueueRlcDataReq True du_ue_id False rb_id sdu_id buf]) a1)))"

text \<open>The entity makes the PDU; \<open>None\<close> is the return value -1. A signalling bearer has no callback for its PDUs.\<close>

definition make_pdu ::
  "pdcp_crypto \<Rightarrow> byte list \<Rightarrow> nr_pdcp_entity \<Rightarrow> (nr_pdcp_entity \<times> (byte list \<times> nr_pdcp_entity) option) result" where
  "make_pdu cr sdu e =
     bindR (nr_pdcp_entity_process_sdu cr e sdu (nr_max_pdcp_pdu_size (int (length sdu)))) (\<lambda>(pdu, e').
       Inr (e', map_option (\<lambda>b. (b, e')) pdu))"

definition nr_pdcp_data_req_drb ::
  "pdcp_env \<Rightarrow> pdcp_crypto \<Rightarrow> protocol_ctxt \<Rightarrow> bool \<Rightarrow> int \<Rightarrow> int \<Rightarrow> byte list \<Rightarrow> pdcp_api \<Rightarrow> (bool \<times> pdcp_api) result" where
  "nr_pdcp_data_req_drb env cr ctxt srb_flag rb_id mui sdu a =
     (if srb_flag then Inl Exit
      else if pc_module_id ctxt \<noteq> 0 \<or> pc_instance ctxt \<noteq> 0 \<or> pc_eNB_index ctxt \<noteq> 0 then Inl Exit
      else bindR (on_pdcp_rb no_delivery (pc_ue ctxt) rb_id False (make_pdu cr sdu) None a) (\<lambda>(r, a1).
        case r of
          None \<Rightarrow> Inr (False, a1)
        | Some (pdu, e) \<Rightarrow>
            bindR (if pe_type e = NR_PDCP_SRB then Inl NullDeref
                   else if pe_is_gnb e then deliver_pdu_drb_gnb env (pc_ue ctxt) rb_id pdu mui a1
                   else deliver_pdu_drb_ue (pc_ue ctxt) rb_id pdu mui a1) (\<lambda>a2. Inr (True, a2))))"

definition deliver_pdu_srb_rlc :: "int \<Rightarrow> int \<Rightarrow> byte list \<Rightarrow> int \<Rightarrow> pdcp_api \<Rightarrow> pdcp_api result" where
  "deliver_pdu_srb_rlc uid srb_id buf sdu_id a = Inr (pdcp_send [EnqueueRlcDataReq True uid True srb_id sdu_id buf] a)"

text \<open>The callback is given by the caller; \<open>deliver_pdu_srb_rlc\<close> is the one of this file.\<close>

definition nr_pdcp_data_req_srb ::
  "pdcp_crypto \<Rightarrow> int \<Rightarrow> int \<Rightarrow> int \<Rightarrow> byte list \<Rightarrow> (int \<Rightarrow> int \<Rightarrow> byte list \<Rightarrow> int \<Rightarrow> pdcp_api \<Rightarrow> pdcp_api result) \<Rightarrow>
   pdcp_api \<Rightarrow> (bool \<times> pdcp_api) result" where
  "nr_pdcp_data_req_srb cr uid rb_id mui sdu deliver_pdu_cb a =
     bindR (on_pdcp_rb no_delivery uid rb_id True
              (\<lambda>e. bindR (make_pdu cr sdu e) (\<lambda>(e', r).
                 if r \<noteq> None \<and> pe_type e \<noteq> NR_PDCP_SRB then Inl Exit else Inr (e', r))) None a) (\<lambda>(r, a1).
       case r of
         None \<Rightarrow> Inr (False, a1)
       | Some (pdu, e) \<Rightarrow> bindR (deliver_pdu_cb uid rb_id pdu mui a1) (\<lambda>a2. Inr (True, a2)))"

section \<open>SDAP above PDCP\<close>

definition RLC_MUI_UNDEFINED :: int where "RLC_MUI_UNDEFINED = 0"

definition sdap_ctxt :: "int \<Rightarrow> protocol_ctxt" where
  "sdap_ctxt uid = \<lparr>pc_module_id = 0, pc_enb_flag = False, pc_instance = 0, pc_eNB_index = 0, pc_brOption = 0, pc_ue = uid\<rparr>"

text \<open>What SDAP hands down is sent by PDCP at once; the result is whether PDCP has accepted all of it.\<close>

fun sdap_outs :: "pdcp_env \<Rightarrow> pdcp_crypto \<Rightarrow> protocol_ctxt \<Rightarrow> sdap_out list \<Rightarrow> pdcp_api \<Rightarrow> (bool \<times> pdcp_api) result" where
  "sdap_outs env cr ctxt [] a = Inr (True, a)"
| "sdap_outs env cr ctxt (PdcpDataReqDrb uid drb b # outs) a =
     bindR (nr_pdcp_data_req_drb env cr (ctxt\<lparr>pc_ue := uid\<rparr>) False drb RLC_MUI_UNDEFINED b a) (\<lambda>(ok, a1).
     bindR (sdap_outs env cr ctxt outs a1) (\<lambda>(ok', a2). Inr (ok \<and> ok', a2)))"
| "sdap_outs env cr ctxt (x # outs) a = sdap_outs env cr ctxt outs (pdcp_send [SdapOut x] a)"

definition call_sdap ::
  "pdcp_env \<Rightarrow> pdcp_crypto \<Rightarrow> protocol_ctxt \<Rightarrow> (sdap_info \<Rightarrow> ('a \<times> sdap_info) result) \<Rightarrow> pdcp_api \<Rightarrow> (('a \<times> bool) \<times> pdcp_api) result" where
  "call_sdap env cr ctxt f a =
     bindR (f ((pa_sdap a)\<lparr>si_out := []\<rparr>)) (\<lambda>(r, s).
     bindR (sdap_outs env cr ctxt (si_out s) (a\<lparr>pa_sdap := s\<lparr>si_out := []\<rparr>\<rparr>)) (\<lambda>(ok, a1).
       Inr ((r, ok), a1)))"

text \<open>\<open>sdap_data_req\<close> on top of PDCP: its result is that of PDCP when it calls it.\<close>

definition sdap_request ::
  "pdcp_env \<Rightarrow> pdcp_crypto \<Rightarrow> protocol_ctxt \<Rightarrow> int \<Rightarrow> int \<Rightarrow> byte list \<Rightarrow> nat \<Rightarrow> bool \<Rightarrow> int \<Rightarrow> pdcp_api \<Rightarrow> (bool \<times> pdcp_api) result" where
  "sdap_request env cr ctxt uid rb_id sdu qfi rqi pdusession_id a =
     bindR (call_sdap env cr ctxt
              (sdap_data_req True (pc_enb_flag ctxt) (pc_ue ctxt) uid rb_id sdu qfi rqi pdusession_id) a) (\<lambda>((r, ok), a1).
       Inr (r \<and> ok, a1))"

definition has_ue_id :: "pdcp_api \<Rightarrow> int option result" where
  "has_ue_id a =
     bindR (pdcp_lock a) (\<lambda>a1.
     bindR (case pa_manager a1 of None \<Rightarrow> Inl NullDeref | Some m \<Rightarrow> Inr (nr_pdcp_get_first_ue_id m)) (\<lambda>r.
     bindR (pdcp_unlock a1) (\<lambda>a2. Inr r)))"

text \<open>One packet read from the tun interface of a base station, and of a UE with its flow and session.\<close>

definition enb_tun_read :: "pdcp_env \<Rightarrow> pdcp_crypto \<Rightarrow> byte list \<Rightarrow> pdcp_api \<Rightarrow> pdcp_api result" where
  "enb_tun_read env cr rx_buf a =
     bindR (has_ue_id a) (\<lambda>u. case u of None \<Rightarrow> Inr a
       | Some uid \<Rightarrow> mapR snd (sdap_request env cr ((sdap_ctxt uid)\<lparr>pc_enb_flag := True\<rparr>) uid 1 rx_buf 7 False 10 a))"

definition ue_tun_read :: "pdcp_env \<Rightarrow> pdcp_crypto \<Rightarrow> nat \<Rightarrow> int \<Rightarrow> byte list \<Rightarrow> pdcp_api \<Rightarrow> pdcp_api result" where
  "ue_tun_read env cr nas_qfi nas_pduid rx_buf a =
     bindR (has_ue_id a) (\<lambda>u. case u of None \<Rightarrow> Inr a
       | Some uid \<Rightarrow> mapR snd (sdap_request env cr (sdap_ctxt uid) uid 1 rx_buf nas_qfi True nas_pduid a))"

section \<open>Receiving\<close>

text \<open>An entity that goes to a tun interface is a UE for SDAP, whatever it is.\<close>

definition deliver_sdu_drb :: "pdcp_env \<Rightarrow> pdcp_crypto \<Rightarrow> nat \<Rightarrow> nat \<Rightarrow> byte list \<Rightarrow> pdcp_api \<Rightarrow> pdcp_api result" where
  "deliver_sdu_drb env cr k i buf a =
     (let ue = pdcp_ue_at k a
      in case pu_drb ue ! i of
           None \<Rightarrow> Inl NullDeref
         | Some e \<Rightarrow>
             mapR snd (call_sdap env cr (sdap_ctxt (pu_ue_id ue))
               (if pv_tun env
                then sdap_data_ind (pe_rb_id e) False (pe_has_sdap_rx e) (pe_pdusession_id e) (pu_ue_id ue) buf
                else sdap_data_ind (int i + 1) (pe_is_gnb e) (pe_has_sdap_rx e) (pe_pdusession_id e) (pu_ue_id ue) buf) a))"

definition deliver_sdu_srb :: "pdcp_env \<Rightarrow> nat \<Rightarrow> nat \<Rightarrow> byte list \<Rightarrow> nr_pdcp_integrity_data \<Rightarrow> pdcp_api \<Rightarrow> pdcp_api result" where
  "deliver_sdu_srb env k i buf msg_integrity a =
     (let ue = pdcp_ue_at k a
      in case pu_srb ue ! i of
           None \<Rightarrow> Inl NullDeref
         | Some e \<Rightarrow>
             if pe_is_gnb e
             then (case pv_f1_ue_data env (pu_ue_id ue) of
                     None \<Rightarrow> Inl Exit
                   | Some du_ue_id \<Rightarrow> Inr (pdcp_send [UlRrcMessage (pu_ue_id ue) du_ue_id (int i + 1) buf] a))
             else Inr (pdcp_send [DcchDataInd (pu_ue_id ue) (int i + 1) buf msg_integrity] a))"

fun deliver_sdus :: "pdcp_env \<Rightarrow> pdcp_crypto \<Rightarrow> delivery" where
  "deliver_sdus env cr k s [] a = Inr a"
| "deliver_sdus env cr k (PdcpSrb i) ((buf, d) # sdus) a =
     bindR (deliver_sdu_srb env k i buf d a) (\<lambda>a1. deliver_sdus env cr k (PdcpSrb i) sdus a1)"
| "deliver_sdus env cr k (PdcpDrb i) ((buf, d) # sdus) a =
     bindR (deliver_sdu_drb env cr k i buf a) (\<lambda>a1. deliver_sdus env cr k (PdcpDrb i) sdus a1)"

text \<open>The work on an entry of the queue of received PDUs.\<close>

definition do_pdcp_data_ind ::
  "pdcp_env \<Rightarrow> pdcp_crypto \<Rightarrow> protocol_ctxt \<Rightarrow> bool \<Rightarrow> int \<Rightarrow> byte list \<Rightarrow> pdcp_api \<Rightarrow> (unit \<times> pdcp_api) result" where
  "do_pdcp_data_ind env cr ctxt srb_flag rb_id buf a =
     (if pc_module_id ctxt \<noteq> 0 \<or> pc_instance ctxt \<noteq> 0 \<or> pc_eNB_index ctxt \<noteq> 0 \<or> pc_brOption ctxt \<noteq> 0 then Inl Exit
      else on_pdcp_rb (deliver_sdus env cr) (pc_ue ctxt) rb_id srb_flag
             (\<lambda>e. mapR (\<lambda>e'. (e', ())) (nr_pdcp_entity_recv_pdu cr e buf)) () a)"

end
