(* ===== verification/Pdcp_Config.thy ===== *)
theory Pdcp_Config
  imports Pdcp_Api
begin

text \<open>
  The calls of RRC (\<open>nr_pdcp_oai_api.c\<close>): bearers are added, secured, suspended, reconfigured, re-established
  and released; then the clock with the timer thread, the statistics, and the reports of the two radios to
  the split. The generated ASN.1 structures are records of the fields that are read; a missing field is
  \<open>None\<close>.
\<close>

section \<open>Adding bearers\<close>

record pdcp_drb_config =
  pd_SN_SizeUL :: "int option"
  pd_SN_SizeDL :: "int option"
  pd_discardTimer :: "int option"
  pd_integrityProtection :: bool

record pdcp_config =
  pcf_drb :: "pdcp_drb_config option"
  pcf_t_Reordering :: "int option"
  pcf_cipheringDisabled :: bool

datatype cn_association = CnNothing | CnEpsBearer int | CnSdap "sdap_config option"

record srb_to_add =
  sa_srb_Identity :: int
  sa_pdcp_Config :: "pdcp_config option"

record drb_to_add =
  da_drb_Identity :: int
  da_cnAssociation :: "cn_association option"
  da_pdcp_Config :: "pdcp_config option"

text \<open>Reading through a pointer.\<close>

definition deref :: "'a option \<Rightarrow> 'a result" where
  "deref p = (case p of None \<Rightarrow> Inl NullDeref | Some x \<Rightarrow> Inr x)"

text \<open>The time -1 stands for infinity.\<close>

definition t_reordering_of :: "int option \<Rightarrow> int result" where
  "t_reordering_of t = (case t of None \<Rightarrow> Inr (- 1) | Some v \<Rightarrow> decode_t_reordering v)"

definition insert_srb :: "bool \<Rightarrow> int \<Rightarrow> int \<Rightarrow> security_keys_and_algos \<Rightarrow> nat \<Rightarrow> pdcp_api \<Rightarrow> (unit \<times> pdcp_api) result" where
  "insert_srb is_gnb srb_id t_Reordering security_parameters k a =
     (if nr_pdcp_get_rb (pdcp_ue_at k a) srb_id True \<noteq> None then Inr ((), a)
      else
        bindR (new_nr_pdcp_entity NR_PDCP_SRB is_gnb srb_id 0 False False SHORT_SN_SIZE t_Reordering (- 1) security_parameters) (\<lambda>e.
        bindR (nr_pdcp_ue_add_srb_pdcp_entity (pdcp_ue_at k a) srb_id e) (\<lambda>ue.
          Inr ((), pdcp_set_ue k ue a))))"

definition add_srb :: "bool \<Rightarrow> int \<Rightarrow> srb_to_add \<Rightarrow> security_keys_and_algos \<Rightarrow> pdcp_api \<Rightarrow> (unit \<times> pdcp_api) result" where
  "add_srb is_gnb uid s security_parameters a =
     bindR (t_reordering_of (case sa_pdcp_Config s of None \<Rightarrow> None | Some c \<Rightarrow> pcf_t_Reordering c)) (\<lambda>t_Reordering.
       pdcp_locked uid (insert_srb is_gnb (sa_srb_Identity s) t_Reordering security_parameters) a)"

text \<open>Session, header flags, default bearer and flows of a new bearer; a bearer of the EPS has no flows.\<close>

definition drb_association :: "bool \<Rightarrow> cn_association option \<Rightarrow> (int \<times> bool \<times> bool \<times> bool \<times> int list \<times> nat) result" where
  "drb_association is_gnb cn =
     (case cn of
        None \<Rightarrow> Inl Exit
      | Some CnNothing \<Rightarrow> Inl Exit
      | Some (CnEpsBearer i) \<Rightarrow> Inr (i, False, False, False, [], 0)
      | Some (CnSdap None) \<Rightarrow> Inl Exit
      | Some (CnSdap (Some c)) \<Rightarrow>
          bindR (first_flow (sc_flows_to_add c)) (\<lambda>qfis.
            Inr (sc_pdu_session c, is_sdap_rx is_gnb c, is_sdap_tx is_gnb c, sc_default_drb c, qfis,
                 length (sc_flows_to_add c) mod 256)))"

text \<open>The new bearer and, at its side, the SDAP entity of its session.\<close>

definition insert_drb ::
  "bool \<Rightarrow> int \<Rightarrow> int \<Rightarrow> int \<times> bool \<times> bool \<times> bool \<times> int list \<times> nat \<Rightarrow> nat \<Rightarrow> int \<Rightarrow> int \<Rightarrow> security_keys_and_algos \<Rightarrow>
   nat \<Rightarrow> pdcp_api \<Rightarrow> (unit \<times> pdcp_api) result" where
  "insert_drb is_gnb uid drb_id as sn_size t_reordering discard_timer sec k a =
     (case as of (pdusession_id, has_sdap_rx, has_sdap_tx, is_default, qfis, count) \<Rightarrow>
        if nr_pdcp_get_rb (pdcp_ue_at k a) drb_id False \<noteq> None then Inr ((), a)
        else
          bindR (new_nr_pdcp_entity NR_PDCP_DRB_AM is_gnb drb_id pdusession_id has_sdap_rx has_sdap_tx sn_size t_reordering
                   discard_timer sec) (\<lambda>e.
          bindR (nr_pdcp_ue_add_drb_pdcp_entity (pdcp_ue_at k a) drb_id e) (\<lambda>ue.
          bindR (new_nr_sdap_entity is_gnb has_sdap_rx has_sdap_tx uid pdusession_id is_default (drb_id mod 256) qfis count
                   (pa_sdap a)) (\<lambda>(_, s).
            Inr ((), (pdcp_set_ue k ue a)\<lparr>pa_sdap := s\<rparr>)))))"

text \<open>
  The flags of integrity and ciphering choose between the algorithms given and none. The SN sizes are read
  through \<open>pdcp_Config->drb\<close> before that pointer is tested.
\<close>

definition add_drb :: "bool \<Rightarrow> int \<Rightarrow> drb_to_add \<Rightarrow> security_keys_and_algos \<Rightarrow> pdcp_api \<Rightarrow> (unit \<times> pdcp_api) result" where
  "add_drb is_gnb uid s security_parameters a =
     bindR (deref (da_pdcp_Config s)) (\<lambda>c.
     bindR (deref (pcf_drb c)) (\<lambda>d.
     bindR (bindR (deref (pd_SN_SizeUL d)) decode_sn_size_ul) (\<lambda>sn_size_ul.
     bindR (bindR (deref (pd_SN_SizeDL d)) decode_sn_size_dl) (\<lambda>sn_size_dl.
     bindR (bindR (deref (pd_discardTimer d)) decode_discard_timer) (\<lambda>discard_timer.
     bindR (t_reordering_of (pcf_t_Reordering c)) (\<lambda>t_reordering.
     bindR (drb_association is_gnb (da_cnAssociation s)) (\<lambda>as.
       if sn_size_ul \<noteq> sn_size_dl then Inl Exit
       else
         let sec = security_parameters\<lparr>
               sk_ciphering_algorithm := (if \<not> pcf_cipheringDisabled c then sk_ciphering_algorithm security_parameters else 0),
               sk_integrity_algorithm := (if pd_integrityProtection d then sk_integrity_algorithm security_parameters else 0)\<rparr>
         in pdcp_locked uid (insert_drb is_gnb uid (da_drb_Identity s) as sn_size_dl t_reordering discard_timer sec) a)))))))"

fun do_all :: "('b \<Rightarrow> 'a \<Rightarrow> 'a result) \<Rightarrow> 'b list \<Rightarrow> 'a \<Rightarrow> 'a result" where
  "do_all f [] a = Inr a"
| "do_all f (x # xs) a = bindR (f x a) (do_all f xs)"

definition nr_pdcp_add_srbs :: "bool \<Rightarrow> int \<Rightarrow> srb_to_add list option \<Rightarrow> security_keys_and_algos \<Rightarrow> pdcp_api \<Rightarrow> pdcp_api result" where
  "nr_pdcp_add_srbs enb_flag uid srb2add_list sec a =
     (case srb2add_list of None \<Rightarrow> Inr a | Some l \<Rightarrow> do_all (\<lambda>s b. mapR snd (add_srb enb_flag uid s sec b)) l a)"

definition nr_pdcp_add_drbs :: "bool \<Rightarrow> int \<Rightarrow> drb_to_add list option \<Rightarrow> security_keys_and_algos \<Rightarrow> pdcp_api \<Rightarrow> pdcp_api result" where
  "nr_pdcp_add_drbs enb_flag uid drb2add_list sec a =
     (case drb2add_list of None \<Rightarrow> Inr a | Some l \<Rightarrow> do_all (\<lambda>s b. mapR snd (add_drb enb_flag uid s sec b)) l a)"

section \<open>Calls on one bearer\<close>

definition nr_pdcp_remove_UE :: "int \<Rightarrow> pdcp_api \<Rightarrow> (unit \<times> pdcp_api) result" where
  "nr_pdcp_remove_UE uid a =
     bindR (pdcp_lock a) (\<lambda>a1.
     bindR (bindR (deref (pa_manager a1)) (\<lambda>m. nr_pdcp_manager_remove_ue m uid)) (\<lambda>m.
     bindR (pdcp_unlock (a1\<lparr>pa_manager := Some m\<rparr>)) (\<lambda>a2. Inr ((), a2))))"

definition nr_pdcp_config_set_security ::
  "int \<Rightarrow> int \<Rightarrow> bool \<Rightarrow> security_keys_and_algos \<Rightarrow> pdcp_api \<Rightarrow> (unit \<times> pdcp_api) result" where
  "nr_pdcp_config_set_security uid rb_id is_srb parameters =
     on_pdcp_rb no_delivery uid rb_id is_srb (\<lambda>e. mapR (\<lambda>e'. (e', ())) (nr_pdcp_entity_set_security e parameters)) ()"

definition nr_pdcp_check_integrity_srb ::
  "pdcp_crypto \<Rightarrow> int \<Rightarrow> int \<Rightarrow> byte list \<Rightarrow> nr_pdcp_integrity_data \<Rightarrow> pdcp_api \<Rightarrow> (bool \<times> pdcp_api) result" where
  "nr_pdcp_check_integrity_srb cr uid srb_id msg msg_integrity =
     on_pdcp_rb no_delivery uid srb_id True (\<lambda>e. mapR (Pair e) (nr_pdcp_entity_check_integrity cr e msg msg_integrity)) False"

definition nr_pdcp_suspend_srb :: "pdcp_env \<Rightarrow> pdcp_crypto \<Rightarrow> int \<Rightarrow> int \<Rightarrow> pdcp_api \<Rightarrow> (unit \<times> pdcp_api) result" where
  "nr_pdcp_suspend_srb env cr uid srb_id =
     on_pdcp_rb (deliver_sdus env cr) uid srb_id True (\<lambda>e. Inr (nr_pdcp_entity_suspend e, ())) ()"

definition nr_pdcp_suspend_drb :: "pdcp_env \<Rightarrow> pdcp_crypto \<Rightarrow> int \<Rightarrow> int \<Rightarrow> pdcp_api \<Rightarrow> (unit \<times> pdcp_api) result" where
  "nr_pdcp_suspend_drb env cr uid drb_id =
     on_pdcp_rb (deliver_sdus env cr) uid drb_id False (\<lambda>e. Inr (nr_pdcp_entity_suspend e, ())) ()"

definition nr_pdcp_reconfigure_srb :: "int \<Rightarrow> int \<Rightarrow> int \<Rightarrow> pdcp_api \<Rightarrow> (unit \<times> pdcp_api) result" where
  "nr_pdcp_reconfigure_srb uid srb_id t_Reordering =
     on_pdcp_rb no_delivery uid srb_id True
       (\<lambda>e. mapR (\<lambda>t. (e\<lparr>pe_t_reordering := t\<rparr>, ())) (decode_t_reordering t_Reordering)) ()"

text \<open>The SN size may change, the sizes of the window and of the SN space that go with it do not.\<close>

definition reconfigure_sn_size :: "pdcp_drb_config \<Rightarrow> nr_pdcp_entity \<Rightarrow> nr_pdcp_entity result" where
  "reconfigure_sn_size d e =
     bindR (case pd_SN_SizeUL d of None \<Rightarrow> Inr e | Some s \<Rightarrow> mapR (\<lambda>n. e\<lparr>pe_sn_size := n\<rparr>) (decode_sn_size_ul s)) (\<lambda>e1.
       case pd_SN_SizeDL d of
         None \<Rightarrow> Inr e1
       | Some s \<Rightarrow> bindR (decode_sn_size_dl s) (\<lambda>n.
           if pd_SN_SizeUL d \<noteq> None \<and> n \<noteq> pe_sn_size e1 then Inl Exit else Inr (e1\<lparr>pe_sn_size := n\<rparr>)))"

definition reconfigure_drb_entity :: "pdcp_config option \<Rightarrow> nr_pdcp_entity \<Rightarrow> nr_pdcp_entity result" where
  "reconfigure_drb_entity c e =
     (case c of
        None \<Rightarrow> Inr e
      | Some cf \<Rightarrow>
          bindR (t_reordering_of (pcf_t_Reordering cf)) (\<lambda>t.
          let e1 = e\<lparr>pe_t_reordering := t\<rparr>
          in case pcf_drb cf of
               None \<Rightarrow> Inr e1
             | Some d \<Rightarrow>
                 bindR (case pd_discardTimer d of None \<Rightarrow> Inr e1
                        | Some v \<Rightarrow> mapR (\<lambda>n. e1\<lparr>pe_discard_timer := n\<rparr>) (decode_discard_timer v))
                   (reconfigure_sn_size d)))"

definition nr_pdcp_reconfigure_drb :: "int \<Rightarrow> int \<Rightarrow> pdcp_config option \<Rightarrow> pdcp_api \<Rightarrow> (unit \<times> pdcp_api) result" where
  "nr_pdcp_reconfigure_drb uid drb_id c =
     on_pdcp_rb no_delivery uid drb_id False (\<lambda>e. mapR (\<lambda>e'. (e', ())) (reconfigure_drb_entity c e)) ()"

text \<open>The two releases index the arrays with the id as it is.\<close>

definition nr_pdcp_release_srb :: "int \<Rightarrow> int \<Rightarrow> pdcp_api \<Rightarrow> (unit \<times> pdcp_api) result" where
  "nr_pdcp_release_srb uid srb_id =
     pdcp_locked uid (\<lambda>k a.
       bindR (array_get (srb_id - 1) (pu_srb (pdcp_ue_at k a))) (\<lambda>p.
         Inr ((), if p = None then a
                  else pdcp_set_ue k (set_pdcp_slot (PdcpSrb (nat (srb_id - 1))) None (pdcp_ue_at k a)) a)))"

definition nr_pdcp_release_drb :: "pdcp_env \<Rightarrow> pdcp_crypto \<Rightarrow> int \<Rightarrow> int \<Rightarrow> pdcp_api \<Rightarrow> (unit \<times> pdcp_api) result" where
  "nr_pdcp_release_drb env cr uid drb_id =
     pdcp_locked uid (\<lambda>k a.
       bindR (array_get (drb_id - 1) (pu_drb (pdcp_ue_at k a))) (\<lambda>p.
         case p of
           None \<Rightarrow> Inr ((), a)
         | Some e \<Rightarrow>
             let a1 = a\<lparr>pa_sdap := nr_sdap_release_drb uid drb_id (pe_pdusession_id e) (pa_sdap a)\<rparr>;
                 s = PdcpDrb (nat (drb_id - 1))
             in bindR (call_pdcp (deliver_sdus env cr) k s (\<lambda>e. Inr (nr_pdcp_entity_release e, ())) a1) (\<lambda>(_, a2).
                  Inr ((), pdcp_set_ue k (set_pdcp_slot s None (pdcp_ue_at k a2)) a2))))"

definition nr_pdcp_reestablishment ::
  "pdcp_env \<Rightarrow> pdcp_crypto \<Rightarrow> int \<Rightarrow> int \<Rightarrow> bool \<Rightarrow> security_keys_and_algos \<Rightarrow> pdcp_api \<Rightarrow> (unit \<times> pdcp_api) result" where
  "nr_pdcp_reestablishment env cr uid rb_id srb_flag security_parameters =
     on_pdcp_rb (deliver_sdus env cr) uid rb_id srb_flag
       (\<lambda>e. mapR (\<lambda>e'. (e', ())) (nr_pdcp_entity_reestablish e security_parameters)) ()"

definition nr_pdcp_get_statistics :: "int \<Rightarrow> bool \<Rightarrow> int \<Rightarrow> pdcp_api \<Rightarrow> (nr_pdcp_statistics option \<times> pdcp_api) result" where
  "nr_pdcp_get_statistics uid srb_flag rb_id = on_pdcp_rb no_delivery uid rb_id srb_flag (\<lambda>e. Inr (e, Some (pe_stats e))) None"

definition nr_pdcp_get_num_ues :: "nat \<Rightarrow> pdcp_api \<Rightarrow> ((nat \<times> int list) \<times> pdcp_api) result" where
  "nr_pdcp_get_num_ues len a =
     bindR (pdcp_lock a) (\<lambda>a1.
     bindR (deref (pa_manager a1)) (\<lambda>m.
     bindR (pdcp_unlock a1) (\<lambda>a2.
       Inr ((nr_pdcp_manager_get_ue_count m, take len (map pu_ue_id (nr_pdcp_manager_get_ue_list m))), a2))))"

section \<open>Time\<close>

definition nr_pdcp_wakeup_timer_thread :: "u64 \<Rightarrow> pdcp_api \<Rightarrow> pdcp_api" where
  "nr_pdcp_wakeup_timer_thread time a = a\<lparr>pa_timer_time := time\<rparr>"

definition nr_pdcp_tick :: "int \<Rightarrow> int \<Rightarrow> pdcp_api \<Rightarrow> pdcp_api" where
  "nr_pdcp_tick frame subframe a =
     (if frame \<noteq> pa_last_frame a \<or> subframe \<noteq> pa_last_subframe a
      then let a1 = a\<lparr>pa_last_frame := frame, pa_last_subframe := subframe, pa_current_time := pa_current_time a + 1\<rparr>
           in nr_pdcp_wakeup_timer_thread (pa_current_time a1) a1
      else a)"

definition timed_slots :: "pdcp_slot list" where
  "timed_slots = map PdcpSrb [0..<2] @ map PdcpDrb [0..<5]"

definition slot_set_time :: "pdcp_env \<Rightarrow> pdcp_crypto \<Rightarrow> u64 \<Rightarrow> nat \<times> pdcp_slot \<Rightarrow> pdcp_api \<Rightarrow> pdcp_api result" where
  "slot_set_time env cr t ks a =
     (case ks of (k, s) \<Rightarrow>
        if slot_pdcp (pdcp_ue_at k a) s = None then Inr a
        else mapR snd (call_pdcp (deliver_sdus env cr) k s (\<lambda>e. Inr (nr_pdcp_entity_set_time e t, ())) a))"

text \<open>One round of the timer thread; it waits as long as the time is the one it has seen.\<close>

definition nr_pdcp_timer_thread :: "pdcp_env \<Rightarrow> pdcp_crypto \<Rightarrow> pdcp_api \<Rightarrow> pdcp_api result" where
  "nr_pdcp_timer_thread env cr a =
     (if pa_timer_seen a = pa_timer_time a then Inr a
      else
        let curtime = pa_timer_time a
        in bindR (pdcp_lock (a\<lparr>pa_timer_seen := curtime\<rparr>)) (\<lambda>a1.
           bindR (deref (pa_manager a1)) (\<lambda>m.
           bindR (do_all (slot_set_time env cr curtime)
                    (concat (map (\<lambda>k. map (Pair k) timed_slots) [0..<nr_pdcp_manager_get_ue_count m])) a1) pdcp_unlock)))"

section \<open>Reports of the radios\<close>

definition dc_user_call :: "int \<Rightarrow> (dc_user \<Rightarrow> dc_user) \<Rightarrow> pdcp_api \<Rightarrow> pdcp_api result" where
  "dc_user_call uid f a =
     (case get_forward_info (pa_forward a) uid of
        None \<Rightarrow> Inr a
      | Some info \<Rightarrow>
          bindR (deref (fi_user info)) (\<lambda>p.
            case pa_users a p of
              None \<Rightarrow> Inl UseAfterFree
            | Some user \<Rightarrow> Inr (a\<lparr>pa_users := (pa_users a)(p := Some (f user))\<rparr>)))"

definition nr_pdcp_dc_info_update :: "int \<Rightarrow> int \<Rightarrow> int \<Rightarrow> pdcp_api \<Rightarrow> pdcp_api result" where
  "nr_pdcp_dc_info_update uid acked_bytes queue_size = dc_user_call uid (\<lambda>user. update_nr_info user acked_bytes queue_size)"

definition lte_pdcp_dc_info_update :: "int \<Rightarrow> int \<Rightarrow> int \<Rightarrow> pdcp_api \<Rightarrow> pdcp_api result" where
  "lte_pdcp_dc_info_update uid acked_bytes queue_size = dc_user_call uid (\<lambda>user. update_lte_info user acked_bytes queue_size)"

end
