(* ===== verification/Pdcp_Frame.thy ===== *)
theory Pdcp_Frame
  imports Pdcp_Config Pdcp_Proofs
begin

text \<open>
  What the calls of the PDCP interface share: each entity stays in a slot of its kind and number, the other UEs
  are left alone, and the mutex is given back.
\<close>

section \<open>Entities keep their kind and number\<close>

definition pdcp_id :: "nr_pdcp_entity \<Rightarrow> nr_pdcp_entity_type \<times> int" where
  "pdcp_id e = (pe_type e, pe_rb_id e)"

named_theorems pdcp_id_simps \<open>operations of an entity keep its kind and number\<close>

lemma pdcp_id_upd [simp]:
  "pdcp_id (pe_upd_stats f e) = pdcp_id e" "pdcp_id (e\<lparr>pe_delivered := d\<rparr>) = pdcp_id e" "pdcp_id (e\<lparr>pe_rx_list := l\<rparr>) = pdcp_id e"
  "pdcp_id (e\<lparr>pe_tx_next := c\<rparr>) = pdcp_id e" "pdcp_id (e\<lparr>pe_rx_next := c\<rparr>) = pdcp_id e" "pdcp_id (e\<lparr>pe_rx_deliv := c\<rparr>) = pdcp_id e"
  "pdcp_id (e\<lparr>pe_rx_reord := c\<rparr>) = pdcp_id e" "pdcp_id (e\<lparr>pe_t_current := t\<rparr>) = pdcp_id e"
  "pdcp_id (e\<lparr>pe_t_reordering_start := t\<rparr>) = pdcp_id e" "pdcp_id (e\<lparr>pe_entity_suspended := b\<rparr>) = pdcp_id e"
  "pdcp_id (e\<lparr>pe_keys := k\<rparr>) = pdcp_id e" "pdcp_id (e\<lparr>pe_has_integrity := b\<rparr>) = pdcp_id e" "pdcp_id (e\<lparr>pe_integrity := i\<rparr>) = pdcp_id e"
  "pdcp_id (e\<lparr>pe_has_ciphering := b\<rparr>) = pdcp_id e" "pdcp_id (e\<lparr>pe_security := i\<rparr>) = pdcp_id e" "pdcp_id (e\<lparr>pe_rx_size := n\<rparr>) = pdcp_id e"
  "pdcp_id (e\<lparr>pe_sn_size := k'\<rparr>) = pdcp_id e" "pdcp_id (e\<lparr>pe_t_reordering := n\<rparr>) = pdcp_id e" "pdcp_id (e\<lparr>pe_discard_timer := n\<rparr>) = pdcp_id e"
  by (simp_all add: pdcp_id_def)

lemma deliver_id [simp]: "pdcp_id (pdcp_deliver x e) = pdcp_id e"
  by (simp add: pdcp_deliver_def)

lemma deliver_run_id: "pdcp_deliver_run c l e = (c', e') \<Longrightarrow> pdcp_id e' = pdcp_id e"
  by (induction c l e rule: pdcp_deliver_run.induct) (auto split: if_splits)

lemma deliver_below_id [simp]: "pdcp_id (pdcp_deliver_below r l e) = pdcp_id e"
  by (induction r l e rule: pdcp_deliver_below.induct) auto

lemma deliver_all_id [simp]: "pdcp_id (deliver_all_sdus l e) = pdcp_id e"
  by (induction l e rule: deliver_all_sdus.induct) auto

lemma reordering_timer_id [simp]: "pdcp_id (pdcp_reordering_timer e) = pdcp_id e"
  by (simp add: pdcp_reordering_timer_def Let_def)

lemma store_sdu_id [simp]: "pdcp_id (pdcp_store_sdu e c sdu n d) = pdcp_id e"
  by (auto simp: pdcp_store_sdu_def Let_def dest!: deliver_run_id split: prod.splits)

lemma recv_pdu_id: "nr_pdcp_entity_recv_pdu cr e b = Inr e' \<Longrightarrow> pdcp_id e' = pdcp_id e"
  by (auto simp: nr_pdcp_entity_recv_pdu_def pdcp_recv_data_def pdcp_discard_def Let_def bindR_eq_Inr split: if_splits option.splits)

lemma process_sdu_id: "nr_pdcp_entity_process_sdu cr e b n = Inr (p, e') \<Longrightarrow> pdcp_id e' = pdcp_id e"
  by (auto simp: nr_pdcp_entity_process_sdu_def Let_def bindR_eq_Inr split: if_splits)

lemma set_keys_id [simp]: "pdcp_id (pdcp_set_keys e p) = pdcp_id e"
  by (simp add: pdcp_set_keys_def Let_def)

lemma set_security_id: "nr_pdcp_entity_set_security e p = Inr e' \<Longrightarrow> pdcp_id e' = pdcp_id e"
  by (auto simp: nr_pdcp_entity_set_security_def Let_def bindR_eq_Inr split: if_splits)

lemma set_time_id [simp]: "pdcp_id (nr_pdcp_entity_set_time e t) = pdcp_id e"
  by (auto simp: nr_pdcp_entity_set_time_def check_t_reordering_def Let_def dest!: deliver_run_id split: prod.splits)

lemma suspend_id [simp]: "pdcp_id (nr_pdcp_entity_suspend e) = pdcp_id e"
  by (simp add: nr_pdcp_entity_suspend_def Let_def)

lemma release_id [simp]: "pdcp_id (nr_pdcp_entity_release e) = pdcp_id e"
  by (simp add: nr_pdcp_entity_release_def)

lemma fold_stats_id: "pdcp_id (fold (\<lambda>cur. pe_upd_stats (g cur)) l e) = pdcp_id e"
  by (induction l arbitrary: e) auto

lemma free_rx_list_id [simp]: "pdcp_id (free_rx_list e) = pdcp_id e"
  by (simp add: free_rx_list_def fold_stats_id)

lemma reestablish_id: "nr_pdcp_entity_reestablish e p = Inr e' \<Longrightarrow> pdcp_id e' = pdcp_id e"
  by (auto simp: nr_pdcp_entity_reestablish_def nr_pdcp_entity_reestablish_drb_am_def nr_pdcp_entity_reestablish_drb_um_def
      nr_pdcp_entity_reestablish_srb_def Let_def bindR_eq_Inr dest!: set_security_id split: nr_pdcp_entity_type.splits)

lemma reconfigure_sn_size_id: "reconfigure_sn_size d e = Inr e' \<Longrightarrow> pdcp_id e' = pdcp_id e"
  by (cases "pd_SN_SizeUL d"; cases "pd_SN_SizeDL d") (auto simp: reconfigure_sn_size_def mapR_def bindR_eq_Inr split: if_splits)

lemma reconfigure_id:
  assumes "reconfigure_drb_entity c e = Inr e'"
  shows "pdcp_id e' = pdcp_id e"
proof (cases c)
  case (Some cf)
  with assms show ?thesis
    by (cases "pcf_drb cf"; cases "pd_discardTimer (the (pcf_drb cf))")
      (auto simp: reconfigure_drb_entity_def mapR_def Let_def bindR_eq_Inr dest!: reconfigure_sn_size_id)
qed (use assms in \<open>simp add: reconfigure_drb_entity_def\<close>)

lemma new_entity_id: "new_nr_pdcp_entity t g rb p rx tx n r d sec = Inr e \<Longrightarrow> pdcp_id e = (t, rb)"
  unfolding new_nr_pdcp_entity_def by (drule set_security_id) (simp add: pdcp_id_def)

lemma make_pdu_id: "make_pdu cr b e = Inr (e', r) \<Longrightarrow> pdcp_id e' = pdcp_id e"
  by (auto simp: make_pdu_def bindR_eq_Inr dest: process_sdu_id)

lemmas pdcp_id_dests = recv_pdu_id process_sdu_id set_security_id reestablish_id reconfigure_id make_pdu_id

section \<open>The tables of a UE\<close>

definition srb_typed :: "nat \<Rightarrow> nr_pdcp_entity option \<Rightarrow> bool" where
  "srb_typed i p \<longleftrightarrow> (\<forall>e. p = Some e \<longrightarrow> i < 2 \<and> pdcp_id e = (NR_PDCP_SRB, int i + 1))"

definition drb_typed :: "nat \<Rightarrow> nr_pdcp_entity option \<Rightarrow> bool" where
  "drb_typed i p \<longleftrightarrow> (\<forall>e. p = Some e \<longrightarrow> i < 5 \<and> pdcp_id e = (NR_PDCP_DRB_AM, int i + 1))"

definition pdcp_ue_typed :: "nr_pdcp_ue \<Rightarrow> bool" where
  "pdcp_ue_typed ue \<longleftrightarrow> length (pu_srb ue) = 3 \<and> length (pu_drb ue) = MAX_DRBS_PER_UE \<and>
     (\<forall>i < 3. srb_typed i (pu_srb ue ! i)) \<and> (\<forall>i < MAX_DRBS_PER_UE. drb_typed i (pu_drb ue ! i))"

lemma zero_typed: "pdcp_ue_typed (nr_pdcp_ue_zero u)"
  by (simp add: pdcp_ue_typed_def nr_pdcp_ue_zero_def srb_typed_def drb_typed_def)

lemma nth_update_Some: "xs[i := p] ! j = Some e \<Longrightarrow> i = j \<and> p = Some e \<or> xs ! j = Some e"
  by (cases "i < length xs") (auto simp: nth_list_update list_update_beyond not_less split: if_splits)

lemma set_slot_typed:
  assumes "pdcp_ue_typed ue" "slot_pdcp ue s = Some e" "pdcp_id e' = pdcp_id e"
  shows "pdcp_ue_typed (set_pdcp_slot s (Some e') ue)"
  using assms by (cases s) (auto simp: pdcp_ue_typed_def srb_typed_def drb_typed_def dest!: nth_update_Some)

lemma clear_slot_typed: "pdcp_ue_typed ue \<Longrightarrow> pdcp_ue_typed (set_pdcp_slot s None ue)"
  by (cases s) (auto simp: pdcp_ue_typed_def srb_typed_def drb_typed_def dest!: nth_update_Some)

lemma set_slot_ue_id [simp]: "pu_ue_id (set_pdcp_slot s p ue) = pu_ue_id ue"
  by (cases s) simp_all

lemma add_srb_typed:
  assumes "nr_pdcp_ue_add_srb_pdcp_entity ue i e = Inr ue'" "pdcp_id e = (NR_PDCP_SRB, i)"
  shows "pu_ue_id ue' = pu_ue_id ue \<and> (pdcp_ue_typed ue \<longrightarrow> pdcp_ue_typed ue')"
  using assms by (auto simp: nr_pdcp_ue_add_srb_pdcp_entity_def pdcp_ue_typed_def srb_typed_def dest!: nth_update_Some split: if_splits)

lemma add_drb_typed:
  assumes "nr_pdcp_ue_add_drb_pdcp_entity ue i e = Inr ue'" "pdcp_id e = (NR_PDCP_DRB_AM, i)"
  shows "pu_ue_id ue' = pu_ue_id ue \<and> (pdcp_ue_typed ue \<longrightarrow> pdcp_ue_typed ue')"
  using assms by (auto simp: nr_pdcp_ue_add_drb_pdcp_entity_def pdcp_ue_typed_def drb_typed_def dest!: nth_update_Some split: if_splits)

section \<open>Frames\<close>

text \<open>
  \<open>frame U a a'\<close>: the manager stays, with the same lock count; contexts are only added at the end and only for
  the ids in \<open>U\<close>; the contexts of other ids are as before; and the tables stay typed.
\<close>

definition pdcp_ids :: "nr_pdcp_ue_manager \<Rightarrow> int list" where
  "pdcp_ids m = map pu_ue_id (pm_ue_list m)"

definition pdcp_lookup :: "nr_pdcp_ue_manager \<Rightarrow> int \<Rightarrow> nr_pdcp_ue option" where
  "pdcp_lookup m = ue_lookup pu_ue_id (pm_ue_list m)"

definition pdcp_typed :: "nr_pdcp_ue_manager \<Rightarrow> bool" where
  "pdcp_typed m \<longleftrightarrow> (\<forall>ue \<in> set (pm_ue_list m). pdcp_ue_typed ue)"

definition frame_m :: "int set \<Rightarrow> nr_pdcp_ue_manager \<Rightarrow> nr_pdcp_ue_manager \<Rightarrow> bool" where
  "frame_m U m m' \<longleftrightarrow> pm_lock m' = pm_lock m \<and>
     (\<exists>us. pdcp_ids m' = pdcp_ids m @ us) \<and> (distinct (pdcp_ids m) \<longrightarrow> distinct (pdcp_ids m')) \<and>
     (\<forall>v. v \<notin> U \<longrightarrow> pdcp_lookup m' v = pdcp_lookup m v) \<and> (pdcp_typed m \<longrightarrow> pdcp_typed m')"

definition frame :: "int set \<Rightarrow> pdcp_api \<Rightarrow> pdcp_api \<Rightarrow> bool" where
  "frame U a a' \<longleftrightarrow> (\<exists>m m'. pa_manager a = Some m \<and> pa_manager a' = Some m' \<and> frame_m U m m')"

text \<open>\<open>at_ue\<close>: the position is that of a context of the UE.\<close>

definition at_ue :: "nat \<Rightarrow> int \<Rightarrow> pdcp_api \<Rightarrow> bool" where
  "at_ue k u a \<longleftrightarrow> (\<exists>m. pa_manager a = Some m \<and> k < length (pm_ue_list m) \<and> pu_ue_id (pm_ue_list m ! k) = u)"

lemma frame_m_refl [simp]: "frame_m U m m"
  by (simp add: frame_m_def)

lemma frame_m_trans: "frame_m U m1 m2 \<Longrightarrow> frame_m U m2 m3 \<Longrightarrow> frame_m U m1 m3"
  by (auto simp: frame_m_def)

lemma frame_trans [trans]: "frame U a b \<Longrightarrow> frame U b c \<Longrightarrow> frame U a c"
  by (auto simp: frame_def intro: frame_m_trans)

lemma frame_mono: "frame U a b \<Longrightarrow> U \<subseteq> V \<Longrightarrow> frame V a b"
  by (auto simp: frame_def frame_m_def)

lemma frame_same: "pa_manager a = Some m \<Longrightarrow> pa_manager a' = pa_manager a \<Longrightarrow> frame U a a'"
  by (simp add: frame_def)

lemma frame_at: "frame U a b \<Longrightarrow> at_ue k u a \<Longrightarrow> at_ue k u b"
proof -
  assume "frame U a b" "at_ue k u a"
  then obtain m m' us where m: "pa_manager a = Some m" "pa_manager b = Some m'" "pdcp_ids m' = pdcp_ids m @ us"
    "k < length (pdcp_ids m)" "pdcp_ids m ! k = u"
    by (auto simp: frame_def frame_m_def at_ue_def pdcp_ids_def)
  then have "k < length (pdcp_ids m')" "pdcp_ids m' ! k = u" by (simp_all add: nth_append)
  with m(2) show ?thesis by (auto simp: at_ue_def pdcp_ids_def)
qed

lemma frame_set_ue:
  assumes "at_ue k u a" "pu_ue_id ue = u" "pdcp_ue_typed (pdcp_ue_at k a) \<longrightarrow> pdcp_ue_typed ue"
  shows "frame {u} a (pdcp_set_ue k ue a)"
proof -
  obtain m where m: "pa_manager a = Some m" "k < length (pm_ue_list m)" "pu_ue_id (pm_ue_list m ! k) = u"
    using assms(1) by (auto simp: at_ue_def)
  have ids: "pdcp_ids (put_pdcp_ue k ue m) = pdcp_ids m"
    unfolding pdcp_ids_def pdcp_ues.ues_put using m assms(2) by (intro map_key_update) simp_all
  have "pdcp_lookup (put_pdcp_ue k ue m) v = pdcp_lookup m v" if "v \<noteq> u" for v
    unfolding pdcp_lookup_def pdcp_ues.ues_put
    using ue_lookup_update_other [of k "pm_ue_list m" pu_ue_id v ue] m assms(2) that by simp
  moreover have "pdcp_typed (put_pdcp_ue k ue m)" if "pdcp_typed m"
    using that assms(3) m by (auto simp: pdcp_typed_def put_pdcp_ue_def pdcp_ue_at_def dest!: set_update_subset_insert [THEN subsetD])
  ultimately show ?thesis using m ids by (auto simp: frame_def frame_m_def pdcp_set_ue_def put_pdcp_ue_def)
qed

lemma frame_get_ue:
  assumes "pdcp_get_ue u a = Inr (k, a')"
  shows "frame {u} a a' \<and> at_ue k u a'"
proof -
  obtain m m' where m: "pa_manager a = Some m" "nr_pdcp_manager_get_ue m u = (k, m')" "a' = a\<lparr>pa_manager := Some m'\<rparr>"
    using assms by (auto simp: pdcp_get_ue_def split: option.splits prod.splits)
  have lock: "pm_lock m' = pm_lock m" using m(2) by (auto simp: nr_pdcp_manager_get_ue_def split: prod.splits)
  have ids: "\<exists>us. pdcp_ids m' = pdcp_ids m @ us" and typed: "pdcp_typed m \<longrightarrow> pdcp_typed m'"
    using m(2) by (cases rule: pdcp_ues.get_ue_cases; auto simp: pdcp_ids_def pdcp_typed_def zero_typed)+
  have d: "distinct (pdcp_ids m) \<longrightarrow> distinct (pdcp_ids m')"
    using pdcp_ues.get_ue_distinct [OF m(2)] by (simp add: pdcp_ids_def)
  have "\<forall>v. v \<notin> {u} \<longrightarrow> pdcp_lookup m' v = pdcp_lookup m v"
    using pdcp_ues.get_ue_others [OF m(2)] by (simp add: pdcp_lookup_def)
  with lock ids typed d m(1,3) have "frame {u} a a'" by (auto simp: frame_def frame_m_def)
  moreover have "at_ue k u a'" using pdcp_ues.get_ue_at [OF m(2)] m(3) by (simp add: at_ue_def)
  ultimately show ?thesis ..
qed

end
