(* ===== verification/Pdcp_Calls.thy ===== *)
theory Pdcp_Calls
  imports Pdcp_Frame
begin

text \<open>
  Every call of the PDCP interface has a frame: the ids it may touch, the mutex and the typing of the tables
  included. A run of the interface is a sequence of calls of any threads, each under the mutex.
\<close>

section \<open>Locked bodies\<close>

lemma frame_locked:
  assumes "pdcp_locked u body a = Inr (r, a')"
    and body: "\<And>k b s b'. at_ue k u b \<Longrightarrow> body k b = Inr (s, b') \<Longrightarrow> frame {u} b b'"
  shows "frame {u} a a'"
proof -
  obtain m where m: "pa_manager a = Some m" using assms(1) by (auto simp: pdcp_locked_def pdcp_lock_def split: option.splits)
  let ?a1 = "a\<lparr>pa_manager := Some (nr_pdcp_manager_lock m)\<rparr>"
  obtain k a2 a3 where b: "pdcp_get_ue u ?a1 = Inr (k, a2)" "body k a2 = Inr (r, a3)" "pdcp_unlock a3 = Inr a'"
    using assms(1) m by (auto simp: pdcp_locked_def pdcp_lock_def bindR_eq_Inr)
  have g: "frame {u} ?a1 a2" "at_ue k u a2" using frame_get_ue [OF b(1)] by auto
  then have "frame {u} ?a1 a3" using body [OF g(2) b(2)] frame_trans by blast
  then obtain m3 where m3: "pa_manager a3 = Some m3" "frame_m {u} (nr_pdcp_manager_lock m) m3" by (auto simp: frame_def)
  then have "pm_lock m3 = pm_lock m + 1" by (simp add: frame_m_def nr_pdcp_manager_lock_def)
  then have "pa_manager a' = Some (m3\<lparr>pm_lock := pm_lock m\<rparr>)"
    using b(3) m3(1) by (auto simp: pdcp_unlock_def nr_pdcp_manager_unlock_def)
  moreover have "frame_m {u} m (m3\<lparr>pm_lock := pm_lock m\<rparr>)"
    using m3(2) by (simp add: frame_m_def nr_pdcp_manager_lock_def pdcp_ids_def pdcp_lookup_def pdcp_typed_def)
  ultimately show ?thesis using m by (auto simp: frame_def)
qed

text \<open>What a delivery has to keep.\<close>

definition framed_delivery :: "delivery \<Rightarrow> bool" where
  "framed_delivery deliver \<longleftrightarrow>
     (\<forall>k u s sdus a a'. at_ue k u a \<longrightarrow> deliver k s sdus a = Inr a' \<longrightarrow> frame {u} a a')"

definition keeps_id :: "(nr_pdcp_entity \<Rightarrow> (nr_pdcp_entity \<times> 'a) result) \<Rightarrow> bool" where
  "keeps_id f \<longleftrightarrow> (\<forall>e e' r. f e = Inr (e', r) \<longrightarrow> pdcp_id e' = pdcp_id e)"

lemma at_ue_id: "at_ue k u a \<Longrightarrow> pu_ue_id (pdcp_ue_at k a) = u"
  by (auto simp: at_ue_def pdcp_ue_at_def)

lemma frame_call_pdcp:
  assumes "call_pdcp deliver k s f a = Inr (r, a')" "framed_delivery deliver" "keeps_id f" "at_ue k u a"
  shows "frame {u} a a'"
proof -
  obtain e e' where e: "slot_pdcp (pdcp_ue_at k a) s = Some e" "f (e\<lparr>pe_delivered := []\<rparr>) = Inr (e', r)"
    and d: "deliver k s (pe_delivered e')
      (pdcp_set_ue k (set_pdcp_slot s (Some (e'\<lparr>pe_delivered := []\<rparr>)) (pdcp_ue_at k a)) a) = Inr a'"
    using assms(1) by (auto simp: call_pdcp_def bindR_eq_Inr split: option.splits)
  let ?b = "pdcp_set_ue k (set_pdcp_slot s (Some (e'\<lparr>pe_delivered := []\<rparr>)) (pdcp_ue_at k a)) a"
  have "pdcp_id (e'\<lparr>pe_delivered := []\<rparr>) = pdcp_id e"
    using assms(3) e(2) pdcp_id_upd(2) unfolding keeps_id_def by metis
  then have "frame {u} a ?b" by (intro frame_set_ue [OF assms(4)]) (auto simp: at_ue_id [OF assms(4)] set_slot_typed [OF _ e(1)])
  moreover have "frame {u} ?b a'" using assms(2) d frame_at [OF calculation assms(4)] by (auto simp: framed_delivery_def)
  ultimately show ?thesis by (rule frame_trans)
qed

lemma frame_on_rb:
  assumes "on_pdcp_rb deliver u rb srb f none a = Inr (r, a')" "framed_delivery deliver" "keeps_id f"
  shows "frame {u} a a'"
proof (rule frame_locked [OF assms(1) [unfolded on_pdcp_rb_def]])
  fix k b s b'
  assume at: "at_ue k u b" and c: "(case nr_pdcp_get_rb (pdcp_ue_at k b) rb srb of None \<Rightarrow> Inr (none, b)
      | Some s \<Rightarrow> call_pdcp deliver k s f b) = Inr (s, b')"
  obtain m where "pa_manager b = Some m" using at by (auto simp: at_ue_def)
  with c show "frame {u} b b'" using frame_call_pdcp [OF _ assms(2,3) at] by (auto intro: frame_same split: option.splits)
qed

lemma framed_no_delivery: "framed_delivery no_delivery"
  by (auto simp: framed_delivery_def no_delivery_def at_ue_def intro: frame_same)

section \<open>Sending\<close>

lemma keeps_make_pdu: "keeps_id (make_pdu cr sdu)"
  by (auto simp: keeps_id_def dest: make_pdu_id)

lemma pdcp_send_manager [simp]: "pa_manager (pdcp_send outs a) = pa_manager a"
  by (simp add: pdcp_send_def)

lemma route_manager: "route_pdu u a = Inr (l, a') \<Longrightarrow> pa_manager a' = pa_manager a"
  by (auto simp: route_pdu_def bindR_eq_Inr split: option.splits if_splits)

lemma deliver_pdu_manager:
  "deliver_pdu_drb_gnb env u rb b mui a = Inr a' \<Longrightarrow> pa_manager a' = pa_manager a"
  "deliver_pdu_drb_ue u rb b mui a = Inr a' \<Longrightarrow> pa_manager a' = pa_manager a"
  "deliver_pdu_srb_rlc u rb b mui a = Inr a' \<Longrightarrow> pa_manager a' = pa_manager a"
  by (auto simp: deliver_pdu_drb_gnb_def deliver_pdu_drb_ue_def deliver_pdu_srb_rlc_def bindR_eq_Inr
      split: option.splits if_splits dest!: route_manager)

lemma frame_manager: "frame U a b \<Longrightarrow> pa_manager c = pa_manager b \<Longrightarrow> frame U a c"
  by (simp add: frame_def)

lemma frame_data_req_drb:
  assumes "nr_pdcp_data_req_drb env cr ctxt srb rb mui sdu a = Inr (r, a')"
  shows "frame {pc_ue ctxt} a a'"
proof -
  obtain q a1 where q: "on_pdcp_rb no_delivery (pc_ue ctxt) rb False (make_pdu cr sdu) None a = Inr (q, a1)"
    and r: "(case q of None \<Rightarrow> Inr (False, a1)
        | Some (pdu, e) \<Rightarrow>
            bindR (if pe_type e = NR_PDCP_SRB then Inl NullDeref
                   else if pe_is_gnb e then deliver_pdu_drb_gnb env (pc_ue ctxt) rb pdu mui a1
                   else deliver_pdu_drb_ue (pc_ue ctxt) rb pdu mui a1) (\<lambda>a2. Inr (True, a2))) = Inr (r, a')"
    using assms by (auto simp: nr_pdcp_data_req_drb_def bindR_eq_Inr split: if_splits)
  have "pa_manager a' = pa_manager a1"
    using r by (cases q) (auto simp: bindR_eq_Inr split: prod.splits if_splits dest: deliver_pdu_manager)
  then show ?thesis using frame_on_rb [OF q framed_no_delivery keeps_make_pdu] frame_manager by blast
qed

lemma frame_data_req_srb:
  assumes "nr_pdcp_data_req_srb cr u rb mui sdu deliver_pdu_srb_rlc a = Inr (r, a')"
  shows "frame {u} a a'"
proof -
  let ?f = "\<lambda>e. bindR (make_pdu cr sdu e) (\<lambda>(e', r). if r \<noteq> None \<and> pe_type e \<noteq> NR_PDCP_SRB then Inl Exit else Inr (e', r))"
  obtain q a1 where q: "on_pdcp_rb no_delivery u rb True ?f None a = Inr (q, a1)"
    and r: "(case q of None \<Rightarrow> Inr (False, a1)
        | Some (pdu, e) \<Rightarrow> bindR (deliver_pdu_srb_rlc u rb pdu mui a1) (\<lambda>a2. Inr (True, a2))) = Inr (r, a')"
    using assms by (auto simp: nr_pdcp_data_req_srb_def bindR_eq_Inr)
  have "keeps_id ?f" by (auto simp: keeps_id_def bindR_eq_Inr split: if_splits dest: make_pdu_id)
  then have "frame {u} a a1" using frame_on_rb [OF q framed_no_delivery] by blast
  moreover have "pa_manager a' = pa_manager a1"
    using r by (cases q) (auto simp: bindR_eq_Inr split: prod.splits dest: deliver_pdu_manager)
  ultimately show ?thesis by (rule frame_manager)
qed

section \<open>SDAP and reception\<close>

text \<open>SDAP calls PDCP only for the UE it works for.\<close>

fun sdap_for :: "int \<Rightarrow> sdap_out list \<Rightarrow> bool" where
  "sdap_for u [] \<longleftrightarrow> True"
| "sdap_for u (PdcpDataReqDrb v d b # outs) \<longleftrightarrow> v = u \<and> sdap_for u outs"
| "sdap_for u (x # outs) \<longleftrightarrow> sdap_for u outs"

lemma sdap_for_append [simp]: "sdap_for u (o1 @ o2) \<longleftrightarrow> sdap_for u o1 \<and> sdap_for u o2"
  by (induction u o1 rule: sdap_for.induct) auto

lemma frame_sdap_outs:
  assumes "sdap_outs env cr ctxt outs a = Inr (ok, a')" "sdap_for u outs" "pa_manager a \<noteq> None"
  shows "frame {u} a a'"
  using assms
proof (induction env cr ctxt outs a arbitrary: ok a' rule: sdap_outs.induct)
  case (1 env cr ctxt a)
  then show ?case by (auto intro: frame_same)
next
  case (2 env cr ctxt v drb b outs a)
  from 2(2) obtain o1 a1 o2 where a1: "nr_pdcp_data_req_drb env cr (ctxt\<lparr>pc_ue := v\<rparr>) False drb RLC_MUI_UNDEFINED b a = Inr (o1, a1)"
    and a2: "sdap_outs env cr ctxt outs a1 = Inr (o2, a')" by (auto simp: bindR_eq_Inr)
  have "v = u" using 2(3) by simp
  then have f: "frame {u} a a1" using frame_data_req_drb [OF a1] by simp
  have "pa_manager a1 \<noteq> None" using f by (auto simp: frame_def)
  then have "frame {u} a1 a'" using 2(1) [OF a2] 2(3) by simp
  with f show ?case by (rule frame_trans)
qed (auto simp: frame_def)

lemma end_marker_for: "sdap_end_marker_if c e u t q = Inr (e', outs, x) \<Longrightarrow> sdap_for u outs"
  by (auto simp: sdap_end_marker_if_def sdap_end_marker_def nr_sdap_submit_ctrl_pdu_def bindR_eq_Inr split: if_splits)

lemma rx_entity_for: "nr_sdap_rx_entity e d g rx p u b = Inr (e', outs, x) \<Longrightarrow> sdap_for u outs"
  by (auto simp: nr_sdap_rx_entity_def reflective_mapping_def bindR_eq_Inr dest!: end_marker_for split: if_splits list.splits)

lemma at_entity_out:
  assumes "at_entity i f s = Inr (r, s')"
  shows "\<exists>e outs. f (si_entities s ! i) = Inr (e, outs, r) \<and> si_out s' = si_out s @ outs"
  using assms by (auto simp: at_entity_def bindR_eq_Inr)

lemma data_ind_for: "sdap_data_ind d g rx p u b s = Inr (r, s') \<Longrightarrow> si_out s = [] \<Longrightarrow> sdap_for u (si_out s')"
  by (auto simp: sdap_data_ind_def dest!: at_entity_out rx_entity_for split: option.splits)

lemma tx_entity_for: "nr_sdap_tx_entity e ok g c rb sdu q rqi = Inr (e', outs, x) \<Longrightarrow> sdap_for c outs"
  by (auto simp: nr_sdap_tx_entity_def Let_def bindR_eq_Inr split: if_splits)

lemma data_req_for: "sdap_data_req ok g c u rb sdu q rqi p s = Inr (r, s') \<Longrightarrow> si_out s = [] \<Longrightarrow> sdap_for c (si_out s')"
  by (auto simp: sdap_data_req_def dest!: at_entity_out tx_entity_for split: option.splits)

lemma frame_call_sdap:
  assumes "call_sdap env cr ctxt f a = Inr (r, a')" "pa_manager a \<noteq> None"
    and outs: "\<And>s x s'. f s = Inr (x, s') \<Longrightarrow> si_out s = [] \<Longrightarrow> sdap_for u (si_out s')"
  shows "frame {u} a a'"
proof -
  obtain x s ok where f: "f ((pa_sdap a)\<lparr>si_out := []\<rparr>) = Inr (x, s)"
    and o: "sdap_outs env cr ctxt (si_out s) (a\<lparr>pa_sdap := s\<lparr>si_out := []\<rparr>\<rparr>) = Inr (ok, a')"
    using assms(1) by (auto simp: call_sdap_def bindR_eq_Inr)
  have "sdap_for u (si_out s)" using outs [OF f] by simp
  then show ?thesis using frame_sdap_outs [OF o] assms(2) by (simp add: frame_def)
qed

lemma mapR_snd: "mapR snd r = Inr a \<longleftrightarrow> (\<exists>x. r = Inr (x, a))"
  by (auto simp: mapR_def bindR_eq_Inr)

lemma frame_deliver_sdu_drb:
  assumes "deliver_sdu_drb env cr k i b a = Inr a'" "at_ue k u a"
  shows "frame {u} a a'"
proof -
  obtain e where e: "pu_drb (pdcp_ue_at k a) ! i = Some e"
    using assms(1) by (cases "pu_drb (pdcp_ue_at k a) ! i") (auto simp: deliver_sdu_drb_def Let_def)
  let ?f = "if pv_tun env then sdap_data_ind (pe_rb_id e) False (pe_has_sdap_rx e) (pe_pdusession_id e) u b
       else sdap_data_ind (int i + 1) (pe_is_gnb e) (pe_has_sdap_rx e) (pe_pdusession_id e) u b"
  have "mapR snd (call_sdap env cr (sdap_ctxt u) ?f a) = Inr a'"
    using assms(1) by (simp only: deliver_sdu_drb_def Let_def e option.case at_ue_id [OF assms(2)])
  then obtain x where x: "call_sdap env cr (sdap_ctxt u) ?f a = Inr (x, a')" unfolding mapR_snd by blast
  have "pa_manager a \<noteq> None" using assms(2) by (auto simp: at_ue_def)
  then show ?thesis by (rule frame_call_sdap [OF x]) (auto dest: data_ind_for split: if_splits)
qed

lemma frame_deliver_sdu_srb:
  assumes "deliver_sdu_srb env k i b d a = Inr a'" "at_ue k u a"
  shows "frame {u} a a'"
proof -
  have "pa_manager a' = pa_manager a" using assms(1) by (auto simp: deliver_sdu_srb_def Let_def split: option.splits if_splits)
  then show ?thesis using assms(2) by (auto simp: at_ue_def intro: frame_same)
qed

lemma frame_deliver_sdus: "deliver_sdus env cr k s sdus a = Inr a' \<Longrightarrow> at_ue k u a \<Longrightarrow> frame {u} a a'"
proof (induction env cr k s sdus a arbitrary: a' rule: deliver_sdus.induct)
  case (1 env cr k s a)
  then show ?case by (auto simp: at_ue_def intro: frame_same)
next
  case (2 env cr k i b d sdus a)
  then obtain a1 where a1: "deliver_sdu_srb env k i b d a = Inr a1" "deliver_sdus env cr k (PdcpSrb i) sdus a1 = Inr a'"
    by (auto simp: bindR_eq_Inr)
  have f: "frame {u} a a1" by (rule frame_deliver_sdu_srb [OF a1(1) 2(3)])
  with 2(1) [OF a1(2) frame_at [OF f 2(3)]] show ?case by (rule frame_trans [rotated])
next
  case (3 env cr k i b d sdus a)
  then obtain a1 where a1: "deliver_sdu_drb env cr k i b a = Inr a1" "deliver_sdus env cr k (PdcpDrb i) sdus a1 = Inr a'"
    by (auto simp: bindR_eq_Inr)
  have f: "frame {u} a a1" by (rule frame_deliver_sdu_drb [OF a1(1) 3(3)])
  with 3(1) [OF a1(2) frame_at [OF f 3(3)]] show ?case by (rule frame_trans [rotated])
qed

lemma framed_deliver_sdus: "framed_delivery (deliver_sdus env cr)"
  by (auto simp: framed_delivery_def dest: frame_deliver_sdus)

lemma frame_sdap_request:
  assumes "sdap_request env cr ctxt v rb sdu q rqi p a = Inr (r, a')" "pa_manager a \<noteq> None"
  shows "frame {pc_ue ctxt} a a'"
proof -
  obtain x where "call_sdap env cr ctxt (sdap_data_req True (pc_enb_flag ctxt) (pc_ue ctxt) v rb sdu q rqi p) a = Inr (x, a')"
    using assms(1) by (auto simp: sdap_request_def bindR_eq_Inr)
  then show ?thesis by (rule frame_call_sdap [OF _ assms(2)]) (auto dest: data_req_for)
qed

lemma keeps_mapR: "(\<And>e e'. f e = Inr e' \<Longrightarrow> pdcp_id e' = pdcp_id e) \<Longrightarrow> keeps_id (\<lambda>e. mapR (\<lambda>e'. (e', ())) (f e))"
  by (auto simp: keeps_id_def mapR_def bindR_eq_Inr)

lemma frame_data_ind:
  assumes "do_pdcp_data_ind env cr ctxt srb rb b a = Inr (r, a')"
  shows "frame {pc_ue ctxt} a a'"
proof -
  have "on_pdcp_rb (deliver_sdus env cr) (pc_ue ctxt) rb srb (\<lambda>e. mapR (\<lambda>e'. (e', ())) (nr_pdcp_entity_recv_pdu cr e b)) () a = Inr (r, a')"
    using assms by (auto simp: do_pdcp_data_ind_def split: if_splits)
  then show ?thesis by (rule frame_on_rb [OF _ framed_deliver_sdus keeps_mapR]) (rule recv_pdu_id)
qed

section \<open>Configuration\<close>

lemma frame_insert_srb:
  assumes "insert_srb g i t sec k b = Inr (x, b')" "at_ue k u b"
  shows "frame {u} b b'"
proof (cases "nr_pdcp_get_rb (pdcp_ue_at k b) i True")
  case None
  with assms(1) obtain e ue where e: "new_nr_pdcp_entity NR_PDCP_SRB g i 0 False False SHORT_SN_SIZE t (- 1) sec = Inr e"
    "nr_pdcp_ue_add_srb_pdcp_entity (pdcp_ue_at k b) i e = Inr ue" "b' = pdcp_set_ue k ue b"
    by (auto simp: insert_srb_def bindR_eq_Inr)
  show ?thesis unfolding e(3)
    by (rule frame_set_ue [OF assms(2)]) (use add_srb_typed [OF e(2) new_entity_id [OF e(1)]] at_ue_id [OF assms(2)] in simp_all)
next
  case (Some s)
  with assms show ?thesis by (auto simp: insert_srb_def at_ue_def intro: frame_same)
qed

lemma frame_insert_drb:
  assumes "insert_drb g v i as n t d sec k b = Inr (x, b')" "at_ue k u b"
  shows "frame {u} b b'"
proof -
  obtain p rx tx df q c where as: "as = (p, rx, tx, df, q, c)" by (cases as) blast
  show ?thesis
  proof (cases "nr_pdcp_get_rb (pdcp_ue_at k b) i False")
    case None
    with assms(1) obtain e ue s where e: "new_nr_pdcp_entity NR_PDCP_DRB_AM g i p rx tx n t d sec = Inr e"
      "nr_pdcp_ue_add_drb_pdcp_entity (pdcp_ue_at k b) i e = Inr ue" "b' = (pdcp_set_ue k ue b)\<lparr>pa_sdap := s\<rparr>"
      by (auto simp: insert_drb_def as bindR_eq_Inr)
    have "frame {u} b (pdcp_set_ue k ue b)"
      by (rule frame_set_ue [OF assms(2)]) (use add_drb_typed [OF e(2) new_entity_id [OF e(1)]] at_ue_id [OF assms(2)] in simp_all)
    then show ?thesis by (rule frame_manager) (simp add: e(3))
  next
    case (Some s)
    with assms show ?thesis by (auto simp: insert_drb_def as at_ue_def intro: frame_same)
  qed
qed

lemma frame_add_srb: "add_srb g u s sec a = Inr (r, a') \<Longrightarrow> frame {u} a a'"
  by (auto simp: add_srb_def bindR_eq_Inr dest!: frame_locked [OF _ frame_insert_srb])

lemma frame_add_drb:
  assumes "add_drb g u s sec a = Inr (r, a')"
  shows "frame {u} a a'"
proof -
  obtain as n t d sec' where "pdcp_locked u (insert_drb g u (da_drb_Identity s) as n t d sec') a = Inr (r, a')"
    using assms by (auto simp: add_drb_def Let_def bindR_eq_Inr split: if_splits)
  then show ?thesis by (rule frame_locked [OF _ frame_insert_drb])
qed

lemma frame_clear_slot:
  assumes "at_ue k u a"
  shows "frame {u} a (pdcp_set_ue k (set_pdcp_slot s None (pdcp_ue_at k a)) a)"
  by (rule frame_set_ue [OF assms]) (simp_all add: at_ue_id [OF assms] clear_slot_typed)

lemma frame_release_srb:
  assumes "nr_pdcp_release_srb u i a = Inr (r, a')"
  shows "frame {u} a a'"
  using assms unfolding nr_pdcp_release_srb_def
proof (rule frame_locked)
  fix k b x b'
  assume at: "at_ue k u b" and "bindR (array_get (i - 1) (pu_srb (pdcp_ue_at k b))) (\<lambda>p. Inr ((), if p = None then b
      else pdcp_set_ue k (set_pdcp_slot (PdcpSrb (nat (i - 1))) None (pdcp_ue_at k b)) b)) = Inr (x, b')"
  then have "b' = b \<or> b' = pdcp_set_ue k (set_pdcp_slot (PdcpSrb (nat (i - 1))) None (pdcp_ue_at k b)) b"
    by (auto simp: bindR_eq_Inr simp del: set_pdcp_slot.simps)
  then show "frame {u} b b'" using frame_clear_slot [OF at] at by (auto simp: at_ue_def intro: frame_same simp del: set_pdcp_slot.simps)
qed

lemma keeps_release: "keeps_id (\<lambda>e. Inr (nr_pdcp_entity_release e, ()))"
  by (auto simp: keeps_id_def)

lemma frame_release_drb:
  assumes "nr_pdcp_release_drb env cr u i a = Inr (r, a')"
  shows "frame {u} a a'"
  using assms unfolding nr_pdcp_release_drb_def
proof (rule frame_locked)
  fix k b x b'
  let ?s = "PdcpDrb (nat (i - 1))"
  assume at: "at_ue k u b" and b: "bindR (array_get (i - 1) (pu_drb (pdcp_ue_at k b))) (\<lambda>p.
         case p of None \<Rightarrow> Inr ((), b)
         | Some e \<Rightarrow>
             let a1 = b\<lparr>pa_sdap := nr_sdap_release_drb u i (pe_pdusession_id e) (pa_sdap b)\<rparr>; s = ?s
             in bindR (call_pdcp (deliver_sdus env cr) k s (\<lambda>e. Inr (nr_pdcp_entity_release e, ())) a1) (\<lambda>(_, a2).
                  Inr ((), pdcp_set_ue k (set_pdcp_slot s None (pdcp_ue_at k a2)) a2))) = Inr (x, b')"
  then obtain p where p: "array_get (i - 1) (pu_drb (pdcp_ue_at k b)) = Inr p" by (auto simp: bindR_eq_Inr)
  show "frame {u} b b'"
  proof (cases p)
    case None
    with b p at show ?thesis by (auto simp: at_ue_def intro: frame_same)
  next
    case (Some e)
    let ?b1 = "b\<lparr>pa_sdap := nr_sdap_release_drb u i (pe_pdusession_id e) (pa_sdap b)\<rparr>"
    from b p Some obtain b2 where c: "call_pdcp (deliver_sdus env cr) k ?s (\<lambda>e. Inr (nr_pdcp_entity_release e, ())) ?b1 = Inr ((), b2)"
      and b': "b' = pdcp_set_ue k (set_pdcp_slot ?s None (pdcp_ue_at k b2)) b2"
      by (auto simp: bindR_eq_Inr Let_def simp del: set_pdcp_slot.simps)
    have at1: "at_ue k u ?b1" using at by (simp add: at_ue_def)
    have "frame {u} b ?b1" using at by (auto simp: at_ue_def intro: frame_same)
    moreover have f2: "frame {u} ?b1 b2" by (rule frame_call_pdcp [OF c framed_deliver_sdus keeps_release at1])
    moreover have "frame {u} b2 b'" unfolding b' by (rule frame_clear_slot [OF frame_at [OF f2 at1]])
    ultimately show ?thesis by (meson frame_trans)
  qed
qed

end
