(* ===== verification/Pdcp_Run.thy ===== *)
theory Pdcp_Run
  imports Pdcp_Calls
begin

text \<open>
  Runs of the PDCP interface: a step is a call, a packet from a tun interface, a round of the timer thread or a
  report of a radio.
\<close>

section \<open>One step\<close>

datatype pdcp_call =
    PDataReqDrb protocol_ctxt bool int int "byte list"
  | PDataReqSrb int int int "byte list"
  | PSdapDataReq protocol_ctxt int int "byte list" nat bool int
  | PEnbTunRead "byte list"
  | PUeTunRead nat int "byte list"
  | PDataInd protocol_ctxt bool int "byte list"
  | PAddSrb bool int srb_to_add security_keys_and_algos
  | PAddDrb bool int drb_to_add security_keys_and_algos
  | PRemoveUe int
  | PSetSecurity int int bool security_keys_and_algos
  | PCheckIntegrity int int "byte list" nr_pdcp_integrity_data
  | PSuspendSrb int int
  | PSuspendDrb int int
  | PReconfigureSrb int int int
  | PReconfigureDrb int int "pdcp_config option"
  | PReleaseSrb int int
  | PReleaseDrb int int
  | PReestablish int int bool security_keys_and_algos
  | PGetStatistics int bool int
  | PGetNumUes nat
  | PTick int int
  | PTimer
  | PNrInfo int int int
  | PLteInfo int int int

fun pdcp_step :: "pdcp_env \<Rightarrow> pdcp_crypto \<Rightarrow> pdcp_call \<Rightarrow> pdcp_api \<Rightarrow> pdcp_api result" where
  "pdcp_step env cr (PDataReqDrb c srb rb mui b) a = mapR snd (nr_pdcp_data_req_drb env cr c srb rb mui b a)"
| "pdcp_step env cr (PDataReqSrb u rb mui b) a = mapR snd (nr_pdcp_data_req_srb cr u rb mui b deliver_pdu_srb_rlc a)"
| "pdcp_step env cr (PSdapDataReq c u rb b q rqi p) a =
     (if pa_manager a = None then Inl NullDeref else mapR snd (sdap_request env cr c u rb b q rqi p a))"
| "pdcp_step env cr (PEnbTunRead b) a = enb_tun_read env cr b a"
| "pdcp_step env cr (PUeTunRead q p b) a = ue_tun_read env cr q p b a"
| "pdcp_step env cr (PDataInd c srb rb b) a = mapR snd (do_pdcp_data_ind env cr c srb rb b a)"
| "pdcp_step env cr (PAddSrb g u s sec) a = mapR snd (add_srb g u s sec a)"
| "pdcp_step env cr (PAddDrb g u s sec) a = mapR snd (add_drb g u s sec a)"
| "pdcp_step env cr (PRemoveUe u) a = mapR snd (nr_pdcp_remove_UE u a)"
| "pdcp_step env cr (PSetSecurity u rb srb sec) a = mapR snd (nr_pdcp_config_set_security u rb srb sec a)"
| "pdcp_step env cr (PCheckIntegrity u rb b d) a = mapR snd (nr_pdcp_check_integrity_srb cr u rb b d a)"
| "pdcp_step env cr (PSuspendSrb u rb) a = mapR snd (nr_pdcp_suspend_srb env cr u rb a)"
| "pdcp_step env cr (PSuspendDrb u rb) a = mapR snd (nr_pdcp_suspend_drb env cr u rb a)"
| "pdcp_step env cr (PReconfigureSrb u rb t) a = mapR snd (nr_pdcp_reconfigure_srb u rb t a)"
| "pdcp_step env cr (PReconfigureDrb u rb c) a = mapR snd (nr_pdcp_reconfigure_drb u rb c a)"
| "pdcp_step env cr (PReleaseSrb u rb) a = mapR snd (nr_pdcp_release_srb u rb a)"
| "pdcp_step env cr (PReleaseDrb u rb) a = mapR snd (nr_pdcp_release_drb env cr u rb a)"
| "pdcp_step env cr (PReestablish u rb srb sec) a = mapR snd (nr_pdcp_reestablishment env cr u rb srb sec a)"
| "pdcp_step env cr (PGetStatistics u srb rb) a = mapR snd (nr_pdcp_get_statistics u srb rb a)"
| "pdcp_step env cr (PGetNumUes n) a = mapR snd (nr_pdcp_get_num_ues n a)"
| "pdcp_step env cr (PTick fr sf) a = Inr (nr_pdcp_tick fr sf a)"
| "pdcp_step env cr PTimer a = nr_pdcp_timer_thread env cr a"
| "pdcp_step env cr (PNrInfo u n q) a = nr_pdcp_dc_info_update u n q a"
| "pdcp_step env cr (PLteInfo u n q) a = lte_pdcp_dc_info_update u n q a"

text \<open>The UEs a step works for; the packet of a tun interface is for the first UE of the table.\<close>

fun call_ues :: "pdcp_call \<Rightarrow> pdcp_api \<Rightarrow> int set" where
  "call_ues (PDataReqDrb c srb rb mui b) a = {pc_ue c}"
| "call_ues (PDataReqSrb u rb mui b) a = {u}"
| "call_ues (PSdapDataReq c u rb b q rqi p) a = {pc_ue c}"
| "call_ues (PEnbTunRead b) a = {u. has_ue_id a = Inr (Some u)}"
| "call_ues (PUeTunRead q p b) a = {u. has_ue_id a = Inr (Some u)}"
| "call_ues (PDataInd c srb rb b) a = {pc_ue c}"
| "call_ues (PAddSrb g u s sec) a = {u}"
| "call_ues (PAddDrb g u s sec) a = {u}"
| "call_ues (PRemoveUe u) a = {u}"
| "call_ues (PSetSecurity u rb srb sec) a = {u}"
| "call_ues (PCheckIntegrity u rb b d) a = {u}"
| "call_ues (PSuspendSrb u rb) a = {u}"
| "call_ues (PSuspendDrb u rb) a = {u}"
| "call_ues (PReconfigureSrb u rb t) a = {u}"
| "call_ues (PReconfigureDrb u rb c) a = {u}"
| "call_ues (PReleaseSrb u rb) a = {u}"
| "call_ues (PReleaseDrb u rb) a = {u}"
| "call_ues (PReestablish u rb srb sec) a = {u}"
| "call_ues (PGetStatistics u srb rb) a = {u}"
| "call_ues (PGetNumUes n) a = {}"
| "call_ues (PTick fr sf) a = {}"
| "call_ues PTimer a = UNIV"
| "call_ues (PNrInfo u n q) a = {}"
| "call_ues (PLteInfo u n q) a = {}"

section \<open>Frames of the steps\<close>

lemma frame_refl: "pa_manager a \<noteq> None \<Longrightarrow> frame U a a"
  by (auto intro: frame_same)

lemma frame_change_lock:
  assumes "pdcp_lock a = Inr a1" "frame U a1 a2" "pdcp_unlock a2 = Inr a3"
  shows "frame U a a3"
proof -
  obtain m where m: "pa_manager a = Some m" "a1 = a\<lparr>pa_manager := Some (nr_pdcp_manager_lock m)\<rparr>"
    using assms(1) by (auto simp: pdcp_lock_def split: option.splits)
  obtain m2 where m2: "pa_manager a2 = Some m2" "frame_m U (nr_pdcp_manager_lock m) m2" using assms(2) m by (auto simp: frame_def)
  then have "pm_lock m2 = pm_lock m + 1" by (simp add: frame_m_def nr_pdcp_manager_lock_def)
  then have "pa_manager a3 = Some (m2\<lparr>pm_lock := pm_lock m\<rparr>)"
    using assms(3) m2(1) by (auto simp: pdcp_unlock_def nr_pdcp_manager_unlock_def)
  moreover have "frame_m U m (m2\<lparr>pm_lock := pm_lock m\<rparr>)"
    using m2(2) by (simp add: frame_m_def nr_pdcp_manager_lock_def pdcp_ids_def pdcp_lookup_def pdcp_typed_def)
  ultimately show ?thesis using m by (auto simp: frame_def)
qed

lemma frame_get_num_ues:
  assumes "nr_pdcp_get_num_ues n a = Inr (r, a')"
  shows "frame U a a'"
proof -
  obtain a1 m where a1: "pdcp_lock a = Inr a1" "deref (pa_manager a1) = Inr m" "pdcp_unlock a1 = Inr a'"
    using assms by (auto simp: nr_pdcp_get_num_ues_def bindR_eq_Inr)
  have "pa_manager a1 \<noteq> None" using a1(2) by (auto simp: deref_def split: option.splits)
  then show ?thesis using frame_change_lock [OF a1(1) frame_refl a1(3)] by blast
qed

lemma has_ue_id_manager: "has_ue_id a = Inr u \<Longrightarrow> pa_manager a \<noteq> None"
  by (auto simp: has_ue_id_def pdcp_lock_def bindR_eq_Inr split: option.splits)

lemma frame_enb_tun_read:
  assumes "enb_tun_read env cr b a = Inr a'"
  shows "frame {u. has_ue_id a = Inr (Some u)} a a'"
proof -
  obtain p where p: "has_ue_id a = Inr p" using assms by (auto simp: enb_tun_read_def bindR_eq_Inr)
  have m: "pa_manager a \<noteq> None" by (rule has_ue_id_manager [OF p])
  show ?thesis
  proof (cases p)
    case None
    then have "a' = a" using assms p by (simp add: enb_tun_read_def)
    then show ?thesis using frame_refl [OF m] by simp
  next
    case (Some u)
    then obtain r where "sdap_request env cr ((sdap_ctxt u)\<lparr>pc_enb_flag := True\<rparr>) u 1 b 7 False 10 a = Inr (r, a')"
      using assms p by (auto simp: enb_tun_read_def mapR_snd)
    from frame_sdap_request [OF this m] show ?thesis using p Some by (simp add: sdap_ctxt_def)
  qed
qed

lemma frame_ue_tun_read:
  assumes "ue_tun_read env cr q p b a = Inr a'"
  shows "frame {u. has_ue_id a = Inr (Some u)} a a'"
proof -
  obtain v where v: "has_ue_id a = Inr v" using assms by (auto simp: ue_tun_read_def bindR_eq_Inr)
  have m: "pa_manager a \<noteq> None" by (rule has_ue_id_manager [OF v])
  show ?thesis
  proof (cases v)
    case None
    then have "a' = a" using assms v by (simp add: ue_tun_read_def)
    then show ?thesis using frame_refl [OF m] by simp
  next
    case (Some u)
    then obtain r where "sdap_request env cr (sdap_ctxt u) u 1 b q True p a = Inr (r, a')"
      using assms v by (auto simp: ue_tun_read_def mapR_snd)
    from frame_sdap_request [OF this m] show ?thesis using v Some by (simp add: sdap_ctxt_def)
  qed
qed

lemma frame_slot_set_time:
  assumes "slot_set_time env cr t (k, s) a = Inr a'" "at_ue k u a"
  shows "frame {u} a a'"
proof (cases "slot_pdcp (pdcp_ue_at k a) s")
  case None
  then have "a' = a" using assms(1) by (simp add: slot_set_time_def)
  then show ?thesis using assms(2) by (auto simp: at_ue_def intro: frame_same)
next
  case (Some e)
  then obtain r where r: "call_pdcp (deliver_sdus env cr) k s (\<lambda>e. Inr (nr_pdcp_entity_set_time e t, ())) a = Inr (r, a')"
    using assms(1) by (auto simp: slot_set_time_def mapR_snd)
  have "keeps_id (\<lambda>e. Inr (nr_pdcp_entity_set_time e t, ()))" by (auto simp: keeps_id_def)
  from frame_call_pdcp [OF r framed_deliver_sdus this assms(2)] show ?thesis .
qed

lemma frame_all_slots:
  "do_all (slot_set_time env cr t) ks a = Inr a' \<Longrightarrow> pa_manager a \<noteq> None \<Longrightarrow>
   \<forall>(k, s) \<in> set ks. k < length (pm_ue_list (the (pa_manager a))) \<Longrightarrow> frame UNIV a a'"
proof (induction ks arbitrary: a)
  case Nil
  then show ?case by (simp add: frame_refl)
next
  case (Cons ks0 ks)
  obtain k s where ks0: "ks0 = (k, s)" by fastforce
  from Cons.prems obtain a1 where a1: "slot_set_time env cr t (k, s) a = Inr a1" "do_all (slot_set_time env cr t) ks a1 = Inr a'"
    by (auto simp: ks0 bindR_eq_Inr)
  have "at_ue k (pu_ue_id (pm_ue_list (the (pa_manager a)) ! k)) a" using Cons.prems(2,3) ks0 by (auto simp: at_ue_def)
  from frame_slot_set_time [OF a1(1) this] have f: "frame UNIV a a1" by (rule frame_mono) simp
  then obtain m m1 us where m: "pa_manager a = Some m" "pa_manager a1 = Some m1" "pdcp_ids m1 = pdcp_ids m @ us"
    by (auto simp: frame_def frame_m_def)
  have "length (pm_ue_list m) \<le> length (pm_ue_list m1)" using arg_cong [OF m(3), of length] by (simp add: pdcp_ids_def)
  then have "\<forall>(k, s) \<in> set ks. k < length (pm_ue_list (the (pa_manager a1)))" using Cons.prems(3) m by fastforce
  with Cons.IH [OF a1(2)] m(2) have "frame UNIV a1 a'" by simp
  with f show ?case by (rule frame_trans)
qed

lemma frame_timer:
  assumes "nr_pdcp_timer_thread env cr a = Inr a'" "pa_manager a \<noteq> None"
  shows "frame UNIV a a'"
proof (cases "pa_timer_seen a = pa_timer_time a")
  case True
  with assms show ?thesis by (simp add: nr_pdcp_timer_thread_def frame_refl)
next
  case False
  let ?a0 = "a\<lparr>pa_timer_seen := pa_timer_time a\<rparr>"
  from assms(1) False obtain a1 m a2 where a1: "pdcp_lock ?a0 = Inr a1" "deref (pa_manager a1) = Inr m"
    and a2: "do_all (slot_set_time env cr (pa_timer_time a)) (concat (map (\<lambda>k. map (Pair k) timed_slots) [0..<nr_pdcp_manager_get_ue_count m])) a1 = Inr a2"
    and a3: "pdcp_unlock a2 = Inr a'"
    by (auto simp: nr_pdcp_timer_thread_def Let_def bindR_eq_Inr)
  have m: "pa_manager a1 = Some m" using a1(2) by (auto simp: deref_def split: option.splits)
  then have "frame UNIV a1 a2" by (intro frame_all_slots [OF a2]) (auto simp: nr_pdcp_manager_get_ue_count_def)
  from frame_change_lock [OF a1(1) this a3] show ?thesis by (simp add: frame_def)
qed

lemma dc_call_manager: "dc_user_call u f a = Inr a' \<Longrightarrow> pa_manager a' = pa_manager a"
  by (auto simp: dc_user_call_def deref_def bindR_eq_Inr split: option.splits)

lemma pdcp_tick_manager: "pa_manager (nr_pdcp_tick fr sf a) = pa_manager a"
  by (simp add: nr_pdcp_tick_def Let_def nr_pdcp_wakeup_timer_thread_def)

lemma frame_entity_calls:
  "nr_pdcp_config_set_security u rb srb sec a = Inr (x, a') \<Longrightarrow> frame {u} a a'"
  "nr_pdcp_suspend_srb env cr u rb a = Inr (x, a') \<Longrightarrow> frame {u} a a'"
  "nr_pdcp_suspend_drb env cr u rb a = Inr (x, a') \<Longrightarrow> frame {u} a a'"
  "nr_pdcp_reconfigure_drb u rb c a = Inr (x, a') \<Longrightarrow> frame {u} a a'"
  "nr_pdcp_reconfigure_srb u rb t a = Inr (x, a') \<Longrightarrow> frame {u} a a'"
  "nr_pdcp_reestablishment env cr u rb srb sec a = Inr (x, a') \<Longrightarrow> frame {u} a a'"
  unfolding nr_pdcp_config_set_security_def nr_pdcp_suspend_srb_def nr_pdcp_suspend_drb_def nr_pdcp_reconfigure_drb_def
    nr_pdcp_reconfigure_srb_def nr_pdcp_reestablishment_def
  by (erule frame_on_rb, simp_all add: framed_no_delivery framed_deliver_sdus,
      auto simp: keeps_id_def mapR_def bindR_eq_Inr dest: pdcp_id_dests)+

lemma frame_statistics: "nr_pdcp_get_statistics u srb rb a = Inr (x, a') \<Longrightarrow> frame {u} a a'"
  unfolding nr_pdcp_get_statistics_def by (erule frame_on_rb) (auto simp: framed_no_delivery keeps_id_def)

lemma frame_check_integrity: "nr_pdcp_check_integrity_srb cr u rb b d a = Inr (x, a') \<Longrightarrow> frame {u} a a'"
  unfolding nr_pdcp_check_integrity_srb_def
  by (erule frame_on_rb) (auto simp: framed_no_delivery keeps_id_def mapR_def bindR_eq_Inr)

lemma pdcp_step_frame:
  assumes "pdcp_step env cr c a = Inr a'" "pa_manager a \<noteq> None" "\<forall>u. c \<noteq> PRemoveUe u"
  shows "frame (call_ues c a) a a'"
proof (cases c)
  case (PSdapDataReq ctxt u rb b q rqi p)
  then show ?thesis using assms frame_sdap_request [OF _ assms(2)] by (auto simp: mapR_snd)
next
  case (PTick fr sf)
  then show ?thesis using assms by (auto simp: pdcp_tick_manager intro: frame_same)
next
  case (PNrInfo u n q)
  then show ?thesis using assms by (auto simp: nr_pdcp_dc_info_update_def dest: dc_call_manager intro: frame_same)
next
  case (PLteInfo u n q)
  then show ?thesis using assms by (auto simp: lte_pdcp_dc_info_update_def dest: dc_call_manager intro: frame_same)
next
  case PTimer
  then show ?thesis using assms frame_timer by simp
next
  case (PRemoveUe u)
  then show ?thesis using assms(3) by simp
qed (use assms(1) in \<open>auto simp: mapR_snd dest: frame_data_req_drb frame_data_req_srb frame_enb_tun_read frame_ue_tun_read
    frame_data_ind frame_add_srb frame_add_drb frame_entity_calls frame_check_integrity frame_release_srb frame_release_drb
    frame_statistics frame_get_num_ues\<close>)

lemma remove_UE_manager:
  assumes "nr_pdcp_remove_UE u a = Inr (x, a')"
  shows "\<exists>m m'. pa_manager a = Some m \<and> pa_manager a' = Some m' \<and> pm_lock m' = pm_lock m \<and>
    nr_pdcp_manager_remove_ue (nr_pdcp_manager_lock m) u = Inr (nr_pdcp_manager_lock m')"
proof -
  obtain m where m: "pa_manager a = Some m" using assms by (auto simp: nr_pdcp_remove_UE_def pdcp_lock_def split: option.splits)
  then obtain m2 where r: "nr_pdcp_manager_remove_ue (nr_pdcp_manager_lock m) u = Inr m2"
    and ul: "pdcp_unlock (a\<lparr>pa_manager := Some m2\<rparr>) = Inr a'"
    using assms by (auto simp: nr_pdcp_remove_UE_def pdcp_lock_def deref_def bindR_eq_Inr)
  have l: "pm_lock m2 = pm_lock m + 1"
    using r by (auto simp: nr_pdcp_manager_remove_ue_def nr_pdcp_manager_lock_def split: option.splits)
  then have "m2 = nr_pdcp_manager_lock (m2\<lparr>pm_lock := pm_lock m\<rparr>)" by (simp add: nr_pdcp_manager_lock_def)
  moreover have "pa_manager a' = Some (m2\<lparr>pm_lock := pm_lock m\<rparr>)"
    using ul l by (auto simp: pdcp_unlock_def nr_pdcp_manager_unlock_def)
  ultimately show ?thesis using m r by auto
qed

lemma lock_lookup [simp]:
  "pdcp_lookup (nr_pdcp_manager_lock m) = pdcp_lookup m" "pdcp_ids (nr_pdcp_manager_lock m) = pdcp_ids m"
  "pdcp_typed (nr_pdcp_manager_lock m) = pdcp_typed m" "pm_ue_list (nr_pdcp_manager_lock m) = pm_ue_list m"
  by (simp_all add: pdcp_lookup_def pdcp_ids_def pdcp_typed_def nr_pdcp_manager_lock_def)

lemma remove_typed: "nr_pdcp_manager_remove_ue m u = Inr m' \<Longrightarrow> pdcp_typed m \<Longrightarrow> pdcp_typed m'"
  unfolding nr_pdcp_manager_remove_ue_def pdcp_typed_def ue_drop_def
  by (cases "ue_index pu_ue_id u (pm_ue_list m)") (auto dest!: in_set_takeD in_set_dropD)

lemma remove_UE_ok:
  assumes "nr_pdcp_remove_UE u a = Inr (x, a')" "pa_manager a = Some m"
  shows "\<exists>m'. pa_manager a' = Some m' \<and> pm_lock m' = pm_lock m \<and> (pdcp_typed m \<longrightarrow> pdcp_typed m') \<and>
    (distinct (pdcp_ids m) \<longrightarrow> distinct (pdcp_ids m')) \<and> (\<forall>v. v \<noteq> u \<longrightarrow> pdcp_lookup m' v = pdcp_lookup m v)"
proof -
  obtain m' where m': "pa_manager a' = Some m'" "pm_lock m' = pm_lock m"
    and r: "nr_pdcp_manager_remove_ue (nr_pdcp_manager_lock m) u = Inr (nr_pdcp_manager_lock m')"
    using remove_UE_manager [OF assms(1)] assms(2) by auto
  have "\<forall>v. v \<noteq> u \<longrightarrow> pdcp_lookup m' v = pdcp_lookup m v" using pdcp_ues.remove_others [OF r] by (simp add: pdcp_lookup_def)
  moreover have "distinct (pdcp_ids m) \<longrightarrow> distinct (pdcp_ids m')" using pdcp_ues.remove_same [OF r] by (simp add: pdcp_ids_def)
  moreover have "pdcp_typed m \<longrightarrow> pdcp_typed m'" using remove_typed [OF r] by simp
  ultimately show ?thesis using m' by blast
qed

section \<open>Reachable states\<close>

inductive pdcp_reachable :: "pdcp_env \<Rightarrow> pdcp_crypto \<Rightarrow> pdcp_api \<Rightarrow> bool" for env cr where
  pdcp_started: "pdcp_reachable env cr ((nr_pdcp_layer_init pdcp_api_start)\<lparr>pa_forward := fw, pa_users := us\<rparr>)"
| pdcp_called: "pdcp_reachable env cr a \<Longrightarrow> pdcp_step env cr c a = Inr a' \<Longrightarrow> pdcp_reachable env cr a'"
| pdcp_users_changed: "pdcp_reachable env cr a \<Longrightarrow> pdcp_reachable env cr (a\<lparr>pa_forward := fw, pa_users := us\<rparr>)"

definition pdcp_ok :: "pdcp_api \<Rightarrow> bool" where
  "pdcp_ok a \<longleftrightarrow> (\<exists>m. pa_manager a = Some m \<and> pm_lock m = 0 \<and> distinct (pdcp_ids m) \<and> pdcp_typed m)"

lemma pdcp_step_ok:
  assumes "pdcp_step env cr c a = Inr a'" "pdcp_ok a"
  shows "pdcp_ok a'"
proof (cases "\<exists>u. c = PRemoveUe u")
  case True
  then obtain u x where "nr_pdcp_remove_UE u a = Inr (x, a')" using assms(1) by (auto simp: mapR_snd)
  from remove_UE_ok [OF this] assms(2) show ?thesis by (auto simp: pdcp_ok_def)
next
  case False
  have "pa_manager a \<noteq> None" using assms(2) by (auto simp: pdcp_ok_def)
  from pdcp_step_frame [OF assms(1) this] False assms(2) show ?thesis by (auto simp: pdcp_ok_def frame_def frame_m_def)
qed

lemma pdcp_reachable_ok: "pdcp_reachable env cr a \<Longrightarrow> pdcp_ok a"
proof (induction rule: pdcp_reachable.induct)
  case (pdcp_started fw us)
  show ?case by (simp add: pdcp_ok_def nr_pdcp_layer_init_def pdcp_api_start_def new_nr_pdcp_ue_manager_def pdcp_ids_def pdcp_typed_def)
next
  case (pdcp_called a c a')
  then show ?case using pdcp_step_ok by blast
next
  case (pdcp_users_changed a fw us)
  then show ?case by (simp add: pdcp_ok_def)
qed

section \<open>Properties\<close>

text \<open>
  Property C21. In every state that the calls of PDCP, its threads and the tun interfaces reach, from a started layer and
  whatever RRC does to the users of dual connectivity: the mutex is free again; each id has one context with
  arrays of the declared sizes; and an entity is only where its kind and number say, an SRB in the first two
  and an AM DRB in the first five slots. So the loops with the bounds 2 and 5 that free the entities of a UE
  and that drive their timers reach all of them.
\<close>

theorem pdcp_tables_well_typed:
  assumes "pdcp_reachable env cr a"
  shows "\<exists>m. pa_manager a = Some m \<and> pm_lock m = 0 \<and> distinct (pdcp_ids m) \<and>
    (\<forall>ue \<in> set (pm_ue_list m). length (pu_srb ue) = 3 \<and> length (pu_drb ue) = MAX_DRBS_PER_UE \<and>
       (\<forall>i e. i < 3 \<and> pu_srb ue ! i = Some e \<longrightarrow> i < 2 \<and> pe_type e = NR_PDCP_SRB \<and> pe_rb_id e = int i + 1) \<and>
       (\<forall>i e. i < MAX_DRBS_PER_UE \<and> pu_drb ue ! i = Some e \<longrightarrow> i < 5 \<and> pe_type e = NR_PDCP_DRB_AM \<and> pe_rb_id e = int i + 1))"
proof -
  obtain m where m: "pa_manager a = Some m" "pm_lock m = 0" "distinct (pdcp_ids m)" "pdcp_typed m"
    using pdcp_reachable_ok [OF assms] by (auto simp: pdcp_ok_def)
  from m(4) have "\<forall>ue \<in> set (pm_ue_list m). length (pu_srb ue) = 3 \<and> length (pu_drb ue) = MAX_DRBS_PER_UE \<and>
       (\<forall>i e. i < 3 \<and> pu_srb ue ! i = Some e \<longrightarrow> i < 2 \<and> pe_type e = NR_PDCP_SRB \<and> pe_rb_id e = int i + 1) \<and>
       (\<forall>i e. i < MAX_DRBS_PER_UE \<and> pu_drb ue ! i = Some e \<longrightarrow> i < 5 \<and> pe_type e = NR_PDCP_DRB_AM \<and> pe_rb_id e = int i + 1)"
    by (auto simp: pdcp_typed_def pdcp_ue_typed_def srb_typed_def drb_typed_def pdcp_id_def)
  with m show ?thesis by blast
qed

text \<open>
  Property C22. No step of PDCP for one UE changes the bearers of another: of a UE that the step does not work for, the
  context before and after is the same.
\<close>

theorem pdcp_calls_isolated:
  assumes "pdcp_reachable env cr a" "pdcp_step env cr c a = Inr a'" "v \<notin> call_ues c a"
  shows "pdcp_lookup (the (pa_manager a')) v = pdcp_lookup (the (pa_manager a)) v"
proof (cases "\<exists>u. c = PRemoveUe u")
  case True
  then obtain u x where r: "c = PRemoveUe u" "nr_pdcp_remove_UE u a = Inr (x, a')" using assms(2) by (auto simp: mapR_snd)
  obtain m where "pa_manager a = Some m" using pdcp_reachable_ok [OF assms(1)] by (auto simp: pdcp_ok_def)
  with remove_UE_ok [OF r(2)] r(1) assms(3) show ?thesis by fastforce
next
  case False
  have "pa_manager a \<noteq> None" using pdcp_reachable_ok [OF assms(1)] by (auto simp: pdcp_ok_def)
  from pdcp_step_frame [OF assms(2) this] False assms(3) show ?thesis by (auto simp: frame_def frame_m_def)
qed

section \<open>Witnesses\<close>

definition demo_env :: pdcp_env where
  "demo_env = \<lparr>pv_is_cu = False, pv_tun = True, pv_f1_ue_data = (\<lambda>u. Some (u + 100))\<rparr>"

definition demo_start :: pdcp_api where
  "demo_start = nr_pdcp_layer_init pdcp_api_start"

text \<open>The second signalling bearer of UE 7 is added.\<close>

definition demo_added :: pdcp_api where
  "demo_added = projr (pdcp_step demo_env demo_crypto (PAddSrb True 7 \<lparr>sa_srb_Identity = 2, sa_pdcp_Config = None\<rparr> demo_keys) demo_start)"

lemma demo_start_reachable: "pdcp_reachable demo_env demo_crypto demo_start"
proof -
  have "demo_start = (nr_pdcp_layer_init pdcp_api_start)\<lparr>pa_forward := pa_forward demo_start, pa_users := pa_users demo_start\<rparr>"
    by (simp add: demo_start_def)
  then show ?thesis using pdcp_started [of demo_env demo_crypto "pa_users demo_start" "pa_forward demo_start"] by simp
qed

lemma demo_added_step:
  "pdcp_step demo_env demo_crypto (PAddSrb True 7 \<lparr>sa_srb_Identity = 2, sa_pdcp_Config = None\<rparr> demo_keys) demo_start = Inr demo_added"
  by (simp add: demo_added_def demo_start_def add_srb_def t_reordering_of_def pdcp_locked_def pdcp_lock_def nr_pdcp_layer_init_def
      pdcp_api_start_def new_nr_pdcp_ue_manager_def pdcp_get_ue_def nr_pdcp_manager_lock_def nr_pdcp_manager_get_ue_def ue_get_def
      insert_srb_def pdcp_ue_at_def nr_pdcp_get_rb_def nr_pdcp_ue_zero_def new_nr_pdcp_entity_def nr_pdcp_entity_set_security_def
      pdcp_set_keys_def demo_keys_def Let_def nr_pdcp_ue_add_srb_pdcp_entity_def pdcp_set_ue_def put_pdcp_ue_def pdcp_unlock_def
      nr_pdcp_manager_unlock_def mapR_def)

theorem pdcp_tables_well_typed_witness: "\<exists>m. pa_manager demo_added = Some m \<and> pm_lock m = 0 \<and> distinct (pdcp_ids m)"
  using pdcp_tables_well_typed [OF pdcp_called [OF demo_start_reachable demo_added_step]] by blast

theorem pdcp_calls_isolated_witness:
  "pdcp_lookup (the (pa_manager demo_added)) 8 = pdcp_lookup (the (pa_manager demo_start)) 8"
  by (rule pdcp_calls_isolated [OF demo_start_reachable demo_added_step]) simp

end
