(* ===== verification/User_Plane.thy ===== *)
theory User_Plane
  imports Pdcp_Run Sdap_Proofs
begin

text \<open>
  The downlink through SDAP and PDCP of a gNB, over either radio, up to the IP stack of a UE: the operations of
  both sides composed as the code composes them. The radios are taken to hand every PDU over once and in
  order, which is what the theories of RLC and of the queues are about.
\<close>

section \<open>An entity keeps its configuration\<close>

definition pdcp_cfg :: "nr_pdcp_entity \<Rightarrow> (nr_pdcp_entity_type \<times> int \<times> int \<times> nat \<times> int \<times> int) \<times>
    (bool \<times> bool \<times> bool \<times> bool \<times> bool \<times> bool) \<times> (int \<times> key) option \<times> (int \<times> key) option" where
  "pdcp_cfg e = ((pe_type e, pe_rb_id e, pe_pdusession_id e, pe_sn_size e, pe_sn_max e, pe_window_size e),
     (pe_has_sdap_rx e, pe_has_sdap_tx e, pe_has_ciphering e, pe_has_integrity e, pe_is_gnb e, pe_entity_suspended e),
     pe_security e, pe_integrity e)"

lemma pdcp_cfg_upd [simp]:
  "pdcp_cfg (pe_upd_stats f e) = pdcp_cfg e" "pdcp_cfg (e\<lparr>pe_delivered := d\<rparr>) = pdcp_cfg e" "pdcp_cfg (e\<lparr>pe_rx_list := l\<rparr>) = pdcp_cfg e"
  "pdcp_cfg (e\<lparr>pe_tx_next := c\<rparr>) = pdcp_cfg e" "pdcp_cfg (e\<lparr>pe_rx_next := c\<rparr>) = pdcp_cfg e" "pdcp_cfg (e\<lparr>pe_rx_deliv := c\<rparr>) = pdcp_cfg e"
  "pdcp_cfg (e\<lparr>pe_rx_reord := c\<rparr>) = pdcp_cfg e" "pdcp_cfg (e\<lparr>pe_rx_size := n\<rparr>) = pdcp_cfg e"
  "pdcp_cfg (e\<lparr>pe_t_reordering_start := t\<rparr>) = pdcp_cfg e"
  by (simp_all add: pdcp_cfg_def pe_upd_stats_def)

lemma deliver_run_cfg: "pdcp_deliver_run c l e = (c', e') \<Longrightarrow> pdcp_cfg e' = pdcp_cfg e"
  by (induction c l e rule: pdcp_deliver_run.induct) (auto simp: pdcp_deliver_def split: if_splits)

lemma store_sdu_cfg [simp]: "pdcp_cfg (pdcp_store_sdu e c sdu n d) = pdcp_cfg e"
  by (auto simp: pdcp_store_sdu_def pdcp_reordering_timer_def Let_def dest!: deliver_run_cfg split: prod.splits)

lemma recv_pdu_cfg: "nr_pdcp_entity_recv_pdu cr e b = Inr e' \<Longrightarrow> pdcp_cfg e' = pdcp_cfg e"
  by (auto simp: nr_pdcp_entity_recv_pdu_def pdcp_recv_data_def pdcp_discard_def Let_def bindR_eq_Inr split: if_splits option.splits)

lemma process_sdu_cfg: "nr_pdcp_entity_process_sdu cr e b n = Inr (p, e') \<Longrightarrow> pdcp_cfg e' = pdcp_cfg e"
  by (auto simp: nr_pdcp_entity_process_sdu_def Let_def bindR_eq_Inr split: if_splits)

lemma process_sdu_tx_next: "nr_pdcp_entity_process_sdu cr e b n = Inr (Some p, e') \<Longrightarrow> pe_tx_next e' = pe_tx_next e + 1"
  by (auto simp: nr_pdcp_entity_process_sdu_def Let_def bindR_eq_Inr split: if_splits)

lemma peers_cfg: "pdcp_peers s r \<Longrightarrow> pdcp_cfg s' = pdcp_cfg s \<Longrightarrow> pdcp_cfg r' = pdcp_cfg r \<Longrightarrow> pdcp_peers s' r'"
  by (simp add: pdcp_peers_def pdcp_config_ok_def pdcp_cfg_def)

text \<open>The receiver has everything up to here, and the sender's next SDU is the one it waits for.\<close>

definition in_step :: "nr_pdcp_entity \<Rightarrow> nr_pdcp_entity \<Rightarrow> bool" where
  "in_step s r \<longleftrightarrow> pdcp_peers s r \<and> pdcp_rx_inv r \<and> pe_rx_list r = [] \<and> pe_tx_next s = pe_rx_deliv r"

lemma in_step_sdu:
  assumes "crypto_ok cr" "in_step s r" "pe_delivered r = []" "pe_tx_next s \<noteq> -1" "pdcp_sdap_size (pe_has_sdap_tx s) < length sdu"
  shows "\<exists>pdu s' r' d. nr_pdcp_entity_process_sdu cr s sdu (nr_max_pdcp_pdu_size (int (length sdu))) = Inr (Some pdu, s') \<and>
    nr_pdcp_entity_recv_pdu cr r pdu = Inr r' \<and> pe_delivered r' = [(sdu, d)] \<and>
    in_step (s'\<lparr>pe_delivered := x\<rparr>) (r'\<lparr>pe_delivered := y\<rparr>) \<and> pdcp_cfg s' = pdcp_cfg s \<and> pdcp_cfg r' = pdcp_cfg r \<and>
    pe_tx_next s' = pe_tx_next s + 1"
proof -
  have p: "pdcp_peers s r" "pdcp_rx_inv r" "pe_rx_list r = []" "pe_tx_next s = pe_rx_deliv r" using assms(2) by (simp_all add: in_step_def)
  have w: "0 < pe_window_size r" using p(1) by (auto simp: pdcp_peers_def pdcp_config_ok_def)
  obtain pdu s' f msg where r: "nr_pdcp_entity_process_sdu cr s sdu (nr_max_pdcp_pdu_size (int (length sdu))) = Inr (Some pdu, s')"
    "nr_pdcp_entity_recv_pdu cr r pdu = Inr (if pe_tx_next s < pe_rx_deliv r \<or> nr_pdcp_sdu_in_list (pe_rx_list r) (pe_tx_next s)
           then pdcp_discard (pe_upd_stats f r) (length pdu)
           else pdcp_store_sdu (pe_upd_stats f r) (pe_tx_next s) sdu (int (length pdu) - int (pdcp_header_size r)) msg)"
    using pdcp_recv_stores [OF assms(1) p(1) _ assms(5), of "nr_max_pdcp_pdu_size (int (length sdu))"] p(4) w by auto
  let ?e = "pe_upd_stats f r"
  define r' where "r' = pdcp_store_sdu ?e (pe_tx_next s) sdu (int (length pdu) - int (pdcp_header_size r)) msg"
  have recv: "nr_pdcp_entity_recv_pdu cr r pdu = Inr r'" using r(2) p(3,4) by (simp add: r'_def)
  have inv: "pdcp_rx_inv ?e" using p(2) by (simp add: pdcp_rx_inv_def)
  let ?x = "nr_pdcp_new_sdu (pe_tx_next s) sdu msg"
  obtain ds where ds: "pdcp_rx_inv r'" "pe_delivered r' = pe_delivered r @ map sdu_item ds" "pe_rx_deliv r' = pe_rx_deliv r + of_nat (length ds)"
    "nr_pdcp_sdu_list_add (pe_rx_list r) ?x = ds @ pe_rx_list r'" "ds \<noteq> []"
    using store_sdu_ok [OF inv, of "pe_tx_next s" ?x sdu msg r'] p(3,4) assms(4) by (auto simp: r'_def)
  then have "[?x] = ds @ pe_rx_list r'" using p(3) by (simp add: nr_pdcp_sdu_list_add_def)
  then have x: "ds = [?x]" "pe_rx_list r' = []" using ds(5) by (auto simp: Cons_eq_append_conv)
  have cfg: "pdcp_cfg s' = pdcp_cfg s" "pdcp_cfg r' = pdcp_cfg r" using process_sdu_cfg [OF r(1)] recv_pdu_cfg [OF recv] by simp_all
  have tx: "pe_tx_next s' = pe_tx_next s + 1" by (rule process_sdu_tx_next [OF r(1)])
  have "pe_delivered r' = [(sdu, msg)]" using ds(2) x(1) assms(3) by (simp add: nr_pdcp_new_sdu_def)
  moreover have "pdcp_rx_inv (r'\<lparr>pe_delivered := y\<rparr>)" using ds(1) by (simp add: pdcp_rx_inv_def)
  then have "in_step (s'\<lparr>pe_delivered := x\<rparr>) (r'\<lparr>pe_delivered := y\<rparr>)"
    using peers_cfg [OF p(1), of "s'\<lparr>pe_delivered := x\<rparr>" "r'\<lparr>pe_delivered := y\<rparr>"] cfg tx x ds(3) p(4) by (simp add: in_step_def)
  ultimately show ?thesis using r(1) recv cfg tx by blast
qed

section \<open>A call on a data bearer that exists\<close>

definition drb_entity :: "pdcp_api \<Rightarrow> int \<Rightarrow> int \<Rightarrow> nr_pdcp_entity option" where
  "drb_entity a u drb =
     (case pa_manager a of None \<Rightarrow> None | Some m \<Rightarrow>
        (case pdcp_lookup m u of None \<Rightarrow> None | Some ue \<Rightarrow>
           if 1 \<le> drb \<and> drb \<le> int MAX_DRBS_PER_UE \<and> nat (drb - 1) < length (pu_drb ue) then pu_drb ue ! nat (drb - 1) else None))"

lemma on_rb_entity:
  assumes e: "drb_entity a u drb = Some e" and f: "f (e\<lparr>pe_delivered := []\<rparr>) = Inr (e', r)"
    and d: "\<And>k b. at_ue k u b \<Longrightarrow> pu_drb (pdcp_ue_at k b) ! nat (drb - 1) = Some (e'\<lparr>pe_delivered := []\<rparr>) \<Longrightarrow> pa_sdap b = pa_sdap a \<Longrightarrow>
      deliver k (PdcpDrb (nat (drb - 1))) (pe_delivered e') b = Inr (pdcp_send outs b)"
  shows "\<exists>m'. on_pdcp_rb deliver u drb False f none a = Inr (r, (pdcp_send outs a)\<lparr>pa_manager := Some m'\<rparr>) \<and>
    (\<forall>b. pa_manager b = Some m' \<longrightarrow> drb_entity b u drb = Some (e'\<lparr>pe_delivered := []\<rparr>))"
proof -
  let ?i = "nat (drb - 1)" and ?e = "e'\<lparr>pe_delivered := []\<rparr>"
  obtain m ue where m: "pa_manager a = Some m" "pdcp_lookup m u = Some ue" "1 \<le> drb" "drb \<le> int MAX_DRBS_PER_UE"
    "?i < length (pu_drb ue)" "pu_drb ue ! ?i = Some e"
    using e by (auto simp: drb_entity_def split: option.splits if_splits)
  obtain k where k: "ue_index pu_ue_id u (pm_ue_list m) = Some k" "pm_ue_list m ! k = ue"
    using m(2) by (auto simp: pdcp_lookup_def ue_lookup_def split: option.splits)
  have kl: "k < length (pm_ue_list m)" "pu_ue_id ue = u" using ue_index_Some [OF k(1)] k(2) by auto
  let ?m1 = "nr_pdcp_manager_lock m"
  let ?ue' = "ue\<lparr>pu_drb := (pu_drb ue)[?i := Some ?e]\<rparr>"
  let ?a1 = "a\<lparr>pa_manager := Some ?m1\<rparr>" and ?m' = "put_pdcp_ue k ?ue' m"
  let ?b = "a\<lparr>pa_manager := Some (put_pdcp_ue k ?ue' ?m1)\<rparr>"
  have lock: "pdcp_lock a = Inr ?a1" using m(1) by (simp add: pdcp_lock_def)
  have get: "pdcp_get_ue u ?a1 = Inr (k, ?a1)"
    using k(1) by (simp add: pdcp_get_ue_def nr_pdcp_manager_get_ue_def ue_get_def nr_pdcp_manager_lock_def)
  have at: "pdcp_ue_at k ?a1 = ue" using k(2) by (simp add: pdcp_ue_at_def)
  have rb: "nr_pdcp_get_rb ue drb False = Some (PdcpDrb ?i)" using m(3-6) by (simp add: nr_pdcp_get_rb_def)
  have set: "pdcp_set_ue k (set_pdcp_slot (PdcpDrb ?i) (Some ?e) ue) ?a1 = ?b" by (simp add: pdcp_set_ue_def)
  have ueb: "pdcp_ue_at k ?b = ?ue'" using kl(1) by (simp add: pdcp_ue_at_def put_pdcp_ue_def nr_pdcp_manager_lock_def)
  have "at_ue k u ?b" using kl by (simp add: at_ue_def put_pdcp_ue_def nr_pdcp_manager_lock_def)
  moreover have "pu_drb (pdcp_ue_at k ?b) ! ?i = Some ?e" unfolding ueb using m(5) by simp
  ultimately have del: "deliver k (PdcpDrb ?i) (pe_delivered e') ?b = Inr (pdcp_send outs ?b)" by (rule d) simp
  have call: "call_pdcp deliver k (PdcpDrb ?i) f ?a1 = Inr (r, pdcp_send outs ?b)"
    unfolding call_pdcp_def at using m(6) f del set by simp
  have "pdcp_unlock (pdcp_send outs ?b) = Inr ((pdcp_send outs a)\<lparr>pa_manager := Some ?m'\<rparr>)"
    by (simp add: pdcp_unlock_def pdcp_send_def nr_pdcp_manager_unlock_def nr_pdcp_manager_lock_def put_pdcp_ue_def)
  then have res: "on_pdcp_rb deliver u drb False f none a = Inr (r, (pdcp_send outs a)\<lparr>pa_manager := Some ?m'\<rparr>)"
    by (simp add: on_pdcp_rb_def pdcp_locked_def lock get at rb call)
  have "pdcp_lookup ?m' u = Some ?ue'"
    unfolding pdcp_lookup_def pdcp_ues.ues_put using ue_lookup_update_same [OF k(1), of ?ue'] kl(2) by simp
  then have "\<forall>b. pa_manager b = Some ?m' \<longrightarrow> drb_entity b u drb = Some ?e" using m(3-5) by (simp add: drb_entity_def)
  with res show ?thesis by blast
qed

section \<open>The radios\<close>

text \<open>The user of the split, if there is one, has not been freed and has a sound history.\<close>

definition radio_ok :: "pdcp_api \<Rightarrow> int \<Rightarrow> bool" where
  "radio_ok a du \<longleftrightarrow> (\<forall>info p. get_forward_info (pa_forward a) du = Some info \<longrightarrow> fi_user info = Some p \<longrightarrow>
     (\<exists>user. pa_users a p = Some user \<and> dc_history_ok user))"

lemma route_ok:
  assumes "radio_ok a du"
  shows "\<exists>l us. route_pdu du a = Inr (l, a\<lparr>pa_users := us\<rparr>) \<and> radio_ok (a\<lparr>pa_users := us\<rparr>) du \<and>
    (l \<longrightarrow> get_forward_info (pa_forward a) du \<noteq> None)"
proof (cases "\<exists>info p user. get_forward_info (pa_forward a) du = Some info \<and> fi_user info = Some p \<and> pa_users a p = Some user \<and> du_is_active user")
  case True
  then obtain info p user where u: "get_forward_info (pa_forward a) du = Some info" "fi_user info = Some p" "pa_users a p = Some user" "du_is_active user"
    by blast
  have h: "dc_history_ok user" using assms u by (auto simp: radio_ok_def)
  obtain l user' where r: "pdcp_multi_path_routing user = Inr (l, user')" "dc_history_ok user'"
    using h by (auto simp: pdcp_multi_path_routing_def dc_history_ok_def Let_def HISTORY_SIZE_def)
  let ?us = "(pa_users a)(p := Some user')"
  have "route_pdu du a = Inr (l, a\<lparr>pa_users := ?us\<rparr>)" using u r(1) by (simp add: route_pdu_def)
  moreover have "radio_ok (a\<lparr>pa_users := ?us\<rparr>) du" using assms u r(2) by (auto simp: radio_ok_def)
  ultimately show ?thesis using u(1) by blast
next
  case False
  have "route_pdu du a = Inr (False, a)"
    using False assms by (auto simp: route_pdu_def radio_ok_def split: option.splits)
  then have "route_pdu du a = Inr (False, a\<lparr>pa_users := pa_users a\<rparr>)" by simp
  with assms show ?thesis by (intro exI [of _ False] exI [of _ "pa_users a"]) simp
qed

text \<open>A PDU on a data bearer as a radio takes it: from the queue of RLC or from X2.\<close>

fun radio_pdu :: "pdcp_out \<Rightarrow> (int \<times> byte list) option" where
  "radio_pdu (EnqueueRlcDataReq enb u srb rb mui b) = (if srb then None else Some (rb, b))"
| "radio_pdu (X2DataForwarding info rb b) = Some (rb, b)"
| "radio_pdu x = None"

lemma gnb_delivers:
  assumes "pv_f1_ue_data env u = Some du" "\<not> pv_is_cu env" "radio_ok a du"
  shows "\<exists>x us. deliver_pdu_drb_gnb env u drb pdu mui a = Inr (pdcp_send [x] (a\<lparr>pa_users := us\<rparr>)) \<and>
    radio_pdu x = Some (drb, pdu) \<and> radio_ok (a\<lparr>pa_users := us\<rparr>) du"
proof -
  obtain l us where r: "route_pdu du a = Inr (l, a\<lparr>pa_users := us\<rparr>)" "radio_ok (a\<lparr>pa_users := us\<rparr>) du"
    "l \<longrightarrow> get_forward_info (pa_forward a) du \<noteq> None" using route_ok [OF assms(3)] by blast
  show ?thesis
  proof (cases l)
    case True
    with r(3) obtain info where "get_forward_info (pa_forward a) du = Some info" by auto
    with True r assms(1,2) show ?thesis
      by (intro exI [of _ "X2DataForwarding info drb pdu"] exI [of _ us]) (simp add: deliver_pdu_drb_gnb_def)
  next
    case False
    with r assms(1,2) show ?thesis
      by (intro exI [of _ "EnqueueRlcDataReq True du False drb mui pdu"] exI [of _ us]) (simp add: deliver_pdu_drb_gnb_def)
  qed
qed

section \<open>One packet\<close>

text \<open>The packet goes through SDAP and PDCP of the gNB, and what comes out for the radios goes to the UE.\<close>

fun radio_deliver :: "pdcp_env \<Rightarrow> pdcp_crypto \<Rightarrow> protocol_ctxt \<Rightarrow> pdcp_out list \<Rightarrow> pdcp_api \<Rightarrow> pdcp_api result" where
  "radio_deliver env cr ctxt [] b = Inr b"
| "radio_deliver env cr ctxt (x # xs) b =
     (case radio_pdu x of
        None \<Rightarrow> radio_deliver env cr ctxt xs b
      | Some (rb, pdu) \<Rightarrow> bindR (do_pdcp_data_ind env cr ctxt False rb pdu b) (\<lambda>(_, b'). radio_deliver env cr ctxt xs b'))"

definition dl_packet ::
  "pdcp_env \<Rightarrow> pdcp_env \<Rightarrow> pdcp_crypto \<Rightarrow> protocol_ctxt \<Rightarrow> protocol_ctxt \<Rightarrow> int \<Rightarrow> nat \<Rightarrow> bool \<Rightarrow> byte list \<Rightarrow>
   pdcp_api \<times> pdcp_api \<Rightarrow> (pdcp_api \<times> pdcp_api) result" where
  "dl_packet env env' cr ctxt ctxt' p q rqi sdu = (\<lambda>(a, b).
     bindR (sdap_request env cr ctxt (pc_ue ctxt) 1 sdu q rqi p a) (\<lambda>(_, a').
     bindR (radio_deliver env' cr ctxt' (drop (length (pa_out a)) (pa_out a')) b) (\<lambda>b'. Inr (a', b'))))"

definition plain_ctxt :: "protocol_ctxt \<Rightarrow> bool" where
  "plain_ctxt c \<longleftrightarrow> pc_module_id c = 0 \<and> pc_instance c = 0 \<and> pc_eNB_index c = 0 \<and> pc_brOption c = 0"

text \<open>
  Both sides have the flow on a bearer with a header and entities that are in step; \<open>n\<close> more packets do not
  exhaust the COUNT.
\<close>

definition dl_ready :: "pdcp_env \<Rightarrow> int \<Rightarrow> int \<Rightarrow> int \<Rightarrow> int \<Rightarrow> nat \<Rightarrow> int \<Rightarrow> nat \<Rightarrow> pdcp_api \<Rightarrow> pdcp_api \<Rightarrow> bool" where
  "dl_ready env u du v p q drb n a b \<longleftrightarrow>
     si_out (pa_sdap a) = [] \<and> si_out (pa_sdap b) = [] \<and> sd_flow (pa_sdap a) u p q drb \<and>
     pv_f1_ue_data env u = Some du \<and> \<not> pv_is_cu env \<and> radio_ok a du \<and>
     (\<exists>s r. drb_entity a u drb = Some s \<and> drb_entity b v drb = Some r \<and> in_step s r \<and> pe_type s = NR_PDCP_DRB_AM \<and>
       pe_is_gnb s \<and> pe_has_sdap_tx s \<and> unat (pe_tx_next s) + n < 2 ^ 32 \<and>
       (\<exists>j. nr_sdap_get_entity v (pe_pdusession_id r) (pa_sdap b) = Some j))"

lemma in_step_delivered [simp]: "in_step (s\<lparr>pe_delivered := x\<rparr>) r = in_step s r" "in_step s (r\<lparr>pe_delivered := y\<rparr>) = in_step s r"
  by (simp_all add: in_step_def pdcp_peers_def pdcp_config_ok_def pdcp_rx_inv_def)

lemma si_out_clear: "si_out s = [] \<Longrightarrow> s\<lparr>si_out := []\<rparr> = s"
  by (cases s) simp

lemma gnb_sends:
  assumes "drb_entity a u drb = Some s" "nr_pdcp_entity_process_sdu cr (s\<lparr>pe_delivered := []\<rparr>) b (nr_max_pdcp_pdu_size (int (length b))) = Inr (Some pdu, s')"
    "pe_type s' = NR_PDCP_DRB_AM" "pe_is_gnb s'" "plain_ctxt ctxt" "pc_ue ctxt = u"
    "pv_f1_ue_data env u = Some du" "\<not> pv_is_cu env" "radio_ok a du"
  shows "\<exists>a' x. nr_pdcp_data_req_drb env cr ctxt False drb mui b a = Inr (True, a') \<and> pa_out a' = pa_out a @ [x] \<and>
    radio_pdu x = Some (drb, pdu) \<and> radio_ok a' du \<and> pa_sdap a' = pa_sdap a \<and> drb_entity a' u drb = Some (s'\<lparr>pe_delivered := []\<rparr>)"
proof -
  have f: "make_pdu cr b (s\<lparr>pe_delivered := []\<rparr>) = Inr (s', Some (pdu, s'))" using assms(2) by (simp add: make_pdu_def)
  obtain m where m: "on_pdcp_rb no_delivery u drb False (make_pdu cr b) None a = Inr (Some (pdu, s'), (pdcp_send [] a)\<lparr>pa_manager := Some m\<rparr>)"
    "\<forall>c. pa_manager c = Some m \<longrightarrow> drb_entity c u drb = Some (s'\<lparr>pe_delivered := []\<rparr>)"
    using on_rb_entity [where f = "make_pdu cr b", OF assms(1) f, of no_delivery "[]" None] by (auto simp: no_delivery_def pdcp_send_def)
  let ?a1 = "(pdcp_send [] a)\<lparr>pa_manager := Some m\<rparr>"
  have "radio_ok ?a1 du" using assms(9) by (simp add: radio_ok_def pdcp_send_def)
  then obtain x us where x: "deliver_pdu_drb_gnb env u drb pdu mui ?a1 = Inr (pdcp_send [x] (?a1\<lparr>pa_users := us\<rparr>))"
    "radio_pdu x = Some (drb, pdu)" "radio_ok (?a1\<lparr>pa_users := us\<rparr>) du"
    using gnb_delivers [OF assms(7,8), of ?a1 drb pdu mui] by blast
  have "nr_pdcp_data_req_drb env cr ctxt False drb mui b a = Inr (True, pdcp_send [x] (?a1\<lparr>pa_users := us\<rparr>))"
    using assms(3-6) m(1) x(1) by (simp add: nr_pdcp_data_req_drb_def plain_ctxt_def)
  moreover have "radio_ok (pdcp_send [x] (?a1\<lparr>pa_users := us\<rparr>)) du" using x(3) by (simp add: radio_ok_def pdcp_send_def)
  ultimately show ?thesis using x(2) m(2)
    by (intro exI [of _ "pdcp_send [x] (?a1\<lparr>pa_users := us\<rparr>)"] exI [of _ x]) (auto simp: pdcp_send_def)
qed

lemma ue_receives:
  assumes "drb_entity b v drb = Some r" "nr_pdcp_entity_recv_pdu cr (r\<lparr>pe_delivered := []\<rparr>) pdu = Inr r'"
    "pe_delivered r' = [(h # payload, d)]" "\<not> pe_is_gnb r'" "pe_has_sdap_rx r'" "\<not> hdr_RDI h"
    "nr_sdap_get_entity v (pe_pdusession_id r') (pa_sdap b) = Some j" "si_out (pa_sdap b) = []" "plain_ctxt ctxt" "pc_ue ctxt = v"
  shows "\<exists>b'. do_pdcp_data_ind env cr ctxt False drb pdu b = Inr ((), b') \<and> pa_out b' = pa_out b @ [SdapOut (NasWrite payload)] \<and>
    pa_sdap b' = pa_sdap b \<and> drb_entity b' v drb = Some (r'\<lparr>pe_delivered := []\<rparr>)"
proof -
  let ?f = "\<lambda>e. mapR (\<lambda>e'. (e', ())) (nr_pdcp_entity_recv_pdu cr e pdu)"
  have f: "?f (r\<lparr>pe_delivered := []\<rparr>) = Inr (r', ())" using assms(2) by (simp add: mapR_def)
  have del: "deliver_sdus env cr k (PdcpDrb (nat (drb - 1))) (pe_delivered r') c = Inr (pdcp_send [SdapOut (NasWrite payload)] c)"
    if c: "at_ue k v c" "pu_drb (pdcp_ue_at k c) ! nat (drb - 1) = Some (r'\<lparr>pe_delivered := []\<rparr>)" "pa_sdap c = pa_sdap b" for k c
  proof -
    have id: "pu_ue_id (pdcp_ue_at k c) = v" by (rule at_ue_id [OF c(1)])
    have same: "(pa_sdap c)\<lparr>si_out := []\<rparr> = pa_sdap b" using si_out_clear [OF assms(8)] c(3) by simp
    have ind: "sdap_data_ind x False True (pe_pdusession_id r') v (h # payload) ((pa_sdap c)\<lparr>si_out := []\<rparr>) =
        Inr ((), (pa_sdap b)\<lparr>si_out := [NasWrite payload]\<rparr>)" for x
      unfolding same using sdap_data_ind_ue [OF assms(7,6), of x payload] assms(8) by simp
    have clear: "c\<lparr>pa_sdap := (pa_sdap b)\<lparr>si_out := []\<rparr>\<rparr> = c" using si_out_clear [OF assms(8)] c(3) by simp
    have "deliver_sdu_drb env cr k (nat (drb - 1)) (h # payload) c = Inr (pdcp_send [SdapOut (NasWrite payload)] c)"
      using assms(4,5) ind clear by (simp add: deliver_sdu_drb_def Let_def c(2) id call_sdap_def mapR_def)
    then show ?thesis using assms(3) by simp
  qed
  obtain m where m: "on_pdcp_rb (deliver_sdus env cr) v drb False ?f () b =
      Inr ((), (pdcp_send [SdapOut (NasWrite payload)] b)\<lparr>pa_manager := Some m\<rparr>)"
    "\<forall>c. pa_manager c = Some m \<longrightarrow> drb_entity c v drb = Some (r'\<lparr>pe_delivered := []\<rparr>)"
    using on_rb_entity [where f = ?f, OF assms(1) f, of "deliver_sdus env cr" "[SdapOut (NasWrite payload)]" "()"] del by blast
  then show ?thesis using assms(9,10)
    by (intro exI [of _ "(pdcp_send [SdapOut (NasWrite payload)] b)\<lparr>pa_manager := Some m\<rparr>"])
      (auto simp: do_pdcp_data_ind_def plain_ctxt_def pdcp_send_def)
qed

lemma dl_packet_ok:
  assumes "crypto_ok cr" "plain_ctxt ctxt" "pc_ue ctxt = u" "pc_enb_flag ctxt" "plain_ctxt ctxt'" "pc_ue ctxt' = v"
    "dl_ready env u du v p q drb (Suc n) a b" "1 \<le> length sdu" "length sdu \<le> 8999"
  shows "\<exists>a' b'. dl_packet env env' cr ctxt ctxt' p q rqi sdu (a, b) = Inr (a', b') \<and>
    dl_ready env u du v p q drb n a' b' \<and> pa_out b' = pa_out b @ [SdapOut (NasWrite sdu)]"
proof -
  obtain s r j where ready: "si_out (pa_sdap a) = []" "si_out (pa_sdap b) = []" "sd_flow (pa_sdap a) u p q drb"
    "pv_f1_ue_data env u = Some du" "\<not> pv_is_cu env" "radio_ok a du"
    and e: "drb_entity a u drb = Some s" "drb_entity b v drb = Some r" "in_step s r" "pe_type s = NR_PDCP_DRB_AM"
      "pe_is_gnb s" "pe_has_sdap_tx s" "unat (pe_tx_next s) + Suc n < 2 ^ 32"
      "nr_sdap_get_entity v (pe_pdusession_id r) (pa_sdap b) = Some j"
    using assms(7) unfolding dl_ready_def by blast
  let ?h = "sdap_header q rqi False"
  let ?s = "s\<lparr>pe_delivered := []\<rparr>" and ?r = "r\<lparr>pe_delivered := []\<rparr>"
  have tx: "pe_tx_next ?s \<noteq> -1" proof
    assume "pe_tx_next ?s = -1"
    then have "unat (pe_tx_next s) = 2 ^ 32 - 1" by (simp add: unsigned_minus_1_eq_mask mask_eq_exp_minus_1)
    with e(7) show False by simp
  qed
  have l: "pdcp_sdap_size (pe_has_sdap_tx ?s) < length (?h # sdu)" using assms(8) by (cases sdu) (simp_all add: pdcp_sdap_size_def)
  obtain pdu s' r' d where q: "nr_pdcp_entity_process_sdu cr ?s (?h # sdu) (nr_max_pdcp_pdu_size (int (length (?h # sdu)))) = Inr (Some pdu, s')"
    "nr_pdcp_entity_recv_pdu cr ?r pdu = Inr r'" "pe_delivered r' = [(?h # sdu, d)]"
    "in_step (s'\<lparr>pe_delivered := []\<rparr>) (r'\<lparr>pe_delivered := []\<rparr>)" "pdcp_cfg s' = pdcp_cfg ?s" "pdcp_cfg r' = pdcp_cfg ?r"
    "pe_tx_next s' = pe_tx_next ?s + 1"
    using in_step_sdu [OF assms(1), of ?s ?r "?h # sdu" "[]" "[]"] e(3) tx l by auto
  have peers: "pdcp_peers s r" using e(3) by (simp add: in_step_def)
  have cs: "pe_type s' = NR_PDCP_DRB_AM" "pe_is_gnb s'" "pe_has_sdap_tx s'" using q(5) e(4-6) by (simp_all add: pdcp_cfg_def)
  have cr: "\<not> pe_is_gnb r'" "pe_has_sdap_rx r'" "pe_pdusession_id r' = pe_pdusession_id r"
    using q(6) e(5,6) peers by (simp_all add: pdcp_cfg_def pdcp_peers_def)
  let ?c = "ctxt\<lparr>pc_ue := u\<rparr>"
  have ctxt: "plain_ctxt ?c" "pc_ue ?c = u" using assms(2) by (simp_all add: plain_ctxt_def)
  obtain a' x where a': "nr_pdcp_data_req_drb env cr ?c False drb RLC_MUI_UNDEFINED (?h # sdu) a = Inr (True, a')"
    "pa_out a' = pa_out a @ [x]" "radio_pdu x = Some (drb, pdu)" "radio_ok a' du" "pa_sdap a' = pa_sdap a"
    "drb_entity a' u drb = Some (s'\<lparr>pe_delivered := []\<rparr>)"
    using gnb_sends [OF e(1) q(1) cs(1,2) ctxt ready(4-6)] by blast
  have noRDI: "\<not> hdr_RDI ?h" by simp
  have sess: "nr_sdap_get_entity v (pe_pdusession_id r') (pa_sdap b) = Some j" using e(8) cr(3) by simp
  obtain b' where b': "do_pdcp_data_ind env' cr ctxt' False drb pdu b = Inr ((), b')"
    "pa_out b' = pa_out b @ [SdapOut (NasWrite sdu)]" "pa_sdap b' = pa_sdap b" "drb_entity b' v drb = Some (r'\<lparr>pe_delivered := []\<rparr>)"
    using ue_receives [OF e(2) q(2,3) cr(1,2) noRDI sess ready(2) assms(5,6)] by blast
  have req: "sdap_request env cr ctxt (pc_ue ctxt) 1 sdu q rqi p a = Inr (True, a')"
    using sdap_data_req_flow [OF ready(3) assms(8,9), of True u 1 rqi] a'(1) assms(3,4) ready(1)
    by (simp add: sdap_request_def call_sdap_def si_out_clear)
  have "dl_packet env env' cr ctxt ctxt' p q rqi sdu (a, b) = Inr (a', b')"
    using req a'(2,3) b'(1) by (simp add: dl_packet_def)
  moreover have "unat (pe_tx_next s') + n < 2 ^ 32" using q(7) e(7) by (simp add: unat_word_ariths(1))
  then have "dl_ready env u du v p q drb n a' b'"
    using ready a'(4-6) b'(3,4) q(4) cs sess unfolding dl_ready_def by auto
  ultimately show ?thesis using b'(2) by blast
qed

section \<open>A run of packets\<close>

lemma dl_packets:
  assumes "crypto_ok cr" "plain_ctxt ctxt" "pc_ue ctxt = u" "pc_enb_flag ctxt" "plain_ctxt ctxt'" "pc_ue ctxt' = v"
    "dl_ready env u du v p q drb (length sdus) a b" "\<forall>sdu \<in> set sdus. 1 \<le> length sdu \<and> length sdu \<le> 8999"
  shows "\<exists>a' b'. do_all (dl_packet env env' cr ctxt ctxt' p q rqi) sdus (a, b) = Inr (a', b') \<and>
    pa_out b' = pa_out b @ map (\<lambda>sdu. SdapOut (NasWrite sdu)) sdus"
  using assms(7,8)
proof (induction sdus arbitrary: a b)
  case Nil
  then show ?case by simp
next
  case (Cons sdu sdus)
  have l: "1 \<le> length sdu" "length sdu \<le> 8999" using Cons.prems(2) by auto
  have ready: "dl_ready env u du v p q drb (Suc (length sdus)) a b" using Cons.prems(1) by simp
  obtain a1 b1 where 1: "dl_packet env env' cr ctxt ctxt' p q rqi sdu (a, b) = Inr (a1, b1)"
    "dl_ready env u du v p q drb (length sdus) a1 b1" "pa_out b1 = pa_out b @ [SdapOut (NasWrite sdu)]"
    using dl_packet_ok [OF assms(1-6) ready l] by blast
  have rest: "\<forall>sdu \<in> set sdus. 1 \<le> length sdu \<and> length sdu \<le> 8999" using Cons.prems(2) by simp
  obtain a' b' where "do_all (dl_packet env env' cr ctxt ctxt' p q rqi) sdus (a1, b1) = Inr (a', b')"
    "pa_out b' = pa_out b1 @ map (\<lambda>sdu. SdapOut (NasWrite sdu)) sdus"
    using Cons.IH [OF 1(2) rest] by blast
  with 1(1,3) show ?case by simp
qed

text \<open>
  Property C4. Packets of a QoS flow that a rule maps to a bearer with a header go from the gNB to the IP stack of
  the UE: handed to SDAP of the gNB one after the other, each becomes one PDU of PDCP that the split gives to
  NR or to LTE; whichever radio takes each PDU, if all reach the UE in order, PDCP and SDAP of the UE write
  exactly these packets, unchanged and in order, as long as the COUNT is not exhausted.
\<close>

theorem user_plane_downlink:
  assumes "crypto_ok cr" "plain_ctxt ctxt" "pc_ue ctxt = u" "pc_enb_flag ctxt" "plain_ctxt ctxt'" "pc_ue ctxt' = v"
    "dl_ready env u du v p q drb (length sdus) a b" "\<forall>sdu \<in> set sdus. 1 \<le> length sdu \<and> length sdu \<le> 8999"
  shows "\<exists>a' b'. do_all (dl_packet env env' cr ctxt ctxt' p q rqi) sdus (a, b) = Inr (a', b') \<and>
    pa_out b' = pa_out b @ map (\<lambda>sdu. SdapOut (NasWrite sdu)) sdus"
  by (rule dl_packets [OF assms])

section \<open>Witness\<close>

text \<open>UE 7 has flow 9 on bearer 2 at both sides; at the gNB it is a user of the split.\<close>

definition demo_drb :: "bool \<Rightarrow> nr_pdcp_entity" where
  "demo_drb g = projr (new_nr_pdcp_entity NR_PDCP_DRB_AM g 2 10 True True 12 100 (-1) demo_keys)"

definition demo_side :: "bool \<Rightarrow> pdcp_api" where
  "demo_side g = demo_start\<lparr>
     pa_manager := Some \<lparr>pm_lock = 0, pm_ue_list = [(nr_pdcp_ue_zero 7)\<lparr>pu_drb := (replicate MAX_DRBS_PER_UE None)[1 := Some (demo_drb g)]\<rparr>],
       pm_enb_flag = 1\<rparr>,
     pa_sdap := sdap_demo,
     pa_forward := add_forward_info (pa_forward demo_start) 107 (forward_info_zero\<lparr>fi_rnti := 107, fi_user := Some 0\<rparr>),
     pa_users := [0 \<mapsto> initialize_dc_user dc_user_zero 7]\<rparr>"

lemma demo_drb_in_step: "in_step (demo_drb True) (demo_drb False)"
  by (simp add: in_step_def pdcp_peers_def pdcp_config_ok_def pdcp_rx_inv_def demo_drb_def demo_defs pdcp_consts)

lemma demo_drb_fields:
  "pe_type (demo_drb g) = NR_PDCP_DRB_AM" "pe_is_gnb (demo_drb g) = g" "pe_has_sdap_tx (demo_drb g)" "pe_tx_next (demo_drb g) = 0"
  "pe_pdusession_id (demo_drb g) = 10"
  by (simp_all add: demo_drb_def demo_defs)

lemma demo_side_drb: "drb_entity (demo_side g) 7 2 = Some (demo_drb g)"
  by (simp add: drb_entity_def demo_side_def pdcp_lookup_def ue_lookup_def nr_pdcp_ue_zero_def MAX_DRBS_PER_UE_def)

lemma demo_side_forward: "get_forward_info (pa_forward (demo_side g)) 107 = Some (forward_info_zero\<lparr>fi_rnti := 107, fi_user := Some 0\<rparr>)"
proof -
  have "pa_forward demo_start = (0, forward_info_zero) # replicate 1023 (0, forward_info_zero)"
    by (simp add: demo_start_def nr_pdcp_layer_init_def pdcp_api_start_def MAX_UE_def replicate_Suc [symmetric] del: replicate_Suc)
  then show ?thesis by (simp add: demo_side_def)
qed

lemma demo_side_ready: "dl_ready demo_env 7 107 7 10 9 2 (length sdus) (demo_side True) (demo_side False) \<longleftrightarrow> length sdus < 2 ^ 32"
proof -
  have "radio_ok (demo_side True) 107"
    unfolding radio_ok_def demo_side_forward by (simp add: demo_side_def dc_history_ok_def initialize_dc_user_def HISTORY_SIZE_def)
  then show ?thesis using sdap_demo_flow
    by (simp add: dl_ready_def demo_side_drb demo_drb_in_step demo_drb_fields demo_env_def)
      (simp add: demo_side_def sdap_demo_def)
qed

definition demo_ctxt :: "bool \<Rightarrow> protocol_ctxt" where
  "demo_ctxt g = (sdap_ctxt 7)\<lparr>pc_enb_flag := g\<rparr>"

theorem user_plane_downlink_witness:
  "\<exists>a' b'. do_all (dl_packet demo_env demo_env demo_crypto (demo_ctxt True) (demo_ctxt False) 10 9 False) [[1, 2], [3]]
      (demo_side True, demo_side False) = Inr (a', b') \<and>
    pa_out b' = pa_out (demo_side False) @ [SdapOut (NasWrite [1, 2]), SdapOut (NasWrite [3])]"
  using user_plane_downlink [OF demo_crypto_ok, of "demo_ctxt True" 7 "demo_ctxt False" 7 demo_env 107 10 9 2 "[[1, 2], [3]]"
      "demo_side True" "demo_side False" demo_env False] demo_side_ready [of "[[1, 2], [3]] :: byte list list"]
  by (simp add: demo_ctxt_def plain_ctxt_def sdap_ctxt_def)

end
