(* ===== verification/Pdcp_Reconfig.thy ===== *)
theory Pdcp_Reconfig
  imports Pdcp_Config Pdcp_Proofs
begin

text \<open>
  Reconfiguration of a bearer of PDCP: the size of the sequence numbers changes, \<open>sn_max\<close> and the window do
  not. Two entities that are given 18 bits in place of 12 keep sending sequence numbers of 12 bits in the longer
  header and take them for numbers of 18 bits.
\<close>

lemma reconfigure_entity_long:
  assumes "reconfigure_drb_entity (Some c) e = Inr e'" "pcf_drb c = Some d" "pd_SN_SizeUL d = Some 1" "pd_SN_SizeDL d = Some 1"
  shows "\<exists>t n. e' = e\<lparr>pe_t_reordering := t, pe_discard_timer := n, pe_sn_size := LONG_SN_SIZE\<rparr>"
proof -
  have same: "e\<lparr>pe_t_reordering := t\<rparr> = e\<lparr>pe_t_reordering := t, pe_discard_timer := pe_discard_timer e\<rparr>" for t by simp
  from assms show ?thesis
    by (auto simp: reconfigure_drb_entity_def reconfigure_sn_size_def decode_sn_size_ul_def decode_sn_size_dl_def Let_def
        mapR_def bindR_eq_Inr split: option.splits) (metis same)+
qed

lemma uint_small_word: "0 \<le> x \<Longrightarrow> x < 2 ^ 32 \<Longrightarrow> uint (word_of_int x :: u32) = x"
  by (simp add: unsigned_of_int take_bit_int_eq_self)

text \<open>The COUNT that the receiver then computes for the COUNT it expects.\<close>

lemma short_sn_in_long_space:
  assumes "pe_sn_size e = LONG_SN_SIZE" "pe_sn_max e = 4095" "pe_window_size e = 2048"
  shows "uint (pdcp_rcvd_count e (uint (pe_rx_deliv e) mod 4096)) =
    uint (pe_rx_deliv e) div 2 ^ 18 * 2 ^ 18 + uint (pe_rx_deliv e) mod 4096"
proof -
  let ?d = "uint (pe_rx_deliv e)"
  have sn: "uint (pe_rx_deliv e AND word_of_int 4095) = ?d mod 4096" using and_sn_max [of 12 "pe_rx_deliv e"] by simp
  have d: "0 \<le> ?d" "?d < 2 ^ 32" using uint_lt2p [of "pe_rx_deliv e"] by simp_all
  have m: "0 \<le> ?d mod 4096" "?d mod 4096 < 2 ^ 18" "?d mod 4096 < 4096" by (simp_all add: less_trans [of _ 4096])
  have "pdcp_rcvd_count e (?d mod 4096) = push_bit 18 (word_of_int (?d div 2 ^ 18)) OR word_of_int (?d mod 4096)"
    unfolding pdcp_rcvd_count_def Let_def assms sn drop_bit_hfn by (simp add: LONG_SN_SIZE_def)
  also have "\<dots> = push_bit 18 (word_of_int (?d div 2 ^ 18)) + word_of_int (?d mod 4096)"
    by (rule or_shifted_word [OF m(1,2)])
  also have "\<dots> = word_of_int (?d div 2 ^ 18 * 2 ^ 18 + ?d mod 4096)" by (simp add: push_bit_eq_mult)
  finally have e: "pdcp_rcvd_count e (?d mod 4096) = word_of_int (?d div 2 ^ 18 * 2 ^ 18 + ?d mod 4096)" .
  have "?d mod 4096 \<le> ?d mod 2 ^ 18"
    using mod_mod_cancel [of 4096 "2 ^ 18" ?d] zmod_le_nonneg_dividend [of "?d mod 2 ^ 18" 4096] by simp
  then have "?d div 2 ^ 18 * 2 ^ 18 + ?d mod 4096 \<le> ?d" using div_mult_mod_eq [of ?d "2 ^ 18"] by linarith
  moreover have "0 \<le> ?d div 2 ^ 18 * 2 ^ 18 + ?d mod 4096" using d(1) m(1) by (simp add: pos_imp_zdiv_nonneg_iff)
  ultimately show ?thesis using d(2) unfolding e by (intro uint_small_word) linarith+
qed

text \<open>A PDU for which the receiver computes a COUNT below \<open>rx_deliv\<close> is discarded, whether its MAC matches or not.\<close>

lemma recv_data_discards:
  assumes "pdcp_rcvd_count e sn < pe_rx_deliv e" "crypto_ok cr" "pe_has_ciphering e \<longrightarrow> pe_security e \<noteq> None"
    "pe_has_integrity e \<longrightarrow> pe_integrity e \<noteq> None"
  shows "pdcp_recv_data cr e b sn = Inr (pdcp_discard e (length b))"
proof -
  let ?c = "pdcp_rcvd_count e sn" and ?dir = "if pe_is_gnb e then 0 else 1 :: int"
  let ?off = "pdcp_header_size e + (if pe_has_sdap_rx e then 1 else 0)"
  have "\<exists>r. pdcp_unprotect cr e b ?c = Inr r" if l: "\<not> length b < ?off + pdcp_integrity_size e + 1"
  proof -
    obtain p where p: "(if pe_has_ciphering e then pdcp_cipher cr e ?off b ?c ?dir else Inr b) = Inr p"
      using assms(3) l by (cases "pe_has_ciphering e") (auto simp: pdcp_cipher_def)
    show ?thesis
    proof (cases "pe_has_integrity e")
      case True
      then obtain m where "pdcp_mac cr e (take (length p - PDCP_INTEGRITY_SIZE) p) ?c ?dir = Inr m"
        using assms(4) by (auto simp: pdcp_mac_def)
      with p True show ?thesis by (simp add: pdcp_unprotect_def)
    next
      case False
      with p show ?thesis by (simp add: pdcp_unprotect_def)
    qed
  qed
  then show ?thesis using assms(1) unfolding pdcp_recv_data_def Let_def by (auto split: option.splits)
qed

lemma recv_pdu_discards:
  assumes "pdcp_read_sn e b = Inr sn" "pdcp_rcvd_count e sn < pe_rx_deliv e" "crypto_ok cr" "pdcp_can_send e"
    "b \<noteq> []" "pe_type e = NR_PDCP_SRB \<or> b ! 0 AND 0x80 \<noteq> 0"
  shows "\<exists>f. nr_pdcp_entity_recv_pdu cr e b = Inr (pdcp_discard (pe_upd_stats f e) (length b))"
proof -
  have "pe_upd_stats f (pe_upd_stats g e) = pe_upd_stats (f \<circ> g) e" for f g by (simp add: pe_upd_stats_def)
  then obtain f where "nr_pdcp_entity_recv_pdu cr e b = pdcp_recv_data cr (pe_upd_stats f e) b sn"
    using assms(1,4,5,6) by (auto simp: nr_pdcp_entity_recv_pdu_def Let_def pdcp_can_send_def)
  moreover have "pdcp_recv_data cr (pe_upd_stats f e) b sn = Inr (pdcp_discard (pe_upd_stats f e) (length b))"
    using assms(2-4) by (intro recv_data_discards) (simp_all add: pdcp_can_send_def)
  ultimately show ?thesis by auto
qed

lemma header_ok:
  assumes "pe_type s \<noteq> NR_PDCP_SRB" "take (pdcp_header_size s) pdu = pdcp_header s sn"
  shows "pdu \<noteq> []" "pdu ! 0 AND 0x80 \<noteq> 0"
proof -
  have "pdu = pdcp_header s sn @ drop (pdcp_header_size s) pdu" using assms(2) by (metis append_take_drop_id)
  then show "pdu \<noteq> []" "pdu ! 0 AND 0x80 \<noteq> 0"
    using pdcp_header_dc [OF assms(1), of sn] by (metis append_is_Nil_conv, metis hd_append2 hd_conv_nth append_is_Nil_conv)
qed

text \<open>
  Property C27. Two peers of a data bearer with 12 bits of sequence number are in step and are both
  reconfigured to 18 bits when the next COUNT modulo 2^18 is 4096 or more (so not in the first 4096 packets
  of each HFN of 18 bits, in particular not on a fresh bearer). Then the next packet is lost, whatever the
  algorithms are: the sender still counts modulo 4096, the receiver takes the PDU for an old one and
  discards it, and the sender counts the packet as sent all the same.
\<close>

theorem sn_reconfiguration_discards:
  assumes "crypto_ok cr" "pdcp_peers s r" "pe_sn_size s = SHORT_SN_SIZE" "pe_type s \<noteq> NR_PDCP_SRB" "pe_tx_next s = pe_rx_deliv r"
    "4096 \<le> uint (pe_tx_next s) mod 2 ^ 18" "pcf_drb c = Some d" "pd_SN_SizeUL d = Some 1" "pd_SN_SizeDL d = Some 1"
    "reconfigure_drb_entity (Some c) s = Inr s1" "reconfigure_drb_entity (Some c) r = Inr r1"
    "nr_max_pdcp_pdu_size (int (length sdu)) \<le> mx" "sdu \<noteq> []"
  shows "\<exists>pdu s2 r2. nr_pdcp_entity_process_sdu cr s1 sdu mx = Inr (Some pdu, s2) \<and> pe_tx_next s2 = pe_tx_next s + 1 \<and>
    nr_pdcp_entity_recv_pdu cr r1 pdu = Inr r2 \<and> pe_delivered r2 = pe_delivered r \<and> pe_rx_list r2 = pe_rx_list r \<and>
    pe_rx_deliv r2 = pe_rx_deliv r"
proof -
  obtain t n where s1: "s1 = s\<lparr>pe_t_reordering := t, pe_discard_timer := n, pe_sn_size := LONG_SN_SIZE\<rparr>"
    using reconfigure_entity_long [OF assms(10,7,8,9)] by blast
  obtain t' n' where r1: "r1 = r\<lparr>pe_t_reordering := t', pe_discard_timer := n', pe_sn_size := LONG_SN_SIZE\<rparr>"
    using reconfigure_entity_long [OF assms(11,7,8,9)] by blast
  have p: "pe_sn_max s = 4095" "pe_sn_max r = 4095" "pe_window_size r = 2048" "pe_type r = pe_type s"
    using assms(2,3) by (auto simp: pdcp_peers_def pdcp_config_ok_def pdcp_consts)
  have can: "pdcp_can_send s1" "pdcp_can_send r1" using assms(2) unfolding s1 r1 by (auto simp: pdcp_peers_def pdcp_can_send_def)
  let ?d = "uint (pe_rx_deliv r1)"
  have d: "pe_rx_deliv r1 = pe_rx_deliv r" "pe_tx_next s1 = pe_rx_deliv r" using assms(5) by (simp_all add: r1 s1)
  obtain pdu s2 where pdu: "nr_pdcp_entity_process_sdu cr s1 sdu mx = Inr (Some pdu, s2)" "pe_tx_next s2 = pe_tx_next s1 + 1"
    "take (pdcp_header_size s1) pdu = pdcp_header s1 (uint (pe_tx_next s1 AND word_of_int (pe_sn_max s1)))"
    using pdcp_process_sdu_pdu [OF assms(1) can(1) assms(12,13)] by blast
  have sn: "uint (pe_tx_next s1 AND word_of_int (pe_sn_max s1)) = ?d mod 4096"
    using and_sn_max [of 12 "pe_tx_next s1"] p(1) d by (simp add: s1)
  have hd: "take (pdcp_header_size s1) pdu = pdcp_header s1 (?d mod 4096)" using pdu(3) sn by simp
  then have split: "pdu = pdcp_header s1 (?d mod 4096) @ drop (pdcp_header_size s1) pdu" by (metis append_take_drop_id)
  have lim: "0 \<le> ?d mod 4096" "?d mod 4096 < 2 ^ pe_sn_size s1" by (simp_all add: s1 LONG_SN_SIZE_def less_trans [of _ 4096])
  have "pdcp_read_sn s1 pdu = Inr (?d mod 4096)"
    using pdcp_read_header [OF _ lim, of "drop (pdcp_header_size s1) pdu"] split by (simp add: s1)
  moreover have "pe_sn_size r1 = pe_sn_size s1" by (simp add: s1 r1)
  then have "pdcp_read_sn r1 pdu = pdcp_read_sn s1 pdu" by (simp add: pdcp_read_sn_def pdcp_header_size_def)
  ultimately have rd: "pdcp_read_sn r1 pdu = Inr (?d mod 4096)" by simp
  have "uint (pdcp_rcvd_count r1 (?d mod 4096)) = ?d div 2 ^ 18 * 2 ^ 18 + ?d mod 4096"
    by (rule short_sn_in_long_space) (simp_all add: r1 p)
  moreover have "4096 \<le> ?d mod 2 ^ 18" using assms(6) unfolding assms(5) d(1) .
  moreover have "?d mod 4096 < 4096" by simp
  ultimately have "uint (pdcp_rcvd_count r1 (?d mod 4096)) < ?d" using div_mult_mod_eq [of ?d "2 ^ 18"] by linarith
  then have low: "pdcp_rcvd_count r1 (?d mod 4096) < pe_rx_deliv r1" by (simp add: word_less_def)
  have ne: "pe_type s1 \<noteq> NR_PDCP_SRB" using assms(4) by (simp add: s1)
  have dc: "pe_type r1 = NR_PDCP_SRB \<or> pdu ! 0 AND 0x80 \<noteq> 0" using header_ok(2) [OF ne hd] by simp
  obtain f where recv: "nr_pdcp_entity_recv_pdu cr r1 pdu = Inr (pdcp_discard (pe_upd_stats f r1) (length pdu))"
    using recv_pdu_discards [OF rd low assms(1) can(2) header_ok(1) [OF ne hd] dc] by blast
  let ?r2 = "pdcp_discard (pe_upd_stats f r1) (length pdu)"
  have "pe_delivered ?r2 = pe_delivered r" "pe_rx_list ?r2 = pe_rx_list r" "pe_rx_deliv ?r2 = pe_rx_deliv r"
    by (simp_all add: pdcp_discard_def r1)
  moreover have "pe_tx_next s2 = pe_tx_next s + 1" using pdu(2) by (simp add: s1)
  ultimately show ?thesis using pdu(1) recv by blast
qed

text \<open>Two peers that have exchanged 5000 PDUs.\<close>

definition to_long :: pdcp_config where
  "to_long = \<lparr>pcf_drb = Some \<lparr>pd_SN_SizeUL = Some 1, pd_SN_SizeDL = Some 1, pd_discardTimer = None, pd_integrityProtection = False\<rparr>,
     pcf_t_Reordering = None, pcf_cipheringDisabled = False\<rparr>"

theorem sn_reconfiguration_discards_witness:
  "\<exists>s1 r1 pdu s2 r2. reconfigure_drb_entity (Some to_long) (demo_gnb\<lparr>pe_tx_next := 5000\<rparr>) = Inr s1 \<and>
    reconfigure_drb_entity (Some to_long) (demo_ue\<lparr>pe_rx_deliv := 5000, pe_rx_next := 5000\<rparr>) = Inr r1 \<and>
    nr_pdcp_entity_process_sdu demo_crypto s1 [1, 2] 100 = Inr (Some pdu, s2) \<and>
    nr_pdcp_entity_recv_pdu demo_crypto r1 pdu = Inr r2 \<and> pe_delivered r2 = [] \<and> pe_rx_list r2 = []"
proof -
  let ?s = "demo_gnb\<lparr>pe_tx_next := 5000\<rparr>" and ?r = "demo_ue\<lparr>pe_rx_deliv := 5000, pe_rx_next := 5000\<rparr>"
  obtain s1 r1 where c: "reconfigure_drb_entity (Some to_long) ?s = Inr s1" "reconfigure_drb_entity (Some to_long) ?r = Inr r1"
    by (simp add: reconfigure_drb_entity_def to_long_def t_reordering_of_def reconfigure_sn_size_def decode_sn_size_ul_def
        decode_sn_size_dl_def mapR_def)
  have peers: "pdcp_peers ?s ?r" using demo_peers by (simp add: pdcp_peers_def pdcp_config_ok_def)
  from sn_reconfiguration_discards [OF demo_crypto_ok peers _ _ _ _ _ _ _ c, of _ "[1, 2]" 100]
  obtain pdu s2 r2 where "nr_pdcp_entity_process_sdu demo_crypto s1 [1, 2] 100 = Inr (Some pdu, s2)"
    "nr_pdcp_entity_recv_pdu demo_crypto r1 pdu = Inr r2" "pe_delivered r2 = pe_delivered ?r" "pe_rx_list r2 = pe_rx_list ?r"
    by (auto simp: to_long_def demo_defs nr_max_pdcp_pdu_size_def pdcp_consts)
  with c show ?thesis by (auto simp: demo_defs)
qed

end
