(* ===== verification/Lte_Pdu.thy ===== *)
theory Lte_Pdu
  imports Rlc_Pdu Rlc_Sdu
begin

text \<open>
  RLC of LTE, common part (\<open>rlc_v2/rlc_pdu.c\<close>, \<open>rlc_v2/rlc_sdu.c\<close>): received PDUs, SDUs with their list, the decoder
  and the encoder of headers. The decoder is that of NR with an alignment; the encoder sets and clears single
  bits where that of NR shifts. An SDU keeps the address it was allocated at, as in \<open>Rlc_Sdu\<close>.
\<close>

section \<open>Received PDUs\<close>

record rlc_rx_pdu_segment =
  rs_sn :: int
  rs_so :: int
  rs_size :: int
  rs_is_last :: bool
  rs_data :: "byte list"
  rs_data_offset :: int

definition rlc_rx_new_pdu_segment :: "int \<Rightarrow> int \<Rightarrow> bool \<Rightarrow> byte list \<Rightarrow> int \<Rightarrow> rlc_rx_pdu_segment" where
  "rlc_rx_new_pdu_segment sn so is_last data data_offset =
     \<lparr>rs_sn = sn, rs_so = so, rs_size = int (length data), rs_is_last = is_last, rs_data = data, rs_data_offset = data_offset\<rparr>"

definition rlc_rx_pdu_segment_list_add ::
  "(int \<Rightarrow> int \<Rightarrow> int) \<Rightarrow> rlc_rx_pdu_segment list \<Rightarrow> rlc_rx_pdu_segment \<Rightarrow> rlc_rx_pdu_segment list" where
  "rlc_rx_pdu_segment_list_add sn_compare l pdu_segment =
     insert_before (\<lambda>cur. sn_compare (rs_sn cur) (rs_sn pdu_segment) > 0 \<or>
       rs_sn cur = rs_sn pdu_segment \<and> rs_so cur > rs_so pdu_segment) pdu_segment l"

section \<open>SDUs\<close>

record rlc_sdu =
  ls_addr :: nat
  ls_upper_layer_id :: int
  ls_data :: "byte list"
  ls_size :: int
  ls_next_byte :: int
  ls_acked_bytes :: int

definition rlc_new_sdu :: "nat \<Rightarrow> byte list \<Rightarrow> int \<Rightarrow> rlc_sdu" where
  "rlc_new_sdu addr buffer upper_layer_id =
     \<lparr>ls_addr = addr, ls_upper_layer_id = upper_layer_id, ls_data = buffer, ls_size = int (length buffer),
      ls_next_byte = 0, ls_acked_bytes = 0\<rparr>"

fun link_sdu_after :: "rlc_sdu list \<Rightarrow> nat \<Rightarrow> rlc_sdu \<Rightarrow> rlc_sdu list" where
  "link_sdu_after [] a s = []"
| "link_sdu_after (x # l) a s = (if ls_addr x = a then [x, s] else x # link_sdu_after l a s)"

definition rlc_sdu_list_add :: "rlc_sdu list \<Rightarrow> nat option \<Rightarrow> rlc_sdu \<Rightarrow> (rlc_sdu list \<times> nat option) result" where
  "rlc_sdu_list_add l tail s =
     (if l = [] then Inr ([s], Some (ls_addr s))
      else case tail of
          None \<Rightarrow> Inl NullDeref
        | Some a \<Rightarrow> Inr (link_sdu_after l a s, Some (ls_addr s)))"

definition sdu_tail_ok :: "rlc_sdu list \<Rightarrow> nat option \<Rightarrow> bool" where
  "sdu_tail_ok l tail \<longleftrightarrow> distinct (map ls_addr l) \<and> tail = (if l = [] then None else Some (ls_addr (last l)))"

lemma link_sdu_after_last:
  "distinct (map ls_addr l) \<Longrightarrow> l \<noteq> [] \<Longrightarrow> link_sdu_after l (ls_addr (last l)) s = l @ [s]"
proof (induction l)
  case Nil
  then show ?case by simp
next
  case (Cons x l)
  then show ?case by (cases "l = []") (auto dest: last_in_set)
qed

interpretation lte_tx: tail_queue rlc_sdu_list_add ls_addr sdu_tail_ok
  by unfold_locales (auto simp: sdu_tail_ok_def rlc_sdu_list_add_def link_sdu_after_last)

section \<open>Decoder and encoder\<close>

text \<open>The decoder has the fields and the two operations of that of NR, word for word.\<close>

definition rlc_pdu_decoder_init :: "byte list \<Rightarrow> nr_rlc_pdu_decoder" where
  "rlc_pdu_decoder_init buffer =
     \<lparr>dec_error = False, dec_byte = 0, dec_bit = 0, dec_buffer = buffer, dec_size = int (length buffer)\<rparr>"

definition rlc_pdu_decoder_get_bits :: "nr_rlc_pdu_decoder \<Rightarrow> nat \<Rightarrow> (int \<times> nr_rlc_pdu_decoder) result" where
  "rlc_pdu_decoder_get_bits d n = nr_rlc_pdu_decoder_get_bits d n"

definition rlc_pdu_decoder_align :: "nr_rlc_pdu_decoder \<Rightarrow> nr_rlc_pdu_decoder" where
  "rlc_pdu_decoder_align d = (if dec_bit d \<noteq> 0 then d\<lparr>dec_bit := 0, dec_byte := dec_byte d + 1\<rparr> else d)"

definition rlc_pdu_encoder_init :: "byte list \<Rightarrow> nr_rlc_pdu_encoder" where
  "rlc_pdu_encoder_init buffer = \<lparr>enc_byte = 0, enc_bit = 0, enc_buffer = buffer, enc_size = int (length buffer)\<rparr>"

definition rlc_put_bit :: "nr_rlc_pdu_encoder \<Rightarrow> bool \<Rightarrow> nr_rlc_pdu_encoder result" where
  "rlc_put_bit e b =
     (if enc_byte e = enc_size e then Inl Exit
      else let i = nat (enc_byte e);
               w = enc_buffer e ! i;
               m = push_bit (nat (7 - enc_bit e)) 1;
               e1 = e\<lparr>enc_buffer := (enc_buffer e)[i := (if b then w OR m else w AND NOT m)]\<rparr>;
               bi = enc_bit e + 1
           in if bi = 8 then Inr (e1\<lparr>enc_bit := 0, enc_byte := enc_byte e + 1\<rparr>)
              else Inr (e1\<lparr>enc_bit := bi\<rparr>))"

text \<open>With \<open>Suc n\<close> bits to go, \<open>x\<close> is \<open>1 << n\<close>.\<close>

fun rlc_put_bits_loop :: "nr_rlc_pdu_encoder \<Rightarrow> int \<Rightarrow> nat \<Rightarrow> nr_rlc_pdu_encoder result" where
  "rlc_put_bits_loop e v 0 = Inr e"
| "rlc_put_bits_loop e v (Suc n) = bindR (rlc_put_bit e (v AND 2 ^ n \<noteq> 0)) (\<lambda>e'. rlc_put_bits_loop e' v n)"

definition rlc_pdu_encoder_put_bits :: "nr_rlc_pdu_encoder \<Rightarrow> int \<Rightarrow> nat \<Rightarrow> nr_rlc_pdu_encoder result" where
  "rlc_pdu_encoder_put_bits e value n = (if n > 31 then Inl Exit else rlc_put_bits_loop e value n)"

text \<open>The loop \<open>while (encoder->bit)\<close>: zeros up to the end of the byte.\<close>

fun rlc_put_zeros :: "nat \<Rightarrow> nr_rlc_pdu_encoder \<Rightarrow> nr_rlc_pdu_encoder result" where
  "rlc_put_zeros 0 e = Inr e"
| "rlc_put_zeros (Suc n) e = bindR (rlc_put_bit e False) (rlc_put_zeros n)"

definition rlc_pdu_encoder_align :: "nr_rlc_pdu_encoder \<Rightarrow> nr_rlc_pdu_encoder result" where
  "rlc_pdu_encoder_align e = rlc_put_zeros (if enc_bit e = 0 then 0 else nat (8 - enc_bit e)) e"

fun rlc_put_fields :: "nr_rlc_pdu_encoder \<Rightarrow> (int \<times> nat) list \<Rightarrow> nr_rlc_pdu_encoder result" where
  "rlc_put_fields e [] = Inr e"
| "rlc_put_fields e ((v, k) # fs) = bindR (rlc_pdu_encoder_put_bits e v k) (\<lambda>e'. rlc_put_fields e' fs)"

section \<open>The encoder writes bits in place\<close>

definition lenc_at :: "nr_rlc_pdu_encoder \<Rightarrow> bool list \<Rightarrow> nat \<Rightarrow> bool" where
  "lenc_at e bs n \<longleftrightarrow> 0 \<le> enc_byte e \<and> 0 \<le> enc_bit e \<and> enc_bit e < 8 \<and> enc_size e = int n \<and>
     length (enc_buffer e) = n \<and> enc_pos e = int (length bs) \<and> take (length bs) (bytes_bits (enc_buffer e)) = bs"

lemma lenc_init_at: "lenc_at (rlc_pdu_encoder_init buf) [] (length buf)"
  by (simp add: lenc_at_def rlc_pdu_encoder_init_def enc_pos_def)

lemma bit_set_byte:
  fixes w :: byte
  assumes "j < 8" "i < 8"
  shows "bit (if b then w OR push_bit j 1 else w AND NOT (push_bit j 1)) i = (if i = j then b else bit w i)"
  using assms by (auto simp: bit_simps)

lemma bytes_bits_update:
  assumes "i < length buf" "j < 8"
  shows "bytes_bits (buf[i := (if b then buf ! i OR push_bit (7 - j) 1 else buf ! i AND NOT (push_bit (7 - j) 1))]) =
    (bytes_bits buf)[8 * i + j := b]" (is "bytes_bits ?buf = _")
proof (rule nth_equalityI)
  fix k assume "k < length (bytes_bits ?buf)"
  then have k: "k div 8 < length buf" "k mod 8 < 8" "k = 8 * (k div 8) + k mod 8" by auto
  have l: "bytes_bits ?buf ! k = bit (?buf ! (k div 8)) (7 - k mod 8)"
    using bytes_bits_nth [of "k div 8" ?buf "k mod 8"] k by simp
  have r: "bytes_bits buf ! k = bit (buf ! (k div 8)) (7 - k mod 8)"
    using bytes_bits_nth [of "k div 8" buf "k mod 8"] k by simp
  show "bytes_bits ?buf ! k = (bytes_bits buf)[8 * i + j := b] ! k"
  proof (cases "k div 8 = i")
    case True
    have v: "bytes_bits ?buf ! k = (if 7 - k mod 8 = 7 - j then b else bit (buf ! i) (7 - k mod 8))"
      unfolding l True using assms bit_set_byte [of "7 - j" "7 - k mod 8" b "buf ! i"] by simp
    have "7 - k mod 8 = 7 - j \<longleftrightarrow> k mod 8 = j" using assms(2) k(2) by arith
    moreover have "k mod 8 = j \<longleftrightarrow> k = 8 * i + j"
    proof
      assume "k mod 8 = j"
      then show "k = 8 * i + j" using True k(3) by simp
    next
      assume "k = 8 * i + j"
      then show "k mod 8 = j" using assms(2) by simp
    qed
    ultimately have iff: "7 - k mod 8 = 7 - j \<longleftrightarrow> k = 8 * i + j" by simp
    have "8 * i + j < length (bytes_bits buf)" using assms by simp
    then have "(bytes_bits buf)[8 * i + j := b] ! k = (if k = 8 * i + j then b else bytes_bits buf ! k)"
      by (cases "k = 8 * i + j") simp_all
    then show ?thesis unfolding v iff r True by (rule sym)
  next
    case False
    then have "k \<noteq> 8 * i + j" using assms(2) by auto
    with l r False show ?thesis by simp
  qed
qed simp

lemma rlc_put_bit_at:
  assumes at: "lenc_at e bs n" and room: "length bs < 8 * n"
  shows "\<exists>e'. rlc_put_bit e b = Inr e' \<and> lenc_at e' (bs @ [b]) n"
proof -
  let ?i = "nat (enc_byte e)" and ?j = "nat (enc_bit e)"
  let ?w = "enc_buffer e ! ?i" and ?m = "push_bit (nat (7 - enc_bit e)) 1 :: byte"
  let ?buf = "(enc_buffer e)[?i := (if b then ?w OR ?m else ?w AND NOT ?m)]"
  from at have pos: "length bs = 8 * ?i + ?j" and j: "?j < 8"
    by (auto simp: lenc_at_def enc_pos_def)
  have i: "?i < n" using room pos by simp
  from at have len: "length (enc_buffer e) = n" and sz: "enc_size e = int n"
    and bs: "take (length bs) (bytes_bits (enc_buffer e)) = bs" by (auto simp: lenc_at_def)
  have ne: "enc_byte e \<noteq> enc_size e" using i sz by auto
  have m: "nat (7 - enc_bit e) = 7 - ?j" using at by (auto simp: lenc_at_def)
  have upd: "bytes_bits ?buf = (bytes_bits (enc_buffer e))[length bs := b]"
    unfolding m pos using bytes_bits_update [of ?i "enc_buffer e" ?j b] i j len by simp
  have bits: "take (length (bs @ [b])) (bytes_bits ?buf) = bs @ [b]"
  proof -
    have "length bs < length (bytes_bits (enc_buffer e))" using room len by simp
    then show ?thesis unfolding upd using bs by (simp add: take_Suc_conv_app_nth)
  qed
  have nn: "0 \<le> enc_byte e" "0 \<le> enc_bit e" using at by (simp_all add: lenc_at_def)
  show ?thesis
  proof (cases "enc_bit e + 1 = 8")
    case True
    let ?e = "e\<lparr>enc_buffer := ?buf, enc_bit := 0, enc_byte := enc_byte e + 1\<rparr>"
    have "rlc_put_bit e b = Inr ?e" using ne True by (simp add: rlc_put_bit_def Let_def)
    moreover have "lenc_at ?e (bs @ [b]) n"
      using bits len sz nn True pos by (simp add: lenc_at_def enc_pos_def)
    ultimately show ?thesis by blast
  next
    case False
    let ?e = "e\<lparr>enc_buffer := ?buf, enc_bit := enc_bit e + 1\<rparr>"
    have "rlc_put_bit e b = Inr ?e" using ne False by (simp add: rlc_put_bit_def Let_def)
    moreover have "lenc_at ?e (bs @ [b]) n"
      using bits len sz nn False pos j by (simp add: lenc_at_def enc_pos_def)
    ultimately show ?thesis by blast
  qed
qed

lemma rlc_put_bits_loop_at:
  assumes "lenc_at e bs n" "length bs + k \<le> 8 * n"
  shows "\<exists>e'. rlc_put_bits_loop e v k = Inr e' \<and> lenc_at e' (bs @ int_bits v k) n"
  using assms
proof (induction k arbitrary: e bs)
  case 0
  then show ?case by simp
next
  case (Suc k)
  from Suc.prems have "length bs < 8 * n" by simp
  then obtain e1 where e1: "rlc_put_bit e (bit v k) = Inr e1" "lenc_at e1 (bs @ [bit v k]) n"
    using rlc_put_bit_at [OF Suc.prems(1)] by blast
  with Suc.IH [OF e1(2)] Suc.prems(2) show ?case by (auto simp: and_power_ne_0 int_bits_Suc)
qed

lemma rlc_put_fields_at:
  assumes "lenc_at e bs n" "length bs + length (fields_bits fs) \<le> 8 * n" "\<forall>(v, k) \<in> set fs. k \<le> 31"
  shows "\<exists>e'. rlc_put_fields e fs = Inr e' \<and> lenc_at e' (bs @ fields_bits fs) n"
  using assms
proof (induction fs arbitrary: e bs)
  case Nil
  then show ?case by simp
next
  case (Cons f fs)
  obtain v k where f: "f = (v, k)" by (cases f)
  with Cons.prems obtain e1 where e1: "rlc_pdu_encoder_put_bits e v k = Inr e1" "lenc_at e1 (bs @ int_bits v k) n"
    using rlc_put_bits_loop_at [OF Cons.prems(1), of k v] by (auto simp: rlc_pdu_encoder_put_bits_def)
  from Cons.IH [OF e1(2)] Cons.prems f e1(1) show ?case by auto
qed

lemma rlc_put_zeros_at:
  assumes "lenc_at e bs n" "length bs + k \<le> 8 * n"
  shows "\<exists>e'. rlc_put_zeros k e = Inr e' \<and> lenc_at e' (bs @ replicate k False) n"
  using assms
proof (induction k arbitrary: e bs)
  case 0
  then show ?case by simp
next
  case (Suc k)
  from Suc.prems have "length bs < 8 * n" by simp
  then obtain e1 where e1: "rlc_put_bit e False = Inr e1" "lenc_at e1 (bs @ [False]) n"
    using rlc_put_bit_at [OF Suc.prems(1)] by blast
  with Suc.IH [OF e1(2)] Suc.prems(2) show ?case by auto
qed

text \<open>After the alignment the buffer starts with whole bytes whose bits are the fields and the padding.\<close>

lemma rlc_align_at:
  assumes "lenc_at e bs n"
  shows "\<exists>e' k. rlc_pdu_encoder_align e = Inr e' \<and> k < 8 \<and> (length bs + k) mod 8 = 0 \<and> lenc_at e' (bs @ replicate k False) n"
proof -
  have b: "0 \<le> enc_bit e" "enc_bit e < 8" "8 * enc_byte e + enc_bit e = int (length bs)"
    "length bs \<le> 8 * n" using assms by (auto simp: lenc_at_def enc_pos_def dest: arg_cong [where f = length])
  let ?k = "if enc_bit e = 0 then 0 else nat (8 - enc_bit e)"
  have k1: "?k < 8" using b(1,2) by auto
  have k2: "(length bs + ?k) mod 8 = 0"
  proof (cases "enc_bit e = 0")
    case True
    then have "8 dvd int (length bs)" using b(3) by (metis add.right_neutral dvd_triv_left)
    with True show ?thesis by simp presburger
  next
    case False
    then have "int (length bs + nat (8 - enc_bit e)) = 8 * (enc_byte e + 1)" using b(2,3) by simp
    then have "int 8 dvd int (length bs + nat (8 - enc_bit e))" by simp
    then have "8 dvd length bs + nat (8 - enc_bit e)" by (simp only: int_dvd_int_iff)
    with False show ?thesis by (simp add: dvd_eq_mod_eq_0)
  qed
  have "length bs + m \<le> 8 * n" if "m < 8" "(length bs + m) mod 8 = 0" for m using that b(4) by presburger
  from this [OF k1 k2] have "length bs + ?k \<le> 8 * n" .
  then obtain e' where e': "rlc_put_zeros ?k e = Inr e'" "lenc_at e' (bs @ replicate ?k False) n"
    using rlc_put_zeros_at [OF assms, of ?k] by blast
  show ?thesis unfolding rlc_pdu_encoder_align_def by (intro exI [of _ e'] exI [of _ ?k] conjI e' k1 k2)
qed

lemma lenc_at_bytes:
  assumes "lenc_at e bs n" "length bs = 8 * m"
  shows "bytes_bits (take m (enc_buffer e)) = bs" "m \<le> n" "enc_byte e = int m" "length (enc_buffer e) = n"
proof -
  have t: "take (length bs) (bytes_bits (enc_buffer e)) = bs" using assms(1) by (simp add: lenc_at_def)
  then show "bytes_bits (take m (enc_buffer e)) = bs" unfolding assms(2) by (simp add: take_bytes_bits)
  have "length bs \<le> length (bytes_bits (enc_buffer e))" using t by (metis length_take min.cobounded2 min.commute)
  then show "m \<le> n" using assms by (simp add: lenc_at_def)
  show "enc_byte e = int m" using assms by (auto simp: lenc_at_def enc_pos_def)
  show "length (enc_buffer e) = n" using assms(1) by (simp add: lenc_at_def)
qed

text \<open>The decoder, in front of the fields that were written, finds them and stops in front of the rest.\<close>

lemma decoder_init_at: "dec_at (rlc_pdu_decoder_init buf) buf 0"
  by (simp add: dec_at_def dec_ok_def dec_pos_def rlc_pdu_decoder_init_def)

lemma decoder_align_at:
  assumes "dec_at d buf n"
  shows "dec_byte (rlc_pdu_decoder_align d) = int ((n + 7) div 8)"
  using assms by (auto simp: dec_at_def dec_ok_def dec_pos_def rlc_pdu_decoder_align_def)

end
