(* ===== verification/Lte_Um.thy ===== *)
theory Lte_Um
  imports Lte_Pdu Rlc_Entity
begin

text \<open>
  The unacknowledged mode of LTE (\<open>rlc_v2/rlc_entity_um.c\<close> and its part of \<open>rlc_entity.c\<close>): a PDU carries parts
  of several SDUs, with a length indicator for each but the last. The SDUs that are delivered are recorded in
  order.
\<close>

section \<open>State\<close>

definition SDU_MAX :: nat where "SDU_MAX = 16000"

text \<open>
  Of the buffer of the reassembly the bytes below \<open>sdu_pos\<close>; the decoder of the current PDU is local to
  the reassembly of a PDU.
\<close>

record rlc_um_reassemble =
  rr_sdu :: "byte list"
  rr_sn :: int
  rr_sdu_head_missing :: bool

record rlc_entity_um =
  lu_events :: "rlc_event list"
  lu_next_addr :: nat
  lu_t_reordering :: int
  lu_sn_field_length :: nat
  lu_sn_modulus :: int
  lu_window_size :: int
  lu_vr_ur :: int
  lu_vr_ux :: int
  lu_vr_uh :: int
  lu_vt_us :: int
  lu_t_current :: u64
  lu_t_reordering_start :: u64
  lu_rx_list :: "rlc_rx_pdu_segment list"
  lu_rx_size :: int
  lu_rx_maxsize :: int
  lu_reassemble :: rlc_um_reassemble
  lu_tx_list :: "rlc_sdu list"
  lu_tx_end :: "nat option"
  lu_tx_size :: int
  lu_tx_maxsize :: int

definition rr_zero :: rlc_um_reassemble where
  "rr_zero = \<lparr>rr_sdu = [], rr_sn = 0, rr_sdu_head_missing = False\<rparr>"

definition new_rlc_entity_um :: "int \<Rightarrow> int \<Rightarrow> int \<Rightarrow> nat \<Rightarrow> rlc_entity_um result" where
  "new_rlc_entity_um rx_maxsize tx_maxsize t_reordering sn_field_length =
     (if sn_field_length \<noteq> 5 \<and> sn_field_length \<noteq> 10 then Inl Exit
      else let sn_modulus = (if sn_field_length = 5 then 32 else 1024)
           in Inr \<lparr>lu_events = [], lu_next_addr = 0, lu_t_reordering = t_reordering,
                lu_sn_field_length = sn_field_length, lu_sn_modulus = sn_modulus, lu_window_size = sn_modulus div 2,
                lu_vr_ur = 0, lu_vr_ux = 0, lu_vr_uh = 0, lu_vt_us = 0, lu_t_current = 0, lu_t_reordering_start = 0,
                lu_rx_list = [], lu_rx_size = 0, lu_rx_maxsize = rx_maxsize, lu_reassemble = rr_zero,
                lu_tx_list = [], lu_tx_end = None, lu_tx_size = 0, lu_tx_maxsize = tx_maxsize\<rparr>)"

section \<open>Sequence numbers\<close>

text \<open>The remainder is taken of a number that is not negative for sequence numbers.\<close>

definition lu_modulus_rx :: "rlc_entity_um \<Rightarrow> int \<Rightarrow> int" where
  "lu_modulus_rx e a =
     (let r = a - (lu_vr_uh e - lu_window_size e)
      in (if r < 0 then r + lu_sn_modulus e else r) mod lu_sn_modulus e)"

definition lu_sn_compare_rx :: "rlc_entity_um \<Rightarrow> int \<Rightarrow> int \<Rightarrow> int" where
  "lu_sn_compare_rx e a b = lu_modulus_rx e a - lu_modulus_rx e b"

definition lu_sn_in_recv_window :: "rlc_entity_um \<Rightarrow> int \<Rightarrow> bool" where
  "lu_sn_in_recv_window e sn \<longleftrightarrow> lu_modulus_rx e sn < lu_window_size e"

definition rlc_um_pdu_received :: "rlc_entity_um \<Rightarrow> int \<Rightarrow> bool" where
  "rlc_um_pdu_received e sn \<longleftrightarrow> list_ex (\<lambda>cur. rs_sn cur = sn) (lu_rx_list e)"

definition less_than_vr_ur :: "rlc_entity_um \<Rightarrow> int \<Rightarrow> bool" where
  "less_than_vr_ur e sn \<longleftrightarrow> lu_sn_compare_rx e sn (lu_vr_ur e) < 0"

definition outside_of_reordering_window :: "rlc_entity_um \<Rightarrow> int \<Rightarrow> bool" where
  "outside_of_reordering_window e sn \<longleftrightarrow> \<not> lu_sn_in_recv_window e sn"

definition less_than_vr_uh :: "rlc_entity_um \<Rightarrow> int \<Rightarrow> bool" where
  "less_than_vr_uh e sn \<longleftrightarrow> lu_sn_compare_rx e sn (lu_vr_uh e) < 0"

section \<open>Reassembly\<close>

definition lu_upd_rr :: "(rlc_um_reassemble \<Rightarrow> rlc_um_reassemble) \<Rightarrow> rlc_entity_um \<Rightarrow> rlc_entity_um" where
  "lu_upd_rr f e = e\<lparr>lu_reassemble := f (lu_reassemble e)\<rparr>"

text \<open>The end of an SDU: it is delivered unless its head is missing.\<close>

definition lu_sdu_end :: "rlc_entity_um \<Rightarrow> rlc_entity_um" where
  "lu_sdu_end e =
     (let r = lu_reassemble e;
          e1 = (if rr_sdu_head_missing r then lu_upd_rr (\<lambda>r. r\<lparr>rr_sdu_head_missing := False\<rparr>) e
                else e\<lparr>lu_events := lu_events e @ [DeliverSdu (rr_sdu r)]\<rparr>)
      in lu_upd_rr (\<lambda>r. r\<lparr>rr_sdu := []\<rparr>) e1)"

text \<open>The length of the next part: its indicator when \<open>e\<close> says that there is one, else up to the end of the PDU.\<close>

definition lu_next_li ::
  "rlc_rx_pdu_segment \<Rightarrow> int \<Rightarrow> int \<Rightarrow> nr_rlc_pdu_decoder \<Rightarrow> (int \<times> int \<times> nr_rlc_pdu_decoder) result" where
  "lu_next_li pdu e sdu_offset d =
     (if e \<noteq> 0
      then bindR (rlc_pdu_decoder_get_bits d 1) (\<lambda>(e', d1).
           bindR (rlc_pdu_decoder_get_bits d1 11) (\<lambda>(li, d2). Inr (e', li, d2)))
      else Inr (e, rs_size pdu - sdu_offset, d))"

text \<open>The loop over the bytes of a PDU.\<close>

function lu_reassemble_loop ::
  "rlc_rx_pdu_segment \<Rightarrow> int \<Rightarrow> int \<Rightarrow> int \<Rightarrow> int \<Rightarrow> int \<Rightarrow> nr_rlc_pdu_decoder \<Rightarrow> rlc_entity_um \<Rightarrow> rlc_entity_um result" where
  "lu_reassemble_loop pdu fi e sdu_len sdu_offset data_pos d en =
     (if length (rr_sdu (lu_reassemble en)) \<ge> SDU_MAX then Inl Exit
      else if data_pos < 0 \<or> data_pos \<ge> int (length (rs_data pdu)) then Inl OutOfBounds
      else
        let en1 = lu_upd_rr (\<lambda>r. r\<lparr>rr_sdu := rr_sdu r @ [rs_data pdu ! nat data_pos]\<rparr>) en;
            p = data_pos + 1
        in if p \<noteq> sdu_offset + sdu_len then lu_reassemble_loop pdu fi e sdu_len sdu_offset p d en1
           else
             let en2 = (if p \<noteq> rs_size pdu \<or> fi AND 1 = 0 then lu_sdu_end en1 else en1)
             in if p = rs_size pdu then Inr en2
                else bindR (lu_next_li pdu e (sdu_offset + sdu_len) d) (\<lambda>(e', li, d').
                       lu_reassemble_loop pdu fi e' li (sdu_offset + sdu_len) p d' en2))"
  by pat_completeness auto
termination
  by (relation "measure (\<lambda>(pdu, fi, e, sdu_len, sdu_offset, data_pos, d, en). nat (int (length (rs_data pdu)) - data_pos))") auto

declare lu_reassemble_loop.simps [simp del]

text \<open>The head of an SDU is missing where a PDU goes on with one and nothing of it is there.\<close>

definition lu_start_pdu :: "int \<Rightarrow> int \<Rightarrow> rlc_entity_um \<Rightarrow> rlc_entity_um" where
  "lu_start_pdu sn fi en =
     (let r = lu_reassemble en;
          r1 = (if sn \<noteq> (rr_sn r + 1) mod lu_sn_modulus en \<or> fi AND 2 = 0 then r\<lparr>rr_sdu := []\<rparr> else r);
          r2 = (if rr_sdu r1 = [] \<and> fi AND 2 \<noteq> 0 then r1\<lparr>rr_sdu_head_missing := True\<rparr> else r1)
      in en\<lparr>lu_reassemble := r2\<lparr>rr_sn := sn\<rparr>\<rparr>)"

definition rlc_um_reassemble_pdu :: "rlc_entity_um \<Rightarrow> rlc_rx_pdu_segment \<Rightarrow> rlc_entity_um result" where
  "rlc_um_reassemble_pdu en pdu =
     bindR (if lu_sn_field_length en = 10 then rlc_pdu_decoder_get_bits (rlc_pdu_decoder_init (rs_data pdu)) 3
            else Inr (0, rlc_pdu_decoder_init (rs_data pdu))) (\<lambda>(r1, d0).
     bindR (rlc_pdu_decoder_get_bits d0 2) (\<lambda>(fi, d1).
     bindR (rlc_pdu_decoder_get_bits d1 1) (\<lambda>(e, d2).
     bindR (rlc_pdu_decoder_get_bits d2 (lu_sn_field_length en)) (\<lambda>(sn, d3).
     bindR (lu_next_li pdu e (rs_data_offset pdu) d3) (\<lambda>(e', sdu_len, d4).
       lu_reassemble_loop pdu fi e' sdu_len (rs_data_offset pdu) (rs_data_offset pdu) d4 (lu_start_pdu sn fi en))))))"

fun lu_reassemble_list ::
  "(rlc_entity_um \<Rightarrow> int \<Rightarrow> bool) \<Rightarrow> rlc_rx_pdu_segment list \<Rightarrow> rlc_entity_um \<Rightarrow> rlc_entity_um result" where
  "lu_reassemble_list check_sn [] e = Inr (e\<lparr>lu_rx_list := []\<rparr>)"
| "lu_reassemble_list check_sn (cur # l) e =
     (if check_sn e (rs_sn cur)
      then bindR (rlc_um_reassemble_pdu e cur) (\<lambda>e1.
             lu_reassemble_list check_sn l (e1\<lparr>lu_rx_size := lu_rx_size e1 - rs_size cur, lu_rx_list := l\<rparr>))
      else Inr (e\<lparr>lu_rx_list := cur # l\<rparr>))"

definition rlc_um_reassemble_upto :: "rlc_entity_um \<Rightarrow> (rlc_entity_um \<Rightarrow> int \<Rightarrow> bool) \<Rightarrow> rlc_entity_um result" where
  "rlc_um_reassemble_upto e check_sn = lu_reassemble_list check_sn (lu_rx_list e) e"

section \<open>Reception\<close>

text \<open>
  The loops that look for the first number not received, from \<open>sn\<close> on; if all numbers have been received they
  never end.
\<close>

function lu_skip_received :: "rlc_entity_um \<Rightarrow> int \<Rightarrow> int \<Rightarrow> int result" where
  "lu_skip_received e sn i =
     (if \<not> rlc_um_pdu_received e sn then Inr sn
      else if i \<ge> lu_sn_modulus e then Inl Hang
      else lu_skip_received e ((sn + 1) mod lu_sn_modulus e) (i + 1))"
  by pat_completeness auto
termination
  by (relation "measure (\<lambda>(e, sn, i). nat (lu_sn_modulus e - i))") auto

declare lu_skip_received.simps [simp del]

definition lu_move_window :: "int \<Rightarrow> rlc_entity_um \<Rightarrow> rlc_entity_um result" where
  "lu_move_window sn e =
     (if lu_sn_in_recv_window e sn then Inr e
      else bindR (rlc_um_reassemble_upto (e\<lparr>lu_vr_uh := (sn + 1) mod lu_sn_modulus e\<rparr>) outside_of_reordering_window) (\<lambda>e1.
        Inr (if \<not> lu_sn_in_recv_window e1 (lu_vr_ur e1)
             then e1\<lparr>lu_vr_ur := (lu_vr_uh e1 - lu_window_size e1 + lu_sn_modulus e1) mod lu_sn_modulus e1\<rparr>
             else e1)))"

definition lu_deliver_in_order :: "rlc_entity_um \<Rightarrow> rlc_entity_um result" where
  "lu_deliver_in_order e =
     (if rlc_um_pdu_received e (lu_vr_ur e)
      then bindR (lu_skip_received e (lu_vr_ur e) 0) (\<lambda>sn. rlc_um_reassemble_upto (e\<lparr>lu_vr_ur := sn\<rparr>) less_than_vr_ur)
      else Inr e)"

definition lu_stop_reordering :: "rlc_entity_um \<Rightarrow> rlc_entity_um" where
  "lu_stop_reordering e =
     (if lu_t_reordering_start e \<noteq> 0 \<and>
         (lu_sn_compare_rx e (lu_vr_ux e) (lu_vr_ur e) \<le> 0 \<or>
          \<not> lu_sn_in_recv_window e (lu_vr_ux e) \<and> lu_vr_ux e \<noteq> lu_vr_uh e)
      then e\<lparr>lu_t_reordering_start := 0\<rparr> else e)"

definition lu_start_reordering :: "rlc_entity_um \<Rightarrow> rlc_entity_um" where
  "lu_start_reordering e =
     (if lu_sn_compare_rx e (lu_vr_uh e) (lu_vr_ur e) > 0
      then e\<lparr>lu_t_reordering_start := lu_t_current e, lu_vr_ux := lu_vr_uh e\<rparr> else e)"

definition rlc_um_reception_actions :: "rlc_entity_um \<Rightarrow> int \<Rightarrow> rlc_entity_um result" where
  "rlc_um_reception_actions e sn =
     bindR (lu_move_window sn e) (\<lambda>e1.
     bindR (lu_deliver_in_order e1) (\<lambda>e2.
       let e3 = lu_stop_reordering e2
       in Inr (if lu_t_reordering_start e3 = 0 then lu_start_reordering e3 else e3)))"

text \<open>
  The length indicators of a PDU: their sum and the decoder behind them. \<open>None\<close> is a discard, for a decoding
  error or an indicator of 0. Each round consumes 12 bits of the PDU, which bounds their number.
\<close>

fun lu_read_lis :: "nat \<Rightarrow> int \<Rightarrow> int \<Rightarrow> nr_rlc_pdu_decoder \<Rightarrow> (int \<times> nr_rlc_pdu_decoder) option result" where
  "lu_read_lis n data_e indicated d =
     (if data_e = 0 then Inr (Some (indicated, d))
      else case n of 0 \<Rightarrow> Inl Hang
      | Suc n' \<Rightarrow>
        bindR (rlc_pdu_decoder_get_bits d 1) (\<lambda>(e', d1).
          if dec_error d1 then Inr None
          else bindR (rlc_pdu_decoder_get_bits d1 11) (\<lambda>(li, d2).
            if dec_error d2 then Inr None
            else if li = 0 then Inr None
            else lu_read_lis n' e' (indicated + li) d2)))"

declare lu_read_lis.simps [simp del]

text \<open>The fixed part of the header: \<open>e\<close> and the SN, and the decoder behind them.\<close>

definition lu_read_header :: "rlc_entity_um \<Rightarrow> byte list \<Rightarrow> (int \<times> int \<times> nr_rlc_pdu_decoder) option result" where
  "lu_read_header en buffer =
     bindR (get_fields (rlc_pdu_decoder_init buffer)
              ((if lu_sn_field_length en = 10 then [3] else []) @ [2, 1, lu_sn_field_length en])) (\<lambda>(vs, d).
       if dec_error d then Inr None
       else Inr (Some (vs ! (length vs - 2), last vs, d)))"

definition lu_discards :: "rlc_entity_um \<Rightarrow> int \<Rightarrow> bool" where
  "lu_discards e sn \<longleftrightarrow>
     lu_sn_compare_rx e (lu_vr_ur e) sn < 0 \<and> lu_sn_compare_rx e sn (lu_vr_uh e) < 0 \<and> rlc_um_pdu_received e sn \<or>
     lu_sn_compare_rx e (lu_vr_uh e - lu_window_size e) sn \<le> 0 \<and> lu_sn_compare_rx e sn (lu_vr_ur e) < 0"

definition rlc_entity_um_recv_pdu :: "rlc_entity_um \<Rightarrow> byte list \<Rightarrow> rlc_entity_um result" where
  "rlc_entity_um_recv_pdu en buffer =
     (let sz = int (length buffer)
      in bindR (lu_read_header en buffer) (\<lambda>r. case r of
           None \<Rightarrow> Inr en
         | Some (e, sn, d) \<Rightarrow>
             if lu_rx_size en + sz > lu_rx_maxsize en then Inr en
             else if lu_discards en sn then Inr en
             else bindR (lu_read_lis (length buffer) e 0 d) (\<lambda>q. case q of
                 None \<Rightarrow> Inr en
               | Some (indicated, d') \<Rightarrow>
                   let data_start = dec_byte (rlc_pdu_decoder_align d');
                       data_size = sz - data_start
                   in if data_size \<le> 0 then Inr en
                      else if indicated \<ge> data_size then Inr en
                      else
                        let pdu = rlc_rx_new_pdu_segment sn 0 True buffer data_start;
                            en1 = en\<lparr>lu_rx_size := lu_rx_size en + sz,
                                     lu_rx_list := rlc_rx_pdu_segment_list_add (lu_sn_compare_rx en) (lu_rx_list en) pdu\<rparr>
                        in rlc_um_reception_actions en1 sn)))"

section \<open>Transmission\<close>

record tx_pdu_size =
  tz_sdu_count :: nat
  tz_data_size :: int
  tz_header_size :: int
  tz_last_sdu_is_full :: bool
  tz_first_sdu_length :: int

definition lu_header_size :: "nat \<Rightarrow> nat \<Rightarrow> int" where
  "lu_header_size sn_field_length sdu_count =
     (8 + 8 * of_bool (sn_field_length = 10) + 12 * (int sdu_count - 1) + 7) div 8"

text \<open>The loop over the SDUs; the header size is set behind it.\<close>

fun lu_tx_size_loop :: "nat \<Rightarrow> int \<Rightarrow> rlc_sdu list \<Rightarrow> tx_pdu_size \<Rightarrow> tx_pdu_size" where
  "lu_tx_size_loop sn_len maxsize [] t = t"
| "lu_tx_size_loop sn_len maxsize (sdu # l) t =
     (let new_header_size = lu_header_size sn_len (tz_sdu_count t + 1)
      in if new_header_size + tz_data_size t \<ge> maxsize then t
         else
           let full = new_header_size + tz_data_size t + (ls_size sdu - ls_next_byte sdu) \<le> maxsize;
               sdu_size = (if full then ls_size sdu - ls_next_byte sdu else maxsize - new_header_size - tz_data_size t);
               t1 = t\<lparr>tz_sdu_count := tz_sdu_count t + 1, tz_data_size := tz_data_size t + sdu_size,
                      tz_last_sdu_is_full := (if full then tz_last_sdu_is_full t else False),
                      tz_first_sdu_length := (if tz_sdu_count t = 0 then sdu_size else tz_first_sdu_length t)\<rparr>
           in if sdu_size > 2047 then t1 else lu_tx_size_loop sn_len maxsize l t1)"

definition lu_tx_pdu_size :: "rlc_entity_um \<Rightarrow> int \<Rightarrow> tx_pdu_size" where
  "lu_tx_pdu_size e maxsize =
     (let t = lu_tx_size_loop (lu_sn_field_length e) maxsize (lu_tx_list e)
                \<lparr>tz_sdu_count = 0, tz_data_size = 0, tz_header_size = 0, tz_last_sdu_is_full = True, tz_first_sdu_length = 0\<rparr>
      in if tz_sdu_count t \<noteq> 0 then t\<lparr>tz_header_size := lu_header_size (lu_sn_field_length e) (tz_sdu_count t)\<rparr> else t)"

text \<open>\<open>status_size\<close>, \<open>tx_size\<close> and \<open>retx_size\<close>; \<open>total_tx_bytes\<close> is left uninitialised.\<close>

definition rlc_entity_um_buffer_status :: "rlc_entity_um \<Rightarrow> int \<Rightarrow> int \<times> int \<times> int" where
  "rlc_entity_um_buffer_status e maxsize =
     (let t = lu_tx_pdu_size e maxsize in (0, tz_data_size t + tz_header_size t, 0))"

text \<open>The bytes of the SDUs that go into the PDU are reserved.\<close>

fun lu_reserve :: "nat \<Rightarrow> int \<Rightarrow> int \<Rightarrow> rlc_sdu list \<Rightarrow> rlc_sdu list result" where
  "lu_reserve 0 cursize data_size l = Inr l"
| "lu_reserve (Suc n) cursize data_size [] = Inl NullDeref"
| "lu_reserve (Suc n) cursize data_size (sdu # l) =
     (let left = ls_size sdu - ls_next_byte sdu;
          sdu_size = (if cursize + left > data_size then data_size - cursize else left)
      in bindR (lu_reserve n (cursize + sdu_size) data_size l) (\<lambda>l'.
           Inr (sdu\<lparr>ls_next_byte := ls_next_byte sdu + sdu_size\<rparr> # l')))"

text \<open>The E and LI fields: of the first SDU, and of the next up to the one before the last.\<close>

definition lu_e :: "bool \<Rightarrow> int" where
  "lu_e b = (if b then 1 else 0)"

fun lu_li_fields :: "nat \<Rightarrow> nat \<Rightarrow> rlc_sdu list \<Rightarrow> (int \<times> nat) list result" where
  "lu_li_fields i sdu_count l =
     (if i \<ge> sdu_count then Inr []
      else case l of
          [] \<Rightarrow> Inl NullDeref
        | sdu # l' \<Rightarrow> bindR (lu_li_fields (i + 1) sdu_count l') (\<lambda>fs.
            Inr ((lu_e (i \<noteq> sdu_count - 1), 1) # (ls_size sdu, 11) # fs)))"

declare lu_li_fields.simps [simp del]

definition lu_header_fields :: "rlc_entity_um \<Rightarrow> tx_pdu_size \<Rightarrow> bool \<Rightarrow> (int \<times> nat) list result" where
  "lu_header_fields e t first_sdu_full =
     bindR (lu_li_fields 2 (tz_sdu_count t) (tl (lu_tx_list e))) (\<lambda>lis.
       Inr ((if lu_sn_field_length e = 10 then [(0, 3)] else []) @
            [((if first_sdu_full then 0 else 2) + (if tz_last_sdu_is_full t then 0 else 1), 2),
             (lu_e (tz_sdu_count t \<ge> 2), 1),
             (lu_vt_us e, if lu_sn_field_length e = 10 then 10 else 5)] @
            (if tz_sdu_count t \<ge> 2 then [(lu_e (tz_sdu_count t \<ge> 3), 1), (tz_first_sdu_length t, 11)] else []) @ lis))"

text \<open>The copy of the data; \<open>sdu_start_byte\<close> is that of the first SDU, then 0.\<close>

fun lu_copy_data :: "nat \<Rightarrow> int \<Rightarrow> int \<Rightarrow> int \<Rightarrow> int \<Rightarrow> rlc_sdu list \<Rightarrow> byte list \<Rightarrow> byte list result" where
  "lu_copy_data 0 header_size data_size outpos start l buffer = Inr buffer"
| "lu_copy_data (Suc n) header_size data_size outpos start [] buffer = Inl NullDeref"
| "lu_copy_data (Suc n) header_size data_size outpos start (sdu # l) buffer =
     (let left = ls_size sdu - start;
          li = (if outpos + left \<ge> data_size then data_size - outpos else left)
      in bindR (slice (ls_data sdu) start li) (\<lambda>bytes.
         bindR (blit buffer (header_size + outpos) bytes) (\<lambda>b.
           lu_copy_data n header_size data_size (outpos + li) 0 l b)))"

fun lu_cleanup :: "rlc_sdu list \<Rightarrow> int \<Rightarrow> rlc_sdu list \<times> int" where
  "lu_cleanup [] tx_size = ([], tx_size)"
| "lu_cleanup (c # l) tx_size = (if ls_size c = ls_next_byte c then lu_cleanup l (tx_size - ls_size c) else (c # l, tx_size))"

text \<open>The result is the size of the PDU, the buffer it is in, and the entity.\<close>

definition rlc_entity_um_generate_pdu :: "rlc_entity_um \<Rightarrow> byte list \<Rightarrow> (int \<times> byte list \<times> rlc_entity_um) result" where
  "rlc_entity_um_generate_pdu e buffer =
     (let t = lu_tx_pdu_size e (int (length buffer))
      in if tz_sdu_count t = 0 then Inr (0, buffer, e)
         else
           let first_sdu_start_byte = ls_next_byte (hd (lu_tx_list e))
           in bindR (lu_reserve (tz_sdu_count t) 0 (tz_data_size t) (lu_tx_list e)) (\<lambda>tx_list.
              let e1 = e\<lparr>lu_tx_list := tx_list\<rparr>
              in bindR (lu_header_fields e1 t (first_sdu_start_byte = 0)) (\<lambda>fs.
                 bindR (rlc_put_fields (rlc_pdu_encoder_init buffer) fs) (\<lambda>enc0.
                 bindR (rlc_pdu_encoder_align enc0) (\<lambda>enc.
                 bindR (lu_copy_data (tz_sdu_count t) (tz_header_size t) (tz_data_size t) 0 first_sdu_start_byte tx_list
                          (enc_buffer enc)) (\<lambda>out.
                 case lu_cleanup tx_list (lu_tx_size e1) of (l, n) \<Rightarrow>
                   Inr (tz_header_size t + tz_data_size t, out,
                     e1\<lparr>lu_tx_list := l, lu_tx_size := n, lu_tx_end := (if l = [] then None else lu_tx_end e1),
                        lu_vt_us := (lu_vt_us e1 + 1) mod lu_sn_modulus e1\<rparr>)))))))"

definition rlc_entity_um_recv_sdu :: "rlc_entity_um \<Rightarrow> byte list \<Rightarrow> int \<Rightarrow> rlc_entity_um result" where
  "rlc_entity_um_recv_sdu e buffer sdu_id =
     (let sz = int (length buffer)
      in if sz > int SDU_MAX then Inl Exit
         else if lu_tx_size e + sz > lu_tx_maxsize e then Inr e
         else
           let sdu = rlc_new_sdu (lu_next_addr e) buffer sdu_id
           in bindR (rlc_sdu_list_add (lu_tx_list e) (lu_tx_end e) sdu) (\<lambda>(l, t).
                Inr (e\<lparr>lu_tx_size := lu_tx_size e + sz, lu_next_addr := lu_next_addr e + 1, lu_tx_list := l, lu_tx_end := t\<rparr>)))"

section \<open>Timer, discard, re-establishment\<close>

definition lu_check_t_reordering :: "rlc_entity_um \<Rightarrow> rlc_entity_um result" where
  "lu_check_t_reordering e =
     (if lu_t_reordering_start e = 0 \<or> lu_t_current e \<le> lu_t_reordering_start e + word_of_int (lu_t_reordering e) then Inr e
      else
        let e1 = e\<lparr>lu_t_reordering_start := 0\<rparr>
        in bindR (lu_skip_received e1 (lu_vr_ux e1) 0) (\<lambda>sn.
           bindR (rlc_um_reassemble_upto (e1\<lparr>lu_vr_ur := sn\<rparr>) less_than_vr_ur) (\<lambda>e2. Inr (lu_start_reordering e2))))"

definition rlc_entity_um_set_time :: "rlc_entity_um \<Rightarrow> u64 \<Rightarrow> rlc_entity_um result" where
  "rlc_entity_um_set_time e now = lu_check_t_reordering (e\<lparr>lu_t_current := now\<rparr>)"

text \<open>\<open>tx_size\<close> is left as it is.\<close>

definition rlc_entity_um_discard_sdu :: "rlc_entity_um \<Rightarrow> int \<Rightarrow> rlc_entity_um" where
  "rlc_entity_um_discard_sdu e sdu_id =
     (let other = (\<lambda>s. ls_upper_layer_id s \<noteq> sdu_id);
          before = takeWhile other (lu_tx_list e)
      in case dropWhile other (lu_tx_list e) of
           [] \<Rightarrow> e
         | cur # rest \<Rightarrow>
             if ls_next_byte cur \<noteq> 0 then e
             else e\<lparr>lu_tx_list := before @ rest,
                    lu_tx_end := (if lu_tx_end e = Some (ls_addr cur)
                                  then (if before = [] then None else Some (ls_addr (last before)))
                                  else lu_tx_end e)\<rparr>)"

definition lu_clear_entity :: "rlc_entity_um \<Rightarrow> rlc_entity_um" where
  "lu_clear_entity e =
     e\<lparr>lu_vr_ur := 0, lu_vr_ux := 0, lu_vr_uh := 0, lu_vt_us := 0, lu_t_current := 0, lu_t_reordering_start := 0,
       lu_rx_list := [], lu_rx_size := 0, lu_reassemble := rr_zero, lu_tx_list := [], lu_tx_end := None, lu_tx_size := 0\<rparr>"

definition rlc_entity_um_reestablishment :: "rlc_entity_um \<Rightarrow> rlc_entity_um result" where
  "rlc_entity_um_reestablishment e =
     bindR (rlc_um_reassemble_upto e less_than_vr_uh) (\<lambda>e1. Inr (lu_clear_entity e1))"

text \<open>What is left of a deleted entity is what it has delivered.\<close>

definition rlc_entity_um_delete :: "rlc_entity_um \<Rightarrow> rlc_event list" where
  "rlc_entity_um_delete e = lu_events (lu_clear_entity e)"

end
