(* ===== verification/Lte_Um_Tx.thy ===== *)
theory Lte_Um_Tx
  imports Lte_Um
begin

text \<open>
  The transmitter of the unacknowledged mode of LTE: a PDU is a header with the lengths of all parts but the
  last, padded to bytes, then the rests of some SDUs and a part of one more.
\<close>

section \<open>The SDUs of the transmitter\<close>

definition sdu_left :: "rlc_sdu \<Rightarrow> byte list" where
  "sdu_left s = drop (nat (ls_next_byte s)) (ls_data s)"

definition lsdu_ok :: "rlc_sdu \<Rightarrow> bool" where
  "lsdu_ok s \<longleftrightarrow> ls_size s = int (length (ls_data s)) \<and> length (ls_data s) \<le> SDU_MAX \<and> 0 \<le> ls_next_byte s \<and> ls_next_byte s < ls_size s"

definition ltx_ok :: "rlc_sdu list \<Rightarrow> bool" where
  "ltx_ok l \<longleftrightarrow> (\<forall>s \<in> set l. lsdu_ok s) \<and> (\<forall>s \<in> set (tl l). ls_next_byte s = 0)"

abbreviation left_len :: "rlc_sdu \<Rightarrow> int" where
  "left_len s \<equiv> ls_size s - ls_next_byte s"

lemma left_len: "lsdu_ok s \<Longrightarrow> left_len s = int (length (sdu_left s)) \<and> sdu_left s \<noteq> [] \<and> 0 < left_len s"
  by (auto simp: lsdu_ok_def sdu_left_def)

text \<open>What the loop over the SDUs finds: whole rests of some SDUs and a part of one more.\<close>

lemma header_size_mono: "lu_header_size n c \<le> lu_header_size n (c + 1)"
  by (simp add: lu_header_size_def)

lemma tx_size_loop_split:
  assumes "\<forall>s \<in> set l. lsdu_ok s" "tz_last_sdu_is_full t0"
  shows "lu_tx_size_loop n mx l t0 = t0 \<or>
    (\<exists>xs s ys m. l = xs @ s # ys \<and> 0 < m \<and> m \<le> left_len s \<and> (\<forall>x \<in> set xs. left_len x \<le> 2047) \<and>
      lu_header_size n (tz_sdu_count t0 + length xs + 1) + tz_data_size t0 + sum_list (map left_len xs) + m \<le> mx \<and>
      lu_tx_size_loop n mx l t0 =
        t0\<lparr>tz_sdu_count := tz_sdu_count t0 + length xs + 1,
           tz_data_size := tz_data_size t0 + sum_list (map left_len xs) + m,
           tz_last_sdu_is_full := (m = left_len s),
           tz_first_sdu_length := (if tz_sdu_count t0 = 0 then (if xs = [] then m else left_len (hd xs)) else tz_first_sdu_length t0)\<rparr>)"
  using assms
proof (induction l arbitrary: t0)
  case Nil
  then show ?case by simp
next
  case (Cons a l)
  let ?h = "lu_header_size n (tz_sdu_count t0 + 1)" and ?d = "tz_data_size t0"
  have a: "0 < left_len a" using Cons.prems(1) left_len [of a] by simp
  show ?case
  proof (cases "?h + ?d \<ge> mx")
    case True
    then show ?thesis by simp
  next
    case False
    define m where "m = (if ?h + ?d + left_len a \<le> mx then left_len a else mx - ?h - ?d)"
    define t1 where "t1 = t0\<lparr>tz_sdu_count := tz_sdu_count t0 + 1, tz_data_size := ?d + m,
        tz_last_sdu_is_full := (m = left_len a),
        tz_first_sdu_length := (if tz_sdu_count t0 = 0 then m else tz_first_sdu_length t0)\<rparr>"
    have m: "0 < m" "m \<le> left_len a" "?h + ?d + m \<le> mx" "m = left_len a \<longleftrightarrow> ?h + ?d + left_len a \<le> mx" 
      using False a by (auto simp: m_def)
    have step: "lu_tx_size_loop n mx (a # l) t0 = (if m > 2047 then t1 else lu_tx_size_loop n mx l t1)"
      using False Cons.prems(2) m(4) by (simp add: t1_def m_def Let_def)
    have one: "\<exists>xs s ys m. a # l = xs @ s # ys \<and> 0 < m \<and> m \<le> left_len s \<and> (\<forall>x \<in> set xs. left_len x \<le> 2047) \<and>
      lu_header_size n (tz_sdu_count t0 + length xs + 1) + ?d + sum_list (map left_len xs) + m \<le> mx \<and>
      t1 = t0\<lparr>tz_sdu_count := tz_sdu_count t0 + length xs + 1,
           tz_data_size := ?d + sum_list (map left_len xs) + m,
           tz_last_sdu_is_full := (m = left_len s),
           tz_first_sdu_length := (if tz_sdu_count t0 = 0 then (if xs = [] then m else left_len (hd xs)) else tz_first_sdu_length t0)\<rparr>"
      using m(1-3) by (intro exI [of _ "[]"] exI [of _ a] exI [of _ l] exI [of _ m]) (simp add: t1_def)
    show ?thesis
    proof (cases "m > 2047 \<or> lu_tx_size_loop n mx l t1 = t1")
      case True
      then have "lu_tx_size_loop n mx (a # l) t0 = t1" using step by auto
      with one show ?thesis by (intro disjI2) (simp only:)
    next
      case False
      have full: "m = left_len a"
      proof (rule ccontr)
        assume "m \<noteq> left_len a"
        then have eq: "?h + ?d + m = mx" by (auto simp: m_def split: if_splits)
        have "lu_tx_size_loop n mx l t1 = t1"
          using header_size_mono [of n "tz_sdu_count t0 + 1"] eq by (cases l) (simp_all add: t1_def Let_def)
        with False show False by simp
      qed
      have t1: "tz_last_sdu_is_full t1" "tz_sdu_count t1 = tz_sdu_count t0 + 1" "tz_data_size t1 = ?d + left_len a"
        "tz_first_sdu_length t1 = (if tz_sdu_count t0 = 0 then left_len a else tz_first_sdu_length t0)"
        using full by (simp_all add: t1_def)
      have "\<forall>s \<in> set l. lsdu_ok s" using Cons.prems(1) by simp
      from Cons.IH [OF this t1(1)] False obtain xs s ys k where r: "l = xs @ s # ys" "0 < k" "k \<le> left_len s"
        "\<forall>x \<in> set xs. left_len x \<le> 2047"
        "lu_header_size n (tz_sdu_count t1 + length xs + 1) + tz_data_size t1 + sum_list (map left_len xs) + k \<le> mx"
        "lu_tx_size_loop n mx l t1 =
          t1\<lparr>tz_sdu_count := tz_sdu_count t1 + length xs + 1, tz_data_size := tz_data_size t1 + sum_list (map left_len xs) + k,
           tz_last_sdu_is_full := (k = left_len s),
           tz_first_sdu_length := (if tz_sdu_count t1 = 0 then (if xs = [] then k else left_len (hd xs)) else tz_first_sdu_length t1)\<rparr>"
        by blast
      have eq: "lu_tx_size_loop n mx (a # l) t0 = lu_tx_size_loop n mx l t1" using step False by simp
      show ?thesis unfolding eq r(6)
        using r(1-5) full False t1(2-4)
        by (intro disjI2 exI [of _ "a # xs"] exI [of _ s] exI [of _ ys] exI [of _ k]) (simp add: t1_def)
    qed
  qed
qed

lemma tx_pdu_size_split:
  assumes "\<forall>s \<in> set (lu_tx_list e). lsdu_ok s" "tz_sdu_count (lu_tx_pdu_size e mx) \<noteq> 0"
  shows "\<exists>xs s ys m. lu_tx_list e = xs @ s # ys \<and> 0 < m \<and> m \<le> left_len s \<and> (\<forall>x \<in> set xs. left_len x \<le> 2047) \<and>
    lu_header_size (lu_sn_field_length e) (length xs + 1) + sum_list (map left_len xs) + m \<le> mx \<and>
    lu_tx_pdu_size e mx = \<lparr>tz_sdu_count = length xs + 1, tz_data_size = sum_list (map left_len xs) + m,
      tz_header_size = lu_header_size (lu_sn_field_length e) (length xs + 1), tz_last_sdu_is_full = (m = left_len s),
      tz_first_sdu_length = (if xs = [] then m else left_len (hd xs))\<rparr>"
proof -
  let ?t0 = "\<lparr>tz_sdu_count = 0, tz_data_size = 0, tz_header_size = 0, tz_last_sdu_is_full = True, tz_first_sdu_length = 0\<rparr>"
  let ?n = "lu_sn_field_length e"
  have full: "tz_last_sdu_is_full ?t0" by simp
  have "lu_tx_size_loop ?n mx (lu_tx_list e) ?t0 \<noteq> ?t0" using assms(2) by (auto simp: lu_tx_pdu_size_def Let_def)
  with tx_size_loop_split [OF assms(1) full, of ?n mx]
  obtain xs s ys m where r: "lu_tx_list e = xs @ s # ys" "0 < m" "m \<le> left_len s" "\<forall>x \<in> set xs. left_len x \<le> 2047"
    "lu_header_size ?n (length xs + 1) + sum_list (map left_len xs) + m \<le> mx"
    "lu_tx_size_loop ?n mx (lu_tx_list e) ?t0 = \<lparr>tz_sdu_count = length xs + 1, tz_data_size = sum_list (map left_len xs) + m,
      tz_header_size = 0, tz_last_sdu_is_full = (m = left_len s), tz_first_sdu_length = (if xs = [] then m else left_len (hd xs))\<rparr>"
    by auto
  then show ?thesis by (intro exI [of _ xs] exI [of _ s] exI [of _ ys] exI [of _ m]) (simp add: lu_tx_pdu_size_def)
qed

section \<open>The PDU that is made\<close>

definition take_all :: "rlc_sdu \<Rightarrow> rlc_sdu" where
  "take_all s = s\<lparr>ls_next_byte := ls_size s\<rparr>"

lemma sum_left_nonneg: "\<forall>x \<in> set xs. lsdu_ok x \<Longrightarrow> 0 \<le> sum_list (map left_len xs)"
  by (induction xs) (auto dest: left_len)

lemma reserve_split:
  assumes "\<forall>x \<in> set xs. lsdu_ok x" "0 < m" "m \<le> left_len s" "D = c + sum_list (map left_len xs) + m"
  shows "lu_reserve (Suc (length xs)) c D (xs @ s # ys) =
    Inr (map take_all xs @ s\<lparr>ls_next_byte := ls_next_byte s + m\<rparr> # ys)"
  using assms
proof (induction xs arbitrary: c)
  case Nil
  then show ?case by (auto simp: Let_def)
next
  case (Cons x xs)
  have "0 \<le> sum_list (map left_len xs)" using Cons.prems(1) sum_left_nonneg by simp
  then have "\<not> c + left_len x > D" using Cons.prems(2,4) by simp
  moreover have "lu_reserve (Suc (length xs)) (c + left_len x) D (xs @ s # ys) =
      Inr (map take_all xs @ s\<lparr>ls_next_byte := ls_next_byte s + m\<rparr> # ys)"
    using Cons by simp
  ultimately show ?case by (simp add: Let_def take_all_def)
qed

text \<open>The extension part of the header, for the lengths of all SDUs but the last.\<close>

fun li_list :: "int list \<Rightarrow> (int \<times> nat) list" where
  "li_list [] = []"
| "li_list (n # ns) = (lu_e (ns \<noteq> []), 1) # (n, 11) # li_list ns"

lemma li_fields_split:
  assumes "k = i + length xs" "2 \<le> i"
  shows "lu_li_fields i k (xs @ ys) = Inr (li_list (map ls_size xs))"
  using assms
proof (induction xs arbitrary: i)
  case Nil
  then show ?case by (simp add: lu_li_fields.simps)
next
  case (Cons x xs)
  then have "lu_li_fields (i + 1) k (xs @ ys) = Inr (li_list (map ls_size xs))" by simp
  moreover have "i \<noteq> k - 1 \<longleftrightarrow> xs \<noteq> []" using Cons.prems by (cases xs) auto
  ultimately show ?case using Cons.prems by (simp add: lu_li_fields.simps [of i] lu_e_def)
qed

definition lu_head_fields :: "nat \<Rightarrow> int \<Rightarrow> bool \<Rightarrow> int \<Rightarrow> (int \<times> nat) list" where
  "lu_head_fields n fi e sn = (if n = 10 then [(0, 3)] else []) @ [(fi, 2), (lu_e e, 1), (sn, n)]"

definition lu_fi :: "bool \<Rightarrow> bool \<Rightarrow> int" where
  "lu_fi first_full last_full = (if first_full then 0 else 2) + (if last_full then 0 else 1)"

lemma header_fields_split:
  assumes "lu_tx_list e = map take_all xs @ s' # ys" "lu_sn_field_length e = 5 \<or> lu_sn_field_length e = 10"
    "tz_sdu_count t = length xs + 1" "tz_first_sdu_length t = (if xs = [] then m else left_len (hd xs))"
    "\<forall>x \<in> set (tl xs). ls_next_byte x = 0"
  shows "lu_header_fields e t b = Inr (lu_head_fields (lu_sn_field_length e) (lu_fi b (tz_last_sdu_is_full t)) (xs \<noteq> []) (lu_vt_us e) @
    li_list (map left_len xs))"
proof (cases xs)
  case Nil
  with assms show ?thesis
    by (auto simp: lu_header_fields_def lu_head_fields_def lu_fi_def lu_e_def lu_li_fields.simps)
next
  case (Cons x xs')
  have "map ls_size (map take_all xs') = map left_len xs'" using assms(5) Cons by (simp add: take_all_def)
  moreover have "lu_li_fields 2 (length xs + 1) (tl (lu_tx_list e)) = Inr (li_list (map ls_size (map take_all xs')))"
    using li_fields_split [of "length xs + 1" 2 "map take_all xs'" "s' # ys"] assms(1) Cons by simp
  ultimately have "lu_li_fields 2 (length xs + 1) (tl (lu_tx_list e)) = Inr (li_list (map left_len xs'))" by (simp only:)
  with assms Cons show ?thesis
    by (auto simp: lu_header_fields_def lu_head_fields_def lu_fi_def lu_e_def Suc_le_eq)
qed

lemma copy_data_split:
  assumes "\<forall>x \<in> set xs. lsdu_ok x" "lsdu_ok s" "\<forall>x \<in> set (tl (xs @ [s])). ls_next_byte x = 0"
    "start = ls_next_byte (hd (xs @ [s]))" "0 < m" "m \<le> left_len s"
    "D = c + sum_list (map left_len xs) + m" "0 \<le> c" "0 \<le> h" "h + D \<le> int (length buf)"
  shows "lu_copy_data (Suc (length xs)) h D c start (map take_all xs @ s\<lparr>ls_next_byte := q\<rparr> # ys) buf =
    Inr (take (nat (h + c)) buf @ concat (map sdu_left xs) @ take (nat m) (sdu_left s) @ drop (nat (h + D)) buf)"
  using assms
proof (induction xs arbitrary: c start buf)
  case Nil
  let ?p = "take (nat m) (drop (nat start) (ls_data s))"
  have ok: "ls_size s = int (length (ls_data s))" "0 \<le> start" "start + m \<le> ls_size s" using Nil.prems by (auto simp: lsdu_ok_def)
  then have p: "slice (ls_data s) start m = Inr ?p" "int (length ?p) = m" using Nil.prems(5) by (auto simp: slice_ok)
  have "blit buf (h + c) ?p = Inr (take (nat (h + c)) buf @ ?p @ drop (nat (h + c) + length ?p) buf)"
    using Nil.prems(7-10) p(2) by (intro blit_ok) simp_all
  moreover have "nat (h + c) + length ?p = nat (h + D)" using p(2) Nil.prems(7-9) by simp
  ultimately have b: "blit buf (h + c) ?p = Inr (take (nat (h + c)) buf @ ?p @ drop (nat (h + D)) buf)" by (simp only:)
  have "D - c = m" "left_len s = ls_size s - start" "start = ls_next_byte s" using Nil.prems(4,7) by simp_all
  then show ?case using p(1) b Nil.prems(5,6) by (auto simp: Let_def sdu_left_def)
next
  case (Cons x xs)
  have okx: "lsdu_ok x" using Cons.prems(1) by simp
  have st: "start = ls_next_byte x" using Cons.prems(4) by simp
  have sum: "0 \<le> sum_list (map left_len xs)" using sum_left_nonneg Cons.prems(1) by simp
  have lx: "left_len x = int (length (sdu_left x))" using left_len [OF okx] by simp
  have p: "slice (ls_data x) start (left_len x) = Inr (sdu_left x)"
    using okx st by (auto simp: slice_ok lsdu_ok_def sdu_left_def)
  have D: "\<not> c + left_len x \<ge> D" "D = (c + left_len x) + sum_list (map left_len xs) + m" using Cons.prems(5,7) sum by simp_all
  let ?b = "take (nat (h + c)) buf @ sdu_left x @ drop (nat (h + c) + length (sdu_left x)) buf"
  have b: "blit buf (h + c) (sdu_left x) = Inr ?b" using Cons.prems(8-10) D sum Cons.prems(5) lx by (intro blit_ok) simp_all
  have hd0: "0 = ls_next_byte (hd (xs @ [s]))" using Cons.prems(3) by (cases xs) auto
  have tl0: "\<forall>x \<in> set (tl (xs @ [s])). ls_next_byte x = 0" using Cons.prems(3) by (cases xs) auto
  have lb: "length ?b = length buf" using blit_length [OF b] .
  have r: "lu_copy_data (Suc (length xs)) h D (c + left_len x) 0 (map take_all xs @ s\<lparr>ls_next_byte := q\<rparr> # ys) ?b =
    Inr (take (nat (h + (c + left_len x))) ?b @ concat (map sdu_left xs) @ take (nat m) (sdu_left s) @ drop (nat (h + D)) ?b)"
    using Cons.prems D lx lb by (intro Cons.IH hd0 tl0) simp_all
  have n: "nat (h + (c + left_len x)) = nat (h + c) + length (sdu_left x)" using lx Cons.prems(8,9) by simp
  have nb: "nat (h + c) + length (sdu_left x) \<le> length buf" using lx Cons.prems(8-10) D sum Cons.prems(5) by linarith
  have t: "take (nat (h + (c + left_len x))) ?b = take (nat (h + c)) buf @ sdu_left x" unfolding n using nb by simp
  have d: "drop (nat (h + D)) ?b = drop (nat (h + D)) buf"
  proof -
    have "nat (h + c) + length (sdu_left x) \<le> nat (h + D)" using lx Cons.prems(5,8,9) D sum by linarith
    then show ?thesis using nb by simp
  qed
  have a: "ls_size (take_all x) = ls_size x" "ls_data (take_all x) = ls_data x" by (simp_all add: take_all_def)
  show ?case using p b D(1) st r [unfolded t d] by (simp add: Let_def a)
qed

lemma length_li_list: "length (fields_bits (li_list ns)) = 12 * length ns"
  by (induction ns) auto

lemma length_head_fields:
  "n = 5 \<or> n = 10 \<Longrightarrow> length (fields_bits (lu_head_fields n fi e sn)) = (if n = 10 then 16 else 8)"
  by (auto simp: lu_head_fields_def)

lemma fields_bits_append [simp]: "fields_bits (a @ b) = fields_bits a @ fields_bits b"
  by (simp add: fields_bits_def)

lemma li_list_widths: "\<forall>(v, k) \<in> set (li_list ns). k \<le> 31"
  by (induction ns) auto

lemma round_up:
  fixes x k :: nat
  assumes "k < 8" "(x + k) mod 8 = 0"
  shows "x + k = 8 * ((x + 7) div 8)"
proof -
  obtain q where q: "x + k = 8 * q" using assms(2) by (auto simp: mod_eq_0_iff_dvd dvd_def)
  then have "x + 7 = (7 - k) + q * 8" using assms(1) by simp
  then have "(x + 7) div 8 = q + (7 - k) div 8" by (simp only: div_mult_self1)
  with q show ?thesis by simp
qed

text \<open>The header in the buffer: whole bytes with the fields and less than a byte of padding.\<close>

lemma encode_header:
  fixes fi sn :: int and e :: bool
  assumes "n = 5 \<or> n = 10" "lu_header_size n (length ns + 1) \<le> int (length buf)"
  defines "fs \<equiv> lu_head_fields n fi e sn @ li_list ns"
  shows "\<exists>enc0 enc k. rlc_put_fields (rlc_pdu_encoder_init buf) fs = Inr enc0 \<and> rlc_pdu_encoder_align enc0 = Inr enc \<and>
    length (enc_buffer enc) = length buf \<and>
    bytes_bits (take (nat (lu_header_size n (length ns + 1))) (enc_buffer enc)) = fields_bits fs @ replicate k False"
proof -
  let ?h = "nat (lu_header_size n (length ns + 1))"
  have bits: "length (fields_bits fs) = (if n = 10 then 16 else 8) + 12 * length ns"
    unfolding fs_def using length_head_fields [OF assms(1)] length_li_list by simp
  have hs: "lu_header_size n (length ns + 1) = int ((length (fields_bits fs) + 7) div 8)"
    unfolding bits lu_header_size_def using assms(1) by (auto simp: zdiv_int)
  then have h: "?h = (length (fields_bits fs) + 7) div 8" by simp
  have room: "(length (fields_bits fs) + 7) div 8 \<le> length buf" using assms(2) hs by simp
  have up: "x \<le> 8 * y" if "(x + 7) div 8 \<le> y" for x y :: nat using that by linarith
  have fit: "length (fields_bits fs) \<le> 8 * length buf" by (rule up [OF room])
  have w: "\<forall>(v, k) \<in> set fs. k \<le> 31"
    unfolding fs_def using assms(1) li_list_widths [of ns] by (auto simp: lu_head_fields_def)
  obtain enc0 where e0: "rlc_put_fields (rlc_pdu_encoder_init buf) fs = Inr enc0" "lenc_at enc0 (fields_bits fs) (length buf)"
    using rlc_put_fields_at [OF lenc_init_at _ w] fit by auto
  obtain enc k where e1: "rlc_pdu_encoder_align enc0 = Inr enc" "k < 8" "(length (fields_bits fs) + k) mod 8 = 0"
    "lenc_at enc (fields_bits fs @ replicate k False) (length buf)"
    using rlc_align_at [OF e0(2)] by (elim exE conjE) (rule that)
  have "length (fields_bits fs) + k = 8 * ?h" unfolding h by (rule round_up [OF e1(2,3)])
  then have len: "length (fields_bits fs @ replicate k False) = 8 * ?h" by simp
  from lenc_at_bytes [OF e1(4) len] e0(1) e1(1) show ?thesis by blast
qed

lemma cleanup_split:
  assumes "\<forall>y \<in> set ys. lsdu_ok y"
  shows "\<exists>k. lu_cleanup (map take_all xs @ s\<lparr>ls_next_byte := q\<rparr> # ys) n =
    (if ls_size s = q then ys else s\<lparr>ls_next_byte := q\<rparr> # ys, k)"
proof (induction xs arbitrary: n)
  case Nil
  have "lu_cleanup ys k = (ys, k)" for k using assms by (cases ys) (auto simp: lsdu_ok_def)
  then show ?case by auto
next
  case (Cons x xs)
  then show ?case by (simp add: take_all_def)
qed

definition lu_cfg_ok :: "rlc_entity_um \<Rightarrow> bool" where
  "lu_cfg_ok e \<longleftrightarrow> (lu_sn_field_length e = 5 \<or> lu_sn_field_length e = 10) \<and> lu_sn_modulus e = 2 ^ lu_sn_field_length e \<and>
     lu_window_size e = lu_sn_modulus e div 2"

text \<open>\<open>lu_cut\<close>: the SDUs that go whole, the one of which \<open>m\<close> bytes go, and the others.\<close>

definition lu_cut :: "rlc_sdu list \<Rightarrow> rlc_sdu list \<Rightarrow> rlc_sdu \<Rightarrow> rlc_sdu list \<Rightarrow> int \<Rightarrow> bool" where
  "lu_cut l xs s ys m \<longleftrightarrow> l = xs @ s # ys \<and> 0 < m \<and> m \<le> left_len s \<and> (\<forall>x \<in> set xs. left_len x \<le> 2047)"

definition lu_rest :: "rlc_sdu \<Rightarrow> int \<Rightarrow> rlc_sdu list \<Rightarrow> rlc_sdu list" where
  "lu_rest s m ys = (if m = left_len s then ys else s\<lparr>ls_next_byte := ls_next_byte s + m\<rparr> # ys)"

definition lu_parts :: "rlc_sdu list \<Rightarrow> rlc_sdu \<Rightarrow> int \<Rightarrow> byte list list" where
  "lu_parts xs s m = map sdu_left xs @ [take (nat m) (sdu_left s)]"

lemma generate_pdu_eq:
  assumes "lu_tx_pdu_size e (int (length buf)) = t" "tz_sdu_count t \<noteq> 0"
    "lu_reserve (tz_sdu_count t) 0 (tz_data_size t) (lu_tx_list e) = Inr l"
    "lu_header_fields (e\<lparr>lu_tx_list := l\<rparr>) t (ls_next_byte (hd (lu_tx_list e)) = 0) = Inr fs"
    "rlc_put_fields (rlc_pdu_encoder_init buf) fs = Inr enc0" "rlc_pdu_encoder_align enc0 = Inr enc"
    "lu_copy_data (tz_sdu_count t) (tz_header_size t) (tz_data_size t) 0 (ls_next_byte (hd (lu_tx_list e))) l (enc_buffer enc) = Inr out"
    "lu_cleanup l (lu_tx_size e) = (l', z)"
  shows "rlc_entity_um_generate_pdu e buf = Inr (tz_header_size t + tz_data_size t, out,
    e\<lparr>lu_tx_list := l', lu_tx_size := z, lu_tx_end := (if l' = [] then None else lu_tx_end e),
      lu_vt_us := (lu_vt_us e + 1) mod lu_sn_modulus e\<rparr>)"
  using assms by (simp add: rlc_entity_um_generate_pdu_def Let_def)

lemma generate_pdu_parts:
  assumes "lu_cfg_ok e" "ltx_ok (lu_tx_list e)" "tz_sdu_count (lu_tx_pdu_size e (int (length buf))) \<noteq> 0"
  shows "\<exists>xs s ys m n out e' H k. lu_cut (lu_tx_list e) xs s ys m \<and>
    rlc_entity_um_generate_pdu e buf = Inr (n, out, e') \<and> 0 < n \<and> n \<le> int (length buf) \<and>
    take (nat n) out = H @ concat (lu_parts xs s m) \<and>
    bytes_bits H = fields_bits (lu_head_fields (lu_sn_field_length e)
       (lu_fi (ls_next_byte (hd (lu_tx_list e)) = 0) (m = left_len s)) (xs \<noteq> []) (lu_vt_us e) @ li_list (map left_len xs)) @
       replicate k False \<and>
    int (length H) = lu_header_size (lu_sn_field_length e) (length xs + 1) \<and>
    (\<exists>z. e' = e\<lparr>lu_tx_list := lu_rest s m ys, lu_tx_size := z, lu_tx_end := (if lu_rest s m ys = [] then None else lu_tx_end e),
       lu_vt_us := (lu_vt_us e + 1) mod lu_sn_modulus e\<rparr>)"
proof -
  let ?n = "lu_sn_field_length e"
  have ok: "\<forall>s \<in> set (lu_tx_list e). lsdu_ok s" using assms(2) by (simp add: ltx_ok_def)
  obtain xs s ys m where c: "lu_tx_list e = xs @ s # ys" "0 < m" "m \<le> left_len s" "\<forall>x \<in> set xs. left_len x \<le> 2047"
    and fit: "lu_header_size ?n (length xs + 1) + sum_list (map left_len xs) + m \<le> int (length buf)"
    and t: "lu_tx_pdu_size e (int (length buf)) = \<lparr>tz_sdu_count = length xs + 1, tz_data_size = sum_list (map left_len xs) + m,
      tz_header_size = lu_header_size ?n (length xs + 1), tz_last_sdu_is_full = (m = left_len s),
      tz_first_sdu_length = (if xs = [] then m else left_len (hd xs))\<rparr>"
    using tx_pdu_size_split [OF ok assms(3)] by blast
  let ?h = "lu_header_size ?n (length xs + 1)" and ?D = "sum_list (map left_len xs) + m"
  let ?s = "s\<lparr>ls_next_byte := ls_next_byte s + m\<rparr>" and ?b = "ls_next_byte (hd (lu_tx_list e)) = 0"
  have okx: "\<forall>x \<in> set xs. lsdu_ok x" "lsdu_ok s" "\<forall>y \<in> set ys. lsdu_ok y" using ok c(1) by auto
  have tl0: "\<forall>x \<in> set (tl (xs @ [s])). ls_next_byte x = 0" using assms(2) c(1) by (cases xs) (auto simp: ltx_ok_def)
  then have tlx: "\<forall>x \<in> set (tl xs). ls_next_byte x = 0" by (cases xs) auto
  have n: "?n = 5 \<or> ?n = 10" using assms(1) by (simp add: lu_cfg_ok_def)
  have sum: "0 \<le> sum_list (map left_len xs)" by (rule sum_left_nonneg [OF okx(1)])
  have h0: "0 < ?h" by (simp add: lu_header_size_def pos_imp_zdiv_pos_iff)
  let ?l = "map take_all xs @ ?s # ys"
  have res: "lu_reserve (length xs + 1) 0 ?D (lu_tx_list e) = Inr ?l"
    using reserve_split [OF okx(1) c(2,3), of ?D 0 ys] c(1) by simp
  let ?e1 = "e\<lparr>lu_tx_list := ?l\<rparr>"
  have hf: "lu_header_fields ?e1 (lu_tx_pdu_size e (int (length buf))) ?b =
      Inr (lu_head_fields ?n (lu_fi ?b (m = left_len s)) (xs \<noteq> []) (lu_vt_us e) @ li_list (map left_len xs))"
    unfolding t using header_fields_split [of ?e1 xs ?s ys _ m ?b] n tlx by simp
  have fith: "lu_header_size ?n (length (map left_len xs) + 1) \<le> int (length buf)" using fit sum c(2) by simp
  from encode_header [OF n fith, of "lu_fi ?b (m = left_len s)" "xs \<noteq> []" "lu_vt_us e"]
  obtain enc0 enc k where enc: "rlc_put_fields (rlc_pdu_encoder_init buf)
      (lu_head_fields ?n (lu_fi ?b (m = left_len s)) (xs \<noteq> []) (lu_vt_us e) @ li_list (map left_len xs)) = Inr enc0"
    "rlc_pdu_encoder_align enc0 = Inr enc" "length (enc_buffer enc) = length buf"
    "bytes_bits (take (nat ?h) (enc_buffer enc)) = fields_bits (lu_head_fields ?n (lu_fi ?b (m = left_len s)) (xs \<noteq> []) (lu_vt_us e) @
      li_list (map left_len xs)) @ replicate k False" by auto
  let ?out = "take (nat ?h) (enc_buffer enc) @ concat (map sdu_left xs) @ take (nat m) (sdu_left s) @ drop (nat (?h + ?D)) (enc_buffer enc)"
  have start: "ls_next_byte (hd (lu_tx_list e)) = ls_next_byte (hd (xs @ [s]))" using c(1) by (cases xs) simp_all
  have copy: "lu_copy_data (length xs + 1) ?h ?D 0 (ls_next_byte (hd (lu_tx_list e))) ?l (enc_buffer enc) = Inr ?out"
    using copy_data_split [OF okx(1,2) tl0 start c(2,3), of ?D 0 ?h "enc_buffer enc" "ls_next_byte s + m" ys] fit enc(3) h0 by simp
  obtain z where cl: "lu_cleanup ?l (lu_tx_size e) = (lu_rest s m ys, z)"
  proof -
    have "ls_size s = ls_next_byte s + m \<longleftrightarrow> m = left_len s" by auto
    with cleanup_split [OF okx(3), where xs = xs and s = s and q = "ls_next_byte s + m" and n = "lu_tx_size e"] that show thesis by (auto simp: lu_rest_def)
  qed
  let ?e' = "e\<lparr>lu_tx_list := lu_rest s m ys, lu_tx_size := z, lu_tx_end := (if lu_rest s m ys = [] then None else lu_tx_end e),
      lu_vt_us := (lu_vt_us e + 1) mod lu_sn_modulus e\<rparr>"
  have gen: "rlc_entity_um_generate_pdu e buf = Inr (?h + ?D, ?out, ?e')"
    using generate_pdu_eq [OF t _ _ hf [unfolded t] enc(1,2) _ cl, of ?out] res copy by simp
  have lm: "int (length (take (nat m) (sdu_left s))) = m" using left_len [OF okx(2)] c(2,3) by simp
  have lx: "int (length (concat (map sdu_left xs))) = sum_list (map left_len xs)"
    using okx(1) by (induction xs) (auto dest: left_len)
  have lh: "int (length (take (nat ?h) (enc_buffer enc))) = ?h" using fith enc(3) h0 by simp
  have n': "nat (?h + ?D) = length (take (nat ?h) (enc_buffer enc) @ concat (lu_parts xs s m))"
    using lm lx lh sum c(2) h0 by (simp add: lu_parts_def)
  have out: "?out = (take (nat ?h) (enc_buffer enc) @ concat (lu_parts xs s m)) @ drop (nat (?h + ?D)) (enc_buffer enc)"
    by (simp add: lu_parts_def)
  have tk: "take (length a) (a @ b) = a" for a b :: "byte list" by simp
  have tk': "take (nat (?h + ?D)) ((take (nat ?h) (enc_buffer enc) @ concat (lu_parts xs s m)) @ r) =
      take (nat ?h) (enc_buffer enc) @ concat (lu_parts xs s m)" for r
    unfolding n' by (rule tk)
  have "take (nat (?h + ?D)) ?out = take (nat ?h) (enc_buffer enc) @ concat (lu_parts xs s m)" by (simp only: out tk')
  then obtain n out H where o: "rlc_entity_um_generate_pdu e buf = Inr (n, out, ?e')" "n = ?h + ?D"
    "take (nat n) out = H @ concat (lu_parts xs s m)" "bytes_bits H = fields_bits (lu_head_fields ?n (lu_fi ?b (m = left_len s)) (xs \<noteq> []) (lu_vt_us e) @
      li_list (map left_len xs)) @ replicate k False" "int (length H) = ?h"
    using that [OF gen refl _ enc(4) lh] by blast
  have cut: "lu_cut (lu_tx_list e) xs s ys m" using c by (simp add: lu_cut_def)
  have n: "0 < n" "n \<le> int (length buf)" using o(2) fit sum c(2) h0 by simp_all
  show ?thesis
    by (rule exI [of _ xs], rule exI [of _ s], rule exI [of _ ys], rule exI [of _ m], rule exI [of _ n], rule exI [of _ out],
        rule exI [of _ ?e'], rule exI [of _ H], rule exI [of _ k]) (intro conjI cut o n exI [of _ z] refl)
qed

end
