(* ===== verification/Lte_Um_Link.thy ===== *)
theory Lte_Um_Link
  imports Lte_Um_Tx
begin

text \<open>
  The receiver of the unacknowledged mode of LTE on a PDU of its peer, and the link of the two: whatever the
  grants, the SDUs come out unchanged and in order.
\<close>

section \<open>Reading the header\<close>

lemma read_bits:
  assumes "dec_at d buf p" "drop p (bytes_bits buf) = int_bits v k @ rest" "k \<le> 31" "0 \<le> v" "v < 2 ^ k" "p \<le> 8 * length buf"
  shows "\<exists>d'. rlc_pdu_decoder_get_bits d k = Inr (v, d') \<and> dec_at d' buf (p + k) \<and> \<not> dec_error d' \<and>
    drop (p + k) (bytes_bits buf) = rest \<and> p + k \<le> 8 * length buf"
proof -
  have "length (drop p (bytes_bits buf)) = k + length rest" unfolding assms(2) by simp
  then have room: "p + k \<le> 8 * length buf" using assms(6) by simp
  have v: "bits_int (take k (drop p (bytes_bits buf))) = v"
    unfolding assms(2) using assms(4,5) by (simp add: bits_int_int_bits_id)
  obtain d' where d': "nr_rlc_pdu_decoder_get_bits d k = Inr (v, d')" "dec_at d' buf (p + k)"
    using get_bits_at [OF assms(1) room assms(3)] unfolding v by blast
  moreover have "drop (p + k) (bytes_bits buf) = rest"
    using arg_cong [OF assms(2), of "drop k"] by (simp add: add.commute)
  moreover have "\<not> dec_error d'" using d'(2) by (simp add: dec_at_def dec_ok_def)
  ultimately show ?thesis using room by (auto simp: rlc_pdu_decoder_get_bits_def)
qed

lemma lu_e_range [simp]: "0 \<le> lu_e b" "lu_e b < 2" "lu_e b \<noteq> 0 \<longleftrightarrow> b" "lu_e b = 0 \<longleftrightarrow> \<not> b"
  by (simp_all add: lu_e_def)

lemma read_e_li:
  assumes "dec_at d buf p" "drop p (bytes_bits buf) = fields_bits (li_list (n # ns)) @ rest" "0 \<le> n" "n < 2048" "p \<le> 8 * length buf"
  shows "\<exists>d1 d2. rlc_pdu_decoder_get_bits d 1 = Inr (lu_e (ns \<noteq> []), d1) \<and> \<not> dec_error d1 \<and>
    rlc_pdu_decoder_get_bits d1 11 = Inr (n, d2) \<and> \<not> dec_error d2 \<and> dec_at d2 buf (p + 12) \<and>
    drop (p + 12) (bytes_bits buf) = fields_bits (li_list ns) @ rest \<and> p + 12 \<le> 8 * length buf"
proof -
  let ?rest = "int_bits n 11 @ fields_bits (li_list ns) @ rest"
  have e: "drop p (bytes_bits buf) = int_bits (lu_e (ns \<noteq> [])) 1 @ ?rest" using assms(2) by simp
  obtain d1 where d1: "rlc_pdu_decoder_get_bits d 1 = Inr (lu_e (ns \<noteq> []), d1)" "dec_at d1 buf (p + 1)" "\<not> dec_error d1"
    "drop (p + 1) (bytes_bits buf) = ?rest" "p + 1 \<le> 8 * length buf"
    using read_bits [OF assms(1) e _ _ _ assms(5)] by auto
  have p: "p + 1 + 11 = p + 12" by simp
  obtain d2 where d2: "rlc_pdu_decoder_get_bits d1 11 = Inr (n, d2)" "dec_at d2 buf (p + 12)" "\<not> dec_error d2"
    "drop (p + 12) (bytes_bits buf) = fields_bits (li_list ns) @ rest" "p + 12 \<le> 8 * length buf"
    using read_bits [OF d1(2,4) _ assms(3) _ d1(5), unfolded p] assms(4) by auto
  show ?thesis by (rule exI [of _ d1], rule exI [of _ d2]) (intro conjI d1 d2)
qed

lemma read_lis:
  assumes "dec_at d buf p" "drop p (bytes_bits buf) = fields_bits (li_list ns) @ rest" "\<forall>n \<in> set ns. 0 < n \<and> n < 2048"
    "p \<le> 8 * length buf" "length ns \<le> fuel"
  shows "\<exists>d'. lu_read_lis fuel (lu_e (ns \<noteq> [])) i d = Inr (Some (i + sum_list ns, d')) \<and> dec_at d' buf (p + 12 * length ns)"
  using assms
proof (induction ns arbitrary: d p i fuel)
  case Nil
  then show ?case by (simp add: lu_read_lis.simps)
next
  case (Cons n ns)
  have n: "0 < n" "n < 2048" using Cons.prems(3) by simp_all
  obtain d1 d2 where d: "rlc_pdu_decoder_get_bits d 1 = Inr (lu_e (ns \<noteq> []), d1)" "\<not> dec_error d1"
    "rlc_pdu_decoder_get_bits d1 11 = Inr (n, d2)" "\<not> dec_error d2" "dec_at d2 buf (p + 12)"
    "drop (p + 12) (bytes_bits buf) = fields_bits (li_list ns) @ rest" "p + 12 \<le> 8 * length buf"
    using read_e_li [OF Cons.prems(1,2) less_imp_le [OF n(1)] n(2) Cons.prems(4)] by blast
  obtain f where f: "fuel = Suc f" "length ns \<le> f" using Cons.prems(5) by (cases fuel) auto
  have ns: "\<forall>n \<in> set ns. 0 < n \<and> n < 2048" using Cons.prems(3) by simp
  obtain d' where "lu_read_lis f (lu_e (ns \<noteq> [])) (i + n) d2 = Inr (Some (i + n + sum_list ns, d'))"
    "dec_at d' buf (p + 12 + 12 * length ns)"
    using Cons.IH [OF d(5,6) ns d(7) f(2)] by blast
  then show ?case using d(1-4) n(1) f(1) by (simp add: lu_read_lis.simps [of "Suc f"] add.assoc)
qed

lemma read_header:
  assumes "lu_cfg_ok en" "bytes_bits buf = fields_bits (lu_head_fields (lu_sn_field_length en) fi e sn) @ rest"
    "0 \<le> fi" "fi < 4" "0 \<le> sn" "sn < lu_sn_modulus en"
  shows "\<exists>d. lu_read_header en buf = Inr (Some (lu_e e, sn, d)) \<and>
    dec_at d buf (length (fields_bits (lu_head_fields (lu_sn_field_length en) fi e sn)))"
proof -
  let ?n = "lu_sn_field_length en"
  let ?fs = "lu_head_fields ?n fi e sn"
  have n: "?n = 5 \<or> ?n = 10" "sn < 2 ^ ?n" using assms(1,6) by (auto simp: lu_cfg_ok_def)
  have w: "\<forall>(v, k) \<in> set ?fs. k \<le> 31 \<and> 0 \<le> v \<and> v < 2 ^ k" using n assms(3-5) by (auto simp: lu_head_fields_def)
  have b: "drop 0 (bytes_bits buf) = fields_bits ?fs @ rest" using assms(2) by simp
  obtain d where d: "get_fields (rlc_pdu_decoder_init buf) (map snd ?fs) = Inr (map fst ?fs, d)"
    "dec_at d buf (0 + length (fields_bits ?fs))"
    using get_fields_at [OF decoder_init_at b _ w] by auto
  have "map snd ?fs = (if ?n = 10 then [3] else []) @ [2, 1, ?n]" by (simp add: lu_head_fields_def)
  then have "lu_read_header en buf = Inr (Some (lu_e e, sn, d))"
    using d by (auto simp: lu_read_header_def lu_head_fields_def dec_at_def dec_ok_def)
  with d(2) show ?thesis by auto
qed

section \<open>The loop over the parts of a PDU\<close>

abbreviation rr_append :: "byte list \<Rightarrow> rlc_entity_um \<Rightarrow> rlc_entity_um" where
  "rr_append bs en \<equiv> lu_upd_rr (\<lambda>r. r\<lparr>rr_sdu := rr_sdu r @ bs\<rparr>) en"

lemma rr_append_sel [simp]:
  "rr_sdu (lu_reassemble (rr_append bs en)) = rr_sdu (lu_reassemble en) @ bs"
  "lu_upd_rr (\<lambda>r. r\<lparr>rr_sdu := rr_sdu r @ cs\<rparr>) (rr_append bs en) = rr_append (bs @ cs) en"
  by (simp_all add: lu_upd_rr_def)

definition after_part ::
  "rlc_rx_pdu_segment \<Rightarrow> int \<Rightarrow> int \<Rightarrow> int \<Rightarrow> nr_rlc_pdu_decoder \<Rightarrow> rlc_entity_um \<Rightarrow> rlc_entity_um result" where
  "after_part pdu fi e p d en =
     (let en2 = (if p \<noteq> rs_size pdu \<or> fi AND 1 = 0 then lu_sdu_end en else en)
      in if p = rs_size pdu then Inr en2
         else bindR (lu_next_li pdu e p d) (\<lambda>(e', li, d'). lu_reassemble_loop pdu fi e' li p p d' en2))"

lemma loop_part:
  assumes "rs_data pdu = pre @ part @ post" "part \<noteq> []" "length (rr_sdu (lu_reassemble en)) + length part \<le> SDU_MAX"
    "off \<le> int (length pre)" "off + len = int (length pre + length part)"
  shows "lu_reassemble_loop pdu fi e len off (int (length pre)) d en =
    after_part pdu fi e (int (length pre + length part)) d (rr_append part en)"
  using assms
proof (induction part arbitrary: pre en)
  case Nil
  then show ?case by simp
next
  case (Cons b part)
  let ?en = "rr_append [b] en"
  have room: "\<not> length (rr_sdu (lu_reassemble en)) \<ge> SDU_MAX" using Cons.prems(3) by simp
  have b: "rs_data pdu ! length pre = b" "length pre < length (rs_data pdu)" using Cons.prems(1) by simp_all
  have step: "lu_reassemble_loop pdu fi e len off (int (length pre)) d en =
      (if int (length pre) + 1 \<noteq> off + len then lu_reassemble_loop pdu fi e len off (int (length pre) + 1) d ?en
       else after_part pdu fi e (int (length pre) + 1) d ?en)"
    using room b by (subst lu_reassemble_loop.simps) (simp add: Let_def after_part_def)
  show ?case
  proof (cases "part = []")
    case True
    with step Cons.prems(5) show ?thesis by (simp add: add.commute)
  next
    case False
    have eq: "int (length pre) + 1 = int (length (pre @ [b]))" by simp
    have "lu_reassemble_loop pdu fi e len off (int (length (pre @ [b]))) d ?en =
        after_part pdu fi e (int (length (pre @ [b]) + length part)) d (rr_append part ?en)"
      using Cons.prems False by (intro Cons.IH) simp_all
    moreover have "int (length pre) + 1 \<noteq> off + len" using False Cons.prems(5) by simp
    ultimately show ?thesis using step unfolding eq by simp
  qed
qed

text \<open>
  All parts from one on: those that end inside the PDU are ends of SDUs, the last one is an end when \<open>fi\<close> says so.
\<close>

definition deliver_parts :: "byte list list \<Rightarrow> rlc_entity_um \<Rightarrow> rlc_entity_um" where
  "deliver_parts sdus en = en\<lparr>lu_events := lu_events en @ map DeliverSdu sdus\<rparr>"

definition rr_set :: "byte list \<Rightarrow> rlc_entity_um \<Rightarrow> rlc_entity_um" where
  "rr_set bs en = lu_upd_rr (\<lambda>r. r\<lparr>rr_sdu := bs\<rparr>) en"

lemma sdu_end_append:
  assumes "\<not> rr_sdu_head_missing (lu_reassemble en)"
  shows "lu_sdu_end (rr_append bs en) = rr_set [] (deliver_parts [rr_sdu (lu_reassemble en) @ bs] en)"
  using assms by (simp add: lu_sdu_end_def lu_upd_rr_def Let_def rr_set_def deliver_parts_def)

lemma rr_set_simps [simp]:
  "rr_sdu (lu_reassemble (rr_set bs en)) = bs" "rr_set bs (rr_set cs en) = rr_set bs en"
  "deliver_parts a (rr_set bs en) = rr_set bs (deliver_parts a en)" "deliver_parts b (deliver_parts a en) = deliver_parts (a @ b) en"
  "rr_sdu_head_missing (lu_reassemble (rr_set bs en)) = rr_sdu_head_missing (lu_reassemble en)"
  "rr_sdu_head_missing (lu_reassemble (deliver_parts a en)) = rr_sdu_head_missing (lu_reassemble en)"
  "deliver_parts [] en = en"
  by (simp_all add: rr_set_def deliver_parts_def lu_upd_rr_def)

lemma rr_append_set: "rr_append bs en = rr_set (rr_sdu (lu_reassemble en) @ bs) en"
  by (simp add: rr_set_def lu_upd_rr_def)

lemma sdu_end_set: "\<not> rr_sdu_head_missing (lu_reassemble en) \<Longrightarrow> lu_sdu_end (rr_set bs en) = rr_set [] (deliver_parts [bs] en)"
  by (simp add: lu_sdu_end_def lu_upd_rr_def Let_def rr_set_def deliver_parts_def)

definition lu_done :: "int \<Rightarrow> byte list list \<Rightarrow> byte list list" where
  "lu_done fi sdus = (if fi AND 1 = 0 then sdus else butlast sdus)"

definition lu_open :: "int \<Rightarrow> byte list list \<Rightarrow> byte list" where
  "lu_open fi sdus = (if fi AND 1 = 0 then [] else last sdus)"

lemma loop_parts:
  assumes "rs_data pdu = pre @ part @ concat parts" "rs_size pdu = int (length (rs_data pdu))" "part \<noteq> []" "[] \<notin> set parts"
    "dec_at d (rs_data pdu) n" "n \<le> 8 * length (rs_data pdu)"
    "drop n (bytes_bits (rs_data pdu)) = fields_bits (li_list (map (\<lambda>q. int (length q)) (butlast parts))) @ rest"
    "\<forall>q \<in> set (butlast parts). length q < 2048" "\<forall>q \<in> set parts. length q \<le> SDU_MAX"
    "length (rr_sdu (lu_reassemble en)) + length part \<le> SDU_MAX" "\<not> rr_sdu_head_missing (lu_reassemble en)"
    "e = lu_e (butlast parts \<noteq> [])" "len = int (length part)"
  shows "lu_reassemble_loop pdu fi e len (int (length pre)) (int (length pre)) d en =
    Inr (rr_set (lu_open fi ((rr_sdu (lu_reassemble en) @ part) # parts))
      (deliver_parts (lu_done fi ((rr_sdu (lu_reassemble en) @ part) # parts)) en))"
  using assms
proof (induction parts arbitrary: pre part d n en e len)
  case Nil
  have "lu_reassemble_loop pdu fi e len (int (length pre)) (int (length pre)) d en =
      after_part pdu fi e (int (length pre + length part)) d (rr_append part en)"
    using Nil.prems by (intro loop_part) simp_all
  moreover have "int (length pre + length part) = rs_size pdu" using Nil.prems(1,2) by simp
  ultimately show ?case using Nil.prems(11)
    by (simp add: after_part_def lu_done_def lu_open_def sdu_end_set rr_append_set)
next
  case (Cons q parts)
  let ?p = "int (length pre + length part)" and ?sdu = "rr_sdu (lu_reassemble en) @ part"
  let ?en = "rr_set [] (deliver_parts [?sdu] en)"
  have q: "q \<noteq> []" "[] \<notin> set parts" using Cons.prems(4) by auto
  have "lu_reassemble_loop pdu fi e len (int (length pre)) (int (length pre)) d en = after_part pdu fi e ?p d (rr_append part en)"
    using Cons.prems by (intro loop_part [where post = "concat (q # parts)"]) simp_all
  moreover have p: "?p \<noteq> rs_size pdu" using Cons.prems(1,2) q(1) by (cases q) simp_all
  ultimately have loop: "lu_reassemble_loop pdu fi e len (int (length pre)) (int (length pre)) d en =
      bindR (lu_next_li pdu e ?p d) (\<lambda>(e', li, d'). lu_reassemble_loop pdu fi e' li ?p ?p d' ?en)"
    using Cons.prems(11) by (simp add: after_part_def sdu_end_append)
  have pre: "?p = int (length (pre @ part))" by simp
  have data: "rs_data pdu = (pre @ part) @ q @ concat parts" using Cons.prems(1) by simp
  have goal: "lu_reassemble_loop pdu fi e' (int (length q)) ?p ?p d' ?en =
      Inr (rr_set (lu_open fi (?sdu # q # parts)) (deliver_parts (lu_done fi (?sdu # q # parts)) en))"
    if "dec_at d' (rs_data pdu) n'" "n' \<le> 8 * length (rs_data pdu)" "e' = lu_e (butlast parts \<noteq> [])"
      "drop n' (bytes_bits (rs_data pdu)) = fields_bits (li_list (map (\<lambda>q. int (length q)) (butlast parts))) @ rest" for d' n' e'
  proof -
    have short: "\<forall>q \<in> set (butlast parts). length q < 2048" using Cons.prems(8) by (cases parts) auto
    have max1: "\<forall>q \<in> set parts. length q \<le> SDU_MAX" "length (rr_sdu (lu_reassemble ?en)) + length q \<le> SDU_MAX"
      using Cons.prems(9) by simp_all
    have "\<not> rr_sdu_head_missing (lu_reassemble ?en)" using Cons.prems(11) by simp
    from Cons.IH [OF data Cons.prems(2) q that(1,2,4) short max1 this that(3) refl]
    show ?thesis unfolding pre by (simp add: lu_open_def lu_done_def)
  qed
  show ?case
  proof (cases "parts = []")
    case True
    have "rs_size pdu - ?p = int (length q)" using data Cons.prems(2) True by simp
    then have "lu_next_li pdu e ?p d = Inr (e, int (length q), d)" using Cons.prems(12) True by (simp add: lu_next_li_def)
    with loop goal [OF Cons.prems(5,6)] Cons.prems(7,12) True show ?thesis by simp
  next
    case False
    then have bl: "butlast (q # parts) = q # butlast parts" by simp
    have lq: "0 \<le> int (length q)" "int (length q) < 2048" using Cons.prems(8) bl by simp_all
    have bits: "drop n (bytes_bits (rs_data pdu)) =
        fields_bits (li_list (int (length q) # map (\<lambda>q. int (length q)) (butlast parts))) @ rest" using Cons.prems(7) bl by simp
    obtain d1 d2 where d: "rlc_pdu_decoder_get_bits d 1 = Inr (lu_e (map (\<lambda>q. int (length q)) (butlast parts) \<noteq> []), d1)"
      "rlc_pdu_decoder_get_bits d1 11 = Inr (int (length q), d2)" "dec_at d2 (rs_data pdu) (n + 12)"
      "drop (n + 12) (bytes_bits (rs_data pdu)) = fields_bits (li_list (map (\<lambda>q. int (length q)) (butlast parts))) @ rest"
      "n + 12 \<le> 8 * length (rs_data pdu)"
      using read_e_li [OF Cons.prems(5) bits lq Cons.prems(6)] by blast
    have "lu_next_li pdu e ?p d = Inr (lu_e (butlast parts \<noteq> []), int (length q), d2)"
      using d(1,2) Cons.prems(12) bl by (simp add: lu_next_li_def)
    with loop goal [OF d(3,5) refl d(4)] show ?thesis by simp
  qed
qed

section \<open>A PDU in sequence\<close>

text \<open>A received PDU with these parts behind its header.\<close>

definition pdu_of :: "rlc_entity_um \<Rightarrow> byte list \<Rightarrow> byte list \<Rightarrow> int \<Rightarrow> int \<Rightarrow> byte list list \<Rightarrow> bool" where
  "pdu_of en buf H fi sn parts \<longleftrightarrow> buf = H @ concat parts \<and> parts \<noteq> [] \<and> [] \<notin> set parts \<and>
     (\<forall>q \<in> set (butlast parts). length q < 2048) \<and> 0 \<le> fi \<and> fi < 4 \<and> 0 \<le> sn \<and> sn < lu_sn_modulus en \<and>
     int (length H) = lu_header_size (lu_sn_field_length en) (length parts) \<and>
     (\<exists>k. bytes_bits H = fields_bits (lu_head_fields (lu_sn_field_length en) fi (butlast parts \<noteq> []) sn) @
        fields_bits (li_list (map (\<lambda>q. int (length q)) (butlast parts))) @ replicate k False)"

lemma reassemble_pdu_parts:
  assumes "lu_cfg_ok en" "pdu_of en buf H fi sn parts"
    "rr_sdu (lu_reassemble (lu_start_pdu sn fi en)) = acc" "\<not> rr_sdu_head_missing (lu_reassemble (lu_start_pdu sn fi en))"
    "length acc + length (hd parts) \<le> SDU_MAX" "\<forall>q \<in> set parts. length q \<le> SDU_MAX"
  shows "rlc_um_reassemble_pdu en (rlc_rx_new_pdu_segment sn 0 True buf (int (length H))) =
    Inr (rr_set (lu_open fi ((acc @ hd parts) # tl parts)) (deliver_parts (lu_done fi ((acc @ hd parts) # tl parts)) (lu_start_pdu sn fi en)))"
proof -
  let ?n = "lu_sn_field_length en" and ?pdu = "rlc_rx_new_pdu_segment sn 0 True buf (int (length H))"
  obtain part parts' where ps: "parts = part # parts'" using assms(2) by (cases parts) (auto simp: pdu_of_def)
  have buf: "buf = H @ part @ concat parts'" "part \<noteq> []" "[] \<notin> set parts'" using assms(2) ps by (auto simp: pdu_of_def)
  let ?lens = "map (\<lambda>q. int (length q)) (butlast parts)"
  obtain k where bits: "bytes_bits H = fields_bits (lu_head_fields ?n fi (butlast parts \<noteq> []) sn) @ fields_bits (li_list ?lens) @ replicate k False"
    using assms(2) by (auto simp: pdu_of_def)
  let ?rest = "replicate k False @ bytes_bits (concat parts)"
  have all: "bytes_bits buf = (if ?n = 10 then int_bits 0 3 else []) @ int_bits fi 2 @ int_bits (lu_e (butlast parts \<noteq> [])) 1 @
      int_bits sn ?n @ fields_bits (li_list ?lens) @ ?rest"
    using assms(2) bits by (auto simp: pdu_of_def lu_head_fields_def)
  have n: "?n = 5 \<or> ?n = 10" "0 \<le> fi" "fi < 4" "0 \<le> sn" "sn < 2 ^ ?n"
    using assms(1,2) by (auto simp: lu_cfg_ok_def pdu_of_def)
  obtain r1 d0 p0 where d0: "(if ?n = 10 then rlc_pdu_decoder_get_bits (rlc_pdu_decoder_init buf) 3 else Inr (0, rlc_pdu_decoder_init buf)) = Inr (r1, d0)"
    "dec_at d0 buf p0" "drop p0 (bytes_bits buf) = int_bits fi 2 @ int_bits (lu_e (butlast parts \<noteq> [])) 1 @
      int_bits sn ?n @ fields_bits (li_list ?lens) @ ?rest" "p0 \<le> 8 * length buf"
  proof (cases "?n = 10")
    case True
    have b: "drop 0 (bytes_bits buf) = int_bits 0 3 @ int_bits fi 2 @ int_bits (lu_e (butlast parts \<noteq> [])) 1 @
      int_bits sn ?n @ fields_bits (li_list ?lens) @ ?rest" using all True by simp
    from read_bits [OF decoder_init_at b] that True show thesis by auto
  next
    case False
    with that [of 0 "rlc_pdu_decoder_init buf" 0] decoder_init_at [of buf] all show thesis by simp
  qed
  obtain d1 where d1: "rlc_pdu_decoder_get_bits d0 2 = Inr (fi, d1)" "dec_at d1 buf (p0 + 2)"
    "drop (p0 + 2) (bytes_bits buf) = int_bits (lu_e (butlast parts \<noteq> [])) 1 @ int_bits sn ?n @ fields_bits (li_list ?lens) @ ?rest"
    "p0 + 2 \<le> 8 * length buf"
    using read_bits [OF d0(2,3) _ n(2) _ d0(4)] n(3) by auto
  obtain d2 where d2: "rlc_pdu_decoder_get_bits d1 1 = Inr (lu_e (butlast parts \<noteq> []), d2)" "dec_at d2 buf (p0 + 2 + 1)"
    "drop (p0 + 2 + 1) (bytes_bits buf) = int_bits sn ?n @ fields_bits (li_list ?lens) @ ?rest" "p0 + 2 + 1 \<le> 8 * length buf"
    using read_bits [OF d1(2,3) _ _ _ d1(4)] by auto
  obtain d3 where d3: "rlc_pdu_decoder_get_bits d2 ?n = Inr (sn, d3)" "dec_at d3 buf (p0 + 2 + 1 + ?n)"
    "drop (p0 + 2 + 1 + ?n) (bytes_bits buf) = fields_bits (li_list ?lens) @ ?rest" "p0 + 2 + 1 + ?n \<le> 8 * length buf"
    using read_bits [OF d2(2,3) _ n(4,5) d2(4)] n(1) by auto
  let ?en = "lu_start_pdu sn fi en"
  have loop: "lu_reassemble_loop ?pdu fi e (int (length part)) (int (length H)) (int (length H)) d ?en =
      Inr (rr_set (lu_open fi ((acc @ part) # parts')) (deliver_parts (lu_done fi ((acc @ part) # parts')) ?en))"
    if "dec_at d buf p" "p \<le> 8 * length buf" "drop p (bytes_bits buf) = fields_bits (li_list (map (\<lambda>q. int (length q)) (butlast parts'))) @ ?rest"
      "e = lu_e (butlast parts' \<noteq> [])" for d p e
  proof -
    have "\<forall>q \<in> set (butlast parts'). length q < 2048" using assms(2) ps by (cases parts') (auto simp: pdu_of_def)
    moreover have "\<forall>q \<in> set parts'. length q \<le> SDU_MAX" "length (rr_sdu (lu_reassemble ?en)) + length part \<le> SDU_MAX"
      using assms(3,5,6) ps by simp_all
    ultimately show ?thesis
      using loop_parts [of ?pdu H part parts' d p ?rest ?en e "int (length part)" fi] buf that assms(3,4)
      by (simp add: rlc_rx_new_pdu_segment_def)
  qed
  have next_li: "\<exists>d p. lu_next_li ?pdu (lu_e (butlast parts \<noteq> [])) (int (length H)) d3 = Inr (lu_e (butlast parts' \<noteq> []), int (length part), d) \<and>
      dec_at d buf p \<and> p \<le> 8 * length buf \<and>
      drop p (bytes_bits buf) = fields_bits (li_list (map (\<lambda>q. int (length q)) (butlast parts'))) @ ?rest"
  proof (cases "parts' = []")
    case True
    then have "rs_size ?pdu - int (length H) = int (length part)" using buf(1) by (simp add: rlc_rx_new_pdu_segment_def)
    with True ps d3 show ?thesis by (auto simp: lu_next_li_def lu_e_def)
  next
    case False
    then have bl: "butlast parts = part # butlast parts'" using ps by simp
    have "\<forall>q \<in> set (butlast parts). length q < 2048" using assms(2) by (simp add: pdu_of_def)
    then have lq: "0 \<le> int (length part)" "int (length part) < 2048" using bl by simp_all
    have li: "drop (p0 + 2 + 1 + ?n) (bytes_bits buf) =
        fields_bits (li_list (int (length part) # map (\<lambda>q. int (length q)) (butlast parts'))) @ ?rest" using d3(3) bl by simp
    obtain e1 e2 where "rlc_pdu_decoder_get_bits d3 1 = Inr (lu_e (map (\<lambda>q. int (length q)) (butlast parts') \<noteq> []), e1)"
      "rlc_pdu_decoder_get_bits e1 11 = Inr (int (length part), e2)" "dec_at e2 buf (p0 + 2 + 1 + ?n + 12)"
      "drop (p0 + 2 + 1 + ?n + 12) (bytes_bits buf) = fields_bits (li_list (map (\<lambda>q. int (length q)) (butlast parts'))) @ ?rest"
      "p0 + 2 + 1 + ?n + 12 \<le> 8 * length buf"
      using read_e_li [OF d3(2) li lq d3(4)] by blast
    then show ?thesis using bl by (intro exI [of _ e2] exI [of _ "p0 + 2 + 1 + ?n + 12"]) (simp add: lu_next_li_def)
  qed
  then obtain d p where d: "lu_next_li ?pdu (lu_e (butlast parts \<noteq> [])) (int (length H)) d3 = Inr (lu_e (butlast parts' \<noteq> []), int (length part), d)"
    "dec_at d buf p" "p \<le> 8 * length buf" "drop p (bytes_bits buf) = fields_bits (li_list (map (\<lambda>q. int (length q)) (butlast parts'))) @ ?rest"
    by blast
  have sel: "rs_data ?pdu = buf" "rs_data_offset ?pdu = int (length H)" by (simp_all add: rlc_rx_new_pdu_segment_def)
  show ?thesis unfolding rlc_um_reassemble_pdu_def sel d0(1)
    using d1(1) d2(1) d3(1) d(1) loop [OF d(2-4) refl] ps by simp
qed

lemma cfg_numbers:
  assumes "lu_cfg_ok e" "0 \<le> sn" "sn < lu_sn_modulus e"
  defines "M \<equiv> lu_sn_modulus e" and "W \<equiv> lu_window_size e"
  shows "M = 2 * W" "1 < W"
    "lu_vr_uh e = sn \<Longrightarrow> lu_modulus_rx e sn = W" "lu_vr_uh e = sn \<Longrightarrow> lu_modulus_rx e (sn - W) = 0"
    "lu_vr_uh e = (sn + 1) mod M \<Longrightarrow> lu_modulus_rx e sn = W - 1" "lu_vr_uh e = (sn + 1) mod M \<Longrightarrow> lu_modulus_rx e ((sn + 1) mod M) = W"
proof -
  show m: "M = 2 * W" "1 < W" using assms(1) by (auto simp: M_def W_def lu_cfg_ok_def)
  show "lu_vr_uh e = sn \<Longrightarrow> lu_modulus_rx e sn = W" "lu_vr_uh e = sn \<Longrightarrow> lu_modulus_rx e (sn - W) = 0"
    using m by (simp_all add: lu_modulus_rx_def flip: M_def W_def)
  show "lu_vr_uh e = (sn + 1) mod M \<Longrightarrow> lu_modulus_rx e ((sn + 1) mod M) = W"
    using m by (simp add: lu_modulus_rx_def flip: M_def W_def)
  assume u: "lu_vr_uh e = (sn + 1) mod M"
  show "lu_modulus_rx e sn = W - 1"
  proof (cases "sn + 1 = M")
    case True
    have "sn + W = 3 * W - 1" using True m(1) by simp
    moreover have "lu_modulus_rx e sn = (sn + W) mod (2 * W)" using u True m by (simp add: lu_modulus_rx_def flip: M_def W_def)
    ultimately have "lu_modulus_rx e sn = (3 * W - 1) mod (2 * W)" by (simp only:)
    also have "3 * W - 1 = (W - 1) + 1 * (2 * W)" by simp
    also have "((W - 1) + 1 * (2 * W)) mod (2 * W) = (W - 1) mod (2 * W)" by (rule mod_mult_self1)
    also have "\<dots> = W - 1" using m(2) by (simp add: mod_pos_pos_trivial)
    finally show ?thesis .
  next
    case False
    then have "(sn + 1) mod M = sn + 1" using assms(2,3) by (simp add: M_def)
    with u m show ?thesis by (simp add: lu_modulus_rx_def flip: M_def W_def)
  qed
qed

lemma less_at:
  assumes "lu_cfg_ok e" "0 \<le> sn" "sn < lu_sn_modulus e" "lu_vr_uh e = (sn + 1) mod lu_sn_modulus e"
    "lu_vr_ur e = (sn + 1) mod lu_sn_modulus e"
  shows "less_than_vr_ur e sn"
  using cfg_numbers(5,6) [OF assms(1-4)] assms(5) by (simp add: less_than_vr_ur_def lu_sn_compare_rx_def)

lemma start_acc:
  assumes "\<not> rr_sdu_head_missing (lu_reassemble e)"
    "fi AND 2 \<noteq> 0 \<longrightarrow> rr_sdu (lu_reassemble e) \<noteq> [] \<and> sn = (rr_sn (lu_reassemble e) + 1) mod lu_sn_modulus e"
  shows "rr_sdu (lu_reassemble (lu_start_pdu sn fi e)) = (if fi AND 2 = 0 then [] else rr_sdu (lu_reassemble e))"
    "\<not> rr_sdu_head_missing (lu_reassemble (lu_start_pdu sn fi e))"
  using assms by (cases "fi AND 2 = 0"; simp add: lu_start_pdu_def Let_def)+

lemma next_sn_differs: "1 < (M :: int) \<Longrightarrow> 0 \<le> sn \<Longrightarrow> sn < M \<Longrightarrow> (sn + 1) mod M \<noteq> sn"
  by (cases "sn + 1 = M") auto

definition lu_cfg :: "rlc_entity_um \<Rightarrow> (nat \<times> int \<times> int) \<times> int \<times> int" where
  "lu_cfg e = ((lu_sn_field_length e, lu_sn_modulus e, lu_window_size e), lu_rx_maxsize e, lu_tx_maxsize e)"

lemma start_pdu_sel [simp]:
  "lu_cfg (lu_start_pdu sn fi e) = lu_cfg e" "lu_vr_ur (lu_start_pdu sn fi e) = lu_vr_ur e" "lu_vr_uh (lu_start_pdu sn fi e) = lu_vr_uh e"
  "lu_rx_list (lu_start_pdu sn fi e) = lu_rx_list e" "lu_rx_size (lu_start_pdu sn fi e) = lu_rx_size e"
  "lu_events (lu_start_pdu sn fi e) = lu_events e" "rr_sn (lu_reassemble (lu_start_pdu sn fi e)) = sn"
  "lu_t_reordering_start (lu_start_pdu sn fi e) = lu_t_reordering_start e"
  by (simp_all add: lu_start_pdu_def lu_cfg_def Let_def)

lemma parts_sel [simp]:
  "lu_cfg (rr_set a (deliver_parts b e)) = lu_cfg e" "lu_vr_ur (rr_set a (deliver_parts b e)) = lu_vr_ur e"
  "lu_vr_uh (rr_set a (deliver_parts b e)) = lu_vr_uh e" "lu_rx_size (rr_set a (deliver_parts b e)) = lu_rx_size e"
  "lu_events (rr_set a (deliver_parts b e)) = lu_events e @ map DeliverSdu b" 
  "rr_sn (lu_reassemble (rr_set a (deliver_parts b e))) = rr_sn (lu_reassemble e)"
  "lu_t_reordering_start (rr_set a (deliver_parts b e)) = lu_t_reordering_start e"
  by (simp_all add: rr_set_def lu_upd_rr_def deliver_parts_def lu_cfg_def)

lemma reassemble_none: "lu_rx_list e = [x] \<Longrightarrow> \<not> check e (rs_sn x) \<Longrightarrow> rlc_um_reassemble_upto e check = Inr e"
  by (simp add: rlc_um_reassemble_upto_def)

lemma deliver_one:
  assumes "lu_rx_list e = [x]" "rs_sn x = lu_vr_ur e" "u = (lu_vr_ur e + 1) mod lu_sn_modulus e" "u \<noteq> lu_vr_ur e" "0 < lu_sn_modulus e"
    "less_than_vr_ur (e\<lparr>lu_vr_ur := u\<rparr>) (rs_sn x)" "rlc_um_reassemble_pdu (e\<lparr>lu_vr_ur := u\<rparr>) x = Inr e4"
  shows "lu_deliver_in_order e = Inr (e4\<lparr>lu_rx_size := lu_rx_size e4 - rs_size x, lu_rx_list := []\<rparr>)"
proof -
  have "rlc_um_pdu_received e sn \<longleftrightarrow> sn = lu_vr_ur e" for sn using assms(1,2) by (auto simp: rlc_um_pdu_received_def)
  note got = this
  have "lu_skip_received e u 1 = Inr u" using assms(4) got by (simp add: lu_skip_received.simps [of e u])
  then have "lu_skip_received e (lu_vr_ur e) 0 = Inr u"
    using assms(5) got by (simp add: lu_skip_received.simps [of e "lu_vr_ur e"] flip: assms(3))
  moreover have "rlc_um_reassemble_upto (e\<lparr>lu_vr_ur := u\<rparr>) less_than_vr_ur = Inr (e4\<lparr>lu_rx_size := lu_rx_size e4 - rs_size x, lu_rx_list := []\<rparr>)"
    using assms(1,6,7) by (simp add: rlc_um_reassemble_upto_def)
  ultimately show ?thesis using assms(1,2) by (simp add: lu_deliver_in_order_def rlc_um_pdu_received_def)
qed

lemma recv_pdu_in_sync:
  assumes "lu_cfg_ok r" "pdu_of r buf H fi sn parts" "lu_rx_list r = []" "lu_rx_size r = 0" "lu_vr_ur r = sn" "lu_vr_uh r = sn"
    "lu_t_reordering_start r = 0" "int (length buf) \<le> lu_rx_maxsize r" "\<not> rr_sdu_head_missing (lu_reassemble r)"
    "fi AND 2 \<noteq> 0 \<longrightarrow> rr_sdu (lu_reassemble r) \<noteq> [] \<and> sn = (rr_sn (lu_reassemble r) + 1) mod lu_sn_modulus r"
    "acc = (if fi AND 2 = 0 then [] else rr_sdu (lu_reassemble r))"
    "length acc + length (hd parts) \<le> SDU_MAX" "\<forall>q \<in> set parts. length q \<le> SDU_MAX"
  shows "\<exists>r'. rlc_entity_um_recv_pdu r buf = Inr r' \<and> lu_cfg r' = lu_cfg r \<and> lu_rx_list r' = [] \<and> lu_rx_size r' = 0 \<and>
    lu_vr_ur r' = (sn + 1) mod lu_sn_modulus r \<and> lu_vr_uh r' = (sn + 1) mod lu_sn_modulus r \<and> lu_t_reordering_start r' = 0 \<and>
    \<not> rr_sdu_head_missing (lu_reassemble r') \<and> rr_sn (lu_reassemble r') = sn \<and>
    rr_sdu (lu_reassemble r') = lu_open fi ((acc @ hd parts) # tl parts) \<and>
    lu_events r' = lu_events r @ map DeliverSdu (lu_done fi ((acc @ hd parts) # tl parts))"
proof -
  let ?M = "lu_sn_modulus r" and ?W = "lu_window_size r" and ?n = "lu_sn_field_length r"
  let ?lens = "map (\<lambda>q. int (length q)) (butlast parts)" and ?u = "(sn + 1) mod lu_sn_modulus r"
  have p: "buf = H @ concat parts" "parts \<noteq> []" "[] \<notin> set parts" "\<forall>q \<in> set (butlast parts). length q < 2048"
    "0 \<le> fi" "fi < 4" "0 \<le> sn" "sn < ?M" "int (length H) = lu_header_size ?n (length parts)"
    using assms(2) by (auto simp: pdu_of_def)
  obtain k where bits: "bytes_bits H = fields_bits (lu_head_fields ?n fi (butlast parts \<noteq> []) sn) @ fields_bits (li_list ?lens) @ replicate k False"
    using assms(2) by (auto simp: pdu_of_def)
  let ?rest = "replicate k False @ bytes_bits (concat parts)"
  let ?hl = "length (fields_bits (lu_head_fields ?n fi (butlast parts \<noteq> []) sn))"
  have all: "bytes_bits buf = fields_bits (lu_head_fields ?n fi (butlast parts \<noteq> []) sn) @ fields_bits (li_list ?lens) @ ?rest"
    using p(1) bits by simp
  obtain d where d: "lu_read_header r buf = Inr (Some (lu_e (butlast parts \<noteq> []), sn, d))" "dec_at d buf ?hl"
    using read_header [OF assms(1) all p(5-8)] by blast
  have len: "length (bytes_bits buf) = ?hl + length (fields_bits (li_list ?lens) @ ?rest)" unfolding all by (rule length_append)
  then have hl2: "?hl \<le> 8 * length buf" by simp
  have hl1: "drop ?hl (bytes_bits buf) = fields_bits (li_list ?lens) @ ?rest" unfolding all by simp
  note hl = hl1 hl2
  have ll: "length ?lens \<le> length buf"
    using arg_cong [OF all, of length] length_li_list [of ?lens] by simp
  have pos: "\<forall>n \<in> set ?lens. 0 < n \<and> n < 2048" using p(3,4) by (auto dest: in_set_butlastD)
  obtain d' where d': "lu_read_lis (length buf) (lu_e (butlast parts \<noteq> [])) 0 d = Inr (Some (sum_list ?lens, d'))"
    "dec_at d' buf (?hl + 12 * length ?lens)"
    using read_lis [OF d(2) hl(1) pos hl(2) ll, of 0] by auto
  have n: "?n = 5 \<or> ?n = 10" using assms(1) by (simp add: lu_cfg_ok_def)
  have "int ((?hl + 12 * length ?lens + 7) div 8) = lu_header_size ?n (length parts)"
    using length_head_fields [OF n, of fi "butlast parts \<noteq> []" sn] n p(2)
    by (cases parts) (auto simp: lu_header_size_def zdiv_int)
  then have start: "dec_byte (rlc_pdu_decoder_align d') = int (length H)" using decoder_align_at [OF d'(2)] p(9) by simp
  have sum: "int (length (concat parts)) = sum_list ?lens + int (length (last parts))"
  proof -
    have "concat parts = concat (butlast parts) @ last parts"
      using p(2) append_butlast_last_id [of parts] by (metis concat.simps concat_append append_Nil2)
    moreover have "int (length (concat l)) = sum_list (map (\<lambda>q. int (length q)) l)" for l :: "byte list list" by (induction l) auto
    ultimately show ?thesis by simp
  qed
  have last: "0 < int (length (last parts))" using p(2,3) last_in_set [of parts] by (cases "last parts") auto
  have lens0: "0 \<le> sum_list ?lens" by (intro sum_list_nonneg) auto
  have size: "int (length buf) - int (length H) = sum_list ?lens + int (length (last parts))" using p(1) sum by simp
  note num = cfg_numbers [OF assms(1) p(7,8)]
  have disc: "\<not> lu_discards r sn" using assms(5,6) num(1-4) by (simp add: lu_discards_def lu_sn_compare_rx_def)
  let ?pdu = "rlc_rx_new_pdu_segment sn 0 True buf (int (length H))"
  let ?r1 = "r\<lparr>lu_rx_size := int (length buf), lu_rx_list := [?pdu]\<rparr>"
  have longer: "length H < length buf" "\<not> int (length buf) - int (length H) \<le> sum_list ?lens" using size last lens0 by linarith+
  have recv: "rlc_entity_um_recv_pdu r buf = rlc_um_reception_actions ?r1 sn"
    using longer d(1) assms(3,4,8) disc d'(1) start
    by (simp add: rlc_entity_um_recv_pdu_def Let_def rlc_rx_pdu_segment_list_add_def)
  let ?r2 = "?r1\<lparr>lu_vr_uh := ?u\<rparr>"
  have sn: "rs_sn ?pdu = sn" "rs_size ?pdu = int (length buf)" by (simp_all add: rlc_rx_new_pdu_segment_def)
  have cfg2: "lu_cfg_ok ?r2" "lu_sn_modulus ?r2 = ?M" using assms(1) by (simp_all add: lu_cfg_ok_def)
  note num2 = cfg_numbers [OF cfg2(1), of sn, unfolded cfg2(2), OF p(7,8)]
  have in2: "lu_sn_in_recv_window ?r2 sn" using num2(5) num(2) by (simp add: lu_sn_in_recv_window_def)
  have move: "lu_move_window sn ?r1 = Inr ?r2"
  proof -
    have "lu_modulus_rx ?r1 sn = lu_modulus_rx r sn" by (simp add: lu_modulus_rx_def Let_def)
    then have "\<not> lu_sn_in_recv_window ?r1 sn"
      using num(3) assms(6) by (simp add: lu_sn_in_recv_window_def)
    moreover have l2: "lu_rx_list ?r2 = [?pdu]" by simp
    have o2: "\<not> outside_of_reordering_window ?r2 (rs_sn ?pdu)"
      unfolding sn(1) outside_of_reordering_window_def using in2 by (simp only: simp_thms)
    have "rlc_um_reassemble_upto ?r2 outside_of_reordering_window = Inr ?r2" by (rule reassemble_none [of ?r2 ?pdu outside_of_reordering_window, OF l2 o2])
    moreover have "lu_sn_in_recv_window ?r2 (lu_vr_ur ?r2)" using in2 assms(5) by simp
    ultimately show ?thesis by (simp add: lu_move_window_def)
  qed
  have diff: "?u \<noteq> sn" using next_sn_differs [OF _ p(7,8)] num(1,2) by simp
  let ?r3 = "?r2\<lparr>lu_vr_ur := ?u\<rparr>"
  have cfg3: "lu_cfg_ok ?r3" "lu_sn_modulus ?r3 = ?M" using assms(1) by (simp_all add: lu_cfg_ok_def)
  have less: "less_than_vr_ur ?r3 sn" using less_at [OF cfg3(1), of sn] p(7,8) by simp
  have pdu3: "pdu_of ?r3 buf H fi sn parts" using assms(2) by (simp add: pdu_of_def)
  have st: "rr_sdu (lu_reassemble (lu_start_pdu sn fi ?r3)) = acc" "\<not> rr_sdu_head_missing (lu_reassemble (lu_start_pdu sn fi ?r3))"
    using start_acc [of ?r3 fi sn] assms(9-11) by simp_all
  let ?sdus = "(acc @ hd parts) # tl parts"
  let ?r4 = "rr_set (lu_open fi ?sdus) (deliver_parts (lu_done fi ?sdus) (lu_start_pdu sn fi ?r3))"
  let ?r5 = "?r4\<lparr>lu_rx_size := lu_rx_size ?r4 - int (length buf), lu_rx_list := []\<rparr>"
  have re: "rlc_um_reassemble_pdu ?r3 ?pdu = Inr ?r4"
    by (rule reassemble_pdu_parts [OF cfg3(1) pdu3 st assms(12,13)])
  have "lu_deliver_in_order ?r2 = Inr (?r4\<lparr>lu_rx_size := lu_rx_size ?r4 - rs_size ?pdu, lu_rx_list := []\<rparr>)"
  proof (rule deliver_one [of ?r2 ?pdu ?u ?r4])
    show "lu_rx_list ?r2 = [?pdu]" "rs_sn ?pdu = lu_vr_ur ?r2" "?u = (lu_vr_ur ?r2 + 1) mod lu_sn_modulus ?r2" "?u \<noteq> lu_vr_ur ?r2"
      using sn(1) assms(5) diff by simp_all
    show "0 < lu_sn_modulus ?r2" using num(1,2) by simp
    show "less_than_vr_ur ?r3 (rs_sn ?pdu)" unfolding sn(1) by (rule less)
    show "rlc_um_reassemble_pdu ?r3 ?pdu = Inr ?r4" by (rule re)
  qed
  then have "lu_deliver_in_order ?r2 = Inr ?r5" by (simp only: sn(2))
  moreover have t5: "lu_t_reordering_start ?r5 = 0" "lu_vr_uh ?r5 = ?u" "lu_vr_ur ?r5 = ?u" using assms(7) by simp_all
  then have "lu_start_reordering (lu_stop_reordering ?r5) = ?r5"
    by (simp add: lu_stop_reordering_def lu_start_reordering_def lu_sn_compare_rx_def)
  moreover have "lu_stop_reordering ?r5 = ?r5" using t5 by (simp add: lu_stop_reordering_def)
  ultimately have "rlc_um_reception_actions ?r1 sn = Inr ?r5" using move t5(1) by (simp add: rlc_um_reception_actions_def Let_def)
  moreover have "\<not> rr_sdu_head_missing (lu_reassemble ?r5)" using st(2) by simp
  moreover have "lu_cfg ?r5 = lu_cfg ?r4" by (simp add: lu_cfg_def)
  then have "lu_cfg ?r5 = lu_cfg r" by (simp add: lu_cfg_def [of r] lu_cfg_def [of ?r3])
  ultimately show ?thesis using recv t5 by (intro exI [of _ ?r5]) simp
qed

end
