(* ===== verification/Lte_Um_Props.thy ===== *)
theory Lte_Um_Props
  imports Lte_Um_Link
begin

text \<open>
  Two entities of the unacknowledged mode of LTE on a link that loses nothing: for any sequence of SDUs and
  grants the receiver delivers the SDUs that the transmitter took, unchanged and in order, and enough grants
  deliver them all.
\<close>

section \<open>The link\<close>

datatype lu_step = LuSdu "byte list" int | LuGrant nat

text \<open>A grant: the MAC asks for a PDU of at most \<open>n\<close> bytes and the peer gets what was made.\<close>

definition lu_grant :: "nat \<Rightarrow> rlc_entity_um \<Rightarrow> rlc_entity_um \<Rightarrow> (rlc_entity_um \<times> rlc_entity_um) result" where
  "lu_grant n s r =
     bindR (rlc_entity_um_generate_pdu s (replicate n 0)) (\<lambda>(sz, out, s').
       if sz = 0 then Inr (s', r)
       else bindR (rlc_entity_um_recv_pdu r (take (nat sz) out)) (\<lambda>r'. Inr (s', r')))"

definition lu_takes :: "rlc_entity_um \<Rightarrow> byte list \<Rightarrow> bool" where
  "lu_takes s sdu \<longleftrightarrow> lu_tx_size s + int (length sdu) \<le> lu_tx_maxsize s"

text \<open>The run of a sequence of steps; the first part of the result are the SDUs that were taken.\<close>

fun lu_run :: "lu_step list \<Rightarrow> rlc_entity_um \<Rightarrow> rlc_entity_um \<Rightarrow> (byte list list \<times> rlc_entity_um \<times> rlc_entity_um) result" where
  "lu_run [] s r = Inr ([], s, r)"
| "lu_run (LuSdu sdu sdu_id # l) s r =
     bindR (rlc_entity_um_recv_sdu s sdu sdu_id) (\<lambda>s'.
     bindR (lu_run l s' r) (\<lambda>(acc, q). Inr ((if lu_takes s sdu then [sdu] else []) @ acc, q)))"
| "lu_run (LuGrant n # l) s r = bindR (lu_grant n s r) (\<lambda>(s', r'). lu_run l s' r')"

text \<open>SDUs of 1 to \<open>SDU_MAX\<close> bytes, and PDUs that the buffer of the receiver has room for.\<close>

definition lu_step_ok :: "int \<Rightarrow> lu_step \<Rightarrow> bool" where
  "lu_step_ok rx_maxsize x = (case x of LuSdu sdu sdu_id \<Rightarrow> sdu \<noteq> [] \<and> length sdu \<le> SDU_MAX | LuGrant n \<Rightarrow> int n \<le> rx_maxsize)"

definition lu_queued :: "rlc_entity_um \<Rightarrow> byte list list" where
  "lu_queued s = map ls_data (lu_tx_list s)"

definition lu_left :: "rlc_entity_um \<Rightarrow> int" where
  "lu_left s = sum_list (map left_len (lu_tx_list s))"

definition lu_sender_ok :: "rlc_entity_um \<Rightarrow> bool" where
  "lu_sender_ok s \<longleftrightarrow> lu_cfg_ok s \<and> ltx_ok (lu_tx_list s) \<and> sdu_tail_ok (lu_tx_list s) (lu_tx_end s) \<and>
     (\<forall>x \<in> set (lu_tx_list s). ls_addr x < lu_next_addr s) \<and> 0 \<le> lu_vt_us s \<and> lu_vt_us s < lu_sn_modulus s"

text \<open>What the receiver holds of the first SDU is what the transmitter has sent of it.\<close>

definition lu_in_sync :: "rlc_entity_um \<Rightarrow> rlc_entity_um \<Rightarrow> bool" where
  "lu_in_sync s r \<longleftrightarrow> lu_sender_ok s \<and> lu_cfg_ok r \<and> lu_sn_field_length r = lu_sn_field_length s \<and>
     lu_rx_list r = [] \<and> lu_rx_size r = 0 \<and> lu_vr_ur r = lu_vt_us s \<and> lu_vr_uh r = lu_vt_us s \<and> lu_t_reordering_start r = 0 \<and>
     \<not> rr_sdu_head_missing (lu_reassemble r) \<and>
     rr_sdu (lu_reassemble r) = (case lu_tx_list s of [] \<Rightarrow> [] | x # _ \<Rightarrow> take (nat (ls_next_byte x)) (ls_data x)) \<and>
     (rr_sdu (lu_reassemble r) \<noteq> [] \<longrightarrow> lu_vt_us s = (rr_sn (lu_reassemble r) + 1) mod lu_sn_modulus s)"

section \<open>One PDU\<close>

lemma lu_fi_bits [simp]:
  "lu_fi a b AND 1 = (if b then 0 else 1)" "lu_fi a b AND 2 = (if a then 0 else 2)" "0 \<le> lu_fi a b" "lu_fi a b < 4"
  by (cases a; cases b; simp add: lu_fi_def)+

text \<open>The parts of a PDU, with what is there of the first SDU, are the SDUs that go whole and the head of one more.\<close>

lemma parts_sdus:
  assumes "lu_cut l xs s ys m" "ltx_ok l"
  shows "(take (nat (ls_next_byte (hd l))) (ls_data (hd l)) @ hd (lu_parts xs s m)) # tl (lu_parts xs s m) =
    map ls_data xs @ [take (nat (ls_next_byte s + m)) (ls_data s)]"
proof -
  have c: "l = xs @ s # ys" "0 < m" "m \<le> left_len s" using assms(1) by (simp_all add: lu_cut_def)
  have s: "0 \<le> ls_next_byte s" using assms(2) c(1) by (auto simp: ltx_ok_def lsdu_ok_def)
  have add: "take a d @ take b (drop a d) = take (a + b) d" for a b :: nat and d :: "byte list" by (simp add: take_add)
  have n: "nat (ls_next_byte s + m) = nat (ls_next_byte s) + nat m" using s c(2) by simp
  show ?thesis
  proof (cases xs)
    case Nil
    then show ?thesis using c(1) by (simp add: lu_parts_def sdu_left_def n add)
  next
    case (Cons x xs')
    have z: "\<forall>y \<in> set (xs' @ [s]). ls_next_byte y = 0" using assms(2) c(1) Cons by (auto simp: ltx_ok_def)
    then have "map sdu_left xs' = map ls_data xs'" by (simp add: sdu_left_def)
    with z Cons c(1) show ?thesis by (simp add: lu_parts_def sdu_left_def)
  qed
qed

lemma cut_done:
  assumes "lu_cut l xs s ys m" "ltx_ok l"
  defines "sdus \<equiv> map ls_data xs @ [take (nat (ls_next_byte s + m)) (ls_data s)]"
  shows "lu_done (lu_fi a (m = left_len s)) sdus @ map ls_data (lu_rest s m ys) = map ls_data l"
    "lu_open (lu_fi a (m = left_len s)) sdus =
       (case lu_rest s m ys of [] \<Rightarrow> [] | x # _ \<Rightarrow> take (nat (ls_next_byte x)) (ls_data x))"
proof -
  have c: "l = xs @ s # ys" using assms(1) by (simp add: lu_cut_def)
  have s: "ls_size s = int (length (ls_data s))" using assms(2) c by (simp add: ltx_ok_def lsdu_ok_def)
  show "lu_done (lu_fi a (m = left_len s)) sdus @ map ls_data (lu_rest s m ys) = map ls_data l"
    using c s by (simp add: sdus_def lu_done_def lu_rest_def)
  have "\<forall>y \<in> set ys. ls_next_byte y = 0" using assms(2) c by (cases xs) (auto simp: ltx_ok_def)
  then show "lu_open (lu_fi a (m = left_len s)) sdus =
       (case lu_rest s m ys of [] \<Rightarrow> [] | x # _ \<Rightarrow> take (nat (ls_next_byte x)) (ls_data x))"
    by (cases ys) (simp_all add: sdus_def lu_open_def lu_rest_def)
qed

lemma rest_ok:
  assumes "lu_cut l xs s ys m" "ltx_ok l" "sdu_tail_ok l t" "\<forall>x \<in> set l. ls_addr x < a"
  shows "ltx_ok (lu_rest s m ys)" "sdu_tail_ok (lu_rest s m ys) (if lu_rest s m ys = [] then None else t)"
    "\<forall>x \<in> set (lu_rest s m ys). ls_addr x < a" "sum_list (map left_len (lu_rest s m ys)) < sum_list (map left_len l)"
proof -
  have c: "l = xs @ s # ys" "0 < m" "m \<le> left_len s" using assms(1) by (simp_all add: lu_cut_def)
  have ok: "lsdu_ok s" "\<forall>x \<in> set xs. lsdu_ok x" "\<forall>y \<in> set ys. lsdu_ok y" using assms(2) c(1) by (auto simp: ltx_ok_def)
  have z: "\<forall>y \<in> set ys. ls_next_byte y = 0" using assms(2) c(1) by (cases xs) (auto simp: ltx_ok_def)
  have zt: "\<forall>y \<in> set (tl ys). ls_next_byte y = 0" using z by (cases ys) auto
  show "ltx_ok (lu_rest s m ys)" using ok z zt c(2,3) by (auto simp: ltx_ok_def lu_rest_def lsdu_ok_def)
  show "sdu_tail_ok (lu_rest s m ys) (if lu_rest s m ys = [] then None else t)"
    using assms(3) c(1) by (auto simp: sdu_tail_ok_def lu_rest_def)
  show "\<forall>x \<in> set (lu_rest s m ys). ls_addr x < a" using assms(4) c(1) by (auto simp: lu_rest_def)
  have "0 \<le> sum_list (map left_len xs)" by (rule sum_left_nonneg [OF ok(2)])
  then show "sum_list (map left_len (lu_rest s m ys)) < sum_list (map left_len l)" using c by (simp add: lu_rest_def)
qed

lemma cut_sizes:
  assumes "lu_cut l xs s ys m" "ltx_ok l"
  shows "lu_parts xs s m \<noteq> []" "[] \<notin> set (lu_parts xs s m)" "\<forall>q \<in> set (butlast (lu_parts xs s m)). length q < 2048"
    "\<forall>q \<in> set (lu_parts xs s m). length q \<le> SDU_MAX"
    "map (\<lambda>q. int (length q)) (butlast (lu_parts xs s m)) = map left_len xs" "length (lu_parts xs s m) = length xs + 1"
    "butlast (lu_parts xs s m) \<noteq> [] \<longleftrightarrow> xs \<noteq> []"
    "length (take (nat (ls_next_byte (hd l))) (ls_data (hd l))) + length (hd (lu_parts xs s m)) \<le> SDU_MAX"
proof -
  have c: "l = xs @ s # ys" "0 < m" "m \<le> left_len s" "\<forall>x \<in> set xs. left_len x \<le> 2047" using assms(1) by (simp_all add: lu_cut_def)
  have ok: "lsdu_ok s" "\<forall>x \<in> set xs. lsdu_ok x" using assms(2) c(1) by (auto simp: ltx_ok_def)
  have xs: "int (length (sdu_left x)) = left_len x" "sdu_left x \<noteq> []" "length (sdu_left x) < 2048" "length (sdu_left x) \<le> SDU_MAX"
    if "x \<in> set xs" for x
  proof -
    have x: "lsdu_ok x" "left_len x \<le> 2047" using ok(2) c(4) that by auto
    show l: "int (length (sdu_left x)) = left_len x" "sdu_left x \<noteq> []" using left_len [OF x(1)] by simp_all
    show "length (sdu_left x) < 2048" using l x(2) by linarith
    then show "length (sdu_left x) \<le> SDU_MAX" by (simp add: SDU_MAX_def)
  qed
  have s: "sdu_left s \<noteq> []" "length (sdu_left s) \<le> SDU_MAX" using left_len [OF ok(1)] ok(1) by (auto simp: lsdu_ok_def sdu_left_def)
  have bl: "butlast (lu_parts xs s m) = map sdu_left xs" by (simp add: lu_parts_def)
  show "lu_parts xs s m \<noteq> []" "length (lu_parts xs s m) = length xs + 1" by (simp_all add: lu_parts_def)
  show "[] \<notin> set (lu_parts xs s m)" using xs(2) [symmetric] s(1) c(2) by (auto simp: lu_parts_def)
  show "\<forall>q \<in> set (butlast (lu_parts xs s m)). length q < 2048" unfolding bl using xs(3) by auto
  show "\<forall>q \<in> set (lu_parts xs s m). length q \<le> SDU_MAX" using xs(4) s(2) by (auto simp: lu_parts_def)
  show "map (\<lambda>q. int (length q)) (butlast (lu_parts xs s m)) = map left_len xs" unfolding bl using xs(1) by simp
  show "butlast (lu_parts xs s m) \<noteq> [] \<longleftrightarrow> xs \<noteq> []" unfolding bl by simp
  show "length (take (nat (ls_next_byte (hd l))) (ls_data (hd l))) + length (hd (lu_parts xs s m)) \<le> SDU_MAX"
  proof (cases xs)
    case Nil
    have "length (take a d) + length (take b (drop a d)) \<le> length d" for a b :: nat and d :: "byte list" by simp
    with Nil c(1) ok(1) show ?thesis
      by (simp add: lu_parts_def lsdu_ok_def sdu_left_def) (metis (no_types) add.commute le_trans nat_le_linear)
  next
    case (Cons x xs')
    have "min L a + (L - a) \<le> L" for L a :: nat by simp
    with Cons c(1) ok(2) show ?thesis by (auto simp: lu_parts_def lsdu_ok_def sdu_left_def intro: order_trans)
  qed
qed

lemma cfg_modulus: "lu_cfg_ok e \<Longrightarrow> lu_cfg_ok e' \<Longrightarrow> lu_sn_field_length e = lu_sn_field_length e' \<Longrightarrow> lu_sn_modulus e = lu_sn_modulus e'"
  by (simp add: lu_cfg_ok_def)

lemma cfg_same: "lu_cfg e = lu_cfg e' \<Longrightarrow> lu_cfg_ok e' \<Longrightarrow> lu_cfg_ok e \<and> lu_sn_field_length e = lu_sn_field_length e' \<and>
  lu_rx_maxsize e = lu_rx_maxsize e'"
  by (simp add: lu_cfg_ok_def lu_cfg_def)

lemma size_loop_count: "tz_sdu_count t0 \<le> tz_sdu_count (lu_tx_size_loop n mx l t0)"
proof (induction l arbitrary: t0)
  case Nil
  then show ?case by simp
next
  case (Cons a l)
  have "tz_sdu_count t0 \<le> tz_sdu_count (lu_tx_size_loop n mx l t1)" if "tz_sdu_count t1 = tz_sdu_count t0 + 1" for t1
    using Cons.IH [of t1] that by simp
  then show ?case by (simp add: Let_def)
qed

text \<open>Three bytes are room for a header and a byte of data.\<close>

lemma some_sdu:
  assumes "lu_cfg_ok s" "lu_tx_list s \<noteq> []" "3 \<le> n"
  shows "tz_sdu_count (lu_tx_pdu_size s n) \<noteq> 0"
proof -
  obtain a l where l: "lu_tx_list s = a # l" using assms(2) by (cases "lu_tx_list s") auto
  have h: "lu_header_size (lu_sn_field_length s) 1 \<le> 2" using assms(1) by (auto simp: lu_cfg_ok_def lu_header_size_def)
  have pos: "0 < tz_sdu_count (lu_tx_size_loop (lu_sn_field_length s) n l t1)" if "tz_sdu_count t1 = 1" for t1
    using size_loop_count [of t1 "lu_sn_field_length s" n l] that by simp
  have "\<not> n \<le> lu_header_size (lu_sn_field_length s) (Suc 0)" using h assms(3) by simp
  then show ?thesis using l pos by (simp add: lu_tx_pdu_size_def Let_def)
qed

lemma grant_step:
  assumes "lu_in_sync s r" "int n \<le> lu_rx_maxsize r"
  shows "\<exists>s' r' ds. lu_grant n s r = Inr (s', r') \<and> lu_in_sync s' r' \<and> lu_rx_maxsize r' = lu_rx_maxsize r \<and>
    lu_events r' = lu_events r @ map DeliverSdu ds \<and> ds @ lu_queued s' = lu_queued s \<and>
    (3 \<le> n \<and> lu_tx_list s \<noteq> [] \<longrightarrow> lu_left s' < lu_left s)"
proof (cases "tz_sdu_count (lu_tx_pdu_size s (int n)) = 0")
  case True
  then have "lu_grant n s r = Inr (s, r)" by (simp add: lu_grant_def rlc_entity_um_generate_pdu_def)
  moreover have "\<not> (3 \<le> n \<and> lu_tx_list s \<noteq> [])"
    using True some_sdu [of s "int n"] assms(1) by (auto simp: lu_in_sync_def lu_sender_ok_def)
  ultimately show ?thesis using assms(1) by (intro exI [of _ s] exI [of _ r] exI [of _ "[]"]) simp
next
  case False
  let ?l = "lu_tx_list s" and ?M = "lu_sn_modulus s" and ?sn = "lu_vt_us s"
  have s: "lu_cfg_ok s" "ltx_ok ?l" "sdu_tail_ok ?l (lu_tx_end s)" "\<forall>x \<in> set ?l. ls_addr x < lu_next_addr s" "0 \<le> ?sn" "?sn < ?M"
    using assms(1) by (simp_all add: lu_in_sync_def lu_sender_ok_def)
  have r: "lu_cfg_ok r" "lu_sn_field_length r = lu_sn_field_length s" "lu_rx_list r = []" "lu_rx_size r = 0" "lu_vr_ur r = ?sn"
    "lu_vr_uh r = ?sn" "lu_t_reordering_start r = 0" "\<not> rr_sdu_head_missing (lu_reassemble r)"
    "rr_sdu (lu_reassemble r) = (case ?l of [] \<Rightarrow> [] | x # _ \<Rightarrow> take (nat (ls_next_byte x)) (ls_data x))"
    "rr_sdu (lu_reassemble r) \<noteq> [] \<longrightarrow> ?sn = (rr_sn (lu_reassemble r) + 1) mod ?M"
    using assms(1) by (simp_all add: lu_in_sync_def)
  have M: "lu_sn_modulus r = ?M" by (rule cfg_modulus [OF r(1) s(1) r(2)])
  have some: "tz_sdu_count (lu_tx_pdu_size s (int (length (replicate n (0 :: byte))))) \<noteq> 0" using False by simp
  obtain xs a ys m sz out s' H k z where g: "lu_cut ?l xs a ys m" "rlc_entity_um_generate_pdu s (replicate n 0) = Inr (sz, out, s')"
    "0 < sz" "sz \<le> int (length (replicate n (0 :: byte)))" "take (nat sz) out = H @ concat (lu_parts xs a m)"
    "bytes_bits H = fields_bits (lu_head_fields (lu_sn_field_length s) (lu_fi (ls_next_byte (hd ?l) = 0) (m = left_len a)) (xs \<noteq> []) ?sn @
       li_list (map left_len xs)) @ replicate k False"
    "int (length H) = lu_header_size (lu_sn_field_length s) (length xs + 1)"
    "s' = s\<lparr>lu_tx_list := lu_rest a m ys, lu_tx_size := z, lu_tx_end := (if lu_rest a m ys = [] then None else lu_tx_end s),
       lu_vt_us := (?sn + 1) mod ?M\<rparr>"
    using generate_pdu_parts [OF s(1,2) some] by (elim exE conjE) (rule that)
  let ?fi = "lu_fi (ls_next_byte (hd ?l) = 0) (m = left_len a)" and ?parts = "lu_parts xs a m" and ?pdu = "take (nat sz) out"
  let ?acc = "take (nat (ls_next_byte (hd ?l))) (ls_data (hd ?l))" and ?rest = "lu_rest a m ys"
  note sizes = cut_sizes [OF g(1) s(2)]
  have ne: "?l \<noteq> []" using g(1) by (auto simp: lu_cut_def)
  then have hdl: "lsdu_ok (hd ?l)" using s(2) by (auto simp: ltx_ok_def)
  have rr: "rr_sdu (lu_reassemble r) = ?acc" using r(9) ne by (cases ?l) auto
  have pdu: "pdu_of r ?pdu H ?fi ?sn ?parts"
    unfolding pdu_of_def using g(5-7) sizes(1-3,5-7) s(5,6) M r(2) by simp
  have len: "int (length ?pdu) \<le> lu_rx_maxsize r"
  proof -
    have "length ?pdu \<le> n" using g(3,4) by simp
    then show ?thesis using assms(2) by linarith
  qed
  have first: "?fi AND 2 \<noteq> 0 \<longrightarrow> rr_sdu (lu_reassemble r) \<noteq> [] \<and> ?sn = (rr_sn (lu_reassemble r) + 1) mod lu_sn_modulus r"
    using rr r(10) M hdl by (auto simp: lsdu_ok_def)
  have acc: "?acc = (if ?fi AND 2 = 0 then [] else rr_sdu (lu_reassemble r))" using rr by simp
  let ?sdus = "(?acc @ hd ?parts) # tl ?parts"
  obtain r' where r': "rlc_entity_um_recv_pdu r ?pdu = Inr r'" "lu_cfg r' = lu_cfg r" "lu_rx_list r' = []" "lu_rx_size r' = 0"
    "lu_vr_ur r' = (?sn + 1) mod lu_sn_modulus r" "lu_vr_uh r' = (?sn + 1) mod lu_sn_modulus r" "lu_t_reordering_start r' = 0"
    "\<not> rr_sdu_head_missing (lu_reassemble r')" "rr_sn (lu_reassemble r') = ?sn"
    "rr_sdu (lu_reassemble r') = lu_open ?fi ?sdus" "lu_events r' = lu_events r @ map DeliverSdu (lu_done ?fi ?sdus)"
    using recv_pdu_in_sync [OF r(1) pdu r(3-7) len r(8) first acc sizes(8,4)] by blast
  note eq = parts_sdus [OF g(1) s(2)]
  note fin = cut_done [OF g(1) s(2), of "ls_next_byte (hd ?l) = 0"]
  have grant: "lu_grant n s r = Inr (s', r')" using g(2,3) r'(1) by (simp add: lu_grant_def)
  have s': "lu_tx_list s' = ?rest" "lu_vt_us s' = (?sn + 1) mod ?M" "lu_sn_field_length s' = lu_sn_field_length s"
    "lu_sn_modulus s' = ?M" "lu_next_addr s' = lu_next_addr s" "lu_tx_end s' = (if ?rest = [] then None else lu_tx_end s)"
    "lu_cfg_ok s'" using s(1) g(8) by (simp_all add: lu_cfg_ok_def)
  note rest = rest_ok [OF g(1) s(2-4)]
  have ok: "lu_sender_ok s'" using rest(1-3) s' s(5,6) by (simp add: lu_sender_ok_def)
  note cfg' = cfg_same [OF r'(2) r(1)]
  have sync: "lu_in_sync s' r'"
    using ok cfg' r'(3-9) r(2) s'(1-4) M r'(10) [unfolded eq fin(2)] by (simp add: lu_in_sync_def)
  have ds: "lu_done ?fi ?sdus @ lu_queued s' = lu_queued s" unfolding eq lu_queued_def s'(1) by (rule fin(1))
  have left: "lu_left s' < lu_left s" unfolding lu_left_def s'(1) by (rule rest(4))
  show ?thesis
    by (rule exI [of _ s'], rule exI [of _ r'], rule exI [of _ "lu_done ?fi ?sdus"])
      (intro conjI grant sync r'(11) ds cfg' [THEN conjunct2, THEN conjunct2] impI left)
qed

section \<open>Runs\<close>

lemma sdu_step:
  assumes "lu_in_sync s r" "sdu \<noteq> []" "length sdu \<le> SDU_MAX"
  shows "\<exists>s'. rlc_entity_um_recv_sdu s sdu sdu_id = Inr s' \<and> lu_in_sync s' r \<and>
    lu_queued s' = lu_queued s @ (if lu_takes s sdu then [sdu] else [])"
proof (cases "lu_takes s sdu")
  case False
  then show ?thesis using assms by (simp add: rlc_entity_um_recv_sdu_def lu_takes_def Let_def)
next
  case True
  let ?l = "lu_tx_list s" and ?x = "rlc_new_sdu (lu_next_addr s) sdu sdu_id"
  let ?s = "s\<lparr>lu_tx_size := lu_tx_size s + int (length sdu), lu_next_addr := lu_next_addr s + 1, lu_tx_list := ?l @ [?x],
    lu_tx_end := Some (ls_addr ?x)\<rparr>"
  have ok: "lu_cfg_ok s" "ltx_ok ?l" "sdu_tail_ok ?l (lu_tx_end s)" "\<forall>x \<in> set ?l. ls_addr x < lu_next_addr s"
    using assms(1) by (simp_all add: lu_in_sync_def lu_sender_ok_def)
  have x: "ls_addr ?x = lu_next_addr s" "ls_data ?x = sdu" "ls_next_byte ?x = 0" "lsdu_ok ?x"
    using assms(2,3) by (simp_all add: rlc_new_sdu_def lsdu_ok_def)
  have new: "ls_addr ?x \<notin> ls_addr ` set ?l" using ok(4) x(1) by auto
  note add = lte_tx.append_end [OF ok(3) new] lte_tx.append_keeps [OF ok(3) new]
  have recv: "rlc_entity_um_recv_sdu s sdu sdu_id = Inr ?s"
    using True assms(3) add(1) by (simp add: rlc_entity_um_recv_sdu_def lu_takes_def Let_def)
  have tx: "ltx_ok (?l @ [?x])" using ok(2) x(3,4) by (cases ?l) (auto simp: ltx_ok_def)
  have addr: "\<forall>y \<in> set (?l @ [?x]). ls_addr y < lu_next_addr s + 1" using ok(4) x(1) by auto
  have "lu_sender_ok ?s"
    using assms(1) tx addr add(2) by (simp add: lu_in_sync_def lu_sender_ok_def lu_cfg_ok_def)
  then have "lu_in_sync ?s r" using assms(1) x(3) by (cases ?l) (simp_all add: lu_in_sync_def)
  moreover have "lu_queued ?s = lu_queued s @ [sdu]" using x(2) by (simp add: lu_queued_def)
  ultimately show ?thesis using recv True by auto
qed

text \<open>
  Property C5. Two LTE UM entities in sync over a link that loses nothing: for every sequence of SDUs of 1 to
  \<open>SDU_MAX\<close> bytes and of grants (each an RLC PDU request of any size up to the buffer of the receiver, too small
  ones included) no step fails, the two stay in sync, and what the receiver delivered, then what is still queued,
  is what was queued before, then the SDUs that the transmitter took: nothing lost, changed, doubled or reordered,
  however the grants cut and pack them.
\<close>

theorem lte_um_link:
  assumes "lu_in_sync s r" "\<forall>x \<in> set steps. lu_step_ok (lu_rx_maxsize r) x"
  shows "\<exists>acc s' r' ds. lu_run steps s r = Inr (acc, s', r') \<and> lu_in_sync s' r' \<and>
    lu_events r' = lu_events r @ map DeliverSdu ds \<and> ds @ lu_queued s' = lu_queued s @ acc"
  using assms
proof (induction steps arbitrary: s r)
  case Nil
  then show ?case by simp
next
  case (Cons x steps)
  show ?case
  proof (cases x)
    case (LuSdu sdu sdu_id)
    then have "sdu \<noteq> []" "length sdu \<le> SDU_MAX" using Cons.prems(2) by (simp_all add: lu_step_ok_def)
    then obtain s1 where s1: "rlc_entity_um_recv_sdu s sdu sdu_id = Inr s1" "lu_in_sync s1 r"
      "lu_queued s1 = lu_queued s @ (if lu_takes s sdu then [sdu] else [])" using sdu_step [OF Cons.prems(1)] by blast
    have "\<forall>x \<in> set steps. lu_step_ok (lu_rx_maxsize r) x" using Cons.prems(2) by simp
    from Cons.IH [OF s1(2) this] obtain acc s' r' ds where r: "lu_run steps s1 r = Inr (acc, s', r')" "lu_in_sync s' r'"
      "lu_events r' = lu_events r @ map DeliverSdu ds" "ds @ lu_queued s' = lu_queued s1 @ acc" by blast
    let ?acc = "(if lu_takes s sdu then [sdu] else []) @ acc"
    have "lu_run (x # steps) s r = Inr (?acc, s', r')" using LuSdu s1(1) r(1) by simp
    moreover have "ds @ lu_queued s' = lu_queued s @ ?acc" using r(4) s1(3) by simp
    ultimately show ?thesis using r(2,3) by blast
  next
    case (LuGrant n)
    then have "int n \<le> lu_rx_maxsize r" using Cons.prems(2) by (simp add: lu_step_ok_def)
    then obtain s1 r1 ds1 where g: "lu_grant n s r = Inr (s1, r1)" "lu_in_sync s1 r1" "lu_rx_maxsize r1 = lu_rx_maxsize r"
      "lu_events r1 = lu_events r @ map DeliverSdu ds1" "ds1 @ lu_queued s1 = lu_queued s" using grant_step [OF Cons.prems(1)] by blast
    have "\<forall>x \<in> set steps. lu_step_ok (lu_rx_maxsize r1) x" using Cons.prems(2) g(3) by simp
    from Cons.IH [OF g(2) this] obtain acc s' r' ds where r: "lu_run steps s1 r1 = Inr (acc, s', r')" "lu_in_sync s' r'"
      "lu_events r' = lu_events r1 @ map DeliverSdu ds" "ds @ lu_queued s' = lu_queued s1 @ acc" by blast
    have "lu_run (x # steps) s r = Inr (acc, s', r')" using LuGrant g(1) r(1) by simp
    moreover have "lu_events r' = lu_events r @ map DeliverSdu (ds1 @ ds)" using g(4) r(3) by simp
    moreover have "(ds1 @ ds) @ lu_queued s' = lu_queued s @ acc" using r(4) g(5) by simp
    ultimately show ?thesis using r(2) by blast
  qed
qed

definition lu_demo :: rlc_entity_um where
  "lu_demo = (case new_rlc_entity_um 1000 1000 35 10 of Inr e \<Rightarrow> e)"

lemma lu_demo: "lu_in_sync lu_demo lu_demo" "lu_rx_maxsize lu_demo = 1000" "lu_queued lu_demo = []" "lu_events lu_demo = []"
  by (simp_all add: lu_demo_def new_rlc_entity_um_def Let_def lu_in_sync_def lu_sender_ok_def lu_cfg_ok_def ltx_ok_def
      sdu_tail_ok_def rr_zero_def lu_queued_def)

theorem lte_um_link_witness:
  "\<exists>acc s' r' ds. lu_run [LuSdu [1, 2, 3] 0, LuGrant 2, LuGrant 4, LuSdu [4] 1, LuGrant 9] lu_demo lu_demo = Inr (acc, s', r') \<and>
    lu_in_sync s' r' \<and> lu_events r' = map DeliverSdu ds \<and> ds @ lu_queued s' = acc"
  using lte_um_link [OF lu_demo(1), of "[LuSdu [1, 2, 3] 0, LuGrant 2, LuGrant 4, LuSdu [4] 1, LuGrant 9]"]
  by (simp add: lu_demo(2-4) lu_step_ok_def SDU_MAX_def)

text \<open>
  Property C23. Grants drain the LTE UM transmitter: with as many grants as bytes are left to send, each of at least 3
  bytes (the header of two bytes and one of data), all queued SDUs are delivered by the peer, in order, and the queue
  is empty.
\<close>

theorem lte_um_drains:
  assumes "lu_in_sync s r" "\<forall>n \<in> set ns. 3 \<le> n \<and> int n \<le> lu_rx_maxsize r" "lu_left s \<le> int (length ns)"
  shows "\<exists>s' r'. lu_run (map LuGrant ns) s r = Inr ([], s', r') \<and> lu_tx_list s' = [] \<and>
    lu_events r' = lu_events r @ map DeliverSdu (lu_queued s)"
  using assms
proof (induction ns arbitrary: s r)
  case Nil
  have ok: "\<forall>x \<in> set (lu_tx_list s). lsdu_ok x" using Nil.prems(1) by (simp add: lu_in_sync_def lu_sender_ok_def ltx_ok_def)
  have "lu_tx_list s = []"
  proof (cases "lu_tx_list s")
    case (Cons x l)
    then have "0 < left_len x" "0 \<le> sum_list (map left_len l)" using ok left_len [of x] sum_left_nonneg [of l] by simp_all
    then show ?thesis using Nil.prems(3) Cons by (simp add: lu_left_def)
  qed simp
  then show ?case by (simp add: lu_queued_def)
next
  case (Cons n ns)
  have n: "3 \<le> n" "int n \<le> lu_rx_maxsize r" using Cons.prems(2) by simp_all
  obtain s1 r1 ds where g: "lu_grant n s r = Inr (s1, r1)" "lu_in_sync s1 r1" "lu_rx_maxsize r1 = lu_rx_maxsize r"
    "lu_events r1 = lu_events r @ map DeliverSdu ds" "ds @ lu_queued s1 = lu_queued s"
    "3 \<le> n \<and> lu_tx_list s \<noteq> [] \<longrightarrow> lu_left s1 < lu_left s"
    using grant_step [OF Cons.prems(1) n(2)] by blast
  have "lu_left s1 \<le> int (length ns)"
  proof (cases "lu_tx_list s = []")
    case True
    then have "lu_tx_list s1 = []" using g(5) by (simp add: lu_queued_def)
    then show ?thesis by (simp add: lu_left_def)
  next
    case False
    then show ?thesis using g(6) n(1) Cons.prems(3) by simp
  qed
  moreover have "\<forall>n \<in> set ns. 3 \<le> n \<and> int n \<le> lu_rx_maxsize r1" using Cons.prems(2) g(3) by simp
  ultimately obtain s' r' where r: "lu_run (map LuGrant ns) s1 r1 = Inr ([], s', r')" "lu_tx_list s' = []"
    "lu_events r' = lu_events r1 @ map DeliverSdu (lu_queued s1)" using Cons.IH [OF g(2)] by blast
  then show ?case using g(1,4,5) by (intro exI [of _ s'] exI [of _ r']) (simp flip: g(5))
qed

definition lu_demo_queued :: rlc_entity_um where
  "lu_demo_queued = (case rlc_entity_um_recv_sdu lu_demo [1, 2, 3, 4] 0 of Inr e \<Rightarrow> e)"

lemma lu_demo_queued: "lu_in_sync lu_demo_queued lu_demo" "lu_queued lu_demo_queued = [[1, 2, 3, 4]]"
proof -
  have t: "lu_takes lu_demo [1, 2, 3, 4]" by (simp add: lu_takes_def lu_demo_def new_rlc_entity_um_def Let_def)
  from sdu_step [OF lu_demo(1), of "[1, 2, 3, 4]" 0] obtain s' where "rlc_entity_um_recv_sdu lu_demo [1, 2, 3, 4] 0 = Inr s'"
    "lu_in_sync s' lu_demo" "lu_queued s' = [[1, 2, 3, 4]]" using t lu_demo(3) by (auto simp: SDU_MAX_def)
  then show "lu_in_sync lu_demo_queued lu_demo" "lu_queued lu_demo_queued = [[1, 2, 3, 4]]" by (simp_all add: lu_demo_queued_def)
qed

lemma lu_demo_left: "lu_left lu_demo_queued = 4"
  by (simp add: lu_left_def lu_demo_queued_def lu_demo_def new_rlc_entity_um_def Let_def rlc_entity_um_recv_sdu_def SDU_MAX_def
      rlc_new_sdu_def rlc_sdu_list_add_def)

theorem lte_um_drains_witness:
  "\<exists>s' r'. lu_run (map LuGrant [3, 4, 5, 6]) lu_demo_queued lu_demo = Inr ([], s', r') \<and> lu_tx_list s' = [] \<and>
    lu_events r' = [DeliverSdu [1, 2, 3, 4]]"
  using lte_um_drains [OF lu_demo_queued(1), of "[3, 4, 5, 6]"]
  by (simp add: lu_demo(2,4) lu_demo_queued(2) lu_demo_left)

end
