(* ===== verification/Lte_Am_Rx.thy ===== *)
theory Lte_Am_Rx
  imports Lte_Um
begin

text \<open>
  The acknowledged mode of LTE (\<open>rlc_v2/rlc_entity_am.c\<close>), state and reception of data: segments of PDUs that are
  received in any order, the reassembly of complete PDUs into SDUs.
\<close>

section \<open>State\<close>

text \<open>A segment on its way points to the first of its SDUs.\<close>

record rlc_tx_pdu_segment =
  tp_sn :: int
  tp_start_sdu :: "nat option"
  tp_sdu_start_byte :: int
  tp_so :: int
  tp_data_size :: int
  tp_is_segment :: bool
  tp_is_last :: bool
  tp_retx_count :: int

definition rlc_tx_new_pdu :: rlc_tx_pdu_segment where
  "rlc_tx_new_pdu = \<lparr>tp_sn = 0, tp_start_sdu = None, tp_sdu_start_byte = 0, tp_so = 0, tp_data_size = 0,
     tp_is_segment = False, tp_is_last = False, tp_retx_count = -1\<rparr>"

definition rlc_tx_pdu_list_append :: "rlc_tx_pdu_segment list \<Rightarrow> rlc_tx_pdu_segment \<Rightarrow> rlc_tx_pdu_segment list" where
  "rlc_tx_pdu_list_append l pdu = l @ [pdu]"

definition rlc_tx_pdu_list_add ::
  "(int \<Rightarrow> int \<Rightarrow> int) \<Rightarrow> rlc_tx_pdu_segment list \<Rightarrow> rlc_tx_pdu_segment \<Rightarrow> rlc_tx_pdu_segment list" where
  "rlc_tx_pdu_list_add sn_compare l pdu_segment =
     insert_before (\<lambda>cur. sn_compare (tp_sn cur) (tp_sn pdu_segment) > 0 \<or>
       tp_sn cur = tp_sn pdu_segment \<and> tp_so cur > tp_so pdu_segment) pdu_segment l"

text \<open>\<open>ra_list\<close> is the list from \<open>start\<close> to \<open>end\<close>; of the buffer the bytes below \<open>sdu_pos\<close>.\<close>

record rlc_am_reassemble =
  ra_list :: "rlc_rx_pdu_segment list"
  ra_sdu :: "byte list"
  ra_dec :: nr_rlc_pdu_decoder
  ra_fi :: int
  ra_e :: int
  ra_sn :: int
  ra_so :: int
  ra_sdu_len :: int
  ra_sdu_offset :: int
  ra_data_pos :: int
  ra_pdu_byte :: int

definition ra_zero :: rlc_am_reassemble where
  "ra_zero = \<lparr>ra_list = [], ra_sdu = [], ra_dec = rlc_pdu_decoder_init [], ra_fi = 0, ra_e = 0, ra_sn = 0, ra_so = 0,
     ra_sdu_len = 0, ra_sdu_offset = 0, ra_data_pos = 0, ra_pdu_byte = 0\<rparr>"

record rlc_entity_am =
  la_events :: "rlc_event list"
  la_next_addr :: nat
  la_last_total_tx_bytes :: int
  la_t_reordering :: int
  la_t_status_prohibit :: int
  la_t_poll_retransmit :: int
  la_poll_pdu :: int
  la_poll_byte :: int
  la_max_retx_threshold :: int
  la_vr_r :: int
  la_vr_x :: int
  la_vr_ms :: int
  la_vr_h :: int
  la_status_triggered :: bool
  la_vt_a :: int
  la_vt_s :: int
  la_poll_sn :: int
  la_pdu_without_poll :: int
  la_byte_without_poll :: int
  la_force_poll :: bool
  la_t_current :: u64
  la_t_reordering_start :: u64
  la_t_status_prohibit_start :: u64
  la_t_poll_retransmit_start :: u64
  la_rx_list :: "rlc_rx_pdu_segment list"
  la_rx_size :: int
  la_rx_maxsize :: int
  la_reassemble :: rlc_am_reassemble
  la_tx_list :: "rlc_sdu list"
  la_tx_end :: "nat option"
  la_tx_size :: int
  la_tx_maxsize :: int
  la_wait_list :: "rlc_tx_pdu_segment list"
  la_retransmit_list :: "rlc_tx_pdu_segment list"
  la_ack_list :: "rlc_tx_pdu_segment list"
  la_txsdu_bytes :: int

definition new_rlc_entity_am :: "int \<Rightarrow> int \<Rightarrow> int \<Rightarrow> int \<Rightarrow> int \<Rightarrow> int \<Rightarrow> int \<Rightarrow> int \<Rightarrow> rlc_entity_am" where
  "new_rlc_entity_am rx_maxsize tx_maxsize t_reordering t_status_prohibit t_poll_retransmit poll_pdu poll_byte max_retx_threshold =
     \<lparr>la_events = [], la_next_addr = 0, la_last_total_tx_bytes = 0, la_t_reordering = t_reordering,
      la_t_status_prohibit = t_status_prohibit, la_t_poll_retransmit = t_poll_retransmit, la_poll_pdu = poll_pdu,
      la_poll_byte = poll_byte, la_max_retx_threshold = max_retx_threshold, la_vr_r = 0, la_vr_x = 0, la_vr_ms = 0,
      la_vr_h = 0, la_status_triggered = False, la_vt_a = 0, la_vt_s = 0, la_poll_sn = 0, la_pdu_without_poll = 0,
      la_byte_without_poll = 0, la_force_poll = False, la_t_current = 0, la_t_reordering_start = 0,
      la_t_status_prohibit_start = 0, la_t_poll_retransmit_start = 0, la_rx_list = [], la_rx_size = 0,
      la_rx_maxsize = rx_maxsize, la_reassemble = ra_zero, la_tx_list = [], la_tx_end = None, la_tx_size = 0,
      la_tx_maxsize = tx_maxsize, la_wait_list = [], la_retransmit_list = [], la_ack_list = [], la_txsdu_bytes = 0\<rparr>"

definition la_call :: "rlc_event \<Rightarrow> rlc_entity_am \<Rightarrow> rlc_entity_am" where
  "la_call ev e = e\<lparr>la_events := la_events e @ [ev]\<rparr>"

section \<open>Sequence numbers\<close>

definition la_modulus_rx :: "rlc_entity_am \<Rightarrow> int \<Rightarrow> int" where
  "la_modulus_rx e a = (let r = a - la_vr_r e in if r < 0 then r + 1024 else r)"

definition la_modulus_tx :: "rlc_entity_am \<Rightarrow> int \<Rightarrow> int" where
  "la_modulus_tx e a = (let r = a - la_vt_a e in if r < 0 then r + 1024 else r)"

definition la_sn_in_recv_window :: "rlc_entity_am \<Rightarrow> int \<Rightarrow> bool" where
  "la_sn_in_recv_window e sn \<longleftrightarrow> la_modulus_rx e sn < 512"

definition la_sn_compare_rx :: "rlc_entity_am \<Rightarrow> int \<Rightarrow> int \<Rightarrow> int" where
  "la_sn_compare_rx e a b = la_modulus_rx e a - la_modulus_rx e b"

definition la_sn_compare_tx :: "rlc_entity_am \<Rightarrow> int \<Rightarrow> int \<Rightarrow> int" where
  "la_sn_compare_tx e a b = la_modulus_tx e a - la_modulus_tx e b"

section \<open>Received segments\<close>

definition la_segment_already_received :: "rlc_entity_am \<Rightarrow> int \<Rightarrow> int \<Rightarrow> int \<Rightarrow> bool" where
  "la_segment_already_received e sn so data_size \<longleftrightarrow>
     list_ex (\<lambda>l. rs_sn l = sn \<and> rs_so l \<le> so \<and> rs_so l + rs_size l - rs_data_offset l \<ge> so + data_size) (la_rx_list e)"

fun la_full_loop :: "int \<Rightarrow> int \<Rightarrow> rlc_rx_pdu_segment list \<Rightarrow> bool" where
  "la_full_loop sn last_byte [] = False"
| "la_full_loop sn last_byte (l # ls) =
     (if rs_sn l \<noteq> sn then False
      else if rs_so l > last_byte + 1 then False
      else if rs_is_last l then True
      else la_full_loop sn (max last_byte (rs_so l + rs_size l - rs_data_offset l - 1)) ls)"

definition rlc_am_segment_full :: "rlc_entity_am \<Rightarrow> int \<Rightarrow> bool" where
  "rlc_am_segment_full e sn \<longleftrightarrow> la_full_loop sn (-1) (dropWhile (\<lambda>l. rs_sn l \<noteq> sn) (la_rx_list e))"

section \<open>Reassembly\<close>

text \<open>The loop that goes to the SDU of \<open>pdu_byte\<close>; each round but the last reads a length indicator.\<close>

fun la_go_to_sdu :: "nat \<Rightarrow> rlc_rx_pdu_segment \<Rightarrow> rlc_am_reassemble \<Rightarrow> rlc_am_reassemble result" where
  "la_go_to_sdu n s r =
     (if ra_pdu_byte r < ra_so r + (ra_sdu_offset r - rs_data_offset s) + ra_sdu_len r then Inr r
      else case n of 0 \<Rightarrow> Inl Hang
      | Suc n' \<Rightarrow>
        let off = ra_sdu_offset r + ra_sdu_len r
        in bindR (lu_next_li s (ra_e r) off (ra_dec r)) (\<lambda>(e, li, d).
             la_go_to_sdu n' s (r\<lparr>ra_sdu_offset := off, ra_e := e, ra_sdu_len := li, ra_dec := d\<rparr>)))"

declare la_go_to_sdu.simps [simp del]

text \<open>\<open>s\<close> is the segment at \<open>start\<close>; \<open>False\<close> if all its bytes have been consumed.\<close>

definition rlc_am_reassemble_next_segment :: "rlc_rx_pdu_segment \<Rightarrow> rlc_am_reassemble \<Rightarrow> (bool \<times> rlc_am_reassemble) result" where
  "rlc_am_reassemble_next_segment s r =
     bindR (rlc_pdu_decoder_get_bits (rlc_pdu_decoder_init (rs_data s)) 1) (\<lambda>(dc, d1).
     bindR (rlc_pdu_decoder_get_bits d1 1) (\<lambda>(rf, d2).
     bindR (rlc_pdu_decoder_get_bits d2 1) (\<lambda>(p, d3).
     bindR (rlc_pdu_decoder_get_bits d3 2) (\<lambda>(fi, d4).
     bindR (rlc_pdu_decoder_get_bits d4 1) (\<lambda>(e, d5).
     bindR (rlc_pdu_decoder_get_bits d5 10) (\<lambda>(sn, d6).
     bindR (if rf \<noteq> 0
            then bindR (rlc_pdu_decoder_get_bits d6 1) (\<lambda>(lsf, d7). rlc_pdu_decoder_get_bits d7 15)
            else Inr (0, d6)) (\<lambda>(so, d8).
     bindR (lu_next_li s e (rs_data_offset s) d8) (\<lambda>(e', li, d9).
       let pdu_byte = (if sn \<noteq> ra_sn r then 0 else ra_pdu_byte r);
           r1 = r\<lparr>ra_sdu_offset := rs_data_offset s, ra_fi := fi, ra_so := so, ra_e := e', ra_sdu_len := li, ra_dec := d9,
                  ra_pdu_byte := pdu_byte, ra_sn := sn, ra_data_pos := rs_data_offset s + pdu_byte - so\<rparr>
       in if pdu_byte < so then Inl Exit
          else if pdu_byte \<ge> so + rs_size s - rs_data_offset s then Inr (False, r1)
          else bindR (la_go_to_sdu (length (rs_data s)) s r1) (\<lambda>r2. Inr (True, r2))))))))))"

text \<open>The loop of \<open>rlc_am_reassemble\<close> over the bytes of one segment.\<close>

function la_segment_bytes ::
  "rlc_rx_pdu_segment \<Rightarrow> rlc_am_reassemble \<Rightarrow> rlc_entity_am \<Rightarrow> (rlc_am_reassemble \<times> rlc_entity_am) result" where
  "la_segment_bytes s r en =
     (if length (ra_sdu r) \<ge> SDU_MAX then Inl Exit
      else if ra_data_pos r < 0 \<or> ra_data_pos r \<ge> int (length (rs_data s)) then Inl OutOfBounds
      else
        let r1 = r\<lparr>ra_sdu := ra_sdu r @ [rs_data s ! nat (ra_data_pos r)], ra_data_pos := ra_data_pos r + 1,
                   ra_pdu_byte := ra_pdu_byte r + 1\<rparr>
        in if ra_data_pos r1 \<noteq> ra_sdu_offset r1 + ra_sdu_len r1 then la_segment_bytes s r1 en
           else
             let full = ra_data_pos r1 \<noteq> rs_size s \<or> ra_fi r1 AND 1 = 0;
                 en1 = (if full then la_call (DeliverSdu (ra_sdu r1)) en else en);
                 r2 = (if full then r1\<lparr>ra_sdu := []\<rparr> else r1)
             in if ra_data_pos r2 = rs_size s then Inr (r2, en1)
                else
                  let off = ra_sdu_offset r2 + ra_sdu_len r2
                  in bindR (lu_next_li s (ra_e r2) off (ra_dec r2)) (\<lambda>(e, li, d).
                       la_segment_bytes s (r2\<lparr>ra_sdu_offset := off, ra_e := e, ra_sdu_len := li, ra_dec := d\<rparr>) en1))"
  by pat_completeness auto
termination
  by (relation "measure (\<lambda>(s, r, en). nat (int (length (rs_data s)) - ra_data_pos r))") (auto simp: Let_def split: if_splits)

declare la_segment_bytes.simps [simp del]

text \<open>
  The segments behind the one that has been consumed: those without new bytes are dropped, the others consumed
  and dropped.
\<close>

fun la_next_segments :: "rlc_rx_pdu_segment list \<Rightarrow> rlc_am_reassemble \<Rightarrow> rlc_entity_am \<Rightarrow> rlc_entity_am result" where
  "la_next_segments [] r en = Inr (en\<lparr>la_reassemble := r\<lparr>ra_list := []\<rparr>\<rparr>)"
| "la_next_segments (s # l) r en =
     bindR (rlc_am_reassemble_next_segment s r) (\<lambda>(more, r1).
       if more
       then bindR (la_segment_bytes s r1 en) (\<lambda>(r2, en1).
              la_next_segments l r2 (en1\<lparr>la_rx_size := la_rx_size en1 - rs_size s\<rparr>))
       else la_next_segments l r1 (en\<lparr>la_rx_size := la_rx_size en - rs_size s\<rparr>))"

text \<open>The reassembly starts behind \<open>rlc_am_reassemble_next_segment\<close> for the first segment.\<close>

definition rlc_am_reassemble_all :: "rlc_entity_am \<Rightarrow> rlc_entity_am result" where
  "rlc_am_reassemble_all en =
     (case ra_list (la_reassemble en) of
        [] \<Rightarrow> Inr en
      | s # l \<Rightarrow>
          bindR (la_segment_bytes s (la_reassemble en) en) (\<lambda>(r, en1).
            la_next_segments l r (en1\<lparr>la_rx_size := la_rx_size en1 - rs_size s\<rparr>)))"

section \<open>Reception actions\<close>

text \<open>The first number from \<open>sn\<close> on that is not complete; if all are, the loop never ends.\<close>

function la_skip_full :: "rlc_entity_am \<Rightarrow> int \<Rightarrow> int \<Rightarrow> int result" where
  "la_skip_full e sn i =
     (if \<not> rlc_am_segment_full e sn then Inr sn
      else if i \<ge> 1024 then Inl Hang
      else la_skip_full e ((sn + 1) mod 1024) (i + 1))"
  by pat_completeness auto
termination
  by (relation "measure (\<lambda>(e, sn, i). nat (1024 - i))") auto

declare la_skip_full.simps [simp del]

text \<open>The segments with \<open>vr_r\<close> at the head of \<open>rx_list\<close> go to the end of the reassembly list.\<close>

definition la_collect_sn :: "int \<Rightarrow> rlc_entity_am \<Rightarrow> rlc_entity_am result" where
  "la_collect_sn vr_r en =
     (let m = takeWhile (\<lambda>s. rs_sn s = vr_r) (la_rx_list en);
          rest = dropWhile (\<lambda>s. rs_sn s = vr_r) (la_rx_list en);
          r = la_reassemble en
      in case m of [] \<Rightarrow> Inr en
         | s # m' \<Rightarrow>
             if ra_list r = []
             then bindR (rlc_am_reassemble_next_segment s (r\<lparr>ra_sn := -1\<rparr>)) (\<lambda>(more, r1).
                    if \<not> more then Inl Exit
                    else Inr (en\<lparr>la_rx_list := rest, la_reassemble := r1\<lparr>ra_list := m\<rparr>\<rparr>))
             else Inr (en\<lparr>la_rx_list := rest, la_reassemble := r\<lparr>ra_list := ra_list r @ m\<rparr>\<rparr>))"

text \<open>
  Up to the first number that is not complete. Without a segment to move in 1024 rounds the loop would never
  end, so \<open>n\<close> is 1024 for each segment and 1024 more.
\<close>

function la_collect :: "int \<Rightarrow> int \<Rightarrow> rlc_entity_am \<Rightarrow> (int \<times> rlc_entity_am) result" where
  "la_collect n vr_r en =
     (if \<not> rlc_am_segment_full en vr_r then Inr (vr_r, en)
      else if n \<le> 0 then Inl Hang
      else bindR (la_collect_sn vr_r en) (\<lambda>en1. la_collect (n - 1) ((vr_r + 1) mod 1024) en1))"
  by pat_completeness auto
termination
  by (relation "measure (\<lambda>(n, vr_r, en). nat n)") auto

declare la_collect.simps [simp del]

definition la_stop_reordering :: "rlc_entity_am \<Rightarrow> rlc_entity_am" where
  "la_stop_reordering e =
     (if la_t_reordering_start e \<noteq> 0
      then let vr_x = (if la_vr_x e < la_vr_r e then la_vr_x e + 1024 else la_vr_x e)
           in if vr_x = la_vr_r e \<or> vr_x > la_vr_r e + 512 then e\<lparr>la_t_reordering_start := 0\<rparr> else e
      else e)"

definition la_start_reordering :: "rlc_entity_am \<Rightarrow> rlc_entity_am" where
  "la_start_reordering e =
     (if la_t_reordering_start e = 0 \<and> la_sn_compare_rx e (la_vr_h e) (la_vr_r e) > 0
      then e\<lparr>la_t_reordering_start := la_t_current e, la_vr_x := la_vr_h e\<rparr> else e)"

definition la_advance :: "int \<Rightarrow> rlc_entity_am \<Rightarrow> rlc_entity_am result" where
  "la_advance x e =
     (if x = la_vr_r e
      then bindR (la_collect (1024 * (int (length (la_rx_list e)) + 1)) (la_vr_r e) e) (\<lambda>(vr_r, e1). Inr (e1\<lparr>la_vr_r := vr_r\<rparr>))
      else Inr e)"

definition rlc_am_reception_actions :: "rlc_entity_am \<Rightarrow> int \<Rightarrow> rlc_entity_am result" where
  "rlc_am_reception_actions e x =
     (let e1 = (if la_modulus_rx e x \<ge> la_modulus_rx e (la_vr_h e) then e\<lparr>la_vr_h := (x + 1) mod 1024\<rparr> else e)
      in bindR (la_skip_full e1 (la_vr_ms e1) 0) (\<lambda>vr_ms.
         bindR (la_advance x (e1\<lparr>la_vr_ms := vr_ms\<rparr>)) (\<lambda>e2.
         bindR (rlc_am_reassemble_all e2) (\<lambda>e3.
           Inr (la_start_reordering (la_stop_reordering e3))))))"

section \<open>Data PDUs\<close>

text \<open>\<open>get_bits\<close> followed by \<open>R(decoder)\<close>: \<open>err\<close> is what happens on a decoding error.\<close>

definition get_or :: "nr_rlc_pdu_decoder \<Rightarrow> nat \<Rightarrow> 'a result \<Rightarrow> (int \<Rightarrow> nr_rlc_pdu_decoder \<Rightarrow> 'a result) \<Rightarrow> 'a result" where
  "get_or d n err f = bindR (rlc_pdu_decoder_get_bits d n) (\<lambda>(v, d'). if dec_error d' then err else f v d')"

definition la_discard :: "int \<Rightarrow> rlc_entity_am \<Rightarrow> rlc_entity_am" where
  "la_discard p e = (if p \<noteq> 0 then e\<lparr>la_status_triggered := True\<rparr> else e)"

text \<open>Behind the header: \<open>e0\<close> is the extension bit, \<open>d\<close> the decoder at the length indicators.\<close>

definition la_take_segment ::
  "rlc_entity_am \<Rightarrow> byte list \<Rightarrow> int \<Rightarrow> int \<Rightarrow> int \<Rightarrow> bool \<Rightarrow> int \<Rightarrow> nr_rlc_pdu_decoder \<Rightarrow> rlc_entity_am result" where
  "la_take_segment en buffer p e0 sn lsf so d =
     bindR (lu_read_lis (length buffer) e0 0 d) (\<lambda>q. case q of
         None \<Rightarrow> Inr (la_discard p en)
       | Some (indicated, d') \<Rightarrow>
           let data_start = dec_byte (rlc_pdu_decoder_align d');
               data_size = int (length buffer) - data_start
           in if data_size \<le> 0 then Inr (la_discard p en)
              else if indicated \<ge> data_size then Inr (la_discard p en)
              else if la_segment_already_received en sn so data_size then Inr (la_discard p en)
              else
                let pdu = rlc_rx_new_pdu_segment sn so lsf buffer data_start;
                    en1 = en\<lparr>la_rx_size := la_rx_size en + int (length buffer),
                             la_rx_list := rlc_rx_pdu_segment_list_add (la_sn_compare_rx en) (la_rx_list en) pdu\<rparr>
                in bindR (rlc_am_reception_actions en1 sn) (\<lambda>en2.
                     Inr (if p \<noteq> 0 then en2\<lparr>la_status_triggered := True\<rparr> else en2)))"

definition la_recv_data :: "rlc_entity_am \<Rightarrow> byte list \<Rightarrow> nr_rlc_pdu_decoder \<Rightarrow> rlc_entity_am result" where
  "la_recv_data en buffer d0 =
     get_or d0 1 (Inr en) (\<lambda>rf d1.
     get_or d1 1 (Inr (la_discard (-1) en)) (\<lambda>p d2.
     get_or d2 2 (Inr (la_discard p en)) (\<lambda>fi d3.
     get_or d3 1 (Inr (la_discard p en)) (\<lambda>e d4.
     get_or d4 10 (Inr (la_discard p en)) (\<lambda>sn d5.
       if la_rx_size en + int (length buffer) > la_rx_maxsize en then Inr (la_discard p en)
       else if \<not> la_sn_in_recv_window en sn then Inr (la_discard p en)
       else if rf \<noteq> 0
            then get_or d5 1 (Inr (la_discard p en)) (\<lambda>lsf d6.
                 get_or d6 15 (Inr (la_discard p en)) (\<lambda>so d7. la_take_segment en buffer p e sn (lsf \<noteq> 0) so d7))
            else la_take_segment en buffer p e sn True 0 d5)))))"

end
