(* ===== verification/Lte_Am_Ctrl.thy ===== *)
theory Lte_Am_Ctrl
  imports Lte_Am_Rx
begin

text \<open>
  The acknowledged mode of LTE (\<open>rlc_v2/rlc_entity_am.c\<close>), STATUS PDUs that are received: what is acknowledged
  waits in the list of acknowledged segments until PDUs are complete from \<open>vt_a\<close> on; then their bytes are
  acknowledged to the SDUs, and complete SDUs are reported and freed.
\<close>

section \<open>ACK\<close>

definition la_ack_list_add :: "rlc_tx_pdu_segment \<Rightarrow> rlc_entity_am \<Rightarrow> rlc_entity_am" where
  "la_ack_list_add p e = e\<lparr>la_ack_list := rlc_tx_pdu_list_add (la_sn_compare_tx e) (la_ack_list e) p\<rparr>"

definition process_received_ack :: "rlc_entity_am \<Rightarrow> int \<Rightarrow> rlc_entity_am" where
  "process_received_ack e sn =
     (let below = (\<lambda>p. la_sn_compare_tx e (tp_sn p) sn < 0);
          e1 = (fold la_ack_list_add (filter below (la_wait_list e)) e)\<lparr>la_wait_list := filter (Not \<circ> below) (la_wait_list e)\<rparr>;
          retx = map (\<lambda>p. p\<lparr>tp_retx_count := tp_retx_count p - 1\<rparr>) (filter below (la_retransmit_list e))
      in (fold la_ack_list_add retx e1)\<lparr>la_retransmit_list := filter (Not \<circ> below) (la_retransmit_list e)\<rparr>)"

section \<open>NACK\<close>

definition consider_retransmission :: "rlc_tx_pdu_segment \<Rightarrow> rlc_entity_am \<Rightarrow> rlc_entity_am" where
  "consider_retransmission p e =
     (let p1 = p\<lparr>tp_retx_count := tp_retx_count p + 1\<rparr>;
          e1 = (if tp_retx_count p1 \<ge> la_max_retx_threshold e then la_call MaxRetxReached e else e)
      in e1\<lparr>la_retransmit_list := rlc_tx_pdu_list_add (la_sn_compare_tx e1) (la_retransmit_list e1) p1\<rparr>)"

fun la_so_overlap :: "int \<Rightarrow> int \<Rightarrow> int \<Rightarrow> int \<Rightarrow> bool" where
  "la_so_overlap s1 e1 s2 e2 = (if s1 < s2 then e1 = -1 \<or> e1 \<ge> s2 else e2 = -1 \<or> s1 \<le> e2)"

definition process_received_nack :: "rlc_entity_am \<Rightarrow> int \<Rightarrow> int \<Rightarrow> int \<Rightarrow> rlc_entity_am" where
  "process_received_nack e sn so_start so_end =
     (if \<not> (la_sn_compare_tx e (la_vt_a e) sn \<le> 0 \<and> la_sn_compare_tx e sn (la_vt_s e) < 0) then e
      else
        let hit = (\<lambda>p. tp_sn p = sn \<and> la_so_overlap so_start so_end (tp_so p) (tp_so p + tp_data_size p - 1));
            e1 = (fold consider_retransmission (filter hit (la_wait_list e)) e)\<lparr>la_wait_list := filter (Not \<circ> hit) (la_wait_list e)\<rparr>
        in (fold consider_retransmission (filter hit (la_ack_list e1)) e1)\<lparr>la_ack_list := filter (Not \<circ> hit) (la_ack_list e1)\<rparr>)"

section \<open>Acknowledged PDUs\<close>

fun la_ack_full_loop :: "int \<Rightarrow> int \<Rightarrow> bool \<Rightarrow> rlc_tx_pdu_segment list \<Rightarrow> bool" where
  "la_ack_full_loop sn last_byte is_last_seen [] = is_last_seen"
| "la_ack_full_loop sn last_byte is_last_seen (p # l) =
     (if tp_sn p \<noteq> sn then is_last_seen
      else if tp_so p > last_byte + 1 then False
      else la_ack_full_loop sn (max last_byte (tp_so p + tp_data_size p - 1)) (is_last_seen \<or> tp_is_last p) l)"

definition tx_pdu_in_ack_list_full :: "rlc_tx_pdu_segment list \<Rightarrow> bool" where
  "tx_pdu_in_ack_list_full l = la_ack_full_loop (tp_sn (hd l)) (-1) False l"

definition tx_pdu_in_ack_list_size :: "rlc_tx_pdu_segment list \<Rightarrow> int" where
  "tx_pdu_in_ack_list_size l = sum_list (map tp_data_size (takeWhile (\<lambda>p. tp_sn p = tp_sn (hd l)) l))"

text \<open>The SDUs from the one at an address on; an address that is in the list no more has been freed.\<close>

definition la_chain :: "rlc_sdu list \<Rightarrow> nat option \<Rightarrow> rlc_sdu list result" where
  "la_chain l start =
     (case start of
        None \<Rightarrow> Inl NullDeref
      | Some a \<Rightarrow> let c = dropWhile (\<lambda>s. ls_addr s \<noteq> a) l in if c = [] then Inl UseAfterFree else Inr c)"

fun la_ack_bytes :: "rlc_sdu list \<Rightarrow> int \<Rightarrow> int \<Rightarrow> rlc_sdu list result" where
  "la_ack_bytes l start_byte remaining =
     (if remaining = 0 then Inr l
      else case l of
          [] \<Rightarrow> Inl NullDeref
        | cur # l' \<Rightarrow>
            let cursize = (if ls_size cur - start_byte > remaining then remaining else ls_size cur - start_byte)
            in bindR (la_ack_bytes l' 0 (remaining - cursize)) (\<lambda>l''.
                 Inr (cur\<lparr>ls_acked_bytes := ls_acked_bytes cur + cursize\<rparr> # l'')))"

declare la_ack_bytes.simps [simp del]

definition ack_sdu_bytes :: "rlc_sdu list \<Rightarrow> nat option \<Rightarrow> int \<Rightarrow> int \<Rightarrow> rlc_sdu list result" where
  "ack_sdu_bytes l start start_byte nbytes =
     (if nbytes = 0 then Inr l
      else bindR (la_chain l start) (\<lambda>c.
           bindR (la_ack_bytes c start_byte nbytes) (\<lambda>c'.
             Inr (takeWhile (\<lambda>s. Some (ls_addr s) \<noteq> start) l @ c'))))"

definition tx_list_remove_sn :: "rlc_tx_pdu_segment list \<Rightarrow> int \<Rightarrow> rlc_tx_pdu_segment list" where
  "tx_list_remove_sn l sn = filter (\<lambda>p. tp_sn p \<noteq> sn) l"

text \<open>Complete SDUs go, are counted for the split of the traffic and reported; the tail is the last one that stays.\<close>

definition cleanup_sdu_list :: "rlc_entity_am \<Rightarrow> rlc_entity_am" where
  "cleanup_sdu_list e =
     (let acked = filter (\<lambda>s. ls_acked_bytes s = ls_size s) (la_tx_list e);
          rest = filter (\<lambda>s. ls_acked_bytes s \<noteq> ls_size s) (la_tx_list e);
          n = sum_list (map ls_size acked)
      in e\<lparr>la_tx_size := la_tx_size e - n, la_txsdu_bytes := la_txsdu_bytes e + n,
           la_events := la_events e @ map (\<lambda>s. SduSuccessfulDelivery (ls_upper_layer_id s)) acked,
           la_tx_list := rest,
           la_tx_end := (if la_tx_list e = [] then la_tx_end e
                         else if rest = [] then None else Some (ls_addr (last rest)))\<rparr>)"

text \<open>\<open>cur\<close> is the head of \<open>ack_list\<close>: the segments behind it are those that stay.\<close>

function la_finalize_loop :: "rlc_entity_am \<Rightarrow> rlc_entity_am result" where
  "la_finalize_loop e =
     (case la_ack_list e of
        [] \<Rightarrow> Inr e
      | cur # l \<Rightarrow>
          if tp_sn cur = la_vt_a e \<and> tx_pdu_in_ack_list_full (cur # l)
          then bindR (ack_sdu_bytes (la_tx_list e) (tp_start_sdu cur) (tp_sdu_start_byte cur) (tx_pdu_in_ack_list_size (cur # l))) (\<lambda>tx.
                 la_finalize_loop (e\<lparr>la_vt_a := (la_vt_a e + 1) mod 1024, la_tx_list := tx,
                                     la_ack_list := tx_list_remove_sn (cur # l) (tp_sn cur)\<rparr>))
          else Inr e)"
  by pat_completeness auto
termination
  by (relation "measure (\<lambda>e. length (la_ack_list e))") (auto simp: tx_list_remove_sn_def less_Suc_eq_le intro: length_filter_le)

declare la_finalize_loop.simps [simp del]

definition finalize_ack_nack_processing :: "rlc_entity_am \<Rightarrow> rlc_entity_am result" where
  "finalize_ack_nack_processing e =
     (if la_ack_list e = [] then Inr e else bindR (la_finalize_loop e) (\<lambda>e1. Inr (cleanup_sdu_list e1)))"

section \<open>STATUS PDUs\<close>

text \<open>
  The first pass over the NACKs; \<open>False\<close> is a decoding error. Each round consumes 12 bits, which bounds the number
  of NACKs by that of the bytes.
\<close>

fun la_check_nacks :: "nat \<Rightarrow> int \<Rightarrow> nr_rlc_pdu_decoder \<Rightarrow> bool result" where
  "la_check_nacks n e1 d =
     (if e1 = 0 then Inr True
      else case n of 0 \<Rightarrow> Inl Hang
      | Suc n' \<Rightarrow>
        get_or d 10 (Inr False) (\<lambda>nack_sn d1.
        get_or d1 1 (Inr False) (\<lambda>e1' d2.
        get_or d2 1 (Inr False) (\<lambda>e2 d3.
          if e2 \<noteq> 0 then get_or d3 15 (Inr False) (\<lambda>so_start d4. get_or d4 15 (Inr False) (\<lambda>so_end d5. la_check_nacks n' e1' d5))
          else la_check_nacks n' e1' d3))))"

declare la_check_nacks.simps [simp del]

definition la_nack_one :: "rlc_entity_am \<Rightarrow> int \<Rightarrow> int \<Rightarrow> int \<Rightarrow> rlc_entity_am" where
  "la_nack_one e nack_sn so_start so_end =
     (let e1 = process_received_nack e nack_sn so_start so_end
      in if la_poll_sn e1 = nack_sn then e1\<lparr>la_t_poll_retransmit_start := 0\<rparr> else e1)"

text \<open>The offsets of a NACK: all of the PDU if the end is before the start, and -1 for the end of the PDU.\<close>

definition la_nack_range :: "int \<Rightarrow> int \<Rightarrow> int \<times> int" where
  "la_nack_range so_start so_end =
     (let (s, t) = (if so_end < so_start then (0, -1) else (so_start, so_end))
      in (s, if t = 0x7fff then -1 else t))"

fun la_apply_nacks :: "nat \<Rightarrow> int \<Rightarrow> nr_rlc_pdu_decoder \<Rightarrow> rlc_entity_am \<Rightarrow> rlc_entity_am result" where
  "la_apply_nacks n e1 d e =
     (if e1 = 0 then finalize_ack_nack_processing e
      else case n of 0 \<Rightarrow> Inl Hang
      | Suc n' \<Rightarrow>
        get_or d 10 (Inr e) (\<lambda>nack_sn d1.
        get_or d1 1 (Inr e) (\<lambda>e1' d2.
        get_or d2 1 (Inr e) (\<lambda>e2 d3.
          if e2 \<noteq> 0
          then get_or d3 15 (Inr e) (\<lambda>so_start d4.
               get_or d4 15 (Inr e) (\<lambda>so_end d5.
                 case la_nack_range so_start so_end of (s, t) \<Rightarrow> la_apply_nacks n' e1' d5 (la_nack_one e nack_sn s t)))
          else la_apply_nacks n' e1' d3 (la_nack_one e nack_sn 0 (-1))))))"

declare la_apply_nacks.simps [simp del]

definition la_recv_control :: "rlc_entity_am \<Rightarrow> byte list \<Rightarrow> nr_rlc_pdu_decoder \<Rightarrow> rlc_entity_am result" where
  "la_recv_control e buffer d0 =
     get_or d0 3 (Inr e) (\<lambda>cpt d1.
       if cpt \<noteq> 0 then Inr e
       else get_or d1 10 (Inr e) (\<lambda>ack_sn d2.
            get_or d2 1 (Inr e) (\<lambda>e1 d3.
              bindR (la_check_nacks (length buffer) e1 d3) (\<lambda>ok.
                if \<not> ok then Inr e
                else
                  let a = (if la_sn_compare_tx e (la_poll_sn e) ack_sn < 0 then e\<lparr>la_t_poll_retransmit_start := 0\<rparr> else e)
                  in la_apply_nacks (length buffer) e1 d3 (process_received_ack a ack_sn)))))"

definition rlc_entity_am_recv_pdu :: "rlc_entity_am \<Rightarrow> byte list \<Rightarrow> rlc_entity_am result" where
  "rlc_entity_am_recv_pdu e buffer =
     get_or (rlc_pdu_decoder_init buffer) 1 (Inr e) (\<lambda>dc d.
       if dc = 0 then la_recv_control e buffer d else la_recv_data e buffer d)"

end
