(* ===== verification/Lte_Am_Tx.thy ===== *)
theory Lte_Am_Tx
  imports Lte_Am_Ctrl
begin

text \<open>
  The acknowledged mode of LTE (\<open>rlc_v2/rlc_entity_am.c\<close>), transmission: sizes of PDUs, STATUS PDUs, new PDUs and
  retransmissions with their segmentation, polling, timers, discard and re-establishment, and what the MAC
  interface (\<open>rlc_v2/rlc_oai_api.c\<close>) reports for the split of the traffic.
\<close>

section \<open>Sizes of data PDUs\<close>

fun la_more_sdus :: "int \<Rightarrow> rlc_sdu list \<Rightarrow> nat result" where
  "la_more_sdus data_size l =
     (if data_size \<le> 0 then Inr 0
      else case l of [] \<Rightarrow> Inl NullDeref | s # l' \<Rightarrow> bindR (la_more_sdus (data_size - ls_size s) l') (\<lambda>k. Inr (Suc k)))"

declare la_more_sdus.simps [simp del]

definition la_pdu_size :: "rlc_entity_am \<Rightarrow> rlc_tx_pdu_segment \<Rightarrow> int result" where
  "la_pdu_size e pdu =
     bindR (la_chain (la_tx_list e) (tp_start_sdu pdu)) (\<lambda>c.
     bindR (la_more_sdus (tp_data_size pdu - (ls_size (hd c) - tp_sdu_start_byte pdu)) (tl c)) (\<lambda>k.
       let header_size = 2 + (if tp_is_segment pdu then 2 else 0) + (12 * int k + 7) div 8
       in Inr (header_size + tp_data_size pdu)))"

definition la_header_size :: "nat \<Rightarrow> int" where
  "la_header_size sdu_count = (16 + 12 * (int sdu_count - 1) + 7) div 8"

record am_tx_pdu_size =
  az_sdu_count :: nat
  az_data_size :: int
  az_header_size :: int

fun la_new_size_loop :: "int \<Rightarrow> rlc_sdu list \<Rightarrow> nat \<Rightarrow> int \<Rightarrow> nat \<times> int" where
  "la_new_size_loop maxsize [] sdu_count data_size = (sdu_count, data_size)"
| "la_new_size_loop maxsize (sdu # l) sdu_count data_size =
     (if ls_next_byte sdu = ls_size sdu then la_new_size_loop maxsize l sdu_count data_size
      else
        let new_header_size = la_header_size (sdu_count + 1);
            left = ls_size sdu - ls_next_byte sdu
        in if new_header_size + data_size + 1 > maxsize then (sdu_count, data_size)
           else
             let n = (if new_header_size + data_size + left > maxsize then maxsize - new_header_size - data_size else left)
             in if n > 2047 then (sdu_count + 1, data_size + n)
                else la_new_size_loop maxsize l (sdu_count + 1) (data_size + n))"

definition la_sn_available :: "rlc_entity_am \<Rightarrow> bool" where
  "la_sn_available e \<longleftrightarrow> (let vt_ms = (la_vt_a e + 512) mod 1024
     in la_sn_compare_tx e (la_vt_s e) (la_vt_a e) \<ge> 0 \<and> la_sn_compare_tx e (la_vt_s e) vt_ms < 0)"

definition compute_new_pdu_size :: "rlc_entity_am \<Rightarrow> int \<Rightarrow> am_tx_pdu_size" where
  "compute_new_pdu_size e maxsize =
     (if \<not> la_sn_available e then \<lparr>az_sdu_count = 0, az_data_size = 0, az_header_size = 0\<rparr>
      else case la_new_size_loop maxsize (la_tx_list e) 0 0 of (k, n) \<Rightarrow>
        if k \<noteq> 0 then \<lparr>az_sdu_count = k, az_data_size = n, az_header_size = la_header_size k\<rparr>
        else \<lparr>az_sdu_count = 0, az_data_size = 0, az_header_size = 0\<rparr>)"

section \<open>Sizes of STATUS PDUs\<close>

fun la_missing_parts :: "int \<Rightarrow> int \<Rightarrow> nat \<Rightarrow> rlc_rx_pdu_segment list \<Rightarrow> nat" where
  "la_missing_parts sn last_byte k [] = k + 1"
| "la_missing_parts sn last_byte k (l # ls) =
     (if rs_sn l \<noteq> sn then k + 1
      else let k1 = (if rs_so l > last_byte + 1 then k + 1 else k)
           in if rs_is_last l then k1
              else la_missing_parts sn (max last_byte (rs_so l + rs_size l - rs_data_offset l - 1)) k1 ls)"

definition count_nack_missing_parts :: "rlc_entity_am \<Rightarrow> int \<Rightarrow> nat" where
  "count_nack_missing_parts e sn =
     (let l = dropWhile (\<lambda>l. rs_sn l \<noteq> sn) (la_rx_list e) in if l = [] then 0 else la_missing_parts sn (-1) 0 l)"

definition segment_nack_size :: "rlc_entity_am \<Rightarrow> int \<Rightarrow> int" where
  "segment_nack_size e sn = (let k = count_nack_missing_parts e sn in if k = 0 then 12 else int k * (12 + 30))"

text \<open>The numbers from \<open>vr_r\<close> to \<open>vr_ms\<close>: at most 1024 rounds, else the loop does not end.\<close>

function la_status_size_loop :: "int \<Rightarrow> rlc_entity_am \<Rightarrow> int \<Rightarrow> int \<Rightarrow> int \<Rightarrow> int result" where
  "la_status_size_loop n e maxbits sn bits =
     (if la_sn_compare_rx e sn (la_vr_ms e) \<ge> 0 then Inr bits
      else if n \<le> 0 then Inl Hang
      else if rlc_am_segment_full e sn then la_status_size_loop (n - 1) e maxbits ((sn + 1) mod 1024) bits
      else if bits + segment_nack_size e sn > maxbits then Inr bits
      else la_status_size_loop (n - 1) e maxbits ((sn + 1) mod 1024) (bits + segment_nack_size e sn))"
  by pat_completeness auto
termination
  by (relation "measure (\<lambda>(n, e, maxbits, sn, bits). nat n)") auto

declare la_status_size_loop.simps [simp del]

definition la_status_size :: "rlc_entity_am \<Rightarrow> int \<Rightarrow> int result" where
  "la_status_size e maxsize =
     (if 15 > maxsize * 8 then Inr 0
      else bindR (la_status_size_loop 1024 e (maxsize * 8) (la_vr_r e) 15) (\<lambda>bits. Inr ((bits + 7) div 8)))"

section \<open>Generation of STATUS PDUs\<close>

text \<open>A copy of the encoder writes into the same buffer.\<close>

definition la_put_at :: "nr_rlc_pdu_encoder \<Rightarrow> nr_rlc_pdu_encoder \<Rightarrow> int \<Rightarrow> nat \<Rightarrow> nr_rlc_pdu_encoder result" where
  "la_put_at enc place v k =
     bindR (rlc_pdu_encoder_put_bits (place\<lparr>enc_buffer := enc_buffer enc\<rparr>) v k) (\<lambda>place'.
       Inr (enc\<lparr>enc_buffer := enc_buffer place'\<rparr>))"

text \<open>Up to the next segment with missing data before it.\<close>

fun la_skip_seen :: "int \<Rightarrow> int \<Rightarrow> rlc_rx_pdu_segment list \<Rightarrow> int \<times> rlc_rx_pdu_segment list" where
  "la_skip_seen sn last_byte [] = (last_byte, [])"
| "la_skip_seen sn last_byte (l # ls) =
     (if rs_sn l = sn \<and> \<not> rs_so l > last_byte + 1
      then la_skip_seen sn (max last_byte (rs_so l + rs_size l - rs_data_offset l - 1)) ls
      else (last_byte, l # ls))"

text \<open>The \<open>n\<close> parts left of the missing parts of a PDU. The result has the encoder and the place of the last \<open>e1\<close>.\<close>

fun la_put_parts ::
  "nat \<Rightarrow> int \<Rightarrow> int \<Rightarrow> rlc_rx_pdu_segment list \<Rightarrow> nr_rlc_pdu_encoder \<Rightarrow> nr_rlc_pdu_encoder \<Rightarrow>
   (nr_rlc_pdu_encoder \<times> nr_rlc_pdu_encoder) result" where
  "la_put_parts 0 sn last_byte l enc place = Inr (enc, place)"
| "la_put_parts (Suc n) sn last_byte l enc place =
     bindR (rlc_pdu_encoder_put_bits enc sn 10) (\<lambda>place'.
     bindR (rlc_put_fields place' [(lu_e (n \<noteq> 0), 1), (1, 1)]) (\<lambda>enc2.
     case la_skip_seen sn last_byte l of (seen, l') \<Rightarrow>
       let so_start = seen + 1;
           so_end = (case l' of [] \<Rightarrow> 0x7fff | s # _ \<Rightarrow> rs_so s - 1)
       in bindR (rlc_put_fields enc2 [(so_start, 15), (so_end, 15)]) (\<lambda>enc3.
            la_put_parts n sn (case l' of [] \<Rightarrow> seen | s # _ \<Rightarrow> rs_so s + rs_size s - rs_data_offset s - 1) l' enc3 place')))"

definition la_put_nack ::
  "rlc_entity_am \<Rightarrow> int \<Rightarrow> nat \<Rightarrow> nr_rlc_pdu_encoder \<Rightarrow> nr_rlc_pdu_encoder \<Rightarrow> (nr_rlc_pdu_encoder \<times> nr_rlc_pdu_encoder) result" where
  "la_put_nack e sn k enc place =
     bindR (la_put_at enc place 1 1) (\<lambda>enc1.
       if k = 0
       then bindR (rlc_pdu_encoder_put_bits enc1 sn 10) (\<lambda>place'.
            bindR (rlc_pdu_encoder_put_bits place' 0 2) (\<lambda>enc2. Inr (enc2, place')))
       else la_put_parts k sn (-1) (dropWhile (\<lambda>l. rs_sn l \<noteq> sn) (la_rx_list e)) enc1 place)"

function la_status_loop ::
  "int \<Rightarrow> rlc_entity_am \<Rightarrow> int \<Rightarrow> int \<Rightarrow> int \<Rightarrow> int \<Rightarrow> nr_rlc_pdu_encoder \<Rightarrow> nr_rlc_pdu_encoder \<Rightarrow> (int \<times> nr_rlc_pdu_encoder) result" where
  "la_status_loop n e maxbits sn bits ack enc place =
     (if la_sn_compare_rx e sn (la_vr_ms e) \<ge> 0 then Inr (ack, enc)
      else if n \<le> 0 then Inl Hang
      else if rlc_am_segment_full e sn
      then la_status_loop (n - 1) e maxbits ((sn + 1) mod 1024) bits ((sn + 1) mod 1024) enc place
      else
        let k = count_nack_missing_parts e sn;
            nack_bits = (if k = 0 then 12 else int k * (12 + 30))
        in if bits + nack_bits > maxbits then Inr (ack, enc)
           else bindR (la_put_nack e sn k enc place) (\<lambda>(enc', place').
                  la_status_loop (n - 1) e maxbits ((sn + 1) mod 1024) (bits + nack_bits) ack enc' place'))"
  by pat_completeness auto
termination
  by (relation "measure (\<lambda>(n, e, maxbits, sn, bits, ack, enc, place). nat n)") auto

declare la_status_loop.simps [simp del]

text \<open>The result is the size of the PDU, the buffer it is in, and the entity.\<close>

definition la_generate_status :: "rlc_entity_am \<Rightarrow> byte list \<Rightarrow> (int \<times> byte list \<times> rlc_entity_am) result" where
  "la_generate_status e buffer =
     (let maxbits = 8 * int (length buffer)
      in if 15 > maxbits then Inr (0, buffer, e)
         else
           bindR (rlc_put_fields (rlc_pdu_encoder_init buffer) [(0, 1), (0, 3)]) (\<lambda>encoder_ack.
           bindR (rlc_pdu_encoder_put_bits encoder_ack 0 10) (\<lambda>place.
           bindR (rlc_pdu_encoder_put_bits place 0 1) (\<lambda>enc0.
           bindR (la_status_loop 1024 e maxbits (la_vr_r e) 15 (la_vr_r e) enc0 place) (\<lambda>(ack, enc1).
           bindR (rlc_pdu_encoder_align enc1) (\<lambda>enc2.
           bindR (la_put_at enc2 encoder_ack ack 10) (\<lambda>enc3.
             Inr (enc_byte enc3, enc_buffer enc3,
               e\<lparr>la_status_triggered := False, la_t_status_prohibit_start := la_t_current e\<rparr>))))))))"

section \<open>Polling\<close>

definition la_transmission_buffer_empty :: "rlc_entity_am \<Rightarrow> bool" where
  "la_transmission_buffer_empty e \<longleftrightarrow> list_all (\<lambda>s. ls_next_byte s = ls_size s) (la_tx_list e)"

definition la_check_poll_after_pdu_assembly :: "rlc_entity_am \<Rightarrow> bool" where
  "la_check_poll_after_pdu_assembly e \<longleftrightarrow>
     la_transmission_buffer_empty e \<and> la_retransmit_list e = [] \<or> \<not> la_sn_available e"

definition la_include_poll :: "rlc_entity_am \<Rightarrow> byte list \<Rightarrow> (byte list \<times> rlc_entity_am) result" where
  "la_include_poll e buffer =
     (case buffer of
        [] \<Rightarrow> Inl OutOfBounds
      | b # bs \<Rightarrow> Inr ((b OR 0x20) # bs,
          e\<lparr>la_pdu_without_poll := 0, la_byte_without_poll := 0, la_poll_sn := (la_vt_s e + 1023) mod 1024,
            la_t_poll_retransmit_start := la_t_current e\<rparr>))"

section \<open>Data PDUs\<close>

text \<open>The number of SDUs of a PDU, and whether the last one is complete.\<close>

fun la_count_sdus :: "int \<Rightarrow> int \<Rightarrow> int \<Rightarrow> rlc_sdu list \<Rightarrow> (nat \<times> bool) result" where
  "la_count_sdus cursize sdu_next_byte data_size l =
     (if cursize = data_size then Inr (0, True)
      else case l of [] \<Rightarrow> Inl NullDeref
      | s # l' \<Rightarrow>
        let n = ls_size s - sdu_next_byte
        in if cursize + n > data_size then Inr (1, False)
           else bindR (la_count_sdus (cursize + n) 0 data_size l') (\<lambda>(k, full). Inr (k + 1, full)))"

declare la_count_sdus.simps [simp del]

definition la_header_fields :: "rlc_tx_pdu_segment \<Rightarrow> nat \<Rightarrow> bool \<Rightarrow> rlc_sdu list \<Rightarrow> (int \<times> nat) list result" where
  "la_header_fields pdu sdu_count last_sdu_full c =
     bindR (lu_li_fields 2 sdu_count (tl c)) (\<lambda>lis.
       Inr ([(1, 1), (lu_e (tp_is_segment pdu), 1), (0, 1),
             ((if tp_sdu_start_byte pdu = 0 then 0 else 2) + (if last_sdu_full then 0 else 1), 2),
             (lu_e (sdu_count \<ge> 2), 1), (tp_sn pdu, 10)] @
            (if tp_is_segment pdu then [(lu_e (tp_is_last pdu), 1), (tp_so pdu, 15)] else []) @
            (if sdu_count \<ge> 2 then [(lu_e (sdu_count \<ge> 3), 1), (ls_size (hd c) - tp_sdu_start_byte pdu, 11)] else []) @ lis))"

text \<open>
  The encoder knows of \<open>bufsize\<close> bytes; the buffer may be smaller, then the header does not end in \<open>exit\<close> but runs
  over its end.
\<close>

definition la_put_header :: "byte list \<Rightarrow> int \<Rightarrow> (int \<times> nat) list \<Rightarrow> nr_rlc_pdu_encoder result" where
  "la_put_header buffer bufsize fs =
     (if int ((sum_list (map snd fs) + 7) div 8) > int (length buffer)
      then Inl (if bufsize \<le> int (length buffer) then Exit else OutOfBounds)
      else bindR (rlc_put_fields ((rlc_pdu_encoder_init buffer)\<lparr>enc_size := bufsize\<rparr>) fs) rlc_pdu_encoder_align)"

definition la_serialize_pdu ::
  "rlc_entity_am \<Rightarrow> byte list \<Rightarrow> int \<Rightarrow> rlc_tx_pdu_segment \<Rightarrow> bool \<Rightarrow> (int \<times> byte list \<times> rlc_entity_am) result" where
  "la_serialize_pdu e buffer bufsize pdu p =
     bindR (la_chain (la_tx_list e) (tp_start_sdu pdu)) (\<lambda>c.
     bindR (la_count_sdus 0 (tp_sdu_start_byte pdu) (tp_data_size pdu) c) (\<lambda>(sdu_count, last_sdu_full).
     bindR (la_header_fields pdu sdu_count last_sdu_full c) (\<lambda>fs.
     bindR (la_put_header buffer bufsize fs) (\<lambda>enc.
     bindR (lu_copy_data sdu_count (enc_byte enc) (tp_data_size pdu) 0 (tp_sdu_start_byte pdu) c (enc_buffer enc)) (\<lambda>out.
     bindR (if p then la_include_poll e out else Inr (out, e)) (\<lambda>(out', e').
       Inr (enc_byte enc + tp_data_size pdu, out', e')))))))"

fun la_reserve :: "nat \<Rightarrow> int \<Rightarrow> int \<Rightarrow> rlc_sdu list \<Rightarrow> (int \<times> rlc_sdu list) result" where
  "la_reserve 0 cursize data_size l = Inr (cursize, l)"
| "la_reserve (Suc n) cursize data_size [] = Inl NullDeref"
| "la_reserve (Suc n) cursize data_size (s # l) =
     (let left = ls_size s - ls_next_byte s;
          k = (if cursize + left > data_size then data_size - cursize else left)
      in bindR (la_reserve n (cursize + k) data_size l) (\<lambda>(c, l').
           Inr (c, s\<lparr>ls_next_byte := ls_next_byte s + k\<rparr> # l')))"

definition la_polls :: "rlc_entity_am \<Rightarrow> bool" where
  "la_polls e \<longleftrightarrow> la_poll_pdu e \<noteq> -1 \<and> la_pdu_without_poll e \<ge> la_poll_pdu e \<or>
     la_poll_byte e \<noteq> -1 \<and> la_byte_without_poll e \<ge> la_poll_byte e \<or> la_check_poll_after_pdu_assembly e"

definition la_generate_tx_pdu :: "rlc_entity_am \<Rightarrow> byte list \<Rightarrow> (int \<times> byte list \<times> rlc_entity_am) result" where
  "la_generate_tx_pdu e buffer =
     (let t = compute_new_pdu_size e (int (length buffer))
      in if \<not> la_sn_available e then Inr (0, buffer, e)
         else if az_sdu_count t = 0 then Inr (0, buffer, e)
         else
           let before = takeWhile (\<lambda>s. ls_next_byte s = ls_size s) (la_tx_list e);
               c = dropWhile (\<lambda>s. ls_next_byte s = ls_size s) (la_tx_list e)
           in if c = [] then Inl NullDeref
              else bindR (la_reserve (az_sdu_count t) 0 (az_data_size t) c) (\<lambda>(cursize, c').
                let pdu = rlc_tx_new_pdu\<lparr>tp_sn := la_vt_s e, tp_start_sdu := Some (ls_addr (hd c)),
                            tp_sdu_start_byte := ls_next_byte (hd c), tp_is_last := True, tp_data_size := cursize\<rparr>;
                    e1 = e\<lparr>la_vt_s := (la_vt_s e + 1) mod 1024, la_tx_list := before @ c',
                           la_wait_list := rlc_tx_pdu_list_append (la_wait_list e) pdu,
                           la_pdu_without_poll := la_pdu_without_poll e + 1,
                           la_byte_without_poll := la_byte_without_poll e + az_data_size t\<rparr>
                in la_serialize_pdu (e1\<lparr>la_force_poll := False\<rparr>) buffer (int (length buffer)) pdu
                     (la_polls e1 \<or> la_force_poll e1)))"

text \<open>
  What fits into the first part: its data size, the SDU behind it and the byte there. A part of an SDU uses the
  grant up, so the loop ends behind it.
\<close>

fun la_cut_loop :: "int \<Rightarrow> nat \<Rightarrow> int \<Rightarrow> int \<Rightarrow> rlc_sdu list \<Rightarrow> (int \<times> int \<times> nat option) result" where
  "la_cut_loop maxsize sdu_count data_size sdu_pos l =
     (if 2 + la_header_size (sdu_count + 1) + data_size + 1 > maxsize
      then Inr (data_size, sdu_pos, case l of [] \<Rightarrow> None | s # _ \<Rightarrow> Some (ls_addr s))
      else case l of [] \<Rightarrow> Inl NullDeref
      | s # l' \<Rightarrow>
        let h = 2 + la_header_size (sdu_count + 1);
            n = (if h + data_size + (ls_size s - sdu_pos) > maxsize then maxsize - (h + data_size) else ls_size s - sdu_pos)
        in if sdu_pos + n = ls_size s then la_cut_loop maxsize (sdu_count + 1) (data_size + n) 0 l'
           else Inr (data_size + n, sdu_pos + n, Some (ls_addr s)))"

declare la_cut_loop.simps [simp del]

definition la_resegment :: "rlc_entity_am \<Rightarrow> rlc_tx_pdu_segment \<Rightarrow> int \<Rightarrow> (rlc_tx_pdu_segment \<times> rlc_tx_pdu_segment) result" where
  "la_resegment e pdu maxsize =
     bindR (la_chain (la_tx_list e) (tp_start_sdu pdu)) (\<lambda>c.
     bindR (la_cut_loop maxsize 0 0 (tp_sdu_start_byte pdu) c) (\<lambda>(n, sdu_pos, sdu).
       let p = pdu\<lparr>tp_is_segment := True\<rparr>
       in Inr (p\<lparr>tp_is_last := False, tp_data_size := n\<rparr>,
               p\<lparr>tp_so := tp_so p + n, tp_data_size := tp_data_size p - n, tp_start_sdu := sdu, tp_sdu_start_byte := sdu_pos\<rparr>)))"

text \<open>The head of the retransmit list, cut if the grant is too small.\<close>

definition la_retx_head :: "rlc_entity_am \<Rightarrow> int \<Rightarrow> int \<Rightarrow> (rlc_tx_pdu_segment \<times> rlc_tx_pdu_segment list) result" where
  "la_retx_head e orig_size maxsize =
     (case la_retransmit_list e of
        [] \<Rightarrow> Inl NullDeref
      | pdu # l \<Rightarrow> if orig_size > maxsize then bindR (la_resegment e pdu maxsize) (\<lambda>(a, b). Inr (a, b # l)) else Inr (pdu, l))"

definition la_generate_retx_pdu :: "rlc_entity_am \<Rightarrow> byte list \<Rightarrow> (int \<times> byte list \<times> rlc_entity_am) result" where
  "la_generate_retx_pdu e buffer =
     bindR (la_pdu_size e (hd (la_retransmit_list e))) (\<lambda>orig_size.
       if orig_size > int (length buffer) \<and> length buffer < 5 then Inr (0, buffer, e)
       else bindR (la_retx_head e orig_size (int (length buffer))) (\<lambda>(pdu, l).
         let e1 = e\<lparr>la_retransmit_list := l, la_wait_list := rlc_tx_pdu_list_add (la_sn_compare_tx e) (la_wait_list e) pdu\<rparr>
         in la_serialize_pdu (e1\<lparr>la_force_poll := False\<rparr>) buffer orig_size pdu
              (la_check_poll_after_pdu_assembly e1 \<or> la_force_poll e1)))"

definition la_status_to_report :: "rlc_entity_am \<Rightarrow> bool" where
  "la_status_to_report e \<longleftrightarrow> la_status_triggered e \<and>
     (la_t_status_prohibit_start e = 0 \<or> la_t_current e - la_t_status_prohibit_start e > word_of_int (la_t_status_prohibit e))"

definition la_retx_pdu_size :: "rlc_entity_am \<Rightarrow> int \<Rightarrow> int result" where
  "la_retx_pdu_size e maxsize =
     (case la_retransmit_list e of
        [] \<Rightarrow> Inr 0
      | pdu # _ \<Rightarrow> bindR (la_pdu_size e pdu) (\<lambda>n. Inr (if n \<le> maxsize then n else if maxsize < 5 then 0 else maxsize)))"

record rlc_entity_buffer_status =
  lb_status_size :: int
  lb_tx_size :: int
  lb_retx_size :: int
  lb_total_tx_bytes :: int

definition rlc_entity_am_buffer_status :: "rlc_entity_am \<Rightarrow> int \<Rightarrow> rlc_entity_buffer_status result" where
  "rlc_entity_am_buffer_status e maxsize =
     bindR (if la_status_to_report e then la_status_size e maxsize else Inr 0) (\<lambda>status_size.
     let t = compute_new_pdu_size e maxsize
     in bindR (la_retx_pdu_size e maxsize) (\<lambda>retx_size.
          Inr \<lparr>lb_status_size = status_size, lb_tx_size = az_data_size t + az_header_size t, lb_retx_size = retx_size,
               lb_total_tx_bytes = la_txsdu_bytes e\<rparr>))"

definition rlc_entity_am_generate_pdu :: "rlc_entity_am \<Rightarrow> byte list \<Rightarrow> (int \<times> byte list \<times> rlc_entity_am) result" where
  "rlc_entity_am_generate_pdu e0 buffer0 =
     bindR (if la_status_to_report e0 then la_generate_status e0 buffer0 else Inr (0, buffer0, e0)) (\<lambda>(n, buffer1, e1).
       if n \<noteq> 0 then Inr (n, buffer1, e1)
       else bindR (if la_retransmit_list e1 \<noteq> [] then la_generate_retx_pdu e1 buffer1 else Inr (0, buffer1, e1)) (\<lambda>(k, buffer2, e2).
         if k \<noteq> 0 then Inr (k, buffer2, e2) else la_generate_tx_pdu e2 buffer2))"

section \<open>SDUs from above, timers, discard, re-establishment\<close>

definition rlc_entity_am_recv_sdu :: "rlc_entity_am \<Rightarrow> byte list \<Rightarrow> int \<Rightarrow> rlc_entity_am result" where
  "rlc_entity_am_recv_sdu e buffer sdu_id =
     (let n = int (length buffer)
      in if n > int SDU_MAX then Inl Exit
         else if la_tx_size e + n > la_tx_maxsize e then Inr e
         else bindR (rlc_sdu_list_add (la_tx_list e) (la_tx_end e) (rlc_new_sdu (la_next_addr e) buffer sdu_id)) (\<lambda>(l, t).
                Inr (e\<lparr>la_tx_size := la_tx_size e + n, la_next_addr := la_next_addr e + 1, la_tx_list := l, la_tx_end := t\<rparr>)))"

text \<open>All segments with the number of the one that is found go from the wait list to the retransmit list.\<close>

definition la_check_t_poll_retransmit :: "rlc_entity_am \<Rightarrow> rlc_entity_am result" where
  "la_check_t_poll_retransmit e =
     (if la_t_poll_retransmit_start e = 0 \<or>
         la_t_current e \<le> la_t_poll_retransmit_start e + word_of_int (la_t_poll_retransmit e) then Inr e
      else
        let e1 = e\<lparr>la_t_poll_retransmit_start := 0, la_force_poll := True\<rparr>
        in if \<not> la_check_poll_after_pdu_assembly e1 then Inr e1
           else
             let last_sn = (la_vt_s e1 + 1023) mod 1024;
                 found = dropWhile (\<lambda>p. tp_sn p \<noteq> last_sn) (la_wait_list e1);
                 before = (if found = [] then [] else takeWhile (\<lambda>p. tp_sn p \<noteq> last_sn) (la_wait_list e1));
                 l = (if found = [] then la_wait_list e1 else found)
             in case l of [] \<Rightarrow> Inl NullDeref
                | cur # _ \<Rightarrow>
                  let sn = tp_sn cur
                  in Inr ((fold consider_retransmission (takeWhile (\<lambda>p. tp_sn p = sn) l) e1)
                          \<lparr>la_wait_list := before @ dropWhile (\<lambda>p. tp_sn p = sn) l\<rparr>))"

definition la_check_t_reordering :: "rlc_entity_am \<Rightarrow> rlc_entity_am result" where
  "la_check_t_reordering e =
     (if la_t_reordering_start e = 0 \<or> la_t_current e \<le> la_t_reordering_start e + word_of_int (la_t_reordering e) then Inr e
      else
        let e1 = e\<lparr>la_t_reordering_start := 0\<rparr>
        in bindR (la_skip_full e1 (la_vr_x e1) 0) (\<lambda>sn.
           let e2 = e1\<lparr>la_vr_ms := sn\<rparr>;
               e3 = (if la_sn_compare_rx e2 (la_vr_h e2) (la_vr_ms e2) > 0
                     then e2\<lparr>la_t_reordering_start := la_t_current e2, la_vr_x := la_vr_h e2\<rparr> else e2)
           in Inr (e3\<lparr>la_status_triggered := True\<rparr>)))"

definition rlc_entity_am_set_time :: "rlc_entity_am \<Rightarrow> u64 \<Rightarrow> rlc_entity_am result" where
  "rlc_entity_am_set_time e now = bindR (la_check_t_poll_retransmit (e\<lparr>la_t_current := now\<rparr>)) la_check_t_reordering"

text \<open>\<open>tx_size\<close> is left as it is.\<close>

definition rlc_entity_am_discard_sdu :: "rlc_entity_am \<Rightarrow> int \<Rightarrow> rlc_entity_am" where
  "rlc_entity_am_discard_sdu e sdu_id =
     (let before = takeWhile (\<lambda>s. ls_upper_layer_id s \<noteq> sdu_id) (la_tx_list e)
      in case dropWhile (\<lambda>s. ls_upper_layer_id s \<noteq> sdu_id) (la_tx_list e) of
           [] \<Rightarrow> e
         | cur # rest \<Rightarrow>
             if ls_next_byte cur \<noteq> 0 then e
             else e\<lparr>la_tx_list := before @ rest,
                    la_tx_end := (if la_tx_end e = Some (ls_addr cur)
                                  then (if before = [] then None else Some (ls_addr (last before)))
                                  else la_tx_end e)\<rparr>)"

text \<open>\<open>txsdu_bytes\<close> and \<open>last_total_tx_bytes\<close> are left as they are.\<close>

definition la_clear_entity :: "rlc_entity_am \<Rightarrow> rlc_entity_am" where
  "la_clear_entity e =
     e\<lparr>la_vr_r := 0, la_vr_x := 0, la_vr_ms := 0, la_vr_h := 0, la_status_triggered := False, la_vt_a := 0, la_vt_s := 0,
       la_poll_sn := 0, la_pdu_without_poll := 0, la_byte_without_poll := 0, la_force_poll := False, la_t_current := 0,
       la_t_reordering_start := 0, la_t_status_prohibit_start := 0, la_t_poll_retransmit_start := 0, la_rx_list := [],
       la_rx_size := 0, la_reassemble := ra_zero, la_tx_list := [], la_tx_end := None, la_tx_size := 0,
       la_wait_list := [], la_retransmit_list := [], la_ack_list := []\<rparr>"

definition rlc_entity_am_reestablishment :: "rlc_entity_am \<Rightarrow> rlc_entity_am" where
  "rlc_entity_am_reestablishment e = la_clear_entity e"

text \<open>What is left of a deleted entity is what it has reported.\<close>

definition rlc_entity_am_delete :: "rlc_entity_am \<Rightarrow> rlc_event list" where
  "rlc_entity_am_delete e = la_events (la_clear_entity e)"

section \<open>The report for the split of the traffic\<close>

text \<open>
  What \<open>mac_rlc_data_ind\<close> does with the entity of the bearer: it processes the PDU, then tells PDCP, over RRC and
  X2, how many bytes have been acknowledged since the last report and how much waits. The result has the two
  numbers of the message.
\<close>

definition la_mac_rlc_data_ind :: "rlc_entity_am \<Rightarrow> u64 \<Rightarrow> byte list \<Rightarrow> ((int \<times> int) \<times> rlc_entity_am) result" where
  "la_mac_rlc_data_ind e now pdu =
     bindR (rlc_entity_am_set_time e now) (\<lambda>e1.
     bindR (rlc_entity_am_recv_pdu e1 pdu) (\<lambda>e2.
     bindR (rlc_entity_am_buffer_status e2 (1000 * 1000)) (\<lambda>st.
       Inr ((lb_total_tx_bytes st - la_last_total_tx_bytes e2, lb_tx_size st), e2\<lparr>la_last_total_tx_bytes := lb_total_tx_bytes st\<rparr>))))"

end
