(* ===== verification/Lte_Am_Flow.thy ===== *)
theory Lte_Am_Flow
  imports Lte_Am_Tx
begin

text \<open>
  The way of the bytes through the acknowledged mode of LTE: a byte that is put into a PDU is in a segment of the
  wait list, the retransmit list or the list of acknowledged segments, until the PDU is complete at \<open>vt_a\<close> and its
  bytes are credited to their SDUs; an SDU leaves for the count of the split when all its bytes are credited.
\<close>

section \<open>What holds of a result if there is one\<close>

definition holds :: "('a \<Rightarrow> bool) \<Rightarrow> 'a result \<Rightarrow> bool" where
  "holds P r = (case r of Inl c \<Rightarrow> True | Inr x \<Rightarrow> P x)"

lemma holds_simps [simp]: "holds P (Inl c)" "holds P (Inr x) \<longleftrightarrow> P x"
  by (simp_all add: holds_def)

lemma holds_bind: "(\<And>x. m = Inr x \<Longrightarrow> holds P (f x)) \<Longrightarrow> holds P (bindR m f)"
  by (cases m) (simp_all add: bindR_def)

lemma holds_get_or: "holds P err \<Longrightarrow> (\<And>v d'. holds P (f v d')) \<Longrightarrow> holds P (get_or d n err f)"
  by (simp add: get_or_def holds_bind split: prod.splits)

lemma holds_Inr: "m = Inr x \<Longrightarrow> holds P m \<Longrightarrow> P x"
  by simp

lemma holds_mono: "holds P r \<Longrightarrow> (\<And>x. P x \<Longrightarrow> Q x) \<Longrightarrow> holds Q r"
  by (cases r) simp_all

section \<open>Reception leaves the sending side alone\<close>

definition la_snd :: "rlc_entity_am \<Rightarrow>
    (rlc_sdu list \<times> rlc_tx_pdu_segment list \<times> rlc_tx_pdu_segment list \<times> rlc_tx_pdu_segment list) \<times>
    (int \<times> int) \<times> (int \<times> int \<times> int) \<times> (nat \<times> nat option)" where
  "la_snd e = ((la_tx_list e, la_wait_list e, la_retransmit_list e, la_ack_list e), (la_vt_a e, la_vt_s e),
     (la_tx_size e, la_txsdu_bytes e, la_last_total_tx_bytes e), (la_next_addr e, la_tx_end e))"

named_theorems snds

lemma call_snd [snds]: "la_snd (la_call ev e) = la_snd e"
  by (simp add: la_snd_def la_call_def)

lemma update_snd [snds]:
  "la_snd (e\<lparr>la_reassemble := r\<rparr>) = la_snd e" "la_snd (e\<lparr>la_rx_size := n\<rparr>) = la_snd e"
  "la_snd (e\<lparr>la_rx_list := rx\<rparr>) = la_snd e" "la_snd (e\<lparr>la_vr_r := n\<rparr>) = la_snd e" "la_snd (e\<lparr>la_vr_h := n\<rparr>) = la_snd e"
  "la_snd (e\<lparr>la_vr_ms := n\<rparr>) = la_snd e" "la_snd (e\<lparr>la_vr_x := n\<rparr>) = la_snd e"
  "la_snd (e\<lparr>la_t_reordering_start := t\<rparr>) = la_snd e" "la_snd (e\<lparr>la_status_triggered := b\<rparr>) = la_snd e"
  "la_snd (e\<lparr>la_t_status_prohibit_start := t\<rparr>) = la_snd e" "la_snd (e\<lparr>la_t_poll_retransmit_start := t\<rparr>) = la_snd e"
  "la_snd (e\<lparr>la_force_poll := b\<rparr>) = la_snd e" "la_snd (e\<lparr>la_t_current := t\<rparr>) = la_snd e"
  "la_snd (e\<lparr>la_pdu_without_poll := n\<rparr>) = la_snd e" "la_snd (e\<lparr>la_byte_without_poll := n\<rparr>) = la_snd e"
  "la_snd (e\<lparr>la_poll_sn := n\<rparr>) = la_snd e"
  by (simp_all add: la_snd_def)

lemma segment_bytes_snd: "la_segment_bytes s r e = Inr (r', e') \<Longrightarrow> la_snd e' = la_snd e"
proof (induction s r e rule: la_segment_bytes.induct)
  case (1 s r e)
  show ?case
    using "1.prems" "1.IH"
    by (subst (asm) la_segment_bytes.simps) (auto simp: Let_def snds bindR_eq_Inr split: if_splits)
qed

lemma next_segments_snd: "la_next_segments l r e = Inr e' \<Longrightarrow> la_snd e' = la_snd e"
  by (induction l r e rule: la_next_segments.induct)
    (auto simp: snds bindR_eq_Inr dest!: segment_bytes_snd split: if_splits prod.splits)

lemma reassemble_all_snd: "rlc_am_reassemble_all e = Inr e' \<Longrightarrow> la_snd e' = la_snd e"
  by (auto simp: rlc_am_reassemble_all_def snds bindR_eq_Inr dest!: segment_bytes_snd next_segments_snd split: list.splits)

lemma collect_sn_snd: "la_collect_sn vr_r e = Inr e' \<Longrightarrow> la_snd e' = la_snd e"
  by (auto simp: la_collect_sn_def Let_def snds bindR_eq_Inr split: list.splits if_splits prod.splits)

lemma collect_snd: "la_collect n vr_r e = Inr (k, e') \<Longrightarrow> la_snd e' = la_snd e"
proof (induction n vr_r e rule: la_collect.induct)
  case (1 n vr_r e)
  show ?case
    using "1.prems" "1.IH"
    by (subst (asm) la_collect.simps) (auto simp: bindR_eq_Inr dest!: collect_sn_snd split: if_splits)
qed

lemma advance_snd: "la_advance x e = Inr e' \<Longrightarrow> la_snd e' = la_snd e"
  by (auto simp: la_advance_def snds bindR_eq_Inr dest!: collect_snd split: if_splits prod.splits)

lemma reordering_snd [snds]: "la_snd (la_start_reordering e) = la_snd e" "la_snd (la_stop_reordering e) = la_snd e"
  by (simp_all add: la_start_reordering_def la_stop_reordering_def Let_def snds)

lemma reception_snd: "rlc_am_reception_actions e x = Inr e' \<Longrightarrow> la_snd e' = la_snd e"
  by (auto simp: rlc_am_reception_actions_def Let_def snds bindR_eq_Inr dest!: advance_snd reassemble_all_snd)

lemma discard_snd [snds]: "la_snd (la_discard p e) = la_snd e"
  by (simp add: la_discard_def snds)

abbreviation keeps_snd :: "rlc_entity_am \<Rightarrow> rlc_entity_am result \<Rightarrow> bool" where
  "keeps_snd e \<equiv> holds (\<lambda>e'. la_snd e' = la_snd e)"

abbreviation keeps_snd3 :: "rlc_entity_am \<Rightarrow> ('a \<times> 'b \<times> rlc_entity_am) result \<Rightarrow> bool" where
  "keeps_snd3 e \<equiv> holds (\<lambda>(n, b, e'). la_snd e' = la_snd e)"

lemma take_segment_snd: "keeps_snd e (la_take_segment e b p x sn lsf so d)"
proof -
  have "keeps_snd e (bindR (rlc_am_reception_actions e1 sn) (\<lambda>e2. Inr (if p \<noteq> 0 then e2\<lparr>la_status_triggered := True\<rparr> else e2)))"
    if "la_snd e1 = la_snd e" for e1
    by (rule holds_bind) (use that in \<open>auto simp: snds dest: reception_snd\<close>)
  then show ?thesis unfolding la_take_segment_def
    by (intro holds_bind) (auto simp: Let_def snds split: option.splits)
qed

lemma recv_data_snd: "keeps_snd e (la_recv_data e b d)"
  unfolding la_recv_data_def by (intro holds_get_or) (auto simp: snds intro!: holds_get_or take_segment_snd)

lemma include_poll_snd: "la_include_poll e b = Inr (b', e') \<Longrightarrow> la_snd e' = la_snd e"
  by (auto simp: la_include_poll_def snds split: list.splits)

lemma serialize_snd: "keeps_snd3 e (la_serialize_pdu e b m pdu p)"
  unfolding la_serialize_pdu_def
  by (intro holds_bind) (auto dest: include_poll_snd intro!: holds_bind split: if_splits)

lemma generate_status_snd: "keeps_snd3 e (la_generate_status e b)"
  unfolding la_generate_status_def Let_def
  by (auto intro!: holds_bind simp: snds)

lemma reordering_timer_snd: "keeps_snd e (la_check_t_reordering e)"
  unfolding la_check_t_reordering_def Let_def by (auto simp: snds intro!: holds_bind)

section \<open>Order and credit\<close>

text \<open>
  Every segment has a sequence number, and the acknowledged segments stand in the order of their distance from
  \<open>vt_a\<close>, so that those of one PDU stand together.
\<close>

definition la_sn_ok :: "int \<Rightarrow> bool" where
  "la_sn_ok x \<longleftrightarrow> 0 \<le> x \<and> x < 1024"

definition la_order :: "rlc_entity_am \<Rightarrow> bool" where
  "la_order e \<longleftrightarrow> la_sn_ok (la_vt_a e) \<and> la_sn_ok (la_vt_s e) \<and>
     (\<forall>p \<in> set (la_wait_list e @ la_retransmit_list e @ la_ack_list e). la_sn_ok (tp_sn p)) \<and>
     sorted_wrt (\<lambda>p q. la_modulus_tx e (tp_sn p) \<le> la_modulus_tx e (tp_sn q)) (la_ack_list e)"

definition pdu_bytes :: "rlc_tx_pdu_segment list \<Rightarrow> int" where
  "pdu_bytes l = sum_list (map tp_data_size l)"

definition credited_bytes :: "rlc_sdu list \<Rightarrow> int" where
  "credited_bytes l = sum_list (map ls_acked_bytes l)"

text \<open>The bytes that were put into PDUs: in segments, credited to SDUs, or counted for the split.\<close>

definition la_credit :: "rlc_entity_am \<Rightarrow> int" where
  "la_credit e = pdu_bytes (la_wait_list e) + pdu_bytes (la_retransmit_list e) + pdu_bytes (la_ack_list e) +
     credited_bytes (la_tx_list e) + la_txsdu_bytes e"

text \<open>The bytes of the SDUs in the transmit buffer that were put into PDUs.\<close>

definition la_reserved :: "rlc_entity_am \<Rightarrow> int" where
  "la_reserved e = sum_list (map ls_next_byte (la_tx_list e))"

lemma bytes_simps [simp]:
  "pdu_bytes [] = 0" "pdu_bytes (p # l) = tp_data_size p + pdu_bytes l" "pdu_bytes (l @ l') = pdu_bytes l + pdu_bytes l'"
  "credited_bytes [] = 0" "credited_bytes (s # t) = ls_acked_bytes s + credited_bytes t"
  "credited_bytes (t @ t') = credited_bytes t + credited_bytes t'"
  by (simp_all add: pdu_bytes_def credited_bytes_def)

lemma pdu_bytes_filter: "pdu_bytes (filter P l) + pdu_bytes (filter (Not \<circ> P) l) = pdu_bytes l"
  by (induction l) auto

lemma pdu_bytes_insert: "pdu_bytes (rlc_tx_pdu_list_add cmp l p) = tp_data_size p + pdu_bytes l"
  by (simp add: pdu_bytes_def rlc_tx_pdu_list_add_def sum_list_map_insert_before)

lemma set_pdu_list_add [simp]: "set (rlc_tx_pdu_list_add cmp l p) = insert p (set l)"
  by (simp add: rlc_tx_pdu_list_add_def)

lemma modulus_cong: "la_vt_a e' = la_vt_a e \<Longrightarrow> la_modulus_tx e' = la_modulus_tx e \<and> la_sn_compare_tx e' = la_sn_compare_tx e"
  by (simp add: fun_eq_iff la_modulus_tx_def la_sn_compare_tx_def Let_def)

lemma modulus_update [simp]:
  "la_modulus_tx (e\<lparr>la_ack_list := l\<rparr>) = la_modulus_tx e" "la_modulus_tx (e\<lparr>la_wait_list := l\<rparr>) = la_modulus_tx e"
  "la_modulus_tx (e\<lparr>la_retransmit_list := l\<rparr>) = la_modulus_tx e" "la_modulus_tx (e\<lparr>la_tx_list := tx\<rparr>) = la_modulus_tx e"
  "la_modulus_tx (la_call ev e) = la_modulus_tx e"
  by (simp_all add: fun_eq_iff la_modulus_tx_def la_call_def Let_def)

lemma snd_order: "la_snd e' = la_snd e \<Longrightarrow> la_order e' = la_order e \<and> la_credit e' = la_credit e \<and> la_reserved e' = la_reserved e"
proof -
  assume snd: "la_snd e' = la_snd e"
  then have f: "la_tx_list e' = la_tx_list e" "la_wait_list e' = la_wait_list e" "la_retransmit_list e' = la_retransmit_list e"
    "la_ack_list e' = la_ack_list e" "la_vt_a e' = la_vt_a e" "la_vt_s e' = la_vt_s e" "la_txsdu_bytes e' = la_txsdu_bytes e"
    by (simp_all add: la_snd_def)
  have m: "la_modulus_tx e' = la_modulus_tx e" using modulus_cong [OF f(5)] by blast
  show ?thesis by (simp add: la_order_def la_credit_def la_reserved_def f m)
qed

text \<open>What an operation that puts no new byte into a PDU does.\<close>

definition la_flows :: "rlc_entity_am \<Rightarrow> rlc_entity_am \<Rightarrow> bool" where
  "la_flows e e' \<longleftrightarrow> (la_order e \<longrightarrow> la_order e' \<and> la_credit e' = la_credit e)"

lemma flows_refl [simp]: "la_flows e e"
  by (simp add: la_flows_def)

lemma flows_trans: "la_flows a b \<Longrightarrow> la_flows b c \<Longrightarrow> la_flows a c"
  by (simp add: la_flows_def)

lemma flows_snd: "la_snd e' = la_snd e \<Longrightarrow> la_flows e e'"
  by (drule snd_order) (simp add: la_flows_def)

text \<open>Lists that change without the others.\<close>

lemma sorted_insert_before:
  fixes d :: "'a \<Rightarrow> int"
  assumes "sorted_wrt (\<lambda>a b. d a \<le> d b) l" "\<And>c. stop c \<Longrightarrow> d x \<le> d c" "\<And>c. \<not> stop c \<Longrightarrow> d c \<le> d x"
  shows "sorted_wrt (\<lambda>a b. d a \<le> d b) (insert_before stop x l)"
  using assms(1)
proof (induction l)
  case (Cons c l)
  then show ?case using assms(2,3) by (cases "stop c") (auto intro: order_trans)
qed simp

lemma ack_add_flow:
  assumes "la_order e" "la_sn_ok (tp_sn p)"
  shows "la_order (la_ack_list_add p e) \<and> la_credit (la_ack_list_add p e) = la_credit e + tp_data_size p"
proof -
  let ?l = "rlc_tx_pdu_list_add (la_sn_compare_tx e) (la_ack_list e) p" and ?d = "\<lambda>q. la_modulus_tx e (tp_sn q)"
  have "sorted_wrt (\<lambda>a b. ?d a \<le> ?d b) ?l"
    unfolding rlc_tx_pdu_list_add_def
    by (rule sorted_insert_before) (use assms(1) in \<open>auto simp: la_order_def la_sn_compare_tx_def\<close>)
  then show ?thesis
    using assms by (simp add: la_ack_list_add_def la_order_def la_credit_def pdu_bytes_insert)
qed

lemma fold_ack_flow:
  assumes "la_order e" "\<forall>p \<in> set l. la_sn_ok (tp_sn p)"
  shows "la_order (fold la_ack_list_add l e) \<and> la_credit (fold la_ack_list_add l e) = la_credit e + pdu_bytes l \<and>
    la_wait_list (fold la_ack_list_add l e) = la_wait_list e \<and>
    la_retransmit_list (fold la_ack_list_add l e) = la_retransmit_list e \<and> la_vt_a (fold la_ack_list_add l e) = la_vt_a e"
  using assms
proof (induction l arbitrary: e)
  case (Cons p l)
  have "la_wait_list (la_ack_list_add p e) = la_wait_list e" "la_retransmit_list (la_ack_list_add p e) = la_retransmit_list e"
    "la_vt_a (la_ack_list_add p e) = la_vt_a e" by (simp_all add: la_ack_list_add_def)
  with Cons.IH [of "la_ack_list_add p e"] ack_add_flow [OF Cons.prems(1), of p] Cons.prems(2) show ?case by simp
qed simp

lemma consider_flow:
  assumes "la_order e" "la_sn_ok (tp_sn p)"
  shows "la_order (consider_retransmission p e) \<and> la_credit (consider_retransmission p e) = la_credit e + tp_data_size p \<and>
    la_wait_list (consider_retransmission p e) = la_wait_list e \<and> la_ack_list (consider_retransmission p e) = la_ack_list e \<and>
    la_vt_a (consider_retransmission p e) = la_vt_a e"
proof -
  define e1 where "e1 = (if tp_retx_count p + 1 \<ge> la_max_retx_threshold e then la_call MaxRetxReached e else e)"
  have s1: "la_snd e1 = la_snd e" by (simp add: e1_def snds)
  then have f: "la_wait_list e1 = la_wait_list e" "la_ack_list e1 = la_ack_list e" "la_vt_a e1 = la_vt_a e" by (simp_all add: la_snd_def)
  have o1: "la_order e1" "la_credit e1 = la_credit e" using snd_order [OF s1] assms(1) by simp_all
  have c: "consider_retransmission p e = e1\<lparr>la_retransmit_list :=
      rlc_tx_pdu_list_add (la_sn_compare_tx e1) (la_retransmit_list e1) (p\<lparr>tp_retx_count := tp_retx_count p + 1\<rparr>)\<rparr>"
    by (simp add: consider_retransmission_def Let_def e1_def)
  show ?thesis
    using o1 assms(2) f unfolding c by (auto simp: la_order_def la_credit_def pdu_bytes_insert)
qed

lemma fold_consider_flow:
  assumes "la_order e" "\<forall>p \<in> set l. la_sn_ok (tp_sn p)"
  shows "la_order (fold consider_retransmission l e) \<and> la_credit (fold consider_retransmission l e) = la_credit e + pdu_bytes l \<and>
    la_wait_list (fold consider_retransmission l e) = la_wait_list e \<and> la_ack_list (fold consider_retransmission l e) = la_ack_list e"
  using assms
proof (induction l arbitrary: e)
  case (Cons p l)
  with Cons.IH [of "consider_retransmission p e"] consider_flow [OF Cons.prems(1), of p] show ?case by simp
qed simp

lemma set_wait_flow:
  assumes "la_order e" "set l \<subseteq> set (la_wait_list e)"
  shows "la_order (e\<lparr>la_wait_list := l\<rparr>) \<and> la_credit (e\<lparr>la_wait_list := l\<rparr>) = la_credit e - pdu_bytes (la_wait_list e) + pdu_bytes l"
  using assms by (auto simp: la_order_def la_credit_def)

lemma set_retx_flow:
  assumes "la_order e" "set l \<subseteq> set (la_retransmit_list e)"
  shows "la_order (e\<lparr>la_retransmit_list := l\<rparr>) \<and>
    la_credit (e\<lparr>la_retransmit_list := l\<rparr>) = la_credit e - pdu_bytes (la_retransmit_list e) + pdu_bytes l"
  using assms by (auto simp: la_order_def la_credit_def)

lemma filter_ack_flow:
  assumes "la_order e"
  shows "la_order (e\<lparr>la_ack_list := filter P (la_ack_list e)\<rparr>) \<and>
    la_credit (e\<lparr>la_ack_list := filter P (la_ack_list e)\<rparr>) = la_credit e - pdu_bytes (la_ack_list e) + pdu_bytes (filter P (la_ack_list e))"
  using assms
  by (auto simp: la_order_def la_credit_def sorted_wrt_filter)

section \<open>STATUS PDUs\<close>

lemma order_sn_ok:
  "la_order e \<Longrightarrow> p \<in> set (la_wait_list e) \<union> set (la_retransmit_list e) \<union> set (la_ack_list e) \<Longrightarrow> la_sn_ok (tp_sn p)"
  by (auto simp: la_order_def)

text \<open>The three moves: from the wait or the retransmit list to the acknowledged segments, and from any list back.\<close>

lemma wait_to_ack_flow:
  "la_flows e ((fold la_ack_list_add (filter P (la_wait_list e)) e)\<lparr>la_wait_list := filter (Not \<circ> P) (la_wait_list e)\<rparr>)"
  unfolding la_flows_def
proof
  assume o: "la_order e"
  let ?x = "fold la_ack_list_add (filter P (la_wait_list e)) e"
  have f: "la_order ?x" "la_credit ?x = la_credit e + pdu_bytes (filter P (la_wait_list e))" "la_wait_list ?x = la_wait_list e"
    using fold_ack_flow [OF o, of "filter P (la_wait_list e)"] order_sn_ok [OF o] by auto
  have sub: "set (filter (Not \<circ> P) (la_wait_list e)) \<subseteq> set (la_wait_list ?x)" unfolding f(3) by auto
  show "la_order (?x\<lparr>la_wait_list := filter (Not \<circ> P) (la_wait_list e)\<rparr>) \<and>
      la_credit (?x\<lparr>la_wait_list := filter (Not \<circ> P) (la_wait_list e)\<rparr>) = la_credit e"
    using set_wait_flow [OF f(1) sub] f(2,3) pdu_bytes_filter [of P "la_wait_list e"] by simp
qed

lemma retx_to_ack_flow:
  assumes "\<And>p. tp_sn (g p) = tp_sn p" "\<And>p. tp_data_size (g p) = tp_data_size p" "la_retransmit_list e = l"
  shows "la_flows e ((fold la_ack_list_add (map g (filter P l)) e)\<lparr>la_retransmit_list := filter (Not \<circ> P) l\<rparr>)"
  unfolding la_flows_def
proof
  assume o: "la_order e"
  let ?m = "map g (filter P l)"
  let ?x = "fold la_ack_list_add ?m e"
  have b: "pdu_bytes ?m = pdu_bytes (filter P l)" by (simp add: pdu_bytes_def comp_def assms(2))
  have sn: "\<forall>p \<in> set ?m. la_sn_ok (tp_sn p)" using order_sn_ok [OF o] assms(3) by (auto simp: assms(1))
  have f: "la_order ?x" "la_credit ?x = la_credit e + pdu_bytes (filter P l)" "la_retransmit_list ?x = l"
    using fold_ack_flow [OF o sn] unfolding b assms(3) by auto
  have sub: "set (filter (Not \<circ> P) l) \<subseteq> set (la_retransmit_list ?x)" unfolding f(3) by auto
  show "la_order (?x\<lparr>la_retransmit_list := filter (Not \<circ> P) l\<rparr>) \<and>
      la_credit (?x\<lparr>la_retransmit_list := filter (Not \<circ> P) l\<rparr>) = la_credit e"
    using set_retx_flow [OF f(1) sub] f(2,3) pdu_bytes_filter [of P l] by simp
qed

lemma wait_to_retx_flow:
  assumes "set x \<union> set y \<subseteq> set (la_wait_list e)" "pdu_bytes x + pdu_bytes y = pdu_bytes (la_wait_list e)"
  shows "la_flows e ((fold consider_retransmission x e)\<lparr>la_wait_list := y\<rparr>)"
  unfolding la_flows_def
proof
  assume o: "la_order e"
  let ?x = "fold consider_retransmission x e"
  have sn: "\<forall>p \<in> set x. la_sn_ok (tp_sn p)" using order_sn_ok [OF o] assms(1) by auto
  note f = fold_consider_flow [OF o sn]
  have sub: "set y \<subseteq> set (la_wait_list ?x)" using f assms(1) by auto
  show "la_order (?x\<lparr>la_wait_list := y\<rparr>) \<and> la_credit (?x\<lparr>la_wait_list := y\<rparr>) = la_credit e"
    using set_wait_flow [OF _ sub] f assms(2) by simp
qed

lemma ack_to_retx_flow:
  "la_flows e ((fold consider_retransmission (filter P (la_ack_list e)) e)\<lparr>la_ack_list := filter (Not \<circ> P) (la_ack_list e)\<rparr>)"
  unfolding la_flows_def
proof
  assume o: "la_order e"
  let ?x = "fold consider_retransmission (filter P (la_ack_list e)) e"
  have sn: "\<forall>p \<in> set (filter P (la_ack_list e)). la_sn_ok (tp_sn p)" using order_sn_ok [OF o] by auto
  note f = fold_consider_flow [OF o sn]
  have a: "la_ack_list ?x = la_ack_list e" using f by blast
  show "la_order (?x\<lparr>la_ack_list := filter (Not \<circ> P) (la_ack_list e)\<rparr>) \<and>
      la_credit (?x\<lparr>la_ack_list := filter (Not \<circ> P) (la_ack_list e)\<rparr>) = la_credit e"
    using filter_ack_flow [of ?x "Not \<circ> P"] f pdu_bytes_filter [of P "la_ack_list e"] unfolding a by simp
qed

lemma received_ack_flow: "la_flows e (process_received_ack e sn)"
proof -
  let ?below = "\<lambda>p. la_sn_compare_tx e (tp_sn p) sn < 0"
  define e1 where "e1 = (fold la_ack_list_add (filter ?below (la_wait_list e)) e)\<lparr>la_wait_list := filter (Not \<circ> ?below) (la_wait_list e)\<rparr>"
  have retx: "la_retransmit_list (fold la_ack_list_add l x) = la_retransmit_list x" for l x
    by (induction l arbitrary: x) (simp_all add: la_ack_list_add_def)
  have "la_retransmit_list e1 = la_retransmit_list e" by (simp add: e1_def retx)
  from retx_to_ack_flow [OF _ _ this, of "\<lambda>p. p\<lparr>tp_retx_count := tp_retx_count p - 1\<rparr>" ?below]
  have "la_flows e1 (process_received_ack e sn)"
    by (simp add: process_received_ack_def Let_def e1_def)
  moreover have "la_flows e e1" unfolding e1_def by (rule wait_to_ack_flow)
  ultimately show ?thesis using flows_trans by blast
qed

lemma received_nack_flow: "la_flows e (process_received_nack e sn a b)"
proof (cases "la_sn_compare_tx e (la_vt_a e) sn \<le> 0 \<and> la_sn_compare_tx e sn (la_vt_s e) < 0")
  case True
  let ?hit = "\<lambda>p. tp_sn p = sn \<and> la_so_overlap a b (tp_so p) (tp_so p + tp_data_size p - 1)"
  define e1 where "e1 = (fold consider_retransmission (filter ?hit (la_wait_list e)) e)\<lparr>la_wait_list := filter (Not \<circ> ?hit) (la_wait_list e)\<rparr>"
  have "la_flows e e1" unfolding e1_def
    by (rule wait_to_retx_flow) (auto simp: pdu_bytes_filter)
  moreover have "process_received_nack e sn a b =
      (fold consider_retransmission (filter ?hit (la_ack_list e1)) e1)\<lparr>la_ack_list := filter (Not \<circ> ?hit) (la_ack_list e1)\<rparr>"
    using True by (simp only: process_received_nack_def Let_def e1_def not_True_eq_False if_False simp_thms)
  then have "la_flows e1 (process_received_nack e sn a b)" using ack_to_retx_flow [of e1 ?hit] by simp
  ultimately show ?thesis using flows_trans by blast
next
  case False
  then show ?thesis by (simp add: process_received_nack_def)
qed

lemma nack_one_flow: "la_flows e (la_nack_one e sn a b)"
proof -
  have "la_snd (la_nack_one e sn a b) = la_snd (process_received_nack e sn a b)" by (simp add: la_nack_one_def Let_def snds)
  from flows_trans [OF received_nack_flow flows_snd [OF this]] show ?thesis .
qed

section \<open>Credits\<close>

lemma ack_bytes_credit: "la_ack_bytes l a n = Inr l' \<Longrightarrow> credited_bytes l' = credited_bytes l + n"
proof (induction l arbitrary: a n l')
  case Nil
  then show ?case by (simp add: la_ack_bytes.simps split: if_splits)
next
  case (Cons x l)
  show ?case
  proof (cases "n = 0")
    case True
    with Cons.prems show ?thesis by (simp add: la_ack_bytes.simps)
  next
    case False
    let ?k = "if ls_size x - a > n then n else ls_size x - a"
    obtain l1 where l1: "la_ack_bytes l 0 (n - ?k) = Inr l1" "l' = x\<lparr>ls_acked_bytes := ls_acked_bytes x + ?k\<rparr> # l1"
      using Cons.prems False by (auto simp: la_ack_bytes.simps [of "x # l"] Let_def bindR_eq_Inr)
    from Cons.IH [OF l1(1)] l1(2) show ?thesis by simp
  qed
qed

lemma chain_split: "la_chain l (Some a) = Inr c \<Longrightarrow> takeWhile (\<lambda>s. Some (ls_addr s) \<noteq> Some a) l @ c = l"
  by (auto simp: la_chain_def Let_def split: if_splits)

lemma ack_sdu_bytes_credit:
  assumes "ack_sdu_bytes l start a n = Inr l'"
  shows "credited_bytes l' = credited_bytes l + n"
proof (cases "n = 0")
  case True
  with assms show ?thesis by (simp add: ack_sdu_bytes_def)
next
  case False
  then obtain c c' where c: "la_chain l start = Inr c" "la_ack_bytes c a n = Inr c'"
    "l' = takeWhile (\<lambda>s. Some (ls_addr s) \<noteq> start) l @ c'" using assms by (auto simp: ack_sdu_bytes_def bindR_eq_Inr)
  obtain k where k: "start = Some k" using c(1) by (cases start) (auto simp: la_chain_def)
  have "credited_bytes (takeWhile (\<lambda>s. Some (ls_addr s) \<noteq> start) l) + credited_bytes c = credited_bytes l"
    unfolding bytes_simps(6) [symmetric] k chain_split [OF c(1) [unfolded k]] by (rule refl)
  with ack_bytes_credit [OF c(2)] c(3) show ?thesis by simp
qed

text \<open>The segments of the PDU at \<open>vt_a\<close> are the first ones, and without them \<open>vt_a\<close> moves on.\<close>

lemma modulus_next:
  assumes "la_sn_ok x" "la_sn_ok (la_vt_a e)" "x \<noteq> la_vt_a e" "la_vt_a e' = (la_vt_a e + 1) mod 1024"
  shows "la_modulus_tx e' x = la_modulus_tx e x - 1"
proof (cases "la_vt_a e = 1023")
  case True
  with assms show ?thesis by (auto simp: la_modulus_tx_def la_sn_ok_def Let_def)
next
  case False
  then have "la_vt_a e' = la_vt_a e + 1" using assms(2,4) by (simp add: la_sn_ok_def)
  with assms show ?thesis by (auto simp: la_modulus_tx_def la_sn_ok_def Let_def)
qed

lemma modulus_self: "la_sn_ok x \<Longrightarrow> la_sn_ok (la_vt_a e) \<Longrightarrow> la_modulus_tx e x \<le> 0 \<longleftrightarrow> x = la_vt_a e"
  by (auto simp: la_modulus_tx_def la_sn_ok_def Let_def)

lemma head_pdu_first:
  assumes "sorted_wrt (\<lambda>p q. la_modulus_tx e (tp_sn p) \<le> la_modulus_tx e (tp_sn q)) l" "la_sn_ok (la_vt_a e)"
    "\<forall>p \<in> set l. la_sn_ok (tp_sn p)"
  shows "filter (\<lambda>p. tp_sn p = la_vt_a e) l = takeWhile (\<lambda>p. tp_sn p = la_vt_a e) l"
  using assms
proof (induction l)
  case (Cons p l)
  show ?case
  proof (cases "tp_sn p = la_vt_a e")
    case True
    with Cons show ?thesis by simp
  next
    case False
    have "tp_sn q \<noteq> la_vt_a e" if "q \<in> set l" for q
      using Cons.prems that False modulus_self [of "tp_sn p" e] modulus_self [of "tp_sn q" e] by fastforce
    with False show ?thesis by (auto simp: filter_empty_conv)
  qed
qed simp

lemma finalize_step_flow:
  assumes "la_ack_list e = cur # l" "tp_sn cur = la_vt_a e"
    and tx: "ack_sdu_bytes (la_tx_list e) (tp_start_sdu cur) (tp_sdu_start_byte cur) (tx_pdu_in_ack_list_size (cur # l)) = Inr tx"
  shows "la_flows e (e\<lparr>la_vt_a := (la_vt_a e + 1) mod 1024, la_tx_list := tx, la_ack_list := tx_list_remove_sn (cur # l) (tp_sn cur)\<rparr>)"
  unfolding la_flows_def
proof
  assume o: "la_order e"
  let ?e' = "e\<lparr>la_vt_a := (la_vt_a e + 1) mod 1024, la_tx_list := tx, la_ack_list := tx_list_remove_sn (cur # l) (tp_sn cur)\<rparr>"
  let ?a = "la_ack_list e" and ?v = "la_vt_a e"
  let ?rest = "filter (\<lambda>p. tp_sn p \<noteq> ?v) ?a"
  have srt: "sorted_wrt (\<lambda>p q. la_modulus_tx e (tp_sn p) \<le> la_modulus_tx e (tp_sn q)) ?a" and v: "la_sn_ok ?v"
    and sns: "\<forall>p \<in> set ?a. la_sn_ok (tp_sn p)" using o by (auto simp: la_order_def)
  have size: "tx_pdu_in_ack_list_size (cur # l) = pdu_bytes (filter (\<lambda>p. tp_sn p = ?v) ?a)"
    unfolding head_pdu_first [OF srt v sns] by (simp add: tx_pdu_in_ack_list_size_def pdu_bytes_def assms(1,2))
  have rest: "la_ack_list ?e' = ?rest" by (simp add: tx_list_remove_sn_def assms(1,2))
  have bytes: "pdu_bytes ?rest + tx_pdu_in_ack_list_size (cur # l) = pdu_bytes ?a"
    using pdu_bytes_filter [of "\<lambda>p. tp_sn p = ?v" ?a] unfolding size by (simp add: comp_def)
  have d: "la_modulus_tx ?e' (tp_sn p) = la_modulus_tx e (tp_sn p) - 1" if "p \<in> set ?rest" for p
    by (rule modulus_next) (use that sns v in auto)
  have "sorted_wrt (\<lambda>p q. la_modulus_tx e (tp_sn p) \<le> la_modulus_tx e (tp_sn q)) ?rest"
    using srt by (rule sorted_wrt_filter)
  then have "sorted_wrt (\<lambda>p q. la_modulus_tx ?e' (tp_sn p) \<le> la_modulus_tx ?e' (tp_sn q)) ?rest"
    by (rule sorted_wrt_mono_rel [rotated]) (simp only: d diff_le_mono2 diff_right_mono)
  moreover have "la_sn_ok (la_vt_a ?e')" by (simp add: la_sn_ok_def)
  ultimately have "la_order ?e'"
    using o unfolding la_order_def rest by auto
  moreover have "la_credit ?e' = la_credit e"
    using ack_sdu_bytes_credit [OF tx] bytes unfolding la_credit_def rest by simp
  ultimately show "la_order ?e' \<and> la_credit ?e' = la_credit e" by blast
qed

lemma finalize_loop_eqs:
  "la_ack_list e = [] \<Longrightarrow> la_finalize_loop e = Inr e"
  "la_ack_list e = cur # l \<Longrightarrow> \<not> (tp_sn cur = la_vt_a e \<and> tx_pdu_in_ack_list_full (cur # l)) \<Longrightarrow> la_finalize_loop e = Inr e"
  "la_ack_list e = cur # l \<Longrightarrow> tp_sn cur = la_vt_a e \<and> tx_pdu_in_ack_list_full (cur # l) \<Longrightarrow>
   la_finalize_loop e =
     bindR (ack_sdu_bytes (la_tx_list e) (tp_start_sdu cur) (tp_sdu_start_byte cur) (tx_pdu_in_ack_list_size (cur # l))) (\<lambda>tx.
       la_finalize_loop (e\<lparr>la_vt_a := (la_vt_a e + 1) mod 1024, la_tx_list := tx,
                           la_ack_list := tx_list_remove_sn (cur # l) (tp_sn cur)\<rparr>))"
  by (subst la_finalize_loop.simps, simp only: list.case if_False if_True simp_thms)+

lemma finalize_loop_flow: "holds (la_flows e) (la_finalize_loop e)"
proof (induction e rule: la_finalize_loop.induct)
  case (1 e)
  show ?case
  proof (cases "la_ack_list e")
    case Nil
    then show ?thesis by (simp add: finalize_loop_eqs)
  next
    case (Cons cur l)
    show ?thesis
    proof (cases "tp_sn cur = la_vt_a e \<and> tx_pdu_in_ack_list_full (cur # l)")
      case True
      show ?thesis
        unfolding finalize_loop_eqs(3) [OF Cons True]
      proof (rule holds_bind)
        fix tx
        assume tx: "ack_sdu_bytes (la_tx_list e) (tp_start_sdu cur) (tp_sdu_start_byte cur) (tx_pdu_in_ack_list_size (cur # l)) = Inr tx"
        have step: "la_flows e (e\<lparr>la_vt_a := (la_vt_a e + 1) mod 1024, la_tx_list := tx,
            la_ack_list := tx_list_remove_sn (cur # l) (tp_sn cur)\<rparr>)"
          by (rule finalize_step_flow [OF Cons _ tx]) (use True in blast)
        show "holds (la_flows e) (la_finalize_loop (e\<lparr>la_vt_a := (la_vt_a e + 1) mod 1024, la_tx_list := tx,
            la_ack_list := tx_list_remove_sn (cur # l) (tp_sn cur)\<rparr>))"
          by (rule holds_mono [OF "1.IH" [OF Cons True]]) (rule flows_trans [OF step])
      qed
    next
      case False
      then show ?thesis by (simp add: finalize_loop_eqs(2) [OF Cons])
    qed
  qed
qed

lemma cleanup_flow: "la_flows e (cleanup_sdu_list e)"
proof -
  let ?P = "\<lambda>s. ls_acked_bytes s = ls_size s" and ?l = "la_tx_list e"
  have "credited_bytes l = sum_list (map ls_size (filter ?P l)) + credited_bytes (filter (\<lambda>s. \<not> ?P s) l)" for l
    by (induction l) auto
  from this [of ?l] have "la_credit (cleanup_sdu_list e) = la_credit e"
    by (simp add: cleanup_sdu_list_def Let_def la_credit_def)
  moreover have "la_modulus_tx (cleanup_sdu_list e) = la_modulus_tx e"
    by (simp add: cleanup_sdu_list_def fun_eq_iff la_modulus_tx_def Let_def)
  then have "la_order (cleanup_sdu_list e) = la_order e"
    by (simp add: la_order_def) (simp add: cleanup_sdu_list_def Let_def)
  ultimately show ?thesis by (simp add: la_flows_def)
qed

lemma finalize_flow: "holds (la_flows e) (finalize_ack_nack_processing e)"
proof -
  have "holds (la_flows e) (bindR (la_finalize_loop e) (\<lambda>e1. Inr (cleanup_sdu_list e1)))"
  proof (rule holds_bind)
    fix e1
    assume "la_finalize_loop e = Inr e1"
    then have "la_flows e e1" using finalize_loop_flow [of e] by simp
    then show "holds (la_flows e) (Inr (cleanup_sdu_list e1))" using cleanup_flow flows_trans by simp
  qed
  then show ?thesis by (simp add: finalize_ack_nack_processing_def)
qed

lemma apply_nacks_flow: "holds (la_flows e) (la_apply_nacks n e1 d e)"
proof (induction n arbitrary: e1 d e)
  case 0
  then show ?case using finalize_flow by (simp add: la_apply_nacks.simps [of 0])
next
  case (Suc n)
  have IH: "holds (la_flows e) (la_apply_nacks n k d' (la_nack_one e sn a b))" for e k d' sn a b
    by (rule holds_mono [OF Suc.IH]) (rule flows_trans [OF nack_one_flow])
  show ?case
    unfolding la_apply_nacks.simps [of "Suc n"] using finalize_flow IH
    by (auto intro!: holds_get_or split: prod.splits)
qed

lemma recv_control_flow: "holds (la_flows e) (la_recv_control e b d)"
proof -
  have "holds (la_flows e) (la_apply_nacks n k d' (process_received_ack a sn))" if "la_snd a = la_snd e" for n k d' a sn
    by (rule holds_mono [OF apply_nacks_flow]) (rule flows_trans [OF flows_trans [OF flows_snd [OF that] received_ack_flow]])
  then show ?thesis unfolding la_recv_control_def
    by (auto simp: Let_def snds intro!: holds_get_or holds_bind)
qed

lemma recv_pdu_flow: "holds (la_flows e) (rlc_entity_am_recv_pdu e b)"
proof -
  have "holds (la_flows e) (la_recv_data e b d)" for d by (rule holds_mono [OF recv_data_snd]) (rule flows_snd)
  then show ?thesis unfolding rlc_entity_am_recv_pdu_def by (auto intro!: holds_get_or recv_control_flow)
qed

section \<open>Transmission and timers\<close>

lemma poll_timer_flow: "holds (la_flows e) (la_check_t_poll_retransmit e)"
proof (cases "la_t_poll_retransmit_start e = 0 \<or> la_t_current e \<le> la_t_poll_retransmit_start e + word_of_int (la_t_poll_retransmit e)")
  case True
  then show ?thesis by (simp add: la_check_t_poll_retransmit_def)
next
  case False
  define e1 where "e1 = e\<lparr>la_t_poll_retransmit_start := 0, la_force_poll := True\<rparr>"
  have f1: "la_flows e e1" by (rule flows_snd) (simp add: e1_def snds)
  let ?w = "la_wait_list e1" and ?last = "(la_vt_s e1 + 1023) mod 1024"
  define before where "before = (if dropWhile (\<lambda>p. tp_sn p \<noteq> ?last) ?w = [] then [] else takeWhile (\<lambda>p. tp_sn p \<noteq> ?last) ?w)"
  define l where "l = (if dropWhile (\<lambda>p. tp_sn p \<noteq> ?last) ?w = [] then ?w else dropWhile (\<lambda>p. tp_sn p \<noteq> ?last) ?w)"
  have bl: "before @ l = ?w" by (simp add: before_def l_def)
  have run: "la_check_t_poll_retransmit e = (if \<not> la_check_poll_after_pdu_assembly e1 then Inr e1
      else case l of [] \<Rightarrow> Inl NullDeref
                | cur # _ \<Rightarrow> Inr ((fold consider_retransmission (takeWhile (\<lambda>p. tp_sn p = tp_sn cur) l) e1)
                          \<lparr>la_wait_list := before @ dropWhile (\<lambda>p. tp_sn p = tp_sn cur) l\<rparr>))"
    using False unfolding la_check_t_poll_retransmit_def Let_def e1_def [symmetric] before_def [symmetric] l_def [symmetric]
    by (simp only: if_False)
  have "la_flows e1 ((fold consider_retransmission (takeWhile P l) e1)\<lparr>la_wait_list := before @ dropWhile P l\<rparr>)" for P
  proof (rule wait_to_retx_flow)
    have "set (takeWhile P l) \<union> set (dropWhile P l) = set l" by (simp flip: set_append)
    then show "set (takeWhile P l) \<union> set (before @ dropWhile P l) \<subseteq> set (la_wait_list e1)"
      unfolding bl [symmetric] by auto
    have "pdu_bytes (takeWhile P l) + pdu_bytes (dropWhile P l) = pdu_bytes l" by (simp flip: bytes_simps(3))
    then show "pdu_bytes (takeWhile P l) + pdu_bytes (before @ dropWhile P l) = pdu_bytes (la_wait_list e1)"
      unfolding bl [symmetric] by simp
  qed
  then have "la_flows e ((fold consider_retransmission (takeWhile P l) e1)\<lparr>la_wait_list := before @ dropWhile P l\<rparr>)" for P
    by (rule flows_trans [OF f1])
  then have "holds (la_flows e) (Inr ((fold consider_retransmission (takeWhile P l) e1)\<lparr>la_wait_list := before @ dropWhile P l\<rparr>))" for P
    unfolding holds_simps .
  with f1 show ?thesis unfolding run by (cases l; cases "la_check_poll_after_pdu_assembly e1")
    (simp_all only: list.case if_True if_False simp_thms holds_simps not_True_eq_False not_False_eq_True)
qed

lemma set_time_flow: "holds (la_flows e) (rlc_entity_am_set_time e now)"
proof -
  have "holds (la_flows e) (la_check_t_reordering e1)" if "la_check_t_poll_retransmit (e\<lparr>la_t_current := now\<rparr>) = Inr e1" for e1
  proof (rule holds_mono [OF reordering_timer_snd])
    fix e2
    assume s: "la_snd e2 = la_snd e1"
    have "la_flows (e\<lparr>la_t_current := now\<rparr>) e1" using poll_timer_flow [of "e\<lparr>la_t_current := now\<rparr>"] that by simp
    with flows_snd [OF s] flows_snd [of "e\<lparr>la_t_current := now\<rparr>" e] show "la_flows e e2"
      by (auto simp: snds intro: flows_trans)
  qed
  then show ?thesis unfolding rlc_entity_am_set_time_def by (intro holds_bind)
qed

text \<open>A new PDU has the bytes that are reserved for it; a segment that is cut has its bytes in two.\<close>

text \<open>What an operation does that may put bytes into PDUs: those that are newly reserved.\<close>

definition la_sends :: "rlc_entity_am \<Rightarrow> rlc_entity_am \<Rightarrow> bool" where
  "la_sends e e' \<longleftrightarrow> (la_order e \<longrightarrow> la_order e' \<and> la_credit e' - la_credit e = la_reserved e' - la_reserved e)"

lemma sends_refl [simp]: "la_sends e e"
  by (simp add: la_sends_def)

lemma sends_trans: "la_sends a b \<Longrightarrow> la_sends b c \<Longrightarrow> la_sends a c"
  unfolding la_sends_def by (intro impI conjI) auto

lemma sends_snd: "la_snd e' = la_snd e \<Longrightarrow> la_sends e e'"
  by (drule snd_order) (simp add: la_sends_def)

abbreviation sends3 :: "rlc_entity_am \<Rightarrow> ('a \<times> 'b \<times> rlc_entity_am) result \<Rightarrow> bool" where
  "sends3 e \<equiv> holds (\<lambda>(n, b, e'). la_sends e e')"

lemma serialize_sends: "la_sends e e1 \<Longrightarrow> sends3 e (la_serialize_pdu e1 b m pdu p)"
  by (rule holds_mono [OF serialize_snd]) (auto intro: sends_trans sends_snd)

lemma reserve_bytes:
  "la_reserve n c d l = Inr (k, l') \<Longrightarrow>
   sum_list (map ls_next_byte l') = sum_list (map ls_next_byte l) + (k - c) \<and> credited_bytes l' = credited_bytes l"
proof (induction n arbitrary: c l k l')
  case (Suc n)
  obtain s t where l: "l = s # t" using Suc.prems by (cases l) simp_all
  let ?left = "ls_size s - ls_next_byte s"
  let ?k = "if c + ?left > d then d - c else ?left"
  obtain t' where t': "la_reserve n (c + ?k) d t = Inr (k, t')" "l' = s\<lparr>ls_next_byte := ls_next_byte s + ?k\<rparr> # t'"
    using Suc.prems unfolding l by (auto simp: Let_def bindR_eq_Inr)
  from Suc.IH [OF t'(1)] show ?case unfolding t'(2) l by simp
qed simp

lemma generate_tx_sends: "sends3 e (la_generate_tx_pdu e b)"
proof -
  let ?P = "\<lambda>s. ls_next_byte s = ls_size s" and ?l = "la_tx_list e"
  let ?t = "compute_new_pdu_size e (int (length b))" and ?c = "dropWhile ?P ?l"
  have "sends3 e (bindR (la_reserve (az_sdu_count ?t) 0 (az_data_size ?t) ?c) (\<lambda>(cursize, c').
      let pdu = rlc_tx_new_pdu\<lparr>tp_sn := la_vt_s e, tp_start_sdu := Some (ls_addr (hd ?c)),
                  tp_sdu_start_byte := ls_next_byte (hd ?c), tp_is_last := True, tp_data_size := cursize\<rparr>;
          e1 = e\<lparr>la_vt_s := (la_vt_s e + 1) mod 1024, la_tx_list := takeWhile ?P ?l @ c',
                 la_wait_list := rlc_tx_pdu_list_append (la_wait_list e) pdu,
                 la_pdu_without_poll := la_pdu_without_poll e + 1,
                 la_byte_without_poll := la_byte_without_poll e + az_data_size ?t\<rparr>
      in la_serialize_pdu (e1\<lparr>la_force_poll := False\<rparr>) b (int (length b)) pdu (la_polls e1 \<or> la_force_poll e1)))"
  proof (rule holds_bind, unfold Let_def, clarify)
    fix cursize c'
    assume r: "la_reserve (az_sdu_count ?t) 0 (az_data_size ?t) ?c = Inr (cursize, c')"
    define pdu where "pdu = rlc_tx_new_pdu\<lparr>tp_sn := la_vt_s e, tp_start_sdu := Some (ls_addr (hd ?c)),
                  tp_sdu_start_byte := ls_next_byte (hd ?c), tp_is_last := True, tp_data_size := cursize\<rparr>"
    define e1 where "e1 = e\<lparr>la_vt_s := (la_vt_s e + 1) mod 1024, la_tx_list := takeWhile ?P ?l @ c',
                 la_wait_list := rlc_tx_pdu_list_append (la_wait_list e) pdu,
                 la_pdu_without_poll := la_pdu_without_poll e + 1,
                 la_byte_without_poll := la_byte_without_poll e + az_data_size ?t\<rparr>"
    have p: "tp_sn pdu = la_vt_s e" "tp_data_size pdu = cursize" by (simp_all add: pdu_def)
    have split: "sum_list (map ls_next_byte (takeWhile ?P ?l)) + sum_list (map ls_next_byte ?c) = sum_list (map ls_next_byte ?l)"
        "credited_bytes (takeWhile ?P ?l) + credited_bytes ?c = credited_bytes ?l"
      by (simp_all flip: sum_list_append map_append bytes_simps(6))
    have m: "la_modulus_tx e1 = la_modulus_tx e" by (simp add: e1_def fun_eq_iff la_modulus_tx_def Let_def)
    have f: "la_vt_a e1 = la_vt_a e" "la_vt_s e1 = (la_vt_s e + 1) mod 1024" "la_tx_list e1 = takeWhile ?P ?l @ c'"
      "la_wait_list e1 = la_wait_list e @ [pdu]" "la_retransmit_list e1 = la_retransmit_list e" "la_ack_list e1 = la_ack_list e"
      "la_txsdu_bytes e1 = la_txsdu_bytes e" by (simp_all add: e1_def rlc_tx_pdu_list_append_def)
    have "la_order e \<Longrightarrow> la_order e1" by (auto simp: la_order_def m f p la_sn_ok_def)
    moreover have "la_credit e1 - la_credit e = la_reserved e1 - la_reserved e"
      using reserve_bytes [OF r] split by (simp add: la_credit_def la_reserved_def f p)
    ultimately have "la_sends e e1" by (simp add: la_sends_def)
    then have "la_sends e (e1\<lparr>la_force_poll := False\<rparr>)" by (rule sends_trans) (rule sends_snd, simp add: snds)
    from serialize_sends [OF this] show "sends3 e (la_serialize_pdu (e1\<lparr>la_force_poll := False\<rparr>) b (int (length b)) pdu (la_polls e1 \<or> la_force_poll e1))" .
  qed
  then show ?thesis unfolding la_generate_tx_pdu_def by (auto simp: Let_def)
qed

lemma retx_head_bytes:
  assumes "la_retx_head e n m = Inr (pdu, l)"
  shows "tp_data_size pdu + pdu_bytes l = pdu_bytes (la_retransmit_list e) \<and>
    (\<forall>p \<in> set (pdu # l). \<exists>q \<in> set (la_retransmit_list e). tp_sn p = tp_sn q)"
  using assms by (auto simp: la_retx_head_def la_resegment_def Let_def bindR_eq_Inr split: list.splits if_splits)

lemma generate_retx_sends: "sends3 e (la_generate_retx_pdu e b)"
proof -
  have "sends3 e (bindR (la_retx_head e n m) (\<lambda>(pdu, l).
         let e1 = e\<lparr>la_retransmit_list := l, la_wait_list := rlc_tx_pdu_list_add (la_sn_compare_tx e) (la_wait_list e) pdu\<rparr>
         in la_serialize_pdu (e1\<lparr>la_force_poll := False\<rparr>) b n pdu (la_check_poll_after_pdu_assembly e1 \<or> la_force_poll e1)))" for n m
  proof (rule holds_bind, unfold Let_def, clarify)
    fix pdu l
    assume r: "la_retx_head e n m = Inr (pdu, l)"
    define e1 where "e1 = e\<lparr>la_retransmit_list := l, la_wait_list := rlc_tx_pdu_list_add (la_sn_compare_tx e) (la_wait_list e) pdu\<rparr>"
    note h = retx_head_bytes [OF r]
    have f: "la_vt_a e1 = la_vt_a e" "la_vt_s e1 = la_vt_s e" "la_tx_list e1 = la_tx_list e" "la_retransmit_list e1 = l"
      "la_wait_list e1 = rlc_tx_pdu_list_add (la_sn_compare_tx e) (la_wait_list e) pdu" "la_ack_list e1 = la_ack_list e"
      "la_txsdu_bytes e1 = la_txsdu_bytes e" "la_modulus_tx e1 = la_modulus_tx e" by (simp_all add: e1_def)
    have "la_order e1" if "la_order e"
    proof -
      have "la_sn_ok (tp_sn p)" if "p \<in> set (pdu # l)" for p using h that \<open>la_order e\<close> by (fastforce simp: la_order_def)
      with that show ?thesis by (auto simp: la_order_def f)
    qed
    moreover have "la_credit e1 = la_credit e" "la_reserved e1 = la_reserved e"
      using h by (simp_all add: la_credit_def la_reserved_def f pdu_bytes_insert)
    ultimately have "la_sends e e1" by (simp add: la_sends_def)
    then have "la_sends e (e1\<lparr>la_force_poll := False\<rparr>)" by (rule sends_trans) (rule sends_snd, simp add: snds)
    from serialize_sends [OF this]
    show "sends3 e (la_serialize_pdu (e1\<lparr>la_force_poll := False\<rparr>) b n pdu (la_check_poll_after_pdu_assembly e1 \<or> la_force_poll e1))" .
  qed
  then show ?thesis unfolding la_generate_retx_pdu_def by (auto intro!: holds_bind)
qed

lemma generate_pdu_sends: "sends3 e (rlc_entity_am_generate_pdu e b)"
proof -
  have s: "la_sends e e1" if "la_generate_status e b = Inr (n, b1, e1)" for n b1 e1
    using that generate_status_snd [of e b] by (auto intro: sends_snd)
  have r': "la_sends e1 e2" if "la_generate_retx_pdu e1 b1 = Inr (n, b2, e2)" for e1 b1 n b2 e2
    using that generate_retx_sends [of e1 b1] by auto
  have t: "sends3 e (la_generate_tx_pdu e2 b2)" if "la_sends e e2" for e2 b2
    by (rule holds_mono [OF generate_tx_sends]) (use that in \<open>auto intro: sends_trans\<close>)
  show ?thesis unfolding rlc_entity_am_generate_pdu_def
    by (intro holds_bind, auto dest!: s r' intro!: holds_bind t split: if_splits; erule (1) sends_trans)
qed

end
