(* ===== verification/Lte_Am_Props.thy ===== *)
theory Lte_Am_Props
  imports Lte_Am_Flow
begin

text \<open>
  The acknowledged mode of LTE as the other leg of the split: what it reports is exact, where the report misleads,
  and two ways for a peer to end the process.
\<close>

section \<open>Books\<close>

text \<open>What the accounts depend on: no operation but a new SDU and an acknowledgement changes it.\<close>

definition skel :: "rlc_sdu list \<Rightarrow> (nat \<times> int) list" where
  "skel l = map (\<lambda>s. (ls_addr s, ls_size s)) l"

lemma skel_simps [simp]: "skel [] = []" "skel (s # l) = (ls_addr s, ls_size s) # skel l" "skel (l @ l') = skel l @ skel l'"
  by (simp_all add: skel_def)

lemma skel_eqD: "skel l = skel l' \<Longrightarrow> map ls_addr l = map ls_addr l' \<and> map ls_size l = map ls_size l'"
proof -
  assume eq: "skel l = skel l'"
  have m: "map fst (skel l) = map ls_addr l" "map snd (skel l) = map ls_size l" for l by (simp_all add: skel_def comp_def)
  show ?thesis using arg_cong [OF eq, of "map fst"] arg_cong [OF eq, of "map snd"] unfolding m by simp
qed

definition la_books :: "rlc_entity_am \<Rightarrow> (int \<times> int \<times> int) \<times> (nat \<times> nat option) \<times> (nat \<times> int) list" where
  "la_books e = ((la_tx_size e, la_txsdu_bytes e, la_last_total_tx_bytes e), (la_next_addr e, la_tx_end e), skel (la_tx_list e))"

named_theorems books

lemma call_books [books]: "la_books (la_call ev e) = la_books e"
  by (simp add: la_books_def la_call_def)

lemma update_books [books]:
  "la_books (e\<lparr>la_reassemble := r\<rparr>) = la_books e" "la_books (e\<lparr>la_rx_size := n\<rparr>) = la_books e"
  "la_books (e\<lparr>la_rx_list := rx\<rparr>) = la_books e" "la_books (e\<lparr>la_vr_r := n\<rparr>) = la_books e" "la_books (e\<lparr>la_vr_h := n\<rparr>) = la_books e"
  "la_books (e\<lparr>la_vr_ms := n\<rparr>) = la_books e" "la_books (e\<lparr>la_vr_x := n\<rparr>) = la_books e"
  "la_books (e\<lparr>la_t_reordering_start := t\<rparr>) = la_books e" "la_books (e\<lparr>la_status_triggered := b\<rparr>) = la_books e"
  "la_books (e\<lparr>la_t_status_prohibit_start := t\<rparr>) = la_books e" "la_books (e\<lparr>la_t_poll_retransmit_start := t\<rparr>) = la_books e"
  "la_books (e\<lparr>la_ack_list := l\<rparr>) = la_books e" "la_books (e\<lparr>la_wait_list := l\<rparr>) = la_books e"
  "la_books (e\<lparr>la_retransmit_list := l\<rparr>) = la_books e" "la_books (e\<lparr>la_vt_a := n\<rparr>) = la_books e" "la_books (e\<lparr>la_vt_s := n\<rparr>) = la_books e"
  "la_books (e\<lparr>la_force_poll := b\<rparr>) = la_books e" "la_books (e\<lparr>la_t_current := t\<rparr>) = la_books e"
  "la_books (e\<lparr>la_pdu_without_poll := n\<rparr>) = la_books e" "la_books (e\<lparr>la_byte_without_poll := n\<rparr>) = la_books e"
  "la_books (e\<lparr>la_poll_sn := n\<rparr>) = la_books e"
  by (simp_all add: la_books_def)

lemma tx_list_books: "skel l = skel (la_tx_list e) \<Longrightarrow> la_books (e\<lparr>la_tx_list := l\<rparr>) = la_books e"
  by (simp add: la_books_def)

text \<open>Reception and its timers leave the sending side alone, and so the books.\<close>

lemma snd_books: "la_snd e' = la_snd e \<Longrightarrow> la_books e' = la_books e"
  by (simp add: la_snd_def la_books_def)

abbreviation keeps :: "rlc_entity_am \<Rightarrow> rlc_entity_am result \<Rightarrow> bool" where
  "keeps e \<equiv> holds (\<lambda>e'. la_books e' = la_books e)"

abbreviation keeps3 :: "rlc_entity_am \<Rightarrow> ('a \<times> 'b \<times> rlc_entity_am) result \<Rightarrow> bool" where
  "keeps3 e \<equiv> holds (\<lambda>(n, b, e'). la_books e' = la_books e)"

lemma recv_data_books: "keeps e (la_recv_data e b d)"
  by (rule holds_mono [OF recv_data_snd]) (rule snd_books)

section \<open>STATUS PDUs\<close>

lemma fold_books:
  assumes "\<And>x e. la_books (f x e) = la_books e"
  shows "la_books (fold f xs e) = la_books e"
  by (induction xs arbitrary: e) (simp_all add: assms)

lemma consider_books [books]: "la_books (consider_retransmission p e) = la_books e"
  by (simp add: consider_retransmission_def Let_def books)

lemma ack_add_books [books]: "la_books (la_ack_list_add p e) = la_books e"
  by (simp add: la_ack_list_add_def books)

lemma received_ack_books [books]: "la_books (process_received_ack e sn) = la_books e"
  by (simp add: process_received_ack_def Let_def books fold_books)

lemma received_nack_books [books]: "la_books (process_received_nack e sn a b) = la_books e"
  by (simp add: process_received_nack_def Let_def books fold_books)

lemma nack_one_books [books]: "la_books (la_nack_one e sn a b) = la_books e"
  by (simp add: la_nack_one_def Let_def books)

lemma ack_bytes_sizes: "la_ack_bytes l a n = Inr l' \<Longrightarrow> skel l' = skel l"
proof (induction l arbitrary: a n l')
  case Nil
  then show ?case by (simp add: la_ack_bytes.simps split: if_splits)
next
  case (Cons x l)
  then show ?case by (auto simp: la_ack_bytes.simps [of "x # l"] Let_def bindR_eq_Inr split: if_splits)
qed

lemma ack_sdu_bytes_sizes:
  assumes "ack_sdu_bytes l start a n = Inr l'"
  shows "skel l' = skel l"
proof (cases "n = 0")
  case True
  with assms show ?thesis by (simp add: ack_sdu_bytes_def)
next
  case False
  then obtain c c' where c: "la_chain l start = Inr c" "la_ack_bytes c a n = Inr c'"
    "l' = takeWhile (\<lambda>s. Some (ls_addr s) \<noteq> start) l @ c'" using assms by (auto simp: ack_sdu_bytes_def bindR_eq_Inr)
  obtain k where k: "start = Some k" using c(1) by (cases start) (auto simp: la_chain_def)
  have "skel l' = skel (takeWhile (\<lambda>s. Some (ls_addr s) \<noteq> start) l @ c)"
    using ack_bytes_sizes [OF c(2)] c(3) by simp
  also have "\<dots> = skel l" using chain_split [OF c(1) [unfolded k]] unfolding k by (rule arg_cong)
  finally show ?thesis .
qed

lemma finalize_loop_books: "keeps e (la_finalize_loop e)"
proof (induction e rule: la_finalize_loop.induct)
  case (1 e)
  show ?case
  proof (cases "la_ack_list e")
    case Nil
    then show ?thesis by (simp add: finalize_loop_eqs)
  next
    case (Cons cur l)
    show ?thesis
    proof (cases "tp_sn cur = la_vt_a e \<and> tx_pdu_in_ack_list_full (cur # l)")
      case True
      have "keeps e (la_finalize_loop (e\<lparr>la_vt_a := (la_vt_a e + 1) mod 1024, la_tx_list := tx,
            la_ack_list := tx_list_remove_sn (cur # l) (tp_sn cur)\<rparr>))"
        if "ack_sdu_bytes (la_tx_list e) (tp_start_sdu cur) (tp_sdu_start_byte cur) (tx_pdu_in_ack_list_size (cur # l)) = Inr tx" for tx
      proof -
        have "la_books (e\<lparr>la_vt_a := (la_vt_a e + 1) mod 1024, la_tx_list := tx,
            la_ack_list := tx_list_remove_sn (cur # l) (tp_sn cur)\<rparr>) = la_books e"
          using ack_sdu_bytes_sizes [OF that] by (simp add: books tx_list_books)
        then show ?thesis using "1.IH" [OF Cons True, of tx] by simp
      qed
      then show ?thesis unfolding finalize_loop_eqs(3) [OF Cons True] by (rule holds_bind)
    next
      case False
      then show ?thesis by (simp add: finalize_loop_eqs(2) [OF Cons])
    qed
  qed
qed

text \<open>
  The list of SDUs is linked as it should be: the tail pointer is right and the addresses are old ones. Nothing but
  that and the order of the segments is needed for the books to balance.
\<close>

definition la_linked :: "rlc_entity_am \<Rightarrow> bool" where
  "la_linked e \<longleftrightarrow> sdu_tail_ok (la_tx_list e) (la_tx_end e) \<and> (\<forall>a \<in> set (map ls_addr (la_tx_list e)). a < la_next_addr e)"

definition la_balanced :: "rlc_entity_am \<Rightarrow> bool" where
  "la_balanced e \<longleftrightarrow> la_linked e \<and> la_order e"

text \<open>The bytes of the SDUs in the transmit buffer.\<close>

definition la_waiting :: "rlc_entity_am \<Rightarrow> int" where
  "la_waiting e = sum_list (map ls_size (la_tx_list e))"

lemma tail_ok_addr:
  "sdu_tail_ok l t \<longleftrightarrow> distinct (map ls_addr l) \<and> t = (if map ls_addr l = [] then None else Some (last (map ls_addr l)))"
  by (simp add: sdu_tail_ok_def last_map)

lemma balanced_books: "la_books e' = la_books e \<Longrightarrow> la_linked e' = la_linked e \<and> la_waiting e' = la_waiting e"
proof -
  assume b: "la_books e' = la_books e"
  then have "skel (la_tx_list e') = skel (la_tx_list e)" by (simp add: la_books_def)
  from skel_eqD [OF this] have m: "map ls_addr (la_tx_list e') = map ls_addr (la_tx_list e)"
    "map ls_size (la_tx_list e') = map ls_size (la_tx_list e)" by simp_all
  have f: "la_tx_end e' = la_tx_end e" "la_next_addr e' = la_next_addr e"
    using b by (simp_all add: la_books_def)
  show ?thesis unfolding la_linked_def la_waiting_def tail_ok_addr m f by blast
qed

text \<open>
  What an acknowledgement may do: bytes go from the transmit buffer to the count for the split, and from its size.
\<close>

definition la_moves :: "rlc_entity_am \<Rightarrow> rlc_entity_am \<Rightarrow> bool" where
  "la_moves e e' \<longleftrightarrow> (la_linked e \<longrightarrow> la_linked e') \<and> la_waiting e' + la_txsdu_bytes e' = la_waiting e + la_txsdu_bytes e \<and>
     la_tx_size e' - la_waiting e' = la_tx_size e - la_waiting e \<and> la_last_total_tx_bytes e' = la_last_total_tx_bytes e"

lemma books_moves: "la_books e' = la_books e \<Longrightarrow> la_moves e e'"
proof -
  assume b: "la_books e' = la_books e"
  from balanced_books [OF b] b show ?thesis by (simp add: la_books_def la_moves_def)
qed

lemma moves_trans: "la_moves a b \<Longrightarrow> la_moves b c \<Longrightarrow> la_moves a c"
  by (simp add: la_moves_def)

lemma cleanup_moves: "la_moves e (cleanup_sdu_list e)"
proof -
  let ?acked = "\<lambda>s. ls_acked_bytes s = ls_size s" and ?l = "la_tx_list e"
  have sum: "sum_list (map ls_size l) = sum_list (map ls_size (filter P l)) + sum_list (map ls_size (filter (\<lambda>s. \<not> P s) l))" for P and l :: "rlc_sdu list"
    by (induction l) auto
  have "sdu_tail_ok (filter (\<lambda>s. \<not> ?acked s) ?l)
      (if ?l = [] then t else if filter (\<lambda>s. \<not> ?acked s) ?l = [] then None else Some (ls_addr (last (filter (\<lambda>s. \<not> ?acked s) ?l))))"
    if "sdu_tail_ok ?l t" for t
    using that by (auto simp: sdu_tail_ok_def distinct_map_filter)
  then show ?thesis using sum [of ?l ?acked]
    by (auto simp: cleanup_sdu_list_def Let_def la_moves_def la_linked_def la_waiting_def)
qed

lemma finalize_moves: "holds (la_moves e) (finalize_ack_nack_processing e)"
proof -
  have "holds (la_moves e) (bindR (la_finalize_loop e) (\<lambda>e1. Inr (cleanup_sdu_list e1)))"
  proof (rule holds_bind)
    fix e1
    assume "la_finalize_loop e = Inr e1"
    then have "la_moves e e1" using finalize_loop_books [of e] by (simp add: books_moves)
    then show "holds (la_moves e) (Inr (cleanup_sdu_list e1))" using cleanup_moves moves_trans by simp
  qed
  then show ?thesis by (simp add: finalize_ack_nack_processing_def la_moves_def)
qed

lemma moves_self [simp]: "la_moves e e"
  by (simp add: la_moves_def)

lemma apply_nacks_moves: "holds (la_moves e) (la_apply_nacks n e1 d e)"
proof (induction n arbitrary: e1 d e)
  case 0
  then show ?case using finalize_moves by (simp add: la_apply_nacks.simps [of 0])
next
  case (Suc n)
  have IH: "holds (la_moves e) (la_apply_nacks n k d' (la_nack_one e sn a b))" for e k d' sn a b
    by (rule holds_mono [OF Suc.IH]) (use moves_trans books_moves nack_one_books in blast)
  show ?case
    unfolding la_apply_nacks.simps [of "Suc n"] using finalize_moves IH
    by (auto intro!: holds_get_or split: prod.splits)
qed

lemma recv_control_moves: "holds (la_moves e) (la_recv_control e b d)"
proof -
  have "holds (la_moves e) (la_apply_nacks n k d' (process_received_ack a sn))" if "la_books a = la_books e" for n k d' a sn
    by (rule holds_mono [OF apply_nacks_moves]) (use that moves_trans books_moves received_ack_books in metis)
  then show ?thesis unfolding la_recv_control_def
    by (auto simp: Let_def books intro!: holds_get_or holds_bind)
qed

lemma recv_data_moves: "holds (la_moves e) (la_recv_data e b d)"
  by (rule holds_mono [OF recv_data_books]) (rule books_moves)

lemma recv_pdu_moves: "holds (la_moves e) (rlc_entity_am_recv_pdu e b)"
  unfolding rlc_entity_am_recv_pdu_def by (auto intro!: holds_get_or recv_control_moves recv_data_moves)

section \<open>Transmission and timers\<close>

lemma reserve_sizes: "la_reserve n c d l = Inr (k, l') \<Longrightarrow> skel l' = skel l"
proof (induction n arbitrary: c l l')
  case 0
  then show ?case by simp
next
  case (Suc n)
  then show ?case by (cases l) (auto simp: Let_def bindR_eq_Inr split: prod.splits)
qed

lemma serialize_books: "keeps3 e (la_serialize_pdu e b m pdu p)"
  by (rule holds_mono [OF serialize_snd]) (auto dest: snd_books)

lemma serialize_books': "la_books e = la_books e0 \<Longrightarrow> keeps3 e0 (la_serialize_pdu e b m pdu p)"
  using serialize_books [of e] by simp

lemma generate_tx_books: "keeps3 e (la_generate_tx_pdu e b)"
proof -
  have "la_books (e\<lparr>la_vt_s := x, la_tx_list := takeWhile P (la_tx_list e) @ c', la_wait_list := y, la_pdu_without_poll := z,
      la_byte_without_poll := w, la_force_poll := f\<rparr>) = la_books e"
    if "la_reserve n k d (dropWhile P (la_tx_list e)) = Inr (m, c')" for x c' y z w f n k d m P
  proof -
    have "skel (takeWhile P (la_tx_list e) @ c') = skel (takeWhile P (la_tx_list e)) @ skel (dropWhile P (la_tx_list e))"
      using reserve_sizes [OF that] by simp
    also have "\<dots> = skel (takeWhile P (la_tx_list e) @ dropWhile P (la_tx_list e))" by (simp only: skel_simps)
    also have "\<dots> = skel (la_tx_list e)" by (simp only: takeWhile_dropWhile_id)
    finally show ?thesis by (simp add: la_books_def)
  qed
  then show ?thesis unfolding la_generate_tx_pdu_def Let_def
    by (auto intro!: holds_bind serialize_books')
qed

lemma generate_retx_books: "keeps3 e (la_generate_retx_pdu e b)"
  unfolding la_generate_retx_pdu_def Let_def
  by (auto intro!: holds_bind serialize_books' simp: books)

lemma generate_status_books: "keeps3 e (la_generate_status e b)"
  by (rule holds_mono [OF generate_status_snd]) (auto dest: snd_books)

lemma generate_pdu_books: "keeps3 e (rlc_entity_am_generate_pdu e b)"
proof -
  have s: "la_books e1 = la_books e" if "la_generate_status e b = Inr (n, b1, e1)" for n b1 e1
    using that generate_status_books [of e b] by auto
  have r': "la_books e2 = la_books e1" if "la_generate_retx_pdu e1 b1 = Inr (n, b2, e2)" for e1 b1 n b2 e2
    using that generate_retx_books [of e1 b1] by auto
  have t: "keeps3 e (la_generate_tx_pdu e2 b2)" if "la_books e2 = la_books e" for e2 b2
    using generate_tx_books [of e2 b2] that by simp
  show ?thesis unfolding rlc_entity_am_generate_pdu_def
    by (intro holds_bind) (auto dest!: s r' intro!: holds_bind t split: if_splits)
qed

lemma poll_timer_books: "keeps e (la_check_t_poll_retransmit e)"
  unfolding la_check_t_poll_retransmit_def Let_def by (auto simp: books fold_books split: list.splits)

lemma reordering_timer_books: "keeps e (la_check_t_reordering e)"
  by (rule holds_mono [OF reordering_timer_snd]) (rule snd_books)

lemma set_time_books: "keeps e (rlc_entity_am_set_time e now)"
proof -
  have "keeps e (la_check_t_reordering e1)" if "la_check_t_poll_retransmit (e\<lparr>la_t_current := now\<rparr>) = Inr e1" for e1
    using reordering_timer_books [of e1] poll_timer_books [of "e\<lparr>la_t_current := now\<rparr>"] that by (simp add: books)
  then show ?thesis unfolding rlc_entity_am_set_time_def by (intro holds_bind)
qed


text \<open>A new SDU: nothing of it is reserved or credited.\<close>

lemma recv_sdu_accounts:
  assumes "la_balanced e" "rlc_entity_am_recv_sdu e b k = Inr e'"
  shows "la_balanced e' \<and> la_txsdu_bytes e' = la_txsdu_bytes e \<and> la_last_total_tx_bytes e' = la_last_total_tx_bytes e \<and>
    la_waiting e' = la_waiting e + (if la_tx_size e + int (length b) \<le> la_tx_maxsize e then int (length b) else 0) \<and>
    la_credit e' = la_credit e"
proof (cases "la_tx_size e + int (length b) \<le> la_tx_maxsize e")
  case False
  then show ?thesis using assms by (auto simp: rlc_entity_am_recv_sdu_def Let_def split: if_splits)
next
  case True
  let ?l = "la_tx_list e" and ?x = "rlc_new_sdu (la_next_addr e) b k"
  have ok: "sdu_tail_ok ?l (la_tx_end e)" using assms(1) by (simp add: la_balanced_def la_linked_def)
  have new: "ls_addr ?x \<notin> ls_addr ` set ?l" using assms(1) by (auto simp: la_balanced_def la_linked_def rlc_new_sdu_def)
  have e': "e' = e\<lparr>la_tx_size := la_tx_size e + int (length b), la_next_addr := la_next_addr e + 1, la_tx_list := ?l @ [?x],
      la_tx_end := Some (ls_addr ?x)\<rparr>"
    using True assms(2) lte_tx.append_end [OF ok new] by (auto simp: rlc_entity_am_recv_sdu_def Let_def split: if_splits)
  have "la_linked e'" unfolding e'
    using assms(1) lte_tx.append_keeps [OF ok new] by (auto simp: la_balanced_def la_linked_def rlc_new_sdu_def less_SucI)
  moreover have "la_modulus_tx e' = la_modulus_tx e" unfolding e' by (simp add: fun_eq_iff la_modulus_tx_def Let_def)
  then have "la_order e'" using assms(1) by (simp add: la_balanced_def la_order_def) (simp add: e')
  moreover have "la_waiting e' = la_waiting e + int (length b)" "la_credit e' = la_credit e"
    unfolding e' by (simp_all add: la_waiting_def la_credit_def rlc_new_sdu_def)
  ultimately show ?thesis using True by (simp add: la_balanced_def) (simp add: e')
qed

section \<open>Runs\<close>

text \<open>All the operations of the entity.\<close>

datatype la_op = LaSdu "byte list" int | LaGrant nat | LaInd u64 "byte list" | LaTime u64 | LaDiscard int | LaReestablish

text \<open>
  What a run did: the bytes taken from above, reported to the split, and dropped with SDUs; the bytes put into PDUs,
  and of these the ones that are neither in a segment nor credited any more because segments and SDUs were dropped.
\<close>

record la_tally =
  lt_taken :: int
  lt_reported :: int
  lt_dropped :: int
  lt_sent :: int
  lt_forgotten :: int

definition no_tally :: la_tally where
  "no_tally = \<lparr>lt_taken = 0, lt_reported = 0, lt_dropped = 0, lt_sent = 0, lt_forgotten = 0\<rparr>"

definition tally_add :: "la_tally \<Rightarrow> la_tally \<Rightarrow> la_tally" where
  "tally_add s t = \<lparr>lt_taken = lt_taken s + lt_taken t, lt_reported = lt_reported s + lt_reported t,
     lt_dropped = lt_dropped s + lt_dropped t, lt_sent = lt_sent s + lt_sent t, lt_forgotten = lt_forgotten s + lt_forgotten t\<rparr>"

text \<open>The SDU that a discard takes out: the first with its number, if nothing of it has been put into a PDU.\<close>

definition la_discarded :: "rlc_entity_am \<Rightarrow> int \<Rightarrow> rlc_sdu list" where
  "la_discarded e k = filter (\<lambda>s. ls_next_byte s = 0) (take 1 (dropWhile (\<lambda>s. ls_upper_layer_id s \<noteq> k) (la_tx_list e)))"

definition la_step :: "la_op \<Rightarrow> rlc_entity_am \<Rightarrow> (la_tally \<times> rlc_entity_am) result" where
  "la_step op e = (case op of
       LaSdu b k \<Rightarrow> bindR (rlc_entity_am_recv_sdu e b k) (\<lambda>e'.
         Inr (no_tally\<lparr>lt_taken := if la_tx_size e + int (length b) \<le> la_tx_maxsize e then int (length b) else 0\<rparr>, e'))
     | LaGrant n \<Rightarrow> bindR (rlc_entity_am_generate_pdu e (replicate n 0)) (\<lambda>(k, b, e').
         Inr (no_tally\<lparr>lt_sent := la_reserved e' - la_reserved e\<rparr>, e'))
     | LaInd now pdu \<Rightarrow> bindR (la_mac_rlc_data_ind e now pdu) (\<lambda>((n, waiting), e'). Inr (no_tally\<lparr>lt_reported := n\<rparr>, e'))
     | LaTime now \<Rightarrow> bindR (rlc_entity_am_set_time e now) (\<lambda>e'. Inr (no_tally, e'))
     | LaDiscard k \<Rightarrow> Inr (no_tally\<lparr>lt_dropped := sum_list (map ls_size (la_discarded e k)),
         lt_forgotten := credited_bytes (la_discarded e k)\<rparr>, rlc_entity_am_discard_sdu e k)
     | LaReestablish \<Rightarrow> Inr (no_tally\<lparr>lt_dropped := la_waiting e, lt_forgotten := la_credit e - la_txsdu_bytes e\<rparr>,
         rlc_entity_am_reestablishment e))"

fun la_run :: "la_op list \<Rightarrow> rlc_entity_am \<Rightarrow> (la_tally \<times> rlc_entity_am) result" where
  "la_run [] e = Inr (no_tally, e)"
| "la_run (op # ops) e = bindR (la_step op e) (\<lambda>(t, e1).
     bindR (la_run ops e1) (\<lambda>(t', e2). Inr (tally_add t t', e2)))"

text \<open>Acknowledged bytes that no report has told yet.\<close>

definition la_unreported :: "rlc_entity_am \<Rightarrow> int" where
  "la_unreported e = la_txsdu_bytes e - la_last_total_tx_bytes e"

definition la_accounts :: "int \<Rightarrow> int \<Rightarrow> rlc_entity_am \<Rightarrow> rlc_entity_am \<Rightarrow> bool" where
  "la_accounts taken reported e e' \<longleftrightarrow> la_balanced e' \<and>
     la_waiting e' + la_unreported e' + reported = la_waiting e + la_unreported e + taken"

lemma moves_accounts: "la_balanced e \<Longrightarrow> la_moves e e' \<Longrightarrow> la_order e' \<Longrightarrow> la_accounts 0 0 e e'"
  by (simp add: la_accounts_def la_moves_def la_unreported_def la_balanced_def)

lemma set_time_step:
  assumes "la_balanced e" "rlc_entity_am_set_time e now = Inr e'"
  shows "la_accounts 0 0 e e' \<and> la_credit e' = la_credit e \<and> la_books e' = la_books e"
proof -
  have b: "la_books e' = la_books e" using set_time_books [of e now] assms(2) by simp
  have "la_order e' \<and> la_credit e' = la_credit e"
    using set_time_flow [of e now] assms by (simp add: la_flows_def la_balanced_def)
  with moves_accounts [OF assms(1) books_moves [OF b]] b show ?thesis by blast
qed

lemma generate_step:
  assumes "la_balanced e" "rlc_entity_am_generate_pdu e buf = Inr (k, b, e')"
  shows "la_accounts 0 0 e e' \<and> la_credit e' - la_credit e = la_reserved e' - la_reserved e"
proof -
  have b: "la_books e' = la_books e" using generate_pdu_books [of e buf] assms(2) by simp
  have "la_order e' \<and> la_credit e' - la_credit e = la_reserved e' - la_reserved e"
    using generate_pdu_sends [of e buf] assms by (simp add: la_sends_def la_balanced_def)
  with moves_accounts [OF assms(1) books_moves [OF b]] show ?thesis by blast
qed

lemma total_update [simp]:
  "la_order (e\<lparr>la_last_total_tx_bytes := n\<rparr>) = la_order e" "la_credit (e\<lparr>la_last_total_tx_bytes := n\<rparr>) = la_credit e"
  "la_linked (e\<lparr>la_last_total_tx_bytes := n\<rparr>) = la_linked e" "la_waiting (e\<lparr>la_last_total_tx_bytes := n\<rparr>) = la_waiting e"
proof -
  have "la_modulus_tx (e\<lparr>la_last_total_tx_bytes := n\<rparr>) = la_modulus_tx e" by (simp add: fun_eq_iff la_modulus_tx_def Let_def)
  then show "la_order (e\<lparr>la_last_total_tx_bytes := n\<rparr>) = la_order e" by (simp add: la_order_def)
qed (simp_all add: la_credit_def la_linked_def la_waiting_def)

lemma data_ind_accounts:
  assumes "la_balanced e" "la_mac_rlc_data_ind e now pdu = Inr ((n, waiting), e')"
  shows "la_accounts 0 n e e' \<and> la_credit e' = la_credit e"
proof -
  obtain e1 e2 st where e: "rlc_entity_am_set_time e now = Inr e1" "rlc_entity_am_recv_pdu e1 pdu = Inr e2"
    "rlc_entity_am_buffer_status e2 (1000 * 1000) = Inr st" "n = lb_total_tx_bytes st - la_last_total_tx_bytes e2"
    "e' = e2\<lparr>la_last_total_tx_bytes := lb_total_tx_bytes st\<rparr>"
    using assms(2) by (auto simp: la_mac_rlc_data_ind_def bindR_eq_Inr)
  note t = set_time_step [OF assms(1) e(1)]
  have m: "la_moves e1 e2" using recv_pdu_moves [of e1 pdu] e(2) by simp
  have o: "la_order e2 \<and> la_credit e2 = la_credit e1"
    using recv_pdu_flow [of e1 pdu] e(2) t by (simp add: la_flows_def la_accounts_def la_balanced_def)
  have "lb_total_tx_bytes st = la_txsdu_bytes e2" using e(3) by (auto simp: rlc_entity_am_buffer_status_def Let_def bindR_eq_Inr)
  then show ?thesis using m o t e(4,5) by (auto simp: la_accounts_def la_moves_def la_unreported_def la_balanced_def)
qed

text \<open>Discard and re-establishment.\<close>

lemma discard_step:
  assumes "la_balanced e"
  shows "la_balanced (rlc_entity_am_discard_sdu e k) \<and> la_unreported (rlc_entity_am_discard_sdu e k) = la_unreported e \<and>
    la_waiting (rlc_entity_am_discard_sdu e k) + sum_list (map ls_size (la_discarded e k)) = la_waiting e \<and>
    la_credit (rlc_entity_am_discard_sdu e k) + credited_bytes (la_discarded e k) = la_credit e"
proof -
  let ?P = "\<lambda>s. ls_upper_layer_id s \<noteq> k" and ?l = "la_tx_list e"
  let ?before = "takeWhile ?P ?l"
  show ?thesis
  proof (cases "dropWhile ?P ?l")
    case Nil
    have "rlc_entity_am_discard_sdu e k = e" "la_discarded e k = []"
      unfolding rlc_entity_am_discard_sdu_def la_discarded_def Let_def Nil by simp_all
    then show ?thesis using assms by simp
  next
    case (Cons cur rest)
    have l: "?l = ?before @ cur # rest" by (metis Cons takeWhile_dropWhile_id)
    show ?thesis
    proof (cases "ls_next_byte cur = 0")
      case False
      then have "rlc_entity_am_discard_sdu e k = e" "la_discarded e k = []"
        unfolding rlc_entity_am_discard_sdu_def la_discarded_def Let_def Cons by simp_all
      then show ?thesis using assms by simp
    next
      case True
      let ?t = "if la_tx_end e = Some (ls_addr cur) then if ?before = [] then None else Some (ls_addr (last ?before)) else la_tx_end e"
      let ?e = "e\<lparr>la_tx_list := ?before @ rest, la_tx_end := ?t\<rparr>"
      have run: "rlc_entity_am_discard_sdu e k = ?e" "la_discarded e k = [cur]"
        unfolding rlc_entity_am_discard_sdu_def la_discarded_def Let_def Cons using True by simp_all
      have old: "sdu_tail_ok (?before @ cur # rest) (la_tx_end e)" "\<forall>s \<in> set (?before @ cur # rest). ls_addr s < la_next_addr e"
        using assms unfolding la_balanced_def la_linked_def by (simp_all flip: l)
      have "sdu_tail_ok (?before @ rest) ?t"
        using old(1) by (cases rest rule: rev_cases) (auto simp: sdu_tail_ok_def)
      then have "la_linked ?e" using old(2) by (auto simp: la_linked_def)
      moreover have "la_modulus_tx ?e = la_modulus_tx e" by (simp add: fun_eq_iff la_modulus_tx_def Let_def)
      then have "la_order ?e" using assms by (simp add: la_balanced_def la_order_def)
      moreover have "la_waiting e = sum_list (map ls_size (?before @ cur # rest))" "credited_bytes ?l = credited_bytes (?before @ cur # rest)"
        unfolding la_waiting_def by (simp_all flip: l)
      ultimately show ?thesis unfolding run by (simp add: la_balanced_def la_unreported_def la_waiting_def la_credit_def)
    qed
  qed
qed

lemma reestablish_step:
  "la_balanced (rlc_entity_am_reestablishment e) \<and> la_unreported (rlc_entity_am_reestablishment e) = la_unreported e \<and>
   la_waiting (rlc_entity_am_reestablishment e) = 0 \<and> la_credit (rlc_entity_am_reestablishment e) = la_txsdu_bytes e"
  by (simp add: rlc_entity_am_reestablishment_def la_clear_entity_def la_balanced_def la_linked_def sdu_tail_ok_def la_order_def
      la_sn_ok_def la_unreported_def la_waiting_def la_credit_def)

definition la_settled :: "la_tally \<Rightarrow> rlc_entity_am \<Rightarrow> rlc_entity_am \<Rightarrow> bool" where
  "la_settled t e e' \<longleftrightarrow> la_balanced e' \<and>
     la_waiting e' + la_unreported e' + lt_reported t + lt_dropped t = la_waiting e + la_unreported e + lt_taken t \<and>
     la_credit e' + lt_forgotten t = la_credit e + lt_sent t"

lemma step_accounts:
  assumes "la_balanced e" "la_step op e = Inr (t, e')"
  shows "la_settled t e e'"
proof (cases op)
  case (LaSdu b k)
  with assms(2) obtain "rlc_entity_am_recv_sdu e b k = Inr e'"
    "t = no_tally\<lparr>lt_taken := if la_tx_size e + int (length b) \<le> la_tx_maxsize e then int (length b) else 0\<rparr>"
    by (auto simp: la_step_def bindR_eq_Inr)
  with recv_sdu_accounts [OF assms(1)] show ?thesis by (simp add: la_settled_def la_unreported_def no_tally_def)
next
  case (LaGrant n)
  with assms(2) obtain k b where g: "rlc_entity_am_generate_pdu e (replicate n 0) = Inr (k, b, e')"
    "t = no_tally\<lparr>lt_sent := la_reserved e' - la_reserved e\<rparr>"
    by (auto simp: la_step_def bindR_eq_Inr)
  from generate_step [OF assms(1) g(1)] g(2) show ?thesis by (simp add: la_settled_def la_accounts_def no_tally_def)
next
  case (LaInd now pdu)
  with assms(2) obtain n waiting where "la_mac_rlc_data_ind e now pdu = Inr ((n, waiting), e')" "t = no_tally\<lparr>lt_reported := n\<rparr>"
    by (auto simp: la_step_def bindR_eq_Inr)
  with data_ind_accounts [OF assms(1)] show ?thesis by (simp add: la_settled_def la_accounts_def no_tally_def)
next
  case (LaTime now)
  with assms(2) have g: "rlc_entity_am_set_time e now = Inr e'" "t = no_tally"
    by (auto simp: la_step_def bindR_eq_Inr)
  from set_time_step [OF assms(1) g(1)] g(2) show ?thesis by (simp add: la_settled_def la_accounts_def no_tally_def)
next
  case (LaDiscard k)
  with assms(2) discard_step [OF assms(1), of k] show ?thesis by (auto simp: la_step_def la_settled_def no_tally_def)
next
  case LaReestablish
  with assms(2) reestablish_step [of e] show ?thesis by (auto simp: la_step_def la_settled_def no_tally_def)
qed

text \<open>
  Property C6. The acknowledged bytes that the LTE leg reports to the split are exact. In every run of an LTE AM
  entity, of all its operations (SDUs, grants, any PDUs from the peer, timers, discard, re-establishment): each byte
  that was taken from above is in the transmit buffer, or acknowledged and not reported yet, or reported, or dropped
  by a discard or a re-establishment, and only one of these. And a byte is counted as acknowledged only as the peer
  acknowledges it: each byte that was put into a PDU is in a segment of the wait list, the retransmit list or the
  list of acknowledged segments, or credited to an SDU that is still in the transmit buffer because other bytes of it
  are not, or in the count, or was forgotten with a discard or a re-establishment. The list of SDUs and the order of
  the acknowledged segments stay sound.
\<close>

theorem lte_am_feedback_exact:
  assumes "la_balanced e" "la_run ops e = Inr (t, e')"
  shows "la_balanced e' \<and>
    la_waiting e' + la_unreported e' + lt_reported t + lt_dropped t = la_waiting e + la_unreported e + lt_taken t \<and>
    la_credit e' + lt_forgotten t = la_credit e + lt_sent t"
  using assms
proof (induction ops arbitrary: e t)
  case Nil
  then show ?case by (auto simp: no_tally_def)
next
  case (Cons op ops)
  obtain t1 e1 t2 where s: "la_step op e = Inr (t1, e1)" "la_run ops e1 = Inr (t2, e')" "t = tally_add t1 t2"
    using Cons.prems(2) by (auto simp: bindR_eq_Inr)
  have "la_settled t1 e e1" by (rule step_accounts [OF Cons.prems(1) s(1)])
  with Cons.IH [OF _ s(2)] s(3) show ?case by (simp add: la_settled_def tally_add_def)
qed

definition la_fresh :: rlc_entity_am where
  "la_fresh = new_rlc_entity_am 1000 1000 35 20 45 (-1) (-1) 4"

lemma la_fresh_balanced: "la_balanced la_fresh" "la_waiting la_fresh = 0" "la_unreported la_fresh = 0" "la_credit la_fresh = 0"
  by (simp_all add: la_fresh_def new_rlc_entity_am_def la_balanced_def la_linked_def la_order_def la_sn_ok_def sdu_tail_ok_def
      la_unreported_def la_waiting_def la_credit_def)

text \<open>Three SDUs in a PDU each and one that is discarded; the peer acknowledges two of them; re-establishment drops the third.\<close>

definition la_demo_ops :: "la_op list" where
  "la_demo_ops = [LaTime 1, LaSdu [1, 2, 3] 0, LaSdu [4, 5] 1, LaSdu [6] 2, LaSdu [7, 8] 3, LaGrant 5, LaGrant 4, LaGrant 3,
     LaDiscard 3, LaInd 2 [0x00, 0x08], LaReestablish, LaSdu [9] 4]"

theorem lte_am_feedback_exact_witness:
  "\<exists>t e'. la_run la_demo_ops la_fresh = Inr (t, e') \<and> t = \<lparr>lt_taken = 9, lt_reported = 5, lt_dropped = 3, lt_sent = 6, lt_forgotten = 1\<rparr> \<and>
    la_waiting e' + la_unreported e' = 1 \<and> la_credit e' = 5"
proof -
  let ?t = "\<lparr>lt_taken = 9, lt_reported = 5, lt_dropped = 3, lt_sent = 6, lt_forgotten = 1\<rparr> :: la_tally"
  have "case la_run la_demo_ops la_fresh of Inl c \<Rightarrow> False | Inr (t, e') \<Rightarrow> lt_taken t = 9 \<and> lt_reported t = 5 \<and>
      lt_dropped t = 3 \<and> lt_sent t = 6 \<and> lt_forgotten t = 1" by code_simp
  then obtain t e' where r: "la_run la_demo_ops la_fresh = Inr (t, e')" "lt_taken t = 9" "lt_reported t = 5"
      "lt_dropped t = 3" "lt_sent t = 6" "lt_forgotten t = 1" by (auto split: sum.splits)
  have "t = ?t" using r(2-6) by (cases t) simp
  with lte_am_feedback_exact [OF la_fresh_balanced(1) r(1)] r show ?thesis by (simp add: la_fresh_balanced(2-4))
qed

end
