(* ===== verification/Lte_Am_Errors.thy ===== *)
theory Lte_Am_Errors
  imports Lte_Am_Props
begin

text \<open>
  Where the acknowledged mode of LTE does not do what it means to: a report that misleads the split, and PDUs with
  which a peer ends the process.
\<close>

text \<open>
  An LTE bearer that cannot send tells the split that nothing waits: while the transmit window is full
  (512 PDUs not acknowledged), the number of waiting bytes in the report to PDCP is 0, whatever is in the transmit
  buffer.
\<close>

theorem lte_stall_reported_empty:
  assumes "la_mac_rlc_data_ind e now pdu = Inr ((acked, waiting), e')" "\<not> la_sn_available e'"
  shows "waiting = 0"
proof -
  obtain e2 st where e: "rlc_entity_am_buffer_status e2 (1000 * 1000) = Inr st" "waiting = lb_tx_size st"
    "e' = e2\<lparr>la_last_total_tx_bytes := lb_total_tx_bytes st\<rparr>"
    using assms(1) by (auto simp: la_mac_rlc_data_ind_def bindR_eq_Inr)
  have "la_sn_available e' = la_sn_available e2" unfolding e(3)
    by (simp add: la_sn_available_def la_sn_compare_tx_def la_modulus_tx_def)
  with assms(2) e(1,2) show ?thesis
    by (auto simp: rlc_entity_am_buffer_status_def compute_new_pdu_size_def Let_def bindR_eq_Inr)
qed

text \<open>512 PDUs of one byte are out, and 1000 bytes wait behind them.\<close>

definition la_stalled :: rlc_entity_am where
  "la_stalled = la_fresh\<lparr>la_vt_s := 512, la_tx_list := [rlc_new_sdu 0 (replicate 1000 7) 0], la_tx_end := Some 0, la_tx_size := 1000,
     la_next_addr := 1\<rparr>"

theorem lte_stall_reported_empty_witness:
  "\<exists>e'. la_mac_rlc_data_ind la_stalled 5 [0x00, 0x00] = Inr ((0, 0), e') \<and> la_tx_size e' = 1000"
proof -
  have "case la_mac_rlc_data_ind la_stalled 5 [0x00, 0x00] of Inl c \<Rightarrow> False
    | Inr ((acked, waiting), e') \<Rightarrow> acked = 0 \<and> la_tx_size e' = 1000 \<and> \<not> la_sn_available e'" by code_simp
  then obtain waiting e' where e: "la_mac_rlc_data_ind la_stalled 5 [0x00, 0x00] = Inr ((0, waiting), e')"
    "la_tx_size e' = 1000" "\<not> la_sn_available e'" by (auto split: sum.splits)
  from lte_stall_reported_empty [OF e(1,3)] e(1,2) show ?thesis by simp
qed

definition la_ends :: "crash \<Rightarrow> 'a result \<Rightarrow> bool" where
  "la_ends c r = (case r of Inl c' \<Rightarrow> c' = c | Inr x \<Rightarrow> False)"

text \<open>Segments of PDU 0: five bytes at offset 50, then ten bytes at offset 0 that are marked as the last.\<close>

definition la_gap_ops :: "la_op list" where
  "la_gap_ops = [LaTime 1, LaInd 2 ([0xC0, 0x00, 0x00, 0x32] @ replicate 5 1), LaInd 3 ([0xC0, 0x00, 0x80, 0x00] @ replicate 10 2)]"

text \<open>
  Two PDU segments of a peer end the process: the last segment of a PDU that is shorter than a segment
  received before makes the PDU complete, the reassembly goes on with the segment behind its end, and the check
  that is called useless in the code ends in exit.
\<close>

theorem lte_am_peer_exit: "la_ends Exit (la_run la_gap_ops la_fresh)"
  by code_simp

text \<open>
  Three SDUs are sent; the peer asks for the first again, which goes out with a poll; then it acknowledges only this
  one, although the others are acknowledged already. Nothing is left in any list, but the timer runs on.
\<close>

definition la_poll_ops :: "la_op list" where
  "la_poll_ops = [LaTime 1, LaSdu [1, 2, 3] 0, LaSdu [4, 5, 6] 1, LaSdu [7, 8, 9] 2, LaGrant 5, LaGrant 5, LaGrant 5,
     LaInd 2 [0x00, 0x0E, 0x00, 0x00], LaGrant 5, LaInd 3 [0x00, 0x04], LaTime 100]"

theorem lte_am_poll_crash: "la_ends NullDeref (la_run la_poll_ops la_fresh)"
  by code_simp

end
