(* ===== verification/Lte_Ue.thy ===== *)
theory Lte_Ue
  imports Lte_Am_Tx Ue_Table
begin

text \<open>
  The interface of RLC of LTE, first part: an entity of either mode behind the calls of \<open>rlc_v2/rlc_entity.h\<close>, the
  UEs and their table (\<open>rlc_ue_manager.c\<close>), the configuration that RRC hands over and the tables of
  \<open>asn1_utils.c\<close> that decode it.
\<close>

section \<open>Entities\<close>

text \<open>The member \<open>last_total_tx_bytes\<close> of the common part stands beside an entity of the unacknowledged mode.\<close>

datatype lte_entity = LteAm rlc_entity_am | LteUm rlc_entity_um int

fun lte_events :: "lte_entity \<Rightarrow> rlc_event list" where
  "lte_events (LteAm e) = la_events e"
| "lte_events (LteUm e n) = lu_events e"

fun lte_clear_events :: "lte_entity \<Rightarrow> lte_entity" where
  "lte_clear_events (LteAm e) = LteAm (e\<lparr>la_events := []\<rparr>)"
| "lte_clear_events (LteUm e n) = LteUm (e\<lparr>lu_events := []\<rparr>) n"

fun lte_last_total_tx_bytes :: "lte_entity \<Rightarrow> int" where
  "lte_last_total_tx_bytes (LteAm e) = la_last_total_tx_bytes e"
| "lte_last_total_tx_bytes (LteUm e n) = n"

fun lte_set_last_total_tx_bytes :: "int \<Rightarrow> lte_entity \<Rightarrow> lte_entity" where
  "lte_set_last_total_tx_bytes k (LteAm e) = LteAm (e\<lparr>la_last_total_tx_bytes := k\<rparr>)"
| "lte_set_last_total_tx_bytes k (LteUm e n) = LteUm e k"

fun lte_set_time :: "u64 \<Rightarrow> lte_entity \<Rightarrow> lte_entity result" where
  "lte_set_time t (LteAm e) = mapR LteAm (rlc_entity_am_set_time e t)"
| "lte_set_time t (LteUm e n) = mapR (\<lambda>e'. LteUm e' n) (rlc_entity_um_set_time e t)"

fun lte_recv_pdu :: "byte list \<Rightarrow> lte_entity \<Rightarrow> lte_entity result" where
  "lte_recv_pdu b (LteAm e) = mapR LteAm (rlc_entity_am_recv_pdu e b)"
| "lte_recv_pdu b (LteUm e n) = mapR (\<lambda>e'. LteUm e' n) (rlc_entity_um_recv_pdu e b)"

fun lte_recv_sdu :: "byte list \<Rightarrow> int \<Rightarrow> lte_entity \<Rightarrow> lte_entity result" where
  "lte_recv_sdu b sdu_id (LteAm e) = mapR LteAm (rlc_entity_am_recv_sdu e b sdu_id)"
| "lte_recv_sdu b sdu_id (LteUm e n) = mapR (\<lambda>e'. LteUm e' n) (rlc_entity_um_recv_sdu e b sdu_id)"

fun lte_generate_pdu :: "byte list \<Rightarrow> lte_entity \<Rightarrow> (int \<times> byte list \<times> lte_entity) result" where
  "lte_generate_pdu b (LteAm e) = mapR (\<lambda>(k, b', e'). (k, b', LteAm e')) (rlc_entity_am_generate_pdu e b)"
| "lte_generate_pdu b (LteUm e n) = mapR (\<lambda>(k, b', e'). (k, b', LteUm e' n)) (rlc_entity_um_generate_pdu e b)"

text \<open>The unacknowledged mode leaves \<open>total_tx_bytes\<close> of its result as it was on the stack, the argument \<open>junk\<close>.\<close>

fun lte_buffer_status :: "int \<Rightarrow> int \<Rightarrow> lte_entity \<Rightarrow> rlc_entity_buffer_status result" where
  "lte_buffer_status junk maxsize (LteAm e) = rlc_entity_am_buffer_status e maxsize"
| "lte_buffer_status junk maxsize (LteUm e n) =
     (case rlc_entity_um_buffer_status e maxsize of (status, tx, retx) \<Rightarrow>
        Inr \<lparr>lb_status_size = status, lb_tx_size = tx, lb_retx_size = retx, lb_total_tx_bytes = junk\<rparr>)"

fun lte_delete :: "lte_entity \<Rightarrow> rlc_event list" where
  "lte_delete (LteAm e) = rlc_entity_am_delete e"
| "lte_delete (LteUm e n) = rlc_entity_um_delete e"

section \<open>UEs\<close>

record rlc_ue =
  le_rnti :: int
  le_module_id :: int
  le_srb :: "lte_entity option list"
  le_drb :: "lte_entity option list"

definition rlc_ue_zero :: "int \<Rightarrow> rlc_ue" where
  "rlc_ue_zero rnti = \<lparr>le_rnti = rnti, le_module_id = 0, le_srb = replicate 2 None, le_drb = replicate 5 None\<rparr>"

text \<open>A pointer to an entity is the place of the UE that has it.\<close>

datatype lte_slot = LteSrb nat | LteDrb nat

fun lte_entity_at :: "rlc_ue \<Rightarrow> lte_slot \<Rightarrow> lte_entity option" where
  "lte_entity_at ue (LteSrb i) = le_srb ue ! i"
| "lte_entity_at ue (LteDrb i) = le_drb ue ! i"

fun lte_set_slot :: "lte_slot \<Rightarrow> lte_entity option \<Rightarrow> rlc_ue \<Rightarrow> rlc_ue" where
  "lte_set_slot (LteSrb i) e ue = ue\<lparr>le_srb := (le_srb ue)[i := e]\<rparr>"
| "lte_set_slot (LteDrb i) e ue = ue\<lparr>le_drb := (le_drb ue)[i := e]\<rparr>"

definition lte_srb_slot :: "rlc_ue \<Rightarrow> int \<Rightarrow> lte_slot option result" where
  "lte_srb_slot ue i = bindR (array_get i (le_srb ue)) (\<lambda>e. Inr (if e = None then None else Some (LteSrb (nat i))))"

definition lte_drb_slot :: "rlc_ue \<Rightarrow> int \<Rightarrow> lte_slot option result" where
  "lte_drb_slot ue i = bindR (array_get i (le_drb ue)) (\<lambda>e. Inr (if e = None then None else Some (LteDrb (nat i))))"

definition rlc_ue_add_srb_rlc_entity :: "rlc_ue \<Rightarrow> int \<Rightarrow> lte_entity \<Rightarrow> rlc_ue result" where
  "rlc_ue_add_srb_rlc_entity ue srb_id entity =
     (if srb_id < 1 \<or> srb_id > 2 then Inl Exit
      else bindR (array_get (srb_id - 1) (le_srb ue)) (\<lambda>e.
        if e \<noteq> None then Inl Exit else Inr (ue\<lparr>le_srb := (le_srb ue)[nat (srb_id - 1) := Some entity]\<rparr>)))"

definition rlc_ue_add_drb_rlc_entity :: "rlc_ue \<Rightarrow> int \<Rightarrow> lte_entity \<Rightarrow> rlc_ue result" where
  "rlc_ue_add_drb_rlc_entity ue drb_id entity =
     (if drb_id < 1 \<or> drb_id > 5 then Inl Exit
      else bindR (array_get (drb_id - 1) (le_drb ue)) (\<lambda>e.
        if e \<noteq> None then Inl Exit else Inr (ue\<lparr>le_drb := (le_drb ue)[nat (drb_id - 1) := Some entity]\<rparr>)))"

section \<open>The manager\<close>

record rlc_ue_manager =
  lg_lock :: bool
  lg_ue_list :: "rlc_ue list"
  lg_enb_flag :: int

definition new_rlc_ue_manager :: "int \<Rightarrow> rlc_ue_manager" where
  "new_rlc_ue_manager enb_flag = \<lparr>lg_lock = False, lg_ue_list = [], lg_enb_flag = enb_flag\<rparr>"

definition rlc_manager_lock :: "rlc_ue_manager \<Rightarrow> rlc_ue_manager result" where
  "rlc_manager_lock m = (if lg_lock m then Inl Hang else Inr (m\<lparr>lg_lock := True\<rparr>))"

definition rlc_manager_unlock :: "rlc_ue_manager \<Rightarrow> rlc_ue_manager" where
  "rlc_manager_unlock m = m\<lparr>lg_lock := False\<rparr>"

definition rlc_manager_get_ue :: "rlc_ue_manager \<Rightarrow> int \<Rightarrow> nat \<times> rlc_ue_manager" where
  "rlc_manager_get_ue m rnti =
     (case ue_get le_rnti rlc_ue_zero rnti (lg_ue_list m) of (k, l) \<Rightarrow> (k, m\<lparr>lg_ue_list := l\<rparr>))"

definition put_rlc_ue :: "nat \<Rightarrow> rlc_ue \<Rightarrow> rlc_ue_manager \<Rightarrow> rlc_ue_manager" where
  "put_rlc_ue k ue m = m\<lparr>lg_ue_list := (lg_ue_list m)[k := ue]\<rparr>"

text \<open>The entities of the UE are deleted, which calls nobody.\<close>

definition rlc_manager_remove_ue :: "rlc_ue_manager \<Rightarrow> int \<Rightarrow> rlc_ue_manager result" where
  "rlc_manager_remove_ue m rnti =
     Inr (case ue_index le_rnti rnti (lg_ue_list m) of
            None \<Rightarrow> m | Some k \<Rightarrow> m\<lparr>lg_ue_list := ue_drop k (lg_ue_list m)\<rparr>)"

interpretation lte_ues: ue_manager lg_ue_list le_rnti rlc_ue_zero rlc_manager_get_ue put_rlc_ue rlc_manager_remove_ue
proof
  fix m :: rlc_ue_manager and k i :: int and j us m' u
  show "le_rnti (rlc_ue_zero k) = k" by (simp add: rlc_ue_zero_def)
  show "ue_get le_rnti rlc_ue_zero k (lg_ue_list m) = (j, us) \<Longrightarrow>
      \<exists>m'. rlc_manager_get_ue m k = (j, m') \<and> lg_ue_list m' = us"
    by (simp add: rlc_manager_get_ue_def)
  show "lg_ue_list (put_rlc_ue j u m) = (lg_ue_list m)[j := u]" by (simp add: put_rlc_ue_def)
  show "rlc_manager_remove_ue m k = Inr m' \<Longrightarrow> lg_ue_list m' =
      (case ue_index le_rnti k (lg_ue_list m) of None \<Rightarrow> lg_ue_list m | Some i \<Rightarrow> ue_drop i (lg_ue_list m))"
    by (auto simp: rlc_manager_remove_ue_def split: option.splits)
qed

section \<open>The tables of \<open>asn1_utils.c\<close>\<close>

definition lte_decode_in :: "int list \<Rightarrow> int \<Rightarrow> int result" where
  "lte_decode_in tab v = (if v < 0 \<or> v > int (length tab) - 1 then Inl Exit else Inr (tab ! nat v))"

definition lte_t_reordering :: "int \<Rightarrow> int result" where
  "lte_t_reordering =
     lte_decode_in [0,  5,  10, 15, 20,  25,  30,  35,  40,  45,  50,  55,  60,  65,  70,  75,
                    80, 85, 90, 95, 100, 110, 120, 130, 140, 150, 160, 170, 180, 190, 200, 1600]"

definition lte_t_status_prohibit :: "int \<Rightarrow> int result" where
  "lte_t_status_prohibit =
     lte_decode_in [0,   5,   10,  15,  20,  25,  30,  35,  40,  45,   50,   55,   60,   65,  70,  75,
                    80,  85,  90,  95,  100, 105, 110, 115, 120, 125,  130,  135,  140,  145, 150, 155,
                    160, 165, 170, 175, 180, 185, 190, 195, 200, 205,  210,  215,  220,  225, 230, 235,
                    240, 245, 250, 300, 350, 400, 450, 500, 800, 1000, 1200, 1600, 2000, 2400]"

definition lte_t_poll_retransmit :: "int \<Rightarrow> int result" where
  "lte_t_poll_retransmit =
     lte_decode_in [5,   10,  15,  20,  25,  30,  35,  40,  45,  50,  55,  60,  65,  70,  75,  80,  85,   90,   95,  100,
                    105, 110, 115, 120, 125, 130, 135, 140, 145, 150, 155, 160, 165, 170, 175, 180, 185,  190,  195, 200,
                    205, 210, 215, 220, 225, 230, 235, 240, 245, 250, 300, 350, 400, 450, 500, 800, 1000, 2000, 4000]"

text \<open>The value -1 stands for infinity here and in the next table.\<close>

definition lte_poll_pdu :: "int \<Rightarrow> int result" where
  "lte_poll_pdu = lte_decode_in [4, 8, 16, 32, 64, 128, 256, - 1]"

definition lte_poll_byte :: "int \<Rightarrow> int result" where
  "lte_poll_byte v =
     bindR (lte_decode_in [25, 50, 75, 100, 125, 250, 375, 500, 750, 1000, 1250, 1500, 2000, 3000, - 1] v) (\<lambda>n.
       Inr (if n = - 1 then - 1 else n * 1024))"

definition lte_max_retx_threshold :: "int \<Rightarrow> int result" where
  "lte_max_retx_threshold = lte_decode_in [1, 2, 3, 4, 6, 8, 16, 32]"

definition lte_sn_field_length :: "int \<Rightarrow> int result" where
  "lte_sn_field_length = lte_decode_in [5, 10]"

section \<open>Configuration of a bearer\<close>

text \<open>Of the generated structures the fields that are read, an optional value where the field is a pointer.\<close>

record lte_am_config =
  xa_dl_t_Reordering :: int
  xa_dl_t_StatusProhibit :: int
  xa_ul_t_PollRetransmit :: int
  xa_ul_pollPDU :: int
  xa_ul_pollByte :: int
  xa_ul_maxRetxThreshold :: int

record lte_um_config =
  xu_dl_t_Reordering :: int
  xu_dl_sn_FieldLength :: int
  xu_ul_sn_FieldLength :: int

datatype lte_rlc_config = LteConfigAm lte_am_config | LteConfigUmBiDirectional lte_um_config | LteConfigOther

text \<open>\<open>ul_SpecificParameters\<close>, with the group as its content.\<close>

type_synonym lte_ul_params = "int option option"

datatype lte_srb_rlc = SrbRlcExplicit lte_rlc_config | SrbRlcDefault | SrbRlcNothing
datatype lte_srb_channel = SrbChannelExplicit lte_ul_params | SrbChannelDefault | SrbChannelNothing

record lte_srb_to_add =
  xs_srb_Identity :: int
  xs_rlc_Config :: "lte_srb_rlc option"
  xs_logicalChannelConfig :: "lte_srb_channel option"

record lte_drb_to_add =
  xd_drb_Identity :: int
  xd_logicalChannelIdentity :: "int option"
  xd_rlc_Config :: "lte_rlc_config option"
  xd_logicalChannelConfig :: "lte_ul_params option"

definition derefR :: "'a option \<Rightarrow> 'a result" where
  "derefR p = (case p of None \<Rightarrow> Inl NullDeref | Some x \<Rightarrow> Inr x)"

definition lte_logical_channel_group :: "lte_ul_params \<Rightarrow> int result" where
  "lte_logical_channel_group ul = bindR (derefR ul) derefR"

text \<open>The entity with the timers and thresholds of a configuration, decoded in this order.\<close>

definition lte_new_am :: "int \<Rightarrow> lte_am_config \<Rightarrow> lte_entity result" where
  "lte_new_am maxsize am =
     bindR (lte_t_reordering (xa_dl_t_Reordering am)) (\<lambda>t_reordering.
     bindR (lte_t_status_prohibit (xa_dl_t_StatusProhibit am)) (\<lambda>t_status_prohibit.
     bindR (lte_t_poll_retransmit (xa_ul_t_PollRetransmit am)) (\<lambda>t_poll_retransmit.
     bindR (lte_poll_pdu (xa_ul_pollPDU am)) (\<lambda>poll_pdu.
     bindR (lte_poll_byte (xa_ul_pollByte am)) (\<lambda>poll_byte.
     bindR (lte_max_retx_threshold (xa_ul_maxRetxThreshold am)) (\<lambda>max_retx_threshold.
       Inr (LteAm (new_rlc_entity_am maxsize maxsize t_reordering t_status_prohibit t_poll_retransmit poll_pdu poll_byte
         max_retx_threshold))))))))"

definition lte_default_srb :: lte_entity where
  "lte_default_srb = LteAm (new_rlc_entity_am 100000 100000 35 0 45 (- 1) (- 1) 4)"

definition lte_new_um :: "lte_um_config \<Rightarrow> lte_entity result" where
  "lte_new_um um =
     bindR (lte_t_reordering (xu_dl_t_Reordering um)) (\<lambda>t_reordering.
       if xu_dl_sn_FieldLength um \<noteq> xu_ul_sn_FieldLength um then Inl Exit
       else bindR (lte_sn_field_length (xu_dl_sn_FieldLength um)) (\<lambda>n.
         mapR (\<lambda>e. LteUm e 0) (new_rlc_entity_um 1000000 1000000 t_reordering (nat n))))"

text \<open>What the tables yield is what the entities take.\<close>

lemma lte_decode_in_set: "lte_decode_in tab v = Inr n \<Longrightarrow> n \<in> set tab"
  by (auto simp: lte_decode_in_def split: if_splits)

lemma lte_sn_field_length_cases: "lte_sn_field_length v = Inr n \<Longrightarrow> n = 5 \<or> n = 10"
  by (auto simp: lte_sn_field_length_def dest: lte_decode_in_set)

lemma lte_new_um_ok:
  assumes "lte_t_reordering (xu_dl_t_Reordering um) = Inr t" "lte_sn_field_length (xu_dl_sn_FieldLength um) = Inr n"
    "xu_ul_sn_FieldLength um = xu_dl_sn_FieldLength um"
  shows "\<exists>e. lte_new_um um = Inr (LteUm e 0)"
  using assms lte_sn_field_length_cases [OF assms(2)] by (auto simp: lte_new_um_def new_rlc_entity_um_def mapR_def Let_def)

end
