(* ===== verification/Lte_Api.thy ===== *)
theory Lte_Api
  imports Lte_Ue
begin

text \<open>
  The interface of RLC of LTE to MAC, PDCP and RRC (\<open>rlc_v2/rlc_oai_api.c\<close>). What the callbacks of an entity send to
  other layers, and the message with which QCON tells the NR side how the LTE leg fares, is recorded in
  order in \<open>lapi_out\<close>.
\<close>

text \<open>
  \<open>LtePdcpDataInd\<close> is the call of \<open>pdcp_data_ind\<close> with module, rnti and node of its context, \<open>RlcSduIndication\<close> the
  message to RRC about an SDU of a signalling bearer, \<open>X2apEndcLteInfo\<close> the message with the numbers for the split.
\<close>

datatype lte_out =
    LtePdcpDataInd int int int bool bool int "byte list"
  | RlcSduIndication int bool int int
  | X2apEndcLteInfo int int int

record lte_api =
  lapi_manager :: "rlc_ue_manager option"
  lapi_current_time :: u64
  lapi_last_frame :: int
  lapi_last_subframe :: int
  lapi_inited :: bool
  lapi_out :: "lte_out list"

definition lte_api_start :: lte_api where
  "lte_api_start =
     \<lparr>lapi_manager = None, lapi_current_time = 0, lapi_last_frame = 0, lapi_last_subframe = 0, lapi_inited = False, lapi_out = []\<rparr>"

definition MBMS_RNTI :: int where "MBMS_RNTI = 0xfffd"

section \<open>Callbacks of the entities\<close>

text \<open>The loops over the arrays of the UE find the slot the entity is in.\<close>

fun lte_slot_bearer :: "lte_slot \<Rightarrow> bool \<times> int" where
  "lte_slot_bearer (LteSrb i) = (True, int i + 1)"
| "lte_slot_bearer (LteDrb i) = (False, int i + 1)"

definition lte_deliver_sdu :: "int \<Rightarrow> rlc_ue \<Rightarrow> lte_slot \<Rightarrow> byte list \<Rightarrow> lte_out list" where
  "lte_deliver_sdu enb_flag ue s buf =
     (case lte_slot_bearer s of (is_srb, rb_id) \<Rightarrow>
        [LtePdcpDataInd (le_module_id ue) (le_rnti ue) enb_flag is_srb (le_rnti ue = MBMS_RNTI) rb_id buf])"

definition lte_successful_delivery :: "int \<Rightarrow> rlc_ue \<Rightarrow> lte_slot \<Rightarrow> int \<Rightarrow> lte_out list" where
  "lte_successful_delivery enb_flag ue s sdu_id =
     (case lte_slot_bearer s of (is_srb, rb_id) \<Rightarrow>
        if \<not> is_srb then [] else if enb_flag = 0 then [] else [RlcSduIndication (le_rnti ue) True rb_id sdu_id])"

definition lte_max_retx_reached :: "int \<Rightarrow> rlc_ue \<Rightarrow> lte_slot \<Rightarrow> lte_out list" where
  "lte_max_retx_reached enb_flag ue s =
     (case lte_slot_bearer s of (is_srb, rb_id) \<Rightarrow>
        if \<not> is_srb then [] else if enb_flag = 0 then [] else [RlcSduIndication (le_rnti ue) False rb_id (- 1)])"

fun lte_callback :: "int \<Rightarrow> rlc_ue \<Rightarrow> lte_slot \<Rightarrow> rlc_event \<Rightarrow> lte_out list" where
  "lte_callback enb_flag ue s (DeliverSdu buf) = lte_deliver_sdu enb_flag ue s buf"
| "lte_callback enb_flag ue s (SduSuccessfulDelivery sdu_id) = lte_successful_delivery enb_flag ue s sdu_id"
| "lte_callback enb_flag ue s MaxRetxReached = lte_max_retx_reached enb_flag ue s"

definition lte_callbacks :: "int \<Rightarrow> rlc_ue \<Rightarrow> lte_slot \<Rightarrow> rlc_event list \<Rightarrow> lte_out list" where
  "lte_callbacks enb_flag ue s evs = concat (map (lte_callback enb_flag ue s) evs)"

text \<open>A call of an entity: it starts with no event on record, and what it records is called.\<close>

definition lte_call ::
  "int \<Rightarrow> lte_slot \<Rightarrow> (lte_entity \<Rightarrow> (lte_entity \<times> 'a) result) \<Rightarrow> rlc_ue \<Rightarrow> (rlc_ue \<times> lte_out list \<times> 'a) result" where
  "lte_call enb_flag s f ue =
     bindR (derefR (lte_entity_at ue s)) (\<lambda>e.
     bindR (f (lte_clear_events e)) (\<lambda>(e', r).
       Inr (lte_set_slot s (Some (lte_clear_events e')) ue, lte_callbacks enb_flag ue s (lte_events e'), r)))"

section \<open>Calls on one UE\<close>

definition lapi_lock :: "lte_api \<Rightarrow> rlc_ue_manager result" where
  "lapi_lock api = bindR (derefR (lapi_manager api)) rlc_manager_lock"

text \<open>Lock, get the UE, run the body on it, write it back, unlock.\<close>

definition with_lte_ue ::
  "int \<Rightarrow> (int \<Rightarrow> rlc_ue \<Rightarrow> (rlc_ue \<times> lte_out list \<times> 'a) result) \<Rightarrow> lte_api \<Rightarrow> ('a \<times> lte_api) result" where
  "with_lte_ue rnti body api =
     bindR (lapi_lock api) (\<lambda>m.
       case rlc_manager_get_ue m rnti of (k, m1) \<Rightarrow>
       bindR (body (lg_enb_flag m1) (lg_ue_list m1 ! k)) (\<lambda>(ue, outs, r).
         Inr (r, api\<lparr>lapi_manager := Some (rlc_manager_unlock (put_rlc_ue k ue m1)), lapi_out := lapi_out api @ outs\<rparr>)))"

text \<open>The switch over the logical channel.\<close>

definition lte_channel_slot :: "int \<Rightarrow> rlc_ue \<Rightarrow> lte_slot option result" where
  "lte_channel_slot channel_id ue =
     (if 1 \<le> channel_id \<and> channel_id \<le> 2 then lte_srb_slot ue (channel_id - 1)
      else if 3 \<le> channel_id \<and> channel_id \<le> 7 then lte_drb_slot ue (channel_id - 3)
      else Inr None)"

text \<open>With the flag for MBMS the channel is the number of a data bearer.\<close>

definition lte_mbms_channel_slot :: "bool \<Rightarrow> int \<Rightarrow> rlc_ue \<Rightarrow> lte_slot option result" where
  "lte_mbms_channel_slot mbms_flag channel_id ue =
     (if mbms_flag then (if 1 \<le> channel_id \<and> channel_id \<le> 5 then lte_drb_slot ue (channel_id - 1) else Inr None)
      else lte_channel_slot channel_id ue)"

definition on_lte_slot ::
  "(rlc_ue \<Rightarrow> lte_slot option result) \<Rightarrow> (lte_entity \<Rightarrow> (lte_entity \<times> 'a) result) \<Rightarrow> 'a result \<Rightarrow> int \<Rightarrow> rlc_ue \<Rightarrow>
   (rlc_ue \<times> lte_out list \<times> 'a) result" where
  "on_lte_slot pick f none enb_flag ue =
     bindR (pick ue) (\<lambda>p. case p of None \<Rightarrow> mapR (\<lambda>r. (ue, [], r)) none | Some s \<Rightarrow> lte_call enb_flag s f ue)"

text \<open>
  The message about the LTE leg: the bytes acknowledged since the last report and the bytes that wait. The first
  part of the result is the message.
\<close>

definition lte_dc_report :: "int \<Rightarrow> int \<Rightarrow> lte_entity \<Rightarrow> (lte_entity \<times> lte_out list) result" where
  "lte_dc_report junk rnti e =
     bindR (lte_buffer_status junk (1000 * 1000) e) (\<lambda>buf_stat.
       let total = lb_total_tx_bytes buf_stat
       in Inr (lte_set_last_total_tx_bytes total e,
               [X2apEndcLteInfo rnti (total - lte_last_total_tx_bytes e) (lb_tx_size buf_stat)]))"

text \<open>A UE receives MBMS on channel 5, which is channel 7 of a context of its own.\<close>

definition lte_ind_target :: "bool \<Rightarrow> bool \<Rightarrow> int \<Rightarrow> int \<Rightarrow> (int \<times> int) result" where
  "lte_ind_target enb_flag mbms_flag rnti channel_id =
     (if \<not> enb_flag \<and> mbms_flag then (if channel_id \<noteq> 5 then Inl Exit else Inr (MBMS_RNTI, 7)) else Inr (rnti, channel_id))"

definition lte_mac_rlc_data_ind ::
  "int \<Rightarrow> int \<Rightarrow> int \<Rightarrow> int \<Rightarrow> bool \<Rightarrow> bool \<Rightarrow> int \<Rightarrow> byte list \<Rightarrow> lte_api \<Rightarrow> (unit \<times> lte_api) result" where
  "lte_mac_rlc_data_ind junk module_id rntiP eNB_index enb_flag mbms_flag channel_idP buffer api =
     (if enb_flag \<and> module_id \<noteq> 0 then Inl Exit
      else if eNB_index \<noteq> 0 then Inl Exit
      else bindR (lte_ind_target enb_flag mbms_flag rntiP channel_idP) (\<lambda>(rnti, channel_id).
        with_lte_ue rnti (\<lambda>enb ue.
          bindR (on_lte_slot (lte_channel_slot channel_id) (\<lambda>e.
              bindR (lte_set_time (lapi_current_time api) e) (\<lambda>e1.
              bindR (lte_recv_pdu buffer e1) (\<lambda>e2. lte_dc_report junk (le_rnti ue) e2))) (Inl Exit) enb ue)
            (\<lambda>(ue', outs, report). Inr (ue', outs @ report, ()))) api))"

definition lte_mac_rlc_data_req ::
  "int \<Rightarrow> bool \<Rightarrow> int \<Rightarrow> byte list \<Rightarrow> lte_api \<Rightarrow> ((int \<times> byte list) \<times> lte_api) result" where
  "lte_mac_rlc_data_req rnti mbms_flag channel_id buffer api =
     with_lte_ue rnti (on_lte_slot (lte_mbms_channel_slot mbms_flag channel_id) (\<lambda>e.
       bindR (lte_set_time (lapi_current_time api) e) (\<lambda>e1.
       bindR (lte_generate_pdu buffer e1) (\<lambda>(n, b, e2). Inr (e2, n, b)))) (Inl Exit)) api"

definition lte_bytes_in_buffer :: "u64 \<Rightarrow> lte_entity \<Rightarrow> (lte_entity \<times> int) result" where
  "lte_bytes_in_buffer time e =
     bindR (lte_set_time time e) (\<lambda>e1.
     bindR (lte_buffer_status 0 4000000 e1) (\<lambda>buf_stat.
       Inr (e1, lb_status_size buf_stat + lb_retx_size buf_stat + lb_tx_size buf_stat)))"

text \<open>Of the result of the first call the one field that is not always 0.\<close>

definition lte_mac_rlc_status_ind :: "int \<Rightarrow> bool \<Rightarrow> int \<Rightarrow> lte_api \<Rightarrow> (int \<times> lte_api) result" where
  "lte_mac_rlc_status_ind rnti mbms_flag channel_id api =
     with_lte_ue rnti (on_lte_slot (lte_mbms_channel_slot mbms_flag channel_id)
       (lte_bytes_in_buffer (lapi_current_time api)) (Inr 0)) api"

definition lte_mac_rlc_get_buffer_occupancy_ind :: "int \<Rightarrow> bool \<Rightarrow> int \<Rightarrow> lte_api \<Rightarrow> (int \<times> lte_api) result" where
  "lte_mac_rlc_get_buffer_occupancy_ind rnti enb_flag channel_id api =
     (if enb_flag then Inl Exit
      else with_lte_ue rnti (on_lte_slot (lte_channel_slot channel_id)
             (lte_bytes_in_buffer (lapi_current_time api)) (Inr 0)) api)"

definition lte_bearer_slot :: "bool \<Rightarrow> bool \<Rightarrow> int \<Rightarrow> rlc_ue \<Rightarrow> lte_slot option result" where
  "lte_bearer_slot srb_flag mbms_flag rb_id ue =
     (if mbms_flag \<and> 1 \<le> rb_id \<and> rb_id \<le> 5 then lte_drb_slot ue (rb_id - 1)
      else if srb_flag then (if 1 \<le> rb_id \<and> rb_id \<le> 2 then lte_srb_slot ue (rb_id - 1) else Inr None)
      else (if 1 \<le> rb_id \<and> rb_id \<le> 5 then lte_drb_slot ue (rb_id - 1) else Inr None))"

definition lte_rlc_data_req :: "int \<Rightarrow> bool \<Rightarrow> bool \<Rightarrow> int \<Rightarrow> int \<Rightarrow> byte list \<Rightarrow> lte_api \<Rightarrow> (unit \<times> lte_api) result" where
  "lte_rlc_data_req rntiP srb_flag mbms_flag rb_id mui sdu api =
     with_lte_ue (if mbms_flag then MBMS_RNTI else rntiP) (on_lte_slot (lte_bearer_slot srb_flag mbms_flag rb_id) (\<lambda>e.
       bindR (lte_set_time (lapi_current_time api) e) (\<lambda>e1.
       bindR (lte_recv_sdu sdu mui e1) (\<lambda>e2. Inr (e2, ())))) (Inl Exit)) api"

section \<open>Configuration\<close>

definition lte_rlc_module_init :: "int \<Rightarrow> lte_api \<Rightarrow> (int \<times> lte_api) result" where
  "lte_rlc_module_init enb_flag api =
     (if lapi_inited api then Inl Exit
      else Inr (0, api\<lparr>lapi_inited := True, lapi_manager := Some (new_rlc_ue_manager enb_flag)\<rparr>))"

text \<open>The end of the functions that add a bearer: what is there already stays.\<close>

definition lte_put_srb :: "int \<Rightarrow> int \<Rightarrow> int \<Rightarrow> lte_entity \<Rightarrow> lte_api \<Rightarrow> (unit \<times> lte_api) result" where
  "lte_put_srb rnti module_id srb_id entity =
     with_lte_ue rnti (\<lambda>enb ue0.
       let ue = ue0\<lparr>le_module_id := module_id\<rparr>
       in bindR (lte_srb_slot ue (srb_id - 1)) (\<lambda>p.
            if p \<noteq> None then Inr (ue, [], ())
            else mapR (\<lambda>ue'. (ue', [], ())) (rlc_ue_add_srb_rlc_entity ue srb_id entity)))"

definition lte_put_drb :: "int \<Rightarrow> int option \<Rightarrow> int \<Rightarrow> lte_entity \<Rightarrow> lte_api \<Rightarrow> (unit \<times> lte_api) result" where
  "lte_put_drb rnti module_id drb_id entity =
     with_lte_ue rnti (\<lambda>enb ue0.
       let ue = (case module_id of None \<Rightarrow> ue0 | Some n \<Rightarrow> ue0\<lparr>le_module_id := n\<rparr>)
       in bindR (lte_drb_slot ue (drb_id - 1)) (\<lambda>p.
            if p \<noteq> None then Inr (ue, [], ())
            else mapR (\<lambda>ue'. (ue', [], ())) (rlc_ue_add_drb_rlc_entity ue drb_id entity)))"

definition lte_add_srb :: "int \<Rightarrow> int \<Rightarrow> lte_srb_to_add \<Rightarrow> lte_api \<Rightarrow> (unit \<times> lte_api) result" where
  "lte_add_srb rnti module_id s api =
     (let srb_id = xs_srb_Identity s
      in if srb_id \<noteq> 1 \<and> srb_id \<noteq> 2 then Inl Exit
         else bindR (derefR (xs_logicalChannelConfig s)) (\<lambda>l.
              bindR (case l of SrbChannelExplicit ul \<Rightarrow> lte_logical_channel_group ul
                     | SrbChannelDefault \<Rightarrow> Inr 0 | SrbChannelNothing \<Rightarrow> Inl Exit) (\<lambda>logical_channel_group.
                if logical_channel_group \<noteq> 0 then Inl Exit
                else bindR (derefR (xs_rlc_Config s)) (\<lambda>r.
                     bindR (case r of
                              SrbRlcExplicit (LteConfigAm am) \<Rightarrow> lte_new_am 100000 am
                            | SrbRlcExplicit _ \<Rightarrow> Inl Exit
                            | SrbRlcDefault \<Rightarrow> Inr lte_default_srb
                            | SrbRlcNothing \<Rightarrow> Inl Exit) (\<lambda>e.
                       lte_put_srb rnti module_id srb_id e api)))))"

text \<open>What the functions for data bearers check before they look at the configuration of the entity.\<close>

definition lte_check_drb :: "lte_drb_to_add \<Rightarrow> unit result" where
  "lte_check_drb s =
     bindR (derefR (xd_logicalChannelIdentity s)) (\<lambda>channel_id.
       if \<not> (1 \<le> xd_drb_Identity s \<and> xd_drb_Identity s \<le> 5) then Inl Exit
       else if channel_id \<noteq> xd_drb_Identity s + 2 then Inl Exit
       else bindR (derefR (xd_logicalChannelConfig s)) (\<lambda>l.
            bindR (lte_logical_channel_group l) (\<lambda>logical_channel_group.
              if logical_channel_group \<noteq> 1 then Inl Exit else Inr ())))"

definition lte_add_drb_am :: "int \<Rightarrow> int \<Rightarrow> lte_drb_to_add \<Rightarrow> lte_am_config \<Rightarrow> lte_api \<Rightarrow> (unit \<times> lte_api) result" where
  "lte_add_drb_am rnti module_id s am api =
     bindR (lte_check_drb s) (\<lambda>_.
     bindR (lte_new_am 1000000 am) (\<lambda>e. lte_put_drb rnti (Some module_id) (xd_drb_Identity s) e api))"

definition lte_add_drb_um :: "int \<Rightarrow> int \<Rightarrow> lte_drb_to_add \<Rightarrow> lte_um_config \<Rightarrow> lte_api \<Rightarrow> (unit \<times> lte_api) result" where
  "lte_add_drb_um rnti module_id s um api =
     bindR (lte_check_drb s) (\<lambda>_.
     bindR (lte_new_um um) (\<lambda>e. lte_put_drb rnti (Some module_id) (xd_drb_Identity s) e api))"

definition lte_add_drb :: "int \<Rightarrow> int \<Rightarrow> lte_drb_to_add \<Rightarrow> lte_api \<Rightarrow> (unit \<times> lte_api) result" where
  "lte_add_drb rnti module_id s api =
     bindR (derefR (xd_rlc_Config s)) (\<lambda>r.
       case r of
         LteConfigAm am \<Rightarrow> lte_add_drb_am rnti module_id s am api
       | LteConfigUmBiDirectional um \<Rightarrow> lte_add_drb_um rnti module_id s um api
       | LteConfigOther \<Rightarrow> Inl Exit)"

text \<open>
  A session of MBMS with its logical channel and the three bytes of its service. The bearer is the product of the
  last byte and the greatest number of sessions of a channel (29 in \<open>lte-rrc-15.3.0.asn1\<close>), plus the channel.
\<close>

record mbms_session =
  ms_logicalChannelIdentity :: int
  ms_serviceId :: "byte list"

definition LTE_maxSessionPerPMCH :: int where "LTE_maxSessionPerPMCH = 29"

definition lte_mbms_drb :: "mbms_session \<Rightarrow> int result" where
  "lte_mbms_drb s =
     bindR (array_get 2 (ms_serviceId s)) (\<lambda>mbms_service_id.
       Inr (uint mbms_service_id * LTE_maxSessionPerPMCH + ms_logicalChannelIdentity s))"

definition lte_add_mbms :: "mbms_session \<Rightarrow> lte_api \<Rightarrow> (unit \<times> lte_api) result" where
  "lte_add_mbms s api =
     bindR (lte_mbms_drb s) (\<lambda>drb_id.
     bindR (new_rlc_entity_um 1000000 1000000 0 5) (\<lambda>e. lte_put_drb MBMS_RNTI None drb_id (LteUm e 0) api))"

text \<open>A loop over a list of the configuration.\<close>

fun lte_for_each :: "('x \<Rightarrow> lte_api \<Rightarrow> (unit \<times> lte_api) result) \<Rightarrow> 'x list \<Rightarrow> lte_api \<Rightarrow> (unit \<times> lte_api) result" where
  "lte_for_each f [] api = Inr ((), api)"
| "lte_for_each f (x # xs) api = bindR (f x api) (\<lambda>(_, api'). lte_for_each f xs api')"

definition lte_rrc_rlc_config_asn1_req ::
  "int \<Rightarrow> int \<Rightarrow> bool \<Rightarrow> int \<Rightarrow> lte_srb_to_add list option \<Rightarrow> lte_drb_to_add list option \<Rightarrow> int list option \<Rightarrow>
   mbms_session list list option \<Rightarrow> lte_api \<Rightarrow> (unit \<times> lte_api) result" where
  "lte_rrc_rlc_config_asn1_req rnti module_id enb_flag inst srb2add drb2add drb2release pmch api =
     (if enb_flag \<and> (module_id \<noteq> 0 \<or> inst \<noteq> 0) then Inl Exit
      else bindR (case pmch of None \<Rightarrow> Inr ((), api) | Some ls \<Rightarrow> lte_for_each (lte_for_each lte_add_mbms) ls api) (\<lambda>(_, api1).
        if drb2release \<noteq> None then Inl Exit
        else bindR (case srb2add of None \<Rightarrow> Inr ((), api1) | Some l \<Rightarrow> lte_for_each (lte_add_srb rnti module_id) l api1) (\<lambda>(_, api2).
             case drb2add of None \<Rightarrow> Inr ((), api2) | Some l \<Rightarrow> lte_for_each (lte_add_drb rnti module_id) l api2)))"

text \<open>A removed entity calls nobody, and a UE without a bearer goes.\<close>

definition lte_remove_bearer :: "lte_slot option \<Rightarrow> rlc_ue \<Rightarrow> rlc_ue" where
  "lte_remove_bearer p ue = (case p of None \<Rightarrow> ue | Some s \<Rightarrow> lte_set_slot s None ue)"

definition lte_no_bearer_left :: "rlc_ue \<Rightarrow> bool" where
  "lte_no_bearer_left ue \<longleftrightarrow> (\<forall>i < 2. le_srb ue ! i = None) \<and> (\<forall>i < 5. le_drb ue ! i = None)"

definition lte_rrc_rlc_config_req :: "int \<Rightarrow> bool \<Rightarrow> bool \<Rightarrow> bool \<Rightarrow> int \<Rightarrow> int \<Rightarrow> lte_api \<Rightarrow> (unit \<times> lte_api) result" where
  "lte_rrc_rlc_config_req rnti srb_flag mbms_flag is_remove module_id rb_id api =
     (if mbms_flag \<or> \<not> is_remove \<or> module_id \<noteq> 0 then Inl Exit
      else if (srb_flag \<and> \<not> (1 \<le> rb_id \<and> rb_id \<le> 2)) \<or> (\<not> srb_flag \<and> \<not> (1 \<le> rb_id \<and> rb_id \<le> 5)) then Inl Exit
      else bindR (lapi_lock api) (\<lambda>m.
        case rlc_manager_get_ue m rnti of (k, m1) \<Rightarrow>
        let ue = lg_ue_list m1 ! k
        in bindR (if srb_flag then lte_srb_slot ue (rb_id - 1) else lte_drb_slot ue (rb_id - 1)) (\<lambda>p.
           let ue1 = lte_remove_bearer p ue;
               m2 = put_rlc_ue k ue1 m1
           in bindR (if lte_no_bearer_left ue1 then rlc_manager_remove_ue m2 rnti else Inr m2) (\<lambda>m3.
                Inr ((), api\<lparr>lapi_manager := Some (rlc_manager_unlock m3)\<rparr>)))))"

definition lte_rrc_rlc_remove_ue :: "int \<Rightarrow> lte_api \<Rightarrow> (unit \<times> lte_api) result" where
  "lte_rrc_rlc_remove_ue rnti api =
     bindR (lapi_lock api) (\<lambda>m.
     bindR (rlc_manager_remove_ue m rnti) (\<lambda>m1.
       Inr ((), api\<lparr>lapi_manager := Some (rlc_manager_unlock m1)\<rparr>)))"

definition rlc_tick :: "int \<Rightarrow> int \<Rightarrow> lte_api \<Rightarrow> lte_api" where
  "rlc_tick frame subframe api =
     (if frame \<noteq> lapi_last_frame api \<or> subframe \<noteq> lapi_last_subframe api
      then api\<lparr>lapi_current_time := lapi_current_time api + 1, lapi_last_frame := frame, lapi_last_subframe := subframe\<rparr>
      else api)"

end
