(* ===== verification/Lte_Api_Props.thy ===== *)
theory Lte_Api_Props
  imports Lte_Api Lte_Am_Props
begin

text \<open>
  What an LTE node tells the split about a UE whose bearers are acknowledged, over all calls of its RLC interface: the
  numbers of the messages add up to the bytes that the UE has acknowledged. Then the calls with which a configuration or a PDU from
  the radio ends the process.
\<close>

section \<open>The account of a UE\<close>

fun lte_debt :: "lte_entity option \<Rightarrow> int" where
  "lte_debt (Some (LteAm e)) = la_waiting e + la_unreported e"
| "lte_debt x = 0"

fun lte_am_bearer :: "lte_entity option \<Rightarrow> bool" where
  "lte_am_bearer None = True"
| "lte_am_bearer (Some (LteAm e)) = la_balanced e"
| "lte_am_bearer (Some (LteUm e n)) = False"

definition lte_ue_am :: "rlc_ue \<Rightarrow> bool" where
  "lte_ue_am ue \<longleftrightarrow> length (le_srb ue) = 2 \<and> length (le_drb ue) = 5 \<and> list_all lte_am_bearer (le_srb ue) \<and> list_all lte_am_bearer (le_drb ue)"

text \<open>The bytes of a UE that wait for an acknowledgement or a report.\<close>

definition lte_ue_debt :: "rlc_ue \<Rightarrow> int" where
  "lte_ue_debt ue = sum_list (map lte_debt (le_srb ue)) + sum_list (map lte_debt (le_drb ue))"

text \<open>The bytes that the messages report as acknowledged by a UE.\<close>

fun lte_told_one :: "int \<Rightarrow> lte_out \<Rightarrow> int" where
  "lte_told_one k (X2apEndcLteInfo rnti acked waiting) = (if rnti = k then acked else 0)"
| "lte_told_one k _ = 0"

definition lte_told :: "int \<Rightarrow> lte_out list \<Rightarrow> int" where
  "lte_told k outs = sum_list (map (lte_told_one k) outs)"

lemma told_simps [simp]: "lte_told k [] = 0" "lte_told k (x # xs) = lte_told_one k x + lte_told k xs" "lte_told k (xs @ ys) = lte_told k xs + lte_told k ys"
  by (simp_all add: lte_told_def)

lemma callbacks_tell_nothing [simp]: "lte_told k (lte_callbacks enb ue s evs) = 0"
proof -
  have "lte_told k (lte_callback enb ue s ev) = 0" for ev
    by (cases ev; cases s) (simp_all add: lte_deliver_sdu_def lte_successful_delivery_def lte_max_retx_reached_def)
  then show ?thesis by (induction evs) (simp_all add: lte_callbacks_def)
qed

section \<open>Slots\<close>

fun lte_slot_ok :: "rlc_ue \<Rightarrow> lte_slot \<Rightarrow> bool" where
  "lte_slot_ok ue (LteSrb i) = (i < length (le_srb ue))"
| "lte_slot_ok ue (LteDrb i) = (i < length (le_drb ue))"

lemma srb_slot_ok: "lte_srb_slot ue i = Inr (Some s) \<Longrightarrow> lte_slot_ok ue s"
  by (auto simp: lte_srb_slot_def array_get_def bindR_eq_Inr split: if_splits)

lemma drb_slot_ok: "lte_drb_slot ue i = Inr (Some s) \<Longrightarrow> lte_slot_ok ue s"
  by (auto simp: lte_drb_slot_def array_get_def bindR_eq_Inr split: if_splits)

lemma found_slot_ok:
  "lte_channel_slot c ue = Inr (Some s) \<Longrightarrow> lte_slot_ok ue s"
  "lte_mbms_channel_slot mb c ue = Inr (Some s) \<Longrightarrow> lte_slot_ok ue s"
  "lte_bearer_slot srb mb c ue = Inr (Some s) \<Longrightarrow> lte_slot_ok ue s"
  by (auto simp: lte_channel_slot_def lte_mbms_channel_slot_def lte_bearer_slot_def split: if_splits dest: srb_slot_ok drb_slot_ok)

lemma list_all_upd: "list_all P xs \<Longrightarrow> P x \<Longrightarrow> list_all P (xs[i := x])"
  using set_update_subset_insert [of xs i x] by (auto simp: list_all_iff)

lemma debt_upd: "i < length xs \<Longrightarrow> sum_list (map lte_debt (xs[i := x])) = sum_list (map lte_debt xs) + lte_debt x - lte_debt (xs ! i)"
proof (induction xs arbitrary: i)
  case (Cons y ys)
  then show ?case by (cases i) simp_all
qed simp

lemma set_slot_account:
  assumes "lte_slot_ok ue s" "lte_ue_am ue" "lte_am_bearer x"
  shows "lte_ue_am (lte_set_slot s x ue) \<and> le_rnti (lte_set_slot s x ue) = le_rnti ue \<and>
    lte_ue_debt (lte_set_slot s x ue) = lte_ue_debt ue + lte_debt x - lte_debt (lte_entity_at ue s)"
  using assms by (cases s) (auto simp: lte_ue_am_def lte_ue_debt_def debt_upd list_all_upd)

lemma slot_bearer: "lte_slot_ok ue s \<Longrightarrow> lte_ue_am ue \<Longrightarrow> lte_am_bearer (lte_entity_at ue s)"
  by (cases s) (auto simp: lte_ue_am_def list_all_length)

section \<open>Calls of an entity\<close>

lemma clear_balanced [simp]:
  "la_balanced (e\<lparr>la_events := x\<rparr>) = la_balanced e" "la_unreported (e\<lparr>la_events := x\<rparr>) = la_unreported e"
  "la_waiting (e\<lparr>la_events := x\<rparr>) = la_waiting e"
proof -
  have "la_modulus_tx (e\<lparr>la_events := x\<rparr>) = la_modulus_tx e" by (simp add: fun_eq_iff la_modulus_tx_def Let_def)
  then show "la_balanced (e\<lparr>la_events := x\<rparr>) = la_balanced e"
    by (simp add: la_balanced_def la_linked_def la_order_def)
qed (simp_all add: la_unreported_def la_waiting_def)

text \<open>A function on an entity that takes and tells the bytes given.\<close>

definition settles_entity :: "(lte_entity \<Rightarrow> (lte_entity \<times> 'a) result) \<Rightarrow> (rlc_entity_am \<Rightarrow> int) \<Rightarrow> ('a \<Rightarrow> int) \<Rightarrow> bool" where
  "settles_entity f taken told \<longleftrightarrow> (\<forall>e e' r. la_balanced e \<longrightarrow> f (LteAm e) = Inr (e', r) \<longrightarrow>
     (\<exists>e1. e' = LteAm e1 \<and> la_accounts (taken e) (told r) e e1))"

definition am_taken :: "(rlc_entity_am \<Rightarrow> int) \<Rightarrow> lte_entity option \<Rightarrow> int" where
  "am_taken taken x = (case x of Some (LteAm e) \<Rightarrow> taken (e\<lparr>la_events := []\<rparr>) | _ \<Rightarrow> 0)"

lemma call_settles:
  assumes "lte_call enb s f ue = Inr (ue', outs, r)" "lte_slot_ok ue s" "lte_ue_am ue" "settles_entity f taken told"
  shows "lte_ue_am ue' \<and> le_rnti ue' = le_rnti ue \<and> lte_ue_debt ue' + told r = lte_ue_debt ue + am_taken taken (lte_entity_at ue s) \<and>
    (\<forall>k. lte_told k outs = 0)"
proof -
  obtain x e' where x: "lte_entity_at ue s = Some x" "f (lte_clear_events x) = Inr (e', r)"
    "ue' = lte_set_slot s (Some (lte_clear_events e')) ue" "outs = lte_callbacks enb ue s (lte_events e')"
    using assms(1) by (auto simp: lte_call_def derefR_def bindR_eq_Inr split: option.splits)
  obtain e where e: "x = LteAm e" "la_balanced e" using slot_bearer [OF assms(2,3)] x(1) by (cases x) auto
  obtain e1 where e1: "e' = LteAm e1" "la_accounts (taken (e\<lparr>la_events := []\<rparr>)) (told r) (e\<lparr>la_events := []\<rparr>) e1"
  proof -
    have "f (LteAm (e\<lparr>la_events := []\<rparr>)) = Inr (e', r)" using x(2) e(1) by simp
    then show thesis using assms(4) e(2) that unfolding settles_entity_def by (metis clear_balanced(1))
  qed
  then have "lte_am_bearer (Some (lte_clear_events e'))" by (simp add: la_accounts_def)
  from set_slot_account [OF assms(2,3) this] x(1,3,4) e(1) e1 show ?thesis by (simp add: la_accounts_def am_taken_def)
qed

definition slot_taken :: "(rlc_ue \<Rightarrow> lte_slot option result) \<Rightarrow> (rlc_entity_am \<Rightarrow> int) \<Rightarrow> rlc_ue \<Rightarrow> int" where
  "slot_taken pick taken ue = (case pick ue of Inr (Some s) \<Rightarrow> am_taken taken (lte_entity_at ue s) | _ \<Rightarrow> 0)"

lemma on_slot_settles:
  assumes "on_lte_slot pick f none enb ue = Inr (ue', outs, r)" "lte_ue_am ue" "settles_entity f taken told"
    and "\<And>s. pick ue = Inr (Some s) \<Longrightarrow> lte_slot_ok ue s" and "\<And>r. none = Inr r \<Longrightarrow> told r = 0"
  shows "lte_ue_am ue' \<and> le_rnti ue' = le_rnti ue \<and> lte_ue_debt ue' + told r = lte_ue_debt ue + slot_taken pick taken ue \<and>
    (\<forall>k. lte_told k outs = 0)"
proof -
  obtain p where p: "pick ue = Inr p" using assms(1) by (auto simp: on_lte_slot_def bindR_eq_Inr)
  show ?thesis
  proof (cases p)
    case None
    with p assms(1,2,5) show ?thesis by (auto simp: on_lte_slot_def mapR_def bindR_eq_Inr slot_taken_def)
  next
    case (Some s)
    then have "lte_call enb s f ue = Inr (ue', outs, r)" using p assms(1) by (simp add: on_lte_slot_def)
    from call_settles [OF this assms(4) assms(2,3)] p Some show ?thesis by (simp add: slot_taken_def)
  qed
qed

subsection \<open>The functions on an entity\<close>

lemma consider_max [simp]: "la_tx_maxsize (consider_retransmission p e) = la_tx_maxsize e"
  by (simp add: consider_retransmission_def la_call_def Let_def)

lemma fold_max: "la_tx_maxsize (fold consider_retransmission l e) = la_tx_maxsize e"
  by (induction l arbitrary: e) simp_all

lemma set_time_max:
  assumes "rlc_entity_am_set_time e t = Inr e'"
  shows "la_tx_maxsize e' = la_tx_maxsize e"
proof -
  obtain e1 where e1: "la_check_t_poll_retransmit (e\<lparr>la_t_current := t\<rparr>) = Inr e1" "la_check_t_reordering e1 = Inr e'"
    using assms by (auto simp: rlc_entity_am_set_time_def bindR_eq_Inr)
  have "la_tx_maxsize e1 = la_tx_maxsize e"
    using e1(1) by (auto simp: la_check_t_poll_retransmit_def Let_def fold_max split: if_splits list.splits)
  moreover have "la_tx_maxsize e' = la_tx_maxsize e1"
    using e1(2) by (auto simp: la_check_t_reordering_def Let_def bindR_eq_Inr split: if_splits)
  ultimately show ?thesis by simp
qed

lemma set_time_account:
  assumes "rlc_entity_am_set_time e t = Inr e'" "la_balanced e"
  shows "la_accounts 0 0 e e'" "la_balanced e'" "la_tx_size e' = la_tx_size e" "la_tx_maxsize e' = la_tx_maxsize e"
proof -
  note step = set_time_step [OF assms(2,1)]
  show "la_accounts 0 0 e e'" using step by simp
  then show "la_balanced e'" by (simp add: la_accounts_def)
  show "la_tx_size e' = la_tx_size e" using step by (simp add: la_books_def)
  show "la_tx_maxsize e' = la_tx_maxsize e" by (rule set_time_max [OF assms(1)])
qed

lemma accounts_trans: "la_accounts a b e e1 \<Longrightarrow> la_accounts c d e1 e2 \<Longrightarrow> la_accounts (a + c) (b + d) e e2"
  by (simp add: la_accounts_def)

lemma settles_data_ind:
  "settles_entity (\<lambda>e. bindR (lte_set_time t e) (\<lambda>e1. bindR (lte_recv_pdu b e1) (\<lambda>e2. lte_dc_report junk rnti e2)))
     (\<lambda>e. 0) (lte_told rnti)"
proof -
  have "\<exists>e1. e' = LteAm e1 \<and> la_accounts 0 (lte_told rnti r) e e1"
    if "bindR (lte_set_time t (LteAm e)) (\<lambda>e1. bindR (lte_recv_pdu b e1) (\<lambda>e2. lte_dc_report junk rnti e2)) = Inr (e', r)"
      "la_balanced e" for e e' r
  proof -
    note h = that
    obtain e1 e2 st where s: "rlc_entity_am_set_time e t = Inr e1" "rlc_entity_am_recv_pdu e1 b = Inr e2"
      "rlc_entity_am_buffer_status e2 (1000 * 1000) = Inr st" "e' = LteAm (e2\<lparr>la_last_total_tx_bytes := lb_total_tx_bytes st\<rparr>)"
      "r = [X2apEndcLteInfo rnti (lb_total_tx_bytes st - la_last_total_tx_bytes e2) (lb_tx_size st)]"
    proof -
      obtain e1 e2 where e: "rlc_entity_am_set_time e t = Inr e1" "rlc_entity_am_recv_pdu e1 b = Inr e2"
        "lte_dc_report junk rnti (LteAm e2) = Inr (e', r)" using h(1) by (auto simp: mapR_def bindR_eq_Inr)
      then obtain st where "rlc_entity_am_buffer_status e2 (1000 * 1000) = Inr st"
        "(e', r) = (LteAm (e2\<lparr>la_last_total_tx_bytes := lb_total_tx_bytes st\<rparr>), [X2apEndcLteInfo rnti
           (lb_total_tx_bytes st - la_last_total_tx_bytes e2) (lb_tx_size st)])"
        unfolding lte_dc_report_def Let_def bindR_eq_Inr by auto
      with e(1,2) show thesis by (intro that [of e1 e2 st]) simp_all
    qed
    then have "la_mac_rlc_data_ind e t b = Inr ((lb_total_tx_bytes st - la_last_total_tx_bytes e2, lb_tx_size st),
        e2\<lparr>la_last_total_tx_bytes := lb_total_tx_bytes st\<rparr>)"
      by (simp add: la_mac_rlc_data_ind_def)
    from data_ind_accounts [OF h(2) this] s(4,5) show ?thesis by auto
  qed
  then show ?thesis by (auto simp: settles_entity_def)
qed

lemma settles_data_req:
  "settles_entity (\<lambda>e. bindR (lte_set_time t e) (\<lambda>e1. bindR (lte_generate_pdu buf e1) (\<lambda>(n, b, e2). Inr (e2, n, b))))
     (\<lambda>e. 0) (\<lambda>r. 0)"
proof -
  have "\<exists>e1. e' = LteAm e1 \<and> la_accounts 0 0 e e1"
    if "bindR (lte_set_time t (LteAm e)) (\<lambda>e1. bindR (lte_generate_pdu buf e1) (\<lambda>(n, b, e2). Inr (e2, n, b))) = Inr (e', r)"
      "la_balanced e" for e e' r
  proof -
    note h = that
    obtain e1 n b e2 where s: "rlc_entity_am_set_time e t = Inr e1" "rlc_entity_am_generate_pdu e1 buf = Inr (n, b, e2)" "e' = LteAm e2"
      using h(1) by (auto simp: mapR_def bindR_eq_Inr)
    note t = set_time_account [OF s(1) h(2)]
    have "la_accounts 0 0 e1 e2" using generate_step [OF t(2) s(2)] by simp
    with accounts_trans [OF t(1) this] s(3) show ?thesis by simp
  qed
  then show ?thesis by (auto simp: settles_entity_def)
qed

lemma settles_bytes_in_buffer: "settles_entity (lte_bytes_in_buffer t) (\<lambda>e. 0) (\<lambda>r. 0)"
  by (auto simp: settles_entity_def lte_bytes_in_buffer_def mapR_def bindR_eq_Inr intro: set_time_account(1))

definition la_taken :: "byte list \<Rightarrow> rlc_entity_am \<Rightarrow> int" where
  "la_taken b e = (if la_tx_size e + int (length b) \<le> la_tx_maxsize e then int (length b) else 0)"

lemma settles_recv_sdu:
  "settles_entity (\<lambda>e. bindR (lte_set_time t e) (\<lambda>e1. bindR (lte_recv_sdu b mui e1) (\<lambda>e2. Inr (e2, ())))) (la_taken b) (\<lambda>r. 0)"
proof -
  have "\<exists>e1. e' = LteAm e1 \<and> la_accounts (la_taken b e) 0 e e1"
    if "bindR (lte_set_time t (LteAm e)) (\<lambda>e1. bindR (lte_recv_sdu b mui e1) (\<lambda>e2. Inr (e2, ()))) = Inr (e', r)"
      "la_balanced e" for e e' r
  proof -
    note h = that
    obtain e1 e2 where s: "rlc_entity_am_set_time e t = Inr e1" "rlc_entity_am_recv_sdu e1 b mui = Inr e2" "e' = LteAm e2"
      using h(1) by (auto simp: mapR_def bindR_eq_Inr)
    note t = set_time_account [OF s(1) h(2)]
    have "la_accounts (la_taken b e) 0 e1 e2"
      using recv_sdu_accounts [OF t(2) s(2)] t(3,4) by (simp add: la_accounts_def la_unreported_def la_taken_def)
    with accounts_trans [OF t(1) this] s(3) show ?thesis by simp
  qed
  then show ?thesis by (auto simp: settles_entity_def)
qed

section \<open>Calls of the interface\<close>

text \<open>The work on a UE keeps its id, and settles what it takes with what it tells; of other UEs it tells nothing.\<close>

definition settles :: "(int \<Rightarrow> rlc_ue \<Rightarrow> (rlc_ue \<times> lte_out list \<times> 'a) result) \<Rightarrow> (rlc_ue \<Rightarrow> int) \<Rightarrow> bool" where
  "settles body taken \<longleftrightarrow> (\<forall>enb ue ue' outs r. lte_ue_am ue \<longrightarrow> body enb ue = Inr (ue', outs, r) \<longrightarrow>
     lte_ue_am ue' \<and> le_rnti ue' = le_rnti ue \<and> lte_ue_debt ue' + lte_told (le_rnti ue) outs = lte_ue_debt ue + taken ue \<and>
     (\<forall>k. k \<noteq> le_rnti ue \<longrightarrow> lte_told k outs = 0))"

lemma settlesI:
  assumes "\<And>enb ue ue' outs r. lte_ue_am ue \<Longrightarrow> body enb ue = Inr (ue', outs, r) \<Longrightarrow> lte_ue_am ue' \<and> le_rnti ue' = le_rnti ue \<and>
    lte_ue_debt ue' + lte_told (le_rnti ue) outs = lte_ue_debt ue + taken ue \<and> (\<forall>k. k \<noteq> le_rnti ue \<longrightarrow> lte_told k outs = 0)"
  shows "settles body taken"
  using assms unfolding settles_def by blast

lemma settlesD:
  "settles body taken \<Longrightarrow> lte_ue_am ue \<Longrightarrow> body enb ue = Inr (ue', outs, r) \<Longrightarrow> lte_ue_am ue' \<and> le_rnti ue' = le_rnti ue \<and>
    lte_ue_debt ue' + lte_told (le_rnti ue) outs = lte_ue_debt ue + taken ue \<and> (\<forall>k. k \<noteq> le_rnti ue \<longrightarrow> lte_told k outs = 0)"
  unfolding settles_def by blast

lemma settles_on_slot:
  assumes "settles_entity f taken (\<lambda>r. 0)" "\<And>ue s. pick ue = Inr (Some s) \<Longrightarrow> lte_slot_ok ue s"
  shows "settles (on_lte_slot pick f none) (slot_taken pick taken)"
  unfolding settles_def using on_slot_settles [OF _ _ assms(1) assms(2)] by fastforce

lemma on_slot_result:
  assumes "on_lte_slot pick f none enb ue = Inr (ue', outs, r)"
  shows "(\<exists>e e'. f e = Inr (e', r)) \<or> none = Inr r"
proof -
  obtain p where p: "(case p of None \<Rightarrow> mapR (\<lambda>r. (ue, [], r)) none | Some s \<Rightarrow> lte_call enb s f ue) = Inr (ue', outs, r)"
    using assms by (auto simp: on_lte_slot_def bindR_eq_Inr)
  then show ?thesis by (cases p) (auto simp: mapR_def lte_call_def bindR_eq_Inr)
qed

lemma dc_report_others: "lte_dc_report junk rnti e = Inr (e', r) \<Longrightarrow> k \<noteq> rnti \<Longrightarrow> lte_told k r = 0"
  by (auto simp: lte_dc_report_def Let_def bindR_eq_Inr)

lemma settles_data_ind_body:
  "settles (\<lambda>enb ue. bindR (on_lte_slot (lte_channel_slot c) (\<lambda>e. bindR (lte_set_time t e) (\<lambda>e1.
      bindR (lte_recv_pdu b e1) (\<lambda>e2. lte_dc_report junk (le_rnti ue) e2))) (Inl Exit) enb ue)
      (\<lambda>(ue', outs, report). Inr (ue', outs @ report, ()))) (\<lambda>ue. 0)"
proof -
  have "lte_ue_am ue' \<and> le_rnti ue' = le_rnti ue \<and> lte_ue_debt ue' + lte_told (le_rnti ue) report = lte_ue_debt ue \<and>
      (\<forall>k. lte_told k outs = 0) \<and> (\<forall>k. k \<noteq> le_rnti ue \<longrightarrow> lte_told k report = 0)"
    if "on_lte_slot (lte_channel_slot c) (\<lambda>e. bindR (lte_set_time t e) (\<lambda>e1.
      bindR (lte_recv_pdu b e1) (\<lambda>e2. lte_dc_report junk (le_rnti ue) e2))) (Inl Exit) enb ue = Inr (ue', outs, report)"
      "lte_ue_am ue" for enb ue ue' outs report
  proof -
    note s = on_slot_settles [OF that settles_data_ind found_slot_ok(1)]
    have "slot_taken (lte_channel_slot c) (\<lambda>e. 0) ue = 0"
      by (auto simp: slot_taken_def am_taken_def split: sum.splits option.splits lte_entity.splits)
    moreover have "lte_told k report = 0" if "k \<noteq> le_rnti ue" for k
      using on_slot_result [OF \<open>on_lte_slot _ _ _ _ _ = _\<close>] dc_report_others [OF _ that] by (auto simp: bindR_eq_Inr)
    ultimately show ?thesis using s by simp
  qed
  note key = this
  show ?thesis
  proof (rule settlesI)
    fix enb ue ue' outs r
    assume "lte_ue_am ue" "bindR (on_lte_slot (lte_channel_slot c) (\<lambda>e. bindR (lte_set_time t e) (\<lambda>e1.
      bindR (lte_recv_pdu b e1) (\<lambda>e2. lte_dc_report junk (le_rnti ue) e2))) (Inl Exit) enb ue)
      (\<lambda>(ue', outs, report). Inr (ue', outs @ report, ())) = Inr (ue', outs, r)"
    then obtain o1 report where o: "on_lte_slot (lte_channel_slot c) (\<lambda>e. bindR (lte_set_time t e) (\<lambda>e1.
      bindR (lte_recv_pdu b e1) (\<lambda>e2. lte_dc_report junk (le_rnti ue) e2))) (Inl Exit) enb ue = Inr (ue', o1, report)"
      "outs = o1 @ report" by (auto simp only: bindR_eq_Inr split_paired_Ex prod.case sum.inject prod.inject)
    from key [OF o(1) \<open>lte_ue_am ue\<close>] o(2) show "lte_ue_am ue' \<and> le_rnti ue' = le_rnti ue \<and>
      lte_ue_debt ue' + lte_told (le_rnti ue) outs = lte_ue_debt ue + 0 \<and> (\<forall>k. k \<noteq> le_rnti ue \<longrightarrow> lte_told k outs = 0)" by simp
  qed
qed

text \<open>Every bearer of every UE is acknowledged and its books are sound, ids are distinct, and the manager is there once made.\<close>

definition lte_ues_am :: "rlc_ue list \<Rightarrow> bool" where
  "lte_ues_am ues \<longleftrightarrow> list_all lte_ue_am ues \<and> distinct (map le_rnti ues)"

definition lapi_am :: "lte_api \<Rightarrow> bool" where
  "lapi_am api \<longleftrightarrow> (case lapi_manager api of None \<Rightarrow> True | Some m \<Rightarrow> lapi_inited api \<and> lte_ues_am (lg_ue_list m))"

text \<open>The context of a UE, a blank one when there is none.\<close>

definition lapi_entry :: "lte_api \<Rightarrow> int \<Rightarrow> rlc_ue" where
  "lapi_entry api k = (case lapi_manager api of None \<Rightarrow> rlc_ue_zero k | Some m \<Rightarrow>
     (case ue_lookup le_rnti (lg_ue_list m) k of None \<Rightarrow> rlc_ue_zero k | Some ue \<Rightarrow> ue))"

definition lapi_balance :: "lte_api \<Rightarrow> int \<Rightarrow> int" where
  "lapi_balance api k = lte_ue_debt (lapi_entry api k) + lte_told k (lapi_out api)"

lemma zero_am [simp]: "lte_ue_am (rlc_ue_zero k)"
  by (simp add: lte_ue_am_def rlc_ue_zero_def numeral_2_eq_2 eval_nat_numeral)

lemma get_ue_am:
  assumes "rlc_manager_get_ue m u = (i, m1)" "list_all lte_ue_am (lg_ue_list m)"
  shows "list_all lte_ue_am (lg_ue_list m1)"
  using assms(1) by (cases rule: lte_ues.get_ue_cases) (simp_all add: assms(2))

lemma with_ue_settles:
  assumes "with_lte_ue u body api = Inr (r, api')" "settles body taken" "lapi_am api"
  shows "lapi_am api' \<and> (\<forall>k. lapi_balance api' k = lapi_balance api k + (if k = u then taken (lapi_entry api u) else 0))"
proof -
  obtain m where m: "lapi_manager api = Some m" "lapi_lock api = Inr (m\<lparr>lg_lock := True\<rparr>)"
    using assms(1) by (auto simp: with_lte_ue_def lapi_lock_def derefR_def rlc_manager_lock_def bindR_eq_Inr split: option.splits if_splits)
  obtain i m1 where g: "rlc_manager_get_ue (m\<lparr>lg_lock := True\<rparr>) u = (i, m1)" by fastforce
  let ?ue = "lg_ue_list m1 ! i"
  obtain ue' outs where b: "body (lg_enb_flag m1) ?ue = Inr (ue', outs, r)"
    "api' = api\<lparr>lapi_manager := Some (rlc_manager_unlock (put_rlc_ue i ue' m1)), lapi_out := lapi_out api @ outs\<rparr>"
    using assms(1) m(2) g by (auto simp: with_lte_ue_def bindR_eq_Inr)
  have e: "i < length (lg_ue_list m1)" "le_rnti ?ue = u" "?ue = lapi_entry api u"
    using lte_ues.get_ue_entry [OF g] m(1) by (auto simp: lapi_entry_def split: option.splits)
  have am: "list_all lte_ue_am (lg_ue_list m1)" "lapi_inited api" "distinct (map le_rnti (lg_ue_list m))"
    using get_ue_am [OF g] assms(3) m(1) by (simp_all add: lapi_am_def lte_ues_am_def)
  have s: "lte_ue_am ue'" "le_rnti ue' = u" "lte_ue_debt ue' + lte_told u outs = lte_ue_debt ?ue + taken ?ue"
    "\<And>k. k \<noteq> u \<Longrightarrow> lte_told k outs = 0"
    using settlesD [OF assms(2) _ b(1)] am(1) e(1,2) by (simp_all add: list_all_length)
  have l: "lg_ue_list (rlc_manager_unlock (put_rlc_ue i ue' m1)) = lg_ue_list (put_rlc_ue i ue' m1)"
    by (simp add: rlc_manager_unlock_def)
  have "distinct (map le_rnti (lg_ue_list (put_rlc_ue i ue' m1)))"
    using lte_ues.get_put_distinct [OF g s(2)] am(3) by simp
  moreover have "list_all lte_ue_am (lg_ue_list (put_rlc_ue i ue' m1))" using am(1) s(1) by (simp add: lte_ues.ues_put list_all_upd)
  ultimately have "lapi_am api'" using am(2) by (simp add: b(2) lapi_am_def lte_ues_am_def l)
  moreover have "lapi_balance api' k = lapi_balance api k + (if k = u then taken (lapi_entry api u) else 0)" for k
  proof (cases "k = u")
    case True
    have "lapi_entry api' u = ue'" using lte_ues.get_put_same [OF g s(2)] by (simp add: lapi_entry_def b(2) l)
    with True s(3) e(3) show ?thesis by (simp add: lapi_balance_def b(2))
  next
    case False
    have "lapi_entry api' k = lapi_entry api k"
      using lte_ues.get_put_others [OF g s(2) False] m(1) by (simp add: lapi_entry_def b(2) l)
    with False s(4) [of k] show ?thesis by (simp add: lapi_balance_def b(2))
  qed
  ultimately show ?thesis by blast
qed

subsection \<open>New bearers\<close>

lemma module_id_account [simp]:
  "lte_ue_am (ue\<lparr>le_module_id := n\<rparr>) = lte_ue_am ue" "lte_ue_debt (ue\<lparr>le_module_id := n\<rparr>) = lte_ue_debt ue"
  by (simp_all add: lte_ue_am_def lte_ue_debt_def)

text \<open>A new entity owes nothing.\<close>

definition lte_new_bearer :: "lte_entity \<Rightarrow> bool" where
  "lte_new_bearer x \<longleftrightarrow> lte_am_bearer (Some x) \<and> lte_debt (Some x) = 0"

lemma add_srb_account:
  assumes "rlc_ue_add_srb_rlc_entity ue i x = Inr ue'" "lte_new_bearer x" "lte_ue_am ue"
  shows "lte_ue_am ue' \<and> le_rnti ue' = le_rnti ue \<and> lte_ue_debt ue' = lte_ue_debt ue"
proof -
  have j: "nat (i - 1) < length (le_srb ue)" "le_srb ue ! nat (i - 1) = None" "ue' = lte_set_slot (LteSrb (nat (i - 1))) (Some x) ue"
    using assms(1) by (auto simp: rlc_ue_add_srb_rlc_entity_def array_get_def bindR_eq_Inr split: if_splits)
  with set_slot_account [of ue "LteSrb (nat (i - 1))" "Some x"] assms(2,3) show ?thesis by (simp add: lte_new_bearer_def)
qed

lemma add_drb_account:
  assumes "rlc_ue_add_drb_rlc_entity ue i x = Inr ue'" "lte_new_bearer x" "lte_ue_am ue"
  shows "lte_ue_am ue' \<and> le_rnti ue' = le_rnti ue \<and> lte_ue_debt ue' = lte_ue_debt ue"
proof -
  have j: "nat (i - 1) < length (le_drb ue)" "le_drb ue ! nat (i - 1) = None" "ue' = lte_set_slot (LteDrb (nat (i - 1))) (Some x) ue"
    using assms(1) by (auto simp: rlc_ue_add_drb_rlc_entity_def array_get_def bindR_eq_Inr split: if_splits)
  with set_slot_account [of ue "LteDrb (nat (i - 1))" "Some x"] assms(2,3) show ?thesis by (simp add: lte_new_bearer_def)
qed

lemma settles_put:
  assumes "\<And>ue ue'. add ue = Inr ue' \<Longrightarrow> lte_ue_am ue \<Longrightarrow> lte_ue_am ue' \<and> le_rnti ue' = le_rnti ue \<and> lte_ue_debt ue' = lte_ue_debt ue"
  shows "settles (\<lambda>enb ue0. let ue = ue0\<lparr>le_module_id := n\<rparr> in bindR (slot ue) (\<lambda>p.
    if p \<noteq> None then Inr (ue, [], ()) else mapR (\<lambda>ue'. (ue', [], ())) (add ue))) (\<lambda>ue. 0)"
proof (rule settlesI)
  fix enb ue ue' r and outs :: "lte_out list"
  assume am: "lte_ue_am ue" and b: "(let ue = ue\<lparr>le_module_id := n\<rparr> in bindR (slot ue) (\<lambda>p.
    if p \<noteq> None then Inr (ue, [], ()) else mapR (\<lambda>ue'. (ue', [], ())) (add ue))) = Inr (ue', outs, r)"
  let ?ue = "ue\<lparr>le_module_id := n\<rparr>"
  obtain p where p: "slot ?ue = Inr p" "(if p \<noteq> None then Inr (?ue, [], ()) else mapR (\<lambda>ue'. (ue', [], ())) (add ?ue)) = Inr (ue', outs, r)"
    using b unfolding Let_def bindR_eq_Inr by blast
  have "lte_ue_am ue' \<and> le_rnti ue' = le_rnti ue \<and> lte_ue_debt ue' = lte_ue_debt ue \<and> outs = []"
    using p(2) am assms [of ?ue ue'] by (cases p) (auto simp: mapR_def bindR_eq_Inr)
  then show "lte_ue_am ue' \<and> le_rnti ue' = le_rnti ue \<and> lte_ue_debt ue' + lte_told (le_rnti ue) outs = lte_ue_debt ue + 0 \<and>
    (\<forall>k. k \<noteq> le_rnti ue \<longrightarrow> lte_told k outs = 0)" by simp
qed

lemma put_srb_settles:
  assumes "lte_put_srb u n i x api = Inr (r, api')" "lte_new_bearer x" "lapi_am api"
  shows "lapi_am api' \<and> (\<forall>k. lapi_balance api' k = lapi_balance api k)"
  using with_ue_settles [OF assms(1) [unfolded lte_put_srb_def] settles_put [OF add_srb_account [OF _ assms(2)]] assms(3)] by simp

lemma put_drb_settles:
  assumes "lte_put_drb u (Some n) i x api = Inr (r, api')" "lte_new_bearer x" "lapi_am api"
  shows "lapi_am api' \<and> (\<forall>k. lapi_balance api' k = lapi_balance api k)"
  using with_ue_settles [OF assms(1) [unfolded lte_put_drb_def option.case] settles_put [OF add_drb_account [OF _ assms(2)]] assms(3)]
  by simp

lemma new_am_bearer: "lte_new_bearer (LteAm (new_rlc_entity_am a b c d e f g h))"
  by (simp add: lte_new_bearer_def new_rlc_entity_am_def la_balanced_def la_linked_def la_order_def la_sn_ok_def sdu_tail_ok_def
      la_unreported_def la_waiting_def)

lemma new_am_new: "lte_new_am n am = Inr x \<Longrightarrow> lte_new_bearer x"
  by (auto simp: lte_new_am_def bindR_eq_Inr new_am_bearer)

lemma default_srb_new: "lte_new_bearer lte_default_srb"
  by (simp add: lte_default_srb_def new_am_bearer)

section \<open>Removed bearers and UEs\<close>

text \<open>The slot of a bearer, in the array of its kind.\<close>

definition lte_removed_slot :: "bool \<Rightarrow> int \<Rightarrow> rlc_ue \<Rightarrow> lte_slot option result" where
  "lte_removed_slot srb rb ue = (if srb then lte_srb_slot ue (rb - 1) else lte_drb_slot ue (rb - 1))"

definition slot_debt :: "lte_slot option result \<Rightarrow> rlc_ue \<Rightarrow> int" where
  "slot_debt p ue = (case p of Inr (Some s) \<Rightarrow> lte_debt (lte_entity_at ue s) | _ \<Rightarrow> 0)"

lemma remove_bearer_account:
  assumes "lte_removed_slot srb rb ue = Inr p" "lte_ue_am ue"
  shows "lte_ue_am (lte_remove_bearer p ue) \<and> le_rnti (lte_remove_bearer p ue) = le_rnti ue \<and>
    lte_ue_debt (lte_remove_bearer p ue) + slot_debt (Inr p) ue = lte_ue_debt ue"
proof (cases p)
  case None
  then show ?thesis using assms(2) by (simp add: lte_remove_bearer_def slot_debt_def)
next
  case (Some s)
  have "lte_slot_ok ue s" using assms(1) Some by (auto simp: lte_removed_slot_def split: if_splits dest: srb_slot_ok drb_slot_ok)
  from set_slot_account [OF this assms(2), of None] Some show ?thesis by (simp add: lte_remove_bearer_def slot_debt_def)
qed

text \<open>A UE without a bearer owes nothing, as one that is not in the table.\<close>

lemma no_bearer_debt: "lte_no_bearer_left ue \<Longrightarrow> lte_ue_am ue \<Longrightarrow> lte_ue_debt ue = 0"
proof -
  have z: "sum_list (map lte_debt xs) = 0" if "\<forall>i < length xs. xs ! i = None" for xs
  proof -
    have "\<forall>x \<in> set xs. x = None" using that by (auto simp: in_set_conv_nth)
    then show ?thesis by (induction xs) auto
  qed
  assume "lte_no_bearer_left ue" "lte_ue_am ue"
  then show ?thesis by (simp add: lte_no_bearer_left_def lte_ue_am_def lte_ue_debt_def z)
qed

lemma zero_debt [simp]: "lte_ue_debt (rlc_ue_zero k) = 0"
  by (simp add: lte_ue_debt_def rlc_ue_zero_def eval_nat_numeral)

lemma remove_ue_account:
  assumes "rlc_manager_remove_ue m u = Inr m'" "lte_ues_am (lg_ue_list m)"
  shows "lte_ues_am (lg_ue_list m')" "ue_lookup le_rnti (lg_ue_list m') u = None"
    "k \<noteq> u \<Longrightarrow> ue_lookup le_rnti (lg_ue_list m') k = ue_lookup le_rnti (lg_ue_list m) k"
proof -
  have "set (lg_ue_list m') \<subseteq> set (lg_ue_list m)"
    using lte_ues.ues_remove [OF assms(1)]
    by (auto simp: ue_drop_def split: option.splits dest: in_set_takeD in_set_dropD)
  with lte_ues.remove_same [OF assms(1)] assms(2)
  show "lte_ues_am (lg_ue_list m')" "ue_lookup le_rnti (lg_ue_list m') u = None"
    by (auto simp: lte_ues_am_def list_all_iff)
  show "k \<noteq> u \<Longrightarrow> ue_lookup le_rnti (lg_ue_list m') k = ue_lookup le_rnti (lg_ue_list m) k"
    by (rule lte_ues.remove_others [OF assms(1)])
qed

lemma unlock_list [simp]: "lg_ue_list (rlc_manager_unlock m) = lg_ue_list m"
  by (simp add: rlc_manager_unlock_def)

lemma lapi_lock_Inr: "lapi_lock api = Inr m \<Longrightarrow> \<exists>m0. lapi_manager api = Some m0 \<and> m = m0\<lparr>lg_lock := True\<rparr>"
  by (auto simp: lapi_lock_def derefR_def rlc_manager_lock_def split: option.splits if_splits)

lemma remove_ue_balance:
  assumes "lte_rrc_rlc_remove_ue u api = Inr (x, api')" "lapi_am api"
  shows "lapi_am api' \<and> (\<forall>k. lapi_balance api' k + (if k = u then lte_ue_debt (lapi_entry api u) else 0) = lapi_balance api k)"
proof -
  obtain m m1 where m: "lapi_manager api = Some m" "rlc_manager_remove_ue (m\<lparr>lg_lock := True\<rparr>) u = Inr m1"
    "api' = api\<lparr>lapi_manager := Some (rlc_manager_unlock m1)\<rparr>"
    using assms(1) by (auto simp: lte_rrc_rlc_remove_ue_def bindR_eq_Inr dest: lapi_lock_Inr)
  have am: "lte_ues_am (lg_ue_list (m\<lparr>lg_lock := True\<rparr>))" "lapi_inited api" using assms(2) m(1) by (simp_all add: lapi_am_def)
  note d = remove_ue_account [OF m(2) am(1)]
  have "lapi_balance api' k + (if k = u then lte_ue_debt (lapi_entry api u) else 0) = lapi_balance api k" for k
    using d(2) d(3) [of k] m(1) by (cases "k = u") (simp_all add: lapi_balance_def lapi_entry_def m(3))
  moreover have "lapi_am api'" using d(1) am(2) by (simp add: lapi_am_def m(3))
  ultimately show ?thesis by blast
qed

lemma config_req_balance:
  assumes "lte_rrc_rlc_config_req u srb mb rm md rb api = Inr (x, api')" "lapi_am api"
  shows "lapi_am api' \<and> (\<forall>k. lapi_balance api' k +
    (if k = u then slot_debt (lte_removed_slot srb rb (lapi_entry api u)) (lapi_entry api u) else 0) = lapi_balance api k)"
proof -
  obtain m where m: "lapi_manager api = Some m" "lapi_lock api = Inr (m\<lparr>lg_lock := True\<rparr>)"
    using assms(1) by (auto simp: lte_rrc_rlc_config_req_def bindR_eq_Inr split: if_splits dest: lapi_lock_Inr)
  obtain i m1 where g: "rlc_manager_get_ue (m\<lparr>lg_lock := True\<rparr>) u = (i, m1)" by fastforce
  let ?ue = "lg_ue_list m1 ! i"
  obtain p m3 where p: "lte_removed_slot srb rb ?ue = Inr p"
    "(if lte_no_bearer_left (lte_remove_bearer p ?ue) then rlc_manager_remove_ue (put_rlc_ue i (lte_remove_bearer p ?ue) m1) u
      else Inr (put_rlc_ue i (lte_remove_bearer p ?ue) m1)) = Inr m3"
    "api' = api\<lparr>lapi_manager := Some (rlc_manager_unlock m3)\<rparr>"
  proof -
    have "bindR (lte_removed_slot srb rb ?ue) (\<lambda>p. bindR (if lte_no_bearer_left (lte_remove_bearer p ?ue)
          then rlc_manager_remove_ue (put_rlc_ue i (lte_remove_bearer p ?ue) m1) u
          else Inr (put_rlc_ue i (lte_remove_bearer p ?ue) m1)) (\<lambda>m3.
        Inr ((), api\<lparr>lapi_manager := Some (rlc_manager_unlock m3)\<rparr>))) = Inr (x, api')"
      using assms(1) unfolding lte_rrc_rlc_config_req_def m(2) bindR_Inr g prod.case Let_def lte_removed_slot_def
      by (metis Inl_Inr_False)
    then show thesis unfolding bindR_eq_Inr by (auto intro: that)
  qed
  define w where "w = lte_remove_bearer p ?ue"
  define m2 where "m2 = put_rlc_ue i w m1"
  have e: "i < length (lg_ue_list m1)" "le_rnti ?ue = u" "?ue = lapi_entry api u"
    using lte_ues.get_ue_entry [OF g] m(1) by (auto simp: lapi_entry_def split: option.splits)
  have am: "list_all lte_ue_am (lg_ue_list m1)" "lapi_inited api" "distinct (map le_rnti (lg_ue_list m))"
    using get_ue_am [OF g] assms(2) m(1) by (simp_all add: lapi_am_def lte_ues_am_def)
  then have "lte_ue_am ?ue" using e(1) by (simp add: list_all_length)
  then have w: "lte_ue_am w" "le_rnti w = u" "lte_ue_debt w + slot_debt (Inr p) ?ue = lte_ue_debt ?ue"
    using remove_bearer_account [OF p(1)] e(2) by (simp_all add: w_def)
  have "distinct (map le_rnti (lg_ue_list m2))" unfolding m2_def using lte_ues.get_put_distinct [OF g w(2)] am(3) by simp
  then have m2: "lte_ues_am (lg_ue_list m2)" using am(1) w(1) by (simp add: lte_ues_am_def m2_def lte_ues.ues_put list_all_upd)
  have same: "ue_lookup le_rnti (lg_ue_list m2) u = Some w" unfolding m2_def by (rule lte_ues.get_put_same [OF g w(2)])
  have others: "ue_lookup le_rnti (lg_ue_list m2) k = ue_lookup le_rnti (lg_ue_list m) k" if "k \<noteq> u" for k
    unfolding m2_def using lte_ues.get_put_others [OF g w(2) that] by simp
  have m3: "lte_ues_am (lg_ue_list m3)" "\<And>k. k \<noteq> u \<Longrightarrow> ue_lookup le_rnti (lg_ue_list m3) k = ue_lookup le_rnti (lg_ue_list m2) k"
    "(case ue_lookup le_rnti (lg_ue_list m3) u of None \<Rightarrow> 0 | Some v \<Rightarrow> lte_ue_debt v) = lte_ue_debt w"
    using p(2) remove_ue_account [of m2 u m3] m2 same no_bearer_debt [OF _ w(1)]
    by (auto simp flip: w_def m2_def split: if_splits)
  have "lapi_balance api' k + (if k = u then slot_debt (lte_removed_slot srb rb (lapi_entry api u)) (lapi_entry api u) else 0) =
      lapi_balance api k" for k
  proof (cases "k = u")
    case True
    have "lte_ue_debt (lapi_entry api' u) = lte_ue_debt w" using m3(3) by (simp add: lapi_entry_def p(3) split: option.splits)
    with True w(3) p(1) e(3) show ?thesis by (simp add: lapi_balance_def p(3))
  next
    case False
    have "lapi_entry api' k = lapi_entry api k" using m3(2) others False m(1) by (simp add: lapi_entry_def p(3))
    with False show ?thesis by (simp add: lapi_balance_def p(3))
  qed
  moreover have "lapi_am api'" using m3(1) am(2) by (simp add: lapi_am_def p(3))
  ultimately show ?thesis by blast
qed

section \<open>Runs\<close>

text \<open>All the functions of the interface, with the arguments they have.\<close>

datatype lte_op =
    LcDataInd int int int int bool bool int "byte list"
  | LcDataReq int bool int nat
  | LcStatusInd int bool int
  | LcBufferOccupancyInd int bool int
  | LcDataFromPdcp int bool bool int int "byte list"
  | LcModuleInit int
  | LcConfigAsn1 int int bool int "lte_srb_to_add list option" "lte_drb_to_add list option" "int list option"
      "mbms_session list list option"
  | LcConfigReq int bool bool bool int int
  | LcRemoveUe int
  | LcTick int int

text \<open>A call that does not ask for an unacknowledged bearer, nor for one of MBMS, which is unacknowledged.\<close>

definition lte_acknowledged_drb :: "lte_drb_to_add \<Rightarrow> bool" where
  "lte_acknowledged_drb s \<longleftrightarrow> (case xd_rlc_Config s of Some (LteConfigUmBiDirectional um) \<Rightarrow> False | _ \<Rightarrow> True)"

fun lte_acknowledged :: "lte_op \<Rightarrow> bool" where
  "lte_acknowledged (LcConfigAsn1 u n enb inst srbs drbs rel pmch) =
     ((case drbs of None \<Rightarrow> True | Some l \<Rightarrow> list_all lte_acknowledged_drb l) \<and> pmch = None)"
| "lte_acknowledged _ = True"

definition lte_forget :: "('a \<times> lte_api) result \<Rightarrow> lte_api result" where
  "lte_forget r = mapR snd r"

fun lte_step :: "lte_op \<Rightarrow> lte_api \<Rightarrow> lte_api result" where
  "lte_step (LcDataInd junk n u i enb mb c b) api = lte_forget (lte_mac_rlc_data_ind junk n u i enb mb c b api)"
| "lte_step (LcDataReq u mb c n) api = lte_forget (lte_mac_rlc_data_req u mb c (replicate n 0) api)"
| "lte_step (LcStatusInd u mb c) api = lte_forget (lte_mac_rlc_status_ind u mb c api)"
| "lte_step (LcBufferOccupancyInd u enb c) api = lte_forget (lte_mac_rlc_get_buffer_occupancy_ind u enb c api)"
| "lte_step (LcDataFromPdcp u srb mb rb mui b) api = lte_forget (lte_rlc_data_req u srb mb rb mui b api)"
| "lte_step (LcModuleInit enb) api = lte_forget (lte_rlc_module_init enb api)"
| "lte_step (LcConfigAsn1 u n enb inst srbs drbs rel pmch) api =
     lte_forget (lte_rrc_rlc_config_asn1_req u n enb inst srbs drbs rel pmch api)"
| "lte_step (LcConfigReq u srb mb rm n rb) api = lte_forget (lte_rrc_rlc_config_req u srb mb rm n rb api)"
| "lte_step (LcRemoveUe u) api = lte_forget (lte_rrc_rlc_remove_ue u api)"
| "lte_step (LcTick f sf) api = Inr (rlc_tick f sf api)"

text \<open>The bytes that a call hands to a bearer of a UE and that the bearer takes.\<close>

fun lte_taken :: "int \<Rightarrow> lte_op \<Rightarrow> lte_api \<Rightarrow> int" where
  "lte_taken k (LcDataFromPdcp u srb mb rb mui b) api =
     (if k = (if mb then MBMS_RNTI else u) then slot_taken (lte_bearer_slot srb mb rb) (la_taken b) (lapi_entry api k) else 0)"
| "lte_taken k _ api = 0"

text \<open>The bytes that go with a removed bearer or a removed UE.\<close>

fun lte_dropped :: "int \<Rightarrow> lte_op \<Rightarrow> lte_api \<Rightarrow> int" where
  "lte_dropped k (LcConfigReq u srb mb rm n rb) api =
     (if k = u then slot_debt (lte_removed_slot srb rb (lapi_entry api k)) (lapi_entry api k) else 0)"
| "lte_dropped k (LcRemoveUe u) api = (if k = u then lte_ue_debt (lapi_entry api k) else 0)"
| "lte_dropped k _ api = 0"

fun lte_calls :: "int \<Rightarrow> lte_op list \<Rightarrow> lte_api \<Rightarrow> (int \<times> int \<times> lte_api) result" where
  "lte_calls k [] api = Inr (0, 0, api)"
| "lte_calls k (c # cs) api =
     bindR (lte_step c api) (\<lambda>api1. bindR (lte_calls k cs api1) (\<lambda>(taken, dropped, api2).
       Inr (lte_taken k c api + taken, lte_dropped k c api + dropped, api2)))"

lemma forget_Inr: "lte_forget r = Inr a \<longleftrightarrow> (\<exists>x. r = Inr (x, a))"
  by (auto simp: lte_forget_def mapR_def bindR_eq_Inr)

lemma slot_taken_0 [simp]: "slot_taken pick (\<lambda>e. 0) ue = 0"
  by (auto simp: slot_taken_def am_taken_def split: sum.splits option.splits lte_entity.splits)

lemma srb_entity_new:
  assumes "(case r of SrbRlcExplicit (LteConfigAm am) \<Rightarrow> lte_new_am 100000 am | SrbRlcExplicit _ \<Rightarrow> Inl Exit
    | SrbRlcDefault \<Rightarrow> Inr lte_default_srb | SrbRlcNothing \<Rightarrow> Inl Exit) = Inr e"
  shows "lte_new_bearer e"
  using assms by (auto simp: default_srb_new dest: new_am_new split: lte_srb_rlc.splits lte_rlc_config.splits)

lemma add_srb_puts:
  assumes "lte_add_srb u n s api = Inr (x, api')"
  shows "\<exists>e. lte_put_srb u n (xs_srb_Identity s) e api = Inr (x, api') \<and> lte_new_bearer e"
proof -
  obtain r e where "(case r of SrbRlcExplicit (LteConfigAm am) \<Rightarrow> lte_new_am 100000 am | SrbRlcExplicit _ \<Rightarrow> Inl Exit
      | SrbRlcDefault \<Rightarrow> Inr lte_default_srb | SrbRlcNothing \<Rightarrow> Inl Exit) = Inr e"
    "lte_put_srb u n (xs_srb_Identity s) e api = Inr (x, api')"
    using assms unfolding lte_add_srb_def Let_def by (auto simp only: bindR_eq_Inr split: if_split_asm)
  with srb_entity_new show ?thesis by blast
qed

lemma add_drb_settles:
  assumes "lte_add_drb u n s api = Inr (x, api')" "lapi_am api" "lte_acknowledged_drb s"
  shows "lapi_am api' \<and> (\<forall>k. lapi_balance api' k = lapi_balance api k)"
proof -
  obtain e i where "lte_put_drb u (Some n) i e api = Inr (x, api')" "lte_new_bearer e"
    using assms(1,3) by (auto simp: lte_add_drb_def derefR_def lte_add_drb_am_def lte_acknowledged_drb_def bindR_eq_Inr
      dest: new_am_new split: option.splits lte_rlc_config.splits)
  from put_drb_settles [OF this assms(2)] show ?thesis .
qed

lemma add_srb_settles:
  assumes "lte_add_srb u n s api = Inr (x, api')" "lapi_am api"
  shows "lapi_am api' \<and> (\<forall>k. lapi_balance api' k = lapi_balance api k)"
  using add_srb_puts [OF assms(1)] put_srb_settles assms(2) by blast

lemma for_each_settles:
  assumes "\<And>y api x api'. y \<in> set ys \<Longrightarrow> f y api = Inr (x, api') \<Longrightarrow> lapi_am api \<Longrightarrow>
      lapi_am api' \<and> (\<forall>k. lapi_balance api' k = lapi_balance api k)"
    and "lte_for_each f ys api = Inr (x, api')" "lapi_am api"
  shows "lapi_am api' \<and> (\<forall>k. lapi_balance api' k = lapi_balance api k)"
  using assms
proof (induction ys arbitrary: api)
  case (Cons y ys)
  obtain x1 api1 where s: "f y api = Inr (x1, api1)" "lte_for_each f ys api1 = Inr (x, api')"
    using Cons.prems(2) by (auto simp: bindR_eq_Inr)
  from Cons.prems(1) [OF _ s(1) Cons.prems(3)] Cons.IH [OF _ s(2)] Cons.prems(1) show ?case by fastforce
qed simp

lemma config_asn1_settles:
  assumes "lte_rrc_rlc_config_asn1_req u n enb inst srbs drbs rel None api = Inr (x, api')" "lapi_am api"
    and "case drbs of None \<Rightarrow> True | Some l \<Rightarrow> list_all lte_acknowledged_drb l"
  shows "lapi_am api' \<and> (\<forall>k. lapi_balance api' k = lapi_balance api k)"
proof -
  obtain y api2 where s: "(case srbs of None \<Rightarrow> Inr ((), api) | Some l \<Rightarrow> lte_for_each (lte_add_srb u n) l api) = Inr (y, api2)"
    "(case drbs of None \<Rightarrow> Inr ((), api2) | Some l \<Rightarrow> lte_for_each (lte_add_drb u n) l api2) = Inr (x, api')"
    using assms(1) by (auto simp: lte_rrc_rlc_config_asn1_req_def bindR_eq_Inr split: if_splits)
  have 1: "lapi_am api2 \<and> (\<forall>k. lapi_balance api2 k = lapi_balance api k)"
  proof (cases srbs)
    case (Some l)
    with for_each_settles [of l "lte_add_srb u n", OF add_srb_settles _ assms(2)] s(1) show ?thesis by simp
  qed (use s(1) assms(2) in simp)
  then have am: "lapi_am api2" by simp
  have "lapi_am api' \<and> (\<forall>k. lapi_balance api' k = lapi_balance api2 k)"
  proof (cases drbs)
    case (Some l)
    have "\<And>y. y \<in> set l \<Longrightarrow> lte_acknowledged_drb y" using assms(3) Some by (simp add: list_all_iff)
    with for_each_settles [of l "lte_add_drb u n" api2 x api', OF add_drb_settles _ am] s(2) Some show ?thesis by simp
  qed (use s(2) am in simp)
  with 1 show ?thesis by simp
qed

lemma tick_keeps [simp]:
  "lapi_manager (rlc_tick f sf api) = lapi_manager api" "lapi_inited (rlc_tick f sf api) = lapi_inited api"
  "lapi_out (rlc_tick f sf api) = lapi_out api"
  by (simp_all add: rlc_tick_def)

lemma step_balance:
  assumes "lte_step c api = Inr api'" "lapi_am api" "lte_acknowledged c"
  shows "lapi_am api' \<and> (\<forall>k. lapi_balance api' k + lte_dropped k c api = lapi_balance api k + lte_taken k c api)"
proof (cases c)
  case (LcDataInd junk n u i enb mb ch b)
  then obtain x rnti ch' where x: "with_lte_ue rnti (\<lambda>enb ue. bindR (on_lte_slot (lte_channel_slot ch')
      (\<lambda>e. bindR (lte_set_time (lapi_current_time api) e) (\<lambda>e1. bindR (lte_recv_pdu b e1) (\<lambda>e2. lte_dc_report junk (le_rnti ue) e2)))
      (Inl Exit) enb ue) (\<lambda>(ue', outs, report). Inr (ue', outs @ report, ()))) api = Inr (x, api')"
    using assms(1) by (auto simp: forget_Inr lte_mac_rlc_data_ind_def bindR_eq_Inr split: if_splits)
  from with_ue_settles [OF x settles_data_ind_body assms(2)] LcDataInd show ?thesis by simp
next
  case (LcDataReq u mb ch n)
  then obtain x where "lte_mac_rlc_data_req u mb ch (replicate n 0) api = Inr (x, api')" using assms(1) by (auto simp: forget_Inr)
  from with_ue_settles [OF this [unfolded lte_mac_rlc_data_req_def] settles_on_slot [OF settles_data_req found_slot_ok(2)] assms(2)]
    LcDataReq show ?thesis by simp
next
  case (LcStatusInd u mb ch)
  then obtain x where "lte_mac_rlc_status_ind u mb ch api = Inr (x, api')" using assms(1) by (auto simp: forget_Inr)
  from with_ue_settles [OF this [unfolded lte_mac_rlc_status_ind_def]
      settles_on_slot [OF settles_bytes_in_buffer found_slot_ok(2)] assms(2)] LcStatusInd show ?thesis by simp
next
  case (LcBufferOccupancyInd u enb ch)
  then obtain x where "with_lte_ue u (on_lte_slot (lte_channel_slot ch) (lte_bytes_in_buffer (lapi_current_time api)) (Inr 0)) api = Inr (x, api')"
    using assms(1) by (auto simp: forget_Inr lte_mac_rlc_get_buffer_occupancy_ind_def split: if_splits)
  from with_ue_settles [OF this settles_on_slot [OF settles_bytes_in_buffer found_slot_ok(1)] assms(2)]
    LcBufferOccupancyInd show ?thesis by simp
next
  case (LcDataFromPdcp u srb mb rb mui b)
  then obtain x where "lte_rlc_data_req u srb mb rb mui b api = Inr (x, api')" using assms(1) by (auto simp: forget_Inr)
  from with_ue_settles [OF this [unfolded lte_rlc_data_req_def] settles_on_slot [OF settles_recv_sdu found_slot_ok(3)] assms(2)]
    LcDataFromPdcp show ?thesis by auto
next
  case (LcModuleInit enb)
  then obtain x where "lte_rlc_module_init enb api = Inr (x, api')" using assms(1) by (auto simp: forget_Inr)
  then have i: "\<not> lapi_inited api" "api' = api\<lparr>lapi_inited := True, lapi_manager := Some (new_rlc_ue_manager enb)\<rparr>"
    by (auto simp: lte_rlc_module_init_def split: if_splits)
  have n: "lapi_manager api = None" using i(1) assms(2) by (auto simp: lapi_am_def split: option.splits)
  show ?thesis using LcModuleInit
    by (simp add: i(2) n lapi_am_def lte_ues_am_def new_rlc_ue_manager_def lapi_balance_def lapi_entry_def)
next
  case (LcConfigAsn1 u n enb inst srbs drbs rel pmch)
  then obtain x where "lte_rrc_rlc_config_asn1_req u n enb inst srbs drbs rel pmch api = Inr (x, api')"
    using assms(1) by (auto simp: forget_Inr)
  with config_asn1_settles [of u n enb inst srbs drbs rel api x api'] assms(2,3) LcConfigAsn1 show ?thesis by simp
next
  case (LcConfigReq u srb mb rm n rb)
  then obtain x where "lte_rrc_rlc_config_req u srb mb rm n rb api = Inr (x, api')" using assms(1) by (auto simp: forget_Inr)
  from config_req_balance [OF this assms(2)] LcConfigReq show ?thesis by (auto split: if_splits)
next
  case (LcRemoveUe u)
  then obtain x where "lte_rrc_rlc_remove_ue u api = Inr (x, api')" using assms(1) by (auto simp: forget_Inr)
  from remove_ue_balance [OF this assms(2)] LcRemoveUe show ?thesis by (auto split: if_splits)
next
  case (LcTick f sf)
  with assms show ?thesis
    by (cases "lapi_manager api") (auto simp: lapi_am_def lapi_balance_def lapi_entry_def)
qed

text \<open>
  Property C7. What an LTE base station tells the split about a UE is exact, over all calls of its RLC interface
  for any number of UEs as long as no unacknowledged bearer and none of MBMS is configured: each byte of the UE that a
  bearer took from PDCP is in a transmit buffer, or acknowledged and not reported yet, or reported in a message with the
  id of this UE, or was dropped with a bearer or with the UE when RRC removed it, and no byte is reported twice or for
  another UE.
\<close>

theorem lte_reports_exact:
  assumes "lapi_am api" "list_all lte_acknowledged cs" "lte_calls rnti cs api = Inr (taken, dropped, api')"
  shows "lte_ue_debt (lapi_entry api' rnti) + lte_told rnti (lapi_out api') + dropped =
    lte_ue_debt (lapi_entry api rnti) + lte_told rnti (lapi_out api) + taken"
proof -
  have "lapi_balance api' rnti + dropped = lapi_balance api rnti + taken" using assms
  proof (induction cs arbitrary: api taken dropped)
    case (Cons c cs)
    then obtain api1 n d where s: "lte_step c api = Inr api1" "lte_calls rnti cs api1 = Inr (n, d, api')"
      "taken = lte_taken rnti c api + n" "dropped = lte_dropped rnti c api + d"
      by (auto simp: bindR_eq_Inr)
    have one: "lapi_am api1" "lapi_balance api1 rnti + lte_dropped rnti c api = lapi_balance api rnti + lte_taken rnti c api"
      using step_balance [OF s(1) Cons.prems(1)] Cons.prems(2) by simp_all
    have "lapi_balance api' rnti + d = lapi_balance api1 rnti + n"
      using Cons.IH [OF one(1) _ s(2)] Cons.prems(2) by simp
    with one(2) s(3,4) show ?case by simp
  qed simp
  then show ?thesis by (simp add: lapi_balance_def)
qed

text \<open>
  Two UEs with a data bearer each; the first sends two SDUs, of which its peer acknowledges one, and a third after it
  is removed and configured again; the second sends one, and its bearer is removed.
\<close>

definition lte_demo_am :: lte_am_config where
  "lte_demo_am = \<lparr>xa_dl_t_Reordering = 7, xa_dl_t_StatusProhibit = 0, xa_ul_t_PollRetransmit = 8, xa_ul_pollPDU = 7,
     xa_ul_pollByte = 14, xa_ul_maxRetxThreshold = 3\<rparr>"

definition lte_demo_drb :: lte_drb_to_add where
  "lte_demo_drb = \<lparr>xd_drb_Identity = 1, xd_logicalChannelIdentity = Some 3, xd_rlc_Config = Some (LteConfigAm lte_demo_am),
     xd_logicalChannelConfig = Some (Some (Some 1))\<rparr>"

definition lte_demo_config :: "int \<Rightarrow> lte_op" where
  "lte_demo_config rnti = LcConfigAsn1 rnti 0 True 0 None (Some [lte_demo_drb]) None None"

definition lte_demo_calls :: "lte_op list" where
  "lte_demo_calls =
     [LcModuleInit 1, LcTick 0 1, lte_demo_config 70, lte_demo_config 71,
      LcDataFromPdcp 70 False False 1 0 [1, 2, 3], LcDataFromPdcp 70 False False 1 1 [4, 5], LcDataFromPdcp 71 False False 1 0 [6],
      LcDataReq 70 False 3 5, LcDataReq 70 False 3 4, LcDataReq 71 False 3 3, LcTick 0 2,
      LcDataInd 0 0 70 0 True False 3 [0x00, 0x04], LcDataInd 0 0 71 0 True False 3 [0x00, 0x00],
      LcRemoveUe 70, LcConfigReq 71 False False True 0 1, lte_demo_config 70, LcDataFromPdcp 70 False False 1 2 [7]]"

definition lte_demo_api :: lte_api where
  "lte_demo_api = lte_api_start\<lparr>lapi_inited := True, lapi_manager := Some (new_rlc_ue_manager 1)\<rparr>"

lemma lte_demo_start: "lapi_am lte_api_start" "lapi_balance lte_api_start k = 0" "list_all lte_acknowledged lte_demo_calls"
  by (simp_all add: lapi_am_def lapi_balance_def lapi_entry_def lte_api_start_def lte_demo_calls_def lte_demo_config_def
    lte_acknowledged_drb_def lte_demo_drb_def)

theorem lte_reports_exact_witness:
  "\<exists>api'. lte_calls 70 lte_demo_calls lte_api_start = Inr (6, 2, api') \<and>
    lapi_out api' = [X2apEndcLteInfo 70 3 0, X2apEndcLteInfo 71 0 0] \<and> lte_ue_debt (lapi_entry api' 70) = 1"
proof -
  have "case lte_calls 70 lte_demo_calls lte_api_start of Inl c \<Rightarrow> False
    | Inr (n, d, api') \<Rightarrow> n = 6 \<and> d = 2 \<and> lapi_out api' = [X2apEndcLteInfo 70 3 0, X2apEndcLteInfo 71 0 0]" by code_simp
  then obtain api' where r: "lte_calls 70 lte_demo_calls lte_api_start = Inr (6, 2, api')"
    "lapi_out api' = [X2apEndcLteInfo 70 3 0, X2apEndcLteInfo 71 0 0]" by (auto split: sum.splits)
  from lte_reports_exact [OF lte_demo_start(1,3) r(1)] r lte_demo_start(2) [of 70] show ?thesis by (simp add: lapi_balance_def)
qed

section \<open>Calls that end the process\<close>

definition lte_fails :: "crash \<Rightarrow> ('a \<times> lte_api) result \<Rightarrow> bool" where
  "lte_fails c r = (case r of Inl c' \<Rightarrow> c' = c | Inr x \<Rightarrow> False)"

text \<open>
  A session of MBMS whose bearer is not one of the five of a UE, which is every session of a service with
  another last byte than 0, makes RRC read outside of the array before the number is checked.
\<close>

theorem lte_mbms_out_of_bounds:
  assumes "lte_mbms_drb s = Inr drb_id" "drb_id < 1 \<or> drb_id > 5"
    and "lapi_manager api = Some m" "\<not> lg_lock m" "\<And>ue. ue \<in> set (lg_ue_list m) \<Longrightarrow> length (le_drb ue) = 5"
  shows "lte_fails OutOfBounds (lte_add_mbms s api)"
proof -
  obtain e where e: "new_rlc_entity_um 1000000 1000000 0 5 = Inr e" by (simp add: new_rlc_entity_um_def)
  obtain i m1 where g: "rlc_manager_get_ue (m\<lparr>lg_lock := True\<rparr>) MBMS_RNTI = (i, m1)" by fastforce
  have "length (le_drb (lg_ue_list m1 ! i)) = 5"
    using g by (cases rule: lte_ues.get_ue_cases)
      (use assms(5) lte_ues.get_ue_at(1) [OF g] in \<open>auto simp: rlc_ue_zero_def nth_append\<close>)
  then have "lte_drb_slot (lg_ue_list m1 ! i) (drb_id - 1) = Inl OutOfBounds"
    using assms(2) by (auto simp: lte_drb_slot_def array_get_def)
  then show ?thesis
    using assms(1,3,4) e g by (simp add: lte_fails_def lte_add_mbms_def lte_put_drb_def with_lte_ue_def lapi_lock_def derefR_def
      rlc_manager_lock_def)
qed

theorem lte_mbms_out_of_bounds_witness:
  "lte_fails OutOfBounds (lte_add_mbms \<lparr>ms_logicalChannelIdentity = 1, ms_serviceId = [0, 0, 1]\<rparr> lte_demo_api)"
  by (rule lte_mbms_out_of_bounds [of _ 30 _ "new_rlc_ue_manager 1"])
    (simp_all add: lte_mbms_drb_def array_get_def LTE_maxSessionPerPMCH_def lte_demo_api_def new_rlc_ue_manager_def)

text \<open>
  A PDU for a logical channel that has no bearer ends the base station, where the same call of NR ignores it.
\<close>

theorem lte_unknown_channel_exit:
  assumes "lte_channel_slot c (lapi_entry api rnti) = Inr None" "lapi_manager api = Some m" "\<not> lg_lock m"
  shows "lte_fails Exit (lte_mac_rlc_data_ind junk 0 rnti 0 True mbms c b api)"
proof -
  obtain i m1 where g: "rlc_manager_get_ue (m\<lparr>lg_lock := True\<rparr>) rnti = (i, m1)" by fastforce
  have "lg_ue_list m1 ! i = lapi_entry api rnti"
    using lte_ues.get_ue_entry [OF g] assms(2) by (auto simp: lapi_entry_def split: option.splits)
  then show ?thesis
    using assms g by (simp add: lte_fails_def lte_mac_rlc_data_ind_def lte_ind_target_def with_lte_ue_def lapi_lock_def derefR_def
      rlc_manager_lock_def on_lte_slot_def mapR_def)
qed

theorem lte_unknown_channel_exit_witness:
  "lte_fails Exit (lte_mac_rlc_data_ind 0 0 70 0 True False 3 [0x00, 0x04] lte_demo_api)"
  by (rule lte_unknown_channel_exit [of _ _ _ "new_rlc_ue_manager 1"])
    (simp_all add: lte_channel_slot_def lte_drb_slot_def array_get_def lapi_entry_def lte_demo_api_def new_rlc_ue_manager_def
      rlc_ue_zero_def)

end
