(* ===== verification/Spec2Isabelle.thy ===== *)
theory Spec2Isabelle
  imports Dc_Split Pdcp_Proofs Rlc_Am_Props Rlc_Am_Errors Rlc_Am_Ctrl_Props Rlc_Um_Run Rlc_Tm_Proofs
    Rlc_Api_Srb0 Emu_Tunnel Sdap_Proofs Pdcp_Queue_Proofs User_Plane Pdcp_Reconfig Lte_Um_Props Lte_Am_Errors Lte_Api_Props
begin

text \<open>
  The user plane of the QCON testbed.

  QCON extends the OpenAirInterface base station (\<open>src/testbed/oai/openairinterface5g\<close>, below \<open>OAI\<close>) with dual
  connectivity: PDCP splits the downlink packets of a user between an NR and an LTE leg, and the RLC entities of
  both legs report how many bytes have been acknowledged and how many wait. This development models the path of a
  packet in C: SDAP, PDCP, the split, the queues between the threads, RLC of NR in its three modes, RLC of LTE in
  its two data modes with its interface, and the forwarder of the emulator that the testbed replaces the radios with.

  \<^bold>\<open>Parts and how they interact.\<close>

  \<^item> SDAP (\<open>OAI/openair2/SDAP/nr_sdap\<close>) marks a packet with its QoS flow and chooses the bearer. \<open>Sdap\<close>.

  \<^item> PDCP (\<open>OAI/openair2/LAYER2/nr_pdcp\<close>) numbers, protects and orders packets. The entity (\<open>nr_pdcp_entity.c\<close>) is
  \<open>Pdcp_Entity\<close>; the table of UEs and its mutex (\<open>nr_pdcp_ue_manager.c\<close>) \<open>Pdcp_Ue\<close> over \<open>Ue_Table\<close>; the calls and threads
  of \<open>nr_pdcp_oai_api.c\<close> \<open>Pdcp_Api\<close>, those of RRC \<open>Pdcp_Config\<close>.

  \<^item> The split (\<open>nr_pdcp_dc_split.c\<close> and the forwarding table of \<open>nr_pdcp_oai_api.c\<close>) is \<open>Dc_Split\<close>: for each packet
  \<open>pdcp_multi_path_routing\<close> decides by a history of 50 packets, and a thread updates the target from the reports
  of the two legs.

  \<^item> The queues between the PDCP and RLC threads (\<open>nr_pdcp_oai_api.c\<close>) are \<open>Pdcp_Queue\<close>, a step relation over critical
  sections.

  \<^item> RLC of NR (\<open>OAI/openair2/LAYER2/nr_rlc\<close>): the bit level codec \<open>Rlc_Pdu\<close>, SDUs with reference counts \<open>Rlc_Sdu\<close>, waiting
  times \<open>Time_Stat\<close> (\<open>OAI/common/utils/time_stat.c\<close>), what the modes share \<open>Rlc_Entity\<close>, the acknowledged mode
  \<open>Rlc_Am_Base\<close> (state), \<open>Rlc_Am_Rx\<close> (data), \<open>Rlc_Am_Ctrl\<close> (STATUS PDUs that are received), \<open>Rlc_Am_Status\<close> (those that are
  sent), \<open>Rlc_Am_Tx\<close> (transmission, timers), the unacknowledged mode \<open>Rlc_Um\<close>, the transparent mode \<open>Rlc_Tm\<close>; the
  interface (\<open>nr_rlc_oai_api.c\<close>, \<open>nr_rlc_ue_manager.c\<close>, \<open>asn1_utils.c\<close>) \<open>Rlc_Ue\<close>, \<open>Rlc_Config\<close> and \<open>Rlc_Api\<close>.

  \<^item> RLC of LTE (\<open>OAI/openair2/LAYER2/rlc_v2\<close>): \<open>Lte_Pdu\<close>, the unacknowledged mode \<open>Lte_Um\<close>, the acknowledged mode
  \<open>Lte_Am_Rx\<close>, \<open>Lte_Am_Ctrl\<close> and \<open>Lte_Am_Tx\<close>. A PDU of LTE packs parts of several SDUs, with a length indicator for each
  but the last. QCON counts acknowledged bytes in \<open>cleanup_sdu_list\<close> and reports them in \<open>mac_rlc_data_ind\<close>
  (\<open>la_mac_rlc_data_ind\<close> for one entity). The interface (\<open>rlc_oai_api.c\<close>, \<open>rlc_ue_manager.c\<close>, \<open>asn1_utils.c\<close>) is \<open>Lte_Ue\<close>
  and \<open>Lte_Api\<close>, where the names of the functions have the prefix \<open>lte\<close>.

  \<^item> The emulator (\<open>src/emulator/enhanced_tun_emulator/tun_forwarder.c\<close>) is \<open>Emu_Tunnel\<close>.

  \<open>User_Plane\<close> composes SDAP, PDCP and the split of a base station with PDCP and SDAP of a UE. \<open>Rlc_Api_Srb0\<close> composes the
  RLC interface of both sides with the transparent mode. \<open>Rlc_Am_Link\<close> and \<open>Lte_Um_Props\<close> link two RLC entities.

  \<^bold>\<open>How state and operations correspond to the code.\<close>

  A struct is a record whose fields carry the names of the members with a prefix per record, an enum a datatype. A
  buffer with its size is a list of bytes, read and written through \<open>slice\<close> and \<open>blit\<close>, which fail where C leaves the
  buffer. A linked list is a list; where the code keeps a tail pointer or an address that outlives the list, the
  elements have addresses and the tail is an address, so that a wrong tail or a freed element shows. An operation
  returns \<open>'a result\<close>: \<open>Inl\<close> is a process that ends in \<open>exit\<close> or \<open>abort\<close> (\<open>Exit\<close>), a null pointer (\<open>NullDeref\<close>), an access
  outside a buffer (\<open>OutOfBounds\<close>) or to freed memory (\<open>UseAfterFree\<close>), a call that never returns (\<open>Hang\<close>). Callbacks are
  recorded as events in order and handed on after the call, which the code's callbacks allow: they do not come
  back to the entity. Numbers whose wrap-around matters (COUNT, timers) are words; sizes and sequence numbers, which the
  code keeps small, are integers, and an overflow of \<open>int\<close> is not modelled. The averages of the split are
  rationals in place of doubles.

  \<^bold>\<open>What the lemmas show.\<close>

  \<^item> Codec: \<open>Rlc_Pdu\<close> and \<open>Lte_Pdu\<close>, what the encoder writes the decoder reads, bit by bit.

  \<^item> AM of NR: \<open>Rlc_Am_Sender\<close> and the two theories behind it keep the invariant of the transmit side under every operation;
  \<open>Rlc_Am_Ctrl_Proofs\<close> shows that STATUS PDUs of any bytes are survived and where those that stay within what was sent
  (\<open>status_within_sent\<close>) move every segment; \<open>Rlc_Reassembly\<close> and \<open>Rlc_Am_Rx_Proofs\<close> that SDUs are delivered once and as they were; \<open>Rlc_Am_Link\<close> and
  \<open>Rlc_Am_Props\<close> put both together; \<open>Rlc_Am_Errors\<close> has what goes wrong, the reports of the receiver of this code that do
  not stay within what was sent and the segment they strand among it.

  \<^item> UM and TM of NR: \<open>Rlc_Um_Run\<close> (the stream of bytes is preserved, but for what grants of two bytes lose), \<open>Rlc_Tm_Proofs\<close> (refinement of a bounded queue).

  \<^item> UM of LTE: \<open>Lte_Um_Tx\<close> (what a PDU consists of), \<open>Lte_Um_Link\<close> (what the receiver makes of it), \<open>Lte_Um_Props\<close> (no SDU
  is lost, changed, doubled or reordered whatever the grants, and enough grants drain the transmitter).

  \<^item> AM of LTE: \<open>Lte_Am_Flow\<close> (the way of each byte from a PDU through the lists of segments to its SDU and the count),
  \<open>Lte_Am_Props\<close> (the acknowledged bytes in the reports to the split are exact in every run of all operations),
  \<open>Lte_Am_Errors\<close> (a full window is reported as an empty buffer; PDUs with which a peer ends the process); interface:
  \<open>Lte_Api_Props\<close> (the reports about a UE with acknowledged bearers are exact over all calls, what goes with removed bearers
  and UEs accounted for; MBMS sessions that leave the array of bearers).

  \<^item> PDCP: \<open>Pdcp_Proofs\<close> (COUNT recovery, protection round trip, order, only authentic PDUs), \<open>Pdcp_Run\<close> (typing of the
  tables and isolation of UEs in every run of every call), \<open>Pdcp_Reconfig\<close> (the change of the sequence number size),
  \<open>Pdcp_Queue_Proofs\<close> (refinement of a bounded queue, no lost wake-up).

  \<^item> Split: \<open>Dc_Split\<close> (bounds of the history and the target, the number of LTE packets among the last 50 is one of the two whole
  numbers around the target).

  \<^item> Emulator: \<open>Emu_Tunnel\<close> (which packets go out, on which link and with which checksum, for any outcome of the writes).

  \<^item> Runs: what an operation sequence may contain is part of each statement. Runs have all operations of the component;
  conditions on them (the length of the sequence number and the reports in \<open>am_run\<close>, acknowledged bearers in
  \<open>lte_acknowledged\<close>) are named where the code does not establish them.

  \<^item> Interfaces as locales: \<open>tail_queue\<close> (append at a tail pointer, with instances for the segments of NR and the SDUs of
  LTE), \<open>ue_manager\<close> (operations on one UE do not show in another, with instances for RLC of NR, PDCP and RLC of LTE) and \<open>sn_order\<close> (sequence
  numbers compared from the base of a window, with instances for both windows of AM).

  \<^bold>\<open>Bounds and fuel.\<close>

  Loops over lists and bytes are structural or have a measure. Fuel is used where each round consumes bits of a PDU, with
  the number of its bytes, which is enough since a round consumes 12 bits or more (for STATUS PDUs of NR proved in
  \<open>Rlc_Am_Ctrl_Proofs\<close>, for the length indicators in well-formed PDUs of LTE in
  \<open>Lte_Um_Link\<close>); where a loop steps through sequence numbers,
  with as many rounds as there are numbers, behind which the state of the loop repeats and C never leaves it; and in
  \<open>Time_Stat\<close> and \<open>Emu_Tunnel\<close>, where it is proved to suffice. Running out of fuel is \<open>Hang\<close>, never a result.

  \<^bold>\<open>Assumptions.\<close>

  Ciphers and integrity algorithms are parameters, deciphering undoes ciphering and a MAC has four bytes. The generated
  ASN.1 structures are records of the fields that are read; the kind of node and the F1 identifiers are records of the
  environment. What \<open>select\<close>, \<open>read\<close> and \<open>write\<close> do in the emulator, the time, and the PDUs of a peer are inputs. A critical section of the queues is one step. The RLC lock
  is a flag, and a second lock in the same thread is \<open>Hang\<close>; the recursive mutex of PDCP is a count.

  \<^bold>\<open>Not modelled.\<close>

  Allocation failure, logging and trace macros; the start of threads, sockets and devices; freeing of entities where
  nothing can be seen of it. The RIC and
  the multi connectivity emulator are C++, as is the reporting of PDCP to the RIC. MAC, PHY, RRC, X2AP, GTP, NGAP and the
  core network are upstream code that the QCON path only calls. The PDCP of the tunnel emulator is not part of its
  build: the header it includes is missing.
\<close>

end
